(* ===== verification/Prelude.thy ===== *)
theory Prelude
  imports Complex_Main "HOL-Library.Word" "HOL-Library.AList" "HOL-Library.Sublist"
begin

text \<open>
  What every component of the development shares: bytes, Python values and exceptions, the
  result type of fallible operations, Python's rounding, ordered dictionaries, bounded queues,
  and the locales that state the interfaces between components.

  Numbers.  A Python \<^verbatim>\<open>int\<close> is an \<open>int\<close> (or a \<open>nat\<close> where the code can only produce a
  non-negative one); a byte is an \<open>8 word\<close>.  A Python \<^verbatim>\<open>float\<close> is a \<open>real\<close> where the code only
  does arithmetic and comparisons on finite values (rounding of the last bit is not modelled),
  and a \<open>pyfloat\<close>, which has NaN and the infinities, where the code's behaviour on those matters.

  Exceptions are values: \<open>Inl e\<close> is a raise of \<open>e\<close>, \<open>Inr v\<close> a normal return.  Messages of
  exceptions and log lines are not part of the model.
\<close>

named_theorems keep_intros \<open>operations keep an invariant\<close>

section \<open>Bytes, values, exceptions\<close>

type_synonym byte = "8 word"
type_synonym bytes = "byte list"

lemma byte_unat_lt [simp]: "unat (b :: byte) < 256"
  by (rule order_less_le_trans [OF unsigned_less]) simp

lemma byte_uint_lt [simp]: "uint (b :: byte) < 256"
  by (rule order_less_le_trans [OF unsigned_less]) simp

lemma byte_uint_nonneg [simp]: "0 \<le> uint (b :: byte)"
  by simp

lemma unat_byte_of_nat: "n < 256 \<Longrightarrow> unat (word_of_nat n :: byte) = n"
  by (simp only: unat_of_nat) simp

datatype py_exn =
    TypeError | ValueError | OverflowError | KeyError | IndexError | AttributeError
  | RuntimeError | OSError | StructError

datatype pyfloat = Fin real | PInf | NInf | NaN

text \<open>Comparisons on floats: every comparison with NaN is false.\<close>

fun pf_le :: "pyfloat \<Rightarrow> pyfloat \<Rightarrow> bool" where
  "pf_le (Fin a) (Fin b) = (a \<le> b)"
| "pf_le NaN _ = False"
| "pf_le _ NaN = False"
| "pf_le NInf _ = True"
| "pf_le _ PInf = True"
| "pf_le _ _ = False"

fun pf_lt :: "pyfloat \<Rightarrow> pyfloat \<Rightarrow> bool" where
  "pf_lt (Fin a) (Fin b) = (a < b)"
| "pf_lt NaN _ = False"
| "pf_lt _ NaN = False"
| "pf_lt NInf NInf = False"
| "pf_lt PInf _ = False"
| "pf_lt _ NInf = False"
| "pf_lt NInf _ = True"
| "pf_lt _ PInf = True"

fun pf_isfinite :: "pyfloat \<Rightarrow> bool" where
  "pf_isfinite (Fin _) = True"
| "pf_isfinite _ = False"

fun pf_scale :: "pyfloat \<Rightarrow> real \<Rightarrow> pyfloat" where
  \<comment> \<open>multiplication by a positive finite float\<close>
  "pf_scale (Fin a) k = Fin (a * k)"
| "pf_scale f k = f"

lemma pf_lt_imp_le: "pf_lt a b \<Longrightarrow> pf_le a b"
  by (cases a; cases b) auto

lemma pf_le_Fin_iff:
  "pf_le (Fin a) x \<and> pf_le x (Fin b) \<longleftrightarrow> (\<exists>r. x = Fin r \<and> a \<le> r \<and> r \<le> b)"
  by (cases x) auto

text \<open>The values \<^verbatim>\<open>json.loads\<close> returns.  An object is the list of its items in order.\<close>

datatype json =
    JNull
  | JBool bool
  | JInt int
  | JFloat pyfloat
  | JStr string
  | JArr "json list"
  | JObj "(string \<times> json) list"

text \<open>The truth value of a JSON value, as \<^verbatim>\<open>or\<close> and \<^verbatim>\<open>bool()\<close> see it.\<close>

fun truthy :: "json \<Rightarrow> bool" where
  "truthy JNull = False"
| "truthy (JBool b) = b"
| "truthy (JInt i) = (i \<noteq> 0)"
| "truthy (JFloat f) = (f \<noteq> Fin 0)"
| "truthy (JStr s) = (s \<noteq> [])"
| "truthy (JArr xs) = (xs \<noteq> [])"
| "truthy (JObj kvs) = (kvs \<noteq> [])"

text \<open>\<^verbatim>\<open>round(x)\<close> on a finite float: to the nearest integer, ties to the even one.\<close>

definition py_round :: "real \<Rightarrow> int" where
  "py_round x =
     (let f = \<lfloor>x\<rfloor>; d = x - real_of_int f
      in if d < 1/2 then f else if 1/2 < d then f + 1 else if even f then f else f + 1)"

lemma py_round_of_int [simp]: "py_round (real_of_int k) = k"
  by (simp add: py_round_def)

lemma py_round_bounds: "x - 1/2 \<le> real_of_int (py_round x)" "real_of_int (py_round x) \<le> x + 1/2"
  unfolding py_round_def Let_def by (auto, linarith+)

lemma py_round_error: "\<bar>real_of_int (py_round x) - x\<bar> \<le> 1/2"
  using py_round_bounds [of x] by linarith

lemma py_round_mono: "x \<le> y \<Longrightarrow> py_round x \<le> py_round y"
proof -
  assume le: "x \<le> y"
  show ?thesis
  proof (cases "\<lfloor>x\<rfloor> = \<lfloor>y\<rfloor>")
    case True
    then show ?thesis using le by (auto simp: py_round_def Let_def)
  next
    case False
    with le have "\<lfloor>x\<rfloor> + 1 \<le> \<lfloor>y\<rfloor>" using floor_mono [OF le] by linarith
    moreover have "py_round x \<le> \<lfloor>x\<rfloor> + 1" "\<lfloor>y\<rfloor> \<le> py_round y"
      by (auto simp: py_round_def Let_def)
    ultimately show ?thesis by linarith
  qed
qed

lemma py_round_nonneg: "0 \<le> x \<Longrightarrow> 0 \<le> py_round x"
  using py_round_mono [of 0 x] by (simp add: py_round_def)

section \<open>Results\<close>

text \<open>Sequencing of fallible computations: the first raise ends the sequence.\<close>

definition then_ok :: "'e + 'a \<Rightarrow> ('a \<Rightarrow> 'e + 'b) \<Rightarrow> 'e + 'b" where
  "then_ok r f = (case r of Inl e \<Rightarrow> Inl e | Inr v \<Rightarrow> f v)"

lemma then_ok_simps [simp]:
  "then_ok (Inl e) f = Inl e"
  "then_ok (Inr v) f = f v"
  by (simp_all add: then_ok_def)

lemma then_ok_Inr_iff: "then_ok r f = Inr b \<longleftrightarrow> (\<exists>a. r = Inr a \<and> f a = Inr b)"
  by (cases r) auto

lemma then_ok_Inl_iff:
  "then_ok r f = Inl e \<longleftrightarrow> r = Inl e \<or> (\<exists>a. r = Inr a \<and> f a = Inl e)"
  by (cases r) auto

fun map_ok :: "('a \<Rightarrow> 'e + 'b) \<Rightarrow> 'a list \<Rightarrow> 'e + 'b list" where
  "map_ok f [] = Inr []"
| "map_ok f (x # xs) = then_ok (f x) (\<lambda>y. then_ok (map_ok f xs) (\<lambda>ys. Inr (y # ys)))"

section \<open>Sequences and text\<close>

text \<open>\<^verbatim>\<open>xs[i]\<close> and \<^verbatim>\<open>xs[i] = v\<close>: a negative index counts from the end.\<close>

definition py_pos :: "'a list \<Rightarrow> int \<Rightarrow> nat option" where
  "py_pos xs i =
     (let j = (if i < 0 then i + int (length xs) else i)
      in if 0 \<le> j \<and> j < int (length xs) then Some (nat j) else None)"

definition py_index :: "'a list \<Rightarrow> int \<Rightarrow> py_exn + 'a" where
  "py_index xs i = (case py_pos xs i of None \<Rightarrow> Inl IndexError | Some j \<Rightarrow> Inr (xs ! j))"

definition py_store :: "'a list \<Rightarrow> int \<Rightarrow> 'a \<Rightarrow> py_exn + 'a list" where
  "py_store xs i v = (case py_pos xs i of None \<Rightarrow> Inl IndexError | Some j \<Rightarrow> Inr (xs[j := v]))"

lemma py_pos_lt: "py_pos xs i = Some j \<Longrightarrow> j < length xs"
  by (auto simp: py_pos_def Let_def split: if_splits)

lemma py_pos_update [simp]: "py_pos (xs[j := v]) i = py_pos xs i"
  by (simp add: py_pos_def)

text \<open>\<^verbatim>\<open>str\<close> of an integer.\<close>

fun str_nat :: "nat \<Rightarrow> string" where
  "str_nat n =
     (if n < 10 then [char_of (48 + n)] else str_nat (n div 10) @ [char_of (48 + n mod 10)])"

declare str_nat.simps [simp del]

definition str_int :: "int \<Rightarrow> string" where
  "str_int i = (if i < 0 then CHR ''-'' # str_nat (nat (- i)) else str_nat (nat i))"

section \<open>Ordered dictionaries\<close>

text \<open>
  A Python dictionary whose order matters is the association list of its items:
  \<open>AList.update\<close> overwrites in place or appends, \<open>AList.delete\<close> removes, the front is the oldest
  item.  \<open>move_to_end\<close> is \<^verbatim>\<open>OrderedDict.move_to_end\<close> of a key that is present.
\<close>

definition move_to_end :: "'k \<Rightarrow> ('k \<times> 'v) list \<Rightarrow> ('k \<times> 'v) list" where
  "move_to_end k d =
     (case map_of d k of None \<Rightarrow> d | Some v \<Rightarrow> AList.delete k d @ [(k, v)])"

lemma keys_distinct_update [simp]:
  "distinct (map fst d) \<Longrightarrow> distinct (map fst (AList.update k v d))"
  by (rule distinct_update)

lemma keys_distinct_delete [simp]:
  "distinct (map fst d) \<Longrightarrow> distinct (map fst (AList.delete k d))"
  by (rule distinct_delete)

lemma keys_delete: "fst ` set (AList.delete k d) = fst ` set d - {k}"
  by (auto simp: AList.delete_eq image_iff) 

lemma keys_update: "fst ` set (AList.update k v d) = insert k (fst ` set d)"
  by (metis dom_map_of_conv_image_fst update_conv' dom_fun_upd option.discI)

lemma map_of_eq_Some_of_update [simp]: "map_of (AList.update k v d) k = Some v"
  by (simp add: update_conv)

lemma move_to_end_keys_distinct [simp]:
  "distinct (map fst d) \<Longrightarrow> distinct (map fst (move_to_end k d))"
  by (auto simp: move_to_end_def keys_delete simp flip: image_set split: option.split)

text \<open>\<^verbatim>\<open>deque(maxlen=n).append(x)\<close>: the oldest items fall out at the front.\<close>

definition deque_append :: "nat \<Rightarrow> 'a list \<Rightarrow> 'a \<Rightarrow> 'a list" where
  "deque_append n xs x = drop (Suc (length xs) - n) (xs @ [x])"

lemma length_deque_append [simp]: "length (deque_append n xs x) = min n (Suc (length xs))"
  by (simp add: deque_append_def)

lemma deque_append_last: "0 < n \<Longrightarrow> deque_append n xs x = drop (Suc (length xs) - n) xs @ [x]"
  by (simp add: deque_append_def)

lemma in_deque_append: "0 < n \<Longrightarrow> x \<in> set (deque_append n xs x)"
  by (simp add: deque_append_last)

section \<open>Interfaces\<close>

text \<open>
  A component with state is a step function over its events.  What every step keeps holds after
  any run, and at every point of it.
\<close>

locale invariant_machine =
  fixes step :: "'s \<Rightarrow> 'e \<Rightarrow> 's"
    and inv :: "'s \<Rightarrow> bool"
  assumes inv_step: "inv s \<Longrightarrow> inv (step s e)"
begin

lemma inv_run: "inv s \<Longrightarrow> inv (foldl step s es)"
  by (induction es arbitrary: s) (auto intro: inv_step)

lemma inv_prefix:
  assumes "inv s" and "prefix es' es"
  shows "inv (foldl step s es')"
  using assms(1) by (rule inv_run)

end

text \<open>
  A pair of an encoder and a decoder, both fallible.  \<open>wf\<close> says which values the encoder accepts;
  \<open>norm\<close> is what a value becomes on the wire (the identity where the format is lossless).
\<close>

locale wire_codec =
  fixes enc :: "'a \<Rightarrow> 'e + 'b"
    and dec :: "'b \<Rightarrow> 'f + 'a"
    and wf :: "'a \<Rightarrow> bool"
    and norm :: "'a \<Rightarrow> 'a"
  assumes enc_total: "wf x \<Longrightarrow> \<exists>b. enc x = Inr b"
    and dec_enc: "wf x \<Longrightarrow> enc x = Inr b \<Longrightarrow> dec b = Inr (norm x)"
begin

lemma roundtrip: "wf x \<Longrightarrow> \<exists>b. enc x = Inr b \<and> dec b = Inr (norm x)"
  using enc_total dec_enc by blast

lemma enc_separates:
  assumes "wf x" "wf y" "enc x = Inr b" "enc y = Inr b"
  shows "norm x = norm y"
  using dec_enc [OF assms(1,3)] dec_enc [OF assms(2,4)] by simp

end

text \<open>
  A bounded queue that drops the newest item when it is full and counts what it dropped: an item
  that was accepted is never lost or reordered, and every offered item is either queued or counted.
\<close>

locale drop_newest_queue =
  fixes put :: "'q \<Rightarrow> 'a \<Rightarrow> 'q"
    and items :: "'q \<Rightarrow> 'a list"
    and dropped :: "'q \<Rightarrow> nat"
    and room :: "'q \<Rightarrow> bool"
  assumes put_room: "room q \<Longrightarrow> items (put q x) = items q @ [x] \<and> dropped (put q x) = dropped q"
    and put_full: "\<not> room q \<Longrightarrow> items (put q x) = items q \<and> dropped (put q x) = Suc (dropped q)"
begin

lemma put_run_prefix: "prefix (items q) (items (foldl put q xs))"
proof (induction xs arbitrary: q)
  case Nil
  then show ?case by simp
next
  case (Cons x xs)
  have "prefix (items q) (items (put q x))"
    by (cases "room q") (simp_all add: put_room put_full)
  also have "prefix (items (put q x)) (items (foldl put (put q x) xs))"
    by (rule Cons.IH)
  finally show ?case by simp
qed

lemma put_run_accounts:
  "length (items (foldl put q xs)) + dropped (foldl put q xs) =
   length (items q) + dropped q + length xs"
proof (induction xs arbitrary: q)
  case Nil
  then show ?case by simp
next
  case (Cons x xs)
  then show ?case
    by (cases "room q") (simp_all add: put_room put_full)
qed

lemma put_run_subseq: "\<exists>ys. items (foldl put q xs) = items q @ ys \<and> subseq ys xs"
proof (induction xs arbitrary: q)
  case Nil
  then show ?case by simp
next
  case (Cons x xs)
  obtain ys where ys: "items (foldl put (put q x) xs) = items (put q x) @ ys" "subseq ys xs"
    using Cons.IH by blast
  show ?case
  proof (cases "room q")
    case True
    then have "items (foldl put q (x # xs)) = items q @ (x # ys)"
      using ys put_room by simp
    moreover have "subseq (x # ys) (x # xs)" using ys(2) by simp
    ultimately show ?thesis by blast
  next
    case False
    then have "items (foldl put q (x # xs)) = items q @ ys"
      using ys put_full by simp
    moreover have "subseq ys (x # xs)" using ys(2) by (rule list_emb_Cons)
    ultimately show ?thesis by blast
  qed
qed

end

end
