(* ===== verification/Py_Strings.thy ===== *)
theory Py_Strings
  imports Prelude
begin

text \<open>
  Python's string operations that the program uses, and the numbers it reads from text.  A
  \<open>string\<close> stands for a Python text by the bytes of its UTF-8 encoding, so encoding is the identity
  and decoding a check of well-formedness; case mapping and blanks are those of the ASCII
  characters.  \<^verbatim>\<open>float()\<close> of a decimal literal is its exact value, so the rounding to the
  nearest double is left out but overflow to infinity is not.
\<close>

section \<open>Case, blanks, separators\<close>

definition code :: "char \<Rightarrow> nat" where
  "code c = of_char c"

definition lower_char :: "char \<Rightarrow> char" where
  "lower_char c =
     (let n = code c
      in if 65 \<le> n \<and> n \<le> 90 then char_of (n + 32) else c)"

definition py_lower :: "string \<Rightarrow> string" where
  "py_lower s = map lower_char s"

definition upper_char :: "char \<Rightarrow> char" where
  \<comment> \<open>of an ASCII letter\<close>
  "upper_char c = (let n = code c in if 97 \<le> n \<and> n \<le> 122 then char_of (n - 32) else c)"

definition py_upper :: "string \<Rightarrow> string" where
  "py_upper s = map upper_char s"

definition is_space :: "char \<Rightarrow> bool" where
  "is_space c =
     (let n = code c in (9 \<le> n \<and> n \<le> 13) \<or> (28 \<le> n \<and> n \<le> 32))"

definition py_strip :: "string \<Rightarrow> string" where
  "py_strip s = rev (dropWhile is_space (rev (dropWhile is_space s)))"

text \<open>\<^verbatim>\<open>s.partition(c)\<close> for a one-character separator: before, whether found, after.\<close>

definition py_partition :: "char \<Rightarrow> string \<Rightarrow> string \<times> bool \<times> string" where
  "py_partition c s =
     (takeWhile (\<lambda>x. x \<noteq> c) s, c \<in> set s, drop 1 (dropWhile (\<lambda>x. x \<noteq> c) s))"

text \<open>\<^verbatim>\<open>s.split(c)\<close>.\<close>

fun py_split :: "char \<Rightarrow> string \<Rightarrow> string list" where
  "py_split c [] = [[]]"
| "py_split c (x # xs) =
     (if x = c then [] # py_split c xs
      else case py_split c xs of [] \<Rightarrow> [[x]] | w # ws \<Rightarrow> (x # w) # ws)"

definition csv_items :: "string \<Rightarrow> string list" where
  \<comment> \<open>the comprehension over \<^verbatim>\<open>s.split(",")\<close> that keeps the trimmed non-empty items\<close>
  "csv_items s = filter (\<lambda>w. w \<noteq> []) (map py_strip (py_split CHR '','' s))"

lemma py_split_nonempty [simp]: "py_split c s \<noteq> []"
  by (induction s) (auto split: list.split)

lemma py_split_join:
  "c \<notin> set w \<Longrightarrow> py_split c (w @ c # s) = w # py_split c s"
  by (induction w) (auto split: list.split)

lemma py_split_whole: "c \<notin> set w \<Longrightarrow> py_split c w = [w]"
  by (induction w) auto

lemma set_strip: "set (py_strip s) \<subseteq> set s"
  unfolding py_strip_def by (auto dest!: set_dropWhileD)

lemma strip_fixed:
  assumes "s \<noteq> []" "\<not> is_space (hd s)" "\<not> is_space (last s)"
  shows "py_strip s = s"
proof -
  have a: "dropWhile is_space s = s" using assms by (cases s) auto
  have b: "dropWhile is_space (rev s) = rev s" using assms by (cases s rule: rev_cases) auto
  show ?thesis by (simp add: py_strip_def a b)
qed

lemma partition_append:
  "c \<notin> set s \<Longrightarrow> py_partition c (s @ c # t) = (s, True, t)"
proof (induction s)
  case (Cons x s)
  then show ?case by (auto simp: py_partition_def)
qed (simp add: py_partition_def)

lemma partition_none: "c \<notin> set s \<Longrightarrow> py_partition c s = (s, False, [])"
proof -
  assume "c \<notin> set s"
  then have "dropWhile (\<lambda>x. x \<noteq> c) s = []" "takeWhile (\<lambda>x. x \<noteq> c) s = s"
    by (auto simp: dropWhile_eq_Nil_conv takeWhile_eq_all_conv)
  with \<open>c \<notin> set s\<close> show ?thesis unfolding py_partition_def by (simp only: drop_Nil)
qed

lemma partition_found:
  assumes "py_partition c s = (a, True, b)"
  shows "s = a @ c # b \<and> c \<notin> set a"
proof -
  have c: "c \<in> set s" and a: "a = takeWhile (\<lambda>x. x \<noteq> c) s"
    and b: "b = drop 1 (dropWhile (\<lambda>x. x \<noteq> c) s)"
    using assms by (auto simp: py_partition_def)
  from c have "dropWhile (\<lambda>x. x \<noteq> c) s \<noteq> []" by (auto simp: dropWhile_eq_Nil_conv)
  then obtain d ds where d: "dropWhile (\<lambda>x. x \<noteq> c) s = d # ds" by (cases "dropWhile (\<lambda>x. x \<noteq> c) s") auto
  then have "d = c" using hd_dropWhile [of "\<lambda>x. x \<noteq> c" s] by simp
  with d a b have "s = a @ c # b" by (metis One_nat_def drop0 drop_Suc_Cons takeWhile_dropWhile_id)
  then show ?thesis using a by (auto dest: set_takeWhileD)
qed

section \<open>Numbers from text\<close>

definition is_digit :: "char \<Rightarrow> bool" where
  "is_digit c = (48 \<le> code c \<and> code c \<le> 57)"

text \<open>Digits, with single underscores allowed between two digits.\<close>

fun digits_value :: "bool \<Rightarrow> nat \<Rightarrow> string \<Rightarrow> nat option" where
  \<comment> \<open>the flag: the character before was a digit\<close>
  "digits_value after_digit acc [] = (if after_digit then Some acc else None)"
| "digits_value after_digit acc (c # cs) =
     (if is_digit c then digits_value True (10 * acc + (code c - 48)) cs
      else if c = CHR ''_'' \<and> after_digit then digits_value False acc cs
      else None)"

definition unsigned_int :: "string \<Rightarrow> nat option" where
  "unsigned_int s = digits_value False 0 s"

definition split_sign :: "string \<Rightarrow> bool \<times> string" where
  "split_sign s =
     (case s of
        c # cs \<Rightarrow> if c = CHR ''-'' then (True, cs) else if c = CHR ''+'' then (False, cs) else (False, s)
      | [] \<Rightarrow> (False, []))"

text \<open>\<^verbatim>\<open>int(s)\<close>: \<open>None\<close> is a ValueError.\<close>

definition py_int_str :: "string \<Rightarrow> int option" where
  "py_int_str s =
     (case split_sign (py_strip s) of
        (neg, body) \<Rightarrow> map_option (\<lambda>n. if neg then - int n else int n) (unsigned_int body))"

text \<open>\<^verbatim>\<open>float(s)\<close>.\<close>

definition float_of_real :: "real \<Rightarrow> pyfloat" where
  "float_of_real r = (if 2 ^ 1024 \<le> r then PInf else if r \<le> - (2 ^ 1024) then NInf else Fin r)"

definition digit_count :: "string \<Rightarrow> nat" where
  "digit_count s = length (filter is_digit s)"

text \<open>Mantissa with an optional point; at least one digit in all.\<close>

definition mantissa_value :: "string \<Rightarrow> real option" where
  "mantissa_value s =
     (case py_partition CHR ''.'' s of
        (a, found, b) \<Rightarrow>
          if \<not> found then map_option real (unsigned_int a)
          else if a = [] \<and> b = [] then None
          else
            case (if a = [] then Some 0 else unsigned_int a, if b = [] then Some 0 else unsigned_int b) of
              (Some i, Some f) \<Rightarrow> Some (real i + real f / 10 ^ digit_count b)
            | _ \<Rightarrow> None)"

definition exponent_value :: "string \<Rightarrow> int option" where
  "exponent_value s =
     (case split_sign s of
        (neg, body) \<Rightarrow> map_option (\<lambda>n. if neg then - int n else int n) (unsigned_int body))"

definition decimal_value :: "string \<Rightarrow> real option" where
  "decimal_value s =
     (case py_partition CHR ''e'' s of
        (m, found, e) \<Rightarrow>
          if \<not> found then mantissa_value m
          else
            case (mantissa_value m, exponent_value e) of
              (Some r, Some k) \<Rightarrow> Some (if 0 \<le> k then r * 10 ^ nat k else r / 10 ^ nat (- k))
            | _ \<Rightarrow> None)"

definition py_float_str :: "string \<Rightarrow> pyfloat option" where
  "py_float_str s =
     (case split_sign (py_lower (py_strip s)) of
        (neg, body) \<Rightarrow>
          if body = ''inf'' \<or> body = ''infinity'' then Some (if neg then NInf else PInf)
          else if body = ''nan'' then Some NaN
          else map_option (\<lambda>r. float_of_real (if neg then - r else r)) (decimal_value body))"

text \<open>\<^verbatim>\<open>int(str(i)) = i\<close>.\<close>

lemma code_char_of [simp]: "n < 256 \<Longrightarrow> code (char_of n) = n"
  by (simp add: code_def)

lemma digits_value_append:
  "digits_value b acc (xs @ [c]) =
     (if is_digit c then
        (case digits_value b acc xs of Some v \<Rightarrow> Some (10 * v + (code c - 48))
         | None \<Rightarrow> digits_value b acc (xs @ [c]))
      else digits_value b acc (xs @ [c]))"
proof (induction xs arbitrary: b acc)
  case Nil
  then show ?case by (cases b) auto
next
  case (Cons x xs)
  show ?case using Cons.IH [of True "10 * acc + (code x - 48)"] Cons.IH [of False acc]
    by (auto split: option.splits if_splits)
qed

lemma digits_value_snoc:
  "digits_value b acc xs = Some v \<Longrightarrow> is_digit c \<Longrightarrow>
   digits_value b acc (xs @ [c]) = Some (10 * v + (code c - 48))"
  by (subst digits_value_append) simp

lemma is_digit_char_of: "(d :: nat) < 10 \<Longrightarrow> is_digit (char_of (48 + d))"
  by (simp add: is_digit_def)

lemma unsigned_int_str_nat: "unsigned_int (str_nat n) = Some n"
  unfolding unsigned_int_def
proof (induction n rule: str_nat.induct)
  case (1 n)
  show ?case
  proof (cases "n < 10")
    case True
    then show ?thesis by (simp add: str_nat.simps [of n] is_digit_char_of)
  next
    case False
    have "digits_value False 0 (str_nat (n div 10)) = Some (n div 10)" using 1 False by simp
    from digits_value_snoc [OF this is_digit_char_of, of "n mod 10"] False
    show ?thesis by (simp add: str_nat.simps [of n])
  qed
qed

lemma str_nat_digits: "c \<in> set (str_nat n) \<Longrightarrow> is_digit c"
proof (induction n rule: str_nat.induct)
  case (1 n)
  then show ?case
    using is_digit_char_of [of "n mod 10"]
    by (subst (asm) (2) str_nat.simps) (auto simp: is_digit_char_of split: if_splits)
qed

lemma str_nat_nonempty [simp]: "str_nat n \<noteq> []"
  by (subst str_nat.simps) simp

lemma digit_not_space: "is_digit c \<Longrightarrow> \<not> is_space c"
  by (auto simp: is_digit_def is_space_def Let_def)

lemma py_int_str_int: "py_int_str (str_int i) = Some i"
proof -
  have hd_digit: "is_digit (hd (str_nat n))" and last_digit: "is_digit (last (str_nat n))" for n
    using str_nat_digits [of _ n] by simp_all
  have minus: "\<not> is_digit CHR ''-''" "\<not> is_space CHR ''-''" "\<not> is_digit CHR ''+''"
    by (simp_all add: is_digit_def is_space_def code_def)
  have strip: "py_strip (str_int i) = str_int i"
    using hd_digit last_digit digit_not_space minus
    by (intro strip_fixed) (auto simp: str_int_def)
  show ?thesis
  proof (cases "i < 0")
    case True
    then show ?thesis unfolding py_int_str_def strip
      by (simp add: str_int_def split_sign_def unsigned_int_str_nat)
  next
    case False
    obtain c cs where "str_nat (nat i) = c # cs" by (cases "str_nat (nat i)") auto
    moreover from this have "is_digit c" using hd_digit [of "nat i"] by simp
    ultimately have "split_sign (str_nat (nat i)) = (False, str_nat (nat i))"
      using minus by (auto simp: split_sign_def)
    with False show ?thesis unfolding py_int_str_def strip
      by (simp add: str_int_def unsigned_int_str_nat)
  qed
qed

section \<open>UTF-8\<close>

definition byte_of_char :: "char \<Rightarrow> byte" where
  "byte_of_char c = word_of_nat (code c)"

definition char_of_byte :: "byte \<Rightarrow> char" where
  "char_of_byte b = char_of (unat b)"

definition utf8_encode :: "string \<Rightarrow> bytes" where
  "utf8_encode s = map byte_of_char s"

text \<open>The well-formed sequences, as strict decoding accepts them (no surrogates, shortest forms).\<close>

definition cont :: "byte \<Rightarrow> bool" where
  "cont b \<longleftrightarrow> 0x80 \<le> unat b \<and> unat b \<le> 0xBF"

fun utf8_valid :: "bytes \<Rightarrow> bool" where
  "utf8_valid [] = True"
| "utf8_valid (a # bs) =
     (let n = unat a
      in if n \<le> 0x7F then utf8_valid bs
         else if 0xC2 \<le> n \<and> n \<le> 0xDF then
           (case bs of b # r \<Rightarrow> cont b \<and> utf8_valid r | _ \<Rightarrow> False)
         else if 0xE0 \<le> n \<and> n \<le> 0xEF then
           (case bs of
              b # c # r \<Rightarrow>
                cont b \<and> cont c \<and> (n = 0xE0 \<longrightarrow> 0xA0 \<le> unat b) \<and> (n = 0xED \<longrightarrow> unat b \<le> 0x9F) \<and> utf8_valid r
            | _ \<Rightarrow> False)
         else if 0xF0 \<le> n \<and> n \<le> 0xF4 then
           (case bs of
              b # c # d # r \<Rightarrow>
                cont b \<and> cont c \<and> cont d \<and> (n = 0xF0 \<longrightarrow> 0x90 \<le> unat b) \<and> (n = 0xF4 \<longrightarrow> unat b \<le> 0x8F) \<and> utf8_valid r
            | _ \<Rightarrow> False)
         else False)"

definition utf8_decode :: "bytes \<Rightarrow> string option" where
  "utf8_decode bs = (if utf8_valid bs then Some (map char_of_byte bs) else None)"

lemma char_byte_inverse [simp]: "char_of_byte (byte_of_char c) = c"
proof -
  have "code c < 256" by (simp add: code_def)
  then show ?thesis by (simp add: char_of_byte_def byte_of_char_def unat_byte_of_nat) (simp add: code_def)
qed

lemma byte_char_inverse [simp]: "byte_of_char (char_of_byte b) = b"
  by (simp add: char_of_byte_def byte_of_char_def)

text \<open>A string of the model is one that Python can have: its bytes are well-formed.\<close>

definition text_ok :: "string \<Rightarrow> bool" where
  "text_ok s \<longleftrightarrow> utf8_valid (utf8_encode s)"

lemma utf8_decode_encode: "text_ok s \<Longrightarrow> utf8_decode (utf8_encode s) = Some s"
  by (simp add: utf8_decode_def text_ok_def) (simp add: utf8_encode_def comp_def)

lemma utf8_encode_decode: "utf8_decode bs = Some s \<Longrightarrow> utf8_encode s = bs \<and> text_ok s"
  by (auto simp: utf8_decode_def utf8_encode_def text_ok_def comp_def split: if_splits)

lemma length_utf8_encode [simp]: "length (utf8_encode s) = length s"
  by (simp add: utf8_encode_def)

end
