(* ===== verification/Command_Spec.thy ===== *)
theory Command_Spec
  imports Py_Strings
begin

text \<open>
  The bounded command set and its allow-list, \<^verbatim>\<open>meshsa/command/commands.py\<close> and
  \<^verbatim>\<open>errors.py\<close>.  The keyword parameters of a command arrive from the HTTP endpoint as a JSON
  object, so a builder takes the list of its items; Python's own checks of keyword arguments
  (missing, unexpected, given twice) are the \<open>TypeError\<close> branches.
\<close>

section \<open>Errors\<close>

datatype command_error =
    UnknownCommandError string
  | CommandNotAllowedError string
  | ForceDisarmDisabledError string
  | UnknownConfirmationError string
  | ForceConfirmationRequired string
  | ArmBlockedError

text \<open>What a call of the command path can raise: a refusal, or any other exception.\<close>

datatype cmd_exn = Refused command_error | Raised py_exn

section \<open>Constants\<close>

definition MAV_CMD_NAV_RETURN_TO_LAUNCH :: int where "MAV_CMD_NAV_RETURN_TO_LAUNCH = 20"
definition MAV_CMD_DO_SET_MODE :: int where "MAV_CMD_DO_SET_MODE = 176"
definition MAV_CMD_DO_REPOSITION :: int where "MAV_CMD_DO_REPOSITION = 192"
definition MAV_CMD_COMPONENT_ARM_DISARM :: int where "MAV_CMD_COMPONENT_ARM_DISARM = 400"
definition MAV_MODE_FLAG_CUSTOM_MODE_ENABLED :: int where "MAV_MODE_FLAG_CUSTOM_MODE_ENABLED = 1"
definition MAV_FRAME_GLOBAL_RELATIVE_ALT_INT :: int where "MAV_FRAME_GLOBAL_RELATIVE_ALT_INT = 6"
definition FORCE_DISARM_MAGIC :: pyfloat where "FORCE_DISARM_MAGIC = Fin 21196"
definition DEGE7 :: real where "DEGE7 = 10000000"

definition NO_PARAMS :: "pyfloat list" where
  "NO_PARAMS = [Fin 0, Fin 0, Fin 0, Fin 0, Fin 0, Fin 0, Fin 0]"

lemmas mav_consts =
  MAV_CMD_NAV_RETURN_TO_LAUNCH_def MAV_CMD_DO_SET_MODE_def MAV_CMD_DO_REPOSITION_def
  MAV_CMD_COMPONENT_ARM_DISARM_def MAV_MODE_FLAG_CUSTOM_MODE_ENABLED_def
  MAV_FRAME_GLOBAL_RELATIVE_ALT_INT_def FORCE_DISARM_MAGIC_def

section \<open>Data\<close>

datatype wire_kind = KLong | KInt

text \<open>
  \<open>cs_z\<close> is a raw JSON value: \<^verbatim>\<open>_goto\<close> stores \<^verbatim>\<open>alt_m\<close> without converting it.
\<close>

record command_spec =
  cs_name :: string
  cs_command :: int
  cs_kind :: wire_kind
  cs_params :: "pyfloat list"
  cs_frame :: int
  cs_x :: int
  cs_y :: int
  cs_z :: json
  cs_requires_force_confirm :: bool

record commander_settings =
  allowed :: "string set"
  allow_force_disarm :: bool
  ack_timeout_s :: real
  max_attempts :: int
  arm_report_max_age_s :: real

definition default_commander_settings :: commander_settings where
  "default_commander_settings =
     \<lparr>allowed = {''set_mode'', ''rtl''}, allow_force_disarm = False,
      ack_timeout_s = 2, max_attempts = 3, arm_report_max_age_s = 2\<rparr>"

type_synonym kwargs = "(string \<times> json) list"

section \<open>Conversions of parameter values\<close>

text \<open>
  \<^verbatim>\<open>float(v)\<close> of a JSON value.  An integer too large for a double raises OverflowError.
\<close>

definition py_float :: "json \<Rightarrow> py_exn + pyfloat" where
  "py_float v =
     (case v of
        JInt i \<Rightarrow> if \<bar>i\<bar> < 2 ^ 1024 then Inr (Fin (real_of_int i)) else Inl OverflowError
      | JFloat f \<Rightarrow> Inr f
      | JBool b \<Rightarrow> Inr (Fin (if b then 1 else 0))
      | JStr s \<Rightarrow> (case py_float_str s of None \<Rightarrow> Inl ValueError | Some f \<Rightarrow> Inr f)
      | _ \<Rightarrow> Inl TypeError)"

text \<open>\<^verbatim>\<open>v * 1e7\<close>: a number is scaled, a string, list, object or null times a float is a TypeError.\<close>

definition times_degE7 :: "json \<Rightarrow> py_exn + pyfloat" where
  "times_degE7 v =
     (case v of
        JInt i \<Rightarrow> if \<bar>i\<bar> < 2 ^ 1024 then Inr (Fin (real_of_int i * DEGE7)) else Inl OverflowError
      | JFloat f \<Rightarrow> Inr (pf_scale f DEGE7)
      | JBool b \<Rightarrow> Inr (Fin ((if b then 1 else 0) * DEGE7))
      | _ \<Rightarrow> Inl TypeError)"

text \<open>\<^verbatim>\<open>int(round(x))\<close>: NaN raises ValueError, an infinity raises OverflowError.\<close>

fun int_round :: "pyfloat \<Rightarrow> py_exn + int" where
  "int_round (Fin r) = Inr (py_round r)"
| "int_round NaN = Inl ValueError"
| "int_round _ = Inl OverflowError"

text \<open>
  The values of a builder's parameters, in the builder's order: TypeError unless the keyword
  arguments are exactly the parameter names.
\<close>

definition bind_kwargs :: "string list \<Rightarrow> kwargs \<Rightarrow> py_exn + json list" where
  "bind_kwargs names kw =
     (if list_all (\<lambda>k. k \<in> set names) (map fst kw) \<and> list_all (\<lambda>n. n \<in> set (map fst kw)) names
      then Inr (map (\<lambda>n. the (map_of kw n)) names)
      else Inl TypeError)"

section \<open>Builders\<close>

definition long_command :: "string \<Rightarrow> int \<Rightarrow> pyfloat list \<Rightarrow> command_spec" where
  \<comment> \<open>the defaults of the dataclass for a COMMAND_LONG\<close>
  "long_command n c p =
     \<lparr>cs_name = n, cs_command = c, cs_kind = KLong, cs_params = p, cs_frame = 0, cs_x = 0,
      cs_y = 0, cs_z = JFloat (Fin 0), cs_requires_force_confirm = False\<rparr>"

definition build_arm :: "kwargs \<Rightarrow> py_exn + command_spec" where
  "build_arm kw = then_ok (bind_kwargs [] kw) (\<lambda>_.
     Inr (long_command ''arm'' MAV_CMD_COMPONENT_ARM_DISARM
            [Fin 1, Fin 0, Fin 0, Fin 0, Fin 0, Fin 0, Fin 0]))"

definition build_disarm :: "kwargs \<Rightarrow> py_exn + command_spec" where
  "build_disarm kw = then_ok (bind_kwargs [] kw) (\<lambda>_.
     Inr (long_command ''disarm'' MAV_CMD_COMPONENT_ARM_DISARM
            [Fin 0, Fin 0, Fin 0, Fin 0, Fin 0, Fin 0, Fin 0]))"

definition build_force_disarm :: "kwargs \<Rightarrow> py_exn + command_spec" where
  "build_force_disarm kw = then_ok (bind_kwargs [] kw) (\<lambda>_.
     Inr ((long_command ''force_disarm'' MAV_CMD_COMPONENT_ARM_DISARM
             [Fin 0, FORCE_DISARM_MAGIC, Fin 0, Fin 0, Fin 0, Fin 0, Fin 0])
            \<lparr>cs_requires_force_confirm := True\<rparr>))"

definition build_rtl :: "kwargs \<Rightarrow> py_exn + command_spec" where
  "build_rtl kw = then_ok (bind_kwargs [] kw) (\<lambda>_.
     Inr (long_command ''rtl'' MAV_CMD_NAV_RETURN_TO_LAUNCH NO_PARAMS))"

definition build_set_mode ::
  "kwargs \<Rightarrow> py_exn + command_spec" where
  "build_set_mode kw = then_ok (bind_kwargs [''custom_mode''] kw) (\<lambda>vs.
     then_ok (py_float (vs ! 0)) (\<lambda>mode.
       Inr (long_command ''set_mode'' MAV_CMD_DO_SET_MODE
              [Fin (real_of_int MAV_MODE_FLAG_CUSTOM_MODE_ENABLED), mode,
               Fin 0, Fin 0, Fin 0, Fin 0, Fin 0])))"

definition build_goto :: "kwargs \<Rightarrow> py_exn + command_spec" where
  "build_goto kw = then_ok (bind_kwargs [''lat_deg'', ''lon_deg'', ''alt_m''] kw) (\<lambda>vs.
     then_ok (times_degE7 (vs ! 0)) (\<lambda>lat. then_ok (int_round lat) (\<lambda>x.
     then_ok (times_degE7 (vs ! 1)) (\<lambda>lon. then_ok (int_round lon) (\<lambda>y.
       Inr \<lparr>cs_name = ''goto'', cs_command = MAV_CMD_DO_REPOSITION, cs_kind = KInt,
            cs_params = [Fin (-1), Fin 0, Fin 0, Fin 0],
            cs_frame = MAV_FRAME_GLOBAL_RELATIVE_ALT_INT, cs_x = x, cs_y = y, cs_z = vs ! 2,
            cs_requires_force_confirm = False\<rparr>)))))"

text \<open>The table \<^verbatim>\<open>_BUILDERS\<close>.\<close>

definition builder_for ::
  "string \<Rightarrow> (kwargs \<Rightarrow> py_exn + command_spec) option" where
  "builder_for =
     map_of [(''arm'', build_arm), (''disarm'', build_disarm),
             (''force_disarm'', build_force_disarm), (''rtl'', build_rtl),
             (''set_mode'', build_set_mode), (''goto'', build_goto)]"

text \<open>
  \<^verbatim>\<open>build_command(name, settings, **params)\<close>.  A parameter called \<^verbatim>\<open>name\<close> or \<^verbatim>\<open>settings\<close>
  collides with the function's own arguments: a TypeError of the call itself.
\<close>

definition build_command ::
  "string \<Rightarrow> commander_settings \<Rightarrow> kwargs \<Rightarrow> cmd_exn + command_spec"
where
  "build_command name S kw =
     (if list_ex (\<lambda>k. k = ''name'' \<or> k = ''settings'') (map fst kw) then Inl (Raised TypeError)
      else case builder_for name of
        None \<Rightarrow> Inl (Refused (UnknownCommandError name))
      | Some build \<Rightarrow>
          if name \<notin> allowed S then Inl (Refused (CommandNotAllowedError name))
          else if name = ''force_disarm'' \<and> \<not> allow_force_disarm S
            then Inl (Refused (ForceDisarmDisabledError name))
          else case build kw of Inl e \<Rightarrow> Inl (Raised e) | Inr spec \<Rightarrow> Inr spec)"

section \<open>Lemmas\<close>

text \<open>Which specs the builders produce.\<close>

lemma builder_cases:
  assumes "builder_for name = Some build"
  obtains "name = ''arm''" "build = build_arm" | "name = ''disarm''" "build = build_disarm"
  | "name = ''force_disarm''" "build = build_force_disarm" | "name = ''rtl''" "build = build_rtl"
  | "name = ''set_mode''" "build = build_set_mode" | "name = ''goto''" "build = build_goto"
  using assms by (auto simp: builder_for_def split: if_splits)

lemma build_commandE:
  assumes "build_command name S kw = Inr spec"
  obtains build where "builder_for name = Some build" "name \<in> allowed S"
    "name = ''force_disarm'' \<longrightarrow> allow_force_disarm S" "build kw = Inr spec"
  using assms
  by (auto simp: build_command_def split: if_splits option.splits sum.splits)

lemmas builder_defs =
  build_arm_def build_disarm_def build_force_disarm_def build_rtl_def build_set_mode_def
  build_goto_def long_command_def NO_PARAMS_def mav_consts

lemma build_command_name:
  assumes "build_command name S kw = Inr spec"
  shows "cs_name spec = name"
  using assms
  by (elim build_commandE builder_cases) (auto simp: builder_defs then_ok_Inr_iff)

text \<open>A well-formed spec: the parameters a COMMAND_LONG or COMMAND_INT needs are there.\<close>

definition spec_wf :: "command_spec \<Rightarrow> bool" where
  "spec_wf s \<longleftrightarrow>
     (case cs_kind s of KLong \<Rightarrow> length (cs_params s) = 7 | KInt \<Rightarrow> length (cs_params s) = 4) \<and>
     (cs_requires_force_confirm s \<longleftrightarrow> cs_name s = ''force_disarm'') \<and>
     (cs_name s = ''arm'' \<longleftrightarrow> cs_command s = MAV_CMD_COMPONENT_ARM_DISARM \<and> cs_params s ! 0 = Fin 1)"

lemma build_command_wf:
  assumes "build_command name S kw = Inr spec"
  shows "spec_wf spec"
  using assms
  by (elim build_commandE builder_cases)
    (auto simp: builder_defs then_ok_Inr_iff spec_wf_def)

lemma build_command_magic:
  assumes "build_command name S kw = Inr spec" and "cs_command spec = 400"
    and "FORCE_DISARM_MAGIC \<in> set (cs_params spec)"
  shows "name = ''force_disarm'' \<and> allow_force_disarm S \<and> cs_requires_force_confirm spec"
  using assms
  by (elim build_commandE builder_cases)
    (auto simp: builder_defs then_ok_Inr_iff)

end
