(* ===== verification/Crsf_Frame.thy ===== *)
theory Crsf_Frame
  imports Prelude
begin

unbundle bit_operations_syntax

text \<open>
  CRSF frames, their CRC8 and the framing of a byte stream, \<^verbatim>\<open>meshsa/fpv/crsf/frame.py\<close>.
  A buffer is the list of its bytes; \<^verbatim>\<open>extract_frames\<close>, which consumes the buffer in place,
  returns what is left of it.
\<close>

section \<open>CRC8/DVB-S2\<close>

definition CRC_POLY :: byte where "CRC_POLY = 0xD5"

text \<open>One round of the inner loop of \<^verbatim>\<open>_build_crc_table\<close>, and the entry after eight rounds.\<close>

definition crc_round :: "byte \<Rightarrow> byte" where
  "crc_round crc = (if bit crc 7 then push_bit 1 crc XOR CRC_POLY else push_bit 1 crc)"

definition crc_entry :: "byte \<Rightarrow> byte" where
  "crc_entry b = (crc_round ^^ 8) b"

definition build_crc_table :: "byte list" where
  "build_crc_table = map (\<lambda>n. crc_entry (word_of_nat n)) [0..<256]"

definition crc8_dvb_s2 :: "bytes \<Rightarrow> byte" where
  "crc8_dvb_s2 data = foldl (\<lambda>crc b. build_crc_table ! unat (crc XOR b)) 0 data"

lemma crc_table_nth: "build_crc_table ! unat (b :: byte) = crc_entry b"
  by (simp add: build_crc_table_def)

text \<open>The table is an optimisation of the bit-by-bit checksum.\<close>

definition crc8_bitwise :: "bytes \<Rightarrow> byte" where
  "crc8_bitwise data = foldl (\<lambda>crc b. crc_entry (crc XOR b)) 0 data"

lemma crc8_bitwise_eq: "crc8_dvb_s2 = crc8_bitwise"
  by (simp add: fun_eq_iff crc8_dvb_s2_def crc8_bitwise_def crc_table_nth)

lemma crc_round_xor: "crc_round (a XOR b) = crc_round a XOR crc_round b"
  by (auto simp: crc_round_def bit_xor_iff push_bit_xor ac_simps xor.left_commute)

lemma crc_round_funpow_xor: "(crc_round ^^ n) (a XOR b) = (crc_round ^^ n) a XOR (crc_round ^^ n) b"
  by (induction n) (simp_all add: crc_round_xor)

lemma crc_entry_xor: "crc_entry (a XOR b) = crc_entry a XOR crc_entry b"
  by (simp add: crc_entry_def crc_round_funpow_xor)

lemma crc_round_zero_iff: "crc_round a = 0 \<longleftrightarrow> a = 0"
proof
  assume z: "crc_round a = 0"
  have low: "\<not> bit (push_bit 1 a) 0" by (simp only: bit_push_bit_iff) simp
  have nb: "\<not> bit a 7"
  proof
    assume "bit a 7"
    with z have "push_bit 1 a XOR CRC_POLY = 0" by (simp add: crc_round_def)
    then have "\<not> bit (push_bit 1 a XOR CRC_POLY) 0" by simp
    with low show False by (simp add: bit_xor_iff CRC_POLY_def)
  qed
  with z have p: "push_bit 1 a = 0" by (simp add: crc_round_def)
  show "a = 0"
  proof (rule bit_eqI)
    fix n :: nat
    assume "possible_bit TYPE(byte) n"
    then have n: "n < 8" by simp
    show "bit a n \<longleftrightarrow> bit (0 :: byte) n"
    proof (cases "n = 7")
      case True
      with nb show ?thesis by simp
    next
      case False
      with n have "bit (push_bit 1 a) (Suc n) \<longleftrightarrow> bit a n"
        by (simp only: bit_push_bit_iff) simp
      with p show ?thesis by simp
    qed
  qed
qed (simp add: crc_round_def)

lemma crc_entry_zero_iff: "crc_entry a = 0 \<longleftrightarrow> a = 0"
proof -
  have "(crc_round ^^ n) a = 0 \<longleftrightarrow> a = 0" for n
    by (induction n) (simp_all add: crc_round_zero_iff)
  then show ?thesis by (simp add: crc_entry_def)
qed

lemma crc_entry_inj: "crc_entry a = crc_entry b \<longleftrightarrow> a = b"
proof -
  have "crc_entry a = crc_entry b \<longleftrightarrow> crc_entry a XOR crc_entry b = 0"
    by (metis xor_self_eq xor.assoc xor.comm_neutral)
  also have "\<dots> \<longleftrightarrow> a XOR b = 0"
    by (simp add: crc_entry_zero_iff flip: crc_entry_xor)
  also have "\<dots> \<longleftrightarrow> a = b" by (metis xor_self_eq xor.assoc xor.comm_neutral)
  finally show ?thesis .
qed

lemma crc_foldl_inj:
  "foldl (\<lambda>crc b. crc_entry (crc XOR b)) c xs = foldl (\<lambda>crc b. crc_entry (crc XOR b)) d xs \<longleftrightarrow> c = d"
proof (induction xs arbitrary: c d)
  case (Cons x xs)
  have "c XOR x = d XOR x \<longleftrightarrow> c = d"
    by (metis xor.assoc xor_self_eq xor.comm_neutral)
  with Cons show ?case by (simp add: crc_entry_inj)
qed simp

lemma crc8_single_byte_change:
  "crc8_dvb_s2 (xs @ x # ys) = crc8_dvb_s2 (xs @ y # ys) \<longleftrightarrow> x = y"
proof -
  have "c XOR x = c XOR y \<longleftrightarrow> x = y" for c :: byte
    by (metis xor.assoc xor_self_eq xor.left_neutral)
  then show ?thesis
    by (simp add: crc8_bitwise_eq crc8_bitwise_def crc_foldl_inj crc_entry_inj)
qed

section \<open>Frames\<close>

definition CRSF_MAX_FRAME_LEN :: int where "CRSF_MAX_FRAME_LEN = 64"
definition OVERHEAD :: nat where "OVERHEAD = 4"

text \<open>The addresses and the frame types are plain integers in the code.\<close>

definition BROADCAST :: int where "BROADCAST = 0x00"
definition FLIGHT_CONTROLLER :: int where "FLIGHT_CONTROLLER = 0xC8"
definition RADIO_TRANSMITTER :: int where "RADIO_TRANSMITTER = 0xEA"
definition CRSF_RECEIVER :: int where "CRSF_RECEIVER = 0xEC"
definition CRSF_TRANSMITTER :: int where "CRSF_TRANSMITTER = 0xEE"

definition GPS :: int where "GPS = 0x02"
definition BATTERY_SENSOR :: int where "BATTERY_SENSOR = 0x08"
definition LINK_STATISTICS :: int where "LINK_STATISTICS = 0x14"
definition RC_CHANNELS_PACKED :: int where "RC_CHANNELS_PACKED = 0x16"
definition ATTITUDE :: int where "ATTITUDE = 0x1E"
definition FLIGHT_MODE :: int where "FLIGHT_MODE = 0x21"
definition DEVICE_PING :: int where "DEVICE_PING = 0x28"
definition DEVICE_INFO :: int where "DEVICE_INFO = 0x29"
definition RADIO_ID :: int where "RADIO_ID = 0x3A"

lemmas crsf_addresses =
  BROADCAST_def FLIGHT_CONTROLLER_def RADIO_TRANSMITTER_def CRSF_RECEIVER_def CRSF_TRANSMITTER_def
lemmas crsf_types =
  GPS_def BATTERY_SENSOR_def LINK_STATISTICS_def RC_CHANNELS_PACKED_def ATTITUDE_def
  FLIGHT_MODE_def DEVICE_PING_def DEVICE_INFO_def RADIO_ID_def

record crsf_frame =
  cf_addr :: int
  cf_type :: int
  cf_payload :: bytes

text \<open>\<^verbatim>\<open>bytes([x])\<close>: a ValueError outside \<open>0..255\<close>.\<close>

definition byte_of_int :: "int \<Rightarrow> py_exn + byte" where
  "byte_of_int x = (if 0 \<le> x \<and> x < 256 then Inr (word_of_int x) else Inl ValueError)"

definition to_bytes :: "crsf_frame \<Rightarrow> py_exn + bytes" where
  "to_bytes f =
     then_ok (byte_of_int (cf_type f)) (\<lambda>t.
       let body = t # cf_payload f;
           crc = crc8_dvb_s2 body;
           len = int (length body) + 1
       in then_ok (byte_of_int (cf_addr f)) (\<lambda>a.
          then_ok (byte_of_int len) (\<lambda>l. Inr ([a, l] @ body @ [crc]))))"

datatype frame_error = MalformedLength | CrcError

definition from_bytes :: "bytes \<Rightarrow> frame_error + crsf_frame" where
  "from_bytes data =
     (if length data < OVERHEAD then Inl MalformedLength
      else
        let len = unat (data ! 1); total = len + 2
        in if total \<noteq> length data then Inl MalformedLength
           else
             let ftype = data ! 2;
                 payload = drop 3 (butlast data);
                 expected = last data;
                 actual = crc8_dvb_s2 (drop 2 (butlast data))
             in if actual \<noteq> expected then Inl CrcError
                else Inr \<lparr>cf_addr = uint (data ! 0), cf_type = uint ftype, cf_payload = payload\<rparr>)"

text \<open>\<^verbatim>\<open>_SYNC_ADDRESSES\<close>: every address but BROADCAST.\<close>

definition SYNC_ADDRESSES :: "int list" where
  "SYNC_ADDRESSES = [FLIGHT_CONTROLLER, RADIO_TRANSMITTER, CRSF_RECEIVER, CRSF_TRANSMITTER]"

text \<open>
  \<^verbatim>\<open>extract_frames\<close>: the frames, what is left of the buffer, and how often \<^verbatim>\<open>on_crc_error\<close> is
  called.  Every iteration of the loop deletes at least one byte or stops.
\<close>

function extract_frames :: "int \<Rightarrow> int list \<Rightarrow> bytes \<Rightarrow> crsf_frame list \<times> bytes \<times> nat" where
  "extract_frames max_frame_len sync buf =
     (if length buf < OVERHEAD then ([], buf, 0)
      else if uint (buf ! 0) \<notin> set sync then extract_frames max_frame_len sync (drop 1 buf)
      else
        let len = unat (buf ! 1); total = len + 2
        in if len < 2 \<or> max_frame_len < int total
           then extract_frames max_frame_len sync (drop 1 buf)
           else if length buf < total then ([], buf, 0)
           else
             (case from_bytes (take total buf) of
                Inr f \<Rightarrow>
                  let (fs, rest, errs) = extract_frames max_frame_len sync (drop total buf)
                  in (f # fs, rest, errs)
              | Inl CrcError \<Rightarrow>
                  let (fs, rest, errs) = extract_frames max_frame_len sync (drop 1 buf)
                  in (fs, rest, Suc errs)
              | Inl MalformedLength \<Rightarrow> extract_frames max_frame_len sync (drop 1 buf)))"
  by pat_completeness auto
termination
  by (relation "measure (\<lambda>(m, s, buf). length buf)") (auto simp: OVERHEAD_def)

declare extract_frames.simps [simp del]


section \<open>Encoding and decoding\<close>

definition frame_wf :: "crsf_frame \<Rightarrow> bool" where
  "frame_wf f \<longleftrightarrow> 0 \<le> cf_addr f \<and> cf_addr f < 256 \<and> 0 \<le> cf_type f \<and> cf_type f < 256 \<and>
     length (cf_payload f) \<le> 253"

definition wire :: "crsf_frame \<Rightarrow> bytes" where
  "wire f =
     [word_of_int (cf_addr f), word_of_nat (length (cf_payload f) + 2), word_of_int (cf_type f)]
     @ cf_payload f @ [crc8_dvb_s2 (word_of_int (cf_type f) # cf_payload f)]"

lemma byte_of_int_Inr: "byte_of_int x = Inr b \<longleftrightarrow> 0 \<le> x \<and> x < 256 \<and> b = word_of_int x"
  by (auto simp: byte_of_int_def)

lemma byte_of_int_uint [simp]: "byte_of_int (uint (b :: byte)) = Inr b"
  by (simp add: byte_of_int_def)

lemma uint_byte_of_int: "0 \<le> x \<Longrightarrow> x < 256 \<Longrightarrow> uint (word_of_int x :: byte) = x"
  by (simp add: uint_word_of_int)

lemma to_bytes_wf: "frame_wf f \<Longrightarrow> to_bytes f = Inr (wire f)"
  by (simp add: to_bytes_def frame_wf_def byte_of_int_def wire_def Let_def algebra_simps)

lemma to_bytes_Inr_iff: "to_bytes f = Inr b \<longleftrightarrow> frame_wf f \<and> b = wire f"
proof
  assume "to_bytes f = Inr b"
  then have "frame_wf f"
    by (auto simp: to_bytes_def frame_wf_def then_ok_Inr_iff byte_of_int_Inr Let_def)
  with \<open>to_bytes f = Inr b\<close> show "frame_wf f \<and> b = wire f" by (simp add: to_bytes_wf)
qed (simp add: to_bytes_wf)

lemma length_wire [simp]: "length (wire f) = length (cf_payload f) + 4"
  by (simp add: wire_def)

lemma unat_len_byte: "frame_wf f \<Longrightarrow> unat (wire f ! 1) = length (cf_payload f) + 2"
proof -
  assume wf: "frame_wf f"
  have "wire f ! 1 = word_of_nat (length (cf_payload f) + 2)" by (simp add: wire_def)
  moreover have "length (cf_payload f) + 2 < 256" using wf by (simp add: frame_wf_def)
  ultimately show ?thesis by (metis unat_byte_of_nat)
qed

lemma from_bytes_wire: "frame_wf f \<Longrightarrow> from_bytes (wire f) = Inr f"
proof -
  assume wf: "frame_wf f"
  have bl: "butlast (wire f) = [word_of_int (cf_addr f), word_of_nat (length (cf_payload f) + 2),
       word_of_int (cf_type f)] @ cf_payload f"
    by (simp add: wire_def butlast_append)
  have la: "last (wire f) = crc8_dvb_s2 (word_of_int (cf_type f) # cf_payload f)"
    by (simp add: wire_def)
  have nth: "wire f ! 0 = word_of_int (cf_addr f)" "wire f ! 2 = word_of_int (cf_type f)"
    by (simp_all add: wire_def)
  show ?thesis
    using wf unat_len_byte [OF wf] unfolding from_bytes_def Let_def bl la nth
    by (simp add: OVERHEAD_def frame_wf_def uint_byte_of_int)
qed

lemma from_bytes_sound:
  assumes "from_bytes d = Inr f"
  shows "frame_wf f \<and> wire f = d"
proof -
  have len: "length d = unat (d ! 1) + 2" "4 \<le> length d"
    and f: "f = \<lparr>cf_addr = uint (d ! 0), cf_type = uint (d ! 2), cf_payload = drop 3 (butlast d)\<rparr>"
    and crc: "crc8_dvb_s2 (drop 2 (butlast d)) = last d"
    using assms by (auto simp: from_bytes_def Let_def OVERHEAD_def split: if_splits)
  have "unat (d ! Suc 0) \<le> 255" using byte_unat_lt [of "d ! Suc 0"] by linarith
  with len have wf: "frame_wf f" by (simp add: frame_wf_def f)
  obtain a l t e where d: "d = a # l # t # e" and e: "e \<noteq> []"
    using len(2) by (auto simp: Suc_le_length_iff numeral_eq_Suc)
  have "wire f = d"
    using crc len(1) e by (simp add: wire_def f d)
  with wf show ?thesis by simp
qed

interpretation crsf_codec: wire_codec to_bytes from_bytes frame_wf "\<lambda>f. f"
  by unfold_locales (auto simp: to_bytes_wf from_bytes_wire)


section \<open>Framing a stream\<close>

lemma extract_short: "length buf < OVERHEAD \<Longrightarrow> extract_frames m sync buf = ([], buf, 0)"
  by (simp add: extract_frames.simps)

text \<open>What one iteration of the loop does to the front of the buffer.\<close>

datatype head_action = Wait | Skip | SkipBad | Emit crsf_frame nat

definition head_action :: "int \<Rightarrow> int list \<Rightarrow> bytes \<Rightarrow> head_action" where
  "head_action m sync buf =
     (let total = unat (buf ! 1) + 2
      in if length buf < OVERHEAD then Wait
         else if uint (buf ! 0) \<notin> set sync then Skip
         else if unat (buf ! 1) < 2 \<or> m < int total then Skip
         else if length buf < total then Wait
         else case from_bytes (take total buf) of
             Inr f \<Rightarrow> Emit f total
           | Inl CrcError \<Rightarrow> SkipBad
           | Inl MalformedLength \<Rightarrow> Skip)"

lemma extract_by_head:
  "extract_frames m sync buf =
     (case head_action m sync buf of
        Wait \<Rightarrow> ([], buf, 0)
      | Skip \<Rightarrow> extract_frames m sync (drop 1 buf)
      | SkipBad \<Rightarrow>
          (case extract_frames m sync (drop 1 buf) of (fs, rest, errs) \<Rightarrow> (fs, rest, Suc errs))
      | Emit f n \<Rightarrow>
          (case extract_frames m sync (drop n buf) of (fs, rest, errs) \<Rightarrow> (f # fs, rest, errs)))"
  by (subst extract_frames.simps)
    (simp add: head_action_def Let_def split: sum.split frame_error.split)

lemma head_action_nonempty: "head_action m sync buf \<noteq> Wait \<Longrightarrow> 4 \<le> length buf"
  by (auto simp: head_action_def OVERHEAD_def split: if_splits)

lemma head_action_Emit:
  assumes "head_action m sync buf = Emit f n"
  shows "from_bytes (take n buf) = Inr f" "4 \<le> n" "n \<le> length buf" "int n \<le> m"
    "uint (buf ! 0) \<in> set sync"
  using assms
  by (auto simp: head_action_def Let_def split: if_splits sum.splits frame_error.splits)

lemma head_action_append:
  assumes "head_action m sync a \<noteq> Wait"
  shows "head_action m sync (a @ b) = head_action m sync a"
proof -
  have "4 \<le> length a" using assms by (rule head_action_nonempty)
  then have nth: "(a @ b) ! 0 = a ! 0" "(a @ b) ! 1 = a ! 1"
    by (auto simp: nth_append)
  show ?thesis
    using assms \<open>4 \<le> length a\<close> unfolding head_action_def nth Let_def
    by (auto simp: OVERHEAD_def split: if_splits)
qed

lemma extract_induct [case_names step]:
  assumes "\<And>buf. (head_action m sync buf \<in> {Skip, SkipBad} \<Longrightarrow> P (drop 1 buf)) \<Longrightarrow>
      (\<And>f n. head_action m sync buf = Emit f n \<Longrightarrow> P (drop n buf)) \<Longrightarrow> P buf"
  shows "P buf"
proof (induction buf rule: length_induct)
  case (1 buf)
  show ?case
  proof (rule assms)
    assume "head_action m sync buf \<in> {Skip, SkipBad}"
    then have "4 \<le> length buf" using head_action_nonempty [of m sync buf] by auto
    then show "P (drop 1 buf)" using 1 by (simp del: drop_drop)
  next
    fix f n
    assume "head_action m sync buf = Emit f n"
    then have "4 \<le> n" "n \<le> length buf" by (rule head_action_Emit)+
    then show "P (drop n buf)" using 1 by simp
  qed
qed

lemma extract_append:
  "extract_frames m sync (a @ b) =
     (case extract_frames m sync a of (fs, rest, errs) \<Rightarrow>
      case extract_frames m sync (rest @ b) of (fs', rest', errs') \<Rightarrow>
        (fs @ fs', rest', errs + errs'))"
proof (induction a rule: extract_induct [of m sync])
  case (step a)
  show ?case
  proof (cases "head_action m sync a = Wait")
    case True
    then show ?thesis by (simp add: extract_by_head [of m sync a] split: prod.split)
  next
    case False
    then have h: "head_action m sync (a @ b) = head_action m sync a" and len: "4 \<le> length a"
      by (simp_all add: head_action_append head_action_nonempty)
    have d1: "drop 1 (a @ b) = drop 1 a @ b" using len by simp
    show ?thesis
    proof (cases "head_action m sync a")
      case (Emit f n)
      then have "drop n (a @ b) = drop n a @ b" using head_action_Emit(3) [OF Emit] by simp
      with step(2) [OF Emit] Emit show ?thesis
        by (simp add: extract_by_head [of m sync "a @ b"] extract_by_head [of m sync a] h
            split: prod.split)
    qed (use False step(1) d1 h in
      \<open>auto simp: extract_by_head [of m sync "a @ b"] extract_by_head [of m sync a]
        simp del: drop_append split: prod.split\<close>)
  qed
qed

text \<open>What is left is a partial frame: it is shorter than the longest frame.\<close>

lemma extract_rest_bound:
  assumes "extract_frames m sync buf = (fs, rest, errs)"
  shows "int (length rest) < max 4 m"
  using assms
proof (induction buf arbitrary: fs rest errs rule: extract_induct [of m sync])
  case (step buf)
  show ?case
  proof (cases "head_action m sync buf")
    case Wait
    then have "length buf < 4 \<or> length buf < unat (buf ! 1) + 2 \<and> int (unat (buf ! 1) + 2) \<le> m"
      by (auto simp: head_action_def Let_def OVERHEAD_def
          split: if_splits sum.splits frame_error.splits)
    then have "int (length buf) < max 4 m" by linarith
    with step.prems Wait show ?thesis by (auto simp: extract_by_head [of m sync buf])
  qed (use step in \<open>auto simp: extract_by_head [of m sync buf] split: prod.splits\<close>)
qed

text \<open>Every frame that comes out was in the buffer, byte for byte, with a valid checksum.\<close>

lemma extract_sound:
  assumes "extract_frames m sync buf = (fs, rest, errs)" and "f \<in> set fs"
  shows "frame_wf f \<and> sublist (wire f) buf \<and> cf_addr f \<in> set sync"
  using assms
proof (induction buf arbitrary: fs rest errs rule: extract_induct [of m sync])
  case (step buf)
  have dropped: "frame_wf f \<and> sublist (wire f) buf \<and> cf_addr f \<in> set sync"
    if "frame_wf f \<and> sublist (wire f) (drop k buf) \<and> cf_addr f \<in> set sync" for k
    using that by (meson sublist_drop sublist_order.order_trans)
  show ?case
  proof (cases "head_action m sync buf")
    case Wait
    with step.prems show ?thesis by (simp add: extract_by_head [of m sync buf])
  next
    case (Emit g n)
    then obtain fs' where fs: "fs = g # fs'" "extract_frames m sync (drop n buf) = (fs', rest, errs)"
      using step.prems by (auto simp: extract_by_head [of m sync buf] split: prod.splits)
    have g: "frame_wf g" "wire g = take n buf" "4 \<le> n" "n \<le> length buf" "uint (buf ! 0) \<in> set sync"
      using from_bytes_sound [OF head_action_Emit(1) [OF Emit]] head_action_Emit [OF Emit] by auto
    then have "wire g ! 0 = buf ! 0" by simp
    then have "cf_addr g = uint (buf ! 0)"
      using g(1) by (metis append_Cons frame_wf_def nth_Cons_0 uint_byte_of_int wire_def)
    with g have "frame_wf g \<and> sublist (wire g) buf \<and> cf_addr g \<in> set sync" by simp
    with dropped step.IH(2) [OF Emit fs(2)] fs(1) step.prems(2) show ?thesis by auto
  qed (use step dropped [of 1] in \<open>auto simp: extract_by_head [of m sync buf] split: prod.splits\<close>)
qed

text \<open>A well-formed frame at the front comes out, whatever follows it.\<close>

definition sendable :: "int \<Rightarrow> int list \<Rightarrow> crsf_frame \<Rightarrow> bool" where
  "sendable m sync f \<longleftrightarrow>
     frame_wf f \<and> cf_addr f \<in> set sync \<and> int (length (cf_payload f)) + 4 \<le> m"

lemma extract_frame_front:
  assumes "sendable m sync f"
  shows "extract_frames m sync (wire f @ buf) =
    (case extract_frames m sync buf of (fs, rest, errs) \<Rightarrow> (f # fs, rest, errs))"
proof -
  have wf: "frame_wf f" using assms by (simp add: sendable_def)
  have "wire f \<noteq> []" by (simp add: wire_def)
  then have u: "uint ((wire f @ buf) ! 0) = cf_addr f"
    using wf by (simp add: wire_def frame_wf_def uint_byte_of_int)
  have n: "unat ((wire f @ buf) ! 1) = length (cf_payload f) + 2"
    using unat_len_byte [OF wf] by (simp add: nth_append)
  have "head_action m sync (wire f @ buf) = Emit f (length (wire f))"
    using assms unfolding head_action_def n u Let_def
    by (simp add: OVERHEAD_def sendable_def from_bytes_wire [OF wf])
  then show ?thesis by (simp add: extract_by_head [of m sync "wire f @ buf"])
qed

lemma extract_frames_stream:
  assumes "list_all (sendable m sync) fs"
  shows "extract_frames m sync (concat (map wire fs) @ buf) =
    (case extract_frames m sync buf of (gs, rest, errs) \<Rightarrow> (fs @ gs, rest, errs))"
  using assms
  by (induction fs) (simp_all add: extract_frame_front append.assoc split: prod.split)

end
