(* ===== verification/Struct_Codec.thy ===== *)
theory Struct_Codec
  imports Prelude
begin

text \<open>
  The part of Python's \<^verbatim>\<open>struct\<close> module that the program uses: fixed-width integers, signed and
  unsigned, big- and little-endian, read from and written to bytes.
\<close>

section \<open>Reading big-endian fields\<close>

definition be_unsigned :: "bytes \<Rightarrow> int" where
  "be_unsigned bs = foldl (\<lambda>acc b. 256 * acc + uint b) 0 bs"

definition be_signed :: "bytes \<Rightarrow> int" where
  "be_signed bs =
     (let v = be_unsigned bs
      in if 2 ^ (8 * length bs - 1) \<le> v then v - 2 ^ (8 * length bs) else v)"

text \<open>The field of \<open>n\<close> bytes at offset \<open>i\<close>, unsigned and signed.\<close>

definition field_u :: "bytes \<Rightarrow> nat \<Rightarrow> nat \<Rightarrow> int" where
  "field_u p i n = be_unsigned (take n (drop i p))"

definition field_s :: "bytes \<Rightarrow> nat \<Rightarrow> nat \<Rightarrow> int" where
  "field_s p i n = be_signed (take n (drop i p))"

section \<open>Bounds of the fields\<close>

lemma be_unsigned_append: "be_unsigned (xs @ [b]) = 256 * be_unsigned xs + uint b"
  by (simp add: be_unsigned_def)

lemma be_unsigned_bounds: "0 \<le> be_unsigned bs" "be_unsigned bs < 256 ^ length bs"
proof (induction bs rule: rev_induct)
  case (snoc b bs)
  { case 1
    then show ?case using snoc(1) by (simp add: be_unsigned_append)
  next
    case 2
    define P where "P = (256 :: int) ^ length bs"
    have "be_unsigned bs + 1 \<le> P" using snoc(2) by (simp add: P_def)
    moreover have "(256 :: int) ^ length (bs @ [b]) = 256 * P" by (simp add: P_def)
    ultimately show ?case
      using byte_uint_lt [of b] unfolding be_unsigned_append by (smt (verit)) }
qed (simp_all add: be_unsigned_def)

lemma be_signed_bounds:
  assumes "bs \<noteq> []"
  shows "- (2 ^ (8 * length bs - 1)) \<le> be_signed bs" "be_signed bs < 2 ^ (8 * length bs - 1)"
proof -
  have n: "0 < length bs" using assms by simp
  then have "(2 :: int) ^ (8 * length bs) = 2 * 2 ^ (8 * length bs - 1)"
    by (cases "8 * length bs") simp_all
  moreover have "be_unsigned bs < 2 ^ (8 * length bs)"
    using be_unsigned_bounds(2) [of bs] by (simp add: power_mult)
  ultimately show "- (2 ^ (8 * length bs - 1)) \<le> be_signed bs" "be_signed bs < 2 ^ (8 * length bs - 1)"
    using be_unsigned_bounds(1) [of bs] by (auto simp: be_signed_def Let_def)
qed

lemma field_u_bounds: "0 \<le> field_u p i n" "field_u p i n < 256 ^ n"
proof -
  show "0 \<le> field_u p i n" by (simp add: field_u_def be_unsigned_bounds)
  have "field_u p i n < 256 ^ length (take n (drop i p))"
    unfolding field_u_def by (rule be_unsigned_bounds)
  also have "\<dots> \<le> 256 ^ n" by (intro power_increasing) simp_all
  finally show "field_u p i n < 256 ^ n" .
qed

lemma field_s_bounds:
  assumes "i + n \<le> length p" "0 < n"
  shows "- (2 ^ (8 * n - 1)) \<le> field_s p i n" "field_s p i n < 2 ^ (8 * n - 1)"
proof -
  have "length (take n (drop i p)) = n" using assms by simp
  then show "- (2 ^ (8 * n - 1)) \<le> field_s p i n" "field_s p i n < 2 ^ (8 * n - 1)"
    using be_signed_bounds [of "take n (drop i p)"] assms unfolding field_s_def by fastforce+
qed

section \<open>Writing fields\<close>

fun be_bytes :: "nat \<Rightarrow> int \<Rightarrow> bytes" where
  "be_bytes 0 v = []"
| "be_bytes (Suc n) v = be_bytes n (v div 256) @ [word_of_int v]"

text \<open>\<^verbatim>\<open>struct.pack\<close> of an unsigned or signed integer of \<open>n\<close> bytes: struct.error out of range.\<close>

definition pack_u :: "nat \<Rightarrow> int \<Rightarrow> py_exn + bytes" where
  "pack_u n v = (if 0 \<le> v \<and> v < 256 ^ n then Inr (be_bytes n v) else Inl StructError)"

definition pack_s :: "nat \<Rightarrow> int \<Rightarrow> py_exn + bytes" where
  "pack_s n v =
     (if - (2 ^ (8 * n - 1)) \<le> v \<and> v < 2 ^ (8 * n - 1) then Inr (be_bytes n v) else Inl StructError)"

text \<open>\<^verbatim>\<open>struct.unpack_from\<close> at an offset: struct.error when the bytes are not there.\<close>

definition unpack_u :: "bytes \<Rightarrow> nat \<Rightarrow> nat \<Rightarrow> py_exn + int" where
  "unpack_u p i n = (if i + n \<le> length p then Inr (field_u p i n) else Inl StructError)"

definition unpack_s :: "bytes \<Rightarrow> nat \<Rightarrow> nat \<Rightarrow> py_exn + int" where
  "unpack_s p i n = (if i + n \<le> length p then Inr (field_s p i n) else Inl StructError)"

text \<open>The same fields, little-endian.\<close>

definition le_u :: "bytes \<Rightarrow> nat \<Rightarrow> nat \<Rightarrow> py_exn + int" where
  "le_u p i n =
     (if i + n \<le> length p then Inr (be_unsigned (rev (take n (drop i p)))) else Inl StructError)"

definition le_s :: "bytes \<Rightarrow> nat \<Rightarrow> nat \<Rightarrow> py_exn + int" where
  "le_s p i n =
     (if i + n \<le> length p then Inr (be_signed (rev (take n (drop i p)))) else Inl StructError)"

lemma length_be_bytes [simp]: "length (be_bytes n v) = n"
  by (induction n arbitrary: v) simp_all

lemma be_unsigned_be_bytes: "be_unsigned (be_bytes n v) = v mod 256 ^ n"
proof (induction n arbitrary: v)
  case 0
  then show ?case by (simp add: be_unsigned_def)
next
  case (Suc n)
  have "be_unsigned (be_bytes (Suc n) v) = 256 * (v div 256 mod 256 ^ n) + v mod 256"
    by (simp add: be_unsigned_append Suc uint_word_of_int)
  also have "\<dots> = v mod (256 * 256 ^ n)"
    by (simp add: zmod_zmult2_eq)
  finally show ?case by simp
qed

lemma be_unsigned_pack: "0 \<le> v \<Longrightarrow> v < 256 ^ n \<Longrightarrow> be_unsigned (be_bytes n v) = v"
  by (simp add: be_unsigned_be_bytes)

lemma be_signed_pack:
  assumes "0 < n" "- (2 ^ (8 * n - 1)) \<le> v" "v < 2 ^ (8 * n - 1)"
  shows "be_signed (be_bytes n v) = v"
proof -
  define H where "H = (2 :: int) ^ (8 * n - 1)"
  have p: "(2 :: int) ^ (8 * n) = 2 * H" using assms(1) by (cases "8 * n") (simp_all add: H_def)
  have q: "(256 :: int) ^ n = 2 * H" unfolding p [symmetric] by (simp add: power_mult)
  have v: "- H \<le> v" "v < H" using assms by (simp_all add: H_def)
  have "v mod (2 * H) = (if 0 \<le> v then v else v + 2 * H)"
    using v mod_pos_pos_trivial [of "v + 2 * H" "2 * H"] by (auto simp: mod_pos_pos_trivial)
  with v show ?thesis
    unfolding be_signed_def be_unsigned_be_bytes q Let_def length_be_bytes p H_def [symmetric] by auto
qed

text \<open>A field that was written at an offset is read back there.\<close>

lemma unpack_u_at:
  "length a = i \<Longrightarrow> 0 \<le> v \<Longrightarrow> v < 256 ^ n \<Longrightarrow> unpack_u (a @ be_bytes n v @ b) i n = Inr v"
  by (simp add: unpack_u_def field_u_def be_unsigned_pack)

lemma unpack_s_at:
  "length a = i \<Longrightarrow> 0 < n \<Longrightarrow> - (2 ^ (8 * n - 1)) \<le> v \<Longrightarrow> v < 2 ^ (8 * n - 1) \<Longrightarrow>
   unpack_s (a @ be_bytes n v @ b) i n = Inr v"
  by (simp add: unpack_s_def field_s_def be_signed_pack)

end
