(* ===== verification/Crsf_Telemetry.thy ===== *)
theory Crsf_Telemetry
  imports Crsf_Frame Struct_Codec
begin

text \<open>
  The CRSF telemetry parsers, \<^verbatim>\<open>meshsa/fpv/crsf/telemetry.py\<close>, with the parser settings of
  \<^verbatim>\<open>meshsa/fpv/config.py\<close>, and the store of the latest message of each type,
  \<^verbatim>\<open>meshsa/fpv/telemetry_store.py\<close>.  Text is a list of Unicode code points.
\<close>

section \<open>Settings and messages\<close>

record parser_settings =
  telemetry_voltage_scale :: real
  telemetry_current_scale :: real
  attitude_rad_scale :: real
  failsafe_marker :: "nat list"
  gps_coord_scale :: real
  gps_groundspeed_scale :: real
  gps_heading_scale :: real
  gps_altitude_offset_m :: int

definition default_parser_settings :: parser_settings where
  "default_parser_settings =
     \<lparr>telemetry_voltage_scale = 1/10, telemetry_current_scale = 1/10,
      attitude_rad_scale = 1/10000, failsafe_marker = map of_char ''!FS!'',
      gps_coord_scale = 10000000, gps_groundspeed_scale = 10, gps_heading_scale = 100,
      gps_altitude_offset_m = 1000\<rparr>"

record link_statistics =
  uplink_rssi_ant1_dbm :: int
  uplink_rssi_ant2_dbm :: int
  uplink_lq :: int
  uplink_snr_db :: int
  active_antenna :: int
  rf_mode :: int
  uplink_tx_power_mw :: "int option"
  downlink_rssi_dbm :: int
  downlink_lq :: int
  downlink_snr_db :: int

record battery_sensor =
  bat_voltage :: real
  bat_current :: real
  fuel_drawn_mah :: int
  remaining_pct :: int

record attitude_msg =
  pitch_rad :: real
  roll_rad :: real
  yaw_rad :: real

record flight_mode_msg =
  fm_mode :: "nat list"
  is_failsafe :: bool

record gps_sensor =
  lat_deg :: real
  lon_deg :: real
  ground_speed_kmh :: real
  heading_deg :: real
  altitude_m :: int
  satellites :: int

datatype telemetry_message =
    LinkStatistics link_statistics
  | BatterySensor battery_sensor
  | Attitude attitude_msg
  | FlightMode flight_mode_msg
  | GpsSensor gps_sensor

text \<open>\<^verbatim>\<open>_TX_POWER_MW\<close> and \<^verbatim>\<open>_IGNORED_TYPES\<close>.\<close>

definition TX_POWER_MW :: "int list" where
  "TX_POWER_MW = [0, 10, 25, 100, 500, 1000, 2000, 250, 50]"

definition IGNORED_TYPES :: "int list" where
  "IGNORED_TYPES = [RC_CHANNELS_PACKED, DEVICE_PING, DEVICE_INFO, RADIO_ID]"

section \<open>The parsers\<close>

text \<open>
  A parser raises TelemetryParseError for a wrong length.  The GPS scales are divisors, and
  nothing in the settings keeps them from being zero.
\<close>

datatype parse_exn = TelemetryParseError | ZeroDivisionError

definition require :: "bytes \<Rightarrow> nat \<Rightarrow> parse_exn + unit" where
  "require payload n = (if length payload \<noteq> n then Inl TelemetryParseError else Inr ())"

definition parse_link_statistics :: "bytes \<Rightarrow> parse_exn + link_statistics" where
  "parse_link_statistics p = then_ok (require p 10) (\<lambda>_.
     let idx = field_u p 6 1;
         tx_power = (if idx < int (length TX_POWER_MW) then Some (TX_POWER_MW ! nat idx) else None)
     in Inr \<lparr>uplink_rssi_ant1_dbm = - field_u p 0 1, uplink_rssi_ant2_dbm = - field_u p 1 1,
          uplink_lq = field_u p 2 1, uplink_snr_db = field_s p 3 1, active_antenna = field_u p 4 1,
          rf_mode = field_u p 5 1, uplink_tx_power_mw = tx_power,
          downlink_rssi_dbm = - field_u p 7 1, downlink_lq = field_u p 8 1,
          downlink_snr_db = field_s p 9 1\<rparr>)"

definition parse_battery :: "parser_settings \<Rightarrow> bytes \<Rightarrow> parse_exn + battery_sensor" where
  "parse_battery S p = then_ok (require p 8) (\<lambda>_.
     Inr \<lparr>bat_voltage = real_of_int (field_u p 0 2) * telemetry_voltage_scale S,
          bat_current = real_of_int (field_u p 2 2) * telemetry_current_scale S,
          fuel_drawn_mah = field_u p 4 3, remaining_pct = field_u p 7 1\<rparr>)"

definition parse_attitude :: "parser_settings \<Rightarrow> bytes \<Rightarrow> parse_exn + attitude_msg" where
  "parse_attitude S p = then_ok (require p 6) (\<lambda>_.
     let scale = attitude_rad_scale S
     in Inr \<lparr>pitch_rad = real_of_int (field_s p 0 2) * scale,
             roll_rad = real_of_int (field_s p 2 2) * scale,
             yaw_rad = real_of_int (field_s p 4 2) * scale\<rparr>)"

text \<open>ASCII decoding with \<^verbatim>\<open>errors="replace"\<close>: a byte above 127 becomes U+FFFD.\<close>

definition ascii_replace :: "bytes \<Rightarrow> nat list" where
  "ascii_replace bs = map (\<lambda>b. if unat b < 128 then unat b else 0xFFFD) bs"

definition parse_flight_mode :: "parser_settings \<Rightarrow> bytes \<Rightarrow> parse_exn + flight_mode_msg" where
  "parse_flight_mode S p =
     (if p = [] then Inl TelemetryParseError
      else
        let text = ascii_replace (takeWhile (\<lambda>b. b \<noteq> 0) p)
        in Inr \<lparr>fm_mode = text, is_failsafe = sublist (failsafe_marker S) text\<rparr>)"

definition parse_gps :: "parser_settings \<Rightarrow> bytes \<Rightarrow> parse_exn + gps_sensor" where
  "parse_gps S p = then_ok (require p 15) (\<lambda>_.
     if gps_coord_scale S = 0 \<or> gps_groundspeed_scale S = 0 \<or> gps_heading_scale S = 0
     then Inl ZeroDivisionError
     else Inr \<lparr>lat_deg = real_of_int (field_s p 0 4) / gps_coord_scale S,
               lon_deg = real_of_int (field_s p 4 4) / gps_coord_scale S,
               ground_speed_kmh = real_of_int (field_u p 8 2) / gps_groundspeed_scale S,
               heading_deg = real_of_int (field_u p 10 2) / gps_heading_scale S,
               altitude_m = field_u p 12 2 - gps_altitude_offset_m S,
               satellites = field_u p 14 1\<rparr>)"

text \<open>
  \<^verbatim>\<open>TelemetryParser.parse\<close>.  The parser's state is \<^verbatim>\<open>unknown_counts\<close>, a dictionary from the
  unknown types seen to their counts.
\<close>

type_synonym unknown_counts = "int \<rightharpoonup> nat"

definition map_result :: "('a \<Rightarrow> 'b) \<Rightarrow> 'e + 'a \<Rightarrow> 'e + 'b" where
  "map_result g r = then_ok r (\<lambda>v. Inr (g v))"

definition parse_telemetry ::
  "parser_settings \<Rightarrow> crsf_frame \<Rightarrow> unknown_counts \<Rightarrow>
     (parse_exn + telemetry_message option) \<times> unknown_counts" where
  "parse_telemetry S f counts =
     (let ftype = cf_type f; p = cf_payload f
      in if ftype = LINK_STATISTICS
           then (map_result (Some \<circ> LinkStatistics) (parse_link_statistics p), counts)
         else if ftype = BATTERY_SENSOR
           then (map_result (Some \<circ> BatterySensor) (parse_battery S p), counts)
         else if ftype = ATTITUDE then (map_result (Some \<circ> Attitude) (parse_attitude S p), counts)
         else if ftype = FLIGHT_MODE
           then (map_result (Some \<circ> FlightMode) (parse_flight_mode S p), counts)
         else if ftype = GPS then (map_result (Some \<circ> GpsSensor) (parse_gps S p), counts)
         else if ftype \<in> set IGNORED_TYPES then (Inr None, counts)
         else (Inr None,
               counts(ftype \<mapsto> (case counts ftype of None \<Rightarrow> 0 | Some n \<Rightarrow> n) + 1)))"

definition telemetry_types :: "int list" where
  "telemetry_types = [LINK_STATISTICS, BATTERY_SENSOR, ATTITUDE, FLIGHT_MODE, GPS]"

section \<open>Bounds of the fields\<close>

text \<open>What the parser says about a link-statistics frame is in range.\<close>

definition link_statistics_ok :: "link_statistics \<Rightarrow> bool" where
  "link_statistics_ok s \<longleftrightarrow>
     -255 \<le> uplink_rssi_ant1_dbm s \<and> uplink_rssi_ant1_dbm s \<le> 0 \<and>
     -255 \<le> uplink_rssi_ant2_dbm s \<and> uplink_rssi_ant2_dbm s \<le> 0 \<and>
     0 \<le> uplink_lq s \<and> uplink_lq s \<le> 255 \<and> -128 \<le> uplink_snr_db s \<and> uplink_snr_db s \<le> 127 \<and>
     0 \<le> downlink_lq s \<and> downlink_lq s \<le> 255 \<and>
     -128 \<le> downlink_snr_db s \<and> downlink_snr_db s \<le> 127 \<and>
     (case uplink_tx_power_mw s of None \<Rightarrow> True | Some mw \<Rightarrow> mw \<in> set TX_POWER_MW)"

lemma parse_link_statistics_ok:
  assumes "parse_link_statistics p = Inr s"
  shows "link_statistics_ok s"
proof -
  have len: "length p = 10"
    using assms by (auto simp: parse_link_statistics_def require_def then_ok_Inr_iff split: if_splits)
  have s: "s = \<lparr>uplink_rssi_ant1_dbm = - field_u p 0 1, uplink_rssi_ant2_dbm = - field_u p 1 1,
          uplink_lq = field_u p 2 1, uplink_snr_db = field_s p 3 1, active_antenna = field_u p 4 1,
          rf_mode = field_u p 5 1,
          uplink_tx_power_mw = (if field_u p 6 1 < int (length TX_POWER_MW)
             then Some (TX_POWER_MW ! nat (field_u p 6 1)) else None),
          downlink_rssi_dbm = - field_u p 7 1, downlink_lq = field_u p 8 1,
          downlink_snr_db = field_s p 9 1\<rparr>"
    using assms len by (auto simp: parse_link_statistics_def require_def Let_def)
  have u: "field_u p i 1 \<le> 255" for i using field_u_bounds(2) [of p i 1] by simp
  have "TX_POWER_MW ! nat (field_u p 6 1) \<in> set TX_POWER_MW" if "field_u p 6 1 < int (length TX_POWER_MW)"
    using that field_u_bounds(1) [of p 6 1] by (intro nth_mem) linarith
  then show ?thesis
    unfolding s link_statistics_ok_def
    using u field_u_bounds(1) [of p _ 1] field_s_bounds [of 3 1 p] field_s_bounds [of 9 1 p] len
    by simp
qed

text \<open>When a parse raises: a known telemetry type of the wrong length, or a zero divisor.\<close>

lemma parse_telemetry_raises_iff:
  "fst (parse_telemetry S f counts) = Inl TelemetryParseError \<longleftrightarrow>
     cf_type f = LINK_STATISTICS \<and> length (cf_payload f) \<noteq> 10 \<or>
     cf_type f = BATTERY_SENSOR \<and> length (cf_payload f) \<noteq> 8 \<or>
     cf_type f = ATTITUDE \<and> length (cf_payload f) \<noteq> 6 \<or>
     cf_type f = FLIGHT_MODE \<and> cf_payload f = [] \<or>
     cf_type f = GPS \<and> length (cf_payload f) \<noteq> 15"
  by (auto simp: parse_telemetry_def map_result_def then_ok_Inl_iff parse_link_statistics_def
      parse_battery_def parse_attitude_def parse_flight_mode_def parse_gps_def require_def Let_def
      crsf_types split: if_splits)

lemma parse_telemetry_counts:
  "snd (parse_telemetry S f counts) =
     (if cf_type f \<in> set telemetry_types \<union> set IGNORED_TYPES then counts
      else counts(cf_type f \<mapsto> (case counts (cf_type f) of None \<Rightarrow> 0 | Some n \<Rightarrow> n) + 1))"
  by (auto simp: parse_telemetry_def telemetry_types_def IGNORED_TYPES_def Let_def crsf_types)

section \<open>The telemetry store\<close>

text \<open>
  \<^verbatim>\<open>_latest\<close> is keyed by the message's class; each class is a constructor, so the store is a
  record with an entry for each.
\<close>

datatype message_type = TLinkStatistics | TBatterySensor | TAttitude | TFlightMode | TGpsSensor

fun type_of :: "telemetry_message \<Rightarrow> message_type" where
  "type_of (LinkStatistics _) = TLinkStatistics"
| "type_of (BatterySensor _) = TBatterySensor"
| "type_of (Attitude _) = TAttitude"
| "type_of (FlightMode _) = TFlightMode"
| "type_of (GpsSensor _) = TGpsSensor"

type_synonym telemetry_store = "message_type \<rightharpoonup> telemetry_message \<times> real"

definition new_store :: "int \<Rightarrow> py_exn + telemetry_store" where
  "new_store history_len = (if history_len < 1 then Inl ValueError else Inr Map.empty)"

definition store_update :: "telemetry_message \<Rightarrow> real \<Rightarrow> telemetry_store \<Rightarrow> telemetry_store" where
  "store_update msg t_mono st = st(type_of msg \<mapsto> (msg, t_mono))"

definition store_latest :: "telemetry_store \<Rightarrow> message_type \<Rightarrow> (telemetry_message \<times> real) option" where
  "store_latest st ty = st ty"

text \<open>The store only ever files a message under its own type.\<close>

definition store_typed :: "telemetry_store \<Rightarrow> bool" where
  "store_typed st \<longleftrightarrow> (\<forall>ty msg t. st ty = Some (msg, t) \<longrightarrow> type_of msg = ty)"

interpretation store_machine:
  invariant_machine "\<lambda>st (msg, t). store_update msg t st" store_typed
  by unfold_locales (auto simp: store_typed_def store_update_def split: if_splits)

end
