(* ===== verification/Link_Health.thy ===== *)
theory Link_Health
  imports Crsf_Telemetry
begin

text \<open>
  The link-health monitor, \<^verbatim>\<open>meshsa/fpv/link_health.py\<close>: the instantaneous state of the link
  from the latest link statistics, and the hysteresis that makes degradation immediate and
  recovery slow.  The store and the clock reading are arguments; the monitor's own state is the
  confirmed state, the recovery candidate and the last report.
\<close>

section \<open>States and settings\<close>

datatype health_state = NO_DATA | HS_OK | HS_WARN | HS_CRITICAL

fun severity :: "health_state \<Rightarrow> nat" where
  "severity HS_OK = 0"
| "severity HS_WARN = 1"
| "severity HS_CRITICAL = 2"
| "severity NO_DATA = 3"

lemma severity_inj: "severity a = severity b \<longleftrightarrow> a = b"
  by (cases a; cases b) simp_all

text \<open>States are ordered by severity, so that \<open>a < b\<close> reads as: \<open>b\<close> is worse than \<open>a\<close>.\<close>

instantiation health_state :: linorder
begin

definition less_eq_health_state :: "health_state \<Rightarrow> health_state \<Rightarrow> bool" where
  "a \<le> b \<longleftrightarrow> severity a \<le> severity b"

definition less_health_state :: "health_state \<Rightarrow> health_state \<Rightarrow> bool" where
  "a < b \<longleftrightarrow> severity a < severity b"

instance
  by standard (auto simp: less_eq_health_state_def less_health_state_def severity_inj)

end

text \<open>\<^verbatim>\<open>max(states, key=..., default=NO_DATA)\<close> keeps the first of the worst.\<close>

definition worst_state :: "health_state list \<Rightarrow> health_state" where
  "worst_state states =
     (case states of
        [] \<Rightarrow> NO_DATA
      | s # ss \<Rightarrow> foldl (\<lambda>best x. if severity best < severity x then x else best) s ss)"

lemma worst_state_Max:
  assumes "states \<noteq> []"
  shows "worst_state states = Max (set states)"
proof -
  have "foldl (\<lambda>best x. if severity best < severity x then x else best) s ss = Max (set (s # ss))" for s ss
  proof (induction ss arbitrary: s)
    case (Cons x ss)
    have "(if severity s < severity x then x else s) = max s x"
      by (auto simp: max_def less_eq_health_state_def severity_inj not_less intro: antisym)
    then have "foldl (\<lambda>best x. if severity best < severity x then x else best) s (x # ss) =
        Max (set (max s x # ss))"
      using Cons.IH by simp
    also have "\<dots> = Max (set (s # x # ss))" by (cases "ss = []") (simp_all add: max.assoc)
    finally show ?case .
  qed simp
  then show ?thesis using assms by (cases states) (simp_all add: worst_state_def)
qed

record health_report =
  hr_state :: health_state
  arm_permitted :: bool
  reasons :: "string list"
  t_mono :: real

record health_settings =
  health_lq_warn :: int
  health_lq_critical :: int
  health_downlink_lq_warn :: int
  health_rssi_margin_db :: int
  health_linkstats_stale_s :: real
  health_linkstats_critical_factor :: real
  health_hysteresis_s :: real
  elrs_major_version :: int
  sensitivity_floors :: "string \<rightharpoonup> int"

definition default_health_settings :: health_settings where
  "default_health_settings =
     \<lparr>health_lq_warn = 70, health_lq_critical = 50, health_downlink_lq_warn = 60,
      health_rssi_margin_db = 10, health_linkstats_stale_s = 1,
      health_linkstats_critical_factor = 2, health_hysteresis_s = 2, elrs_major_version = 3,
      sensitivity_floors = map_of [(''3:0'', -120), (''3:1'', -117), (''3:2'', -112),
        (''3:3'', -108), (''3:4'', -105), (''3:5'', -105), (''3:6'', -105)]\<rparr>"

definition sensitivity_floor :: "health_settings \<Rightarrow> int \<Rightarrow> int \<Rightarrow> int option" where
  "sensitivity_floor S elrs_major mode =
     sensitivity_floors S (str_int elrs_major @ '':'' @ str_int mode)"

section \<open>The instantaneous state\<close>

definition escalate :: "health_state \<Rightarrow> health_state \<Rightarrow> health_state" where
  "escalate current at_least = (if severity current < severity at_least then at_least else current)"

text \<open>
  \<^verbatim>\<open>_raw_state\<close>.  The co-signals of a fresh frame are added in the code's order: uplink LQ,
  downlink LQ, RSSI of the active antenna against the floor of the installed firmware.
\<close>

definition lq_signal :: "health_settings \<Rightarrow> link_statistics \<Rightarrow> health_state \<times> string list" where
  "lq_signal S msg =
     (if uplink_lq msg < health_lq_warn S then (HS_WARN, [''lq_below_warn'']) else (HS_OK, []))"

definition downlink_signal ::
  "health_settings \<Rightarrow> link_statistics \<Rightarrow> health_state \<times> string list \<Rightarrow> health_state \<times> string list"
where
  "downlink_signal S msg = (\<lambda>(state, rs).
     if downlink_lq msg < health_downlink_lq_warn S
     then (escalate state HS_WARN, rs @ [''downlink_degrading'']) else (state, rs))"

definition rssi_signal ::
  "health_settings \<Rightarrow> link_statistics \<Rightarrow> health_state \<times> string list \<Rightarrow> health_state \<times> string list"
where
  "rssi_signal S msg = (\<lambda>(state, rs).
     case sensitivity_floor S (elrs_major_version S) (rf_mode msg) of
       None \<Rightarrow> (state, rs)
     | Some fl \<Rightarrow>
         let active_rssi =
               (if active_antenna msg = 1 then uplink_rssi_ant2_dbm msg else uplink_rssi_ant1_dbm msg)
         in if active_rssi < fl + health_rssi_margin_db S
            then (escalate state HS_WARN, rs @ [''rssi_below_margin'']) else (state, rs))"

definition raw_state :: "health_settings \<Rightarrow> telemetry_store \<Rightarrow> real \<Rightarrow> health_state \<times> string list" where
  "raw_state S st now =
     (case store_latest st TLinkStatistics of
        Some (LinkStatistics msg, t) \<Rightarrow>
          let age = now - t; stale = health_linkstats_stale_s S
          in if health_linkstats_critical_factor S * stale < age
               then (HS_CRITICAL, [''linkstats_stale''])
             else if stale < age then (HS_WARN, [''linkstats_stale''])
             else if uplink_lq msg < health_lq_critical S then (HS_CRITICAL, [''lq_below_critical''])
             else rssi_signal S msg (downlink_signal S msg (lq_signal S msg))
      | _ \<Rightarrow> (NO_DATA, [''no_telemetry'']))"

section \<open>Hysteresis\<close>

record monitor =
  m_state :: health_state
  m_last_report :: "health_report option"
  m_pending :: "health_state option"
  m_pending_since :: real

definition new_monitor :: monitor where
  "new_monitor = \<lparr>m_state = NO_DATA, m_last_report = None, m_pending = None, m_pending_since = 0\<rparr>"

definition apply_hysteresis :: "health_settings \<Rightarrow> health_state \<Rightarrow> real \<Rightarrow> monitor \<Rightarrow> monitor" where
  "apply_hysteresis S raw now m =
     (if raw = m_state m then m\<lparr>m_pending := None\<rparr>
      else if severity (m_state m) < severity raw then m\<lparr>m_state := raw, m_pending := None\<rparr>
      else if m_pending m \<noteq> Some raw then m\<lparr>m_pending := Some raw, m_pending_since := now\<rparr>
      else if health_hysteresis_s S \<le> now - m_pending_since m
        then m\<lparr>m_state := raw, m_pending := None\<rparr>
      else m)"

text \<open>
  \<^verbatim>\<open>evaluate\<close>: the report, the new state of the monitor, and what the alert sink is told (the
  report and the previous one), if anything.
\<close>

definition evaluate ::
  "health_settings \<Rightarrow> telemetry_store \<Rightarrow> real \<Rightarrow> monitor \<Rightarrow>
     health_report \<times> monitor \<times> (health_report \<times> health_report option) option" where
  "evaluate S st now m =
     (let (raw, rs) = raw_state S st now;
          m1 = apply_hysteresis S raw now m;
          confirmed = m_state m1;
          report = \<lparr>hr_state = confirmed, arm_permitted = (confirmed = HS_OK),
             reasons = (if confirmed \<noteq> raw then [''hysteresis_hold''] else rs), t_mono = now\<rparr>;
          previous = m_last_report m;
          alert = (case previous of
              None \<Rightarrow> Some (report, None)
            | Some p \<Rightarrow> if hr_state p \<noteq> confirmed then Some (report, Some p) else None)
      in (report, m1\<lparr>m_last_report := Some report\<rparr>, alert))"

section \<open>Lemmas on one evaluation\<close>

lemma escalate_ge: "severity s \<le> severity (escalate s t)" "severity t \<le> severity (escalate s t)"
  by (simp_all add: escalate_def)

lemma hysteresis_never_better: "severity raw \<le> severity (m_state (apply_hysteresis S raw now m))"
  by (simp add: apply_hysteresis_def)

lemma hysteresis_degrades_at_once:
  "severity (m_state m) < severity raw \<Longrightarrow> m_state (apply_hysteresis S raw now m) = raw"
  by (auto simp: apply_hysteresis_def)

lemma hysteresis_moves:
  "m_state (apply_hysteresis S raw now m) = m_state m \<or> m_state (apply_hysteresis S raw now m) = raw"
  by (simp add: apply_hysteresis_def)

lemma evaluate_state:
  "hr_state (fst (evaluate S st now m)) =
     m_state (apply_hysteresis S (fst (raw_state S st now)) now m)"
  by (simp add: evaluate_def Let_def split: prod.split)

lemma evaluate_monitor:
  "fst (snd (evaluate S st now m)) =
     (apply_hysteresis S (fst (raw_state S st now)) now m)
       \<lparr>m_last_report := Some (fst (evaluate S st now m))\<rparr>"
  by (simp add: evaluate_def Let_def split: prod.split)

lemma evaluate_arm: "arm_permitted (fst (evaluate S st now m)) \<longleftrightarrow> hr_state (fst (evaluate S st now m)) = HS_OK"
  by (simp add: evaluate_def Let_def split: prod.split)

lemma evaluate_time [simp]: "t_mono (fst (evaluate S st now m)) = now"
  by (simp add: evaluate_def Let_def split: prod.split)

lemma raw_state_OK:
  assumes "fst (raw_state S st now) = HS_OK"
  obtains msg t where "store_latest st TLinkStatistics = Some (LinkStatistics msg, t)"
    "now - t \<le> health_linkstats_stale_s S" "health_lq_critical S \<le> uplink_lq msg"
    "health_lq_warn S \<le> uplink_lq msg" "health_downlink_lq_warn S \<le> downlink_lq msg"
  using assms
  by (auto simp: raw_state_def Let_def rssi_signal_def downlink_signal_def lq_signal_def escalate_def
      split: option.splits prod.splits telemetry_message.splits if_splits)

lemma evaluate_permits:
  assumes "arm_permitted (fst (evaluate S st now m))"
  shows "fst (raw_state S st now) = HS_OK"
proof -
  have "severity (fst (raw_state S st now)) \<le> 0"
    using hysteresis_never_better [of "fst (raw_state S st now)" S now m] assms
    by (simp add: evaluate_arm evaluate_state)
  then show ?thesis by (cases "fst (raw_state S st now)") simp_all
qed

text \<open>A report is never reasonless unless the state is OK.\<close>

lemma raw_state_reasons:
  "fst (raw_state S st now) \<noteq> HS_OK \<Longrightarrow> snd (raw_state S st now) \<noteq> []"
  by (auto simp: raw_state_def Let_def rssi_signal_def downlink_signal_def lq_signal_def escalate_def
      split: option.splits prod.splits telemetry_message.splits if_splits)

lemma evaluate_reasons:
  "hr_state (fst (evaluate S st now m)) \<noteq> HS_OK \<Longrightarrow> reasons (fst (evaluate S st now m)) \<noteq> []"
  using raw_state_reasons [of S st now]
  by (auto simp: evaluate_def Let_def split: prod.splits if_splits)

section \<open>Recovery over a run\<close>

text \<open>
  A run of the monitor is the list of its samples, each the raw state and the clock reading.
  \<open>held\<close> says that the last samples of a run all had the same raw state, since a given time.
\<close>

type_synonym sample = "health_state \<times> real"

definition hyst_run :: "health_settings \<Rightarrow> monitor \<Rightarrow> sample list \<Rightarrow> monitor" where
  "hyst_run S m xs = foldl (\<lambda>m (raw, now). apply_hysteresis S raw now m) m xs"

definition held :: "sample list \<Rightarrow> health_state \<Rightarrow> real \<Rightarrow> bool" where
  "held xs s since \<longleftrightarrow>
     (\<exists>zs ys. xs = zs @ ys \<and> ys \<noteq> [] \<and> (\<forall>x \<in> set ys. fst x = s) \<and> snd (hd ys) = since)"

lemma hyst_run_snoc:
  "hyst_run S m (xs @ [(raw, now)]) = apply_hysteresis S raw now (hyst_run S m xs)"
  by (simp add: hyst_run_def)

lemma held_single: "held (xs @ [(s, t)]) s t"
  unfolding held_def by (rule exI [of _ xs], rule exI [of _ "[(s, t)]"]) simp

lemma held_extend: "held xs s since \<Longrightarrow> held (xs @ [(s, t)]) s since"
  unfolding held_def
  by (elim exE conjE, rule_tac x = zs in exI, rule_tac x = "ys @ [(s, t)]" in exI) (auto simp: hd_append)

lemma pending_held:
  assumes "m_pending m = None"
  shows "m_pending (hyst_run S m xs) = Some p \<Longrightarrow> held xs p (m_pending_since (hyst_run S m xs))"
proof (induction xs arbitrary: p rule: rev_induct)
  case Nil
  then show ?case using assms by (simp add: hyst_run_def)
next
  case (snoc x xs)
  obtain raw now where x: "x = (raw, now)" by (cases x)
  let ?m = "hyst_run S m xs"
  show ?case
  proof (cases "m_pending ?m = Some raw")
    case True
    with snoc x show ?thesis
      by (auto simp: hyst_run_snoc apply_hysteresis_def held_extend split: if_splits)
  next
    case False
    with snoc.prems x show ?thesis
      by (auto simp: hyst_run_snoc apply_hysteresis_def held_single split: if_splits)
  qed
qed

lemma recovery_needs_hold:
  assumes "m_pending m = None"
    and "severity (m_state (hyst_run S m (xs @ [(raw, now)]))) < severity (m_state (hyst_run S m xs))"
  shows "m_state (hyst_run S m (xs @ [(raw, now)])) = raw \<and>
    (\<exists>since. held xs raw since \<and> health_hysteresis_s S \<le> now - since)"
proof -
  let ?m = "hyst_run S m xs"
  have "m_pending ?m = Some raw" "health_hysteresis_s S \<le> now - m_pending_since ?m"
    "m_state (hyst_run S m (xs @ [(raw, now)])) = raw"
    using assms(2) by (auto simp: hyst_run_snoc apply_hysteresis_def split: if_splits)
  with pending_held [OF assms(1)] show ?thesis by blast
qed

text \<open>A run that starts away from OK and ends at OK passed through a held recovery.\<close>

lemma reaching_OK_was_held:
  assumes "m_pending m = None" and "m_state m \<noteq> HS_OK" and "m_state (hyst_run S m xs) = HS_OK"
  shows "\<exists>ys now zs since. xs = ys @ (HS_OK, now) # zs \<and> held ys HS_OK since \<and>
    health_hysteresis_s S \<le> now - since"
  using assms(3)
proof (induction xs rule: rev_induct)
  case Nil
  then show ?case using assms(2) by (simp add: hyst_run_def)
next
  case (snoc x xs)
  obtain raw now where x: "x = (raw, now)" by (cases x)
  show ?case
  proof (cases "m_state (hyst_run S m xs) = HS_OK")
    case True
    from snoc.IH [OF True] obtain ys t zs since
      where "xs = ys @ (HS_OK, t) # zs" "held ys HS_OK since" "health_hysteresis_s S \<le> t - since"
      by blast
    then have "xs @ [x] = ys @ (HS_OK, t) # (zs @ [x])" by simp
    with \<open>held ys HS_OK since\<close> \<open>health_hysteresis_s S \<le> t - since\<close> show ?thesis by blast
  next
    case False
    then have "severity (m_state (hyst_run S m (xs @ [(raw, now)]))) < severity (m_state (hyst_run S m xs))"
      using snoc.prems x by (cases "m_state (hyst_run S m xs)") simp_all
    from recovery_needs_hold [OF assms(1) this] snoc.prems x
    obtain since where "raw = HS_OK" "held xs HS_OK since" "health_hysteresis_s S \<le> now - since" by auto
    then show ?thesis using x by blast
  qed
qed

end
