(* ===== verification/Command_Safety.thy ===== *)
theory Command_Safety
  imports Command_Spec Link_Health
begin

text \<open>
  The two gates of the command service, \<^verbatim>\<open>meshsa/command/safety.py\<close> (the arm interlock and the
  confirmation gate), and the health provider behind the interlock,
  \<^verbatim>\<open>meshsa/command/health.py\<close>.  A confirmation token is what \<^verbatim>\<open>id_factory.new_id()\<close> returned
  (a random UUID in production): an argument of \<open>gate_stage\<close>.
\<close>

section \<open>The interlock predicate\<close>

definition arm_allowed :: "health_report option \<Rightarrow> real \<Rightarrow> real \<Rightarrow> bool" where
  "arm_allowed report now max_age_s =
     (case report of
        None \<Rightarrow> False
      | Some r \<Rightarrow> now - t_mono r \<le> max_age_s \<and> arm_permitted r)"

section \<open>The confirmation gate\<close>

type_synonym gate = "string \<rightharpoonup> command_spec"

definition new_gate :: gate where
  "new_gate = Map.empty"

definition gate_stage :: "string \<Rightarrow> command_spec \<Rightarrow> gate \<Rightarrow> string \<times> gate" where
  "gate_stage token spec g = (token, g(token \<mapsto> spec))"

definition gate_pending :: "string \<Rightarrow> gate \<Rightarrow> command_error + command_spec" where
  "gate_pending token g =
     (case g token of None \<Rightarrow> Inl (UnknownConfirmationError token) | Some spec \<Rightarrow> Inr spec)"

definition gate_confirm :: "string \<Rightarrow> bool \<Rightarrow> gate \<Rightarrow> (command_error + command_spec) \<times> gate" where
  "gate_confirm token force_ack g =
     (case g token of
        None \<Rightarrow> (Inl (UnknownConfirmationError token), g)
      | Some spec \<Rightarrow>
          if cs_requires_force_confirm spec \<and> \<not> force_ack
          then (Inl (ForceConfirmationRequired (cs_name spec)), g)
          else (Inr spec, g(token := None)))"

definition gate_cancel :: "string \<Rightarrow> gate \<Rightarrow> gate" where
  "gate_cancel token g = g(token := None)"

lemma gate_confirm_Inr_iff:
  "gate_confirm token force g = (Inr spec, g') \<longleftrightarrow>
     g token = Some spec \<and> (cs_requires_force_confirm spec \<longrightarrow> force) \<and> g' = g(token := None)"
  by (auto simp: gate_confirm_def split: option.split)

lemma gate_confirm_Inl_keeps: "gate_confirm token force g = (Inl e, g') \<Longrightarrow> g' = g"
  by (auto simp: gate_confirm_def split: option.splits if_splits)

lemma gate_confirm_once:
  "gate_confirm token force g = (Inr spec, g') \<Longrightarrow>
   gate_confirm token force' g' = (Inl (UnknownConfirmationError token), g')"
  unfolding gate_confirm_Inr_iff by (simp add: gate_confirm_def)

lemma gate_confirm_frame:
  "token' \<noteq> token \<Longrightarrow> snd (gate_confirm token force g) token' = g token'"
  by (simp add: gate_confirm_def split: option.split)

section \<open>Runs of the gate\<close>

datatype gate_op = GStage string command_spec | GConfirm string bool | GCancel string

fun gate_step :: "gate \<Rightarrow> gate_op \<Rightarrow> gate \<times> (string \<times> command_spec) option" where
  "gate_step g (GStage t s) = (snd (gate_stage t s g), None)"
| "gate_step g (GConfirm t f) =
     (case gate_confirm t f g of
        (Inl _, g') \<Rightarrow> (g', None)
      | (Inr s, g') \<Rightarrow> (g', Some (t, s)))"
| "gate_step g (GCancel t) = (gate_cancel t g, None)"

text \<open>The commands a run releases, in order, each with its token.\<close>

fun released :: "gate \<Rightarrow> gate_op list \<Rightarrow> (string \<times> command_spec) list" where
  "released g [] = []"
| "released g (op # ops) =
     (case gate_step g op of
        (g', None) \<Rightarrow> released g' ops
      | (g', Some r) \<Rightarrow> r # released g' ops)"

fun staged :: "gate_op list \<Rightarrow> (string \<times> command_spec) list" where
  "staged [] = []"
| "staged (GStage t s # ops) = (t, s) # staged ops"
| "staged (_ # ops) = staged ops"

definition parked :: "gate \<Rightarrow> string \<Rightarrow> nat" where
  "parked g t = (case g t of None \<Rightarrow> 0 | Some _ \<Rightarrow> 1)"

text \<open>A release consumes a stage: no token is released more often than it was staged.\<close>

lemma released_at_most_staged:
  "length (filter (\<lambda>r. fst r = t) (released g ops)) \<le>
     parked g t + length (filter (\<lambda>r. fst r = t) (staged ops))"
proof (induction ops arbitrary: g)
  case Nil
  then show ?case by simp
next
  case (Cons op ops)
  show ?case
  proof (cases op)
    case (GStage t' s)
    have "parked (g(t' \<mapsto> s)) t \<le> parked g t + (if t' = t then 1 else 0)"
      by (simp add: parked_def split: option.split)
    moreover have "released g (op # ops) = released (g(t' \<mapsto> s)) ops"
      by (simp add: GStage gate_stage_def)
    moreover have "length (filter (\<lambda>r. fst r = t) (staged (op # ops))) =
        (if t' = t then 1 else 0) + length (filter (\<lambda>r. fst r = t) (staged ops))"
      by (simp add: GStage)
    moreover note Cons.IH [of "g(t' \<mapsto> s)"]
    ultimately show ?thesis by (cases "t' = t") (simp_all del: fun_upd_apply released.simps staged.simps)
  next
    case (GConfirm t' f)
    show ?thesis
    proof (cases "gate_confirm t' f g")
      case (Pair r g')
      show ?thesis
      proof (cases r)
        case (Inl e)
        with Pair have "g' = g" by (simp add: gate_confirm_Inl_keeps)
        with Pair Inl Cons.IH [of g] show ?thesis by (simp add: GConfirm)
      next
        case (Inr s)
        with Pair have "g t' = Some s" "g' = g(t' := None)" by (simp_all add: gate_confirm_Inr_iff)
        then have "parked g' t + (if t' = t then 1 else 0) \<le> parked g t"
          by (auto simp: parked_def split: option.split)
        with Pair Inr Cons.IH [of g'] show ?thesis by (auto simp: GConfirm)
      qed
    qed
  next
    case (GCancel t')
    have "parked (g(t' := None)) t \<le> parked g t" by (simp add: parked_def)
    then show ?thesis
      using Cons.IH [of "g(t' := None)"] by (simp add: GCancel gate_cancel_def del: fun_upd_apply)
  qed
qed

lemma released_was_staged:
  "(t, s) \<in> set (released g ops) \<Longrightarrow> g t = Some s \<or> (t, s) \<in> set (staged ops)"
proof (induction ops arbitrary: g)
  case Nil
  then show ?case by simp
next
  case (Cons op ops)
  show ?case
  proof (cases op)
    case (GStage t' s')
    with Cons show ?thesis by (fastforce simp: gate_stage_def split: if_splits)
  next
    case (GConfirm t' f)
    show ?thesis
    proof (cases "gate_confirm t' f g")
      case (Pair r g')
      show ?thesis
      proof (cases r)
        case (Inl e)
        with Pair have "g' = g" by (simp add: gate_confirm_Inl_keeps)
        with Pair Inl Cons show ?thesis by (auto simp: GConfirm)
      next
        case (Inr s')
        with Pair have g: "g t' = Some s'" "g' t = (if t = t' then None else g t)"
          by (simp_all add: gate_confirm_Inr_iff)
        have "(t, s) = (t', s') \<or> (t, s) \<in> set (released g' ops)"
          using Pair Inr Cons.prems by (simp add: GConfirm)
        then show ?thesis using Cons.IH [of g'] g by (auto simp: GConfirm split: if_splits)
      qed
    qed
  next
    case (GCancel t')
    with Cons show ?thesis by (fastforce simp: gate_cancel_def split: if_splits)
  qed
qed

section \<open>The heartbeat health provider\<close>

record heartbeat_health =
  hb_max_age_s :: real
  hb_last :: "real option"

definition new_heartbeat :: "real \<Rightarrow> heartbeat_health" where
  "new_heartbeat max_age = \<lparr>hb_max_age_s = max_age, hb_last = None\<rparr>"

text \<open>\<^verbatim>\<open>beat(t)\<close>; with no argument \<open>t\<close> is the clock reading \<open>now\<close>.\<close>

definition hb_beat :: "real option \<Rightarrow> real \<Rightarrow> heartbeat_health \<Rightarrow> heartbeat_health" where
  "hb_beat t now h = h\<lparr>hb_last := Some (case t of None \<Rightarrow> now | Some t' \<Rightarrow> t')\<rparr>"

definition hb_report :: "real \<Rightarrow> heartbeat_health \<Rightarrow> health_report option" where
  "hb_report now h =
     (case hb_last h of
        None \<Rightarrow> None
      | Some l \<Rightarrow>
          let fresh = now - l \<le> hb_max_age_s h
          in Some \<lparr>hr_state = (if fresh then HS_OK else NO_DATA), arm_permitted = fresh,
                   reasons = (if fresh then [] else [''heartbeat_stale'']), t_mono = l\<rparr>)"

text \<open>The interlock over this provider is exactly a bound on the age of the last heartbeat.\<close>

lemma arm_allowed_heartbeat:
  "arm_allowed (hb_report t1 h) t2 max_age \<longleftrightarrow>
     (\<exists>l. hb_last h = Some l \<and> t1 - l \<le> hb_max_age_s h \<and> t2 - l \<le> max_age)"
  by (auto simp: arm_allowed_def hb_report_def Let_def split: option.splits)

end
