(* ===== verification/Command_Lifecycle.thy ===== *)
theory Command_Lifecycle
  imports Command_Safety
begin

text \<open>
  The command sender, \<^verbatim>\<open>meshsa/command/lifecycle.py\<close>: send, wait for the matching
  acknowledgement, retry up to a bound, fail closed.  What the sender drives (the link, the audit
  log, the clock) is a record of actions on a world \<open>'w\<close>; an action either returns a value or
  raises, and leaves a world behind in both cases.  The wait loop may run as long as unrelated
  acknowledgements keep coming, so it is a partial function and \<open>None\<close> is non-termination.
\<close>

section \<open>Acknowledgements and outcomes\<close>

definition MAV_RESULT_ACCEPTED :: int where "MAV_RESULT_ACCEPTED = 0"
definition MAV_RESULT_TEMPORARILY_REJECTED :: int where "MAV_RESULT_TEMPORARILY_REJECTED = 1"
definition MAV_RESULT_DENIED :: int where "MAV_RESULT_DENIED = 2"
definition MAV_RESULT_UNSUPPORTED :: int where "MAV_RESULT_UNSUPPORTED = 3"
definition MAV_RESULT_FAILED :: int where "MAV_RESULT_FAILED = 4"
definition MAV_RESULT_IN_PROGRESS :: int where "MAV_RESULT_IN_PROGRESS = 5"
definition MAV_RESULT_CANCELLED :: int where "MAV_RESULT_CANCELLED = 6"

definition TERMINAL_FAILURES :: "int set" where
  "TERMINAL_FAILURES =
     {MAV_RESULT_DENIED, MAV_RESULT_UNSUPPORTED, MAV_RESULT_FAILED, MAV_RESULT_CANCELLED}"

lemmas mav_results =
  MAV_RESULT_ACCEPTED_def MAV_RESULT_TEMPORARILY_REJECTED_def MAV_RESULT_DENIED_def
  MAV_RESULT_UNSUPPORTED_def MAV_RESULT_FAILED_def MAV_RESULT_IN_PROGRESS_def
  MAV_RESULT_CANCELLED_def TERMINAL_FAILURES_def

record ack =
  ack_command :: int
  ack_result :: int
  ack_source_system :: int

record command_outcome =
  co_spec :: command_spec
  co_accepted :: bool
  co_result :: "int option"
  co_attempts :: int
  co_reason :: string

text \<open>The audit events of the command path, with the fields the code writes.\<close>

datatype audit_event =
    CommandAttempt int string int
  | CommandNoAck int string int
  | CommandAccepted int string int
  | CommandRejected int string int int
  | CommandRetry int string int int
  | CommandFailed int string int "int option"
  | CommandStaged string string int
  | CommandCancelled string
  | ArmBlocked string
  | CommandConfirmed string string bool

section \<open>The environment of the sender\<close>

type_synonym ('w, 'a) action = "'w \<Rightarrow> (py_exn + 'a) \<times> 'w"

record 'w command_env =
  ce_record :: "audit_event \<Rightarrow> ('w, unit) action"
  ce_drain :: "('w, unit) action option"
  ce_send :: "command_spec \<Rightarrow> ('w, unit) action"
  ce_recv_ack :: "real \<Rightarrow> ('w, ack option) action"
  ce_now :: "'w \<Rightarrow> real \<times> 'w"

definition ack_matches :: "int \<Rightarrow> int option \<Rightarrow> ack \<Rightarrow> bool" where
  "ack_matches command expect_system a \<longleftrightarrow>
     \<not> (ack_command a \<noteq> command) \<and>
     \<not> (case expect_system of None \<Rightarrow> False | Some s \<Rightarrow> ack_source_system a \<noteq> s)"

partial_function (option) await_loop ::
  "'w command_env \<Rightarrow> int \<Rightarrow> int option \<Rightarrow> real \<Rightarrow> 'w \<Rightarrow> ((py_exn + ack option) \<times> 'w) option"
where
  "await_loop E command expect deadline w =
     (case ce_now E w of (now, w1) \<Rightarrow>
        let remaining = deadline - now
        in if remaining \<le> 0 then Some (Inr None, w1)
           else
             case ce_recv_ack E remaining w1 of
               (Inl e, w2) \<Rightarrow> Some (Inl e, w2)
             | (Inr None, w2) \<Rightarrow> Some (Inr None, w2)
             | (Inr (Some a), w2) \<Rightarrow>
                 if \<not> ack_matches command expect a then await_loop E command expect deadline w2
                 else Some (Inr (Some a), w2))"

declare await_loop.simps [code]

definition await_ack ::
  "'w command_env \<Rightarrow> commander_settings \<Rightarrow> int option \<Rightarrow> int \<Rightarrow> 'w \<Rightarrow>
     ((py_exn + ack option) \<times> 'w) option" where
  "await_ack E S expect command w =
     (case ce_now E w of (now, w1) \<Rightarrow> await_loop E command expect (now + ack_timeout_s S) w1)"

section \<open>Executing a command\<close>

text \<open>Sequencing of actions: a raise ends the execution with that exception.\<close>

definition and_then ::
  "('w, 'a) action \<Rightarrow> ('a \<Rightarrow> 'w \<Rightarrow> ((py_exn + 'b) \<times> 'w) option) \<Rightarrow> 'w \<Rightarrow> ((py_exn + 'b) \<times> 'w) option"
where
  "and_then a k w = (case a w of (Inl e, w') \<Rightarrow> Some (Inl e, w') | (Inr v, w') \<Rightarrow> k v w')"

definition drain_first :: "'w command_env \<Rightarrow> int \<Rightarrow> ('w, unit) action" where
  "drain_first E attempt =
     (case ce_drain E of
        Some drain \<Rightarrow> if attempt = 1 then drain else (\<lambda>w. (Inr (), w))
      | None \<Rightarrow> (\<lambda>w. (Inr (), w)))"

text \<open>
  The loop over the attempts: \<open>n\<close> attempts are left and \<open>attempt\<close> is the number of the next one.
\<close>

fun execute_loop ::
  "'w command_env \<Rightarrow> commander_settings \<Rightarrow> int option \<Rightarrow> command_spec \<Rightarrow> nat \<Rightarrow> int \<Rightarrow>
     int option \<Rightarrow> 'w \<Rightarrow> ((py_exn + command_outcome) \<times> 'w) option" where
  "execute_loop E S expect spec 0 attempt last_result =
     and_then (ce_record E
         (CommandFailed (cs_command spec) (cs_name spec) (max_attempts S) last_result)) (\<lambda>_ w.
       Some (Inr \<lparr>co_spec = spec, co_accepted = False, co_result = last_result,
                  co_attempts = max_attempts S, co_reason = ''exhausted_retries''\<rparr>, w))"
| "execute_loop E S expect spec (Suc n) attempt last_result =
     and_then (ce_record E (CommandAttempt (cs_command spec) (cs_name spec) attempt)) (\<lambda>_.
     and_then (drain_first E attempt) (\<lambda>_.
     and_then (ce_send E spec) (\<lambda>_ w.
       case await_ack E S expect (cs_command spec) w of
         None \<Rightarrow> None
       | Some (Inl e, w') \<Rightarrow> Some (Inl e, w')
       | Some (Inr None, w') \<Rightarrow>
           and_then (ce_record E (CommandNoAck (cs_command spec) (cs_name spec) attempt)) (\<lambda>_.
             execute_loop E S expect spec n (attempt + 1) last_result) w'
       | Some (Inr (Some a), w') \<Rightarrow>
           if ack_result a = MAV_RESULT_ACCEPTED then
             and_then (ce_record E (CommandAccepted (cs_command spec) (cs_name spec) attempt)) (\<lambda>_ w2.
               Some (Inr \<lparr>co_spec = spec, co_accepted = True, co_result = Some (ack_result a),
                          co_attempts = attempt, co_reason = []\<rparr>, w2)) w'
           else if ack_result a \<in> TERMINAL_FAILURES then
             and_then (ce_record E
               (CommandRejected (cs_command spec) (cs_name spec) attempt (ack_result a))) (\<lambda>_ w2.
               Some (Inr \<lparr>co_spec = spec, co_accepted = False, co_result = Some (ack_result a),
                          co_attempts = attempt, co_reason = ''terminal_reject''\<rparr>, w2)) w'
           else
             and_then (ce_record E
               (CommandRetry (cs_command spec) (cs_name spec) attempt (ack_result a))) (\<lambda>_.
               execute_loop E S expect spec n (attempt + 1) (Some (ack_result a))) w')))"

definition execute ::
  "'w command_env \<Rightarrow> commander_settings \<Rightarrow> int option \<Rightarrow> command_spec \<Rightarrow> 'w \<Rightarrow>
     ((py_exn + command_outcome) \<times> 'w) option" where
  "execute E S expect spec = execute_loop E S expect spec (nat (max_attempts S)) 1 None"

definition is_accepted :: "int list \<Rightarrow> bool" where
  "is_accepted results \<longleftrightarrow> results \<noteq> [] \<and> list_all (\<lambda>r. r = MAV_RESULT_ACCEPTED) results"

section \<open>The protocol, as a language of traces\<close>

text \<open>What an observer of the sender sees: durable audit records, transmissions, acknowledgements.\<close>

datatype io_event = Wrote audit_event | Sent command_spec | Got "ack option"

text \<open>
  One attempt: the attempt is on record before the command goes out, and the acknowledgements read
  before the last are unrelated.  \<open>r\<close> is the matching acknowledgement that ends the attempt, if one
  does; a wait may also end without a read.
\<close>

definition attempt_events ::
  "command_spec \<Rightarrow> int option \<Rightarrow> int \<Rightarrow> ack option \<Rightarrow> io_event list \<Rightarrow> bool" where
  "attempt_events spec expect k r es \<longleftrightarrow>
     (\<exists>skipped tail. es = Wrote (CommandAttempt (cs_command spec) (cs_name spec) k) # Sent spec #
          map (\<lambda>a. Got (Some a)) skipped @ tail \<and>
        list_all (\<lambda>a. \<not> ack_matches (cs_command spec) expect a) skipped \<and>
        (case r of
           None \<Rightarrow> tail = [] \<or> tail = [Got None]
         | Some a \<Rightarrow> ack_matches (cs_command spec) expect a \<and> tail = [Got (Some a)]))"

inductive protocol ::
  "command_spec \<Rightarrow> int option \<Rightarrow> int \<Rightarrow> nat \<Rightarrow> int \<Rightarrow> int option \<Rightarrow> io_event list \<Rightarrow> command_outcome \<Rightarrow> bool"
  for spec expect maxa
where
  exhausted: "protocol spec expect maxa 0 k res
      [Wrote (CommandFailed (cs_command spec) (cs_name spec) maxa res)]
      \<lparr>co_spec = spec, co_accepted = False, co_result = res, co_attempts = maxa,
       co_reason = ''exhausted_retries''\<rparr>"
| no_ack: "attempt_events spec expect k None es \<Longrightarrow>
      protocol spec expect maxa n (k + 1) res es' out \<Longrightarrow>
      protocol spec expect maxa (Suc n) k res
        (es @ Wrote (CommandNoAck (cs_command spec) (cs_name spec) k) # es') out"
| accepted: "attempt_events spec expect k (Some a) es \<Longrightarrow> ack_result a = MAV_RESULT_ACCEPTED \<Longrightarrow>
      protocol spec expect maxa (Suc n) k res
        (es @ [Wrote (CommandAccepted (cs_command spec) (cs_name spec) k)])
        \<lparr>co_spec = spec, co_accepted = True, co_result = Some (ack_result a), co_attempts = k,
         co_reason = []\<rparr>"
| rejected: "attempt_events spec expect k (Some a) es \<Longrightarrow> ack_result a \<in> TERMINAL_FAILURES \<Longrightarrow>
      protocol spec expect maxa (Suc n) k res
        (es @ [Wrote (CommandRejected (cs_command spec) (cs_name spec) k (ack_result a))])
        \<lparr>co_spec = spec, co_accepted = False, co_result = Some (ack_result a), co_attempts = k,
         co_reason = ''terminal_reject''\<rparr>"
| retry: "attempt_events spec expect k (Some a) es \<Longrightarrow> ack_result a \<noteq> MAV_RESULT_ACCEPTED \<Longrightarrow>
      ack_result a \<notin> TERMINAL_FAILURES \<Longrightarrow>
      protocol spec expect maxa n (k + 1) (Some (ack_result a)) es' out \<Longrightarrow>
      protocol spec expect maxa (Suc n) k res
        (es @ Wrote (CommandRetry (cs_command spec) (cs_name spec) k (ack_result a)) # es') out"

inductive_cases protocol_0E: "protocol spec expect maxa 0 k res es out"

definition sends :: "io_event list \<Rightarrow> nat" where
  "sends es = length (filter (\<lambda>e. case e of Sent _ \<Rightarrow> True | _ \<Rightarrow> False) es)"

lemma sends_simps [simp]:
  "sends [] = 0" "sends (Wrote a # es) = sends es" "sends (Sent s # es) = Suc (sends es)"
  "sends (Got r # es) = sends es" "sends (es @ es') = sends es + sends es'"
  by (simp_all add: sends_def)

lemma sends_skipped [simp]: "sends (map (\<lambda>a. Got (f a)) xs) = 0"
  by (induction xs) simp_all

lemma attempt_sends: "attempt_events spec expect k r es \<Longrightarrow> sends es = 1"
  by (auto simp: attempt_events_def split: option.splits)

lemma protocol_sends: "protocol spec expect maxa n k res es out \<Longrightarrow> sends es \<le> n"
  by (induction rule: protocol.induct) (auto dest: attempt_sends)

text \<open>Success is reported only on a matching acknowledgement that says ACCEPTED.\<close>

lemma protocol_accepted:
  assumes "protocol spec expect maxa n k res es out" and "co_accepted out"
  shows "\<exists>es1 a. es = es1 @ [Got (Some a), Wrote (CommandAccepted (cs_command spec) (cs_name spec)
        (co_attempts out))] \<and>
      ack_matches (cs_command spec) expect a \<and> ack_result a = MAV_RESULT_ACCEPTED"
  using assms
proof (induction rule: protocol.induct)
  case (accepted k a es n res)
  then show ?case by (force simp: attempt_events_def)
qed auto

text \<open>The last record on file says how the command ended.\<close>

lemma protocol_last:
  "protocol spec expect maxa n k res es out \<Longrightarrow>
   es \<noteq> [] \<and> last es = Wrote
     (if co_accepted out then CommandAccepted (cs_command spec) (cs_name spec) (co_attempts out)
      else if co_reason out = ''terminal_reject''
        then CommandRejected (cs_command spec) (cs_name spec) (co_attempts out) (the (co_result out))
      else CommandFailed (cs_command spec) (cs_name spec) (co_attempts out) (co_result out))"
  by (induction rule: protocol.induct) simp_all

end
