(* ===== verification/Command_Protocol.thy ===== *)
theory Command_Protocol
  imports Command_Lifecycle
begin

text \<open>
  What an observer of the command sender can rely on, whatever the link, the audit log and the
  clock do: the contract \<open>observed_env\<close> of an environment, and the proof that every execution that
  ends, normally or by an exception, keeps to the protocol of \<^verbatim>\<open>meshsa/command/lifecycle.py\<close>.
\<close>

section \<open>Audited transmissions\<close>

text \<open>Every transmission is of the given command, right after the record of the attempt.\<close>

definition audited :: "command_spec \<Rightarrow> io_event list \<Rightarrow> bool" where
  "audited spec es \<longleftrightarrow>
     (\<forall>es1 s es2. es = es1 @ Sent s # es2 \<longrightarrow>
        s = spec \<and> (\<exists>es0 k. es1 = es0 @ [Wrote (CommandAttempt (cs_command spec) (cs_name spec) k)]))"

lemma audited_Nil [simp]: "audited spec []"
  by (simp add: audited_def)

lemma audited_no_sends: "sends es = 0 \<Longrightarrow> audited spec es"
  by (auto simp: audited_def)

lemma audited_append:
  assumes "audited spec xs" "audited spec ys"
  shows "audited spec (xs @ ys)"
  unfolding audited_def
proof (intro allI impI)
  fix es1 s es2
  assume "xs @ ys = es1 @ Sent s # es2"
  then consider us where "xs = es1 @ Sent s # us" | us where "es1 = xs @ us" "ys = us @ Sent s # es2"
    by (force simp: append_eq_append_conv2 append_eq_Cons_conv)
  then show "s = spec \<and> (\<exists>es0 k. es1 = es0 @ [Wrote (CommandAttempt (cs_command spec) (cs_name spec) k)])"
  proof cases
    case 1
    then show ?thesis using assms(1) by (auto simp: audited_def)
  next
    case 2
    then show ?thesis using assms(2) by (fastforce simp: audited_def)
  qed
qed

lemma audited_record:
  assumes "audited spec xs" "audited spec ys"
  shows "audited spec (xs @ Wrote ev # ys)"
proof -
  have "audited spec (xs @ [Wrote ev] @ ys)"
    by (intro audited_append assms audited_no_sends) simp
  then show ?thesis by simp
qed

lemma audited_send:
  "audited spec [Wrote (CommandAttempt (cs_command spec) (cs_name spec) k), Sent spec]"
  by (auto simp: audited_def Cons_eq_append_conv)

lemma attempt_split:
  assumes "attempt_events spec expect k r es"
  obtains es' where
    "es = [Wrote (CommandAttempt (cs_command spec) (cs_name spec) k), Sent spec] @ es'" "sends es' = 0"
  using assms by (force simp: attempt_events_def split: option.splits)

lemma attempt_audited: "attempt_events spec expect k r es \<Longrightarrow> audited spec es"
  by (erule attempt_split) (simp only: audited_append audited_send audited_no_sends)

lemma protocol_audited: "protocol spec expect maxa n k res es out \<Longrightarrow> audited spec es"
  by (induction rule: protocol.induct)
    (auto intro!: audited_record intro: attempt_audited audited_no_sends)

section \<open>Executions\<close>

text \<open>
  The events of an execution that ended, normally or by a raise: a completed one follows the
  protocol, and an interrupted one still sends at most once per attempt, on the record.
\<close>

definition executed ::
  "command_spec \<Rightarrow> int option \<Rightarrow> int \<Rightarrow> nat \<Rightarrow> int \<Rightarrow> int option \<Rightarrow> io_event list \<Rightarrow>
     py_exn + command_outcome \<Rightarrow> bool" where
  "executed spec expect maxa n k res es r \<longleftrightarrow>
     sends es \<le> n \<and> audited spec es \<and>
     (\<forall>out. r = Inr out \<longrightarrow> protocol spec expect maxa n k res es out)"

lemma executed_Inr: "protocol spec expect maxa n k res es out \<Longrightarrow> executed spec expect maxa n k res es (Inr out)"
  by (simp add: executed_def protocol_sends protocol_audited)

lemma executed_Inl: "sends es \<le> n \<Longrightarrow> audited spec es \<Longrightarrow> executed spec expect maxa n k res es (Inl e)"
  by (simp add: executed_def)

lemma executed_cont:
  assumes "executed spec expect maxa n (k + 1) res' es' r" and "sends es = 1" "audited spec es"
    and "\<And>out. protocol spec expect maxa n (k + 1) res' es' out \<Longrightarrow>
      protocol spec expect maxa (Suc n) k res (es @ Wrote ev # es') out"
  shows "executed spec expect maxa (Suc n) k res (es @ Wrote ev # es') r"
  using assms by (auto simp: executed_def intro: audited_record)

lemma and_then_Some:
  "and_then a k w = Some y \<longleftrightarrow>
     (\<exists>e w'. a w = (Inl e, w') \<and> y = (Inl e, w')) \<or> (\<exists>v w'. a w = (Inr v, w') \<and> k v w' = Some y)"
  by (auto simp: and_then_def split: prod.splits sum.splits)

lemma and_then_Inr: "a w = (Inr v, w') \<Longrightarrow> and_then a k w = k v w'"
  by (simp add: and_then_def)

lemma and_then_Inl: "a w = (Inl e, w') \<Longrightarrow> and_then a k w = Some (Inl e, w')"
  by (simp add: and_then_def)

text \<open>A wait for an acknowledgement.\<close>

definition waited :: "int \<Rightarrow> int option \<Rightarrow> py_exn + ack option \<Rightarrow> io_event list \<Rightarrow> bool" where
  "waited command expect r es \<longleftrightarrow>
     (\<exists>skipped tail. es = map (\<lambda>a. Got (Some a)) skipped @ tail \<and>
        list_all (\<lambda>a. \<not> ack_matches command expect a) skipped \<and>
        (case r of
           Inl e \<Rightarrow> tail = []
         | Inr None \<Rightarrow> tail = [] \<or> tail = [Got None]
         | Inr (Some a) \<Rightarrow> ack_matches command expect a \<and> tail = [Got (Some a)]))"

lemma waited_skip:
  assumes "waited command expect r es" "\<not> ack_matches command expect a"
  shows "waited command expect r (Got (Some a) # es)"
proof -
  obtain skipped tail where "es = map (\<lambda>a. Got (Some a)) skipped @ tail"
    "list_all (\<lambda>a. \<not> ack_matches command expect a) skipped"
    "case r of Inl e \<Rightarrow> tail = [] | Inr None \<Rightarrow> tail = [] \<or> tail = [Got None]
       | Inr (Some a) \<Rightarrow> ack_matches command expect a \<and> tail = [Got (Some a)]"
    using assms(1) unfolding waited_def by blast
  then show ?thesis
    unfolding waited_def using assms(2) by (intro exI [of _ "a # skipped"] exI [of _ tail]) simp
qed

lemma waited_stop:
  "waited command expect (Inl e) []" "waited command expect (Inr None) []"
  "waited command expect (Inr None) [Got None]"
  "ack_matches command expect a \<Longrightarrow> waited command expect (Inr (Some a)) [Got (Some a)]"
  unfolding waited_def by (rule exI [of _ "[]"], simp)+

lemma waited_sends: "waited command expect r es \<Longrightarrow> sends es = 0"
  unfolding waited_def by (elim exE conjE) (auto split: sum.splits option.splits)

lemma waited_attempt:
  "waited (cs_command spec) expect (Inr r) es \<Longrightarrow>
   attempt_events spec expect k r
     (Wrote (CommandAttempt (cs_command spec) (cs_name spec) k) # Sent spec # es)"
  by (auto simp: waited_def attempt_events_def split: option.splits)

lemmas await_loop_returns = await_loop.raw_induct [rotated, consumes 1, case_names step]

section \<open>The contract of an environment\<close>

text \<open>
  The laws of an environment whose effects can be observed.  A raise may come before or after the
  effect (a record that was written and not flushed, a frame that was handed over).
\<close>

locale observed_env =
  fixes E :: "'w command_env"
    and trace :: "'w \<Rightarrow> io_event list"
  assumes record_ok: "ce_record E ev w = (Inr u, w') \<Longrightarrow> trace w' = trace w @ [Wrote ev]"
    and record_err: "ce_record E ev w = (Inl e, w') \<Longrightarrow>
      trace w' = trace w \<or> trace w' = trace w @ [Wrote ev]"
    and send_ok: "ce_send E spec w = (Inr u, w') \<Longrightarrow> trace w' = trace w @ [Sent spec]"
    and send_err: "ce_send E spec w = (Inl e, w') \<Longrightarrow>
      trace w' = trace w \<or> trace w' = trace w @ [Sent spec]"
    and recv_ok: "ce_recv_ack E t w = (Inr r, w') \<Longrightarrow> trace w' = trace w @ [Got r]"
    and recv_err: "ce_recv_ack E t w = (Inl e, w') \<Longrightarrow> trace w' = trace w"
    and drain_silent: "ce_drain E = Some d \<Longrightarrow> d w = (r', w') \<Longrightarrow> trace w' = trace w"
    and now_silent: "ce_now E w = (t, w') \<Longrightarrow> trace w' = trace w"
begin

lemma drain_first_silent: "drain_first E attempt w = (r, w') \<Longrightarrow> trace w' = trace w"
  by (auto simp: drain_first_def split: option.splits if_splits dest: drain_silent)

lemma await_loop_trace:
  assumes "await_loop E' command expect deadline w = Some y" and "E' = E"
  shows "\<exists>es. trace (snd y) = trace w @ es \<and> waited command expect (fst y) es"
  using assms
proof (induction E' command expect deadline w y rule: await_loop_returns)
  case (step loop E' command expect deadline w y)
  obtain now w1 where now: "ce_now E w = (now, w1)" by fastforce
  then have t1: "trace w1 = trace w" by (rule now_silent)
  obtain r w2 where recv: "ce_recv_ack E (deadline - now) w1 = (r, w2)" by fastforce
  note body = step.hyps [unfolded step.prems now]
  show ?case
  proof (cases "deadline - now \<le> 0")
    case True
    with body t1 waited_stop(2) show ?thesis by (auto simp: Let_def)
  next
    case False
    show ?thesis
    proof (cases r)
      case (Inl e)
      with False body recv t1 recv_err [OF recv [unfolded Inl]] waited_stop(1)
      show ?thesis by (auto simp: Let_def)
    next
      case (Inr m)
      then have t2: "trace w2 = trace w @ [Got m]" using recv_ok recv t1 by simp
      show ?thesis
      proof (cases "\<exists>a. m = Some a \<and> \<not> ack_matches command expect a")
        case True
        then obtain a where a: "m = Some a" "\<not> ack_matches command expect a" by blast
        with False body recv Inr have "loop E command expect deadline w2 = Some y"
          by (simp add: Let_def)
        from step.IH [OF this refl] obtain es
          where "trace (snd y) = trace w2 @ es" "waited command expect (fst y) es" by blast
        with t2 a show ?thesis
          by (intro exI [of _ "Got (Some a) # es"]) (simp add: waited_skip)
      next
        case ok: False
        then have "y = (Inr m, w2)"
          using False body recv Inr by (cases m) (auto simp: Let_def)
        moreover have "waited command expect (Inr m) [Got m]"
          using ok waited_stop by (cases m) auto
        ultimately show ?thesis using t2 by auto
      qed
    qed
  qed
qed

lemma await_ack_trace:
  assumes "await_ack E S expect command w = Some (r, w')"
  shows "\<exists>es. trace w' = trace w @ es \<and> waited command expect r es"
proof -
  obtain now w1 where now: "ce_now E w = (now, w1)" by fastforce
  with assms have "await_loop E command expect (now + ack_timeout_s S) w1 = Some (r, w')"
    by (simp add: await_ack_def)
  from await_loop_trace [OF this refl] now_silent [OF now] show ?thesis by simp
qed

lemma record_then:
  assumes "and_then (ce_record E ev) k w = Some (r, w')"
  obtains (raised) e where "r = Inl e" "trace w' = trace w \<or> trace w' = trace w @ [Wrote ev]"
  | (continues) w1 where "trace w1 = trace w @ [Wrote ev]" "k () w1 = Some (r, w')"
  using assms unfolding and_then_Some
  by (elim disjE exE conjE) (auto dest: record_err record_ok)

text \<open>What happens once the wait of attempt \<open>k\<close> is over.\<close>

lemma attempt_end_trace:
  assumes at: "attempt_events spec expect k m es" and w: "trace w = tr @ es"
    and r: "(case m of
       None \<Rightarrow> and_then (ce_record E (CommandNoAck (cs_command spec) (cs_name spec) k)) (\<lambda>_.
                 execute_loop E S expect spec n (k + 1) res) w
     | Some a \<Rightarrow>
         if ack_result a = MAV_RESULT_ACCEPTED then
           and_then (ce_record E (CommandAccepted (cs_command spec) (cs_name spec) k)) (\<lambda>_ w2.
             Some (Inr \<lparr>co_spec = spec, co_accepted = True, co_result = Some (ack_result a),
                        co_attempts = k, co_reason = []\<rparr>, w2)) w
         else if ack_result a \<in> TERMINAL_FAILURES then
           and_then (ce_record E (CommandRejected (cs_command spec) (cs_name spec) k (ack_result a))) (\<lambda>_ w2.
             Some (Inr \<lparr>co_spec = spec, co_accepted = False, co_result = Some (ack_result a),
                        co_attempts = k, co_reason = ''terminal_reject''\<rparr>, w2)) w
         else
           and_then (ce_record E (CommandRetry (cs_command spec) (cs_name spec) k (ack_result a))) (\<lambda>_.
             execute_loop E S expect spec n (k + 1) (Some (ack_result a))) w) = Some (r, w')"
    and IH: "\<And>k res w. execute_loop E S expect spec n k res w = Some (r, w') \<Longrightarrow>
      \<exists>es. trace w' = trace w @ es \<and> executed spec expect (max_attempts S) n k res es r"
  shows "\<exists>es. trace w' = tr @ es \<and> executed spec expect (max_attempts S) (Suc n) k res es r"
proof -
  note s1 = attempt_sends [OF at] and a1 = attempt_audited [OF at]
  have raised: ?thesis if "r = Inl e" "trace w' = trace w \<or> trace w' = trace w @ [Wrote ev]" for e ev
    using that(2)
  proof
    assume "trace w' = trace w"
    with w that(1) s1 a1 show ?thesis by (intro exI [of _ es]) (simp add: executed_Inl)
  next
    assume "trace w' = trace w @ [Wrote ev]"
    with w that(1) s1 a1 show ?thesis
      by (intro exI [of _ "es @ [Wrote ev]"]) (simp add: executed_Inl audited_record)
  qed
  have goes_on: ?thesis
    if "trace w1 = trace w @ [Wrote ev]" "execute_loop E S expect spec n (k + 1) res' w1 = Some (r, w')"
      "\<And>es' out. protocol spec expect (max_attempts S) n (k + 1) res' es' out \<Longrightarrow>
        protocol spec expect (max_attempts S) (Suc n) k res (es @ Wrote ev # es') out" for w1 ev res'
  proof -
    note step = that
    obtain es' where "trace w' = trace w1 @ es'" "executed spec expect (max_attempts S) n (k + 1) res' es' r"
      using IH [OF step(2)] by blast
    with step(1,3) w s1 a1 show ?thesis
      by (intro exI [of _ "es @ Wrote ev # es'"]) (simp add: executed_cont)
  qed
  have ends: ?thesis if "trace w1 = trace w @ [Wrote ev]" "Some (Inr out, w1) = Some (r, w')"
      "protocol spec expect (max_attempts S) (Suc n) k res (es @ [Wrote ev]) out" for w1 ev out
    using that w by (intro exI [of _ "es @ [Wrote ev]"]) (auto intro: executed_Inr)
  show ?thesis
  proof (cases m)
    case None
    from r have "and_then (ce_record E (CommandNoAck (cs_command spec) (cs_name spec) k)) (\<lambda>_.
        execute_loop E S expect spec n (k + 1) res) w = Some (r, w')" by (simp add: None)
    then show ?thesis
      by (rule record_then) (use raised goes_on protocol.no_ack [OF at [unfolded None]] in blast)+
  next
    case (Some a)
    note at = at [unfolded Some]
    consider "ack_result a = MAV_RESULT_ACCEPTED"
      | "ack_result a \<noteq> MAV_RESULT_ACCEPTED" "ack_result a \<in> TERMINAL_FAILURES"
      | "ack_result a \<noteq> MAV_RESULT_ACCEPTED" "ack_result a \<notin> TERMINAL_FAILURES" by blast
    then show ?thesis
    proof cases
      case 1
      from r show ?thesis unfolding Some option.case if_P [OF 1]
        by (rule record_then) (use raised ends protocol.accepted [OF at 1] in blast)+
    next
      case 2
      from r show ?thesis unfolding Some option.case if_not_P [OF 2(1)] if_P [OF 2(2)]
        by (rule record_then) (use raised ends protocol.rejected [OF at 2(2)] in blast)+
    next
      case 3
      from r show ?thesis unfolding Some option.case if_not_P [OF 3(1)] if_not_P [OF 3(2)]
        by (rule record_then) (use raised goes_on protocol.retry [OF at 3] in blast)+
    qed
  qed
qed

lemma execute_step_trace:
  assumes r: "execute_loop E S expect spec (Suc n) k res w = Some (r, w')"
    and IH: "\<And>k res w. execute_loop E S expect spec n k res w = Some (r, w') \<Longrightarrow>
      \<exists>es. trace w' = trace w @ es \<and> executed spec expect (max_attempts S) n k res es r"
  shows "\<exists>es. trace w' = trace w @ es \<and> executed spec expect (max_attempts S) (Suc n) k res es r"
proof -
  let ?at = "Wrote (CommandAttempt (cs_command spec) (cs_name spec) k)"
  have short: ?thesis if "r = Inl e" "trace w' = trace w @ es"
      "es \<in> {[], [?at], [?at, Sent spec]} \<or> (\<exists>xs. es = [?at, Sent spec] @ xs \<and> sends xs = 0)" for e es
  proof -
    have "audited spec es \<and> sends es \<le> Suc n"
      using that(3) by (auto intro: audited_send audited_no_sends
          audited_append [of spec "[?at, Sent spec]", simplified])
    with that(1,2) show ?thesis using executed_Inl by blast
  qed
  obtain r1 w1 where s1: "ce_record E (CommandAttempt (cs_command spec) (cs_name spec) k) w = (r1, w1)"
    by fastforce
  show ?thesis
  proof (cases r1)
    case (Inl e)
    with r s1 have "r = Inl e" "w' = w1" by (auto simp: and_then_Some)
    with short record_err s1 Inl show ?thesis by (metis append_Nil2 insertI1 insertI2)
  next
    case ok1: (Inr u1)
    then have t1: "trace w1 = trace w @ [?at]" using s1 record_ok by blast
    obtain r2 w2 where s2: "drain_first E k w1 = (r2, w2)" by fastforce
    have t2: "trace w2 = trace w @ [?at]" using drain_first_silent [OF s2] t1 by simp
    show ?thesis
    proof (cases r2)
      case (Inl e)
      with r s1 ok1 s2 have "r = Inl e" "w' = w2" by (auto simp: and_then_Some)
      with short t2 show ?thesis by blast
    next
      case ok2: (Inr u2)
      obtain r3 w3 where s3: "ce_send E spec w2 = (r3, w3)" by fastforce
      show ?thesis
      proof (cases r3)
        case (Inl e)
        with r s1 ok1 s2 ok2 s3 have "r = Inl e" "w' = w3" by (auto simp: and_then_Some)
        moreover have "trace w3 = trace w @ [?at] \<or> trace w3 = trace w @ [?at, Sent spec]"
          using send_err s3 Inl t2 by fastforce
        ultimately show ?thesis using short by blast
      next
        case ok3: (Inr u3)
        then have t3: "trace w3 = trace w @ [?at, Sent spec]" using send_ok s3 t2 by fastforce
        obtain r4 w4 where s4: "await_ack E S expect (cs_command spec) w3 = Some (r4, w4)"
          using r s1 ok1 s2 ok2 s3 ok3 by (auto simp: and_then_Some split: option.splits)
        then obtain es where t4: "trace w4 = trace w3 @ es" and wt: "waited (cs_command spec) expect r4 es"
          using await_ack_trace by blast
        show ?thesis
        proof (cases r4)
          case (Inl e)
          with r s1 ok1 s2 ok2 s3 ok3 s4 have "r = Inl e" "w' = w4" by (auto simp: and_then_Some)
          with short [of e "[?at, Sent spec] @ es"] t3 t4 waited_sends [OF wt] show ?thesis by simp
        next
          case (Inr m)
          have "attempt_events spec expect k m ([?at, Sent spec] @ es)"
            using waited_attempt wt Inr by simp
          moreover have "trace w4 = trace w @ ([?at, Sent spec] @ es)" using t3 t4 by simp
          ultimately show ?thesis
            by (rule attempt_end_trace [OF _ _ _ IH])
              (use r in \<open>simp_all add: and_then_Inr s1 ok1 s2 ok2 s3 ok3 s4 Inr\<close>)
        qed
      qed
    qed
  qed
qed

lemma execute_loop_trace:
  "execute_loop E S expect spec n k res w = Some (r, w') \<Longrightarrow>
   \<exists>es. trace w' = trace w @ es \<and> executed spec expect (max_attempts S) n k res es r"
proof (induction n arbitrary: k res w)
  case 0
  then have "and_then (ce_record E
      (CommandFailed (cs_command spec) (cs_name spec) (max_attempts S) res)) (\<lambda>_ w.
    Some (Inr \<lparr>co_spec = spec, co_accepted = False, co_result = res,
               co_attempts = max_attempts S, co_reason = ''exhausted_retries''\<rparr>, w)) w = Some (r, w')"
    by simp
  then show ?case
  proof (rule record_then)
    fix e assume "r = Inl e" and t: "trace w' = trace w \<or> trace w' = trace w @ [Wrote
      (CommandFailed (cs_command spec) (cs_name spec) (max_attempts S) res)]"
    from t show ?thesis
      by (rule disjE)
        (rule exI [of _ "[]"] exI [of _ "[Wrote (CommandFailed (cs_command spec) (cs_name spec)
            (max_attempts S) res)]"], simp add: \<open>r = Inl e\<close> executed_Inl audited_no_sends)+
  next
    fix w1
    assume "trace w1 = trace w @ [Wrote (CommandFailed (cs_command spec) (cs_name spec) (max_attempts S) res)]"
      and "Some (Inr \<lparr>co_spec = spec, co_accepted = False, co_result = res,
        co_attempts = max_attempts S, co_reason = ''exhausted_retries''\<rparr>, w1) = Some (r, w')"
    then show ?thesis using executed_Inr [OF protocol.exhausted] by blast
  qed
next
  case (Suc n)
  show ?case by (rule execute_step_trace [OF Suc.prems Suc.IH])
qed

lemma execute_trace:
  assumes "execute E S expect spec w = Some (r, w')"
  shows "\<exists>es. trace w' = trace w @ es \<and>
    executed spec expect (max_attempts S) (nat (max_attempts S)) 1 None es r"
  using assms unfolding execute_def by (rule execute_loop_trace)

end

section \<open>Termination\<close>

text \<open>The computation ends, in a good world and by the time \<open>b\<close>.\<close>

definition ends_by :: "('w \<Rightarrow> real) \<Rightarrow> ('w \<Rightarrow> bool) \<Rightarrow> real \<Rightarrow> ('a \<times> 'w) option \<Rightarrow> bool" where
  "ends_by time ok b y \<longleftrightarrow> (\<exists>r w'. y = Some (r, w') \<and> ok w' \<and> time w' \<le> b)"

lemma ends_by_Some [simp]: "ends_by time ok b (Some (r, w')) \<longleftrightarrow> ok w' \<and> time w' \<le> b"
  by (simp add: ends_by_def)

lemma ends_by_mono: "ends_by time ok b y \<Longrightarrow> b \<le> b' \<Longrightarrow> ends_by time ok b' y"
  by (auto simp: ends_by_def)

text \<open>
  An environment with a clock.  A wait for an acknowledgement ends at its timeout, at the latest, and costs in any
  case at least \<open>lo\<close> and at most \<open>hi\<close> on top; nothing is assumed of what it delivers, so acknowledgements of other
  commands may come without end.  The deadline is then all that stops the sender.
\<close>

locale timed_env =
  fixes E :: "'w command_env"
    and time :: "'w \<Rightarrow> real"
    and ok :: "'w \<Rightarrow> bool"
    and lo hi :: real
  assumes costs: "ok w \<Longrightarrow> 0 < lo \<and> lo \<le> hi"
    and now_reads: "ok w \<Longrightarrow> ce_now E w = (t, w') \<Longrightarrow> t = time w \<and> time w' = time w \<and> ok w'"
    and recv_takes: "ok w \<Longrightarrow> 0 < t \<Longrightarrow> ce_recv_ack E t w = (r1, w') \<Longrightarrow>
      ok w' \<and> time w + lo \<le> time w' \<and> time w' \<le> time w + t + hi"
    and record_instant: "ok w \<Longrightarrow> ce_record E ev w = (r0, w') \<Longrightarrow> ok w' \<and> time w' = time w"
    and send_instant: "ok w \<Longrightarrow> ce_send E spec w = (r0, w') \<Longrightarrow> ok w' \<and> time w' = time w"
    and drain_instant: "ok w \<Longrightarrow> ce_drain E = Some d \<Longrightarrow> d w = (r0, w') \<Longrightarrow> ok w' \<and> time w' = time w"
begin

text \<open>Each round of the wait brings the deadline nearer by at least \<open>lo\<close>.\<close>

lemma await_loop_ends:
  "ok w \<Longrightarrow> deadline - time w \<le> real n * lo \<Longrightarrow>
   ends_by time ok (max (time w) (deadline + hi)) (await_loop E command expect deadline w)"
proof (induction n arbitrary: w)
  case 0
  obtain now w1 where now: "ce_now E w = (now, w1)" by fastforce
  with 0 now_reads [OF 0(1) now] show ?case by (subst await_loop.simps) (simp add: Let_def)
next
  case (Suc n)
  obtain now w1 where now: "ce_now E w = (now, w1)" by fastforce
  note n = now_reads [OF Suc.prems(1) now]
  obtain r w2 where recv: "ce_recv_ack E (deadline - now) w1 = (r, w2)" by fastforce
  show ?case
  proof (cases "deadline - now \<le> 0")
    case True
    with n show ?thesis by (subst await_loop.simps) (simp add: now Let_def)
  next
    case False
    with n recv_takes [of w1 "deadline - now" r w2] recv
    have r: "ok w2" "time w + lo \<le> time w2" "time w2 \<le> deadline + hi" by auto
    have "deadline - time w2 \<le> real n * lo" using r(2) Suc.prems(2) by (simp add: algebra_simps)
    from Suc.IH [OF r(1) this] r(3)
    have "ends_by time ok (max (time w) (deadline + hi)) (await_loop E command expect deadline w2)"
      by (auto elim: ends_by_mono)
    with False r show ?thesis
      by (subst await_loop.simps) (auto simp: now recv Let_def split: sum.split option.split)
  qed
qed

lemma await_ack_ends:
  assumes "ok w"
  shows "ends_by time ok (time w + (max 0 (ack_timeout_s S) + hi)) (await_ack E S expect command w)"
proof -
  obtain now w1 where now: "ce_now E w = (now, w1)" by fastforce
  note n = now_reads [OF assms now]
  obtain n0 :: nat where "ack_timeout_s S < real n0 * lo"
    using costs [OF assms] reals_Archimedean3 [of lo] by (auto simp: mult.commute)
  with n await_loop_ends [of w1 "now + ack_timeout_s S" n0 command expect]
  have "ends_by time ok (max (time w) (now + ack_timeout_s S + hi)) (await_ack E S expect command w)"
    by (simp add: await_ack_def now)
  then show ?thesis by (rule ends_by_mono) (use n costs [OF assms] in auto)
qed

lemma and_then_ends:
  assumes "\<And>r w'. a w = (r, w') \<Longrightarrow> ok w' \<and> time w' = time w" "time w \<le> b"
    "\<And>v w'. ok w' \<Longrightarrow> time w' = time w \<Longrightarrow> ends_by time ok b (k v w')"
  shows "ends_by time ok b (and_then a k w)"
proof -
  obtain r w' where a: "a w = (r, w')" by fastforce
  with assms show ?thesis by (cases r) (auto simp: and_then_def)
qed

lemma record_then_ends:
  "ok w \<Longrightarrow> time w \<le> b \<Longrightarrow> (\<And>v w'. ok w' \<Longrightarrow> time w' = time w \<Longrightarrow> ends_by time ok b (k v w')) \<Longrightarrow>
   ends_by time ok b (and_then (ce_record E ev) k w)"
  by (rule and_then_ends) (auto dest: record_instant)

lemma drain_first_instant: "ok w \<Longrightarrow> drain_first E attempt w = (r, w') \<Longrightarrow> ok w' \<and> time w' = time w"
  by (auto simp: drain_first_def split: option.splits if_splits dest: drain_instant)

lemma execute_loop_ends:
  "ok w \<Longrightarrow> ends_by time ok (time w + real n * (max 0 (ack_timeout_s S) + hi)) (execute_loop E S expect spec n k res w)"
proof (induction n arbitrary: k res w)
  case 0
  then show ?case unfolding execute_loop.simps by (intro record_then_ends) auto
next
  case (Suc n)
  let ?T = "max 0 (ack_timeout_s S) + hi" and ?b = "time w + real (Suc n) * (max 0 (ack_timeout_s S) + hi)"
  have T: "0 \<le> ?T" using costs [OF Suc.prems] by simp
  then have nT: "0 \<le> real n * ?T" by simp
  have b: "?b = time w + ?T + real n * ?T" by (simp add: algebra_simps)
  have later: "ends_by time ok ?b (execute_loop E S expect spec n k' res' w')"
    if "ok w'" "time w' \<le> time w + ?T" for k' res' w'
    by (rule ends_by_mono [OF Suc.IH [OF that(1)]]) (use that(2) b in linarith)
  have "ends_by time ok ?b
      (case await_ack E S expect (cs_command spec) w3 of
         None \<Rightarrow> None
       | Some (Inl e, w') \<Rightarrow> Some (Inl e, w')
       | Some (Inr None, w') \<Rightarrow>
           and_then (ce_record E (CommandNoAck (cs_command spec) (cs_name spec) k)) (\<lambda>_.
             execute_loop E S expect spec n (k + 1) res) w'
       | Some (Inr (Some a), w') \<Rightarrow>
           if ack_result a = MAV_RESULT_ACCEPTED then
             and_then (ce_record E (CommandAccepted (cs_command spec) (cs_name spec) k)) (\<lambda>_ w2.
               Some (Inr \<lparr>co_spec = spec, co_accepted = True, co_result = Some (ack_result a),
                          co_attempts = k, co_reason = []\<rparr>, w2)) w'
           else if ack_result a \<in> TERMINAL_FAILURES then
             and_then (ce_record E
               (CommandRejected (cs_command spec) (cs_name spec) k (ack_result a))) (\<lambda>_ w2.
               Some (Inr \<lparr>co_spec = spec, co_accepted = False, co_result = Some (ack_result a),
                          co_attempts = k, co_reason = ''terminal_reject''\<rparr>, w2)) w'
           else
             and_then (ce_record E
               (CommandRetry (cs_command spec) (cs_name spec) k (ack_result a))) (\<lambda>_.
               execute_loop E S expect spec n (k + 1) (Some (ack_result a))) w')"
    if w3: "ok w3" "time w3 = time w" for w3
    \<comment> \<open>from the transmission to the end\<close>
  proof -
    obtain r w' where aw: "await_ack E S expect (cs_command spec) w3 = Some (r, w')" "ok w'" "time w' \<le> time w + ?T"
      using await_ack_ends [OF w3(1), of S expect "cs_command spec"] w3(2) by (auto simp: ends_by_def)
    have bound: "time w' \<le> ?b" using aw(3) b nT by linarith
    show ?thesis
    proof (cases r)
      case (Inl e)
      with aw bound show ?thesis by simp
    next
      case (Inr m)
      show ?thesis
      proof (cases m)
        case None
        have "ends_by time ok ?b (and_then (ce_record E (CommandNoAck (cs_command spec) (cs_name spec) k)) (\<lambda>_.
             execute_loop E S expect spec n (k + 1) res) w')"
          by (rule record_then_ends [OF aw(2) bound]) (use aw(3) in \<open>auto simp del: of_nat_Suc intro!: later\<close>)
        with aw Inr None show ?thesis by simp
      next
        case (Some a)
        have retry: "ends_by time ok ?b (and_then (ce_record E ev) (\<lambda>_. execute_loop E S expect spec n (k + 1) res') w')"
          for ev res' by (rule record_then_ends [OF aw(2) bound]) (use aw(3) in \<open>auto simp del: of_nat_Suc intro!: later\<close>)
        have stop: "ends_by time ok ?b (and_then (ce_record E ev) (\<lambda>_ w2. Some (Inr out, w2)) w')" for ev out
          by (rule record_then_ends [OF aw(2) bound]) (use bound in auto)
        show ?thesis unfolding aw(1) Inr Some option.case prod.case sum.case by (simp only: retry stop split: if_split) simp
      qed
    qed
  qed
  note attempt = this
  have wb: "time w \<le> ?b" using b T nT by linarith
  show ?case
    unfolding execute_loop.simps
    by (rule record_then_ends [OF Suc.prems wb], rule and_then_ends, erule (1) drain_first_instant,
        simp only: wb, rule and_then_ends, erule (1) send_instant, simp only: wb, rule attempt) (assumption | simp only:)+
qed

lemma execute_ends:
  "ok w \<Longrightarrow> ends_by time ok (time w + real (nat (max_attempts S)) * (max 0 (ack_timeout_s S) + hi)) (execute E S expect spec w)"
  unfolding execute_def by (rule execute_loop_ends)

end

section \<open>Invariants of the environment\<close>

text \<open>What every action of the environment keeps, an execution keeps.\<close>

locale kept_env =
  fixes E :: "'w command_env"
    and inv :: "'w \<Rightarrow> bool"
  assumes record_keeps: "inv w \<Longrightarrow> ce_record E ev w = (r0, w') \<Longrightarrow> inv w'"
    and send_keeps: "inv w \<Longrightarrow> ce_send E spec w = (r0, w') \<Longrightarrow> inv w'"
    and recv_keeps: "inv w \<Longrightarrow> ce_recv_ack E t w = (r1, w') \<Longrightarrow> inv w'"
    and drain_keeps: "inv w \<Longrightarrow> ce_drain E = Some d \<Longrightarrow> d w = (r0, w') \<Longrightarrow> inv w'"
    and now_keeps: "inv w \<Longrightarrow> ce_now E w = (t, w') \<Longrightarrow> inv w'"
begin

lemma await_loop_keeps:
  assumes "await_loop E' command expect deadline w = Some y" and "E' = E" and "inv w"
  shows "inv (snd y)"
  using assms
proof (induction E' command expect deadline w y rule: await_loop_returns)
  case (step loop E' command expect deadline w y)
  obtain now w1 where now: "ce_now E w = (now, w1)" by fastforce
  then have i1: "inv w1" using now_keeps step.prems(2) by blast
  obtain r w2 where recv: "ce_recv_ack E (deadline - now) w1 = (r, w2)" by fastforce
  then have i2: "inv w2" using recv_keeps i1 by blast
  show ?case
  proof (cases "deadline - now > 0 \<and> (\<exists>a. r = Inr (Some a) \<and> \<not> ack_matches command expect a)")
    case True
    then have "loop E command expect deadline w2 = Some y"
      using step.hyps [unfolded step.prems(1) now] recv by (auto simp: Let_def)
    then show ?thesis using step.IH i2 by blast
  next
    case False
    then have "snd y \<in> {w1, w2}"
      using step.hyps [unfolded step.prems(1) now prod.case Let_def recv]
      by (cases r) (auto split: if_splits option.splits)
    with i1 i2 show ?thesis by auto
  qed
qed

lemma await_ack_keeps:
  assumes "await_ack E S expect command w = Some (r, w')" and "inv w"
  shows "inv w'"
proof -
  obtain now w1 where now: "ce_now E w = (now, w1)" by fastforce
  with assms(1) have "await_loop E command expect (now + ack_timeout_s S) w1 = Some (r, w')"
    by (simp add: await_ack_def)
  from await_loop_keeps [OF this refl now_keeps [OF assms(2) now]] show ?thesis by simp
qed

definition ok_result :: "((py_exn + 'b) \<times> 'w) option \<Rightarrow> bool" where
  "ok_result y \<longleftrightarrow> (\<forall>r w. y = Some (r, w) \<longrightarrow> inv w)"

lemma and_then_keeps:
  assumes "\<And>r w'. a w = (r, w') \<Longrightarrow> inv w'" "\<And>v w'. inv w' \<Longrightarrow> ok_result (k v w')"
  shows "ok_result (and_then a k w)"
  using assms by (cases "a w"; cases "fst (a w)") (auto simp: and_then_def ok_result_def)

lemma execute_loop_keeps: "inv w \<Longrightarrow> ok_result (execute_loop E S expect spec n k res w)"
proof (induction n arbitrary: k res w)
  case 0
  then show ?case
    unfolding execute_loop.simps
    by (intro and_then_keeps) (auto simp: ok_result_def dest: record_keeps)
next
  case (Suc n)
  have rec: "ok_result (and_then (ce_record E ev) kk w)"
    if "inv w" "\<And>v w'. inv w' \<Longrightarrow> ok_result (kk v w')" for ev kk w
    by (rule and_then_keeps [OF record_keeps [OF that(1)] that(2)])
  have fin: "ok_result (Some (r, w))" if "inv w" for r w using that by (simp add: ok_result_def)
  have none: "ok_result None" by (simp add: ok_result_def)
  show ?case
    unfolding execute_loop.simps
  proof (intro rec Suc.prems and_then_keeps)
    fix w r w' assume "inv w" "drain_first E k w = (r, w')"
    then show "inv w'"
      by (auto simp: drain_first_def split: option.splits if_splits dest: drain_keeps)
  next
    fix w r w' assume "inv w" "ce_send E spec w = (r, w')"
    then show "inv w'" by (rule send_keeps)
  next
    fix w assume i: "inv w"
    show "ok_result
       (case await_ack E S expect (cs_command spec) w of
          None \<Rightarrow> None
        | Some (Inl e, w') \<Rightarrow> Some (Inl e, w')
        | Some (Inr None, w') \<Rightarrow>
            and_then (ce_record E (CommandNoAck (cs_command spec) (cs_name spec) k)) (\<lambda>_.
              execute_loop E S expect spec n (k + 1) res) w'
        | Some (Inr (Some a), w') \<Rightarrow>
            if ack_result a = MAV_RESULT_ACCEPTED then
              and_then (ce_record E (CommandAccepted (cs_command spec) (cs_name spec) k)) (\<lambda>_ w2.
                Some (Inr \<lparr>co_spec = spec, co_accepted = True, co_result = Some (ack_result a),
                           co_attempts = k, co_reason = []\<rparr>, w2)) w'
            else if ack_result a \<in> TERMINAL_FAILURES then
              and_then (ce_record E (CommandRejected (cs_command spec) (cs_name spec) k (ack_result a)))
                (\<lambda>_ w2. Some (Inr \<lparr>co_spec = spec, co_accepted = False,
                   co_result = Some (ack_result a), co_attempts = k,
                   co_reason = ''terminal_reject''\<rparr>, w2)) w'
            else
              and_then (ce_record E (CommandRetry (cs_command spec) (cs_name spec) k (ack_result a))) (\<lambda>_.
                execute_loop E S expect spec n (k + 1) (Some (ack_result a))) w')"
      by (auto intro!: rec Suc.IH fin none dest: await_ack_keeps [OF _ i]
          split: option.split sum.split)
  qed
qed

lemma execute_keeps:
  "inv w \<Longrightarrow> execute E S expect spec w = Some (r, w') \<Longrightarrow> inv w'"
  using execute_loop_keeps [of w S expect spec "nat (max_attempts S)" 1 None]
  by (auto simp: execute_def ok_result_def)

end

end
