(* ===== verification/Command_Pump.thy ===== *)
theory Command_Pump
  imports Command_Protocol
begin

text \<open>
  The production environment of the command sender: the MAVLink send link
  (\<^verbatim>\<open>meshsa/command/mavlink_link.py\<close>), the pump that is the only reader of the autopilot
  connection (\<^verbatim>\<open>mavlink_pump.py\<close>), and the audit log (\<^verbatim>\<open>audit.py\<close>).  pymavlink and the disk are
  outside: a world carries the messages still to arrive, each with its time, and what the next
  writes to the disk and to the radio will do.
\<close>

section \<open>The send link\<close>

datatype mav_out =
    CommandIntSend int int int int "pyfloat list" int int json
  | CommandLongSend int int int "pyfloat list"

record mav_link =
  ml_conn :: bool
  ml_signing_key :: "bytes option"
  ml_started :: bool
  ml_signing_on :: bool
  ml_target_system :: int
  ml_target_component :: int

text \<open>The constructor needs a connection or a factory for one.\<close>

definition new_mav_link :: "bool \<Rightarrow> bool \<Rightarrow> int \<Rightarrow> int \<Rightarrow> bytes option \<Rightarrow> py_exn + mav_link" where
  "new_mav_link connection factory tsys tcomp key =
     (if \<not> connection \<and> \<not> factory then Inl ValueError
      else Inr \<lparr>ml_conn = connection, ml_signing_key = key, ml_started = False,
                ml_signing_on = False, ml_target_system = tsys, ml_target_component = tcomp\<rparr>)"

definition mav_link_start :: "mav_link \<Rightarrow> mav_link" where
  "mav_link_start L =
     (let L1 = L\<lparr>ml_conn := True\<rparr>;
          L2 = (if ml_signing_key L1 \<noteq> None then L1\<lparr>ml_signing_on := True\<rparr> else L1)
      in L2\<lparr>ml_started := True\<rparr>)"

text \<open>What \<^verbatim>\<open>send\<close> hands to the live MAVLink instance; the parameters are read by index.\<close>

definition mav_link_send :: "mav_link \<Rightarrow> command_spec \<Rightarrow> py_exn + mav_out" where
  "mav_link_send L spec =
     (let p = cs_params spec
      in if \<not> ml_started L \<or> \<not> ml_conn L then Inl RuntimeError
         else case cs_kind spec of
           KInt \<Rightarrow>
             if length p < 4 then Inl IndexError
             else Inr (CommandIntSend (ml_target_system L) (ml_target_component L) (cs_frame spec)
                         (cs_command spec) (take 4 p) (cs_x spec) (cs_y spec) (cs_z spec))
         | KLong \<Rightarrow>
             if length p < 7 then Inl IndexError
             else Inr (CommandLongSend (ml_target_system L) (ml_target_component L)
                         (cs_command spec) (take 7 p)))"

text \<open>
  A received message.  The fields of an acknowledgement are the results of \<^verbatim>\<open>int(msg.field)\<close>, which
  may raise on a malformed one.
\<close>

datatype mav_msg =
    Heartbeat int int
  | CommandAck "py_exn + int" "py_exn + int" "py_exn + int"
  | OtherMsg string

definition make_ack :: "py_exn + int \<Rightarrow> py_exn + int \<Rightarrow> py_exn + int \<Rightarrow> py_exn + ack" where
  "make_ack c r s = then_ok c (\<lambda>c'. then_ok r (\<lambda>r'. then_ok s (\<lambda>s'.
     Inr \<lparr>ack_command = c', ack_result = r', ack_source_system = s'\<rparr>)))"

definition mav_link_recv_ack :: "mav_link \<Rightarrow> mav_msg option \<Rightarrow> py_exn + ack option" where
  "mav_link_recv_ack L received =
     (if \<not> ml_started L \<or> \<not> ml_conn L then Inl RuntimeError
      else case received of
        Some (CommandAck c r s) \<Rightarrow> then_ok (make_ack c r s) (\<lambda>a. Inr (Some a))
      | _ \<Rightarrow> Inr None)"

definition mav_link_close :: "mav_link \<Rightarrow> mav_link" where
  "mav_link_close L = L\<lparr>ml_conn := False\<rparr>"

text \<open>Signing is on whenever a link with a key can send.\<close>

definition link_signed :: "mav_link \<Rightarrow> bool" where
  "link_signed L \<longleftrightarrow> (ml_started L \<and> ml_signing_key L \<noteq> None \<longrightarrow> ml_signing_on L)"

lemma link_signed_keeps [keep_intros]:
  "new_mav_link c f s k key = Inr L \<Longrightarrow> link_signed L"
  "link_signed (mav_link_start L)"
  "link_signed L \<Longrightarrow> link_signed (mav_link_close L)"
  by (auto simp: new_mav_link_def link_signed_def mav_link_start_def mav_link_close_def Let_def
      split: if_splits)

lemma mav_link_send_signed:
  "link_signed L \<Longrightarrow> mav_link_send L spec = Inr out \<Longrightarrow> ml_signing_key L \<noteq> None \<Longrightarrow> ml_signing_on L"
  by (auto simp: mav_link_send_def link_signed_def Let_def split: if_splits)

section \<open>The pump\<close>

record pump =
  pu_link :: mav_link
  pu_target_system :: int
  pu_target_component :: int
  pu_has_on_heartbeat :: bool
  pu_acks :: "ack list"
  pu_stop :: bool
  pu_thread :: bool

definition new_pump :: "mav_link \<Rightarrow> int \<Rightarrow> int \<Rightarrow> bool \<Rightarrow> pump" where
  "new_pump L tsys tcomp cb =
     \<lparr>pu_link = L, pu_target_system = tsys, pu_target_component = tcomp,
      pu_has_on_heartbeat = cb, pu_acks = [], pu_stop = False, pu_thread = False\<rparr>"

definition pump_start :: "pump \<Rightarrow> (py_exn + unit) \<times> pump" where
  "pump_start P =
     (if pu_thread P then (Inl RuntimeError, P)
      else (Inr (), P\<lparr>pu_stop := False, pu_link := mav_link_start (pu_link P), pu_thread := True\<rparr>))"

text \<open>
  \<^verbatim>\<open>_dispatch\<close>: its result, the pump, and whether \<^verbatim>\<open>on_heartbeat\<close> was called.  An exception that
  the handler does not name escapes.
\<close>

definition pump_dispatch :: "mav_msg \<Rightarrow> pump \<Rightarrow> (py_exn + bool) \<times> pump \<times> bool" where
  "pump_dispatch msg P =
     (case msg of
        Heartbeat src_sys src_comp \<Rightarrow>
          if src_sys = pu_target_system P \<and> src_comp = pu_target_component P
          then (Inr True, P, pu_has_on_heartbeat P) else (Inr False, P, False)
      | CommandAck c r s \<Rightarrow>
          (case make_ack c r s of
             Inl e \<Rightarrow>
               if e \<in> {TypeError, ValueError, AttributeError} then (Inr False, P, False)
               else (Inl e, P, False)
           | Inr a \<Rightarrow> (Inr True, P\<lparr>pu_acks := pu_acks P @ [a]\<rparr>, False))
      | OtherMsg _ \<Rightarrow> (Inr False, P, False))"

datatype mav_read = ReadRaises | ReadTimeout | ReadMsg mav_msg

definition pump_drain_once :: "mav_read \<Rightarrow> pump \<Rightarrow> (py_exn + bool) \<times> pump \<times> bool" where
  "pump_drain_once rd P =
     (case rd of
        ReadRaises \<Rightarrow> (Inr False, P, False)
      | ReadTimeout \<Rightarrow> (Inr False, P, False)
      | ReadMsg msg \<Rightarrow> pump_dispatch msg P)"

definition pump_drain :: "pump \<Rightarrow> nat \<times> pump" where
  "pump_drain P = (length (pu_acks P), P\<lparr>pu_acks := []\<rparr>)"

definition pump_close :: "bool \<Rightarrow> pump \<Rightarrow> pump" where
  \<comment> \<open>the argument: the reader stopped within the join timeout\<close>
  "pump_close joined P =
     (let P1 = P\<lparr>pu_stop := True\<rparr>;
          P2 = (if pu_thread P1 \<and> joined then P1\<lparr>pu_thread := False\<rparr> else P1)
      in P2\<lparr>pu_link := mav_link_close (pu_link P2)\<rparr>)"

lemma pump_dispatch_link [simp]: "pu_link (fst (snd (pump_dispatch m P))) = pu_link P"
  by (simp add: pump_dispatch_def split: mav_msg.split sum.split)

lemma pump_dispatch_acks:
  "pu_acks (fst (snd (pump_dispatch m P))) = pu_acks P \<or>
   (\<exists>a. pu_acks (fst (snd (pump_dispatch m P))) = pu_acks P @ [a])"
  by (simp add: pump_dispatch_def split: mav_msg.split sum.split)

text \<open>Only the target's own heartbeats reach the interlock.\<close>

lemma pump_beat:
  "snd (snd (pump_dispatch m P)) \<longleftrightarrow>
     m = Heartbeat (pu_target_system P) (pu_target_component P) \<and> pu_has_on_heartbeat P"
  by (auto simp: pump_dispatch_def split: mav_msg.split sum.split)

section \<open>The audit log\<close>

record audit_log =
  al_open :: bool
  al_closed :: bool
  al_lines :: "(real \<times> audit_event) list"

definition new_audit_log :: audit_log where
  "new_audit_log = \<lparr>al_open = False, al_closed = False, al_lines = []\<rparr>"

definition audit_start :: "audit_log \<Rightarrow> (py_exn + unit) \<times> audit_log" where
  "audit_start A =
     (if al_closed A then (Inl RuntimeError, A)
      else if al_open A then (Inr (), A)
      else (Inr (), A\<lparr>al_open := True\<rparr>))"

text \<open>A write may fail before the line is complete, or in the flush after it.\<close>

datatype disk = DiskOk | WriteFails | SyncFails

definition audit_record :: "disk \<Rightarrow> real \<Rightarrow> audit_event \<Rightarrow> audit_log \<Rightarrow> (py_exn + unit) \<times> audit_log" where
  "audit_record d t ev A =
     (if al_closed A \<or> \<not> al_open A then (Inl RuntimeError, A)
      else case d of
        WriteFails \<Rightarrow> (Inl OSError, A)
      | SyncFails \<Rightarrow> (Inl OSError, A\<lparr>al_lines := al_lines A @ [(t, ev)]\<rparr>)
      | DiskOk \<Rightarrow> (Inr (), A\<lparr>al_lines := al_lines A @ [(t, ev)]\<rparr>))"

definition audit_close :: "audit_log \<Rightarrow> audit_log" where
  "audit_close A = A\<lparr>al_open := False, al_closed := True\<rparr>"

text \<open>The log is append-only, and a closed log stays closed.\<close>

lemma audit_append_only:
  "prefix (al_lines A) (al_lines (snd (audit_record d t ev A)))"
  "al_lines (snd (audit_start A)) = al_lines A"
  "al_lines (audit_close A) = al_lines A"
  by (simp_all add: audit_record_def audit_start_def audit_close_def split: disk.split)

lemma audit_record_ok:
  "fst (audit_record d t ev A) = Inr () \<Longrightarrow>
   al_lines (snd (audit_record d t ev A)) = al_lines A @ [(t, ev)]"
  by (simp add: audit_record_def split: disk.splits if_splits)

lemma audit_closed_refuses:
  "fst (audit_record d t ev (audit_close A)) = Inl RuntimeError"
  "fst (audit_start (audit_close A)) = Inl RuntimeError"
  by (simp_all add: audit_record_def audit_start_def audit_close_def)

section \<open>The world\<close>

record world =
  w_pump :: pump
  w_reader_alive :: bool
  w_health :: heartbeat_health
  w_audit :: audit_log
  w_clock :: real
  w_epoch :: real
  w_arrivals :: "(real \<times> mav_msg) list"
  w_traffic :: "nat \<Rightarrow> (real \<times> mav_msg) list"
  w_waits :: nat
  w_lag :: "nat \<Rightarrow> real"
  w_disk :: "disk list"
  w_radio :: "py_exn option list"
  w_wire :: "mav_out list"
  w_log :: "io_event list"

text \<open>
  \<open>w_log\<close> is the history of effects; nothing reads it.  \<open>w_disk\<close> and \<open>w_radio\<close> say what the next
  operations do, and an operation beyond the end of the list succeeds.  \<open>w_arrivals\<close> are the messages on their
  way, each with its time, and \<open>w_traffic k\<close> those that the vehicle adds at the wait number \<open>k\<close>: it may talk for
  ever.  \<open>w_lag k\<close> is the time that this wait costs beyond the wait itself, and \<open>w_waits\<close> counts the waits.
\<close>

definition next_of :: "'a \<Rightarrow> 'a list \<Rightarrow> 'a" where
  "next_of dflt xs = (case xs of [] \<Rightarrow> dflt | x # _ \<Rightarrow> x)"

definition w_record :: "audit_event \<Rightarrow> (world, unit) action" where
  "w_record ev W =
     (case audit_record (next_of DiskOk (w_disk W)) (w_clock W + w_epoch W) ev (w_audit W) of
        (r, A) \<Rightarrow>
          (r, W\<lparr>w_audit := A, w_disk := tl (w_disk W),
                w_log := (if al_lines A = al_lines (w_audit W) then w_log W else w_log W @ [Wrote ev])\<rparr>))"

definition w_send :: "command_spec \<Rightarrow> (world, unit) action" where
  "w_send spec W =
     (case mav_link_send (pu_link (w_pump W)) spec of
        Inl e \<Rightarrow> (Inl e, W)
      | Inr frame \<Rightarrow>
          case next_of None (w_radio W) of
            Some e \<Rightarrow> (Inl e, W\<lparr>w_radio := tl (w_radio W)\<rparr>)
          | None \<Rightarrow>
              (Inr (), W\<lparr>w_radio := tl (w_radio W), w_wire := w_wire W @ [frame],
                        w_log := w_log W @ [Sent spec]\<rparr>))"

definition w_drain :: "(world, unit) action" where
  "w_drain W = (Inr (), W\<lparr>w_pump := snd (pump_drain (w_pump W))\<rparr>)"

text \<open>
  The reader thread takes the next message at its time; an exception that escapes the dispatcher
  ends the thread.
\<close>

definition reader_step :: "real \<Rightarrow> mav_msg \<Rightarrow> world \<Rightarrow> world" where
  "reader_step t m W =
     (let W0 = W\<lparr>w_clock := max (w_clock W) t\<rparr>
      in if \<not> w_reader_alive W \<or> pu_stop (w_pump W) then W0
         else case pump_drain_once (ReadMsg m) (w_pump W) of
           (r, P, beat) \<Rightarrow>
             W0\<lparr>w_pump := P,
                w_health := (if beat then hb_beat None (w_clock W0) (w_health W) else w_health W),
                w_reader_alive := (case r of Inl _ \<Rightarrow> False | Inr _ \<Rightarrow> True)\<rparr>)"

text \<open>\<^verbatim>\<open>queue.get(timeout)\<close>: the head of the queue, or what arrives until the limit.\<close>

fun wait_ack :: "(real \<times> mav_msg) list \<Rightarrow> real \<Rightarrow> world \<Rightarrow> ack option \<times> world" where
  "wait_ack arrivals limit W =
     (case pu_acks (w_pump W) of
        a # rest \<Rightarrow> (Some a, W\<lparr>w_pump := (w_pump W)\<lparr>pu_acks := rest\<rparr>, w_arrivals := arrivals\<rparr>)
      | [] \<Rightarrow>
          case arrivals of
            [] \<Rightarrow> (None, W\<lparr>w_clock := max (w_clock W) limit, w_arrivals := []\<rparr>)
          | (t, m) # later \<Rightarrow>
              if limit < t then (None, W\<lparr>w_clock := max (w_clock W) limit, w_arrivals := arrivals\<rparr>)
              else wait_ack later limit (reader_step t m W))"

declare wait_ack.simps [simp del]

definition w_recv_ack :: "real \<Rightarrow> (world, ack option) action" where
  "w_recv_ack timeout W =
     (case wait_ack (w_arrivals W @ w_traffic W (w_waits W)) (w_clock W + max 0 timeout) W of
        (r, W') \<Rightarrow>
          (Inr r, W'\<lparr>w_clock := w_clock W' + w_lag W (w_waits W), w_waits := Suc (w_waits W), w_log := w_log W' @ [Got r]\<rparr>))"

definition world_env :: "world command_env" where
  "world_env =
     \<lparr>ce_record = w_record, ce_drain = Some w_drain, ce_send = w_send,
      ce_recv_ack = w_recv_ack, ce_now = (\<lambda>W. (w_clock W, W))\<rparr>"

section \<open>The world keeps the contracts\<close>

lemma reader_step_log [simp]:
  "w_log (reader_step t m W) = w_log W" "w_audit (reader_step t m W) = w_audit W"
  "w_wire (reader_step t m W) = w_wire W" "pu_link (w_pump (reader_step t m W)) = pu_link (w_pump W)"
  using pump_dispatch_link [of m "w_pump W"]
  by (cases "pump_dispatch m (w_pump W)",
      simp add: reader_step_def pump_drain_once_def Let_def)+

lemma wait_ack_log:
  "wait_ack arrivals limit W = (r, W') \<Longrightarrow>
   w_log W' = w_log W \<and> w_audit W' = w_audit W \<and> w_wire W' = w_wire W \<and>
   pu_link (w_pump W') = pu_link (w_pump W)"
proof (induction arrivals arbitrary: W)
  case Nil
  then show ?case by (auto simp: wait_ack.simps split: list.splits)
next
  case (Cons x arrivals)
  then show ?case
    by (subst (asm) (2) wait_ack.simps) (auto split: list.splits prod.splits if_splits)
qed

text \<open>A wait ends at its limit, at the latest, and leaves the future of the world alone.\<close>

lemma reader_step_time [simp]:
  "w_clock (reader_step t m W) = max (w_clock W) t" "w_traffic (reader_step t m W) = w_traffic W"
  "w_lag (reader_step t m W) = w_lag W"
  by (cases "pump_dispatch m (w_pump W)", simp add: reader_step_def pump_drain_once_def Let_def)+

lemma wait_ack_time:
  "wait_ack arrivals limit W = (r, W') \<Longrightarrow> w_clock W \<le> limit \<Longrightarrow>
   w_clock W \<le> w_clock W' \<and> w_clock W' \<le> limit \<and> w_traffic W' = w_traffic W \<and> w_lag W' = w_lag W"
proof (induction arrivals arbitrary: W)
  case Nil
  then show ?case by (auto simp: wait_ack.simps split: list.splits)
next
  case (Cons x arrivals)
  obtain t m where x: "x = (t, m)" by (cases x)
  show ?case
  proof (cases "pu_acks (w_pump W) = [] \<and> t \<le> limit")
    case True
    then have "wait_ack arrivals limit (reader_step t m W) = (r, W')"
      using Cons.prems(1) by (subst (asm) wait_ack.simps) (simp add: x)
    from Cons.IH [OF this] True Cons.prems(2) show ?thesis by simp
  next
    case False
    with Cons.prems show ?thesis
      by (subst (asm) wait_ack.simps) (auto simp: x split: list.splits if_splits)
  qed
qed

lemma w_record_log:
  "w_record ev W = (Inr u, W') \<Longrightarrow> w_log W' = w_log W @ [Wrote ev]"
  "w_record ev W = (Inl e, W') \<Longrightarrow> w_log W' = w_log W \<or> w_log W' = w_log W @ [Wrote ev]"
  by (auto simp: w_record_def audit_record_def split: disk.splits if_splits)

interpretation rig: observed_env world_env w_log
  by unfold_locales
    (auto simp: world_env_def w_record_log w_send_def w_drain_def w_recv_ack_def
      split: sum.splits option.splits prod.splits dest: wait_ack_log w_record_log)

text \<open>Every wait costs a time between the two bounds.\<close>

definition lagging :: "real \<Rightarrow> real \<Rightarrow> world \<Rightarrow> bool" where
  "lagging lo hi W \<longleftrightarrow> 0 < lo \<and> (\<forall>k. lo \<le> w_lag W k \<and> w_lag W k \<le> hi)"

lemma recv_time:
  assumes "lagging lo hi W" "0 < t" "w_recv_ack t W = (r, W')"
  shows "lagging lo hi W' \<and> w_clock W + lo \<le> w_clock W' \<and> w_clock W' \<le> w_clock W + t + hi"
proof -
  obtain a W1 where w: "wait_ack (w_arrivals W @ w_traffic W (w_waits W)) (w_clock W + t) W = (a, W1)" by fastforce
  have W1: "w_clock W \<le> w_clock W1" "w_clock W1 \<le> w_clock W + t" "w_lag W1 = w_lag W"
    using wait_ack_time [OF w] assms(2) by simp_all
  have lag: "lo \<le> w_lag W (w_waits W)" "w_lag W (w_waits W) \<le> hi" using assms(1) by (auto simp: lagging_def)
  have W': "w_lag W' = w_lag W" "w_clock W' = w_clock W1 + w_lag W (w_waits W)"
    using assms(2,3) w W1(3) by (auto simp: w_recv_ack_def)
  from W'(1) assms(1) have "lagging lo hi W'" by (simp add: lagging_def)
  with W1 lag W'(2) show ?thesis by linarith
qed

interpretation rig_timed: timed_env world_env w_clock "lagging lo hi" lo hi for lo hi
proof unfold_locales
  fix W W' :: world and r0 :: "py_exn + unit" and ev spec t d and r1 :: "py_exn + ack option"
  assume W: "lagging lo hi W"
  show "0 < lo \<and> lo \<le> hi" using W unfolding lagging_def by (meson order_trans)
  show "ce_now world_env W = (t, W') \<Longrightarrow> t = w_clock W \<and> w_clock W' = w_clock W \<and> lagging lo hi W'"
    using W by (auto simp: world_env_def)
  show "0 < t \<Longrightarrow> ce_recv_ack world_env t W = (r1, W') \<Longrightarrow>
      lagging lo hi W' \<and> w_clock W + lo \<le> w_clock W' \<and> w_clock W' \<le> w_clock W + t + hi"
    using recv_time [OF W] by (simp add: world_env_def)
  show "ce_record world_env ev W = (r0, W') \<Longrightarrow> lagging lo hi W' \<and> w_clock W' = w_clock W"
    using W by (auto simp: world_env_def w_record_def lagging_def split: prod.splits)
  show "ce_send world_env spec W = (r0, W') \<Longrightarrow> lagging lo hi W' \<and> w_clock W' = w_clock W"
    using W by (auto simp: world_env_def w_send_def lagging_def split: sum.splits option.splits)
  show "ce_drain world_env = Some d \<Longrightarrow> d W = (r0, W') \<Longrightarrow> lagging lo hi W' \<and> w_clock W' = w_clock W"
    using W by (auto simp: world_env_def w_drain_def lagging_def)
qed

section \<open>The files say what happened\<close>

text \<open>The audit file is the record part of the history, the wire its transmissions.\<close>

fun records_of :: "io_event list \<Rightarrow> audit_event list" where
  "records_of [] = []"
| "records_of (Wrote ev # es) = ev # records_of es"
| "records_of (_ # es) = records_of es"

fun sent_of :: "io_event list \<Rightarrow> command_spec list" where
  "sent_of [] = []"
| "sent_of (Sent s # es) = s # sent_of es"
| "sent_of (_ # es) = sent_of es"

lemma records_of_append [simp]: "records_of (xs @ ys) = records_of xs @ records_of ys"
  by (induction xs rule: records_of.induct) simp_all

lemma sent_of_append [simp]: "sent_of (xs @ ys) = sent_of xs @ sent_of ys"
  by (induction xs rule: sent_of.induct) simp_all

definition faithful :: "world \<Rightarrow> bool" where
  "faithful W \<longleftrightarrow>
     map snd (al_lines (w_audit W)) = records_of (w_log W) \<and>
     map Inr (w_wire W) = map (mav_link_send (pu_link (w_pump W))) (sent_of (w_log W))"

lemma faithful_record: "faithful W \<Longrightarrow> faithful (snd (w_record ev W))"
  by (auto simp: faithful_def w_record_def audit_record_def split: prod.split disk.split)

lemma faithful_send: "faithful W \<Longrightarrow> faithful (snd (w_send spec W))"
  by (auto simp: faithful_def w_send_def split: sum.split option.split)

lemma faithful_drain: "faithful W \<Longrightarrow> faithful (snd (w_drain W))"
  by (simp add: faithful_def w_drain_def pump_drain_def)

lemma faithful_recv: "faithful W \<Longrightarrow> faithful (snd (w_recv_ack t W))"
  by (auto simp: faithful_def w_recv_ack_def split: prod.split dest: wait_ack_log)

text \<open>Every step of an execution keeps the files faithful, hence so does the whole.\<close>

interpretation rig_faithful: kept_env world_env faithful
proof unfold_locales
  fix W W' :: world and r0 :: "py_exn + unit" and ev spec t d and r1 :: "py_exn + ack option"
  assume W: "faithful W"
  show "ce_record world_env ev W = (r0, W') \<Longrightarrow> faithful W'"
    using faithful_record [OF W, of ev] by (simp add: world_env_def)
  show "ce_send world_env spec W = (r0, W') \<Longrightarrow> faithful W'"
    using faithful_send [OF W, of spec] by (simp add: world_env_def)
  show "ce_recv_ack world_env t W = (r1, W') \<Longrightarrow> faithful W'"
    using faithful_recv [OF W, of t] by (simp add: world_env_def)
  show "ce_drain world_env = Some d \<Longrightarrow> d W = (r0, W') \<Longrightarrow> faithful W'"
    using faithful_drain [OF W] by (auto simp: world_env_def)
  show "ce_now world_env W = (t, W') \<Longrightarrow> faithful W'"
    using W by (simp add: world_env_def)
qed

text \<open>Nothing in an execution replaces the link or turns its signing off.\<close>

interpretation rig_link: kept_env world_env "\<lambda>W. pu_link (w_pump W) = L" for L
  by unfold_locales
    (auto simp: world_env_def w_record_def w_send_def w_drain_def pump_drain_def w_recv_ack_def
      split: sum.splits option.splits prod.splits dest: wait_ack_log)

end
