(* ===== verification/Command_Service.thy ===== *)
theory Command_Service
  imports Command_Pump
begin

text \<open>
  The supervised command service, \<^verbatim>\<open>meshsa/command/service.py\<close>: stage, confirm with the arm
  interlock, execute.  The state is the confirmation gate and the world of the environment the
  service shares with its sender (the same audit log and clock, as
  \<^verbatim>\<open>flightctl/run_commander.py\<close> wires them).
\<close>

section \<open>Operations\<close>

record staged_command =
  confirmation_id :: string
  sc_name :: string
  sc_command :: int
  sc_requires_force_confirm :: bool

definition service_stage ::
  "'w command_env \<Rightarrow> commander_settings \<Rightarrow> string \<Rightarrow> string \<Rightarrow> kwargs \<Rightarrow>
     gate \<Rightarrow> 'w \<Rightarrow> (cmd_exn + staged_command) \<times> gate \<times> 'w" where
  "service_stage E S new_id name params g w =
     (case build_command name S params of
        Inl e \<Rightarrow> (Inl e, g, w)
      | Inr spec \<Rightarrow>
          case gate_stage new_id spec g of
            (token, g') \<Rightarrow>
              (case ce_record E (CommandStaged token (cs_name spec) (cs_command spec)) w of
                 (Inl e, w') \<Rightarrow> (Inl (Raised e), g', w')
               | (Inr _, w') \<Rightarrow>
                   (Inr \<lparr>confirmation_id = token, sc_name = cs_name spec,
                         sc_command = cs_command spec,
                         sc_requires_force_confirm = cs_requires_force_confirm spec\<rparr>, g', w')))"

definition service_cancel ::
  "'w command_env \<Rightarrow> string \<Rightarrow> gate \<Rightarrow> 'w \<Rightarrow> (cmd_exn + unit) \<times> gate \<times> 'w" where
  "service_cancel E token g w =
     (let g' = gate_cancel token g
      in case ce_record E (CommandCancelled token) w of
           (Inl e, w') \<Rightarrow> (Inl (Raised e), g', w')
         | (Inr _, w') \<Rightarrow> (Inr (), g', w'))"

text \<open>The interlock: the report is taken first, then the clock is read.\<close>

definition interlock ::
  "'w command_env \<Rightarrow> commander_settings \<Rightarrow> ('w \<Rightarrow> health_report option) option \<Rightarrow> 'w \<Rightarrow> bool \<times> 'w" where
  "interlock E S provider w =
     (let report = (case provider of None \<Rightarrow> None | Some health \<Rightarrow> health w)
      in case ce_now E w of (now, w') \<Rightarrow> (arm_allowed report now (arm_report_max_age_s S), w'))"

text \<open>What \<^verbatim>\<open>confirm\<close> does with the command that the gate has released.\<close>

definition confirm_released ::
  "'w command_env \<Rightarrow> commander_settings \<Rightarrow> int option \<Rightarrow> ('w \<Rightarrow> health_report option) option \<Rightarrow>
     string \<Rightarrow> bool \<Rightarrow> command_spec \<Rightarrow> 'w \<Rightarrow> ((cmd_exn + command_outcome) \<times> 'w) option" where
  "confirm_released E S expect provider token force_ack spec w =
     (case (if cs_name spec = ''arm'' then interlock E S provider w else (True, w)) of
        (False, w1) \<Rightarrow>
          (case ce_record E (ArmBlocked token) w1 of
             (Inl e, w2) \<Rightarrow> Some (Inl (Raised e), w2)
           | (Inr _, w2) \<Rightarrow> Some (Inl (Refused ArmBlockedError), w2))
      | (True, w1) \<Rightarrow>
          (case ce_record E (CommandConfirmed token (cs_name spec) force_ack) w1 of
             (Inl e, w2) \<Rightarrow> Some (Inl (Raised e), w2)
           | (Inr _, w2) \<Rightarrow>
               (case execute E S expect spec w2 of
                  None \<Rightarrow> None
                | Some (Inl e, w3) \<Rightarrow> Some (Inl (Raised e), w3)
                | Some (Inr out, w3) \<Rightarrow> Some (Inr out, w3))))"

definition service_confirm ::
  "'w command_env \<Rightarrow> commander_settings \<Rightarrow> int option \<Rightarrow> ('w \<Rightarrow> health_report option) option \<Rightarrow>
     string \<Rightarrow> bool \<Rightarrow> gate \<Rightarrow> 'w \<Rightarrow> ((cmd_exn + command_outcome) \<times> gate \<times> 'w) option" where
  "service_confirm E S expect provider token force_ack g w =
     (case gate_confirm token force_ack g of
        (Inl e, g') \<Rightarrow> Some (Inl (Refused e), g', w)
      | (Inr spec, g') \<Rightarrow>
          map_option (\<lambda>(r, w'). (r, g', w')) (confirm_released E S expect provider token force_ack spec w))"

text \<open>The production health provider: the heartbeats the pump has seen.\<close>

definition heartbeat_provider :: "world \<Rightarrow> health_report option" where
  "heartbeat_provider W = hb_report (w_clock W) (w_health W)"

section \<open>Reachable states\<close>

text \<open>
  The service between its calls: anything that leaves the observed trace alone may happen to the
  world (time passes, messages arrive).
\<close>

inductive service_reach ::
  "'w command_env \<Rightarrow> commander_settings \<Rightarrow> int option \<Rightarrow>
     ('w \<Rightarrow> health_report option) option \<Rightarrow> ('w \<Rightarrow> io_event list) \<Rightarrow> 'w \<Rightarrow> gate \<Rightarrow> 'w \<Rightarrow> bool"
  for E S expect provider trace w0
where
  start: "service_reach E S expect provider trace w0 new_gate w0"
| stage: "service_reach E S expect provider trace w0 g w \<Longrightarrow>
    service_stage E S t name params g w = (r, g', w') \<Longrightarrow>
    service_reach E S expect provider trace w0 g' w'"
| cancel: "service_reach E S expect provider trace w0 g w \<Longrightarrow>
    service_cancel E t g w = (r, g', w') \<Longrightarrow>
    service_reach E S expect provider trace w0 g' w'"
| confirm: "service_reach E S expect provider trace w0 g w \<Longrightarrow>
    service_confirm E S expect provider t force g w = Some (r, g', w') \<Longrightarrow>
    service_reach E S expect provider trace w0 g' w'"
| idle: "service_reach E S expect provider trace w0 g w \<Longrightarrow> trace w' = trace w \<Longrightarrow>
    service_reach E S expect provider trace w0 g w'"

definition buildable :: "commander_settings \<Rightarrow> command_spec \<Rightarrow> bool" where
  "buildable S spec \<longleftrightarrow> (\<exists>name params. build_command name S params = Inr spec)"

definition gate_buildable :: "commander_settings \<Rightarrow> gate \<Rightarrow> bool" where
  "gate_buildable S g \<longleftrightarrow> (\<forall>t spec. g t = Some spec \<longrightarrow> buildable S spec)"

lemma gate_buildable_keeps:
  "gate_buildable S new_gate"
  "gate_buildable S g \<Longrightarrow> buildable S spec \<Longrightarrow> gate_buildable S (snd (gate_stage t spec g))"
  "gate_buildable S g \<Longrightarrow> gate_buildable S (gate_cancel t g)"
  "gate_buildable S g \<Longrightarrow> gate_buildable S (snd (gate_confirm t force g))"
  by (auto simp: gate_buildable_def new_gate_def gate_stage_def gate_cancel_def gate_confirm_def
      split: option.split)

lemma service_stage_gate:
  assumes "gate_buildable S g" and "service_stage E S t name params g w = (r, g', w')"
  shows "gate_buildable S g'"
proof (cases "build_command name S params")
  case (Inl e)
  with assms show ?thesis by (simp add: service_stage_def)
next
  case (Inr spec)
  then have "buildable S spec" by (auto simp: buildable_def)
  from gate_buildable_keeps(2) [OF assms(1) this, of t] Inr assms(2) show ?thesis
    by (auto simp: service_stage_def gate_stage_def split: prod.splits sum.splits)
qed

lemma service_confirm_gate:
  "service_confirm E S expect provider t force g w = Some (r, g', w') \<Longrightarrow>
   g' = snd (gate_confirm t force g)"
  by (auto simp: service_confirm_def split: prod.splits sum.splits)

section \<open>Transmissions of the service\<close>

context observed_env
begin

lemma interlock_silent: "interlock E S provider w = (b, w') \<Longrightarrow> trace w' = trace w"
  by (auto simp: interlock_def split: prod.splits dest: now_silent)

lemma service_stage_silent:
  assumes "service_stage E S t name params g w = (r, g', w')"
  shows "\<exists>es. trace w' = trace w @ es \<and> sends es = 0"
  using assms record_ok record_err
  by (fastforce simp: service_stage_def gate_stage_def split: sum.splits prod.splits)

lemma service_cancel_silent:
  assumes "service_cancel E t g w = (r, g', w')"
  shows "\<exists>es. trace w' = trace w @ es \<and> sends es = 0"
  using assms record_ok record_err
  by (fastforce simp: service_cancel_def Let_def split: sum.splits prod.splits)

text \<open>
  What a confirmation puts on the trace.  Either nothing is sent, or the command that the gate held
  under this token was released with the acknowledgement it needs, the interlock permitted it if it
  arms, the confirmation is on record, and what follows is an execution of that command.
\<close>

lemma confirm_released_trace:
  assumes "confirm_released E S expect provider token force spec w = Some (r, w')"
  shows "\<exists>es. trace w' = trace w @ es \<and>
    (sends es = 0 \<or>
     (\<exists>es' r'. es = Wrote (CommandConfirmed token (cs_name spec) force) # es' \<and>
        executed spec expect (max_attempts S) (nat (max_attempts S)) 1 None es' r' \<and>
        (cs_name spec = ''arm'' \<longrightarrow> fst (interlock E S provider w))))"
proof -
  obtain b w1 where il: "(if cs_name spec = ''arm'' then interlock E S provider w else (True, w)) = (b, w1)"
    by fastforce
  then have t1: "trace w1 = trace w" by (auto split: if_splits dest: interlock_silent)
  show ?thesis
  proof (cases b)
    case False
    with assms il have "\<exists>r0. ce_record E (ArmBlocked token) w1 = (r0, w')"
      by (auto simp: confirm_released_def split: sum.splits prod.splits)
    then obtain r0 where "ce_record E (ArmBlocked token) w1 = (r0, w')" ..
    then have "trace w' = trace w \<or> trace w' = trace w @ [Wrote (ArmBlocked token)]"
      using t1 record_ok record_err by (cases r0) fastforce+
    then show ?thesis by auto
  next
    case True
    obtain r2 w2 where rec: "ce_record E (CommandConfirmed token (cs_name spec) force) w1 = (r2, w2)"
      by fastforce
    show ?thesis
    proof (cases r2)
      case (Inl e)
      with assms il True rec have "w' = w2" by (simp add: confirm_released_def)
      with rec Inl t1 record_err have
        "trace w' = trace w \<or> trace w' = trace w @ [Wrote (CommandConfirmed token (cs_name spec) force)]"
        by fastforce
      then show ?thesis by auto
    next
      case (Inr u)
      with rec t1 have t2: "trace w2 = trace w @ [Wrote (CommandConfirmed token (cs_name spec) force)]"
        using record_ok by fastforce
      obtain r3 where "execute E S expect spec w2 = Some (r3, w')"
        using assms il True rec Inr
        by (auto simp: confirm_released_def split: option.splits sum.splits prod.splits)
      from execute_trace [OF this] t2 il True show ?thesis
        by (auto split: if_splits)
    qed
  qed
qed

lemma service_confirm_trace:
  assumes "service_confirm E S expect provider token force g w = Some (r, g', w')"
  shows "\<exists>es. trace w' = trace w @ es \<and>
    (sends es = 0 \<or>
     (\<exists>spec es' r'. g token = Some spec \<and> (cs_requires_force_confirm spec \<longrightarrow> force) \<and>
        g' = g(token := None) \<and>
        es = Wrote (CommandConfirmed token (cs_name spec) force) # es' \<and>
        executed spec expect (max_attempts S) (nat (max_attempts S)) 1 None es' r' \<and>
        (cs_name spec = ''arm'' \<longrightarrow> fst (interlock E S provider w))))"
proof (cases "gate_confirm token force g")
  case (Pair x g1)
  show ?thesis
  proof (cases x)
    case (Inl e)
    with Pair assms have "w' = w" by (simp add: service_confirm_def)
    then show ?thesis by simp
  next
    case (Inr spec)
    with Pair have g: "g token = Some spec" "cs_requires_force_confirm spec \<longrightarrow> force" "g1 = g(token := None)"
      by (simp_all add: gate_confirm_Inr_iff)
    from Pair Inr assms have "confirm_released E S expect provider token force spec w = Some (r, w')" "g' = g1"
      by (auto simp: service_confirm_def)
    from confirm_released_trace [OF this(1)] this(2) g show ?thesis by blast
  qed
qed

lemma executed_sent: "executed spec expect maxa n k res es r \<Longrightarrow> Sent s \<in> set es \<Longrightarrow> s = spec"
  by (auto simp: executed_def audited_def dest: split_list)

lemma no_sends_sent: "sends es = 0 \<Longrightarrow> Sent s \<notin> set es"
  by (auto dest!: split_list)

text \<open>Whatever the operators and the vehicle do, only commands of the allow-list go out.\<close>

lemma service_reach_sent:
  "service_reach E S expect provider trace w0 g w \<Longrightarrow>
   gate_buildable S g \<and>
   (\<exists>es. trace w = trace w0 @ es \<and> (\<forall>s. Sent s \<in> set es \<longrightarrow> buildable S s))"
proof (induction rule: service_reach.induct)
  case start
  then show ?case by (auto simp: gate_buildable_keeps)
next
  case (stage g w t name params r g' w')
  then show ?case
    using service_stage_gate [OF _ stage.hyps(2)] service_stage_silent [OF stage.hyps(2)]
      no_sends_sent by (metis Un_iff append.assoc set_append)
next
  case (cancel g w t r g' w')
  then have "gate_buildable S g'"
    by (auto simp: service_cancel_def Let_def gate_buildable_keeps split: prod.splits sum.splits)
  then show ?case
    using cancel.IH service_cancel_silent [OF cancel.hyps(2)] no_sends_sent
    by (metis Un_iff append.assoc set_append)
next
  case (confirm g w t force r g' w')
  obtain es0 where es0: "trace w = trace w0 @ es0" "\<forall>s. Sent s \<in> set es0 \<longrightarrow> buildable S s"
    and g: "gate_buildable S g" using confirm.IH by blast
  obtain es where es: "trace w' = trace w @ es"
    and sent: "sends es = 0 \<or> (\<exists>spec es' r'. g t = Some spec \<and>
      es = Wrote (CommandConfirmed t (cs_name spec) force) # es' \<and>
      executed spec expect (max_attempts S) (nat (max_attempts S)) 1 None es' r')"
    using service_confirm_trace [OF confirm.hyps(2)] by blast
  have "buildable S s" if "Sent s \<in> set es" for s
    using sent that g no_sends_sent executed_sent by (fastforce simp: gate_buildable_def)
  then show ?case
    using es0 es gate_buildable_keeps(4) [OF g] service_confirm_gate [OF confirm.hyps(2)]
    by (intro conjI exI [of _ "es0 @ es"]) auto
next
  case (idle g w w')
  then show ?case by simp
qed

end

section \<open>The service always answers\<close>

context timed_env
begin

lemma interlock_instant: "ok w \<Longrightarrow> interlock E S provider w = (b, w') \<Longrightarrow> ok w' \<and> time w' = time w"
  by (auto simp: interlock_def Let_def split: prod.splits dest: now_reads)

lemma confirm_released_ends:
  assumes "ok w"
  shows "ends_by time ok (time w + real (nat (max_attempts S)) * (max 0 (ack_timeout_s S) + hi))
    (confirm_released E S expect provider token force spec w)"
proof -
  let ?b = "time w + real (nat (max_attempts S)) * (max 0 (ack_timeout_s S) + hi)"
  have b: "time w \<le> ?b" using costs [OF assms] by simp
  obtain go w1 where il: "(if cs_name spec = ''arm'' then interlock E S provider w else (True, w)) = (go, w1)" by fastforce
  with assms have w1: "ok w1" "time w1 = time w" by (auto split: if_splits dest: interlock_instant)
  let ?ev = "if go then CommandConfirmed token (cs_name spec) force else ArmBlocked token"
  obtain x w2 where rec: "ce_record E ?ev w1 = (x, w2)" by fastforce
  with w1 have w2: "ok w2" "time w2 = time w" by (auto dest: record_instant)
  obtain r w3 where ex: "execute E S expect spec w2 = Some (r, w3)" "ok w3" "time w3 \<le> ?b"
    using execute_ends [OF w2(1), of S expect spec] w2(2) by (auto simp: ends_by_def)
  show ?thesis
    by (cases go; cases x; cases r) (use rec ex w2 b in \<open>simp_all add: confirm_released_def il\<close>)
qed

lemma confirm_ends:
  assumes "ok w"
  shows "\<exists>r g' w'. service_confirm E S expect provider token force g w = Some (r, g', w') \<and>
    time w' \<le> time w + real (nat (max_attempts S)) * (max 0 (ack_timeout_s S) + hi)"
proof (cases "gate_confirm token force g")
  case (Pair x g')
  have "time w \<le> time w + real (nat (max_attempts S)) * (max 0 (ack_timeout_s S) + hi)" using costs [OF assms] by simp
  with Pair show ?thesis
    using confirm_released_ends [OF assms, of S expect provider token force]
    by (cases x) (auto simp: service_confirm_def ends_by_def, metis option.simps(9) prod.case)
qed

end

section \<open>Invariants of the environment\<close>

text \<open>What every operation of the environment keeps, the service keeps.\<close>

context kept_env
begin

lemma interlock_keeps: "inv w \<Longrightarrow> interlock E S provider w = (b, w') \<Longrightarrow> inv w'"
  by (auto simp: interlock_def Let_def split: prod.splits dest: now_keeps)

lemma confirm_released_keeps:
  assumes "inv w" "confirm_released E S expect provider token force spec w = Some (r, w')"
  shows "inv w'"
proof -
  obtain b w1 where il: "(if cs_name spec = ''arm'' then interlock E S provider w else (True, w)) = (b, w1)"
    by fastforce
  then have w1: "inv w1" using assms(1) by (auto split: if_splits dest: interlock_keeps)
  show ?thesis
  proof (cases b)
    case False
    with assms(2) il show ?thesis
      by (auto simp: confirm_released_def split: sum.splits prod.splits dest: record_keeps [OF w1])
  next
    case True
    obtain x w2 where rec: "ce_record E (CommandConfirmed token (cs_name spec) force) w1 = (x, w2)"
      by fastforce
    then have "inv w2" by (rule record_keeps [OF w1])
    with assms(2) il True rec show ?thesis
      by (auto simp: confirm_released_def split: sum.splits option.splits dest: execute_keeps)
  qed
qed

lemma service_keeps:
  assumes "inv w"
  shows "service_stage E S t name params g w = (r, g', w') \<Longrightarrow> inv w'"
    and "service_cancel E t g w = (r2, g', w') \<Longrightarrow> inv w'"
    and "service_confirm E S expect provider t force g w = Some (r3, g', w') \<Longrightarrow> inv w'"
proof -
  show "service_stage E S t name params g w = (r, g', w') \<Longrightarrow> inv w'"
    using assms by (auto simp: service_stage_def gate_stage_def split: sum.splits prod.splits dest: record_keeps)
  show "service_cancel E t g w = (r2, g', w') \<Longrightarrow> inv w'"
    using assms by (auto simp: service_cancel_def Let_def split: sum.splits prod.splits dest: record_keeps)
  show "service_confirm E S expect provider t force g w = Some (r3, g', w') \<Longrightarrow> inv w'"
    using assms by (auto simp: service_confirm_def split: sum.splits prod.splits dest: confirm_released_keeps)
qed

end

end
