(* ===== verification/Net_Auth.thy ===== *)
theory Net_Auth
  imports Py_Strings
begin

text \<open>
  The shared bind and bearer-token checks, \<^verbatim>\<open>meshsa/netauth.py\<close>, and the parsers of operator input,
  \<^verbatim>\<open>meshsa/_parsing.py\<close> and the scalar casters of \<^verbatim>\<open>meshsa/_envconfig.py\<close>.  An absent token or
  header is \<open>None\<close>.  Comparing UTF-8 encodings is comparing the strings: a header is a list of characters
  below 256, so a lone surrogate, which \<^verbatim>\<open>encode\<close> refuses with a UnicodeEncodeError, has no counterpart here.
\<close>

section \<open>Authorisation\<close>

definition LOOPBACK_HOSTS :: "string set" where
  "LOOPBACK_HOSTS = {''127.0.0.1'', ''::1'', ''localhost''}"

definition is_loopback :: "string \<Rightarrow> bool" where
  "is_loopback host \<longleftrightarrow> py_lower (py_strip host) \<in> LOOPBACK_HOSTS"

definition falsy :: "string option \<Rightarrow> bool" where
  \<comment> \<open>\<^verbatim>\<open>not s\<close>\<close>
  "falsy s \<longleftrightarrow> s = None \<or> s = Some []"

definition authorize :: "string option \<Rightarrow> string option \<Rightarrow> bool" where
  "authorize token auth_header =
     (if falsy token then True
      else if falsy auth_header then False
      else
        case py_partition CHR '' '' (the auth_header) of
          (scheme, _, presented) \<Rightarrow>
            if py_lower scheme \<noteq> ''bearer'' \<or> presented = [] then False
            else py_strip presented = the token)"

definition validate_bind :: "string \<Rightarrow> string option \<Rightarrow> py_exn + unit" where
  "validate_bind host token =
     (if \<not> is_loopback host \<and> falsy token then Inl ValueError else Inr ())"

text \<open>A configured token: only a bearer header that presents it passes.\<close>

lemma authorize_token:
  assumes "t \<noteq> []"
  shows "authorize (Some t) h \<longleftrightarrow>
    (\<exists>scheme presented. h = Some (scheme @ CHR '' '' # presented) \<and> CHR '' '' \<notin> set scheme \<and>
       py_lower scheme = ''bearer'' \<and> py_strip presented = t)"
    (is "?l \<longleftrightarrow> ?r")
proof
  assume ?l
  then obtain hd where h: "h = Some hd" using assms by (cases h) (auto simp: authorize_def falsy_def)
  obtain scheme f presented where p: "py_partition CHR '' '' hd = (scheme, f, presented)"
    by (cases "py_partition CHR '' '' hd") auto
  have pr: "presented \<noteq> []" "py_lower scheme = ''bearer''" "py_strip presented = t"
    using \<open>?l\<close> assms h p by (auto simp: authorize_def falsy_def split: if_splits)
  have f
  proof (rule ccontr)
    assume "\<not> f"
    then have "CHR '' '' \<notin> set hd" using p by (auto simp: py_partition_def)
    from partition_none [OF this] p pr(1) show False by simp
  qed
  then have "hd = scheme @ CHR '' '' # presented \<and> CHR '' '' \<notin> set scheme"
    using partition_found p by simp
  with h pr show ?r by blast
next
  assume ?r
  then obtain scheme presented where h: "h = Some (scheme @ CHR '' '' # presented)"
    "CHR '' '' \<notin> set scheme" "py_lower scheme = ''bearer''" "py_strip presented = t" by blast
  moreover have "presented \<noteq> []" using h(4) assms by (auto simp: py_strip_def)
  ultimately show ?l
    using assms by (simp add: authorize_def falsy_def partition_append)
qed

text \<open>A service that bound successfully is either on loopback or closed to requests without a token.\<close>

lemma bound_closed:
  "validate_bind host token = Inr () \<Longrightarrow> is_loopback host \<or> \<not> authorize token None"
  by (auto simp: validate_bind_def authorize_def falsy_def split: if_splits)

section \<open>Parsing operator input\<close>

definition check_range :: "real \<Rightarrow> real option \<Rightarrow> real option \<Rightarrow> py_exn + unit" where
  "check_range x lo hi =
     (if (case lo of None \<Rightarrow> False | Some l \<Rightarrow> x < l) then Inl ValueError
      else if (case hi of None \<Rightarrow> False | Some h \<Rightarrow> h < x) then Inl ValueError
      else Inr ())"

text \<open>\<^verbatim>\<open>parse_int\<close> and \<^verbatim>\<open>parse_float\<close> of a string.\<close>

definition parse_int :: "string \<Rightarrow> int option \<Rightarrow> int option \<Rightarrow> py_exn + int" where
  "parse_int v lo hi =
     (case py_int_str v of
        None \<Rightarrow> Inl ValueError
      | Some n \<Rightarrow>
          then_ok (check_range (real_of_int n) (map_option real_of_int lo) (map_option real_of_int hi))
            (\<lambda>_. Inr n))"

definition parse_float :: "string \<Rightarrow> real option \<Rightarrow> real option \<Rightarrow> py_exn + real" where
  "parse_float v lo hi =
     (case py_float_str v of
        None \<Rightarrow> Inl ValueError
      | Some (Fin x) \<Rightarrow> then_ok (check_range x lo hi) (\<lambda>_. Inr x)
      | Some _ \<Rightarrow> Inl ValueError)"

definition parse_bool :: "string \<Rightarrow> py_exn + bool" where
  "parse_bool raw =
     (let cleaned = py_lower (py_strip raw)
      in if cleaned \<in> {''true'', ''1'', ''yes''} then Inr True
         else if cleaned \<in> {''false'', ''0'', ''no'', []} then Inr False
         else Inl ValueError)"

definition parse_token :: "string \<Rightarrow> string option" where
  "parse_token raw = (let s = py_strip raw in if s = [] then None else Some s)"

definition env_key :: "string \<Rightarrow> string option \<Rightarrow> string \<Rightarrow> string" where
  "env_key pfx section field =
     pfx @ (case section of None \<Rightarrow> [] | Some s \<Rightarrow> if s = [] then [] else py_upper s @ ''_'') @ py_upper field"

lemma parse_int_str_int:
  "(\<forall>l. lo = Some l \<longrightarrow> l \<le> i) \<Longrightarrow> (\<forall>h. hi = Some h \<longrightarrow> i \<le> h) \<Longrightarrow> parse_int (str_int i) lo hi = Inr i"
  by (auto simp: parse_int_def py_int_str_int check_range_def split: option.split)

lemma parse_int_range:
  assumes "parse_int v lo hi = Inr n"
  shows "(\<forall>l. lo = Some l \<longrightarrow> l \<le> n) \<and> (\<forall>h. hi = Some h \<longrightarrow> n \<le> h)"
  using assms
  by (auto simp: parse_int_def check_range_def then_ok_Inr_iff split: option.splits if_splits)

lemma parse_float_range:
  assumes "parse_float v lo hi = Inr x"
  shows "(\<forall>l. lo = Some l \<longrightarrow> l \<le> x) \<and> (\<forall>h. hi = Some h \<longrightarrow> x \<le> h)"
  using assms
  by (auto simp: parse_float_def check_range_def then_ok_Inr_iff
      split: option.splits if_splits pyfloat.splits)

text \<open>A token that is read from the environment never carries blanks, so a client can present it.\<close>

lemma strip_idem: "py_strip (py_strip s) = py_strip s"
proof (cases "py_strip s = []")
  case True
  then show ?thesis by (simp add: py_strip_def [of "[]"])
next
  case ne: False
  let ?a = "dropWhile is_space s"
  have "py_strip s = rev (dropWhile is_space (rev ?a))" by (simp add: py_strip_def)
  moreover have "\<not> is_space (hd (dropWhile is_space (rev ?a)))"
    using hd_dropWhile [of is_space "rev ?a"] ne
    by (simp add: py_strip_def del: dropWhile_eq_Nil_conv)
  ultimately have l: "\<not> is_space (last (py_strip s))" using ne by (simp add: last_rev)
  have "\<exists>ys. ?a = py_strip s @ ys"
    unfolding py_strip_def by (metis rev_append rev_rev_ident takeWhile_dropWhile_id)
  then obtain ys where a: "?a = py_strip s @ ys" ..
  with ne have "?a \<noteq> []" "hd ?a = hd (py_strip s)" by auto
  with hd_dropWhile [of is_space s] have "\<not> is_space (hd (py_strip s))" by simp
  from strip_fixed [OF ne this l] show ?thesis .
qed

lemma parse_token_usable:
  assumes "parse_token raw = Some t"
  shows "authorize (Some t) (Some (''Bearer'' @ CHR '' '' # t))"
proof -
  have t: "t = py_strip raw" "t \<noteq> []" using assms by (auto simp: parse_token_def Let_def split: if_splits)
  have "py_lower ''Bearer'' = ''bearer''"
    by code_simp
  with t show ?thesis
    by (subst authorize_token)
      (simp, intro exI [of _ "''Bearer''"] exI [of _ t], simp add: strip_idem)
qed

end
