(* ===== verification/Commander_App.thy ===== *)
theory Commander_App
  imports Command_Service Net_Auth
begin

text \<open>
  The HTTP surface of the command service, \<^verbatim>\<open>flightctl/run_commander.py\<close>, and its configuration,
  \<^verbatim>\<open>meshsa/command/config.py\<close>.  A request is its \<^verbatim>\<open>Authorization\<close> header and its body, where
  \<open>None\<close> is a body that is not JSON.  A response is a status, or an exception that the handler does
  not catch (which aiohttp turns into a 500).  Blocking calls run one at a time.
\<close>

section \<open>Configuration\<close>

record commander_config =
  cc_host :: string
  cc_target_system :: int
  cc_target_component :: int
  cc_allowed :: "string set"
  cc_allow_force_disarm :: bool
  cc_ack_timeout_s :: real
  cc_max_attempts :: int
  cc_arm_report_max_age_s :: real

text \<open>\<^verbatim>\<open>model_post_init\<close>: the fields it warns about, in the order of \<^verbatim>\<open>_BOUNDS\<close>.\<close>

definition config_warnings :: "commander_config \<Rightarrow> string list" where
  "config_warnings c =
     map fst (filter (\<lambda>(_, ok). \<not> ok)
       [(''ack_timeout_s'', 0 < cc_ack_timeout_s c),
        (''max_attempts'', 1 \<le> cc_max_attempts c),
        (''arm_report_max_age_s'', 0 < cc_arm_report_max_age_s c),
        (''target_system'', 1 \<le> cc_target_system c \<and> cc_target_system c \<le> 255),
        (''target_component'', 1 \<le> cc_target_component c \<and> cc_target_component c \<le> 255)])"

definition to_settings :: "commander_config \<Rightarrow> commander_settings" where
  "to_settings c =
     \<lparr>allowed = cc_allowed c, allow_force_disarm = cc_allow_force_disarm c,
      ack_timeout_s = cc_ack_timeout_s c, max_attempts = cc_max_attempts c,
      arm_report_max_age_s = cc_arm_report_max_age_s c\<rparr>"

datatype startup = Exits | Proceeds "bytes option"

text \<open>\<^verbatim>\<open>_read_signing_key\<close>; the file is what \<^verbatim>\<open>read_bytes\<close> returns.\<close>

definition read_signing_key :: "string option \<Rightarrow> (string \<Rightarrow> bytes) \<Rightarrow> startup" where
  "read_signing_key path file =
     (if falsy path then Proceeds None
      else let key = file (the path)
           in if length key \<noteq> 32 then Exits else Proceeds (Some key))"

text \<open>
  \<^verbatim>\<open>main\<close> up to the open service and \<^verbatim>\<open>build_service\<close>: the token is normalised, the bind is checked
  before anything is opened, and the world starts with the log open and the pump running.  The file of the audit
  log is opened to append, so the lines of a world are those that this process adds to it.
\<close>

definition boot_world :: "commander_config \<Rightarrow> bytes option \<Rightarrow> real \<Rightarrow> real \<Rightarrow> (real \<times> mav_msg) list \<Rightarrow>
    (nat \<Rightarrow> (real \<times> mav_msg) list) \<Rightarrow> (nat \<Rightarrow> real) \<Rightarrow> disk list \<Rightarrow> py_exn option list \<Rightarrow> py_exn + world" where
  "boot_world c key clock epoch arrivals traffic lag disks radios =
     then_ok (new_mav_link True False (cc_target_system c) (cc_target_component c) key) (\<lambda>L.
       Inr \<lparr>w_pump = snd (pump_start (new_pump L (cc_target_system c) (cc_target_component c) True)),
            w_reader_alive = True, w_health = new_heartbeat (cc_arm_report_max_age_s c),
            w_audit = snd (audit_start new_audit_log), w_clock = clock, w_epoch = epoch,
            w_arrivals = arrivals, w_traffic = traffic, w_waits = 0, w_lag = lag, w_disk = disks, w_radio = radios, w_wire = [], w_log = []\<rparr>)"

definition start_commander ::
  "commander_config \<Rightarrow> string option \<Rightarrow> string option \<Rightarrow> (string \<Rightarrow> bytes) \<Rightarrow>
     (string option \<times> bytes option) option" where
  \<comment> \<open>\<open>None\<close> is SystemExit; otherwise the token and the signing key\<close>
  "start_commander c env_token key_path file =
     (let token = (case env_token of None \<Rightarrow> None | Some raw \<Rightarrow> parse_token raw)
      in case validate_bind (cc_host c) token of
           Inl _ \<Rightarrow> None
         | Inr _ \<Rightarrow> (case read_signing_key key_path file of Exits \<Rightarrow> None | Proceeds k \<Rightarrow> Some (token, k)))"

section \<open>Requests and responses\<close>

datatype http_request =
    ReqStage "string option" "json option" string \<comment> \<open>the last: the id the gate's factory makes\<close>
  | ReqConfirm "string option" "json option"
  | ReqCancel "string option" "json option"
  | ReqHealthz

datatype http_response = Status int | Staged staged_command | Finished int command_outcome | Unhandled py_exn

definition status_for :: "command_error \<Rightarrow> int" where
  "status_for e =
     (case e of
        UnknownCommandError _ \<Rightarrow> 400 | CommandNotAllowedError _ \<Rightarrow> 403
      | ForceDisarmDisabledError _ \<Rightarrow> 403 | UnknownConfirmationError _ \<Rightarrow> 404
      | ForceConfirmationRequired _ \<Rightarrow> 409 | ArmBlockedError \<Rightarrow> 409)"

text \<open>\<^verbatim>\<open>payload.get(key)\<close>: only an object has it.\<close>

definition json_get :: "json \<Rightarrow> string \<Rightarrow> py_exn + json option" where
  "json_get payload key =
     (case payload of JObj kvs \<Rightarrow> Inr (map_of kvs key) | _ \<Rightarrow> Inl AttributeError)"

text \<open>The part of a handler before its own work: authorisation and the body.\<close>

definition guarded_body ::
  "string option \<Rightarrow> string option \<Rightarrow> json option \<Rightarrow> http_response + (string \<Rightarrow> json option)" where
  "guarded_body token hdr body =
     (if \<not> authorize token hdr then Inl (Status 401)
      else case body of
        None \<Rightarrow> Inl (Status 400)
      | Some payload \<Rightarrow>
          case json_get payload [] of
            Inl e \<Rightarrow> Inl (Unhandled e)
          | Inr _ \<Rightarrow> Inr (\<lambda>key. case json_get payload key of Inl _ \<Rightarrow> None | Inr v \<Rightarrow> v))"

text \<open>\<^verbatim>\<open>payload.get("params") or {}\<close>, if it is a dictionary.\<close>

definition params_of :: "json option \<Rightarrow> kwargs option" where
  "params_of v =
     (case v of
        None \<Rightarrow> Some []
      | Some j \<Rightarrow> if \<not> truthy j then Some [] else (case j of JObj kvs \<Rightarrow> Some kvs | _ \<Rightarrow> None))"

definition handle_stage ::
  "string option \<Rightarrow> 'w command_env \<Rightarrow> commander_settings \<Rightarrow> string option \<Rightarrow> json option \<Rightarrow> string \<Rightarrow>
     gate \<Rightarrow> 'w \<Rightarrow> http_response \<times> gate \<times> 'w" where
  "handle_stage token E S hdr body new_id g w =
     (case guarded_body token hdr body of
        Inl resp \<Rightarrow> (resp, g, w)
      | Inr get \<Rightarrow>
          case (get ''name'', params_of (get ''params'')) of
            (Some (JStr name), Some params) \<Rightarrow>
              (case service_stage E S new_id name params g w of
                 (Inr sc, g', w') \<Rightarrow> (Staged sc, g', w')
               | (Inl (Refused e), g', w') \<Rightarrow> (Status (status_for e), g', w')
               | (Inl (Raised e), g', w') \<Rightarrow>
                   ((if e = TypeError \<or> e = ValueError then Status 400 else Unhandled e), g', w'))
          | _ \<Rightarrow> (Status 400, g, w))"

definition handle_confirm ::
  "string option \<Rightarrow> 'w command_env \<Rightarrow> commander_settings \<Rightarrow> int option \<Rightarrow>
     ('w \<Rightarrow> health_report option) option \<Rightarrow> string option \<Rightarrow> json option \<Rightarrow>
     gate \<Rightarrow> 'w \<Rightarrow> (http_response \<times> gate \<times> 'w) option" where
  "handle_confirm token E S expect provider hdr body g w =
     (case guarded_body token hdr body of
        Inl resp \<Rightarrow> Some (resp, g, w)
      | Inr get \<Rightarrow>
          let force_ack = (case get ''force_ack'' of None \<Rightarrow> False | Some v \<Rightarrow> truthy v)
          in case get ''confirmation_id'' of
               Some (JStr token_id) \<Rightarrow>
                 (case service_confirm E S expect provider token_id force_ack g w of
                    None \<Rightarrow> None
                  | Some (Inr out, g', w') \<Rightarrow>
                      Some (Finished (if co_accepted out then 200 else 502) out, g', w')
                  | Some (Inl (Refused e), g', w') \<Rightarrow> Some (Status (status_for e), g', w')
                  | Some (Inl (Raised e), g', w') \<Rightarrow> Some (Unhandled e, g', w'))
             | _ \<Rightarrow> Some (Status 400, g, w))"

definition handle_cancel ::
  "string option \<Rightarrow> 'w command_env \<Rightarrow> string option \<Rightarrow> json option \<Rightarrow> gate \<Rightarrow> 'w \<Rightarrow>
     http_response \<times> gate \<times> 'w" where
  "handle_cancel token E hdr body g w =
     (case guarded_body token hdr body of
        Inl resp \<Rightarrow> (resp, g, w)
      | Inr get \<Rightarrow>
          case get ''confirmation_id'' of
            Some (JStr token_id) \<Rightarrow>
              (case service_cancel E token_id g w of
                 (Inr _, g', w') \<Rightarrow> (Status 200, g', w')
               | (Inl (Refused e), g', w') \<Rightarrow> (Unhandled KeyError, g', w')
               | (Inl (Raised e), g', w') \<Rightarrow> (Unhandled e, g', w'))
          | _ \<Rightarrow> (Status 400, g, w))"

fun handle ::
  "string option \<Rightarrow> 'w command_env \<Rightarrow> commander_settings \<Rightarrow> int option \<Rightarrow>
     ('w \<Rightarrow> health_report option) option \<Rightarrow> http_request \<Rightarrow> gate \<times> 'w \<Rightarrow>
     (http_response \<times> gate \<times> 'w) option" where
  "handle token E S expect provider (ReqStage hdr body new_id) (g, w) =
     Some (handle_stage token E S hdr body new_id g w)"
| "handle token E S expect provider (ReqConfirm hdr body) (g, w) =
     handle_confirm token E S expect provider hdr body g w"
| "handle token E S expect provider (ReqCancel hdr body) (g, w) =
     Some (handle_cancel token E hdr body g w)"
| "handle token E S expect provider ReqHealthz (g, w) = Some (Status 200, g, w)"

section \<open>Lemmas\<close>

lemma guarded_unauthorised:
  "\<not> authorize token hdr \<Longrightarrow> guarded_body token hdr body = Inl (Status 401)"
  by (simp add: guarded_body_def)

text \<open>Cancelling never refuses, so the branch of the handler for it is dead.\<close>

lemma service_cancel_not_refused: "service_cancel E t g w \<noteq> (Inl (Refused e), g', w')"
  by (auto simp: service_cancel_def Let_def split: prod.splits sum.splits)

text \<open>A request is a step of the service or leaves it as it is.\<close>

lemma handle_step:
  assumes "handle token E S expect provider req (g, w) = Some (resp, g', w')"
  shows "(g', w') = (g, w) \<or>
    (\<exists>t name params r. service_stage E S t name params g w = (r, g', w')) \<or>
    (\<exists>t r. service_cancel E t g w = (r, g', w')) \<or>
    (\<exists>t force r. service_confirm E S expect provider t force g w = Some (r, g', w'))"
proof (cases req)
  case (ReqStage hdr body new_id)
  then show ?thesis
    using assms
    by (auto simp: handle_stage_def split: sum.splits option.splits json.splits prod.splits cmd_exn.splits)
next
  case (ReqConfirm hdr body)
  then show ?thesis
    using assms
    by (auto simp: handle_confirm_def Let_def
        split: sum.splits option.splits json.splits prod.splits cmd_exn.splits)
next
  case (ReqCancel hdr body)
  then show ?thesis
    using assms
    by (auto simp: handle_cancel_def split: sum.splits option.splits json.splits prod.splits cmd_exn.splits)
next
  case ReqHealthz
  then show ?thesis using assms by simp
qed

lemma handle_reach:
  assumes "service_reach E S expect provider trace w0 g w"
    and "handle token E S expect provider req (g, w) = Some (resp, g', w')"
  shows "service_reach E S expect provider trace w0 g' w'"
  using handle_step [OF assms(2)] assms(1)
  by (elim disjE exE) (auto intro: service_reach.intros)

section \<open>The running service\<close>

text \<open>
  The service on its world: requests of clients, interleaved with what the reader thread does with
  the messages that arrive.
\<close>


definition app_handle ::
  "commander_config \<Rightarrow> string option \<Rightarrow> http_request \<Rightarrow> gate \<times> world \<Rightarrow>
     (http_response \<times> gate \<times> world) option" where
  "app_handle c token =
     handle token world_env (to_settings c) (Some (cc_target_system c)) (Some heartbeat_provider)"

inductive app_reach :: "commander_config \<Rightarrow> string option \<Rightarrow> world \<Rightarrow> gate \<Rightarrow> world \<Rightarrow> bool"
  for c token W0
where
  boot: "app_reach c token W0 new_gate W0"
| request: "app_reach c token W0 g W \<Longrightarrow> app_handle c token req (g, W) = Some (resp, g', W') \<Longrightarrow>
    app_reach c token W0 g' W'"
| arrives: "app_reach c token W0 g W \<Longrightarrow> app_reach c token W0 g (reader_step t m W)"

lemma app_reach_service:
  "app_reach c token W0 g W \<Longrightarrow>
   service_reach world_env (to_settings c) (Some (cc_target_system c)) (Some heartbeat_provider) w_log W0 g W"
proof (induction rule: app_reach.induct)
  case boot
  show ?case by (rule service_reach.start)
next
  case (request g W req resp g' W')
  then show ?case unfolding app_handle_def by (auto intro: handle_reach)
next
  case (arrives g W t m)
  from arrives.IH show ?case by (rule service_reach.idle) simp
qed

lemma faithful_reader [simp]: "faithful (reader_step t m W) = faithful W"
  by (simp add: faithful_def)

text \<open>A run keeps what the environment's operations and the reader thread keep.\<close>

lemma handle_keeps:
  assumes "kept_env E J" "J w" "handle token E S expect provider req (g, w) = Some (resp, g', w')"
  shows "J w'"
  using handle_step [OF assms(3)] assms(2)
  by (elim disjE exE) (auto dest: kept_env.service_keeps [OF assms(1,2)])

lemma app_reach_keeps:
  assumes env: "kept_env world_env J" and reader: "\<And>t m W. J W \<Longrightarrow> J (reader_step t m W)"
  shows "app_reach c token W0 g W \<Longrightarrow> J W0 \<Longrightarrow> J W"
proof (induction rule: app_reach.induct)
  case (request g W req resp g' W')
  then show ?case unfolding app_handle_def by (blast intro: handle_keeps [OF env])
qed (auto intro: reader)

lemma app_reach_faithful: "app_reach c token W0 g W \<Longrightarrow> faithful W0 \<Longrightarrow> faithful W"
  by (rule app_reach_keeps [OF rig_faithful.kept_env_axioms]) simp_all

lemma app_reach_link:
  "app_reach c token W0 g W \<Longrightarrow> pu_link (w_pump W) = pu_link (w_pump W0)"
  by (rule app_reach_keeps [OF rig_link.kept_env_axioms [of "pu_link (w_pump W0)"], simplified]) simp_all

lemma boot_world_start:
  "boot_world c key clock epoch arrivals traffic lag disks radios = Inr W \<Longrightarrow>
   w_log W = [] \<and> faithful W \<and> link_signed (pu_link (w_pump W)) \<and> al_open (w_audit W)"
  by (auto simp: boot_world_def new_mav_link_def faithful_def pump_start_def new_pump_def
      audit_start_def new_audit_log_def link_signed_keeps)

text \<open>The service answers every request, in the time that the attempts of a command may take.\<close>

lemma app_handle_ends:
  assumes "lagging lo hi W"
  shows "\<exists>resp g' W'. app_handle c token req (g, W) = Some (resp, g', W') \<and>
    w_clock W' \<le> w_clock W + real (nat (cc_max_attempts c)) * (max 0 (cc_ack_timeout_s c) + hi)"
proof -
  let ?b = "w_clock W + real (nat (cc_max_attempts c)) * (max 0 (cc_ack_timeout_s c) + hi)"
  have b: "w_clock W \<le> ?b" using rig_timed.costs [OF assms] by simp
  have instant: "w_clock W' = w_clock W" if "w_record ev W = (r, W')" for ev r W'
    using that by (auto simp: w_record_def split: prod.splits)
  show ?thesis
  proof (cases req)
    case (ReqStage hdr body new_id)
    then show ?thesis using b
      by (auto simp: app_handle_def handle_stage_def service_stage_def world_env_def
          split: sum.split option.split json.split prod.split cmd_exn.split dest: instant)
  next
    case (ReqConfirm hdr body)
    show ?thesis
    proof (cases "guarded_body token hdr body")
      case (Inl resp)
      with b show ?thesis by (simp add: app_handle_def ReqConfirm handle_confirm_def)
    next
      case (Inr get)
      define force where "force = (case get ''force_ack'' of None \<Rightarrow> False | Some v \<Rightarrow> truthy v)"
      have handled: "app_handle c token req (g, W) =
          (case get ''confirmation_id'' of
             Some (JStr t) \<Rightarrow>
               (case service_confirm world_env (to_settings c) (Some (cc_target_system c)) (Some heartbeat_provider) t force g W of
                  None \<Rightarrow> None
                | Some (Inr out, g', w') \<Rightarrow> Some (Finished (if co_accepted out then 200 else 502) out, g', w')
                | Some (Inl (Refused e), g', w') \<Rightarrow> Some (Status (status_for e), g', w')
                | Some (Inl (Raised e), g', w') \<Rightarrow> Some (Unhandled e, g', w'))
           | _ \<Rightarrow> Some (Status 400, g, W))"
        unfolding app_handle_def ReqConfirm handle.simps handle_confirm_def Inr sum.case Let_def force_def ..
      show ?thesis
      proof (cases "\<exists>t. get ''confirmation_id'' = Some (JStr t)")
        case True
        then obtain t where t: "get ''confirmation_id'' = Some (JStr t)" ..
        obtain r g' W' where "service_confirm world_env (to_settings c) (Some (cc_target_system c)) (Some heartbeat_provider)
            t force g W = Some (r, g', W')" "w_clock W' \<le> ?b"
          using rig_timed.confirm_ends [OF assms, of "to_settings c"] by (fastforce simp: to_settings_def)
        then show ?thesis unfolding handled t by (auto split: sum.split cmd_exn.split)
      next
        case False
        then have "app_handle c token req (g, W) = Some (Status 400, g, W)"
          unfolding handled by (auto split: option.split json.split)
        with b show ?thesis by simp
      qed
    qed
  next
    case (ReqCancel hdr body)
    then show ?thesis using b
      by (auto simp: app_handle_def handle_cancel_def service_cancel_def world_env_def Let_def
          split: sum.split option.split json.split prod.split cmd_exn.split dest: instant)
  next
    case ReqHealthz
    with b show ?thesis by (simp add: app_handle_def)
  qed
qed

end
