(* ===== verification/Commander_Facts.thy ===== *)
theory Commander_Facts
  imports Commander_App
begin

text \<open>
  The properties of the command service as it is deployed, and one run of it on which they are
  applied: a vehicle that beats, a staged and confirmed arm command, and its acknowledgement.
\<close>

section \<open>A run\<close>

definition demo_config :: commander_config where
  "demo_config =
     \<lparr>cc_host = ''127.0.0.1'', cc_target_system = 1, cc_target_component = 1,
      cc_allowed = {''arm'', ''rtl''}, cc_allow_force_disarm = False, cc_ack_timeout_s = 2,
      cc_max_attempts = 3, cc_arm_report_max_age_s = 2\<rparr>"

definition demo_key :: bytes where "demo_key = replicate 32 7"

definition demo_boot :: world where
  "demo_boot =
     (case boot_world demo_config (Some demo_key) 0 1000 [(2, CommandAck (Inr 400) (Inr 0) (Inr 1))] (\<lambda>_. []) (\<lambda>_. 1 / 8) [] [] of
        Inr W \<Rightarrow> W)"

definition demo_ready :: world where
  "demo_ready = reader_step 1 (Heartbeat 1 1) demo_boot"

definition demo_after :: "http_request \<Rightarrow> gate \<times> world \<Rightarrow> gate \<times> world" where
  "demo_after req s = (case app_handle demo_config None req s of Some (_, g, W) \<Rightarrow> (g, W) | None \<Rightarrow> s)"

definition demo_staged :: "gate \<times> world" where
  "demo_staged = demo_after (ReqStage None (Some (JObj [(''name'', JStr ''arm'')])) ''t'') (new_gate, demo_ready)"

definition demo_done :: "gate \<times> world" where
  "demo_done = demo_after (ReqConfirm None (Some (JObj [(''confirmation_id'', JStr ''t'')]))) demo_staged"

definition demo_arm :: command_spec where
  "demo_arm = long_command ''arm'' 400 [Fin 1, Fin 0, Fin 0, Fin 0, Fin 0, Fin 0, Fin 0]"

lemma demo_boots:
  "boot_world demo_config (Some demo_key) 0 1000 [(2, CommandAck (Inr 400) (Inr 0) (Inr 1))] (\<lambda>_. []) (\<lambda>_. 1 / 8) [] [] = Inr demo_boot"
  by (simp add: demo_boot_def boot_world_def new_mav_link_def)

lemma demo_after_reach:
  assumes "app_reach demo_config None W0 (fst s) (snd s)"
  shows "app_reach demo_config None W0 (fst (demo_after req s)) (snd (demo_after req s))"
proof (cases "app_handle demo_config None req (fst s, snd s)")
  case (Some y)
  obtain resp g W where "y = (resp, g, W)" by (cases y)
  with Some app_reach.request [OF assms] show ?thesis by (simp add: demo_after_def)
qed (simp add: demo_after_def assms)

lemma demo_reach: "app_reach demo_config None demo_boot (fst demo_done) (snd demo_done)"
  unfolding demo_done_def demo_staged_def
  by (intro demo_after_reach) (simp add: demo_ready_def app_reach.boot app_reach.arrives)

lemma demo_log: "sends (w_log (snd demo_done)) = 1 \<and> length (w_wire (snd demo_done)) = 1"
  by code_simp

section \<open>What goes out\<close>

text \<open>C1: Whatever clients request and whatever the vehicle sends, from the start of the service on,
  every command that was transmitted is one that the configured allow-list builds, a force-disarm
  only where it is enabled; the MAVLink frames on the wire are exactly the encodings of the
  transmitted commands, in order; and the audit file holds exactly the events of the log.\<close>

theorem app_sends_only_allowed:
  assumes "boot_world c key clock epoch arrivals traffic lag disks radios = Inr W0" and "app_reach c token W0 g W"
  shows "(\<forall>s. Sent s \<in> set (w_log W) \<longrightarrow> buildable (to_settings c) s \<and> cs_name s \<in> cc_allowed c \<and>
      (cs_name s = ''force_disarm'' \<longrightarrow> cc_allow_force_disarm c)) \<and>
    map Inr (w_wire W) = map (mav_link_send (pu_link (w_pump W))) (sent_of (w_log W)) \<and>
    map snd (al_lines (w_audit W)) = records_of (w_log W)"
proof -
  note W0 = boot_world_start [OF assms(1)]
  have "faithful W" using app_reach_faithful [OF assms(2)] W0 by simp
  moreover have "buildable (to_settings c) s" if "Sent s \<in> set (w_log W)" for s
    using rig.service_reach_sent [OF app_reach_service [OF assms(2)]] that W0 by auto
  moreover have "cs_name s \<in> cc_allowed c \<and> (cs_name s = ''force_disarm'' \<longrightarrow> cc_allow_force_disarm c)"
    if "buildable (to_settings c) s" for s
  proof -
    obtain name params where b: "build_command name (to_settings c) params = Inr s"
      using \<open>buildable (to_settings c) s\<close> unfolding buildable_def by blast
    have "cs_name s = name" by (rule build_command_name [OF b])
    moreover have "name \<in> cc_allowed c" "name = ''force_disarm'' \<longrightarrow> cc_allow_force_disarm c"
      using b by (auto simp: to_settings_def elim: build_commandE)
    ultimately show ?thesis by blast
  qed
  ultimately show ?thesis unfolding faithful_def by blast
qed

theorem app_sends_only_allowed_witness:
  "\<exists>g W. app_reach demo_config None demo_boot g W \<and> length (w_wire W) = 1 \<and>
     (\<forall>s. Sent s \<in> set (w_log W) \<longrightarrow> buildable (to_settings demo_config) s \<and> cs_name s \<in> cc_allowed demo_config)"
  using app_sends_only_allowed [OF demo_boots demo_reach] demo_reach demo_log by blast

text \<open>C5: A confirmation transmits nothing, or it releases the command that was staged under its
  token, which is thereby consumed, with the acknowledgement a forced command needs; it is recorded
  as confirmed before anything is sent; and what follows is a supervised execution of that very
  command, which for an arm command the interlock permitted.\<close>

theorem confirm_sends_only_released:
  assumes "service_confirm world_env S expect provider token force g W = Some (r, g', W')"
  shows "\<exists>es. w_log W' = w_log W @ es \<and>
    (sends es = 0 \<or>
     (\<exists>spec es' r'. g token = Some spec \<and> (cs_requires_force_confirm spec \<longrightarrow> force) \<and>
        g' = g(token := None) \<and>
        es = Wrote (CommandConfirmed token (cs_name spec) force) # es' \<and>
        executed spec expect (max_attempts S) (nat (max_attempts S)) 1 None es' r' \<and>
        (cs_name spec = ''arm'' \<longrightarrow> fst (interlock world_env S provider W))))"
  by (rule rig.service_confirm_trace [OF assms])

lemma demo_confirm:
  "\<exists>r g' W'. service_confirm world_env (to_settings demo_config) (Some 1) (Some heartbeat_provider) ''t''
     False (new_gate(''t'' \<mapsto> demo_arm)) demo_ready = Some (r, g', W') \<and>
     sends (w_log W') = 1 \<and> sends (w_log demo_ready) = 0 \<and> w_log demo_ready = []"
proof -
  have "case service_confirm world_env (to_settings demo_config) (Some 1) (Some heartbeat_provider) ''t''
     False (new_gate(''t'' \<mapsto> demo_arm)) demo_ready of None \<Rightarrow> False | Some (r, g', W') \<Rightarrow> sends (w_log W') = 1"
    by code_simp
  moreover have "sends (w_log demo_ready) = 0 \<and> w_log demo_ready = []" by code_simp
  ultimately show ?thesis by (auto split: option.splits)
qed

theorem confirm_sends_only_released_witness:
  "\<exists>r g' W' es. service_confirm world_env (to_settings demo_config) (Some 1) (Some heartbeat_provider) ''t''
     False (new_gate(''t'' \<mapsto> demo_arm)) demo_ready = Some (r, g', W') \<and> w_log W' = es \<and> sends es = 1 \<and>
     (\<exists>spec es' r'. (new_gate(''t'' \<mapsto> demo_arm)) ''t'' = Some spec \<and>
        es = Wrote (CommandConfirmed ''t'' (cs_name spec) False) # es' \<and>
        executed spec (Some 1) 3 3 1 None es' r')"
proof -
  obtain r g' W' where c: "service_confirm world_env (to_settings demo_config) (Some 1)
      (Some heartbeat_provider) ''t'' False (new_gate(''t'' \<mapsto> demo_arm)) demo_ready = Some (r, g', W')"
    and s: "sends (w_log W') = 1" "w_log demo_ready = []" using demo_confirm by blast
  have m: "max_attempts (to_settings demo_config) = 3" by (simp add: to_settings_def demo_config_def)
  from confirm_sends_only_released [OF c] s(1)
  obtain spec es' r' where "(new_gate(''t'' \<mapsto> demo_arm)) ''t'' = Some spec"
    "w_log W' = Wrote (CommandConfirmed ''t'' (cs_name spec) False) # es'"
    "executed spec (Some 1) 3 3 1 None es' r'"
    unfolding m s(2) by auto
  with c s(1) show ?thesis by blast
qed

text \<open>C3: An arm command is transmitted only when the target vehicle's last heartbeat, at the
  moment of the confirmation, is no older than the health provider's and the interlock's limits.\<close>

theorem arm_needs_fresh_heartbeat:
  assumes "service_confirm world_env S expect (Some heartbeat_provider) token force g W = Some (r, g', W')"
    and "g token = Some spec" "cs_name spec = ''arm''" and "sends (w_log W) < sends (w_log W')"
  shows "\<exists>l. hb_last (w_health W) = Some l \<and> w_clock W - l \<le> hb_max_age_s (w_health W) \<and>
    w_clock W - l \<le> arm_report_max_age_s S"
proof -
  have "fst (interlock world_env S (Some heartbeat_provider) W)"
    using rig.service_confirm_trace [OF assms(1)] assms(2-4) by auto
  then show ?thesis
    by (simp add: interlock_def heartbeat_provider_def world_env_def arm_allowed_heartbeat)
qed

theorem arm_needs_fresh_heartbeat_witness:
  "\<exists>l. hb_last (w_health demo_ready) = Some l \<and> w_clock demo_ready - l \<le> 2"
proof -
  obtain r g' W' where c: "service_confirm world_env (to_settings demo_config) (Some 1)
      (Some heartbeat_provider) ''t'' False (new_gate(''t'' \<mapsto> demo_arm)) demo_ready = Some (r, g', W')"
    and s: "sends (w_log demo_ready) < sends (w_log W')" using demo_confirm by fastforce
  have "cs_name demo_arm = ''arm''" by (simp add: demo_arm_def long_command_def)
  from arm_needs_fresh_heartbeat [OF c _ this s] show ?thesis
    by (auto simp: to_settings_def demo_config_def)
qed

text \<open>C11: On a link with a signing key, signing is on from the start of the service in every
  reachable state, so no command is transmitted unsigned.\<close>

theorem app_link_stays_signed:
  assumes "boot_world c (Some key) clock epoch arrivals traffic lag disks radios = Inr W0" and "app_reach c token W0 g W"
  shows "ml_signing_key (pu_link (w_pump W)) = Some key \<and> ml_signing_on (pu_link (w_pump W))"
proof -
  have "pu_link (w_pump W) = pu_link (w_pump W0)" by (rule app_reach_link [OF assms(2)])
  then show ?thesis
    using assms(1) by (auto simp: boot_world_def new_mav_link_def pump_start_def new_pump_def mav_link_start_def Let_def)
qed

theorem app_link_stays_signed_witness:
  "ml_signing_on (pu_link (w_pump (snd demo_done))) \<and> length (w_wire (snd demo_done)) = 1"
  using app_link_stays_signed [OF demo_boots demo_reach] demo_log by blast

section \<open>Supervised execution\<close>

text \<open>C8: An execution transmits at most the configured number of times, each transmission right
  after the record of its attempt; and when it ends with an outcome, the events it caused are a run
  of the acknowledgement protocol (retry on silence or a temporary refusal, stop on acceptance or a
  definite refusal, fail after the last attempt).\<close>

theorem execution_follows_protocol:
  assumes "execute world_env S expect spec W = Some (r, W')"
  shows "\<exists>es. w_log W' = w_log W @ es \<and> sends es \<le> nat (max_attempts S) \<and> audited spec es \<and>
    (\<forall>out. r = Inr out \<longrightarrow> protocol spec expect (max_attempts S) (nat (max_attempts S)) 1 None es out)"
  using rig.execute_trace [OF assms] by (auto simp: executed_def)

lemma demo_execute:
  "\<exists>out W'. execute world_env (to_settings demo_config) (Some 1) demo_arm demo_ready = Some (Inr out, W') \<and>
     co_accepted out"
proof -
  have "case execute world_env (to_settings demo_config) (Some 1) demo_arm demo_ready of
      Some (Inr out, W') \<Rightarrow> co_accepted out | _ \<Rightarrow> False"
    by code_simp
  then show ?thesis by (auto split: option.splits sum.splits prod.splits)
qed

theorem execution_follows_protocol_witness:
  "\<exists>out es. co_accepted out \<and> protocol demo_arm (Some 1) 3 3 1 None es out"
proof -
  obtain out W' where e: "execute world_env (to_settings demo_config) (Some 1) demo_arm demo_ready = Some (Inr out, W')"
    "co_accepted out" using demo_execute by blast
  have m: "max_attempts (to_settings demo_config) = 3" by (simp add: to_settings_def demo_config_def)
  from execution_follows_protocol [OF e(1)] e(2) show ?thesis unfolding m by auto
qed

text \<open>C9: A command is reported as accepted only on an acknowledgement of that command, from the
  expected system, with the result ACCEPTED, received in this execution.\<close>

theorem accepted_needs_ack:
  assumes "execute world_env S expect spec W = Some (Inr out, W')" and "co_accepted out"
  shows "\<exists>es a. w_log W' = w_log W @ es @ [Got (Some a),
      Wrote (CommandAccepted (cs_command spec) (cs_name spec) (co_attempts out))] \<and>
    ack_command a = cs_command spec \<and> (\<forall>s. expect = Some s \<longrightarrow> ack_source_system a = s) \<and>
    ack_result a = MAV_RESULT_ACCEPTED"
proof -
  obtain es where es: "w_log W' = w_log W @ es"
    "protocol spec expect (max_attempts S) (nat (max_attempts S)) 1 None es out"
    using rig.execute_trace [OF assms(1)] by (auto simp: executed_def)
  from protocol_accepted [OF es(2) assms(2)] es(1) show ?thesis
    by (fastforce simp: ack_matches_def)
qed

theorem accepted_needs_ack_witness:
  "\<exists>a :: ack. ack_command a = 400 \<and> ack_source_system a = 1 \<and> ack_result a = MAV_RESULT_ACCEPTED"
proof -
  obtain out W' where "execute world_env (to_settings demo_config) (Some 1) demo_arm demo_ready = Some (Inr out, W')"
    "co_accepted out" using demo_execute by blast
  from accepted_needs_ack [OF this] show ?thesis by (auto simp: demo_arm_def long_command_def)
qed

text \<open>C25: Every request is answered, whatever the vehicle sends, however much of it and for however long, and
  whatever the disk and the radio do, provided that every wait for an acknowledgement costs some time, at least \<open>lo\<close>
  and at most \<open>hi\<close> beyond the wait itself.  The answer comes within the configured number of attempts, each of the
  configured timeout and one such cost; the time that the disk and the radio take is not counted.\<close>

theorem app_always_answers:
  assumes "0 < lo" "\<forall>k. lo \<le> w_lag W k \<and> w_lag W k \<le> hi"
  shows "\<exists>resp g' W'. app_handle c token req (g, W) = Some (resp, g', W') \<and>
    w_clock W' \<le> w_clock W + real (nat (cc_max_attempts c)) * (max 0 (cc_ack_timeout_s c) + hi)"
  by (rule app_handle_ends [of lo]) (use assms in \<open>simp add: lagging_def\<close>)

text \<open>A vehicle that acknowledges another command at every wait, for ever.\<close>

definition busy_world :: world where
  "busy_world = demo_ready\<lparr>w_arrivals := [], w_traffic := \<lambda>_. [(0, CommandAck (Inr 999) (Inr 0) (Inr 1))], w_lag := \<lambda>_. 1 / 2\<rparr>"

theorem app_always_answers_witness:
  "\<exists>resp g' W'. app_handle demo_config None (ReqConfirm None (Some (JObj [(''confirmation_id'', JStr ''t'')])))
      (new_gate(''t'' \<mapsto> demo_arm), busy_world) = Some (resp, g', W') \<and> w_clock W' \<le> w_clock busy_world + 15 / 2"
proof -
  have "(0 :: real) < 1 / 2" "\<forall>k. 1 / 2 \<le> w_lag busy_world k \<and> w_lag busy_world k \<le> 1 / 2" by (simp_all add: busy_world_def)
  from app_always_answers [OF this, of demo_config] show ?thesis by (simp add: demo_config_def)
qed

section \<open>Who may ask\<close>

text \<open>C39: A request that is not authorised is answered 401 and changes nothing.\<close>

theorem unauthorised_changes_nothing:
  assumes "\<not> authorize token hdr"
  shows "app_handle c token (ReqStage hdr body new_id) (g, W) = Some (Status 401, g, W) \<and>
    app_handle c token (ReqConfirm hdr body) (g, W) = Some (Status 401, g, W) \<and>
    app_handle c token (ReqCancel hdr body) (g, W) = Some (Status 401, g, W)"
  using assms
  by (simp add: app_handle_def handle_stage_def handle_confirm_def handle_cancel_def guarded_unauthorised)

theorem unauthorised_changes_nothing_witness:
  "app_handle demo_config (Some ''key'') (ReqConfirm (Some ''Bearer kex'') None) (new_gate, demo_ready) =
     Some (Status 401, new_gate, demo_ready)"
proof -
  have "\<not> authorize (Some ''key'') (Some ''Bearer kex'')" by code_simp
  from unauthorised_changes_nothing [OF this] show ?thesis by blast
qed

text \<open>With a token set, a request is authorised exactly when its header is the bearer scheme, in
  any case, and the token, up to surrounding white space; and a service that was allowed to bind
  beyond the loopback interface answers no request without a token.\<close>

theorem authorize_exactly_bearer:
  assumes "t \<noteq> []"
  shows "(authorize (Some t) h \<longleftrightarrow>
      (\<exists>scheme presented. h = Some (scheme @ CHR '' '' # presented) \<and> CHR '' '' \<notin> set scheme \<and>
         py_lower scheme = ''bearer'' \<and> py_strip presented = t)) \<and>
    (validate_bind host token = Inr () \<longrightarrow> is_loopback host \<or> \<not> authorize token None)"
  using authorize_token [OF assms] bound_closed by blast

theorem authorize_exactly_bearer_witness: "authorize (Some ''key'') (Some ''BEARER  key '')"
proof -
  have "''BEARER  key '' = ''BEARER'' @ CHR '' '' # '' key ''" "CHR '' '' \<notin> set ''BEARER''"
    "py_lower ''BEARER'' = ''bearer''" "py_strip '' key '' = ''key''" by code_simp+
  then show ?thesis using authorize_exactly_bearer [of "''key''" "Some ''BEARER  key ''"] by blast
qed

section \<open>Commands and confirmations\<close>

text \<open>A command is built only under its own name, when the allow-list has it, and is well
  formed for its wire kind; the magic number that disarms in flight is in the parameters only of an
  enabled force-disarm, which then needs the operator's acknowledgement.\<close>

theorem build_command_safe:
  assumes "build_command name S kw = Inr spec"
  shows "cs_name spec = name \<and> name \<in> allowed S \<and> spec_wf spec \<and>
    (cs_command spec = MAV_CMD_COMPONENT_ARM_DISARM \<and> FORCE_DISARM_MAGIC \<in> set (cs_params spec) \<longrightarrow>
       name = ''force_disarm'' \<and> allow_force_disarm S \<and> cs_requires_force_confirm spec)"
  using build_command_name [OF assms] build_command_wf [OF assms] build_command_magic [OF assms] assms
  by (auto simp: MAV_CMD_COMPONENT_ARM_DISARM_def elim: build_commandE)

theorem build_command_safe_witness: "\<exists>spec. build_command ''arm'' (to_settings demo_config) [] = Inr spec \<and> spec_wf spec"
proof -
  have b: "build_command ''arm'' (to_settings demo_config) [] = Inr demo_arm" by code_simp
  from build_command_safe [OF b] b show ?thesis by blast
qed

text \<open>In any sequence of stagings, confirmations and cancellations, a command is released only
  if it was staged under that token, and no token is released more often than it was staged.\<close>

theorem gate_releases_staged_once:
  "(\<forall>r \<in> set (released new_gate ops). r \<in> set (staged ops)) \<and>
   (\<forall>t. length (filter (\<lambda>r. fst r = t) (released new_gate ops)) \<le> length (filter (\<lambda>r. fst r = t) (staged ops)))"
  using released_was_staged [of _ _ new_gate ops] released_at_most_staged [of _ new_gate ops]
  by (auto simp: new_gate_def parked_def)

theorem gate_releases_staged_once_witness:
  "released new_gate [GStage ''t'' demo_arm, GConfirm ''t'' False, GConfirm ''t'' False] = [(''t'', demo_arm)] \<and>
   (''t'', demo_arm) \<in> set (staged [GStage ''t'' demo_arm, GConfirm ''t'' False, GConfirm ''t'' False])"
proof -
  let ?ops = "[GStage ''t'' demo_arm, GConfirm ''t'' False, GConfirm ''t'' False]"
  have "released new_gate ?ops = [(''t'', demo_arm)]" by code_simp
  then show ?thesis using gate_releases_staged_once [of ?ops] by simp
qed

end
