(* ===== verification/Crsf_RC.thy ===== *)
theory Crsf_RC
  imports Prelude
begin

unbundle bit_operations_syntax

text \<open>
  RC channel packing and the microsecond/tick mapping, \<^verbatim>\<open>meshsa/fpv/crsf/rc.py\<close>.  The
  accumulator is a Python integer and the bit operations are the code's; an index error of the
  unpacker is a branch of the model (and is proved not to happen).
\<close>

definition CH_MASK :: int where "CH_MASK = 0x7FF"

section \<open>Microseconds and ticks\<close>

definition us_to_ticks :: "real \<Rightarrow> int \<Rightarrow> int \<Rightarrow> int \<Rightarrow> int \<Rightarrow> int" where
  "us_to_ticks us us_min us_max ticks_min ticks_max =
     (let span_us = us_max - us_min
      in if span_us = 0 then ticks_min
         else
           let frac = (us - real_of_int us_min) / real_of_int span_us;
               tick = py_round (real_of_int ticks_min + frac * real_of_int (ticks_max - ticks_min))
           in max 0 (min 0x7FF tick))"

definition ticks_to_us :: "int \<Rightarrow> int \<Rightarrow> int \<Rightarrow> int \<Rightarrow> int \<Rightarrow> real" where
  "ticks_to_us tick us_min us_max ticks_min ticks_max =
     (let span_ticks = ticks_max - ticks_min
      in if span_ticks = 0 then real_of_int us_min
         else
           let frac = real_of_int (tick - ticks_min) / real_of_int span_ticks
           in real_of_int us_min + frac * real_of_int (us_max - us_min))"

lemma us_to_ticks_range:
  assumes "us_min \<noteq> us_max"
  shows "0 \<le> us_to_ticks us us_min us_max tmin tmax" "us_to_ticks us us_min us_max tmin tmax \<le> 2047"
  using assms by (simp_all add: us_to_ticks_def Let_def)

lemma us_ticks_inverse:
  assumes "us_min \<noteq> us_max" "tmin \<noteq> tmax" "0 \<le> t" "t \<le> 2047"
  shows "us_to_ticks (ticks_to_us t us_min us_max tmin tmax) us_min us_max tmin tmax = t"
proof -
  have nz: "real_of_int (tmax - tmin) \<noteq> 0" "real_of_int (us_max - us_min) \<noteq> 0"
    using assms by simp_all
  have "(ticks_to_us t us_min us_max tmin tmax - real_of_int us_min) / real_of_int (us_max - us_min)
     = real_of_int (t - tmin) / real_of_int (tmax - tmin)"
    using assms nz by (simp add: ticks_to_us_def Let_def)
  then have "real_of_int tmin
      + (ticks_to_us t us_min us_max tmin tmax - real_of_int us_min) / real_of_int (us_max - us_min)
        * real_of_int (tmax - tmin) = real_of_int t"
    using nz by simp
  then show ?thesis
    using assms by (simp add: us_to_ticks_def Let_def)
qed

lemma us_to_ticks_mono:
  assumes "us_min < us_max" "tmin \<le> tmax" "u \<le> v"
  shows "us_to_ticks u us_min us_max tmin tmax \<le> us_to_ticks v us_min us_max tmin tmax"
proof -
  have "(u - us_min) / real_of_int (us_max - us_min) * real_of_int (tmax - tmin)
     \<le> (v - us_min) / real_of_int (us_max - us_min) * real_of_int (tmax - tmin)"
    using assms by (intro mult_right_mono divide_right_mono) simp_all
  then have "py_round (tmin + (u - us_min) / real_of_int (us_max - us_min) * real_of_int (tmax - tmin))
     \<le> py_round (tmin + (v - us_min) / real_of_int (us_max - us_min) * real_of_int (tmax - tmin))"
    by (intro py_round_mono) simp
  then show ?thesis
    using assms by (simp add: us_to_ticks_def Let_def)
qed

section \<open>Packing\<close>

text \<open>The inner \<^verbatim>\<open>while nbits >= 8\<close> loop: the bytes it emits and the state it leaves.\<close>

fun flush_bytes :: "int \<Rightarrow> nat \<Rightarrow> bytes \<times> int \<times> nat" where
  "flush_bytes acc nbits =
     (if 8 \<le> nbits
      then case flush_bytes (drop_bit 8 acc) (nbits - 8) of
        (out, acc', nbits') \<Rightarrow> (word_of_int (acc AND 0xFF) # out, acc', nbits')
      else ([], acc, nbits))"

declare flush_bytes.simps [simp del]

fun pack_go :: "int list \<Rightarrow> int \<Rightarrow> nat \<Rightarrow> bytes" where
  "pack_go [] acc nbits = (if 0 < nbits then [word_of_int (acc AND 0xFF)] else [])"
| "pack_go (v # vs) acc nbits =
     (case flush_bytes (acc OR push_bit nbits (v AND CH_MASK)) (nbits + 11) of
        (out, acc', nbits') \<Rightarrow> out @ pack_go vs acc' nbits')"

definition pack_channels :: "int list \<Rightarrow> nat \<Rightarrow> int \<Rightarrow> bytes" where
  "pack_channels ticks count pad =
     pack_go (take count ticks @ replicate (count - length ticks) pad) 0 0"

section \<open>Unpacking\<close>

text \<open>The inner \<^verbatim>\<open>while nbits < 11\<close> loop reads bytes from the front of what is left.\<close>

fun fill_bits :: "bytes \<Rightarrow> int \<Rightarrow> nat \<Rightarrow> py_exn + (int \<times> nat \<times> bytes)" where
  "fill_bits [] acc nbits = (if nbits < 11 then Inl IndexError else Inr (acc, nbits, []))"
| "fill_bits (b # bs) acc nbits =
     (if nbits < 11 then fill_bits bs (acc OR push_bit nbits (uint b)) (nbits + 8)
      else Inr (acc, nbits, b # bs))"

fun unpack_go :: "nat \<Rightarrow> bytes \<Rightarrow> int \<Rightarrow> nat \<Rightarrow> py_exn + int list" where
  "unpack_go 0 bs acc nbits = Inr []"
| "unpack_go (Suc k) bs acc nbits =
     then_ok (fill_bits bs acc nbits) (\<lambda>(acc', nbits', bs').
       then_ok (unpack_go k bs' (drop_bit 11 acc') (nbits' - 11)) (\<lambda>channels.
         Inr ((acc' AND CH_MASK) # channels)))"

definition unpack_channels :: "bytes \<Rightarrow> nat \<Rightarrow> py_exn + int list" where
  "unpack_channels payload count =
     (let required = (count * 11 + 7) div 8
      in if length payload < required then Inl ValueError else unpack_go count payload 0 0)"

section \<open>What the accumulators hold\<close>

definition le_val :: "bytes \<Rightarrow> int" where
  "le_val bs = foldr (\<lambda>b v. uint b + 256 * v) bs 0"

definition chan_val :: "int list \<Rightarrow> int" where
  "chan_val vs = foldr (\<lambda>v acc. v mod 2048 + 2048 * acc) vs 0"

fun channels_of :: "nat \<Rightarrow> int \<Rightarrow> int list" where
  "channels_of 0 w = []"
| "channels_of (Suc k) w = (w mod 2048) # channels_of k (w div 2048)"

lemma le_val_simps [simp]: "le_val [] = 0" "le_val (b # bs) = uint b + 256 * le_val bs"
  by (simp_all add: le_val_def)

lemma le_val_append: "le_val (xs @ ys) = le_val xs + 256 ^ length xs * le_val ys"
  by (induction xs) (simp_all add: algebra_simps)

lemma le_val_nonneg: "0 \<le> le_val bs"
  by (induction bs) simp_all

lemma chan_val_simps [simp]: "chan_val [] = 0" "chan_val (v # vs) = v mod 2048 + 2048 * chan_val vs"
  by (simp_all add: chan_val_def)

lemma and_mask8: "(x :: int) AND 0xFF = x mod 256"
  using take_bit_eq_mask [of 8 x] by (simp add: take_bit_eq_mod mask_eq_exp_minus_1)

lemma and_mask11: "(x :: int) AND CH_MASK = x mod 2048"
  using take_bit_eq_mask [of 11 x] by (simp add: CH_MASK_def take_bit_eq_mod mask_eq_exp_minus_1)

lemma or_push_bit:
  assumes "0 \<le> acc" "acc < 2 ^ n"
  shows "(acc :: int) OR push_bit n v = acc + 2 ^ n * v"
proof -
  have "take_bit n acc = acc" using assms by (simp add: take_bit_int_eq_self)
  then show ?thesis
    using concat_bit_eq [of n acc v] by (simp add: concat_bit_def push_bit_eq_mult mult.commute)
qed

lemma uint_word_byte: "uint (word_of_int (x mod 256) :: byte) = x mod 256"
  by (simp add: uint_word_of_int)

lemma flush_bytes_inv:
  assumes "0 \<le> acc" "acc < 2 ^ nbits" "flush_bytes acc nbits = (out, acc', nbits')"
  shows "acc = le_val out + 2 ^ (8 * length out) * acc' \<and> 0 \<le> acc' \<and> acc' < 2 ^ nbits' \<and>
    nbits' < 8 \<and> nbits = 8 * length out + nbits'"
  using assms
proof (induction acc nbits arbitrary: out acc' nbits' rule: flush_bytes.induct)
  case (1 acc nbits)
  show ?case
  proof (cases "8 \<le> nbits")
    case True
    obtain out1 where out1: "flush_bytes (drop_bit 8 acc) (nbits - 8) = (out1, acc', nbits')"
        "out = word_of_int (acc mod 256) # out1"
      using "1.prems"(3) True by (auto simp: flush_bytes.simps [of acc nbits] and_mask8 split: prod.splits)
    have d: "drop_bit 8 acc = acc div 256" by (simp add: drop_bit_eq_div)
    have "(2 :: int) ^ nbits = 2 ^ (nbits - 8) * 256"
      using True by (simp flip: power_add [where a = "2 :: int" and n = 8, simplified])
    then have lt: "acc div 256 < 2 ^ (nbits - 8)"
      using "1.prems"(2) by (simp add: div_less_iff_less_mult)
    have IH: "acc div 256 = le_val out1 + 2 ^ (8 * length out1) * acc' \<and> 0 \<le> acc' \<and>
        acc' < 2 ^ nbits' \<and> nbits' < 8 \<and> nbits - 8 = 8 * length out1 + nbits'"
      using "1.IH" [OF True _ _ out1(1)] "1.prems"(1) lt d by simp
    have "acc = acc mod 256 + 256 * (acc div 256)" by simp
    also have "\<dots> = le_val out + 2 ^ (8 * length out) * acc'"
      using IH out1(2) by (simp add: uint_word_byte power_add algebra_simps)
    finally have "acc = le_val out + 2 ^ (8 * length out) * acc'" .
    moreover have "nbits = 8 * length out + nbits'" using IH True out1(2) by simp linarith
    ultimately show ?thesis using IH by blast
  next
    case False
    with "1.prems" show ?thesis by (auto simp: flush_bytes.simps [of acc nbits])
  qed
qed

lemma pack_go_value:
  assumes "0 \<le> acc" "acc < 2 ^ nbits" "nbits < 8"
  shows "le_val (pack_go vs acc nbits) = acc + 2 ^ nbits * chan_val vs \<and>
    length (pack_go vs acc nbits) = (nbits + 11 * length vs + 7) div 8"
  using assms
proof (induction vs arbitrary: acc nbits)
  case Nil
  have "acc < 256"
    using Nil power_strict_increasing [of nbits 8 "2 :: int"] by simp
  then have "acc mod 256 = acc" using Nil by simp
  with Nil show ?case using uint_word_byte [of acc] by (auto simp: and_mask8)
next
  case (Cons v vs)
  have "acc OR push_bit nbits (v AND CH_MASK) = acc + 2 ^ nbits * (v mod 2048)"
    using Cons.prems by (simp add: or_push_bit and_mask11)
  moreover have "acc + 2 ^ nbits * (v mod 2048) < 2 ^ (nbits + 11)"
  proof -
    have "v mod 2048 \<le> 2047" by simp
    then have "2 ^ nbits * (v mod 2048) \<le> 2 ^ nbits * 2047" by (intro mult_left_mono) simp_all
    moreover have "(2 :: int) ^ (nbits + 11) = 2 ^ nbits * 2048" by (simp add: power_add)
    ultimately show ?thesis using Cons.prems(2) by linarith
  qed
  moreover obtain out acc' nbits' where
    fl: "flush_bytes (acc + 2 ^ nbits * (v mod 2048)) (nbits + 11) = (out, acc', nbits')"
    by (cases "flush_bytes (acc + 2 ^ nbits * (v mod 2048)) (nbits + 11)")
  ultimately have inv: "acc + 2 ^ nbits * (v mod 2048) = le_val out + 2 ^ (8 * length out) * acc'"
      "0 \<le> acc'" "acc' < 2 ^ nbits'" "nbits' < 8" "nbits + 11 = 8 * length out + nbits'"
      and go: "pack_go (v # vs) acc nbits = out @ pack_go vs acc' nbits'"
    using flush_bytes_inv [OF _ _ fl] Cons.prems by auto
  have IH: "le_val (pack_go vs acc' nbits') = acc' + 2 ^ nbits' * chan_val vs"
      "length (pack_go vs acc' nbits') = (nbits' + 11 * length vs + 7) div 8"
    using Cons.IH [OF inv(2-4)] by simp_all
  have pow: "(256 :: int) ^ length out = 2 ^ (8 * length out)" by (simp add: power_mult)
  have "le_val (pack_go (v # vs) acc nbits)
      = le_val out + 2 ^ (8 * length out) * acc' + 2 ^ (8 * length out + nbits') * chan_val vs"
    unfolding go by (simp add: le_val_append IH pow power_add algebra_simps)
  also have "\<dots> = acc + 2 ^ nbits * chan_val (v # vs)"
    unfolding inv(5) [symmetric] inv(1) [symmetric] by (simp add: power_add algebra_simps)
  finally have val: "le_val (pack_go (v # vs) acc nbits) = acc + 2 ^ nbits * chan_val (v # vs)" .
  have "nbits + 11 * length (v # vs) + 7 = 8 * length out + (nbits' + 11 * length vs + 7)"
    using inv(5) by simp
  then have "length (pack_go (v # vs) acc nbits) = (nbits + 11 * length (v # vs) + 7) div 8"
    unfolding go by (simp add: IH(2))
  with val show ?case by blast
qed

lemma fill_bits_ok:
  assumes "0 \<le> acc" "acc < 2 ^ nbits" "11 \<le> 8 * length bs + nbits" "nbits < 19"
  shows "\<exists>acc' nbits' bs'. fill_bits bs acc nbits = Inr (acc', nbits', bs') \<and>
    acc' + 2 ^ nbits' * le_val bs' = acc + 2 ^ nbits * le_val bs \<and> 0 \<le> acc' \<and>
    acc' < 2 ^ nbits' \<and> 11 \<le> nbits' \<and> nbits' < 19 \<and> 8 * length bs' + nbits' = 8 * length bs + nbits"
  using assms
proof (induction bs acc nbits rule: fill_bits.induct)
  case (1 acc nbits)
  then show ?case by auto
next
  case (2 b bs acc nbits)
  show ?case
  proof (cases "nbits < 11")
    case True
    have eq: "acc OR push_bit nbits (uint b) = acc + 2 ^ nbits * uint b"
      using "2.prems" by (simp add: or_push_bit)
    have "2 ^ nbits * uint b \<le> 2 ^ nbits * 255"
      using byte_uint_lt [of b] by (intro mult_left_mono) (linarith | simp)+
    moreover have "(2 :: int) ^ (nbits + 8) = 2 ^ nbits * 256" by (simp add: power_add)
    ultimately have "acc + 2 ^ nbits * uint b < 2 ^ (nbits + 8)"
      using "2.prems"(2) by linarith
    then show ?thesis
      using "2.IH" [OF True] "2.prems" True
      by (auto simp: eq power_add algebra_simps)
  next
    case False
    with "2.prems" show ?thesis by auto
  qed
qed

lemma unpack_go_ok:
  assumes "0 \<le> acc" "acc < 2 ^ nbits" "11 * k \<le> 8 * length bs + nbits" "nbits < 8"
  shows "unpack_go k bs acc nbits = Inr (channels_of k (acc + 2 ^ nbits * le_val bs))"
  using assms
proof (induction k arbitrary: bs acc nbits)
  case (Suc k)
  obtain acc' nbits' bs' where fb: "fill_bits bs acc nbits = Inr (acc', nbits', bs')"
      "acc' + 2 ^ nbits' * le_val bs' = acc + 2 ^ nbits * le_val bs" "0 \<le> acc'"
      "acc' < 2 ^ nbits'" "11 \<le> nbits'" "nbits' < 19" "8 * length bs' + nbits' = 8 * length bs + nbits"
    using fill_bits_ok [of acc nbits bs] Suc.prems by auto
  have d: "drop_bit 11 acc' = acc' div 2048" by (simp add: drop_bit_eq_div)
  have pow: "(2 :: int) ^ nbits' = 2048 * 2 ^ (nbits' - 11)"
    using fb(5) power_add [of "2 :: int" 11 "nbits' - 11"] by simp
  let ?w = "acc' + 2 ^ nbits' * le_val bs'"
  have m: "?w mod 2048 = acc' mod 2048" and q: "?w div 2048 = acc' div 2048 + 2 ^ (nbits' - 11) * le_val bs'"
    by (simp_all add: pow mult.assoc)
  have "acc' div 2048 < 2 ^ (nbits' - 11)"
    using fb(4) pow by (simp add: div_less_iff_less_mult mult.commute)
  then have "unpack_go k bs' (acc' div 2048) (nbits' - 11) = Inr (channels_of k (?w div 2048))"
    unfolding q using Suc.prems fb by (intro Suc.IH) auto
  then show ?case
    by (simp add: fb(1) d and_mask11 m flip: fb(2))
qed simp

lemma channels_of_chan_val: "channels_of (length vs) (chan_val vs) = map (\<lambda>v. v mod 2048) vs"
  by (induction vs) simp_all

text \<open>The slots the packer fills.\<close>

definition padded :: "int list \<Rightarrow> nat \<Rightarrow> int \<Rightarrow> int list" where
  "padded ticks count pad = take count ticks @ replicate (count - length ticks) pad"

lemma length_padded [simp]: "length (padded ticks count pad) = count"
  by (simp add: padded_def)

lemma pack_channels_length: "length (pack_channels ticks count pad) = (count * 11 + 7) div 8"
  using pack_go_value [of 0 0 "padded ticks count pad"]
  by (simp add: pack_channels_def padded_def [symmetric] mult.commute)

lemma unpack_pack:
  "unpack_channels (pack_channels ticks count pad) count =
     Inr (map (\<lambda>v. v mod 2048) (padded ticks count pad))"
proof -
  let ?vs = "padded ticks count pad" and ?b = "pack_channels ticks count pad"
  have val: "le_val ?b = chan_val ?vs"
    using pack_go_value [of 0 0 ?vs] by (simp add: pack_channels_def padded_def)
  have "11 * count \<le> 8 * length ?b" by (simp add: pack_channels_length)
  then have "unpack_go count ?b 0 0 = Inr (channels_of count (le_val ?b))"
    using unpack_go_ok [of 0 0 count ?b] by simp
  then show ?thesis
    using channels_of_chan_val [of ?vs] by (simp add: unpack_channels_def pack_channels_length val)
qed

lemma unpack_total:
  assumes "(count * 11 + 7) div 8 \<le> length payload"
  shows "unpack_channels payload count = Inr (channels_of count (le_val payload))"
  using assms unpack_go_ok [of 0 0 count payload] by (simp add: unpack_channels_def)

lemma channels_of_range: "c \<in> set (channels_of k w) \<Longrightarrow> 0 \<le> c \<and> c < 2048"
  by (induction k arbitrary: w) auto

lemma length_channels_of [simp]: "length (channels_of k w) = k"
  by (induction k arbitrary: w) auto

text \<open>
  The channel codec of a link with \<open>count\<close> channels: a channel value loses what is above its
  eleven bits, and missing channels come back as the padding value.
\<close>

interpretation rc_codec:
  wire_codec "\<lambda>ticks. (Inr (pack_channels ticks 16 pad) :: py_exn + bytes)"
    "\<lambda>payload. unpack_channels payload 16" "\<lambda>ticks. True"
    "\<lambda>ticks. map (\<lambda>v. v mod 2048) (padded ticks 16 pad)" for pad
  by unfold_locales (auto simp: unpack_pack)

end
