(* ===== verification/Crsf_Link.thy ===== *)
theory Crsf_Link
  imports Crsf_Frame Crsf_RC
begin

text \<open>
  The half-duplex CRSF serial link, \<^verbatim>\<open>meshsa/fpv/crsf/link.py\<close>, and the interface \<open>rc_link\<close>
  that it provides to whoever sends RC channels.  The serial port is outside the model: \<open>send_rc\<close>
  returns the bytes it hands to \<^verbatim>\<open>serial.write\<close> as its last action, and \<open>poll_inbound\<close> takes the
  chunk that \<^verbatim>\<open>serial.read\<close> returned.  A port that is not open is a branch of both.
\<close>

section \<open>Settings and state\<close>

record crsf_link_settings =
  crsf_address :: int
  echo_dedupe_len :: nat
  crsf_max_frame_len :: int
  rc_channel_count :: nat
  rc_us_min :: int
  rc_us_max :: int
  rc_ticks_min :: int
  rc_ticks_max :: int

definition default_crsf_link_settings :: crsf_link_settings where
  "default_crsf_link_settings =
     \<lparr>crsf_address = 0xEA, echo_dedupe_len = 16, crsf_max_frame_len = 64, rc_channel_count = 16,
      rc_us_min = 988, rc_us_max = 2012, rc_ticks_min = 172, rc_ticks_max = 1811\<rparr>"

record crsf_link =
  cl_open :: bool
  cl_buffer :: bytes
  cl_recent_tx :: "bytes list"
  cl_center_tick :: int
  echoes_suppressed :: nat
  crc_errors :: nat
  frames_received :: nat

definition to_ticks :: "crsf_link_settings \<Rightarrow> real \<Rightarrow> int" where
  "to_ticks S us = us_to_ticks us (rc_us_min S) (rc_us_max S) (rc_ticks_min S) (rc_ticks_max S)"

definition new_link :: "crsf_link_settings \<Rightarrow> bool \<Rightarrow> crsf_link" where
  "new_link S injected =
     \<lparr>cl_open = injected, cl_buffer = [], cl_recent_tx = [],
      cl_center_tick = to_ticks S ((real_of_int (rc_us_min S) + real_of_int (rc_us_max S)) / 2),
      echoes_suppressed = 0, crc_errors = 0, frames_received = 0\<rparr>"

definition link_open :: "crsf_link \<Rightarrow> crsf_link" where
  "link_open L = L\<lparr>cl_open := True\<rparr>"

definition link_close :: "crsf_link \<Rightarrow> crsf_link" where
  "link_close L = L\<lparr>cl_open := False\<rparr>"

section \<open>Operations\<close>

definition rc_frame :: "crsf_link_settings \<Rightarrow> crsf_link \<Rightarrow> int list \<Rightarrow> crsf_frame" where
  "rc_frame S L channels =
     (let ticks = map (\<lambda>us. to_ticks S (real_of_int us)) channels
      in \<lparr>cf_addr = crsf_address S, cf_type = RC_CHANNELS_PACKED,
          cf_payload = pack_channels ticks (rc_channel_count S) (cl_center_tick L)\<rparr>)"

text \<open>The frame joins the echo filter before the port is asked for.\<close>

definition link_send_rc ::
  "crsf_link_settings \<Rightarrow> int list \<Rightarrow> crsf_link \<Rightarrow> (py_exn + bytes) \<times> crsf_link" where
  "link_send_rc S channels L =
     (case to_bytes (rc_frame S L channels) of
        Inl e \<Rightarrow> (Inl e, L)
      | Inr w \<Rightarrow>
          let L' = L\<lparr>cl_recent_tx := deque_append (echo_dedupe_len S) (cl_recent_tx L) w\<rparr>
          in if cl_open L' then (Inr w, L') else (Inl RuntimeError, L'))"

definition is_echo :: "crsf_link_settings \<Rightarrow> crsf_link \<Rightarrow> crsf_frame \<Rightarrow> py_exn + bool" where
  "is_echo S L frame =
     (if cf_type frame = RC_CHANNELS_PACKED \<and> cf_addr frame = crsf_address S then Inr True
      else then_ok (to_bytes frame) (\<lambda>w. Inr (w \<in> set (cl_recent_tx L))))"

text \<open>The loop over the extracted frames: the frames kept and the echoes counted.\<close>

fun filter_echoes ::
  "crsf_link_settings \<Rightarrow> crsf_link \<Rightarrow> crsf_frame list \<Rightarrow> crsf_frame list \<Rightarrow> (py_exn + crsf_frame list) \<times> crsf_link"
where
  "filter_echoes S L [] result = (Inr result, L)"
| "filter_echoes S L (frame # frames) result =
     (case is_echo S L frame of
        Inl e \<Rightarrow> (Inl e, L)
      | Inr True \<Rightarrow>
          filter_echoes S (L\<lparr>echoes_suppressed := Suc (echoes_suppressed L)\<rparr>) frames result
      | Inr False \<Rightarrow> filter_echoes S L frames (result @ [frame]))"

definition poll_inbound ::
  "crsf_link_settings \<Rightarrow> bytes \<Rightarrow> crsf_link \<Rightarrow> (py_exn + crsf_frame list) \<times> crsf_link" where
  "poll_inbound S chunk L =
     (if \<not> cl_open L then (Inl RuntimeError, L)
      else
        case extract_frames (crsf_max_frame_len S) SYNC_ADDRESSES (cl_buffer L @ chunk) of
          (frames, rest, errs) \<Rightarrow>
            let L1 = L\<lparr>cl_buffer := rest, crc_errors := crc_errors L + errs\<rparr>
            in case filter_echoes S L1 frames [] of
                 (Inl e, L2) \<Rightarrow> (Inl e, L2)
               | (Inr result, L2) \<Rightarrow>
                   (Inr result, L2\<lparr>frames_received := frames_received L2 + length result\<rparr>))"

section \<open>The echo filter\<close>

definition echo :: "crsf_link_settings \<Rightarrow> crsf_link \<Rightarrow> crsf_frame \<Rightarrow> bool" where
  "echo S L frame \<longleftrightarrow>
     cf_type frame = RC_CHANNELS_PACKED \<and> cf_addr frame = crsf_address S \<or>
     wire frame \<in> set (cl_recent_tx L)"

lemma is_echo_wf: "frame_wf f \<Longrightarrow> is_echo S L f = Inr (echo S L f)"
  by (auto simp: is_echo_def echo_def to_bytes_wf)

lemma echo_count_irrelevant [simp]: "echo S (L\<lparr>echoes_suppressed := n\<rparr>) = echo S L"
  by (simp add: echo_def fun_eq_iff)

lemma filter_echoes_wf:
  "list_all frame_wf frames \<Longrightarrow>
   filter_echoes S L frames result =
     (Inr (result @ filter (\<lambda>f. \<not> echo S L f) frames),
      L\<lparr>echoes_suppressed := echoes_suppressed L + length (filter (echo S L) frames)\<rparr>)"
  by (induction frames arbitrary: L result) (simp_all add: is_echo_wf)

lemma extracted_wf:
  "extract_frames m sync buf = (fs, rest, errs) \<Longrightarrow> list_all frame_wf fs"
  by (auto simp: list_all_iff dest: extract_sound)

text \<open>A poll never raises on an open port, and this is all that it does.\<close>

lemma poll_inbound_open:
  assumes "cl_open L"
    and "extract_frames (crsf_max_frame_len S) SYNC_ADDRESSES (cl_buffer L @ chunk) = (fs, rest, errs)"
  shows "poll_inbound S chunk L =
    (Inr (filter (\<lambda>f. \<not> echo S L f) fs),
     L\<lparr>cl_buffer := rest, crc_errors := crc_errors L + errs,
       echoes_suppressed := echoes_suppressed L + length (filter (echo S L) fs),
       frames_received := frames_received L + length (filter (\<lambda>f. \<not> echo S L f) fs)\<rparr>)"
proof -
  have "echo S (L\<lparr>cl_buffer := rest, crc_errors := crc_errors L + errs\<rparr>) = echo S L"
    by (simp add: echo_def fun_eq_iff)
  then show ?thesis
    using assms extracted_wf [OF assms(2)] by (simp add: poll_inbound_def filter_echoes_wf)
qed

section \<open>Sending\<close>

definition link_ok :: "crsf_link_settings \<Rightarrow> bool" where
  "link_ok S \<longleftrightarrow> 0 \<le> crsf_address S \<and> crsf_address S < 256 \<and> rc_channel_count S \<le> 184 \<and>
     rc_us_min S < rc_us_max S \<and> rc_ticks_min S \<le> rc_ticks_max S"

lemma default_link_ok: "link_ok default_crsf_link_settings"
  by (simp add: link_ok_def default_crsf_link_settings_def)

lemma rc_frame_wf: "link_ok S \<Longrightarrow> frame_wf (rc_frame S L channels)"
proof -
  assume ok: "link_ok S"
  then have "rc_channel_count S \<le> 184" by (simp add: link_ok_def)
  then have "(rc_channel_count S * 11 + 7) div 8 \<le> 253" by linarith
  with ok show ?thesis
    by (simp add: link_ok_def frame_wf_def rc_frame_def pack_channels_length RC_CHANNELS_PACKED_def Let_def)
qed

lemma link_send_ok:
  assumes "link_ok S" "cl_open L"
  shows "link_send_rc S channels L =
    (Inr (wire (rc_frame S L channels)),
     L\<lparr>cl_recent_tx := deque_append (echo_dedupe_len S) (cl_recent_tx L) (wire (rc_frame S L channels))\<rparr>)"
  using assms by (simp add: link_send_rc_def to_bytes_wf rc_frame_wf)

lemma link_send_Inr:
  assumes "link_send_rc S channels L = (Inr w, L')"
  shows "frame_wf (rc_frame S L channels) \<and> w = wire (rc_frame S L channels)"
  using assms
  by (auto simp: link_send_rc_def Let_def to_bytes_Inr_iff split: sum.splits if_splits)

text \<open>What the receiver of a frame makes of it.\<close>

definition received_ticks :: "nat \<Rightarrow> bytes \<Rightarrow> int list option" where
  "received_ticks count w =
     (case from_bytes w of
        Inl _ \<Rightarrow> None
      | Inr f \<Rightarrow> (case unpack_channels (cf_payload f) count of Inl _ \<Rightarrow> None | Inr ts \<Rightarrow> Some ts))"

lemma to_ticks_range:
  assumes "link_ok S" shows "0 \<le> to_ticks S u" "to_ticks S u \<le> 2047"
  using assms us_to_ticks_range [of "rc_us_min S" "rc_us_max S"]
  by (simp_all add: link_ok_def to_ticks_def)

lemma to_ticks_mono: "link_ok S \<Longrightarrow> u \<le> v \<Longrightarrow> to_ticks S u \<le> to_ticks S v"
  by (simp add: link_ok_def to_ticks_def us_to_ticks_mono)

lemma received_ticks_sent:
  assumes "link_ok S" and "link_send_rc S channels L = (Inr w, L')"
  shows "received_ticks (rc_channel_count S) w =
    Some (map (\<lambda>v. v mod 2048)
      (padded (map (\<lambda>us. to_ticks S (real_of_int us)) channels) (rc_channel_count S) (cl_center_tick L)))"
proof -
  have "frame_wf (rc_frame S L channels)" "w = wire (rc_frame S L channels)"
    using link_send_Inr [OF assms(2)] by simp_all
  then show ?thesis
    by (simp add: received_ticks_def from_bytes_wire) (simp add: rc_frame_def Let_def unpack_pack)
qed

lemma received_channel:
  assumes "link_ok S" and "link_send_rc S channels L = (Inr w, L')"
    and "i < length channels" "i < rc_channel_count S"
  shows "\<exists>ts. received_ticks (rc_channel_count S) w = Some ts \<and> length ts = rc_channel_count S \<and>
    ts ! i = to_ticks S (real_of_int (channels ! i))"
  using assms to_ticks_range [OF assms(1), of "real_of_int (channels ! i)"]
  by (simp add: received_ticks_sent padded_def nth_append)

section \<open>The interface of an RC link\<close>

text \<open>
  \<^verbatim>\<open>meshsa.fpv.protocols.RCLink\<close>: something that takes channels in microseconds and puts them on
  the air.  \<open>seen c out\<close> is what the receiver reads off an output, \<open>slots\<close> how many channels a frame
  carries and \<open>level\<close> the received value of a channel; a higher pulse is never received as a lower
  level.
\<close>

locale rc_link =
  fixes cfg_ok :: "'c \<Rightarrow> bool"
    and send :: "'c \<Rightarrow> int list \<Rightarrow> 'w \<Rightarrow> (py_exn + 'o) \<times> 'w"
    and seen :: "'c \<Rightarrow> 'o \<Rightarrow> int list option"
    and slots :: "'c \<Rightarrow> nat"
    and level :: "'c \<Rightarrow> int \<Rightarrow> int"
  assumes sent_seen: "cfg_ok c \<Longrightarrow> send c chans w = (Inr out, w') \<Longrightarrow> i < length chans \<Longrightarrow>
      i < slots c \<Longrightarrow> \<exists>ts. seen c out = Some ts \<and> i < length ts \<and> ts ! i = level c (chans ! i)"
    and level_mono: "cfg_ok c \<Longrightarrow> u \<le> v \<Longrightarrow> level c u \<le> level c v"

interpretation crsf_rc: rc_link link_ok link_send_rc "\<lambda>S. received_ticks (rc_channel_count S)"
  rc_channel_count "\<lambda>S us. to_ticks S (real_of_int us)"
  by unfold_locales (use received_channel in fastforce, simp add: to_ticks_mono)

end
