(* ===== verification/Arm_Guard.thy ===== *)
theory Arm_Guard
  imports Crsf_Link Link_Health
begin

text \<open>
  The pre-flight arm guard, \<^verbatim>\<open>meshsa/fpv/arm_guard.py\<close>: an RC link around another RC link, that
  clamps the arm channel until a fresh health report permits arming and does not intervene once an
  armed frame has passed.  The inner link is any function of the shape of the locale \<open>rc_link\<close>,
  and the event sink any callback on the same world; either may raise.
\<close>

section \<open>Model\<close>

record arm_guard_settings =
  arm_channel_index :: int
  arm_threshold_us :: int
  arm_guard_report_max_age_s :: real
  arm_clamp_us :: int

definition default_arm_guard_settings :: arm_guard_settings where
  "default_arm_guard_settings =
     \<lparr>arm_channel_index = 4, arm_threshold_us = 1500, arm_guard_report_max_age_s = 1,
      arm_clamp_us = 1000\<rparr>"

record arm_guard =
  latched :: bool
  last_report :: "health_report option"

definition new_guard :: arm_guard where
  "new_guard = \<lparr>latched = False, last_report = None\<rparr>"

record arm_blocked =
  attempted_us :: int
  clamped_to_us :: int
  ab_health_state :: "health_state option"
  ab_report_reasons :: "string list"

datatype guard_exn = ArmGuardError | GuardRaised py_exn

definition update_health :: "health_report \<Rightarrow> arm_guard \<Rightarrow> arm_guard" where
  "update_health report g = g\<lparr>last_report := Some report\<rparr>"

definition guard_arm_allowed :: "arm_guard_settings \<Rightarrow> real \<Rightarrow> arm_guard \<Rightarrow> bool" where
  "guard_arm_allowed S now g =
     (case last_report g of
        None \<Rightarrow> False
      | Some report \<Rightarrow>
          now - t_mono report \<le> arm_guard_report_max_age_s S \<and> arm_permitted report)"

definition blocked_event :: "arm_guard_settings \<Rightarrow> arm_guard \<Rightarrow> int \<Rightarrow> arm_blocked" where
  "blocked_event S g attempted =
     \<lparr>attempted_us = attempted, clamped_to_us = arm_clamp_us S,
      ab_health_state = map_option hr_state (last_report g),
      ab_report_reasons = (case last_report g of None \<Rightarrow> [] | Some r \<Rightarrow> reasons r)\<rparr>"

type_synonym ('w, 'o) inner_link = "int list \<Rightarrow> 'w \<Rightarrow> (py_exn + 'o) \<times> 'w"
type_synonym 'w event_sink = "arm_blocked \<Rightarrow> 'w \<Rightarrow> (py_exn + unit) \<times> 'w"

definition emit_blocked ::
  "'w event_sink option \<Rightarrow> arm_guard_settings \<Rightarrow> arm_guard \<Rightarrow> int \<Rightarrow> 'w \<Rightarrow> (py_exn + unit) \<times> 'w" where
  "emit_blocked sink S g attempted w =
     (case sink of None \<Rightarrow> (Inr (), w) | Some on_event \<Rightarrow> on_event (blocked_event S g attempted) w)"

text \<open>A raise of the inner link leaves the guard as it is at that point.\<close>

definition forward ::
  "('w, 'o) inner_link \<Rightarrow> int list \<Rightarrow> arm_guard \<Rightarrow> 'w \<Rightarrow> (guard_exn + 'o) \<times> arm_guard \<times> 'w" where
  "forward inner chans g w =
     (case inner chans w of
        (Inl e, w') \<Rightarrow> (Inl (GuardRaised e), g, w')
      | (Inr out, w') \<Rightarrow> (Inr out, g, w'))"

definition guard_send_rc ::
  "arm_guard_settings \<Rightarrow> ('w, 'o) inner_link \<Rightarrow> 'w event_sink option \<Rightarrow> real \<Rightarrow> int list \<Rightarrow>
     arm_guard \<Rightarrow> 'w \<Rightarrow> (guard_exn + 'o) \<times> arm_guard \<times> 'w" where
  "guard_send_rc S inner sink now channels g w =
     (let idx = arm_channel_index S
      in if int (length channels) \<le> idx then (Inl ArmGuardError, g, w)
         else
           case py_index channels idx of
             Inl e \<Rightarrow> (Inl (GuardRaised e), g, w)
           | Inr arm_us \<Rightarrow>
               let wants_arm = arm_threshold_us S \<le> arm_us
               in if latched g then
                    (if \<not> wants_arm then forward inner channels (g\<lparr>latched := False\<rparr>) w
                     else forward inner channels g w)
                  else if \<not> wants_arm then forward inner channels g w
                  else if guard_arm_allowed S now g then
                    forward inner channels (g\<lparr>latched := True\<rparr>) w
                  else
                    case py_store channels idx (arm_clamp_us S) of
                      Inl e \<Rightarrow> (Inl (GuardRaised e), g, w)
                    | Inr chans \<Rightarrow>
                        case emit_blocked sink S g arm_us w of
                          (Inl e, w1) \<Rightarrow> (Inl (GuardRaised e), g, w1)
                        | (Inr _, w1) \<Rightarrow> forward inner chans g w1)"

section \<open>What the guard decides\<close>

definition arm_pos :: "arm_guard_settings \<Rightarrow> int list \<Rightarrow> nat option" where
  "arm_pos S channels =
     (if int (length channels) \<le> arm_channel_index S then None else py_pos channels (arm_channel_index S))"

definition arm_high :: "arm_guard_settings \<Rightarrow> int list \<Rightarrow> bool" where
  "arm_high S channels =
     (case arm_pos S channels of None \<Rightarrow> False | Some i \<Rightarrow> arm_threshold_us S \<le> channels ! i)"

lemma forward_guard [simp]: "fst (snd (forward inner chans g w)) = g"
  by (simp add: forward_def split: prod.split sum.split)

lemma emit_blocked_cases:
  obtains (raises) e w1 where "emit_blocked sink S g a w = (Inl e, w1)"
  | (ok) w1 where "emit_blocked sink S g a w = (Inr (), w1)"
  by (cases "emit_blocked sink S g a w") (metis old.unit.exhaust sum.exhaust prod.collapse)

text \<open>The state of the guard after a send depends on neither the inner link nor the sink.\<close>

lemma guard_after_send:
  "fst (snd (guard_send_rc S inner sink now channels g w)) =
     (case arm_pos S channels of
        None \<Rightarrow> g
      | Some i \<Rightarrow> g\<lparr>latched := arm_high S channels \<and> (latched g \<or> guard_arm_allowed S now g)\<rparr>)"
proof (cases "arm_pos S channels")
  case None
  then show ?thesis
    by (auto simp: guard_send_rc_def arm_pos_def py_index_def Let_def split: if_splits)
next
  case (Some i)
  then have i: "py_pos channels (arm_channel_index S) = Some i"
    "\<not> int (length channels) \<le> arm_channel_index S"
    by (auto simp: arm_pos_def split: if_splits)
  show ?thesis
    by (rule emit_blocked_cases [of sink S g "channels ! i" w])
      (auto simp: guard_send_rc_def i Some py_index_def py_store_def arm_high_def Let_def)
qed

text \<open>What reaches the inner link: nothing, the frame itself, or the clamped frame.\<close>

lemma guard_passes:
  assumes "arm_pos S channels = Some i" "latched g \<or> \<not> arm_high S channels \<or> guard_arm_allowed S now g"
  shows "guard_send_rc S inner sink now channels g w =
    forward inner channels (g\<lparr>latched := arm_high S channels\<rparr>) w"
  using assms
  by (cases g) (auto simp: guard_send_rc_def arm_pos_def py_index_def arm_high_def Let_def split: if_splits)

lemma guard_clamps:
  assumes "arm_pos S channels = Some i" "\<not> latched g" "arm_high S channels"
    "\<not> guard_arm_allowed S now g"
  shows "guard_send_rc S inner sink now channels g w =
    (case emit_blocked sink S g (channels ! i) w of
       (Inl e, w1) \<Rightarrow> (Inl (GuardRaised e), g, w1)
     | (Inr _, w1) \<Rightarrow> forward inner (channels[i := arm_clamp_us S]) g w1)"
  using assms
  by (auto simp: guard_send_rc_def arm_pos_def py_index_def py_store_def arm_high_def Let_def
      split: if_splits)

lemma guard_rejects:
  assumes "arm_pos S channels = None"
  shows "\<exists>e. guard_send_rc S inner sink now channels g w = (Inl e, g, w)"
  using assms
  by (auto simp: guard_send_rc_def arm_pos_def py_index_def Let_def split: if_splits)

lemma arm_pos_lt: "arm_pos S channels = Some i \<Longrightarrow> i < length channels"
  by (auto simp: arm_pos_def dest: py_pos_lt split: if_splits)

text \<open>
  A frame the inner link accepted: either the guard is latched after it and the frame is the
  caller's, or its arm channel is below the threshold.
\<close>

definition clamp_ok :: "arm_guard_settings \<Rightarrow> bool" where
  "clamp_ok S \<longleftrightarrow> arm_clamp_us S < arm_threshold_us S"

lemma guard_output:
  assumes "clamp_ok S" and "guard_send_rc S inner sink now channels g w = (Inr out, g', w')"
  shows "\<exists>i chans w1. arm_pos S channels = Some i \<and> inner chans w1 = (Inr out, w') \<and>
    length chans = length channels \<and> (\<forall>j. j \<noteq> i \<longrightarrow> chans ! j = channels ! j) \<and>
    (if latched g' then chans = channels else chans ! i < arm_threshold_us S)"
proof (cases "arm_pos S channels")
  case None
  then show ?thesis using guard_rejects [OF None, of inner sink now g w] assms(2) by simp
next
  case (Some i)
  note lt = arm_pos_lt [OF Some]
  show ?thesis
  proof (cases "latched g \<or> \<not> arm_high S channels \<or> guard_arm_allowed S now g")
    case True
    with assms(2) guard_passes [OF Some True, of inner sink w]
    have "inner channels w = (Inr out, w')" "g' = g\<lparr>latched := arm_high S channels\<rparr>"
      by (auto simp: forward_def split: prod.splits sum.splits)
    moreover have "channels ! i < arm_threshold_us S" if "\<not> latched g'"
      using that \<open>g' = _\<close> Some by (simp add: arm_high_def)
    ultimately show ?thesis
      using Some by (intro exI [of _ i] exI [of _ channels] exI [of _ w]) simp
  next
    case False
    then have "\<not> latched g" "arm_high S channels" "\<not> guard_arm_allowed S now g" by simp_all
    note clamps = guard_clamps [OF Some this, of inner sink w]
    obtain w1 where "inner (channels[i := arm_clamp_us S]) w1 = (Inr out, w')" "g' = g"
      using assms(2) unfolding clamps by (auto simp: forward_def split: prod.splits sum.splits)
    moreover have "(channels[i := arm_clamp_us S]) ! i < arm_threshold_us S"
      using lt assms(1) by (simp add: clamp_ok_def)
    moreover have "\<forall>j. j \<noteq> i \<longrightarrow> (channels[i := arm_clamp_us S]) ! j = channels ! j" by simp
    moreover have "\<not> latched g" using False by simp
    ultimately show ?thesis
      using Some by (intro exI [of _ i] exI [of _ "channels[i := arm_clamp_us S]"] exI [of _ w1]) simp
  qed
qed

section \<open>Runs\<close>

datatype guard_op = GReport health_report | GSend real "int list"

fun guard_step :: "arm_guard_settings \<Rightarrow> arm_guard \<Rightarrow> guard_op \<Rightarrow> arm_guard" where
  "guard_step S g (GReport r) = update_health r g"
| "guard_step S g (GSend now channels) =
     fst (snd (guard_send_rc S (\<lambda>c w. (Inr (), w)) None now channels g ()))"

definition guard_run :: "arm_guard_settings \<Rightarrow> guard_op list \<Rightarrow> arm_guard" where
  "guard_run S ops = foldl (guard_step S) new_guard ops"

lemma guard_step_send:
  "guard_step S g (GSend now channels) = fst (snd (guard_send_rc S inner sink now channels g w))"
  by (simp add: guard_after_send)

lemma guard_run_snoc: "guard_run S (ops @ [x]) = guard_step S (guard_run S ops) x"
  by (simp add: guard_run_def)

fun reports_of :: "guard_op list \<Rightarrow> health_report list" where
  "reports_of [] = []"
| "reports_of (GReport r # ops) = r # reports_of ops"
| "reports_of (GSend _ _ # ops) = reports_of ops"

lemma reports_of_append [simp]: "reports_of (xs @ ys) = reports_of xs @ reports_of ys"
  by (induction xs rule: reports_of.induct) simp_all

lemma guard_step_report: "last_report (guard_step S g (GSend now channels)) = last_report g"
  by (simp add: guard_after_send split: option.split)

lemma guard_run_last_report:
  "last_report (guard_run S ops) = (if reports_of ops = [] then None else Some (last (reports_of ops)))"
proof (induction ops rule: rev_induct)
  case Nil
  then show ?case by (simp add: guard_run_def new_guard_def)
next
  case (snoc x ops)
  then show ?case
    by (cases x) (simp_all add: guard_run_snoc guard_step_report update_health_def del: guard_step.simps(2))
qed

text \<open>
  An arming is authorised in a run when at some send the latest report was fresh and permitted
  arming, and from that send on the operator kept the arm channel high.
\<close>

definition authorised :: "arm_guard_settings \<Rightarrow> guard_op list \<Rightarrow> bool" where
  "authorised S ops \<longleftrightarrow>
     (\<exists>pre t c post. ops = pre @ GSend t c # post \<and> arm_high S c \<and> reports_of pre \<noteq> [] \<and>
        arm_permitted (last (reports_of pre)) \<and>
        t - t_mono (last (reports_of pre)) \<le> arm_guard_report_max_age_s S \<and>
        (\<forall>t' c'. GSend t' c' \<in> set post \<longrightarrow> arm_pos S c' \<noteq> None \<longrightarrow> arm_high S c'))"

lemma authorised_extend:
  assumes "authorised S ops"
    and "\<And>t c. x = GSend t c \<Longrightarrow> arm_pos S c \<noteq> None \<Longrightarrow> arm_high S c"
  shows "authorised S (ops @ [x])"
proof -
  obtain pre t c post where "ops = pre @ GSend t c # post"
    and rest: "arm_high S c" "reports_of pre \<noteq> []" "arm_permitted (last (reports_of pre))"
      "t - t_mono (last (reports_of pre)) \<le> arm_guard_report_max_age_s S"
      "\<forall>t' c'. GSend t' c' \<in> set post \<longrightarrow> arm_pos S c' \<noteq> None \<longrightarrow> arm_high S c'"
    using assms(1) unfolding authorised_def by blast
  then have "ops @ [x] = pre @ GSend t c # (post @ [x])" by simp
  then show ?thesis
    unfolding authorised_def using rest assms(2)
    by (intro exI [of _ pre] exI [of _ t] exI [of _ c] exI [of _ "post @ [x]"]) auto
qed

lemma authorised_now:
  assumes "arm_high S c" "guard_arm_allowed S t (guard_run S ops)"
  shows "authorised S (ops @ [GSend t c])"
  unfolding authorised_def
  using assms
  by (intro exI [of _ ops] exI [of _ t] exI [of _ c] exI [of _ "[]"])
    (auto simp: guard_arm_allowed_def guard_run_last_report split: option.splits if_splits)

lemma latched_authorised: "latched (guard_run S ops) \<Longrightarrow> authorised S ops"
proof (induction ops rule: rev_induct)
  case Nil
  then show ?case by (simp add: guard_run_def new_guard_def)
next
  case (snoc x ops)
  show ?case
  proof (cases x)
    case (GReport r)
    then have "latched (guard_run S ops)" using snoc.prems by (simp add: guard_run_snoc update_health_def)
    with snoc.IH show ?thesis by (intro authorised_extend) (simp_all add: GReport)
  next
    case (GSend t c)
    have st: "latched (guard_run S ops) \<or> guard_arm_allowed S t (guard_run S ops)"
      and high: "arm_pos S c \<noteq> None \<longrightarrow> arm_high S c"
      using snoc.prems by (auto simp: guard_run_snoc GSend guard_after_send split: option.splits)
    show ?thesis
    proof (cases "latched (guard_run S ops)")
      case True
      with snoc.IH high show ?thesis by (intro authorised_extend) (auto simp: GSend)
    next
      case False
      then have "arm_high S c" "guard_arm_allowed S t (guard_run S ops)"
        using snoc.prems by (auto simp: guard_run_snoc GSend guard_after_send split: option.splits)
      then show ?thesis unfolding GSend by (rule authorised_now)
    qed
  qed
qed

section \<open>The guard on a link\<close>

text \<open>
  On any RC link: while the guard is not latched the receiver never sees the arm channel at a level
  above that of the pulse just below the threshold.
\<close>

context rc_link
begin

lemma guarded_level:
  assumes "cfg_ok c" "clamp_ok S"
    and "guard_send_rc S (send c) sink now channels g w = (Inr out, g', w')"
    and "arm_pos S channels = Some i" "i < slots c" "\<not> latched g'"
  shows "\<exists>ts. seen c out = Some ts \<and> i < length ts \<and> ts ! i \<le> level c (arm_threshold_us S - 1)"
proof -
  obtain j chans w1 where "arm_pos S channels = Some j" "send c chans w1 = (Inr out, w')"
    "length chans = length channels" "chans ! j < arm_threshold_us S"
    using guard_output [OF assms(2,3)] assms(6) by auto
  with assms(4) have snd: "send c chans w1 = (Inr out, w')" "i < length chans"
    "chans ! i \<le> arm_threshold_us S - 1"
    using arm_pos_lt [OF assms(4)] by auto
  then obtain ts where "seen c out = Some ts" "i < length ts" "ts ! i = level c (chans ! i)"
    using sent_seen [OF assms(1) snd(1,2) assms(5)] by blast
  with snd(3) show ?thesis using level_mono [OF assms(1)] by auto
qed

text \<open>And once latched, every channel is received as the caller commanded it.\<close>

lemma latched_untouched:
  assumes "cfg_ok c" "clamp_ok S" "latched g"
    and "guard_send_rc S (send c) sink now channels g w = (Inr out, g', w')"
    and "j < length channels" "j < slots c"
  shows "\<exists>ts. seen c out = Some ts \<and> j < length ts \<and> ts ! j = level c (channels ! j)"
proof -
  obtain i where "arm_pos S channels = Some i"
    using guard_output [OF assms(2,4)] by blast
  then have "send c channels w = (Inr out, w')"
    using assms(3,4) guard_passes [of S channels i g now "send c" sink w]
    by (auto simp: forward_def split: prod.splits sum.splits)
  then show ?thesis using sent_seen [OF assms(1) _ assms(5,6)] by blast
qed

end

end
