(* ===== verification/Link_Facts.thy ===== *)
theory Link_Facts
  imports Arm_Guard
begin

text \<open>
  The properties of the flight link: the CRSF frames and channels, the telemetry, the health
  monitor and the arm guard.
\<close>

section \<open>Arming\<close>

definition demo_report :: health_report where
  "demo_report = \<lparr>hr_state = HS_OK, arm_permitted = True, reasons = [], t_mono = 0\<rparr>"

definition demo_channels :: "int list" where
  "demo_channels = [1500, 1500, 988, 1500, 2000]"

text \<open>C6: After any sequence of health reports and frames, the guard is latched only if at some frame
  the latest report was fresh and permitted arming, the arm channel was high, and the operator has
  not lowered it since.\<close>

theorem latched_only_if_authorised:
  assumes "latched (guard_run S ops)"
  shows "\<exists>pre t c post. ops = pre @ GSend t c # post \<and> arm_high S c \<and> reports_of pre \<noteq> [] \<and>
    arm_permitted (last (reports_of pre)) \<and>
    t - t_mono (last (reports_of pre)) \<le> arm_guard_report_max_age_s S \<and>
    (\<forall>t' c'. GSend t' c' \<in> set post \<longrightarrow> arm_pos S c' \<noteq> None \<longrightarrow> arm_high S c')"
  using latched_authorised [OF assms] unfolding authorised_def .

theorem latched_only_if_authorised_witness:
  "\<exists>pre t c post. [GReport demo_report, GSend 1 demo_channels] = pre @ GSend t c # post \<and> reports_of pre \<noteq> []"
proof -
  have "latched (guard_run default_arm_guard_settings [GReport demo_report, GSend 1 demo_channels])"
    by code_simp
  from latched_only_if_authorised [OF this] show ?thesis by blast
qed

text \<open>C27: When the clamp is below the arm threshold, which the settings do not enforce, the settings of the link
  are in their ranges and its frames carry the arm channel, then while the guard is not latched the receiver of
  a frame that was sent never sees the arm channel above the level of the pulse just below the threshold,
  whatever the caller commanded.\<close>

theorem unlatched_wire_below_threshold:
  assumes "link_ok C" "clamp_ok S"
    and "guard_send_rc S (link_send_rc C) sink now channels g L = (Inr w, g', L')"
    and "arm_pos S channels = Some i" "i < rc_channel_count C" "\<not> latched g'"
  shows "\<exists>ts. received_ticks (rc_channel_count C) w = Some ts \<and> i < length ts \<and>
    ts ! i \<le> to_ticks C (real_of_int (arm_threshold_us S - 1))"
  using crsf_rc.guarded_level [OF assms] .

lemma demo_clamped:
  "\<exists>w L'. guard_send_rc default_arm_guard_settings (link_send_rc default_crsf_link_settings) None 0
     demo_channels new_guard (new_link default_crsf_link_settings True) = (Inr w, new_guard, L')"
proof -
  have pos: "arm_pos default_arm_guard_settings demo_channels = Some 4" by code_simp
  have "\<not> latched new_guard" "arm_high default_arm_guard_settings demo_channels"
    "\<not> guard_arm_allowed default_arm_guard_settings 0 new_guard" by code_simp+
  note clamps = guard_clamps [OF pos this, of "link_send_rc default_crsf_link_settings" None]
  have "cl_open (new_link default_crsf_link_settings True)" by (simp add: new_link_def)
  from link_send_ok [OF default_link_ok this] show ?thesis
    unfolding clamps by (simp add: emit_blocked_def forward_def)
qed

theorem unlatched_wire_below_threshold_witness:
  "\<exists>w ts. received_ticks 16 w = Some ts \<and> 4 < length ts \<and> ts ! 4 \<le> to_ticks default_crsf_link_settings 1499"
proof -
  obtain w L' where s: "guard_send_rc default_arm_guard_settings (link_send_rc default_crsf_link_settings) None 0
     demo_channels new_guard (new_link default_crsf_link_settings True) = (Inr w, new_guard, L')"
    using demo_clamped by blast
  have "clamp_ok default_arm_guard_settings" "arm_pos default_arm_guard_settings demo_channels = Some 4"
    "4 < rc_channel_count default_crsf_link_settings" "\<not> latched new_guard" by code_simp+
  note f = this
  have v: "rc_channel_count default_crsf_link_settings = 16" "arm_threshold_us default_arm_guard_settings = 1500"
    by (simp_all add: default_crsf_link_settings_def default_arm_guard_settings_def)
  from unlatched_wire_below_threshold [OF default_link_ok f(1) s f(2,3,4)] show ?thesis
    unfolding v by auto
qed

text \<open>Once latched, the guard does not intervene: every channel is received as commanded.\<close>

theorem latched_wire_untouched:
  assumes "link_ok C" "clamp_ok S" "latched g"
    and "guard_send_rc S (link_send_rc C) sink now channels g L = (Inr w, g', L')"
    and "j < length channels" "j < rc_channel_count C"
  shows "\<exists>ts. received_ticks (rc_channel_count C) w = Some ts \<and> j < length ts \<and>
    ts ! j = to_ticks C (real_of_int (channels ! j))"
  using crsf_rc.latched_untouched [OF assms] .

theorem latched_wire_untouched_witness:
  "\<exists>w ts. received_ticks 16 w = Some ts \<and> 4 < length ts \<and> ts ! 4 = to_ticks default_crsf_link_settings 2000"
proof -
  let ?g = "new_guard\<lparr>latched := True\<rparr>" and ?L = "new_link default_crsf_link_settings True"
  have pos: "arm_pos default_arm_guard_settings demo_channels = Some 4" by code_simp
  have c: "clamp_ok default_arm_guard_settings" "latched ?g" by code_simp+
  have "cl_open ?L" by (simp add: new_link_def)
  from link_send_ok [OF default_link_ok this] guard_passes [OF pos, of ?g 0 "link_send_rc default_crsf_link_settings" None] c(2)
  obtain w g' L' where s: "guard_send_rc default_arm_guard_settings (link_send_rc default_crsf_link_settings) None 0
     demo_channels ?g ?L = (Inr w, g', L')" by (simp add: forward_def)
  have "4 < length demo_channels" "4 < rc_channel_count default_crsf_link_settings" by code_simp+
  from latched_wire_untouched [OF default_link_ok c s this] show ?thesis
    by (auto simp: default_crsf_link_settings_def demo_channels_def)
qed

section \<open>Link health\<close>

text \<open>Arming is permitted only in the state OK, a report is never better than the instantaneous
  state, and it is OK only on a fresh link-statistics frame with both link qualities at or above
  their warning levels: a stale frame never reports OK.\<close>

theorem arm_permitted_needs_fresh_link:
  assumes "arm_permitted (fst (evaluate S st now m))"
  shows "hr_state (fst (evaluate S st now m)) = HS_OK \<and> fst (raw_state S st now) = HS_OK \<and>
    (\<exists>msg t. store_latest st TLinkStatistics = Some (LinkStatistics msg, t) \<and>
       now - t \<le> health_linkstats_stale_s S \<and> health_lq_warn S \<le> uplink_lq msg \<and>
       health_downlink_lq_warn S \<le> downlink_lq msg)"
proof -
  have ok: "hr_state (fst (evaluate S st now m)) = HS_OK" using assms by (simp add: evaluate_arm)
  have raw: "fst (raw_state S st now) = HS_OK" by (rule evaluate_permits [OF assms])
  from raw_state_OK [OF raw] obtain msg t where
    "store_latest st TLinkStatistics = Some (LinkStatistics msg, t)"
    "now - t \<le> health_linkstats_stale_s S" "health_lq_critical S \<le> uplink_lq msg"
    "health_lq_warn S \<le> uplink_lq msg" "health_downlink_lq_warn S \<le> downlink_lq msg" .
  with ok raw show ?thesis by blast
qed

definition demo_link :: link_statistics where
  "demo_link = \<lparr>uplink_rssi_ant1_dbm = -60, uplink_rssi_ant2_dbm = -60, uplink_lq = 99, uplink_snr_db = 10,
     active_antenna = 0, rf_mode = 2, uplink_tx_power_mw = Some 25, downlink_rssi_dbm = -60,
     downlink_lq = 99, downlink_snr_db = 10\<rparr>"

definition demo_store :: "telemetry_store" where
  "demo_store = store_update (LinkStatistics demo_link) 5 Map.empty"

definition demo_evaluated :: health_report where
  "demo_evaluated = fst (evaluate default_health_settings demo_store 6 (new_monitor\<lparr>m_state := HS_OK\<rparr>))"

theorem arm_permitted_needs_fresh_link_witness:
  "fst (raw_state default_health_settings demo_store 6) = HS_OK"
proof -
  have "arm_permitted demo_evaluated" by code_simp
  from arm_permitted_needs_fresh_link [OF this [unfolded demo_evaluated_def]] show ?thesis by blast
qed

text \<open>C40: A monitor that starts away from OK is at OK only after the instantaneous state was OK at
  every sample of an interval of at least the hysteresis time; degradation is immediate.\<close>

theorem recovery_is_held:
  assumes "m_pending m = None" "m_state m \<noteq> HS_OK" "m_state (hyst_run S m xs) = HS_OK"
  shows "(\<exists>ys now zs since. xs = ys @ (HS_OK, now) # zs \<and> held ys HS_OK since \<and>
      health_hysteresis_s S \<le> now - since) \<and>
    (\<forall>raw now. severity raw > 0 \<longrightarrow> m_state (hyst_run S m (xs @ [(raw, now)])) = raw)"
  using reaching_OK_was_held [OF assms] assms(3)
  by (auto simp: hyst_run_snoc intro!: hysteresis_degrades_at_once)

theorem recovery_is_held_witness:
  "\<exists>ys now zs since. [(HS_OK, 0), (HS_OK, 1), (HS_OK, 2)] = ys @ (HS_OK, now) # zs \<and> held ys HS_OK since \<and>
     2 \<le> now - since"
proof -
  have m: "m_pending new_monitor = None" "m_state new_monitor \<noteq> HS_OK"
    "m_state (hyst_run default_health_settings new_monitor [(HS_OK, 0), (HS_OK, 1), (HS_OK, 2)]) = HS_OK"
    by code_simp+
  have "health_hysteresis_s default_health_settings = 2" by (simp add: default_health_settings_def)
  with recovery_is_held [OF m] show ?thesis by auto
qed

section \<open>Frames on the wire\<close>

text \<open>C28: Encoding and decoding of CRSF frames are inverse: the bytes that encode a frame are
  exactly the bytes that decode to it.\<close>

theorem frame_codec_inverse: "to_bytes f = Inr b \<longleftrightarrow> from_bytes b = Inr f"
  using to_bytes_Inr_iff from_bytes_wire from_bytes_sound by metis

text \<open>A frame with one corrupted byte after its length byte is rejected.\<close>

theorem corrupted_byte_rejected:
  assumes "frame_wf f" "2 \<le> i" "i < length (wire f)" "y \<noteq> wire f ! i"
  shows "\<exists>e. from_bytes ((wire f)[i := y]) = Inl e"
proof (rule ccontr)
  assume "\<nexists>e. from_bytes ((wire f)[i := y]) = Inl e"
  then obtain g where "from_bytes ((wire f)[i := y]) = Inr g" by (metis sum.exhaust)
  then have g: "wire g = (wire f)[i := y]" using from_bytes_sound by blast
  obtain j where j: "i = Suc (Suc j)" using assms(2) by (metis le_Suc_ex add_2_eq_Suc)
  let ?F = "(word_of_int (cf_type f) :: byte) # cf_payload f" and ?G = "(word_of_int (cf_type g) :: byte) # cf_payload g"
  have w: "wire h = [word_of_int (cf_addr h), word_of_nat (length (cf_payload h) + 2)] @
      (word_of_int (cf_type h) # cf_payload h) @ [crc8_dvb_s2 (word_of_int (cf_type h) # cf_payload h)]" for h
    by (simp add: wire_def)
  have eq: "?G @ [crc8_dvb_s2 ?G] = (?F @ [crc8_dvb_s2 ?F])[j := y]"
    using g unfolding w [of f] w [of g] j by simp
  have len: "length ?G = length ?F" using arg_cong [OF g, of length] by simp
  show False
  proof (cases "j < length ?F")
    case True
    have "?G @ [crc8_dvb_s2 ?G] = ?F[j := y] @ [crc8_dvb_s2 ?F]"
      using eq unfolding list_update_append1 [OF True] .
    then have G: "?G = ?F[j := y]" "crc8_dvb_s2 ?G = crc8_dvb_s2 ?F"
      unfolding append1_eq_conv by blast+
    have F: "?F = take j ?F @ ?F ! j # drop (Suc j) ?F" "?F[j := y] = take j ?F @ y # drop (Suc j) ?F"
      using id_take_nth_drop [OF True] upd_conv_take_nth_drop [OF True] by blast+
    have "crc8_dvb_s2 (take j ?F @ y # drop (Suc j) ?F) = crc8_dvb_s2 (take j ?F @ ?F ! j # drop (Suc j) ?F)"
      using G F by metis
    then have "y = ?F ! j" by (simp only: crc8_single_byte_change)
    moreover have "wire f ! i = (?F @ [crc8_dvb_s2 ?F]) ! j" unfolding w [of f] j by simp
    then have "wire f ! i = ?F ! j" by (simp only: nth_append True if_True)
    ultimately show False using assms(4) by simp
  next
    case False
    then have last: "j = length ?F" using assms(3) unfolding w [of f] j by simp
    then have "?G @ [crc8_dvb_s2 ?G] = ?F @ [y]" using eq by (simp only: list_update_length)
    then have "crc8_dvb_s2 ?F = y" unfolding append1_eq_conv by metis
    moreover have "wire f ! i = (?F @ [crc8_dvb_s2 ?F]) ! j" unfolding w [of f] j by simp
    then have "wire f ! i = crc8_dvb_s2 ?F" unfolding last by (simp only: nth_append_length)
    ultimately show False using assms(4) by simp
  qed
qed

definition demo_frame :: crsf_frame where
  "demo_frame = \<lparr>cf_addr = FLIGHT_CONTROLLER, cf_type = FLIGHT_MODE, cf_payload = [65, 0]\<rparr>"

lemma demo_frame_wf: "frame_wf demo_frame"
  by (simp add: demo_frame_def frame_wf_def FLIGHT_CONTROLLER_def FLIGHT_MODE_def)

theorem corrupted_byte_rejected_witness: "\<exists>e. from_bytes ((wire demo_frame)[3 := 66]) = Inl e"
proof -
  have "3 < length (wire demo_frame)" "66 \<noteq> wire demo_frame ! 3"
    by (simp_all add: demo_frame_def wire_def)
  with demo_frame_wf show ?thesis by (intro corrupted_byte_rejected) simp_all
qed

text \<open>C29: However the received bytes are cut into chunks, the same frames are extracted, the same
  bytes are left over and the same checksum errors counted.\<close>

theorem extraction_ignores_chunking:
  "extract_frames m sync (a @ b) =
     (case extract_frames m sync a of (fs, rest, errs) \<Rightarrow>
      case extract_frames m sync (rest @ b) of (fs', rest', errs') \<Rightarrow>
        (fs @ fs', rest', errs + errs'))"
  by (rule extract_append)

text \<open>Every frame that was sent is recovered from the stream, in order, whatever follows it.\<close>

theorem sent_frames_recovered:
  assumes "list_all (sendable m sync) fs"
  shows "extract_frames m sync (concat (map wire fs) @ buf) =
    (case extract_frames m sync buf of (gs, rest, errs) \<Rightarrow> (fs @ gs, rest, errs))"
  by (rule extract_frames_stream [OF assms])

theorem sent_frames_recovered_witness:
  "extract_frames 64 SYNC_ADDRESSES (wire demo_frame @ wire demo_frame @ [0xC8]) =
     ([demo_frame, demo_frame], [0xC8], 0)"
proof -
  have "list_all (sendable 64 SYNC_ADDRESSES) [demo_frame, demo_frame]"
    using demo_frame_wf by (simp add: sendable_def demo_frame_def SYNC_ADDRESSES_def)
  from sent_frames_recovered [OF this, of "[0xC8]"] show ?thesis
    by (simp add: extract_short OVERHEAD_def)
qed

text \<open>Extraction never invents a frame: each one is well formed, addressed to a synchronisation
  address and a contiguous part of the buffer; and what is left over is bounded.\<close>

theorem extraction_sound:
  assumes "extract_frames m sync buf = (fs, rest, errs)"
  shows "int (length rest) < max 4 m \<and>
    (\<forall>f \<in> set fs. frame_wf f \<and> sublist (wire f) buf \<and> cf_addr f \<in> set sync)"
  using extract_rest_bound [OF assms] extract_sound [OF assms] by blast

theorem extraction_sound_witness: "length (fst (snd (extract_frames 64 SYNC_ADDRESSES (replicate 70 0)))) < 64"
proof -
  obtain fs rest errs where e: "extract_frames 64 SYNC_ADDRESSES (replicate 70 0) = (fs, rest, errs)"
    by (metis prod_cases3)
  from extraction_sound [OF e] show ?thesis unfolding e by simp
qed

section \<open>RC channels\<close>

text \<open>Packed channels unpack to the eleven low bits of what was packed, padded to the count.\<close>

theorem channels_roundtrip:
  "unpack_channels (pack_channels ticks count pad) count = Inr (map (\<lambda>v. v mod 2048) (padded ticks count pad))"
  by (rule unpack_pack)

text \<open>Ticks survive the conversion to microseconds and back, the conversion is monotone, and
  its result fits eleven bits.\<close>

theorem ticks_conversion:
  assumes "us_min < us_max" "tmin < tmax"
  shows "(0 \<le> t \<and> t \<le> 2047 \<longrightarrow>
      us_to_ticks (ticks_to_us t us_min us_max tmin tmax) us_min us_max tmin tmax = t) \<and>
    (u \<le> v \<longrightarrow> us_to_ticks u us_min us_max tmin tmax \<le> us_to_ticks v us_min us_max tmin tmax) \<and>
    0 \<le> us_to_ticks u us_min us_max tmin tmax \<and> us_to_ticks u us_min us_max tmin tmax \<le> 2047"
  using assms us_ticks_inverse [of us_min us_max tmin tmax t] us_to_ticks_mono [of us_min us_max tmin tmax u v]
    us_to_ticks_range [of us_min us_max u tmin tmax]
  by auto

theorem ticks_conversion_witness: "us_to_ticks (ticks_to_us 1000 988 2012 172 1811) 988 2012 172 1811 = 1000"
  using ticks_conversion [of 988 2012 172 1811 1000] by simp

section \<open>Telemetry\<close>

text \<open>A frame fails to parse exactly when it is of a known type with a wrong payload length; an
  unknown type is counted and never an error; and parsed link statistics are in range.\<close>

theorem telemetry_parse_total:
  "(fst (parse_telemetry S f counts) = Inl TelemetryParseError \<longleftrightarrow>
     cf_type f = LINK_STATISTICS \<and> length (cf_payload f) \<noteq> 10 \<or>
     cf_type f = BATTERY_SENSOR \<and> length (cf_payload f) \<noteq> 8 \<or>
     cf_type f = ATTITUDE \<and> length (cf_payload f) \<noteq> 6 \<or>
     cf_type f = FLIGHT_MODE \<and> cf_payload f = [] \<or>
     cf_type f = GPS \<and> length (cf_payload f) \<noteq> 15) \<and>
   snd (parse_telemetry S f counts) =
     (if cf_type f \<in> set telemetry_types \<union> set IGNORED_TYPES then counts
      else counts(cf_type f \<mapsto> (case counts (cf_type f) of None \<Rightarrow> 0 | Some n \<Rightarrow> n) + 1)) \<and>
   (\<forall>s. parse_link_statistics p = Inr s \<longrightarrow> link_statistics_ok s)"
  using parse_telemetry_raises_iff parse_telemetry_counts parse_link_statistics_ok by blast

theorem telemetry_parse_total_witness:
  "\<exists>s. parse_link_statistics (replicate 10 200) = Inr s \<and> link_statistics_ok s"
proof -
  have "\<exists>s. parse_link_statistics (replicate 10 200) = Inr s"
    by (simp add: parse_link_statistics_def require_def Let_def)
  then obtain s where s: "parse_link_statistics (replicate 10 200) = Inr s" ..
  from telemetry_parse_total [of default_parser_settings demo_frame Map.empty "replicate 10 200"] s show ?thesis by blast
qed

end
