(* ===== verification/Mesh_Models.thy ===== *)
theory Mesh_Models
  imports Py_Strings
begin

text \<open>
  The data models of the mesh, \<^verbatim>\<open>meshsa/models.py\<close>, and the schema window, \<^verbatim>\<open>version.py\<close>.  A
  constructor of the code that validates its fields is a function that raises ValueError when a
  validator does; the coercions that pydantic makes before (numeric strings, say) are outside.
\<close>

section \<open>Enumerations, errors and the envelope\<close>

text \<open>What a codec raises: the framework's error, its subclass for schemas, or anything else.\<close>

datatype codec_exn = MeshSAError | IncompatibleSchemaError | CodecRaised py_exn

datatype node_tier = TierUser | TierBackbone | TierBase
datatype message_kind = Pli | Chat | Marker | StatusMsg

record envelope =
  env_schema_version :: int
  env_msg_id :: string
  env_ts :: pyfloat
  env_source_uid :: string
  env_kind :: message_kind
  env_payload :: "(string \<times> json) list"

definition SCHEMA_VERSION :: int where "SCHEMA_VERSION = 1"
definition MIN_COMPATIBLE_SCHEMA :: int where "MIN_COMPATIBLE_SCHEMA = 1"

definition is_compatible :: "int \<Rightarrow> bool" where
  "is_compatible v \<longleftrightarrow> MIN_COMPATIBLE_SCHEMA \<le> v \<and> v \<le> SCHEMA_VERSION"

definition SUPPORTED_SCHEMAS :: "int list" where
  "SUPPORTED_SCHEMAS = [MIN_COMPATIBLE_SCHEMA..SCHEMA_VERSION]"

lemma supported_compatible: "v \<in> set SUPPORTED_SCHEMAS \<longleftrightarrow> is_compatible v"
  by (simp add: SUPPORTED_SCHEMAS_def is_compatible_def)

text \<open>
  \<^verbatim>\<open>str()\<close> of a payload value; \<open>repr\<close> is the text of a float, a list or a dictionary.
\<close>

definition py_str :: "(json \<Rightarrow> string) \<Rightarrow> json \<Rightarrow> string" where
  "py_str repr j =
     (case j of
        JStr s \<Rightarrow> s | JInt i \<Rightarrow> str_int i | JNull \<Rightarrow> ''None''
      | JBool b \<Rightarrow> (if b then ''True'' else ''False'') | _ \<Rightarrow> repr j)"

text \<open>\<^verbatim>\<open>payload.get(key, default)\<close> on a payload value, which need not be a dictionary.\<close>

definition get_or :: "json \<Rightarrow> string \<Rightarrow> json \<Rightarrow> py_exn + json" where
  "get_or j key dflt =
     (case j of
        JObj kvs \<Rightarrow> Inr (case map_of kvs key of None \<Rightarrow> dflt | Some v \<Rightarrow> v)
      | _ \<Rightarrow> Inl AttributeError)"

definition lift_py :: "py_exn + 'a \<Rightarrow> codec_exn + 'a" where
  "lift_py r = (case r of Inl e \<Rightarrow> Inl (CodecRaised e) | Inr v \<Rightarrow> Inr v)"

lemma lift_py_simps [simp]: "lift_py (Inr v) = Inr v" "lift_py (Inl e) = Inl (CodecRaised e)"
  by (simp_all add: lift_py_def)

section \<open>Validated blocks\<close>

definition UNKNOWN_ERROR_M :: pyfloat where "UNKNOWN_ERROR_M = Fin 9999999"

record position =
  pos_lat :: pyfloat
  pos_lon :: pyfloat
  pos_hae :: pyfloat
  pos_ce :: pyfloat
  pos_le :: pyfloat
  pos_course_deg :: "pyfloat option"
  pos_speed_ms :: "pyfloat option"

definition in_closed :: "real \<Rightarrow> pyfloat \<Rightarrow> real \<Rightarrow> bool" where
  "in_closed a v b \<longleftrightarrow> pf_le (Fin a) v \<and> pf_le v (Fin b)"

definition in_half_open :: "real \<Rightarrow> pyfloat \<Rightarrow> real \<Rightarrow> bool" where
  "in_half_open a v b \<longleftrightarrow> pf_le (Fin a) v \<and> pf_lt v (Fin b)"

definition absent_or :: "(pyfloat \<Rightarrow> bool) \<Rightarrow> pyfloat option \<Rightarrow> bool" where
  "absent_or P v = (case v of None \<Rightarrow> True | Some x \<Rightarrow> P x)"

definition nonneg_finite :: "pyfloat \<Rightarrow> bool" where
  "nonneg_finite v \<longleftrightarrow> \<not> (\<not> pf_isfinite v \<or> pf_lt v (Fin 0))"

definition mk_position ::
  "pyfloat \<Rightarrow> pyfloat \<Rightarrow> pyfloat \<Rightarrow> pyfloat \<Rightarrow> pyfloat \<Rightarrow> pyfloat option \<Rightarrow> pyfloat option \<Rightarrow>
     py_exn + position" where
  "mk_position lat lon hae ce le course speed =
     (if \<not> in_closed (-90) lat 90 then Inl ValueError
      else if \<not> in_closed (-180) lon 180 then Inl ValueError
      else if \<not> absent_or (\<lambda>v. in_half_open 0 v 360) course then Inl ValueError
      else if \<not> absent_or nonneg_finite speed then Inl ValueError
      else Inr \<lparr>pos_lat = lat, pos_lon = lon, pos_hae = hae, pos_ce = ce, pos_le = le,
                pos_course_deg = course, pos_speed_ms = speed\<rparr>)"

record attitude =
  at_roll_deg :: "pyfloat option"
  at_pitch_deg :: "pyfloat option"
  at_yaw_deg :: "pyfloat option"

record telemetry_block =
  tb_battery_v :: "pyfloat option"
  tb_battery_pct :: "int option"
  tb_current_a :: "pyfloat option"
  tb_attitude :: "attitude option"

definition mk_telemetry ::
  "pyfloat option \<Rightarrow> int option \<Rightarrow> pyfloat option \<Rightarrow> attitude option \<Rightarrow> py_exn + telemetry_block" where
  "mk_telemetry v pct cur att =
     (if \<not> absent_or nonneg_finite v then Inl ValueError
      else if (case pct of None \<Rightarrow> False | Some p \<Rightarrow> \<not> (0 \<le> p \<and> p \<le> 100)) then Inl ValueError
      else if \<not> absent_or pf_isfinite cur then Inl ValueError
      else Inr \<lparr>tb_battery_v = v, tb_battery_pct = pct, tb_current_a = cur, tb_attitude = att\<rparr>)"

record detection =
  det_label :: string
  det_confidence :: pyfloat
  det_track_id :: "int option"
  det_bearing_deg :: "pyfloat option"

definition mk_detection :: "string \<Rightarrow> pyfloat \<Rightarrow> int option \<Rightarrow> pyfloat option \<Rightarrow> py_exn + detection" where
  "mk_detection label conf track bearing =
     (if \<not> pf_isfinite conf \<or> \<not> in_closed 0 conf 1 then Inl ValueError
      else if \<not> absent_or (\<lambda>v. pf_isfinite v \<and> in_half_open 0 v 360) bearing then Inl ValueError
      else Inr \<lparr>det_label = label, det_confidence = conf, det_track_id = track,
                det_bearing_deg = bearing\<rparr>)"

lemma in_closed_iff: "in_closed a v b \<longleftrightarrow> (\<exists>r. v = Fin r \<and> a \<le> r \<and> r \<le> b)"
  by (simp add: in_closed_def pf_le_Fin_iff)

lemma in_half_open_iff: "in_half_open a v b \<longleftrightarrow> (\<exists>r. v = Fin r \<and> a \<le> r \<and> r < b)"
  by (cases v) (auto simp: in_half_open_def)

lemma nonneg_finite_iff: "nonneg_finite v \<longleftrightarrow> (\<exists>r. v = Fin r \<and> 0 \<le> r)"
  by (cases v) (auto simp: nonneg_finite_def not_less)

text \<open>
  A position is on the globe: its coordinates are finite numbers in range, whatever float was given.
  The altitude and the errors are not checked.
\<close>

lemma mk_position_Inr:
  "mk_position lat lon hae ce le course speed = Inr p \<Longrightarrow>
   \<exists>a b. pos_lat p = Fin a \<and> \<bar>a\<bar> \<le> 90 \<and> pos_lon p = Fin b \<and> \<bar>b\<bar> \<le> 180 \<and>
     (\<forall>c. pos_course_deg p = Some c \<longrightarrow> (\<exists>r. c = Fin r \<and> 0 \<le> r \<and> r < 360)) \<and>
     (\<forall>s. pos_speed_ms p = Some s \<longrightarrow> (\<exists>r. s = Fin r \<and> 0 \<le> r))"
  by (auto simp: mk_position_def in_closed_iff absent_or_def in_half_open_iff nonneg_finite_iff
      split: if_splits option.splits)

lemma mk_position_nan_altitude:
  "\<exists>p. mk_position (Fin 0) (Fin 0) NaN PInf PInf None None = Inr p \<and> pos_hae p = NaN"
  by (simp add: mk_position_def in_closed_iff absent_or_def)

lemma mk_detection_Inr:
  "mk_detection label conf track bearing = Inr d \<Longrightarrow>
   \<exists>c. det_confidence d = Fin c \<and> 0 \<le> c \<and> c \<le> 1 \<and>
     (\<forall>b. det_bearing_deg d = Some b \<longrightarrow> (\<exists>r. b = Fin r \<and> 0 \<le> r \<and> r < 360))"
  by (auto simp: mk_detection_def in_closed_iff absent_or_def in_half_open_iff
      split: if_splits option.splits)

lemma mk_telemetry_Inr:
  "mk_telemetry v pct cur att = Inr t \<Longrightarrow>
   (\<forall>x. tb_battery_v t = Some x \<longrightarrow> (\<exists>r. x = Fin r \<and> 0 \<le> r)) \<and>
   (\<forall>p. tb_battery_pct t = Some p \<longrightarrow> 0 \<le> p \<and> p \<le> 100) \<and>
   (\<forall>x. tb_current_a t = Some x \<longrightarrow> pf_isfinite x)"
  by (auto simp: mk_telemetry_def absent_or_def nonneg_finite_iff split: if_splits option.splits)

end
