(* ===== verification/Mesh_Router.thy ===== *)
theory Mesh_Router
  imports Mesh_Models
begin

text \<open>
  The router, \<^verbatim>\<open>meshsa/router.py\<close>, with its counters, \<^verbatim>\<open>metrics.py\<close>.  A codec is a pair of fallible
  functions; sending on a transport is an action on a world that may raise.  The pumps are tasks of
  one event loop: \<open>pump_frame\<close> is one iteration of a pump, and a pump whose iteration raises is
  dead.
\<close>

section \<open>Codecs and configuration\<close>

record wire_codec_fns =
  wc_encode :: "envelope \<Rightarrow> codec_exn + bytes"
  wc_decode :: "bytes \<Rightarrow> codec_exn + envelope"

record router_config =
  rc_transports :: "string list"
  rc_default_codec :: wire_codec_fns
  rc_codecs :: "(string \<times> wire_codec_fns) list"
  rc_dedupe_cache_size :: int

definition codec_for :: "router_config \<Rightarrow> nat \<Rightarrow> wire_codec_fns" where
  "codec_for C i =
     (case map_of (rc_codecs C) (rc_transports C ! i) of None \<Rightarrow> rc_default_codec C | Some c \<Rightarrow> c)"

section \<open>State\<close>

record router_metrics =
  rx :: nat
  tx :: nat
  forwarded :: nat
  dropped_undecodable :: nat
  schema_mismatch :: nat

record router =
  ro_seen :: "string list"
  ro_metrics :: router_metrics
  ro_delivered :: "envelope list" \<comment> \<open>what the subscribers were called with\<close>
  ro_dead :: "nat set" \<comment> \<open>the pumps that an exception ended\<close>

definition new_router :: router where
  "new_router =
     \<lparr>ro_seen = [], ro_metrics = \<lparr>rx = 0, tx = 0, forwarded = 0, dropped_undecodable = 0, schema_mismatch = 0\<rparr>,
      ro_delivered = [], ro_dead = {}\<rparr>"

text \<open>The eviction loop of \<^verbatim>\<open>_mark_seen\<close>: \<^verbatim>\<open>popitem\<close> on an empty dictionary raises KeyError.\<close>

fun evict_loop :: "int \<Rightarrow> string list \<Rightarrow> py_exn + string list" where
  "evict_loop cap [] = (if cap < 0 then Inl KeyError else Inr [])"
| "evict_loop cap (x # xs) =
     (if cap < int (length (x # xs)) then evict_loop cap xs else Inr (x # xs))"

definition mark_seen :: "int \<Rightarrow> string \<Rightarrow> string list \<Rightarrow> py_exn + bool \<times> string list" where
  "mark_seen cap msg_id seen =
     (if msg_id \<in> set seen then Inr (False, seen)
      else then_ok (evict_loop cap (seen @ [msg_id])) (\<lambda>seen'. Inr (True, seen')))"

section \<open>Publishing and forwarding\<close>

type_synonym 'w sender = "nat \<Rightarrow> bytes \<Rightarrow> 'w \<Rightarrow> (py_exn + unit) \<times> 'w"

text \<open>Encode and send on each of the given transports in turn, counting; a raise ends the loop.\<close>

fun send_each ::
  "router_config \<Rightarrow> 'w sender \<Rightarrow> (router_metrics \<Rightarrow> router_metrics) \<Rightarrow> envelope \<Rightarrow> nat list \<Rightarrow>
     router_metrics \<Rightarrow> 'w \<Rightarrow> (codec_exn + unit) \<times> router_metrics \<times> 'w" where
  "send_each C send count env [] mt w = (Inr (), mt, w)"
| "send_each C send count env (i # is) mt w =
     (case wc_encode (codec_for C i) env of
        Inl e \<Rightarrow> (Inl e, mt, w)
      | Inr data \<Rightarrow>
          case send i data w of
            (Inl e, w') \<Rightarrow> (Inl (CodecRaised e), mt, w')
          | (Inr _, w') \<Rightarrow> send_each C send count env is (count mt) w')"

definition publish ::
  "router_config \<Rightarrow> 'w sender \<Rightarrow> envelope \<Rightarrow> router \<Rightarrow> 'w \<Rightarrow> (codec_exn + unit) \<times> router \<times> 'w" where
  "publish C send env r w =
     (case mark_seen (rc_dedupe_cache_size C) (env_msg_id env) (ro_seen r) of
        Inl e \<Rightarrow> (Inl (CodecRaised e), r, w)
      | Inr (_, seen) \<Rightarrow>
          case send_each C send (\<lambda>m. m\<lparr>tx := Suc (tx m)\<rparr>) env [0..<length (rc_transports C)] (ro_metrics r) w of
            (res, mt, w') \<Rightarrow> (res, r\<lparr>ro_seen := seen, ro_metrics := mt\<rparr>, w'))"

text \<open>
  One iteration of the pump of transport \<open>src\<close> on a received frame.  What a subscriber raises is
  swallowed, so the subscribers show up only in \<open>ro_delivered\<close>.
\<close>

definition pump_frame ::
  "router_config \<Rightarrow> 'w sender \<Rightarrow> nat \<Rightarrow> bytes \<Rightarrow> router \<Rightarrow> 'w \<Rightarrow> (codec_exn + unit) \<times> router \<times> 'w" where
  "pump_frame C send src data r w =
     (let mt = ro_metrics r
      in case wc_decode (codec_for C src) data of
           Inl IncompatibleSchemaError \<Rightarrow>
             (Inr (), r\<lparr>ro_metrics := mt\<lparr>schema_mismatch := Suc (schema_mismatch mt)\<rparr>\<rparr>, w)
         | Inl _ \<Rightarrow>
             (Inr (), r\<lparr>ro_metrics := mt\<lparr>dropped_undecodable := Suc (dropped_undecodable mt)\<rparr>\<rparr>, w)
         | Inr env \<Rightarrow>
             let r1 = r\<lparr>ro_metrics := mt\<lparr>rx := Suc (rx mt)\<rparr>\<rparr>
             in case mark_seen (rc_dedupe_cache_size C) (env_msg_id env) (ro_seen r1) of
                  Inl e \<Rightarrow> (Inl (CodecRaised e), r1, w)
                | Inr (False, seen) \<Rightarrow> (Inr (), r1\<lparr>ro_seen := seen\<rparr>, w)
                | Inr (True, seen) \<Rightarrow>
                    let r2 = r1\<lparr>ro_seen := seen, ro_delivered := ro_delivered r1 @ [env]\<rparr>;
                        others = filter (\<lambda>i. i \<noteq> src) [0..<length (rc_transports C)]
                    in case send_each C send (\<lambda>m. m\<lparr>forwarded := Suc (forwarded m)\<rparr>) env others (ro_metrics r2) w of
                         (res, mt', w') \<Rightarrow> (res, r2\<lparr>ro_metrics := mt'\<rparr>, w'))"

text \<open>The pump as a task: a raise ends it, and a dead pump takes no more frames.\<close>

definition pump_task ::
  "router_config \<Rightarrow> 'w sender \<Rightarrow> nat \<Rightarrow> bytes \<Rightarrow> router \<times> 'w \<Rightarrow> router \<times> 'w" where
  "pump_task C send src data = (\<lambda>(r, w).
     if src \<in> ro_dead r then (r, w)
     else case pump_frame C send src data r w of
       (Inr _, r', w') \<Rightarrow> (r', w')
     | (Inl _, r', w') \<Rightarrow> (r'\<lparr>ro_dead := insert src (ro_dead r')\<rparr>, w'))"

section \<open>The duplicate filter\<close>

lemma evict_loop_ok:
  "0 \<le> cap \<Longrightarrow> evict_loop cap xs = Inr (drop (length xs - nat cap) xs)"
  by (induction xs) (auto simp: Suc_diff_le)

lemma mark_seen_ok:
  assumes "0 \<le> cap"
  shows "mark_seen cap m seen =
    Inr (if m \<in> set seen then (False, seen)
         else (True, drop (Suc (length seen) - nat cap) (seen @ [m])))"
  using assms by (simp add: mark_seen_def evict_loop_ok)

definition seen_inv :: "int \<Rightarrow> string list \<Rightarrow> bool" where
  "seen_inv cap seen \<longleftrightarrow> distinct seen \<and> int (length seen) \<le> max 0 cap"

lemma distinct_drop_snoc: "distinct xs \<Longrightarrow> m \<notin> set xs \<Longrightarrow> distinct (drop n (xs @ [m]))"
  by (rule distinct_drop) simp

lemma mark_seen_inv:
  assumes "seen_inv cap seen" "0 \<le> cap" "mark_seen cap m seen = Inr (b, seen')"
  shows "seen_inv cap seen'"
  using assms
  by (auto simp: mark_seen_ok seen_inv_def simp del: drop_append intro!: distinct_drop_snoc
      split: if_splits)

text \<open>A message just seen is remembered, until as many others as the cache holds come after it.\<close>

lemma mark_seen_remembers:
  assumes "1 \<le> cap" "mark_seen cap m seen = Inr (b, seen')"
  shows "m \<in> set seen'"
  using assms by (auto simp: mark_seen_ok drop_append split: if_splits)

lemma mark_seen_keeps:
  assumes "0 \<le> cap" "mark_seen cap m seen = Inr (b, seen')" "int (length seen) < cap"
  shows "set seen' = insert m (set seen)"
  using assms by (auto simp: mark_seen_ok nat_less_iff split: if_splits)

section \<open>What a pump does\<close>

lemma send_each_seen:
  "send_each C send count env is mt w = (res, mt', w') \<Longrightarrow>
   \<exists>k \<le> length is. mt' = (count ^^ k) mt \<and> (res = Inr () \<longrightarrow> k = length is)"
proof (induction "is" arbitrary: mt w)
  case Nil
  then show ?case by auto
next
  case (Cons i "is")
  show ?case
  proof (cases "\<exists>data w1. wc_encode (codec_for C i) env = Inr data \<and> send i data w = (Inr (), w1)")
    case True
    then obtain data w1 where "wc_encode (codec_for C i) env = Inr data" "send i data w = (Inr (), w1)"
      by blast
    with Cons.prems have "send_each C send count env is (count mt) w1 = (res, mt', w')" by simp
    from Cons.IH [OF this] obtain k where "k \<le> length is" "mt' = (count ^^ k) (count mt)"
      "res = Inr () \<longrightarrow> k = length is" by blast
    then show ?thesis by (intro exI [of _ "Suc k"]) (simp add: funpow_swap1)
  next
    case False
    then have "mt' = mt \<and> res \<noteq> Inr ()"
      using Cons.prems by (auto split: sum.splits prod.splits)
    then show ?thesis by (intro exI [of _ 0]) simp
  qed
qed

lemma count_funpow [simp]:
  "((\<lambda>m. m\<lparr>forwarded := Suc (forwarded m)\<rparr>) ^^ k) mt = mt\<lparr>forwarded := forwarded mt + k\<rparr>"
  "((\<lambda>m. m\<lparr>tx := Suc (tx m)\<rparr>) ^^ k) mt = mt\<lparr>tx := tx mt + k\<rparr>"
  by (induction k) simp_all

text \<open>The sends of a router on a world that only logs them.\<close>

definition log_send :: "(nat \<times> bytes) list sender" where
  "log_send i data w = (Inr (), w @ [(i, data)])"

lemma send_each_log:
  "send_each C log_send count env is mt w = (res, mt', w') \<Longrightarrow>
   \<exists>sent. w' = w @ sent \<and> prefix (map fst sent) is \<and> (res = Inr () \<longrightarrow> map fst sent = is) \<and>
     (\<forall>(i, data) \<in> set sent. wc_encode (codec_for C i) env = Inr data)"
proof (induction "is" arbitrary: mt w)
  case Nil
  then show ?case by simp
next
  case (Cons i "is")
  show ?case
  proof (cases "wc_encode (codec_for C i) env")
    case (Inl e)
    with Cons.prems show ?thesis by auto
  next
    case (Inr data)
    have "log_send i data w = (Inr (), w @ [(i, data)])" by (simp add: log_send_def)
    with Inr Cons.prems have "send_each C log_send count env is (count mt) (w @ [(i, data)]) = (res, mt', w')"
      by simp
    from Cons.IH [OF this] obtain sent where "w' = w @ [(i, data)] @ sent" "prefix (map fst sent) is"
      "res = Inr () \<longrightarrow> map fst sent = is"
      "\<forall>(i, data) \<in> set sent. wc_encode (codec_for C i) env = Inr data" by auto
    with Inr show ?thesis by (intro exI [of _ "(i, data) # sent"]) auto
  qed
qed

text \<open>Every frame a live pump takes is counted in exactly one way, and a duplicate goes nowhere.\<close>

definition accounted :: "router_metrics \<Rightarrow> nat" where
  "accounted m = rx m + dropped_undecodable m + schema_mismatch m"

lemma pump_frame_accounted:
  assumes "pump_frame C send src data r w = (res, r', w')"
  shows "accounted (ro_metrics r') = Suc (accounted (ro_metrics r))"
  using assms
  by (auto simp: pump_frame_def Let_def accounted_def
      split: sum.splits codec_exn.splits prod.splits bool.splits dest!: send_each_seen)

lemma pump_frame_duplicate:
  assumes "wc_decode (codec_for C src) data = Inr env" "env_msg_id env \<in> set (ro_seen r)"
  shows "pump_frame C send src data r w =
    (Inr (), r\<lparr>ro_metrics := (ro_metrics r)\<lparr>rx := Suc (rx (ro_metrics r))\<rparr>\<rparr>, w)"
  using assms by (simp add: pump_frame_def Let_def mark_seen_def)

lemma pump_frame_fresh:
  assumes "wc_decode (codec_for C src) data = Inr env" "env_msg_id env \<notin> set (ro_seen r)"
    and "0 \<le> rc_dedupe_cache_size C"
    and "pump_frame C log_send src data r w = (res, r', w')"
  shows "ro_delivered r' = ro_delivered r @ [env] \<and>
    (\<exists>sent. w' = w @ sent \<and> src \<notin> fst ` set sent \<and> distinct (map fst sent) \<and>
      (\<forall>(i, d) \<in> set sent. i < length (rc_transports C) \<and> wc_encode (codec_for C i) env = Inr d) \<and>
      (res = Inr () \<longrightarrow> fst ` set sent = {i. i < length (rc_transports C) \<and> i \<noteq> src}))"
proof -
  let ?others = "filter (\<lambda>i. i \<noteq> src) [0..<length (rc_transports C)]"
  obtain seen where seen: "mark_seen (rc_dedupe_cache_size C) (env_msg_id env) (ro_seen r) = Inr (True, seen)"
    using assms(2,3) by (simp add: mark_seen_ok)
  obtain mt mt' where "send_each C log_send (\<lambda>m. m\<lparr>forwarded := Suc (forwarded m)\<rparr>) env ?others mt w = (res, mt', w')"
    and d: "ro_delivered r' = ro_delivered r @ [env]"
    using assms(1,4) seen by (auto simp: pump_frame_def Let_def split: prod.splits)
  from send_each_log [OF this(1)] obtain sent where s: "w' = w @ sent" "prefix (map fst sent) ?others"
    "res = Inr () \<longrightarrow> map fst sent = ?others"
    "\<forall>(i, data) \<in> set sent. wc_encode (codec_for C i) env = Inr data" by blast
  have sub: "fst ` set sent \<subseteq> set ?others" using set_mono_prefix [OF s(2)] by simp
  obtain rest where "?others = map fst sent @ rest" using s(2) by (auto simp: prefix_def)
  moreover have "distinct ?others" by simp
  ultimately have dist: "distinct (map fst sent)" by (metis distinct_append)
  have all: "fst ` set sent = {i. i < length (rc_transports C) \<and> i \<noteq> src}" if "res = Inr ()"
  proof -
    have "fst ` set sent = set ?others" using s(3) that by (metis list.set_map)
    then show ?thesis by auto
  qed
  have src: "src \<notin> fst ` set sent" using sub by auto
  have idx: "\<forall>(i, d) \<in> set sent. i < length (rc_transports C) \<and> wc_encode (codec_for C i) env = Inr d"
    using s(4) sub by (auto simp: image_subset_iff)
  show ?thesis using d s(1) dist all src idx by blast
qed

lemma pump_frame_seen:
  assumes "pump_frame C send src data r w = (res, r', w')"
  shows "ro_seen r' = ro_seen r \<or>
    (\<exists>m b. mark_seen (rc_dedupe_cache_size C) m (ro_seen r) = Inr (b, ro_seen r'))"
proof (cases "wc_decode (codec_for C src) data")
  case (Inl x)
  with assms show ?thesis by (cases x) (auto simp: pump_frame_def Let_def)
next
  case env: (Inr env)
  show ?thesis
  proof (cases "mark_seen (rc_dedupe_cache_size C) (env_msg_id env) (ro_seen r)")
    case (Inl e)
    with assms env show ?thesis by (auto simp: pump_frame_def Let_def)
  next
    case (Inr p)
    obtain b seen where p: "p = (b, seen)" by (cases p)
    have "ro_seen r' = seen"
      using assms env Inr p by (cases b) (auto simp: pump_frame_def Let_def split: prod.splits)
    with Inr p show ?thesis by blast
  qed
qed

lemma seen_inv_pump:
  assumes "seen_inv (rc_dedupe_cache_size C) (ro_seen r)" "0 \<le> rc_dedupe_cache_size C"
    and "pump_frame C send src data r w = (res, r', w')"
  shows "seen_inv (rc_dedupe_cache_size C) (ro_seen r')"
  using pump_frame_seen [OF assms(3)] mark_seen_inv [OF assms(1,2)] assms(1) by metis

end
