(* ===== verification/Compact_Codec.thy ===== *)
theory Compact_Codec
  imports Mesh_Models Struct_Codec Command_Spec
begin

text \<open>
  The binary codec for LoRa-sized links, \<^verbatim>\<open>meshsa/compact.py\<close>.  The payload of an envelope is
  untyped JSON, so every lookup, conversion and packing of a field is a branch that may raise.
  \<open>dumps\<close> and \<open>loads\<close> stand for \<^verbatim>\<open>json.dumps\<close> and \<^verbatim>\<open>json.loads\<close> of a whole payload (used by the
  fallback body only) and \<open>repr\<close> for \<^verbatim>\<open>str()\<close> of a value that is not a string, an integer, a
  boolean or null.
\<close>

section \<open>Constants and conversions\<close>

fun kind_index :: "message_kind \<Rightarrow> nat" where
  "kind_index Pli = 0" | "kind_index Chat = 1" | "kind_index Marker = 2" | "kind_index StatusMsg = 3"

definition KINDS :: "message_kind list" where
  "KINDS = [Pli, Chat, Marker, StatusMsg]"

definition TIERS :: "string list" where
  "TIERS = [''user'', ''backbone'', ''base'']"

definition U16_MAX :: int where "U16_MAX = 0xFFFF"

definition is_position_kind :: "message_kind \<Rightarrow> bool" where
  "is_position_kind k \<longleftrightarrow> k = Pli \<or> k = Marker"

text \<open>\<^verbatim>\<open>int(x)\<close> of a float: towards zero.\<close>

fun py_int_of_float :: "pyfloat \<Rightarrow> py_exn + int" where
  "py_int_of_float (Fin r) = Inr (if 0 \<le> r then \<lfloor>r\<rfloor> else \<lceil>r\<rceil>)"
| "py_int_of_float NaN = Inl ValueError"
| "py_int_of_float _ = Inl OverflowError"

text \<open>\<^verbatim>\<open>int(round(v))\<close> of a payload value.\<close>

definition json_round :: "json \<Rightarrow> py_exn + int" where
  "json_round v =
     (case v of
        JInt i \<Rightarrow> Inr i
      | JBool b \<Rightarrow> Inr (if b then 1 else 0)
      | JFloat f \<Rightarrow> int_round f
      | _ \<Rightarrow> Inl TypeError)"

definition clamp_u16 :: "json \<Rightarrow> py_exn + int" where
  "clamp_u16 v = then_ok (json_round v) (\<lambda>iv.
     Inr (if iv < 0 then 0 else if iv < U16_MAX then iv else U16_MAX))"

text \<open>\<^verbatim>\<open>v or ""\<close>, and the text of it: only a string can be encoded.\<close>

definition str_or_empty :: "json option \<Rightarrow> py_exn + string" where
  "str_or_empty v =
     (case v of
        None \<Rightarrow> Inr []
      | Some j \<Rightarrow> if \<not> truthy j then Inr [] else (case j of JStr s \<Rightarrow> Inr s | _ \<Rightarrow> Inl AttributeError))"

section \<open>Encoding\<close>

definition put_str :: "string \<Rightarrow> codec_exn + bytes" where
  "put_str s =
     (let b = utf8_encode s
      in if 255 < length b then Inl MeshSAError else Inr (word_of_nat (length b) # b))"

definition encode_position :: "(json \<Rightarrow> string) \<Rightarrow> envelope \<Rightarrow> codec_exn + bytes" where
  "encode_position repr env =
     (let node = (case map_of (env_payload env) ''node'' of None \<Rightarrow> JObj [] | Some j \<Rightarrow> j);
          pos = (case map_of (env_payload env) ''position'' of None \<Rightarrow> JObj [] | Some j \<Rightarrow> j)
      in then_ok (lift_py (then_ok (get_or pos ''lat'' (JFloat (Fin 0))) (\<lambda>v. then_ok (times_degE7 v) int_round))) (\<lambda>lat.
         then_ok (lift_py (then_ok (get_or pos ''lon'' (JFloat (Fin 0))) (\<lambda>v. then_ok (times_degE7 v) int_round))) (\<lambda>lon.
         then_ok (lift_py (then_ok (get_or pos ''hae'' (JFloat (Fin 0))) json_round)) (\<lambda>hae.
         then_ok (lift_py (then_ok (pack_s 4 lat) (\<lambda>a. then_ok (pack_s 4 lon) (\<lambda>b.
                   then_ok (pack_s 4 hae) (\<lambda>c. Inr (a @ b @ c)))))) (\<lambda>geo.
         then_ok (lift_py (then_ok (get_or pos ''ce'' (JInt U16_MAX)) clamp_u16)) (\<lambda>ce.
         then_ok (lift_py (then_ok (get_or pos ''le'' (JInt U16_MAX)) clamp_u16)) (\<lambda>le.
         then_ok (lift_py (then_ok (pack_u 2 ce) (\<lambda>a. then_ok (pack_u 2 le) (\<lambda>b. Inr (a @ b))))) (\<lambda>err.
         then_ok (lift_py (get_or node ''callsign'' (JStr (env_source_uid env)))) (\<lambda>cs.
         then_ok (put_str (py_str repr cs)) (\<lambda>csb.
         then_ok (lift_py (get_or node ''tier'' (JStr (TIERS ! 0)))) (\<lambda>tier.
           let t = py_str repr tier;
               idx = (if t \<in> set TIERS then length (takeWhile (\<lambda>x. x \<noteq> t) TIERS) else 0)
           in Inr (geo @ err @ csb @ [word_of_nat idx]))))))))))))"

definition encode_chat :: "envelope \<Rightarrow> codec_exn + bytes" where
  "encode_chat env =
     then_ok (lift_py (str_or_empty (map_of (env_payload env) ''to''))) (\<lambda>to.
     then_ok (put_str to) (\<lambda>tob.
     then_ok (lift_py (str_or_empty (map_of (env_payload env) ''text''))) (\<lambda>text.
       let tb = utf8_encode text
       in then_ok (lift_py (pack_u 2 (int (length tb)))) (\<lambda>len. Inr (tob @ len @ tb)))))"

definition encode_other :: "((string \<times> json) list \<Rightarrow> string) \<Rightarrow> envelope \<Rightarrow> codec_exn + bytes" where
  "encode_other dumps env =
     (let blob = utf8_encode (dumps (env_payload env))
      in then_ok (lift_py (pack_u 2 (int (length blob)))) (\<lambda>len. Inr (len @ blob)))"

definition compact_encode ::
  "(json \<Rightarrow> string) \<Rightarrow> ((string \<times> json) list \<Rightarrow> string) \<Rightarrow> envelope \<Rightarrow> codec_exn + bytes" where
  "compact_encode repr dumps env =
     then_ok (lift_py (py_int_of_float (env_ts env))) (\<lambda>ts.
     then_ok (put_str (env_source_uid env)) (\<lambda>uid.
     then_ok (put_str (env_msg_id env)) (\<lambda>mid.
     then_ok (if is_position_kind (env_kind env) then encode_position repr env
              else if env_kind env = Chat then encode_chat env
              else encode_other dumps env) (\<lambda>body.
       Inr ([word_of_int (env_schema_version env), word_of_nat (kind_index (env_kind env))]
            @ be_bytes 4 (ts mod 2 ^ 32) @ uid @ mid @ body)))))"

section \<open>Decoding\<close>

text \<open>The text at an offset and the offset after it; a slice past the end is just shorter.\<close>

definition get_str :: "bytes \<Rightarrow> nat \<Rightarrow> py_exn + string \<times> nat" where
  "get_str data off =
     (if length data \<le> off then Inl IndexError
      else
        let n = unat (data ! off)
        in case utf8_decode (take n (drop (off + 1) data)) of
             None \<Rightarrow> Inl ValueError
           | Some s \<Rightarrow> Inr (s, off + 1 + n))"

definition decode_position :: "bytes \<Rightarrow> nat \<Rightarrow> string \<Rightarrow> py_exn + json" where
  "decode_position data off uid =
     then_ok (unpack_s data off 4) (\<lambda>lat_e7.
     then_ok (unpack_s data (off + 4) 4) (\<lambda>lon_e7.
     then_ok (unpack_s data (off + 8) 4) (\<lambda>hae.
     then_ok (unpack_u data (off + 12) 2) (\<lambda>ce.
     then_ok (unpack_u data (off + 14) 2) (\<lambda>le.
     then_ok (get_str data (off + 16)) (\<lambda>(callsign, off').
       if length data \<le> off' then Inl IndexError
       else
         let tier_idx = unat (data ! off')
         in if length TIERS \<le> tier_idx then Inl IndexError
            else Inr (JObj
              [(''node'', JObj [(''uid'', JStr uid), (''callsign'', JStr callsign), (''tier'', JStr (TIERS ! tier_idx))]),
               (''position'', JObj
                 [(''lat'', JFloat (Fin (real_of_int lat_e7 / DEGE7))),
                  (''lon'', JFloat (Fin (real_of_int lon_e7 / DEGE7))),
                  (''hae'', JFloat (Fin (real_of_int hae))),
                  (''ce'', JFloat (Fin (real_of_int ce))),
                  (''le'', JFloat (Fin (real_of_int le)))])])))))))"

definition decode_chat :: "bytes \<Rightarrow> nat \<Rightarrow> py_exn + json" where
  "decode_chat data off =
     then_ok (get_str data off) (\<lambda>(to, off1).
     then_ok (unpack_u data off1 2) (\<lambda>tlen.
       case utf8_decode (take (nat tlen) (drop (off1 + 2) data)) of
         None \<Rightarrow> Inl ValueError
       | Some text \<Rightarrow>
           Inr (JObj [(''text'', JStr text), (''to'', (if to = [] then JNull else JStr to))])))"

definition decode_other :: "(string \<Rightarrow> py_exn + json) \<Rightarrow> bytes \<Rightarrow> nat \<Rightarrow> py_exn + json" where
  "decode_other loads data off =
     then_ok (unpack_u data off 2) (\<lambda>blen.
       case utf8_decode (take (nat blen) (drop (off + 2) data)) of
         None \<Rightarrow> Inl ValueError
       | Some text \<Rightarrow> loads text)"

definition decode_fields ::
  "(string \<Rightarrow> py_exn + json) \<Rightarrow> bytes \<Rightarrow> py_exn + message_kind \<times> int \<times> string \<times> string \<times> json" where
  "decode_fields loads data =
     (if length data \<le> 1 \<or> length KINDS \<le> unat (data ! 1) then Inl IndexError
      else
        let kind = KINDS ! unat (data ! 1)
        in then_ok (unpack_u data 2 4) (\<lambda>ts.
           then_ok (get_str data 6) (\<lambda>(uid, off1).
           then_ok (get_str data off1) (\<lambda>(mid, off2).
           then_ok (if is_position_kind kind then decode_position data off2 uid
                    else if kind = Chat then decode_chat data off2
                    else decode_other loads data off2) (\<lambda>payload.
             Inr (kind, ts, uid, mid, payload))))))"

text \<open>
  Every exception of the parse is a MeshSAError except the schema's; the constructor of the
  envelope, outside the \<^verbatim>\<open>try\<close>, rejects a payload that is not an object.
\<close>

definition compact_decode ::
  "(string \<Rightarrow> py_exn + json) \<Rightarrow> int set \<Rightarrow> bytes \<Rightarrow> codec_exn + envelope" where
  "compact_decode loads supported data =
     (if data = [] then Inl MeshSAError
      else if uint (data ! 0) \<notin> supported then Inl IncompatibleSchemaError
      else case decode_fields loads data of
        Inl _ \<Rightarrow> Inl MeshSAError
      | Inr (kind, ts, uid, mid, payload) \<Rightarrow>
          (case payload of
             JObj kvs \<Rightarrow>
               Inr \<lparr>env_schema_version = uint (data ! 0), env_msg_id = mid,
                    env_ts = Fin (real_of_int ts), env_source_uid = uid, env_kind = kind,
                    env_payload = kvs\<rparr>
           | _ \<Rightarrow> Inl (CodecRaised ValueError)))"

section \<open>Round trips\<close>

lemma put_str_ok: "length s \<le> 255 \<Longrightarrow> put_str s = Inr (word_of_nat (length s) # utf8_encode s)"
  by (simp add: put_str_def)

lemma get_str_at:
  assumes "length a = i" "length s \<le> 255" "text_ok s"
  shows "get_str (a @ word_of_nat (length s) # utf8_encode s @ b) i = Inr (s, i + 1 + length s)"
proof -
  have "unat (word_of_nat (length s) :: byte) = length s" using assms(2) by (simp add: unat_byte_of_nat)
  then show ?thesis
    using assms by (simp add: get_str_def nth_append utf8_decode_encode)
qed

text \<open>The envelope that a node publishes for a position: the dump of its models.\<close>

definition pli_payload ::
  "string \<Rightarrow> string \<Rightarrow> string \<Rightarrow> real \<Rightarrow> real \<Rightarrow> real \<Rightarrow> real \<Rightarrow> real \<Rightarrow> (string \<times> json) list" where
  "pli_payload uid callsign tier lat lon hae ce le =
     [(''node'', JObj [(''uid'', JStr uid), (''callsign'', JStr callsign), (''tier'', JStr tier)]),
      (''position'', JObj [(''lat'', JFloat (Fin lat)), (''lon'', JFloat (Fin lon)),
         (''hae'', JFloat (Fin hae)), (''ce'', JFloat (Fin ce)), (''le'', JFloat (Fin le))])]"

definition clamp_int :: "int \<Rightarrow> int" where
  "clamp_int v = (if v < 0 then 0 else if v < U16_MAX then v else U16_MAX)"

lemma clamp_int_range: "0 \<le> clamp_int v" "clamp_int v < 256 ^ 2"
  by (simp_all add: clamp_int_def U16_MAX_def)

definition header_bytes :: "envelope \<Rightarrow> int \<Rightarrow> bytes" where
  "header_bytes env ts =
     [word_of_int (env_schema_version env), word_of_nat (kind_index (env_kind env))] @ be_bytes 4 (ts mod 2 ^ 32)
     @ (word_of_nat (length (env_source_uid env)) # utf8_encode (env_source_uid env))
     @ (word_of_nat (length (env_msg_id env)) # utf8_encode (env_msg_id env))"

definition header_ok :: "int set \<Rightarrow> envelope \<Rightarrow> int \<Rightarrow> bool" where
  "header_ok supported env ts \<longleftrightarrow>
     0 \<le> env_schema_version env \<and> env_schema_version env < 256 \<and> env_schema_version env \<in> supported \<and>
     py_int_of_float (env_ts env) = Inr ts \<and> 0 \<le> ts \<and> ts < 2 ^ 32 \<and>
     length (env_source_uid env) \<le> 255 \<and> text_ok (env_source_uid env) \<and>
     length (env_msg_id env) \<le> 255 \<and> text_ok (env_msg_id env)"

lemma length_header:
  "length (header_bytes env ts) = 8 + length (env_source_uid env) + length (env_msg_id env)"
  by (simp add: header_bytes_def)

lemma kind_of_index: "kind_index k < 4" "KINDS ! kind_index k = k"
  by (cases k; simp add: KINDS_def)+

lemma decode_fields_header:
  assumes "header_ok supported env ts"
  shows "decode_fields loads (header_bytes env ts @ body) =
    then_ok (if is_position_kind (env_kind env)
             then decode_position (header_bytes env ts @ body) (length (header_bytes env ts)) (env_source_uid env)
             else if env_kind env = Chat
             then decode_chat (header_bytes env ts @ body) (length (header_bytes env ts))
             else decode_other loads (header_bytes env ts @ body) (length (header_bytes env ts)))
      (\<lambda>payload. Inr (env_kind env, ts, env_source_uid env, env_msg_id env, payload))"
proof -
  let ?d = "header_bytes env ts @ body"
  let ?s = "word_of_int (env_schema_version env) :: byte" and ?k = "word_of_nat (kind_index (env_kind env)) :: byte"
  let ?u = "env_source_uid env" and ?m = "env_msg_id env"
  have k: "?d ! 1 = ?k" by (simp add: header_bytes_def)
  have uk: "unat ?k = kind_index (env_kind env)"
    using kind_of_index(1) [of "env_kind env"] by (intro unat_byte_of_nat) simp
  have t: "unpack_u ?d 2 4 = Inr ts"
  proof -
    have "ts mod 2 ^ 32 = ts" "0 \<le> ts" "ts < 256 ^ 4" using assms by (auto simp: header_ok_def)
    moreover have "?d = [?s, ?k] @ be_bytes 4 (ts mod 2 ^ 32) @ (drop 6 ?d)"
      by (simp add: header_bytes_def)
    ultimately show ?thesis using unpack_u_at [of "[?s, ?k]" 2 ts 4 "drop 6 ?d"] by simp
  qed
  have u: "get_str ?d 6 = Inr (?u, 7 + length ?u)"
    using get_str_at [of "[?s, ?k] @ be_bytes 4 (ts mod 2 ^ 32)" 6 ?u
        "(word_of_nat (length ?m) # utf8_encode ?m) @ body"] assms
    by (simp add: header_bytes_def header_ok_def)
  have m: "get_str ?d (7 + length ?u) = Inr (?m, length (header_bytes env ts))"
    using get_str_at [of "[?s, ?k] @ be_bytes 4 (ts mod 2 ^ 32) @ (word_of_nat (length ?u) # utf8_encode ?u)"
        "7 + length ?u" ?m body] assms
    by (simp add: header_bytes_def header_ok_def)
  have l: "\<not> (length ?d \<le> 1 \<or> length KINDS \<le> unat (?d ! 1))"
    unfolding k uk using kind_of_index(1) [of "env_kind env"] by (simp add: length_header KINDS_def)
  show ?thesis
    unfolding decode_fields_def if_not_P [OF l] unfolding k uk kind_of_index(2) Let_def t u m
      then_ok_simps prod.case ..
qed

lemma compact_encode_header:
  assumes "header_ok supported env ts"
  shows "compact_encode repr dumps env =
    then_ok (if is_position_kind (env_kind env) then encode_position repr env
             else if env_kind env = Chat then encode_chat env
             else encode_other dumps env) (\<lambda>body. Inr (header_bytes env ts @ body))"
  using assms by (simp add: compact_encode_def header_ok_def put_str_ok header_bytes_def)

lemma compact_decode_header:
  assumes "header_ok supported env ts"
  shows "compact_decode loads supported (header_bytes env ts @ body) =
    (case decode_fields loads (header_bytes env ts @ body) of
       Inl _ \<Rightarrow> Inl MeshSAError
     | Inr (kind, ts, uid, mid, payload) \<Rightarrow>
         (case payload of
            JObj kvs \<Rightarrow>
              Inr \<lparr>env_schema_version = env_schema_version env, env_msg_id = mid,
                   env_ts = Fin (real_of_int ts), env_source_uid = uid, env_kind = kind,
                   env_payload = kvs\<rparr>
          | _ \<Rightarrow> Inl (CodecRaised ValueError)))"
proof -
  have sv: "uint ((header_bytes env ts @ body) ! 0) = env_schema_version env"
    using assms by (simp add: header_bytes_def header_ok_def uint_word_of_int)
  have ne: "header_bytes env ts @ body \<noteq> []" by (simp add: header_bytes_def)
  have ok: "\<not> env_schema_version env \<notin> supported" using assms by (simp add: header_ok_def)
  show ?thesis unfolding compact_decode_def sv if_not_P [OF ne] if_not_P [OF ok] ..
qed

text \<open>The body of a position.\<close>

definition position_body :: "int \<Rightarrow> int \<Rightarrow> int \<Rightarrow> int \<Rightarrow> int \<Rightarrow> string \<Rightarrow> nat \<Rightarrow> bytes" where
  "position_body lat lon hae ce le callsign tier =
     be_bytes 4 lat @ be_bytes 4 lon @ be_bytes 4 hae @ be_bytes 2 ce @ be_bytes 2 le
     @ (word_of_nat (length callsign) # utf8_encode callsign) @ [word_of_nat tier]"

definition i32 :: "int \<Rightarrow> bool" where
  "i32 v \<longleftrightarrow> - (2 ^ 31) \<le> v \<and> v < 2 ^ 31"

lemma pack_i32: "i32 v \<Longrightarrow> pack_s 4 v = Inr (be_bytes 4 v)"
  by (simp add: pack_s_def i32_def)

lemma unpack_i32: "length a = i \<Longrightarrow> i32 v \<Longrightarrow> unpack_s (a @ be_bytes 4 v @ b) i 4 = Inr v"
  by (rule unpack_s_at) (simp_all add: i32_def)

lemma decode_position_body:
  assumes "i32 lat" "i32 lon" "i32 hae" "0 \<le> ce" "ce < 256 ^ 2" "0 \<le> le" "le < 256 ^ 2"
    and "length callsign \<le> 255" "text_ok callsign" "tier < 3"
  shows "decode_position (h @ position_body lat lon hae ce le callsign tier) (length h) uid =
    Inr (JObj (pli_payload uid callsign (TIERS ! tier)
      (real_of_int lat / DEGE7) (real_of_int lon / DEGE7) (real_of_int hae) (real_of_int ce) (real_of_int le)))"
proof -
  let ?d = "h @ position_body lat lon hae ce le callsign tier"
  let ?cs = "word_of_nat (length callsign) # utf8_encode callsign" and ?t = "[word_of_nat tier] :: bytes"
  have d: "?d = h @ be_bytes 4 lat @ be_bytes 4 lon @ be_bytes 4 hae @ be_bytes 2 ce @ be_bytes 2 le @ ?cs @ ?t"
    by (simp add: position_body_def)
  have a: "unpack_s ?d (length h) 4 = Inr lat" unfolding d by (rule unpack_i32) (use assms in simp_all)
  have b: "unpack_s ?d (length h + 4) 4 = Inr lon"
    using unpack_i32 [of "h @ be_bytes 4 lat" "length h + 4" lon] assms by (simp add: d)
  have c: "unpack_s ?d (length h + 8) 4 = Inr hae"
    using unpack_i32 [of "h @ be_bytes 4 lat @ be_bytes 4 lon" "length h + 8" hae] assms by (simp add: d)
  have e: "unpack_u ?d (length h + 12) 2 = Inr ce"
    using unpack_u_at [of "h @ be_bytes 4 lat @ be_bytes 4 lon @ be_bytes 4 hae" "length h + 12" ce 2] assms
    by (simp add: d)
  have f: "unpack_u ?d (length h + 14) 2 = Inr le"
    using unpack_u_at [of "h @ be_bytes 4 lat @ be_bytes 4 lon @ be_bytes 4 hae @ be_bytes 2 ce"
        "length h + 14" le 2] assms by (simp add: d)
  have g: "get_str ?d (length h + 16) = Inr (callsign, length h + 17 + length callsign)"
    using get_str_at [of "h @ be_bytes 4 lat @ be_bytes 4 lon @ be_bytes 4 hae @ be_bytes 2 ce @ be_bytes 2 le"
        "length h + 16" callsign ?t] assms by (simp add: d)
  have t: "?d ! (length h + 17 + length callsign) = word_of_nat tier"
    by (simp add: d nth_append)
  have ut: "unat (word_of_nat tier :: byte) = tier" using assms(10) by (simp add: unat_byte_of_nat)
  have l: "\<not> length ?d \<le> length h + 17 + length callsign" by (simp add: d)
  show ?thesis
    unfolding decode_position_def a b c e f g then_ok_simps prod.case if_not_P [OF l] t ut Let_def
    using assms(10) by (simp add: TIERS_def pli_payload_def)
qed

text \<open>Scaling a coordinate to an integer and back moves it by at most half a unit of the scale.\<close>

definition scaled :: "real \<Rightarrow> int" where
  "scaled x = py_round (x * DEGE7)"

lemma scaled_error: "\<bar>real_of_int (scaled x) / DEGE7 - x\<bar> \<le> 1 / (2 * DEGE7)"
proof -
  have "real_of_int (scaled x) / DEGE7 - x = (real_of_int (scaled x) - x * DEGE7) / DEGE7"
    by (simp add: DEGE7_def field_simps)
  then show ?thesis
    using py_round_error [of "x * DEGE7"] by (simp add: scaled_def DEGE7_def abs_divide field_simps)
qed

lemma scaled_i32: "\<bar>x\<bar> \<le> 180 \<Longrightarrow> i32 (scaled x)"
  using py_round_bounds [of "x * DEGE7"] unfolding scaled_def i32_def DEGE7_def
  by (auto simp: abs_le_iff)

lemma encode_position_body:
  assumes "map_of (env_payload env) ''node'' = Some (JObj [(''uid'', JStr uid), (''callsign'', JStr callsign), (''tier'', JStr t)])"
    and "map_of (env_payload env) ''position'' = Some (JObj [(''lat'', JFloat (Fin lat)), (''lon'', JFloat (Fin lon)),
         (''hae'', JFloat (Fin hae)), (''ce'', JFloat (Fin ce)), (''le'', JFloat (Fin le))])"
    and "\<bar>lat\<bar> \<le> 180" "\<bar>lon\<bar> \<le> 180" "i32 (py_round hae)" "length callsign \<le> 255"
    and "t = TIERS ! tier" "tier < 3"
  shows "encode_position repr env =
    Inr (position_body (scaled lat) (scaled lon) (py_round hae) (clamp_int (py_round ce)) (clamp_int (py_round le))
      callsign tier)"
proof -
  have idx: "t \<in> set TIERS \<and> length (takeWhile (\<lambda>x. x \<noteq> t) TIERS) = tier"
    using assms(7,8) by (auto simp: TIERS_def less_Suc_eq numeral_3_eq_3)
  have u: "pack_u 2 (clamp_int v) = Inr (be_bytes 2 (clamp_int v))" for v
    using clamp_int_range [of v] by (simp add: pack_u_def)
  show ?thesis
    using assms(1-6) idx scaled_i32 [OF assms(3)] scaled_i32 [OF assms(4)]
    by (simp add: encode_position_def get_or_def times_degE7_def json_round_def clamp_u16_def
        pack_i32 put_str_ok py_str_def position_body_def u Let_def
        flip: scaled_def clamp_int_def)
qed

text \<open>A position report survives, rounded to the resolution of the wire.\<close>

lemma position_roundtrip:
  assumes "header_ok supported env ts" "is_position_kind (env_kind env)"
    and "env_payload env = pli_payload uid callsign (TIERS ! tier) lat lon hae ce le" "tier < 3"
    and "\<bar>lat\<bar> \<le> 180" "\<bar>lon\<bar> \<le> 180" "i32 (py_round hae)" "length callsign \<le> 255" "text_ok callsign"
  shows "\<exists>b. compact_encode repr dumps env = Inr b \<and>
    compact_decode loads supported b = Inr (env\<lparr>env_ts := Fin (real_of_int ts),
      env_payload := pli_payload (env_source_uid env) callsign (TIERS ! tier)
        (real_of_int (scaled lat) / DEGE7) (real_of_int (scaled lon) / DEGE7)
        (real_of_int (py_round hae)) (real_of_int (clamp_int (py_round ce)))
        (real_of_int (clamp_int (py_round le)))\<rparr>)"
proof -
  let ?body = "position_body (scaled lat) (scaled lon) (py_round hae) (clamp_int (py_round ce))
      (clamp_int (py_round le)) callsign tier"
  have enc: "encode_position repr env = Inr ?body"
    by (rule encode_position_body) (use assms in \<open>simp_all add: pli_payload_def\<close>)
  have dec: "decode_position (header_bytes env ts @ ?body) (length (header_bytes env ts)) (env_source_uid env) =
    Inr (JObj (pli_payload (env_source_uid env) callsign (TIERS ! tier)
      (real_of_int (scaled lat) / DEGE7) (real_of_int (scaled lon) / DEGE7) (real_of_int (py_round hae))
      (real_of_int (clamp_int (py_round ce))) (real_of_int (clamp_int (py_round le)))))"
    by (rule decode_position_body) (use assms scaled_i32 clamp_int_range in simp_all)
  show ?thesis
    by (rule exI [of _ "header_bytes env ts @ ?body"])
      (simp add: compact_encode_header [OF assms(1)] compact_decode_header [OF assms(1)]
        decode_fields_header [OF assms(1)] assms(2) enc dec)
qed

text \<open>Chat survives as it is.\<close>

definition chat_payload :: "string \<Rightarrow> string \<Rightarrow> (string \<times> json) list" where
  "chat_payload text to = [(''text'', JStr text), (''to'', (if to = [] then JNull else JStr to))]"

definition chat_body :: "string \<Rightarrow> string \<Rightarrow> bytes" where
  "chat_body text to =
     (word_of_nat (length to) # utf8_encode to) @ be_bytes 2 (int (length text)) @ utf8_encode text"

lemma decode_chat_body:
  assumes "length to \<le> 255" "text_ok to" "length text < 65536"
    and "k \<le> length text" "text_ok (take k text)"
  shows "decode_chat (h @ take (length to + 3 + k) (chat_body text to)) (length h) =
    Inr (JObj (chat_payload (take k text) to))"
proof -
  let ?to = "word_of_nat (length to) # utf8_encode to"
  let ?d = "h @ ?to @ be_bytes 2 (int (length text)) @ utf8_encode (take k text)"
  have cut: "h @ take (length to + 3 + k) (chat_body text to) = ?d"
    by (simp add: chat_body_def take_Cons' utf8_encode_def take_map)
  have a: "get_str ?d (length h) = Inr (to, length h + 1 + length to)"
    using get_str_at [of h "length h" to "be_bytes 2 (int (length text)) @ utf8_encode (take k text)"] assms
    by simp
  have b: "unpack_u ?d (length h + 1 + length to) 2 = Inr (int (length text))"
    using unpack_u_at [of "h @ ?to" "length h + 1 + length to" "int (length text)" 2] assms(3) by simp
  have c: "drop (length h + 1 + length to + 2) ?d = utf8_encode (take k text)"
    by (simp add: numeral_3_eq_3)
  have e: "take (nat (int (length text))) (utf8_encode (take k text)) = utf8_encode (take k text)"
    by simp
  show ?thesis
    unfolding cut decode_chat_def a b then_ok_simps prod.case c e utf8_decode_encode [OF assms(5)]
    by (simp add: chat_payload_def)
qed

lemma encode_chat_body:
  assumes "env_payload env = chat_payload text to" "length to \<le> 255" "length text < 65536"
  shows "encode_chat env = Inr (chat_body text to)"
  using assms
  by (simp add: encode_chat_def chat_payload_def str_or_empty_def put_str_ok pack_u_def chat_body_def Let_def)

lemma length_chat_body: "length (chat_body text to) = length to + 3 + length text"
  by (simp add: chat_body_def)

text \<open>
  A chat frame that lost its tail on the air is still decoded, as a shorter message: the length of
  the text is not checked against what is there.
\<close>

lemma chat_cut:
  assumes "header_ok supported env ts" "env_kind env = Chat" "env_payload env = chat_payload text to"
    and "length to \<le> 255" "text_ok to" "length text < 65536" "k \<le> length text" "text_ok (take k text)"
  shows "\<exists>b. compact_encode repr dumps env = Inr b \<and>
    compact_decode loads supported (take (length b - (length text - k)) b) =
      Inr (env\<lparr>env_ts := Fin (real_of_int ts), env_payload := chat_payload (take k text) to\<rparr>)"
proof -
  let ?h = "header_bytes env ts" and ?b = "chat_body text to"
  have nk: "\<not> is_position_kind Chat" by (simp add: is_position_kind_def)
  have "length (?h @ ?b) - (length text - k) = length ?h + (length to + 3 + k)"
    using assms(7) by (simp add: length_chat_body)
  then have cut: "take (length (?h @ ?b) - (length text - k)) (?h @ ?b) = ?h @ take (length to + 3 + k) ?b"
    by simp
  show ?thesis
    unfolding compact_encode_header [OF assms(1)] assms(2) if_not_P [OF nk] if_P [OF refl]
      encode_chat_body [OF assms(3,4,6)] then_ok_simps
    by (rule exI [of _ "?h @ ?b"], unfold cut)
      (simp add: compact_decode_header [OF assms(1)] decode_fields_header [OF assms(1)] assms(2) nk
        decode_chat_body [OF assms(4-8)])
qed

lemma chat_roundtrip:
  assumes "header_ok supported env ts" "env_kind env = Chat" "env_payload env = chat_payload text to"
    and "length to \<le> 255" "text_ok to" "length text < 65536" "text_ok text"
  shows "\<exists>b. compact_encode repr dumps env = Inr b \<and>
    compact_decode loads supported b = Inr (env\<lparr>env_ts := Fin (real_of_int ts)\<rparr>)"
proof -
  have "env\<lparr>env_ts := x, env_payload := chat_payload text to\<rparr> = env\<lparr>env_ts := x\<rparr>" for x
    using assms(3) by (cases env) simp
  then show ?thesis using chat_cut [OF assms(1-6) order_refl, of repr dumps loads] assms(7) by simp
qed

text \<open>Decoding never raises anything but the framework's errors, unless the payload is not an object.\<close>

lemma compact_decode_errors:
  assumes "compact_decode loads supported b = Inl (CodecRaised e)"
  shows "e = ValueError \<and> (\<exists>t j. loads t = Inr j \<and> (\<forall>kvs. j \<noteq> JObj kvs))"
proof -
  obtain kind ts uid mid payload where f: "decode_fields loads b = Inr (kind, ts, uid, mid, payload)"
    and p: "\<forall>kvs. payload \<noteq> JObj kvs" "e = ValueError"
    using assms by (auto simp: compact_decode_def split: if_splits sum.splits prod.splits json.splits)
  have "\<not> (decode_position b off uid = Inr payload)" "\<not> (decode_chat b off = Inr payload)" for off
    using p(1) by (auto simp: decode_position_def decode_chat_def then_ok_Inr_iff Let_def
        split: if_splits option.splits)
  then have "\<exists>off. decode_other loads b off = Inr payload"
    using f by (auto simp: decode_fields_def then_ok_Inr_iff Let_def split: if_splits)
  with p show ?thesis by (auto simp: decode_other_def then_ok_Inr_iff split: option.splits)
qed

end
