(* ===== verification/Transport_Core.thy ===== *)
theory Transport_Core
  imports Prelude
begin

text \<open>
  The plumbing the transports share: the bounded inbox (\<^verbatim>\<open>meshsa/transports/base.py\<close>), the
  in-process bus (\<^verbatim>\<open>loopback.py\<close>), the reconnect backoff (\<^verbatim>\<open>backoff.py\<close>) and the send pacer
  (\<^verbatim>\<open>pacing.py\<close>).  Sleeping is split in two: what is computed before, and what is done at the
  clock reading after.
\<close>

section \<open>The inbox\<close>

record inbox =
  ib_maxsize :: int
  ib_items :: "bytes list"
  ib_dropped :: nat

definition DROP_LOG_INTERVAL :: nat where "DROP_LOG_INTERVAL = 100"

text \<open>A queue of size zero or less is unbounded.\<close>

definition ib_room :: "inbox \<Rightarrow> bool" where
  "ib_room q \<longleftrightarrow> ib_maxsize q \<le> 0 \<or> int (length (ib_items q)) < ib_maxsize q"

definition ingest_nowait :: "inbox \<Rightarrow> bytes \<Rightarrow> inbox" where
  "ingest_nowait q data =
     (if ib_room q then q\<lparr>ib_items := ib_items q @ [data]\<rparr>
      else q\<lparr>ib_dropped := Suc (ib_dropped q)\<rparr>)"

definition ingest_warns :: "inbox \<Rightarrow> bool" where
  \<comment> \<open>whether the drop of the next item is logged\<close>
  "ingest_warns q \<longleftrightarrow>
     \<not> ib_room q \<and> (Suc (ib_dropped q) = 1 \<or> Suc (ib_dropped q) mod DROP_LOG_INTERVAL = 0)"

text \<open>\<^verbatim>\<open>stream\<close>: the consumer takes the oldest item.\<close>

definition inbox_take :: "inbox \<Rightarrow> (bytes \<times> inbox) option" where
  "inbox_take q = (case ib_items q of [] \<Rightarrow> None | x # xs \<Rightarrow> Some (x, q\<lparr>ib_items := xs\<rparr>))"

interpretation inbox_queue: drop_newest_queue ingest_nowait ib_items ib_dropped ib_room
  by unfold_locales (simp_all add: ingest_nowait_def)

lemma ingest_maxsize [simp]: "ib_maxsize (foldl ingest_nowait q xs) = ib_maxsize q"
  by (induction xs arbitrary: q) (simp_all add: ingest_nowait_def)

definition inbox_bounded :: "inbox \<Rightarrow> bool" where
  "inbox_bounded q \<longleftrightarrow> (0 < ib_maxsize q \<longrightarrow> int (length (ib_items q)) \<le> ib_maxsize q)"

interpretation inbox_machine: invariant_machine ingest_nowait inbox_bounded
  by unfold_locales (auto simp: ingest_nowait_def inbox_bounded_def ib_room_def)

section \<open>The loopback bus\<close>

text \<open>The members of a bus are the inboxes of its transports, in the order of attachment.\<close>

type_synonym bus = "inbox list"

definition bus_attach :: "inbox \<Rightarrow> bus \<Rightarrow> bus" where
  "bus_attach q b = b @ [q]"

fun broadcast_from :: "nat \<Rightarrow> nat \<Rightarrow> bytes \<Rightarrow> bus \<Rightarrow> bus" where
  \<comment> \<open>the second argument is the index of the first inbox of the list\<close>
  "broadcast_from sender k data [] = []"
| "broadcast_from sender k data (q # qs) =
     (if k \<noteq> sender then ingest_nowait q data else q) # broadcast_from sender (Suc k) data qs"

definition broadcast :: "nat \<Rightarrow> bytes \<Rightarrow> bus \<Rightarrow> bus" where
  "broadcast sender data b = broadcast_from sender 0 data b"

lemma broadcast_nth:
  "i < length b \<Longrightarrow>
   broadcast sender data b ! i = (if i = sender then b ! i else ingest_nowait (b ! i) data)"
proof -
  have "broadcast_from sender k data b ! i = (if k + i = sender then b ! i else ingest_nowait (b ! i) data)"
    if "i < length b" for k
    using that by (induction b arbitrary: i k) (auto simp: nth_Cons split: nat.split)
  then show "i < length b \<Longrightarrow> ?thesis" by (simp add: broadcast_def)
qed

lemma length_broadcast [simp]: "length (broadcast sender data b) = length b"
proof -
  have "length (broadcast_from sender k data b) = length b" for k
    by (induction b arbitrary: k) auto
  then show ?thesis by (simp add: broadcast_def)
qed

section \<open>Reconnect backoff\<close>

record backoff =
  bo_initial :: real
  bo_max :: real
  bo_factor :: real
  bo_current :: real

definition new_backoff :: "real \<Rightarrow> real \<Rightarrow> real \<Rightarrow> backoff" where
  "new_backoff initial maxi factor =
     \<lparr>bo_initial = initial, bo_max = maxi, bo_factor = factor, bo_current = initial\<rparr>"

definition backoff_reset :: "backoff \<Rightarrow> backoff" where
  "backoff_reset b = b\<lparr>bo_current := bo_initial b\<rparr>"

text \<open>The delay that is slept and the backoff after it.\<close>

definition sleep_and_advance :: "backoff \<Rightarrow> real \<times> backoff" where
  "sleep_and_advance b = (bo_current b, b\<lparr>bo_current := min (bo_current b * bo_factor b) (bo_max b)\<rparr>)"

fun delays :: "nat \<Rightarrow> backoff \<Rightarrow> real list" where
  "delays 0 b = []"
| "delays (Suc n) b = (case sleep_and_advance b of (d, b') \<Rightarrow> d # delays n b')"

definition delay_at :: "backoff \<Rightarrow> nat \<Rightarrow> real" where
  "delay_at b n = (if n = 0 then bo_initial b else min (bo_initial b * bo_factor b ^ n) (bo_max b))"

lemma min_step:
  assumes "1 \<le> f" "0 \<le> (m :: real)"
  shows "min (min x m * f) m = min (x * f) m"
proof (cases "x \<le> m")
  case False
  have a: "m \<le> m * f" using mult_left_mono [OF assms(1) assms(2)] by simp
  have "m * f \<le> x * f" using False assms(1) by (intro mult_right_mono) simp_all
  with a have "m \<le> x * f" by linarith
  with a False show ?thesis by (simp add: min_def)
qed simp

text \<open>A growing schedule is the geometric one, cut at the maximum (but for its first delay).\<close>

lemma delays_closed:
  assumes "1 \<le> bo_factor b" "0 \<le> bo_initial b" "0 \<le> bo_max b"
    and "bo_current b = delay_at b k"
  shows "delays n b = map (delay_at b) [k..<k + n]"
  using assms
proof (induction n arbitrary: b k)
  case 0
  then show ?case by simp
next
  case (Suc n)
  let ?b' = "b\<lparr>bo_current := min (bo_current b * bo_factor b) (bo_max b)\<rparr>"
  have same: "delay_at ?b' = delay_at b" by (simp add: delay_at_def fun_eq_iff)
  have "min (delay_at b k * bo_factor b) (bo_max b) = delay_at b (Suc k)"
    using min_step [OF Suc.prems(1,3), of "bo_initial b * bo_factor b ^ k"]
    by (cases "k = 0") (simp_all add: delay_at_def mult_ac)
  then have "bo_current ?b' = delay_at ?b' (Suc k)" using Suc.prems(4) same by simp
  then have "delays n ?b' = map (delay_at b) [Suc k..<Suc k + n]"
    using Suc.IH [of ?b' "Suc k"] Suc.prems same by simp
  moreover have "[k..<k + Suc n] = k # [Suc k..<Suc k + n]" by (simp add: upt_conv_Cons)
  ultimately show ?case using Suc.prems(4) by (simp add: sleep_and_advance_def)
qed

lemma delays_bounded:
  assumes "bo_current b \<le> bo_max b"
  shows "d \<in> set (delays n b) \<Longrightarrow> d \<le> bo_max b"
  using assms
proof (induction n arbitrary: b)
  case (Suc n)
  then show ?case using Suc.IH [of "snd (sleep_and_advance b)"] by (auto simp: sleep_and_advance_def)
qed simp

text \<open>The backoff after \<open>k\<close> sleeps.\<close>

definition backoff_at :: "nat \<Rightarrow> backoff \<Rightarrow> bool" where
  "backoff_at k b \<longleftrightarrow> 1 \<le> bo_factor b \<and> 0 \<le> bo_initial b \<and> bo_initial b \<le> bo_max b \<and> bo_current b = delay_at b k"

lemma delay_at_step:
  assumes "backoff_at k b" "sleep_and_advance b = (d, b')"
  shows "d = delay_at b k" "backoff_at (Suc k) b'" "delay_at b' = delay_at b"
proof -
  have b': "b' = b\<lparr>bo_current := min (bo_current b * bo_factor b) (bo_max b)\<rparr>" and d: "d = bo_current b"
    using assms(2) by (auto simp: sleep_and_advance_def)
  show "d = delay_at b k" using assms(1) d by (simp add: backoff_at_def)
  show same: "delay_at b' = delay_at b" by (simp add: b' delay_at_def fun_eq_iff)
  have "min (delay_at b k * bo_factor b) (bo_max b) = delay_at b (Suc k)"
    using assms(1) min_step [of "bo_factor b" "bo_max b" "bo_initial b * bo_factor b ^ k"]
    by (cases "k = 0") (simp_all add: backoff_at_def delay_at_def mult_ac)
  then show "backoff_at (Suc k) b'" using assms(1) same by (simp add: backoff_at_def b')
qed

lemma delay_at_bounds:
  assumes "1 \<le> bo_factor b" "0 \<le> bo_initial b" "bo_initial b \<le> bo_max b"
  shows "bo_initial b \<le> delay_at b k" "delay_at b k \<le> bo_max b"
proof -
  have "bo_initial b * 1 \<le> bo_initial b * bo_factor b ^ k"
    using assms by (intro mult_left_mono) simp_all
  with assms show "bo_initial b \<le> delay_at b k" "delay_at b k \<le> bo_max b" by (auto simp: delay_at_def)
qed

section \<open>The pacer\<close>

record pacer =
  pa_interval :: real
  pa_capacity :: real
  pa_tokens :: real
  pa_last :: real

definition new_pacer :: "real \<Rightarrow> int \<Rightarrow> real \<Rightarrow> py_exn + pacer" where
  "new_pacer rate_hz burst now =
     (if rate_hz \<le> 0 then Inl ValueError
      else if burst < 1 then Inl ValueError
      else Inr \<lparr>pa_interval = 1 / rate_hz, pa_capacity = real_of_int burst,
                pa_tokens = real_of_int burst, pa_last = now\<rparr>)"

text \<open>
  \<^verbatim>\<open>acquire\<close> up to its sleep: the delay if there is one, and the state.  Without a sleep the token
  is taken at once.
\<close>

definition acquire_begin :: "real \<Rightarrow> pacer \<Rightarrow> real option \<times> pacer" where
  "acquire_begin now p =
     (let elapsed = max 0 (now - pa_last p);
          p1 = p\<lparr>pa_tokens := min (pa_capacity p) (pa_tokens p + elapsed / pa_interval p), pa_last := now\<rparr>
      in if pa_tokens p1 < 1 then (Some ((1 - pa_tokens p1) * pa_interval p1), p1)
         else (None, p1\<lparr>pa_tokens := pa_tokens p1 - 1\<rparr>))"

text \<open>After the sleep, at the clock reading \<open>woke\<close>.\<close>

definition acquire_finish :: "real \<Rightarrow> pacer \<Rightarrow> pacer" where
  "acquire_finish woke p = p\<lparr>pa_tokens := 0, pa_last := woke\<rparr>"

text \<open>
  A caller that is alone: it asks at \<open>now\<close> and, if it had to wait, goes on at \<open>woke\<close>.  The time of
  the grant is the one or the other.
\<close>

definition acquire :: "real \<Rightarrow> real \<Rightarrow> pacer \<Rightarrow> real \<times> pacer" where
  "acquire now woke p =
     (case acquire_begin now p of
        (None, p') \<Rightarrow> (now, p')
      | (Some d, p') \<Rightarrow> (woke, acquire_finish woke p'))"

definition wait_long_enough :: "real \<Rightarrow> real \<Rightarrow> pacer \<Rightarrow> bool" where
  "wait_long_enough now woke p \<longleftrightarrow>
     pa_last p \<le> now \<and> (case fst (acquire_begin now p) of None \<Rightarrow> True | Some d \<Rightarrow> now + d \<le> woke)"

fun grants :: "(real \<times> real) list \<Rightarrow> pacer \<Rightarrow> real list" where
  "grants [] p = []"
| "grants ((now, woke) # rest) p = (case acquire now woke p of (t, p') \<Rightarrow> t # grants rest p')"

fun timely :: "(real \<times> real) list \<Rightarrow> pacer \<Rightarrow> bool" where
  "timely [] p = True"
| "timely ((now, woke) # rest) p =
     (wait_long_enough now woke p \<and> timely rest (snd (acquire now woke p)))"

definition pacer_ok :: "pacer \<Rightarrow> bool" where
  "pacer_ok p \<longleftrightarrow> 0 < pa_interval p \<and> 1 \<le> pa_capacity p \<and> 0 \<le> pa_tokens p \<and> pa_tokens p \<le> pa_capacity p"

lemma new_pacer_ok: "new_pacer rate burst now = Inr p \<Longrightarrow> pacer_ok p"
  by (auto simp: new_pacer_def pacer_ok_def split: if_splits)

lemma acquire_step:
  assumes "pacer_ok p" "wait_long_enough now woke p" "acquire now woke p = (t, p')"
  shows "pacer_ok p'" "pa_last p' = t" "pa_last p \<le> t" "pa_interval p' = pa_interval p"
    "pa_capacity p' = pa_capacity p" "pa_tokens p' + 1 \<le> pa_capacity p"
    "pa_tokens p' + 1 \<le> pa_tokens p + (t - pa_last p) / pa_interval p"
proof -
  let ?m = "min (pa_capacity p) (pa_tokens p + max 0 (now - pa_last p) / pa_interval p)"
  have i: "0 < pa_interval p" and now: "pa_last p \<le> now" using assms by (simp_all add: pacer_ok_def wait_long_enough_def)
  have m: "0 \<le> ?m" using assms(1) i by (simp add: pacer_ok_def)
  have all: "pacer_ok p' \<and> pa_last p' = t \<and> pa_last p \<le> t \<and> pa_interval p' = pa_interval p \<and>
    pa_capacity p' = pa_capacity p \<and> pa_tokens p' + 1 \<le> pa_capacity p \<and>
    pa_tokens p' + 1 \<le> pa_tokens p + (t - pa_last p) / pa_interval p"
  proof (cases "?m < 1")
    case True
    have cap: "1 \<le> pa_capacity p" using assms(1) by (simp add: pacer_ok_def)
    with True have mt: "?m = pa_tokens p + (now - pa_last p) / pa_interval p" using now by auto
    have t: "t = woke" "p' = p\<lparr>pa_tokens := 0, pa_last := woke\<rparr>" "now + (1 - ?m) * pa_interval p \<le> woke"
      using True assms(2,3) by (auto simp: acquire_def acquire_begin_def acquire_finish_def
          wait_long_enough_def Let_def)
    have "0 \<le> (1 - ?m) * pa_interval p" using True i by (intro mult_nonneg_nonneg) simp_all
    then have le: "now \<le> woke" using t(3) by linarith
    have "(1 - ?m) \<le> (woke - now) / pa_interval p" using t(3) i by (simp add: pos_le_divide_eq)
    then have "1 \<le> pa_tokens p + (woke - pa_last p) / pa_interval p"
      unfolding mt by (simp add: diff_divide_distrib)
    with t le now cap assms(1) show ?thesis by (simp add: pacer_ok_def)
  next
    case False
    then have t: "t = now" "p' = p\<lparr>pa_tokens := ?m - 1, pa_last := now\<rparr>"
      using assms(3) by (auto simp: acquire_def acquire_begin_def Let_def)
    have "?m \<le> pa_tokens p + (now - pa_last p) / pa_interval p" using now by simp
    with False t now i assms(1) show ?thesis by (auto simp: pacer_ok_def)
  qed
  from all show "pacer_ok p'" "pa_last p' = t" "pa_last p \<le> t" "pa_interval p' = pa_interval p"
    "pa_capacity p' = pa_capacity p" "pa_tokens p' + 1 \<le> pa_capacity p"
    "pa_tokens p' + 1 \<le> pa_tokens p + (t - pa_last p) / pa_interval p" by simp_all
qed

text \<open>\<open>k\<close> further grants need as much time as their tokens take to come.\<close>

lemma grants_rate:
  assumes "pacer_ok p" "timely reqs p" "k < length (grants reqs p)"
  shows "real k + 1 \<le> pa_tokens p + (grants reqs p ! k - pa_last p) / pa_interval p"
  using assms
proof (induction reqs arbitrary: p k)
  case Nil
  then show ?case by simp
next
  case (Cons r reqs)
  obtain now woke where r: "r = (now, woke)" by (cases r)
  obtain t p' where a: "acquire now woke p = (t, p')" by fastforce
  have w: "wait_long_enough now woke p" "timely reqs p'" using Cons.prems r a by simp_all
  note step = acquire_step [OF Cons.prems(1) w(1) a]
  show ?case
  proof (cases k)
    case 0
    then show ?thesis using step r a by simp (use step(1,7) in \<open>simp add: pacer_ok_def\<close>)
  next
    case (Suc j)
    then have g: "grants (r # reqs) p ! k = grants reqs p' ! j" and j: "j < length (grants reqs p')"
      using Cons.prems(3) r a by simp_all
    have "real j + 1 \<le> pa_tokens p' + (grants reqs p' ! j - t) / pa_interval p"
      using Cons.IH [OF step(1) w(2) j] step by simp
    moreover have "(grants reqs p' ! j - t) / pa_interval p + (t - pa_last p) / pa_interval p
        = (grants reqs p' ! j - pa_last p) / pa_interval p"
      by (simp add: diff_divide_distrib)
    ultimately show ?thesis using step(7) Suc g by simp
  qed
qed

lemma grants_window:
  assumes "pacer_ok p" "timely reqs p" "i \<le> j" "j < length (grants reqs p)"
  shows "real (j - i) + 1 \<le> pa_capacity p + (grants reqs p ! j - grants reqs p ! i) / pa_interval p"
  using assms
proof (induction reqs arbitrary: p i j)
  case Nil
  then show ?case by simp
next
  case (Cons r reqs)
  obtain now woke where r: "r = (now, woke)" by (cases r)
  obtain t p' where a: "acquire now woke p = (t, p')" by fastforce
  have w: "wait_long_enough now woke p" "timely reqs p'" using Cons.prems r a by simp_all
  note step = acquire_step [OF Cons.prems(1) w(1) a]
  have g: "grants (r # reqs) p = t # grants reqs p'" using r a by simp
  show ?case
  proof (cases i)
    case 0
    show ?thesis
    proof (cases j)
      case 0
      with \<open>i = 0\<close> Cons.prems(1) show ?thesis by (simp add: g pacer_ok_def)
    next
      case (Suc k)
      then have "k < length (grants reqs p')" using Cons.prems(4) g by simp
      from grants_rate [OF step(1) w(2) this] step Suc \<open>i = 0\<close> show ?thesis by (simp add: g)
    qed
  next
    case (Suc i')
    with Cons.prems(3,4) g obtain j' where "j = Suc j'" "i' \<le> j'" "j' < length (grants reqs p')"
      by (cases j) auto
    with Cons.IH [OF step(1) w(2), of i' j'] step Suc show ?thesis by (simp add: g)
  qed
qed

text \<open>
  Callers that wait at the same time are not queued behind each other: each computes its delay from
  the same empty bucket, so all of them go on at the same moment.
\<close>

fun begin_all :: "nat \<Rightarrow> real \<Rightarrow> pacer \<Rightarrow> real option list \<times> pacer" where
  "begin_all 0 now p = ([], p)"
| "begin_all (Suc n) now p =
     (case acquire_begin now p of (d, p') \<Rightarrow> case begin_all n now p' of (ds, p'') \<Rightarrow> (d # ds, p''))"

lemma concurrent_waiters_wake_together:
  assumes "pacer_ok p" "pa_tokens p < 1" "pa_last p = now"
  shows "fst (begin_all n now p) = replicate n (Some ((1 - pa_tokens p) * pa_interval p))"
  using assms
proof (induction n)
  case (Suc n)
  have "acquire_begin now p = (Some ((1 - pa_tokens p) * pa_interval p), p)"
    using Suc.prems by (cases p) (auto simp: acquire_begin_def Let_def pacer_ok_def)
  with Suc show ?case by (cases "begin_all n now p") simp
qed simp

end
