(* ===== verification/Ui_Snapshot.thy ===== *)
theory Ui_Snapshot
  imports Mesh_Models
begin

text \<open>
  The current picture of the operator console, \<^verbatim>\<open>meshsa/ui/snapshot.py\<close>: tracks and detections,
  each a bounded ordered dictionary with the oldest entry in front, swept of stale entries on
  read.  \<open>repr\<close> is the text of a payload value that is a float, a list or a dictionary.
\<close>

section \<open>State\<close>

record feature =
  ft_lon :: pyfloat
  ft_lat :: pyfloat
  ft_properties :: "(string \<times> json) list"

record entry =
  en_seen_at :: real
  en_feature :: feature

type_synonym entries = "(string \<times> entry) list"

record snapshot_config =
  sn_max_tracks :: int
  sn_max_detections :: int
  sn_track_stale_s :: real
  sn_detection_stale_s :: real

record snapshot =
  sn_tracks :: entries
  sn_detections :: entries
  tracks_evicted :: nat
  detections_evicted :: nat
  tracks_expired :: nat
  detections_expired :: nat
  dropped_invalid :: nat
  ignored_nonscalar_keys :: nat

definition new_snapshot :: "snapshot_config \<Rightarrow> py_exn + snapshot" where
  "new_snapshot C =
     (if sn_max_tracks C \<le> 0 \<or> sn_max_detections C \<le> 0 then Inl ValueError
      else if sn_track_stale_s C \<le> 0 \<or> sn_detection_stale_s C \<le> 0 then Inl ValueError
      else Inr \<lparr>sn_tracks = [], sn_detections = [], tracks_evicted = 0, detections_evicted = 0,
                tracks_expired = 0, detections_expired = 0, dropped_invalid = 0,
                ignored_nonscalar_keys = 0\<rparr>)"

section \<open>Rendering\<close>

fun is_scalar :: "json \<Rightarrow> bool" where
  "is_scalar (JFloat f) = pf_isfinite f"
| "is_scalar (JArr _) = False"
| "is_scalar (JObj _) = False"
| "is_scalar _ = True"

definition setdefault :: "string \<Rightarrow> json \<Rightarrow> (string \<times> json) list \<Rightarrow> (string \<times> json) list" where
  "setdefault k v props = (if map_of props k = None then props @ [(k, v)] else props)"

text \<open>\<^verbatim>\<open>_merge_scalars\<close>: the properties, and how many values were ignored.\<close>

fun merge_scalars ::
  "string set \<Rightarrow> string \<Rightarrow> (string \<times> json) list \<Rightarrow> (string \<times> json) list \<times> nat \<Rightarrow> (string \<times> json) list \<times> nat" where
  "merge_scalars skip pfx [] (props, ign) = (props, ign)"
| "merge_scalars skip pfx ((k, v) # block) (props, ign) =
     (if k \<in> skip then merge_scalars skip pfx block (props, ign)
      else if is_scalar v then merge_scalars skip pfx block (setdefault (pfx @ k) v props, ign)
      else merge_scalars skip pfx block (props, Suc ign))"

definition KNOWN_TOP_LEVEL :: "string set" where
  "KNOWN_TOP_LEVEL = {''node'', ''position'', ''telemetry'', ''detection''}"

definition GEOMETRY_KEYS :: "string set" where
  "GEOMETRY_KEYS = {''lat'', ''lon''}"

text \<open>\<^verbatim>\<open>float(v)\<close> of a coordinate: \<open>None\<close> unless it is an int, a bool or a float.\<close>

definition coordinate :: "json option \<Rightarrow> (py_exn + pyfloat) option" where
  "coordinate v =
     (case v of
        Some (JInt i) \<Rightarrow> Some (if \<bar>i\<bar> < 2 ^ 1024 then Inr (Fin (real_of_int i)) else Inl OverflowError)
      | Some (JBool b) \<Rightarrow> Some (Inr (Fin (if b then 1 else 0)))
      | Some (JFloat f) \<Rightarrow> Some (Inr f)
      | _ \<Rightarrow> None)"

fun kind_value :: "message_kind \<Rightarrow> string" where
  "kind_value Pli = ''pli''" | "kind_value Chat = ''chat''"
| "kind_value Marker = ''marker''" | "kind_value StatusMsg = ''status''"

definition as_block :: "json option \<Rightarrow> (string \<times> json) list" where
  "as_block v = (case v of Some (JObj kvs) \<Rightarrow> kvs | _ \<Rightarrow> [])"

definition base_properties :: "envelope \<Rightarrow> (string \<times> json) list" where
  "base_properties env =
     [(''uid'', JStr (env_source_uid env)), (''ts'', JFloat (env_ts env)),
      (''kind'', JStr (kind_value (env_kind env)))]
     @ (case map_of (env_payload env) ''node'' of
          Some (JObj n) \<Rightarrow>
            let c = (case map_of n ''callsign'' of None \<Rightarrow> JNull | Some v \<Rightarrow> v)
            in if is_scalar c then [(''callsign'', c)] else []
        | _ \<Rightarrow> [])"

definition render_properties :: "envelope \<Rightarrow> (string \<times> json) list \<times> nat" where
  "render_properties env =
     (let p = env_payload env
      in merge_scalars KNOWN_TOP_LEVEL [] p
           (merge_scalars {} ''telemetry_'' (as_block (map_of p ''telemetry''))
             (merge_scalars {} [] (as_block (map_of p ''detection''))
               (merge_scalars GEOMETRY_KEYS [] (as_block (map_of p ''position'')) (base_properties env, 0)))))"

text \<open>The feature, or nothing when there is no usable position, and the count of ignored keys.\<close>

definition render_feature :: "envelope \<Rightarrow> py_exn + feature option \<times> nat" where
  "render_feature env =
     (case map_of (env_payload env) ''position'' of
        Some (JObj pos) \<Rightarrow>
          (case (coordinate (map_of pos ''lat''), coordinate (map_of pos ''lon'')) of
             (Some lat, Some lon) \<Rightarrow>
               then_ok lat (\<lambda>la.
                 if \<not> pf_isfinite la then Inr (None, 0)
                 else then_ok lon (\<lambda>lo.
                   if \<not> pf_isfinite lo then Inr (None, 0)
                   else case render_properties env of
                     (props, ign) \<Rightarrow> Inr (Some \<lparr>ft_lon = lo, ft_lat = la, ft_properties = props\<rparr>, ign)))
           | _ \<Rightarrow> Inr (None, 0))
      | _ \<Rightarrow> Inr (None, 0))"

section \<open>Ingest\<close>

definition detection_key :: "(json \<Rightarrow> string) \<Rightarrow> envelope \<Rightarrow> string" where
  "detection_key repr env =
     (case map_of (env_payload env) ''detection'' of
        Some (JObj d) \<Rightarrow>
          (case map_of d ''track_id'' of
             None \<Rightarrow> env_msg_id env
           | Some JNull \<Rightarrow> env_msg_id env
           | Some v \<Rightarrow> env_source_uid env @ '':'' @ py_str repr v)
      | _ \<Rightarrow> env_msg_id env)"

text \<open>The loop \<^verbatim>\<open>while len(entries) > cap\<close>: what is left, and how many went.\<close>

fun evict_oldest :: "int \<Rightarrow> entries \<Rightarrow> entries \<times> nat" where
  "evict_oldest cap [] = ([], 0)"
| "evict_oldest cap (e # es) =
     (if cap < int (length (e # es))
      then case evict_oldest cap es of (es', n) \<Rightarrow> (es', Suc n)
      else (e # es, 0))"

definition upsert :: "int \<Rightarrow> string \<Rightarrow> entry \<Rightarrow> entries \<Rightarrow> entries \<times> nat" where
  "upsert cap key e es = evict_oldest cap (move_to_end key (AList.update key e es))"

definition snapshot_handle ::
  "(json \<Rightarrow> string) \<Rightarrow> snapshot_config \<Rightarrow> real \<Rightarrow> envelope \<Rightarrow> snapshot \<Rightarrow> (py_exn + unit) \<times> snapshot" where
  "snapshot_handle repr C now env s =
     (if env_kind env = Pli \<or> env_kind env = Marker then
        case render_feature env of
          Inl e \<Rightarrow> (Inl e, s)
        | Inr (None, ign) \<Rightarrow>
            (Inr (), s\<lparr>dropped_invalid := Suc (dropped_invalid s),
                       ignored_nonscalar_keys := ignored_nonscalar_keys s + ign\<rparr>)
        | Inr (Some f, ign) \<Rightarrow>
            let e = \<lparr>en_seen_at = now, en_feature = f\<rparr>;
                s1 = s\<lparr>ignored_nonscalar_keys := ignored_nonscalar_keys s + ign\<rparr>
            in if env_kind env = Pli then
                 (case upsert (sn_max_tracks C) (env_source_uid env) e (sn_tracks s1) of
                    (es, n) \<Rightarrow> (Inr (), s1\<lparr>sn_tracks := es, tracks_evicted := tracks_evicted s1 + n\<rparr>))
               else
                 (case upsert (sn_max_detections C) (detection_key repr env) e (sn_detections s1) of
                    (es, n) \<Rightarrow>
                      (Inr (), s1\<lparr>sn_detections := es, detections_evicted := detections_evicted s1 + n\<rparr>))
      else (Inr (), s))"

section \<open>Reads\<close>

definition sweep :: "real \<Rightarrow> real \<Rightarrow> entries \<Rightarrow> entries \<times> nat" where
  "sweep now stale_s es =
     (let deadline = now - stale_s
      in (filter (\<lambda>(k, e). \<not> en_seen_at e < deadline) es,
          length (filter (\<lambda>(k, e). en_seen_at e < deadline) es)))"

definition tracks_geojson :: "snapshot_config \<Rightarrow> real \<Rightarrow> snapshot \<Rightarrow> feature list \<times> snapshot" where
  "tracks_geojson C now s =
     (case sweep now (sn_track_stale_s C) (sn_tracks s) of
        (es, n) \<Rightarrow> (map (en_feature \<circ> snd) es,
                    s\<lparr>sn_tracks := es, tracks_expired := tracks_expired s + n\<rparr>))"

definition detections_geojson :: "snapshot_config \<Rightarrow> real \<Rightarrow> snapshot \<Rightarrow> feature list \<times> snapshot" where
  "detections_geojson C now s =
     (case sweep now (sn_detection_stale_s C) (sn_detections s) of
        (es, n) \<Rightarrow> (map (en_feature \<circ> snd) es,
                    s\<lparr>sn_detections := es, detections_expired := detections_expired s + n\<rparr>))"

definition snapshot_counters :: "snapshot_config \<Rightarrow> real \<Rightarrow> snapshot \<Rightarrow> nat \<times> nat \<times> snapshot" where
  \<comment> \<open>the live sizes; the other counters are fields of the state\<close>
  "snapshot_counters C now s =
     (let s1 = snd (tracks_geojson C now s); s2 = snd (detections_geojson C now s1)
      in (length (sn_tracks s2), length (sn_detections s2), s2))"

section \<open>The picture stays well-formed\<close>

text \<open>
  Keys are unique, the oldest entry is in front (while the clock does not run backwards) and the
  cap holds.
\<close>

definition oldest_first :: "entries \<Rightarrow> bool" where
  "oldest_first es \<longleftrightarrow> sorted_wrt (\<le>) (map (en_seen_at \<circ> snd) es)"

definition entries_ok :: "int \<Rightarrow> real \<Rightarrow> entries \<Rightarrow> bool" where
  "entries_ok cap now es \<longleftrightarrow>
     distinct (map fst es) \<and> oldest_first es \<and> int (length es) \<le> cap \<and>
     (\<forall>x \<in> set es. en_seen_at (snd x) \<le> now)"

lemma evict_oldest_drop:
  "evict_oldest cap es =
     (drop (length es - nat cap) es, length es - nat cap)"
  by (induction es) (auto simp: Suc_diff_le nat_less_iff le_nat_iff)

lemma upsert_shape: "move_to_end key (AList.update key e es) = AList.delete key es @ [(key, e)]"
proof -
  have "AList.delete key (AList.update key e es) = AList.delete key es"
    by (induction es) (auto simp: AList.delete_eq)
  then show ?thesis by (simp add: move_to_end_def)
qed

lemma delete_length: "length (AList.delete key es) \<le> length es"
  by (rule length_delete_le)

lemma sorted_wrt_delete: "oldest_first es \<Longrightarrow> oldest_first (AList.delete key es)"
  by (simp add: oldest_first_def AList.delete_eq sorted_wrt_map sorted_wrt_filter)

lemma upsert_ok:
  assumes "entries_ok cap t es" "t \<le> now" "en_seen_at e = now" "0 < cap"
  shows "entries_ok cap now (fst (upsert cap key e es))"
    and "map_of (fst (upsert cap key e es)) key = Some e"
proof -
  let ?d = "AList.delete key es"
  let ?n = "Suc (length ?d) - nat cap"
  have u: "fst (upsert cap key e es) = drop ?n ?d @ [(key, e)]"
    using assms(4) by (simp add: upsert_def upsert_shape evict_oldest_drop)
  have d: "distinct (map fst ?d)" "oldest_first ?d" "key \<notin> fst ` set ?d"
    using assms(1) by (simp_all add: entries_ok_def sorted_wrt_delete keys_delete)
  have le: "\<forall>x \<in> set ?d. en_seen_at (snd x) \<le> now"
    using assms(1,2) by (force simp: entries_ok_def AList.delete_eq)
  have sub: "set (drop ?n ?d) \<subseteq> set ?d" by (rule set_drop_subset)
  have "distinct (map fst (drop ?n ?d))" using d(1) by (simp flip: drop_map)
  moreover have "oldest_first (drop ?n ?d)"
    using d(2) by (simp add: oldest_first_def sorted_wrt_drop flip: drop_map)
  moreover have "int (length (drop ?n ?d @ [(key, e)])) \<le> cap"
    using assms(4) by simp
  moreover have "key \<notin> fst ` set (drop ?n ?d)" using d(3) sub by auto
  ultimately show "entries_ok cap now (fst (upsert cap key e es))"
    unfolding u using sub le assms(3)
    by (auto simp: entries_ok_def oldest_first_def sorted_wrt_append)
  show "map_of (fst (upsert cap key e es)) key = Some e"
    unfolding u using \<open>key \<notin> fst ` set (drop ?n ?d)\<close>
    by (simp add: map_add_def map_of_eq_None_iff [THEN iffD2] split: option.split)
qed

lemma sweep_ok:
  assumes "entries_ok cap now es"
  shows "entries_ok cap now (fst (sweep now stale es))"
    and "x \<in> set (fst (sweep now stale es)) \<longleftrightarrow> x \<in> set es \<and> now - stale \<le> en_seen_at (snd x)"
    and "length (fst (sweep now stale es)) + snd (sweep now stale es) = length es"
proof -
  have "int (length (filter P es)) \<le> cap" for P :: "string \<times> entry \<Rightarrow> bool"
    using assms length_filter_le [of P es] unfolding entries_ok_def by linarith
  then show "entries_ok cap now (fst (sweep now stale es))"
    using assms
    by (auto simp: entries_ok_def sweep_def Let_def oldest_first_def sorted_wrt_map sorted_wrt_filter
        distinct_map_filter)
  show "x \<in> set (fst (sweep now stale es)) \<longleftrightarrow> x \<in> set es \<and> now - stale \<le> en_seen_at (snd x)"
    by (auto simp: sweep_def Let_def)
  show "length (fst (sweep now stale es)) + snd (sweep now stale es) = length es"
    by (induction es) (auto simp: sweep_def Let_def)
qed

definition snapshot_ok :: "snapshot_config \<Rightarrow> real \<Rightarrow> snapshot \<Rightarrow> bool" where
  "snapshot_ok C now s \<longleftrightarrow>
     entries_ok (sn_max_tracks C) now (sn_tracks s) \<and>
     entries_ok (sn_max_detections C) now (sn_detections s)"

lemma entries_ok_later: "entries_ok cap t es \<Longrightarrow> t \<le> now \<Longrightarrow> entries_ok cap now es"
  by (force simp: entries_ok_def)

lemma new_snapshot_ok: "new_snapshot C = Inr s \<Longrightarrow> snapshot_ok C now s"
  by (auto simp: new_snapshot_def snapshot_ok_def entries_ok_def oldest_first_def split: if_splits)

lemma snapshot_handle_ok:
  assumes "snapshot_ok C t s" "t \<le> now" "0 < sn_max_tracks C" "0 < sn_max_detections C"
  shows "snapshot_ok C now (snd (snapshot_handle repr C now env s))"
proof -
  let ?e = "\<lambda>f. \<lparr>en_seen_at = now, en_feature = f\<rparr>"
  have "entries_ok (sn_max_tracks C) now (fst (upsert (sn_max_tracks C) k (?e f) (sn_tracks s)))"
    "entries_ok (sn_max_detections C) now (fst (upsert (sn_max_detections C) k (?e f) (sn_detections s)))"
    for k f using assms unfolding snapshot_ok_def by (auto intro: upsert_ok(1))
  moreover have "snapshot_ok C now s" using assms(1,2) entries_ok_later by (auto simp: snapshot_ok_def)
  ultimately show ?thesis
    by (simp add: snapshot_handle_def snapshot_ok_def Let_def case_prod_beta split: sum.split option.split)
qed

section \<open>What is rendered\<close>

lemma merge_scalars_scalar:
  assumes "list_all (\<lambda>(k, v). is_scalar v) props" "merge_scalars skip pfx block (props, ign) = (props', ign')"
  shows "list_all (\<lambda>(k, v). is_scalar v) props'"
  using assms
  by (induction skip pfx block "(props, ign)" arbitrary: props ign rule: merge_scalars.induct)
    (auto simp: setdefault_def split: if_splits)

lemma merge_scalars_keeps:
  assumes "map_of props k = Some v" "merge_scalars skip pfx block (props, ign) = (props', ign')"
  shows "map_of props' k = Some v"
  using assms
  by (induction skip pfx block "(props, ign)" arbitrary: props ign rule: merge_scalars.induct)
    (auto simp: setdefault_def map_add_def split: if_splits option.splits)

text \<open>
  The properties are scalars that JSON can carry, if the time stamp is one; no payload key can
  replace the identity of the feature.
\<close>

lemma render_properties_facts:
  assumes "render_properties env = (props, ign)"
  shows "pf_isfinite (env_ts env) \<Longrightarrow> list_all (\<lambda>(k, v). is_scalar v) props"
    and "map_of props ''uid'' = Some (JStr (env_source_uid env))"
    and "map_of props ''ts'' = Some (JFloat (env_ts env))"
    and "map_of props ''kind'' = Some (JStr (kind_value (env_kind env)))"
proof -
  let ?base = "base_properties env"
  have b: "map_of ?base ''uid'' = Some (JStr (env_source_uid env))"
      "map_of ?base ''ts'' = Some (JFloat (env_ts env))"
      "map_of ?base ''kind'' = Some (JStr (kind_value (env_kind env)))"
    by (simp_all add: base_properties_def)
  have sc: "list_all (\<lambda>(k, v). is_scalar v) ?base" if "pf_isfinite (env_ts env)"
    using that by (simp add: base_properties_def Let_def split: option.split json.split)
  have m: "merge_scalars KNOWN_TOP_LEVEL [] (env_payload env)
           (merge_scalars {} ''telemetry_'' (as_block (map_of (env_payload env) ''telemetry''))
             (merge_scalars {} [] (as_block (map_of (env_payload env) ''detection''))
               (merge_scalars GEOMETRY_KEYS [] (as_block (map_of (env_payload env) ''position'')) (?base, 0))))
         = (props, ign)"
    using assms by (simp add: render_properties_def Let_def)
  obtain p1 i1 where 1: "merge_scalars GEOMETRY_KEYS [] (as_block (map_of (env_payload env) ''position'')) (?base, 0) = (p1, i1)"
    by fastforce
  obtain p2 i2 where 2: "merge_scalars {} [] (as_block (map_of (env_payload env) ''detection'')) (p1, i1) = (p2, i2)"
    by fastforce
  obtain p3 i3 where 3: "merge_scalars {} ''telemetry_'' (as_block (map_of (env_payload env) ''telemetry'')) (p2, i2) = (p3, i3)"
    by fastforce
  have 4: "merge_scalars KNOWN_TOP_LEVEL [] (env_payload env) (p3, i3) = (props, ign)"
    using m unfolding 1 2 3 .
  note chain = merge_scalars_keeps [OF merge_scalars_keeps [OF merge_scalars_keeps [OF merge_scalars_keeps [OF _ 1] 2] 3] 4]
  show "map_of props ''uid'' = Some (JStr (env_source_uid env))"
    "map_of props ''ts'' = Some (JFloat (env_ts env))"
    "map_of props ''kind'' = Some (JStr (kind_value (env_kind env)))"
    using b chain by blast+
  show "list_all (\<lambda>(k, v). is_scalar v) props" if "pf_isfinite (env_ts env)"
    using merge_scalars_scalar [OF merge_scalars_scalar [OF merge_scalars_scalar [OF merge_scalars_scalar [OF sc 1] 2] 3] 4]
      that by blast
qed

lemma render_feature_finite:
  assumes "render_feature env = Inr (Some f, ign)"
  shows "pf_isfinite (ft_lat f) \<and> pf_isfinite (ft_lon f) \<and> render_properties env = (ft_properties f, ign)"
  using assms
  by (auto simp: render_feature_def then_ok_Inr_iff split: option.splits json.splits if_splits prod.splits)

end
