(* ===== verification/Frame_Codecs.thy ===== *)
theory Frame_Codecs
  imports Mesh_Models Command_Spec
begin

text \<open>
  The codecs of the source transports, \<^verbatim>\<open>meshsa/telemetry.py\<close> and \<^verbatim>\<open>meshsa/detection_codec.py\<close>: a
  JSON frame to an envelope and back.  The frame is the value that \<^verbatim>\<open>json.loads\<close> returned or that
  \<^verbatim>\<open>json.dumps\<close> is given; the text of it is not modelled.  \<open>repr\<close> is \<^verbatim>\<open>str()\<close> of a value that is
  not a string, an integer, a boolean or null.  The coercions pydantic makes of a field's raw value
  are the parameter \<open>coercions\<close>.
\<close>

record coercions =
  as_float :: "json \<Rightarrow> pyfloat option"
  as_int :: "json \<Rightarrow> int option"

text \<open>What the documentation of pydantic promises of a value that has the field's type already.\<close>

definition keeps_typed :: "coercions \<Rightarrow> bool" where
  "keeps_typed P \<longleftrightarrow> (\<forall>f. as_float P (JFloat f) = Some f) \<and> (\<forall>i. as_int P (JInt i) = Some i)"

section \<open>Fields and blocks\<close>

definition required :: "(json \<Rightarrow> 'a option) \<Rightarrow> (string \<times> json) list \<Rightarrow> string \<Rightarrow> py_exn + 'a" where
  "required conv kvs key =
     (case map_of kvs key of
        None \<Rightarrow> Inl ValueError
      | Some v \<Rightarrow> (case conv v of None \<Rightarrow> Inl ValueError | Some x \<Rightarrow> Inr x))"

definition defaulted :: "(json \<Rightarrow> 'a option) \<Rightarrow> (string \<times> json) list \<Rightarrow> string \<Rightarrow> 'a \<Rightarrow> py_exn + 'a" where
  "defaulted conv kvs key dflt =
     (case map_of kvs key of
        None \<Rightarrow> Inr dflt
      | Some v \<Rightarrow> (case conv v of None \<Rightarrow> Inl ValueError | Some x \<Rightarrow> Inr x))"

definition optional :: "(json \<Rightarrow> 'a option) \<Rightarrow> (string \<times> json) list \<Rightarrow> string \<Rightarrow> py_exn + 'a option" where
  "optional conv kvs key =
     (case map_of kvs key of
        None \<Rightarrow> Inr None
      | Some JNull \<Rightarrow> Inr None
      | Some v \<Rightarrow> (case conv v of None \<Rightarrow> Inl ValueError | Some x \<Rightarrow> Inr (Some x)))"

text \<open>\<^verbatim>\<open>model_dump(exclude_none=True)\<close>: an absent value has no item.\<close>

definition item :: "string \<Rightarrow> json option \<Rightarrow> (string \<times> json) list" where
  "item k v = (case v of None \<Rightarrow> [] | Some j \<Rightarrow> [(k, j)])"

definition dump_position :: "position \<Rightarrow> (string \<times> json) list" where
  "dump_position p =
     [(''lat'', JFloat (pos_lat p)), (''lon'', JFloat (pos_lon p)), (''hae'', JFloat (pos_hae p)),
      (''ce'', JFloat (pos_ce p)), (''le'', JFloat (pos_le p))]
     @ item ''course_deg'' (map_option JFloat (pos_course_deg p))
     @ item ''speed_ms'' (map_option JFloat (pos_speed_ms p))"

definition dump_attitude :: "attitude \<Rightarrow> json" where
  "dump_attitude a = JObj
     (item ''roll_deg'' (map_option JFloat (at_roll_deg a))
      @ item ''pitch_deg'' (map_option JFloat (at_pitch_deg a))
      @ item ''yaw_deg'' (map_option JFloat (at_yaw_deg a)))"

definition dump_telemetry :: "telemetry_block \<Rightarrow> (string \<times> json) list" where
  "dump_telemetry t =
     item ''battery_v'' (map_option JFloat (tb_battery_v t))
     @ item ''battery_pct'' (map_option JInt (tb_battery_pct t))
     @ item ''current_a'' (map_option JFloat (tb_current_a t))
     @ item ''attitude'' (map_option dump_attitude (tb_attitude t))"

definition dump_detection :: "detection \<Rightarrow> (string \<times> json) list" where
  "dump_detection d =
     [(''label'', JStr (det_label d)), (''confidence'', JFloat (det_confidence d))]
     @ item ''track_id'' (map_option JInt (det_track_id d))
     @ item ''bearing_deg'' (map_option JFloat (det_bearing_deg d))"

definition as_str :: "json \<Rightarrow> string option" where
  "as_str j = (case j of JStr s \<Rightarrow> Some s | _ \<Rightarrow> None)"

definition validate_position :: "coercions \<Rightarrow> json \<Rightarrow> py_exn + position" where
  "validate_position P j =
     (case j of
        JObj kvs \<Rightarrow>
          then_ok (required (as_float P) kvs ''lat'') (\<lambda>lat.
          then_ok (required (as_float P) kvs ''lon'') (\<lambda>lon.
          then_ok (defaulted (as_float P) kvs ''hae'' (Fin 0)) (\<lambda>hae.
          then_ok (defaulted (as_float P) kvs ''ce'' UNKNOWN_ERROR_M) (\<lambda>ce.
          then_ok (defaulted (as_float P) kvs ''le'' UNKNOWN_ERROR_M) (\<lambda>le.
          then_ok (optional (as_float P) kvs ''course_deg'') (\<lambda>course.
          then_ok (optional (as_float P) kvs ''speed_ms'') (\<lambda>speed.
            mk_position lat lon hae ce le course speed)))))))
      | _ \<Rightarrow> Inl ValueError)"

definition validate_attitude :: "coercions \<Rightarrow> json \<Rightarrow> attitude option" where
  "validate_attitude P j =
     (case j of
        JObj kvs \<Rightarrow>
          (case then_ok (optional (as_float P) kvs ''roll_deg'') (\<lambda>r.
                then_ok (optional (as_float P) kvs ''pitch_deg'') (\<lambda>p.
                then_ok (optional (as_float P) kvs ''yaw_deg'') (\<lambda>y.
                  Inr \<lparr>at_roll_deg = r, at_pitch_deg = p, at_yaw_deg = y\<rparr>))) of
             Inl (e :: py_exn) \<Rightarrow> None
           | Inr a \<Rightarrow> Some a)
      | _ \<Rightarrow> None)"

definition validate_telemetry :: "coercions \<Rightarrow> json \<Rightarrow> py_exn + telemetry_block" where
  "validate_telemetry P j =
     (case j of
        JObj kvs \<Rightarrow>
          then_ok (optional (as_float P) kvs ''battery_v'') (\<lambda>v.
          then_ok (optional (as_int P) kvs ''battery_pct'') (\<lambda>pct.
          then_ok (optional (as_float P) kvs ''current_a'') (\<lambda>cur.
          then_ok (optional (validate_attitude P) kvs ''attitude'') (\<lambda>att.
            mk_telemetry v pct cur att))))
      | _ \<Rightarrow> Inl ValueError)"

definition validate_detection :: "coercions \<Rightarrow> json \<Rightarrow> py_exn + detection" where
  "validate_detection P j =
     (case j of
        JObj kvs \<Rightarrow>
          then_ok (required as_str kvs ''label'') (\<lambda>label.
          then_ok (required (as_float P) kvs ''confidence'') (\<lambda>conf.
          then_ok (optional (as_int P) kvs ''track_id'') (\<lambda>track.
          then_ok (optional (as_float P) kvs ''bearing_deg'') (\<lambda>bearing.
            mk_detection label conf track bearing))))
      | _ \<Rightarrow> Inl ValueError)"

text \<open>\<^verbatim>\<open>except (TypeError, ValueError, ValidationError)\<close>; other exceptions pass.\<close>

definition catch_invalid :: "py_exn + 'a \<Rightarrow> codec_exn + 'a" where
  "catch_invalid r =
     (case r of
        Inl TypeError \<Rightarrow> Inl MeshSAError
      | Inl ValueError \<Rightarrow> Inl MeshSAError
      | Inl e \<Rightarrow> Inl (CodecRaised e)
      | Inr v \<Rightarrow> Inr v)"

lemma catch_invalid_Inr [simp]: "catch_invalid (Inr v) = Inr v"
  by (simp add: catch_invalid_def)

lemma catch_invalid_Inr_iff: "catch_invalid r = Inr v \<longleftrightarrow> r = Inr v"
  by (cases r) (auto simp: catch_invalid_def split: py_exn.splits)

definition frame_float :: "(string \<times> json) list \<Rightarrow> string \<Rightarrow> pyfloat \<Rightarrow> py_exn + pyfloat" where
  "frame_float kvs key dflt = (case map_of kvs key of None \<Rightarrow> Inr dflt | Some v \<Rightarrow> py_float v)"

definition has_keys :: "string list \<Rightarrow> (string \<times> json) list \<Rightarrow> bool" where
  "has_keys ks kvs = list_all (\<lambda>k. map_of kvs k \<noteq> None) ks"

text \<open>\<^verbatim>\<open>frame[k]\<close> of a key that was checked to be there.\<close>

definition field :: "(string \<times> json) list \<Rightarrow> string \<Rightarrow> json" where
  "field kvs key = (case map_of kvs key of None \<Rightarrow> JNull | Some v \<Rightarrow> v)"

section \<open>Telemetry frames\<close>

definition telemetry_decode :: "coercions \<Rightarrow> (json \<Rightarrow> string) \<Rightarrow> json \<Rightarrow> codec_exn + envelope" where
  "telemetry_decode P repr frame =
     (case frame of
        JObj kvs \<Rightarrow>
          if \<not> has_keys [''src'', ''msg_id'', ''ts'', ''lat'', ''lon''] kvs then Inl MeshSAError
          else
            let src = py_str repr (field kvs ''src'');
                msg_id = py_str repr (field kvs ''msg_id'')
            in then_ok (catch_invalid
                 (then_ok (py_float (field kvs ''ts'')) (\<lambda>ts.
                  then_ok (py_float (field kvs ''lat'')) (\<lambda>lat.
                  then_ok (py_float (field kvs ''lon'')) (\<lambda>lon.
                  then_ok (frame_float kvs ''hae'' (Fin 0)) (\<lambda>hae.
                  then_ok (optional (as_float P) kvs ''course_deg'') (\<lambda>course.
                  then_ok (optional (as_float P) kvs ''speed_ms'') (\<lambda>speed.
                  then_ok (mk_position lat lon hae UNKNOWN_ERROR_M UNKNOWN_ERROR_M course speed) (\<lambda>pos.
                  then_ok (optional (\<lambda>v. Some v) kvs ''telemetry'') (\<lambda>tel.
                  then_ok (case tel of None \<Rightarrow> Inr None
                           | Some v \<Rightarrow> then_ok (validate_telemetry P v) (\<lambda>t. Inr (Some t))) (\<lambda>block.
                    Inr (ts, pos, block))))))))))))
               (\<lambda>(ts, pos, block).
                  let callsign = (case map_of kvs ''callsign'' of None \<Rightarrow> src | Some v \<Rightarrow> py_str repr v);
                      payload = [(''node'', JObj [(''uid'', JStr src), (''callsign'', JStr callsign)]),
                                 (''position'', JObj (dump_position pos))]
                        @ (case block of None \<Rightarrow> []
                           | Some t \<Rightarrow> if dump_telemetry t = [] then []
                                       else [(''telemetry'', JObj (dump_telemetry t))])
                  in Inr \<lparr>env_schema_version = SCHEMA_VERSION, env_msg_id = msg_id, env_ts = ts,
                          env_source_uid = src, env_kind = Pli, env_payload = payload\<rparr>)
      | _ \<Rightarrow> Inl MeshSAError)"

definition json_opt :: "json \<Rightarrow> json option" where
  "json_opt j = (if j = JNull then None else Some j)"

definition telemetry_encode :: "coercions \<Rightarrow> envelope \<Rightarrow> codec_exn + json" where
  "telemetry_encode P env =
     (let node = (case map_of (env_payload env) ''node'' of None \<Rightarrow> JObj [] | Some j \<Rightarrow> j);
          pos = (case map_of (env_payload env) ''position'' of None \<Rightarrow> JObj [] | Some j \<Rightarrow> j)
      in then_ok (lift_py (get_or node ''callsign'' (JStr (env_source_uid env)))) (\<lambda>callsign.
         then_ok (lift_py (get_or pos ''lat'' (JFloat (Fin 0)))) (\<lambda>lat.
         then_ok (lift_py (get_or pos ''lon'' (JFloat (Fin 0)))) (\<lambda>lon.
         then_ok (lift_py (get_or pos ''hae'' (JFloat (Fin 0)))) (\<lambda>hae.
         then_ok (lift_py (get_or pos ''course_deg'' JNull)) (\<lambda>course.
         then_ok (lift_py (get_or pos ''speed_ms'' JNull)) (\<lambda>speed.
         then_ok (case map_of (env_payload env) ''telemetry'' of
                    None \<Rightarrow> Inr []
                  | Some JNull \<Rightarrow> Inr []
                  | Some t \<Rightarrow> (case validate_telemetry P t of
                        Inl e \<Rightarrow> Inl MeshSAError
                      | Inr block \<Rightarrow>
                          Inr (if dump_telemetry block = [] then []
                               else [(''telemetry'', JObj (dump_telemetry block))]))) (\<lambda>tel.
           Inr (JObj ([(''src'', JStr (env_source_uid env)), (''callsign'', callsign),
             (''msg_id'', JStr (env_msg_id env)), (''ts'', JFloat (env_ts env)),
             (''lat'', lat), (''lon'', lon), (''hae'', hae)]
             @ item ''course_deg'' (json_opt course) @ item ''speed_ms'' (json_opt speed) @ tel))))))))))"

section \<open>Detection frames\<close>

definition detection_decode :: "coercions \<Rightarrow> (json \<Rightarrow> string) \<Rightarrow> json \<Rightarrow> codec_exn + envelope" where
  "detection_decode P repr frame =
     (case frame of
        JObj kvs \<Rightarrow>
          if \<not> has_keys [''src'', ''msg_id'', ''ts'', ''lat'', ''lon'', ''label'', ''confidence''] kvs
          then Inl MeshSAError
          else
            let src = py_str repr (field kvs ''src'');
                msg_id = py_str repr (field kvs ''msg_id'')
            in then_ok (catch_invalid
                 (then_ok (py_float (field kvs ''ts'')) (\<lambda>ts.
                  then_ok (py_float (field kvs ''lat'')) (\<lambda>lat.
                  then_ok (py_float (field kvs ''lon'')) (\<lambda>lon.
                  then_ok (frame_float kvs ''hae'' (Fin 0)) (\<lambda>hae.
                  then_ok (frame_float kvs ''ce'' UNKNOWN_ERROR_M) (\<lambda>ce.
                  then_ok (frame_float kvs ''le'' UNKNOWN_ERROR_M) (\<lambda>le.
                  then_ok (mk_position lat lon hae ce le None None) (\<lambda>pos.
                  then_ok (py_float (field kvs ''confidence'')) (\<lambda>conf.
                  then_ok (optional (as_int P) kvs ''track_id'') (\<lambda>track.
                  then_ok (optional (as_float P) kvs ''bearing_deg'') (\<lambda>bearing.
                  then_ok (mk_detection (py_str repr (field kvs ''label'')) conf track bearing) (\<lambda>det.
                    Inr (ts, pos, det))))))))))))))
               (\<lambda>(ts, pos, det).
                  let callsign = (case map_of kvs ''callsign'' of
                        None \<Rightarrow> det_label det | Some v \<Rightarrow> py_str repr v)
                  in Inr \<lparr>env_schema_version = SCHEMA_VERSION, env_msg_id = msg_id, env_ts = ts,
                          env_source_uid = src, env_kind = Marker,
                          env_payload = [(''node'', JObj [(''uid'', JStr src), (''callsign'', JStr callsign)]),
                            (''position'', JObj (dump_position pos)),
                            (''detection'', JObj (dump_detection det))]\<rparr>)
      | _ \<Rightarrow> Inl MeshSAError)"

definition or_empty :: "json option \<Rightarrow> json" where
  "or_empty v = (case v of None \<Rightarrow> JObj [] | Some j \<Rightarrow> if truthy j then j else JObj [])"

definition detection_encode :: "coercions \<Rightarrow> envelope \<Rightarrow> codec_exn + json" where
  "detection_encode P env =
     (case then_ok (validate_position P (or_empty (map_of (env_payload env) ''position''))) (\<lambda>p.
           then_ok (validate_detection P (or_empty (map_of (env_payload env) ''detection''))) (\<lambda>d.
             Inr (p, d))) of
        Inl e \<Rightarrow> Inl MeshSAError
      | Inr (p, d) \<Rightarrow>
          then_ok (lift_py (get_or (or_empty (map_of (env_payload env) ''node'')) ''callsign'' (JStr (det_label d))))
            (\<lambda>callsign.
              Inr (JObj ([(''src'', JStr (env_source_uid env)), (''callsign'', callsign),
                (''msg_id'', JStr (env_msg_id env)), (''ts'', JFloat (env_ts env)),
                (''lat'', JFloat (pos_lat p)), (''lon'', JFloat (pos_lon p)),
                (''hae'', JFloat (pos_hae p)), (''ce'', JFloat (pos_ce p)), (''le'', JFloat (pos_le p)),
                (''label'', JStr (det_label d)), (''confidence'', JFloat (det_confidence d))]
                @ item ''track_id'' (map_option JInt (det_track_id d))
                @ item ''bearing_deg'' (map_option JFloat (det_bearing_deg d))))))"

section \<open>Round trips\<close>

lemma mk_position_id:
  "mk_position lat lon hae ce le c s = Inr p \<Longrightarrow>
   p = \<lparr>pos_lat = lat, pos_lon = lon, pos_hae = hae, pos_ce = ce, pos_le = le, pos_course_deg = c, pos_speed_ms = s\<rparr>"
  by (auto simp: mk_position_def split: if_splits)

lemma mk_detection_id:
  "mk_detection l c t b = Inr d \<Longrightarrow>
   d = \<lparr>det_label = l, det_confidence = c, det_track_id = t, det_bearing_deg = b\<rparr>"
  by (auto simp: mk_detection_def split: if_splits)

lemma mk_telemetry_id:
  "mk_telemetry v p c a = Inr t \<Longrightarrow>
   t = \<lparr>tb_battery_v = v, tb_battery_pct = p, tb_current_a = c, tb_attitude = a\<rparr>"
  by (auto simp: mk_telemetry_def split: if_splits option.splits)

lemma validate_dump_position:
  assumes "keeps_typed P" "mk_position lat lon hae ce le c s = Inr p"
  shows "validate_position P (JObj (dump_position p)) = Inr p"
  using assms(2) assms(1) unfolding mk_position_id [OF assms(2)]
  by (cases c; cases s) (simp_all add: validate_position_def dump_position_def item_def keeps_typed_def
      required_def defaulted_def optional_def)

lemma validate_dump_detection:
  assumes "keeps_typed P" "mk_detection l c t b = Inr d"
  shows "validate_detection P (JObj (dump_detection d)) = Inr d"
  using assms(2) assms(1) unfolding mk_detection_id [OF assms(2)]
  by (cases t; cases b) (simp_all add: validate_detection_def dump_detection_def item_def keeps_typed_def
      required_def optional_def as_str_def)

lemma validate_dump_attitude:
  assumes "keeps_typed P"
  shows "validate_attitude P (dump_attitude a) = Some a"
  using assms
  by (cases a; cases "at_roll_deg a"; cases "at_pitch_deg a"; cases "at_yaw_deg a")
    (simp_all add: validate_attitude_def dump_attitude_def item_def keeps_typed_def optional_def)

lemma dump_attitude_not_null [simp]: "dump_attitude a \<noteq> JNull"
  by (simp add: dump_attitude_def)

lemma optional_attitude:
  assumes "keeps_typed P" "map_of kvs k = Some (dump_attitude a)"
  shows "optional (validate_attitude P) kvs k = Inr (Some a)"
  using assms by (simp add: optional_def validate_dump_attitude dump_attitude_def) (simp add: validate_dump_attitude flip: dump_attitude_def)

lemma validate_dump_telemetry:
  assumes "keeps_typed P" "mk_telemetry v p c a = Inr t"
  shows "validate_telemetry P (JObj (dump_telemetry t)) = Inr t"
proof -
  note t = mk_telemetry_id [OF assms(2)]
  let ?k = "dump_telemetry t"
  have "optional (as_float P) ?k ''battery_v'' = Inr v" "optional (as_int P) ?k ''battery_pct'' = Inr p"
    "optional (as_float P) ?k ''current_a'' = Inr c"
    using assms(1) unfolding t dump_telemetry_def
    by (cases v; cases p; cases c; cases a; simp add: item_def keeps_typed_def optional_def)+
  moreover have "optional (validate_attitude P) ?k ''attitude'' = Inr a"
  proof (cases a)
    case None
    then show ?thesis unfolding t dump_telemetry_def
      by (cases v; cases p; cases c; simp add: item_def optional_def)
  next
    case (Some w)
    have "map_of ?k ''attitude'' = Some (dump_attitude w)"
      unfolding t dump_telemetry_def by (cases v; cases p; cases c; simp add: item_def Some)
    from optional_attitude [OF assms(1) this] show ?thesis by (simp add: Some)
  qed
  ultimately show ?thesis using assms(2) by (simp add: validate_telemetry_def)
qed


lemma has_keys_simps [simp]:
  "has_keys [] kvs" "has_keys (k # ks) kvs \<longleftrightarrow> map_of kvs k \<noteq> None \<and> has_keys ks kvs"
  by (simp_all add: has_keys_def)

lemma item_simps [simp]: "item k None = []" "item k (Some j) = [(k, j)]"
  by (simp_all add: item_def)

lemma py_float_JFloat [simp]: "py_float (JFloat f) = Inr f"
  by (simp add: py_float_def)

lemma py_str_JStr [simp]: "py_str repr (JStr s) = s"
  by (simp add: py_str_def)

lemma optional_typed:
  assumes "keeps_typed P"
  shows "map_of kvs k = None \<Longrightarrow> optional conv kvs k = Inr None"
    and "map_of kvs k = Some (JFloat f) \<Longrightarrow> optional (as_float P) kvs k = Inr (Some f)"
    and "map_of kvs k = Some (JInt i) \<Longrightarrow> optional (as_int P) kvs k = Inr (Some i)"
  using assms by (simp_all add: optional_def keeps_typed_def)

text \<open>
  What a detection frame decodes to is encoded to a frame that decodes to the same envelope: the
  codec is lossless on every envelope it makes.
\<close>

lemma detection_decode_Inr:
  assumes "detection_decode P repr frame = Inr env"
  shows "\<exists>src mid ts p d cs lat lon hae ce le l c t b.
    env = \<lparr>env_schema_version = SCHEMA_VERSION, env_msg_id = mid, env_ts = ts, env_source_uid = src,
      env_kind = Marker, env_payload = [(''node'', JObj [(''uid'', JStr src), (''callsign'', JStr cs)]),
        (''position'', JObj (dump_position p)), (''detection'', JObj (dump_detection d))]\<rparr> \<and>
    mk_position lat lon hae ce le None None = Inr p \<and> mk_detection l c t b = Inr d"
proof (cases frame)
  case (JObj kvs)
  show ?thesis using assms unfolding JObj detection_decode_def
    by (simp add: Let_def then_ok_Inr_iff catch_invalid_Inr_iff split: if_splits prod.splits) blast
qed (use assms in \<open>simp_all add: detection_decode_def\<close>)

lemma detection_roundtrip_env:
  assumes P: "keeps_typed P"
    and p: "mk_position lat lon hae ce le None None = Inr p" and d: "mk_detection l c t b = Inr d"
    and env: "env = \<lparr>env_schema_version = SCHEMA_VERSION, env_msg_id = mid, env_ts = ts, env_source_uid = src,
      env_kind = Marker, env_payload = [(''node'', JObj [(''uid'', JStr src), (''callsign'', JStr cs)]),
        (''position'', JObj (dump_position p)), (''detection'', JObj (dump_detection d))]\<rparr>"
  shows "\<exists>frame. detection_encode P env = Inr frame \<and> detection_decode P repr frame = Inr env"
proof -
  have ne: "or_empty (Some (JObj (dump_position p))) = JObj (dump_position p)"
    "or_empty (Some (JObj (dump_detection d))) = JObj (dump_detection d)"
    by (simp_all add: or_empty_def dump_position_def dump_detection_def)
  have node: "or_empty (Some (JObj [(''uid'', JStr src), (''callsign'', JStr cs)])) =
      JObj [(''uid'', JStr src), (''callsign'', JStr cs)]"
    by (simp add: or_empty_def)
  let ?kvs = "[(''src'', JStr src), (''callsign'', JStr cs), (''msg_id'', JStr mid), (''ts'', JFloat ts),
     (''lat'', JFloat lat), (''lon'', JFloat lon), (''hae'', JFloat hae), (''ce'', JFloat ce), (''le'', JFloat le),
     (''label'', JStr l), (''confidence'', JFloat c)]
     @ item ''track_id'' (map_option JInt t) @ item ''bearing_deg'' (map_option JFloat b)"
  have pf: "pos_lat p = lat" "pos_lon p = lon" "pos_hae p = hae" "pos_ce p = ce" "pos_le p = le"
    "det_label d = l" "det_confidence d = c" "det_track_id d = t" "det_bearing_deg d = b"
    using mk_position_id [OF p] mk_detection_id [OF d] by simp_all
  have enc: "detection_encode P env = Inr (JObj ?kvs)"
    unfolding detection_encode_def env
    by (simp add: ne node validate_dump_position [OF P p] validate_dump_detection [OF P d] get_or_def pf)
  have opts: "optional (as_int P) ?kvs ''track_id'' = Inr t" "optional (as_float P) ?kvs ''bearing_deg'' = Inr b"
    by (cases t; cases b; simp add: optional_typed [OF P])+
  have fields: "map_of ?kvs ''src'' = Some (JStr src)" "map_of ?kvs ''callsign'' = Some (JStr cs)"
    "map_of ?kvs ''msg_id'' = Some (JStr mid)" "map_of ?kvs ''ts'' = Some (JFloat ts)"
    "map_of ?kvs ''lat'' = Some (JFloat lat)" "map_of ?kvs ''lon'' = Some (JFloat lon)"
    "map_of ?kvs ''hae'' = Some (JFloat hae)" "map_of ?kvs ''ce'' = Some (JFloat ce)"
    "map_of ?kvs ''le'' = Some (JFloat le)" "map_of ?kvs ''label'' = Some (JStr l)"
    "map_of ?kvs ''confidence'' = Some (JFloat c)"
    by simp_all
  have "detection_decode P repr (JObj ?kvs) = Inr env"
    unfolding detection_decode_def env json.case field_def frame_float_def Let_def has_keys_simps
      fields opts option.case
    by (simp add: p d)
  with enc show ?thesis by blast
qed


lemma dump_telemetry_default:
  "dump_telemetry t = [] \<Longrightarrow> t = \<lparr>tb_battery_v = None, tb_battery_pct = None, tb_current_a = None, tb_attitude = None\<rparr>"
  by (cases t) (auto simp: dump_telemetry_def item_def split: option.splits)

lemma telemetry_decode_Inr:
  assumes "telemetry_decode P repr frame = Inr env"
  shows "\<exists>src mid ts p cs lat lon hae c s block.
    env = \<lparr>env_schema_version = SCHEMA_VERSION, env_msg_id = mid, env_ts = ts, env_source_uid = src,
      env_kind = Pli, env_payload = [(''node'', JObj [(''uid'', JStr src), (''callsign'', JStr cs)]),
        (''position'', JObj (dump_position p))] @ block\<rparr> \<and>
    mk_position lat lon hae UNKNOWN_ERROR_M UNKNOWN_ERROR_M c s = Inr p \<and>
    (block = [] \<or> (\<exists>v pct cur att t. mk_telemetry v pct cur att = Inr t \<and> dump_telemetry t \<noteq> [] \<and>
       block = [(''telemetry'', JObj (dump_telemetry t))]))"
proof (cases frame)
  case (JObj kvs)
  from assms obtain ts p lat lon hae c s tel block where
    p: "mk_position lat lon hae UNKNOWN_ERROR_M UNKNOWN_ERROR_M c s = Inr p"
    and b: "(case tel of None \<Rightarrow> Inr None
       | Some v \<Rightarrow> then_ok (validate_telemetry P v) (\<lambda>t. Inr (Some t))) = Inr block"
    and env: "env = \<lparr>env_schema_version = SCHEMA_VERSION, env_msg_id = py_str repr (field kvs ''msg_id''),
      env_ts = ts, env_source_uid = py_str repr (field kvs ''src''), env_kind = Pli,
      env_payload = [(''node'', JObj [(''uid'', JStr (py_str repr (field kvs ''src''))),
         (''callsign'', JStr (case map_of kvs ''callsign'' of None \<Rightarrow> py_str repr (field kvs ''src'') | Some v \<Rightarrow> py_str repr v))]),
        (''position'', JObj (dump_position p))] @ (case block of None \<Rightarrow> []
           | Some t \<Rightarrow> if dump_telemetry t = [] then [] else [(''telemetry'', JObj (dump_telemetry t))])\<rparr>"
    unfolding JObj telemetry_decode_def
    by (auto simp: Let_def then_ok_Inr_iff catch_invalid_Inr_iff simp del: item_simps split: if_splits)
  let ?b = "case block of None \<Rightarrow> []
      | Some t \<Rightarrow> if dump_telemetry t = [] then [] else [(''telemetry'', JObj (dump_telemetry t))]"
  have "?b = [] \<or> (\<exists>v pct cur att t. mk_telemetry v pct cur att = Inr t \<and> dump_telemetry t \<noteq> [] \<and>
      ?b = [(''telemetry'', JObj (dump_telemetry t))])"
  proof (cases block)
    case (Some t)
    then obtain v where "validate_telemetry P v = Inr t"
      using b by (auto simp: then_ok_Inr_iff split: option.splits)
    then obtain bv pct cur att where "mk_telemetry bv pct cur att = Inr t"
      by (auto simp: validate_telemetry_def then_ok_Inr_iff split: json.splits)
    then show ?thesis unfolding Some option.case by (cases "dump_telemetry t = []") (simp_all, blast)
  qed simp
  with p env show ?thesis by blast
qed (use assms in \<open>simp_all add: telemetry_decode_def\<close>)

lemma telemetry_roundtrip_env:
  assumes P: "keeps_typed P"
    and p: "mk_position lat lon hae UNKNOWN_ERROR_M UNKNOWN_ERROR_M c s = Inr p"
    and b: "block = [] \<or> (\<exists>v pct cur att t. mk_telemetry v pct cur att = Inr t \<and> dump_telemetry t \<noteq> [] \<and>
       block = [(''telemetry'', JObj (dump_telemetry t))])"
    and env: "env = \<lparr>env_schema_version = SCHEMA_VERSION, env_msg_id = mid, env_ts = ts, env_source_uid = src,
      env_kind = Pli, env_payload = [(''node'', JObj [(''uid'', JStr src), (''callsign'', JStr cs)]),
        (''position'', JObj (dump_position p))] @ block\<rparr>"
  shows "\<exists>frame. telemetry_encode P env = Inr frame \<and> telemetry_decode P repr frame = Inr env"
proof -
  let ?base = "[(''src'', JStr src), (''callsign'', JStr cs), (''msg_id'', JStr mid), (''ts'', JFloat ts),
     (''lat'', JFloat lat), (''lon'', JFloat lon), (''hae'', JFloat hae)]"
  let ?kvs = "?base @ item ''course_deg'' (map_option JFloat c) @ item ''speed_ms'' (map_option JFloat s) @ block"
  have get: "get_or (JObj (dump_position p)) ''lat'' d = Inr (JFloat lat)"
    "get_or (JObj (dump_position p)) ''lon'' d = Inr (JFloat lon)"
    "get_or (JObj (dump_position p)) ''hae'' d = Inr (JFloat hae)"
    "get_or (JObj (dump_position p)) ''course_deg'' d = Inr (case c of None \<Rightarrow> d | Some x \<Rightarrow> JFloat x)"
    "get_or (JObj (dump_position p)) ''speed_ms'' d = Inr (case s of None \<Rightarrow> d | Some x \<Rightarrow> JFloat x)" for d
    unfolding mk_position_id [OF p] dump_position_def get_or_def by (cases c; cases s; simp)+
  have opts: "item ''course_deg'' (json_opt (case c of None \<Rightarrow> JNull | Some x \<Rightarrow> JFloat x)) = item ''course_deg'' (map_option JFloat c)"
    "item ''speed_ms'' (json_opt (case s of None \<Rightarrow> JNull | Some x \<Rightarrow> JFloat x)) = item ''speed_ms'' (map_option JFloat s)"
    by (cases c; cases s; simp add: json_opt_def)+
  have tel: "(case map_of (env_payload env) ''telemetry'' of
       None \<Rightarrow> Inr [] | Some JNull \<Rightarrow> Inr []
     | Some t \<Rightarrow> (case validate_telemetry P t of
           Inl e \<Rightarrow> Inl MeshSAError
         | Inr b \<Rightarrow> Inr (if dump_telemetry b = [] then [] else [(''telemetry'', JObj (dump_telemetry b))]))) = Inr block"
    using b by (auto simp: env validate_dump_telemetry [OF P])
  have node: "map_of (env_payload env) ''node'' = Some (JObj [(''uid'', JStr src), (''callsign'', JStr cs)])"
    "map_of (env_payload env) ''position'' = Some (JObj (dump_position p))"
    "get_or (JObj [(''uid'', JStr src), (''callsign'', JStr cs)]) ''callsign'' d = Inr (JStr cs)" for d
    by (simp_all add: env get_or_def)
  have head: "env_source_uid env = src" "env_msg_id env = mid" "env_ts env = ts" by (simp_all add: env)
  have enc: "telemetry_encode P env = Inr (JObj ?kvs)"
    unfolding telemetry_encode_def Let_def tel node option.case get lift_py_simps then_ok_simps opts head by simp
  have fields: "map_of ?kvs ''src'' = Some (JStr src)" "map_of ?kvs ''callsign'' = Some (JStr cs)"
    "map_of ?kvs ''msg_id'' = Some (JStr mid)" "map_of ?kvs ''ts'' = Some (JFloat ts)"
    "map_of ?kvs ''lat'' = Some (JFloat lat)" "map_of ?kvs ''lon'' = Some (JFloat lon)"
    "map_of ?kvs ''hae'' = Some (JFloat hae)"
    by simp_all
  have block: "map_of block ''course_deg'' = None" "map_of block ''speed_ms'' = None" using b by auto
  have cs: "optional (as_float P) ?kvs ''course_deg'' = Inr c" "optional (as_float P) ?kvs ''speed_ms'' = Inr s"
    using block by (cases c; cases s; simp add: optional_typed [OF P])+
  have t: "optional (\<lambda>v. Some v) ?kvs ''telemetry'' = Inr (map_of block ''telemetry'')"
    using b by (cases c; cases s; auto simp: optional_def)
  have v: "(case map_of block ''telemetry'' of None \<Rightarrow> Inr None
       | Some v \<Rightarrow> then_ok (validate_telemetry P v) (\<lambda>t. Inr (Some t))) = Inr None \<and> block = [] \<or>
     (\<exists>t. (case map_of block ''telemetry'' of None \<Rightarrow> Inr None
       | Some v \<Rightarrow> then_ok (validate_telemetry P v) (\<lambda>t. Inr (Some t))) = Inr (Some t) \<and>
       dump_telemetry t \<noteq> [] \<and> block = [(''telemetry'', JObj (dump_telemetry t))])"
    using b by (auto simp: validate_dump_telemetry [OF P])
  have "telemetry_decode P repr (JObj ?kvs) = Inr env"
    unfolding telemetry_decode_def env json.case field_def frame_float_def Let_def has_keys_simps
      fields option.case py_float_JFloat py_str_JStr then_ok_simps cs t p
    using v by auto
  with enc show ?thesis by blast
qed

text \<open>Both codecs are lossless on the envelopes they make.\<close>

definition telemetry_made :: "coercions \<Rightarrow> (json \<Rightarrow> string) \<Rightarrow> envelope \<Rightarrow> bool" where
  "telemetry_made P repr env \<longleftrightarrow> keeps_typed P \<and> (\<exists>frame. telemetry_decode P repr frame = Inr env)"

definition detection_made :: "coercions \<Rightarrow> (json \<Rightarrow> string) \<Rightarrow> envelope \<Rightarrow> bool" where
  "detection_made P repr env \<longleftrightarrow> keeps_typed P \<and> (\<exists>frame. detection_decode P repr frame = Inr env)"

lemma telemetry_made_roundtrip:
  assumes "telemetry_made P repr env"
  shows "\<exists>frame. telemetry_encode P env = Inr frame \<and> telemetry_decode P repr frame = Inr env"
proof -
  obtain frame where P: "keeps_typed P" and d: "telemetry_decode P repr frame = Inr env"
    using assms by (auto simp: telemetry_made_def)
  from telemetry_decode_Inr [OF d] show ?thesis
    by (elim exE conjE) (rule telemetry_roundtrip_env [OF P])
qed

lemma detection_made_roundtrip:
  assumes "detection_made P repr env"
  shows "\<exists>frame. detection_encode P env = Inr frame \<and> detection_decode P repr frame = Inr env"
proof -
  obtain frame where P: "keeps_typed P" and d: "detection_decode P repr frame = Inr env"
    using assms by (auto simp: detection_made_def)
  from detection_decode_Inr [OF d] show ?thesis
    by (elim exE conjE) (rule detection_roundtrip_env [OF P])
qed

interpretation telemetry_codec: wire_codec "telemetry_encode P" "telemetry_decode P repr"
  "telemetry_made P repr" "\<lambda>env. env" for P repr
  by unfold_locales (auto dest: telemetry_made_roundtrip)

interpretation detection_codec: wire_codec "detection_encode P" "detection_decode P repr"
  "detection_made P repr" "\<lambda>env. env" for P repr
  by unfold_locales (auto dest: detection_made_roundtrip)

end
