(* ===== verification/Mesh_Facts.thy ===== *)
theory Mesh_Facts
  imports Mesh_Router Compact_Codec Transport_Core Ui_Snapshot Frame_Codecs
begin

text \<open>
  The properties of the mesh: the router, the codecs, the shared transport plumbing and the
  operator's picture.
\<close>

section \<open>The router\<close>

definition demo_env :: envelope where
  "demo_env = \<lparr>env_schema_version = 1, env_msg_id = ''m1'', env_ts = Fin 1700000000, env_source_uid = ''n1'',
     env_kind = Chat, env_payload = chat_payload ''hi'' ''''\<rparr>"

definition demo_router_config :: router_config where
  "demo_router_config =
     \<lparr>rc_transports = [''lora'', ''tak'', ''wifi''],
      rc_default_codec = \<lparr>wc_encode = (\<lambda>env. Inr [word_of_nat (length (env_msg_id env))]), wc_decode = (\<lambda>d. Inr demo_env)\<rparr>,
      rc_codecs = [], rc_dedupe_cache_size = 4\<rparr>"

text \<open>C30: A fresh message is delivered to the subscribers once and forwarded, in the target's own
  encoding, to every transport but the one it came from, at most once each; a pump that was not
  stopped by a raise served them all.\<close>

theorem router_forwards_fresh:
  assumes "wc_decode (codec_for C src) data = Inr env" "env_msg_id env \<notin> set (ro_seen r)"
    and "0 \<le> rc_dedupe_cache_size C" and "pump_frame C log_send src data r w = (res, r', w')"
  shows "ro_delivered r' = ro_delivered r @ [env] \<and>
    (\<exists>sent. w' = w @ sent \<and> src \<notin> fst ` set sent \<and> distinct (map fst sent) \<and>
      (\<forall>(i, d) \<in> set sent. i < length (rc_transports C) \<and> wc_encode (codec_for C i) env = Inr d) \<and>
      (res = Inr () \<longrightarrow> fst ` set sent = {i. i < length (rc_transports C) \<and> i \<noteq> src}))"
  by (rule pump_frame_fresh [OF assms])

theorem router_forwards_fresh_witness:
  "\<exists>r' w'. pump_frame demo_router_config log_send 0 [] new_router [] = (Inr (), r', w') \<and>
     ro_delivered r' = [demo_env] \<and> fst ` set w' = {1, 2}"
proof -
  have c: "codec_for demo_router_config i = rc_default_codec demo_router_config" for i
    by (simp add: codec_for_def demo_router_config_def)
  have d: "wc_decode (codec_for demo_router_config 0) [] = Inr demo_env"
    "env_msg_id demo_env \<notin> set (ro_seen new_router)" "0 \<le> rc_dedupe_cache_size demo_router_config"
    unfolding c by (simp_all add: demo_router_config_def new_router_def)
  have "fst (pump_frame demo_router_config log_send 0 [] new_router []) = Inr ()" by code_simp
  then obtain r' w' where p: "pump_frame demo_router_config log_send 0 [] new_router [] = (Inr (), r', w')"
    by (metis prod.exhaust fst_conv)
  from router_forwards_fresh [OF d p] p show ?thesis
    by (auto simp: new_router_def demo_router_config_def)
qed

text \<open>Every received frame is counted exactly once, as received, undecodable or of another
  schema; the memory of seen messages stays within its bound and free of repetitions; and a
  duplicate is neither delivered nor forwarded.\<close>

theorem router_counts_and_filters:
  assumes "seen_inv (rc_dedupe_cache_size C) (ro_seen r)" "0 \<le> rc_dedupe_cache_size C"
    and "pump_frame C send src data r w = (res, r', w')"
  shows "accounted (ro_metrics r') = Suc (accounted (ro_metrics r)) \<and>
    seen_inv (rc_dedupe_cache_size C) (ro_seen r') \<and>
    (\<forall>env. wc_decode (codec_for C src) data = Inr env \<and> env_msg_id env \<in> set (ro_seen r) \<longrightarrow>
       res = Inr () \<and> ro_delivered r' = ro_delivered r \<and> w' = w)"
  using pump_frame_accounted [OF assms(3)] seen_inv_pump [OF assms] assms(3)
  by (auto simp: pump_frame_duplicate)

theorem router_counts_and_filters_witness:
  "\<exists>r' w'. pump_frame demo_router_config log_send 0 [] (new_router\<lparr>ro_seen := [''m1'']\<rparr>) [] = (Inr (), r', w') \<and>
     accounted (ro_metrics r') = 1 \<and> ro_delivered r' = [] \<and> w' = []"
proof -
  let ?r = "new_router\<lparr>ro_seen := [''m1'']\<rparr>"
  obtain res r' w' where p: "pump_frame demo_router_config log_send 0 [] ?r [] = (res, r', w')"
    by (metis prod_cases3)
  have "seen_inv (rc_dedupe_cache_size demo_router_config) (ro_seen ?r)" "0 \<le> rc_dedupe_cache_size demo_router_config"
    by (simp_all add: seen_inv_def demo_router_config_def)
  from router_counts_and_filters [OF this p] p show ?thesis
    by (auto simp: codec_for_def demo_router_config_def demo_env_def new_router_def accounted_def)
qed

section \<open>The LoRa codec\<close>

text \<open>A position report survives the binary encoding: coordinates within half a unit of the
  seventh decimal, altitude to the metre, error estimates rounded and clamped to sixteen bits,
  everything else unchanged but for the fraction of the timestamp.\<close>

theorem compact_position_roundtrip:
  assumes "header_ok supported env ts" "is_position_kind (env_kind env)"
    and "env_payload env = pli_payload uid callsign (TIERS ! tier) lat lon hae ce le" "tier < 3"
    and "\<bar>lat\<bar> \<le> 180" "\<bar>lon\<bar> \<le> 180" "i32 (py_round hae)" "length callsign \<le> 255" "text_ok callsign"
  shows "\<exists>b lat' lon'. compact_encode repr dumps env = Inr b \<and>
    compact_decode loads supported b = Inr (env\<lparr>env_ts := Fin (real_of_int ts),
      env_payload := pli_payload (env_source_uid env) callsign (TIERS ! tier) lat' lon'
        (real_of_int (py_round hae)) (real_of_int (clamp_int (py_round ce)))
        (real_of_int (clamp_int (py_round le)))\<rparr>) \<and>
    \<bar>lat' - lat\<bar> \<le> 1 / (2 * DEGE7) \<and> \<bar>lon' - lon\<bar> \<le> 1 / (2 * DEGE7)"
  using position_roundtrip [OF assms, of repr dumps loads] scaled_error [of lat] scaled_error [of lon] by blast

definition demo_pli :: envelope where
  "demo_pli = demo_env\<lparr>env_kind := Pli,
     env_payload := pli_payload ''n1'' ''alpha'' (TIERS ! 1) 45.5 (-122.25) 100 5 7\<rparr>"

lemma demo_header: "header_ok {1} demo_env 1700000000" "header_ok {1} demo_pli 1700000000"
  by (simp_all add: header_ok_def demo_pli_def demo_env_def) code_simp+

theorem compact_position_roundtrip_witness:
  "\<exists>b lat' lon'. compact_encode (\<lambda>_. '''') (\<lambda>_. '''') demo_pli = Inr b \<and>
     compact_decode (\<lambda>_. Inl ValueError) {1} b = Inr (demo_pli\<lparr>env_ts := Fin 1700000000,
       env_payload := pli_payload ''n1'' ''alpha'' ''backbone'' lat' lon' 100 5 7\<rparr>) \<and> \<bar>lat' - 45.5\<bar> \<le> 1 / (2 * DEGE7)"
proof -
  have "is_position_kind (env_kind demo_pli)" "(1::nat) < 3" "\<bar>45.5 :: real\<bar> \<le> 180" "\<bar>- 122.25 :: real\<bar> \<le> 180"
    "i32 (py_round 100)" "length ''alpha'' \<le> 255" "text_ok ''alpha''"
    "env_payload demo_pli = pli_payload ''n1'' ''alpha'' (TIERS ! 1) 45.5 (-122.25) 100 5 7"
    by (simp_all add: is_position_kind_def demo_pli_def i32_def) code_simp+
  note h = this
  have "real_of_int (py_round 100) = 100" "real_of_int (clamp_int (py_round 5)) = 5" "real_of_int (clamp_int (py_round 7)) = 7"
    "TIERS ! 1 = ''backbone''" "env_source_uid demo_pli = ''n1''"
    by (simp_all add: py_round_def clamp_int_def U16_MAX_def TIERS_def demo_pli_def demo_env_def)
  with compact_position_roundtrip [OF demo_header(2) h(1,8,2-7), of "\<lambda>_. ''''" "\<lambda>_. ''''" "\<lambda>_. Inl ValueError"]
  show ?thesis by auto
qed

text \<open>A chat message survives the binary encoding; but a frame of it that was cut short, at a
  character boundary, also decodes without an error, to a shorter text.\<close>

theorem compact_chat_roundtrip_and_cut:
  assumes "header_ok supported env ts" "env_kind env = Chat" "env_payload env = chat_payload text to"
    and "length to \<le> 255" "text_ok to" "length text < 65536" "text_ok text"
    and "k \<le> length text" "text_ok (take k text)"
  shows "\<exists>b. compact_encode repr dumps env = Inr b \<and>
    compact_decode loads supported b = Inr (env\<lparr>env_ts := Fin (real_of_int ts)\<rparr>) \<and>
    compact_decode loads supported (take (length b - (length text - k)) b) =
      Inr (env\<lparr>env_ts := Fin (real_of_int ts), env_payload := chat_payload (take k text) to\<rparr>)"
  using chat_roundtrip [OF assms(1-7), of repr dumps loads] chat_cut [OF assms(1-6,8,9), of repr dumps loads] by auto

theorem compact_chat_roundtrip_and_cut_witness:
  "\<exists>b env'. compact_encode (\<lambda>_. '''') (\<lambda>_. '''') demo_env = Inr b \<and>
     compact_decode (\<lambda>_. Inl ValueError) {1} (take (length b - 1) b) = Inr env' \<and> env_payload env' = chat_payload ''h'' ''''"
proof -
  have "env_kind demo_env = Chat" "env_payload demo_env = chat_payload ''hi'' ''''" "length '''' \<le> (255::nat)"
    "text_ok ''''" "length ''hi'' < (65536::nat)" "text_ok ''hi''" "1 \<le> length ''hi''" "text_ok (take 1 ''hi'')"
    by (simp_all add: demo_env_def) code_simp+
  from compact_chat_roundtrip_and_cut [OF demo_header(1) this, of "\<lambda>_. ''''" "\<lambda>_. ''''" "\<lambda>_. Inl ValueError"]
  show ?thesis by auto
qed

section \<open>The source codecs\<close>

text \<open>Where pydantic keeps values that are typed already, what a telemetry or a detection frame
  decodes to is encoded to a frame that decodes to the same envelope.\<close>

theorem source_codecs_lossless:
  assumes "keeps_typed P"
  shows "(\<forall>frame env. telemetry_decode P repr frame = Inr env \<longrightarrow>
      (\<exists>frame'. telemetry_encode P env = Inr frame' \<and> telemetry_decode P repr frame' = Inr env)) \<and>
    (\<forall>frame env. detection_decode P repr frame = Inr env \<longrightarrow>
      (\<exists>frame'. detection_encode P env = Inr frame' \<and> detection_decode P repr frame' = Inr env))"
  using telemetry_codec.roundtrip [of P repr] detection_codec.roundtrip [of P repr] assms
  unfolding telemetry_made_def detection_made_def by blast

definition demo_coercions :: coercions where
  "demo_coercions =
     \<lparr>as_float = (\<lambda>j. case j of JFloat f \<Rightarrow> Some f | JInt i \<Rightarrow> Some (Fin (real_of_int i)) | _ \<Rightarrow> None),
      as_int = (\<lambda>j. case j of JInt i \<Rightarrow> Some i | _ \<Rightarrow> None)\<rparr>"

definition demo_detection_frame :: json where
  "demo_detection_frame = JObj
     [(''src'', JStr ''cam''), (''msg_id'', JStr ''d1''), (''ts'', JInt 7), (''lat'', JFloat (Fin 45)),
      (''lon'', JFloat (Fin 9)), (''label'', JStr ''person''), (''confidence'', JFloat (Fin (1/2))), (''track_id'', JInt 3)]"

theorem source_codecs_lossless_witness:
  "\<exists>env frame'. detection_decode demo_coercions (\<lambda>_. '''') demo_detection_frame = Inr env \<and>
     detection_encode demo_coercions env = Inr frame' \<and> detection_decode demo_coercions (\<lambda>_. '''') frame' = Inr env"
proof -
  have k: "keeps_typed demo_coercions" by (simp add: keeps_typed_def demo_coercions_def)
  have "case detection_decode demo_coercions (\<lambda>_. '''') demo_detection_frame of Inr _ \<Rightarrow> True | Inl _ \<Rightarrow> False"
    by code_simp
  then obtain env where "detection_decode demo_coercions (\<lambda>_. '''') demo_detection_frame = Inr env"
    by (auto split: sum.splits)
  with source_codecs_lossless [OF k, of "\<lambda>_. ''''"] show ?thesis by blast
qed

section \<open>Transports\<close>

text \<open>An inbox never reorders or loses what it accepted: its content is its earlier content and
  then some of the offered items in their order, every other offered item is counted as dropped, and
  a bounded inbox stays within its bound.\<close>

theorem inbox_accounts:
  "\<exists>ys. ib_items (foldl ingest_nowait q xs) = ib_items q @ ys \<and> subseq ys xs \<and>
     length ys + ib_dropped (foldl ingest_nowait q xs) = ib_dropped q + length xs \<and>
     (inbox_bounded q \<longrightarrow> inbox_bounded (foldl ingest_nowait q xs))"
proof -
  obtain ys where ys: "ib_items (foldl ingest_nowait q xs) = ib_items q @ ys" "subseq ys xs"
    using inbox_queue.put_run_subseq by blast
  moreover have "length ys + ib_dropped (foldl ingest_nowait q xs) = ib_dropped q + length xs"
    using inbox_queue.put_run_accounts [of q xs] ys(1) by simp
  ultimately show ?thesis using inbox_machine.inv_run by blast
qed

theorem inbox_accounts_witness:
  "\<exists>ys. ib_items (foldl ingest_nowait \<lparr>ib_maxsize = 2, ib_items = [], ib_dropped = 0\<rparr> [[1], [2], [3]]) = ys \<and>
     length ys + 1 = 3"
proof -
  let ?q = "\<lparr>ib_maxsize = 2, ib_items = [], ib_dropped = 0\<rparr>"
  have "ib_dropped (foldl ingest_nowait ?q [[1], [2], [3]]) = 1" by code_simp
  with inbox_accounts [of ?q "[[1], [2], [3]]"] show ?thesis by auto
qed

text \<open>Callers that use a pacer one after the other get, in any window, at most the burst plus the
  rate times the window's length.\<close>

theorem pacer_bounds_rate:
  assumes "new_pacer rate burst now = Inr p" "timely reqs p" "i \<le> j" "j < length (grants reqs p)"
  shows "real (j - i) + 1 \<le> real_of_int burst + rate * (grants reqs p ! j - grants reqs p ! i)"
proof -
  have "pa_interval p = 1 / rate" "pa_capacity p = real_of_int burst"
    using assms(1) by (auto simp: new_pacer_def split: if_splits)
  then show ?thesis using grants_window [OF new_pacer_ok [OF assms(1)] assms(2-4)] by (simp add: mult.commute)
qed

theorem pacer_bounds_rate_witness:
  "\<exists>p. new_pacer 2 1 0 = Inr p \<and> real 1 + 1 \<le> 1 + 2 * (grants [(0, 0), (0, 1/2)] p ! 1 - grants [(0, 0), (0, 1/2)] p ! 0)"
proof -
  let ?p = "\<lparr>pa_interval = 1 / 2, pa_capacity = 1, pa_tokens = 1, pa_last = 0\<rparr>"
  have p: "new_pacer 2 1 0 = Inr ?p" by (simp add: new_pacer_def)
  have "timely [(0, 0), (0, 1/2)] ?p" "1 < length (grants [(0, 0), (0, 1/2)] ?p)"
    by (simp_all add: wait_long_enough_def acquire_begin_def acquire_def acquire_finish_def Let_def)
  from pacer_bounds_rate [OF p this(1) _ this(2), of 0] p show ?thesis by auto
qed

section \<open>The operator's picture\<close>

text \<open>While the clock does not run backwards, the picture keeps its caps, holds each key once with
  the oldest entry in front, whatever is handled; and a read returns exactly the entries that are
  not stale.\<close>

theorem snapshot_stays_bounded:
  assumes "snapshot_ok C t s" "t \<le> now" "0 < sn_max_tracks C" "0 < sn_max_detections C"
  shows "snapshot_ok C now (snd (snapshot_handle repr C now env s)) \<and>
    fst (tracks_geojson C now s) =
      map (en_feature \<circ> snd) (filter (\<lambda>x. now - sn_track_stale_s C \<le> en_seen_at (snd x)) (sn_tracks s))"
  using snapshot_handle_ok [OF assms]
  by (auto simp: tracks_geojson_def sweep_def Let_def not_less case_prod_beta split: prod.split intro!: arg_cong [of _ _ "map _"] filter_cong)

definition demo_snapshot_config :: snapshot_config where
  "demo_snapshot_config = \<lparr>sn_max_tracks = 1, sn_max_detections = 1, sn_track_stale_s = 60, sn_detection_stale_s = 60\<rparr>"

theorem snapshot_stays_bounded_witness:
  "\<exists>s. new_snapshot demo_snapshot_config = Inr s \<and>
     snapshot_ok demo_snapshot_config 5 (snd (snapshot_handle (\<lambda>_. '''') demo_snapshot_config 5 demo_pli s))"
proof -
  obtain s where s: "new_snapshot demo_snapshot_config = Inr s"
    by (simp add: new_snapshot_def demo_snapshot_config_def)
  from snapshot_stays_bounded [OF new_snapshot_ok [OF s, of 0], of 5] s show ?thesis
    by (auto simp: demo_snapshot_config_def)
qed

end
