(* ===== verification/Scout_Geo.thy ===== *)
theory Scout_Geo
  imports Prelude
begin

text \<open>
  The geometry of the survey pipeline: the projection of a pixel to the ground
  (\<^verbatim>\<open>meshsa/cv/geo.py\<close>), the terrain models (\<^verbatim>\<open>scout/terrain.py\<close>), pose fusion
  (\<^verbatim>\<open>scout/pose.py\<close>) and the planned path (\<^verbatim>\<open>scout/survey.py\<close>).  Floats are real numbers, so
  \<open>tan\<close> at a right angle is 0 and a division by it 0, where floating point gives a quotient
  of the order of \<open>10 ^ -17\<close>.
\<close>

section \<open>Geodesy\<close>

definition EARTH_R_M :: real where "EARTH_R_M = 6371000"

definition radians :: "real \<Rightarrow> real" where "radians d = d * pi / 180"
definition degrees :: "real \<Rightarrow> real" where "degrees r = r * 180 / pi"

text \<open>\<^verbatim>\<open>x % 360.0\<close>\<close>

definition mod_360 :: "real \<Rightarrow> real" where
  "mod_360 x = x - 360 * real_of_int \<lfloor>x / 360\<rfloor>"

definition destination :: "real \<Rightarrow> real \<Rightarrow> real \<Rightarrow> real \<Rightarrow> real \<times> real" where
  "destination lat lon bearing_deg range_m =
     (let brg = radians bearing_deg;
          north = range_m * cos brg;
          east = range_m * sin brg;
          dlat = degrees (north / EARTH_R_M);
          c = cos (radians lat);
          cos_lat = (if \<bar>c\<bar> < 1 / 10 ^ 6 then (if c < 0 then - 1 / 10 ^ 6 else 1 / 10 ^ 6) else c);
          dlon = degrees (east / (EARTH_R_M * cos_lat))
      in (lat + dlat, lon + dlon))"

definition ground_distance_m :: "real \<Rightarrow> real \<Rightarrow> real \<Rightarrow> real \<Rightarrow> real" where
  "ground_distance_m lat1 lon1 lat2 lon2 =
     (let p1 = radians lat1; p2 = radians lat2; dp = radians (lat2 - lat1); dl = radians (lon2 - lon1);
          a = (sin (dp / 2))\<^sup>2 + cos p1 * cos p2 * (sin (dl / 2))\<^sup>2
      in 2 * EARTH_R_M * arcsin (min 1 (sqrt a)))"

lemma ground_distance_refl [simp]: "ground_distance_m lat lon lat lon = 0"
  by (simp add: ground_distance_m_def radians_def)

lemma mod_360_range: "0 \<le> mod_360 x" "mod_360 x < 360"
  unfolding mod_360_def by linarith+

section \<open>Projection\<close>

record camera =
  img_w :: int
  img_h :: int
  h_fov_deg :: real
  v_fov_deg :: real

record pose =
  po_lat :: real
  po_lon :: real
  po_alt_agl_m :: real
  po_heading_deg :: real
  po_pitch_deg :: real

record ground_fix =
  gf_lat :: real
  gf_lon :: real
  gf_ce_m :: real
  gf_range_m :: real

type_synonym terrain = "real \<Rightarrow> real \<Rightarrow> real"

definition angle_off_axis :: "real \<Rightarrow> real \<Rightarrow> real" where
  "angle_off_axis off fov_deg = degrees (arctan (off * tan (radians fov_deg / 2)))"

definition relative_bearing :: "real \<Rightarrow> camera \<Rightarrow> real option \<Rightarrow> real" where
  "relative_bearing cx cam heading =
     (let off = 2 * cx / real_of_int (img_w cam) - 1;
          yaw_off = angle_off_axis off (h_fov_deg cam);
          base = (case heading of None \<Rightarrow> yaw_off | Some h \<Rightarrow> h + yaw_off)
      in mod_360 base)"

definition ground_error :: "real \<Rightarrow> real \<Rightarrow> real \<Rightarrow> real" where
  "ground_error range_m pos_cep_m att_sigma_deg = pos_cep_m + range_m * tan (radians att_sigma_deg)"

definition POINTING_UNCERTAINTY_DEG :: real where "POINTING_UNCERTAINTY_DEG = 1"
definition LEGACY_ERROR_FLOOR_M :: real where "LEGACY_ERROR_FLOOR_M = 5"
definition MIN_DEPRESSION_DEG :: real where "MIN_DEPRESSION_DEG = 1 / 10"

text \<open>The refinement loop over the terrain: \<open>None\<close> when the ground rises above the camera.\<close>

fun refine_range :: "terrain \<Rightarrow> pose \<Rightarrow> real \<Rightarrow> real \<Rightarrow> nat \<Rightarrow> real \<Rightarrow> real option" where
  "refine_range T p azimuth tan_dep 0 ground_range = Some ground_range"
| "refine_range T p azimuth tan_dep (Suc n) ground_range =
     (case destination (po_lat p) (po_lon p) azimuth ground_range of
        (hit_lat, hit_lon) \<Rightarrow>
          let effective_agl = po_alt_agl_m p - (T hit_lat hit_lon - T (po_lat p) (po_lon p))
          in if effective_agl \<le> 0 then None
             else refine_range T p azimuth tan_dep n (effective_agl / tan_dep))"

text \<open>The direction of the ray: depression and azimuth, reflected if it points behind the camera.\<close>

definition ray_direction :: "pose \<Rightarrow> camera \<Rightarrow> real \<Rightarrow> real \<Rightarrow> real \<Rightarrow> real \<times> real" where
  "ray_direction p cam cx cy roll_deg =
     (let yaw0 = angle_off_axis (2 * cx / real_of_int (img_w cam) - 1) (h_fov_deg cam);
          pitch0 = angle_off_axis (2 * cy / real_of_int (img_h cam) - 1) (v_fov_deg cam);
          r = radians roll_deg;
          yaw = (if roll_deg \<noteq> 0 then yaw0 * cos r - pitch0 * sin r else yaw0);
          pitch = (if roll_deg \<noteq> 0 then yaw0 * sin r + pitch0 * cos r else pitch0);
          depression = po_pitch_deg p + pitch;
          azimuth = mod_360 (po_heading_deg p + yaw)
      in if 90 < depression then (180 - depression, mod_360 (azimuth + 180)) else (depression, azimuth))"

definition project_to_ground ::
  "pose \<Rightarrow> camera \<Rightarrow> real \<Rightarrow> real \<Rightarrow> real \<Rightarrow> terrain option \<Rightarrow> real option \<Rightarrow> real option \<Rightarrow> int \<Rightarrow>
     ground_fix option" where
  "project_to_ground p cam cx cy roll_deg terr pos_cep att_sigma terrain_iters =
     (if po_alt_agl_m p \<le> 0 then None
      else case ray_direction p cam cx cy roll_deg of
        (depression, azimuth) \<Rightarrow>
          if depression < MIN_DEPRESSION_DEG then None
          else
            let tan_dep = tan (radians depression);
                flat_range = po_alt_agl_m p / tan_dep;
                refined = (case terr of
                    None \<Rightarrow> Some flat_range
                  | Some T \<Rightarrow> refine_range T p azimuth tan_dep (nat terrain_iters) flat_range)
            in case refined of
                 None \<Rightarrow> None
               | Some ground_range \<Rightarrow>
                   (case destination (po_lat p) (po_lon p) azimuth ground_range of
                      (lat, lon) \<Rightarrow>
                        let ce = (if pos_cep = None \<and> att_sigma = None
                              then ground_range * tan (radians POINTING_UNCERTAINTY_DEG) + LEGACY_ERROR_FLOOR_M
                              else ground_error ground_range
                                (case pos_cep of None \<Rightarrow> 0 | Some c \<Rightarrow> c)
                                (case att_sigma of None \<Rightarrow> POINTING_UNCERTAINTY_DEG | Some s \<Rightarrow> s))
                        in Some \<lparr>gf_lat = lat, gf_lon = lon, gf_ce_m = ce, gf_range_m = ground_range\<rparr>))"

text \<open>A fix has a non-negative range: the ray went down, at no more than a right angle.\<close>

lemma ray_direction_le_90: "fst (ray_direction p cam cx cy roll) \<le> 90"
  by (simp add: ray_direction_def Let_def)

lemma tan_depression_nonneg:
  assumes "0 \<le> d" "d \<le> 90" shows "0 \<le> tan (radians d)"
proof -
  have "0 \<le> radians d" "radians d \<le> pi / 2"
    using assms mult_right_mono [of d 90 pi] by (simp_all add: radians_def)
  then have "0 \<le> sin (radians d)" "0 \<le> cos (radians d)"
    by (auto intro!: sin_ge_zero cos_ge_zero)
  then show ?thesis by (simp add: tan_def)
qed

lemma refine_range_nonneg:
  "0 \<le> td \<Longrightarrow> 0 \<le> g \<Longrightarrow> refine_range T p az td n g = Some r \<Longrightarrow> 0 \<le> r"
proof (induction n arbitrary: g)
  case (Suc n)
  obtain a b where d: "destination (po_lat p) (po_lon p) az g = (a, b)" by fastforce
  let ?e = "po_alt_agl_m p - (T a b - T (po_lat p) (po_lon p))"
  from Suc.prems(3) d have "0 < ?e" and r: "refine_range T p az td n (?e / td) = Some r"
    by (auto simp: Let_def split: if_splits)
  then have "0 \<le> ?e / td" using Suc.prems(1) by (intro divide_nonneg_nonneg) simp_all
  with Suc.IH Suc.prems(1) r show ?case by blast
qed simp

lemma project_to_ground_range:
  assumes "project_to_ground p cam cx cy roll terr cep sig iters = Some fx"
  shows "0 < po_alt_agl_m p \<and> 0 \<le> gf_range_m fx"
proof -
  obtain d az where rd: "ray_direction p cam cx cy roll = (d, az)" by fastforce
  have d: "MIN_DEPRESSION_DEG \<le> d" and a: "0 < po_alt_agl_m p"
    using assms rd by (auto simp: project_to_ground_def split: if_splits)
  have "d \<le> 90" using ray_direction_le_90 [of p cam cx cy roll] rd by simp
  with d have td: "0 \<le> tan (radians d)" by (intro tan_depression_nonneg) (simp_all add: MIN_DEPRESSION_DEG_def)
  with a have flat: "0 \<le> po_alt_agl_m p / tan (radians d)" by simp
  have "0 \<le> gf_range_m fx"
    using assms rd d a flat refine_range_nonneg [OF td flat]
    by (auto simp: project_to_ground_def Let_def split: option.splits prod.splits if_splits)
  with a show ?thesis by simp
qed

lemma project_level_horizon:
  assumes "po_pitch_deg p + angle_off_axis (2 * cy / real_of_int (img_h cam) - 1) (v_fov_deg cam) < MIN_DEPRESSION_DEG"
  shows "project_to_ground p cam cx cy 0 terr cep sig iters = None"
  using assms by (simp add: project_to_ground_def ray_direction_def Let_def MIN_DEPRESSION_DEG_def)

section \<open>Terrain\<close>

record grid_transform =
  gt_x0 :: real
  gt_y0 :: real
  gt_dx :: real
  gt_dy :: real

record gridded =
  gr_grid :: "real list list"
  gr_transform :: grid_transform

definition to_indices :: "grid_transform \<Rightarrow> real \<Rightarrow> real \<Rightarrow> real \<times> real" where
  "to_indices t lat lon = ((gt_y0 t - lat) / gt_dy t, (lon - gt_x0 t) / gt_dx t)"

definition new_gridded :: "real list list \<Rightarrow> grid_transform \<Rightarrow> py_exn + gridded" where
  "new_gridded grid t =
     (if grid = [] \<or> hd grid = [] then Inl ValueError
      else if list_ex (\<lambda>row. length row \<noteq> length (hd grid)) grid then Inl ValueError
      else Inr \<lparr>gr_grid = grid, gr_transform = t\<rparr>)"

definition clampi :: "int \<Rightarrow> int \<Rightarrow> int" where
  "clampi i hi = (if i < 0 then 0 else if hi < i then hi else i)"

text \<open>\<^verbatim>\<open>int(x) if x >= 0 else int(x) - 1\<close>: towards zero, then one down.\<close>

definition cell_index :: "real \<Rightarrow> int" where
  "cell_index x = (if 0 \<le> x then \<lfloor>x\<rfloor> else \<lceil>x\<rceil> - 1)"

definition cell_weight :: "real \<Rightarrow> int \<Rightarrow> int \<Rightarrow> real" where
  "cell_weight x n i0 = (if x \<le> 0 then 0 else if real_of_int (n - 1) \<le> x then 1 else x - real_of_int i0)"

definition elevation_m :: "gridded \<Rightarrow> real \<Rightarrow> real \<Rightarrow> real" where
  "elevation_m g lat lon =
     (case to_indices (gr_transform g) lat lon of
        (rf, cf) \<Rightarrow>
          let rows = int (length (gr_grid g)); cols = int (length (hd (gr_grid g)));
              r0 = clampi (cell_index rf) (rows - 1);
              c0 = clampi (cell_index cf) (cols - 1);
              r1 = clampi (r0 + 1) (rows - 1);
              c1 = clampi (c0 + 1) (cols - 1);
              fr = cell_weight rf rows r0;
              fc = cell_weight cf cols c0;
              cell = (\<lambda>r c. gr_grid g ! nat r ! nat c);
              top = cell r0 c0 * (1 - fc) + cell r0 c1 * fc;
              bot = cell r1 c0 * (1 - fc) + cell r1 c1 * fc
          in top * (1 - fr) + bot * fr)"

definition gridded_ok :: "gridded \<Rightarrow> bool" where
  "gridded_ok g \<longleftrightarrow> gr_grid g \<noteq> [] \<and> hd (gr_grid g) \<noteq> [] \<and>
     list_all (\<lambda>row. length row = length (hd (gr_grid g))) (gr_grid g)"

lemma new_gridded_ok: "new_gridded grid t = Inr g \<Longrightarrow> gridded_ok g"
  unfolding new_gridded_def gridded_ok_def list_ex_iff list_all_iff
  by (metis Inl_Inr_False gridded.select_convs(1) sum.inject(2))

lemma clampi_range: "0 \<le> hi \<Longrightarrow> 0 \<le> clampi i hi \<and> clampi i hi \<le> hi"
  by (simp add: clampi_def)

lemma cell_weight_range:
  assumes "1 \<le> n"
  shows "0 \<le> cell_weight x n (clampi (cell_index x) (n - 1)) \<and>
    cell_weight x n (clampi (cell_index x) (n - 1)) \<le> 1"
proof (cases "x \<le> 0 \<or> real_of_int (n - 1) \<le> x")
  case True
  then show ?thesis by (auto simp: cell_weight_def)
next
  case False
  then have "0 \<le> \<lfloor>x\<rfloor>" "\<lfloor>x\<rfloor> \<le> n - 1" by linarith+
  then have "clampi (cell_index x) (n - 1) = \<lfloor>x\<rfloor>" using False by (simp add: clampi_def cell_index_def)
  with False show ?thesis by (simp add: cell_weight_def) linarith
qed

lemma convex_bounds:
  assumes "0 \<le> (t :: real)" "t \<le> 1" "m \<le> a" "a \<le> M" "m \<le> b" "b \<le> M"
  shows "m \<le> a * (1 - t) + b * t \<and> a * (1 - t) + b * t \<le> M"
proof -
  have "m * (1 - t) \<le> a * (1 - t)" "a * (1 - t) \<le> M * (1 - t)" "m * t \<le> b * t" "b * t \<le> M * t"
    using assms by (simp_all add: mult_right_mono)
  then show ?thesis by (simp add: algebra_simps)
qed

text \<open>An interpolated elevation is between the lowest and the highest of the grid.\<close>

lemma elevation_bounds:
  assumes "gridded_ok g" and "\<forall>row \<in> set (gr_grid g). \<forall>v \<in> set row. m \<le> v \<and> v \<le> M"
  shows "m \<le> elevation_m g lat lon \<and> elevation_m g lat lon \<le> M"
proof -
  obtain rf cf where i: "to_indices (gr_transform g) lat lon = (rf, cf)" by fastforce
  define rows cols where "rows = int (length (gr_grid g))" and "cols = int (length (hd (gr_grid g)))"
  have n: "1 \<le> rows" "1 \<le> cols"
    using assms(1) unfolding rows_def cols_def gridded_ok_def
    by (simp_all add: Suc_leI flip: length_greater_0_conv)
  define r0 where "r0 = clampi (cell_index rf) (rows - 1)"
  define c0 where "c0 = clampi (cell_index cf) (cols - 1)"
  define r1 where "r1 = clampi (r0 + 1) (rows - 1)"
  define c1 where "c1 = clampi (c0 + 1) (cols - 1)"
  let ?at = "\<lambda>r c. gr_grid g ! nat r ! nat c"
  have at: "m \<le> ?at r c \<and> ?at r c \<le> M" if "0 \<le> r" "r \<le> rows - 1" "0 \<le> c" "c \<le> cols - 1" for r c
  proof -
    have r: "nat r < length (gr_grid g)" using that(1,2) by (simp add: rows_def nat_less_iff)
    then have row: "gr_grid g ! nat r \<in> set (gr_grid g)" by simp
    moreover have "\<forall>row \<in> set (gr_grid g). length row = length (hd (gr_grid g))"
      using assms(1) unfolding gridded_ok_def list_all_iff by blast
    ultimately have len: "int (length (gr_grid g ! nat r)) = cols" unfolding cols_def by metis
    have "nat c < length (gr_grid g ! nat r)" using that(3,4) len by linarith
    then show ?thesis using assms(2) row nth_mem by blast
  qed
  have ri: "0 \<le> r0 \<and> r0 \<le> rows - 1" "0 \<le> r1 \<and> r1 \<le> rows - 1" and ci: "0 \<le> c0 \<and> c0 \<le> cols - 1" "0 \<le> c1 \<and> c1 \<le> cols - 1"
    using clampi_range [of "rows - 1"] clampi_range [of "cols - 1"] n
    unfolding r0_def r1_def c0_def c1_def by simp_all
  have fc: "0 \<le> cell_weight cf cols c0" "cell_weight cf cols c0 \<le> 1"
    and fr: "0 \<le> cell_weight rf rows r0" "cell_weight rf rows r0 \<le> 1"
    using cell_weight_range [OF n(1)] cell_weight_range [OF n(2)] unfolding r0_def c0_def by simp_all
  have top: "m \<le> ?at r0 c0 * (1 - cell_weight cf cols c0) + ?at r0 c1 * cell_weight cf cols c0 \<and>
    ?at r0 c0 * (1 - cell_weight cf cols c0) + ?at r0 c1 * cell_weight cf cols c0 \<le> M"
    using at [of r0 c0] at [of r0 c1] ri ci by (intro convex_bounds [OF fc]) blast+
  have bot: "m \<le> ?at r1 c0 * (1 - cell_weight cf cols c0) + ?at r1 c1 * cell_weight cf cols c0 \<and>
    ?at r1 c0 * (1 - cell_weight cf cols c0) + ?at r1 c1 * cell_weight cf cols c0 \<le> M"
    using at [of r1 c0] at [of r1 c1] ri ci by (intro convex_bounds [OF fc]) blast+
  show ?thesis
    unfolding elevation_m_def i prod.case Let_def
    using convex_bounds [OF fr conjunct1 [OF top] conjunct2 [OF top] conjunct1 [OF bot] conjunct2 [OF bot]]
    unfolding r0_def r1_def c0_def c1_def rows_def cols_def .
qed

section \<open>Pose fusion\<close>

record fused_pose =
  fp_pose :: pose
  fp_roll_deg :: real
  fp_ts :: real

definition NADIR_DEPRESSION_DEG :: real where "NADIR_DEPRESSION_DEG = 90"

definition fuse :: "terrain \<Rightarrow> real \<Rightarrow> real \<Rightarrow> real \<Rightarrow> real \<Rightarrow> real \<Rightarrow> real \<Rightarrow> real \<Rightarrow> real \<Rightarrow> fused_pose" where
  "fuse T mount lat lon msl_alt roll pitch yaw ts =
     \<lparr>fp_pose = \<lparr>po_lat = lat, po_lon = lon, po_alt_agl_m = msl_alt - T lat lon,
        po_heading_deg = mod_360 yaw, po_pitch_deg = mount - pitch\<rparr>,
      fp_roll_deg = roll, fp_ts = ts\<rparr>"

lemma fuse_heading: "0 \<le> po_heading_deg (fp_pose (fuse T mount lat lon alt roll pitch yaw ts)) \<and>
    po_heading_deg (fp_pose (fuse T mount lat lon alt roll pitch yaw ts)) < 360"
  by (simp add: fuse_def mod_360_range)

section \<open>The local frame of a block\<close>

record local_frame =
  lf_lat0 :: real
  lf_lon0 :: real
  lf_cos_lat0 :: real
  lf_sin_az :: real
  lf_cos_az :: real

definition new_frame :: "real \<Rightarrow> real \<Rightarrow> real \<Rightarrow> local_frame" where
  "new_frame lat0 lon0 azimuth_deg =
     \<lparr>lf_lat0 = lat0, lf_lon0 = lon0, lf_cos_lat0 = cos (radians lat0),
      lf_sin_az = sin (radians azimuth_deg), lf_cos_az = cos (radians azimuth_deg)\<rparr>"

definition to_uv :: "local_frame \<Rightarrow> real \<Rightarrow> real \<Rightarrow> real \<times> real" where
  "to_uv f lat lon =
     (let east = radians (lon - lf_lon0 f) * lf_cos_lat0 f * EARTH_R_M;
          north = radians (lat - lf_lat0 f) * EARTH_R_M
      in (east * lf_sin_az f + north * lf_cos_az f, east * lf_cos_az f - north * lf_sin_az f))"

definition to_latlon :: "local_frame \<Rightarrow> real \<Rightarrow> real \<Rightarrow> real \<times> real" where
  "to_latlon f u v =
     (let east = u * lf_sin_az f + v * lf_cos_az f;
          north = u * lf_cos_az f - v * lf_sin_az f
      in (lf_lat0 f + degrees (north / EARTH_R_M),
          lf_lon0 f + degrees (east / (EARTH_R_M * lf_cos_lat0 f))))"

lemma radians_degrees [simp]: "radians (degrees x) = x"
  by (simp add: radians_def degrees_def)

lemma frame_roundtrip:
  assumes "cos (radians lat0) \<noteq> 0"
  shows "(case to_latlon (new_frame lat0 lon0 az) u v of (lat, lon) \<Rightarrow> to_uv (new_frame lat0 lon0 az) lat lon) = (u, v)"
proof -
  let ?s = "sin (radians az)" and ?c = "cos (radians az)"
  have one: "?s * ?s + ?c * ?c = 1" using sin_cos_squared_add [of "radians az"] by (simp add: power2_eq_square)
  have R: "EARTH_R_M \<noteq> 0" by (simp add: EARTH_R_M_def)
  have "(u * ?s + v * ?c) * ?s + (u * ?c - v * ?s) * ?c = u * (?s * ?s + ?c * ?c)"
    "(u * ?s + v * ?c) * ?c - (u * ?c - v * ?s) * ?s = v * (?s * ?s + ?c * ?c)"
    by (simp_all only: algebra_simps)
  then have uv: "(u * ?s + v * ?c) * ?s + (u * ?c - v * ?s) * ?c = u"
    "(u * ?s + v * ?c) * ?c - (u * ?c - v * ?s) * ?s = v"
    unfolding one by simp_all
  show ?thesis
    using assms R by (simp add: to_latlon_def to_uv_def new_frame_def Let_def uv)
qed

section \<open>The survey path\<close>

text \<open>
  The transects of \<^verbatim>\<open>plan_boustrophedon\<close> in the local frame.  The step is at least a metre, so the
  loop ends; \<open>n\<close> bounds its iterations.
\<close>

definition footprints_m :: "real \<Rightarrow> real \<Rightarrow> real \<Rightarrow> real \<times> real" where
  "footprints_m h v alt = (2 * alt * tan (radians (h / 2)), 2 * alt * tan (radians (v / 2)))"

definition row_step :: "real \<Rightarrow> real \<Rightarrow> real" where
  "row_step cross_m side_overlap = max 1 (cross_m * (1 - side_overlap))"

function transects :: "real \<Rightarrow> real \<Rightarrow> real \<Rightarrow> real \<Rightarrow> real \<Rightarrow> bool \<Rightarrow> (real \<times> real) list" where
  "transects umin umax vmax step v forward =
     (if v \<le> vmax + step / 2 \<and> 1 \<le> step
      then (if forward then [(umin, v), (umax, v)] else [(umax, v), (umin, v)])
           @ transects umin umax vmax step (v + step) (\<not> forward)
      else [])"
  by pat_completeness auto
termination
proof (relation "measure (\<lambda>(umin, umax, vmax, step, v, forward). nat \<lceil>vmax + step / 2 - v + 1\<rceil>)")
  fix umin umax vmax step v :: real and forward
  assume a: "v \<le> vmax + step / 2 \<and> 1 \<le> step"
  then have "vmax + step / 2 - (v + step) + 1 \<le> vmax + step / 2 - v + 1 - 1" by simp
  then have "\<lceil>vmax + step / 2 - (v + step) + 1\<rceil> \<le> \<lceil>vmax + step / 2 - v + 1\<rceil> - 1"
    by (metis ceiling_diff_one ceiling_mono)
  moreover have "0 < \<lceil>vmax + step / 2 - v + 1\<rceil>" using a by simp
  ultimately show "((umin, umax, vmax, step, v + step, \<not> forward), umin, umax, vmax, step, v, forward)
    \<in> measure (\<lambda>(umin, umax, vmax, step, v, forward). nat \<lceil>vmax + step / 2 - v + 1\<rceil>)"
    by simp
qed simp

declare transects.simps [simp del]

record block =
  bl_polygon :: "(real \<times> real) list"
  bl_row_azimuth_deg :: real

record waypoint =
  wp_seq :: nat
  wp_lat :: real
  wp_lon :: real
  wp_alt_agl_m :: real

definition mk_waypoint :: "nat \<Rightarrow> real \<Rightarrow> real \<Rightarrow> real \<Rightarrow> py_exn + waypoint" where
  "mk_waypoint seq lat lon alt =
     (if \<not> 0 < alt then Inl ValueError
      else if \<not> (-90 \<le> lat \<and> lat \<le> 90) then Inl ValueError
      else if \<not> (-180 \<le> lon \<and> lon \<le> 180) then Inl ValueError
      else Inr \<lparr>wp_seq = seq, wp_lat = lat, wp_lon = lon, wp_alt_agl_m = alt\<rparr>)"

fun mk_waypoints :: "local_frame \<Rightarrow> real \<Rightarrow> nat \<Rightarrow> (real \<times> real) list \<Rightarrow> py_exn + waypoint list" where
  "mk_waypoints f alt seq [] = Inr []"
| "mk_waypoints f alt seq ((u, v) # rest) =
     (case to_latlon f u v of
        (lat, lon) \<Rightarrow> then_ok (mk_waypoint seq lat lon alt) (\<lambda>w.
          then_ok (mk_waypoints f alt (Suc seq) rest) (\<lambda>ws. Inr (w # ws))))"

definition block_uv :: "block \<Rightarrow> local_frame \<times> (real \<times> real) list" where
  "block_uv b =
     (let f = new_frame (fst (hd (bl_polygon b))) (snd (hd (bl_polygon b))) (bl_row_azimuth_deg b)
      in (f, map (\<lambda>(lat, lon). to_uv f lat lon) (bl_polygon b)))"

definition survey_lines :: "block \<Rightarrow> real \<Rightarrow> real \<Rightarrow> (real \<times> real) list" where
  "survey_lines b cross_m side_overlap =
     (let uv = snd (block_uv b);
          us = map fst uv; vs = map snd uv;
          step = row_step cross_m side_overlap
      in transects (Min (set us)) (Max (set us)) (Max (set vs)) step (Min (set vs) + step / 2) True)"

definition plan_boustrophedon ::
  "block \<Rightarrow> real \<Rightarrow> real \<Rightarrow> real \<Rightarrow> real \<Rightarrow> py_exn + waypoint list" where
  "plan_boustrophedon b h_fov v_fov alt_agl_m side_overlap =
     (if \<not> (0 \<le> side_overlap \<and> side_overlap < 1) then Inl ValueError
      else if bl_polygon b = [] then Inl IndexError
      else
        let cross_m = fst (footprints_m h_fov v_fov alt_agl_m)
        in mk_waypoints (fst (block_uv b)) alt_agl_m 0 (survey_lines b cross_m side_overlap))"

lemma transects_end:
  "\<not> (v \<le> vmax + step / 2 \<and> 1 \<le> step) \<Longrightarrow> transects umin umax vmax step v fw = []"
  by (simp add: transects.simps)

lemma transects_step:
  "v \<le> vmax + step / 2 \<Longrightarrow> 1 \<le> step \<Longrightarrow> transects umin umax vmax step v fw =
     (if fw then [(umin, v), (umax, v)] else [(umax, v), (umin, v)])
     @ transects umin umax vmax step (v + step) (\<not> fw)"
  by (subst transects.simps) simp

text \<open>Every cross-track position of the block has a transect within half a step.\<close>

lemma transects_cover:
  assumes "1 \<le> step" "v - step / 2 \<le> x" "x \<le> vmax"
  shows "\<exists>w. (umin, w) \<in> set (transects umin umax vmax step v fw) \<and>
    (umax, w) \<in> set (transects umin umax vmax step v fw) \<and> \<bar>x - w\<bar> \<le> step / 2"
  using assms
proof (induction umin umax vmax step v fw rule: transects.induct)
  case (1 umin umax vmax step v fw)
  have v: "v \<le> vmax + step / 2" using "1.prems" by linarith
  note unf = transects_step [OF v "1.prems"(1), of umin umax fw]
  show ?case
  proof (cases "x \<le> v + step / 2")
    case True
    then have "\<bar>x - v\<bar> \<le> step / 2" using "1.prems"(2) by linarith
    then show ?thesis unfolding unf by (intro exI [of _ v]) auto
  next
    case False
    then have "v + step - step / 2 \<le> x" by (simp add: field_simps)
    from "1.IH" [OF conjI [OF v "1.prems"(1)] "1.prems"(1) this "1.prems"(3)] show ?thesis
      unfolding unf by auto
  qed
qed

text \<open>The path is continuous: it turns at the end of a row and starts the next one there.\<close>

lemma transects_snake:
  "i < length (transects umin umax vmax step v fw) \<Longrightarrow>
   transects umin umax vmax step v fw ! i =
     ((if (i mod 4 \<in> {0, 3}) = fw then umin else umax), v + real (i div 2) * step)"
proof (induction umin umax vmax step v fw arbitrary: i rule: transects.induct)
  case (1 umin umax vmax step v fw)
  show ?case
  proof (cases "v \<le> vmax + step / 2 \<and> 1 \<le> step")
    case False
    then show ?thesis using "1.prems" transects_end by simp
  next
    case True
    note unf = transects_step [OF conjunct1 [OF True] conjunct2 [OF True], of umin umax fw]
    consider "i = 0" | "i = 1" | j where "i = j + 2"
      by (metis One_nat_def Suc_1 add.commute less_2_cases_iff le_Suc_ex not_less)
    then show ?thesis
    proof cases
      case 3
      then have j: "j < length (transects umin umax vmax step (v + step) (\<not> fw))"
        using "1.prems" unf by (simp split: if_splits)
      have "transects umin umax vmax step v fw ! i = transects umin umax vmax step (v + step) (\<not> fw) ! j"
        unfolding unf by (simp add: 3 nth_append)
      also have "\<dots> = ((if (j mod 4 \<in> {0, 3}) = (\<not> fw) then umin else umax), v + step + real (j div 2) * step)"
        by (rule "1.IH" [OF True j])
      also have "(j mod 4 \<in> {0, 3}) = (\<not> fw) \<longleftrightarrow> (i mod 4 \<in> {0, 3}) = fw"
      proof -
        have "j mod 4 \<in> {0, 3} \<longleftrightarrow> i mod 4 \<notin> {0, 3}" unfolding 3 by (simp, presburger)
        then show ?thesis by (cases fw) simp_all
      qed
      also have "v + step + real (j div 2) * step = v + real (i div 2) * step"
        unfolding 3 by (simp add: algebra_simps)
      finally show ?thesis .
    qed (simp_all add: unf)
  qed
qed

lemma mk_waypoints_facts:
  "mk_waypoints f alt seq uvs = Inr ws \<Longrightarrow>
   map wp_seq ws = [seq..<seq + length uvs] \<and>
   map (\<lambda>w. (wp_lat w, wp_lon w)) ws = map (\<lambda>(u, v). to_latlon f u v) uvs \<and>
   (\<forall>w \<in> set ws. wp_alt_agl_m w = alt \<and> 0 < alt \<and> \<bar>wp_lat w\<bar> \<le> 90 \<and> \<bar>wp_lon w\<bar> \<le> 180)"
proof (induction uvs arbitrary: seq ws)
  case (Cons x uvs)
  obtain u v where x: "x = (u, v)" by (cases x)
  obtain lat lon where ll: "to_latlon f u v = (lat, lon)" by fastforce
  from Cons.prems obtain w ws' where w: "mk_waypoint seq lat lon alt = Inr w" "ws = w # ws'"
    "mk_waypoints f alt (Suc seq) uvs = Inr ws'"
    by (auto simp: x ll then_ok_Inr_iff)
  from Cons.IH [OF w(3)] w(1,2) show ?case
    by (auto simp: x ll mk_waypoint_def upt_conv_Cons abs_le_iff simp del: upt_Suc split: if_splits)
qed simp

end
