(* ===== verification/Scout_Core.thy ===== *)
theory Scout_Core
  imports Scout_Geo Frame_Codecs "HOL-Library.Multiset"
begin

text \<open>
  The survey pipeline: the validated detections (\<^verbatim>\<open>scout/schemas.py\<close>), the alignment of a detection
  with a pose (\<^verbatim>\<open>scout/sync.py\<close>), spatial deduplication (\<^verbatim>\<open>scout/dedup.py\<close>), the stores
  (\<^verbatim>\<open>scout/store.py\<close>) and the pipeline over them (\<^verbatim>\<open>scout/pipeline.py\<close>).  The locale
  \<open>detection_store\<close> is the interface of a store; both stores of the code interpret it, and the
  pipeline's lemmas about triage are proved once in it.
\<close>

section \<open>Detections\<close>

record bbox =
  bb_x1 :: real
  bb_y1 :: real
  bb_x2 :: real
  bb_y2 :: real

record pixel_detection =
  px_frame_id :: string
  px_ts :: real
  px_bbox :: bbox
  px_cls :: string
  px_conf :: real

definition mk_bbox :: "real \<Rightarrow> real \<Rightarrow> real \<Rightarrow> real \<Rightarrow> py_exn + bbox" where
  "mk_bbox x1 y1 x2 y2 =
     (if x2 \<le> x1 \<or> y2 \<le> y1 then Inl ValueError
      else Inr \<lparr>bb_x1 = x1, bb_y1 = y1, bb_x2 = x2, bb_y2 = y2\<rparr>)"

definition bbox_cx :: "bbox \<Rightarrow> real" where "bbox_cx b = (bb_x1 b + bb_x2 b) / 2"
definition bbox_cy :: "bbox \<Rightarrow> real" where "bbox_cy b = (bb_y1 b + bb_y2 b) / 2"

record geo_detection =
  gd_id :: string
  gd_lat :: real
  gd_lon :: real
  gd_cls :: string
  gd_conf :: real
  gd_error_m :: real
  gd_src_frame :: string
  gd_ts :: real
  gd_status :: string
  gd_block_id :: "string option"

definition DETECTION_STATUSES :: "string list" where
  "DETECTION_STATUSES = [''new'', ''tagged'', ''rejected'', ''inspected'']"

definition geo_valid :: "geo_detection \<Rightarrow> bool" where
  "geo_valid d \<longleftrightarrow> \<not> (\<not> (- 90 \<le> gd_lat d \<and> gd_lat d \<le> 90)) \<and> \<not> (\<not> (- 180 \<le> gd_lon d \<and> gd_lon d \<le> 180)) \<and>
     0 \<le> gd_conf d \<and> gd_conf d \<le> 1 \<and> \<not> gd_error_m d < 0 \<and> gd_status d \<in> set DETECTION_STATUSES"

text \<open>Construction and \<^verbatim>\<open>model_validate\<close>: the validators accept the value or raise.\<close>

definition mk_geo :: "geo_detection \<Rightarrow> py_exn + geo_detection" where
  "mk_geo d = (if geo_valid d then Inr d else Inl ValueError)"

definition with_status :: "geo_detection \<Rightarrow> string \<Rightarrow> py_exn + geo_detection" where
  "with_status d s = mk_geo (d\<lparr>gd_status := s\<rparr>)"

section \<open>Alignment\<close>

record time_sync =
  ts_max_skew_s :: real
  ts_buffer_size :: nat
  ts_poses :: "fused_pose list"
  ts_dropped :: nat

definition new_time_sync :: "real \<Rightarrow> nat \<Rightarrow> time_sync" where
  "new_time_sync skew n = \<lparr>ts_max_skew_s = skew, ts_buffer_size = n, ts_poses = [], ts_dropped = 0\<rparr>"

definition add_pose :: "time_sync \<Rightarrow> fused_pose \<Rightarrow> time_sync" where
  "add_pose T p = T\<lparr>ts_poses := deque_append (ts_buffer_size T) (ts_poses T) p\<rparr>"

definition bisect_left :: "real list \<Rightarrow> real \<Rightarrow> nat" where
  "bisect_left xs t = length (takeWhile (\<lambda>x. x < t) xs)"

text \<open>The loop over the candidate indices: the best so far is kept unless one is strictly nearer.\<close>

fun nearest :: "fused_pose list \<Rightarrow> real \<Rightarrow> int list \<Rightarrow> (fused_pose \<times> real) option \<Rightarrow> (fused_pose \<times> real) option" where
  "nearest ps t [] best = best"
| "nearest ps t (j # js) best =
     nearest ps t js
       (if 0 \<le> j \<and> j < int (length ps) then
          let skew = \<bar>fp_ts (ps ! nat j) - t\<bar>
          in (case best of
                None \<Rightarrow> Some (ps ! nat j, skew)
              | Some (p, s) \<Rightarrow> if skew < s then Some (ps ! nat j, skew) else best)
        else best)"

definition align :: "time_sync \<Rightarrow> real \<Rightarrow> fused_pose option \<times> time_sync" where
  "align T t =
     (let miss = (None, T\<lparr>ts_dropped := Suc (ts_dropped T)\<rparr>)
      in if ts_poses T = [] then miss
         else
           let sorted_poses = sort_key fp_ts (ts_poses T);
               i = int (bisect_left (map fp_ts sorted_poses) t)
           in (case nearest sorted_poses t [i - 1, i] None of
                 None \<Rightarrow> miss
               | Some (p, skew) \<Rightarrow> if ts_max_skew_s T < skew then miss else (Some p, T)))"

lemma bisect_left_sorted:
  assumes "sorted xs"
  shows "j < bisect_left xs t \<Longrightarrow> xs ! j < t" and "bisect_left xs t \<le> j \<Longrightarrow> j < length xs \<Longrightarrow> t \<le> xs ! j"
proof -
  show "j < bisect_left xs t \<Longrightarrow> xs ! j < t"
    using set_takeWhileD [of "xs ! j" "\<lambda>x. x < t" xs]
    by (metis bisect_left_def nth_mem takeWhile_nth)
  assume j: "bisect_left xs t \<le> j" "j < length xs"
  then have "\<not> xs ! bisect_left xs t < t"
    unfolding bisect_left_def by (intro nth_length_takeWhile) simp
  moreover have "xs ! bisect_left xs t \<le> xs ! j" using assms j by (simp add: sorted_nth_mono)
  ultimately show "t \<le> xs ! j" by simp
qed

text \<open>The nearest pose is one of the two around the insertion point.\<close>

lemma nearest_sorted:
  assumes sorted: "sorted (map fp_ts ps)" and ne: "ps \<noteq> []"
    and i: "i = int (bisect_left (map fp_ts ps) t)"
  shows "\<exists>p. nearest ps t [i - 1, i] None = Some (p, \<bar>fp_ts p - t\<bar>) \<and> p \<in> set ps \<and>
    (\<forall>q \<in> set ps. \<bar>fp_ts p - t\<bar> \<le> \<bar>fp_ts q - t\<bar>)"
proof -
  define n where "n = bisect_left (map fp_ts ps) t"
  have n: "n \<le> length ps" by (simp add: n_def bisect_left_def order_trans [OF length_takeWhile_le])
  have lo: "fp_ts (ps ! j) < t" if "j < n" for j
    using bisect_left_sorted(1) [OF sorted, of j t] that n by (simp add: n_def)
  have hi: "t \<le> fp_ts (ps ! j)" if "n \<le> j" "j < length ps" for j
    using bisect_left_sorted(2) [OF sorted, of t j] that by (simp add: n_def)
  have mono: "fp_ts (ps ! j) \<le> fp_ts (ps ! k)" if "j \<le> k" "k < length ps" for j k
    using sorted_nth_mono [OF sorted, of j k] that by simp
  have left: "\<bar>fp_ts (ps ! (n - 1)) - t\<bar> \<le> \<bar>fp_ts (ps ! j) - t\<bar>" if "j < n" for j
    using lo [OF that] lo [of "n - 1"] mono [of j "n - 1"] that n by simp
  have right: "\<bar>fp_ts (ps ! n) - t\<bar> \<le> \<bar>fp_ts (ps ! j) - t\<bar>" if "n \<le> j" "j < length ps" for j
    using hi [OF that] hi [of n] mono [OF that] that by simp
  have all: "(\<forall>q \<in> set ps. P (\<bar>fp_ts q - t\<bar>)) \<longleftrightarrow> (\<forall>j < length ps. P (\<bar>fp_ts (ps ! j) - t\<bar>))" for P
    by (auto simp: all_set_conv_all_nth)
  have i: "i = int n" using i by (simp add: n_def)
  have pred: "nat (int n - 1) = n - 1" by simp
  consider "n = 0" | "n = length ps" "0 < n" | "0 < n" "n < length ps" using n by linarith
  then show ?thesis
  proof cases
    case 1
    then have "nearest ps t [i - 1, i] None = Some (ps ! 0, \<bar>fp_ts (ps ! 0) - t\<bar>)"
      using ne by (simp add: i Let_def)
    then show ?thesis using right 1 ne by (intro exI [of _ "ps ! 0"]) (simp add: all)
  next
    case 2
    then have "nearest ps t [i - 1, i] None = Some (ps ! (n - 1), \<bar>fp_ts (ps ! (n - 1)) - t\<bar>)"
      unfolding i nearest.simps pred Let_def by simp
    then show ?thesis using left 2 by (intro exI [of _ "ps ! (n - 1)"]) (simp add: all)
  next
    case 3
    let ?a = "ps ! (n - 1)" and ?b = "ps ! n"
    have eq: "nearest ps t [i - 1, i] None =
        Some (if \<bar>fp_ts ?b - t\<bar> < \<bar>fp_ts ?a - t\<bar> then (?b, \<bar>fp_ts ?b - t\<bar>) else (?a, \<bar>fp_ts ?a - t\<bar>))"
      unfolding i nearest.simps pred Let_def using 3 by simp
    show ?thesis
    proof (cases "\<bar>fp_ts ?b - t\<bar> < \<bar>fp_ts ?a - t\<bar>")
      case True
      have "\<bar>fp_ts ?b - t\<bar> \<le> \<bar>fp_ts (ps ! j) - t\<bar>" if "j < length ps" for j
        using left [of j] right [of j] True that by (cases "j < n") auto
      then show ?thesis using eq True 3 by (intro exI [of _ ?b]) (simp add: all)
    next
      case False
      have "\<bar>fp_ts ?a - t\<bar> \<le> \<bar>fp_ts (ps ! j) - t\<bar>" if "j < length ps" for j
        using left [of j] right [of j] False that by (cases "j < n") auto
      then show ?thesis using eq False 3 by (intro exI [of _ ?a]) (simp add: all)
    qed
  qed
qed

text \<open>
  A pose is matched exactly when one is within the skew, and it is a nearest one; otherwise the
  detection is counted as dropped.
\<close>

lemma align_cases:
  "(\<exists>p \<in> set (ts_poses T). align T t = (Some p, T) \<and> \<bar>fp_ts p - t\<bar> \<le> ts_max_skew_s T \<and>
      (\<forall>q \<in> set (ts_poses T). \<bar>fp_ts p - t\<bar> \<le> \<bar>fp_ts q - t\<bar>)) \<or>
   align T t = (None, T\<lparr>ts_dropped := Suc (ts_dropped T)\<rparr>) \<and>
      (\<forall>q \<in> set (ts_poses T). ts_max_skew_s T < \<bar>fp_ts q - t\<bar>)"
proof (cases "ts_poses T = []")
  case True
  then show ?thesis by (simp add: align_def)
next
  case False
  let ?ps = "sort_key fp_ts (ts_poses T)"
  have "?ps \<noteq> []" using False by (metis length_0_conv length_sort)
  then obtain p where p: "nearest ?ps t [int (bisect_left (map fp_ts ?ps) t) - 1, int (bisect_left (map fp_ts ?ps) t)] None
      = Some (p, \<bar>fp_ts p - t\<bar>)" "p \<in> set (ts_poses T)" "\<forall>q \<in> set (ts_poses T). \<bar>fp_ts p - t\<bar> \<le> \<bar>fp_ts q - t\<bar>"
    using nearest_sorted [OF sorted_sort_key] by (metis set_sort)
  show ?thesis
  proof (cases "ts_max_skew_s T < \<bar>fp_ts p - t\<bar>")
    case True
    then show ?thesis using False p by (simp add: align_def Let_def del: nearest.simps) fastforce
  next
    case wide: False
    then show ?thesis using False p by (auto simp: align_def Let_def simp del: nearest.simps)
  qed
qed

section \<open>Deduplication\<close>

record deduplicator =
  dd_radius_m :: real
  dd_reps :: "geo_detection list"
  dd_anchors :: "(real \<times> real) list"
  dd_merges :: nat

definition new_dedup :: "real \<Rightarrow> deduplicator" where
  "new_dedup radius = \<lparr>dd_radius_m = radius, dd_reps = [], dd_anchors = [], dd_merges = 0\<rparr>"

definition near :: "deduplicator \<Rightarrow> geo_detection \<Rightarrow> real \<times> real \<Rightarrow> bool" where
  "near D d a \<longleftrightarrow> ground_distance_m (gd_lat d) (gd_lon d) (fst a) (snd a) \<le> dd_radius_m D"

definition merge_rep :: "geo_detection \<Rightarrow> geo_detection \<Rightarrow> geo_detection" where
  "merge_rep rep d =
     (if gd_conf rep < gd_conf d
      then d\<lparr>gd_id := gd_id rep, gd_status := gd_status rep, gd_block_id := gd_block_id rep\<rparr>
      else rep)"

definition dedup_add :: "deduplicator \<Rightarrow> geo_detection \<Rightarrow> geo_detection \<times> deduplicator" where
  "dedup_add D d =
     (let i = length (takeWhile (\<lambda>a. \<not> near D d a) (dd_anchors D))
      in if i < length (dd_anchors D) then
           let merged = merge_rep (dd_reps D ! i) d
           in (merged, D\<lparr>dd_merges := Suc (dd_merges D), dd_reps := (dd_reps D)[i := merged]\<rparr>)
         else (d, D\<lparr>dd_reps := dd_reps D @ [d], dd_anchors := dd_anchors D @ [(gd_lat d, gd_lon d)]\<rparr>))"

text \<open>
  Clusters have an anchor each, no anchor is within the radius of an earlier one, and the reported
  position of a cluster is within the radius of its anchor.
\<close>

definition dedup_ok :: "deduplicator \<Rightarrow> bool" where
  "dedup_ok D \<longleftrightarrow> 0 \<le> dd_radius_m D \<and> length (dd_reps D) = length (dd_anchors D) \<and>
     (\<forall>i < length (dd_reps D). near D (dd_reps D ! i) (dd_anchors D ! i)) \<and>
     sorted_wrt (\<lambda>a b. dd_radius_m D < ground_distance_m (fst b) (snd b) (fst a) (snd a)) (dd_anchors D)"

lemma near_upd [simp]:
  "near (D\<lparr>dd_merges := m\<rparr>) = near D" "near (D\<lparr>dd_reps := r\<rparr>) = near D" "near (D\<lparr>dd_anchors := a\<rparr>) = near D"
  by (simp_all add: near_def fun_eq_iff)

lemma near_upd_detection [simp]:
  "near D (d\<lparr>gd_id := i\<rparr>) = near D d" "near D (d\<lparr>gd_status := st\<rparr>) = near D d"
  "near D (d\<lparr>gd_block_id := b\<rparr>) = near D d"
  by (simp_all add: near_def fun_eq_iff)

lemma merge_rep_facts [simp]:
  "gd_id (merge_rep rep d) = gd_id rep" "gd_status (merge_rep rep d) = gd_status rep"
  "gd_block_id (merge_rep rep d) = gd_block_id rep" "gd_conf rep \<le> gd_conf (merge_rep rep d)"
  by (simp_all add: merge_rep_def)

lemma dedup_add_new:
  assumes "\<forall>a \<in> set (dd_anchors D). \<not> near D d a"
  shows "dedup_add D d = (d, D\<lparr>dd_reps := dd_reps D @ [d], dd_anchors := dd_anchors D @ [(gd_lat d, gd_lon d)]\<rparr>)"
proof -
  have tw: "takeWhile (\<lambda>a. \<not> near D d a) (dd_anchors D) = dd_anchors D"
    using assms by (simp add: takeWhile_eq_all_conv)
  show ?thesis unfolding dedup_add_def Let_def tw by simp
qed

lemma dedup_add_merge:
  assumes "\<exists>a \<in> set (dd_anchors D). near D d a"
  obtains i where "i < length (dd_anchors D)" "near D d (dd_anchors D ! i)"
    "dedup_add D d = (merge_rep (dd_reps D ! i) d,
       D\<lparr>dd_merges := Suc (dd_merges D), dd_reps := (dd_reps D)[i := merge_rep (dd_reps D ! i) d]\<rparr>)"
proof
  let ?i = "length (takeWhile (\<lambda>a. \<not> near D d a) (dd_anchors D))"
  show i: "?i < length (dd_anchors D)"
    using assms by (metis length_takeWhile_le nat_less_le takeWhile_eq_all_conv takeWhile_eq_take take_all order_refl)
  show "near D d (dd_anchors D ! ?i)" using nth_length_takeWhile [OF i] by simp
  show "dedup_add D d = (merge_rep (dd_reps D ! ?i) d,
       D\<lparr>dd_merges := Suc (dd_merges D), dd_reps := (dd_reps D)[?i := merge_rep (dd_reps D ! ?i) d]\<rparr>)"
    using i by (simp add: dedup_add_def Let_def)
qed

lemma dedup_add_ok:
  assumes "dedup_ok D"
  shows "dedup_ok (snd (dedup_add D d))"
proof (cases "\<exists>a \<in> set (dd_anchors D). near D d a")
  case False
  have self: "near D d (gd_lat d, gd_lon d)" using assms by (simp add: near_def dedup_ok_def)
  from False assms self show ?thesis
    by (auto simp: dedup_add_new dedup_ok_def nth_append sorted_wrt_append less_Suc_eq near_def not_le)
next
  case True
  then obtain i where i: "i < length (dd_anchors D)" "near D d (dd_anchors D ! i)"
    "snd (dedup_add D d) =
       D\<lparr>dd_merges := Suc (dd_merges D), dd_reps := (dd_reps D)[i := merge_rep (dd_reps D ! i) d]\<rparr>"
    by (elim dedup_add_merge) simp
  have "near D (merge_rep (dd_reps D ! i) d) (dd_anchors D ! i)"
    using assms i by (simp add: merge_rep_def dedup_ok_def)
  with assms i show ?thesis by (auto simp: dedup_ok_def nth_list_update)
qed

text \<open>Ids, triage and blocks of the clusters never change; confidence never drops; every add is counted.\<close>

definition dedup_grows :: "deduplicator \<Rightarrow> deduplicator \<Rightarrow> bool" where
  "dedup_grows D D' \<longleftrightarrow> prefix (map gd_id (dd_reps D)) (map gd_id (dd_reps D')) \<and>
     prefix (map gd_status (dd_reps D)) (map gd_status (dd_reps D')) \<and>
     prefix (dd_anchors D) (dd_anchors D') \<and>
     (\<forall>i < length (dd_reps D). gd_conf (dd_reps D ! i) \<le> gd_conf (dd_reps D' ! i))"

lemma dedup_add_grows:
  assumes "dedup_ok D" "dedup_add D d = (c, D')"
  shows "dedup_grows D D' \<and> c \<in> set (dd_reps D') \<and>
    dd_merges D' + length (dd_reps D') = Suc (dd_merges D + length (dd_reps D))"
proof (cases "\<exists>a \<in> set (dd_anchors D). near D d a")
  case False
  then show ?thesis using assms(2) by (auto simp: dedup_add_new dedup_grows_def nth_append)
next
  case True
  then obtain i where i: "i < length (dd_anchors D)" "near D d (dd_anchors D ! i)"
    "dedup_add D d = (merge_rep (dd_reps D ! i) d,
       D\<lparr>dd_merges := Suc (dd_merges D), dd_reps := (dd_reps D)[i := merge_rep (dd_reps D ! i) d]\<rparr>)"
    by (rule dedup_add_merge)
  have l: "i < length (dd_reps D)" using i(1) assms(1) by (simp add: dedup_ok_def)
  have "map gd_id ((dd_reps D)[i := merge_rep (dd_reps D ! i) d]) = map gd_id (dd_reps D)"
    "map gd_status ((dd_reps D)[i := merge_rep (dd_reps D ! i) d]) = map gd_status (dd_reps D)"
    using l by (simp_all add: map_update)  (metis length_map list_update_id nth_map)+
  then show ?thesis using i l assms(2)
    by (auto simp: dedup_grows_def nth_list_update set_update_memI)
qed

interpretation dedup: invariant_machine "\<lambda>D d. snd (dedup_add D d)" dedup_ok
  by unfold_locales (rule dedup_add_ok)

lemma dedup_add_radius [simp]: "dd_radius_m (snd (dedup_add D d)) = dd_radius_m D"
  by (simp add: dedup_add_def Let_def)

lemma dedup_run:
  assumes "dedup_ok D"
  shows "dedup_ok (foldl (\<lambda>D d. snd (dedup_add D d)) D ds) \<and>
    dd_radius_m (foldl (\<lambda>D d. snd (dedup_add D d)) D ds) = dd_radius_m D \<and>
    dd_merges (foldl (\<lambda>D d. snd (dedup_add D d)) D ds) + length (dd_reps (foldl (\<lambda>D d. snd (dedup_add D d)) D ds)) =
      dd_merges D + length (dd_reps D) + length ds"
  using assms
proof (induction ds arbitrary: D)
  case (Cons d ds)
  have "dd_merges (snd (dedup_add D d)) + length (dd_reps (snd (dedup_add D d))) = Suc (dd_merges D + length (dd_reps D))"
    using dedup_add_grows [OF Cons.prems prod.collapse [symmetric]] by blast
  with Cons.IH [OF dedup_add_ok [OF Cons.prems]] show ?case by simp
qed simp

lemma new_dedup_ok: "0 \<le> r \<Longrightarrow> dedup_ok (new_dedup r)"
  by (simp add: dedup_ok_def new_dedup_def)

section \<open>Stores\<close>

locale detection_store =
  fixes add :: "'st \<Rightarrow> geo_detection \<Rightarrow> 'st"
    and get :: "'st \<Rightarrow> string \<Rightarrow> geo_detection option"
    and rows :: "'st \<Rightarrow> geo_detection list"
    and ok :: "'st \<Rightarrow> bool"
  assumes get_add: "ok st \<Longrightarrow> get (add st d) i = (if i = gd_id d then Some d else get st i)"
    and add_ok: "ok st \<Longrightarrow> ok (add st d)"
    and rows_get: "ok st \<Longrightarrow> d \<in> set (rows st) \<longleftrightarrow> get st (gd_id d) = Some d"
    and get_id: "ok st \<Longrightarrow> get st i = Some d \<Longrightarrow> gd_id d = i"
    and rows_once: "ok st \<Longrightarrow> distinct (map gd_id (rows st))"

text \<open>\<^verbatim>\<open>set_status\<close>, the same text in both stores.\<close>

definition set_status ::
  "('st \<Rightarrow> geo_detection \<Rightarrow> 'st) \<Rightarrow> ('st \<Rightarrow> string \<Rightarrow> geo_detection option) \<Rightarrow> 'st \<Rightarrow> string \<Rightarrow> string \<Rightarrow>
     py_exn + geo_detection option \<times> 'st" where
  "set_status add get st i status =
     (case get st i of
        None \<Rightarrow> Inr (None, st)
      | Some current \<Rightarrow> then_ok (with_status current status) (\<lambda>updated. Inr (Some updated, add st updated)))"

text \<open>\<^verbatim>\<open>InMemoryStore\<close>: a dictionary by id.\<close>

type_synonym mem_store = "(string \<times> geo_detection) list"

definition mem_add :: "mem_store \<Rightarrow> geo_detection \<Rightarrow> mem_store" where
  "mem_add st d = AList.update (gd_id d) d st"

definition mem_get :: "mem_store \<Rightarrow> string \<Rightarrow> geo_detection option" where
  "mem_get st i = map_of st i"

definition mem_all :: "mem_store \<Rightarrow> geo_detection list" where
  "mem_all st = map snd st"

definition mem_by_block :: "mem_store \<Rightarrow> string \<Rightarrow> geo_detection list" where
  "mem_by_block st b = [d. d \<leftarrow> map snd st, gd_block_id d = Some b]"

definition mem_ok :: "mem_store \<Rightarrow> bool" where
  "mem_ok st \<longleftrightarrow> distinct (map fst st) \<and> (\<forall>(k, d) \<in> set st. gd_id d = k)"

text \<open>
  \<^verbatim>\<open>SqliteStore\<close>: the rows of the table in order of insertion.  INSERT OR REPLACE deletes the row
  with the same key first; ORDER BY ts is taken to keep that order among equal times.
\<close>

type_synonym sql_store = "geo_detection list"

definition sql_add :: "sql_store \<Rightarrow> geo_detection \<Rightarrow> sql_store" where
  "sql_add st d = filter (\<lambda>r. gd_id r \<noteq> gd_id d) st @ [d]"

definition sql_get :: "sql_store \<Rightarrow> string \<Rightarrow> geo_detection option" where
  "sql_get st i = find (\<lambda>r. gd_id r = i) st"

definition sql_all :: "sql_store \<Rightarrow> geo_detection list" where
  "sql_all st = sort_key gd_ts st"

definition sql_by_block :: "sql_store \<Rightarrow> string \<Rightarrow> geo_detection list" where
  "sql_by_block st b = sort_key gd_ts (filter (\<lambda>r. gd_block_id r = Some b) st)"

definition sql_ok :: "sql_store \<Rightarrow> bool" where
  "sql_ok st \<longleftrightarrow> distinct (map gd_id st)"

lemma sql_get_append:
  "sql_get (xs @ ys) i = (case sql_get xs i of None \<Rightarrow> sql_get ys i | Some d \<Rightarrow> Some d)"
  by (induction xs) (simp_all add: sql_get_def)

lemma sql_get_filter: "sql_get (filter (\<lambda>r. gd_id r \<noteq> k) st) i = (if i = k then None else sql_get st i)"
  by (induction st) (auto simp: sql_get_def)

lemma sql_get_Some: "sql_ok st \<Longrightarrow> sql_get st i = Some d \<longleftrightarrow> d \<in> set st \<and> gd_id d = i"
  unfolding sql_ok_def by (induction st) (auto simp: sql_get_def image_iff)

lemma set_update_subset: "set (AList.update k v st) \<subseteq> insert (k, v) (set st)"
  by (induction st) auto

interpretation mem_store: detection_store mem_add mem_get mem_all mem_ok
proof
  fix st :: mem_store and d :: geo_detection and i
  assume ok: "mem_ok st"
  show "mem_get (mem_add st d) i = (if i = gd_id d then Some d else mem_get st i)"
    by (simp add: mem_get_def mem_add_def update_conv')
  show "mem_ok (mem_add st d)"
    using ok set_update_subset [of "gd_id d" d st] unfolding mem_ok_def mem_add_def
    by (auto intro: distinct_update)
  show "d \<in> set (mem_all st) \<longleftrightarrow> mem_get st (gd_id d) = Some d"
    using ok by (force simp: mem_ok_def mem_all_def mem_get_def map_of_eq_Some_iff)
  show "mem_get st i = Some d \<Longrightarrow> gd_id d = i"
    using ok by (auto simp: mem_ok_def mem_get_def map_of_eq_Some_iff)
  have "map gd_id (map snd st) = map fst st" using ok by (auto simp: mem_ok_def)
  then show "distinct (map gd_id (mem_all st))" using ok by (simp only: mem_all_def mem_ok_def)
qed

interpretation sql_store: detection_store sql_add sql_get sql_all sql_ok
proof
  fix st :: sql_store and d :: geo_detection and i
  assume ok: "sql_ok st"
  show "sql_get (sql_add st d) i = (if i = gd_id d then Some d else sql_get st i)"
    by (simp add: sql_add_def sql_get_append sql_get_filter) (simp add: sql_get_def split: option.split)
  show "sql_ok (sql_add st d)"
    using ok by (auto simp: sql_ok_def sql_add_def distinct_map_filter)
  show "d \<in> set (sql_all st) \<longleftrightarrow> sql_get st (gd_id d) = Some d"
    using sql_get_Some [OF ok] by (simp add: sql_all_def)
  show "sql_get st i = Some d \<Longrightarrow> gd_id d = i"
    using sql_get_Some [OF ok] by simp
  have "mset (map gd_id (sql_all st)) = mset (map gd_id st)" by (simp add: sql_all_def)
  then show "distinct (map gd_id (sql_all st))" using ok by (metis mset_eq_imp_distinct_iff sql_ok_def)
qed

section \<open>The pipeline\<close>

record scout_params =
  sync_max_skew_s :: real
  dedup_radius_m :: real
  pos_cep_m :: "real option"
  attitude_sigma_deg :: "real option"

record scout_env =
  se_camera :: camera
  se_terrain :: terrain
  se_params :: scout_params
  se_block_id :: "string option"
  se_emit :: bool
  se_ids :: "nat \<Rightarrow> string"

record pipeline_stats =
  detections_in :: nat
  projected :: nat
  dropped_skew :: nat
  dropped_horizon :: nat
  st_merges :: nat
  st_pins :: nat

record 'st pipeline =
  pl_store :: 'st
  pl_sync :: time_sync
  pl_dedup :: deduplicator
  pl_stats :: pipeline_stats
  pl_next_id :: nat
  pl_emitted :: "envelope list"

definition default_terrain_iters :: int where "default_terrain_iters = 2"

definition new_pipeline :: "scout_env \<Rightarrow> 'st \<Rightarrow> 'st pipeline" where
  "new_pipeline E st =
     \<lparr>pl_store = st, pl_sync = new_time_sync (sync_max_skew_s (se_params E)) 256,
      pl_dedup = new_dedup (dedup_radius_m (se_params E)),
      pl_stats = \<lparr>detections_in = 0, projected = 0, dropped_skew = 0, dropped_horizon = 0, st_merges = 0, st_pins = 0\<rparr>,
      pl_next_id = 0, pl_emitted = []\<rparr>"

text \<open>\<^verbatim>\<open>_to_envelope\<close>: a detection frame through the detection codec.\<close>

definition marker_frame :: "geo_detection \<Rightarrow> json" where
  "marker_frame d = JObj
     [(''src'', JStr (case gd_block_id d of None \<Rightarrow> ''scout'' | Some b \<Rightarrow> if b = [] then ''scout'' else b)),
      (''msg_id'', JStr (gd_id d)), (''ts'', JFloat (Fin (gd_ts d))), (''lat'', JFloat (Fin (gd_lat d))),
      (''lon'', JFloat (Fin (gd_lon d))), (''ce'', JFloat (Fin (gd_error_m d))),
      (''label'', JStr (gd_cls d)), (''confidence'', JFloat (Fin (gd_conf d)))]"

definition to_envelope :: "coercions \<Rightarrow> (json \<Rightarrow> string) \<Rightarrow> geo_detection \<Rightarrow> codec_exn + envelope" where
  "to_envelope P repr d = detection_decode P repr (marker_frame d)"

text \<open>The end of an iteration: the triage of the stored pin is kept, the pin stored and emitted.\<close>

definition keep_triage :: "('st \<Rightarrow> string \<Rightarrow> geo_detection option) \<Rightarrow> 'st \<Rightarrow> geo_detection \<Rightarrow> py_exn + geo_detection" where
  "keep_triage get st c =
     (case get st (gd_id c) of
        None \<Rightarrow> Inr c
      | Some existing \<Rightarrow> if gd_status existing \<noteq> ''new'' then with_status c (gd_status existing) else Inr c)"

definition finish_pin ::
  "coercions \<Rightarrow> (json \<Rightarrow> string) \<Rightarrow> ('st \<Rightarrow> geo_detection \<Rightarrow> 'st) \<Rightarrow> ('st \<Rightarrow> string \<Rightarrow> geo_detection option) \<Rightarrow>
     scout_env \<Rightarrow> 'st pipeline \<Rightarrow> geo_detection \<Rightarrow> codec_exn option \<times> 'st pipeline" where
  "finish_pin P repr add get E L c0 =
     (case keep_triage get (pl_store L) c0 of
        Inl e \<Rightarrow> (Some (CodecRaised e), L)
      | Inr c \<Rightarrow>
          let L' = L\<lparr>pl_store := add (pl_store L) c\<rparr>
          in if \<not> se_emit E then (None, L')
             else (case to_envelope P repr c of
                     Inl e \<Rightarrow> (Some e, L')
                   | Inr env \<Rightarrow> (None, L'\<lparr>pl_emitted := pl_emitted L' @ [env]\<rparr>)))"

text \<open>One iteration of the loop over the detections.\<close>

definition ingest_one ::
  "coercions \<Rightarrow> (json \<Rightarrow> string) \<Rightarrow> ('st \<Rightarrow> geo_detection \<Rightarrow> 'st) \<Rightarrow> ('st \<Rightarrow> string \<Rightarrow> geo_detection option) \<Rightarrow>
     scout_env \<Rightarrow> 'st pipeline \<Rightarrow> pixel_detection \<Rightarrow> codec_exn option \<times> 'st pipeline" where
  "ingest_one P repr add get E L det =
     (let L1 = L\<lparr>pl_stats := (pl_stats L)\<lparr>detections_in := Suc (detections_in (pl_stats L))\<rparr>\<rparr>
      in case align (pl_sync L1) (px_ts det) of
           (None, sy) \<Rightarrow> (None, L1\<lparr>pl_sync := sy\<rparr>)
         | (Some fused, sy) \<Rightarrow>
             let L2 = L1\<lparr>pl_sync := sy\<rparr>
             in (case project_to_ground (fp_pose fused) (se_camera E) (bbox_cx (px_bbox det)) (bbox_cy (px_bbox det))
                     (fp_roll_deg fused) (Some (se_terrain E)) (pos_cep_m (se_params E))
                     (attitude_sigma_deg (se_params E)) default_terrain_iters of
                   None \<Rightarrow>
                     (None, L2\<lparr>pl_stats := (pl_stats L2)\<lparr>dropped_horizon := Suc (dropped_horizon (pl_stats L2))\<rparr>\<rparr>)
                 | Some fx \<Rightarrow>
                     let L3 = L2\<lparr>pl_stats := (pl_stats L2)\<lparr>projected := Suc (projected (pl_stats L2))\<rparr>,
                                pl_next_id := Suc (pl_next_id L2)\<rparr>
                     in (case mk_geo \<lparr>gd_id = se_ids E (pl_next_id L2), gd_lat = gf_lat fx, gd_lon = gf_lon fx,
                             gd_cls = px_cls det, gd_conf = px_conf det, gd_error_m = gf_ce_m fx,
                             gd_src_frame = px_frame_id det, gd_ts = px_ts det, gd_status = ''new'',
                             gd_block_id = se_block_id E\<rparr> of
                           Inl e \<Rightarrow> (Some (CodecRaised e), L3)
                         | Inr geo \<Rightarrow>
                             (case dedup_add (pl_dedup L3) geo of
                                (canonical, dd) \<Rightarrow> finish_pin P repr add get E (L3\<lparr>pl_dedup := dd\<rparr>) canonical))))"

fun ingest_loop ::
  "coercions \<Rightarrow> (json \<Rightarrow> string) \<Rightarrow> ('st \<Rightarrow> geo_detection \<Rightarrow> 'st) \<Rightarrow> ('st \<Rightarrow> string \<Rightarrow> geo_detection option) \<Rightarrow>
     scout_env \<Rightarrow> 'st pipeline \<Rightarrow> pixel_detection list \<Rightarrow> codec_exn option \<times> 'st pipeline" where
  "ingest_loop P repr add get E L [] = (None, L)"
| "ingest_loop P repr add get E L (d # ds) =
     (case ingest_one P repr add get E L d of
        (Some e, L') \<Rightarrow> (Some e, L')
      | (None, L') \<Rightarrow> ingest_loop P repr add get E L' ds)"

definition ingest ::
  "coercions \<Rightarrow> (json \<Rightarrow> string) \<Rightarrow> ('st \<Rightarrow> geo_detection \<Rightarrow> 'st) \<Rightarrow> ('st \<Rightarrow> string \<Rightarrow> geo_detection option) \<Rightarrow>
     scout_env \<Rightarrow> 'st pipeline \<Rightarrow> fused_pose list \<Rightarrow> pixel_detection list \<Rightarrow>
     (codec_exn + geo_detection list) \<times> 'st pipeline" where
  "ingest P repr add get E L poses dets =
     (let sync = foldl add_pose (new_time_sync (sync_max_skew_s (se_params E)) (max 1 (length poses))) poses
      in case ingest_loop P repr add get E (L\<lparr>pl_sync := sync\<rparr>) (sort_key px_ts dets) of
           (Some e, L') \<Rightarrow> (Inl e, L')
         | (None, L') \<Rightarrow>
             let st = pl_stats L';
                 L'' = L'\<lparr>pl_stats := st\<lparr>dropped_skew := dropped_skew st + ts_dropped (pl_sync L'),
                            st_merges := dd_merges (pl_dedup L'), st_pins := length (dd_reps (pl_dedup L'))\<rparr>\<rparr>
             in (Inr (map (\<lambda>d. case get (pl_store L'') (gd_id d) of None \<Rightarrow> d | Some x \<Rightarrow> x) (dd_reps (pl_dedup L''))), L''))"

section \<open>What the pipeline keeps\<close>

lemma with_status_facts:
  "with_status d s = Inr d' \<Longrightarrow> d' = d\<lparr>gd_status := s\<rparr> \<and> s \<in> set DETECTION_STATUSES"
  by (auto simp: with_status_def mk_geo_def geo_valid_def split: if_splits)

lemma keep_triage_facts:
  "keep_triage get st c = Inr c' \<Longrightarrow> gd_id c' = gd_id c \<and>
     (\<forall>x. get st (gd_id c) = Some x \<and> gd_status x \<noteq> ''new'' \<longrightarrow> gd_status c' = gd_status x)"
  by (auto simp: keep_triage_def dest!: with_status_facts split: option.splits if_splits)

text \<open>An iteration leaves the store as it is or stores a pin whose triage was kept.\<close>

lemma finish_pin_store:
  assumes "finish_pin P repr add get E L c0 = (r, L')"
  shows "pl_store L' = pl_store L \<or>
    (\<exists>c. keep_triage get (pl_store L) c0 = Inr c \<and> pl_store L' = add (pl_store L) c)"
  using assms by (auto simp: finish_pin_def Let_def split: sum.splits if_splits)

lemma ingest_one_store:
  assumes "ingest_one P repr add get E L det = (r, L')"
  shows "pl_store L' = pl_store L \<or>
    (\<exists>c0 c. keep_triage get (pl_store L) c0 = Inr c \<and> pl_store L' = add (pl_store L) c)"
proof (cases "align (pl_sync L) (px_ts det)")
  case (Pair m sy)
  show ?thesis
  proof (cases m)
    case None
    then show ?thesis using assms Pair by (auto simp: ingest_one_def Let_def)
  next
    case (Some fused)
    show ?thesis using assms unfolding ingest_one_def Let_def pipeline.simps
      by (auto simp: Pair Some split: option.splits sum.splits prod.splits dest!: finish_pin_store) blast+
  qed
qed

context detection_store
begin

text \<open>Operator triage survives any number of iterations, whatever they end with.\<close>

definition triaged :: "'st \<Rightarrow> string \<Rightarrow> string \<Rightarrow> bool" where
  "triaged st i s \<longleftrightarrow> (\<exists>d. get st i = Some d \<and> gd_status d = s \<and> s \<noteq> ''new'')"

lemma ingest_one_triage:
  assumes "ok (pl_store L)" "triaged (pl_store L) i s" "ingest_one P repr add get E L det = (r, L')"
  shows "ok (pl_store L') \<and> triaged (pl_store L') i s"
  using ingest_one_store [OF assms(3)]
proof
  assume "\<exists>c0 c. keep_triage get (pl_store L) c0 = Inr c \<and> pl_store L' = add (pl_store L) c"
  then obtain c0 c where c: "keep_triage get (pl_store L) c0 = Inr c" "pl_store L' = add (pl_store L) c"
    by blast
  note k = keep_triage_facts [OF c(1)]
  show ?thesis
  proof (cases "i = gd_id c")
    case True
    then show ?thesis using assms(1,2) k c(2) by (auto simp: triaged_def get_add add_ok)
  next
    case False
    then show ?thesis using assms(1,2) c(2) by (auto simp: triaged_def get_add add_ok)
  qed
qed (use assms in simp)

lemma ingest_loop_triage:
  "ok (pl_store L) \<Longrightarrow> triaged (pl_store L) i s \<Longrightarrow> ingest_loop P repr add get E L ds = (r, L') \<Longrightarrow>
   ok (pl_store L') \<and> triaged (pl_store L') i s"
proof (induction ds arbitrary: L)
  case (Cons d ds)
  obtain x L1 where one: "ingest_one P repr add get E L d = (x, L1)" by fastforce
  note L1 = ingest_one_triage [OF Cons.prems(1,2) one]
  show ?case
  proof (cases x)
    case None
    then show ?thesis using Cons.IH [of L1] L1 Cons.prems(3) one by simp
  next
    case (Some e)
    then show ?thesis using L1 Cons.prems(3) one by simp
  qed
qed simp

lemma ingest_triage:
  assumes "ok (pl_store L)" "get (pl_store L) i = Some d" "gd_status d \<noteq> ''new''"
    and "ingest P repr add get E L poses dets = (r, L')"
  shows "\<exists>d'. get (pl_store L') i = Some d' \<and> gd_status d' = gd_status d"
proof -
  let ?L = "L\<lparr>pl_sync := foldl add_pose (new_time_sync (sync_max_skew_s (se_params E)) (max 1 (length poses))) poses\<rparr>"
  obtain x L1 where loop: "ingest_loop P repr add get E ?L (sort_key px_ts dets) = (x, L1)" by fastforce
  have "triaged (pl_store L1) i (gd_status d)"
    using ingest_loop_triage [OF _ _ loop, of i "gd_status d"] assms(1-3) by (simp add: triaged_def)
  moreover have "pl_store L' = pl_store L1"
    using assms(4) loop by (auto simp: ingest_def Let_def split: option.splits)
  ultimately show ?thesis by (auto simp: triaged_def)
qed

end

section \<open>Accounting\<close>

text \<open>
  Every detection taken in is projected or counted as dropped; every projected one made a cluster
  or was merged into one.
\<close>

definition counted :: "nat \<Rightarrow> 'st pipeline \<Rightarrow> bool" where
  "counted k L \<longleftrightarrow> dedup_ok (pl_dedup L) \<and>
     detections_in (pl_stats L) = projected (pl_stats L) + dropped_horizon (pl_stats L) +
       dropped_skew (pl_stats L) + k \<and>
     projected (pl_stats L) = dd_merges (pl_dedup L) + length (dd_reps (pl_dedup L))"

lemma finish_pin_keeps:
  "finish_pin P repr add get E L c = (r, L') \<Longrightarrow>
     pl_sync L' = pl_sync L \<and> pl_dedup L' = pl_dedup L \<and> pl_stats L' = pl_stats L"
  by (auto simp: finish_pin_def Let_def split: sum.splits if_splits)

lemma ingest_one_counted:
  assumes "counted (ts_dropped (pl_sync L)) L" "ingest_one P repr add get E L det = (None, L')"
  shows "counted (ts_dropped (pl_sync L')) L'"
proof -
  from align_cases [of "pl_sync L" "px_ts det"] consider
      (miss) "align (pl_sync L) (px_ts det) = (None, (pl_sync L)\<lparr>ts_dropped := Suc (ts_dropped (pl_sync L))\<rparr>)"
    | (hit) f where "align (pl_sync L) (px_ts det) = (Some f, pl_sync L)" by blast
  then show ?thesis
  proof cases
    case miss
    then show ?thesis using assms by (auto simp: ingest_one_def Let_def counted_def)
  next
    case hit
    show ?thesis
    proof (cases "project_to_ground (fp_pose f) (se_camera E) (bbox_cx (px_bbox det)) (bbox_cy (px_bbox det))
        (fp_roll_deg f) (Some (se_terrain E)) (pos_cep_m (se_params E)) (attitude_sigma_deg (se_params E)) default_terrain_iters")
      case None
      then show ?thesis using assms hit by (auto simp: ingest_one_def Let_def counted_def)
    next
      case (Some fx)
      let ?geo = "\<lparr>gd_id = se_ids E (pl_next_id L), gd_lat = gf_lat fx, gd_lon = gf_lon fx,
         gd_cls = px_cls det, gd_conf = px_conf det, gd_error_m = gf_ce_m fx, gd_src_frame = px_frame_id det,
         gd_ts = px_ts det, gd_status = ''new'', gd_block_id = se_block_id E\<rparr>"
      obtain c dd where g: "dedup_add (pl_dedup L) ?geo = (c, dd)" by fastforce
      have L': "pl_sync L' = pl_sync L" "pl_dedup L' = dd"
        "pl_stats L' = (pl_stats L)\<lparr>detections_in := Suc (detections_in (pl_stats L)),
           projected := Suc (projected (pl_stats L))\<rparr>"
        using assms(2) g unfolding ingest_one_def
        by (auto simp: Let_def hit Some mk_geo_def split: if_splits dest!: finish_pin_keeps)
      have "dedup_ok dd" using assms(1) dedup.inv_step [of "pl_dedup L" ?geo] g by (simp add: counted_def)
      with dedup_add_grows [OF _ g] assms(1) L' show ?thesis by (auto simp: counted_def)
    qed
  qed
qed

lemma ingest_loop_counted:
  "counted (ts_dropped (pl_sync L)) L \<Longrightarrow> ingest_loop P repr add get E L ds = (None, L') \<Longrightarrow>
   counted (ts_dropped (pl_sync L')) L'"
proof (induction ds arbitrary: L)
  case (Cons d ds)
  then show ?case
    by (auto split: prod.splits option.splits dest: ingest_one_counted)
qed simp

lemma foldl_add_pose:
  "ts_dropped (foldl add_pose T ps) = ts_dropped T" "ts_max_skew_s (foldl add_pose T ps) = ts_max_skew_s T"
  by (induction ps arbitrary: T) (simp_all add: add_pose_def)

text \<open>The buffer of a batch holds every pose of it.\<close>

lemma sync_holds_batch:
  "length (ts_poses T) + length ps \<le> ts_buffer_size T \<Longrightarrow>
   ts_poses (foldl add_pose T ps) = ts_poses T @ ps"
proof (induction ps arbitrary: T)
  case (Cons p ps)
  have "ts_poses (add_pose T p) = ts_poses T @ [p]"
    using Cons.prems by (simp add: add_pose_def deque_append_def)
  then show ?case using Cons by (simp add: add_pose_def)
qed simp

lemma finish_pin_in:
  "finish_pin P repr add get E L c = (r, L') \<Longrightarrow> pl_stats L' = pl_stats L"
  by (simp add: finish_pin_keeps)

lemma ingest_one_in:
  assumes "ingest_one P repr add get E L det = (r, L')"
  shows "detections_in (pl_stats L') = Suc (detections_in (pl_stats L))"
  using assms unfolding ingest_one_def Let_def
  by (auto split: prod.splits option.splits sum.splits dest!: finish_pin_in)

lemma ingest_loop_in:
  "ingest_loop P repr add get E L ds = (None, L') \<Longrightarrow>
   detections_in (pl_stats L') = detections_in (pl_stats L) + length ds"
proof (induction ds arbitrary: L)
  case (Cons d ds)
  then show ?case by (auto split: prod.splits option.splits dest!: ingest_one_in)
qed simp

lemma ingest_counted:
  assumes "counted 0 L" "ingest P repr add get E L poses dets = (Inr pins, L')"
  shows "counted 0 L' \<and> st_pins (pl_stats L') = length pins \<and>
    st_pins (pl_stats L') + st_merges (pl_stats L') = projected (pl_stats L') \<and>
    detections_in (pl_stats L') = detections_in (pl_stats L) + length dets"
proof -
  let ?L = "L\<lparr>pl_sync := foldl add_pose (new_time_sync (sync_max_skew_s (se_params E)) (max 1 (length poses))) poses\<rparr>"
  obtain x L1 where loop: "ingest_loop P repr add get E ?L (sort_key px_ts dets) = (x, L1)" by fastforce
  have x: "x = None" using assms(2) loop by (auto simp: ingest_def split: option.splits)
  have "counted (ts_dropped (pl_sync L1)) L1"
    by (rule ingest_loop_counted [OF _ loop [unfolded x]])
      (use assms(1) in \<open>simp add: counted_def foldl_add_pose new_time_sync_def\<close>)
  moreover have "detections_in (pl_stats L1) = detections_in (pl_stats L) + length dets"
    using ingest_loop_in [OF loop [unfolded x]] by simp
  ultimately show ?thesis using assms(2) loop x by (auto simp: ingest_def Let_def counted_def)
qed

section \<open>Markers\<close>

lemma to_envelope_valid:
  assumes "geo_valid d"
  shows "\<exists>env p. to_envelope P repr d = Inr env \<and> env_kind env = Marker \<and> env_msg_id env = gd_id d \<and>
    map_of (env_payload env) ''position'' = Some (JObj p) \<and>
    map_of p ''lat'' = Some (JFloat (Fin (gd_lat d))) \<and> map_of p ''lon'' = Some (JFloat (Fin (gd_lon d))) \<and>
    map_of p ''ce'' = Some (JFloat (Fin (gd_error_m d)))"
proof -
  have p: "\<exists>p. mk_position (Fin (gd_lat d)) (Fin (gd_lon d)) (Fin 0) (Fin (gd_error_m d)) UNKNOWN_ERROR_M None None = Inr p"
    using assms by (simp add: mk_position_def in_closed_iff geo_valid_def absent_or_def)
  then obtain p where p: "mk_position (Fin (gd_lat d)) (Fin (gd_lon d)) (Fin 0) (Fin (gd_error_m d)) UNKNOWN_ERROR_M None None = Inr p" ..
  have "\<exists>e. mk_detection (gd_cls d) (Fin (gd_conf d)) None None = Inr e"
    using assms by (simp add: mk_detection_def in_closed_iff geo_valid_def absent_or_def)
  then obtain e where e: "mk_detection (gd_cls d) (Fin (gd_conf d)) None None = Inr e" ..
  show ?thesis
    by (simp add: to_envelope_def marker_frame_def detection_decode_def field_def frame_float_def optional_def p e)
      (simp add: mk_position_id [OF p] dump_position_def Let_def)
qed

end
