(* ===== verification/Scout_Facts.thy ===== *)
theory Scout_Facts
  imports Scout_Core
begin

text \<open>
  The properties of the survey pipeline: alignment, deduplication, triage, accounting, markers,
  terrain and the planned path.
\<close>

section \<open>Detections\<close>

definition demo_pin :: geo_detection where
  "demo_pin = \<lparr>gd_id = ''d1'', gd_lat = 45, gd_lon = 9, gd_cls = ''vine'', gd_conf = 1 / 2, gd_error_m = 1,
     gd_src_frame = ''f1'', gd_ts = 1, gd_status = ''tagged'', gd_block_id = None\<rparr>"

definition demo_scout :: scout_env where
  "demo_scout =
     \<lparr>se_camera = \<lparr>img_w = 640, img_h = 480, h_fov_deg = 70, v_fov_deg = 42\<rparr>, se_terrain = (\<lambda>_ _. 0),
      se_params = \<lparr>sync_max_skew_s = 1, dedup_radius_m = 1, pos_cep_m = None, attitude_sigma_deg = None\<rparr>,
      se_block_id = None, se_emit = False, se_ids = (\<lambda>n. replicate n CHR ''x'')\<rparr>"

definition demo_pixel :: pixel_detection where
  "demo_pixel = \<lparr>px_frame_id = ''f1'', px_ts = 1, px_bbox = \<lparr>bb_x1 = 0, bb_y1 = 0, bb_x2 = 2, bb_y2 = 2\<rparr>,
     px_cls = ''vine'', px_conf = 1\<rparr>"

definition demo_no_coercions :: coercions where
  "demo_no_coercions = \<lparr>as_float = (\<lambda>_. None), as_int = (\<lambda>_. None)\<rparr>"

text \<open>After any detections were added, every one is counted as a cluster or a merge; the reported
  position of every cluster is within the radius of where the cluster started; and no cluster started
  within the radius of an earlier one.\<close>

theorem dedup_separates_clusters:
  assumes "0 \<le> radius" and "D = foldl (\<lambda>D d. snd (dedup_add D d)) (new_dedup radius) ds"
  shows "dd_merges D + length (dd_reps D) = length ds \<and> length (dd_anchors D) = length (dd_reps D) \<and>
    (\<forall>i < length (dd_reps D).
       ground_distance_m (gd_lat (dd_reps D ! i)) (gd_lon (dd_reps D ! i))
         (fst (dd_anchors D ! i)) (snd (dd_anchors D ! i)) \<le> radius) \<and>
    (\<forall>i j. i < j \<and> j < length (dd_anchors D) \<longrightarrow>
       radius < ground_distance_m (fst (dd_anchors D ! j)) (snd (dd_anchors D ! j))
         (fst (dd_anchors D ! i)) (snd (dd_anchors D ! i)))"
proof -
  have "dedup_ok D" "dd_radius_m D = radius" "dd_merges D + length (dd_reps D) = length ds"
    using dedup_run [OF new_dedup_ok [OF assms(1)], of ds] assms(2) by (simp_all add: new_dedup_def)
  then show ?thesis by (auto simp: dedup_ok_def near_def sorted_wrt_iff_nth_less)
qed

theorem dedup_separates_clusters_witness:
  "dd_merges (foldl (\<lambda>D d. snd (dedup_add D d)) (new_dedup 1) [demo_pin, demo_pin]) +
   length (dd_reps (foldl (\<lambda>D d. snd (dedup_add D d)) (new_dedup 1) [demo_pin, demo_pin])) = 2"
  using dedup_separates_clusters [of 1 _ "[demo_pin, demo_pin]", OF _ refl] by simp

text \<open>A detection is matched with a pose exactly when one of the buffered poses is within the skew
  limit, and then with one that is nearest in time; otherwise it is counted as dropped.\<close>

theorem align_picks_nearest:
  "(\<exists>p \<in> set (ts_poses T). align T t = (Some p, T) \<and> \<bar>fp_ts p - t\<bar> \<le> ts_max_skew_s T \<and>
      (\<forall>q \<in> set (ts_poses T). \<bar>fp_ts p - t\<bar> \<le> \<bar>fp_ts q - t\<bar>)) \<or>
   align T t = (None, T\<lparr>ts_dropped := Suc (ts_dropped T)\<rparr>) \<and>
      (\<forall>q \<in> set (ts_poses T). ts_max_skew_s T < \<bar>fp_ts q - t\<bar>)"
  by (rule align_cases)

definition demo_fused :: "real \<Rightarrow> fused_pose" where
  "demo_fused t = \<lparr>fp_pose = \<lparr>po_lat = 45, po_lon = 9, po_alt_agl_m = 10, po_heading_deg = 0, po_pitch_deg = 90\<rparr>,
     fp_roll_deg = 0, fp_ts = t\<rparr>"

theorem align_picks_nearest_witness:
  "\<exists>p. fst (align (add_pose (add_pose (new_time_sync 1 8) (demo_fused 3)) (demo_fused 1)) (3/2)) = Some p \<and> \<bar>fp_ts p - 3/2\<bar> \<le> 1"
proof -
  let ?T = "add_pose (add_pose (new_time_sync 1 8) (demo_fused 3)) (demo_fused 1)"
  have T: "ts_poses ?T = [demo_fused 3, demo_fused 1]" "ts_max_skew_s ?T = 1"
    by (simp_all add: add_pose_def new_time_sync_def deque_append_def)
  have "demo_fused 1 \<in> set (ts_poses ?T)" "\<not> ts_max_skew_s ?T < \<bar>fp_ts (demo_fused 1) - 3/2\<bar>"
    unfolding T by (simp_all add: demo_fused_def)
  then obtain p where "align ?T (3/2) = (Some p, ?T)" "\<bar>fp_ts p - 3/2\<bar> \<le> ts_max_skew_s ?T"
    using align_picks_nearest [of ?T "3/2"] by blast
  then show ?thesis unfolding T by auto
qed

text \<open>C33: In both stores, a pin that an operator has triaged keeps its status through the processing of
  any batch, even one that an exception ends.\<close>

theorem triage_survives_ingest:
  "(mem_ok (pl_store L) \<and> mem_get (pl_store L) i = Some d \<and> gd_status d \<noteq> ''new'' \<and>
      ingest P repr mem_add mem_get E L poses dets = (r, L') \<longrightarrow>
      (\<exists>d'. mem_get (pl_store L') i = Some d' \<and> gd_status d' = gd_status d)) \<and>
   (sql_ok (pl_store M) \<and> sql_get (pl_store M) i = Some d \<and> gd_status d \<noteq> ''new'' \<and>
      ingest P repr sql_add sql_get E M poses dets = (q, M') \<longrightarrow>
      (\<exists>d'. sql_get (pl_store M') i = Some d' \<and> gd_status d' = gd_status d))"
  using mem_store.ingest_triage [of L i d P repr E poses dets r L']
    sql_store.ingest_triage [of M i d P repr E poses dets q M'] by blast

theorem triage_survives_ingest_witness:
  "\<exists>q M' d'. ingest demo_no_coercions (\<lambda>_. []) sql_add sql_get demo_scout (new_pipeline demo_scout [demo_pin]) []
     [demo_pixel] = (q, M') \<and> sql_get (pl_store M') ''d1'' = Some d' \<and> gd_status d' = ''tagged''"
proof -
  let ?M = "new_pipeline demo_scout [demo_pin] :: sql_store pipeline"
  obtain q M' where i: "ingest demo_no_coercions (\<lambda>_. []) sql_add sql_get demo_scout ?M [] [demo_pixel] = (q, M')"
    by fastforce
  have "sql_ok (pl_store ?M)" "sql_get (pl_store ?M) ''d1'' = Some demo_pin" "gd_status demo_pin \<noteq> ''new''"
    "gd_status demo_pin = ''tagged''"
    by (simp_all add: new_pipeline_def sql_ok_def sql_get_def demo_pin_def)
  with triage_survives_ingest [THEN conjunct2, rule_format, OF conjI [OF _ conjI [OF _ conjI [OF _ i]]]] i
  show ?thesis by metis
qed

text \<open>When a batch was processed, every detection of it is accounted for: projected, dropped for
  its time or dropped at the horizon; and every projected one made a pin or was merged into one.\<close>

theorem ingest_accounts_for_all:
  assumes "0 \<le> dedup_radius_m (se_params E)"
    and "ingest P repr add get E (new_pipeline E st) poses dets = (Inr pins, L')"
  shows "length dets = projected (pl_stats L') + dropped_skew (pl_stats L') + dropped_horizon (pl_stats L') \<and>
    projected (pl_stats L') = st_merges (pl_stats L') + st_pins (pl_stats L') \<and>
    st_pins (pl_stats L') = length pins"
proof -
  have "counted 0 (new_pipeline E st)" "detections_in (pl_stats (new_pipeline E st)) = 0"
    using new_dedup_ok [OF assms(1)] by (simp_all add: counted_def new_pipeline_def new_dedup_def)
  from ingest_counted [OF this(1) assms(2)] this(2) show ?thesis by (auto simp: counted_def)
qed

theorem ingest_accounts_for_all_witness:
  "\<exists>pins L'. ingest demo_no_coercions (\<lambda>_. []) mem_add mem_get demo_scout (new_pipeline demo_scout []) []
     [demo_pixel] = (Inr pins, L') \<and> 1 = projected (pl_stats L') + dropped_skew (pl_stats L') + dropped_horizon (pl_stats L')"
proof -
  have "\<exists>pins L'. ingest demo_no_coercions (\<lambda>_. []) mem_add mem_get demo_scout (new_pipeline demo_scout []) []
     [demo_pixel] = (Inr pins, L')"
    by (simp add: ingest_def ingest_one_def align_def new_time_sync_def Let_def)
  then obtain pins L' where i: "ingest demo_no_coercions (\<lambda>_. []) mem_add mem_get demo_scout
     (new_pipeline demo_scout []) [] [demo_pixel] = (Inr pins, L')" by blast
  have "0 \<le> dedup_radius_m (se_params demo_scout)" by (simp add: demo_scout_def)
  from ingest_accounts_for_all [OF this i] i show ?thesis by auto
qed

text \<open>A valid pin is always emitted as a marker at its own position, under its own id and with its
  own error estimate.\<close>

theorem pin_becomes_marker:
  assumes "mk_geo d0 = Inr d"
  shows "\<exists>env p. to_envelope P repr d = Inr env \<and> env_kind env = Marker \<and> env_msg_id env = gd_id d \<and>
    map_of (env_payload env) ''position'' = Some (JObj p) \<and>
    map_of p ''lat'' = Some (JFloat (Fin (gd_lat d))) \<and> map_of p ''lon'' = Some (JFloat (Fin (gd_lon d))) \<and>
    map_of p ''ce'' = Some (JFloat (Fin (gd_error_m d)))"
  using assms by (intro to_envelope_valid) (auto simp: mk_geo_def split: if_splits)

theorem pin_becomes_marker_witness:
  "\<exists>env. to_envelope demo_no_coercions (\<lambda>_. []) demo_pin = Inr env \<and> env_msg_id env = ''d1''"
proof -
  have "mk_geo demo_pin = Inr demo_pin"
    by (simp add: mk_geo_def geo_valid_def demo_pin_def DETECTION_STATUSES_def)
  from pin_becomes_marker [OF this, of demo_no_coercions "\<lambda>_. []"] show ?thesis
    by (auto simp: demo_pin_def)
qed

section \<open>Terrain and path\<close>

text \<open>The elevation that a gridded terrain interpolates anywhere is between the lowest and the
  highest value of its grid.\<close>

theorem elevation_within_grid:
  assumes "new_gridded grid t = Inr g" and "\<forall>row \<in> set grid. \<forall>v \<in> set row. m \<le> v \<and> v \<le> M"
  shows "m \<le> elevation_m g lat lon \<and> elevation_m g lat lon \<le> M"
proof -
  have "gr_grid g = grid" using assms(1) by (auto simp: new_gridded_def split: if_splits)
  with elevation_bounds [OF new_gridded_ok [OF assms(1)]] assms(2) show ?thesis by simp
qed

theorem elevation_within_grid_witness:
  "\<exists>g. new_gridded [[1, 2], [3, 4]] \<lparr>gt_x0 = 9, gt_y0 = 45, gt_dx = 1, gt_dy = 1\<rparr> = Inr g \<and>
     1 \<le> elevation_m g 44 100 \<and> elevation_m g 44 100 \<le> 4"
proof -
  have "\<exists>g. new_gridded [[1, 2], [3, 4]] \<lparr>gt_x0 = 9, gt_y0 = 45, gt_dx = 1, gt_dy = 1\<rparr> = Inr g"
    by (simp add: new_gridded_def)
  then obtain g where g: "new_gridded [[1, 2], [3, 4]] \<lparr>gt_x0 = 9, gt_y0 = 45, gt_dx = 1, gt_dy = 1\<rparr> = Inr g" ..
  from elevation_within_grid [OF g, of 1 4 44 100] g show ?thesis by auto
qed

text \<open>A planned survey numbers its waypoints from zero, at the requested positive altitude and on
  the globe, along its survey lines; every cross-track position of the block is within half a row
  step of a line that spans the block, hence within the half footprint of its images where the
  overlapping footprint is at least a metre.\<close>

theorem survey_covers_block:
  assumes "plan_boustrophedon b h_fov v_fov alt overlap = Inr ws"
  shows "map wp_seq ws = [0..<length (survey_lines b (fst (footprints_m h_fov v_fov alt)) overlap)] \<and>
    (\<forall>w \<in> set ws. wp_alt_agl_m w = alt \<and> 0 < alt \<and> \<bar>wp_lat w\<bar> \<le> 90 \<and> \<bar>wp_lon w\<bar> \<le> 180) \<and>
    (\<forall>x. Min (snd ` set (snd (block_uv b))) \<le> x \<and> x \<le> Max (snd ` set (snd (block_uv b))) \<longrightarrow>
      (\<exists>y. (Min (fst ` set (snd (block_uv b))), y) \<in> set (survey_lines b (fst (footprints_m h_fov v_fov alt)) overlap) \<and>
        (Max (fst ` set (snd (block_uv b))), y) \<in> set (survey_lines b (fst (footprints_m h_fov v_fov alt)) overlap) \<and>
        \<bar>x - y\<bar> \<le> row_step (fst (footprints_m h_fov v_fov alt)) overlap / 2 \<and>
        (1 \<le> fst (footprints_m h_fov v_fov alt) * (1 - overlap) \<longrightarrow>
           \<bar>x - y\<bar> \<le> fst (footprints_m h_fov v_fov alt) / 2)))"
proof -
  let ?c = "fst (footprints_m h_fov v_fov alt)"
  let ?lines = "survey_lines b ?c overlap"
  have ov: "0 \<le> overlap" "overlap < 1" and ws: "mk_waypoints (fst (block_uv b)) alt 0 ?lines = Inr ws"
    using assms by (auto simp: plan_boustrophedon_def Let_def split: if_splits)
  note w = mk_waypoints_facts [OF ws]
  have step: "row_step ?c overlap / 2 \<le> ?c / 2" if "1 \<le> ?c * (1 - overlap)"
  proof -
    have "0 \<le> ?c" using that ov by (smt (verit) mult_nonneg_nonpos2)
    then have "?c * (1 - overlap) \<le> ?c" using ov by (simp add: mult_left_le)
    then show ?thesis using that by (simp add: row_step_def)
  qed
  have "\<exists>y. (Min (fst ` set (snd (block_uv b))), y) \<in> set ?lines \<and> (Max (fst ` set (snd (block_uv b))), y) \<in> set ?lines \<and>
      \<bar>x - y\<bar> \<le> row_step ?c overlap / 2"
    if "Min (snd ` set (snd (block_uv b))) \<le> x" "x \<le> Max (snd ` set (snd (block_uv b)))" for x
    unfolding survey_lines_def Let_def
    using transects_cover [of "row_step ?c overlap" "Min (snd ` set (snd (block_uv b))) + row_step ?c overlap / 2" x
        "Max (snd ` set (snd (block_uv b)))"] that
    by (simp add: row_step_def)
  with w step show ?thesis by (fastforce intro: order_trans)
qed

definition demo_block :: block where
  "demo_block = \<lparr>bl_polygon = [(0, 0), (0, degrees (3 / EARTH_R_M)), (degrees (2 / EARTH_R_M), 0)],
     bl_row_azimuth_deg = 0\<rparr>"

lemma demo_uv: "block_uv demo_block = (new_frame 0 0 0, [(0, 0), (0, 3), (2, 0)])"
  by (simp add: block_uv_def demo_block_def to_uv_def new_frame_def Let_def EARTH_R_M_def) (simp add: radians_def)

lemma demo_cross: "fst (footprints_m 90 60 2) = 4"
proof -
  have "radians (90 / 2) = pi / 4" by (simp add: radians_def)
  then show ?thesis unfolding footprints_m_def by (simp only: fst_conv tan_45)
qed

lemma demo_lines: "survey_lines demo_block 4 (1/2) = [(0, 1), (2, 1), (2, 3), (0, 3)]"
proof -
  have "row_step 4 (1/2) = 2" by (simp add: row_step_def)
  then show ?thesis
    unfolding survey_lines_def Let_def demo_uv by (simp add: transects_step transects_end)
qed

lemma degrees_small:
  assumes "0 \<le> x" "x \<le> 3" shows "\<bar>degrees (x / EARTH_R_M)\<bar> \<le> 90"
proof -
  have "x / EARTH_R_M * 180 \<le> 90 * pi"
    using assms pi_ge_two by (simp add: EARTH_R_M_def field_simps)
  then have "degrees (x / EARTH_R_M) \<le> 90" unfolding degrees_def using pi_gt_zero by (subst pos_divide_le_eq)
  moreover have "0 \<le> degrees (x / EARTH_R_M)" using assms by (simp add: degrees_def EARTH_R_M_def)
  ultimately show ?thesis by simp
qed

lemma demo_waypoint:
  assumes "0 \<le> u" "u \<le> 3" "0 \<le> v" "v \<le> 3"
  shows "\<exists>lat lon w. to_latlon (new_frame 0 0 0) u v = (lat, lon) \<and> mk_waypoint seq lat lon 2 = Inr w"
  using degrees_small [OF assms(1,2)] degrees_small [OF assms(3,4)]
  by (simp add: to_latlon_def new_frame_def Let_def mk_waypoint_def abs_le_iff) (simp add: radians_def)

lemma demo_planned: "\<exists>ws. plan_boustrophedon demo_block 90 60 2 (1/2) = Inr ws"
proof -
  have ne: "bl_polygon demo_block \<noteq> []" by (simp add: demo_block_def)
  show ?thesis
    using demo_waypoint [of 0 1 0] demo_waypoint [of 2 1 1] demo_waypoint [of 2 3 2] demo_waypoint [of 0 3 3]
    by (auto simp: plan_boustrophedon_def demo_cross demo_lines demo_uv ne eval_nat_numeral)
qed

theorem survey_covers_block_witness:
  "\<exists>ws. plan_boustrophedon demo_block 90 60 2 (1/2) = Inr ws \<and> map wp_seq ws = [0, 1, 2, 3] \<and>
     (\<forall>w \<in> set ws. wp_alt_agl_m w = 2)"
proof -
  obtain ws where p: "plan_boustrophedon demo_block 90 60 2 (1/2) = Inr ws" using demo_planned ..
  from survey_covers_block [OF p] p show ?thesis
    unfolding demo_cross demo_lines by (auto simp: upt_conv_Cons)
qed

end
