(* ===== verification/Landing_Target.thy ===== *)
theory Landing_Target
  imports Scout_Geo Py_Strings
begin

text \<open>
  The publisher of precision-landing targets of the perception unit, under
  \<^verbatim>\<open>jetson_yolo_gcs/\<close>: the projection of a pixel to north, east and down (\<^verbatim>\<open>geometry/ned.py\<close>), the
  heartbeat monitor (\<^verbatim>\<open>mavlink/heartbeat.py\<close>), the pose source (\<^verbatim>\<open>mavlink/pose.py\<close>), the time
  stamps (\<^verbatim>\<open>mavlink/timesync.py\<close>) and the bridge to the autopilot (\<^verbatim>\<open>mavlink/bridge.py\<close>).

  The devices are outside the program.  A device is an oracle: the answers it will give, in order,
  and how many it has given.  The interactions that matter leave a trace: the messages received, the
  readings of the monotonic clock and the messages handed to the connection.
\<close>

section \<open>Devices\<close>

type_synonym 'a answers = "(nat \<Rightarrow> 'a) \<times> nat"

definition ask :: "'a answers \<Rightarrow> 'a \<times> 'a answers" where
  "ask q = (fst q (snd q), (fst q, Suc (snd q)))"

datatype jetson_exn = MavlinkError | DetectionError | JetsonRaised py_exn

text \<open>A received heartbeat: what its two accessors return or raise.\<close>

record heartbeat_msg =
  hm_system :: "py_exn + int"
  hm_component :: "py_exn + int"

text \<open>The arguments of one call of \<^verbatim>\<open>landing_target_send\<close>; the last part only in a local frame.\<close>

record local_position =
  lp_x :: real
  lp_y :: real
  lp_z :: real
  lp_q :: "real \<times> real \<times> real \<times> real"
  lp_type :: int
  lp_position_valid :: int

record landing_target =
  lt_time_usec :: int
  lt_target_num :: int
  lt_frame :: int
  lt_angle_x :: real
  lt_angle_y :: real
  lt_distance :: real
  lt_size_x :: real
  lt_size_y :: real
  lt_position :: "local_position option"

datatype device_event = EHeard heartbeat_msg | EClock real | ECall landing_target

text \<open>A detected object and the detections of one frame.\<close>

record seen_object =
  so_class_id :: int
  so_class_name :: string
  so_confidence :: real
  so_bbox :: "real \<times> real \<times> real \<times> real"

record detection_result =
  dr_detections :: "seen_object list"
  dr_width :: int
  dr_height :: int

record camera_frame =
  cf_idx :: int
  cf_t :: real

record devices =
  dv_mono :: "real answers"
  dv_wall :: "real answers"
  dv_factory :: "(py_exn + bool) answers"
  dv_radio :: "(py_exn + heartbeat_msg option) answers"
  dv_send :: "py_exn option answers"
  dv_camera :: "(jetson_exn + camera_frame option) answers"
  dv_detector :: "(jetson_exn + detection_result) answers"
  dv_tracker :: "(py_exn + int list) answers"
  dv_stream :: "py_exn option answers"
  dv_stop :: "bool answers"
  dv_trace :: "device_event list"

definition emit :: "device_event \<Rightarrow> devices \<Rightarrow> devices" where
  "emit e d = d\<lparr>dv_trace := dv_trace d @ [e]\<rparr>"

definition mono_now :: "devices \<Rightarrow> real \<times> devices" where
  "mono_now d = (case ask (dv_mono d) of (t, q) \<Rightarrow> (t, emit (EClock t) (d\<lparr>dv_mono := q\<rparr>)))"

definition wall_now :: "devices \<Rightarrow> real \<times> devices" where
  "wall_now d = (case ask (dv_wall d) of (t, q) \<Rightarrow> (t, d\<lparr>dv_wall := q\<rparr>))"

definition ask_factory :: "devices \<Rightarrow> (py_exn + bool) \<times> devices" where
  "ask_factory d = (case ask (dv_factory d) of (r, q) \<Rightarrow> (r, d\<lparr>dv_factory := q\<rparr>))"

definition recv_heartbeat :: "devices \<Rightarrow> (py_exn + heartbeat_msg option) \<times> devices" where
  "recv_heartbeat d =
     (case ask (dv_radio d) of (r, q) \<Rightarrow>
        let d1 = d\<lparr>dv_radio := q\<rparr>
        in (r, case r of Inr (Some m) \<Rightarrow> emit (EHeard m) d1 | _ \<Rightarrow> d1))"

definition landing_target_send :: "landing_target \<Rightarrow> devices \<Rightarrow> (py_exn + unit) \<times> devices" where
  "landing_target_send m d =
     (case ask (dv_send d) of (r, q) \<Rightarrow>
        (case r of None \<Rightarrow> Inr () | Some e \<Rightarrow> Inl e, emit (ECall m) (d\<lparr>dv_send := q\<rparr>)))"

definition calls :: "devices \<Rightarrow> landing_target list" where
  "calls d = List.map_filter (\<lambda>e. case e of ECall m \<Rightarrow> Some m | _ \<Rightarrow> None) (dv_trace d)"

definition clock_readings :: "device_event list \<Rightarrow> real list" where
  "clock_readings tr = List.map_filter (\<lambda>e. case e of EClock t \<Rightarrow> Some t | _ \<Rightarrow> None) tr"

lemma clock_readings_simps [simp]:
  "clock_readings [] = []"
  "clock_readings (EHeard h # tr) = clock_readings tr"
  "clock_readings (EClock t # tr) = t # clock_readings tr"
  "clock_readings (ECall m # tr) = clock_readings tr"
  "clock_readings (tr @ tr') = clock_readings tr @ clock_readings tr'"
  by (simp_all add: clock_readings_def List.map_filter_def)

lemma trace_simps [simp]: "dv_trace (emit e d) = dv_trace d @ [e]"
  by (simp add: emit_def)

lemma trace_after:
  "mono_now d = (t, d') \<Longrightarrow> dv_trace d' = dv_trace d @ [EClock t]"
  "wall_now d = (t, d') \<Longrightarrow> dv_trace d' = dv_trace d"
  "ask_factory d = (f, d') \<Longrightarrow> dv_trace d' = dv_trace d"
  "landing_target_send m d = (u, d') \<Longrightarrow> dv_trace d' = dv_trace d @ [ECall m]"
  "recv_heartbeat d = (x, d') \<Longrightarrow>
     dv_trace d' = dv_trace d @ (case x of Inr (Some m) \<Rightarrow> [EHeard m] | _ \<Rightarrow> [])"
  by (auto simp: mono_now_def wall_now_def ask_factory_def landing_target_send_def
      recv_heartbeat_def Let_def ask_def emit_def split: sum.split option.split)

section \<open>Pixel to north, east, down\<close>

text \<open>\<^verbatim>\<open>int(x)\<close> of a finite float cuts the fraction off.\<close>

definition py_trunc :: "real \<Rightarrow> int" where
  "py_trunc x = (if x < 0 then \<lceil>x\<rceil> else \<lfloor>x\<rfloor>)"

record camera_fov =
  fv_img_w :: int
  fv_img_h :: int
  fv_h_fov_rad :: real
  fv_v_fov_rad :: real

record ned_offset =
  ned_north_m :: real
  ned_east_m :: real
  ned_down_m :: real

definition angle_off_axis_rad :: "real \<Rightarrow> real \<Rightarrow> real" where
  "angle_off_axis_rad off fov_rad = arctan (off * tan (fov_rad / 2))"

definition NED_MIN_DEPRESSION_DEG :: real where "NED_MIN_DEPRESSION_DEG = 1 / 10"

definition ned_ray :: "camera_fov \<Rightarrow> real \<Rightarrow> real \<Rightarrow> real \<Rightarrow> real \<Rightarrow> real \<Rightarrow> real \<times> real" where
  "ned_ray cam cx cy heading_deg pitch_deg roll_deg =
     (let yaw0 = degrees (angle_off_axis_rad (2 * cx / real_of_int (fv_img_w cam) - 1) (fv_h_fov_rad cam));
          pitch0 = degrees (angle_off_axis_rad (2 * cy / real_of_int (fv_img_h cam) - 1) (fv_v_fov_rad cam));
          r = radians roll_deg;
          yaw = (if roll_deg \<noteq> 0 then yaw0 * cos r - pitch0 * sin r else yaw0);
          pitch = (if roll_deg \<noteq> 0 then yaw0 * sin r + pitch0 * cos r else pitch0);
          depression = pitch_deg + pitch;
          azimuth = mod_360 (heading_deg + yaw)
      in if 90 < depression then (180 - depression, mod_360 (azimuth + 180)) else (depression, azimuth))"

definition project_pixel_to_ned ::
  "camera_fov \<Rightarrow> real \<Rightarrow> real \<Rightarrow> real \<Rightarrow> real \<Rightarrow> real \<Rightarrow> real \<Rightarrow> ned_offset option" where
  "project_pixel_to_ned cam cx cy alt_agl_m heading_deg pitch_deg roll_deg =
     (if alt_agl_m \<le> 0 \<or> fv_img_w cam \<le> 0 \<or> fv_img_h cam \<le> 0 then None
      else case ned_ray cam cx cy heading_deg pitch_deg roll_deg of
        (depression_deg, azimuth) \<Rightarrow>
          if depression_deg < NED_MIN_DEPRESSION_DEG then None
          else
            let ground_range = alt_agl_m / tan (radians depression_deg); az = radians azimuth
            in Some \<lparr>ned_north_m = ground_range * cos az, ned_east_m = ground_range * sin az,
                     ned_down_m = alt_agl_m\<rparr>)"

lemma ned_ray_le_90: "fst (ned_ray cam cx cy h p r) \<le> 90"
  by (simp add: ned_ray_def Let_def)

lemma tan_depression_mono:
  assumes "0 < a" "a \<le> b" "b < 90"
  shows "0 < tan (radians a) \<and> tan (radians a) \<le> tan (radians b)"
proof -
  have r: "0 < radians a" "radians a \<le> radians b" "radians b < pi / 2"
    using assms mult_strict_right_mono [of b 90 pi] by (simp_all add: radians_def divide_right_mono)
  moreover have "radians a < pi / 2" using r by linarith
  ultimately show ?thesis using tan_gt_zero [of "radians a"] tan_mono_le [of "radians a" "radians b"]
    by simp
qed

lemma polar_norm: "(R * cos a)\<^sup>2 + (R * sin a)\<^sup>2 = (R :: real)\<^sup>2"
  by (simp add: power_mult_distrib flip: distrib_left)

text \<open>A projected target is below the vehicle by its height, and never further out than the range at
  the least usable depression.\<close>

lemma project_pixel_bounds:
  assumes "project_pixel_to_ned cam cx cy alt h p r = Some n"
  shows "0 < alt \<and> ned_down_m n = alt \<and>
    (\<exists>dep. NED_MIN_DEPRESSION_DEG \<le> dep \<and> dep \<le> 90 \<and>
       (ned_north_m n)\<^sup>2 + (ned_east_m n)\<^sup>2 = (alt / tan (radians dep))\<^sup>2) \<and>
    (ned_north_m n)\<^sup>2 + (ned_east_m n)\<^sup>2 \<le> (alt / tan (radians NED_MIN_DEPRESSION_DEG))\<^sup>2"
proof -
  obtain dep az where ray: "ned_ray cam cx cy h p r = (dep, az)" by fastforce
  have le: "dep \<le> 90" using ned_ray_le_90 [of cam cx cy h p r] ray by simp
  from assms ray have alt: "0 < alt" and dep: "NED_MIN_DEPRESSION_DEG \<le> dep"
    and n: "n = \<lparr>ned_north_m = alt / tan (radians dep) * cos (radians az),
      ned_east_m = alt / tan (radians dep) * sin (radians az), ned_down_m = alt\<rparr>"
    by (auto simp: project_pixel_to_ned_def Let_def split: if_splits)
  have sq: "(ned_north_m n)\<^sup>2 + (ned_east_m n)\<^sup>2 = (alt / tan (radians dep))\<^sup>2"
    unfolding n ned_offset.select_convs by (rule polar_norm)
  have t0: "0 < tan (radians NED_MIN_DEPRESSION_DEG)"
    using tan_depression_mono [of NED_MIN_DEPRESSION_DEG NED_MIN_DEPRESSION_DEG]
    by (simp add: NED_MIN_DEPRESSION_DEG_def)
  have "(alt / tan (radians dep))\<^sup>2 \<le> (alt / tan (radians NED_MIN_DEPRESSION_DEG))\<^sup>2"
  proof (cases "dep = 90")
    case True
    then have "tan (radians dep) = 0" by (simp add: radians_def tan_def)
    then show ?thesis by simp
  next
    case False
    then have "tan (radians NED_MIN_DEPRESSION_DEG) \<le> tan (radians dep)"
      using tan_depression_mono [of NED_MIN_DEPRESSION_DEG dep] dep le
      by (simp add: NED_MIN_DEPRESSION_DEG_def)
    then show ?thesis using t0 alt by (intro power_mono divide_left_mono) auto
  qed
  with alt n sq dep le show ?thesis by auto
qed

text \<open>The pixel at the centre of a level camera: straight ahead, at the range of its depression.\<close>

lemma project_pixel_centre:
  assumes "0 < alt" "0 < fv_img_w cam" "0 < fv_img_h cam" "NED_MIN_DEPRESSION_DEG \<le> p" "p \<le> 90"
  shows "project_pixel_to_ned cam (fv_img_w cam / 2) (fv_img_h cam / 2) alt h p 0 =
    Some \<lparr>ned_north_m = alt / tan (radians p) * cos (radians (mod_360 h)),
          ned_east_m = alt / tan (radians p) * sin (radians (mod_360 h)), ned_down_m = alt\<rparr>"
  using assms
  by (simp add: project_pixel_to_ned_def ned_ray_def angle_off_axis_rad_def degrees_def Let_def)

section \<open>The heartbeat monitor\<close>

record hb_monitor =
  mo_max_age_s :: real
  mo_last :: "real option"

record hb_monitor_report =
  mr_fresh :: bool
  mr_reasons :: "string list"
  mr_last_beat_t :: "real option"

definition new_hb_monitor :: "real \<Rightarrow> hb_monitor" where
  "new_hb_monitor max_age = \<lparr>mo_max_age_s = max_age, mo_last = None\<rparr>"

definition monitor_beat :: "real option \<Rightarrow> hb_monitor \<Rightarrow> devices \<Rightarrow> hb_monitor \<times> devices" where
  "monitor_beat t m d =
     (case t of
        Some x \<Rightarrow> (m\<lparr>mo_last := Some x\<rparr>, d)
      | None \<Rightarrow> (case mono_now d of (x, d1) \<Rightarrow> (m\<lparr>mo_last := Some x\<rparr>, d1)))"

definition monitor_report :: "hb_monitor \<Rightarrow> devices \<Rightarrow> hb_monitor_report \<times> devices" where
  "monitor_report m d =
     (case mo_last m of
        None \<Rightarrow> (\<lparr>mr_fresh = False, mr_reasons = [''no_heartbeat''], mr_last_beat_t = None\<rparr>, d)
      | Some l \<Rightarrow>
          (case mono_now d of (t, d1) \<Rightarrow>
             let fresh = t - l \<le> mo_max_age_s m
             in (\<lparr>mr_fresh = fresh, mr_reasons = (if fresh then [] else [''heartbeat_stale'']),
                  mr_last_beat_t = Some l\<rparr>, d1)))"

section \<open>The pose source and the vehicle clock\<close>

record vehicle_pose =
  vp_alt_agl_m :: real
  vp_heading_deg :: real
  vp_pitch_deg :: real
  vp_roll_deg :: real

record pose_source =
  ps_camera_depression_deg :: real
  ps_latest :: "vehicle_pose option"

text \<open>One \<^verbatim>\<open>poll\<close>: what the connection returned (yaw and roll) and what the height source did.\<close>

definition pose_poll ::
  "py_exn + (real \<times> real) option \<Rightarrow> real option \<Rightarrow> pose_source \<Rightarrow> bool \<times> pose_source" where
  "pose_poll received agl s =
     (case received of
        Inl _ \<Rightarrow> (False, s)
      | Inr None \<Rightarrow> (False, s)
      | Inr (Some (yaw, roll)) \<Rightarrow>
          (case agl of
             None \<Rightarrow> (False, s)
           | Some a \<Rightarrow>
               (True, s\<lparr>ps_latest := Some \<lparr>vp_alt_agl_m = a, vp_heading_deg = mod_360 (degrees yaw),
                  vp_pitch_deg = ps_camera_depression_deg s, vp_roll_deg = degrees roll\<rparr>\<rparr>)))"

definition USEC_PER_SEC :: real where "USEC_PER_SEC = 1000000"

definition to_vehicle_usec :: "int \<Rightarrow> real \<Rightarrow> int" where
  "to_vehicle_usec offset_us local_s = py_trunc (local_s * USEC_PER_SEC) + offset_us"

section \<open>The bridge\<close>

datatype lt_frame_kind = BodyFrd | LocalNed
datatype time_source = PublishTime | CaptureTime

record mavlink_settings =
  ms_enable_landing_target :: bool
  ms_target_classes :: string
  ms_fov_x_rad :: real
  ms_fov_y_rad :: real
  ms_require_heartbeat :: bool
  ms_heartbeat_timeout_s :: real
  ms_min_publish_rate_hz :: real
  ms_target_system :: int
  ms_target_component :: int
  ms_frame :: lt_frame_kind
  ms_timesync_enabled :: bool
  ms_capture_time_source :: time_source

definition default_mavlink_settings :: mavlink_settings where
  "default_mavlink_settings =
     \<lparr>ms_enable_landing_target = False, ms_target_classes = [], ms_fov_x_rad = 1.204,
      ms_fov_y_rad = 0.733, ms_require_heartbeat = True, ms_heartbeat_timeout_s = 2,
      ms_min_publish_rate_hz = 10, ms_target_system = 1, ms_target_component = 1,
      ms_frame = BodyFrd, ms_timesync_enabled = False, ms_capture_time_source = PublishTime\<rparr>"

definition target_class_set :: "mavlink_settings \<Rightarrow> string set option" where
  "target_class_set S =
     (let names = set (csv_items (ms_target_classes S)) in if names = {} then None else Some names)"

definition MAV_FRAME_BODY_FRD :: int where "MAV_FRAME_BODY_FRD = 12"
definition MAV_FRAME_LOCAL_NED :: int where "MAV_FRAME_LOCAL_NED = 1"
definition LANDING_TARGET_TYPE_LIGHT_BEACON :: int where "LANDING_TARGET_TYPE_LIGHT_BEACON = 0"
definition IDENTITY_QUATERNION_WXYZ :: "real \<times> real \<times> real \<times> real" where
  "IDENTITY_QUATERNION_WXYZ = (1, 0, 0, 0)"

record bridge =
  br_conn :: bool
  br_pose_source :: "pose_source option"
  br_timesync :: "int option"
  br_heartbeat :: "hb_monitor option"
  br_log_every :: int
  br_suppressed_count :: nat
  br_suppressed :: "string \<rightharpoonup> nat"
  br_last_fresh :: "bool option"

definition new_bridge ::
  "mavlink_settings \<Rightarrow> bool \<Rightarrow> hb_monitor option \<Rightarrow> int \<Rightarrow> pose_source option \<Rightarrow> int option \<Rightarrow>
     py_exn + bridge" where
  "new_bridge S connection heartbeat log_every pose timesync =
     (if log_every < 1 then Inl ValueError
      else Inr
        \<lparr>br_conn = connection, br_pose_source = pose, br_timesync = timesync,
         br_heartbeat = (case heartbeat of
             Some m \<Rightarrow> Some m
           | None \<Rightarrow>
               if ms_require_heartbeat S then Some (new_hb_monitor (ms_heartbeat_timeout_s S)) else None),
         br_log_every = log_every, br_suppressed_count = 0, br_suppressed = Map.empty,
         br_last_fresh = None\<rparr>)"

definition bridge_start :: "bridge \<Rightarrow> devices \<Rightarrow> (py_exn + unit) \<times> bridge \<times> devices" where
  "bridge_start b d =
     (if br_conn b then (Inr (), b, d)
      else case ask_factory d of
        (Inl e, d1) \<Rightarrow> (Inl e, b, d1)
      | (Inr c, d1) \<Rightarrow> (Inr (), b\<lparr>br_conn := c\<rparr>, d1))"

definition is_target_heartbeat :: "mavlink_settings \<Rightarrow> heartbeat_msg \<Rightarrow> py_exn + bool" where
  "is_target_heartbeat S msg =
     then_ok (if ms_target_system S = 0 then Inr True
              else then_ok (hm_system msg) (\<lambda>v. Inr (v = ms_target_system S))) (\<lambda>sys.
       if \<not> sys then Inr False
       else if ms_target_component S = 0 then Inr True
       else then_ok (hm_component msg) (\<lambda>v. Inr (v = ms_target_component S)))"

text \<open>\<^verbatim>\<open>_note_freshness_transition\<close>; the log line of a transition is not part of the model.\<close>

definition note_freshness :: "bool \<Rightarrow> bridge \<Rightarrow> bridge" where
  "note_freshness fresh b = (if Some fresh = br_last_fresh b then b else b\<lparr>br_last_fresh := Some fresh\<rparr>)"

text \<open>The guarded part of \<^verbatim>\<open>poll_heartbeat\<close>: any exception ends it, keeping what was done.\<close>

definition poll_link ::
  "mavlink_settings \<Rightarrow> hb_monitor \<Rightarrow> bridge \<Rightarrow> devices \<Rightarrow> bool \<times> hb_monitor \<times> bridge \<times> devices" where
  "poll_link S m b d =
     (case (if br_conn b then (Inr (), b, d) else bridge_start b d) of
        (Inl _, b1, d1) \<Rightarrow> (False, m, b1, d1)
      | (Inr _, b1, d1) \<Rightarrow>
          if \<not> br_conn b1 then (False, m, b1, d1)
          else case recv_heartbeat d1 of
            (Inr (Some msg), d2) \<Rightarrow>
              (if is_target_heartbeat S msg = Inr True
               then case monitor_beat None m d2 of (m', d3) \<Rightarrow> (True, m', b1, d3)
               else (False, m, b1, d2))
          | (_, d2) \<Rightarrow> (False, m, b1, d2))"

definition poll_heartbeat :: "mavlink_settings \<Rightarrow> bridge \<Rightarrow> devices \<Rightarrow> bool \<times> bridge \<times> devices" where
  "poll_heartbeat S b d =
     (case br_heartbeat b of
        None \<Rightarrow> (False, b, d)
      | Some m \<Rightarrow>
          (case poll_link S m b d of (consumed, m1, b1, d1) \<Rightarrow>
             case monitor_report m1 d1 of (rep, d2) \<Rightarrow>
               (consumed, note_freshness (mr_fresh rep) (b1\<lparr>br_heartbeat := Some m1\<rparr>), d2)))"

definition heartbeat_status :: "bridge \<Rightarrow> devices \<Rightarrow> hb_monitor_report option \<times> devices" where
  "heartbeat_status b d =
     (case br_heartbeat b of
        None \<Rightarrow> (None, d)
      | Some m \<Rightarrow> (case monitor_report m d of (rep, d1) \<Rightarrow> (Some rep, d1)))"

definition note_suppressed :: "string \<Rightarrow> bridge \<Rightarrow> bridge" where
  "note_suppressed reason b =
     b\<lparr>br_suppressed := (br_suppressed b)(reason \<mapsto>
         Suc (case br_suppressed b reason of None \<Rightarrow> 0 | Some n \<Rightarrow> n)),
       br_suppressed_count := Suc (br_suppressed_count b)\<rparr>"

text \<open>The centre of a bounding box, and its angles about the centre of the image.\<close>

definition bbox_center :: "seen_object \<Rightarrow> real \<times> real" where
  "bbox_center det = (case so_bbox det of (x1, y1, x2, y2) \<Rightarrow> ((x1 + x2) / 2, (y1 + y2) / 2))"

definition compute_angles :: "seen_object \<Rightarrow> detection_result \<Rightarrow> real \<Rightarrow> real \<Rightarrow> real \<times> real" where
  "compute_angles det res fov_x fov_y =
     (case bbox_center det of (cx, cy) \<Rightarrow>
        let norm_x = (if dr_width res \<noteq> 0 then cx / real_of_int (dr_width res) - 1 / 2 else 0);
            norm_y = (if dr_height res \<noteq> 0 then cy / real_of_int (dr_height res) - 1 / 2 else 0)
        in (norm_x * fov_x, norm_y * fov_y))"

definition compute_time_usec ::
  "mavlink_settings \<Rightarrow> real option \<Rightarrow> bridge \<Rightarrow> devices \<Rightarrow> int \<times> devices" where
  "compute_time_usec S capture_t b d =
     (case (ms_capture_time_source S, capture_t) of
        (CaptureTime, Some t) \<Rightarrow>
          (case (ms_timesync_enabled S, br_timesync b) of
             (True, Some off) \<Rightarrow> (to_vehicle_usec off t, d)
           | _ \<Rightarrow> (py_trunc (t * USEC_PER_SEC), d))
      | _ \<Rightarrow> (case wall_now d of (t, d1) \<Rightarrow> (py_trunc (t * USEC_PER_SEC), d1)))"

definition body_frd_target ::
  "mavlink_settings \<Rightarrow> seen_object \<Rightarrow> detection_result \<Rightarrow> int \<Rightarrow> landing_target" where
  "body_frd_target S det res time_usec =
     (case compute_angles det res (ms_fov_x_rad S) (ms_fov_y_rad S) of (angle_x, angle_y) \<Rightarrow>
        case so_bbox det of (x1, y1, x2, y2) \<Rightarrow>
          let size_x = (if dr_width res \<noteq> 0 then \<bar>x2 - x1\<bar> / real_of_int (dr_width res) else 0);
              size_y = (if dr_height res \<noteq> 0 then \<bar>y2 - y1\<bar> / real_of_int (dr_height res) else 0)
          in \<lparr>lt_time_usec = time_usec, lt_target_num = 0, lt_frame = MAV_FRAME_BODY_FRD,
              lt_angle_x = angle_x, lt_angle_y = angle_y, lt_distance = 0,
              lt_size_x = size_x * ms_fov_x_rad S, lt_size_y = size_y * ms_fov_y_rad S,
              lt_position = None\<rparr>)"

definition ned_target :: "ned_offset \<Rightarrow> int \<Rightarrow> landing_target" where
  "ned_target ned time_usec =
     \<lparr>lt_time_usec = time_usec, lt_target_num = 0, lt_frame = MAV_FRAME_LOCAL_NED,
      lt_angle_x = 0, lt_angle_y = 0, lt_distance = 0, lt_size_x = 0, lt_size_y = 0,
      lt_position = Some \<lparr>lp_x = ned_north_m ned, lp_y = ned_east_m ned, lp_z = ned_down_m ned,
        lp_q = IDENTITY_QUATERNION_WXYZ, lp_type = LANDING_TARGET_TYPE_LIGHT_BEACON,
        lp_position_valid = 1\<rparr>\<rparr>"

text \<open>\<^verbatim>\<open>_send_local_ned\<close> up to its send: the message, or the reason to suppress it.\<close>

definition local_ned_target ::
  "mavlink_settings \<Rightarrow> seen_object \<Rightarrow> detection_result \<Rightarrow> int \<Rightarrow> bridge \<Rightarrow> string + landing_target" where
  "local_ned_target S det res time_usec b =
     (case (case br_pose_source b of None \<Rightarrow> None | Some s \<Rightarrow> ps_latest s) of
        None \<Rightarrow> Inl ''no_pose''
      | Some pose \<Rightarrow>
          (case bbox_center det of (cx, cy) \<Rightarrow>
             let cam = \<lparr>fv_img_w = dr_width res, fv_img_h = dr_height res,
                        fv_h_fov_rad = ms_fov_x_rad S, fv_v_fov_rad = ms_fov_y_rad S\<rparr>
             in case project_pixel_to_ned cam cx cy (vp_alt_agl_m pose) (vp_heading_deg pose)
                       (vp_pitch_deg pose) (vp_roll_deg pose) of
                  None \<Rightarrow> Inl ''unprojectable''
                | Some ned \<Rightarrow> Inr (ned_target ned time_usec)))"

text \<open>\<^verbatim>\<open>publish\<close> after the gates: open the link, build the message, send it.\<close>

definition bridge_transmit ::
  "mavlink_settings \<Rightarrow> seen_object \<Rightarrow> detection_result \<Rightarrow> real option \<Rightarrow> bridge \<Rightarrow> devices \<Rightarrow>
     (jetson_exn + bool) \<times> bridge \<times> devices" where
  "bridge_transmit S det res capture_t b d =
     (case bridge_start b d of
        (Inl e, b1, d1) \<Rightarrow> (Inl (JetsonRaised e), b1, d1)
      | (Inr _, b1, d1) \<Rightarrow>
          if \<not> br_conn b1 then (Inl MavlinkError, b1, d1)
          else case compute_time_usec S capture_t b1 d1 of
            (time_usec, d2) \<Rightarrow>
              (case (case ms_frame S of
                       LocalNed \<Rightarrow> local_ned_target S det res time_usec b1
                     | BodyFrd \<Rightarrow> Inr (body_frd_target S det res time_usec)) of
                 Inl reason \<Rightarrow> (Inr False, note_suppressed reason b1, d2)
               | Inr m \<Rightarrow>
                   (case landing_target_send m d2 of
                      (Inl e, d3) \<Rightarrow> (Inl (JetsonRaised e), b1, d3)
                    | (Inr _, d3) \<Rightarrow> (Inr True, b1\<lparr>br_suppressed_count := 0\<rparr>, d3))))"

definition bridge_publish ::
  "mavlink_settings \<Rightarrow> seen_object \<Rightarrow> detection_result \<Rightarrow> real option \<Rightarrow> bridge \<Rightarrow> devices \<Rightarrow>
     (jetson_exn + bool) \<times> bridge \<times> devices" where
  "bridge_publish S det res capture_t b d =
     (if \<not> ms_enable_landing_target S then (Inr False, b, d)
      else case br_heartbeat b of
        None \<Rightarrow> bridge_transmit S det res capture_t b d
      | Some m \<Rightarrow>
          (case monitor_report m d of (rep, d1) \<Rightarrow>
             if \<not> mr_fresh rep then (Inr False, note_suppressed ''no_heartbeat'' b, d1)
             else bridge_transmit S det res capture_t b d1))"

definition bridge_close :: "bridge \<Rightarrow> bridge" where
  "bridge_close b = b\<lparr>br_conn := False\<rparr>"

section \<open>What the bridge has heard\<close>

definition call_free :: "device_event list \<Rightarrow> bool" where
  "call_free es \<longleftrightarrow> (\<forall>m. ECall m \<notin> set es)"

lemma call_free_simps [simp]:
  "call_free []"
  "call_free (EHeard h # es) = call_free es"
  "call_free (EClock t # es) = call_free es"
  "\<not> call_free (ECall m # es)"
  "call_free (es @ es') = (call_free es \<and> call_free es')"
  by (auto simp: call_free_def)

definition gate_age :: "bridge \<Rightarrow> real option" where
  "gate_age b = map_option mo_max_age_s (br_heartbeat b)"

text \<open>The last beat of the monitor was read off the clock right after a heartbeat of the target.\<close>

definition beats_heard :: "mavlink_settings \<Rightarrow> bridge \<Rightarrow> device_event list \<Rightarrow> bool" where
  "beats_heard S b tr \<longleftrightarrow>
     (\<forall>m t0. br_heartbeat b = Some m \<longrightarrow> mo_last m = Some t0 \<longrightarrow>
        (\<exists>pre msg post. tr = pre @ EHeard msg # EClock t0 # post \<and> is_target_heartbeat S msg = Inr True))"

lemma beats_heard_append [intro]: "beats_heard S b tr \<Longrightarrow> beats_heard S b (tr @ es)"
  unfolding beats_heard_def by (metis append.assoc append_Cons)

lemma beats_heard_cong: "br_heartbeat b' = br_heartbeat b \<Longrightarrow> beats_heard S b' tr = beats_heard S b tr"
  by (simp add: beats_heard_def)

lemma note_keeps [simp]:
  "br_heartbeat (note_freshness f b) = br_heartbeat b"
  "br_heartbeat (note_suppressed r b) = br_heartbeat b"
  "br_pose_source (note_suppressed r b) = br_pose_source b"
  "br_conn (note_freshness f b) = br_conn b"
  by (simp_all add: note_freshness_def note_suppressed_def)

lemma bridge_start_facts:
  assumes "bridge_start b d = (r, b', d')"
  shows "dv_trace d' = dv_trace d \<and> br_heartbeat b' = br_heartbeat b \<and>
    br_pose_source b' = br_pose_source b"
  using assms by (auto simp: bridge_start_def trace_after split: if_splits prod.splits sum.splits)

lemma monitor_report_facts:
  assumes "monitor_report m d = (rep, d')"
  shows "\<exists>es. dv_trace d' = dv_trace d @ es \<and> call_free es \<and>
    (mr_fresh rep \<longrightarrow> (\<exists>l t. mo_last m = Some l \<and> es = [EClock t] \<and> t - l \<le> mo_max_age_s m))"
proof (cases "mo_last m")
  case None
  with assms show ?thesis by (auto simp: monitor_report_def)
next
  case (Some l)
  obtain t d1 where c: "mono_now d = (t, d1)" by fastforce
  then have tr: "dv_trace d1 = dv_trace d @ [EClock t]" by (rule trace_after)
  from assms Some c have "rep = \<lparr>mr_fresh = t - l \<le> mo_max_age_s m,
      mr_reasons = (if t - l \<le> mo_max_age_s m then [] else [''heartbeat_stale'']),
      mr_last_beat_t = Some l\<rparr>" "d' = d1"
    by (auto simp: monitor_report_def Let_def)
  with tr Some show ?thesis by auto
qed

lemma monitor_beat_None:
  assumes "monitor_beat None m d = (m', d')"
  shows "\<exists>t. m' = m\<lparr>mo_last := Some t\<rparr> \<and> dv_trace d' = dv_trace d @ [EClock t]"
  using assms by (auto simp: monitor_beat_def trace_after split: prod.splits)

lemma poll_link_facts:
  assumes "poll_link S m b d = (c, m', b', d')" and "br_heartbeat b = Some m"
    and "beats_heard S b (dv_trace d)"
  shows "\<exists>es. dv_trace d' = dv_trace d @ es \<and> call_free es \<and> mo_max_age_s m' = mo_max_age_s m \<and>
    beats_heard S (b'\<lparr>br_heartbeat := Some m'\<rparr>) (dv_trace d') \<and> br_heartbeat b' = br_heartbeat b"
proof -
  have start: "(if br_conn b then (Inr (), b, d) else bridge_start b d) = bridge_start b d"
    by (simp add: bridge_start_def)
  obtain r b1 d1 where st: "bridge_start b d = (r, b1, d1)" by (cases "bridge_start b d") auto
  note f1 = bridge_start_facts [OF st]
  have same: "beats_heard S (b1\<lparr>br_heartbeat := Some m\<rparr>) (dv_trace d1 @ es)" for es
    using beats_heard_append [OF assms(3), of es] assms(2) f1 by (simp add: beats_heard_def)
  show ?thesis
  proof (cases "(\<exists>e. r = Inl e) \<or> \<not> br_conn b1")
    case True
    then have "m' = m" "b' = b1" "d' = d1"
      using assms(1) st unfolding poll_link_def start by (auto split: sum.splits)
    with same [of "[]"] f1 show ?thesis by auto
  next
    case False
    then obtain u where r: "r = Inr u" by (cases r) auto
    obtain x d2 where rc: "recv_heartbeat d1 = (x, d2)" by fastforce
    have t2: "dv_trace d2 = dv_trace d1 @ (case x of Inr (Some m) \<Rightarrow> [EHeard m] | _ \<Rightarrow> [])"
      using rc by (rule trace_after)
    have idle: "?thesis" if "m' = m" "b' = b1" "d' = d2"
      using that same f1 t2 by (auto split: sum.splits option.splits)
    show ?thesis
    proof (cases "\<exists>msg. x = Inr (Some msg) \<and> is_target_heartbeat S msg = Inr True")
      case False
      then show ?thesis
        using assms(1) st rc r \<open>\<not> (_ \<or> _)\<close> unfolding poll_link_def start
        by (intro idle) (auto split: sum.splits option.splits if_splits)
    next
      case True
      then obtain msg where x: "x = Inr (Some msg)" "is_target_heartbeat S msg = Inr True" by blast
      obtain m2 d3 where mb: "monitor_beat None m d2 = (m2, d3)" by fastforce
      from monitor_beat_None [OF this] obtain t
        where t: "m2 = m\<lparr>mo_last := Some t\<rparr>" "dv_trace d3 = dv_trace d2 @ [EClock t]" by blast
      have "m' = m2" "b' = b1" "d' = d3"
        using assms(1) st rc r x mb \<open>\<not> (_ \<or> _)\<close> unfolding poll_link_def start by auto
      then show ?thesis using t x t2 f1 by (auto simp: beats_heard_def)
    qed
  qed
qed

lemma poll_heartbeat_facts:
  assumes "poll_heartbeat S b d = (c, b', d')" and "beats_heard S b (dv_trace d)"
  shows "\<exists>es. dv_trace d' = dv_trace d @ es \<and> call_free es \<and> gate_age b' = gate_age b \<and>
    beats_heard S b' (dv_trace d')"
proof (cases "br_heartbeat b")
  case None
  with assms show ?thesis by (auto simp: poll_heartbeat_def)
next
  case (Some m)
  obtain c1 m1 b1 d1 where p: "poll_link S m b d = (c1, m1, b1, d1)" by (cases "poll_link S m b d") auto
  obtain rep d2 where rp: "monitor_report m1 d1 = (rep, d2)" by fastforce
  have b': "b' = note_freshness (mr_fresh rep) (b1\<lparr>br_heartbeat := Some m1\<rparr>)" "d' = d2"
    using assms(1) Some p rp by (simp_all add: poll_heartbeat_def)
  from poll_link_facts [OF p Some assms(2)] obtain es where es: "dv_trace d1 = dv_trace d @ es"
    "call_free es" "mo_max_age_s m1 = mo_max_age_s m"
    "beats_heard S (b1\<lparr>br_heartbeat := Some m1\<rparr>) (dv_trace d1)" by blast
  from monitor_report_facts [OF rp] obtain es2 where es2: "dv_trace d2 = dv_trace d1 @ es2" "call_free es2"
    by blast
  have "beats_heard S b' (dv_trace d')"
    using beats_heard_append [OF es(4), of es2] unfolding es2(1) [symmetric] b'(2)
    by (simp add: b'(1) beats_heard_def)
  with es es2 b' Some show ?thesis by (simp add: gate_age_def)
qed

text \<open>Which message a publication can hand to the connection.\<close>

definition admissible_target ::
  "mavlink_settings \<Rightarrow> bridge \<Rightarrow> seen_object \<Rightarrow> detection_result \<Rightarrow> landing_target \<Rightarrow> bool" where
  "admissible_target S b det res m \<longleftrightarrow>
     (case ms_frame S of
        BodyFrd \<Rightarrow> \<exists>time. m = body_frd_target S det res time
      | LocalNed \<Rightarrow> \<exists>time. local_ned_target S det res time b = Inr m)"

lemma bridge_transmit_facts:
  assumes "bridge_transmit S det res ct b d = (r, b', d')"
  shows "br_heartbeat b' = br_heartbeat b \<and>
    (dv_trace d' = dv_trace d \<or>
     (\<exists>m. dv_trace d' = dv_trace d @ [ECall m] \<and> admissible_target S b det res m))"
proof -
  obtain r1 b1 d1 where st: "bridge_start b d = (r1, b1, d1)" by (cases "bridge_start b d") auto
  note f1 = bridge_start_facts [OF st]
  obtain u d2 where tm: "compute_time_usec S ct b1 d1 = (u, d2)" by fastforce
  have t2: "dv_trace d2 = dv_trace d1"
    using tm by (auto simp: trace_after compute_time_usec_def split: time_source.splits option.splits bool.splits prod.splits)
  define msg where "msg = (case ms_frame S of LocalNed \<Rightarrow> local_ned_target S det res u b1
    | BodyFrd \<Rightarrow> Inr (body_frd_target S det res u))"
  have adm: "admissible_target S b det res m" if "msg = Inr m" for m
    using that f1 by (auto simp: msg_def admissible_target_def local_ned_target_def split: lt_frame_kind.splits)
  have run: "bridge_transmit S det res ct b d =
    (case r1 of Inl e \<Rightarrow> (Inl (JetsonRaised e), b1, d1)
     | Inr _ \<Rightarrow> if \<not> br_conn b1 then (Inl MavlinkError, b1, d1)
         else (case msg of Inl reason \<Rightarrow> (Inr False, note_suppressed reason b1, d2)
           | Inr m \<Rightarrow> (case landing_target_send m d2 of
                 (Inl e, d3) \<Rightarrow> (Inl (JetsonRaised e), b1, d3)
               | (Inr _, d3) \<Rightarrow> (Inr True, b1\<lparr>br_suppressed_count := 0\<rparr>, d3))))"
    by (cases r1) (simp_all add: bridge_transmit_def st tm msg_def)
  show ?thesis
  proof (cases msg)
    case (Inl a)
    with assms f1 t2 show ?thesis unfolding run by (auto split: sum.splits if_splits)
  next
    case (Inr m)
    obtain x d3 where sd: "landing_target_send m d2 = (x, d3)" by fastforce
    have "dv_trace d3 = dv_trace d2 @ [ECall m]" using sd by (rule trace_after)
    with assms f1 t2 Inr sd adm [OF Inr] show ?thesis unfolding run by (auto split: sum.splits if_splits)
  qed
qed

text \<open>A publication hands over at most one message, only where the feature is enabled, and behind
  the gate only right after a clock reading that finds the last beat fresh.\<close>

lemma bridge_publish_facts:
  assumes "bridge_publish S det res ct b d = (r, b', d')"
  shows "br_heartbeat b' = br_heartbeat b \<and>
    (\<exists>es. dv_trace d' = dv_trace d @ es \<and>
      (call_free es \<or>
       (\<exists>pre m. es = pre @ [ECall m] \<and> call_free pre \<and> ms_enable_landing_target S \<and>
          admissible_target S b det res m \<and>
          (\<forall>mo. br_heartbeat b = Some mo \<longrightarrow>
            (\<exists>l t. mo_last mo = Some l \<and> pre = [EClock t] \<and> t - l \<le> mo_max_age_s mo)))))"
proof (cases "ms_enable_landing_target S")
  case False
  with assms show ?thesis by (auto simp: bridge_publish_def)
next
  case en: True
  show ?thesis
  proof (cases "br_heartbeat b")
    case None
    with assms en have "bridge_transmit S det res ct b d = (r, b', d')" by (simp add: bridge_publish_def)
    from bridge_transmit_facts [OF this] en None show ?thesis by force
  next
    case (Some mo)
    obtain rep d1 where rp: "monitor_report mo d = (rep, d1)" by fastforce
    from monitor_report_facts [OF rp] obtain es where es: "dv_trace d1 = dv_trace d @ es" "call_free es"
      "mr_fresh rep \<longrightarrow> (\<exists>l t. mo_last mo = Some l \<and> es = [EClock t] \<and> t - l \<le> mo_max_age_s mo)" by blast
    show ?thesis
    proof (cases "mr_fresh rep")
      case False
      with assms en Some rp es show ?thesis by (auto simp: bridge_publish_def)
    next
      case True
      with assms en Some rp have "bridge_transmit S det res ct b d1 = (r, b', d')"
        by (simp add: bridge_publish_def)
      from bridge_transmit_facts [OF this] en Some es True show ?thesis by force
    qed
  qed
qed

end
