(* ===== verification/Vision_Pipeline.thy ===== *)
theory Vision_Pipeline
  imports Landing_Target
begin

text \<open>
  The loop of the perception unit (\<^verbatim>\<open>jetson_yolo_gcs/pipeline.py\<close>): a frame is read, objects are
  detected in it, tracks are counted, the frame is streamed and a landing target is published.
  With it the frame-rate estimate (\<^verbatim>\<open>utils/fps.py\<close>) and the selection of the target.
\<close>

section \<open>Frame rate\<close>

record fps_counter =
  fp_window :: nat
  fp_times :: "real list"

definition new_fps :: "int \<Rightarrow> py_exn + fps_counter" where
  "new_fps window =
     (if window < 2 then Inl ValueError else Inr \<lparr>fp_window = nat window, fp_times = []\<rparr>)"

definition fps_rate :: "fps_counter \<Rightarrow> real" where
  "fps_rate F =
     (if length (fp_times F) < 2 then 0
      else let elapsed = List.last (fp_times F) - hd (fp_times F)
           in if elapsed \<le> 0 then 0 else (real (length (fp_times F)) - 1) / elapsed)"

definition fps_tick :: "fps_counter \<Rightarrow> devices \<Rightarrow> real \<times> fps_counter \<times> devices" where
  "fps_tick F d =
     (case mono_now d of (t, d1) \<Rightarrow>
        let F1 = F\<lparr>fp_times := deque_append (fp_window F) (fp_times F) t\<rparr> in (fps_rate F1, F1, d1))"

section \<open>State\<close>

record pipeline_config =
  pc_target_classes :: "string set option"
  pc_liveness_timeout_s :: real
  pc_min_publish_rate_hz :: real
  pc_publish_failure_tolerance :: int
  pc_has_stream :: bool
  pc_has_tracker :: bool

record vision_state =
  pl_bridge :: "bridge option"
  pl_fps :: fps_counter
  dropped_detections :: nat
  dropped_stream :: nat
  lt_published :: nat
  lt_suppressed :: nat
  lt_cadence_violations :: nat
  lt_publish_failures :: nat
  consecutive_failures :: nat
  last_publish_t :: "real option"
  last_frame_t :: "real option"
  tracks_active :: nat
  tracks_total :: nat
  dropped_tracks :: nat
  max_track_id :: "int option"

definition new_vision ::
  "bridge option \<Rightarrow> real \<Rightarrow> int \<Rightarrow> real \<Rightarrow> int \<Rightarrow> int \<Rightarrow> py_exn + vision_state" where
  "new_vision b liveness drop_log_every min_rate tolerance fps_window =
     (if liveness \<le> 0 \<or> drop_log_every < 1 \<or> min_rate \<le> 0 \<or> tolerance < 0 then Inl ValueError
      else then_ok (new_fps fps_window) (\<lambda>F. Inr
        \<lparr>pl_bridge = b, pl_fps = F, dropped_detections = 0, dropped_stream = 0, lt_published = 0,
         lt_suppressed = 0, lt_cadence_violations = 0, lt_publish_failures = 0,
         consecutive_failures = 0, last_publish_t = None, last_frame_t = None,
         tracks_active = 0, tracks_total = 0, dropped_tracks = 0, max_track_id = None\<rparr>))"

section \<open>Selection, tracks\<close>

text \<open>\<^verbatim>\<open>max(xs, key=confidence, default=None)\<close>: the first of the most confident.\<close>

definition most_confident :: "seen_object list \<Rightarrow> seen_object option" where
  "most_confident xs =
     (case xs of [] \<Rightarrow> None
      | x # ys \<Rightarrow> Some (foldl (\<lambda>b y. if so_confidence b < so_confidence y then y else b) x ys))"

definition select_target :: "pipeline_config \<Rightarrow> detection_result \<Rightarrow> seen_object option" where
  "select_target C res =
     (case pc_target_classes C of
        None \<Rightarrow> most_confident (dr_detections res)
      | Some cls \<Rightarrow> most_confident (filter (\<lambda>o'. so_class_name o' \<in> cls) (dr_detections res)))"

text \<open>What the tracker answered, as the ids of its confirmed tracks.\<close>

definition note_tracks :: "py_exn + int list \<Rightarrow> vision_state \<Rightarrow> vision_state" where
  "note_tracks r P =
     (case r of
        Inl _ \<Rightarrow> P\<lparr>dropped_tracks := Suc (dropped_tracks P)\<rparr>
      | Inr ids \<Rightarrow>
          let prev_max = max_track_id P
          in foldl (\<lambda>Q t.
                let Q1 = (if prev_max = None \<or> the prev_max < t then Q\<lparr>tracks_total := Suc (tracks_total Q)\<rparr> else Q)
                in if max_track_id Q1 = None \<or> the (max_track_id Q1) < t
                   then Q1\<lparr>max_track_id := Some t\<rparr> else Q1)
             (P\<lparr>tracks_active := length ids\<rparr>) ids)"

definition update_tracks :: "vision_state \<Rightarrow> devices \<Rightarrow> vision_state \<times> devices" where
  "update_tracks P d =
     (case ask (dv_tracker d) of (r, q) \<Rightarrow> (note_tracks r P, d\<lparr>dv_tracker := q\<rparr>))"

section \<open>Publishing\<close>

definition note_cadence :: "pipeline_config \<Rightarrow> vision_state \<Rightarrow> devices \<Rightarrow> vision_state \<times> devices" where
  "note_cadence C P d =
     (case mono_now d of (now, d1) \<Rightarrow>
        let late = (case last_publish_t P of
              None \<Rightarrow> False
            | Some l \<Rightarrow> 0 < pc_min_publish_rate_hz C \<and> 1 / pc_min_publish_rate_hz C < now - l);
            P1 = (if late then P\<lparr>lt_cadence_violations := Suc (lt_cadence_violations P)\<rparr> else P)
        in (P1\<lparr>last_publish_t := Some now\<rparr>, d1))"

text \<open>What \<^verbatim>\<open>_publish_target\<close> makes of the outcome of a publication.\<close>

definition account_publish ::
  "pipeline_config \<Rightarrow> jetson_exn + bool \<Rightarrow> vision_state \<Rightarrow> devices \<Rightarrow> (jetson_exn + unit) \<times> vision_state \<times> devices" where
  "account_publish C outcome P d =
     (case outcome of
        Inl e \<Rightarrow>
          let P1 = P\<lparr>lt_publish_failures := Suc (lt_publish_failures P),
                     consecutive_failures := Suc (consecutive_failures P)\<rparr>
          in (if pc_publish_failure_tolerance C < int (consecutive_failures P1) then Inl e else Inr (), P1, d)
      | Inr sent \<Rightarrow>
          if \<not> sent then (Inr (), P\<lparr>lt_suppressed := Suc (lt_suppressed P)\<rparr>, d)
          else
            let P1 = P\<lparr>consecutive_failures := 0, lt_published := Suc (lt_published P)\<rparr>
            in case note_cadence C P1 d of (P2, d1) \<Rightarrow> (Inr (), P2, d1))"

definition publish_target ::
  "pipeline_config \<Rightarrow> mavlink_settings \<Rightarrow> seen_object \<Rightarrow> detection_result \<Rightarrow> real \<Rightarrow> bridge \<Rightarrow>
     vision_state \<Rightarrow> devices \<Rightarrow> (jetson_exn + unit) \<times> vision_state \<times> devices" where
  "publish_target C S target res capture_t b P d =
     (case bridge_publish S target res (Some capture_t) b d of
        (outcome, b1, d1) \<Rightarrow> account_publish C outcome (P\<lparr>pl_bridge := Some b1\<rparr>) d1)"

section \<open>One step\<close>

definition write_stream :: "vision_state \<Rightarrow> devices \<Rightarrow> vision_state \<times> devices" where
  "write_stream P d =
     (case ask (dv_stream d) of (r, q) \<Rightarrow>
        ((if r = None then P else P\<lparr>dropped_stream := Suc (dropped_stream P)\<rparr>), d\<lparr>dv_stream := q\<rparr>))"

definition drive_bridge ::
  "pipeline_config \<Rightarrow> mavlink_settings \<Rightarrow> detection_result \<Rightarrow> real \<Rightarrow> vision_state \<Rightarrow> devices \<Rightarrow>
     (jetson_exn + bool) \<times> vision_state \<times> devices" where
  "drive_bridge C S res capture_t P d =
     (case pl_bridge P of
        None \<Rightarrow> (Inr True, P, d)
      | Some b \<Rightarrow>
          (case poll_heartbeat S b d of (_, b1, d1) \<Rightarrow>
             let P1 = P\<lparr>pl_bridge := Some b1\<rparr>
             in case select_target C res of
                  None \<Rightarrow> (Inr True, P1, d1)
                | Some target \<Rightarrow>
                    (case publish_target C S target res capture_t b1 P1 d1 of
                       (Inl e, P2, d2) \<Rightarrow> (Inl e, P2, d2)
                     | (Inr _, P2, d2) \<Rightarrow> (Inr True, P2, d2))))"

definition handle_frame ::
  "pipeline_config \<Rightarrow> mavlink_settings \<Rightarrow> camera_frame \<Rightarrow> vision_state \<Rightarrow> devices \<Rightarrow>
     (jetson_exn + bool) \<times> vision_state \<times> devices" where
  "handle_frame C S frame P d =
     (case ask (dv_detector d) of (r, q) \<Rightarrow>
        let d1 = d\<lparr>dv_detector := q\<rparr>
        in case r of
             Inl DetectionError \<Rightarrow> (Inr True, P\<lparr>dropped_detections := Suc (dropped_detections P)\<rparr>, d1)
           | Inl e \<Rightarrow> (Inl e, P, d1)
           | Inr res \<Rightarrow>
               (case (if pc_has_tracker C then update_tracks P d1 else (P, d1)) of (P1, d2) \<Rightarrow>
                case (if pc_has_stream C then write_stream P1 d2 else (P1, d2)) of (P2, d3) \<Rightarrow>
                  drive_bridge C S res (cf_t frame) P2 d3))"

definition pipeline_step ::
  "pipeline_config \<Rightarrow> mavlink_settings \<Rightarrow> vision_state \<Rightarrow> devices \<Rightarrow> (jetson_exn + bool) \<times> vision_state \<times> devices" where
  "pipeline_step C S P d =
     (case ask (dv_camera d) of (r, q) \<Rightarrow>
        let d1 = d\<lparr>dv_camera := q\<rparr>
        in case r of
             Inl e \<Rightarrow> (Inl e, P, d1)
           | Inr None \<Rightarrow> (Inr False, P, d1)
           | Inr (Some frame) \<Rightarrow>
               (case fps_tick (pl_fps P) d1 of (_, F, d2) \<Rightarrow>
                case mono_now d2 of (t, d3) \<Rightarrow>
                  handle_frame C S frame (P\<lparr>pl_fps := F, last_frame_t := Some t\<rparr>) d3))"

section \<open>The loop\<close>

text \<open>
  \<^verbatim>\<open>run\<close> may go on for ever, so its result is an option: \<open>None\<close> is a run that does not return.
  \<^verbatim>\<open>request_stop\<close> comes from a signal handler: whether the stop was requested is a device's answer.
\<close>

partial_function (option) pipeline_run ::
  "pipeline_config \<Rightarrow> mavlink_settings \<Rightarrow> int option \<Rightarrow> int option \<Rightarrow> int \<Rightarrow> int \<Rightarrow> vision_state \<Rightarrow> devices \<Rightarrow>
     ((jetson_exn + int) \<times> vision_state \<times> devices) option" where
  "pipeline_run C S max_iterations max_empty processed empties st d =
     (if (case max_iterations of None \<Rightarrow> False | Some n \<Rightarrow> n \<le> processed) then Some (Inr processed, st, d)
      else case ask (dv_stop d) of (stop, q) \<Rightarrow>
        if stop then Some (Inr processed, st, d\<lparr>dv_stop := q\<rparr>)
        else case pipeline_step C S st (d\<lparr>dv_stop := q\<rparr>) of
          (Inl e, P1, d1) \<Rightarrow> Some (Inl e, P1, d1)
        | (Inr got_frame, P1, d1) \<Rightarrow>
            if got_frame then pipeline_run C S max_iterations max_empty (processed + 1) 0 P1 d1
            else if (case max_empty of None \<Rightarrow> False | Some n \<Rightarrow> n \<le> empties + 1)
            then Some (Inr processed, P1, d1)
            else pipeline_run C S max_iterations max_empty processed (empties + 1) P1 d1)"

declare pipeline_run.simps [code]

lemmas pipeline_run_returns = pipeline_run.raw_induct [rotated, consumes 1, case_names step]

section \<open>Health snapshot\<close>

text \<open>\<^verbatim>\<open>round(x, n)\<close>, up to the last bit of the decimal fraction.\<close>

definition round_to :: "nat \<Rightarrow> real \<Rightarrow> real" where
  "round_to n x = real_of_int (py_round (x * 10 ^ n)) / 10 ^ n"

record vision_snapshot =
  vs_fps :: real
  vs_counters :: vision_state
  vs_suppressed_by_reason :: "string \<rightharpoonup> nat"
  vs_heartbeat_fresh :: "bool option"
  vs_last_frame_age_s :: "real option"
  vs_live :: bool

definition vision_snapshot_of ::
  "pipeline_config \<Rightarrow> real option \<Rightarrow> vision_state \<Rightarrow> devices \<Rightarrow> vision_snapshot \<times> devices" where
  "vision_snapshot_of C max_age P d =
     (let threshold = (case max_age of None \<Rightarrow> pc_liveness_timeout_s C | Some a \<Rightarrow> a)
      in case (case last_frame_t P of
                 None \<Rightarrow> (None, d)
               | Some l \<Rightarrow> (case mono_now d of (t, d1) \<Rightarrow> (Some (t - l), d1))) of
           (age, d1) \<Rightarrow>
             (case (case pl_bridge P of
                      None \<Rightarrow> (None, Map.empty, d1)
                    | Some b \<Rightarrow> (case heartbeat_status b d1 of
                        (rep, d2) \<Rightarrow> (map_option mr_fresh rep, br_suppressed b, d2))) of
                (fresh, reasons, d2) \<Rightarrow>
                  (\<lparr>vs_fps = round_to 2 (fps_rate (pl_fps P)), vs_counters = P,
                    vs_suppressed_by_reason = reasons, vs_heartbeat_fresh = fresh,
                    vs_last_frame_age_s = map_option (round_to 3) age,
                    vs_live = (case age of None \<Rightarrow> False | Some a \<Rightarrow> a \<le> threshold)\<rparr>, d2)))"

section \<open>Every call has a heartbeat behind it\<close>

text \<open>What is known at a point of the trace: the target was heard, and by the last reading of the
  clock its heartbeat, time-stamped as it was heard, is no older than \<open>T\<close>.\<close>

definition fresh_beat :: "mavlink_settings \<Rightarrow> real \<Rightarrow> device_event list \<Rightarrow> bool" where
  "fresh_beat S T tr \<longleftrightarrow>
     (\<exists>pre msg t0 rest. tr = pre @ EHeard msg # EClock t0 # rest \<and>
        is_target_heartbeat S msg = Inr True \<and> clock_readings rest \<noteq> [] \<and>
        List.last (clock_readings rest) - t0 \<le> T)"

definition calls_backed :: "mavlink_settings \<Rightarrow> real option \<Rightarrow> device_event list \<Rightarrow> bool" where
  "calls_backed S A tr \<longleftrightarrow>
     (\<forall>i m. i < length tr \<and> tr ! i = ECall m \<longrightarrow>
        ms_enable_landing_target S \<and> (\<forall>T. A = Some T \<longrightarrow> fresh_beat S T (take i tr)))"

lemma calls_backed_append:
  assumes "calls_backed S A tr"
    and "\<And>i m. i < length es \<Longrightarrow> es ! i = ECall m \<Longrightarrow>
      ms_enable_landing_target S \<and> (\<forall>T. A = Some T \<longrightarrow> fresh_beat S T (tr @ take i es))"
  shows "calls_backed S A (tr @ es)"
  unfolding calls_backed_def
proof (intro allI impI)
  fix i m
  assume i: "i < length (tr @ es) \<and> (tr @ es) ! i = ECall m"
  show "ms_enable_landing_target S \<and> (\<forall>T. A = Some T \<longrightarrow> fresh_beat S T (take i (tr @ es)))"
  proof (cases "i < length tr")
    case True
    with i have "tr ! i = ECall m" by (simp add: nth_append)
    with assms(1) True show ?thesis unfolding calls_backed_def by (simp only: take_append) auto
  next
    case False
    with i have j: "i - length tr < length es" "es ! (i - length tr) = ECall m"
      by (auto simp: nth_append)
    with False assms(2) [OF j] show ?thesis by (simp add: take_append)
  qed
qed

definition vision_inv :: "mavlink_settings \<Rightarrow> real option \<Rightarrow> vision_state \<Rightarrow> devices \<Rightarrow> bool" where
  "vision_inv S A P d \<longleftrightarrow>
     (\<forall>b. pl_bridge P = Some b \<longrightarrow> gate_age b = A \<and> beats_heard S b (dv_trace d)) \<and>
     calls_backed S A (dv_trace d)"

lemma vision_inv_extend:
  assumes "vision_inv S A P d" "pl_bridge P' = pl_bridge P" "dv_trace d' = dv_trace d @ es" "call_free es"
  shows "vision_inv S A P' d'"
proof -
  have "calls_backed S A (dv_trace d @ es)"
    using assms(1,4) by (intro calls_backed_append) (auto simp: vision_inv_def call_free_def dest: nth_mem)
  then show ?thesis using assms(1-3) by (auto simp: vision_inv_def)
qed

lemma vision_inv_same:
  "vision_inv S A P d \<Longrightarrow> pl_bridge P' = pl_bridge P \<Longrightarrow> dv_trace d' = dv_trace d \<Longrightarrow> vision_inv S A P' d'"
  by (rule vision_inv_extend [where es = "[]"]) simp_all

lemma note_tracks_bridge [simp]: "pl_bridge (note_tracks r P) = pl_bridge P"
proof -
  have "pl_bridge (foldl (\<lambda>Q t.
      let Q1 = (if c t then Q\<lparr>tracks_total := Suc (tracks_total Q)\<rparr> else Q)
      in if max_track_id Q1 = None \<or> the (max_track_id Q1) < t then Q1\<lparr>max_track_id := Some t\<rparr> else Q1)
    Q ids) = pl_bridge Q" for Q :: vision_state and ids c
    by (induction ids arbitrary: Q) (auto simp: Let_def)
  then show ?thesis by (auto simp: note_tracks_def Let_def split: sum.split)
qed

lemma vision_inv_tracks:
  "vision_inv S A P d \<Longrightarrow> update_tracks P d = (P', d') \<Longrightarrow> vision_inv S A P' d'"
  by (erule vision_inv_same) (auto simp: update_tracks_def ask_def)

lemma vision_inv_stream:
  "vision_inv S A P d \<Longrightarrow> write_stream P d = (P', d') \<Longrightarrow> vision_inv S A P' d'"
  by (erule vision_inv_same) (auto simp: write_stream_def ask_def)

lemma account_publish_facts:
  assumes "account_publish C outcome P d = (r, P', d')"
  shows "pl_bridge P' = pl_bridge P \<and> (\<exists>es. dv_trace d' = dv_trace d @ es \<and> call_free es)"
proof (cases "outcome = Inr True")
  case True
  obtain t d1 where c: "mono_now d = (t, d1)" by fastforce
  have "dv_trace d1 = dv_trace d @ [EClock t]" using c by (rule trace_after)
  with assms True c show ?thesis
    by (auto simp: account_publish_def note_cadence_def Let_def)
next
  case False
  with assms show ?thesis
    by (auto simp: account_publish_def Let_def split: sum.splits if_splits)
qed

lemma vision_inv_account:
  assumes "vision_inv S A P d" "account_publish C outcome P d = (r, P', d')"
  shows "vision_inv S A P' d'"
  using account_publish_facts [OF assms(2)] vision_inv_extend [OF assms(1)] by blast

lemma vision_inv_publish:
  assumes "vision_inv S A P d" "pl_bridge P = Some b"
    and "publish_target C S target res ct b P d = (r, P', d')"
  shows "vision_inv S A P' d'"
proof -
  obtain out b1 d1 where pb: "bridge_publish S target res (Some ct) b d = (out, b1, d1)"
    by (cases "bridge_publish S target res (Some ct) b d") auto
  note facts = bridge_publish_facts [OF pb]
  have hb: "br_heartbeat b1 = br_heartbeat b" using facts by (rule conjunct1)
  obtain es where es_facts: "dv_trace d1 = dv_trace d @ es \<and> (call_free es \<or> (\<exists>pre m. es = pre @ [ECall m] \<and> call_free pre \<and>
       ms_enable_landing_target S \<and> admissible_target S b target res m \<and>
       (\<forall>mo. br_heartbeat b = Some mo \<longrightarrow>
          (\<exists>l t. mo_last mo = Some l \<and> pre = [EClock t] \<and> t - l \<le> mo_max_age_s mo))))"
    using conjunct2 [OF facts] by (rule exE)
  note tr = conjunct1 [OF es_facts] and cases_es = conjunct2 [OF es_facts]
  have age: "gate_age b = A" and heard: "beats_heard S b (dv_trace d)" and old: "calls_backed S A (dv_trace d)"
    using assms(1,2) by (auto simp: vision_inv_def)
  have "calls_backed S A (dv_trace d @ es)"
  proof (rule calls_backed_append [OF old])
    fix i m assume i: "i < length es" "es ! i = ECall m"
    from cases_es i have "\<not> call_free es" using nth_mem unfolding call_free_def by metis
    with cases_es obtain pre m' where es: "es = pre @ [ECall m']" "call_free pre" "ms_enable_landing_target S"
      and fr: "\<forall>mo. br_heartbeat b = Some mo \<longrightarrow>
          (\<exists>l t. mo_last mo = Some l \<and> pre = [EClock t] \<and> t - l \<le> mo_max_age_s mo)" by blast
    have "i = length pre"
    proof (rule ccontr)
      assume "i \<noteq> length pre"
      with i es(1) have "i < length pre" "pre ! i = ECall m" by (auto simp: nth_append)
      with es(2) show False unfolding call_free_def by (metis nth_mem)
    qed
    with es(1) have at: "take i es = pre" by simp
    have "fresh_beat S T (dv_trace d @ pre)" if "A = Some T" for T
    proof -
      from age that obtain mo where mo: "br_heartbeat b = Some mo" "mo_max_age_s mo = T"
        by (auto simp: gate_age_def)
      from fr mo obtain l t where l: "mo_last mo = Some l" "pre = [EClock t]" "t - l \<le> T" by blast
      from heard mo l obtain p msg q where "dv_trace d = p @ EHeard msg # EClock l # q"
        "is_target_heartbeat S msg = Inr True" by (auto simp: beats_heard_def)
      with l show ?thesis unfolding fresh_beat_def
        by (intro exI [of _ p] exI [of _ msg], intro exI [of _ l] exI [of _ "q @ [EClock t]"]) simp
    qed
    with es at show "ms_enable_landing_target S \<and>
        (\<forall>T. A = Some T \<longrightarrow> fresh_beat S T (dv_trace d @ take i es))" by simp
  qed
  then have "vision_inv S A (P\<lparr>pl_bridge := Some b1\<rparr>) d1"
    using age heard hb by (auto simp: vision_inv_def tr gate_age_def beats_heard_cong [of b1 b])
  moreover have "account_publish C out (P\<lparr>pl_bridge := Some b1\<rparr>) d1 = (r, P', d')"
    using assms(3) pb by (simp add: publish_target_def)
  ultimately show ?thesis by (rule vision_inv_account)
qed

lemma vision_inv_drive:
  assumes "vision_inv S A P d" "drive_bridge C S res ct P d = (r, P', d')"
  shows "vision_inv S A P' d'"
proof (cases "pl_bridge P")
  case None
  with assms show ?thesis by (simp add: drive_bridge_def)
next
  case (Some b)
  obtain c b1 d1 where pb: "poll_heartbeat S b d = (c, b1, d1)" by (cases "poll_heartbeat S b d") auto
  from assms(1) Some have "beats_heard S b (dv_trace d)" "gate_age b = A" by (auto simp: vision_inv_def)
  from poll_heartbeat_facts [OF pb this(1)] this(2) obtain es where es: "dv_trace d1 = dv_trace d @ es"
    "call_free es" "gate_age b1 = A" "beats_heard S b1 (dv_trace d1)" by auto
  have "calls_backed S A (dv_trace d @ es)"
    using assms(1) es(2) by (intro calls_backed_append) (auto simp: vision_inv_def call_free_def dest: nth_mem)
  then have v: "vision_inv S A (P\<lparr>pl_bridge := Some b1\<rparr>) d1" using es by (simp add: vision_inv_def)
  show ?thesis
  proof (cases "select_target C res")
    case None
    with assms(2) Some pb v show ?thesis by (simp add: drive_bridge_def Let_def)
  next
    case (Some target)
    obtain r2 P2 d2 where pt: "publish_target C S target res ct b1 (P\<lparr>pl_bridge := Some b1\<rparr>) d1 = (r2, P2, d2)"
      by (cases "publish_target C S target res ct b1 (P\<lparr>pl_bridge := Some b1\<rparr>) d1") auto
    have "P' = P2" "d' = d2"
      using assms(2) \<open>pl_bridge P = Some b\<close> pb Some pt
      by (auto simp: drive_bridge_def Let_def split: sum.splits)
    with vision_inv_publish [OF v _ pt] show ?thesis by simp
  qed
qed

lemma vision_inv_handle:
  assumes "vision_inv S A P d" "handle_frame C S frame P d = (r, P', d')"
  shows "vision_inv S A P' d'"
proof -
  obtain x q where a: "ask (dv_detector d) = (x, q)" by (cases "ask (dv_detector d)")
  let ?d1 = "d\<lparr>dv_detector := q\<rparr>"
  have v1: "vision_inv S A P ?d1" by (rule vision_inv_same [OF assms(1)]) simp_all
  show ?thesis
  proof (cases x)
    case (Inl e)
    have "d' = ?d1" "pl_bridge P' = pl_bridge P"
      using assms(2) a Inl by (auto simp: handle_frame_def Let_def split: jetson_exn.splits)
    with v1 show ?thesis by (intro vision_inv_same [OF v1]) simp_all
  next
    case (Inr res)
    obtain P1 d2 where p1: "(if pc_has_tracker C then update_tracks P ?d1 else (P, ?d1)) = (P1, d2)" by fastforce
    obtain P2 d3 where p2: "(if pc_has_stream C then write_stream P1 d2 else (P1, d2)) = (P2, d3)" by fastforce
    have v2: "vision_inv S A P1 d2" using p1 v1 vision_inv_tracks [OF v1] by (auto split: if_splits)
    have v3: "vision_inv S A P2 d3" using p2 v2 vision_inv_stream [OF v2] by (auto split: if_splits)
    have "drive_bridge C S res (cf_t frame) P2 d3 = (r, P', d')"
      using assms(2) a Inr p1 p2 by (simp add: handle_frame_def Let_def)
    with v3 show ?thesis by (rule vision_inv_drive)
  qed
qed

lemma vision_inv_step:
  assumes "vision_inv S A P d" "pipeline_step C S P d = (r, P', d')"
  shows "vision_inv S A P' d'"
proof -
  obtain x q where a: "ask (dv_camera d) = (x, q)" by (cases "ask (dv_camera d)")
  let ?d1 = "d\<lparr>dv_camera := q\<rparr>"
  have v1: "vision_inv S A P ?d1" by (rule vision_inv_same [OF assms(1)]) simp_all
  show ?thesis
  proof (cases "\<exists>frame. x = Inr (Some frame)")
    case False
    then have "P' = P" "d' = ?d1"
      using assms(2) a by (auto simp: pipeline_step_def Let_def split: sum.splits option.splits)
    with v1 show ?thesis by simp
  next
    case True
    then obtain frame where x: "x = Inr (Some frame)" by blast
    obtain u F d2 where tk: "fps_tick (pl_fps P) ?d1 = (u, F, d2)" by (cases "fps_tick (pl_fps P) ?d1") auto
    obtain t d3 where nw: "mono_now d2 = (t, d3)" by fastforce
    obtain t0 where "dv_trace d2 = dv_trace ?d1 @ [EClock t0]"
      using tk by (auto simp: fps_tick_def Let_def trace_after split: prod.splits)
    then have "dv_trace d3 = dv_trace ?d1 @ [EClock t0, EClock t]" using trace_after(1) [OF nw] by simp
    then have "vision_inv S A (P\<lparr>pl_fps := F, last_frame_t := Some t\<rparr>) d3"
      by (rule vision_inv_extend [OF v1, rotated]) simp_all
    moreover have "handle_frame C S frame (P\<lparr>pl_fps := F, last_frame_t := Some t\<rparr>) d3 = (r, P', d')"
      using assms(2) a x tk nw by (simp add: pipeline_step_def Let_def)
    ultimately show ?thesis by (rule vision_inv_handle)
  qed
qed

section \<open>Runs\<close>

text \<open>
  What a step keeps, and the question whether to stop keeps, holds when the loop ends, whether it
  returned or an exception ended it.
\<close>

locale vision_invariant =
  fixes C :: pipeline_config and S :: mavlink_settings
    and Q :: "vision_state \<Rightarrow> devices \<Rightarrow> bool"
  assumes step_keeps: "Q P d \<Longrightarrow> pipeline_step C S P d = (r, P', d') \<Longrightarrow> Q P' d'"
    and stop_keeps: "Q P d \<Longrightarrow> Q P (d\<lparr>dv_stop := q\<rparr>)"
begin

lemma run_keeps:
  assumes "pipeline_run C' S' mi me k e P d = Some y" and "C' = C" "S' = S" "Q P d"
  shows "Q (fst (snd y)) (snd (snd y))"
  using assms
proof (induction C' S' mi me k e P d y rule: pipeline_run_returns)
  case (step run C' S' mi me k e P d y)
  obtain stop q where a: "ask (dv_stop d) = (stop, q)" by (cases "ask (dv_stop d)")
  have q1: "Q P (d\<lparr>dv_stop := q\<rparr>)" using step.prems(3) by (rule stop_keeps)
  obtain r P1 d1 where st: "pipeline_step C S P (d\<lparr>dv_stop := q\<rparr>) = (r, P1, d1)"
    by (cases "pipeline_step C S P (d\<lparr>dv_stop := q\<rparr>)") auto
  have q2: "Q P1 d1" using q1 st by (rule step_keeps)
  note body = step.hyps [unfolded step.prems(1,2) a prod.case st]
  show ?case
  proof (cases "(case mi of None \<Rightarrow> False | Some n \<Rightarrow> n \<le> k) \<or> stop")
    case True
    with body q1 step.prems(3) show ?thesis by (auto split: if_splits)
  next
    case False
    with body q2 step.IH step.prems(1,2) show ?thesis
      by (cases r) (auto split: if_splits option.splits)
  qed
qed

end

interpretation backed: vision_invariant C S "vision_inv S A" for C S A
  by unfold_locales (erule vision_inv_step, assumption, erule vision_inv_same, simp_all)

section \<open>Tracking does not steer\<close>

definition forget_tracks :: "vision_state \<Rightarrow> vision_state" where
  "forget_tracks P = P\<lparr>tracks_active := 0, tracks_total := 0, dropped_tracks := 0, max_track_id := None\<rparr>"

lemma forget_simps [simp]:
  "pl_bridge (forget_tracks P) = pl_bridge P"
  "pl_fps (forget_tracks P) = pl_fps P"
  "last_publish_t (forget_tracks P) = last_publish_t P"
  "lt_published (forget_tracks P) = lt_published P"
  "lt_suppressed (forget_tracks P) = lt_suppressed P"
  "lt_publish_failures (forget_tracks P) = lt_publish_failures P"
  "consecutive_failures (forget_tracks P) = consecutive_failures P"
  by (simp_all add: forget_tracks_def)

lemma forget_note_tracks [simp]: "forget_tracks (note_tracks r P) = forget_tracks P"
proof -
  have "forget_tracks (foldl (\<lambda>Q t.
      let Q1 = (if c t then Q\<lparr>tracks_total := Suc (tracks_total Q)\<rparr> else Q)
      in if max_track_id Q1 = None \<or> the (max_track_id Q1) < t then Q1\<lparr>max_track_id := Some t\<rparr> else Q1)
    Q ids) = forget_tracks Q" for Q :: vision_state and ids c
    by (induction ids arbitrary: Q) (auto simp: Let_def forget_tracks_def)
  then show ?thesis by (auto simp: note_tracks_def Let_def forget_tracks_def split: sum.split)
qed

text \<open>The same devices with another tracker.\<close>

definition with_tracker :: "(py_exn + int list) answers \<Rightarrow> devices \<Rightarrow> devices" where
  "with_tracker q d = d\<lparr>dv_tracker := q\<rparr>"

lemma with_tracker_ask [simp]:
  "dv_camera (with_tracker q d) = dv_camera d"
  "dv_detector (with_tracker q d) = dv_detector d"
  "dv_stream (with_tracker q d) = dv_stream d"
  "dv_stop (with_tracker q d) = dv_stop d"
  "dv_trace (with_tracker q d) = dv_trace d"
  "(with_tracker q d)\<lparr>dv_camera := c\<rparr> = with_tracker q (d\<lparr>dv_camera := c\<rparr>)"
  "(with_tracker q d)\<lparr>dv_detector := e\<rparr> = with_tracker q (d\<lparr>dv_detector := e\<rparr>)"
  "(with_tracker q d)\<lparr>dv_stream := s\<rparr> = with_tracker q (d\<lparr>dv_stream := s\<rparr>)"
  "(with_tracker q d)\<lparr>dv_stop := b\<rparr> = with_tracker q (d\<lparr>dv_stop := b\<rparr>)"
  by (simp_all add: with_tracker_def)

lemma with_tracker_devices [simp]:
  "mono_now (with_tracker q d) = map_prod id (with_tracker q) (mono_now d)"
  "wall_now (with_tracker q d) = map_prod id (with_tracker q) (wall_now d)"
  "ask_factory (with_tracker q d) = map_prod id (with_tracker q) (ask_factory d)"
  "recv_heartbeat (with_tracker q d) = map_prod id (with_tracker q) (recv_heartbeat d)"
  "landing_target_send m (with_tracker q d) = map_prod id (with_tracker q) (landing_target_send m d)"
  by (auto simp: with_tracker_def mono_now_def wall_now_def ask_factory_def recv_heartbeat_def
      landing_target_send_def ask_def emit_def Let_def split: sum.split option.split)

lemma with_tracker_bridge [simp]:
  "bridge_start b (with_tracker q d) = map_prod id (map_prod id (with_tracker q)) (bridge_start b d)"
  "monitor_report m (with_tracker q d) = map_prod id (with_tracker q) (monitor_report m d)"
  "monitor_beat t m (with_tracker q d) = map_prod id (with_tracker q) (monitor_beat t m d)"
  "compute_time_usec S ct b (with_tracker q d) = map_prod id (with_tracker q) (compute_time_usec S ct b d)"
  by (auto simp: bridge_start_def monitor_report_def monitor_beat_def compute_time_usec_def Let_def
      split: option.split prod.split sum.split time_source.split bool.split)

lemma with_tracker_poll [simp]:
  "poll_heartbeat S b (with_tracker q d) =
   map_prod id (map_prod id (with_tracker q)) (poll_heartbeat S b d)"
proof -
  have "poll_link S m b (with_tracker q d) =
      map_prod id (map_prod id (map_prod id (with_tracker q))) (poll_link S m b d)" for m
    by (auto simp: poll_link_def split: option.split prod.split sum.split)
  then show ?thesis
    by (auto simp: poll_heartbeat_def split: option.split prod.split)
qed

lemma with_tracker_publish [simp]:
  "bridge_publish S det res ct b (with_tracker q d) =
   map_prod id (map_prod id (with_tracker q)) (bridge_publish S det res ct b d)"
proof -
  have "bridge_transmit S det res ct b (with_tracker q d) =
      map_prod id (map_prod id (with_tracker q)) (bridge_transmit S det res ct b d)" for d
    by (auto simp: bridge_transmit_def split: prod.split sum.split lt_frame_kind.split)
  then show ?thesis
    by (auto simp: bridge_publish_def split: option.split prod.split)
qed

lemma forget_cadence:
  "note_cadence C (forget_tracks P) (with_tracker q d) =
   map_prod forget_tracks (with_tracker q) (note_cadence C P d)"
  by (auto simp: note_cadence_def Let_def forget_tracks_def split: prod.split option.split)

lemma forget_update [simp]:
  "(forget_tracks P)\<lparr>pl_bridge := b\<rparr> = forget_tracks (P\<lparr>pl_bridge := b\<rparr>)"
  "(forget_tracks P)\<lparr>pl_fps := F\<rparr> = forget_tracks (P\<lparr>pl_fps := F\<rparr>)"
  "(forget_tracks P)\<lparr>last_frame_t := t\<rparr> = forget_tracks (P\<lparr>last_frame_t := t\<rparr>)"
  "(forget_tracks P)\<lparr>lt_published := n\<rparr> = forget_tracks (P\<lparr>lt_published := n\<rparr>)"
  "(forget_tracks P)\<lparr>lt_suppressed := n\<rparr> = forget_tracks (P\<lparr>lt_suppressed := n\<rparr>)"
  "(forget_tracks P)\<lparr>lt_publish_failures := n\<rparr> = forget_tracks (P\<lparr>lt_publish_failures := n\<rparr>)"
  "(forget_tracks P)\<lparr>consecutive_failures := n\<rparr> = forget_tracks (P\<lparr>consecutive_failures := n\<rparr>)"
  by (simp_all add: forget_tracks_def)

lemma forget_account:
  "account_publish C x (forget_tracks P) (with_tracker q d) =
   map_prod id (map_prod forget_tracks (with_tracker q)) (account_publish C x P d)"
  by (auto simp: account_publish_def Let_def forget_cadence split: prod.split sum.split)

lemma forget_drive:
  "drive_bridge C S res ct (forget_tracks P) (with_tracker q d) =
   map_prod id (map_prod forget_tracks (with_tracker q)) (drive_bridge C S res ct P d)"
  by (auto simp: drive_bridge_def publish_target_def forget_account Let_def
      split: prod.split sum.split option.split)

definition no_tracker :: "pipeline_config \<Rightarrow> pipeline_config" where
  "no_tracker C = C\<lparr>pc_has_tracker := False\<rparr>"

lemma no_tracker_fields [simp]:
  "pc_has_tracker (no_tracker C) = False"
  "pc_has_stream (no_tracker C) = pc_has_stream C"
  "pc_target_classes (no_tracker C) = pc_target_classes C"
  "pc_min_publish_rate_hz (no_tracker C) = pc_min_publish_rate_hz C"
  "pc_publish_failure_tolerance (no_tracker C) = pc_publish_failure_tolerance C"
  by (simp_all add: no_tracker_def)

lemma no_tracker_drive [simp]: "drive_bridge (no_tracker C) = drive_bridge C"
  unfolding fun_eq_iff drive_bridge_def publish_target_def account_publish_def note_cadence_def
    select_target_def no_tracker_fields by blast

lemma forget_update_tracks:
  assumes "update_tracks P d = (P1, d1)"
  shows "forget_tracks P1 = forget_tracks P \<and> with_tracker q d1 = with_tracker q d"
  using assms by (auto simp: update_tracks_def with_tracker_def split: prod.splits)

lemma forget_stream:
  "write_stream (forget_tracks P) (with_tracker q d) =
   map_prod forget_tracks (with_tracker q) (write_stream P d)"
  by (auto simp: write_stream_def forget_tracks_def split: prod.split)

text \<open>A step with a tracker and one without give the same result, but for the track counters.\<close>

lemma forget_handle:
  "handle_frame (no_tracker C) S frame (forget_tracks P) (with_tracker q d) =
   map_prod id (map_prod forget_tracks (with_tracker q)) (handle_frame C S frame P d)"
proof -
  obtain x a where ask: "ask (dv_detector d) = (x, a)" by (cases "ask (dv_detector d)")
  show ?thesis
  proof (cases x)
    case (Inl e)
    with ask show ?thesis
      by (auto simp: handle_frame_def Let_def forget_tracks_def split: jetson_exn.split)
  next
    case (Inr res)
    let ?d = "d\<lparr>dv_detector := a\<rparr>"
    obtain P1 d1 where t: "(if pc_has_tracker C then update_tracks P ?d else (P, ?d)) = (P1, d1)" by fastforce
    have f: "forget_tracks P1 = forget_tracks P" "with_tracker q d1 = with_tracker q ?d"
      using t forget_update_tracks [of P ?d P1 d1 q] by (auto split: if_splits)
    obtain P2 d2 where s: "(if pc_has_stream C then write_stream P1 d1 else (P1, d1)) = (P2, d2)" by fastforce
    have "(if pc_has_stream C then write_stream (forget_tracks P) (with_tracker q ?d)
        else (forget_tracks P, with_tracker q ?d)) = (forget_tracks P2, with_tracker q d2)"
      using s forget_stream [of P1 q d1] f by (auto split: if_splits)
    with ask Inr t s forget_drive [of C S res "cf_t frame" P2 q d2] show ?thesis
      by (simp add: handle_frame_def Let_def)
  qed
qed

lemma forget_step:
  "pipeline_step (no_tracker C) S (forget_tracks P) (with_tracker q d) =
   map_prod id (map_prod forget_tracks (with_tracker q)) (pipeline_step C S P d)"
  by (auto simp: pipeline_step_def fps_tick_def forget_handle Let_def
      split: prod.split sum.split option.split)

lemma forget_run:
  assumes "pipeline_run C' S' mi me k e P d = Some y" and "C' = C" "S' = S"
  shows "pipeline_run (no_tracker C) S mi me k e (forget_tracks P) (with_tracker q d) =
    Some (map_prod id (map_prod forget_tracks (with_tracker q)) y)"
  using assms
proof (induction C' S' mi me k e P d y rule: pipeline_run_returns)
  case (step run C' S' mi me k e P d y)
  obtain stop a where a: "ask (dv_stop d) = (stop, a)" by (cases "ask (dv_stop d)")
  let ?d = "d\<lparr>dv_stop := a\<rparr>"
  obtain r P1 d1 where st: "pipeline_step C S P ?d = (r, P1, d1)"
    by (cases "pipeline_step C S P ?d") auto
  then have st': "pipeline_step (no_tracker C) S (forget_tracks P) (with_tracker q ?d) =
      (r, forget_tracks P1, with_tracker q d1)" by (simp add: forget_step)
  note body = step.hyps [unfolded step.prems(1,2) a prod.case st]
  show ?case
  proof (cases "(case mi of None \<Rightarrow> False | Some n \<Rightarrow> n \<le> k) \<or> stop")
    case True
    with body a show ?thesis by (subst pipeline_run.simps) (auto split: if_splits)
  next
    case False
    with body a st' step.IH step.prems(1,2) show ?thesis
      by (subst pipeline_run.simps, cases r) (auto simp: id_def split: if_splits option.splits)
  qed
qed

section \<open>Counting tracks\<close>

text \<open>The contract of a tracker: ids are assigned in increasing order and never used again; an update
  reports an id at most once.  \<open>seen\<close> are the ids of earlier updates.\<close>

fun increasing_ids :: "int set \<Rightarrow> (py_exn + int list) list \<Rightarrow> bool" where
  "increasing_ids seen [] = True"
| "increasing_ids seen (Inl e # rs) = increasing_ids seen rs"
| "increasing_ids seen (Inr ids # rs) =
     (distinct ids \<and> (\<forall>t \<in> set ids. t \<in> seen \<or> (\<forall>s \<in> seen. s < t)) \<and> increasing_ids (seen \<union> set ids) rs)"

fun ids_of :: "(py_exn + int list) list \<Rightarrow> int set" where
  "ids_of [] = {}"
| "ids_of (Inl e # rs) = ids_of rs"
| "ids_of (Inr ids # rs) = set ids \<union> ids_of rs"

definition tracks_ok :: "int set \<Rightarrow> vision_state \<Rightarrow> bool" where
  "tracks_ok seen P \<longleftrightarrow> finite seen \<and> tracks_total P = card seen \<and>
     max_track_id P = (if seen = {} then None else Some (Max seen))"

lemma note_tracks_fold:
  fixes prev_max :: "int option"
  defines "step \<equiv> \<lambda>Q t.
      let Q1 = (if prev_max = None \<or> the prev_max < t then Q\<lparr>tracks_total := Suc (tracks_total Q)\<rparr> else Q)
      in if max_track_id Q1 = None \<or> the (max_track_id Q1) < t then Q1\<lparr>max_track_id := Some t\<rparr> else Q1"
  assumes "finite seen" "max_track_id Q = (if seen = {} then None else Some (Max seen))"
  shows "tracks_total (foldl step Q ids) =
      tracks_total Q + length (filter (\<lambda>t. prev_max = None \<or> the prev_max < t) ids) \<and>
    max_track_id (foldl step Q ids) =
      (if seen \<union> set ids = {} then None else Some (Max (seen \<union> set ids)))"
  using assms(2,3)
proof (induction ids arbitrary: Q seen)
  case (Cons t ids)
  have fin: "finite (insert t seen)" using Cons.prems by simp
  have "max_track_id (step Q t) = Some (Max (insert t seen))"
  proof (cases "seen = {}")
    case True
    then show ?thesis using Cons.prems by (auto simp: step_def Let_def)
  next
    case False
    then have "Max (insert t seen) = max t (Max seen)" "max_track_id Q = Some (Max seen)"
      using Cons.prems by simp_all
    then show ?thesis by (simp add: step_def Let_def max_def)
  qed
  then have "max_track_id (step Q t) = (if insert t seen = {} then None else Some (Max (insert t seen)))"
    by simp
  from Cons.IH [OF fin this] show ?case by (auto simp: step_def Let_def)
qed simp

lemma tracks_ok_note:
  assumes "tracks_ok seen P" "distinct ids" "\<forall>t \<in> set ids. t \<in> seen \<or> (\<forall>s \<in> seen. s < t)"
  shows "tracks_ok (seen \<union> set ids) (note_tracks (Inr ids) P)"
proof -
  have fin: "finite seen" and total: "tracks_total P = card seen"
    and top: "max_track_id P = (if seen = {} then None else Some (Max seen))"
    using assms(1) by (auto simp: tracks_ok_def)
  let ?new = "\<lambda>t. max_track_id P = None \<or> the (max_track_id P) < t"
  have "?new t \<longleftrightarrow> t \<notin> seen" if "t \<in> set ids" for t
  proof (cases "seen = {}")
    case False
    have "t \<in> seen \<Longrightarrow> t \<le> Max seen" using fin by simp
    moreover have "Max seen < t" if "t \<notin> seen"
    proof -
      have "\<forall>s \<in> seen. s < t" using assms(3) \<open>t \<in> set ids\<close> that by blast
      then show ?thesis using False fin by simp
    qed
    ultimately show ?thesis using top False by auto
  qed (use top in simp)
  then have "filter ?new ids = filter (\<lambda>t. t \<notin> seen) ids" by (simp cong: filter_cong)
  then have "length (filter ?new ids) = card (set ids - seen)"
    using distinct_card [of "filter (\<lambda>t. t \<notin> seen) ids"] assms(2)
    by (simp add: set_diff_eq)
  moreover have "card (seen \<union> set ids) = card seen + card (set ids - seen)"
    using fin by (metis Un_Diff_cancel card_Un_disjoint Diff_disjoint finite_Diff finite_set)
  ultimately show ?thesis
    using note_tracks_fold [of seen "P\<lparr>tracks_active := length ids\<rparr>" "max_track_id P" ids] fin total top
    by (simp add: tracks_ok_def note_tracks_def Let_def)
qed

lemma tracks_ok_run:
  "tracks_ok seen P \<Longrightarrow> increasing_ids seen rs \<Longrightarrow>
   tracks_ok (seen \<union> ids_of rs) (foldl (\<lambda>P r. note_tracks r P) P rs)"
proof (induction seen rs arbitrary: P rule: increasing_ids.induct)
  case (2 seen e rs)
  then show ?case by (auto simp: note_tracks_def tracks_ok_def)
next
  case (3 seen ids rs)
  from 3(3) have "tracks_ok (seen \<union> set ids) (note_tracks (Inr ids) P)"
    by (intro tracks_ok_note [OF 3(2)]) auto
  with 3 show ?case by (simp add: Un_assoc)
qed simp

section \<open>Escalation\<close>

text \<open>A sequence of publications, up to the first exception that gets through, as in the loop.\<close>

fun publish_run ::
  "pipeline_config \<Rightarrow> (jetson_exn + bool) list \<Rightarrow> vision_state \<Rightarrow> devices \<Rightarrow> (jetson_exn + unit) \<times> vision_state \<times> devices" where
  "publish_run C [] P d = (Inr (), P, d)"
| "publish_run C (x # xs) P d =
     (case account_publish C x P d of
        (Inl e, P1, d1) \<Rightarrow> (Inl e, P1, d1)
      | (Inr _, P1, d1) \<Rightarrow> publish_run C xs P1 d1)"

text \<open>The specification: failures since the last message that was sent; a suppressed publication is
  neither.\<close>

definition streak :: "(jetson_exn + bool) list \<Rightarrow> nat" where
  "streak xs = length (filter isl (takeWhile (\<lambda>x. x \<noteq> Inr True) (rev xs)))"

fun streak_from :: "nat \<Rightarrow> (jetson_exn + bool) list \<Rightarrow> nat" where
  "streak_from n [] = n"
| "streak_from n (Inl e # xs) = streak_from (Suc n) xs"
| "streak_from n (Inr True # xs) = streak_from 0 xs"
| "streak_from n (Inr False # xs) = streak_from n xs"

lemma streak_from_snoc:
  "streak_from n (xs @ [x]) =
   (case x of Inl e \<Rightarrow> Suc (streak_from n xs) | Inr True \<Rightarrow> 0 | Inr False \<Rightarrow> streak_from n xs)"
  by (induction n xs rule: streak_from.induct) (auto split: sum.split bool.split)

lemma streak_from_0: "streak_from 0 xs = streak xs"
proof (induction xs rule: rev_induct)
  case (snoc x xs)
  then show ?case by (auto simp: streak_from_snoc streak_def split: sum.split bool.split)
qed (simp add: streak_def)

lemma account_publish_cases:
  assumes "account_publish C x P d = (r, P', d')"
  shows "(\<forall>e. x = Inl e \<longrightarrow> consecutive_failures P' = Suc (consecutive_failures P) \<and>
      r = (if pc_publish_failure_tolerance C < int (consecutive_failures P') then Inl e else Inr ())) \<and>
    (x = Inr True \<longrightarrow> consecutive_failures P' = 0 \<and> r = Inr ()) \<and>
    (x = Inr False \<longrightarrow> consecutive_failures P' = consecutive_failures P \<and> r = Inr ()) \<and>
    lt_published P' = lt_published P + (if x = Inr True then 1 else 0) \<and>
    lt_suppressed P' = lt_suppressed P + (if x = Inr False then 1 else 0) \<and>
    lt_publish_failures P' = lt_publish_failures P + (if isl x then 1 else 0)"
  using assms
  by (auto simp: account_publish_def note_cadence_def Let_def split: sum.splits if_splits prod.splits)

lemma publish_run_streak:
  assumes "publish_run C xs P d = (r, P', d')" "int (consecutive_failures P) \<le> pc_publish_failure_tolerance C"
  shows "(isl r \<longleftrightarrow> (\<exists>k \<le> length xs. pc_publish_failure_tolerance C <
      int (streak_from (consecutive_failures P) (take k xs)))) \<and>
    (\<not> isl r \<longrightarrow> consecutive_failures P' = streak_from (consecutive_failures P) xs \<and>
      lt_published P' = lt_published P + length (filter (\<lambda>x. x = Inr True) xs) \<and>
      lt_suppressed P' = lt_suppressed P + length (filter (\<lambda>x. x = Inr False) xs) \<and>
      lt_publish_failures P' = lt_publish_failures P + length (filter isl xs))"
  using assms
proof (induction xs arbitrary: P d)
  case Nil
  then show ?case by auto
next
  case (Cons x xs)
  obtain r1 P1 d1 where a: "account_publish C x P d = (r1, P1, d1)"
    by (cases "account_publish C x P d") auto
  note f = account_publish_cases [OF a]
  have ex: "(\<exists>k \<le> length (x # xs). Q (take k (x # xs))) \<longleftrightarrow> Q [] \<or> (\<exists>k \<le> length xs. Q (x # take k xs))"
    for Q :: "(jetson_exn + bool) list \<Rightarrow> bool"
    by (metis Suc_le_mono bot_nat_0.extremum length_Cons not0_implies_Suc take0 take_Suc_Cons)
  let ?Q = "\<lambda>ys. pc_publish_failure_tolerance C < int (streak_from (consecutive_failures P) ys)"
  have start: "\<not> ?Q []" using Cons.prems(2) by simp
  show ?case
  proof (cases r1)
    case (Inl e)
    have "isl x"
    proof (rule ccontr)
      assume "\<not> isl x"
      then obtain b where "x = Inr b" by (cases x) auto
      with f Inl show False by (cases b) auto
    qed
    then obtain e' where x: "x = Inl e'" by (cases x) auto
    with f Inl have over: "pc_publish_failure_tolerance C < int (Suc (consecutive_failures P))"
      by (auto split: if_splits)
    have "?Q (x # take 0 xs)" using over x by simp
    then have "\<exists>k \<le> length xs. ?Q (x # take k xs)" by blast
    moreover have "r = Inl e" using Cons.prems(1) a Inl by simp
    ultimately show ?thesis unfolding ex [where Q = ?Q] by simp
  next
    case (Inr u)
    then have run: "publish_run C xs P1 d1 = (r, P', d')" using Cons.prems(1) a by simp
    have ok: "int (consecutive_failures P1) \<le> pc_publish_failure_tolerance C \<and>
      (\<forall>ys. streak_from (consecutive_failures P) (x # ys) = streak_from (consecutive_failures P1) ys)"
    proof (cases x)
      case (Inl e)
      with f Inr show ?thesis by (auto split: if_splits)
    next
      case (Inr b)
      with f start Cons.prems(2) show ?thesis by (cases b) auto
    qed
    have "(\<exists>k \<le> length (x # xs). ?Q (take k (x # xs))) \<longleftrightarrow>
        (\<exists>k \<le> length xs. pc_publish_failure_tolerance C <
          int (streak_from (consecutive_failures P1) (take k xs)))"
      unfolding ex [where Q = ?Q] using start ok by simp
    with Cons.IH [OF run] ok f show ?thesis by simp
  qed
qed

section \<open>Termination\<close>

text \<open>Only the loop asks whether to stop.\<close>

named_theorems stop_untouched \<open>operations that leave the stop request alone\<close>

lemma devices_stop [stop_untouched]:
  "mono_now d = (t, d') \<Longrightarrow> dv_stop d' = dv_stop d"
  "wall_now d = (t, d') \<Longrightarrow> dv_stop d' = dv_stop d"
  "ask_factory d = (f, d') \<Longrightarrow> dv_stop d' = dv_stop d"
  "landing_target_send m d = (u, d') \<Longrightarrow> dv_stop d' = dv_stop d"
  "recv_heartbeat d = (x, d') \<Longrightarrow> dv_stop d' = dv_stop d"
  by (auto simp: mono_now_def wall_now_def ask_factory_def landing_target_send_def
      recv_heartbeat_def Let_def ask_def emit_def split: sum.split option.split)

lemma bridge_stop [stop_untouched]:
  "bridge_start b d = (r, b', d') \<Longrightarrow> dv_stop d' = dv_stop d"
  "monitor_report m d = (rep, d') \<Longrightarrow> dv_stop d' = dv_stop d"
  "monitor_beat t m d = (m', d') \<Longrightarrow> dv_stop d' = dv_stop d"
  "compute_time_usec S ct b d = (u, d') \<Longrightarrow> dv_stop d' = dv_stop d"
  by (auto simp: bridge_start_def monitor_report_def monitor_beat_def compute_time_usec_def Let_def
      stop_untouched split: if_splits prod.splits sum.splits option.splits time_source.splits bool.splits)

lemma poll_link_stop [stop_untouched]: "poll_link S m b d = (c, m', b', d') \<Longrightarrow> dv_stop d' = dv_stop d"
  by (auto simp: poll_link_def stop_untouched split: if_splits prod.splits sum.splits option.splits)

lemma poll_stop [stop_untouched]: "poll_heartbeat S b d = (c, b', d') \<Longrightarrow> dv_stop d' = dv_stop d"
  by (auto simp: poll_heartbeat_def stop_untouched split: prod.splits option.splits)

lemma transmit_stop [stop_untouched]:
  "bridge_transmit S det res ct b d = (r, b', d') \<Longrightarrow> dv_stop d' = dv_stop d"
  by (auto simp: bridge_transmit_def stop_untouched split: if_splits prod.splits sum.splits)

lemma publish_stop [stop_untouched]:
  "bridge_publish S det res ct b d = (r, b', d') \<Longrightarrow> dv_stop d' = dv_stop d"
  by (auto simp: bridge_publish_def stop_untouched split: if_splits prod.splits option.splits)

lemma pipeline_stop [stop_untouched]:
  "account_publish C x P d = (u, P', d') \<Longrightarrow> dv_stop d' = dv_stop d"
  "update_tracks P d = (P', d') \<Longrightarrow> dv_stop d' = dv_stop d"
  "write_stream P d = (P', d') \<Longrightarrow> dv_stop d' = dv_stop d"
  "fps_tick F d = (v, F', d') \<Longrightarrow> dv_stop d' = dv_stop d"
  by (auto simp: account_publish_def note_cadence_def update_tracks_def write_stream_def fps_tick_def
      Let_def stop_untouched split: if_splits prod.splits sum.splits)

lemma drive_stop [stop_untouched]:
  "drive_bridge C S res ct P d = (r, P', d') \<Longrightarrow> dv_stop d' = dv_stop d"
  by (auto simp: drive_bridge_def publish_target_def Let_def stop_untouched
      split: prod.splits sum.splits option.splits)

lemma handle_stop [stop_untouched]:
  "handle_frame C S frame P d = (r, P', d') \<Longrightarrow> dv_stop d' = dv_stop d"
  by (auto simp: handle_frame_def Let_def stop_untouched
      split: if_splits prod.splits sum.splits jetson_exn.splits)

lemma step_stop: "pipeline_step C S P d = (r, P', d') \<Longrightarrow> dv_stop d' = dv_stop d"
  by (auto simp: pipeline_step_def Let_def stop_untouched
      split: prod.splits sum.splits option.splits)

text \<open>A run ends when a stop is requested, at the latest at the next question.\<close>

lemma run_stops:
  assumes "dv_stop d = (f, n)" "f (n + j)"
  shows "\<exists>y. pipeline_run C S mi me k e P d = Some y"
  using assms
proof (induction j arbitrary: n k e P d)
  case 0
  then show ?case by (subst pipeline_run.simps) (simp add: ask_def)
next
  case (Suc j)
  let ?d = "d\<lparr>dv_stop := (f, Suc n)\<rparr>"
  obtain r P1 d1 where st: "pipeline_step C S P ?d = (r, P1, d1)" by (cases "pipeline_step C S P ?d") auto
  have "dv_stop d1 = (f, Suc n)" using step_stop [OF st] by simp
  with Suc.IH [of d1 "Suc n"] Suc.prems have
    "\<exists>y. pipeline_run C S mi me k' e' P1 d1 = Some y" for k' e' by simp
  with st Suc.prems(1) show ?case
    by (subst pipeline_run.simps) (auto simp: ask_def split: sum.split option.split)
qed

text \<open>With both limits set, a run ends after finitely many steps, whatever the devices do.\<close>

lemma run_bounded: "\<exists>y. pipeline_run C S (Some n) (Some m) k e P d = Some y"
proof (induction "nat (n - k) * (nat m + 1) + nat (m - e)" arbitrary: k e P d rule: less_induct)
  case less
  show ?case
  proof (cases "n \<le> k")
    case True
    then show ?thesis by (subst pipeline_run.simps) simp
  next
    case False
    obtain stop q where a: "ask (dv_stop d) = (stop, q)" by (cases "ask (dv_stop d)")
    obtain r P1 d1 where st: "pipeline_step C S P (d\<lparr>dv_stop := q\<rparr>) = (r, P1, d1)"
      by (cases "pipeline_step C S P (d\<lparr>dv_stop := q\<rparr>)") auto
    have frame: "\<exists>y. pipeline_run C S (Some n) (Some m) (k + 1) 0 P1 d1 = Some y"
    proof (rule less)
      have "nat (n - k) = Suc (nat (n - (k + 1)))" using False by simp
      then show "nat (n - (k + 1)) * (nat m + 1) + nat (m - 0) <
          nat (n - k) * (nat m + 1) + nat (m - e)" by simp
    qed
    have "\<exists>y. pipeline_run C S (Some n) (Some m) k (e + 1) P1 d1 = Some y" if "\<not> m \<le> e + 1"
      using that by (intro less) simp
    with frame False a st show ?thesis
      by (subst pipeline_run.simps) (auto split: sum.split)
  qed
qed

text \<open>A run that returns a number processed at most as many frames as it was asked for.\<close>

lemma run_count:
  assumes "pipeline_run C S mi me k e P d = Some (Inr n, P', d')" "mi = Some m" "k \<le> m"
  shows "k \<le> n \<and> n \<le> m"
proof -
  have "\<forall>n. fst y = Inr n \<longrightarrow> k \<le> n \<and> n \<le> m" if "pipeline_run C S mi me k e P d = Some y" for y
    using that assms(2,3)
  proof (induction C S mi me k e P d y rule: pipeline_run_returns)
    case (step run C S mi me k e P d y)
    obtain stop q where a: "ask (dv_stop d) = (stop, q)" by (cases "ask (dv_stop d)")
    obtain r P1 d1 where st: "pipeline_step C S P (d\<lparr>dv_stop := q\<rparr>) = (r, P1, d1)"
      by (cases "pipeline_step C S P (d\<lparr>dv_stop := q\<rparr>)") auto
    note body = step.hyps [unfolded step.prems(1) a prod.case st option.case]
    show ?case
    proof (cases "m \<le> k \<or> stop \<or> isl r")
      case True
      with body step.prems show ?thesis by (auto split: if_splits sum.splits)
    next
      case False
      then obtain got where "r = Inr got" by (cases r) auto
      with body False have "(if got then run C S (Some m) me (k + 1) 0 P1 d1
          else if (case me of None \<Rightarrow> False | Some n \<Rightarrow> n \<le> e + 1) then Some (Inr k, P1, d1)
          else run C S (Some m) me k (e + 1) P1 d1) = Some y" by simp
      then have "run C S (Some m) me (k + 1) 0 P1 d1 = Some y \<or>
          run C S (Some m) me k (e + 1) P1 d1 = Some y \<or> y = (Inr k, P1, d1)"
        by (cases got) (simp_all split: if_split_asm)
      then consider "run C S (Some m) me (k + 1) 0 P1 d1 = Some y"
        | "run C S (Some m) me k (e + 1) P1 d1 = Some y" | "y = (Inr k, P1, d1)" by blast
      then show ?thesis
      proof cases
        case 1
        have "\<forall>n. fst y = Inr n \<longrightarrow> k + 1 \<le> n \<and> n \<le> m"
          using step.IH [OF 1 refl] False by simp
        then show ?thesis by auto
      next
        case 2
        show ?thesis by (rule step.IH [OF 2 refl step.prems(2)])
      qed (use step.prems in auto)
    qed
  qed
  with assms(1) show ?thesis by auto
qed

end
