(* ===== verification/Vision_Facts.thy ===== *)
theory Vision_Facts
  imports Vision_Pipeline
begin

text \<open>
  The properties of the perception unit, with a demonstration rig of devices for their witnesses.
\<close>

text \<open>The transcendental functions are not evaluated.\<close>

declare sin_def [code del] cos_def [code del] tan_def [code del] arctan_def [code del] pi_def [code del]

section \<open>A demonstration rig\<close>

definition demo_autopilot :: heartbeat_msg where
  "demo_autopilot = \<lparr>hm_system = Inr 1, hm_component = Inr 1\<rparr>"

definition demo_pad :: seen_object where
  "demo_pad = \<lparr>so_class_id = 0, so_class_name = ''pad'', so_confidence = 9 / 10, so_bbox = (300, 200, 340, 280)\<rparr>"

definition demo_devices :: devices where
  "demo_devices =
     \<lparr>dv_mono = (\<lambda>n. real n / 100, 0), dv_wall = (\<lambda>n. 1000, 0), dv_factory = (\<lambda>n. Inr True, 0),
      dv_radio = (\<lambda>n. Inr (Some demo_autopilot), 0), dv_send = (\<lambda>n. None, 0),
      dv_camera = (\<lambda>n. if n < 2 then Inr (Some \<lparr>cf_idx = int n, cf_t = real n\<rparr>) else Inr None, 0),
      dv_detector = (\<lambda>n. Inr \<lparr>dr_detections = [demo_pad], dr_width = 640, dr_height = 480\<rparr>, 0),
      dv_tracker = (\<lambda>n. Inr [int n], 0), dv_stream = (\<lambda>n. None, 0), dv_stop = (\<lambda>n. n = 5, 0),
      dv_trace = []\<rparr>"

definition demo_lt_settings :: mavlink_settings where
  "demo_lt_settings = default_mavlink_settings\<lparr>ms_enable_landing_target := True\<rparr>"

definition demo_vision_config :: pipeline_config where
  "demo_vision_config =
     \<lparr>pc_target_classes = None, pc_liveness_timeout_s = 2, pc_min_publish_rate_hz = 10,
      pc_publish_failure_tolerance = 1, pc_has_stream = False, pc_has_tracker = True\<rparr>"

definition demo_bridge :: bridge where
  "demo_bridge =
     \<lparr>br_conn = False, br_pose_source = None, br_timesync = None,
      br_heartbeat = Some (new_hb_monitor 2), br_log_every = 100, br_suppressed_count = 0,
      br_suppressed = Map.empty, br_last_fresh = None\<rparr>"

definition demo_vision :: vision_state where
  "demo_vision =
     \<lparr>pl_bridge = Some demo_bridge, pl_fps = \<lparr>fp_window = 30, fp_times = []\<rparr>, dropped_detections = 0,
      dropped_stream = 0, lt_published = 0, lt_suppressed = 0, lt_cadence_violations = 0,
      lt_publish_failures = 0, consecutive_failures = 0, last_publish_t = None, last_frame_t = None,
      tracks_active = 0, tracks_total = 0, dropped_tracks = 0, max_track_id = None\<rparr>"

lemma demo_vision_boots:
  "new_bridge demo_lt_settings False None 100 None None = Inr demo_bridge"
  "new_vision (Some demo_bridge) 2 100 10 1 30 = Inr demo_vision"
  by (simp_all add: new_bridge_def demo_lt_settings_def default_mavlink_settings_def demo_bridge_def
      new_vision_def new_fps_def demo_vision_def)

section \<open>Landing targets\<close>

text \<open>C4: In any run from the start, with any devices, a landing target is handed to the autopilot's
  connection only where the feature is enabled, and with the heartbeat gate on only after a heartbeat
  of the configured autopilot that, by the last reading of the clock, is within the time limit.\<close>

theorem landing_target_needs_heartbeat:
  assumes "new_bridge S conn None log_every pose timesync = Inr b"
    and "new_vision (Some b) liveness drop_log_every min_rate tolerance window = Inr P"
    and "pipeline_run C S max_iterations max_empty 0 0 P d = Some (r, P', d')" and "dv_trace d = []"
  shows "\<forall>i m. i < length (dv_trace d') \<and> dv_trace d' ! i = ECall m \<longrightarrow>
    ms_enable_landing_target S \<and>
    (ms_require_heartbeat S \<longrightarrow> fresh_beat S (ms_heartbeat_timeout_s S) (take i (dv_trace d')))"
proof -
  let ?A = "if ms_require_heartbeat S then Some (ms_heartbeat_timeout_s S) else None"
  have b: "gate_age b = ?A" "beats_heard S b (dv_trace d)"
    using assms(1) by (auto simp: new_bridge_def gate_age_def beats_heard_def new_hb_monitor_def split: if_splits)
  have "pl_bridge P = Some b"
    using assms(2) by (auto simp: new_vision_def then_ok_Inr_iff split: if_splits)
  with b assms(4) have "vision_inv S ?A P d" by (auto simp: vision_inv_def calls_backed_def)
  from backed.run_keeps [OF assms(3) refl refl this] show ?thesis
    by (auto simp: vision_inv_def calls_backed_def)
qed

theorem landing_target_needs_heartbeat_witness:
  "\<exists>(d' :: devices) i m. dv_trace d' ! i = ECall m \<and> fresh_beat demo_lt_settings 2 (take i (dv_trace d'))"
proof -
  have ev: "case pipeline_run demo_vision_config demo_lt_settings (Some 1) None 0 0 demo_vision demo_devices of
      Some (r, P', d') \<Rightarrow> length (dv_trace d') = 8 \<and> (case dv_trace d' ! 6 of ECall m \<Rightarrow> True | _ \<Rightarrow> False)
    | None \<Rightarrow> False" by code_simp
  then obtain r P' d' where run:
    "pipeline_run demo_vision_config demo_lt_settings (Some 1) None 0 0 demo_vision demo_devices = Some (r, P', d')"
    by (auto split: option.splits)
  with ev obtain m where m: "6 < length (dv_trace d')" "dv_trace d' ! 6 = ECall m"
    by (auto split: device_event.splits)
  have "dv_trace demo_devices = []" by (simp add: demo_devices_def)
  from landing_target_needs_heartbeat [OF demo_vision_boots run this] m
  have "fresh_beat demo_lt_settings 2 (take 6 (dv_trace d'))"
    by (simp add: demo_lt_settings_def default_mavlink_settings_def)
  with m(2) show ?thesis by blast
qed

text \<open>A publication failure gets through to the caller exactly when the failures since the last
  message that was sent outnumber the tolerance, where suppressed publications neither count nor end
  the streak; until then every outcome is counted under its kind.\<close>

theorem persistent_failure_escalates:
  assumes "publish_run C xs P d = (r, P', d')" and "consecutive_failures P = 0"
    and "0 \<le> pc_publish_failure_tolerance C"
  shows "(isl r \<longleftrightarrow> (\<exists>k \<le> length xs. pc_publish_failure_tolerance C < int (streak (take k xs)))) \<and>
    (\<not> isl r \<longrightarrow>
      lt_published P' = lt_published P + length (filter (\<lambda>x. x = Inr True) xs) \<and>
      lt_suppressed P' = lt_suppressed P + length (filter (\<lambda>x. x = Inr False) xs) \<and>
      lt_publish_failures P' = lt_publish_failures P + length (filter isl xs))"
  using publish_run_streak [OF assms(1)] assms(2,3) by (simp add: streak_from_0)

theorem persistent_failure_escalates_witness:
  "isl (fst (publish_run demo_vision_config [Inr True, Inl MavlinkError, Inr False, Inl MavlinkError]
     demo_vision demo_devices))"
proof -
  let ?xs = "[Inr True, Inl MavlinkError, Inr False, Inl MavlinkError] :: (jetson_exn + bool) list"
  obtain r P' d' where run: "publish_run demo_vision_config ?xs demo_vision demo_devices = (r, P', d')"
    by (cases "publish_run demo_vision_config ?xs demo_vision demo_devices") auto
  have "consecutive_failures demo_vision = 0" "0 \<le> pc_publish_failure_tolerance demo_vision_config"
    by (simp_all add: demo_vision_def demo_vision_config_def)
  note facts = persistent_failure_escalates [OF run this]
  have "pc_publish_failure_tolerance demo_vision_config < int (streak (take 4 ?xs))" by code_simp
  moreover have "4 \<le> length ?xs" by simp
  ultimately have "isl r" using facts by blast
  then show ?thesis using run by simp
qed

text \<open>Tracking does not steer: a run with a tracker and the run without one, on devices that differ
  in the tracker at most, end alike, with the same messages to the autopilot and the same state but
  for the track counters.\<close>

theorem tracker_never_steers:
  assumes "pipeline_run C S max_iterations max_empty k e P d = Some (r, P', d')"
  shows "pipeline_run (no_tracker C) S max_iterations max_empty k e (forget_tracks P) (with_tracker q d) =
      Some (r, forget_tracks P', with_tracker q d') \<and>
    dv_trace (with_tracker q d') = dv_trace d' \<and> pl_bridge (forget_tracks P') = pl_bridge P'"
  using forget_run [OF assms refl refl, of q] by simp

theorem tracker_never_steers_witness:
  "\<exists>r P' d'. pipeline_run (no_tracker demo_vision_config) demo_lt_settings (Some 2) (Some 3) 0 0
     (forget_tracks demo_vision) (with_tracker (\<lambda>n. Inl RuntimeError, 0) demo_devices) =
   Some (r, forget_tracks P', with_tracker (\<lambda>n. Inl RuntimeError, 0) d') \<and> r = Inr 2"
proof -
  have ev: "case pipeline_run demo_vision_config demo_lt_settings (Some 2) (Some 3) 0 0 demo_vision demo_devices of
      Some (r, P', d') \<Rightarrow> r = Inr 2 | None \<Rightarrow> False" by code_simp
  then obtain r P' d' where run: "pipeline_run demo_vision_config demo_lt_settings (Some 2) (Some 3) 0 0
      demo_vision demo_devices = Some (r, P', d')" "r = Inr 2"
    by (auto split: option.splits)
  with tracker_never_steers [OF run(1)] show ?thesis by blast
qed

text \<open>While the tracker keeps its contract (increasing ids, none used twice, each at most once in
  an update), whatever updates fail, the number of tracks is the number of distinct ids.\<close>

theorem tracks_counted:
  assumes "increasing_ids {} rs" and "tracks_total P = 0" "max_track_id P = None"
  shows "tracks_total (foldl (\<lambda>P r. note_tracks r P) P rs) = card (ids_of rs)"
proof -
  have "tracks_ok {} P" using assms(2,3) by (simp add: tracks_ok_def)
  from tracks_ok_run [OF this assms(1)] show ?thesis by (simp add: tracks_ok_def)
qed

theorem tracks_counted_witness:
  "tracks_total (foldl (\<lambda>P r. note_tracks r P) demo_vision
     [Inr [1, 2], Inl RuntimeError, Inr [2], Inr [4, 3, 1]]) = card {1, 2, 3, 4 :: int}"
proof -
  let ?rs = "[Inr [1, 2], Inl RuntimeError, Inr [2], Inr [4, 3, 1]] :: (py_exn + int list) list"
  have c: "increasing_ids {} ?rs" by simp
  have z: "tracks_total demo_vision = 0" "max_track_id demo_vision = None"
    by (simp_all add: demo_vision_def)
  have ids: "ids_of ?rs = {1, 2, 3, 4}" by auto
  show ?thesis using tracks_counted [OF c z] unfolding ids .
qed

text \<open>A run ends: with both limits set, after at most the frames that were asked for; and without
  limits, when a stop is requested.\<close>

theorem vision_run_ends:
  "(\<exists>r P' d'. pipeline_run C S (Some n) (Some m) 0 0 P d = Some (r, P', d') \<and>
      (\<forall>k. r = Inr k \<longrightarrow> 0 \<le> n \<longrightarrow> k \<le> n)) \<and>
   (fst (dv_stop d) (snd (dv_stop d) + j) \<longrightarrow>
      (\<exists>r P' d'. pipeline_run C S max_iterations max_empty 0 0 P d = Some (r, P', d')))"
proof -
  obtain r P' d' where run: "pipeline_run C S (Some n) (Some m) 0 0 P d = Some (r, P', d')"
    using run_bounded [of C S n m 0 0 P d] by auto
  have "k \<le> n" if "r = Inr k" "0 \<le> n" for k
    using run_count [OF _ refl that(2)] run that(1) by blast
  moreover obtain f i where "dv_stop d = (f, i)" by fastforce
  moreover have "\<exists>y. pipeline_run C S max_iterations max_empty 0 0 P d = Some y"
    if "dv_stop d = (f, i)" "f (i + j)" using run_stops [OF that] .
  ultimately show ?thesis using run by auto
qed

theorem vision_run_ends_witness:
  "\<exists>r P' d'. pipeline_run demo_vision_config demo_lt_settings None None 0 0 demo_vision demo_devices = Some (r, P', d')"
  using vision_run_ends [of demo_vision_config demo_lt_settings 0 0 demo_vision demo_devices 5 None None]
  by (auto simp: demo_devices_def)

text \<open>A pixel is projected below the vehicle by its height above ground, at the range of a ray that
  is at least the least depression under the horizon; the centre of the image of a level camera is
  projected straight ahead.\<close>

theorem ned_projection:
  assumes "project_pixel_to_ned cam cx cy alt h p r = Some n"
  shows "0 < alt \<and> ned_down_m n = alt \<and>
    (ned_north_m n)\<^sup>2 + (ned_east_m n)\<^sup>2 \<le> (alt / tan (radians NED_MIN_DEPRESSION_DEG))\<^sup>2 \<and>
    (NED_MIN_DEPRESSION_DEG \<le> p \<and> p \<le> 90 \<and> cx = fv_img_w cam / 2 \<and> cy = fv_img_h cam / 2 \<and> r = 0 \<longrightarrow>
      n = \<lparr>ned_north_m = alt / tan (radians p) * cos (radians (mod_360 h)),
           ned_east_m = alt / tan (radians p) * sin (radians (mod_360 h)), ned_down_m = alt\<rparr>)"
proof -
  have "0 < fv_img_w cam" "0 < fv_img_h cam"
    using assms by (auto simp: project_pixel_to_ned_def split: if_splits)
  with project_pixel_centre [of alt cam p h] assms project_pixel_bounds [OF assms] have
    "n = \<lparr>ned_north_m = alt / tan (radians p) * cos (radians (mod_360 h)),
          ned_east_m = alt / tan (radians p) * sin (radians (mod_360 h)), ned_down_m = alt\<rparr>"
    if "NED_MIN_DEPRESSION_DEG \<le> p" "p \<le> 90" "cx = fv_img_w cam / 2" "cy = fv_img_h cam / 2" "r = 0"
    using that by (metis option.inject)
  with project_pixel_bounds [OF assms] show ?thesis by blast
qed

theorem ned_projection_witness:
  "\<exists>n. project_pixel_to_ned \<lparr>fv_img_w = 640, fv_img_h = 480, fv_h_fov_rad = 1, fv_v_fov_rad = 1\<rparr>
      320 240 10 0 45 0 = Some n \<and> n = \<lparr>ned_north_m = 10, ned_east_m = 0, ned_down_m = 10\<rparr>"
proof -
  let ?cam = "\<lparr>fv_img_w = 640, fv_img_h = 480, fv_h_fov_rad = 1, fv_v_fov_rad = 1\<rparr>"
  have "\<exists>n. project_pixel_to_ned ?cam 320 240 10 0 45 0 = Some n"
    by (simp add: project_pixel_to_ned_def ned_ray_def angle_off_axis_rad_def degrees_def Let_def
        NED_MIN_DEPRESSION_DEG_def)
  then obtain n where n: "project_pixel_to_ned ?cam 320 240 10 0 45 0 = Some n" by blast
  have "tan (radians 45) = 1" by (simp add: radians_def tan_45 [unfolded mult.commute])
  then have "n = \<lparr>ned_north_m = 10, ned_east_m = 0, ned_down_m = 10\<rparr>"
    using ned_projection [OF n] by (simp add: NED_MIN_DEPRESSION_DEG_def mod_360_def radians_def)
  with n show ?thesis by blast
qed

end
