(* ===== verification/Tak_Transport.thy ===== *)
theory Tak_Transport
  imports Transport_Core Py_Strings
begin

text \<open>
  The TAK server transport (\<^verbatim>\<open>meshsa/transports/tak.py\<close>): the framing of CoT documents in a byte
  stream, the resolution of the endpoint with its choice of encryption, the checks of the TLS
  material, and the connection with its reconnecting supervisor.  Sockets and certificates are
  outside: a connection is the chunks its reader will deliver, a path is what the file system says
  of it.
\<close>

section \<open>Searching\<close>

text \<open>\<^verbatim>\<open>haystack.find(needle)\<close>, with \<open>None\<close> for -1.\<close>

fun py_find :: "'a list \<Rightarrow> 'a list \<Rightarrow> nat option" where
  "py_find needle [] = (if needle = [] then Some 0 else None)"
| "py_find needle (x # xs) =
     (if prefix needle (x # xs) then Some 0 else map_option Suc (py_find needle xs))"

lemma py_find_Some:
  "py_find needle hay = Some i \<Longrightarrow>
   i + length needle \<le> length hay \<and> prefix needle (drop i hay)"
proof (induction hay arbitrary: i)
  case (Cons x xs)
  then show ?case
    by (cases "prefix needle (x # xs)") (auto dest: prefix_length_le split: if_splits)
qed (auto split: if_splits)

lemma py_find_append: "py_find needle hay = Some i \<Longrightarrow> py_find needle (hay @ ys) = Some i"
proof (induction hay arbitrary: i)
  case Nil
  then have "needle = []" "i = 0" by (auto split: if_splits)
  then show ?case by (cases ys) auto
next
  case (Cons x xs)
  show ?case
  proof (cases "prefix needle (x # xs)")
    case True
    then have "prefix needle ((x # xs) @ ys)" by (rule prefix_order.trans) simp
    with True Cons.prems show ?thesis by simp
  next
    case False
    with Cons.prems obtain j where j: "py_find needle xs = Some j" "i = Suc j" by auto
    have "length needle \<le> length (x # xs)" using py_find_Some [OF j(1)] by simp
    then have "\<not> prefix needle ((x # xs) @ ys)"
      using False prefix_length_prefix [of needle "(x # xs) @ ys" "x # xs"] by auto
    with Cons.IH [OF j(1)] j(2) show ?thesis by simp
  qed
qed

section \<open>Framing\<close>

definition EVENT_END :: bytes where "EVENT_END = utf8_encode ''</event>''"
definition EVENT_START :: bytes where "EVENT_START = utf8_encode ''<event''"

lemma event_end_length [simp]: "length EVENT_END = 8"
  by (simp add: EVENT_END_def)

text \<open>The loop of \<^verbatim>\<open>CotFramer.feed\<close>: the complete documents in the buffer and what is left of it.\<close>

function cot_frames :: "bytes \<Rightarrow> bytes list \<times> bytes" where
  "cot_frames buf =
     (case py_find EVENT_END buf of
        None \<Rightarrow> ([], buf)
      | Some idx \<Rightarrow>
          let raw = take (idx + length EVENT_END) buf; rest = drop (idx + length EVENT_END) buf
          in case cot_frames rest of (events, lft) \<Rightarrow>
               ((case py_find EVENT_START raw of None \<Rightarrow> events | Some s \<Rightarrow> drop s raw # events), lft))"
  by pat_completeness auto
termination
  by (relation "measure length") (auto dest: py_find_Some)

declare cot_frames.simps [simp del]

definition framer_feed :: "bytes \<Rightarrow> bytes \<Rightarrow> bytes list \<times> bytes" where
  "framer_feed buf chunk = cot_frames (buf @ chunk)"

fun feed_all :: "bytes \<Rightarrow> bytes list \<Rightarrow> bytes list \<times> bytes" where
  "feed_all buf [] = ([], buf)"
| "feed_all buf (c # cs) =
     (case framer_feed buf c of (es, buf1) \<Rightarrow> case feed_all buf1 cs of (es2, buf2) \<Rightarrow> (es @ es2, buf2))"

lemma cot_frames_none: "py_find EVENT_END buf = None \<Longrightarrow> cot_frames buf = ([], buf)"
  by (simp add: cot_frames.simps)

definition cut_event :: "bytes \<Rightarrow> bytes list" where
  "cut_event raw = (case py_find EVENT_START raw of None \<Rightarrow> [] | Some s \<Rightarrow> [drop s raw])"

lemma cot_frames_some:
  "py_find EVENT_END buf = Some idx \<Longrightarrow>
   cot_frames buf = (case cot_frames (drop (idx + 8) buf) of (es, lft) \<Rightarrow> (cut_event (take (idx + 8) buf) @ es, lft))"
  by (simp add: cot_frames.simps [of buf] cut_event_def Let_def split: option.split prod.split)

lemma cot_frames_cases:
  obtains (rest) "py_find EVENT_END buf = None" "cot_frames buf = ([], buf)"
  | (event) idx es lft where "py_find EVENT_END buf = Some idx" "idx + 8 \<le> length buf"
      "cot_frames (drop (idx + 8) buf) = (es, lft)" "cot_frames buf = (cut_event (take (idx + 8) buf) @ es, lft)"
proof (cases "py_find EVENT_END buf")
  case None
  with rest show ?thesis by (simp add: cot_frames_none)
next
  case (Some idx)
  obtain es lft where "cot_frames (drop (idx + 8) buf) = (es, lft)" by fastforce
  with Some event show ?thesis using py_find_Some [OF Some] by (simp add: cot_frames_some)
qed

lemma cot_frames_left: "cot_frames buf = (es, lft) \<Longrightarrow> py_find EVENT_END lft = None"
proof (induction "length buf" arbitrary: buf es rule: less_induct)
  case less
  show ?case
  proof (cases rule: cot_frames_cases [of buf])
    case rest
    with less.prems show ?thesis by simp
  next
    case (event idx es2 left2)
    with less.prems less.hyps [of "drop (idx + 8) buf" es2] show ?thesis by simp
  qed
qed

text \<open>Bytes that come later do not change what was found before.\<close>

lemma cot_frames_append:
  "cot_frames buf = (es, lft) \<Longrightarrow>
   cot_frames (buf @ ys) = (case cot_frames (lft @ ys) of (es2, left2) \<Rightarrow> (es @ es2, left2))"
proof (induction "length buf" arbitrary: buf es rule: less_induct)
  case less
  show ?case
  proof (cases rule: cot_frames_cases [of buf])
    case rest
    with less.prems show ?thesis by (simp split: prod.split)
  next
    case (event idx es2 left2)
    with less.prems less.hyps [of "drop (idx + 8) buf" es2]
    have "cot_frames (drop (idx + 8) buf @ ys) =
        (case cot_frames (lft @ ys) of (es3, left3) \<Rightarrow> (es2 @ es3, left3))" by simp
    then show ?thesis using py_find_append [OF event(1), of ys] event less.prems
      by (simp add: cot_frames_some split: prod.split)
  qed
qed

lemma feed_all_concat:
  "py_find EVENT_END buf = None \<Longrightarrow> feed_all buf cs = cot_frames (buf @ concat cs)"
proof (induction cs arbitrary: buf)
  case Nil
  then show ?case by (simp add: cot_frames_none)
next
  case (Cons c cs)
  obtain es buf1 where f: "cot_frames (buf @ c) = (es, buf1)" by fastforce
  with Cons.IH [OF cot_frames_left [OF f]] cot_frames_append [OF f, of "concat cs"] show ?case
    by (simp add: framer_feed_def split: prod.split)
qed

text \<open>A document as a peer sends it: it starts with the start mark, after a separator without one, and
  the end mark is at its end only.\<close>

definition framed :: "bytes \<times> bytes \<Rightarrow> bool" where
  "framed d \<longleftrightarrow> (case d of (sep, doc) \<Rightarrow>
     py_find EVENT_START (sep @ doc) = Some (length sep) \<and> length EVENT_END \<le> length doc \<and>
     py_find EVENT_END (sep @ doc) = Some (length sep + (length doc - length EVENT_END)))"

lemma cot_frames_documents:
  "list_all framed ds \<Longrightarrow>
   cot_frames (concat (map (\<lambda>(sep, doc). sep @ doc) ds) @ tail) =
     (case cot_frames tail of (es, lft) \<Rightarrow> (map snd ds @ es, lft))"
proof (induction ds)
  case Nil
  then show ?case by (simp split: prod.split)
next
  case (Cons d ds)
  obtain sep doc where d: "d = (sep, doc)" by (cases d)
  from Cons.prems d have st: "py_find EVENT_START (sep @ doc) = Some (length sep)"
    and n: "8 \<le> length doc"
    and en: "py_find EVENT_END (sep @ doc) = Some (length sep + (length doc - 8))"
    by (auto simp: framed_def)
  let ?rest = "concat (map (\<lambda>(sep, doc). sep @ doc) ds) @ tail"
  have k: "length sep + (length doc - 8) + 8 = length (sep @ doc)" using n by simp
  have "cot_frames ((sep @ doc) @ ?rest) =
      (case cot_frames ?rest of (events, lft) \<Rightarrow> (doc # events, lft))"
    unfolding cot_frames_some [OF py_find_append [OF en, of ?rest]] k
    using st by (simp add: cut_event_def)
  with Cons d show ?case by (auto split: prod.splits)
qed

section \<open>The endpoint\<close>

definition PORT_FTS_TCP :: int where "PORT_FTS_TCP = 8087"
definition PORT_TAK_TLS :: int where "PORT_TAK_TLS = 8089"

text \<open>The scheme of the host, if it has one: the choice of encryption and the host without it.\<close>

definition strip_scheme :: "string \<Rightarrow> bool \<Rightarrow> py_exn + string \<times> bool" where
  "strip_scheme host tls =
     (case py_find ''://'' host of
        None \<Rightarrow> Inr (host, tls)
      | Some i \<Rightarrow>
          let scheme = py_lower (take i host); host = drop (i + 3) host
          in if scheme \<in> set [''tls'', ''ssl''] then Inr (host, True)
             else if scheme = ''tcp'' then Inr (host, False)
             else Inl ValueError)"

definition split_port :: "string \<Rightarrow> py_exn + string \<times> int option" where
  "split_port host =
     (if count_list host CHR '':'' = 1 then
        (case py_partition CHR '':'' host of (name, _, port_str) \<Rightarrow>
           case py_int_str port_str of None \<Rightarrow> Inl ValueError | Some p \<Rightarrow> Inr (name, Some p))
      else Inr (host, None))"

definition resolve_tak_endpoint ::
  "string \<Rightarrow> int option \<Rightarrow> bool \<Rightarrow> py_exn + string \<times> int \<times> bool" where
  "resolve_tak_endpoint host port tls =
     then_ok (strip_scheme host tls) (\<lambda>(host, use_tls).
     then_ok (split_port host) (\<lambda>(host, embedded).
       let resolved = (case port of Some p \<Rightarrow> Some p | None \<Rightarrow> embedded)
       in Inr (host,
               case resolved of
                 None \<Rightarrow> if use_tls then PORT_TAK_TLS else PORT_FTS_TCP
               | Some p \<Rightarrow> p,
               use_tls)))"

section \<open>TLS material\<close>

text \<open>What the file system says of a path; \<open>Malformed\<close> is a readable file that is no certificate.\<close>

datatype file_state = Absent | Not_Regular | Unreadable | Malformed | Usable

datatype tls_exn =
    KeyRequired | CertRequired | FileNotFoundError string | PermissionError string | SSLError

definition require_file :: "(string \<Rightarrow> file_state) \<Rightarrow> string \<Rightarrow> string option \<Rightarrow> tls_exn + unit" where
  "require_file files label path =
     (case path of
        None \<Rightarrow> Inr ()
      | Some p \<Rightarrow>
          if files p = Absent then Inl (FileNotFoundError label)
          else if files p = Not_Regular then Inl (FileNotFoundError label)
          else if files p = Unreadable then Inl (PermissionError label)
          else Inr ())"

record tls_context =
  tx_ca :: "string option"
  tx_check_hostname :: bool
  tx_cert_required :: bool
  tx_chain :: "(string \<times> string) option"

text \<open>\<^verbatim>\<open>ssl.create_default_context\<close> checks names and certificates until it is told not to.\<close>

definition create_default_context :: "(string \<Rightarrow> file_state) \<Rightarrow> string option \<Rightarrow> tls_exn + tls_context" where
  "create_default_context files ca =
     (if ca \<noteq> None \<and> files (the ca) \<noteq> Usable then Inl SSLError
      else Inr \<lparr>tx_ca = ca, tx_check_hostname = True, tx_cert_required = True, tx_chain = None\<rparr>)"

definition build_ssl_context ::
  "(string \<Rightarrow> file_state) \<Rightarrow> string option \<Rightarrow> string option \<Rightarrow> string option \<Rightarrow> bool \<Rightarrow> tls_exn + tls_context" where
  "build_ssl_context files ca_cert client_cert client_key verify =
     (if client_cert \<noteq> None \<and> client_key = None then Inl KeyRequired
      else if client_key \<noteq> None \<and> client_cert = None then Inl CertRequired
      else
        then_ok (require_file files ''tls_ca_cert'' ca_cert) (\<lambda>_.
        then_ok (require_file files ''tls_client_cert'' client_cert) (\<lambda>_.
        then_ok (require_file files ''tls_client_key'' client_key) (\<lambda>_.
        then_ok (create_default_context files ca_cert) (\<lambda>ctx.
          let ctx1 = (if \<not> verify then ctx\<lparr>tx_check_hostname := False, tx_cert_required := False\<rparr> else ctx)
          in case (client_cert, client_key) of
               (Some cert, Some key) \<Rightarrow>
                 if files cert = Usable \<and> files key = Usable then Inr (ctx1\<lparr>tx_chain := Some (cert, key)\<rparr>)
                 else Inl SSLError
             | _ \<Rightarrow> Inr ctx1)))))"

lemma strip_scheme_plain:
  "strip_scheme host tls = Inr (h, False) \<Longrightarrow>
   (py_find ''://'' host = None \<and> \<not> tls) \<or>
   (\<exists>i. py_find ''://'' host = Some i \<and> py_lower (take i host) = ''tcp'')"
  by (auto simp: strip_scheme_def Let_def split: option.splits if_splits)

lemma resolve_endpoint_facts:
  assumes "resolve_tak_endpoint host port tls = Inr (h, p, use_tls)"
  obtains h0 embedded where "strip_scheme host tls = Inr (h0, use_tls)" "split_port h0 = Inr (h, embedded)"
    "p = (case port of Some q \<Rightarrow> q | None \<Rightarrow>
            case embedded of Some q \<Rightarrow> q | None \<Rightarrow> if use_tls then PORT_TAK_TLS else PORT_FTS_TCP)"
proof -
  from assms obtain h0 embedded where a: "strip_scheme host tls = Inr (h0, use_tls)"
      "split_port h0 = Inr (h, embedded)"
    and p: "p = (case case port of Some q \<Rightarrow> Some q | None \<Rightarrow> embedded of
        None \<Rightarrow> if use_tls then PORT_TAK_TLS else PORT_FTS_TCP | Some q \<Rightarrow> q)"
    by (auto simp: resolve_tak_endpoint_def then_ok_Inr_iff Let_def)
  from p show ?thesis by (intro that [OF a]) (auto split: option.split)
qed

lemma require_file_ok:
  "require_file files label path = Inr u \<Longrightarrow> path = Some p \<Longrightarrow> files p \<in> {Malformed, Usable}"
  by (cases "files p") (auto simp: require_file_def split: if_splits)

section \<open>The connection\<close>

text \<open>
  A reader is what its reads will return, in order: a chunk, the empty chunk of a closed connection,
  or an exception.  A reader at its end is a closed connection.
\<close>

type_synonym reader = "(py_exn + bytes) list"
type_synonym dial = "py_exn + reader"

record tak =
  tk_inbox :: inbox
  tk_reader :: "reader option"
  tk_writer :: bool
  tk_backoff :: backoff
  tk_pacer :: "pacer option"
  tk_reconnect :: bool
  tk_delimiter :: bytes
  tk_started :: bool
  tk_stopping :: bool
  tk_finished :: bool
  tk_reconnects :: nat
  tk_slept :: "real list"
  tk_sent :: "bytes list"

text \<open>
  \<^verbatim>\<open>_read_loop\<close>: each connection has a framer of its own.  The buffer is the second argument.
\<close>

fun read_loop :: "reader \<Rightarrow> bytes \<Rightarrow> inbox \<Rightarrow> inbox" where
  "read_loop [] buf q = q"
| "read_loop (Inl e # rs) buf q = q"
| "read_loop (Inr chunk # rs) buf q =
     (if chunk = [] then q
      else case framer_feed buf chunk of (es, buf1) \<Rightarrow> read_loop rs buf1 (foldl ingest_nowait q es))"

definition tak_sleep :: "tak \<Rightarrow> tak" where
  "tak_sleep t =
     (case sleep_and_advance (tk_backoff t) of
        (d, b) \<Rightarrow> t\<lparr>tk_backoff := b, tk_slept := tk_slept t @ [d]\<rparr>)"

definition aclose_writer :: "tak \<Rightarrow> tak" where
  "aclose_writer t = t\<lparr>tk_writer := False\<rparr>"

text \<open>What the supervisor does with a connection: read to its end, close it, and sleep or finish.\<close>

definition tak_serve :: "reader \<Rightarrow> tak \<Rightarrow> tak" where
  "tak_serve r t =
     (let t1 = (aclose_writer (t\<lparr>tk_inbox := read_loop r [] (tk_inbox t)\<rparr>))\<lparr>tk_reader := None\<rparr>
      in if \<not> tk_reconnect t1 then t1\<lparr>tk_finished := True\<rparr> else tak_sleep t1)"

text \<open>
  One pass of the loop of \<^verbatim>\<open>_supervise\<close>; \<open>dial\<close> is what the connector answers if it is called.
\<close>

definition tak_pass :: "tak \<Rightarrow> dial \<Rightarrow> tak" where
  "tak_pass t dial =
     (if tk_stopping t \<or> tk_finished t then t
      else case tk_reader t of
        Some r \<Rightarrow> tak_serve r t
      | None \<Rightarrow>
          (case dial of
             Inl _ \<Rightarrow> tak_sleep t
           | Inr r \<Rightarrow> tak_serve r
               (t\<lparr>tk_reader := Some r, tk_writer := True, tk_backoff := backoff_reset (tk_backoff t),
                  tk_reconnects := Suc (tk_reconnects t)\<rparr>)))"

definition tak_supervise :: "dial list \<Rightarrow> tak \<Rightarrow> tak" where
  "tak_supervise dials t = foldl tak_pass (t\<lparr>tk_backoff := backoff_reset (tk_backoff t)\<rparr>) dials"

text \<open>\<^verbatim>\<open>start\<close>: the first connection; what the supervisor does is the business of \<open>tak_supervise\<close>.\<close>

definition tak_start :: "dial \<Rightarrow> tak \<Rightarrow> (py_exn + unit) \<times> tak" where
  "tak_start dial t =
     (let t1 = t\<lparr>tk_started := True, tk_stopping := False\<rparr>
      in case dial of
           Inr r \<Rightarrow> (Inr (), t1\<lparr>tk_reader := Some r, tk_writer := True, tk_finished := False\<rparr>)
         | Inl e \<Rightarrow>
             if \<not> tk_reconnect t1 then (Inl e, t1\<lparr>tk_started := False\<rparr>)
             else (Inr (), t1\<lparr>tk_reader := None, tk_writer := False, tk_finished := False\<rparr>))"

text \<open>
  \<^verbatim>\<open>send\<close> at the time \<open>now\<close>: without a connection the frame is dropped.  A sender that must wait goes
  on at \<open>woke\<close>; \<open>ok\<close> is whether the writer took the bytes.
\<close>

definition tak_send :: "real \<Rightarrow> real \<Rightarrow> bool \<Rightarrow> bytes \<Rightarrow> tak \<Rightarrow> (py_exn + unit) \<times> tak" where
  "tak_send now woke ok data t =
     (if \<not> tk_started t then (Inl RuntimeError, t)
      else if \<not> tk_writer t then (Inr (), t)
      else
        let t1 = (case tk_pacer t of
              None \<Rightarrow> t | Some p \<Rightarrow> t\<lparr>tk_pacer := Some (snd (acquire now woke p))\<rparr>)
        in (Inr (), if ok then t1\<lparr>tk_sent := tk_sent t1 @ [data @ tk_delimiter t1]\<rparr> else t1))"

definition tak_stop :: "tak \<Rightarrow> tak" where
  "tak_stop t = (aclose_writer (t\<lparr>tk_stopping := True, tk_finished := True\<rparr>))\<lparr>tk_started := False\<rparr>"

text \<open>The bytes a connection gives before it closes or fails.\<close>

fun received :: "reader \<Rightarrow> bytes" where
  "received [] = []"
| "received (Inl e # rs) = []"
| "received (Inr chunk # rs) = (if chunk = [] then [] else chunk @ received rs)"

definition heard :: "reader \<Rightarrow> bytes list" where
  "heard r = fst (cot_frames (received r))"

lemma read_loop_received:
  "py_find EVENT_END buf = None \<Longrightarrow>
   read_loop r buf q = foldl ingest_nowait q (fst (cot_frames (buf @ received r)))"
proof (induction r buf q rule: read_loop.induct)
  case (3 chunk rs buf q)
  show ?case
  proof (cases "chunk = []")
    case True
    with 3 show ?thesis by (simp add: cot_frames_none)
  next
    case False
    obtain es buf1 where f: "framer_feed buf chunk = (es, buf1)" by fastforce
    then have c: "cot_frames (buf @ chunk) = (es, buf1)" by (simp add: framer_feed_def)
    with False f 3(1) [OF False f [symmetric] cot_frames_left [OF c]] cot_frames_append [OF c, of "received rs"]
    show ?thesis by (simp split: prod.split)
  qed
qed (simp_all add: cot_frames_none)

lemma event_end_not_empty [simp]: "EVENT_END \<noteq> []"
  by (simp flip: length_0_conv)

lemma read_loop_heard: "read_loop r [] q = foldl ingest_nowait q (heard r)"
  by (simp add: read_loop_received heard_def)

section \<open>The supervisor\<close>

text \<open>
  Between two passes a reconnecting supervisor has no reader.  The index of a delay in the schedule
  of the backoff: it starts again with each connection.
\<close>

fun delay_indices :: "nat \<Rightarrow> dial list \<Rightarrow> nat list" where
  "delay_indices k [] = []"
| "delay_indices k (Inl e # ds) = k # delay_indices (Suc k) ds"
| "delay_indices k (Inr r # ds) = 0 # delay_indices 1 ds"

definition idle :: "tak \<Rightarrow> bool" where
  "idle t \<longleftrightarrow> tk_reader t = None \<and> tk_reconnect t \<and> \<not> tk_stopping t \<and> \<not> tk_finished t"

definition outcomes :: "dial list \<Rightarrow> bytes list" where
  "outcomes ds = concat (map (\<lambda>d. case d of Inl _ \<Rightarrow> [] | Inr r \<Rightarrow> heard r) ds)"

lemma tak_pass_idle:
  fixes d :: dial
  assumes "idle t" "backoff_at k (tk_backoff t)"
  defines "u \<equiv> tak_pass t d"
  shows "idle u" "tk_slept u = tk_slept t @ [delay_at (tk_backoff t) (hd (delay_indices k [d]))]"
    "backoff_at (Suc (hd (delay_indices k [d]))) (tk_backoff u)" "delay_at (tk_backoff u) = delay_at (tk_backoff t)"
    "tk_inbox u = foldl ingest_nowait (tk_inbox t) (outcomes [d])"
    "tk_reconnects u = tk_reconnects t + (if isl d then 0 else 1)"
proof -
  let ?b = "case d of Inl _ \<Rightarrow> tk_backoff t | Inr _ \<Rightarrow> backoff_reset (tk_backoff t)"
  let ?k = "hd (delay_indices k [d])"
  obtain s b' where sl: "sleep_and_advance ?b = (s, b')" by fastforce
  have same: "delay_at ?b = delay_at (tk_backoff t)"
    by (auto simp: delay_at_def backoff_reset_def fun_eq_iff split: sum.split)
  have at_k: "backoff_at ?k ?b"
    using assms(2) by (cases d) (auto simp: backoff_at_def backoff_reset_def delay_at_def)
  note st = delay_at_step [OF at_k sl]
  have u: "tk_backoff u = b'" "tk_slept u = tk_slept t @ [s]"
    "tk_inbox u = foldl ingest_nowait (tk_inbox t) (outcomes [d])" "idle u"
    "tk_reconnects u = tk_reconnects t + (if isl d then 0 else 1)"
    using assms(1) sl unfolding u_def
    by (cases d; simp add: tak_pass_def idle_def tak_sleep_def tak_serve_def aclose_writer_def
        read_loop_heard outcomes_def Let_def)+
  show "idle u" "tk_inbox u = foldl ingest_nowait (tk_inbox t) (outcomes [d])"
    "tk_reconnects u = tk_reconnects t + (if isl d then 0 else 1)" by (fact u)+
  show "tk_slept u = tk_slept t @ [delay_at (tk_backoff t) ?k]" using u(2) st(1) same by simp
  show "backoff_at (Suc ?k) (tk_backoff u)" using st(2) u(1) by simp
  show "delay_at (tk_backoff u) = delay_at (tk_backoff t)" using st(3) same u(1) by simp
qed

lemma tak_passes:
  assumes "idle t" "backoff_at k (tk_backoff t)"
  shows "idle (foldl tak_pass t ds) \<and>
    tk_slept (foldl tak_pass t ds) = tk_slept t @ map (delay_at (tk_backoff t)) (delay_indices k ds) \<and>
    tk_inbox (foldl tak_pass t ds) = foldl ingest_nowait (tk_inbox t) (outcomes ds) \<and>
    tk_reconnects (foldl tak_pass t ds) = tk_reconnects t + length (filter (\<lambda>d. \<not> isl d) ds)"
  using assms
proof (induction ds arbitrary: t k)
  case Nil
  then show ?case by (simp add: outcomes_def)
next
  case (Cons d ds)
  note p = tak_pass_idle [OF Cons.prems, of d]
  have "delay_indices k (d # ds) = hd (delay_indices k [d]) # delay_indices (Suc (hd (delay_indices k [d]))) ds"
    by (cases d) simp_all
  moreover have "outcomes (d # ds) = outcomes [d] @ outcomes ds" by (simp add: outcomes_def)
  ultimately show ?case using Cons.IH [OF p(1,3)] p by simp
qed

section \<open>Multicast\<close>

text \<open>
  The datagram transport (\<^verbatim>\<open>tak_multicast.py\<close>).  One pass of its loop sees whether the socket can be
  built, if it has to be, and what the socket receives, if there is one.
\<close>

record multicast =
  mc_inbox :: inbox
  mc_io :: bool
  mc_backoff :: backoff
  mc_stopping :: bool
  mc_reconnects :: nat
  mc_slept :: "real list"
  mc_sent :: "bytes list"

definition mc_start :: "py_exn option \<Rightarrow> multicast \<Rightarrow> (py_exn + unit) \<times> multicast" where
  "mc_start built m =
     (let m1 = m\<lparr>mc_stopping := False\<rparr>
      in case built of
           Some e \<Rightarrow> (Inl e, m1)
         | None \<Rightarrow> (Inr (), m1\<lparr>mc_io := True, mc_backoff := backoff_reset (mc_backoff m1)\<rparr>))"

definition mc_sleep :: "multicast \<Rightarrow> multicast" where
  "mc_sleep m =
     (case sleep_and_advance (mc_backoff m) of
        (d, b) \<Rightarrow> m\<lparr>mc_backoff := b, mc_slept := mc_slept m @ [d]\<rparr>)"

definition mc_receive :: "py_exn + bytes \<Rightarrow> multicast \<Rightarrow> multicast" where
  "mc_receive got m =
     (case got of
        Inl _ \<Rightarrow> mc_sleep (m\<lparr>mc_io := False\<rparr>)
      | Inr data \<Rightarrow>
          let m1 = (if data \<noteq> [] then m\<lparr>mc_inbox := ingest_nowait (mc_inbox m) data\<rparr> else m)
          in m1\<lparr>mc_backoff := backoff_reset (mc_backoff m1)\<rparr>)"

definition mc_pass :: "multicast \<Rightarrow> bool \<times> (py_exn + bytes) \<Rightarrow> multicast" where
  "mc_pass m answer =
     (case answer of (built, got) \<Rightarrow>
        if mc_stopping m then m
        else if mc_io m then mc_receive got m
        else if \<not> built then mc_sleep m
        else mc_receive got (m\<lparr>mc_io := True, mc_backoff := backoff_reset (mc_backoff m),
                               mc_reconnects := Suc (mc_reconnects m)\<rparr>))"

definition mc_send :: "bytes \<Rightarrow> multicast \<Rightarrow> (py_exn + unit) \<times> multicast" where
  "mc_send data m =
     (if \<not> mc_io m then (Inl RuntimeError, m) else (Inr (), m\<lparr>mc_sent := mc_sent m @ [data]\<rparr>))"

definition mc_stop :: "multicast \<Rightarrow> multicast" where
  "mc_stop m = m\<lparr>mc_stopping := True, mc_io := False\<rparr>"

text \<open>The datagrams that reach the socket: those of the passes that have one.\<close>

fun datagrams :: "bool \<Rightarrow> (bool \<times> (py_exn + bytes)) list \<Rightarrow> bytes list" where
  "datagrams io [] = []"
| "datagrams io ((built, got) # xs) =
     (if io \<or> built
      then case got of Inl _ \<Rightarrow> datagrams False xs
           | Inr data \<Rightarrow> (if data = [] then [] else [data]) @ datagrams True xs
      else datagrams False xs)"

lemma mc_passes:
  "\<not> mc_stopping m \<Longrightarrow>
   mc_inbox (foldl mc_pass m xs) = foldl ingest_nowait (mc_inbox m) (datagrams (mc_io m) xs)"
proof (induction xs arbitrary: m)
  case (Cons x xs)
  obtain built got where x: "x = (built, got)" by (cases x)
  have "\<not> mc_stopping (mc_pass m x) \<and>
      foldl ingest_nowait (mc_inbox m) (datagrams (mc_io m) (x # xs)) =
      foldl ingest_nowait (mc_inbox (mc_pass m x)) (datagrams (mc_io (mc_pass m x)) xs)"
    using Cons.prems
    by (auto simp: x mc_pass_def mc_receive_def mc_sleep_def sleep_and_advance_def Let_def split: sum.split)
  then show ?case using Cons.IH [of "mc_pass m x"] by simp
qed simp

end
