(* ===== verification/Tak_Facts.thy ===== *)
theory Tak_Facts
  imports Tak_Transport
begin

text \<open>The properties of the TAK server transport, each with a concrete instance.\<close>

section \<open>Framing\<close>

definition stream_of :: "(bytes \<times> bytes) list \<Rightarrow> bytes" where
  "stream_of ds = concat (map (\<lambda>(sep, doc). sep @ doc) ds)"

text \<open>
  A connection that carries the documents \<open>ds\<close> and then breaks off: what is left has no end mark.
\<close>

definition carries :: "bytes \<Rightarrow> (bytes \<times> bytes) list \<Rightarrow> bool" where
  "carries raw ds \<longleftrightarrow>
     list_all framed ds \<and> prefix (stream_of ds) raw \<and>
     py_find EVENT_END (drop (length (stream_of ds)) raw) = None"

lemma carries_frames:
  "carries raw ds \<Longrightarrow> cot_frames raw = (map snd ds, drop (length (stream_of ds)) raw)"
  using cot_frames_documents [of ds "drop (length (stream_of ds)) raw"]
  by (auto simp: carries_def prefix_def stream_of_def cot_frames_none split: prod.splits)

text \<open>However the network cuts the stream into chunks, the framer gives the documents that the
  peer wrote, in order and without what stands between them, and keeps the broken rest.\<close>

theorem cot_framing_recovers:
  "carries (concat chunks) ds \<Longrightarrow>
   feed_all [] chunks = (map snd ds, drop (length (stream_of ds)) (concat chunks))"
  by (simp add: feed_all_concat carries_frames)

definition demo_doc :: bytes where "demo_doc = utf8_encode ''<event a=1/></event>''"
definition demo_torn :: bytes where "demo_torn = utf8_encode ''<event b=2></eve''"

definition demo_raw :: bytes where "demo_raw = utf8_encode ''\<newline>'' @ demo_doc @ demo_torn"
definition demo_docs :: "(bytes \<times> bytes) list" where "demo_docs = [(utf8_encode ''\<newline>'', demo_doc)]"
definition demo_chunks :: "bytes list" where
  "demo_chunks = [take 3 demo_raw, take 20 (drop 3 demo_raw), drop 20 (drop 3 demo_raw)]"

lemma demo_carries: "carries demo_raw demo_docs"
  by code_simp

lemma demo_facts: "concat demo_chunks = demo_raw" "map snd demo_docs = [demo_doc]"
  "drop (length (stream_of demo_docs)) demo_raw = demo_torn"
  by code_simp+

theorem cot_framing_recovers_witness:
  "feed_all [] demo_chunks = ([demo_doc], demo_torn)"
  using cot_framing_recovers [of demo_chunks demo_docs] demo_carries by (simp add: demo_facts)

section \<open>The supervisor\<close>

lemma carries_heard: "carries (received r) ds \<Longrightarrow> heard r = map snd ds"
  by (simp add: heard_def carries_frames)

lemma outcomes_carried:
  "list_all2 (\<lambda>d ds. case d of Inl _ \<Rightarrow> ds = [] | Inr r \<Rightarrow> carries (received r) ds) dials docs \<Longrightarrow>
   outcomes dials = concat (map (map snd) docs)"
  by (induction dials docs rule: list_all2_induct) (auto simp: outcomes_def carries_heard split: sum.splits)

text \<open>C16: A reconnecting supervisor that meets connections which each carry some documents and then
  break, and refused ones between them, hands exactly these documents to the inbox, in order: the rest
  of a broken connection never runs into the next.  It counts its connections and sleeps once per
  answer, by the geometric schedule that starts again with each connection and stays within the
  configured delays.\<close>

theorem supervisor_delivers:
  assumes "idle t" "1 \<le> bo_factor (tk_backoff t)" "0 \<le> bo_initial (tk_backoff t)"
    and "bo_initial (tk_backoff t) \<le> bo_max (tk_backoff t)"
    and "list_all2 (\<lambda>d ds. case d of Inl _ \<Rightarrow> ds = [] | Inr r \<Rightarrow> carries (received r) ds) dials docs"
  shows "tk_inbox (tak_supervise dials t) = foldl ingest_nowait (tk_inbox t) (concat (map (map snd) docs)) \<and>
    tk_reconnects (tak_supervise dials t) = tk_reconnects t + length (filter (\<lambda>d. \<not> isl d) dials) \<and>
    tk_slept (tak_supervise dials t) =
      tk_slept t @ map (delay_at (tk_backoff t)) (delay_indices 0 dials) \<and>
    (\<forall>k. bo_initial (tk_backoff t) \<le> delay_at (tk_backoff t) k \<and> delay_at (tk_backoff t) k \<le> bo_max (tk_backoff t))"
proof -
  let ?t = "t\<lparr>tk_backoff := backoff_reset (tk_backoff t)\<rparr>"
  have same: "delay_at (tk_backoff ?t) = delay_at (tk_backoff t)"
    by (simp add: delay_at_def backoff_reset_def fun_eq_iff)
  have "idle ?t" using assms(1) by (simp add: idle_def)
  moreover have "backoff_at 0 (tk_backoff ?t)"
    using assms by (simp add: backoff_at_def backoff_reset_def delay_at_def)
  ultimately show ?thesis
    using tak_passes [of ?t 0 dials] outcomes_carried [OF assms(5)] same
      delay_at_bounds [OF assms(2-4)] by (simp add: tak_supervise_def)
qed

definition demo_tak :: tak where
  "demo_tak = \<lparr>tk_inbox = \<lparr>ib_maxsize = 1000, ib_items = [], ib_dropped = 0\<rparr>, tk_reader = None,
     tk_writer = False, tk_backoff = new_backoff 1 30 2, tk_pacer = None, tk_reconnect = True,
     tk_delimiter = [], tk_started = True, tk_stopping = False, tk_finished = False,
     tk_reconnects = 0, tk_slept = [], tk_sent = []\<rparr>"

definition demo_dials :: "dial list" where
  "demo_dials = [Inl OSError, Inl OSError, Inr [Inr demo_raw, Inl OSError], Inr [Inr demo_raw]]"

theorem supervisor_delivers_witness:
  "ib_items (tk_inbox (tak_supervise demo_dials demo_tak)) = [demo_doc, demo_doc] \<and>
   tk_slept (tak_supervise demo_dials demo_tak) = [1, 2, 1, 1]"
proof -
  have "demo_raw \<noteq> []" by code_simp
  then have ok: "list_all2 (\<lambda>d ds. case d of Inl _ \<Rightarrow> ds = [] | Inr r \<Rightarrow> carries (received r) ds) demo_dials
      [[], [], demo_docs, demo_docs]"
    using demo_carries by (simp add: demo_dials_def)
  have "tk_inbox (tak_supervise demo_dials demo_tak) =
      foldl ingest_nowait (tk_inbox demo_tak) (concat (map (map snd) [[], [], demo_docs, demo_docs])) \<and>
    tk_slept (tak_supervise demo_dials demo_tak) =
      tk_slept demo_tak @ map (delay_at (tk_backoff demo_tak)) (delay_indices 0 demo_dials)"
    using supervisor_delivers [OF _ _ _ _ ok, of demo_tak]
    by (simp add: demo_tak_def idle_def new_backoff_def)
  then show ?thesis
    by (simp add: demo_tak_def new_backoff_def delay_at_def ingest_nowait_def ib_room_def demo_dials_def demo_facts)
qed

section \<open>Encryption\<close>

lemma scheme_colons:
  assumes "strip_scheme host tls = Inr (h, use_tls)"
    and "count_list host CHR '':'' = (if py_find ''://'' host = None then 0 else 1)"
  shows "CHR '':'' \<notin> set h"
proof (cases "py_find ''://'' host")
  case None
  with assms show ?thesis by (auto simp: strip_scheme_def count_list_0_iff)
next
  case (Some i)
  then obtain rest where d: "drop i host = ''://'' @ rest"
    using py_find_Some [OF Some] by (auto simp: prefix_def)
  then have host: "host = take i host @ ''://'' @ rest" by (metis append_take_drop_id)
  have rest: "rest = drop (i + 3) host"
    using arg_cong [OF d, of "drop 3"] by (simp add: add.commute)
  have "count_list (take i host @ ''://'' @ rest) CHR '':'' = 1" using assms(2) Some host by simp
  then have "CHR '':'' \<notin> set rest" by (auto simp: count_list_0_iff)
  then show ?thesis using assms(1) Some rest
    by (auto simp: strip_scheme_def Let_def split: if_splits)
qed

lemma split_port_none: "CHR '':'' \<notin> set h \<Longrightarrow> split_port h = Inr (h, None)"
  by (simp add: split_port_def flip: count_list_0_iff)

lemma ssl_context_facts:
  assumes "build_ssl_context files ca cert key verify = Inr ctx"
  shows "tx_check_hostname ctx = verify" "tx_cert_required ctx = verify"
    "tx_chain ctx = (case (cert, key) of (Some c, Some k) \<Rightarrow> Some (c, k) | _ \<Rightarrow> None)"
    "cert = None \<longleftrightarrow> key = None" "Some f \<in> {ca, cert, key} \<Longrightarrow> files f = Usable"
  using assms
  by (auto simp: build_ssl_context_def create_default_context_def then_ok_Inr_iff Let_def
      split: if_splits option.splits)

text \<open>What is left of a host without its scheme.\<close>

definition bare_host :: "string \<Rightarrow> string" where
  "bare_host host = (case py_find ''://'' host of None \<Rightarrow> host | Some i \<Rightarrow> drop (i + 3) host)"

lemma strip_scheme_bare: "strip_scheme host tls = Inr (h, use_tls) \<Longrightarrow> h = bare_host host"
  by (auto simp: strip_scheme_def bare_host_def Let_def split: option.splits if_splits)

lemma split_port_embedded:
  assumes "CHR '':'' \<notin> set name" "CHR '':'' \<notin> set digits"
  shows "split_port (name @ CHR '':'' # digits) =
    (case py_int_str digits of None \<Rightarrow> Inl ValueError | Some q \<Rightarrow> Inr (name, Some q))"
proof -
  have "count_list (name @ CHR '':'' # digits) CHR '':'' = 1" using assms by (simp add: count_list_0_iff)
  then show ?thesis by (simp add: split_port_def partition_append [OF assms(1)])
qed

lemma split_port_whole: "count_list h CHR '':'' \<noteq> 1 \<Longrightarrow> split_port h = Inr (h, None)"
  by (simp add: split_port_def)

text \<open>C31: A TAK connection is in plain text only where the configuration asks for it: by the scheme
  \<^verbatim>\<open>tcp\<close>, or by no scheme at all with the TLS flag off.  The port given first wins, then the one behind the
  only colon of the host, which must be a number, then the standard one of the encryption chosen.  A TLS context that is
  built checks names and certificates unless verification is switched off, and has the client's certificate
  and key both or neither.\<close>

theorem tak_never_silently_plaintext:
  assumes "resolve_tak_endpoint host port tls = Inr (h, p, use_tls)"
    and "build_ssl_context files ca cert key verify = Inr ctx"
  shows "(\<not> use_tls \<longrightarrow> (if py_find ''://'' host = None then \<not> tls
            else py_lower (take (the (py_find ''://'' host)) host) = ''tcp'')) \<and>
    (\<forall>q. port = Some q \<longrightarrow> p = q) \<and>
    (\<forall>name digits. bare_host host = name @ CHR '':'' # digits \<and> CHR '':'' \<notin> set name \<and> CHR '':'' \<notin> set digits \<longrightarrow>
       h = name \<and> (\<exists>q. py_int_str digits = Some q \<and> (port = None \<longrightarrow> p = q))) \<and>
    (count_list (bare_host host) CHR '':'' \<noteq> 1 \<longrightarrow>
       h = bare_host host \<and> (port = None \<longrightarrow> p = (if use_tls then 8089 else 8087))) \<and>
    tx_check_hostname ctx = verify \<and> tx_cert_required ctx = verify \<and>
    tx_chain ctx = (case (cert, key) of (Some c, Some k) \<Rightarrow> Some (c, k) | _ \<Rightarrow> None) \<and>
    (cert = None \<longleftrightarrow> key = None) \<and> {f. Some f \<in> {ca, cert, key}} \<subseteq> {f. files f = Usable}"
proof -
  obtain h0 embedded where st: "strip_scheme host tls = Inr (h0, use_tls)" "split_port h0 = Inr (h, embedded)"
    "p = (case port of Some q \<Rightarrow> q | None \<Rightarrow>
            case embedded of Some q \<Rightarrow> q | None \<Rightarrow> if use_tls then PORT_TAK_TLS else PORT_FTS_TCP)"
    using resolve_endpoint_facts [OF assms(1)] .
  note bare = strip_scheme_bare [OF st(1)]
  have "\<not> use_tls \<Longrightarrow> (if py_find ''://'' host = None then \<not> tls
            else py_lower (take (the (py_find ''://'' host)) host) = ''tcp'')"
    using strip_scheme_plain [of host tls h0] st(1) by auto
  moreover have "h = name \<and> (\<exists>q. py_int_str digits = Some q \<and> (port = None \<longrightarrow> p = q))"
    if "bare_host host = name @ CHR '':'' # digits" "CHR '':'' \<notin> set name" "CHR '':'' \<notin> set digits" for name digits
  proof -
    have sp: "(case py_int_str digits of None \<Rightarrow> Inl ValueError | Some q \<Rightarrow> Inr (name, Some q)) = Inr (h, embedded)"
      using split_port_embedded [OF that(2,3)] st(2) bare that(1) by simp
    then obtain q where q: "py_int_str digits = Some q" by (cases "py_int_str digits") simp_all
    with sp have "h = name" "embedded = Some q" by simp_all
    with q st(3) show ?thesis by simp
  qed
  moreover have "h = bare_host host \<and> (port = None \<longrightarrow> p = (if use_tls then 8089 else 8087))"
    if "count_list (bare_host host) CHR '':'' \<noteq> 1"
    using split_port_whole [OF that] st(2,3) bare by (simp add: PORT_TAK_TLS_def PORT_FTS_TCP_def)
  ultimately show ?thesis using st(3) ssl_context_facts [OF assms(2)] by auto
qed

theorem tak_never_silently_plaintext_witness:
  "resolve_tak_endpoint ''SSL://hq.example:9000'' None False = Inr (''hq.example'', 9000, True) \<and>
   (\<exists>ctx. build_ssl_context (\<lambda>_. Usable) None None None True = Inr ctx \<and> tx_cert_required ctx) \<and>
   py_int_str ''9000'' = Some 9000"
proof -
  let ?files = "\<lambda>_ :: string. Usable"
  have r: "resolve_tak_endpoint ''SSL://hq.example:9000'' None False = Inr (''hq.example'', 9000, True)" by code_simp
  obtain ctx where c: "build_ssl_context ?files None None None True = Inr ctx"
    by (simp add: build_ssl_context_def require_file_def create_default_context_def)
  note facts = tak_never_silently_plaintext [OF r c]
  have "bare_host ''SSL://hq.example:9000'' = ''hq.example'' @ CHR '':'' # ''9000''" by code_simp
  then have "\<exists>q. py_int_str ''9000'' = Some q \<and> ((None :: int option) = None \<longrightarrow> 9000 = q)"
    using facts [THEN conjunct2, THEN conjunct2, THEN conjunct1, THEN spec, THEN spec, of "''hq.example''" "''9000''"] by simp
  then have "py_int_str ''9000'' = Some 9000" by simp
  with facts r c show ?thesis by auto
qed

end
