(* ===== verification/Py_Time.thy ===== *)
theory Py_Time
  imports Py_Strings
begin

text \<open>
  Dates and times as the code writes and reads them in Cursor-on-Target events (\<^verbatim>\<open>_iso\<close> and
  \<^verbatim>\<open>_parse_ts\<close> of \<^verbatim>\<open>meshsa/cot.py\<close>): the proleptic Gregorian calendar, the text of an instant to the
  millisecond, and the reading of the formats that every supported Python reads, which are those of
  version 3.10.  An instant is a number of microseconds since 1970.
\<close>

section \<open>The calendar\<close>

definition leap :: "nat \<Rightarrow> bool" where
  "leap y \<longleftrightarrow> y mod 4 = 0 \<and> (y mod 100 \<noteq> 0 \<or> y mod 400 = 0)"

definition days_in_month :: "nat \<Rightarrow> nat \<Rightarrow> nat" where
  "days_in_month y m =
     (if m = 2 then (if leap y then 29 else 28) else if m \<in> {4, 6, 9, 11} then 30 else 31)"

text \<open>The days before a year; the first day of the year 1 has number 0.\<close>

definition days_before_year :: "nat \<Rightarrow> nat" where
  "days_before_year y = 365 * (y - 1) + (y - 1) div 4 - (y - 1) div 100 + (y - 1) div 400"

definition days_before_month :: "nat \<Rightarrow> nat \<Rightarrow> nat" where
  "days_before_month y m = sum_list (map (days_in_month y) [1..<m])"

definition day_number :: "nat \<Rightarrow> nat \<Rightarrow> nat \<Rightarrow> nat" where
  "day_number y m d = days_before_year y + days_before_month y m + (d - 1)"

definition year_days :: "nat \<Rightarrow> nat" where
  "year_days y = (if leap y then 366 else 365)"

lemma days_before_next_year: "1 \<le> y \<Longrightarrow> days_before_year (Suc y) = days_before_year y + year_days y"
proof -
  assume "1 \<le> y"
  then obtain x where y: "y = Suc x" by (cases y) auto
  have "Suc x div 4 = x div 4 + (if Suc x mod 4 = 0 then 1 else 0)"
    "Suc x div 100 = x div 100 + (if Suc x mod 100 = 0 then 1 else 0)"
    "Suc x div 400 = x div 400 + (if Suc x mod 400 = 0 then 1 else 0)"
    by (simp_all add: div_Suc)
  moreover have "x div 100 \<le> x div 4" by (simp add: div_le_mono2)
  moreover have "Suc x mod 400 = 0 \<Longrightarrow> Suc x mod 100 = 0" "Suc x mod 100 = 0 \<Longrightarrow> Suc x mod 4 = 0"
    using dvd_trans [of 100 400 "Suc x"] dvd_trans [of 4 100 "Suc x"] by (simp_all add: mod_eq_0_iff_dvd)
  ultimately show ?thesis unfolding y days_before_year_def year_days_def leap_def by (simp add: add_ac)
qed

lemma days_before_year_le: "days_before_year (Suc y) \<le> 366 * y"
proof -
  have "y div 4 \<le> y" "y div 400 \<le> y div 100" by (simp_all add: div_le_mono2)
  then show ?thesis by (simp add: days_before_year_def)
qed

text \<open>The year and the month of a day are searched upwards.\<close>

function find_year :: "nat \<Rightarrow> nat \<Rightarrow> nat" where
  "find_year n y = (if y = 0 \<or> n < days_before_year (Suc y) then y else find_year n (Suc y))"
  by pat_completeness auto
termination
proof (relation "measure (\<lambda>(n, y). n + 1 - days_before_year y)", goal_cases)
  case (2 n y)
  then have "days_before_year y < days_before_year (Suc y)" "days_before_year (Suc y) \<le> n"
    using days_before_next_year [of y] by (auto simp: year_days_def)
  then show ?case by simp
qed simp

declare find_year.simps [simp del]

fun find_month :: "nat \<Rightarrow> nat \<Rightarrow> nat list \<Rightarrow> nat \<times> nat" where
  \<comment> \<open>the month and the day in it; the second argument counts the days from the first month of the list\<close>
  "find_month y n [] = (13, n + 1)"
| "find_month y n (m # ms) =
     (if n < days_in_month y m then (m, n + 1) else find_month y (n - days_in_month y m) ms)"

definition civil :: "nat \<Rightarrow> nat \<times> nat \<times> nat" where
  "civil n =
     (let y = find_year n (n div 366 + 1); (m, d) = find_month y (n - days_before_year y) [1..<13]
      in (y, m, d))"

lemma find_year_facts:
  "days_before_year y \<le> n \<Longrightarrow> 1 \<le> y \<Longrightarrow>
   1 \<le> find_year n y \<and> days_before_year (find_year n y) \<le> n \<and> n < days_before_year (Suc (find_year n y))"
proof (induction n y rule: find_year.induct)
  case (1 n y)
  show ?case
  proof (cases "n < days_before_year (Suc y)")
    case True
    with 1 show ?thesis by (simp add: find_year.simps)
  next
    case False
    with 1 show ?thesis by (simp add: find_year.simps [of n y])
  qed
qed

lemma year_months: "sum_list (map (days_in_month y) [1..<13]) = year_days y"
  by (simp add: upt_rec days_in_month_def year_days_def)

lemma find_month_facts:
  assumes "n < sum_list (map (days_in_month y) [a..<b])" "a \<le> b"
  shows "\<exists>m d. find_month y n [a..<b] = (m, d) \<and> a \<le> m \<and> m < b \<and> 1 \<le> d \<and> d \<le> days_in_month y m \<and>
    n = sum_list (map (days_in_month y) [a..<m]) + (d - 1)"
  using assms
proof (induction "b - a" arbitrary: a n)
  case (Suc k)
  then have ab: "a < b" and up: "[a..<b] = a # [Suc a..<b]" by (simp_all add: upt_conv_Cons)
  show ?case
  proof (cases "n < days_in_month y a")
    case True
    with ab show ?thesis by (simp add: up)
  next
    case False
    have "k = b - Suc a" "n - days_in_month y a < sum_list (map (days_in_month y) [Suc a..<b])" "Suc a \<le> b"
      using Suc.hyps(2) Suc.prems(1) ab False by (auto simp: up)
    from Suc.hyps(1) [OF this] obtain m d where
      m: "find_month y (n - days_in_month y a) [Suc a..<b] = (m, d)" "Suc a \<le> m" "m < b" "1 \<le> d"
        "d \<le> days_in_month y m"
        "n - days_in_month y a = sum_list (map (days_in_month y) [Suc a..<m]) + (d - 1)" by blast
    moreover have "[a..<m] = a # [Suc a..<m]" using m(2) by (simp add: upt_conv_Cons)
    ultimately show ?thesis using False by (simp add: up)
  qed
qed simp

lemma civil_facts:
  assumes "civil n = (y, m, d)"
  shows "1 \<le> y" "1 \<le> m" "m \<le> 12" "1 \<le> d" "d \<le> days_in_month y m" "day_number y m d = n"
proof -
  have "366 * (n div 366) \<le> n" by simp
  then have start: "days_before_year (n div 366 + 1) \<le> n"
    using days_before_year_le [of "n div 366"] by simp
  let ?y = "find_year n (n div 366 + 1)"
  note fy = find_year_facts [OF start]
  have y1: "1 \<le> ?y" using fy by simp
  have "n - days_before_year ?y < sum_list (map (days_in_month ?y) [1..<13])"
    using days_before_next_year [OF y1] fy unfolding year_months by (simp add: less_diff_conv2)
  from find_month_facts [OF this] obtain m' d' where
    md: "find_month ?y (n - days_before_year ?y) [1..<13] = (m', d')" "1 \<le> m'" "m' < 13" "1 \<le> d'"
      "d' \<le> days_in_month ?y m'"
      "n - days_before_year ?y = days_before_month ?y m' + (d' - 1)"
    unfolding days_before_month_def by auto
  have ymd: "y = ?y" "m = m'" "d = d'" using assms md(1) by (auto simp: civil_def Let_def split: prod.splits)
  have "n = days_before_year ?y + (days_before_month ?y m' + (d' - 1))" using md(6) fy by linarith
  then show "1 \<le> y" "1 \<le> m" "m \<le> 12" "1 \<le> d" "d \<le> days_in_month y m" "day_number y m d = n"
    using md(2-5) fy unfolding ymd by (simp_all add: day_number_def add.assoc)
qed

lemma civil_year:
  assumes "civil n = (y, m, d)" "days_before_year lo \<le> n" "n < days_before_year hi" "1 \<le> lo" "1 \<le> hi"
  shows "lo \<le> y \<and> y < hi"
proof -
  have mono: "days_before_year a \<le> days_before_year b" if "1 \<le> a" "a \<le> b" for a b
    using that(2,1) by (induction b rule: dec_induct) (auto simp: days_before_next_year)
  have start: "days_before_year (n div 366 + 1) \<le> n"
    using days_before_year_le [of "n div 366"] times_div_less_eq_dividend [of 366 n] by simp
  have "y = find_year n (n div 366 + 1)" using assms(1) by (auto simp: civil_def Let_def split: prod.splits)
  with find_year_facts [OF start] have y: "1 \<le> y" "days_before_year y \<le> n" "n < days_before_year (Suc y)" by auto
  have "\<not> Suc y \<le> lo" using mono [of "Suc y" lo] y assms(2) by auto
  moreover have "\<not> hi \<le> y" using mono [of hi y] y assms by auto
  ultimately show ?thesis by simp
qed

section \<open>Fixed-width numbers\<close>

text \<open>The last \<open>k\<close> digits of a number, and \<open>k\<close> digits read from the front.\<close>

fun fixed :: "nat \<Rightarrow> nat \<Rightarrow> string" where
  "fixed 0 n = []"
| "fixed (Suc k) n = fixed k (n div 10) @ [char_of (48 + n mod 10)]"

fun read_fixed :: "nat \<Rightarrow> nat \<Rightarrow> string \<Rightarrow> (nat \<times> string) option" where
  "read_fixed 0 acc s = Some (acc, s)"
| "read_fixed (Suc k) acc [] = None"
| "read_fixed (Suc k) acc (c # cs) =
     (if is_digit c then read_fixed k (10 * acc + (code c - 48)) cs else None)"

lemma length_fixed [simp]: "length (fixed k n) = k"
  by (induction k arbitrary: n) simp_all

lemma read_fixed_snoc:
  "length xs = k \<Longrightarrow> list_all is_digit xs \<Longrightarrow> is_digit c \<Longrightarrow>
   read_fixed k acc (xs @ c # ys) = Some (v, c # ys) \<Longrightarrow>
   read_fixed (Suc k) acc (xs @ c # ys) = Some (10 * v + (code c - 48), ys)"
  by (induction k arbitrary: acc xs) (auto simp: length_Suc_conv)

lemma fixed_digits: "list_all is_digit (fixed k n)"
  by (induction k arbitrary: n) (simp_all add: is_digit_char_of)

lemma read_fixed_fixed:
  "n < 10 ^ k \<Longrightarrow> read_fixed k 0 (fixed k n @ rest) = Some (n, rest)"
proof (induction k arbitrary: n rest)
  case (Suc k)
  then have "n div 10 < 10 ^ k" by auto
  from Suc.IH [OF this, of "char_of (48 + n mod 10) # rest"]
    read_fixed_snoc [of "fixed k (n div 10)" k "char_of (48 + n mod 10)" 0 rest "n div 10"]
  show ?case by (simp add: fixed_digits is_digit_char_of del: read_fixed.simps)
qed simp

lemma str_nat_fixed: "10 ^ k \<le> n \<Longrightarrow> n < 10 ^ Suc k \<Longrightarrow> str_nat n = fixed (Suc k) n"
proof (induction k arbitrary: n)
  case 0
  then show ?case by (simp add: str_nat.simps [of n])
next
  case (Suc k)
  have "10 \<le> n" using Suc.prems(1) by (rule order_trans [rotated]) simp
  moreover have "10 ^ k \<le> n div 10" "n div 10 < 10 ^ Suc k" using Suc.prems by (simp_all add: less_eq_div_iff_mult_less_eq mult.commute div_less_iff_less_mult)
  ultimately show ?case using Suc.IH [of "n div 10"] by (simp add: str_nat.simps [of n])
qed

section \<open>Writing an instant\<close>

definition US_PER_DAY :: int where "US_PER_DAY = 86400000000"
definition EPOCH_DAY :: nat where "EPOCH_DAY = 719162"

text \<open>
  \<^verbatim>\<open>datetime.fromtimestamp(ts, tz=utc)\<close> in microseconds since the first day of the calendar.  It knows
  the years 1 to 9999.
\<close>

definition MAX_ORDINAL_US :: int where "MAX_ORDINAL_US = int (days_before_year 10000) * 86400000000"

definition from_timestamp :: "pyfloat \<Rightarrow> py_exn + nat" where
  "from_timestamp ts =
     (case ts of
        NaN \<Rightarrow> Inl ValueError
      | PInf \<Rightarrow> Inl OverflowError
      | NInf \<Rightarrow> Inl OverflowError
      | Fin r \<Rightarrow>
          let us = py_round (r * 1000000) + int EPOCH_DAY * US_PER_DAY
          in if us < 0 \<or> MAX_ORDINAL_US \<le> us then Inl ValueError else Inr (nat us))"

text \<open>\<^verbatim>\<open>strftime\<close> leaves the width of the year to the C library, which pads it with nothing.\<close>

definition iso_text :: "nat \<Rightarrow> string" where
  "iso_text us =
     (let days = us div 86400000000; left = us mod 86400000000; secs = left div 1000000
      in case civil days of (y, m, d) \<Rightarrow>
           str_nat y @ ''-'' @ fixed 2 m @ ''-'' @ fixed 2 d @ ''T'' @ fixed 2 (secs div 3600) @ '':'' @
           fixed 2 (secs div 60 mod 60) @ '':'' @ fixed 2 (secs mod 60) @ ''.'' @
           fixed 3 (left mod 1000000 div 1000) @ ''Z'')"

definition iso :: "pyfloat \<Rightarrow> py_exn + string" where
  "iso ts = then_ok (from_timestamp ts) (\<lambda>us. Inr (iso_text us))"

section \<open>Reading an instant\<close>

fun expect :: "char \<Rightarrow> string \<Rightarrow> string option" where
  "expect c [] = None"
| "expect c (x # xs) = (if x = c then Some xs else None)"

text \<open>The fraction of a second: three or six digits and nothing after them.\<close>

definition read_fraction :: "string \<Rightarrow> nat option" where
  "read_fraction s =
     (if length s = 3 then map_option (\<lambda>(v, _). v * 1000) (read_fixed 3 0 s)
      else if length s = 6 then map_option fst (read_fixed 6 0 s)
      else None)"

text \<open>\<^verbatim>\<open>HH[:MM[:SS[.fff[fff]]]]\<close> as hours, minutes, seconds and microseconds.\<close>

definition read_clock :: "string \<Rightarrow> (nat \<times> nat \<times> nat \<times> nat) option" where
  "read_clock s =
     (case read_fixed 2 0 s of
        None \<Rightarrow> None
      | Some (h, []) \<Rightarrow> Some (h, 0, 0, 0)
      | Some (h, s1) \<Rightarrow>
          (case Option.bind (expect CHR '':'' s1) (read_fixed 2 0) of
             None \<Rightarrow> None
           | Some (mi, []) \<Rightarrow> Some (h, mi, 0, 0)
           | Some (mi, s2) \<Rightarrow>
               (case Option.bind (expect CHR '':'' s2) (read_fixed 2 0) of
                  None \<Rightarrow> None
                | Some (sec, []) \<Rightarrow> Some (h, mi, sec, 0)
                | Some (sec, s3) \<Rightarrow>
                    map_option (\<lambda>us. (h, mi, sec, us))
                      (Option.bind (expect CHR ''.'' s3) read_fraction))))"

definition clock_us :: "nat \<times> nat \<times> nat \<times> nat \<Rightarrow> nat" where
  "clock_us c = (case c of (h, mi, sec, us) \<Rightarrow> ((h * 60 + mi) * 60 + sec) * 1000000 + us)"

definition read_date :: "string \<Rightarrow> (nat \<times> string) option" where
  \<comment> \<open>the number of the day\<close>
  "read_date s =
     (case read_fixed 4 0 s of None \<Rightarrow> None | Some (y, s1) \<Rightarrow>
      (case Option.bind (expect CHR ''-'' s1) (read_fixed 2 0) of None \<Rightarrow> None | Some (m, s2) \<Rightarrow>
       (case Option.bind (expect CHR ''-'' s2) (read_fixed 2 0) of None \<Rightarrow> None | Some (d, s3) \<Rightarrow>
          if 1 \<le> y \<and> 1 \<le> m \<and> m \<le> 12 \<and> 1 \<le> d \<and> d \<le> days_in_month y m
          then Some (day_number y m d, s3) else None)))"

text \<open>An offset from universal time, with its sign.\<close>

definition read_offset :: "bool \<Rightarrow> string \<Rightarrow> int option" where
  "read_offset neg s =
     (case read_clock s of
        None \<Rightarrow> None
      | Some c \<Rightarrow>
          if int (clock_us c) < US_PER_DAY then Some (if neg then - int (clock_us c) else int (clock_us c))
          else None)"

definition is_sign :: "char \<Rightarrow> bool" where "is_sign c = (c = CHR ''+'' \<or> c = CHR ''-'')"

text \<open>
  \<^verbatim>\<open>datetime.fromisoformat(s)\<close>: the microseconds of the local time and the offset, if there is one.
\<close>

definition from_iso :: "string \<Rightarrow> (nat \<times> int option) option" where
  "from_iso s =
     (case read_date s of
        None \<Rightarrow> None
      | Some (day, []) \<Rightarrow> Some (day * 86400000000, None)
      | Some (day, sep # t) \<Rightarrow>
          let clock = takeWhile (\<lambda>c. \<not> is_sign c) t; zone = dropWhile (\<lambda>c. \<not> is_sign c) t
          in case read_clock clock of
               None \<Rightarrow> None
             | Some (h, mi, sec, us) \<Rightarrow>
                 if 24 \<le> h \<or> 60 \<le> mi \<or> 60 \<le> sec then None
                 else let loc = day * 86400000000 + clock_us (h, mi, sec, us)
                      in (case zone of
                            [] \<Rightarrow> Some (loc, None)
                          | z # zs \<Rightarrow> map_option (\<lambda>off. (loc, Some off)) (read_offset (z = CHR ''-'') zs)))"

definition replace_z :: "string \<Rightarrow> string" where
  "replace_z s = concat (map (\<lambda>c. if c = CHR ''Z'' then ''+00:00'' else [c]) s)"

text \<open>
  \<^verbatim>\<open>_parse_ts\<close>.  A time without an offset is in the time zone of the machine, which \<open>zone\<close> stands
  for: from local microseconds to those of universal time.
\<close>

definition parse_ts :: "(int \<Rightarrow> int) \<Rightarrow> string \<Rightarrow> py_exn + pyfloat" where
  "parse_ts zone s =
     (case from_iso (replace_z s) of
        None \<Rightarrow> Inl ValueError
      | Some (loc, off) \<Rightarrow>
          let utc = (case off of Some z \<Rightarrow> int loc - z | None \<Rightarrow> zone (int loc))
          in Inr (Fin (real_of_int (utc - int EPOCH_DAY * US_PER_DAY) / 1000000)))"

section \<open>Round trip\<close>

lemma fixed_chars: "c \<in> set (fixed k n) \<Longrightarrow> is_digit c"
  using fixed_digits [of k n] by (simp add: list_all_iff)

lemma replace_z_end: "CHR ''Z'' \<notin> set s \<Longrightarrow> replace_z (s @ ''Z'') = s @ ''+00:00''"
proof -
  assume a: "CHR ''Z'' \<notin> set s"
  then have "concat (map (\<lambda>c. if c = CHR ''Z'' then ''+00:00'' else [c]) s) = s"
    by (induction s) auto
  then show ?thesis by (simp add: replace_z_def)
qed

lemma not_digits [simp]:
  "\<not> is_digit CHR ''Z''" "\<not> is_digit CHR ''+''" "\<not> is_digit CHR ''-''" "\<not> is_digit CHR '':''"
  by code_simp+

lemma read_clock_ms:
  assumes "h < 100" "mi < 100" "sec < 100" "ms < 1000"
  shows "read_clock (fixed 2 h @ '':'' @ fixed 2 mi @ '':'' @ fixed 2 sec @ ''.'' @ fixed 3 ms) =
    Some (h, mi, sec, ms * 1000)"
proof -
  have "read_fixed 3 0 (fixed 3 ms @ []) = Some (ms, [])"
    using assms by (intro read_fixed_fixed) simp
  then have f: "read_fraction (fixed 3 ms) = Some (ms * 1000)" by (simp add: read_fraction_def)
  show ?thesis using assms by (simp add: read_clock_def read_fixed_fixed f)
qed

lemma clock_of_secs:
  "clock_us (t div 3600, t div 60 mod 60, t mod 60, us) = t * 1000000 + us"
proof -
  have a: "t div 3600 = t div 60 div 60" by (simp add: div_mult2_eq [symmetric])
  show ?thesis unfolding clock_us_def a prod.case by (simp only: div_mult_mod_eq)
qed

lemma to_millis: "(u :: nat) div 1000 * 1000 = u div 1000000 * 1000000 + u mod 1000000 div 1000 * 1000"
proof -
  have "u = 1000 * (u div 1000)  + u mod 1000" by simp
  have "u div 1000000 = u div 1000 div 1000" by (simp add: div_mult2_eq [symmetric])
  moreover have "u mod 1000000 div 1000 = u div 1000 mod 1000"
    using mod_mult2_eq [of u 1000 1000] by simp
  moreover have "u div 1000 = 1000 * (u div 1000 div 1000) + u div 1000 mod 1000" by simp
  ultimately show ?thesis by linarith
qed

lemma span_sign:
  "\<forall>c \<in> set s. \<not> is_sign c \<Longrightarrow> is_sign z \<Longrightarrow>
   takeWhile (\<lambda>c. \<not> is_sign c) (s @ z # zs) = s \<and> dropWhile (\<lambda>c. \<not> is_sign c) (s @ z # zs) = z # zs"
  by (induction s) auto

lemma cut_millis: "(u :: nat) = 1000 * a + l \<Longrightarrow> u div 1000 * 1000 = 1000 * a + l div 1000 * 1000"
  by simp

lemma zero_offset: "read_offset False ''00:00'' = Some 0"
  by (simp add: read_offset_def read_clock_def numeral_2_eq_2 is_digit_def code_def clock_us_def US_PER_DAY_def)

lemma from_iso_parts:
  assumes "read_date (dt @ ''T'' @ clk @ ''+00:00'') = Some (day, ''T'' @ clk @ ''+00:00'')"
    "\<forall>c \<in> set clk. \<not> is_sign c" "read_clock clk = Some (h, mi, sec, us)" "h < 24" "mi < 60" "sec < 60"
  shows "from_iso (dt @ ''T'' @ clk @ ''+00:00'') = Some (day * 86400000000 + clock_us (h, mi, sec, us), Some 0)"
  using assms span_sign [OF assms(2), of "CHR ''+''" "''00:00''"] zero_offset
  by (simp add: from_iso_def is_sign_def)

lemma from_iso_text:
  assumes "civil (us div 86400000000) = (y, m, d)" "1000 \<le> y" "y < 10000"
  shows "from_iso (replace_z (iso_text us)) = Some (us div 1000 * 1000, Some 0)"
proof -
  let ?left = "us mod 86400000000"
  let ?secs = "?left div 1000000"
  let ?ms = "?left mod 1000000 div 1000"
  let ?date = "fixed 4 y @ ''-'' @ fixed 2 m @ ''-'' @ fixed 2 d"
  let ?clock = "fixed 2 (?secs div 3600) @ '':'' @ fixed 2 (?secs div 60 mod 60) @ '':'' @ fixed 2 (?secs mod 60) @
    ''.'' @ fixed 3 ?ms"
  note c = civil_facts [OF assms(1)]
  have d31: "d < 100" using c(4,5) by (auto simp: days_in_month_def split: if_splits)
  have y4: "str_nat y = fixed 4 y" using str_nat_fixed [of 3 y] assms(2,3) by simp
  have shape: "iso_text us = (?date @ ''T'' @ ?clock) @ ''Z''"
    by (simp add: iso_text_def Let_def assms(1) y4)
  have noz: "CHR ''Z'' \<notin> set (?date @ ''T'' @ ?clock)" by (auto dest: fixed_chars)
  have nos: "\<forall>ch \<in> set ?clock. \<not> is_sign ch"
    by (auto simp: is_sign_def dest: fixed_chars) 
  have day: "read_date (?date @ ''T'' @ rest) = Some (us div 86400000000, ''T'' @ rest)" for rest
    using assms(2,3) c d31 by (simp add: read_date_def read_fixed_fixed)
  have small: "?secs < 86400" by simp
  have clk: "read_clock ?clock = Some (?secs div 3600, ?secs div 60 mod 60, ?secs mod 60, ?ms * 1000)"
    using small by (intro read_clock_ms) auto
  have h: "?secs div 3600 < 24" using small by (simp add: div_less_iff_less_mult)
  have sum: "us div 86400000000 * 86400000000 +
      clock_us (?secs div 3600, ?secs div 60 mod 60, ?secs mod 60, ?ms * 1000) = us div 1000 * 1000"
  proof -
    have k: "1000 * (86400000 * x) = x * 86400000000" for x :: nat by simp
    have "us = 1000 * (86400000 * (us div 86400000000)) + ?left" by simp
    from cut_millis [OF this] have "us div 1000 * 1000 = us div 86400000000 * 86400000000 + ?left div 1000 * 1000"
      by (simp only: k)
    then show ?thesis unfolding clock_of_secs to_millis [of ?left] by (rule sym)
  qed
  have "from_iso (?date @ ''T'' @ ?clock @ ''+00:00'') = Some (us div 1000 * 1000, Some 0)"
    unfolding sum [symmetric] by (rule from_iso_parts [OF _ nos clk h]) (simp_all add: day [simplified])
  then show ?thesis unfolding shape replace_z_end [OF noz] by simp
qed

text \<open>
  What is written is read back to the millisecond it was cut to, wherever the year has four digits
  (from 1000 on).
\<close>

lemma parse_iso:
  assumes "iso (Fin r) = Inr s" "- 30610224000 \<le> r"
  shows "parse_ts zone s = Inr (Fin (real_of_int (py_round (r * 1000000) div 1000) / 1000))"
proof -
  let ?k = "py_round (r * 1000000)"
  let ?us = "nat (?k + int EPOCH_DAY * US_PER_DAY)"
  have e: "int EPOCH_DAY * US_PER_DAY = 62135596800000000" by (simp add: EPOCH_DAY_def US_PER_DAY_def)
  have hi: "?k + 62135596800000000 < MAX_ORDINAL_US" and s: "s = iso_text ?us"
    using assms(1) by (auto simp: iso_def from_timestamp_def e Let_def split: if_splits)
  have "py_round (real_of_int (- 30610224000000000)) \<le> ?k" by (intro py_round_mono) (use assms(2) in simp)
  then have lo: "- 30610224000000000 \<le> ?k" by (simp only: py_round_of_int)
  have b: "int ?us = ?k + 62135596800000000" using lo e by simp
  have y: "days_before_year 1000 = 364877" "days_before_year 10000 = 3652059" by (simp_all add: days_before_year_def)
  have "364877 \<le> ?us div 86400000000" "?us div 86400000000 < 3652059"
    using lo hi b by (simp_all add: less_eq_div_iff_mult_less_eq div_less_iff_less_mult MAX_ORDINAL_US_def y e)
  moreover obtain y m d where c: "civil (?us div 86400000000) = (y, m, d)" by (cases "civil (?us div 86400000000)")
  ultimately have "1000 \<le> y" "y < 10000" using civil_year [OF c, of 1000 10000] by (simp_all add: y)
  note rd = from_iso_text [OF c this]
  have "int (?us div 1000 * 1000) - 62135596800000000 = ?k div 1000 * 1000"
    using b div_mult_self2 [of 1000 ?k 62135596800000] by (simp add: zdiv_int)
  then show ?thesis unfolding s parse_ts_def rd by (simp add: e)
qed

end
