(* ===== verification/Cot_Codec.thy ===== *)
theory Cot_Codec
  imports Frame_Codecs Compact_Codec Py_Time
begin

text \<open>
  The Cursor-on-Target codec (\<^verbatim>\<open>meshsa/cot.py\<close>): an envelope to the XML tree that
  \<^verbatim>\<open>ET.tostring\<close> is given, and the tree that \<^verbatim>\<open>ET.fromstring\<close> returned, or its exception, to an
  envelope.  The text of the XML is not modelled.  \<open>repr\<close> and \<open>coercions\<close> are as for the frame codecs,
  \<open>zone\<close> is the time zone of the machine.  The configured element names are plain tags, which \<^verbatim>\<open>find\<close>
  looks up as they are.
\<close>

section \<open>Trees and names\<close>

datatype xml = Elem (xtag: string) (xattrs: "(string \<times> string) list") (xtext: "string option") (xkids: "xml list")

definition find_kid :: "string \<Rightarrow> xml \<Rightarrow> xml option" where
  "find_kid tag e = List.find (\<lambda>k. xtag k = tag) (xkids e)"

definition attr :: "xml \<Rightarrow> string \<Rightarrow> string option" where
  "attr e = map_of (xattrs e)"

record cot_naming =
  cn_stale_s :: real
  cn_how :: string
  cn_pli_type :: string
  cn_chat_type :: string
  cn_marker_type :: string
  cn_cot_version :: string
  cn_track :: string
  cn_status :: string
  cn_attitude :: string
  cn_detection :: string
  cn_battery_attr :: string
  cn_vendor :: string
  cn_emit_detail :: bool

definition default_naming :: cot_naming where
  "default_naming =
     \<lparr>cn_stale_s = 120, cn_how = ''m-g'', cn_pli_type = ''a-f-G-U-C'', cn_chat_type = ''b-t-f'',
      cn_marker_type = ''a-u-G'', cn_cot_version = ''2.0'', cn_track = ''track'', cn_status = ''status'',
      cn_attitude = ''attitude'', cn_detection = ''_meshsa_det'', cn_battery_attr = ''battery'',
      cn_vendor = ''_meshsa'', cn_emit_detail = True\<rparr>"

fun later :: "pyfloat \<Rightarrow> real \<Rightarrow> pyfloat" where
  "later (Fin r) s = Fin (r + s)"
| "later f s = f"

text \<open>The root element, as a function of the children it will get.\<close>

definition cot_event :: "cot_naming \<Rightarrow> string \<Rightarrow> string \<Rightarrow> pyfloat \<Rightarrow> py_exn + (xml list \<Rightarrow> xml)" where
  "cot_event N uid etype ts =
     then_ok (iso ts) (\<lambda>t.
     then_ok (iso (later ts (cn_stale_s N))) (\<lambda>stale.
       Inr (Elem ''event''
         [(''version'', cn_cot_version N), (''uid'', uid), (''type'', etype), (''how'', cn_how N),
          (''time'', t), (''start'', t), (''stale'', stale)] None)))"

definition kind_for :: "cot_naming \<Rightarrow> string \<Rightarrow> message_kind" where
  "kind_for N etype =
     (if etype = cn_marker_type N then Marker
      else if etype = cn_pli_type N \<or> prefix ''a-'' etype then Pli
      else Marker)"

section \<open>Encoding\<close>

text \<open>\<^verbatim>\<open>str(j.get(key, dflt))\<close>.\<close>

definition get_text :: "(json \<Rightarrow> string) \<Rightarrow> json \<Rightarrow> string \<Rightarrow> json \<Rightarrow> py_exn + string" where
  "get_text repr j key dflt = then_ok (get_or j key dflt) (\<lambda>v. Inr (py_str repr v))"

text \<open>The attributes of those keys that have a value.\<close>

fun present_attrs :: "(json \<Rightarrow> string) \<Rightarrow> json \<Rightarrow> (string \<times> string) list \<Rightarrow> py_exn + (string \<times> string) list" where
  "present_attrs repr j [] = Inr []"
| "present_attrs repr j ((name, key) # rest) =
     then_ok (get_or j key JNull) (\<lambda>v.
     then_ok (present_attrs repr j rest) (\<lambda>more_attrs.
       Inr (if v = JNull then more_attrs else (name, py_str repr v) # more_attrs)))"

definition point_elem :: "(json \<Rightarrow> string) \<Rightarrow> json \<Rightarrow> py_exn + xml" where
  "point_elem repr pos =
     then_ok (get_text repr pos ''lat'' (JFloat (Fin 0))) (\<lambda>lat.
     then_ok (get_text repr pos ''lon'' (JFloat (Fin 0))) (\<lambda>lon.
     then_ok (get_text repr pos ''hae'' (JFloat (Fin 0))) (\<lambda>hae.
     then_ok (get_text repr pos ''ce'' (JFloat UNKNOWN_ERROR_M)) (\<lambda>ce.
     then_ok (get_text repr pos ''le'' (JFloat UNKNOWN_ERROR_M)) (\<lambda>le.
       Inr (Elem ''point'' [(''lat'', lat), (''lon'', lon), (''hae'', hae), (''ce'', ce), (''le'', le)] None []))))))"

definition opt_elem :: "string \<Rightarrow> (string \<times> string) list \<Rightarrow> xml list" where
  "opt_elem tag attrs = (if attrs = [] then [] else [Elem tag attrs None []])"

definition payload_or_empty :: "envelope \<Rightarrow> string \<Rightarrow> json" where
  "payload_or_empty env key = (case map_of (env_payload env) key of None \<Rightarrow> JObj [] | Some j \<Rightarrow> j)"

text \<open>\<^verbatim>\<open>j.get(key) or {}\<close>.\<close>

definition get_or_empty :: "json \<Rightarrow> string \<Rightarrow> py_exn + json" where
  "get_or_empty j key = then_ok (get_or j key JNull) (\<lambda>v. Inr (if truthy v then v else JObj []))"

definition richer_detail :: "cot_naming \<Rightarrow> (json \<Rightarrow> string) \<Rightarrow> json \<Rightarrow> json \<Rightarrow> py_exn + xml list" where
  "richer_detail N repr pos telemetry =
     then_ok (get_or pos ''course_deg'' JNull) (\<lambda>course.
     then_ok (get_or pos ''speed_ms'' JNull) (\<lambda>speed.
     then_ok (present_attrs repr telemetry [(cn_battery_attr N, ''battery_pct'')]) (\<lambda>status.
     then_ok (present_attrs repr telemetry [(''battery_v'', ''battery_v''), (''current_a'', ''current_a'')]) (\<lambda>vendor.
     then_ok (get_or_empty telemetry ''attitude'') (\<lambda>attitude.
     then_ok (present_attrs repr attitude [(''roll'', ''roll_deg''), (''pitch'', ''pitch_deg''), (''yaw'', ''yaw_deg'')])
       (\<lambda>att.
         Inr ((if course \<noteq> JNull \<and> speed \<noteq> JNull
               then [Elem (cn_track N) [(''course'', py_str repr course), (''speed'', py_str repr speed)] None []]
               else [])
              @ opt_elem (cn_status N) status @ opt_elem (cn_vendor N) vendor @ opt_elem (cn_attitude N) att)))))))"

definition cot_encode_pli :: "cot_naming \<Rightarrow> (json \<Rightarrow> string) \<Rightarrow> envelope \<Rightarrow> py_exn + xml" where
  "cot_encode_pli N repr env =
     (let node = payload_or_empty env ''node''; pos = payload_or_empty env ''position''
      in then_ok (cot_event N (env_source_uid env) (cn_pli_type N) (env_ts env)) (\<lambda>ev.
         then_ok (point_elem repr pos) (\<lambda>point.
         then_ok (get_text repr node ''callsign'' (JStr (env_source_uid env))) (\<lambda>callsign.
         then_ok (get_text repr node ''tier'' (JStr [])) (\<lambda>tier.
         then_ok (if cn_emit_detail N
                  then richer_detail N repr pos (or_empty (map_of (env_payload env) ''telemetry''))
                  else Inr []) (\<lambda>richer.
           Inr (ev [point, Elem ''detail'' [] None
               ([Elem ''contact'' [(''callsign'', callsign)] None [],
                 Elem ''__group'' [(''name'', tier), (''role'', ''Team Member'')] None []] @ richer)])))))))"

text \<open>\<^verbatim>\<open>f"{x:.0f}"\<close>.\<close>

definition whole_text :: "pyfloat \<Rightarrow> string" where
  "whole_text x =
     (case x of
        Fin r \<Rightarrow> (if r < 0 \<and> py_round r = 0 then ''-0'' else str_int (py_round r))
      | PInf \<Rightarrow> ''inf'' | NInf \<Rightarrow> ''-inf'' | NaN \<Rightarrow> ''nan'')"

definition marker_remarks :: "json \<Rightarrow> string \<Rightarrow> py_exn + string" where
  "marker_remarks det label =
     then_ok (get_or det ''confidence'' JNull) (\<lambda>conf.
     then_ok (if conf = JNull then Inr label
              else then_ok (py_float conf) (\<lambda>c. Inr (label @ '' '' @ whole_text (pf_scale c 100) @ ''%'')))
       (\<lambda>remarks.
     then_ok (get_or det ''bearing_deg'' JNull) (\<lambda>bearing.
       if bearing = JNull then Inr remarks
       else then_ok (py_float bearing) (\<lambda>b.
         Inr (remarks @ '' bearing '' @ whole_text b @ [char_of (194 :: nat), char_of (176 :: nat)])))))"

definition detection_attrs :: "(json \<Rightarrow> string) \<Rightarrow> json \<Rightarrow> string \<Rightarrow> py_exn + (string \<times> string) list option" where
  "detection_attrs repr det label =
     then_ok (get_or det ''confidence'' JNull) (\<lambda>conf.
       if conf = JNull then Inr None
       else then_ok (present_attrs repr det [(''track_id'', ''track_id''), (''bearing_deg'', ''bearing_deg'')])
         (\<lambda>attrs. Inr (Some ([(''label'', label), (''confidence'', py_str repr conf)] @ attrs))))"

definition cot_encode_marker :: "cot_naming \<Rightarrow> (json \<Rightarrow> string) \<Rightarrow> envelope \<Rightarrow> py_exn + xml" where
  "cot_encode_marker N repr env =
     (let pos = or_empty (map_of (env_payload env) ''position'');
          det = or_empty (map_of (env_payload env) ''detection'');
          node = or_empty (map_of (env_payload env) ''node'')
      in then_ok (get_text repr det ''label'' (JStr ''detection'')) (\<lambda>label.
         then_ok (get_text repr node ''callsign'' (JStr label)) (\<lambda>callsign.
         then_ok (get_or det ''track_id'' JNull) (\<lambda>track.
         then_ok (cot_event N
             (if track \<noteq> JNull then env_source_uid env @ '':'' @ py_str repr track else env_source_uid env)
             (cn_marker_type N) (env_ts env)) (\<lambda>ev.
         then_ok (point_elem repr pos) (\<lambda>point.
         then_ok (detection_attrs repr det label) (\<lambda>attrs.
         then_ok (marker_remarks det label) (\<lambda>remarks.
           Inr (ev [point, Elem ''detail'' [] None
               ([Elem ''contact'' [(''callsign'', callsign)] None []]
                @ (case attrs of None \<Rightarrow> [] | Some a \<Rightarrow> [Elem (cn_detection N) a None []])
                @ [Elem ''remarks'' [] (Some remarks) []])])))))))))"

text \<open>
  A text that is no string and not empty cannot be written.  \<^verbatim>\<open>x or dflt\<close> for the room.
\<close>

definition remark_text :: "json \<Rightarrow> py_exn + string option" where
  "remark_text j = (case j of JStr s \<Rightarrow> Inr (Some s) | _ \<Rightarrow> if truthy j then Inl TypeError else Inr None)"

definition room_text :: "(json \<Rightarrow> string) \<Rightarrow> envelope \<Rightarrow> string \<Rightarrow> string" where
  "room_text repr env dflt =
     (case map_of (env_payload env) ''to'' of
        None \<Rightarrow> dflt | Some j \<Rightarrow> if truthy j then py_str repr j else dflt)"

definition cot_encode_chat :: "cot_naming \<Rightarrow> (json \<Rightarrow> string) \<Rightarrow> envelope \<Rightarrow> py_exn + xml" where
  "cot_encode_chat N repr env =
     (let msg = (case map_of (env_payload env) ''text'' of None \<Rightarrow> JStr [] | Some j \<Rightarrow> j);
          unknown = repr (JFloat UNKNOWN_ERROR_M)
      in then_ok (cot_event N (env_msg_id env) (cn_chat_type N) (env_ts env)) (\<lambda>ev.
         then_ok (remark_text msg) (\<lambda>remark.
           Inr (ev [Elem ''point'' [(''lat'', ''0.0''), (''lon'', ''0.0''), (''hae'', ''0.0''),
                (''ce'', unknown), (''le'', unknown)] None [],
              Elem ''detail'' [] None
                [Elem ''__chat'' [(''senderCallsign'', env_source_uid env),
                     (''id'', room_text repr env ''All Chat Rooms'')] None
                   [Elem ''chatgrp'' [(''uid0'', env_source_uid env), (''uid1'', room_text repr env ''All'')] None []],
                 Elem ''remarks'' [] remark []]]))))"

definition cot_encode :: "cot_naming \<Rightarrow> (json \<Rightarrow> string) \<Rightarrow> envelope \<Rightarrow> py_exn + xml" where
  "cot_encode N repr env =
     (if env_kind env = Chat then cot_encode_chat N repr env
      else if env_kind env = Marker then cot_encode_marker N repr env
      else cot_encode_pli N repr env)"

section \<open>Decoding\<close>

text \<open>\<^verbatim>\<open>_parse_event\<close>: every failure is the framework's error.\<close>

definition parse_event :: "(int \<Rightarrow> int) \<Rightarrow> py_exn + xml \<Rightarrow> codec_exn + xml \<times> string \<times> string \<times> pyfloat" where
  "parse_event zone parsed =
     (case then_ok parsed (\<lambda>ev.
           if xtag ev \<noteq> ''event'' then Inl ValueError
           else case attr ev ''uid'' of
             None \<Rightarrow> Inl KeyError
           | Some uid \<Rightarrow>
               then_ok (iso (Fin 0)) (\<lambda>epoch.
               then_ok (parse_ts zone (case attr ev ''time'' of None \<Rightarrow> epoch | Some t \<Rightarrow> t)) (\<lambda>ts.
                 Inr (ev, uid, case attr ev ''type'' of None \<Rightarrow> [] | Some t \<Rightarrow> t, ts)))) of
        Inl _ \<Rightarrow> Inl MeshSAError
      | Inr r \<Rightarrow> Inr r)"

definition cot_envelope :: "xml \<Rightarrow> string \<Rightarrow> pyfloat \<Rightarrow> message_kind \<Rightarrow> (string \<times> json) list \<Rightarrow> envelope" where
  "cot_envelope ev uid ts kind payload =
     \<lparr>env_schema_version = SCHEMA_VERSION,
      env_msg_id = uid @ '':'' @ (case attr ev ''time'' of None \<Rightarrow> [] | Some t \<Rightarrow> t),
      env_ts = ts, env_source_uid = uid, env_kind = kind, env_payload = payload\<rparr>"

definition cot_decode_chat :: "xml \<Rightarrow> string \<Rightarrow> pyfloat \<Rightarrow> xml option \<Rightarrow> envelope" where
  "cot_decode_chat ev uid ts detail =
     (let remarks = Option.bind detail (find_kid ''remarks'');
          msg = (case Option.bind remarks xtext of None \<Rightarrow> [] | Some t \<Rightarrow> t)
      in cot_envelope ev uid ts Chat [(''text'', JStr msg), (''to'', JNull)])"

text \<open>\<^verbatim>\<open>float(e.attrib[k])\<close> of an attribute, \<open>None\<close> where there is none.\<close>

definition float_attr :: "xml \<Rightarrow> string \<Rightarrow> py_exn + pyfloat option" where
  "float_attr e k =
     (case attr e k of
        None \<Rightarrow> Inr None
      | Some s \<Rightarrow> (case py_float_str s of None \<Rightarrow> Inl ValueError | Some f \<Rightarrow> Inr (Some f)))"

text \<open>The items of the keys (attribute and key) that the element has.\<close>

fun float_items :: "xml \<Rightarrow> (string \<times> string) list \<Rightarrow> py_exn + (string \<times> json) list" where
  "float_items e [] = Inr []"
| "float_items e ((name, key) # rest) =
     then_ok (float_attr e name) (\<lambda>v.
     then_ok (float_items e rest) (\<lambda>items. Inr (item key (map_option JFloat v) @ items)))"

definition point_default :: "(string \<times> pyfloat) list" where
  "point_default = [(''lat'', Fin 0), (''lon'', Fin 0), (''hae'', Fin 0), (''ce'', UNKNOWN_ERROR_M), (''le'', UNKNOWN_ERROR_M)]"

definition decode_point :: "xml option \<Rightarrow> py_exn + (string \<times> json) list" where
  "decode_point pt =
     map_ok (\<lambda>(k, dflt).
       case pt of
         None \<Rightarrow> Inr (k, JFloat dflt)
       | Some e \<Rightarrow> then_ok (float_attr e k) (\<lambda>v. Inr (k, JFloat (case v of None \<Rightarrow> dflt | Some f \<Rightarrow> f)))) point_default"

text \<open>The items that the richer details add to the position and to the telemetry.\<close>

definition decode_track :: "cot_naming \<Rightarrow> xml \<Rightarrow> py_exn + (string \<times> json) list" where
  "decode_track N detail =
     (case find_kid (cn_track N) detail of
        None \<Rightarrow> Inr []
      | Some e \<Rightarrow> float_items e [(''course'', ''course_deg''), (''speed'', ''speed_ms'')])"

definition decode_status_and_vendor :: "cot_naming \<Rightarrow> xml \<Rightarrow> py_exn + (string \<times> json) list" where
  "decode_status_and_vendor N detail =
     then_ok (case find_kid (cn_status N) detail of
                None \<Rightarrow> Inr []
              | Some e \<Rightarrow> then_ok (float_attr e (cn_battery_attr N)) (\<lambda>v.
                  case v of None \<Rightarrow> Inr []
                  | Some f \<Rightarrow> then_ok (py_int_of_float f) (\<lambda>i. Inr [(''battery_pct'', JInt i)]))) (\<lambda>status.
     then_ok (case find_kid (cn_vendor N) detail of
                None \<Rightarrow> Inr []
              | Some e \<Rightarrow> float_items e [(''battery_v'', ''battery_v''), (''current_a'', ''current_a'')]) (\<lambda>vendor.
       Inr (status @ vendor)))"

definition decode_attitude :: "cot_naming \<Rightarrow> xml \<Rightarrow> py_exn + (string \<times> json) list" where
  "decode_attitude N detail =
     (case find_kid (cn_attitude N) detail of
        None \<Rightarrow> Inr []
      | Some e \<Rightarrow> then_ok (float_items e [(''roll'', ''roll_deg''), (''pitch'', ''pitch_deg''), (''yaw'', ''yaw_deg'')])
          (\<lambda>att. Inr (if att = [] then [] else [(''attitude'', JObj att)])))"

definition decode_richer_detail ::
  "cot_naming \<Rightarrow> xml \<Rightarrow> codec_exn + (string \<times> json) list \<times> (string \<times> json) list" where
  "decode_richer_detail N detail =
     catch_invalid
       (then_ok (decode_track N detail) (\<lambda>track.
        then_ok (decode_status_and_vendor N detail) (\<lambda>tel.
        then_ok (decode_attitude N detail) (\<lambda>att. Inr (track, tel @ att)))))"

definition validated_track ::
  "coercions \<Rightarrow> (string \<times> json) list \<Rightarrow> (string \<times> json) list \<Rightarrow>
     codec_exn + (string \<times> json) list \<times> (string \<times> json) list" where
  "validated_track P pos telemetry =
     catch_invalid
       (then_ok (validate_position P (JObj pos)) (\<lambda>p.
        then_ok (if telemetry = [] then Inr []
                 else then_ok (validate_telemetry P (JObj telemetry)) (\<lambda>t. Inr (dump_telemetry t))) (\<lambda>tel.
          Inr (dump_position p, tel))))"

definition decode_detection :: "cot_naming \<Rightarrow> coercions \<Rightarrow> xml option \<Rightarrow> codec_exn + (string \<times> json) list option" where
  "decode_detection N P detail =
     (case Option.bind detail (find_kid (cn_detection N)) of
        None \<Rightarrow> Inr None
      | Some e \<Rightarrow>
          if attr e ''confidence'' = None then Inr None
          else catch_invalid
            (then_ok (float_items e [(''confidence'', ''confidence'')]) (\<lambda>conf.
             then_ok (case attr e ''track_id'' of
                        None \<Rightarrow> Inr []
                      | Some s \<Rightarrow> (case py_int_str s of None \<Rightarrow> Inl ValueError | Some i \<Rightarrow> Inr [(''track_id'', JInt i)]))
               (\<lambda>track.
             then_ok (float_items e [(''bearing_deg'', ''bearing_deg'')]) (\<lambda>bearing.
             then_ok (validate_detection P (JObj
               ([(''label'', JStr (case attr e ''label'' of None \<Rightarrow> ''detection'' | Some l \<Rightarrow> l))] @ conf @ track @ bearing)))
               (\<lambda>d. Inr (Some (dump_detection d))))))))"

definition cot_decode :: "cot_naming \<Rightarrow> coercions \<Rightarrow> (int \<Rightarrow> int) \<Rightarrow> py_exn + xml \<Rightarrow> codec_exn + envelope" where
  "cot_decode N P zone parsed =
     then_ok (parse_event zone parsed) (\<lambda>(ev, uid, etype, ts).
       let detail = find_kid ''detail'' ev
       in if prefix ''b-t-f'' etype \<or> prefix ''b.t.f'' etype then Inr (cot_decode_chat ev uid ts detail)
          else
            then_ok (lift_py (decode_point (find_kid ''point'' ev))) (\<lambda>pos.
              let callsign = (case Option.bind detail (find_kid ''contact'') of
                    None \<Rightarrow> uid | Some c \<Rightarrow> (case attr c ''callsign'' of None \<Rightarrow> uid | Some s \<Rightarrow> s))
              in then_ok (case detail of None \<Rightarrow> Inr ([], []) | Some d \<Rightarrow> decode_richer_detail N d) (\<lambda>(track, tel).
                 then_ok (validated_track P (pos @ track) tel) (\<lambda>(pos, tel).
                   let kind = kind_for N etype
                   in then_ok (if kind = Marker then decode_detection N P detail else Inr None) (\<lambda>det.
                        Inr (cot_envelope ev uid ts kind
                          ([(''node'', JObj [(''uid'', JStr uid), (''callsign'', JStr callsign)]),
                            (''position'', JObj pos)]
                           @ (if tel = [] then [] else [(''telemetry'', JObj tel)])
                           @ (case det of None \<Rightarrow> [] | Some d \<Rightarrow> [(''detection'', JObj d)]))))))))"

end
