(* ===== verification/Cot_Facts.thy ===== *)
theory Cot_Facts
  imports Cot_Codec
begin

text \<open>
  The properties of the Cursor-on-Target codec, each with a concrete instance: what a position or a
  detection keeps on the way through the format, what a chat loses, and what a decoded event may hold.
\<close>

section \<open>What the text of a number gives back\<close>

text \<open>\<^verbatim>\<open>float(str(x)) == x\<close>, which Python documents of its own floats.\<close>

definition reads_back :: "(json \<Rightarrow> string) \<Rightarrow> pyfloat \<Rightarrow> bool" where
  "reads_back repr x \<longleftrightarrow> py_float_str (repr (JFloat x)) = Some x"

definition opt_list :: "'a option \<Rightarrow> 'a list" where
  "opt_list v = (case v of None \<Rightarrow> [] | Some x \<Rightarrow> [x])"

definition position_floats :: "position \<Rightarrow> pyfloat list" where
  "position_floats p =
     [pos_lat p, pos_lon p, pos_hae p, pos_ce p, pos_le p] @ opt_list (pos_course_deg p) @ opt_list (pos_speed_ms p)"

definition attitude_floats :: "attitude \<Rightarrow> pyfloat list" where
  "attitude_floats a = opt_list (at_roll_deg a) @ opt_list (at_pitch_deg a) @ opt_list (at_yaw_deg a)"

text \<open>The percentage is read as a float first.\<close>

definition telemetry_floats :: "telemetry_block \<Rightarrow> pyfloat list" where
  "telemetry_floats t =
     opt_list (tb_battery_v t) @ opt_list (tb_current_a t) @
     (case tb_attitude t of None \<Rightarrow> [] | Some a \<Rightarrow> attitude_floats a)"

definition percent_reads_back :: "telemetry_block \<Rightarrow> bool" where
  "percent_reads_back t \<longleftrightarrow>
     (case tb_battery_pct t of None \<Rightarrow> True | Some i \<Rightarrow> py_float_str (str_int i) = Some (Fin (real_of_int i)))"

lemma opt_list_simps [simp]: "opt_list None = []" "opt_list (Some x) = [x]"
  by (simp_all add: opt_list_def)

lemma py_str_JFloat [simp]: "py_str repr (JFloat x) = repr (JFloat x)"
  by (simp add: py_str_def)

lemma get_dump_position:
  "get_or (JObj (dump_position p)) ''lat'' d = Inr (JFloat (pos_lat p))"
  "get_or (JObj (dump_position p)) ''lon'' d = Inr (JFloat (pos_lon p))"
  "get_or (JObj (dump_position p)) ''hae'' d = Inr (JFloat (pos_hae p))"
  "get_or (JObj (dump_position p)) ''ce'' d = Inr (JFloat (pos_ce p))"
  "get_or (JObj (dump_position p)) ''le'' d = Inr (JFloat (pos_le p))"
  "get_or (JObj (dump_position p)) ''course_deg'' d = Inr (case pos_course_deg p of None \<Rightarrow> d | Some x \<Rightarrow> JFloat x)"
  "get_or (JObj (dump_position p)) ''speed_ms'' d = Inr (case pos_speed_ms p of None \<Rightarrow> d | Some x \<Rightarrow> JFloat x)"
  by (cases "pos_course_deg p"; cases "pos_speed_ms p"; simp add: dump_position_def get_or_def)+

definition text_attr :: "(json \<Rightarrow> string) \<Rightarrow> string \<Rightarrow> pyfloat option \<Rightarrow> (string \<times> string) list" where
  "text_attr repr name v = (case v of None \<Rightarrow> [] | Some x \<Rightarrow> [(name, repr (JFloat x))])"

lemma text_attr_simps [simp]: "text_attr repr n None = []" "text_attr repr n (Some x) = [(n, repr (JFloat x))]"
  by (simp_all add: text_attr_def)

lemma float_attr_text:
  assumes "list_all (reads_back repr) (opt_list v)" "map_of (xattrs e) n = map_option (\<lambda>x. repr (JFloat x)) v"
  shows "float_attr e n = Inr v"
  using assms by (cases v) (simp_all add: float_attr_def attr_def reads_back_def)

section \<open>The point\<close>

definition point_of :: "(json \<Rightarrow> string) \<Rightarrow> position \<Rightarrow> xml" where
  "point_of repr p = Elem ''point''
     [(''lat'', repr (JFloat (pos_lat p))), (''lon'', repr (JFloat (pos_lon p))), (''hae'', repr (JFloat (pos_hae p))),
      (''ce'', repr (JFloat (pos_ce p))), (''le'', repr (JFloat (pos_le p)))] None []"

lemma point_encoded: "point_elem repr (JObj (dump_position p)) = Inr (point_of repr p)"
  by (simp add: point_elem_def get_text_def get_dump_position point_of_def)

definition base_items :: "position \<Rightarrow> (string \<times> json) list" where
  "base_items p = [(''lat'', JFloat (pos_lat p)), (''lon'', JFloat (pos_lon p)), (''hae'', JFloat (pos_hae p)),
      (''ce'', JFloat (pos_ce p)), (''le'', JFloat (pos_le p))]"

definition track_items :: "position \<Rightarrow> (string \<times> json) list" where
  "track_items p = item ''course_deg'' (map_option JFloat (pos_course_deg p))
     @ item ''speed_ms'' (map_option JFloat (pos_speed_ms p))"

lemma dump_position_split: "dump_position p = base_items p @ track_items p"
  by (simp add: dump_position_def base_items_def track_items_def)

lemma point_decoded:
  assumes "list_all (reads_back repr) (position_floats p)"
  shows "decode_point (Some (point_of repr p)) = Inr (base_items p)"
  using assms by (simp add: decode_point_def point_default_def point_of_def float_attr_def attr_def reads_back_def
      position_floats_def base_items_def)

section \<open>The telemetry\<close>

lemma get_dump_telemetry:
  "get_or (JObj (dump_telemetry t)) ''battery_v'' d = Inr (case tb_battery_v t of None \<Rightarrow> d | Some x \<Rightarrow> JFloat x)"
  "get_or (JObj (dump_telemetry t)) ''battery_pct'' d = Inr (case tb_battery_pct t of None \<Rightarrow> d | Some i \<Rightarrow> JInt i)"
  "get_or (JObj (dump_telemetry t)) ''current_a'' d = Inr (case tb_current_a t of None \<Rightarrow> d | Some x \<Rightarrow> JFloat x)"
  "get_or (JObj (dump_telemetry t)) ''attitude'' d = Inr (case tb_attitude t of None \<Rightarrow> d | Some a \<Rightarrow> dump_attitude a)"
  by (cases "tb_battery_v t"; cases "tb_battery_pct t"; cases "tb_current_a t"; cases "tb_attitude t";
      simp add: dump_telemetry_def get_or_def)+

lemma get_or_nothing [simp]: "get_or (JObj []) k d = Inr d"
  by (simp add: get_or_def)

lemma get_dump_attitude:
  "get_or (dump_attitude a) ''roll_deg'' d = Inr (case at_roll_deg a of None \<Rightarrow> d | Some x \<Rightarrow> JFloat x)"
  "get_or (dump_attitude a) ''pitch_deg'' d = Inr (case at_pitch_deg a of None \<Rightarrow> d | Some x \<Rightarrow> JFloat x)"
  "get_or (dump_attitude a) ''yaw_deg'' d = Inr (case at_yaw_deg a of None \<Rightarrow> d | Some x \<Rightarrow> JFloat x)"
  by (cases "at_roll_deg a"; cases "at_pitch_deg a"; cases "at_yaw_deg a"; simp add: dump_attitude_def get_or_def)+

text \<open>The attributes and the items of an attitude.\<close>

definition attitude_attrs :: "(json \<Rightarrow> string) \<Rightarrow> attitude \<Rightarrow> (string \<times> string) list" where
  "attitude_attrs repr a =
     text_attr repr ''roll'' (at_roll_deg a) @ text_attr repr ''pitch'' (at_pitch_deg a) @ text_attr repr ''yaw'' (at_yaw_deg a)"

definition status_attrs :: "cot_naming \<Rightarrow> telemetry_block \<Rightarrow> (string \<times> string) list" where
  "status_attrs N t = (case tb_battery_pct t of None \<Rightarrow> [] | Some i \<Rightarrow> [(cn_battery_attr N, str_int i)])"

definition vendor_attrs :: "(json \<Rightarrow> string) \<Rightarrow> telemetry_block \<Rightarrow> (string \<times> string) list" where
  "vendor_attrs repr t = text_attr repr ''battery_v'' (tb_battery_v t) @ text_attr repr ''current_a'' (tb_current_a t)"

definition track_kids :: "cot_naming \<Rightarrow> (json \<Rightarrow> string) \<Rightarrow> position \<Rightarrow> xml list" where
  "track_kids N repr p =
     (case (pos_course_deg p, pos_speed_ms p) of
        (Some c, Some s) \<Rightarrow> [Elem (cn_track N) [(''course'', repr (JFloat c)), (''speed'', repr (JFloat s))] None []]
      | _ \<Rightarrow> [])"

definition richer_kids :: "cot_naming \<Rightarrow> (json \<Rightarrow> string) \<Rightarrow> position \<Rightarrow> telemetry_block \<Rightarrow> xml list" where
  "richer_kids N repr p t = track_kids N repr p @ opt_elem (cn_status N) (status_attrs N t)
     @ opt_elem (cn_vendor N) (vendor_attrs repr t)
     @ opt_elem (cn_attitude N) (case tb_attitude t of None \<Rightarrow> [] | Some a \<Rightarrow> attitude_attrs repr a)"

lemma attitude_encoded:
  "present_attrs repr (dump_attitude a) [(''roll'', ''roll_deg''), (''pitch'', ''pitch_deg''), (''yaw'', ''yaw_deg'')]
    = Inr (attitude_attrs repr a)"
  by (cases "at_roll_deg a"; cases "at_pitch_deg a"; cases "at_yaw_deg a")
    (simp_all add: get_dump_attitude attitude_attrs_def)

lemma richer_encoded:
  "richer_detail N repr (JObj (dump_position p)) (JObj (dump_telemetry t)) = Inr (richer_kids N repr p t)"
proof -
  have s: "present_attrs repr (JObj (dump_telemetry t)) [(cn_battery_attr N, ''battery_pct'')] = Inr (status_attrs N t)"
    by (cases "tb_battery_pct t") (simp_all add: get_dump_telemetry status_attrs_def py_str_def)
  have v: "present_attrs repr (JObj (dump_telemetry t)) [(''battery_v'', ''battery_v''), (''current_a'', ''current_a'')]
      = Inr (vendor_attrs repr t)"
    by (cases "tb_battery_v t"; cases "tb_current_a t") (simp_all add: get_dump_telemetry vendor_attrs_def)
  have a: "then_ok (get_or_empty (JObj (dump_telemetry t)) ''attitude'') (\<lambda>attitude.
      then_ok (present_attrs repr attitude [(''roll'', ''roll_deg''), (''pitch'', ''pitch_deg''), (''yaw'', ''yaw_deg'')]) g)
      = g (case tb_attitude t of None \<Rightarrow> [] | Some a \<Rightarrow> attitude_attrs repr a)" for g
  proof (cases "tb_attitude t")
    case None
    then show ?thesis by (simp add: get_or_empty_def get_dump_telemetry)
  next
    case (Some w)
    show ?thesis
    proof (cases "truthy (dump_attitude w)")
      case True
      with Some show ?thesis by (simp add: get_or_empty_def get_dump_telemetry attitude_encoded del: present_attrs.simps)
    next
      case False
      then have "attitude_attrs repr w = []"
        by (cases "at_roll_deg w"; cases "at_pitch_deg w"; cases "at_yaw_deg w")
          (simp_all add: dump_attitude_def attitude_attrs_def)
      with False Some show ?thesis by (simp add: get_or_empty_def get_dump_telemetry)
    qed
  qed
  show ?thesis
    unfolding richer_detail_def s v then_ok_simps a get_dump_position
    by (cases "pos_course_deg p"; cases "pos_speed_ms p") (simp_all add: richer_kids_def track_kids_def)
qed

text \<open>The same items in the order in which they are read.\<close>

definition attitude_items :: "attitude \<Rightarrow> (string \<times> json) list" where
  "attitude_items a = item ''roll_deg'' (map_option JFloat (at_roll_deg a))
      @ item ''pitch_deg'' (map_option JFloat (at_pitch_deg a)) @ item ''yaw_deg'' (map_option JFloat (at_yaw_deg a))"

definition read_items :: "telemetry_block \<Rightarrow> (string \<times> json) list" where
  "read_items t = (item ''battery_pct'' (map_option JInt (tb_battery_pct t))
      @ item ''battery_v'' (map_option JFloat (tb_battery_v t)) @ item ''current_a'' (map_option JFloat (tb_current_a t)))
      @ item ''attitude'' (map_option dump_attitude (tb_attitude t))"

lemma dump_attitude_items: "dump_attitude a = JObj (attitude_items a)"
  by (simp add: dump_attitude_def attitude_items_def)

lemma read_items_empty: "read_items t = [] \<longleftrightarrow> dump_telemetry t = []"
  by (auto simp: read_items_def dump_telemetry_def)

lemma validate_read_items: "validate_telemetry P (JObj (read_items t)) = validate_telemetry P (JObj (dump_telemetry t))"
proof -
  have m: "map_of (read_items t) k = map_of (dump_telemetry t) k" for k
    by (cases "tb_battery_v t"; cases "tb_battery_pct t"; cases "tb_current_a t"; cases "tb_attitude t")
      (simp_all add: read_items_def dump_telemetry_def)
  show ?thesis by (simp add: validate_telemetry_def optional_def m)
qed

text \<open>Names that the details can be told apart by.\<close>

definition names_distinct :: "cot_naming \<Rightarrow> bool" where
  "names_distinct N \<longleftrightarrow>
     distinct [''contact'', ''__group'', cn_track N, cn_status N, cn_vendor N, cn_attitude N]"

definition pli_detail :: "cot_naming \<Rightarrow> (json \<Rightarrow> string) \<Rightarrow> string \<Rightarrow> string \<Rightarrow> position \<Rightarrow> telemetry_block \<Rightarrow> xml" where
  "pli_detail N repr callsign tier p t = Elem ''detail'' [] None
     ([Elem ''contact'' [(''callsign'', callsign)] None [], Elem ''__group'' [(''name'', tier), (''role'', ''Team Member'')] None []]
      @ richer_kids N repr p t)"

lemma find_opt_elem:
  "List.find (\<lambda>k. xtag k = tag) (opt_elem tag' attrs @ rest) =
     (if tag' = tag \<and> attrs \<noteq> [] then Some (Elem tag' attrs None []) else List.find (\<lambda>k. xtag k = tag) rest)"
  "List.find (\<lambda>k. xtag k = tag) (opt_elem tag' attrs) =
     (if tag' = tag \<and> attrs \<noteq> [] then Some (Elem tag' attrs None []) else None)"
  by (simp_all add: opt_elem_def)

lemma find_track_kids:
  "List.find (\<lambda>k. xtag k = tag) (track_kids N repr p @ rest) =
     (if cn_track N = tag \<and> track_kids N repr p \<noteq> [] then Some (hd (track_kids N repr p))
      else List.find (\<lambda>k. xtag k = tag) rest)"
  by (simp add: track_kids_def split: option.split)

lemma find_in_detail:
  assumes "names_distinct N"
  shows "find_kid (cn_track N) (pli_detail N repr cs tier p t) =
      (if track_kids N repr p = [] then None else Some (hd (track_kids N repr p)))"
    "find_kid (cn_status N) (pli_detail N repr cs tier p t) =
      (if status_attrs N t = [] then None else Some (Elem (cn_status N) (status_attrs N t) None []))"
    "find_kid (cn_vendor N) (pli_detail N repr cs tier p t) =
      (if vendor_attrs repr t = [] then None else Some (Elem (cn_vendor N) (vendor_attrs repr t) None []))"
    "find_kid (cn_attitude N) (pli_detail N repr cs tier p t) =
      (let a = case tb_attitude t of None \<Rightarrow> [] | Some a \<Rightarrow> attitude_attrs repr a
       in if a = [] then None else Some (Elem (cn_attitude N) a None []))"
    "find_kid ''contact'' (pli_detail N repr cs tier p t) = Some (Elem ''contact'' [(''callsign'', cs)] None [])"
  using assms
  by (auto simp: find_kid_def pli_detail_def richer_kids_def find_track_kids find_opt_elem names_distinct_def Let_def)

text \<open>An attitude that says something, and a course with its speed: the parts that the format keeps.\<close>

definition cot_keeps :: "position \<Rightarrow> telemetry_block \<Rightarrow> bool" where
  "cot_keeps p t \<longleftrightarrow> (pos_course_deg p = None) = (pos_speed_ms p = None) \<and>
     (case tb_attitude t of None \<Rightarrow> True | Some a \<Rightarrow> attitude_items a \<noteq> [])"

lemma float_items_attitude:
  assumes "list_all (reads_back repr) (attitude_floats a)"
  shows "float_items (Elem tag (attitude_attrs repr a) None [])
     [(''roll'', ''roll_deg''), (''pitch'', ''pitch_deg''), (''yaw'', ''yaw_deg'')] = Inr (attitude_items a)"
proof -
  have "float_attr (Elem tag (attitude_attrs repr a) None []) ''roll'' = Inr (at_roll_deg a)"
    "float_attr (Elem tag (attitude_attrs repr a) None []) ''pitch'' = Inr (at_pitch_deg a)"
    "float_attr (Elem tag (attitude_attrs repr a) None []) ''yaw'' = Inr (at_yaw_deg a)"
    using assms
    by (cases "at_roll_deg a"; cases "at_pitch_deg a"; cases "at_yaw_deg a";
        simp add: float_attr_def attr_def attitude_attrs_def attitude_floats_def reads_back_def)+
  then show ?thesis by (simp add: attitude_items_def)
qed

lemma richer_decoded:
  assumes "names_distinct N" "cot_keeps p t" "percent_reads_back t"
    and "list_all (reads_back repr) (position_floats p @ telemetry_floats t)"
  shows "decode_richer_detail N (pli_detail N repr cs tier p t) = Inr (track_items p, read_items t)"
proof -
  let ?d = "pli_detail N repr cs tier p t"
  note f = find_in_detail [OF assms(1), of repr cs tier p t]
  have track: "decode_track N ?d = Inr (track_items p)"
    using assms(2,4) unfolding decode_track_def f
    by (cases "pos_course_deg p"; cases "pos_speed_ms p")
      (simp_all add: cot_keeps_def track_kids_def track_items_def position_floats_def float_attr_def attr_def reads_back_def)
  have vendor: "(case find_kid (cn_vendor N) ?d of None \<Rightarrow> Inr []
      | Some e \<Rightarrow> float_items e [(''battery_v'', ''battery_v''), (''current_a'', ''current_a'')])
      = Inr (item ''battery_v'' (map_option JFloat (tb_battery_v t)) @ item ''current_a'' (map_option JFloat (tb_current_a t)))"
    using assms(4) unfolding f
    by (cases "tb_battery_v t"; cases "tb_current_a t")
      (simp_all add: vendor_attrs_def telemetry_floats_def float_attr_def attr_def reads_back_def)
  have status: "(case find_kid (cn_status N) ?d of None \<Rightarrow> Inr []
      | Some e \<Rightarrow> then_ok (float_attr e (cn_battery_attr N)) (\<lambda>v.
          case v of None \<Rightarrow> Inr []
          | Some f \<Rightarrow> then_ok (py_int_of_float f) (\<lambda>i. Inr [(''battery_pct'', JInt i)])))
      = Inr (item ''battery_pct'' (map_option JInt (tb_battery_pct t)))"
    using assms(3) unfolding f
    by (cases "tb_battery_pct t") (simp_all add: status_attrs_def percent_reads_back_def float_attr_def attr_def)
  have att: "decode_attitude N ?d = Inr (item ''attitude'' (map_option dump_attitude (tb_attitude t)))"
  proof (cases "tb_attitude t")
    case None
    then show ?thesis unfolding decode_attitude_def f by simp
  next
    case (Some a)
    have ne: "attitude_items a \<noteq> []" using assms(2) Some by (simp add: cot_keeps_def)
    then have "attitude_attrs repr a \<noteq> []"
      by (cases "at_roll_deg a"; cases "at_pitch_deg a"; cases "at_yaw_deg a")
        (simp_all add: attitude_items_def attitude_attrs_def)
    moreover have "list_all (reads_back repr) (attitude_floats a)" using assms(4) Some by (simp add: telemetry_floats_def)
    ultimately show ?thesis using ne unfolding decode_attitude_def f
      by (simp add: Some float_items_attitude dump_attitude_items del: float_items.simps)
  qed
  show ?thesis
    unfolding decode_richer_detail_def track decode_status_and_vendor_def status vendor att
    by (simp add: read_items_def)
qed

section \<open>Envelopes on the way\<close>

text \<open>A configuration whose names and types do not collide.\<close>

definition naming_ok :: "cot_naming \<Rightarrow> bool" where
  "naming_ok N \<longleftrightarrow>
     distinct [''contact'', ''__group'', ''remarks'', cn_track N, cn_status N, cn_vendor N, cn_attitude N, cn_detection N] \<and>
     cn_pli_type N \<noteq> cn_marker_type N \<and>
     list_all (\<lambda>ty. \<not> prefix ''b-t-f'' ty \<and> \<not> prefix ''b.t.f'' ty) [cn_pli_type N, cn_marker_type N] \<and>
     prefix ''b-t-f'' (cn_chat_type N)"

lemma naming_ok_distinct: "naming_ok N \<Longrightarrow> names_distinct N"
  by (simp add: naming_ok_def names_distinct_def)

text \<open>The stamps of an event at the time \<open>r\<close>: its text, and the time read back from it.\<close>

definition stamped :: "cot_naming \<Rightarrow> real \<Rightarrow> string \<Rightarrow> string \<Rightarrow> bool" where
  "stamped N r tm stale \<longleftrightarrow>
     iso (Fin r) = Inr tm \<and> iso (Fin (r + cn_stale_s N)) = Inr stale \<and> - 30610224000 \<le> r"

definition millis :: "real \<Rightarrow> pyfloat" where
  "millis r = Fin (real_of_int (py_round (r * 1000000) div 1000) / 1000)"

definition event_of :: "cot_naming \<Rightarrow> string \<Rightarrow> string \<Rightarrow> string \<Rightarrow> string \<Rightarrow> xml list \<Rightarrow> xml" where
  "event_of N uid etype tm stale = Elem ''event''
     [(''version'', cn_cot_version N), (''uid'', uid), (''type'', etype), (''how'', cn_how N),
      (''time'', tm), (''start'', tm), (''stale'', stale)] None"

lemma event_encoded: "stamped N r tm stale \<Longrightarrow> cot_event N uid etype (Fin r) = Inr (event_of N uid etype tm stale)"
  by (simp add: stamped_def cot_event_def event_of_def)

lemma iso_epoch: "\<exists>s. iso (Fin 0) = Inr s"
  by (simp add: iso_def from_timestamp_def EPOCH_DAY_def US_PER_DAY_def MAX_ORDINAL_US_def days_before_year_def
      del: py_round_of_int) (simp add: py_round_def)

lemma event_parsed:
  assumes "stamped N r tm stale"
  shows "parse_event zone (Inr (event_of N uid etype tm stale kids)) =
    Inr (event_of N uid etype tm stale kids, uid, etype, millis r)"
proof -
  obtain s where "iso (Fin 0) = Inr s" using iso_epoch by blast
  moreover have "parse_ts zone tm = Inr (millis r)"
    using parse_iso [of r tm zone] assms by (simp add: stamped_def millis_def)
  ultimately show ?thesis by (simp add: parse_event_def event_of_def attr_def)
qed

lemma tags [simp]: "xtag (point_of repr p) = ''point''" "xtag (pli_detail N repr cs tier p t) = ''detail''"
  "attr (Elem tag attrs x ks) = map_of attrs" "find_kid tg (Elem tag attrs x ks) = List.find (\<lambda>k. xtag k = tg) ks"
  by (simp_all add: point_of_def pli_detail_def attr_def find_kid_def)

lemma event_facts [simp]:
  "attr (event_of N uid etype tm stale kids) ''time'' = Some tm"
  "find_kid tag (event_of N uid etype tm stale kids) = List.find (\<lambda>k. xtag k = tag) kids"
  by (simp_all add: event_of_def attr_def find_kid_def)

lemma validated_parts:
  assumes "keeps_typed P" "mk_position lat lon hae ce le c s = Inr p" "mk_telemetry v pct cur a = Inr t"
  shows "validated_track P (base_items p @ track_items p) (read_items t) = Inr (dump_position p, dump_telemetry t)"
  using validate_dump_position [OF assms(1,2)] validate_dump_telemetry [OF assms(1,3)]
  by (simp add: validated_track_def validate_read_items read_items_empty flip: dump_position_split)

definition track_envelope :: "string \<Rightarrow> string \<Rightarrow> pyfloat \<Rightarrow> string \<Rightarrow> position \<Rightarrow> telemetry_block \<Rightarrow> envelope" where
  "track_envelope src mid ts cs p t =
     \<lparr>env_schema_version = SCHEMA_VERSION, env_msg_id = mid, env_ts = ts, env_source_uid = src, env_kind = Pli,
      env_payload = [(''node'', JObj [(''uid'', JStr src), (''callsign'', JStr cs)]), (''position'', JObj (dump_position p))]
        @ (if dump_telemetry t = [] then [] else [(''telemetry'', JObj (dump_telemetry t))])\<rparr>"

lemma track_envelope_facts [simp]:
  "env_source_uid (track_envelope src mid ts cs p t) = src" "env_kind (track_envelope src mid ts cs p t) = Pli"
  by (simp_all add: track_envelope_def)

lemma or_empty_dump: "or_empty (if dump_telemetry t = [] then None else Some (JObj (dump_telemetry t))) = JObj (dump_telemetry t)"
  by (simp add: or_empty_def)

lemma pli_encoded:
  assumes "stamped N r tm stale" "cn_emit_detail N"
  shows "cot_encode N repr (track_envelope src mid (Fin r) cs p t) =
    Inr (event_of N src (cn_pli_type N) tm stale [point_of repr p, pli_detail N repr cs [] p t])"
proof -
  let ?env = "track_envelope src mid (Fin r) cs p t"
  have n: "get_text repr (JObj [(''uid'', JStr src), (''callsign'', JStr cs)]) ''callsign'' d = Inr cs"
    "get_text repr (JObj [(''uid'', JStr src), (''callsign'', JStr cs)]) ''tier'' (JStr []) = Inr []" for d
    by (simp_all add: get_text_def get_or_def)
  have pl: "payload_or_empty ?env ''node'' = JObj [(''uid'', JStr src), (''callsign'', JStr cs)]"
    "payload_or_empty ?env ''position'' = JObj (dump_position p)"
    "or_empty (map_of (env_payload ?env) ''telemetry'') = JObj (dump_telemetry t)"
    "env_source_uid ?env = src" "env_ts ?env = Fin r" "env_kind ?env = Pli"
    by (simp_all add: track_envelope_def payload_or_empty_def or_empty_dump or_empty_def)
  show ?thesis
    using assms(2)
    by (simp add: cot_encode_def cot_encode_pli_def Let_def pl n event_encoded [OF assms(1)] point_encoded
        richer_encoded pli_detail_def)
qed

definition demo_repr :: "json \<Rightarrow> string" where
  "demo_repr j =
     (case j of
        JFloat (Fin x) \<Rightarrow>
          if x = 10 then ''10.0'' else if x = -20 then ''-20.0'' else if x = 1/2 then ''0.5''
          else if x = 9999999 then ''9999999.0'' else ''0.0''
      | _ \<Rightarrow> [])"

lemmas float_text_defs = py_float_str_def split_sign_def py_lower_def lower_char_def py_strip_def is_space_def
  decimal_value_def mantissa_value_def py_partition_def unsigned_int_def is_digit_def code_def digit_count_def
  float_of_real_def

lemma demo_reads_back:
  "reads_back demo_repr (Fin 10)" "reads_back demo_repr (Fin (-20))" "reads_back demo_repr (Fin (1/2))"
  "reads_back demo_repr (Fin 0)" "reads_back demo_repr UNKNOWN_ERROR_M"
  by (simp_all add: reads_back_def demo_repr_def UNKNOWN_ERROR_M_def float_text_defs)

lemma demo_percent: "py_float_str (str_int 75) = Some (Fin 75)"
proof -
  have "str_int 75 = ''75''" by code_simp
  then show ?thesis by (simp add: float_text_defs)
qed

lemma demo_stamped: "\<exists>tm stale. stamped default_naming 0 tm stale"
proof -
  have d: "days_before_year 10000 = 3652059" by (simp add: days_before_year_def)
  have "py_round 0 = 0" "py_round 120000000 = 120000000"
    using py_round_of_int [of 0] py_round_of_int [of 120000000] by simp_all
  then show ?thesis
    by (simp add: stamped_def iso_def from_timestamp_def default_naming_def EPOCH_DAY_def US_PER_DAY_def
        MAX_ORDINAL_US_def d)
qed

lemma demo_naming: "naming_ok default_naming" "cn_emit_detail default_naming"
  by (simp_all add: naming_ok_def default_naming_def)

lemma kept_roundtrip:
  assumes "naming_ok N" "cn_emit_detail N" "keeps_typed P" "stamped N r tm stale"
    and "mk_position lat lon hae ce le c s = Inr p" "mk_telemetry v pct cur a = Inr t"
    and "cot_keeps p t" "percent_reads_back t"
    and "list_all (reads_back repr) (position_floats p @ telemetry_floats t)"
  shows "\<exists>ev. cot_encode N repr (track_envelope src mid (Fin r) cs p t) = Inr ev \<and>
    cot_decode N P zone (Inr ev) = Inr (track_envelope src (src @ '':'' @ tm) (millis r) cs p t)"
proof -
  let ?d = "pli_detail N repr cs [] p t"
  let ?ev = "event_of N src (cn_pli_type N) tm stale [point_of repr p, ?d]"
  have names: "names_distinct N" using naming_ok_distinct [OF assms(1)] .
  have ty: "\<not> prefix ''b-t-f'' (cn_pli_type N)" "\<not> prefix ''b.t.f'' (cn_pli_type N)" "kind_for N (cn_pli_type N) = Pli"
    using assms(1) by (simp_all add: naming_ok_def kind_for_def)
  have pt: "decode_point (Some (point_of repr p)) = Inr (base_items p)"
    using assms(9) by (intro point_decoded) simp
  have "cot_decode N P zone (Inr ?ev) = Inr (track_envelope src (src @ '':'' @ tm) (millis r) cs p t)"
    unfolding cot_decode_def event_parsed [OF assms(4)]
    by (simp add: Let_def ty pt find_in_detail(5) [OF names] richer_decoded [OF names assms(7-9)]
        validated_parts [OF assms(3,5,6)] cot_envelope_def track_envelope_def)
  with pli_encoded [OF assms(4,2)] show ?thesis by blast
qed

text \<open>
  What the format has no place for: a course without a speed or a speed without a course is written nowhere, and an
  attitude with no angle comes back as no attitude.
\<close>

definition kept_position :: "position \<Rightarrow> position" where
  "kept_position p =
     (if pos_course_deg p = None \<or> pos_speed_ms p = None then p\<lparr>pos_course_deg := None, pos_speed_ms := None\<rparr> else p)"

definition kept_telemetry :: "telemetry_block \<Rightarrow> telemetry_block" where
  "kept_telemetry t =
     (case tb_attitude t of None \<Rightarrow> t | Some a \<Rightarrow> if attitude_items a = [] then t\<lparr>tb_attitude := None\<rparr> else t)"

lemma kept_keeps: "cot_keeps (kept_position p) (kept_telemetry t)"
  by (auto simp: cot_keeps_def kept_position_def kept_telemetry_def split: option.split)

lemma kept_same: "cot_keeps p t \<Longrightarrow> kept_position p = p \<and> kept_telemetry t = t"
  by (cases p; cases t) (auto simp: cot_keeps_def kept_position_def kept_telemetry_def split: option.splits)

lemma kept_valid:
  "mk_position lat lon hae ce le c s = Inr p \<Longrightarrow> \<exists>c s. mk_position lat lon hae ce le c s = Inr (kept_position p)"
  "mk_telemetry v pct cur a = Inr t \<Longrightarrow> \<exists>a. mk_telemetry v pct cur a = Inr (kept_telemetry t)"
proof -
  assume m: "mk_position lat lon hae ce le c s = Inr p"
  then have n: "mk_position lat lon hae ce le None None = Inr (p\<lparr>pos_course_deg := None, pos_speed_ms := None\<rparr>)"
    by (auto simp: mk_position_def absent_or_def split: if_splits)
  show "\<exists>c s. mk_position lat lon hae ce le c s = Inr (kept_position p)"
    unfolding kept_position_def using m n by (cases "pos_course_deg p = None \<or> pos_speed_ms p = None") auto
next
  assume m: "mk_telemetry v pct cur a = Inr t"
  then have n: "mk_telemetry v pct cur None = Inr (t\<lparr>tb_attitude := None\<rparr>)"
    by (auto simp: mk_telemetry_def split: if_splits)
  show "\<exists>a. mk_telemetry v pct cur a = Inr (kept_telemetry t)"
    unfolding kept_telemetry_def using m n by (auto split: option.split)
qed

lemma kept_encoded: "pli_detail N repr cs tier p t = pli_detail N repr cs tier (kept_position p) (kept_telemetry t)"
  "point_of repr p = point_of repr (kept_position p)"
proof -
  have "attitude_items a = [] \<longleftrightarrow> attitude_attrs repr a = []" for a
    by (cases "at_roll_deg a"; cases "at_pitch_deg a"; cases "at_yaw_deg a") (simp_all add: attitude_items_def attitude_attrs_def)
  then show "pli_detail N repr cs tier p t = pli_detail N repr cs tier (kept_position p) (kept_telemetry t)"
    by (auto simp: pli_detail_def richer_kids_def kept_position_def kept_telemetry_def track_kids_def status_attrs_def
        vendor_attrs_def split: option.split)
  show "point_of repr p = point_of repr (kept_position p)" by (simp add: point_of_def kept_position_def)
qed

lemma kept_texts:
  "list_all (reads_back repr) (position_floats p @ telemetry_floats t) \<Longrightarrow>
   list_all (reads_back repr) (position_floats (kept_position p) @ telemetry_floats (kept_telemetry t))"
  "percent_reads_back t \<Longrightarrow> percent_reads_back (kept_telemetry t)"
  by (auto simp: kept_position_def kept_telemetry_def position_floats_def telemetry_floats_def percent_reads_back_def
      split: option.split)

text \<open>C15: A valid position with its telemetry is encoded as a Cursor-on-Target event, and comes back from it with the
  source, the callsign, the coordinates, the errors, the battery and the current as they were; course and speed when
  both are present, and neither of them otherwise; the attitude, unless it has no angle at all.  The message id is made
  anew, and the time is cut to the millisecond.  Hypotheses: the element names and the types of the configuration do
  not collide, the detail is emitted, the time can be written in the years of the format, and the texts of the numbers
  read back as these numbers.\<close>

theorem cot_position_roundtrip:
  assumes "naming_ok N" "cn_emit_detail N" "keeps_typed P" "stamped N r tm stale"
    and "mk_position lat lon hae ce le c s = Inr p" "mk_telemetry v pct cur a = Inr t" "percent_reads_back t"
    and "list_all (reads_back repr) (position_floats p @ telemetry_floats t)"
  shows "\<exists>ev. cot_encode N repr (track_envelope src mid (Fin r) cs p t) = Inr ev \<and>
    cot_decode N P zone (Inr ev) =
      Inr (track_envelope src (src @ '':'' @ tm) (millis r) cs (kept_position p) (kept_telemetry t)) \<and>
    (cot_keeps p t \<longrightarrow> kept_position p = p \<and> kept_telemetry t = t)"
proof -
  obtain c' s' a' where "mk_position lat lon hae ce le c' s' = Inr (kept_position p)"
    "mk_telemetry v pct cur a' = Inr (kept_telemetry t)"
    using kept_valid(1) [OF assms(5)] kept_valid(2) [OF assms(6)] by blast
  from kept_roundtrip [OF assms(1-4) this kept_keeps kept_texts(2) [OF assms(7)] kept_texts(1) [OF assms(8)]]
  show ?thesis
    using kept_same pli_encoded [OF assms(4,2)] kept_encoded by metis
qed

definition demo_typed :: coercions where
  "demo_typed = \<lparr>as_float = \<lambda>j. case j of JFloat f \<Rightarrow> Some f | _ \<Rightarrow> None, as_int = \<lambda>j. case j of JInt i \<Rightarrow> Some i | _ \<Rightarrow> None\<rparr>"

lemma demo_typed_ok: "keeps_typed demo_typed"
  by (simp add: keeps_typed_def demo_typed_def)

theorem cot_position_roundtrip_witness:
  "\<exists>ev env. cot_encode default_naming demo_repr
      (track_envelope ''uav-1'' ''m1'' (Fin 0) ''FOX1''
        \<lparr>pos_lat = Fin 10, pos_lon = Fin (-20), pos_hae = Fin 0, pos_ce = UNKNOWN_ERROR_M, pos_le = UNKNOWN_ERROR_M,
         pos_course_deg = Some (Fin 10), pos_speed_ms = Some (Fin (1/2))\<rparr>
        \<lparr>tb_battery_v = Some (Fin 10), tb_battery_pct = Some 75, tb_current_a = None,
         tb_attitude = Some \<lparr>at_roll_deg = Some (Fin (-20)), at_pitch_deg = None, at_yaw_deg = None\<rparr>\<rparr>) = Inr ev \<and>
    cot_decode default_naming demo_typed id (Inr ev) = Inr env \<and> env_source_uid env = ''uav-1'' \<and> env_kind env = Pli"
proof -
  obtain tm stale where st: "stamped default_naming 0 tm stale" using demo_stamped by blast
  let ?p = "\<lparr>pos_lat = Fin 10, pos_lon = Fin (-20), pos_hae = Fin 0, pos_ce = UNKNOWN_ERROR_M, pos_le = UNKNOWN_ERROR_M,
         pos_course_deg = Some (Fin 10), pos_speed_ms = Some (Fin (1/2))\<rparr>"
  let ?a = "\<lparr>at_roll_deg = Some (Fin (-20)), at_pitch_deg = None, at_yaw_deg = None\<rparr>"
  let ?t = "\<lparr>tb_battery_v = Some (Fin 10), tb_battery_pct = Some 75, tb_current_a = None, tb_attitude = Some ?a\<rparr>"
  have p: "mk_position (Fin 10) (Fin (-20)) (Fin 0) UNKNOWN_ERROR_M UNKNOWN_ERROR_M (Some (Fin 10)) (Some (Fin (1/2))) = Inr ?p"
    by (simp add: mk_position_def in_closed_def in_half_open_def absent_or_def nonneg_finite_def)
  have t: "mk_telemetry (Some (Fin 10)) (Some 75) None (Some ?a) = Inr ?t"
    by (simp add: mk_telemetry_def absent_or_def nonneg_finite_def)
  from cot_position_roundtrip [OF demo_naming demo_typed_ok st p t, of demo_repr "''uav-1''" "''m1''" "''FOX1''" id]
  show ?thesis
    by (auto simp: cot_keeps_def percent_reads_back_def demo_percent position_floats_def telemetry_floats_def
        attitude_floats_def attitude_items_def demo_reads_back)
qed

section \<open>Detections\<close>

definition marker_uid :: "string \<Rightarrow> detection \<Rightarrow> string" where
  "marker_uid src d = (case det_track_id d of None \<Rightarrow> src | Some i \<Rightarrow> src @ '':'' @ str_int i)"

definition marker_envelope :: "string \<Rightarrow> string \<Rightarrow> pyfloat \<Rightarrow> string \<Rightarrow> position \<Rightarrow> detection \<Rightarrow> envelope" where
  "marker_envelope src mid ts cs p d =
     \<lparr>env_schema_version = SCHEMA_VERSION, env_msg_id = mid, env_ts = ts, env_source_uid = src, env_kind = Marker,
      env_payload = [(''node'', JObj [(''uid'', JStr src), (''callsign'', JStr cs)]),
        (''position'', JObj (dump_position p)), (''detection'', JObj (dump_detection d))]\<rparr>"

lemma marker_envelope_facts [simp]:
  "env_source_uid (marker_envelope src mid ts cs p d) = src" "env_kind (marker_envelope src mid ts cs p d) = Marker"
  by (simp_all add: marker_envelope_def)

definition detection_floats :: "detection \<Rightarrow> pyfloat list" where
  "detection_floats d = det_confidence d # opt_list (det_bearing_deg d)"

definition detection_texts :: "(json \<Rightarrow> string) \<Rightarrow> detection \<Rightarrow> (string \<times> string) list" where
  "detection_texts repr d =
     [(''label'', det_label d), (''confidence'', repr (JFloat (det_confidence d)))]
     @ (case det_track_id d of None \<Rightarrow> [] | Some i \<Rightarrow> [(''track_id'', str_int i)])
     @ text_attr repr ''bearing_deg'' (det_bearing_deg d)"

definition marker_detail :: "cot_naming \<Rightarrow> (json \<Rightarrow> string) \<Rightarrow> string \<Rightarrow> detection \<Rightarrow> string \<Rightarrow> xml" where
  "marker_detail N repr cs d remarks = Elem ''detail'' [] None
     [Elem ''contact'' [(''callsign'', cs)] None [], Elem (cn_detection N) (detection_texts repr d) None [],
      Elem ''remarks'' [] (Some remarks) []]"

lemma get_dump_detection:
  "get_or (JObj (dump_detection d)) ''label'' k = Inr (JStr (det_label d))"
  "get_or (JObj (dump_detection d)) ''confidence'' k = Inr (JFloat (det_confidence d))"
  "get_or (JObj (dump_detection d)) ''track_id'' k = Inr (case det_track_id d of None \<Rightarrow> k | Some i \<Rightarrow> JInt i)"
  "get_or (JObj (dump_detection d)) ''bearing_deg'' k = Inr (case det_bearing_deg d of None \<Rightarrow> k | Some x \<Rightarrow> JFloat x)"
  by (cases "det_track_id d"; cases "det_bearing_deg d"; simp add: dump_detection_def get_or_def)+

lemma remarks_made: "\<exists>remarks. marker_remarks (JObj (dump_detection d)) label = Inr remarks"
  by (cases "det_bearing_deg d") (simp_all add: marker_remarks_def get_dump_detection)

lemma detection_texts_made:
  "detection_attrs repr (JObj (dump_detection d)) label =
     Inr (Some ([(''label'', label)] @ tl (detection_texts repr d)))"
  by (cases "det_track_id d"; cases "det_bearing_deg d")
    (simp_all add: detection_attrs_def get_dump_detection detection_texts_def py_str_def)

lemma marker_encoded:
  assumes "stamped N r tm stale"
  shows "\<exists>remarks. cot_encode N repr (marker_envelope src mid (Fin r) cs p d) =
    Inr (event_of N (marker_uid src d) (cn_marker_type N) tm stale [point_of repr p, marker_detail N repr cs d remarks])"
proof -
  obtain remarks where m: "marker_remarks (JObj (dump_detection d)) (det_label d) = Inr remarks"
    using remarks_made by blast
  let ?env = "marker_envelope src mid (Fin r) cs p d"
  have n: "get_text repr (JObj [(''uid'', JStr src), (''callsign'', JStr cs)]) ''callsign'' k = Inr cs"
    "get_text repr (JObj (dump_detection d)) ''label'' k = Inr (det_label d)" for k
    by (simp_all add: get_text_def get_dump_detection) (simp add: get_or_def)
  have pl: "or_empty (map_of (env_payload ?env) ''node'') = JObj [(''uid'', JStr src), (''callsign'', JStr cs)]"
    "or_empty (map_of (env_payload ?env) ''position'') = JObj (dump_position p)"
    "or_empty (map_of (env_payload ?env) ''detection'') = JObj (dump_detection d)"
    "env_source_uid ?env = src" "env_ts ?env = Fin r" "env_kind ?env = Marker"
    by (simp_all add: marker_envelope_def or_empty_def dump_position_def dump_detection_def)
  have uid: "(if (case det_track_id d of None \<Rightarrow> JNull | Some i \<Rightarrow> JInt i) \<noteq> JNull
      then src @ '':'' @ py_str repr (case det_track_id d of None \<Rightarrow> JNull | Some i \<Rightarrow> JInt i) else src)
      = marker_uid src d"
    by (simp add: marker_uid_def py_str_def split: option.split)
  have texts: "[(''label'', det_label d)] @ tl (detection_texts repr d) = detection_texts repr d"
    by (simp add: detection_texts_def)
  have "cot_encode N repr ?env =
    Inr (event_of N (marker_uid src d) (cn_marker_type N) tm stale [point_of repr p, marker_detail N repr cs d remarks])"
    unfolding cot_encode_def cot_encode_marker_def Let_def pl n then_ok_simps get_dump_detection uid
      event_encoded [OF assms] point_encoded detection_texts_made texts m
    by (simp add: marker_detail_def)
  then show ?thesis by blast
qed

lemma detection_decoded:
  assumes "naming_ok N" "keeps_typed P" "mk_detection l c tr b = Inr d" "list_all (reads_back repr) (detection_floats d)"
  shows "decode_detection N P (Some (marker_detail N repr cs d remarks)) = Inr (Some (dump_detection d))"
proof -
  let ?e = "Elem (cn_detection N) (detection_texts repr d) None []"
  have f: "find_kid (cn_detection N) (marker_detail N repr cs d remarks) = Some ?e"
    using assms(1) by (auto simp: naming_ok_def find_kid_def marker_detail_def)
  have conf: "float_items ?e [(''confidence'', ''confidence'')] = Inr [(''confidence'', JFloat (det_confidence d))]"
    "float_items ?e [(''bearing_deg'', ''bearing_deg'')] = Inr (item ''bearing_deg'' (map_option JFloat (det_bearing_deg d)))"
    using assms(4)
    by (cases "det_track_id d"; cases "det_bearing_deg d";
        simp add: detection_texts_def float_attr_def detection_floats_def reads_back_def)+
  have tr: "(case attr ?e ''track_id'' of None \<Rightarrow> Inr []
      | Some s \<Rightarrow> (case py_int_str s of None \<Rightarrow> Inl ValueError | Some i \<Rightarrow> Inr [(''track_id'', JInt i)]))
      = Inr (item ''track_id'' (map_option JInt (det_track_id d)))"
    by (cases "det_track_id d"; cases "det_bearing_deg d") (simp_all add: detection_texts_def py_int_str_int)
  have lab: "attr ?e ''label'' = Some (det_label d)" "attr ?e ''confidence'' \<noteq> None"
    by (simp_all add: detection_texts_def)
  have dump: "[(''label'', JStr (det_label d))] @ [(''confidence'', JFloat (det_confidence d))]
      @ item ''track_id'' (map_option JInt (det_track_id d)) @ item ''bearing_deg'' (map_option JFloat (det_bearing_deg d))
      = dump_detection d"
    by (simp add: dump_detection_def)
  show ?thesis
    unfolding decode_detection_def bind.bind_lunit f option.case conf tr lab then_ok_simps dump
      validate_dump_detection [OF assms(2,3)]
    using lab(2) by simp
qed

lemma marker_no_details:
  assumes "naming_ok N"
  shows "decode_richer_detail N (marker_detail N repr cs d remarks) = Inr ([], [])"
proof -
  have "find_kid tag (marker_detail N repr cs d remarks) = None"
    if "tag \<in> {cn_track N, cn_status N, cn_vendor N, cn_attitude N}" for tag
    using assms that by (auto simp: naming_ok_def find_kid_def marker_detail_def)
  then show ?thesis
    by (simp add: decode_richer_detail_def decode_track_def decode_status_and_vendor_def decode_attitude_def)
qed

text \<open>A detection comes back from a Cursor-on-Target event with its position, label, confidence,
  track and bearing.  Its source, though, comes back as the name of the marker, with the track appended
  to it.\<close>

theorem cot_marker_roundtrip:
  assumes "naming_ok N" "keeps_typed P" "stamped N r tm stale"
    and "mk_position lat lon hae ce le None None = Inr p" "mk_detection l conf tr b = Inr d"
    and "list_all (reads_back repr) (position_floats p @ detection_floats d)"
  shows "\<exists>ev. cot_encode N repr (marker_envelope src mid (Fin r) cs p d) = Inr ev \<and>
    cot_decode N P zone (Inr ev) =
      Inr (marker_envelope (marker_uid src d) (marker_uid src d @ '':'' @ tm) (millis r) cs p d)"
proof -
  obtain remarks where enc: "cot_encode N repr (marker_envelope src mid (Fin r) cs p d) =
      Inr (event_of N (marker_uid src d) (cn_marker_type N) tm stale [point_of repr p, marker_detail N repr cs d remarks])"
    (is "_ = Inr ?ev") using marker_encoded [OF assms(3)] by blast
  have ty: "\<not> prefix ''b-t-f'' (cn_marker_type N)" "\<not> prefix ''b.t.f'' (cn_marker_type N)"
    "kind_for N (cn_marker_type N) = Marker"
    using assms(1) by (simp_all add: naming_ok_def kind_for_def)
  have pt: "decode_point (Some (point_of repr p)) = Inr (base_items p)"
    using assms(6) by (intro point_decoded) simp
  have v: "validated_track P (base_items p) [] = Inr (dump_position p, [])"
    using validate_dump_position [OF assms(2,4)] mk_position_id [OF assms(4)]
    by (simp add: validated_track_def dump_position_split track_items_def)
  have c: "xtag (marker_detail N repr cs d remarks) = ''detail''"
    "find_kid ''contact'' (marker_detail N repr cs d remarks) = Some (Elem ''contact'' [(''callsign'', cs)] None [])"
    by (simp_all add: marker_detail_def find_kid_def)
  have "cot_decode N P zone (Inr ?ev) =
      Inr (marker_envelope (marker_uid src d) (marker_uid src d @ '':'' @ tm) (millis r) cs p d)"
    unfolding cot_decode_def event_parsed [OF assms(3)]
    using assms(6)
    by (simp add: Let_def ty pt c v marker_no_details [OF assms(1)] detection_decoded [OF assms(1,2,5)]
        cot_envelope_def marker_envelope_def)
  with enc show ?thesis by blast
qed

theorem cot_marker_roundtrip_witness:
  "\<exists>ev env. cot_encode default_naming demo_repr
      (marker_envelope ''cam'' ''d1'' (Fin 0) ''truck''
        \<lparr>pos_lat = Fin 10, pos_lon = Fin (-20), pos_hae = Fin 0, pos_ce = Fin 10, pos_le = UNKNOWN_ERROR_M,
         pos_course_deg = None, pos_speed_ms = None\<rparr>
        \<lparr>det_label = ''truck'', det_confidence = Fin (1/2), det_track_id = Some 7, det_bearing_deg = Some (Fin 10)\<rparr>) = Inr ev \<and>
    cot_decode default_naming demo_typed id (Inr ev) = Inr env \<and> env_source_uid env = ''cam:7'' \<and> env_kind env = Marker"
proof -
  obtain tm stale where st: "stamped default_naming 0 tm stale" using demo_stamped by blast
  let ?p = "\<lparr>pos_lat = Fin 10, pos_lon = Fin (-20), pos_hae = Fin 0, pos_ce = Fin 10, pos_le = UNKNOWN_ERROR_M,
         pos_course_deg = None, pos_speed_ms = None\<rparr>"
  let ?d = "\<lparr>det_label = ''truck'', det_confidence = Fin (1/2), det_track_id = Some 7, det_bearing_deg = Some (Fin 10)\<rparr>"
  have p: "mk_position (Fin 10) (Fin (-20)) (Fin 0) (Fin 10) UNKNOWN_ERROR_M None None = Inr ?p"
    by (simp add: mk_position_def in_closed_def absent_or_def)
  have d: "mk_detection ''truck'' (Fin (1/2)) (Some 7) (Some (Fin 10)) = Inr ?d"
    by (simp add: mk_detection_def in_closed_def in_half_open_def absent_or_def)
  have "str_int 7 = ''7''" by code_simp
  with cot_marker_roundtrip [OF demo_naming(1) demo_typed_ok st p d, of demo_repr "''cam''" "''d1''" "''truck''" id]
  show ?thesis
    by (auto simp: position_floats_def detection_floats_def demo_reads_back marker_uid_def)
qed

section \<open>Chats\<close>

definition chat_envelope :: "string \<Rightarrow> string \<Rightarrow> pyfloat \<Rightarrow> string \<Rightarrow> json \<Rightarrow> envelope" where
  "chat_envelope src mid ts msg room =
     \<lparr>env_schema_version = SCHEMA_VERSION, env_msg_id = mid, env_ts = ts, env_source_uid = src, env_kind = Chat,
      env_payload = [(''text'', JStr msg), (''to'', room)]\<rparr>"

text \<open>The text of a chat survives the format, but neither its sender nor its room does: the decoded
  chat comes from a source that is the id of the message, and is addressed to no one.\<close>

theorem cot_chat_keeps_text:
  assumes "naming_ok N" "stamped N r tm stale"
  shows "\<exists>ev. cot_encode N repr (chat_envelope src mid (Fin r) msg room) = Inr ev \<and>
    cot_decode N P zone (Inr ev) = Inr (chat_envelope mid (mid @ '':'' @ tm) (millis r) msg JNull)"
proof -
  let ?kids = "\<lambda>room_id room_uid. [Elem ''point'' [(''lat'', ''0.0''), (''lon'', ''0.0''), (''hae'', ''0.0''),
        (''ce'', repr (JFloat UNKNOWN_ERROR_M)), (''le'', repr (JFloat UNKNOWN_ERROR_M))] None [],
      Elem ''detail'' [] None
        [Elem ''__chat'' [(''senderCallsign'', src), (''id'', room_id)] None
           [Elem ''chatgrp'' [(''uid0'', src), (''uid1'', room_uid)] None []],
         Elem ''remarks'' [] (Some msg) []]]"
  have "\<exists>a b. cot_encode N repr (chat_envelope src mid (Fin r) msg room) =
      Inr (event_of N mid (cn_chat_type N) tm stale (?kids a b))"
    by (simp add: cot_encode_def cot_encode_chat_def chat_envelope_def event_encoded [OF assms(2)] remark_text_def Let_def)
      (intro exI, rule refl)
  then obtain a b where e: "cot_encode N repr (chat_envelope src mid (Fin r) msg room) =
      Inr (event_of N mid (cn_chat_type N) tm stale (?kids a b))" by blast
  have "prefix ''b-t-f'' (cn_chat_type N)" using assms(1) by (simp add: naming_ok_def)
  then have "cot_decode N P zone (Inr (event_of N mid (cn_chat_type N) tm stale (?kids a b))) =
      Inr (chat_envelope mid (mid @ '':'' @ tm) (millis r) msg JNull)"
    unfolding cot_decode_def event_parsed [OF assms(2)]
    by (simp add: Let_def cot_decode_chat_def cot_envelope_def chat_envelope_def)
  with e show ?thesis by blast
qed

theorem cot_chat_keeps_text_witness:
  "\<exists>ev env. cot_encode default_naming demo_repr (chat_envelope ''user-1'' ''c1'' (Fin 0) ''rally'' (JStr ''red'')) = Inr ev \<and>
    cot_decode default_naming demo_typed id (Inr ev) = Inr env \<and> env_source_uid env = ''c1''"
proof -
  obtain tm stale where "stamped default_naming 0 tm stale" using demo_stamped by blast
  from cot_chat_keeps_text [OF demo_naming(1) this, of demo_repr "''user-1''" "''c1''" "''rally''" "JStr ''red''" demo_typed id]
  show ?thesis by (auto simp: chat_envelope_def)
qed

section \<open>Untrusted events\<close>

definition point_unreadable :: "xml \<Rightarrow> bool" where
  "point_unreadable ev \<longleftrightarrow>
     (\<exists>pt k s. find_kid ''point'' ev = Some pt \<and> attr pt k = Some s \<and> py_float_str s = None)"

definition battery_infinite :: "cot_naming \<Rightarrow> xml \<Rightarrow> bool" where
  "battery_infinite N ev \<longleftrightarrow>
     (\<exists>d e s. find_kid ''detail'' ev = Some d \<and> find_kid (cn_status N) d = Some e \<and>
       attr e (cn_battery_attr N) = Some s \<and> py_float_str s \<in> {Some PInf, Some NInf})"

lemma float_attr_Inl: "float_attr e k = Inl x \<Longrightarrow> x = ValueError \<and> (\<exists>s. attr e k = Some s \<and> py_float_str s = None)"
  by (auto simp: float_attr_def split: option.splits)

lemma float_items_Inl: "float_items e ks = Inl x \<Longrightarrow> x = ValueError"
  by (induction e ks rule: float_items.induct) (auto simp: then_ok_Inl_iff dest: float_attr_Inl)

lemma map_ok_Inl: "map_ok f xs = Inl e \<Longrightarrow> \<exists>x \<in> set xs. f x = Inl e"
  by (induction xs) (auto simp: then_ok_Inl_iff)

lemma decode_point_Inl:
  "decode_point pt = Inl x \<Longrightarrow> x = ValueError \<and> (\<exists>e k s. pt = Some e \<and> attr e k = Some s \<and> py_float_str s = None)"
  unfolding decode_point_def
  by (drule map_ok_Inl) (auto simp: then_ok_Inl_iff split: option.splits dest!: float_attr_Inl, blast)

lemma field_Inl:
  "required conv kvs k = Inl x \<Longrightarrow> x = ValueError"
  "defaulted conv kvs k dflt = Inl x \<Longrightarrow> x = ValueError"
  "optional conv kvs k = Inl x \<Longrightarrow> x = ValueError"
  by (auto simp: required_def defaulted_def optional_def split: option.splits json.splits)

lemma made_Inl:
  "mk_position lat lon hae ce le c s = Inl x \<Longrightarrow> x = ValueError"
  "mk_telemetry v pct cur a = Inl x \<Longrightarrow> x = ValueError"
  "mk_detection l cf tr b = Inl x \<Longrightarrow> x = ValueError"
  by (auto simp: mk_position_def mk_telemetry_def mk_detection_def split: if_splits)

lemma validate_Inl:
  "validate_position P j = Inl x \<Longrightarrow> x = ValueError"
  "validate_telemetry P j = Inl x \<Longrightarrow> x = ValueError"
  "validate_detection P j = Inl x \<Longrightarrow> x = ValueError"
  by (cases j; auto simp: validate_position_def validate_telemetry_def validate_detection_def then_ok_Inl_iff
      dest: field_Inl made_Inl)+

lemma py_int_Inl: "py_int_of_float f = Inl x \<Longrightarrow> x = ValueError \<or> x = OverflowError \<and> f \<in> {PInf, NInf}"
  by (cases f) auto

lemma catch_invalid_Inl:
  "catch_invalid r = Inl e \<Longrightarrow> e = MeshSAError \<or> (\<exists>x. r = Inl x \<and> x \<noteq> ValueError \<and> e = CodecRaised x)"
  by (cases r) (auto simp: catch_invalid_def split: py_exn.splits)

lemma richer_Inl:
  assumes "decode_richer_detail N d = Inl e"
  shows "e = MeshSAError \<or> (e = CodecRaised OverflowError \<and> (\<exists>k s. find_kid (cn_status N) d = Some k \<and>
    attr k (cn_battery_attr N) = Some s \<and> py_float_str s \<in> {Some PInf, Some NInf}))"
proof -
  have st: "x = ValueError \<or> (x = OverflowError \<and> (\<exists>k s. find_kid (cn_status N) d = Some k \<and>
      attr k (cn_battery_attr N) = Some s \<and> py_float_str s \<in> {Some PInf, Some NInf}))"
    if "decode_status_and_vendor N d = Inl x" for x
    using that
    by (auto simp: decode_status_and_vendor_def then_ok_Inl_iff float_attr_def split: option.splits
        dest!: float_items_Inl py_int_Inl simp del: float_items.simps)
  have "x = ValueError" if "decode_track N d = Inl x \<or> decode_attitude N d = Inl x" for x
    using that by (auto simp: decode_track_def decode_attitude_def then_ok_Inl_iff split: option.splits dest: float_items_Inl simp del: float_items.simps)
  with st assms show ?thesis
    unfolding decode_richer_detail_def by (auto simp: then_ok_Inl_iff dest!: catch_invalid_Inl)
qed

lemma validated_Inl: "validated_track P pos tel = Inl e \<Longrightarrow> e = MeshSAError"
  unfolding validated_track_def
  by (auto simp: then_ok_Inl_iff dest!: catch_invalid_Inl dest: validate_Inl split: if_splits)

lemma detection_Inl: "decode_detection N P detail = Inl e \<Longrightarrow> e = MeshSAError"
  unfolding decode_detection_def
  by (auto simp: then_ok_Inl_iff dest!: catch_invalid_Inl dest: validate_Inl float_items_Inl
      simp del: float_items.simps split: if_splits option.splits)

lemma parse_event_facts:
  "parse_event zone parsed = Inl e \<Longrightarrow> e = MeshSAError"
  "parse_event zone parsed = Inr (ev, uid, etype, ts) \<Longrightarrow> parsed = Inr ev \<and> attr ev ''uid'' = Some uid"
  by (auto simp: parse_event_def then_ok_Inr_iff split: sum.splits option.splits if_splits)

lemma validate_Inr:
  "validate_position P j = Inr p \<Longrightarrow> \<exists>lat lon hae ce le c s. mk_position lat lon hae ce le c s = Inr p"
  "validate_telemetry P j = Inr t \<Longrightarrow> \<exists>v pct cur a. mk_telemetry v pct cur a = Inr t"
  "validate_detection P j = Inr d \<Longrightarrow> \<exists>l c tr b. mk_detection l c tr b = Inr d"
  by (cases j; auto simp: validate_position_def validate_telemetry_def validate_detection_def then_ok_Inr_iff; blast)+

text \<open>The blocks that an envelope made of an event can hold: each has passed its model's checks.\<close>

definition valid_position :: "(string \<times> json) list \<Rightarrow> bool" where
  "valid_position kvs \<longleftrightarrow> (\<exists>lat lon hae ce le c s p. mk_position lat lon hae ce le c s = Inr p \<and> kvs = dump_position p)"

definition valid_telemetry :: "(string \<times> json) list \<Rightarrow> bool" where
  "valid_telemetry kvs \<longleftrightarrow> (\<exists>v pct cur a t. mk_telemetry v pct cur a = Inr t \<and> kvs = dump_telemetry t)"

definition valid_detection :: "(string \<times> json) list \<Rightarrow> bool" where
  "valid_detection kvs \<longleftrightarrow> (\<exists>l c tr b d. mk_detection l c tr b = Inr d \<and> kvs = dump_detection d)"

definition block_ok :: "envelope \<Rightarrow> string \<Rightarrow> ((string \<times> json) list \<Rightarrow> bool) \<Rightarrow> bool" where
  "block_ok env key ok \<longleftrightarrow> (case map_of (env_payload env) key of None \<Rightarrow> True | Some j \<Rightarrow> (\<exists>kvs. j = JObj kvs \<and> ok kvs))"

definition blocks_valid :: "envelope \<Rightarrow> bool" where
  "blocks_valid env \<longleftrightarrow> block_ok env ''position'' valid_position \<and> block_ok env ''telemetry'' valid_telemetry \<and>
     block_ok env ''detection'' valid_detection"

lemma validate_valid:
  "validate_position P j = Inr p \<Longrightarrow> valid_position (dump_position p)"
  "validate_telemetry P j = Inr t \<Longrightarrow> valid_telemetry (dump_telemetry t)"
  "validate_detection P j = Inr d \<Longrightarrow> valid_detection (dump_detection d)"
  unfolding valid_position_def valid_telemetry_def valid_detection_def
  by (drule validate_Inr, blast)+

lemma validated_Inr:
  assumes "validated_track P pos tel = Inr (pos', tel')"
  shows "valid_position pos'" "tel' = [] \<or> valid_telemetry tel'"
  using assms
  by (auto simp: validated_track_def catch_invalid_Inr_iff then_ok_Inr_iff
      dest: validate_valid split: if_splits)

lemma detection_Inr: "decode_detection N P detail = Inr (Some d) \<Longrightarrow> valid_detection d"
  by (auto simp: decode_detection_def catch_invalid_Inr_iff then_ok_Inr_iff
      dest: validate_valid split: option.splits if_splits simp del: float_items.simps)

lemma decoded_blocks:
  assumes "cot_decode N P zone parsed = Inr env"
  shows "blocks_valid env \<and> env_schema_version env = SCHEMA_VERSION"
proof -
  obtain ev uid etype ts where ev: "parse_event zone parsed = Inr (ev, uid, etype, ts)"
    and rest: "(let detail = find_kid ''detail'' ev
       in if prefix ''b-t-f'' etype \<or> prefix ''b.t.f'' etype then Inr (cot_decode_chat ev uid ts detail)
          else
            then_ok (lift_py (decode_point (find_kid ''point'' ev))) (\<lambda>pos.
              let callsign = (case Option.bind detail (find_kid ''contact'') of
                    None \<Rightarrow> uid | Some c \<Rightarrow> (case attr c ''callsign'' of None \<Rightarrow> uid | Some s \<Rightarrow> s))
              in then_ok (case detail of None \<Rightarrow> Inr ([], []) | Some d \<Rightarrow> decode_richer_detail N d) (\<lambda>(track, tel).
                 then_ok (validated_track P (pos @ track) tel) (\<lambda>(pos, tel).
                   let kind = kind_for N etype
                   in then_ok (if kind = Marker then decode_detection N P detail else Inr None) (\<lambda>det.
                        Inr (cot_envelope ev uid ts kind
                          ([(''node'', JObj [(''uid'', JStr uid), (''callsign'', JStr callsign)]),
                            (''position'', JObj pos)]
                           @ (if tel = [] then [] else [(''telemetry'', JObj tel)])
                           @ (case det of None \<Rightarrow> [] | Some d \<Rightarrow> [(''detection'', JObj d)])))))))) = Inr env"
    using assms by (auto simp: cot_decode_def then_ok_Inr_iff)
  show ?thesis
  proof (cases "prefix ''b-t-f'' etype \<or> prefix ''b.t.f'' etype")
    case True
    with rest show ?thesis
      by (auto simp: cot_decode_chat_def cot_envelope_def blocks_valid_def block_ok_def Let_def)
  next
    case False
    with rest obtain pos track tel pos' tel' det cs where
      v: "validated_track P (pos @ track) tel = Inr (pos', tel')"
      and d: "(if kind_for N etype = Marker then decode_detection N P (find_kid ''detail'' ev) else Inr None) = Inr det"
      and env: "env = cot_envelope ev uid ts (kind_for N etype)
        ([(''node'', JObj [(''uid'', JStr uid), (''callsign'', JStr cs)]), (''position'', JObj pos')]
         @ (if tel' = [] then [] else [(''telemetry'', JObj tel')])
         @ (case det of None \<Rightarrow> [] | Some d \<Rightarrow> [(''detection'', JObj d)]))"
      by (auto simp: then_ok_Inr_iff Let_def)
    have "det = None \<or> valid_detection (the det)" using d detection_Inr by (cases det) (auto split: if_splits)
    with validated_Inr [OF v] show ?thesis
      by (cases det) (auto simp: env cot_envelope_def blocks_valid_def block_ok_def)
  qed
qed

lemma decoded_errors:
  assumes "cot_decode N P zone parsed = Inl e"
  shows "e = MeshSAError \<or> (\<exists>ev. parsed = Inr ev \<and>
    (e = CodecRaised ValueError \<and> point_unreadable ev \<or> e = CodecRaised OverflowError \<and> battery_infinite N ev))"
proof (cases "parse_event zone parsed")
  case (Inl x)
  with assms parse_event_facts(1) [OF Inl] show ?thesis by (auto simp: cot_decode_def)
next
  case (Inr r)
  obtain ev uid etype ts where r: "r = (ev, uid, etype, ts)" by (cases r)
  have p: "parsed = Inr ev" using parse_event_facts(2) [OF Inr [unfolded r]] by simp
  have pt: "e = CodecRaised ValueError \<and> point_unreadable ev" if "lift_py (decode_point (find_kid ''point'' ev)) = Inl e"
    using that decode_point_Inl [of "find_kid ''point'' ev"]
    by (auto simp: lift_py_def point_unreadable_def split: sum.splits)
  have rd: "e = MeshSAError \<or> e = CodecRaised OverflowError \<and> battery_infinite N ev"
    if "(case find_kid ''detail'' ev of None \<Rightarrow> Inr ([], []) | Some d \<Rightarrow> decode_richer_detail N d) = Inl e"
    using that richer_Inl by (auto simp: battery_infinite_def split: option.splits)
  from assms Inr r show ?thesis
    by (auto simp: cot_decode_def Let_def then_ok_Inl_iff p
        dest: pt rd validated_Inl detection_Inl split: if_splits)
qed

text \<open>Whatever event a peer sends, the envelope that is made of it holds only position, telemetry and
  detection blocks that pass their models' checks.  An event is refused with the framework's error, with
  two exceptions that escape as they are: the ValueError of a coordinate of the point that is no number,
  and the OverflowError of an infinite battery percentage.\<close>

theorem cot_decode_safe:
  "case cot_decode N P zone parsed of
     Inr env \<Rightarrow> blocks_valid env \<and> env_schema_version env = SCHEMA_VERSION
   | Inl e \<Rightarrow> e = MeshSAError \<or> (\<exists>ev. parsed = Inr ev \<and>
       (e = CodecRaised ValueError \<and> point_unreadable ev \<or> e = CodecRaised OverflowError \<and> battery_infinite N ev))"
  using decoded_blocks [of N P zone parsed] decoded_errors [of N P zone parsed] by (auto split: sum.split)

end
