(* ===== verification/Inference_Client.thy ===== *)
theory Inference_Client
  imports Mesh_Models
begin

text \<open>
  The client of the inference service, under \<^verbatim>\<open>meshsa/inference/\<close>: the configuration
  (\<^verbatim>\<open>config.py\<close>), the errors (\<^verbatim>\<open>errors.py\<close>), the request with its retries and the reading of the reply
  (\<^verbatim>\<open>client.py\<close>), and the gate that spaces the requests (\<^verbatim>\<open>service.py\<close>).  The HTTP transport is
  outside: it is what it answers to each attempt.  \<open>loads\<close> and \<open>dumps\<close> are \<^verbatim>\<open>json.loads\<close>, with \<open>None\<close>
  for text that is no JSON, and \<^verbatim>\<open>json.dumps\<close>.
\<close>

section \<open>Errors\<close>

datatype infer_exn = InferTransport | InferHttp int | InferError | InferRaised py_exn

definition HTTP_TOO_MANY_REQUESTS :: int where "HTTP_TOO_MANY_REQUESTS = 429"
definition HTTP_SERVER_ERROR_FLOOR :: int where "HTTP_SERVER_ERROR_FLOOR = 500"
definition HTTP_ERROR_FLOOR :: int where "HTTP_ERROR_FLOOR = 400"

definition is_transient_status :: "int \<Rightarrow> bool" where
  "is_transient_status st \<longleftrightarrow> st = HTTP_TOO_MANY_REQUESTS \<or> HTTP_SERVER_ERROR_FLOOR \<le> st"

fun is_offline_retryable :: "infer_exn \<Rightarrow> bool" where
  "is_offline_retryable InferTransport = True"
| "is_offline_retryable (InferHttp st) = is_transient_status st"
| "is_offline_retryable _ = False"

text \<open>Whether an exception is an \<^verbatim>\<open>InferenceError\<close> at all.\<close>

fun is_infer_error :: "infer_exn \<Rightarrow> bool" where
  "is_infer_error (InferRaised e) = False"
| "is_infer_error _ = True"

section \<open>Configuration\<close>

record infer_config =
  ic_enabled :: bool
  ic_api_key :: string
  ic_base_url :: string
  ic_model :: string
  ic_system_prompt :: string
  ic_temperature :: pyfloat
  ic_max_tokens :: int
  ic_timeout_s :: pyfloat
  ic_max_retries :: int
  ic_backoff_base :: real
  ic_backoff_max_s :: real
  ic_insight_prefix :: string
  ic_min_interval_s :: real
  ic_max_concurrent :: int
  ic_response_format :: string
  ic_guided_schema :: string
  ic_summary_field :: string
  ic_models :: "string list"
  ic_offline_queue_max :: int
  ic_max_pending_tasks :: int

text \<open>The field constraints and the validator that runs after them.\<close>

definition reject_model :: "infer_config \<Rightarrow> string \<Rightarrow> py_exn + unit" where
  "reject_model C model =
     (if ic_models C \<noteq> [] \<and> model \<notin> set (ic_models C) then Inl ValueError else Inr ())"

definition new_infer_config :: "(string \<Rightarrow> json option) \<Rightarrow> infer_config \<Rightarrow> py_exn + infer_config" where
  "new_infer_config loads C =
     (if ic_backoff_base C < 1 \<or> ic_backoff_max_s C < 0 \<or> ic_insight_prefix C = [] \<or> ic_min_interval_s C < 0 \<or>
         ic_max_concurrent C < 0 \<or> ic_response_format C \<notin> {''text'', ''json''} \<or> ic_summary_field C = [] \<or>
         ic_offline_queue_max C < 0 \<or> ic_max_pending_tasks C < 0 then Inl ValueError
      else then_ok (reject_model C (ic_model C)) (\<lambda>_.
        if ic_guided_schema C = [] then Inr C
        else case loads (ic_guided_schema C) of
          Some (JObj kvs) \<Rightarrow> Inr C
        | _ \<Rightarrow> Inl ValueError))"

definition with_model :: "string \<Rightarrow> infer_config \<Rightarrow> py_exn + infer_config" where
  "with_model model C = then_ok (reject_model C model) (\<lambda>_. Inr (C\<lparr>ic_model := model\<rparr>))"

section \<open>The request\<close>

record infer_http_request =
  rq_url :: string
  rq_headers :: "(string \<times> string) list"
  rq_body :: json
  rq_timeout_s :: pyfloat

fun kind_text :: "message_kind \<Rightarrow> string" where
  "kind_text Pli = ''pli''"
| "kind_text Chat = ''chat''"
| "kind_text Marker = ''marker''"
| "kind_text StatusMsg = ''status''"

definition CHAT_COMPLETIONS_PATH :: string where "CHAT_COMPLETIONS_PATH = ''/chat/completions''"

definition rstrip_char :: "char \<Rightarrow> string \<Rightarrow> string" where
  "rstrip_char c s = rev (dropWhile (\<lambda>x. x = c) (rev s))"

definition guided_json :: "(string \<Rightarrow> json option) \<Rightarrow> infer_config \<Rightarrow> json option" where
  "guided_json loads C = (if ic_guided_schema C = [] then None else loads (ic_guided_schema C))"

definition want_json :: "(string \<Rightarrow> json option) \<Rightarrow> infer_config \<Rightarrow> bool" where
  "want_json loads C \<longleftrightarrow> guided_json loads C \<noteq> None \<or> ic_response_format C = ''json''"

definition infer_request :: "(string \<Rightarrow> json option) \<Rightarrow> (json \<Rightarrow> string) \<Rightarrow> infer_config \<Rightarrow> envelope \<Rightarrow> infer_http_request" where
  "infer_request loads dumps C env =
     (let prompt = ''Analyze this '' @ kind_text (env_kind env) @ '' message from '' @ env_source_uid env @ '': '' @
            dumps (JObj (env_payload env));
          directive = (case guided_json loads C of
              Some schema \<Rightarrow> [(''nvext'', JObj [(''guided_json'', schema)])]
            | None \<Rightarrow>
                if ic_response_format C = ''json'' then [(''response_format'', JObj [(''type'', JStr ''json_object'')])]
                else [])
      in \<lparr>rq_url = rstrip_char CHR ''/'' (ic_base_url C) @ CHAT_COMPLETIONS_PATH,
          rq_headers = [(''Authorization'', ''Bearer '' @ ic_api_key C), (''Content-Type'', ''application/json'')],
          rq_body = JObj ([(''model'', JStr (ic_model C)),
            (''messages'', JArr [JObj [(''role'', JStr ''system''), (''content'', JStr (ic_system_prompt C))],
                                 JObj [(''role'', JStr ''user''), (''content'', JStr prompt)]]),
            (''temperature'', JFloat (ic_temperature C)), (''max_tokens'', JInt (ic_max_tokens C))] @ directive),
          rq_timeout_s = ic_timeout_s C\<rparr>)"

section \<open>The reply\<close>

text \<open>
  \<^verbatim>\<open>data["choices"][0]["message"]["content"]\<close>; \<open>None\<close> is one of the three exceptions that are caught.
\<close>

definition completion_content :: "json \<Rightarrow> json option" where
  "completion_content data =
     (case data of
        JObj kvs \<Rightarrow>
          (case map_of kvs ''choices'' of
             Some (JArr (JObj choice # _)) \<Rightarrow>
               (case map_of choice ''message'' of
                  Some (JObj msg) \<Rightarrow> map_of msg ''content''
                | _ \<Rightarrow> None)
           | _ \<Rightarrow> None)
      | _ \<Rightarrow> None)"

record infer_result =
  ir_summary :: string
  ir_raw :: string

text \<open>
  A summary that is no string fails: without a length in the log statement, with one in the model of
  the result.
\<close>

definition made_result :: "json \<Rightarrow> string \<Rightarrow> infer_exn + infer_result" where
  "made_result summary raw =
     (case summary of
        JStr s \<Rightarrow> Inr \<lparr>ir_summary = s, ir_raw = raw\<rparr>
      | JArr _ \<Rightarrow> Inl (InferRaised ValueError)
      | JObj _ \<Rightarrow> Inl (InferRaised ValueError)
      | _ \<Rightarrow> Inl (InferRaised TypeError))"

definition infer_parse ::
  "(string \<Rightarrow> json option) \<Rightarrow> (json \<Rightarrow> string) \<Rightarrow> bool \<Rightarrow> string \<Rightarrow> json \<Rightarrow> infer_exn + infer_result" where
  "infer_parse loads dumps want field data =
     (case completion_content data of
        None \<Rightarrow> Inl InferError
      | Some content \<Rightarrow>
          let obj = (case content of JStr s \<Rightarrow> loads s | _ \<Rightarrow> None);
              summary =
                (if want then
                   (case obj of
                      Some (JObj kvs) \<Rightarrow> (case map_of kvs field of Some (JStr s) \<Rightarrow> JStr s | _ \<Rightarrow> content)
                    | _ \<Rightarrow> content)
                 else content)
          in made_result summary (dumps data))"

section \<open>The attempts\<close>

text \<open>What the transport does with one request: a response, its own error, or another exception.\<close>

datatype post_answer = Response int json | Unreachable | PostRaised py_exn

definition backoff_delay :: "infer_config \<Rightarrow> nat \<Rightarrow> real" where
  "backoff_delay C attempt = min (ic_backoff_base C ^ attempt) (ic_backoff_max_s C)"

text \<open>The result, the delays slept, and the number of requests posted.\<close>

fun attempt_loop ::
  "infer_config \<Rightarrow> (json \<Rightarrow> infer_exn + infer_result) \<Rightarrow> (nat \<Rightarrow> post_answer) \<Rightarrow> nat list \<Rightarrow>
     (infer_exn + infer_result) \<times> real list \<times> nat" where
  "attempt_loop C parse answer [] = (Inl InferError, [], 0)"
| "attempt_loop C parse answer (k # ks) =
     (let again = (case attempt_loop C parse answer ks of (r, slept, n) \<Rightarrow> (r, backoff_delay C k # slept, Suc n))
      in case answer k of
           PostRaised e \<Rightarrow> (Inl (InferRaised e), [], 1)
         | Unreachable \<Rightarrow> if int k = ic_max_retries C then (Inl InferTransport, [], 1) else again
         | Response st body \<Rightarrow>
             if is_transient_status st then
               (if int k < ic_max_retries C then again else (Inl (InferHttp st), [], 1))
             else if HTTP_ERROR_FLOOR \<le> st then (Inl (InferHttp st), [], 1)
             else (parse body, [], 1))"

definition analyze ::
  "(string \<Rightarrow> json option) \<Rightarrow> (json \<Rightarrow> string) \<Rightarrow> infer_config \<Rightarrow> (infer_http_request \<Rightarrow> nat \<Rightarrow> post_answer) \<Rightarrow> envelope \<Rightarrow>
     (infer_exn + infer_result) \<times> real list \<times> nat" where
  "analyze loads dumps C post env =
     (if \<not> ic_enabled C \<or> ic_api_key C = [] then (Inr \<lparr>ir_summary = [], ir_raw = []\<rparr>, [], 0)
      else attempt_loop C (infer_parse loads dumps (want_json loads C) (ic_summary_field C))
             (post (infer_request loads dumps C env)) [0..<nat (ic_max_retries C + 1)])"

section \<open>What the attempts do\<close>

text \<open>An answer that is worth another attempt.\<close>

definition passing :: "post_answer \<Rightarrow> bool" where
  "passing a \<longleftrightarrow> a = Unreachable \<or> (\<exists>st body. a = Response st body \<and> is_transient_status st)"

definition final_error :: "post_answer \<Rightarrow> infer_exn" where
  "final_error a = (case a of Response st body \<Rightarrow> InferHttp st | PostRaised e \<Rightarrow> InferRaised e | Unreachable \<Rightarrow> InferTransport)"

definition settled :: "(json \<Rightarrow> infer_exn + infer_result) \<Rightarrow> post_answer \<Rightarrow> infer_exn + infer_result" where
  "settled parse a =
     (case a of
        Response st body \<Rightarrow> if HTTP_ERROR_FLOOR \<le> st then Inl (InferHttp st) else parse body
      | _ \<Rightarrow> Inl (final_error a))"

text \<open>
  The loop stops at the first answer that is final, which it returns, or at the last attempt.  It
  sleeps between two attempts and posts no more than it has attempts.
\<close>

lemma attempt_loop_final:
  assumes "int n = ic_max_retries C" "j \<le> n" "\<forall>i. k \<le> i \<and> i < j \<longrightarrow> passing (answer i)" "k \<le> j" "\<not> passing (answer j)"
  shows "attempt_loop C parse answer [k..<Suc n] =
    (settled parse (answer j), map (backoff_delay C) [k..<j], Suc (j - k))"
  using assms(2-5)
proof (induction "j - k" arbitrary: k)
  case 0
  then have "k = j" by simp
  with 0 assms(1) show ?case
    by (cases "answer j") (auto simp: upt_conv_Cons passing_def settled_def final_error_def Let_def simp del: upt_Suc)
next
  case (Suc d)
  then have kj: "k < j" "d = j - Suc k" by simp_all
  have ih: "attempt_loop C parse answer [Suc k..<Suc n] =
      (settled parse (answer j), map (backoff_delay C) [Suc k..<j], Suc (j - Suc k))"
    using Suc.hyps(1) [OF kj(2)] Suc.prems kj by simp
  have "passing (answer k)" "int k < ic_max_retries C" using Suc.prems kj assms(1) by auto
  moreover have "[k..<Suc n] = k # [Suc k..<Suc n]" "[k..<j] = k # [Suc k..<j]" using Suc.prems kj by (simp_all add: upt_conv_Cons del: upt_Suc)
  ultimately show ?case using ih kj
    by (auto simp: passing_def Let_def simp del: upt_Suc)
qed

lemma attempt_loop_exhausted:
  assumes "int n = ic_max_retries C" "\<forall>i. k \<le> i \<and> i \<le> n \<longrightarrow> passing (answer i)" "k \<le> n"
  shows "attempt_loop C parse answer [k..<Suc n] =
    (Inl (final_error (answer n)), map (backoff_delay C) [k..<n], Suc (n - k))"
  using assms(2,3)
proof (induction "n - k" arbitrary: k)
  case 0
  then have "k = n" by simp
  with 0 assms(1) show ?case
    by (auto simp: upt_conv_Cons passing_def final_error_def Let_def simp del: upt_Suc)
next
  case (Suc d)
  then have kn: "k < n" "d = n - Suc k" by simp_all
  have ih: "attempt_loop C parse answer [Suc k..<Suc n] =
      (Inl (final_error (answer n)), map (backoff_delay C) [Suc k..<n], Suc (n - Suc k))"
    using Suc.hyps(1) [OF kn(2)] Suc.prems kn by simp
  have "passing (answer k)" "int k < ic_max_retries C" using Suc.prems kn assms(1) by auto
  moreover have "[k..<Suc n] = k # [Suc k..<Suc n]" "[k..<n] = k # [Suc k..<n]" using kn by (simp_all add: upt_conv_Cons del: upt_Suc)
  ultimately show ?case using ih kn by (auto simp: passing_def Let_def simp del: upt_Suc)
qed

section \<open>Spacing\<close>

text \<open>
  \<^verbatim>\<open>_RateGate._space\<close>, which a lock makes sequential: asked at \<open>now\<close>, the wait if there is one, and
  the time \<open>woke\<close> that the clock shows afterwards.  The state is the time of the last request.
\<close>

definition space_wait :: "real \<Rightarrow> real option \<Rightarrow> real \<Rightarrow> real option" where
  "space_wait interval last_at now =
     (case last_at of
        None \<Rightarrow> None
      | Some t \<Rightarrow> let wait = interval - (now - t) in if 0 < wait then Some wait else None)"

definition space :: "real \<Rightarrow> real \<Rightarrow> real \<Rightarrow> real option \<Rightarrow> real option" where
  "space interval now woke last_at = (if interval \<le> 0 then last_at else Some woke)"

text \<open>A clock that does not run backwards and a sleep that is not cut short.\<close>

definition slept_enough :: "real \<Rightarrow> real \<Rightarrow> real \<Rightarrow> real option \<Rightarrow> bool" where
  "slept_enough interval now woke last_at \<longleftrightarrow>
     (case space_wait interval last_at now of None \<Rightarrow> now \<le> woke | Some w \<Rightarrow> now + w \<le> woke)"

fun spaced :: "real \<Rightarrow> (real \<times> real) list \<Rightarrow> real option \<Rightarrow> bool" where
  "spaced interval [] last_at = True"
| "spaced interval ((now, woke) # asks) last_at =
     (slept_enough interval now woke last_at \<and> spaced interval asks (space interval now woke last_at))"

lemma spaced_gaps:
  "0 < interval \<Longrightarrow> spaced interval asks last_at \<Longrightarrow> Suc i < length asks \<Longrightarrow>
   interval \<le> snd (asks ! Suc i) - snd (asks ! i)"
proof (induction asks arbitrary: last_at i)
  case (Cons a asks)
  obtain now woke where a: "a = (now, woke)" by (cases a)
  show ?case
  proof (cases i)
    case (Suc j)
    with Cons.IH [of "Some woke" j] Cons.prems a show ?thesis by (simp add: space_def)
  next
    case 0
    obtain now2 woke2 rest where r: "asks = (now2, woke2) # rest" using Cons.prems(3) 0 by (cases asks) auto
    with Cons.prems a have "slept_enough interval now2 woke2 (Some woke)" by (simp add: space_def)
    then have "interval \<le> woke2 - woke"
      by (auto simp: slept_enough_def space_wait_def Let_def split: if_splits)
    with 0 r a show ?thesis by simp
  qed
qed simp

end
