(* ===== verification/Inference_Service.thy ===== *)
theory Inference_Service
  imports Inference_Client "HOL-Library.Multiset"
begin

text \<open>
  The inference service (\<^verbatim>\<open>meshsa/inference/service.py\<close>): the bounded queue of messages that failed
  while the API was unreachable, the intake with its guards against feedback, and the analysis tasks.

  The tasks run interleaved.  Between two points where a task waits (for an analysis, for a
  publication, for the lock of the replay) nothing else runs, so a step of the machine is what a task
  does from one such point to the next, and an event says which task goes on and what it was waiting
  for has brought.  \<open>sv_admitted\<close> and \<open>sv_fates\<close> are no state of the program: they record the messages
  that were taken in and what became of each.
\<close>

section \<open>The offline queue\<close>

record offline_queue =
  oq_max :: int
  oq_items :: "envelope list"
  oq_dropped :: nat

definition new_offline_queue :: "int \<Rightarrow> offline_queue" where
  "new_offline_queue n = \<lparr>oq_max = n, oq_items = [], oq_dropped = 0\<rparr>"

definition oq_enabled :: "offline_queue \<Rightarrow> bool" where
  "oq_enabled q \<longleftrightarrow> 0 < oq_max q"

definition oq_full :: "offline_queue \<Rightarrow> bool" where
  "oq_full q \<longleftrightarrow> int (length (oq_items q)) = oq_max q"

text \<open>A full queue loses the item at its other end.\<close>

definition oq_put :: "bool \<Rightarrow> envelope \<Rightarrow> offline_queue \<Rightarrow> offline_queue" where
  "oq_put front e q =
     (let q1 = (if oq_full q then q\<lparr>oq_dropped := Suc (oq_dropped q)\<rparr> else q)
      in if front then q1\<lparr>oq_items := e # (if oq_full q then butlast (oq_items q) else oq_items q)\<rparr>
         else q1\<lparr>oq_items := (if oq_full q then tl (oq_items q) else oq_items q) @ [e]\<rparr>)"

definition oq_pop :: "offline_queue \<Rightarrow> (envelope \<times> offline_queue) option" where
  "oq_pop q = (case oq_items q of [] \<Rightarrow> None | e # es \<Rightarrow> Some (e, q\<lparr>oq_items := es\<rparr>))"

definition oq_record_drop :: "offline_queue \<Rightarrow> offline_queue" where
  "oq_record_drop q = q\<lparr>oq_dropped := Suc (oq_dropped q)\<rparr>"

text \<open>The items that a \<open>put\<close> pushes out.\<close>

definition pushed_out :: "bool \<Rightarrow> offline_queue \<Rightarrow> envelope list" where
  "pushed_out front q =
     (if \<not> oq_full q \<or> oq_items q = [] then []
      else if front then [List.last (oq_items q)] else [hd (oq_items q)])"

lemma oq_put_accounts:
  assumes "0 < oq_max q"
  shows "mset (oq_items (oq_put front e q)) + mset (pushed_out front q) = add_mset e (mset (oq_items q))"
    "oq_dropped (oq_put front e q) = oq_dropped q + length (pushed_out front q)"
    "oq_max (oq_put front e q) = oq_max q"
    "int (length (oq_items q)) \<le> oq_max q \<Longrightarrow> int (length (oq_items (oq_put front e q))) \<le> oq_max q"
proof -
  have ne: "oq_full q \<Longrightarrow> oq_items q \<noteq> []" using assms by (auto simp: oq_full_def)
  show "mset (oq_items (oq_put front e q)) + mset (pushed_out front q) = add_mset e (mset (oq_items q))"
  proof (cases "oq_full q")
    case True
    then have "oq_items q = butlast (oq_items q) @ [List.last (oq_items q)]"
      "oq_items q = hd (oq_items q) # tl (oq_items q)" using ne by simp_all
    then have "mset (oq_items q) = add_mset (List.last (oq_items q)) (mset (butlast (oq_items q)))"
      "mset (oq_items q) = add_mset (hd (oq_items q)) (mset (tl (oq_items q)))"
      by (metis add_mset_add_single mset_append mset_single_iff_right union_commute mset.simps)+
    with True ne show ?thesis by (auto simp: oq_put_def pushed_out_def Let_def)
  qed (simp add: oq_put_def pushed_out_def Let_def)
  show "oq_dropped (oq_put front e q) = oq_dropped q + length (pushed_out front q)"
    using ne by (simp add: oq_put_def pushed_out_def Let_def)
  show "oq_max (oq_put front e q) = oq_max q" by (simp add: oq_put_def Let_def)
  show "int (length (oq_items q)) \<le> oq_max q \<Longrightarrow> int (length (oq_items (oq_put front e q))) \<le> oq_max q"
    using ne by (cases "oq_items q") (auto simp: oq_put_def oq_full_def Let_def)
qed

section \<open>State\<close>

text \<open>What a task waits for.\<close>

datatype infer_task =
    Analysing envelope
  | Publishing envelope
  | Wait_Drain
  | Replaying envelope
  | Republishing envelope

text \<open>What became of a message: answered or found not worth an answer, failed for good, dropped from the
  queue, or lost with the task that had it.\<close>

datatype fate = Done | Failed | Dropped | Lost

record infer_service =
  sv_subscribed :: bool
  sv_running :: bool
  sv_tasks :: "(nat \<times> infer_task) list"
  sv_next :: nat
  sv_queue :: offline_queue
  sv_holder :: "nat option"
  sv_intake_dropped :: nat
  sv_sent :: "envelope list"
  sv_admitted :: "envelope list"
  sv_fates :: "(fate \<times> envelope) list"

definition new_service :: "infer_config \<Rightarrow> infer_service" where
  "new_service C =
     \<lparr>sv_subscribed = False, sv_running = False, sv_tasks = [], sv_next = 0,
      sv_queue = new_offline_queue (ic_offline_queue_max C), sv_holder = None, sv_intake_dropped = 0,
      sv_sent = [], sv_admitted = [], sv_fates = []\<rparr>"

definition service_start :: "infer_config \<Rightarrow> infer_service \<Rightarrow> infer_service" where
  "service_start C s =
     (if \<not> ic_enabled C \<or> sv_subscribed s then s
      else if ic_api_key C = [] then s
      else s\<lparr>sv_subscribed := True, sv_running := True\<rparr>)"

section \<open>Intake\<close>

text \<open>A text that is no string has no \<^verbatim>\<open>startswith\<close>.\<close>

definition is_ai_insight :: "string \<Rightarrow> envelope \<Rightarrow> py_exn + bool" where
  "is_ai_insight pre env =
     (if env_kind env \<noteq> Chat then Inr False
      else case map_of (env_payload env) ''text'' of
        None \<Rightarrow> Inr (prefix pre [])
      | Some (JStr s) \<Rightarrow> Inr (prefix pre s)
      | Some _ \<Rightarrow> Inl AttributeError)"

definition handle_message :: "infer_config \<Rightarrow> string \<Rightarrow> envelope \<Rightarrow> infer_service \<Rightarrow> infer_service" where
  "handle_message C uid env s =
     (if \<not> sv_running s then s
      else if env_source_uid env = uid then s
      else case is_ai_insight (ic_insight_prefix C) env of
        Inl _ \<Rightarrow> s
      | Inr True \<Rightarrow> s
      | Inr False \<Rightarrow>
          if ic_max_pending_tasks C \<noteq> 0 \<and> ic_max_pending_tasks C \<le> int (length (sv_tasks s))
          then s\<lparr>sv_intake_dropped := Suc (sv_intake_dropped s)\<rparr>
          else s\<lparr>sv_tasks := sv_tasks s @ [(sv_next s, Analysing env)], sv_next := Suc (sv_next s),
                 sv_admitted := sv_admitted s @ [env]\<rparr>)"

section \<open>Tasks\<close>

definition set_task :: "nat \<Rightarrow> infer_task \<Rightarrow> infer_service \<Rightarrow> infer_service" where
  "set_task i t s = s\<lparr>sv_tasks := AList.update i t (sv_tasks s)\<rparr>"

definition end_task :: "nat \<Rightarrow> infer_service \<Rightarrow> infer_service" where
  "end_task i s =
     s\<lparr>sv_tasks := AList.delete i (sv_tasks s),
       sv_holder := (if sv_holder s = Some i then None else sv_holder s)\<rparr>"

definition note_fates :: "fate \<Rightarrow> envelope list \<Rightarrow> infer_service \<Rightarrow> infer_service" where
  "note_fates f es s = s\<lparr>sv_fates := sv_fates s @ map (Pair f) es\<rparr>"

definition enqueue :: "bool \<Rightarrow> envelope \<Rightarrow> infer_service \<Rightarrow> infer_service" where
  "enqueue front e s =
     note_fates Dropped (pushed_out front (sv_queue s)) (s\<lparr>sv_queue := oq_put front e (sv_queue s)\<rparr>)"

definition insight_reply :: "infer_config \<Rightarrow> string \<Rightarrow> string \<Rightarrow> pyfloat \<Rightarrow> envelope \<Rightarrow> string \<Rightarrow> envelope" where
  "insight_reply C uid msg_id ts env summary =
     \<lparr>env_schema_version = SCHEMA_VERSION, env_msg_id = msg_id, env_ts = ts, env_source_uid = uid, env_kind = Chat,
      env_payload = [(''text'', JStr (ic_insight_prefix C @ '' '' @ summary)), (''to'', JStr (env_source_uid env))]\<rparr>"

text \<open>\<^verbatim>\<open>_publish\<close> up to the router: the reply is handed over.\<close>

definition send_reply ::
  "infer_config \<Rightarrow> string \<Rightarrow> string \<Rightarrow> pyfloat \<Rightarrow> envelope \<Rightarrow> string \<Rightarrow> infer_service \<Rightarrow> infer_service" where
  "send_reply C uid msg_id ts env summary s =
     s\<lparr>sv_sent := sv_sent s @ [insight_reply C uid msg_id ts env summary]\<rparr>"

text \<open>The head of the replay loop: the next message, or the end of the task.\<close>

definition drain_next :: "nat \<Rightarrow> infer_service \<Rightarrow> infer_service" where
  "drain_next i s =
     (case oq_pop (sv_queue s) of
        None \<Rightarrow> end_task i s
      | Some (e, q) \<Rightarrow> set_task i (Replaying e) (s\<lparr>sv_queue := q\<rparr>))"

text \<open>What a finished analysis brings: the summary, or the exception.\<close>

definition live_result ::
  "infer_config \<Rightarrow> string \<Rightarrow> nat \<Rightarrow> envelope \<Rightarrow> infer_exn + string \<Rightarrow> string \<Rightarrow> pyfloat \<Rightarrow> infer_service \<Rightarrow> infer_service" where
  "live_result C uid i env r msg_id ts s =
     (case r of
        Inr summary \<Rightarrow>
          if summary = [] then note_fates Done [env] (end_task i s)
          else set_task i (Publishing env) (send_reply C uid msg_id ts env summary s)
      | Inl e \<Rightarrow>
          if is_infer_error e \<and> oq_enabled (sv_queue s) \<and> is_offline_retryable e
          then enqueue False env (end_task i s)
          else note_fates Failed [env] (end_task i s))"

definition replay_result ::
  "infer_config \<Rightarrow> string \<Rightarrow> nat \<Rightarrow> envelope \<Rightarrow> infer_exn + string \<Rightarrow> string \<Rightarrow> pyfloat \<Rightarrow> infer_service \<Rightarrow> infer_service" where
  "replay_result C uid i env r msg_id ts s =
     (case r of
        Inr summary \<Rightarrow>
          if summary = [] then drain_next i (note_fates Done [env] s)
          else set_task i (Republishing env) (send_reply C uid msg_id ts env summary s)
      | Inl e \<Rightarrow>
          if \<not> is_infer_error e then note_fates Lost [env] (end_task i s)
          else if is_offline_retryable e then enqueue True env (end_task i s)
          else drain_next i (note_fates Dropped [env] (s\<lparr>sv_queue := oq_record_drop (sv_queue s)\<rparr>)))"

text \<open>
  After the publication of a live reply the task drains the queue, if there is something in it.  A
  publication that raises ends the task.
\<close>

definition published :: "nat \<Rightarrow> envelope \<Rightarrow> bool \<Rightarrow> infer_service \<Rightarrow> infer_service" where
  "published i env ok s =
     (if \<not> ok then note_fates Failed [env] (end_task i s)
      else let s1 = note_fates Done [env] s
           in if oq_items (sv_queue s1) = [] then end_task i s1 else set_task i Wait_Drain s1)"

definition republished :: "nat \<Rightarrow> envelope \<Rightarrow> bool \<Rightarrow> infer_service \<Rightarrow> infer_service" where
  "republished i env ok s =
     (if \<not> ok then note_fates Lost [env] (end_task i s) else drain_next i (note_fates Done [env] s))"

definition task_message :: "infer_task \<Rightarrow> envelope list" where
  "task_message t =
     (case t of
        Analysing e \<Rightarrow> [e] | Publishing e \<Rightarrow> [e] | Wait_Drain \<Rightarrow> [] | Replaying e \<Rightarrow> [e] | Republishing e \<Rightarrow> [e])"

definition tasks_messages :: "(nat \<times> infer_task) list \<Rightarrow> envelope list" where
  "tasks_messages ts = concat (map (task_message \<circ> snd) ts)"

definition service_stop :: "infer_service \<Rightarrow> infer_service" where
  "service_stop s =
     note_fates Lost (tasks_messages (sv_tasks s)) (s\<lparr>sv_running := False, sv_tasks := [], sv_holder := None\<rparr>)"

section \<open>The machine\<close>

datatype service_event =
    Start
  | Inbound envelope
  | Analysed nat "infer_exn + string" string pyfloat
  | Published nat bool
  | Locked nat
  | Stop

text \<open>An event for a task that does not wait for it does nothing.\<close>

definition service_step :: "infer_config \<Rightarrow> string \<Rightarrow> infer_service \<Rightarrow> service_event \<Rightarrow> infer_service" where
  "service_step C uid s ev =
     (case ev of
        Start \<Rightarrow> service_start C s
      | Inbound env \<Rightarrow> handle_message C uid env s
      | Analysed i r msg_id ts \<Rightarrow>
          (case map_of (sv_tasks s) i of
             Some (Analysing e) \<Rightarrow> live_result C uid i e r msg_id ts s
           | Some (Replaying e) \<Rightarrow> replay_result C uid i e r msg_id ts s
           | _ \<Rightarrow> s)
      | Published i ok \<Rightarrow>
          (case map_of (sv_tasks s) i of
             Some (Publishing e) \<Rightarrow> published i e ok s
           | Some (Republishing e) \<Rightarrow> republished i e ok s
           | _ \<Rightarrow> s)
      | Locked i \<Rightarrow>
          (if sv_holder s = None \<and> map_of (sv_tasks s) i = Some Wait_Drain
           then drain_next i (s\<lparr>sv_holder := Some i\<rparr>) else s)
      | Stop \<Rightarrow> service_stop s)"

definition service_counters :: "infer_service \<Rightarrow> nat \<times> nat \<times> nat \<times> nat" where
  "service_counters s =
     (oq_dropped (sv_queue s), length (oq_items (sv_queue s)), sv_intake_dropped s, length (sv_tasks s))"

section \<open>Tasks and the lock\<close>

fun draining :: "infer_task \<Rightarrow> bool" where
  "draining (Replaying e) = True"
| "draining (Republishing e) = True"
| "draining _ = False"

text \<open>The task at \<open>i\<close> is in the replay loop.\<close>

definition drains :: "infer_service \<Rightarrow> nat \<Rightarrow> bool" where
  "drains s i \<longleftrightarrow> (case map_of (sv_tasks s) i of None \<Rightarrow> False | Some t \<Rightarrow> draining t)"

definition ids_ok :: "infer_service \<Rightarrow> bool" where
  "ids_ok s \<longleftrightarrow> distinct (map fst (sv_tasks s)) \<and> (\<forall>i \<in> fst ` set (sv_tasks s). i < sv_next s)"

definition lock_ok :: "infer_service \<Rightarrow> bool" where
  "lock_ok s \<longleftrightarrow> (\<forall>i. sv_holder s = Some i \<longleftrightarrow> drains s i)"

definition tasks_ok :: "infer_service \<Rightarrow> bool" where
  "tasks_ok s \<longleftrightarrow> ids_ok s \<and> lock_ok s"

named_theorems task_simps \<open>what an update of the service does to its parts\<close>

lemma task_parts [task_simps]:
  "sv_tasks (set_task i t s) = AList.update i t (sv_tasks s)" "sv_holder (set_task i t s) = sv_holder s"
  "sv_next (set_task i t s) = sv_next s" "sv_queue (set_task i t s) = sv_queue s" "sv_fates (set_task i t s) = sv_fates s"
  "sv_sent (set_task i t s) = sv_sent s" "sv_admitted (set_task i t s) = sv_admitted s"
  "sv_tasks (end_task i s) = AList.delete i (sv_tasks s)"
  "sv_holder (end_task i s) = (if sv_holder s = Some i then None else sv_holder s)"
  "sv_next (end_task i s) = sv_next s" "sv_queue (end_task i s) = sv_queue s" "sv_fates (end_task i s) = sv_fates s"
  "sv_sent (end_task i s) = sv_sent s" "sv_admitted (end_task i s) = sv_admitted s"
  "sv_tasks (note_fates f es s) = sv_tasks s" "sv_holder (note_fates f es s) = sv_holder s"
  "sv_next (note_fates f es s) = sv_next s" "sv_queue (note_fates f es s) = sv_queue s"
  "sv_fates (note_fates f es s) = sv_fates s @ map (Pair f) es"
  "sv_sent (note_fates f es s) = sv_sent s" "sv_admitted (note_fates f es s) = sv_admitted s"
  "sv_tasks (enqueue fr e s) = sv_tasks s" "sv_holder (enqueue fr e s) = sv_holder s"
  "sv_next (enqueue fr e s) = sv_next s" "sv_queue (enqueue fr e s) = oq_put fr e (sv_queue s)"
  "sv_fates (enqueue fr e s) = sv_fates s @ map (Pair Dropped) (pushed_out fr (sv_queue s))"
  "sv_sent (enqueue fr e s) = sv_sent s" "sv_admitted (enqueue fr e s) = sv_admitted s"
  "sv_tasks (send_reply C uid m ts e x s) = sv_tasks s" "sv_holder (send_reply C uid m ts e x s) = sv_holder s"
  "sv_next (send_reply C uid m ts e x s) = sv_next s" "sv_queue (send_reply C uid m ts e x s) = sv_queue s"
  "sv_fates (send_reply C uid m ts e x s) = sv_fates s"
  "sv_sent (send_reply C uid m ts e x s) = sv_sent s @ [insight_reply C uid m ts e x]"
  "sv_admitted (send_reply C uid m ts e x s) = sv_admitted s"
  by (simp_all add: set_task_def end_task_def note_fates_def enqueue_def send_reply_def)

lemma drains_parts [task_simps]:
  "drains (note_fates f es s) = drains s" "drains (enqueue fr e s) = drains s" "drains (send_reply C uid m ts e x s) = drains s"
  "drains (s\<lparr>sv_queue := q\<rparr>) = drains s" "drains (s\<lparr>sv_holder := h\<rparr>) = drains s"
  by (simp_all add: drains_def fun_eq_iff task_simps)

lemma ids_parts [task_simps]:
  "ids_ok (note_fates f es s) = ids_ok s" "ids_ok (enqueue fr e s) = ids_ok s"
  "ids_ok (send_reply C uid m ts e x s) = ids_ok s" "ids_ok (s\<lparr>sv_queue := q\<rparr>) = ids_ok s"
  "ids_ok (s\<lparr>sv_holder := h\<rparr>) = ids_ok s"
  by (simp_all add: ids_ok_def task_simps)

lemma tasks_ok_parts [task_simps]:
  "tasks_ok (note_fates f es s) = tasks_ok s" "tasks_ok (enqueue fr e s) = tasks_ok s"
  "tasks_ok (s\<lparr>sv_intake_dropped := n\<rparr>) = tasks_ok s" "tasks_ok (s\<lparr>sv_subscribed := b, sv_running := c\<rparr>) = tasks_ok s"
  by (simp_all add: tasks_ok_def lock_ok_def drains_def ids_ok_def task_simps)

lemma end_task_ok:
  assumes "ids_ok s" "\<forall>j. j \<noteq> i \<longrightarrow> (sv_holder s = Some j \<longleftrightarrow> drains s j)"
  shows "tasks_ok (end_task i s)"
proof -
  have "ids_ok (end_task i s)" using assms(1) by (auto simp: ids_ok_def task_simps keys_delete)
  moreover have "lock_ok (end_task i s)" using assms(2)
    by (auto simp: lock_ok_def drains_def task_simps delete_conv)
  ultimately show ?thesis by (simp add: tasks_ok_def)
qed

lemma set_task_ok:
  assumes "ids_ok s" "i \<in> fst ` set (sv_tasks s)" "\<forall>j. j \<noteq> i \<longrightarrow> (sv_holder s = Some j \<longleftrightarrow> drains s j)"
    and "sv_holder s = Some i \<longleftrightarrow> draining t"
  shows "tasks_ok (set_task i t s)"
proof -
  have "ids_ok (set_task i t s)" using assms(1,2) by (auto simp: ids_ok_def task_simps keys_update)
  moreover have "lock_ok (set_task i t s)" using assms(3,4)
    by (auto simp: lock_ok_def drains_def task_simps update_conv)
  ultimately show ?thesis by (simp add: tasks_ok_def)
qed

lemma drain_next_ok:
  assumes "ids_ok s" "i \<in> fst ` set (sv_tasks s)" "\<forall>j. j \<noteq> i \<longrightarrow> \<not> drains s j" "sv_holder s = Some i"
  shows "tasks_ok (drain_next i s)"
proof (cases "oq_pop (sv_queue s)")
  case None
  with assms show ?thesis by (auto simp: drain_next_def intro!: end_task_ok)
next
  case (Some p)
  obtain e q where p: "p = (e, q)" by (cases p)
  have "tasks_ok (set_task i (Replaying e) (s\<lparr>sv_queue := q\<rparr>))"
    using assms by (intro set_task_ok) (auto simp: ids_ok_def drains_def)
  with Some p show ?thesis by (simp add: drain_next_def)
qed

lemma map_of_key: "map_of ts i = Some t \<Longrightarrow> i \<in> fst ` set ts"
  by (auto dest!: map_of_SomeD intro: rev_image_eqI)

text \<open>In a state that is right, the lock says which task drains; another one does not.\<close>

lemma others_idle: "tasks_ok s \<Longrightarrow> j \<noteq> i \<Longrightarrow> sv_holder s = Some i \<Longrightarrow> \<not> drains s j"
  by (auto simp: tasks_ok_def lock_ok_def)

lemma holder_drains: "tasks_ok s \<Longrightarrow> map_of (sv_tasks s) i = Some t \<Longrightarrow> sv_holder s = Some i \<longleftrightarrow> draining t"
  by (auto simp: tasks_ok_def lock_ok_def drains_def)

lemma live_ok:
  assumes ok: "tasks_ok s" and i: "map_of (sv_tasks s) i = Some t" "\<not> draining t"
  shows "tasks_ok (live_result C uid i env r m ts s)" "tasks_ok (published i env b s)"
proof -
  have ids: "ids_ok s" and lk: "\<forall>j. sv_holder s = Some j \<longleftrightarrow> drains s j" using ok by (auto simp: tasks_ok_def lock_ok_def)
  have h: "sv_holder s \<noteq> Some i" using holder_drains [OF ok i(1)] i(2) by simp
  have e: "tasks_ok (end_task i s)" using ids lk by (intro end_task_ok) auto
  have st: "tasks_ok (set_task i t' s1)" if "ids_ok s1" "sv_tasks s1 = sv_tasks s" "sv_holder s1 = sv_holder s"
    "drains s1 = drains s" "\<not> draining t'" for t' s1
    using that lk h map_of_key [OF i(1)] by (intro set_task_ok) auto
  show "tasks_ok (live_result C uid i env r m ts s)"
    using e ids by (auto simp: live_result_def task_simps intro!: st split: sum.split)
  have e1: "tasks_ok (end_task i (note_fates Done [env] s))" using ids lk by (intro end_task_ok) (auto simp: task_simps)
  show "tasks_ok (published i env b s)"
    using e e1 ids by (auto simp: published_def Let_def task_simps intro!: st)
qed

lemma replay_ok:
  assumes ok: "tasks_ok s" and i: "map_of (sv_tasks s) i = Some t" "draining t"
  shows "tasks_ok (replay_result C uid i env r m ts s)" "tasks_ok (republished i env b s)"
proof -
  have ids: "ids_ok s" and lk: "\<forall>j. sv_holder s = Some j \<longleftrightarrow> drains s j" using ok by (auto simp: tasks_ok_def lock_ok_def)
  have h: "sv_holder s = Some i" using holder_drains [OF ok i(1)] i(2) by simp
  note key = map_of_key [OF i(1)] and oth = others_idle [OF ok _ h]
  have e: "tasks_ok (end_task i s)" using ids lk by (intro end_task_ok) auto
  have dn: "tasks_ok (drain_next i s1)" if "ids_ok s1" "sv_tasks s1 = sv_tasks s" "sv_holder s1 = sv_holder s"
    "drains s1 = drains s" for s1
    using that key oth h by (intro drain_next_ok) auto
  have st: "tasks_ok (set_task i (Republishing env) (send_reply C uid m ts env x s))" for x
    using ids lk key h by (intro set_task_ok) (auto simp: task_simps)
  show "tasks_ok (replay_result C uid i env r m ts s)"
    using e ids st by (auto simp: replay_result_def task_simps intro!: dn split: sum.split)
  show "tasks_ok (republished i env b s)"
    using e ids by (auto simp: republished_def task_simps intro!: dn)
qed

lemma intake_drains: "ids_ok s \<Longrightarrow> drains (handle_message C uid env s) = drains s"
proof
  fix j
  assume "ids_ok s"
  then have "map_of (sv_tasks s) (sv_next s) = None" by (auto simp: ids_ok_def map_of_eq_None_iff)
  then show "drains (handle_message C uid env s) j = drains s j"
    by (auto simp: handle_message_def drains_def map_add_def split: option.splits sum.split bool.split)
qed

lemma intake_ok:
  assumes ok: "tasks_ok s"
  shows "tasks_ok (handle_message C uid env s)"
proof -
  have "ids_ok s" using ok by (simp add: tasks_ok_def)
  moreover from this have "ids_ok (handle_message C uid env s)"
    by (auto simp: handle_message_def ids_ok_def split: sum.split bool.split)
  moreover have "sv_holder (handle_message C uid env s) = sv_holder s"
    by (simp add: handle_message_def split: sum.split bool.split)
  ultimately show ?thesis using ok intake_drains by (simp add: tasks_ok_def lock_ok_def)
qed

lemma step_tasks_ok:
  assumes ok: "tasks_ok s"
  shows "tasks_ok (service_step C uid s ev)"
proof (cases ev)
  case Start
  with ok show ?thesis by (simp add: service_step_def service_start_def task_simps)
next
  case (Inbound env)
  with intake_ok [OF ok] show ?thesis by (simp add: service_step_def)
next
  case (Analysed i r m ts)
  with ok live_ok(1) [OF ok, of i] replay_ok(1) [OF ok, of i] show ?thesis
    by (auto simp: service_step_def split: option.split infer_task.split)
next
  case (Published i b)
  with ok live_ok(2) [OF ok, of i] replay_ok(2) [OF ok, of i] show ?thesis
    by (auto simp: service_step_def split: option.split infer_task.split)
next
  case (Locked i)
  have "tasks_ok (drain_next i (s\<lparr>sv_holder := Some i\<rparr>))"
    if "sv_holder s = None" "map_of (sv_tasks s) i = Some Wait_Drain"
  proof (rule drain_next_ok)
    have "\<not> drains s j" for j using ok that(1) by (auto simp: tasks_ok_def lock_ok_def)
    then show "\<forall>j. j \<noteq> i \<longrightarrow> \<not> drains (s\<lparr>sv_holder := Some i\<rparr>) j" by (simp add: task_simps)
  qed (use ok map_of_key [OF that(2)] in \<open>auto simp: tasks_ok_def task_simps\<close>)
  with Locked ok show ?thesis by (simp add: service_step_def)
next
  case Stop
  then show ?thesis by (simp add: service_step_def service_stop_def task_simps)
    (simp add: tasks_ok_def ids_ok_def lock_ok_def drains_def)
qed

section \<open>Every message is accounted for\<close>

definition held_but :: "nat \<Rightarrow> infer_service \<Rightarrow> envelope multiset" where
  \<comment> \<open>the messages in the service but for the one that the task \<open>i\<close> has\<close>
  "held_but i s = mset (tasks_messages (AList.delete i (sv_tasks s))) + mset (oq_items (sv_queue s))
     + mset (map snd (sv_fates s))"

definition held :: "infer_service \<Rightarrow> envelope multiset" where
  "held s = mset (tasks_messages (sv_tasks s)) + mset (oq_items (sv_queue s)) + mset (map snd (sv_fates s))"

lemma tasks_messages_simps [simp]:
  "tasks_messages [] = []" "tasks_messages (p # ts) = task_message (snd p) @ tasks_messages ts"
  "tasks_messages (ts @ us) = tasks_messages ts @ tasks_messages us"
  by (simp_all add: tasks_messages_def)

lemma delete_absent: "i \<notin> fst ` set ts \<Longrightarrow> AList.delete i ts = ts"
  by (simp add: delete_id)

lemma tasks_messages_delete:
  "distinct (map fst ts) \<Longrightarrow> map_of ts i = Some t \<Longrightarrow>
   mset (tasks_messages ts) = mset (task_message t) + mset (tasks_messages (AList.delete i ts))"
proof (induction ts)
  case (Cons p ts)
  show ?case
  proof (cases "fst p = i")
    case True
    with Cons.prems have "i \<notin> fst ` set ts" "t = snd p" by (auto simp: image_iff)
    with True show ?thesis by (cases p) (simp add: delete_absent)
  next
    case False
    with Cons show ?thesis by (cases p) (simp add: union_ac)
  qed
qed simp

lemma delete_update: "AList.delete i (AList.update i t ts) = AList.delete i ts"
  by (induction ts) auto

lemma held_parts [task_simps]:
  "held_but i (note_fates f es s) = held_but i s + mset es"
  "held_but i (send_reply C uid m ts e x s) = held_but i s"
  "held_but i (set_task i t s) = held_but i s"
  "held_but i (s\<lparr>sv_holder := h\<rparr>) = held_but i s"
  "held (end_task i s) = held_but i s"
  "held (note_fates f es s) = held s + mset es"
  by (simp_all add: held_but_def held_def task_simps delete_update comp_def union_ac)

lemma held_split: "ids_ok s \<Longrightarrow> map_of (sv_tasks s) i = Some t \<Longrightarrow> held s = mset (task_message t) + held_but i s"
  by (simp add: held_def held_but_def ids_ok_def tasks_messages_delete [of "sv_tasks s" i t] union_ac)

lemma held_set_task:
  assumes "ids_ok s"
  shows "held (set_task i t s) = mset (task_message t) + held_but i s"
proof -
  have "ids_ok (s\<lparr>sv_tasks := AList.update i t (sv_tasks s), sv_next := Suc (max i (sv_next s))\<rparr>)"
    using assms by (auto simp: ids_ok_def keys_update)
  then have "distinct (map fst (AList.update i t (sv_tasks s)))" by (simp add: ids_ok_def)
  from tasks_messages_delete [OF this, of i t] show ?thesis
    by (simp add: held_def held_but_def task_simps update_conv delete_update union_ac)
qed

lemma held_enqueue:
  "0 < oq_max (sv_queue s) \<Longrightarrow> held (enqueue fr e s) = add_mset e (held s)"
  using oq_put_accounts(1) [of "sv_queue s" fr e]
  by (simp add: held_def task_simps comp_def union_ac)

lemma held_drain_next: "ids_ok s \<Longrightarrow> held (drain_next i s) = held_but i s"
  by (auto simp: drain_next_def oq_pop_def held_set_task ids_parts task_simps task_message_def held_but_def
      split: list.split)

definition accounted_for :: "infer_service \<Rightarrow> bool" where
  "accounted_for s \<longleftrightarrow> mset (sv_admitted s) = held s"

definition drops_counted :: "infer_service \<Rightarrow> bool" where
  "drops_counted s \<longleftrightarrow> oq_dropped (sv_queue s) = length (filter (\<lambda>(f, _). f = Dropped) (sv_fates s))"

definition queue_ok :: "infer_config \<Rightarrow> infer_service \<Rightarrow> bool" where
  "queue_ok C s \<longleftrightarrow> oq_max (sv_queue s) = ic_offline_queue_max C \<and>
     int (length (oq_items (sv_queue s))) \<le> max 0 (ic_offline_queue_max C)"

text \<open>Without a queue nothing is replayed.\<close>

definition replay_enabled :: "infer_config \<Rightarrow> infer_service \<Rightarrow> bool" where
  "replay_enabled C s \<longleftrightarrow> 0 < ic_offline_queue_max C \<or> (\<forall>i. \<not> drains s i)"

lemma admitted_drain [task_simps]: "sv_admitted (drain_next i s) = sv_admitted s" "sv_sent (drain_next i s) = sv_sent s"
  "sv_fates (drain_next i s) = sv_fates s" "oq_dropped (sv_queue (drain_next i s)) = oq_dropped (sv_queue s)"
  "oq_max (sv_queue (drain_next i s)) = oq_max (sv_queue s)"
  by (auto simp: drain_next_def oq_pop_def task_simps split: list.split)

lemma live_accounted:
  assumes "ids_ok s" "map_of (sv_tasks s) i = Some (Analysing env)" "accounted_for s"
  shows "accounted_for (live_result C uid i env r m ts s)"
  using assms held_split [OF assms(1,2)]
  by (auto simp: accounted_for_def live_result_def task_simps held_set_task held_enqueue oq_enabled_def
      task_message_def split: sum.split)

lemma replay_accounted:
  assumes "ids_ok s" "map_of (sv_tasks s) i = Some (Replaying env)" "accounted_for s" "oq_enabled (sv_queue s)"
  shows "accounted_for (replay_result C uid i env r m ts s)"
  using assms held_split [OF assms(1,2)]
  by (auto simp: accounted_for_def replay_result_def task_simps held_set_task held_enqueue held_drain_next oq_enabled_def
      task_message_def held_but_def oq_record_drop_def split: sum.split)

lemma published_accounted:
  assumes "ids_ok s" "map_of (sv_tasks s) i = Some (Publishing env)" "accounted_for s"
  shows "accounted_for (published i env b s)"
  using assms held_split [OF assms(1,2)]
  by (auto simp: accounted_for_def published_def task_simps held_set_task task_message_def Let_def)

lemma republished_accounted:
  assumes "ids_ok s" "map_of (sv_tasks s) i = Some (Republishing env)" "accounted_for s"
  shows "accounted_for (republished i env b s)"
  using assms held_split [OF assms(1,2)]
  by (auto simp: accounted_for_def republished_def task_simps held_drain_next task_message_def)

definition cap_ok :: "infer_config \<Rightarrow> infer_service \<Rightarrow> bool" where
  "cap_ok C s \<longleftrightarrow> ic_max_pending_tasks C \<le> 0 \<or> int (length (sv_tasks s)) \<le> ic_max_pending_tasks C"

definition sent_ok :: "infer_config \<Rightarrow> string \<Rightarrow> infer_service \<Rightarrow> bool" where
  "sent_ok C uid s \<longleftrightarrow> (\<forall>e \<in> set (sv_sent s). \<exists>m ts env x. e = insight_reply C uid m ts env x)"

definition service_inv :: "infer_config \<Rightarrow> string \<Rightarrow> infer_service \<Rightarrow> bool" where
  "service_inv C uid s \<longleftrightarrow> tasks_ok s \<and> accounted_for s \<and> drops_counted s \<and> queue_ok C s \<and> replay_enabled C s \<and>
     cap_ok C s \<and> sent_ok C uid s"

lemmas result_defs = live_result_def replay_result_def published_def republished_def

lemma sent_step: "sent_ok C uid s \<Longrightarrow> sent_ok C uid (service_step C uid s ev)"
  by (cases ev) (auto simp: sent_ok_def service_step_def service_start_def handle_message_def service_stop_def
      result_defs task_simps Let_def split: sum.split bool.split option.split infer_task.split)

text \<open>The number of tasks grows at the intake only.\<close>

lemma length_update_key: "i \<in> fst ` set ts \<Longrightarrow> length (AList.update i t ts) = length ts"
  by (induction ts) auto

lemma length_set_task: "map_of (sv_tasks s) i = Some t' \<Longrightarrow> length (sv_tasks (set_task i t s)) = length (sv_tasks s)"
  by (simp add: task_simps length_update_key map_of_key)

lemma length_end_task: "length (sv_tasks (end_task i s)) \<le> length (sv_tasks s)"
  by (simp add: task_simps length_delete_le)

lemma length_drain_next:
  "map_of (sv_tasks s) i = Some t \<Longrightarrow> length (sv_tasks (drain_next i s)) \<le> length (sv_tasks s)"
  using length_end_task [of i s] length_set_task [of "s\<lparr>sv_queue := q\<rparr>" i t t' for q t']
  by (auto simp: drain_next_def oq_pop_def split: list.split)

lemma task_steps_length:
  assumes "map_of (sv_tasks s) i = Some t"
  shows "length (sv_tasks (live_result C uid i env r m ts s)) \<le> length (sv_tasks s)"
    "length (sv_tasks (replay_result C uid i env r m ts s)) \<le> length (sv_tasks s)"
    "length (sv_tasks (published i env b s)) \<le> length (sv_tasks s)"
    "length (sv_tasks (republished i env b s)) \<le> length (sv_tasks s)"
proof -
  have e: "length (AList.delete i (sv_tasks s)) \<le> length (sv_tasks s)" by (rule length_delete_le)
  have u: "length (AList.update i t' (sv_tasks s)) = length (sv_tasks s)" for t'
    using map_of_key [OF assms] by (rule length_update_key)
  have d: "length (sv_tasks (drain_next i s1)) \<le> length (sv_tasks s)" if "sv_tasks s1 = sv_tasks s" for s1
    using length_drain_next [of s1 i t] assms that by simp
  show "length (sv_tasks (live_result C uid i env r m ts s)) \<le> length (sv_tasks s)"
    "length (sv_tasks (replay_result C uid i env r m ts s)) \<le> length (sv_tasks s)"
    "length (sv_tasks (published i env b s)) \<le> length (sv_tasks s)"
    "length (sv_tasks (republished i env b s)) \<le> length (sv_tasks s)"
    using e u by (auto simp: result_defs task_simps Let_def intro!: d split: sum.split)
qed

lemma cap_shrink: "cap_ok C s \<Longrightarrow> length (sv_tasks s') \<le> length (sv_tasks s) \<Longrightarrow> cap_ok C s'"
  by (auto simp: cap_ok_def)

lemma cap_step: "cap_ok C s \<Longrightarrow> cap_ok C (service_step C uid s ev)"
proof (cases ev)
  case (Inbound env)
  assume "cap_ok C s"
  with Inbound show ?thesis
    by (auto simp: cap_ok_def service_step_def handle_message_def split: sum.split bool.split)
next
  case (Analysed i r m ts)
  assume "cap_ok C s"
  with Analysed show ?thesis
    by (auto simp: service_step_def intro: cap_shrink task_steps_length split: option.split infer_task.split)
next
  case (Published i b)
  assume "cap_ok C s"
  with Published show ?thesis
    by (auto simp: service_step_def intro: cap_shrink task_steps_length split: option.split infer_task.split)
next
  case (Locked i)
  assume "cap_ok C s"
  with Locked length_drain_next [of "s\<lparr>sv_holder := Some i\<rparr>" i Wait_Drain] show ?thesis
    by (auto simp: cap_ok_def service_step_def)
qed (auto simp: cap_ok_def service_step_def service_start_def service_stop_def task_simps)

text \<open>The queue.\<close>

definition queue_keeps :: "infer_config \<Rightarrow> infer_service \<Rightarrow> bool" where
  "queue_keeps C s \<longleftrightarrow> queue_ok C s \<and> drops_counted s"

lemma queue_keeps_parts [task_simps]:
  "queue_keeps C (set_task i t s) = queue_keeps C s" "queue_keeps C (end_task i s) = queue_keeps C s"
  "queue_keeps C (send_reply C' uid m ts e x s) = queue_keeps C s" "queue_keeps C (s\<lparr>sv_holder := h\<rparr>) = queue_keeps C s"
  "f \<noteq> Dropped \<Longrightarrow> queue_keeps C (note_fates f es s) = queue_keeps C s"
  by (simp_all add: queue_keeps_def queue_ok_def drops_counted_def task_simps filter_map comp_def)

lemma queue_keeps_drain: "queue_keeps C s \<Longrightarrow> queue_keeps C (drain_next i s)"
  by (auto simp: queue_keeps_def queue_ok_def drops_counted_def task_simps)
    (auto simp: drain_next_def oq_pop_def task_simps split: list.split)

lemma queue_keeps_enqueue:
  "queue_keeps C s \<Longrightarrow> 0 < ic_offline_queue_max C \<Longrightarrow> queue_keeps C (enqueue fr e s)"
  using oq_put_accounts(2-4) [of "sv_queue s" fr e]
  by (simp add: queue_keeps_def queue_ok_def drops_counted_def task_simps filter_map comp_def)

lemma queue_keeps_drop:
  "queue_keeps C s \<Longrightarrow> queue_keeps C (note_fates Dropped [e] (s\<lparr>sv_queue := oq_record_drop (sv_queue s)\<rparr>))"
  by (simp add: queue_keeps_def queue_ok_def drops_counted_def task_simps oq_record_drop_def)

lemma queue_step:
  assumes "queue_keeps C s" "replay_enabled C s"
  shows "queue_keeps C (service_step C uid s ev)"
proof -
  have en: "oq_enabled (sv_queue s) \<Longrightarrow> 0 < ic_offline_queue_max C"
    using assms(1) by (simp add: queue_keeps_def queue_ok_def oq_enabled_def)
  have rp: "0 < ic_offline_queue_max C" if "map_of (sv_tasks s) i = Some t" "draining t" for i t
    using assms(2) that by (auto simp: replay_enabled_def drains_def split: option.splits)
  have lv: "queue_keeps C (live_result C uid i env r m ts s)" for i env r m ts
    using assms(1) en by (auto simp: live_result_def task_simps intro!: queue_keeps_enqueue split: sum.split)
  have rv: "queue_keeps C (replay_result C uid i env r m ts s)" if "0 < ic_offline_queue_max C" for i env r m ts
    using assms(1) that
    by (auto simp: replay_result_def task_simps intro!: queue_keeps_enqueue queue_keeps_drain queue_keeps_drop split: sum.split)
  have pb: "queue_keeps C (published i env b s)" "queue_keeps C (republished i env b s)" for i env b
    using assms(1) by (auto simp: published_def republished_def Let_def task_simps intro!: queue_keeps_drain)
  have simple: "queue_keeps C (handle_message C uid env s)" "queue_keeps C (service_start C s)" "queue_keeps C (service_stop s)" for env
    using assms(1)
    by (auto simp: handle_message_def service_start_def service_stop_def queue_keeps_def queue_ok_def drops_counted_def
        task_simps filter_map comp_def split: sum.split bool.split)
  show ?thesis using assms(1) lv rv pb simple rp
    by (cases ev) (auto simp: service_step_def task_simps intro!: queue_keeps_drain
        split: option.split infer_task.split)
qed

lemma drains_end_task: "drains (end_task i s) j \<Longrightarrow> drains s j"
  by (auto simp: drains_def task_simps delete_conv split: if_splits option.splits)

lemma drains_set_idle: "\<not> draining t \<Longrightarrow> drains (set_task i t s) j \<Longrightarrow> drains s j"
  by (auto simp: drains_def task_simps update_conv split: if_splits option.splits)

lemma drains_set_plain:
  "drains (set_task i (Publishing e) s) j \<Longrightarrow> drains s j" "drains (set_task i Wait_Drain s) j \<Longrightarrow> drains s j"
  by (rule drains_set_idle [rotated], assumption, simp)+

lemma replay_step:
  assumes "queue_keeps C s" "replay_enabled C s" "tasks_ok s"
  shows "replay_enabled C (service_step C uid s ev)"
proof (cases "0 < ic_offline_queue_max C")
  case True
  then show ?thesis by (simp add: replay_enabled_def)
next
  case False
  with assms have no: "\<not> drains s i" "oq_items (sv_queue s) = []" "\<not> oq_enabled (sv_queue s)" for i
    by (auto simp: replay_enabled_def queue_keeps_def queue_ok_def oq_enabled_def)
  have nd: "map_of (sv_tasks s) i \<noteq> Some (Replaying e)" "map_of (sv_tasks s) i \<noteq> Some (Republishing e)" for i e
    using no(1) [of i] by (auto simp: drains_def)
  have "\<not> drains (live_result C uid i env r m ts s) j" "\<not> drains (published i env b s) j" for i env r m ts b j
    using no by (auto simp: live_result_def published_def Let_def task_simps split: sum.split
        dest!: drains_end_task drains_set_plain)
  moreover have "\<not> drains (handle_message C uid env s) j" for env j
    using no(1) intake_drains assms(3) by (simp add: tasks_ok_def)
  moreover have "\<not> drains (service_start C s) j" "\<not> drains (service_stop s) j" for j
    using no(1) [of j] by (simp_all add: service_start_def service_stop_def task_simps) (simp_all add: drains_def)
  moreover have "\<not> drains (drain_next i (s\<lparr>sv_holder := h\<rparr>)) j" for i j h
    using no(1) [of j] no(2) drains_end_task [of i "s\<lparr>sv_holder := h\<rparr>" j]
    by (auto simp: drain_next_def oq_pop_def task_simps)
  ultimately show ?thesis using nd no
    by (cases ev) (auto simp: replay_enabled_def service_step_def split: option.split infer_task.split)
qed

section \<open>The invariant\<close>

lemma intake_accounted: "accounted_for s \<Longrightarrow> accounted_for (handle_message C uid env s)"
  by (auto simp: accounted_for_def held_def handle_message_def task_message_def union_ac split: sum.split bool.split)

lemma account_step:
  assumes "accounted_for s" "tasks_ok s" "replay_enabled C s" "queue_ok C s"
  shows "accounted_for (service_step C uid s ev)"
proof -
  have ids: "ids_ok s" using assms(2) by (simp add: tasks_ok_def)
  have en: "oq_enabled (sv_queue s)" if "map_of (sv_tasks s) i = Some (Replaying e)" for i e
  proof -
    have "drains s i" using that by (simp add: drains_def)
    with assms(3,4) show ?thesis by (auto simp: replay_enabled_def queue_ok_def oq_enabled_def)
  qed
  have stop: "accounted_for (service_stop s)"
    using assms(1) by (simp add: accounted_for_def held_def service_stop_def task_simps comp_def union_ac)
  have start: "accounted_for (service_start C s)"
    using assms(1) by (simp add: accounted_for_def held_def service_start_def)
  have lk: "accounted_for (drain_next i (s\<lparr>sv_holder := Some i\<rparr>))" if "map_of (sv_tasks s) i = Some Wait_Drain" for i
    using assms(1) held_split [OF ids that] ids
    by (simp add: accounted_for_def task_simps held_drain_next ids_parts) (simp add: task_message_def)
  show ?thesis
    using assms(1) intake_accounted start stop lk live_accounted [OF ids _ assms(1)] published_accounted [OF ids _ assms(1)]
      republished_accounted [OF ids _ assms(1)] replay_accounted [OF ids _ assms(1) en]
    by (cases ev) (auto simp: service_step_def split: option.split infer_task.split)
qed

lemma service_inv_step: "service_inv C uid s \<Longrightarrow> service_inv C uid (service_step C uid s ev)"
  using step_tasks_ok account_step queue_step replay_step cap_step sent_step
  by (simp add: service_inv_def queue_keeps_def)

interpretation service_machine: invariant_machine "service_step C uid" "service_inv C uid" for C uid
  by unfold_locales (rule service_inv_step)

lemma new_service_inv: "service_inv C uid (new_service C)"
  by (simp add: service_inv_def new_service_def new_offline_queue_def tasks_ok_def ids_ok_def lock_ok_def drains_def
      accounted_for_def held_def drops_counted_def queue_ok_def replay_enabled_def cap_ok_def sent_ok_def) linarith

end
