(* ===== verification/Inference_Facts.thy ===== *)
theory Inference_Facts
  imports Inference_Service
begin

text \<open>The properties of the inference client and service, each with a concrete instance.\<close>

section \<open>The client\<close>

text \<open>The client posts one request more than the configured number of retries at most.  It returns at
  the first answer that is final (a response that is no transient failure, or an exception that is
  not the transport's own), and otherwise the error of the last answer; before each further attempt it
  sleeps the backoff of the one before, which never exceeds the configured maximum.\<close>

theorem retries_bounded:
  assumes "ic_enabled C" "ic_api_key C \<noteq> []" "int n = ic_max_retries C" "j \<le> n"
    and "\<forall>i < j. passing (post (infer_request loads dumps C env) i)"
    and "j = n \<or> \<not> passing (post (infer_request loads dumps C env) j)"
  defines "a \<equiv> post (infer_request loads dumps C env) j"
  shows "analyze loads dumps C post env =
      (if passing a then Inl (final_error a) else settled (infer_parse loads dumps (want_json loads C) (ic_summary_field C)) a,
       map (backoff_delay C) [0..<j], Suc j) \<and>
    int (Suc j) \<le> ic_max_retries C + 1 \<and> (\<forall>k. backoff_delay C k \<le> ic_backoff_max_s C)"
proof -
  let ?answer = "post (infer_request loads dumps C env)"
  have n: "nat (ic_max_retries C + 1) = Suc n" using assms(3) by linarith
  have "attempt_loop C (infer_parse loads dumps (want_json loads C) (ic_summary_field C)) ?answer [0..<Suc n] =
      (if passing a then Inl (final_error a) else settled (infer_parse loads dumps (want_json loads C) (ic_summary_field C)) a,
       map (backoff_delay C) [0..<j], Suc j)"
  proof (cases "passing a")
    case True
    with assms(6) have "j = n" by (simp add: a_def)
    with True assms(5) have "\<forall>i. 0 \<le> i \<and> i \<le> n \<longrightarrow> passing (?answer i)" by (auto simp: a_def le_less)
    from attempt_loop_exhausted [OF assms(3) this] True \<open>j = n\<close> show ?thesis by (simp add: a_def del: upt_Suc)
  next
    case False
    from attempt_loop_final [OF assms(3,4), of 0 ?answer] assms(5) False show ?thesis by (simp add: a_def del: upt_Suc)
  qed
  then show ?thesis using assms(1-4) by (simp add: analyze_def n backoff_delay_def del: upt_Suc)
qed

definition demo_infer :: infer_config where
  "demo_infer = \<lparr>ic_enabled = True, ic_api_key = ''key'', ic_base_url = ''https://api/v1/'', ic_model = ''m'',
     ic_system_prompt = ''s'', ic_temperature = Fin 0, ic_max_tokens = 512, ic_timeout_s = Fin 30, ic_max_retries = 2,
     ic_backoff_base = 2, ic_backoff_max_s = 30, ic_insight_prefix = ''[AI Insight]'', ic_min_interval_s = 0,
     ic_max_concurrent = 0, ic_response_format = ''text'', ic_guided_schema = [], ic_summary_field = ''summary'',
     ic_models = [], ic_offline_queue_max = 2, ic_max_pending_tasks = 3\<rparr>"

definition demo_reply :: json where
  "demo_reply = JObj [(''choices'', JArr [JObj [(''message'', JObj [(''content'', JStr ''two trucks'')])]])]"

definition demo_message :: envelope where
  "demo_message = \<lparr>env_schema_version = 1, env_msg_id = ''m1'', env_ts = Fin 0, env_source_uid = ''uav'', env_kind = Pli,
     env_payload = []\<rparr>"

theorem retries_bounded_witness:
  "analyze (\<lambda>_. None) (\<lambda>_. []) demo_infer (\<lambda>_ k. if k = 0 then Unreachable else if k = 1 then Response 429 JNull
      else Response 200 demo_reply) demo_message =
    (Inr \<lparr>ir_summary = ''two trucks'', ir_raw = []\<rparr>, [1, 2], 3)"
proof -
  let ?post = "\<lambda>(_ :: infer_http_request) (k :: nat). if k = 0 then Unreachable else if k = 1 then Response 429 JNull
      else Response 200 demo_reply"
  have p: "\<forall>i < 2. passing (?post (infer_request (\<lambda>_. None) (\<lambda>_. []) demo_infer demo_message) i)"
    by (auto simp: passing_def is_transient_status_def HTTP_TOO_MANY_REQUESTS_def)
  have f: "\<not> passing (Response 200 demo_reply)"
    by (simp add: passing_def is_transient_status_def HTTP_TOO_MANY_REQUESTS_def HTTP_SERVER_ERROR_FLOOR_def)
  from retries_bounded [of demo_infer 2 2 ?post "\<lambda>_. None" "\<lambda>_. []" demo_message] p f
  show ?thesis
    by (simp add: demo_infer_def settled_def HTTP_ERROR_FLOOR_def infer_parse_def demo_reply_def completion_content_def
        made_result_def want_json_def guided_json_def backoff_delay_def upt_rec Let_def)
qed

section \<open>The service\<close>

text \<open>C14: Whatever happens to the service and in whatever order its tasks go on, every message that it
  took in is in one place: with a task, in the offline queue, or settled.  The queue and the number
  of tasks stay within their limits, the counter of dropped messages is the number of messages dropped
  from the queue, and the lock of the replay is held by the one task that replays.\<close>

theorem inference_accounts:
  "let s = foldl (service_step C uid) (new_service C) evs in
    mset (sv_admitted s) =
      mset (tasks_messages (sv_tasks s)) + mset (oq_items (sv_queue s)) + mset (map snd (sv_fates s)) \<and>
    int (length (oq_items (sv_queue s))) \<le> max 0 (ic_offline_queue_max C) \<and>
    (ic_max_pending_tasks C \<le> 0 \<or> int (length (sv_tasks s)) \<le> ic_max_pending_tasks C) \<and>
    oq_dropped (sv_queue s) = length (filter (\<lambda>(f, _). f = Dropped) (sv_fates s)) \<and>
    (\<forall>i. sv_holder s = Some i \<longleftrightarrow> drains s i)"
  using service_machine.inv_run [OF new_service_inv, of C uid evs]
  by (simp add: Let_def service_inv_def accounted_for_def held_def queue_ok_def cap_ok_def drops_counted_def tasks_ok_def lock_ok_def)

text \<open>No feedback: whatever the service has sent is a chat of its own that starts with the prefix of an
  insight, and no service with that prefix, the one that sent it or another node's, takes it in.\<close>

theorem insights_never_analysed:
  assumes "reply \<in> set (sv_sent (foldl (service_step C uid) (new_service C) evs))"
    and "ic_insight_prefix C' = ic_insight_prefix C"
  shows "service_step C' uid' s (Inbound reply) = s"
proof -
  have "sent_ok C uid (foldl (service_step C uid) (new_service C) evs)"
    using service_machine.inv_run [OF new_service_inv, of C uid evs] by (simp add: service_inv_def)
  then obtain m ts env x where "reply = insight_reply C uid m ts env x" using assms(1) by (auto simp: sent_ok_def)
  then have "is_ai_insight (ic_insight_prefix C') reply = Inr True"
    using assms(2) by (simp add: is_ai_insight_def insight_reply_def)
  then show ?thesis by (simp add: service_step_def handle_message_def)
qed

text \<open>The replay of a message that ends in an exception which is no inference error loses it: it was taken
  from the queue, and no counter shows it.\<close>

lemma replay_can_lose:
  "\<exists>evs. let s = foldl (service_step demo_infer ''node'') (new_service demo_infer) evs
    in sv_fates s = [(Done, demo_message\<lparr>env_msg_id := ''m2''\<rparr>), (Lost, demo_message)] \<and> service_counters s = (0, 0, 0, 0)"
proof -
  let ?evs = "[Start, Inbound demo_message, Analysed 0 (Inl InferTransport) [] (Fin 0),
     Inbound (demo_message\<lparr>env_msg_id := ''m2''\<rparr>), Analysed 1 (Inr ''ok'') ''r'' (Fin 0), Published 1 True, Locked 1,
     Analysed 1 (Inl (InferRaised TypeError)) [] (Fin 0)]"
  show ?thesis by (rule exI [of _ ?evs]) code_simp
qed

theorem insights_never_analysed_witness:
  "\<exists>reply s. reply \<in> set (sv_sent (foldl (service_step demo_infer ''node'') (new_service demo_infer)
      [Start, Inbound demo_message, Analysed 0 (Inr ''two trucks'') ''r1'' (Fin 1)])) \<and>
    sv_running s \<and> service_step demo_infer ''other'' s (Inbound reply) = s"
proof -
  let ?s = "foldl (service_step demo_infer ''node'') (new_service demo_infer)
      [Start, Inbound demo_message, Analysed 0 (Inr ''two trucks'') ''r1'' (Fin 1)]"
  let ?r = "insight_reply demo_infer ''node'' ''r1'' (Fin 1) demo_message ''two trucks''"
  have m: "?r \<in> set (sv_sent ?s)" by code_simp
  have "sv_running ?s" by code_simp
  with m insights_never_analysed [OF m, of demo_infer "''other''" ?s] show ?thesis by blast
qed

section \<open>Spacing\<close>

text \<open>Requests that pass the gate are at least the configured interval apart, as long as the clock runs
  forward and a sleep lasts as long as it was asked to.\<close>

theorem requests_spaced:
  "0 < ic_min_interval_s C \<Longrightarrow> spaced (ic_min_interval_s C) asks last_at \<Longrightarrow> Suc i < length asks \<Longrightarrow>
   ic_min_interval_s C \<le> snd (asks ! Suc i) - snd (asks ! i)"
  by (rule spaced_gaps)

definition demo_asks :: "(real \<times> real) list" where "demo_asks = [(0, 0), (1, 2)]"

theorem requests_spaced_witness:
  "ic_min_interval_s (demo_infer\<lparr>ic_min_interval_s := 2\<rparr>) \<le> snd (demo_asks ! Suc 0) - snd (demo_asks ! 0)"
  using requests_spaced [of "demo_infer\<lparr>ic_min_interval_s := 2\<rparr>" demo_asks None 0]
  by (simp add: slept_enough_def space_wait_def space_def demo_asks_def)

end
