(* ===== verification/Flight_Log.thy ===== *)
theory Flight_Log
  imports Py_Strings
begin

text \<open>
  The flight logger (\<^verbatim>\<open>meshsa/fpv/flight_logger.py\<close>) and the reader of what it wrote
  (\<^verbatim>\<open>meshsa/fpv/dataset.py\<close>, \<^verbatim>\<open>meshsa/fpv/version.py\<close>).  The callers, the closer and the writer are threads.  A
  caller checks that the logger takes records and then puts its record into the queue; between the two
  others may run, so these are two steps, and likewise the closer's mark of the end.  A record is the
  value that is written as one line of JSON.
\<close>

section \<open>Records\<close>

datatype log_stream = Rc_Log | Telemetry_Log | Event_Log | Frame_Log

definition header_fields :: "log_stream \<Rightarrow> string list" where
  "header_fields st =
     (case st of
        Rc_Log \<Rightarrow> [''t'', ''ch''] | Telemetry_Log \<Rightarrow> [''t'', ''type'', ''data'']
      | Event_Log \<Rightarrow> [''t'', ''event'', ''data''] | Frame_Log \<Rightarrow> [''t'', ''frame_idx''])"

definition log_stream_name :: "log_stream \<Rightarrow> string" where
  "log_stream_name st =
     (case st of Rc_Log \<Rightarrow> ''rc'' | Telemetry_Log \<Rightarrow> ''telemetry'' | Event_Log \<Rightarrow> ''events'' | Frame_Log \<Rightarrow> ''frames'')"

definition DATASET_SCHEMA :: int where "DATASET_SCHEMA = 2"
definition MIN_COMPATIBLE_DATASET :: int where "MIN_COMPATIBLE_DATASET = 1"

definition is_dataset_compatible :: "int \<Rightarrow> bool" where
  "is_dataset_compatible v \<longleftrightarrow> MIN_COMPATIBLE_DATASET \<le> v \<and> v \<le> DATASET_SCHEMA"

definition log_header :: "log_stream \<Rightarrow> json" where
  "log_header st = JObj
     [(''schema_version'', JInt DATASET_SCHEMA), (''file'', JStr (log_stream_name st)),
      (''fields'', JArr (map JStr (header_fields st)))]"

definition rc_record :: "pyfloat \<Rightarrow> int list \<Rightarrow> json" where
  "rc_record t channels = JObj [(''t'', JFloat t), (''ch'', JArr (map JInt channels))]"

definition telemetry_record :: "pyfloat \<Rightarrow> string \<Rightarrow> json \<Rightarrow> json" where
  "telemetry_record t name data = JObj [(''t'', JFloat t), (''type'', JStr name), (''data'', data)]"

definition event_record :: "pyfloat \<Rightarrow> string \<Rightarrow> (string \<times> json) list \<Rightarrow> json" where
  "event_record t event data = JObj [(''t'', JFloat t), (''event'', JStr event), (''data'', JObj data)]"

definition frame_record :: "pyfloat \<Rightarrow> int \<Rightarrow> json" where
  "frame_record t frame_idx = JObj [(''t'', JFloat t), (''frame_idx'', JInt frame_idx)]"

section \<open>The logger\<close>

datatype log_item = Log_Record log_stream json | Sentinel

text \<open>The part of the manifest that depends on the session; the rest are constants of the constructor.\<close>

record log_manifest =
  lm_rates :: "(string \<times> real) list"
  lm_dropped :: "log_stream \<Rightarrow> nat"
  lm_notes :: "(string \<times> json) list"

record flight_logger =
  fl_queue_len :: int
  fl_started :: bool
  fl_closed :: bool
  fl_closing :: bool
  fl_queue :: "log_item list"
  fl_callers :: "(bool \<times> log_stream \<times> json) list"
  fl_writer :: bool
  fl_open :: bool
  fl_files :: "log_stream \<Rightarrow> json list"
  fl_dropped :: "log_stream \<Rightarrow> nat"
  fl_tel_counts :: "(string \<times> nat) list"
  fl_tel_span :: "(real \<times> real) option"
  fl_notes :: "(string \<times> json) list"
  fl_manifest :: "log_manifest option"
  fl_admitted :: "log_stream \<Rightarrow> nat"
  fl_raised :: "log_stream \<Rightarrow> nat"

text \<open>
  \<open>fl_callers\<close> are the calls under way; \<open>fl_admitted\<close> and \<open>fl_raised\<close> count the records that passed the
  check and those whose caller got a \<^verbatim>\<open>LoggerOverflowError\<close>, for the account only.
\<close>

definition new_logger :: "int \<Rightarrow> flight_logger" where
  "new_logger n =
     \<lparr>fl_queue_len = n, fl_started = False, fl_closed = False, fl_closing = False, fl_queue = [], fl_callers = [],
      fl_writer = False, fl_open = False, fl_files = (\<lambda>_. []), fl_dropped = (\<lambda>_. 0), fl_tel_counts = [],
      fl_tel_span = None, fl_notes = [], fl_manifest = None,
      fl_admitted = (\<lambda>_. 0), fl_raised = (\<lambda>_. 0)\<rparr>"

text \<open>Without a span of time between the first and the last message the rates are the plain counts.\<close>

definition telemetry_rates :: "flight_logger \<Rightarrow> (string \<times> real) list" where
  "telemetry_rates L =
     (case fl_tel_span L of
        None \<Rightarrow> []
      | Some (t_first, t_last) \<Rightarrow>
          let span = t_last - t_first
          in if span \<le> 0 then map (\<lambda>(name, count). (name, real count)) (fl_tel_counts L)
             else map (\<lambda>(name, count). (name, real count / span)) (fl_tel_counts L))"

definition write_manifest :: "flight_logger \<Rightarrow> flight_logger" where
  "write_manifest L =
     L\<lparr>fl_manifest := Some \<lparr>lm_rates = telemetry_rates L, lm_dropped = fl_dropped L, lm_notes = fl_notes L\<rparr>\<rparr>"

definition set_note :: "string \<Rightarrow> json \<Rightarrow> flight_logger \<Rightarrow> flight_logger" where
  "set_note key v L = L\<lparr>fl_notes := AList.update key v (fl_notes L)\<rparr>"

text \<open>\<^verbatim>\<open>start\<close>; \<open>ok\<close> is whether all the files could be opened and headed.\<close>

definition logger_start :: "bool \<Rightarrow> flight_logger \<Rightarrow> (py_exn + unit) \<times> flight_logger" where
  "logger_start ok L =
     (if fl_started L then (Inr (), L)
      else if \<not> ok then (Inl OSError, L)
      else (Inr (), (write_manifest L)\<lparr>fl_started := True, fl_writer := True, fl_open := True,
                                       fl_files := (\<lambda>st. [log_header st])\<rparr>))"

definition check_writable :: "flight_logger \<Rightarrow> py_exn + unit" where
  "check_writable L = (if \<not> fl_started L \<or> fl_closed L then Inl RuntimeError else Inr ())"

definition queue_room :: "flight_logger \<Rightarrow> bool" where
  "queue_room L \<longleftrightarrow> fl_queue_len L \<le> 0 \<or> int (length (fl_queue L)) < fl_queue_len L"

text \<open>The first half of a record call; \<open>durable\<close> is \<^verbatim>\<open>record_event\<close>.\<close>

definition record_begin :: "bool \<Rightarrow> log_stream \<Rightarrow> json \<Rightarrow> flight_logger \<Rightarrow> (py_exn + unit) \<times> flight_logger" where
  "record_begin durable st rec L =
     (case check_writable L of
        Inl e \<Rightarrow> (Inl e, L)
      | Inr _ \<Rightarrow> (Inr (), L\<lparr>fl_callers := fl_callers L @ [(durable, st, rec)],
                          fl_admitted := (fl_admitted L)(st := Suc (fl_admitted L st))\<rparr>))"

text \<open>A telemetry message is counted before the check that the logger takes it.\<close>

definition count_telemetry :: "real \<Rightarrow> string \<Rightarrow> flight_logger \<Rightarrow> flight_logger" where
  "count_telemetry ts name L =
     L\<lparr>fl_tel_counts := AList.update name (Suc (case map_of (fl_tel_counts L) name of None \<Rightarrow> 0 | Some c \<Rightarrow> c)) (fl_tel_counts L),
       fl_tel_span := Some (case fl_tel_span L of None \<Rightarrow> (ts, ts) | Some (t_first, _) \<Rightarrow> (t_first, ts))\<rparr>"

definition record_telemetry :: "real \<Rightarrow> string \<Rightarrow> json \<Rightarrow> flight_logger \<Rightarrow> (py_exn + unit) \<times> flight_logger" where
  "record_telemetry ts name data L =
     record_begin False Telemetry_Log (telemetry_record (Fin ts) name data) (count_telemetry ts name L)"

definition count_drop :: "log_stream \<Rightarrow> flight_logger \<Rightarrow> flight_logger" where
  "count_drop st L = L\<lparr>fl_dropped := (fl_dropped L)(st := Suc (fl_dropped L st))\<rparr>"

text \<open>
  The second half: with room the record is queued.  Without, the durable call raises at its timeout
  and another one counts a drop.
\<close>

definition remove_nth :: "nat \<Rightarrow> 'a list \<Rightarrow> 'a list" where
  "remove_nth n xs = take n xs @ drop (Suc n) xs"

definition record_end :: "nat \<Rightarrow> flight_logger \<Rightarrow> flight_logger" where
  "record_end n L =
     (if length (fl_callers L) \<le> n then L
      else
        case fl_callers L ! n of (durable, st, rec) \<Rightarrow>
          let L1 = L\<lparr>fl_callers := remove_nth n (fl_callers L)\<rparr>
          in if queue_room L1 then L1\<lparr>fl_queue := fl_queue L1 @ [Log_Record st rec]\<rparr>
             else if durable then L1\<lparr>fl_raised := (fl_raised L1)(st := Suc (fl_raised L1 st))\<rparr>
             else count_drop st L1)"

text \<open>
  One turn of the writer: a wait that found nothing, or a record.  \<open>ok\<close> is whether the record could be
  written as a line, which a closed file never takes.  \<open>flush_fails\<close> is whether a flush that came due in this
  turn raised: nothing catches that, so the thread ends and leaves the queue as it is.  After a wait that
  found nothing there is always a flush, which a closed file does not take either.
\<close>

definition writer_step :: "bool \<Rightarrow> bool \<Rightarrow> flight_logger \<Rightarrow> flight_logger" where
  "writer_step ok flush_fails L =
     (if \<not> fl_writer L then L
      else case fl_queue L of
        [] \<Rightarrow> if flush_fails \<or> \<not> fl_open L then L\<lparr>fl_writer := False\<rparr> else L
      | Sentinel # q \<Rightarrow> L\<lparr>fl_queue := q, fl_writer := False\<rparr>
      | Log_Record st rec # q \<Rightarrow>
          let L1 = L\<lparr>fl_queue := q\<rparr>;
              L2 = (if ok \<and> fl_open L1 then L1\<lparr>fl_files := (fl_files L1)(st := fl_files L1 st @ [rec])\<rparr>
                    else count_drop st L1)
          in if flush_fails then L2\<lparr>fl_writer := False\<rparr> else L2)"

text \<open>\<^verbatim>\<open>close\<close> in its three parts: the flag, the sentinel or its timeout, and the end after the join.\<close>

definition close_begin :: "flight_logger \<Rightarrow> flight_logger" where
  "close_begin L = (if fl_closed L \<or> \<not> fl_started L then L else L\<lparr>fl_closed := True, fl_closing := True\<rparr>)"

definition close_sentinel :: "flight_logger \<Rightarrow> flight_logger" where
  "close_sentinel L =
     (if \<not> fl_closing L then L
      else let L1 = L\<lparr>fl_closing := False\<rparr>
           in if queue_room L1 then L1\<lparr>fl_queue := fl_queue L1 @ [Sentinel]\<rparr> else L1)"

definition close_end :: "flight_logger \<Rightarrow> flight_logger" where
  "close_end L =
     (if \<not> fl_closed L \<or> fl_closing L then L
      else write_manifest (L\<lparr>fl_open := False\<rparr>))"

datatype logger_event =
    Log_Start bool
  | Log_Begin bool log_stream json
  | Log_Telemetry real string json
  | Log_Note string json
  | Log_End nat
  | Log_Write bool bool
  | Close_Begin
  | Close_Sentinel
  | Close_End

definition logger_step :: "flight_logger \<Rightarrow> logger_event \<Rightarrow> flight_logger" where
  "logger_step L ev =
     (case ev of
        Log_Start ok \<Rightarrow> snd (logger_start ok L)
      | Log_Begin durable st rec \<Rightarrow> snd (record_begin durable st rec L)
      | Log_Telemetry ts name data \<Rightarrow> snd (record_telemetry ts name data L)
      | Log_Note key v \<Rightarrow> set_note key v L
      | Log_End n \<Rightarrow> record_end n L
      | Log_Write ok flush_fails \<Rightarrow> writer_step ok flush_fails L
      | Close_Begin \<Rightarrow> close_begin L
      | Close_Sentinel \<Rightarrow> close_sentinel L
      | Close_End \<Rightarrow> close_end L)"

section \<open>The account of the records\<close>

fun item_is :: "log_stream \<Rightarrow> log_item \<Rightarrow> bool" where
  "item_is st (Log_Record st' rec) = (st' = st)"
| "item_is st Sentinel = False"

definition queued :: "flight_logger \<Rightarrow> log_stream \<Rightarrow> nat" where
  "queued L st = length (filter (item_is st) (fl_queue L))"

definition calling :: "flight_logger \<Rightarrow> log_stream \<Rightarrow> nat" where
  "calling L st = length (filter (\<lambda>(_, st', _). st' = st) (fl_callers L))"

text \<open>The lines of a stream after its header.\<close>

definition written :: "flight_logger \<Rightarrow> log_stream \<Rightarrow> nat" where
  "written L st = length (fl_files L st) - 1"

lemma filter_remove_nth:
  "n < length xs \<Longrightarrow>
   length (filter Q xs) = length (filter Q (remove_nth n xs)) + (if Q (xs ! n) then 1 else 0)"
  by (subst (1) id_take_nth_drop [of n xs]) (simp_all add: remove_nth_def)

definition balanced :: "flight_logger \<Rightarrow> bool" where
  "balanced L \<longleftrightarrow>
     (\<forall>st. fl_admitted L st = written L st + fl_dropped L st + fl_raised L st + queued L st + calling L st)"

definition files_ok :: "flight_logger \<Rightarrow> bool" where
  "files_ok L \<longleftrightarrow>
     (fl_started L \<longrightarrow> (\<forall>st. fl_files L st \<noteq> [] \<and> hd (fl_files L st) = log_header st)) \<and>
     (\<not> fl_started L \<longrightarrow> fl_queue L = [] \<and> fl_callers L = [] \<and> \<not> fl_writer L \<and> \<not> fl_closed L \<and>
        (\<forall>st. fl_files L st = []))"

definition closing_ok :: "flight_logger \<Rightarrow> bool" where
  "closing_ok L \<longleftrightarrow> (fl_closing L \<longrightarrow> fl_closed L) \<and>
     (fl_closing L \<or> \<not> fl_closed L \<longrightarrow> Sentinel \<notin> set (fl_queue L) \<and> (fl_started L \<longrightarrow> fl_open L))"

definition logger_ok :: "flight_logger \<Rightarrow> bool" where
  "logger_ok L \<longleftrightarrow> balanced L \<and> files_ok L \<and> closing_ok L"

lemmas logger_defs = write_manifest_def set_note_def count_telemetry_def record_telemetry_def logger_step_def logger_start_def record_begin_def check_writable_def record_end_def writer_step_def
  close_begin_def close_sentinel_def close_end_def count_drop_def

lemma files_step: "files_ok L \<Longrightarrow> closing_ok L \<Longrightarrow> files_ok (logger_step L ev)"
proof (cases "fl_started L")
  case True
  assume "files_ok L"
  with True have "\<forall>st. fl_files L st \<noteq> [] \<and> hd (fl_files L st) = log_header st" by (simp add: files_ok_def)
  with True show ?thesis
    by (cases ev) (auto simp: files_ok_def logger_defs Let_def split: list.split log_item.split prod.split)
next
  case False
  assume "files_ok L" "closing_ok L"
  with False show ?thesis by (cases ev) (auto simp: files_ok_def closing_ok_def logger_defs Let_def)
qed

lemma closing_step: "closing_ok L \<Longrightarrow> files_ok L \<Longrightarrow> closing_ok (logger_step L ev)"
proof (cases ev)
  case (Log_Write ok ff)
  assume "closing_ok L" "files_ok L"
  with Log_Write show ?thesis
    by (cases "fl_queue L") (auto simp: closing_ok_def logger_defs Let_def split: log_item.split)
next
  case (Log_End n)
  assume "closing_ok L" "files_ok L"
  with Log_End show ?thesis by (auto simp: closing_ok_def logger_defs Let_def split: prod.split)
qed (auto simp: closing_ok_def files_ok_def logger_defs Let_def)

lemma calling_remove:
  assumes "n < length (fl_callers L)" "fl_callers L ! n = (d, st, rec)"
  shows "calling L st' = calling (L\<lparr>fl_callers := remove_nth n (fl_callers L)\<rparr>) st' + (if st = st' then 1 else 0)"
  using filter_remove_nth [OF assms(1), of "\<lambda>(_, st'', _). st'' = st'"] assms(2) by (simp add: calling_def)

lemma record_end_balanced:
  assumes "balanced L"
  shows "balanced (record_end n L)"
proof (cases "n < length (fl_callers L)")
  case True
  obtain d st rec where c: "fl_callers L ! n = (d, st, rec)" by (cases "fl_callers L ! n")
  let ?L = "L\<lparr>fl_callers := remove_nth n (fl_callers L)\<rparr>"
  have b: "fl_admitted L st' = written L st' + fl_dropped L st' + fl_raised L st' + queued L st' + calling ?L st'
      + (if st = st' then 1 else 0)" for st'
    using assms calling_remove [OF True c, of st'] by (simp add: balanced_def)
  show ?thesis
  proof (cases "queue_room ?L")
    case room: True
    with True c b show ?thesis
      by (simp add: balanced_def record_end_def Let_def queued_def written_def calling_def)
  next
    case False
    with True c b show ?thesis
      by (simp add: balanced_def record_end_def Let_def queued_def written_def calling_def count_drop_def)
  qed
qed (use assms in \<open>simp add: record_end_def\<close>)

lemma writer_balanced:
  assumes "balanced L" "files_ok L"
  shows "balanced (writer_step ok ff L)"
proof (cases "fl_writer L \<and> fl_queue L \<noteq> []")
  case True
  then obtain it q where q: "fl_queue L = it # q" by (cases "fl_queue L") auto
  have ne: "fl_files L st \<noteq> []" for st using assms(2) True by (auto simp: files_ok_def)
  show ?thesis using assms(1) True q ne
    by (cases it) (auto simp: balanced_def writer_step_def queued_def written_def calling_def count_drop_def Let_def
        Suc_diff_le Suc_leI)
qed (use assms in \<open>auto simp: writer_step_def balanced_def queued_def written_def calling_def split: list.split\<close>)

lemma balanced_step: "balanced L \<Longrightarrow> files_ok L \<Longrightarrow> balanced (logger_step L ev)"
proof (cases ev)
  case (Log_End n)
  assume "balanced L"
  then show ?thesis using record_end_balanced Log_End by (simp add: logger_step_def)
next
  case (Log_Write ok ff)
  assume "balanced L" "files_ok L"
  then show ?thesis using writer_balanced Log_Write by (simp add: logger_step_def)
qed (auto simp: balanced_def files_ok_def logger_defs queued_def written_def calling_def Let_def split: if_splits)

interpretation logger_machine: invariant_machine logger_step logger_ok
  by unfold_locales (simp add: logger_ok_def balanced_step files_step closing_step)

lemma new_logger_ok: "logger_ok (new_logger n)"
  by (simp add: logger_ok_def balanced_def files_ok_def closing_ok_def new_logger_def written_def queued_def calling_def)

section \<open>The end of a session\<close>

text \<open>A logger whose closing began when no call was under way: from then on nothing comes behind the
  mark of the end.\<close>

definition quiet :: "flight_logger \<Rightarrow> bool" where
  "quiet L \<longleftrightarrow> fl_started L \<and> fl_closed L \<and> fl_callers L = [] \<and> (fl_closing L \<longrightarrow> Sentinel \<notin> set (fl_queue L) \<and> fl_writer L \<and> fl_open L) \<and>
     (if fl_writer L then Sentinel \<notin> set (butlast (fl_queue L)) else fl_queue L = [])"

text \<open>The events but for a turn of the writer whose flush fails.\<close>

definition flush_fine :: "logger_event \<Rightarrow> bool" where
  "flush_fine ev = (case ev of Log_Write _ flush_fails \<Rightarrow> \<not> flush_fails | _ \<Rightarrow> True)"

text \<open>Until the end is marked, a writer that was never hit by such a turn is running.\<close>

definition writing :: "flight_logger \<Rightarrow> bool" where
  "writing L \<longleftrightarrow> (fl_started L \<and> (fl_closing L \<or> \<not> fl_closed L) \<longrightarrow> fl_writer L)"

lemma writing_step: "writing L \<Longrightarrow> logger_ok L \<Longrightarrow> flush_fine ev \<Longrightarrow> writing (logger_step L ev)"
proof (cases ev)
  case (Log_Write ok ff)
  assume "writing L" "logger_ok L" "flush_fine ev"
  with Log_Write show ?thesis
    by (cases "fl_queue L") (auto simp: writing_def logger_ok_def closing_ok_def flush_fine_def logger_defs Let_def split: log_item.split)
next
  case (Log_End n)
  assume "writing L"
  with Log_End show ?thesis by (auto simp: writing_def logger_defs Let_def split: prod.split)
qed (auto simp: writing_def logger_ok_def closing_ok_def files_ok_def logger_defs Let_def)

lemma writing_run:
  "writing L \<Longrightarrow> logger_ok L \<Longrightarrow> list_all flush_fine evs \<Longrightarrow> writing (foldl logger_step L evs)"
  by (induction evs arbitrary: L) (simp_all add: writing_step logger_machine.inv_step)

lemma quiet_step:
  assumes q: "quiet L" and fine: "flush_fine ev"
  shows "quiet (logger_step L ev)"
proof (cases ev)
  case (Log_Write ok ff)
  with q fine show ?thesis
    by (cases "fl_queue L") (auto simp: quiet_def flush_fine_def logger_defs Let_def split: log_item.split if_splits)
next
  case Close_Sentinel
  with q show ?thesis by (auto simp: quiet_def logger_defs Let_def butlast_append dest: in_set_butlastD)
qed (use q in \<open>auto simp: quiet_def logger_defs split: if_splits\<close>)

lemma quiet_run: "quiet L \<Longrightarrow> list_all flush_fine evs \<Longrightarrow> quiet (foldl logger_step L evs)"
  by (induction evs arbitrary: L) (simp_all add: quiet_step)

lemma close_quiet:
  assumes "logger_ok L" "writing L" "fl_started L" "\<not> fl_closed L" "fl_callers L = []"
  shows "quiet (logger_step L Close_Begin)"
  using assms by (auto simp: quiet_def logger_ok_def closing_ok_def writing_def logger_defs dest: in_set_butlastD)

section \<open>Reading a session\<close>

text \<open>
  \<open>loads\<close> and \<open>dumps\<close> are \<^verbatim>\<open>json.loads\<close>, with \<open>None\<close> for text that is no JSON, and \<^verbatim>\<open>json.dumps\<close>.  A carriage
  return that ends a line as well would only add blank lines, which are skipped.
\<close>

datatype dataset_exn = Incompatible_Dataset | JSON_Decode | Header_Raised py_exn

fun read_lines ::
  "(string \<Rightarrow> json option) \<Rightarrow> string list \<Rightarrow> json option \<Rightarrow> json list \<Rightarrow> bool \<Rightarrow> dataset_exn + json option \<times> json list" where
  \<comment> \<open>the flag: the last line that was not blank could not be read\<close>
  "read_lines loads [] header recs pending = Inr (header, recs)"
| "read_lines loads (raw # ls) header recs pending =
     (if py_strip raw = [] then read_lines loads ls header recs pending
      else if pending then Inl JSON_Decode
      else case loads (py_strip raw) of
        None \<Rightarrow> read_lines loads ls header recs True
      | Some obj \<Rightarrow>
          (case header of
             None \<Rightarrow> read_lines loads ls (Some obj) recs False
           | Some h \<Rightarrow> read_lines loads ls (Some h) (recs @ [obj]) False))"

text \<open>A boolean is an integer for \<^verbatim>\<open>isinstance\<close>, and a header that is no object has no \<^verbatim>\<open>get\<close>.\<close>

definition check_schema :: "json \<Rightarrow> dataset_exn + unit" where
  "check_schema header =
     (case header of
        JObj kvs \<Rightarrow>
          (case map_of kvs ''schema_version'' of
             Some (JInt v) \<Rightarrow> if is_dataset_compatible v then Inr () else Inl Incompatible_Dataset
           | Some (JBool b) \<Rightarrow> if is_dataset_compatible (if b then 1 else 0) then Inr () else Inl Incompatible_Dataset
           | _ \<Rightarrow> Inl Incompatible_Dataset)
      | _ \<Rightarrow> Inl (Header_Raised AttributeError))"

definition read_jsonl :: "(string \<Rightarrow> json option) \<Rightarrow> string \<Rightarrow> dataset_exn + json \<times> json list" where
  "read_jsonl loads content =
     (case read_lines loads (py_split CHR ''\<newline>'' content) None [] False of
        Inl e \<Rightarrow> Inl e
      | Inr (None, _) \<Rightarrow> Inl Incompatible_Dataset
      | Inr (Some header, recs) \<Rightarrow> then_ok (check_schema header) (\<lambda>_. Inr (header, recs)))"

text \<open>A file as the writer leaves it: one line for each value.\<close>

definition file_text :: "(json \<Rightarrow> string) \<Rightarrow> json list \<Rightarrow> string" where
  "file_text dumps vs = concat (map (\<lambda>v. dumps v @ ''\<newline>'') vs)"

text \<open>
  What is documented of the text of an object: it is one line without blanks around it, it is read
  back, and a proper part from its start is not JSON.
\<close>

definition json_line :: "(string \<Rightarrow> json option) \<Rightarrow> (json \<Rightarrow> string) \<Rightarrow> json \<Rightarrow> bool" where
  "json_line loads dumps v \<longleftrightarrow>
     CHR ''\<newline>'' \<notin> set (dumps v) \<and> py_strip (dumps v) = dumps v \<and> dumps v \<noteq> [] \<and> loads (dumps v) = Some v \<and>
     (\<forall>m < length (dumps v). py_strip (take m (dumps v)) = [] \<or> loads (py_strip (take m (dumps v))) = None)"

lemma split_line: "CHR ''\<newline>'' \<notin> set x \<Longrightarrow> py_split CHR ''\<newline>'' (x @ ''\<newline>'' @ rest) = x # py_split CHR ''\<newline>'' rest"
  using py_split_join [of "CHR ''\<newline>''" x rest] by simp

lemma read_records:
  assumes "list_all (json_line loads dumps) vs"
  shows "read_lines loads (py_split CHR ''\<newline>'' (file_text dumps vs @ p)) (Some h) recs False =
    read_lines loads (py_split CHR ''\<newline>'' p) (Some h) (recs @ vs) False"
  using assms
proof (induction vs arbitrary: recs)
  case (Cons v vs)
  then have v: "json_line loads dumps v" by simp
  have "file_text dumps (v # vs) @ p = dumps v @ ''\<newline>'' @ (file_text dumps vs @ p)" by (simp add: file_text_def)
  moreover have "CHR ''\<newline>'' \<notin> set (dumps v)" using v by (simp add: json_line_def)
  ultimately show ?case using Cons v split_line by (simp add: json_line_def)
qed (simp add: file_text_def)

text \<open>The tail of a file that was cut: nothing, a whole text without its end of line, or a part of one.\<close>

lemma read_tail:
  assumes "json_line loads dumps v"
  shows "read_lines loads (py_split CHR ''\<newline>'' (take m (dumps v))) (Some h) recs False =
    Inr (Some h, recs @ (if m < length (dumps v) then [] else [v]))"
proof -
  have "CHR ''\<newline>'' \<notin> set (take m (dumps v))" using assms by (auto simp: json_line_def dest: in_set_takeD)
  then have one: "py_split CHR ''\<newline>'' (take m (dumps v)) = [take m (dumps v)]" by (rule py_split_whole)
  show ?thesis
  proof (cases "m < length (dumps v)")
    case True
    with assms have "py_strip (take m (dumps v)) = [] \<or> loads (py_strip (take m (dumps v))) = None"
      by (simp add: json_line_def)
    with one True show ?thesis by auto
  next
    case False
    with assms one show ?thesis by (simp add: json_line_def)
  qed
qed

lemma cut_lines:
  "n \<le> length (file_text dumps vs) \<Longrightarrow>
   take n (file_text dumps vs) = file_text dumps vs \<and> n = length (file_text dumps vs) \<or>
   (\<exists>k m. k < length vs \<and> m \<le> length (dumps (vs ! k)) \<and>
     n = length (file_text dumps (take k vs)) + m \<and>
     take n (file_text dumps vs) = file_text dumps (take k vs) @ take m (dumps (vs ! k)))"
proof (induction vs arbitrary: n)
  case Nil
  then show ?case by (simp add: file_text_def)
next
  case (Cons v vs)
  let ?l = "length (dumps v)"
  have split: "file_text dumps (v # ws) = dumps v @ ''\<newline>'' @ file_text dumps ws" for ws by (simp add: file_text_def)
  show ?case
  proof (cases "n \<le> ?l")
    case True
    then have "take n (file_text dumps (v # vs)) = file_text dumps (take 0 (v # vs)) @ take n (dumps ((v # vs) ! 0))"
      by (simp add: split) (simp add: file_text_def)
    moreover have "n = length (file_text dumps (take 0 (v # vs))) + n" by (simp add: file_text_def)
    ultimately show ?thesis using True by (intro disjI2 exI [of _ 0] exI [of _ n]) simp
  next
    case False
    then obtain j where n: "n = Suc ?l + j" by (metis Suc_leI add_Suc_right le_add_diff_inverse linorder_not_le add_Suc)
    then have "j \<le> length (file_text dumps vs)" using Cons.prems by (simp add: split)
    from Cons.IH [OF this] show ?thesis
    proof (elim disjE exE conjE)
      fix k m
      assume h: "k < length vs" "m \<le> length (dumps (vs ! k))" "j = length (file_text dumps (take k vs)) + m"
        "take j (file_text dumps vs) = file_text dumps (take k vs) @ take m (dumps (vs ! k))"
      have "take n (file_text dumps (v # vs)) = file_text dumps (take (Suc k) (v # vs)) @ take m (dumps ((v # vs) ! Suc k))"
        using h(4) by (simp add: split n)
      with h n show ?thesis by (intro disjI2 exI [of _ "Suc k"] exI [of _ m]) (simp add: split)
    qed (simp add: split n)
  qed
qed

end
