(* ===== verification/Flight_Facts.thy ===== *)
theory Flight_Facts
  imports Flight_Log
begin

text \<open>The properties of the flight logger and of its reader, each with a concrete instance.\<close>

section \<open>The logger\<close>

text \<open>C22: In whatever order the calls, the writer and the closing interleave, every record that was let
  in is written, counted as dropped, refused with an exception, in the queue, or still in its call; and each stream's
  file starts with its header.  A record can end in the queue for good: behind the mark of the end, as
  \<open>close_can_lose_event\<close> shows, or when a flush fails, as \<open>flush_failure_strands\<close> does; the account
  then still shows it as queued, but the manifest does not.\<close>

theorem logger_accounts:
  "let L = foldl logger_step (new_logger n) evs in
     fl_admitted L st = written L st + fl_dropped L st + fl_raised L st + queued L st + calling L st \<and>
     (if fl_started L then \<exists>recs. fl_files L st = log_header st # recs \<and> written L st = length recs
      else fl_files L st = [])"
proof -
  let ?L = "foldl logger_step (new_logger n) evs"
  have ok: "logger_ok ?L" by (rule logger_machine.inv_run) (rule new_logger_ok)
  have "\<exists>recs. fl_files ?L st = log_header st # recs \<and> written ?L st = length recs" if "fl_started ?L"
    using ok that by (cases "fl_files ?L st") (auto simp: logger_ok_def files_ok_def written_def dest!: spec [of _ st])
  moreover have "fl_files ?L st = []" if "\<not> fl_started ?L"
    using ok that by (auto simp: logger_ok_def files_ok_def)
  ultimately show ?thesis using ok by (simp add: Let_def logger_ok_def balanced_def)
qed

text \<open>C32: When no flush fails and no call is under way as the closing begins, the writer does not end before
  the queue is empty: then every record that was let in is in its file, counted, or was refused.\<close>

theorem close_drains:
  assumes "fl_started (foldl logger_step (new_logger n) evs)" "\<not> fl_closed (foldl logger_step (new_logger n) evs)"
    and "fl_callers (foldl logger_step (new_logger n) evs) = []"
    and "list_all flush_fine (evs @ later)"
    and "\<not> fl_writer (foldl logger_step (new_logger n) (evs @ [Close_Begin] @ later))"
  shows "let L = foldl logger_step (new_logger n) (evs @ [Close_Begin] @ later) in
    fl_queue L = [] \<and> fl_callers L = [] \<and> fl_admitted L st = written L st + fl_dropped L st + fl_raised L st"
proof -
  let ?M = "foldl logger_step (new_logger n) evs"
  let ?L = "foldl logger_step (new_logger n) (evs @ [Close_Begin] @ later)"
  have ok: "logger_ok ?M" "logger_ok ?L" by (rule logger_machine.inv_run, rule new_logger_ok)+
  have L: "?L = foldl logger_step (logger_step ?M Close_Begin) later" by simp
  have "writing (new_logger n)" by (simp add: writing_def new_logger_def)
  then have "writing ?M" using assms(4) new_logger_ok by (intro writing_run) simp_all
  from close_quiet [OF ok(1) this assms(1-3)] have "quiet ?L" unfolding L
    by (rule quiet_run) (use assms(4) in simp)
  with assms(5) ok(2) show ?thesis
    by (simp add: quiet_def Let_def logger_ok_def balanced_def queued_def calling_def del: foldl_append)
qed

definition demo_rec :: json where "demo_rec = rc_record (Fin 1) [1500]"

theorem close_drains_witness:
  "let L = foldl logger_step (new_logger 1) [Log_Start True, Log_Begin False Rc_Log demo_rec, Log_End 0,
      Log_Begin False Rc_Log demo_rec, Log_End 0, Close_Begin, Log_Write True False, Close_Sentinel, Log_Write True False] in
    fl_queue L = [] \<and> written L Rc_Log = 1 \<and> fl_dropped L Rc_Log = 1 \<and> fl_admitted L Rc_Log = 2"
proof -
  let ?a = "[Log_Start True, Log_Begin False Rc_Log demo_rec, Log_End 0, Log_Begin False Rc_Log demo_rec, Log_End 0]"
  let ?b = "[Log_Write True False, Close_Sentinel, Log_Write True False]"
  have "fl_started (foldl logger_step (new_logger 1) ?a)" "\<not> fl_closed (foldl logger_step (new_logger 1) ?a)"
    "fl_callers (foldl logger_step (new_logger 1) ?a) = []"
    "list_all flush_fine (?a @ ?b)" "\<not> fl_writer (foldl logger_step (new_logger 1) (?a @ [Close_Begin] @ ?b))"
    by code_simp+
  from close_drains [OF this, of Rc_Log]
  have "fl_queue (foldl logger_step (new_logger 1) (?a @ [Close_Begin] @ ?b)) = []" by (simp add: Let_def del: foldl_append)
  moreover have "written (foldl logger_step (new_logger 1) (?a @ [Close_Begin] @ ?b)) Rc_Log = 1 \<and>
    fl_dropped (foldl logger_step (new_logger 1) (?a @ [Close_Begin] @ ?b)) Rc_Log = 1 \<and>
    fl_admitted (foldl logger_step (new_logger 1) (?a @ [Close_Begin] @ ?b)) Rc_Log = 2"
    by code_simp
  ultimately show ?thesis by (simp add: Let_def)
qed

text \<open>With a call under way it can be otherwise: an event comes behind the mark of the end, its caller is
  told nothing, and it is in no file and no count.\<close>

lemma close_can_lose_event:
  "let L = foldl logger_step (new_logger 4) [Log_Start True, Log_Begin True Event_Log demo_rec, Close_Begin,
      Close_Sentinel, Log_End 0, Log_Write True False, Close_End] in
    \<not> fl_writer L \<and> fl_admitted L Event_Log = 1 \<and> written L Event_Log = 0 \<and> fl_dropped L Event_Log = 0 \<and>
    fl_raised L Event_Log = 0 \<and> fl_callers L = []"
  by code_simp

text \<open>A flush that fails ends the writer: what waits then is in no file and no count, and so is what comes later
  until the session is closed, although no call is told and the closing finds nothing wrong.\<close>

lemma flush_failure_strands:
  "let L = foldl logger_step (new_logger 4) [Log_Start True, Log_Begin False Rc_Log demo_rec, Log_End 0,
      Log_Begin True Event_Log demo_rec, Log_End 0, Log_Write True True, Close_Begin, Close_Sentinel, Close_End] in
    \<not> fl_writer L \<and> fl_admitted L Event_Log = 1 \<and> written L Event_Log = 0 \<and> fl_dropped L Event_Log = 0 \<and>
    fl_raised L Event_Log = 0 \<and> queued L Event_Log = 1"
  by code_simp

section \<open>The reader\<close>

lemma file_text_simps [simp]:
  "file_text dumps [] = []" "file_text dumps (v # vs) = dumps v @ ''\<newline>'' @ file_text dumps vs"
  "file_text dumps (vs @ ws) = file_text dumps vs @ file_text dumps ws"
  by (simp_all add: file_text_def)

lemma header_compatible: "check_schema (log_header st) = Inr ()"
  by (simp add: check_schema_def log_header_def is_dataset_compatible_def MIN_COMPATIBLE_DATASET_def DATASET_SCHEMA_def)

lemma read_header:
  assumes "json_line loads dumps h"
  shows "read_lines loads (py_split CHR ''\<newline>'' (dumps h @ ''\<newline>'' @ rest)) None [] False =
    read_lines loads (py_split CHR ''\<newline>'' rest) (Some h) [] False"
    "read_lines loads (py_split CHR ''\<newline>'' (dumps h)) None [] False = Inr (Some h, [])"
proof -
  have "CHR ''\<newline>'' \<notin> set (dumps h)" using assms by (simp add: json_line_def)
  with assms show "read_lines loads (py_split CHR ''\<newline>'' (dumps h @ ''\<newline>'' @ rest)) None [] False =
    read_lines loads (py_split CHR ''\<newline>'' rest) (Some h) [] False"
    "read_lines loads (py_split CHR ''\<newline>'' (dumps h)) None [] False = Inr (Some h, [])"
    using split_line [of "dumps h" rest] py_split_whole [of "CHR ''\<newline>''" "dumps h"] by (simp_all add: json_line_def)
qed

text \<open>The header, whole records and a part of the next.\<close>

lemma read_session:
  assumes "json_line loads dumps (log_header st)" "list_all (json_line loads dumps) vs" "json_line loads dumps v"
  shows "read_jsonl loads (file_text dumps (log_header st # vs) @ take m (dumps v)) =
    Inr (log_header st, vs @ (if m < length (dumps v) then [] else [v]))"
  using read_header(1) [OF assms(1), of "file_text dumps vs @ take m (dumps v)"]
    read_records [OF assms(2), of "take m (dumps v)" "log_header st" "[]"] read_tail [OF assms(3), of m "log_header st" vs]
  by (simp add: read_jsonl_def header_compatible)

lemma read_whole_session:
  assumes "json_line loads dumps (log_header st)" "list_all (json_line loads dumps) vs"
  shows "read_jsonl loads (file_text dumps (log_header st # vs)) = Inr (log_header st, vs)"
proof -
  have "py_strip [] = []" by (simp add: py_strip_def)
  then show ?thesis
    using read_header(1) [OF assms(1), of "file_text dumps vs"] read_records [OF assms(2), of "[]" "log_header st" "[]"]
    by (simp add: read_jsonl_def header_compatible)
qed

lemma file_text_take_Suc:
  "j < length vs \<Longrightarrow> length (file_text dumps (take (Suc j) vs)) =
     Suc (length (file_text dumps (take j vs)) + length (dumps (vs ! j)))"
  by (simp add: take_Suc_conv_app_nth)

text \<open>Cut right behind the header, inside a record, and anywhere.\<close>

lemma torn_header:
  assumes "json_line loads dumps (log_header st)"
  shows "read_jsonl loads (take (length (dumps (log_header st))) (dumps (log_header st))) = Inr (log_header st, [])"
  using read_header(2) [OF assms] by (simp add: read_jsonl_def header_compatible)

lemma torn_record:
  assumes "json_line loads dumps (log_header st)" "list_all (json_line loads dumps) recs" "j < length recs"
    and "m \<le> length (dumps (recs ! j))"
  shows "\<exists>k \<le> length recs.
    read_jsonl loads (file_text dumps (log_header st # take j recs) @ take m (dumps (recs ! j))) =
      Inr (log_header st, take k recs) \<and>
    length (file_text dumps (log_header st # take k recs)) \<le> length (file_text dumps (log_header st # take j recs)) + m + 1 \<and>
    (k = length recs \<or> length (file_text dumps (log_header st # take j recs)) + m + 1 <
       length (file_text dumps (log_header st # take (Suc k) recs)))"
proof -
  have line: "json_line loads dumps (recs ! j)" using assms(2,3) by (simp add: list_all_length)
  have pre: "list_all (json_line loads dumps) (take j recs)" using assms(2) by (auto simp: list_all_iff dest: in_set_takeD)
  note rd = read_session [OF assms(1) pre line, of m]
  show ?thesis
  proof (cases "m < length (dumps (recs ! j))")
    case True
    then show ?thesis
      using rd file_text_take_Suc [OF assms(3), of dumps] assms(3) by (intro exI [of _ j]) simp
  next
    case False
    with assms(4) have m: "m = length (dumps (recs ! j))" by simp
    have "read_jsonl loads (file_text dumps (log_header st # take j recs) @ take m (dumps (recs ! j))) =
        Inr (log_header st, take (Suc j) recs)"
      using rd False by (simp only: if_False take_Suc_conv_app_nth [OF assms(3)])
    moreover have "Suc j = length recs \<or> length (file_text dumps (log_header st # take j recs)) + m + 1 <
        length (file_text dumps (log_header st # take (Suc (Suc j)) recs))"
      using m assms(3) file_text_take_Suc [OF assms(3), of dumps] file_text_take_Suc [of "Suc j" recs dumps] by fastforce
    ultimately show ?thesis
      using m assms(3) file_text_take_Suc [OF assms(3), of dumps] by (intro exI [of _ "Suc j"]) simp
  qed
qed

lemma torn_session:
  assumes "json_line loads dumps (log_header st)" "list_all (json_line loads dumps) recs"
    and "length (dumps (log_header st)) \<le> n" "n \<le> length (file_text dumps (log_header st # recs))"
  shows "\<exists>k \<le> length recs. read_jsonl loads (take n (file_text dumps (log_header st # recs))) =
      Inr (log_header st, take k recs) \<and>
    length (file_text dumps (log_header st # take k recs)) \<le> n + 1 \<and>
    (k = length recs \<or> n + 1 < length (file_text dumps (log_header st # take (Suc k) recs)))"
proof -
  let ?h = "log_header st"
  from cut_lines [OF assms(4)] consider (whole) "take n (file_text dumps (?h # recs)) = file_text dumps (?h # recs)"
      "n = length (file_text dumps (?h # recs))"
    | (torn) k m where "k < length (?h # recs)" "m \<le> length (dumps ((?h # recs) ! k))"
        "n = length (file_text dumps (take k (?h # recs))) + m"
        "take n (file_text dumps (?h # recs)) = file_text dumps (take k (?h # recs)) @ take m (dumps ((?h # recs) ! k))"
    by blast
  then show ?thesis
  proof cases
    case whole
    then show ?thesis using read_whole_session [OF assms(1,2)] by (intro exI [of _ "length recs"]) simp
  next
    case torn
    show ?thesis
    proof (cases k)
      case 0
      with torn assms(3) have m: "m = length (dumps ?h)" "n = length (dumps ?h)" by simp_all
      then have "read_jsonl loads (take n (file_text dumps (?h # recs))) = Inr (?h, [])"
        using torn(4) 0 torn_header [OF assms(1)] by (simp del: file_text_simps(2))
      moreover have "recs = [] \<or> n + 1 < length (file_text dumps (?h # take (Suc 0) recs))"
        using m by (cases recs) simp_all
      ultimately show ?thesis using m by (intro exI [of _ 0]) simp
    next
      case (Suc j)
      with torn torn_record [OF assms(1,2), of j m] show ?thesis by simp
    qed
  qed
qed

text \<open>A session file that was cut off anywhere after its header is read: the header and the records of
  the lines that are complete, where the last one may lack its end of line.  Nothing but the torn
  last line is lost.\<close>

theorem torn_file_recovers:
  assumes "json_line loads dumps (log_header st)" "list_all (json_line loads dumps) recs"
    and "length (dumps (log_header st)) \<le> n" "n \<le> length (file_text dumps (log_header st # recs))"
  shows "\<exists>k \<le> length recs. read_jsonl loads (take n (file_text dumps (log_header st # recs))) =
      Inr (log_header st, take k recs) \<and>
    length (file_text dumps (log_header st # take k recs)) \<le> n + 1 \<and>
    (k = length recs \<or> n + 1 < length (file_text dumps (log_header st # take (Suc k) recs)))"
  by (rule torn_session [OF assms])

definition demo_dumps :: "json \<Rightarrow> string" where
  "demo_dumps v = (if v = demo_rec then ''[R]'' else ''[H]'')"

definition demo_loads :: "string \<Rightarrow> json option" where
  "demo_loads s = (if s = ''[R]'' then Some demo_rec else if s = ''[H]'' then Some (log_header Rc_Log) else None)"

lemma demo_line: "json_line demo_loads demo_dumps (log_header Rc_Log)" "json_line demo_loads demo_dumps demo_rec"
  unfolding json_line_def by code_simp+

theorem torn_file_recovers_witness:
  "read_jsonl demo_loads (take 10 (file_text demo_dumps [log_header Rc_Log, demo_rec, demo_rec])) =
     Inr (log_header Rc_Log, [demo_rec])"
proof -
  let ?T = "\<lambda>k. file_text demo_dumps (log_header Rc_Log # take k [demo_rec, demo_rec])"
  have "list_all (json_line demo_loads demo_dumps) [demo_rec, demo_rec]" by (simp add: demo_line)
  note r = torn_file_recovers [OF demo_line(1) this, of 10]
  have "length (demo_dumps (log_header Rc_Log)) \<le> 10" "10 \<le> length (file_text demo_dumps [log_header Rc_Log, demo_rec, demo_rec])"
    by code_simp+
  from r [OF this] obtain k where k: "k \<le> length [demo_rec, demo_rec]"
    "read_jsonl demo_loads (take 10 (file_text demo_dumps [log_header Rc_Log, demo_rec, demo_rec])) =
      Inr (log_header Rc_Log, take k [demo_rec, demo_rec])"
    "length (?T k) \<le> 10 + 1" "k = length [demo_rec, demo_rec] \<or> 10 + 1 < length (?T (Suc k))" by blast
  have len: "length (?T 0) = 4" "length (?T 1) = 8" "length (?T 2) = 12" by code_simp+
  have "k = 0 \<or> k = 1 \<or> k = 2" using k(1) by auto
  then have "k = 1" using k(3,4) len by (elim disjE) simp_all
  with k(2) show ?thesis by simp
qed

end
