(* ===== verification/Flight_Sources.thy ===== *)
theory Flight_Sources
  imports Transport_Core Frame_Codecs Crsf_Link Crsf_Telemetry Net_Auth
begin

text \<open>
  The receive-only sources of aircraft positions: the reader thread they share
  (\<^verbatim>\<open>meshsa/transports/polling_source.py\<close>) and the three polls (\<^verbatim>\<open>mavlink_source.py\<close>, \<^verbatim>\<open>msp_source.py\<close>,
  \<^verbatim>\<open>crsf_source.py\<close>).  The reader and the event loop are two threads: what the reader hands over waits
  in the loop's queue until the loop comes to it, so each is a step of its own.  \<open>dumps\<close> is \<^verbatim>\<open>json.dumps\<close>.
\<close>

section \<open>Polls\<close>

datatype poll_exn = Poll_Raised py_exn | Poll_Division_By_Zero

type_synonym fix_point = "pyfloat \<times> pyfloat \<times> pyfloat"

text \<open>
  A poll yields the fixes it built frames for, in order, and whether it raised after them: then the
  frames are lost, but their sequence numbers are used.
\<close>

type_synonym poll_result = "fix_point list \<times> poll_exn option"

text \<open>The attributes of a MAVLink message, absent where the message has no such field.\<close>

record mav_position =
  mv_lat :: "real option"
  mv_lon :: "real option"
  mv_alt :: "real option"

definition mavlink_poll :: "real \<Rightarrow> real \<Rightarrow> py_exn + mav_position option \<Rightarrow> poll_result" where
  "mavlink_poll coord_scale alt_scale answer =
     (case answer of
        Inl e \<Rightarrow> ([], Some (Poll_Raised e))
      | Inr None \<Rightarrow> ([], None)
      | Inr (Some m) \<Rightarrow>
          (case (mv_lat m, mv_lon m, mv_alt m) of
             (Some lat, Some lon, Some alt) \<Rightarrow>
               if coord_scale = 0 then ([], Some Poll_Division_By_Zero)
               else ([(Fin (lat / coord_scale), Fin (lon / coord_scale), Fin (alt * alt_scale))], None)
           | _ \<Rightarrow> ([], None)))"

text \<open>The dictionary of a fix of the flight controller.\<close>

definition msp_poll :: "real \<Rightarrow> real \<Rightarrow> py_exn + (string \<times> real) list option \<Rightarrow> poll_result" where
  "msp_poll coord_scale alt_scale answer =
     (case answer of
        Inl e \<Rightarrow> ([], Some (Poll_Raised e))
      | Inr None \<Rightarrow> ([], None)
      | Inr (Some gps) \<Rightarrow>
          (case map_of gps ''lat'' of
             None \<Rightarrow> ([], Some (Poll_Raised KeyError))
           | Some lat \<Rightarrow>
               if coord_scale = 0 then ([], Some Poll_Division_By_Zero)
               else
                 case map_of gps ''lon'' of
                   None \<Rightarrow> ([], Some (Poll_Raised KeyError))
                 | Some lon \<Rightarrow>
                     let alt = (case map_of gps ''alt'' of None \<Rightarrow> 0 | Some a \<Rightarrow> a)
                     in ([(Fin (lat / coord_scale), Fin (lon / coord_scale), Fin (alt * alt_scale))], None)))"

text \<open>The loop over the frames of one CRSF poll: a frame that does not parse is dropped.\<close>

fun crsf_fixes ::
  "parser_settings \<Rightarrow> crsf_frame list \<Rightarrow> unknown_counts \<Rightarrow> fix_point list \<Rightarrow> poll_result \<times> unknown_counts"
where
  "crsf_fixes S [] counts out = ((out, None), counts)"
| "crsf_fixes S (f # fs) counts out =
     (case parse_telemetry S f counts of
        (Inl TelemetryParseError, counts1) \<Rightarrow> crsf_fixes S fs counts1 out
      | (Inl ZeroDivisionError, counts1) \<Rightarrow> ((out, Some Poll_Division_By_Zero), counts1)
      | (Inr (Some (GpsSensor g)), counts1) \<Rightarrow>
          crsf_fixes S fs counts1
            (out @ [(Fin (lat_deg g), Fin (lon_deg g), Fin (real_of_int (altitude_m g)))])
      | (Inr _, counts1) \<Rightarrow> crsf_fixes S fs counts1 out)"

definition crsf_poll ::
  "crsf_link_settings \<Rightarrow> parser_settings \<Rightarrow> py_exn + bytes \<Rightarrow> crsf_link \<times> unknown_counts \<Rightarrow>
     poll_result \<times> crsf_link \<times> unknown_counts" where
  "crsf_poll LS S answer r =
     (case r of (L, counts) \<Rightarrow>
        case answer of
          Inl e \<Rightarrow> (([], Some (Poll_Raised e)), L, counts)
        | Inr chunk \<Rightarrow>
            (case poll_inbound LS chunk L of
               (Inl e, L1) \<Rightarrow> (([], Some (Poll_Raised e)), L1, counts)
             | (Inr frames, L1) \<Rightarrow>
                 (case crsf_fixes S frames counts [] of (res, counts1) \<Rightarrow> (res, L1, counts1))))"

section \<open>The endpoint of the MAVLink source\<close>

definition endpoint_schemes :: "string list" where
  "endpoint_schemes = [''udpin:'', ''udpout:'', ''tcpin:'', ''tcpout:'', ''udp:'', ''tcp:'']"

fun strip_first_prefix :: "string list \<Rightarrow> string \<Rightarrow> string" where
  "strip_first_prefix [] s = s"
| "strip_first_prefix (p # ps) s = (if prefix p s then drop (length p) s else strip_first_prefix ps s)"

definition extract_endpoint_host :: "string \<Rightarrow> string option" where
  "extract_endpoint_host endpoint =
     (if endpoint = [] then None
      else
        let spec = strip_first_prefix endpoint_schemes endpoint
        in case py_partition CHR '':'' spec of
             (host, found, port) \<Rightarrow> if found \<and> host \<noteq> [] then Some host else None)"

definition mavlink_endpoint_check :: "string \<Rightarrow> string option \<Rightarrow> py_exn + unit" where
  "mavlink_endpoint_check endpoint token =
     (case extract_endpoint_host endpoint of
        None \<Rightarrow> Inr ()
      | Some host \<Rightarrow> validate_bind host token)"

section \<open>The reader\<close>

text \<open>
  Where a reader thread is: at the head of its loop, in a poll, in the numbering of a fix (before the number
  is read, before it is written, before the frame is built from it), before the rest of the frames is handed
  over, in the hand-over of one (the count of frames was read), waiting, or at its end.  It keeps the frames
  that it has built, the fixes that are left and whether the poll raises behind them.
\<close>

datatype reader_phase =
    Checking
  | Polling
  | Numbering "json list" "fix_point list" "poll_exn option"
  | Number_Read nat "json list" fix_point "fix_point list" "poll_exn option"
  | Number_Written "json list" fix_point "fix_point list" "poll_exn option"
  | Handing bool "json list"
  | Count_Read nat bool json "json list"
  | Pausing
  | Ended

record source_config =
  sc_uid :: string
  sc_callsign :: string
  sc_poll_wait_s :: real
  sc_log_every_n :: int
  sc_log_interval_s :: real

record source =
  so_readers :: "reader_phase list"
  so_stop :: bool
  so_seq :: nat
  so_rx :: nat
  so_readings :: nat
  so_last_log :: "real option"
  so_lines :: "(nat \<times> nat \<times> string) list"
  so_warnings :: nat
  so_scheduled :: "bytes list"
  so_inbox :: inbox
  so_taken :: "bytes list"
  so_frames :: "json list"

text \<open>
  \<open>so_readings\<close> is how often the clock was read, whose readings are \<open>clock 0\<close>, \<open>clock 1\<close> and so on;
  \<open>so_lines\<close> and \<open>so_warnings\<close> are the log; \<open>so_taken\<close>, what the node took
  from the inbox, and \<open>so_frames\<close>, the frames handed over, are for the account only.
\<close>

definition new_source :: "source_config \<Rightarrow> int \<Rightarrow> py_exn + source" where
  "new_source C maxsize =
     (if sc_log_every_n C < 1 then Inl ValueError
      else if sc_log_interval_s C \<le> 0 then Inl ValueError
      else Inr \<lparr>so_readers = [], so_stop = False, so_seq = 0, so_rx = 0, so_readings = 0, so_last_log = None,
                so_lines = [], so_warnings = 0, so_scheduled = [],
                so_inbox = \<lparr>ib_maxsize = maxsize, ib_items = [], ib_dropped = 0\<rparr>, so_taken = [], so_frames = []\<rparr>)"

definition source_config_of :: "string \<Rightarrow> string option \<Rightarrow> real \<Rightarrow> int \<Rightarrow> real \<Rightarrow> source_config" where
  "source_config_of uid callsign wait every interval =
     \<lparr>sc_uid = uid, sc_callsign = (case callsign of Some c \<Rightarrow> if c = [] then uid else c | None \<Rightarrow> uid),
      sc_poll_wait_s = wait, sc_log_every_n = every, sc_log_interval_s = interval\<rparr>"

definition frame_id :: "source_config \<Rightarrow> nat \<Rightarrow> string" where
  "frame_id C n = sc_uid C @ '':'' @ str_nat n"

text \<open>The frame of a fix from the number as it is now; \<open>position_frame\<close> is the whole of it.\<close>

definition build_frame :: "source_config \<Rightarrow> (nat \<Rightarrow> real) \<Rightarrow> fix_point \<Rightarrow> source \<Rightarrow> json \<times> source" where
  "build_frame C clock p s =
     (case p of (lat, lon, hae) \<Rightarrow>
        (JObj [(''src'', JStr (sc_uid C)), (''callsign'', JStr (sc_callsign C)),
               (''msg_id'', JStr (frame_id C (so_seq s))), (''ts'', JFloat (Fin (clock (so_readings s)))),
               (''lat'', JFloat lat), (''lon'', JFloat lon), (''hae'', JFloat hae)],
         s\<lparr>so_readings := Suc (so_readings s)\<rparr>))"

definition position_frame :: "source_config \<Rightarrow> (nat \<Rightarrow> real) \<Rightarrow> fix_point \<Rightarrow> source \<Rightarrow> json \<times> source" where
  "position_frame C clock p s = build_frame C clock p (s\<lparr>so_seq := Suc (so_seq s)\<rparr>)"

definition interval_elapsed :: "source_config \<Rightarrow> (nat \<Rightarrow> real) \<Rightarrow> source \<Rightarrow> bool \<times> source" where
  "interval_elapsed C clock s =
     (let now = clock (so_readings s); s1 = s\<lparr>so_readings := Suc (so_readings s)\<rparr>
      in case so_last_log s1 of
           None \<Rightarrow> (False, s1\<lparr>so_last_log := Some now\<rparr>)
         | Some t \<Rightarrow> (sc_log_interval_s C \<le> now - t, s1))"

definition log_link :: "(nat \<Rightarrow> real) \<Rightarrow> string \<Rightarrow> source \<Rightarrow> source" where
  "log_link clock link s =
     s\<lparr>so_last_log := Some (clock (so_readings s)), so_readings := Suc (so_readings s),
       so_lines := so_lines s @ [(so_rx s, ib_dropped (so_inbox s), link)]\<rparr>"

text \<open>A frame is counted, from the count as it was read, scheduled on the loop and perhaps logged.\<close>

definition hand_over ::
  "source_config \<Rightarrow> (nat \<Rightarrow> real) \<Rightarrow> (json \<Rightarrow> string) \<Rightarrow> nat \<Rightarrow> json \<Rightarrow> source \<Rightarrow> source" where
  "hand_over C clock dumps n frame s =
     (let s1 = s\<lparr>so_rx := Suc n, so_scheduled := so_scheduled s @ [utf8_encode (dumps frame)],
                 so_frames := so_frames s @ [frame]\<rparr>
      in if int (so_rx s1) mod sc_log_every_n C = 0 then log_link clock ''up'' s1
         else case interval_elapsed C clock s1 of (due, s2) \<Rightarrow> if due then log_link clock ''up'' s2 else s2)"

text \<open>The next step of a reader; \<open>res\<close> is what its poll comes to, if it is in one.\<close>

fun reader_next ::
  "source_config \<Rightarrow> (nat \<Rightarrow> real) \<Rightarrow> (json \<Rightarrow> string) \<Rightarrow> poll_result \<Rightarrow> reader_phase \<Rightarrow> source \<Rightarrow> reader_phase \<times> source"
where
  "reader_next C clock dumps res Checking s = (if so_stop s then Ended else Polling, s)"
| "reader_next C clock dumps res Polling s = (Numbering [] (fst res) (snd res), s)"
| "reader_next C clock dumps res (Numbering out (p # ps) e) s = (Number_Read (so_seq s) out p ps e, s)"
| "reader_next C clock dumps res (Numbering out [] (Some _)) s =
     (Ended, s\<lparr>so_warnings := so_warnings s + (if so_stop s then 0 else 1)\<rparr>)"
| "reader_next C clock dumps res (Numbering out [] None) s = (Handing (out \<noteq> []) out, s)"
| "reader_next C clock dumps res (Number_Read n out p ps e) s = (Number_Written out p ps e, s\<lparr>so_seq := Suc n\<rparr>)"
| "reader_next C clock dumps res (Number_Written out p ps e) s =
     (case build_frame C clock p s of (frame, s1) \<Rightarrow> (Numbering (out @ [frame]) ps e, s1))"
| "reader_next C clock dumps res (Handing produced (f # fs)) s = (Count_Read (so_rx s) produced f fs, s)"
| "reader_next C clock dumps res (Count_Read n produced f fs) s = (Handing produced fs, hand_over C clock dumps n f s)"
| "reader_next C clock dumps res (Handing produced []) s =
     (if sc_poll_wait_s C \<noteq> 0 then Pausing else Checking,
      if produced then s
      else case interval_elapsed C clock s of (due, s1) \<Rightarrow> if due then log_link clock ''down'' s1 else s1)"
| "reader_next C clock dumps res Pausing s = (Checking, s)"
| "reader_next C clock dumps res Ended s = (Ended, s)"

text \<open>
  The steps of the threads and the calls.  A start makes a new reader and takes back the signal to stop,
  whatever the readers of earlier starts are doing: \<^verbatim>\<open>stop\<close> waits for its reader only until a timeout.
\<close>

datatype source_event =
    Src_Start
  | Src_Reader nat poll_result
  | Src_Loop
  | Src_Take
  | Src_Stop

definition source_step ::
  "source_config \<Rightarrow> (nat \<Rightarrow> real) \<Rightarrow> (json \<Rightarrow> string) \<Rightarrow> source \<Rightarrow> source_event \<Rightarrow> source" where
  "source_step C clock dumps s ev =
     (case ev of
        Src_Start \<Rightarrow> s\<lparr>so_stop := False, so_readers := so_readers s @ [Checking]\<rparr>
      | Src_Reader i res \<Rightarrow>
          if i < length (so_readers s)
          then case reader_next C clock dumps res (so_readers s ! i) s of
                 (phase, s1) \<Rightarrow> s1\<lparr>so_readers := (so_readers s)[i := phase]\<rparr>
          else s
      | Src_Loop \<Rightarrow>
          (case so_scheduled s of
             [] \<Rightarrow> s
           | x # xs \<Rightarrow> s\<lparr>so_scheduled := xs, so_inbox := ingest_nowait (so_inbox s) x\<rparr>)
      | Src_Take \<Rightarrow> (case inbox_take (so_inbox s) of None \<Rightarrow> s | Some (x, q) \<Rightarrow> s\<lparr>so_inbox := q, so_taken := so_taken s @ [x]\<rparr>)
      | Src_Stop \<Rightarrow> s\<lparr>so_stop := True\<rparr>)"

text \<open>A run in which every reader has ended before the next start, as when no wait of a stop times out.\<close>

fun joined ::
  "source_config \<Rightarrow> (nat \<Rightarrow> real) \<Rightarrow> (json \<Rightarrow> string) \<Rightarrow> source \<Rightarrow> source_event list \<Rightarrow> bool" where
  "joined C clock dumps s [] = True"
| "joined C clock dumps s (ev # evs) =
     ((ev = Src_Start \<longrightarrow> set (so_readers s) \<subseteq> {Ended}) \<and> joined C clock dumps (source_step C clock dumps s ev) evs)"

section \<open>The account of the frames\<close>

definition msg_id_of :: "json \<Rightarrow> json option" where
  "msg_id_of frame = (case frame of JObj kvs \<Rightarrow> map_of kvs ''msg_id'' | _ \<Rightarrow> None)"

text \<open>The frames carry numbers that were given out, in increasing order.\<close>

definition numbered :: "source_config \<Rightarrow> json list \<Rightarrow> nat \<Rightarrow> bool" where
  "numbered C frames m \<longleftrightarrow>
     (\<exists>ns. map msg_id_of frames = map (\<lambda>n. Some (JStr (frame_id C n))) ns \<and> sorted_wrt (<) ns \<and> (\<forall>n \<in> set ns. n \<le> m))"

text \<open>One reader at most is alive, and what it has built is numbered behind what was handed over.\<close>

fun built :: "reader_phase \<Rightarrow> json list" where
  "built (Numbering out _ _) = out"
| "built (Number_Read _ out _ _ _) = out"
| "built (Number_Written out _ _ _) = out"
| "built (Handing _ out) = out"
| "built (Count_Read _ _ f out) = f # out"
| "built _ = []"

fun phase_ok :: "source_config \<Rightarrow> json list \<Rightarrow> nat \<Rightarrow> nat \<Rightarrow> reader_phase \<Rightarrow> bool" where
  "phase_ok C frames seq rx (Number_Read n out p ps e) = (n = seq \<and> numbered C (frames @ out) seq)"
| "phase_ok C frames seq rx (Number_Written out p ps e) = (\<exists>m. seq = Suc m \<and> numbered C (frames @ out) m)"
| "phase_ok C frames seq rx (Count_Read n produced f out) = (n = rx \<and> numbered C (frames @ f # out) seq)"
| "phase_ok C frames seq rx phase = numbered C (frames @ built phase) seq"

definition readers_ok :: "source_config \<Rightarrow> source \<Rightarrow> bool" where
  "readers_ok C s \<longleftrightarrow>
     (\<forall>i < length (so_readers s). \<forall>j < length (so_readers s).
        so_readers s ! i \<noteq> Ended \<longrightarrow> so_readers s ! j \<noteq> Ended \<longrightarrow> i = j) \<and>
     (\<forall>phase \<in> set (so_readers s). phase_ok C (so_frames s) (so_seq s) (so_rx s) phase)"

definition frames_ok :: "source_config \<Rightarrow> (json \<Rightarrow> string) \<Rightarrow> source \<Rightarrow> bool" where
  "frames_ok C dumps s \<longleftrightarrow>
     numbered C (so_frames s) (so_seq s) \<and>
     so_rx s = length (so_frames s) \<and>
     subseq (so_taken s @ ib_items (so_inbox s) @ so_scheduled s) (map (\<lambda>f. utf8_encode (dumps f)) (so_frames s)) \<and>
     length (so_taken s @ ib_items (so_inbox s) @ so_scheduled s) + ib_dropped (so_inbox s) = so_rx s \<and>
     inbox_bounded (so_inbox s)"

definition source_ok :: "source_config \<Rightarrow> (json \<Rightarrow> string) \<Rightarrow> source \<Rightarrow> bool" where
  "source_ok C dumps s \<longleftrightarrow> frames_ok C dumps s \<and> readers_ok C s"

lemma build_frame_facts:
  assumes "build_frame C clock p s = (f, s')"
  shows "msg_id_of f = Some (JStr (frame_id C (so_seq s)))" "s' = s\<lparr>so_readings := Suc (so_readings s)\<rparr>"
  using assms by (auto simp: build_frame_def msg_id_of_def split: prod.splits)

lemma hand_over_facts:
  "so_frames (hand_over C clock dumps n f s) = so_frames s @ [f]" "so_rx (hand_over C clock dumps n f s) = Suc n"
  "so_scheduled (hand_over C clock dumps n f s) = so_scheduled s @ [utf8_encode (dumps f)]"
  "so_inbox (hand_over C clock dumps n f s) = so_inbox s" "so_taken (hand_over C clock dumps n f s) = so_taken s"
  "so_seq (hand_over C clock dumps n f s) = so_seq s" "so_readers (hand_over C clock dumps n f s) = so_readers s"
  by (simp_all add: hand_over_def log_link_def interval_elapsed_def Let_def split: option.split)

lemma numbered_more: "numbered C frames m \<Longrightarrow> m \<le> k \<Longrightarrow> numbered C frames k"
  by (fastforce simp: numbered_def)

lemma numbered_snoc:
  assumes "numbered C frames m" "msg_id_of f = Some (JStr (frame_id C (Suc m)))"
  shows "numbered C (frames @ [f]) (Suc m)"
proof -
  obtain ns where "map msg_id_of frames = map (\<lambda>n. Some (JStr (frame_id C n))) ns" "sorted_wrt (<) ns" "\<forall>n \<in> set ns. n \<le> m"
    using assms(1) by (auto simp: numbered_def)
  with assms(2) show ?thesis unfolding numbered_def
    by (intro exI [of _ "ns @ [Suc m]"]) (auto simp: sorted_wrt_append)
qed

lemma numbered_prefix: "numbered C (frames @ more_frames) m \<Longrightarrow> numbered C frames m"
proof -
  assume "numbered C (frames @ more_frames) m"
  then obtain ns where ns: "map msg_id_of (frames @ more_frames) = map (\<lambda>n. Some (JStr (frame_id C n))) ns"
    "sorted_wrt (<) ns" "\<forall>n \<in> set ns. n \<le> m" unfolding numbered_def by blast
  have "map msg_id_of frames = map (\<lambda>n. Some (JStr (frame_id C n))) (take (length frames) ns)"
    using arg_cong [OF ns(1), of "take (length frames)"] by (simp add: take_map)
  moreover have "sorted_wrt (<) (take (length frames) ns)" using ns(2) by (rule sorted_wrt_take)
  moreover have "\<forall>n \<in> set (take (length frames) ns). n \<le> m" using ns(3) by (meson in_set_takeD)
  ultimately show ?thesis unfolding numbered_def by blast
qed

text \<open>A step of the one reader that is alive keeps the account.\<close>

lemma reader_next_ok:
  assumes "frames_ok C dumps s" "phase_ok C (so_frames s) (so_seq s) (so_rx s) phase"
    and "reader_next C clock dumps res phase s = (phase', s')"
  shows "frames_ok C dumps s' \<and> phase_ok C (so_frames s') (so_seq s') (so_rx s') phase' \<and>
    so_readers s' = so_readers s"
proof -
  have sub: "subseq (xs @ ys @ zs @ ws) (us @ ws)" if "subseq (xs @ ys @ zs) us" for xs ys zs ws us :: "bytes list"
    using list_emb_append_mono [OF that, of ws ws] by simp
  from assms show ?thesis
  proof (induction C clock dumps res phase s rule: reader_next.induct)
    case (6 C clock dumps res n out p ps e s)
    then have n: "n = so_seq s" "numbered C (so_frames s @ out) (so_seq s)" by simp_all
    with 6 show ?case using numbered_more [of C "so_frames s" "so_seq s" "Suc (so_seq s)"] by (auto simp: frames_ok_def)
  next
    case (7 C clock dumps res out p ps e s)
    obtain frame s1 where b: "build_frame C clock p s = (frame, s1)" by fastforce
    obtain m where m: "so_seq s = Suc m" "numbered C (so_frames s @ out) m" using 7(2) by auto
    from numbered_snoc [OF m(2)] build_frame_facts [OF b] m(1)
    have "numbered C (so_frames s @ out @ [frame]) (so_seq s)" by simp
    with 7 b build_frame_facts(2) [OF b] show ?case by (auto simp: frames_ok_def)
  next
    case (9 C clock dumps res n produced f fs s)
    then have n: "n = so_rx s" "numbered C ((so_frames s @ [f]) @ fs) (so_seq s)" by simp_all
    with 9 numbered_prefix [OF n(2)] sub [of "so_taken s" "ib_items (so_inbox s)" "so_scheduled s" _ "[utf8_encode (dumps f)]"]
    show ?case by (auto simp: frames_ok_def hand_over_facts)
  next
    case (10 C clock dumps res produced s)
    then show ?case
      by (auto simp: frames_ok_def log_link_def interval_elapsed_def Let_def split: if_splits option.splits)
  qed (auto simp: frames_ok_def split: if_splits)
qed

lemma subseq_drop_middle: "subseq (xs @ y # ys) zs \<Longrightarrow> subseq (xs @ ys) zs"
  by (rule subseq_order.trans [of _ "xs @ y # ys"]) (auto simp: subseq_append' intro: list_emb_Cons)

lemma frames_ok_loop:
  assumes "frames_ok C dumps s" "so_scheduled s = x # xs"
  shows "frames_ok C dumps (s\<lparr>so_scheduled := xs, so_inbox := ingest_nowait (so_inbox s) x\<rparr>)"
proof (cases "ib_room (so_inbox s)")
  case True
  with assms show ?thesis using inbox_machine.inv_step [of "so_inbox s" x]
    by (simp add: frames_ok_def ingest_nowait_def)
next
  case False
  have "subseq ((so_taken s @ ib_items (so_inbox s)) @ xs) (map (\<lambda>f. utf8_encode (dumps f)) (so_frames s))"
    by (rule subseq_drop_middle [where y = x]) (use assms in \<open>simp add: frames_ok_def\<close>)
  with False assms show ?thesis using inbox_machine.inv_step [of "so_inbox s" x]
    by (simp add: frames_ok_def ingest_nowait_def)
qed

lemma frames_ok_take:
  assumes "frames_ok C dumps s" "inbox_take (so_inbox s) = Some (x, q)"
  shows "frames_ok C dumps (s\<lparr>so_inbox := q, so_taken := so_taken s @ [x]\<rparr>)"
  using assms by (auto simp: frames_ok_def inbox_take_def inbox_bounded_def split: list.splits)

lemma readers_ok_update:
  assumes "readers_ok C s" "i < length (so_readers s)" "so_readers s ! i \<noteq> Ended"
    and "phase_ok C (so_frames s') (so_seq s') (so_rx s') phase'" "numbered C (so_frames s') (so_seq s')"
  shows "readers_ok C (s'\<lparr>so_readers := (so_readers s)[i := phase']\<rparr>)"
proof -
  have others: "so_readers s ! j = Ended" if "j < length (so_readers s)" "j \<noteq> i" for j
    using assms(1-3) that unfolding readers_ok_def by blast
  have "phase_ok C (so_frames s') (so_seq s') (so_rx s') ((so_readers s)[i := phase'] ! j)" if "j < length (so_readers s)" for j
    using that others [OF that] assms(4,5) by (cases "j = i") simp_all
  then have "\<forall>ph \<in> set ((so_readers s)[i := phase']). phase_ok C (so_frames s') (so_seq s') (so_rx s') ph"
    by (metis in_set_conv_nth length_list_update)
  moreover have alone: "j = i" if "j < length (so_readers s)" "(so_readers s)[i := phase'] ! j \<noteq> Ended" for j
    using that others [OF that(1)] by (cases "j = i") simp_all
  have "j = k" if "j < length (so_readers s)" "k < length (so_readers s)" "(so_readers s)[i := phase'] ! j \<noteq> Ended"
    "(so_readers s)[i := phase'] ! k \<noteq> Ended" for j k
    using alone [OF that(1,3)] alone [OF that(2,4)] by simp
  ultimately show ?thesis unfolding readers_ok_def by simp
qed

lemma ended_readers:
  assumes "set (so_readers s) \<subseteq> {Ended}" "numbered C (so_frames s) (so_seq s)"
  shows "readers_ok C (s\<lparr>so_stop := False, so_readers := so_readers s @ [Checking]\<rparr>)"
proof -
  have "so_readers s ! i = Ended" if "i < length (so_readers s)" for i using assms(1) nth_mem [OF that] by blast
  then have "i = length (so_readers s)" if "i < Suc (length (so_readers s))" "(so_readers s @ [Checking]) ! i \<noteq> Ended" for i
    using that by (cases "i < length (so_readers s)") (simp_all add: nth_append)
  with assms show ?thesis unfolding readers_ok_def by auto
qed

lemma source_ok_step:
  assumes ok: "source_ok C dumps s" and start: "ev = Src_Start \<Longrightarrow> set (so_readers s) \<subseteq> {Ended}"
  shows "source_ok C dumps (source_step C clock dumps s ev)"
proof -
  have f: "frames_ok C dumps s" and rd: "readers_ok C s" using ok by (simp_all add: source_ok_def)
  then have n: "numbered C (so_frames s) (so_seq s)" by (simp add: frames_ok_def)
  show ?thesis
  proof (cases ev)
    case Src_Start
    with ended_readers [OF start n] f show ?thesis by (simp add: source_step_def source_ok_def frames_ok_def)
  next
    case (Src_Reader i res)
    show ?thesis
    proof (cases "i < length (so_readers s) \<and> so_readers s ! i \<noteq> Ended")
      case True
      obtain ph s1 where st: "reader_next C clock dumps res (so_readers s ! i) s = (ph, s1)" by fastforce
      have "phase_ok C (so_frames s) (so_seq s) (so_rx s) (so_readers s ! i)" using rd True by (simp add: readers_ok_def)
      note next_ok = reader_next_ok [OF f this st]
      then have "readers_ok C (s1\<lparr>so_readers := (so_readers s)[i := ph]\<rparr>)"
        by (intro readers_ok_update [OF rd conjunct1 [OF True] conjunct2 [OF True]]) (auto simp: frames_ok_def)
      moreover have "frames_ok C dumps (s1\<lparr>so_readers := (so_readers s)[i := ph]\<rparr>)" using next_ok by (simp add: frames_ok_def)
      ultimately show ?thesis using True st by (simp add: source_step_def source_ok_def Src_Reader)
    next
      case False
      then have "(so_readers s)[i := Ended] = so_readers s" by (cases "i < length (so_readers s)") (auto simp: list_update_same_conv list_update_beyond)
      with False have "source_step C clock dumps s ev = s" by (simp add: source_step_def Src_Reader)
      with ok show ?thesis by simp
    qed
  next
    case Src_Loop
    with f rd show ?thesis
      by (auto simp: source_step_def source_ok_def readers_ok_def intro: frames_ok_loop split: list.split)
  next
    case Src_Take
    with f rd show ?thesis
      by (auto simp: source_step_def source_ok_def readers_ok_def intro: frames_ok_take split: option.split)
  next
    case Src_Stop
    with f rd show ?thesis by (simp add: source_step_def source_ok_def readers_ok_def frames_ok_def)
  qed
qed

lemma source_ok_run: "source_ok C dumps s \<Longrightarrow> joined C clock dumps s evs \<Longrightarrow> source_ok C dumps (foldl (source_step C clock dumps) s evs)"
  by (induction evs arbitrary: s) (auto intro: source_ok_step)

lemma new_source_ok:
  assumes "new_source C maxsize = Inr s"
  shows "source_ok C dumps s"
  using assms by (auto simp: new_source_def source_ok_def frames_ok_def readers_ok_def numbered_def inbox_bounded_def split: if_splits)

lemma str_nat_inj: "str_nat m = str_nat n \<Longrightarrow> m = n"
  by (metis unsigned_int_str_nat option.inject)

lemma frame_id_inj: "frame_id C m = frame_id C n \<longleftrightarrow> m = n"
  by (auto simp: frame_id_def dest: str_nat_inj)

lemma numbered_distinct: "numbered C frames m \<Longrightarrow> distinct (map msg_id_of frames)"
proof -
  assume "numbered C frames m"
  then obtain ns where "map msg_id_of frames = map (\<lambda>n. Some (JStr (frame_id C n))) ns" "sorted_wrt (<) ns"
    by (auto simp: numbered_def)
  moreover from this(2) have "distinct ns" using strict_sorted_iff by blast
  ultimately show ?thesis by (auto simp: distinct_map frame_id_inj inj_on_def)
qed

lemma reader_next_inbox: "so_inbox (snd (reader_next C clock dumps res phase s)) = so_inbox s"
  by (induction C clock dumps res phase s rule: reader_next.induct)
    (auto simp: hand_over_facts log_link_def interval_elapsed_def Let_def dest: build_frame_facts(2) split: prod.split option.split)

lemma source_step_maxsize: "ib_maxsize (so_inbox (source_step C clock dumps s ev)) = ib_maxsize (so_inbox s)"
proof (cases ev)
  case (Src_Reader i res)
  with reader_next_inbox [of C clock dumps res "so_readers s ! i" s] show ?thesis
    by (auto simp: source_step_def split: prod.split)
qed (auto simp: source_step_def ingest_nowait_def inbox_take_def split: list.splits)

lemma source_maxsize: "ib_maxsize (so_inbox (foldl (source_step C clock dumps) s evs)) = ib_maxsize (so_inbox s)"
  by (induction evs arbitrary: s) (simp_all add: source_step_maxsize)

end
