(* ===== verification/Radio_Transport.thy ===== *)
theory Radio_Transport
  imports Transport_Core Net_Auth
begin

text \<open>
  The Meshtastic radio with its supervisor (\<^verbatim>\<open>meshsa/transports/meshtastic_radio.py\<close>) and the listener for
  detections (\<^verbatim>\<open>meshsa/transports/detection_ingest.py\<close>).  The radio's callbacks come on its own thread and
  are scheduled on the event loop; the supervisor is a task that runs from one await to the next.  What
  the device library answers is the argument of the step: whether an interface could be built, and
  whether the mesh settings could be applied to it.
\<close>

section \<open>Packets\<close>

datatype packet_port = Port_Num int | Port_Name string | No_Port

record radio_packet =
  rp_port :: packet_port
  rp_payload :: bytes

record radio_config =
  mc_portnum :: int
  mc_portnum_name :: string
  mc_reconnect :: bool
  mc_has_mesh :: bool

text \<open>What the callback of a packet hands to the loop; a packet without a decoded part has no port.\<close>

definition on_receive :: "radio_config \<Rightarrow> radio_packet \<Rightarrow> bytes option" where
  "on_receive C p =
     (if rp_port p \<notin> {Port_Num (mc_portnum C), Port_Name (mc_portnum_name C)} then None
      else if rp_payload p = [] then None
      else Some (rp_payload p))"

section \<open>The transport\<close>

text \<open>Where the supervisor is: not created, created, at its wait, asleep, returned, or raised.\<close>

datatype supervisor = No_Task | Fresh_Task | Waiting_Lost | Sleeping_Task | Task_Returned | Task_Raised py_exn

datatype loop_call = Call_Ingest bytes | Call_Lost

record radio =
  mt_inbox :: inbox
  mt_started :: bool
  mt_stopping :: bool
  mt_subscribed :: bool
  mt_iface :: bool
  mt_lost :: bool
  mt_task :: supervisor
  mt_backoff :: backoff
  mt_reconnects :: nat
  mt_slept :: "real list"
  mt_calls :: "loop_call list"
  mt_sent :: "bytes list"
  mt_built :: nat
  mt_closed :: nat

text \<open>\<open>mt_slept\<close> are the delays slept, \<open>mt_built\<close> and \<open>mt_closed\<close> count the interfaces.\<close>

definition new_radio :: "int \<Rightarrow> backoff \<Rightarrow> radio" where
  "new_radio maxsize b =
     \<lparr>mt_inbox = \<lparr>ib_maxsize = maxsize, ib_items = [], ib_dropped = 0\<rparr>, mt_started = False, mt_stopping = False,
      mt_subscribed = False, mt_iface = False, mt_lost = False, mt_task = No_Task, mt_backoff = b,
      mt_reconnects = 0, mt_slept = [], mt_calls = [], mt_sent = [], mt_built = 0, mt_closed = 0\<rparr>"

text \<open>An answer of the device library: the interface is built or not; the settings are applied or raise.\<close>

record radio_answer =
  ra_built :: "py_exn + unit"
  ra_mesh :: "py_exn + unit"

definition apply_mesh :: "radio_config \<Rightarrow> radio_answer \<Rightarrow> radio \<Rightarrow> py_exn + unit" where
  "apply_mesh C a r = (if mt_iface r \<and> mc_has_mesh C then ra_mesh a else Inr ())"

definition build_iface :: "radio \<Rightarrow> radio" where
  "build_iface r = r\<lparr>mt_iface := True, mt_built := Suc (mt_built r)\<rparr>"

definition close_iface :: "radio \<Rightarrow> radio" where
  "close_iface r = (if mt_iface r then r\<lparr>mt_iface := False, mt_closed := Suc (mt_closed r)\<rparr> else r)"

definition teardown_subs :: "radio \<Rightarrow> radio" where
  "teardown_subs r = r\<lparr>mt_subscribed := False\<rparr>"

definition radio_start :: "radio_config \<Rightarrow> radio_answer \<Rightarrow> radio \<Rightarrow> (py_exn + unit) \<times> radio" where
  "radio_start C a r =
     (let r1 = r\<lparr>mt_started := True, mt_stopping := False, mt_lost := False, mt_subscribed := True\<rparr>
      in case ra_built a of
           Inl e \<Rightarrow>
             if \<not> mc_reconnect C then (Inl e, (teardown_subs r1)\<lparr>mt_started := False\<rparr>)
             else (Inr (), r1\<lparr>mt_iface := False, mt_task := Fresh_Task\<rparr>)
         | Inr _ \<Rightarrow>
             let r2 = build_iface r1
             in case apply_mesh C a r2 of
                  Inl e \<Rightarrow> (Inl e, r2)
                | Inr _ \<Rightarrow> (Inr (), r2\<lparr>mt_task := Fresh_Task\<rparr>))"

definition radio_sleep :: "radio \<Rightarrow> radio" where
  "radio_sleep r =
     (case sleep_and_advance (mt_backoff r) of
        (d, b) \<Rightarrow> r\<lparr>mt_backoff := b, mt_slept := mt_slept r @ [d], mt_task := Sleeping_Task\<rparr>)"

text \<open>The supervisor behind its wait: the lost interface is closed; then it ends or sleeps.\<close>

definition after_lost :: "radio_config \<Rightarrow> radio \<Rightarrow> radio" where
  "after_lost C r =
     (let r1 = close_iface (r\<lparr>mt_lost := False\<rparr>)
      in if \<not> mc_reconnect C then r1\<lparr>mt_task := Task_Returned\<rparr> else radio_sleep r1)"

text \<open>At the wait: a signal that is set already does not wait.\<close>

definition await_lost :: "radio_config \<Rightarrow> radio \<Rightarrow> radio" where
  "await_lost C r = (if mt_lost r then after_lost C r else r\<lparr>mt_task := Waiting_Lost\<rparr>)"

text \<open>From the head of the loop to the next await.\<close>

definition supervise_pass :: "radio_config \<Rightarrow> radio_answer \<Rightarrow> radio \<Rightarrow> radio" where
  "supervise_pass C a r =
     (if mt_stopping r then r\<lparr>mt_task := Task_Returned\<rparr>
      else if mt_iface r then await_lost C r
      else
        case ra_built a of
          Inl _ \<Rightarrow> radio_sleep r
        | Inr _ \<Rightarrow>
            let r1 = (build_iface r)\<lparr>mt_backoff := backoff_reset (mt_backoff r), mt_reconnects := Suc (mt_reconnects r)\<rparr>
            in case apply_mesh C a r1 of
                 Inl e \<Rightarrow> r1\<lparr>mt_task := Task_Raised e\<rparr>
               | Inr _ \<Rightarrow> await_lost C r1)"

definition supervise_resume :: "radio_config \<Rightarrow> radio_answer \<Rightarrow> radio \<Rightarrow> radio" where
  "supervise_resume C a r =
     (case mt_task r of
        Fresh_Task \<Rightarrow> supervise_pass C a (r\<lparr>mt_backoff := backoff_reset (mt_backoff r)\<rparr>)
      | Sleeping_Task \<Rightarrow> supervise_pass C a r
      | Waiting_Lost \<Rightarrow> if mt_lost r then after_lost C r else r
      | _ \<Rightarrow> r)"

text \<open>\<open>ok\<close> is whether the device took the data.\<close>

definition radio_send :: "bool \<Rightarrow> bytes \<Rightarrow> radio \<Rightarrow> (py_exn + unit) \<times> radio" where
  "radio_send ok data r =
     (if \<not> mt_started r then (Inl RuntimeError, r)
      else if \<not> mt_iface r then (Inr (), r)
      else (Inr (), if ok then r\<lparr>mt_sent := mt_sent r @ [data]\<rparr> else r))"

text \<open>
  \<^verbatim>\<open>stop\<close>.  A task that was cancelled is waited for; one that raised before raises again here, and
  the rest of the method is not run.
\<close>

definition radio_stop :: "radio \<Rightarrow> (py_exn + unit) \<times> radio" where
  "radio_stop r =
     (let r1 = r\<lparr>mt_stopping := True, mt_lost := True\<rparr>
      in case mt_task r1 of
           Task_Raised e \<Rightarrow> (Inl e, r1)
         | _ \<Rightarrow> (Inr (), (close_iface (teardown_subs (r1\<lparr>mt_task := No_Task\<rparr>)))\<lparr>mt_started := False\<rparr>))"

datatype radio_event =
    Mt_Start radio_answer
  | Mt_Resume radio_answer
  | Mt_Packet radio_packet
  | Mt_Lost
  | Mt_Loop
  | Mt_Send bool bytes
  | Mt_Stop

text \<open>A second start without a stop between is left out: it would run two supervisors.\<close>

definition radio_step :: "radio_config \<Rightarrow> radio \<Rightarrow> radio_event \<Rightarrow> radio" where
  "radio_step C r ev =
     (case ev of
        Mt_Start a \<Rightarrow> if mt_task r = No_Task \<and> \<not> mt_started r then snd (radio_start C a r) else r
      | Mt_Resume a \<Rightarrow> supervise_resume C a r
      | Mt_Packet p \<Rightarrow>
          (if \<not> mt_subscribed r then r
           else case on_receive C p of None \<Rightarrow> r | Some x \<Rightarrow> r\<lparr>mt_calls := mt_calls r @ [Call_Ingest x]\<rparr>)
      | Mt_Lost \<Rightarrow> if mt_subscribed r then r\<lparr>mt_calls := mt_calls r @ [Call_Lost]\<rparr> else r
      | Mt_Loop \<Rightarrow>
          (case mt_calls r of
             [] \<Rightarrow> r
           | Call_Ingest x # cs \<Rightarrow> r\<lparr>mt_calls := cs, mt_inbox := ingest_nowait (mt_inbox r) x\<rparr>
           | Call_Lost # cs \<Rightarrow> r\<lparr>mt_calls := cs, mt_lost := True\<rparr>)
      | Mt_Send ok data \<Rightarrow> snd (radio_send ok data r)
      | Mt_Stop \<Rightarrow> snd (radio_stop r))"

section \<open>The supervisor's invariant\<close>

text \<open>
  The interfaces built are closed but for the one that is held; a supervisor waits only beside an
  interface; and a started radio has a supervisor, unless its mesh settings raised.
\<close>

definition radio_ok :: "radio_config \<Rightarrow> radio \<Rightarrow> bool" where
  "radio_ok C r \<longleftrightarrow>
     mt_built r = mt_closed r + (if mt_iface r then 1 else 0) \<and>
     (mt_task r = Waiting_Lost \<longrightarrow> mt_iface r) \<and>
     (mt_task r = Fresh_Task \<and> \<not> mt_iface r \<longrightarrow> mc_reconnect C) \<and>
     (mt_task r = Sleeping_Task \<longrightarrow> \<not> mt_iface r \<and> mc_reconnect C) \<and>
     (mt_task r = No_Task \<and> \<not> mc_has_mesh C \<longrightarrow> \<not> mt_iface r \<and> \<not> mt_started r) \<and>
     (mt_task r \<noteq> No_Task \<longrightarrow> mt_started r) \<and>
     (\<not> mt_started r \<longrightarrow> mt_task r = No_Task \<and> \<not> mt_iface r \<and> \<not> mt_subscribed r) \<and>
     (mt_task r = Task_Returned \<longrightarrow> \<not> mc_reconnect C \<or> mt_stopping r) \<and>
     ((\<exists>e. mt_task r = Task_Raised e) \<longrightarrow> mc_has_mesh C) \<and>
     (mt_stopping r \<longrightarrow> mt_task r = No_Task \<or> (\<exists>e. mt_task r = Task_Raised e))"

lemmas radio_defs = radio_start_def build_iface_def close_iface_def teardown_subs_def apply_mesh_def
  supervise_resume_def supervise_pass_def await_lost_def after_lost_def radio_sleep_def sleep_and_advance_def
  radio_send_def radio_stop_def

lemma radio_ok_start:
  "radio_ok C r \<Longrightarrow> mt_task r = No_Task \<Longrightarrow> \<not> mt_started r \<Longrightarrow> radio_ok C (snd (radio_start C a r))"
  by (auto simp: radio_ok_def radio_defs Let_def split: sum.splits if_splits)

lemma radio_ok_resume: "radio_ok C r \<Longrightarrow> radio_ok C (supervise_resume C a r)"
  by (cases "mt_task r"; cases "ra_built a"; cases "ra_mesh a") (auto simp: radio_ok_def radio_defs Let_def)

lemma radio_ok_stop: "radio_ok C r \<Longrightarrow> radio_ok C (snd (radio_stop r))"
  by (cases "mt_task r") (auto simp: radio_ok_def radio_defs Let_def)

lemma radio_ok_frame [simp]:
  "radio_ok C (r\<lparr>mt_calls := cs\<rparr>) = radio_ok C r" "radio_ok C (r\<lparr>mt_inbox := q\<rparr>) = radio_ok C r"
  "radio_ok C (r\<lparr>mt_lost := l\<rparr>) = radio_ok C r" "radio_ok C (r\<lparr>mt_sent := xs\<rparr>) = radio_ok C r"
  by (simp_all add: radio_ok_def)

interpretation radio_machine: invariant_machine "radio_step C" "radio_ok C" for C
proof
  fix r ev
  assume ok: "radio_ok C r"
  show "radio_ok C (radio_step C r ev)"
  proof (cases ev)
    case (Mt_Start a)
    with ok show ?thesis by (simp add: radio_step_def radio_ok_start)
  next
    case (Mt_Packet p)
    with ok show ?thesis by (simp add: radio_step_def split: option.split)
  next
    case Mt_Loop
    have "radio_ok C (r\<lparr>mt_calls := cs, mt_inbox := q\<rparr>)" "radio_ok C (r\<lparr>mt_calls := cs, mt_lost := True\<rparr>)" for cs q
      using ok radio_ok_frame(1) [where r = "r\<lparr>mt_inbox := q\<rparr>" and cs = cs]
        radio_ok_frame(1) [where r = "r\<lparr>mt_lost := True\<rparr>" and cs = cs] by simp_all
    with ok Mt_Loop show ?thesis by (simp add: radio_step_def split: list.split loop_call.split)
  qed (use ok in \<open>simp_all add: radio_step_def radio_ok_resume radio_ok_stop radio_send_def\<close>)
qed

lemma new_radio_ok: "radio_ok C (new_radio n b)"
  by (simp add: radio_ok_def new_radio_def)

lemma radio_ok_connected:
  assumes "radio_ok C r" "mc_reconnect C" "\<not> mc_has_mesh C" "mt_started r"
  shows "mt_iface r \<or> mt_task r \<in> {Fresh_Task, Sleeping_Task}"
  using assms by (cases "mt_task r") (auto simp: radio_ok_def)

lemma radio_stop_closes:
  assumes "radio_ok C r" "\<not> mc_has_mesh C"
  defines "r' \<equiv> radio_step C r Mt_Stop"
  shows "mt_built r' = mt_closed r' \<and> \<not> mt_iface r' \<and> \<not> mt_subscribed r'"
proof -
  have "\<not> mt_started r'"
    using assms by (cases "mt_task r") (auto simp: radio_ok_def radio_step_def radio_stop_def Let_def)
  moreover have "radio_ok C r'" unfolding r'_def using assms(1) by (rule radio_machine.inv_step)
  ultimately show ?thesis by (simp add: radio_ok_def)
qed

text \<open>A sleeping supervisor and answers that fail, then one that succeeds.\<close>

lemma resume_fails:
  fixes C :: radio_config and a :: radio_answer
  assumes "mt_task r = Sleeping_Task" "\<not> mt_iface r" "\<not> mt_stopping r" "ra_built a = Inl e" "backoff_at k (mt_backoff r)"
  defines "r' \<equiv> supervise_resume C a r"
  shows "mt_task r' = Sleeping_Task" "\<not> mt_iface r'" "\<not> mt_stopping r'" "backoff_at (Suc k) (mt_backoff r')"
    "mt_slept r' = mt_slept r @ [delay_at (mt_backoff r) k]" "mt_lost r' = mt_lost r"
    "mt_reconnects r' = mt_reconnects r" "delay_at (mt_backoff r') = delay_at (mt_backoff r)"
proof -
  obtain d b where sl: "sleep_and_advance (mt_backoff r) = (d, b)" by fastforce
  have r': "r' = r\<lparr>mt_backoff := b, mt_slept := mt_slept r @ [d], mt_task := Sleeping_Task\<rparr>"
    using assms(1-4) sl by (simp add: r'_def supervise_resume_def supervise_pass_def radio_sleep_def)
  note st = delay_at_step [OF assms(5) sl]
  show "mt_task r' = Sleeping_Task" "\<not> mt_iface r'" "\<not> mt_stopping r'" "backoff_at (Suc k) (mt_backoff r')"
    "mt_slept r' = mt_slept r @ [delay_at (mt_backoff r) k]" "mt_lost r' = mt_lost r"
    "mt_reconnects r' = mt_reconnects r" "delay_at (mt_backoff r') = delay_at (mt_backoff r)"
    using assms(2,3) st by (simp_all add: r')
qed

lemma resumes_fail:
  assumes "mt_task r = Sleeping_Task" "\<not> mt_iface r" "\<not> mt_stopping r" "backoff_at k (mt_backoff r)"
    and "\<forall>a \<in> set as. isl (ra_built a)"
  shows "let r' = foldl (radio_step C) r (map Mt_Resume as) in
    mt_task r' = Sleeping_Task \<and> \<not> mt_iface r' \<and> \<not> mt_stopping r' \<and> mt_lost r' = mt_lost r \<and>
    mt_reconnects r' = mt_reconnects r \<and>
    mt_slept r' = mt_slept r @ map (delay_at (mt_backoff r)) [k..<k + length as]"
  using assms
proof (induction as arbitrary: r k)
  case (Cons a as)
  obtain e where e: "ra_built a = Inl e" using Cons.prems(5) by (auto simp: isl_def)
  note f = resume_fails [OF Cons.prems(1-3) e Cons.prems(4), of C]
  have "[k..<k + length (a # as)] = k # [Suc k..<Suc k + length as]" by (simp add: upt_conv_Cons del: upt_Suc)
  then show ?case using Cons.IH [OF f(1-4)] Cons.prems(5) f by (simp add: radio_step_def Let_def)
qed simp

section \<open>The detection listener\<close>

record detection_ingest =
  di_host :: string
  di_inbox :: inbox
  di_open :: bool
  di_running :: bool

definition new_detection_ingest :: "string \<Rightarrow> string option \<Rightarrow> int \<Rightarrow> py_exn + detection_ingest" where
  "new_detection_ingest host token maxsize =
     then_ok (validate_bind host token)
       (\<lambda>_. Inr \<lparr>di_host = host, di_inbox = \<lparr>ib_maxsize = maxsize, ib_items = [], ib_dropped = 0\<rparr>,
                 di_open = False, di_running = False\<rparr>)"

definition detection_start :: "py_exn + unit \<Rightarrow> detection_ingest \<Rightarrow> (py_exn + unit) \<times> detection_ingest" where
  "detection_start bound d =
     (let d1 = d\<lparr>di_running := True\<rparr>
      in case bound of Inl e \<Rightarrow> (Inl e, d1) | Inr _ \<Rightarrow> (Inr (), d1\<lparr>di_open := True\<rparr>))"

definition datagram_received :: "bytes \<Rightarrow> detection_ingest \<Rightarrow> detection_ingest" where
  "datagram_received data d = (if di_open d then d\<lparr>di_inbox := ingest_nowait (di_inbox d) data\<rparr> else d)"

definition detection_stop :: "detection_ingest \<Rightarrow> detection_ingest" where
  "detection_stop d = d\<lparr>di_running := False, di_open := False\<rparr>"

end
