(* ===== verification/Source_Facts.thy ===== *)
theory Source_Facts
  imports Flight_Sources Radio_Transport Mesh_Facts
begin

text \<open>The properties of the aircraft position sources and of the radio, each with a concrete instance.\<close>

section \<open>The reader and the inbox\<close>

text \<open>C12: However the reader, the event loop, the node and the calls of stop interleave, and those of start as long
  as each reader has ended before the next start, no two frames of a source carry the same message id, and what the
  node takes, what waits in the inbox and what is still scheduled are frames in the order they were made; the
  frames that are missing are the ones counted as dropped.\<close>

theorem source_delivers_in_order:
  assumes "new_source C maxsize = Inr s0" "joined C clock dumps s0 evs"
  shows "let s = foldl (source_step C clock dumps) s0 evs;
             held = so_taken s @ ib_items (so_inbox s) @ so_scheduled s
    in distinct (map msg_id_of (so_frames s)) \<and>
       subseq held (map (\<lambda>f. utf8_encode (dumps f)) (so_frames s)) \<and>
       length held + ib_dropped (so_inbox s) = so_rx s \<and> so_rx s = length (so_frames s) \<and>
       (0 < maxsize \<longrightarrow> int (length (ib_items (so_inbox s))) \<le> maxsize)"
proof -
  let ?s = "foldl (source_step C clock dumps) s0 evs"
  have "source_ok C dumps ?s" using new_source_ok [OF assms(1)] assms(2) by (rule source_ok_run)
  then have ok: "frames_ok C dumps ?s" by (simp add: source_ok_def)
  then have "distinct (map msg_id_of (so_frames ?s))" using numbered_distinct unfolding frames_ok_def by blast
  moreover have "ib_maxsize (so_inbox ?s) = ib_maxsize (so_inbox s0)" by (rule source_maxsize)
  moreover have "ib_maxsize (so_inbox s0) = maxsize" using assms(1) by (auto simp: new_source_def split: if_splits)
  ultimately show ?thesis using ok by (simp add: Let_def frames_ok_def inbox_bounded_def)
qed

definition demo_source_config :: source_config where
  "demo_source_config = source_config_of ''uav'' None 1 100 30"

definition demo_source :: source where
  "demo_source = (case new_source demo_source_config 1 of Inr s \<Rightarrow> s)"

text \<open>A reader that polls two fixes, and its steps until both are handed over.\<close>

definition reader_steps :: "nat \<Rightarrow> nat \<Rightarrow> source_event list" where
  "reader_steps i k = replicate k (Src_Reader i ([(Fin 1, Fin 2, Fin 3), (Fin 4, Fin 5, Fin 6)], None))"

definition demo_source_events :: "source_event list" where
  "demo_source_events = [Src_Start] @ reader_steps 0 14 @ [Src_Loop, Src_Loop, Src_Take, Src_Stop] @ reader_steps 0 2 @ [Src_Start]"

theorem source_delivers_in_order_witness:
  "let s = foldl (source_step demo_source_config real (\<lambda>_. ''{}'')) demo_source demo_source_events
   in so_rx s = 2 \<and> length (so_taken s) = 1 \<and> ib_dropped (so_inbox s) = 1 \<and> distinct (map msg_id_of (so_frames s))"
proof -
  have "new_source demo_source_config 1 = Inr demo_source"
    "joined demo_source_config real (\<lambda>_. ''{}'') demo_source demo_source_events"
    by code_simp+
  note r = source_delivers_in_order [OF this]
  have "so_rx (foldl (source_step demo_source_config real (\<lambda>_. ''{}'')) demo_source demo_source_events) = 2 \<and>
    length (so_taken (foldl (source_step demo_source_config real (\<lambda>_. ''{}'')) demo_source demo_source_events)) = 1 \<and>
    ib_dropped (so_inbox (foldl (source_step demo_source_config real (\<lambda>_. ''{}'')) demo_source demo_source_events)) = 1"
    by code_simp
  with r show ?thesis by (simp add: Let_def)
qed

text \<open>When a stop gave up waiting and the source is started again, the old reader goes on beside the new one, and
  two frames can carry the same number.\<close>

lemma second_reader_repeats_ids:
  "let s = foldl (source_step demo_source_config real (\<lambda>_. ''{}'')) demo_source
      ([Src_Start] @ reader_steps 0 2 @ [Src_Stop, Src_Start] @ reader_steps 1 3 @ reader_steps 0 12 @ reader_steps 1 11)
   in \<not> distinct (map msg_id_of (so_frames s))"
  by code_simp

text \<open>The numbers start again with the process: after a restart the first fix has the id that the first
  fix had before, and a peer that still remembers it takes the new one for a duplicate.\<close>

lemma restart_reuses_ids:
  "msg_id_of (fst (position_frame C clock p s)) = msg_id_of (fst (position_frame C clock' p' s'))"
  if "new_source C n = Inr s" "new_source C n' = Inr s'"
proof -
  have "so_seq s = 0" "so_seq s' = 0" using that by (auto simp: new_source_def split: if_splits)
  then show ?thesis by (simp add: position_frame_def build_frame_def msg_id_of_def frame_id_def split: prod.split)
qed

section \<open>From the bytes of the radio to a track\<close>

definition source_position :: "fix_point \<Rightarrow> py_exn + position" where
  "source_position p = (case p of (lat, lon, hae) \<Rightarrow>
     mk_position lat lon hae UNKNOWN_ERROR_M UNKNOWN_ERROR_M None None)"

definition source_envelope :: "source_config \<Rightarrow> nat \<Rightarrow> real \<Rightarrow> position \<Rightarrow> envelope" where
  "source_envelope C n t pos =
     \<lparr>env_schema_version = SCHEMA_VERSION, env_msg_id = frame_id C n, env_ts = Fin t, env_source_uid = sc_uid C,
      env_kind = Pli, env_payload =
        [(''node'', JObj [(''uid'', JStr (sc_uid C)), (''callsign'', JStr (sc_callsign C))]),
         (''position'', JObj (dump_position pos))]\<rparr>"

lemma position_frame_decodes:
  "telemetry_decode P repr (fst (position_frame C clock p s)) =
     (case source_position p of
        Inl e \<Rightarrow> Inl MeshSAError
      | Inr pos \<Rightarrow> Inr (source_envelope C (Suc (so_seq s)) (clock (so_readings s)) pos))"
proof -
  obtain lat lon hae where p: "p = (lat, lon, hae)" by (cases p) auto
  have "mk_position lat lon hae UNKNOWN_ERROR_M UNKNOWN_ERROR_M None None \<in>
      {Inl ValueError} \<union> range Inr" by (auto simp: mk_position_def)
  then show ?thesis
    by (auto simp: p position_frame_def build_frame_def telemetry_decode_def has_keys_def field_def py_str_def py_float_def
        frame_float_def optional_def source_position_def source_envelope_def catch_invalid_def Let_def)
qed

definition gps_fix :: "parser_settings \<Rightarrow> bytes \<Rightarrow> fix_point" where
  "gps_fix S payload =
     (Fin (real_of_int (field_s payload 0 4) / gps_coord_scale S),
      Fin (real_of_int (field_s payload 4 4) / gps_coord_scale S),
      Fin (real_of_int (field_u payload 12 2 - gps_altitude_offset_m S)))"

definition gps_frame :: "crsf_frame \<Rightarrow> bool" where
  "gps_frame f \<longleftrightarrow> cf_type f = GPS \<and> length (cf_payload f) = 15"

lemma crsf_fixes_frames:
  assumes "gps_coord_scale S \<noteq> 0" "gps_groundspeed_scale S \<noteq> 0" "gps_heading_scale S \<noteq> 0"
  shows "fst (crsf_fixes S fs counts out) = (out @ map (\<lambda>f. gps_fix S (cf_payload f)) (filter gps_frame fs), None)"
proof (induction fs arbitrary: counts out)
  case (Cons f fs)
  obtain res c where p: "parse_telemetry S f counts = (res, c)" by fastforce
  show ?case
  proof (cases "gps_frame f")
    case True
    then have "\<exists>g. res = Inr (Some (GpsSensor g)) \<and>
        (Fin (lat_deg g), Fin (lon_deg g), Fin (real_of_int (altitude_m g))) = gps_fix S (cf_payload f)"
      using p assms by (auto simp: gps_frame_def parse_telemetry_def parse_gps_def require_def crsf_types map_result_def gps_fix_def Let_def)
    then obtain g where "res = Inr (Some (GpsSensor g))"
      "(Fin (lat_deg g), Fin (lon_deg g), Fin (real_of_int (altitude_m g))) = gps_fix S (cf_payload f)" by blast
    with Cons.IH True p show ?thesis by simp
  next
    case False
    have "res = Inl TelemetryParseError \<or> (\<exists>m. res = Inr m \<and> (\<forall>g. m \<noteq> Some (GpsSensor g)))"
      using False p assms by (auto simp: gps_frame_def parse_telemetry_def Let_def map_result_def then_ok_Inl_iff
          parse_link_statistics_def parse_battery_def parse_attitude_def parse_flight_mode_def parse_gps_def require_def split: if_splits)
    with Cons.IH False p show ?thesis by (auto split: option.split telemetry_message.split)
  qed
qed simp

text \<open>C13: When whole frames have arrived on the open link of a receiver that sends nothing, perhaps with the beginning of
  another, and the scales of the GPS
  fields are not zero, the poll comes to one fix for each GPS frame of the right length, in their order, and none for
  the other frames.  The frame built from a fix is decoded as a track of the aircraft at the coordinates of the
  payload, in degrees and metres; when they are no position on earth the codec refuses it.\<close>

theorem gps_bytes_become_track:
  assumes "cl_open L" "cl_recent_tx L = []" "cl_buffer L @ chunk = concat (map wire fs) @ tail_bytes"
    and "list_all (sendable (crsf_max_frame_len LS) SYNC_ADDRESSES) fs"
    and "fst (extract_frames (crsf_max_frame_len LS) SYNC_ADDRESSES tail_bytes) = []"
    and "gps_coord_scale S \<noteq> 0" "gps_groundspeed_scale S \<noteq> 0" "gps_heading_scale S \<noteq> 0"
  shows "fst (crsf_poll LS S (Inr chunk) (L, counts)) = (map (\<lambda>f. gps_fix S (cf_payload f)) (filter gps_frame fs), None) \<and>
    telemetry_decode P repr (fst (position_frame C clock (gps_fix S (cf_payload g)) s)) =
      (case source_position (gps_fix S (cf_payload g)) of
         Inl e \<Rightarrow> Inl MeshSAError
       | Inr pos \<Rightarrow> Inr (source_envelope C (Suc (so_seq s)) (clock (so_readings s)) pos))"
proof -
  obtain rest errs where t: "extract_frames (crsf_max_frame_len LS) SYNC_ADDRESSES tail_bytes = ([], rest, errs)"
    using assms(5) by (metis fst_conv prod_cases3)
  have "extract_frames (crsf_max_frame_len LS) SYNC_ADDRESSES (cl_buffer L @ chunk) = (fs, rest, errs)"
    unfolding assms(3) extract_frames_stream [OF assms(4)] t by simp
  note p = poll_inbound_open [OF assms(1) this]
  have "filter gps_frame (filter (\<lambda>f. \<not> echo LS L f) fs) = filter gps_frame fs"
    using assms(2) by (auto simp: echo_def gps_frame_def crsf_types intro: filter_cong)
  with crsf_fixes_frames [OF assms(6-8), of "filter (\<lambda>f. \<not> echo LS L f) fs" counts "[]"]
  have "fst (crsf_poll LS S (Inr chunk) (L, counts)) = (map (\<lambda>f. gps_fix S (cf_payload f)) (filter gps_frame fs), None)"
    by (cases "crsf_fixes S (filter (\<lambda>f. \<not> echo LS L f) fs) counts []") (simp add: crsf_poll_def p)
  then show ?thesis by (simp add: position_frame_decodes)
qed

definition demo_gps :: crsf_frame where
  "demo_gps = \<lparr>cf_addr = 0xEA, cf_type = GPS,
     cf_payload = [0x1A, 0xD2, 0x74, 0x80, 0x05, 0x5D, 0x4A, 0x80, 0, 100, 0, 0, 4, 0x4C, 9]\<rparr>"

definition demo_pilot :: crsf_frame where
  "demo_pilot = \<lparr>cf_addr = 0xEA, cf_type = FLIGHT_MODE, cf_payload = [65, 0]\<rparr>"

theorem gps_bytes_become_track_witness:
  "fst (crsf_poll default_crsf_link_settings default_parser_settings (Inr (wire demo_pilot @ wire demo_gps))
     (new_link default_crsf_link_settings True, Map.empty)) = ([(Fin 45, Fin 9, Fin 100)], None)"
proof -
  let ?L = "new_link default_crsf_link_settings True"
  have s: "list_all (sendable (crsf_max_frame_len default_crsf_link_settings) SYNC_ADDRESSES) [demo_pilot, demo_gps]"
    unfolding sendable_def frame_wf_def by code_simp
  have "cl_open ?L" "cl_recent_tx ?L = []" "cl_buffer ?L @ wire demo_pilot @ wire demo_gps = concat (map wire [demo_pilot, demo_gps]) @ []"
    by (simp_all add: new_link_def)
  note L = this
  have "fst (extract_frames (crsf_max_frame_len default_crsf_link_settings) SYNC_ADDRESSES []) = []"
    by (simp add: extract_short OVERHEAD_def)
  note tail = this
  have "gps_coord_scale default_parser_settings \<noteq> 0" "gps_groundspeed_scale default_parser_settings \<noteq> 0"
    "gps_heading_scale default_parser_settings \<noteq> 0" by (simp_all add: default_parser_settings_def)
  note poll = gps_bytes_become_track [OF L s tail this, THEN conjunct1, of Map.empty]
  have "filter gps_frame [demo_pilot, demo_gps] = [demo_gps]" by (simp add: gps_frame_def demo_gps_def demo_pilot_def crsf_types)
  with poll have "fst (crsf_poll default_crsf_link_settings default_parser_settings (Inr (wire demo_pilot @ wire demo_gps)) (?L, Map.empty)) =
      ([gps_fix default_parser_settings (cf_payload demo_gps)], None)"
    by simp
  moreover have "field_s (cf_payload demo_gps) 0 4 = 450000000" "field_s (cf_payload demo_gps) 4 4 = 90000000"
    "field_u (cf_payload demo_gps) 12 2 = 1100"
    by (simp_all add: demo_gps_def field_s_def field_u_def be_signed_def be_unsigned_def)
  ultimately show ?thesis by (simp add: gps_fix_def default_parser_settings_def)
qed

section \<open>The endpoint\<close>

text \<open>A MAVLink source whose endpoint names a host that is not loopback is built only with a token.
  An endpoint without a host is not checked, although the library binds it to every interface.\<close>

theorem endpoint_needs_token:
  assumes "endpoint = scheme @ host @ '':'' @ port" "scheme \<in> set endpoint_schemes" "CHR '':'' \<notin> set host" "host \<noteq> []"
  shows "mavlink_endpoint_check endpoint token = Inr () \<longleftrightarrow> is_loopback host \<or> \<not> falsy token"
proof -
  have "strip_first_prefix endpoint_schemes endpoint = host @ '':'' @ port"
    using assms(1,2) by (auto simp: endpoint_schemes_def)
  with assms show ?thesis
    using partition_append [of "CHR '':''" host port]
    by (auto simp: mavlink_endpoint_check_def extract_endpoint_host_def validate_bind_def)
qed

theorem endpoint_needs_token_witness:
  "mavlink_endpoint_check ''udpin:0.0.0.0:14550'' None = Inl ValueError"
proof -
  have "\<not> (mavlink_endpoint_check ''udpin:0.0.0.0:14550'' None = Inr ())"
    using endpoint_needs_token [of "''udpin:0.0.0.0:14550''" "''udpin:''" "''0.0.0.0''" "''14550''" None]
    by (simp add: endpoint_schemes_def) code_simp
  then show ?thesis by (auto simp: mavlink_endpoint_check_def validate_bind_def split: option.splits if_splits)
qed

lemma empty_host_unchecked: "mavlink_endpoint_check ''udpin::14550'' None = Inr ()"
  by code_simp

section \<open>The radio\<close>

text \<open>In whatever order the radio's signals, the loop, the supervisor and the calls come, every interface
  that was built is closed but for the one held.  A started radio that reconnects, and has no mesh
  settings that could raise, is connected or its supervisor is on the way to connect; and a stop
  leaves no interface open.\<close>

theorem radio_supervised:
  "let r = foldl (radio_step C) (new_radio n b) evs; r' = radio_step C r Mt_Stop in
     mt_built r = mt_closed r + (if mt_iface r then 1 else 0) \<and>
     (mc_reconnect C \<and> \<not> mc_has_mesh C \<and> mt_started r \<longrightarrow> mt_iface r \<or> mt_task r \<in> {Fresh_Task, Sleeping_Task}) \<and>
     (\<not> mc_has_mesh C \<longrightarrow> mt_built r' = mt_closed r' \<and> \<not> mt_iface r' \<and> \<not> mt_subscribed r')"
proof -
  let ?r = "foldl (radio_step C) (new_radio n b) evs"
  have ok: "radio_ok C ?r" by (rule radio_machine.inv_run) (rule new_radio_ok)
  then have "mt_built ?r = mt_closed ?r + (if mt_iface ?r then 1 else 0)" unfolding radio_ok_def by blast
  then show ?thesis using radio_ok_connected [OF ok] radio_stop_closes [OF ok] unfolding Let_def by blast
qed

definition demo_radio_config :: radio_config where
  "demo_radio_config = \<lparr>mc_portnum = 256, mc_portnum_name = ''PRIVATE_APP'', mc_reconnect = True, mc_has_mesh = False\<rparr>"

definition radio_up :: radio_answer where "radio_up = \<lparr>ra_built = Inr (), ra_mesh = Inr ()\<rparr>"
definition radio_down :: radio_answer where "radio_down = \<lparr>ra_built = Inl OSError, ra_mesh = Inr ()\<rparr>"

definition demo_radio :: radio where
  "demo_radio = foldl (radio_step demo_radio_config) (new_radio 4 (new_backoff 1 8 2)) [Mt_Start radio_up, Mt_Resume radio_up]"

theorem radio_supervised_witness:
  "let r = radio_step demo_radio_config demo_radio Mt_Stop in mt_built r = 1 \<and> mt_closed r = 1 \<and> \<not> mt_subscribed r"
proof -
  have "mt_built (radio_step demo_radio_config demo_radio Mt_Stop) = 1" by code_simp
  with radio_supervised [of demo_radio_config 4 "new_backoff 1 8 2" "[Mt_Start radio_up, Mt_Resume radio_up]"]
  show ?thesis by (simp add: demo_radio_def demo_radio_config_def Let_def)
qed

text \<open>C17: A supervised radio that waits beside its device, which signals its loss once and not again, tries to build an
  interface after each delay of its backoff, one for the loss and one for each failure, and holds the first that can
  be built.  Then it waits again, unless it has mesh settings and they raise: that ends its supervisor.  (A
  signal that comes late closes the new interface: \<open>stale_signal_closes_new\<close>.)\<close>

theorem radio_recovers:
  assumes "mt_task r = Waiting_Lost" "mt_iface r" "\<not> mt_stopping r" "\<not> mt_lost r" "mt_calls r = [Call_Lost]"
    and "mc_reconnect C" "backoff_at k (mt_backoff r)"
    and "\<forall>a \<in> set as. isl (ra_built a)" "ra_built a = Inr ()"
  shows "let r' = foldl (radio_step C) r (Mt_Loop # Mt_Resume a0 # map Mt_Resume as @ [Mt_Resume a]) in
    mt_iface r' \<and> mt_reconnects r' = Suc (mt_reconnects r) \<and>
    mt_slept r' = mt_slept r @ map (delay_at (mt_backoff r)) [k..<Suc k + length as] \<and>
    mt_task r' = (if mc_has_mesh C then case ra_mesh a of Inl e \<Rightarrow> Task_Raised e | Inr _ \<Rightarrow> Waiting_Lost else Waiting_Lost)"
proof -
  obtain d b where sl: "sleep_and_advance (mt_backoff r) = (d, b)" by fastforce
  note st = delay_at_step [OF assms(7) sl]
  let ?u = "foldl (radio_step C) r [Mt_Loop, Mt_Resume a0]"
  have u: "mt_task ?u = Sleeping_Task" "\<not> mt_iface ?u" "\<not> mt_stopping ?u" "mt_backoff ?u = b" "\<not> mt_lost ?u"
    "mt_slept ?u = mt_slept r @ [d]" "mt_reconnects ?u = mt_reconnects r"
    using assms(1-6) sl
    by (simp_all add: radio_step_def supervise_resume_def after_lost_def close_iface_def radio_sleep_def Let_def)
  let ?v = "foldl (radio_step C) ?u (map Mt_Resume as)"
  have v: "mt_task ?v = Sleeping_Task" "\<not> mt_iface ?v" "\<not> mt_stopping ?v" "\<not> mt_lost ?v" "mt_reconnects ?v = mt_reconnects r"
    "mt_slept ?v = mt_slept r @ d # map (delay_at b) [Suc k..<Suc k + length as]"
    using resumes_fail [OF u(1-3), of "Suc k" as C] assms(8) u(4-7) st(2) by (simp_all add: Let_def)
  have "[k..<Suc k + length as] = k # [Suc k..<Suc k + length as]" by (simp add: upt_conv_Cons del: upt_Suc)
  then have "mt_slept ?v = mt_slept r @ map (delay_at (mt_backoff r)) [k..<Suc k + length as]" using v(6) st by simp
  moreover have "foldl (radio_step C) r (Mt_Loop # Mt_Resume a0 # map Mt_Resume as @ [Mt_Resume a]) = radio_step C ?v (Mt_Resume a)"
    by simp
  ultimately show ?thesis using v(1-5) assms(9)
    by (cases "ra_mesh a") (simp_all add: Let_def radio_step_def supervise_resume_def supervise_pass_def apply_mesh_def build_iface_def await_lost_def
        del: foldl_Cons foldl_append)
qed

theorem radio_recovers_witness:
  "let r = foldl (radio_step demo_radio_config) (demo_radio\<lparr>mt_calls := [Call_Lost]\<rparr>)
      (Mt_Loop # Mt_Resume radio_up # map Mt_Resume [radio_down, radio_down] @ [Mt_Resume radio_up])
   in mt_iface r \<and> mt_slept r = [1, 2, 4]"
proof -
  have "mt_task demo_radio = Waiting_Lost" "mt_iface demo_radio" "\<not> mt_stopping demo_radio" "\<not> mt_lost demo_radio"
    "mt_slept demo_radio = []" "mt_backoff demo_radio = new_backoff 1 8 2"
    by code_simp+
  then show ?thesis
    using radio_recovers [of "demo_radio\<lparr>mt_calls := [Call_Lost]\<rparr>" demo_radio_config 0 "[radio_down, radio_down]" radio_up radio_up]
    by (simp add: demo_radio_config_def radio_down_def radio_up_def backoff_at_def delay_at_def new_backoff_def Let_def
        upt_rec numeral_3_eq_3)
qed

text \<open>A signal that comes while the supervisor sleeps is not cleared: the next interface is closed again
  as soon as it is built.\<close>

lemma stale_signal_closes_new:
  "let r = foldl (radio_step demo_radio_config) demo_radio [Mt_Lost, Mt_Loop, Mt_Resume radio_up, Mt_Lost, Mt_Loop, Mt_Resume radio_up]
   in mt_built r = 2 \<and> mt_closed r = 2 \<and> mt_task r = Sleeping_Task"
  by code_simp

text \<open>Mesh settings that raise at a reconnect end the supervisor; a stop then raises too and leaves the
  interface and the subscriptions.\<close>

lemma mesh_error_ends_supervision:
  "let C = demo_radio_config\<lparr>mc_has_mesh := True\<rparr>;
       r = foldl (radio_step C) demo_radio [Mt_Lost, Mt_Loop, Mt_Resume radio_up, Mt_Resume (radio_up\<lparr>ra_mesh := Inl OSError\<rparr>)]
   in mt_task r = Task_Raised OSError \<and> fst (radio_stop r) = Inl OSError \<and>
      mt_iface (snd (radio_stop r)) \<and> mt_subscribed (snd (radio_stop r))"
  by code_simp

end
