(* ===== verification/Metrics_Text.thy ===== *)
theory Metrics_Text
  imports Mesh_Router Inference_Service
begin

text \<open>
  The metrics of a node: the Prometheus text (\<^verbatim>\<open>meshsa/metrics.py\<close>) and the snapshot and rendering
  of \<^verbatim>\<open>meshsa/health.py\<close>.  A node is what these functions read of it.
\<close>

section \<open>Prometheus text\<close>

definition replace_char :: "char \<Rightarrow> string \<Rightarrow> string \<Rightarrow> string" where
  "replace_char c r s = concat (map (\<lambda>x. if x = c then r else [x]) s)"

abbreviation "backslash \<equiv> CHR 0x5C"
abbreviation "quote \<equiv> CHR 0x22"
abbreviation "newline \<equiv> CHR 0x0A"

definition escape_label_value :: "string \<Rightarrow> string" where
  "escape_label_value v =
     replace_char newline [backslash, CHR ''n'']
       (replace_char quote [backslash, quote] (replace_char backslash [backslash, backslash] v))"

definition transport_metrics :: "(string \<times> string) list" where
  "transport_metrics =
     [(''dropped_inbox_full'', ''meshsa_transport_dropped_inbox_full''),
      (''reconnects'', ''meshsa_transport_reconnects''),
      (''rx_frames'', ''meshsa_transport_rx_frames'')]"

definition inference_metrics :: "(string \<times> string) list" where
  "inference_metrics =
     [(''offline_dropped'', ''meshsa_inference_offline_dropped_total''),
      (''intake_dropped'', ''meshsa_inference_intake_dropped_total''),
      (''offline_queue_depth'', ''meshsa_inference_offline_queue_depth''),
      (''pending_tasks'', ''meshsa_inference_pending_tasks'')]"

type_synonym counters = "(string \<times> nat) list"

definition counter :: "counters \<Rightarrow> string \<Rightarrow> nat" where
  "counter cs key = (case map_of cs key of None \<Rightarrow> 0 | Some n \<Rightarrow> n)"

definition router_lines :: "router_metrics \<Rightarrow> string list" where
  "router_lines m =
     [''meshsa_rx_total '' @ str_nat (rx m), ''meshsa_tx_total '' @ str_nat (tx m),
      ''meshsa_forwarded_total '' @ str_nat (forwarded m),
      ''meshsa_dropped_undecodable_total '' @ str_nat (dropped_undecodable m),
      ''meshsa_schema_mismatch_total '' @ str_nat (schema_mismatch m)]"

definition transport_line :: "string \<Rightarrow> string \<Rightarrow> nat \<Rightarrow> string" where
  "transport_line metric label n =
     metric @ ''{transport='' @ [quote] @ label @ [quote] @ ''} '' @ str_nat n"

definition transport_lines :: "string \<times> counters \<Rightarrow> string list" where
  "transport_lines t =
     (case t of (name, cs) \<Rightarrow>
        map (\<lambda>(key, metric). transport_line metric (escape_label_value name) (counter cs key)) transport_metrics)"

definition inference_lines :: "counters option \<Rightarrow> string list" where
  "inference_lines infs =
     (case infs of
        None \<Rightarrow> []
      | Some cs \<Rightarrow> map (\<lambda>(key, metric). metric @ '' '' @ str_nat (counter cs key)) inference_metrics)"

fun join_lines :: "string list \<Rightarrow> string" where
  \<comment> \<open>\<^verbatim>\<open>"\n".join\<close>\<close>
  "join_lines [] = []"
| "join_lines [l] = l"
| "join_lines (l # ls) = l @ newline # join_lines ls"

definition metric_lines :: "router_metrics \<Rightarrow> (string \<times> counters) list \<Rightarrow> counters option \<Rightarrow> string list" where
  "metric_lines m ts infs = router_lines m @ concat (map transport_lines ts) @ inference_lines infs"

definition render_prometheus :: "router_metrics \<Rightarrow> (string \<times> counters) list \<Rightarrow> counters option \<Rightarrow> string" where
  "render_prometheus m ts infs = join_lines (metric_lines m ts infs) @ [newline]"

section \<open>The node's health\<close>

record node_view =
  nv_uid :: string
  nv_metrics :: router_metrics
  nv_transports :: "(string \<times> counters) list"
  nv_inference :: "infer_service option"

text \<open>A transport has the attributes of its counters or not; a later one of the same name replaces
  the values of the earlier.\<close>

definition transport_counters :: "node_view \<Rightarrow> (string \<times> counters) list" where
  "transport_counters n =
     foldl (\<lambda>d (name, cs). AList.update name (map (\<lambda>key. (key, counter cs key))
         [''dropped_inbox_full'', ''reconnects'', ''rx_frames'']) d) [] (nv_transports n)"

definition counters_json :: "counters \<Rightarrow> json" where
  "counters_json cs = JObj (map (\<lambda>(k, n). (k, JInt (int n))) cs)"

definition metrics_counters :: "router_metrics \<Rightarrow> counters" where
  "metrics_counters m =
     [(''rx'', rx m), (''tx'', tx m), (''forwarded'', forwarded m),
      (''dropped_undecodable'', dropped_undecodable m), (''schema_mismatch'', schema_mismatch m)]"

definition transports_json :: "node_view \<Rightarrow> json" where
  "transports_json n = JObj (map (\<lambda>(name, cs). (name, counters_json cs)) (transport_counters n))"

definition health_snapshot :: "node_view \<Rightarrow> (string \<times> json) list" where
  "health_snapshot n =
     [(''status'', JStr ''ok''), (''uid'', JStr (nv_uid n)), (''metrics'', counters_json (metrics_counters (nv_metrics n))),
      (''transports'', transports_json n)]"

definition inference_counters :: "infer_service \<Rightarrow> counters" where
  "inference_counters s =
     (case service_counters s of (dropped, depth, intake, pending) \<Rightarrow>
        [(''offline_dropped'', dropped), (''offline_queue_depth'', depth), (''intake_dropped'', intake),
         (''pending_tasks'', pending)])"

datatype metrics_format = Prometheus | Json_Metrics
datatype metrics_body = Metrics_Text string | Metrics_Json "(string \<times> json) list"

definition render_metrics :: "node_view \<Rightarrow> metrics_format \<Rightarrow> metrics_body" where
  "render_metrics n fmt =
     (let inference = map_option inference_counters (nv_inference n)
      in case fmt of
           Json_Metrics \<Rightarrow>
             Metrics_Json ([(''metrics'', counters_json (metrics_counters (nv_metrics n))), (''transports'', transports_json n)]
               @ (case inference of None \<Rightarrow> [] | Some cs \<Rightarrow> [(''inference'', counters_json cs)]))
         | Prometheus \<Rightarrow> Metrics_Text (render_prometheus (nv_metrics n) (transport_counters n) inference))"

section \<open>Reading the text\<close>

text \<open>A scraper: the lines of the text, and of each the metric, the label's value and the number.\<close>

fun unescape_label :: "string \<Rightarrow> string option" where
  "unescape_label [] = Some []"
| "unescape_label (c # cs) =
     (if c = backslash then
        (case cs of
           [] \<Rightarrow> None
         | d # ds \<Rightarrow>
             (case unescape_label ds of
                None \<Rightarrow> None
              | Some s \<Rightarrow> if d = backslash then Some (backslash # s) else if d = quote then Some (quote # s)
                          else if d = CHR ''n'' then Some (newline # s) else None))
      else if c = quote \<or> c = newline then None
      else (case unescape_label cs of None \<Rightarrow> None | Some s \<Rightarrow> Some (c # s)))"

lemma replace_char_simps [simp]:
  "replace_char c r [] = []" "replace_char c r (x # s) = (if x = c then r else [x]) @ replace_char c r s"
  "replace_char c r (s @ t) = replace_char c r s @ replace_char c r t"
  by (simp_all add: replace_char_def)

lemma escape_simps [simp]:
  "escape_label_value [] = []"
  "escape_label_value (x # s) =
     (if x = backslash then [backslash, backslash] else if x = quote then [backslash, quote]
      else if x = newline then [backslash, CHR ''n''] else [x]) @ escape_label_value s"
  by (simp_all add: escape_label_value_def)

lemma unescape_escape: "unescape_label (escape_label_value s) = Some s"
  by (induction s) simp_all

lemma escape_inj: "escape_label_value s = escape_label_value t \<longleftrightarrow> s = t"
  by (metis unescape_escape option.inject)

lemma escape_one_line: "newline \<notin> set (escape_label_value s)"
  by (induction s) auto

lemma str_nat_no: "c \<notin> set (str_nat n)" if "\<not> is_digit c"
  using str_nat_digits [of c n] that by blast

lemma line_has_no_break:
  assumes "l \<in> set (metric_lines m ts infs)"
  shows "newline \<notin> set l"
proof -
  have "newline \<notin> set (str_nat n)" for n by (rule str_nat_no) code_simp
  with assms escape_one_line show ?thesis
    by (auto simp: metric_lines_def router_lines_def transport_lines_def transport_line_def inference_lines_def
        transport_metrics_def inference_metrics_def split: option.splits prod.splits)
qed

lemma split_joined:
  "ls \<noteq> [] \<Longrightarrow> \<forall>l \<in> set ls. newline \<notin> set l \<Longrightarrow> py_split newline (join_lines ls @ [newline]) = ls @ [[]]"
proof (induction ls rule: join_lines.induct)
  case (2 l)
  then show ?case using py_split_join [of newline l "[]"] by simp
next
  case (3 l l' ls)
  then show ?case using py_split_join [of newline l "join_lines (l' # ls) @ [newline]"] by simp
qed simp

lemma render_lines:
  "py_split newline (render_prometheus m ts infs) = metric_lines m ts infs @ [[]]"
  unfolding render_prometheus_def
  by (rule split_joined) (use line_has_no_break in \<open>auto simp: metric_lines_def router_lines_def\<close>)

text \<open>A line determines its label and its number: the number is what follows the last blank.\<close>

lemma str_nat_inj_iff: "str_nat m = str_nat n \<longleftrightarrow> m = n"
  by (metis unsigned_int_str_nat option.inject)

lemma last_split:
  fixes c :: char
  assumes "xs @ c # d = ys @ c # d'" "c \<notin> set d" "c \<notin> set d'"
  shows "xs = ys \<and> d = d'"
proof -
  have eq: "rev d @ c # rev xs = rev d' @ c # rev ys" using arg_cong [OF assms(1), of rev] by simp
  have "(rev d, True, rev xs) = py_partition c (rev d @ c # rev xs)" using assms(2) by (simp add: partition_append)
  also have "\<dots> = (rev d', True, rev ys)" unfolding eq using assms(3) by (simp add: partition_append)
  finally show ?thesis by simp
qed

lemma number_no_blank: "CHR '' '' \<notin> set (str_nat n)"
  by (rule str_nat_no) code_simp

lemma transport_line_inj:
  "transport_line metric label n = transport_line metric label' n' \<longleftrightarrow> label = label' \<and> n = n'"
proof
  assume "transport_line metric label n = transport_line metric label' n'"
  then have "(label @ [quote, CHR ''}'']) @ CHR '' '' # str_nat n = (label' @ [quote, CHR ''}'']) @ CHR '' '' # str_nat n'"
    by (simp add: transport_line_def)
  from last_split [OF this number_no_blank number_no_blank] show "label = label' \<and> n = n'"
    by (simp add: str_nat_inj_iff)
qed simp

definition transport_values :: "string \<times> counters \<Rightarrow> string \<times> nat list" where
  "transport_values t = (case t of (name, cs) \<Rightarrow> (name, map (\<lambda>(k, _). counter cs k) transport_metrics))"

definition inference_values :: "counters \<Rightarrow> nat list" where
  "inference_values cs = map (\<lambda>(k, _). counter cs k) inference_metrics"

lemma transport_lines_inj: "transport_lines t = transport_lines u \<longleftrightarrow> transport_values t = transport_values u"
  by (cases t; cases u)
    (auto simp: transport_lines_def transport_values_def transport_metrics_def transport_line_inj escape_inj)

lemma length_transport_lines [simp]: "length (transport_lines t) = 3"
  by (simp add: transport_lines_def transport_metrics_def split: prod.split)

lemma concat_transport_lines:
  "length ts = length us \<Longrightarrow> concat (map transport_lines ts) = concat (map transport_lines us) \<longleftrightarrow>
     map transport_values ts = map transport_values us"
  by (induction ts us rule: list_induct2) (simp_all add: transport_lines_inj)

lemma length_all_transports: "length (concat (map transport_lines ts)) = 3 * length ts"
  by (induction ts) simp_all

lemma inference_lines_inj:
  "inference_lines i = inference_lines j \<longleftrightarrow> map_option inference_values i = map_option inference_values j"
  by (cases i; cases j) (auto simp: inference_lines_def inference_metrics_def inference_values_def str_nat_inj_iff)

lemma router_lines_inj: "router_lines m = router_lines m' \<longleftrightarrow> m = m'"
  by (cases m; cases m') (auto simp: router_lines_def str_nat_inj_iff)

lemma metric_lines_inj:
  assumes "metric_lines m ts i = metric_lines m' ts' i'"
  shows "m = m' \<and> map transport_values ts = map transport_values ts' \<and>
    map_option inference_values i = map_option inference_values i'"
proof -
  let ?t = "\<lambda>ts. concat (map transport_lines ts)"
  have r: "router_lines m = router_lines m'" "?t ts @ inference_lines i = ?t ts' @ inference_lines i'"
    using assms by (simp_all add: metric_lines_def router_lines_def)
  have l: "length (inference_lines j) \<in> {0, 4}" for j
    by (cases j) (simp_all add: inference_lines_def inference_metrics_def)
  have "3 * length ts + length (inference_lines i) = 3 * length ts' + length (inference_lines i')"
    using arg_cong [OF r(2), of length] by (simp add: length_all_transports)
  then have "length ts = length ts'" using l [of i] l [of i'] by (auto; presburger)
  moreover from this have "?t ts = ?t ts' \<and> inference_lines i = inference_lines i'"
    using r(2) by (subst (asm) append_eq_append_conv) (simp_all add: length_all_transports)
  ultimately show ?thesis using r(1) by (simp add: concat_transport_lines inference_lines_inj router_lines_inj)
qed

end
