(* ===== verification/Web_Kit.thy ===== *)
theory Web_Kit
  imports Metrics_Text Net_Auth Scout_Core
begin

text \<open>
  The HTTP services: the shared kit (\<^verbatim>\<open>meshsa/_web.py\<close>, \<^verbatim>\<open>meshsa/_webpage.py\<close>) and the four route tables over it,
  of the operator console (\<^verbatim>\<open>meshsa/ui/app.py\<close>), the scouting station (\<^verbatim>\<open>meshsa/scout/station/app.py\<close>), the
  assistant (\<^verbatim>\<open>meshsa/llm/server.py\<close>) and the health listener (\<^verbatim>\<open>meshsa/health.py\<close>).  The matching of a
  request to a row of the table is aiohttp's; a handler takes the state of the service and returns it.
  The constant texts of the pages are parameters.
\<close>

section \<open>Requests and responses\<close>

text \<open>\<open>rq_json\<close> is the parsed body, \<open>None\<close> where there is none or it does not parse.\<close>

record request =
  rq_auth :: "string option"
  rq_token :: "string option"
  rq_json :: "json option"
  rq_det_id :: string

datatype content = Json_Body json | Text_Body string string

record response =
  rs_status :: nat
  rs_no_store :: bool
  rs_challenge :: "string option"
  rs_content :: content

type_synonym 's handler = "request \<Rightarrow> 's \<Rightarrow> (py_exn + response) \<times> 's"
type_synonym 's route_table = "(string \<times> string \<times> 's handler) list"

record service_auth =
  sa_service :: string
  sa_token :: "string option"

definition normalize_token :: "string option \<Rightarrow> string option" where
  "normalize_token token =
     (case token of None \<Rightarrow> None | Some t \<Rightarrow> if py_strip t = [] then None else Some (py_strip t))"

definition challenge :: "service_auth \<Rightarrow> string" where
  "challenge a = ''Bearer realm='' @ [quote] @ sa_service a @ [quote]"

definition allows :: "service_auth \<Rightarrow> string option \<Rightarrow> bool" where
  "allows a header = authorize (sa_token a) header"

definition allows_query_token :: "service_auth \<Rightarrow> string option \<Rightarrow> bool" where
  "allows_query_token a presented =
     authorize (sa_token a) (Some (''Bearer '' @ (case presented of None \<Rightarrow> [] | Some t \<Rightarrow> t)))"

definition unauthorized :: "service_auth \<Rightarrow> response" where
  "unauthorized a =
     \<lparr>rs_status = 401, rs_no_store = True, rs_challenge = Some (challenge a),
      rs_content = Json_Body (JObj [(''error'', JStr ''unauthorized'')])\<rparr>"

definition bearer_guard :: "service_auth \<Rightarrow> request \<Rightarrow> response option" where
  "bearer_guard a rq = (if allows a (rq_auth rq) then None else Some (unauthorized a))"

definition page_token_gate :: "service_auth \<Rightarrow> request \<Rightarrow> response option" where
  "page_token_gate a rq = (if allows_query_token a (rq_token rq) then None else Some (unauthorized a))"

definition guarded :: "service_auth \<Rightarrow> 's handler \<Rightarrow> 's handler" where
  "guarded a handler = (\<lambda>rq s. case bearer_guard a rq of Some denied \<Rightarrow> (Inr denied, s) | None \<Rightarrow> handler rq s)"

definition api_json :: "json \<Rightarrow> nat \<Rightarrow> response" where
  "api_json body status = \<lparr>rs_status = status, rs_no_store = True, rs_challenge = None, rs_content = Json_Body body\<rparr>"

definition text_body :: "string \<Rightarrow> string \<Rightarrow> response" where
  "text_body t content_type =
     \<lparr>rs_status = 200, rs_no_store = True, rs_challenge = None, rs_content = Text_Body content_type t\<rparr>"

definition html_page :: "string \<Rightarrow> response" where
  "html_page page = text_body page ''text/html''"

text \<open>A response outside the kit: cacheable.\<close>

definition plain_response :: "content \<Rightarrow> response" where
  "plain_response c = \<lparr>rs_status = 200, rs_no_store = False, rs_challenge = None, rs_content = c\<rparr>"

definition healthz :: "'s handler" where
  "healthz = (\<lambda>rq s. (Inr (plain_response (Json_Body (JObj [(''status'', JStr ''ok'')]))), s))"

definition upstream_error :: "string \<Rightarrow> response" where
  "upstream_error message = api_json (JObj [(''error'', JStr message)]) 502"

section \<open>Embedding a value in a page\<close>

definition js_literal :: "(json \<Rightarrow> string) \<Rightarrow> json \<Rightarrow> string" where
  "js_literal dumps v =
     replace_char (CHR ''&'') ([backslash] @ ''u0026'')
       (replace_char (CHR ''>'') ([backslash] @ ''u003e'')
         (replace_char (CHR ''<'') ([backslash] @ ''u003c'') (dumps v)))"

section \<open>The operator console\<close>

text \<open>The sources are interfaces of the source; each reads, and may change, the service's state.\<close>

type_synonym ('s, 'a) reading = "'s \<Rightarrow> (py_exn + 'a) \<times> 's"

record 's ui_sources =
  us_tracks :: "('s, json) reading"
  us_detections :: "('s, json) reading"
  us_counters :: "('s, (string \<times> json) list) reading"
  us_health :: "('s, (string \<times> json) list) reading option"
  us_fpv :: "('s, json) reading option"
  us_chat :: "(json option \<Rightarrow> ('s, json \<times> nat) reading) option"
  us_logs :: "('s, json list) reading option"

definition UPSTREAM_ERROR :: string where
  "UPSTREAM_ERROR = ''source unavailable; check the server logs''"

definition panel_manifest :: "'s ui_sources \<Rightarrow> string list" where
  "panel_manifest S =
     [''tracks'', ''detections'', ''health'']
     @ (if us_fpv S = None then [] else [''fpv'']) @ (if us_chat S = None then [] else [''chat''])
     @ (if us_logs S = None then [] else [''logs''])"

definition json_route :: "service_auth \<Rightarrow> ('s, json) reading \<Rightarrow> 's handler" where
  "json_route a read = guarded a (\<lambda>rq s.
     case read s of
       (Inl e, s1) \<Rightarrow> (Inr (upstream_error UPSTREAM_ERROR), s1)
     | (Inr v, s1) \<Rightarrow> (Inr (api_json v 200), s1))"

definition chat_route :: "service_auth \<Rightarrow> (json option \<Rightarrow> ('s, json \<times> nat) reading) \<Rightarrow> 's handler" where
  "chat_route a reply = guarded a (\<lambda>rq s.
     case reply (rq_json rq) s of
       (Inl e, s1) \<Rightarrow> (Inr (upstream_error UPSTREAM_ERROR), s1)
     | (Inr (body, status), s1) \<Rightarrow> (Inr (api_json body status), s1))"

text \<open>\<^verbatim>\<open>dict.update\<close>.\<close>

definition dict_update :: "(string \<times> json) list \<Rightarrow> (string \<times> json) list \<Rightarrow> (string \<times> json) list" where
  "dict_update d items = foldl (\<lambda>d (k, v). AList.update k v d) d items"

definition health_body :: "'s ui_sources \<Rightarrow> ('s, json) reading" where
  "health_body S s =
     (case us_counters S s of
        (Inl e, s1) \<Rightarrow> (Inl e, s1)
      | (Inr cs, s1) \<Rightarrow>
          let body = [(''snapshot'', JObj cs)]
          in case us_health S of
               None \<Rightarrow> (Inr (JObj body), s1)
             | Some read \<Rightarrow>
                 (case read s1 of
                    (Inl e, s2) \<Rightarrow> (Inl e, s2)
                  | (Inr items, s2) \<Rightarrow> (Inr (JObj (dict_update body items)), s2)))"

definition log_entries :: "('s, json list) reading \<Rightarrow> ('s, json) reading" where
  "log_entries read s =
     (case read s of (Inl e, s1) \<Rightarrow> (Inl e, s1) | (Inr es, s1) \<Rightarrow> (Inr (JObj [(''entries'', JArr es)]), s1))"

definition ui_index :: "(string option \<Rightarrow> string list \<Rightarrow> string) \<Rightarrow> service_auth \<Rightarrow> 's ui_sources \<Rightarrow> 's handler" where
  "ui_index render a S = (\<lambda>rq s.
     case page_token_gate a rq of
       Some denied \<Rightarrow> (Inr denied, s)
     | None \<Rightarrow> (Inr (html_page (render (sa_token a) (panel_manifest S))), s))"

definition ui_routes :: "(string option \<Rightarrow> string list \<Rightarrow> string) \<Rightarrow> service_auth \<Rightarrow> 's ui_sources \<Rightarrow> 's route_table" where
  "ui_routes render a S =
     [(''GET'', ''/'', ui_index render a S),
      (''GET'', ''/healthz'', healthz),
      (''GET'', ''/api/tracks'', json_route a (us_tracks S)),
      (''GET'', ''/api/detections'', json_route a (us_detections S)),
      (''GET'', ''/api/health'', json_route a (health_body S))]
     @ (case us_fpv S of None \<Rightarrow> [] | Some r \<Rightarrow> [(''GET'', ''/api/fpv'', json_route a r)])
     @ (case us_chat S of None \<Rightarrow> [] | Some c \<Rightarrow> [(''POST'', ''/api/chat'', chat_route a c)])
     @ (case us_logs S of None \<Rightarrow> [] | Some r \<Rightarrow> [(''GET'', ''/api/logs'', json_route a (log_entries r))])"

text \<open>The factory: \<open>override\<close> is the token argument, \<open>configured\<close> the one of the configuration.\<close>

definition build_ui_app ::
  "(string option \<Rightarrow> string list \<Rightarrow> string) \<Rightarrow> 's ui_sources \<Rightarrow> string option \<Rightarrow> string option \<Rightarrow> string option \<Rightarrow>
     py_exn + 's route_table" where
  "build_ui_app render S configured host override =
     (let token = (case override of None \<Rightarrow> configured | Some t \<Rightarrow> normalize_token (Some t));
          a = \<lparr>sa_service = ''meshsa-ui'', sa_token = token\<rparr>
      in then_ok (case host of None \<Rightarrow> Inr () | Some h \<Rightarrow> validate_bind h token) (\<lambda>_. Inr (ui_routes render a S)))"

section \<open>The scouting station\<close>

text \<open>What the station needs of a store; \<open>to_geojson\<close> and \<open>to_csv\<close> render its detections.\<close>

record 's station_store =
  ss_all :: "'s \<Rightarrow> geo_detection list"
  ss_set_status :: "'s \<Rightarrow> string \<Rightarrow> string \<Rightarrow> (py_exn + geo_detection option) \<times> 's"
  ss_geojson :: "geo_detection list \<Rightarrow> json"
  ss_csv :: "geo_detection list \<Rightarrow> string"

fun quoted_list :: "string list \<Rightarrow> string" where
  \<comment> \<open>the inside of \<^verbatim>\<open>str\<close> of a list of plain strings\<close>
  "quoted_list [] = []"
| "quoted_list [x] = [CHR 0x27] @ x @ [CHR 0x27]"
| "quoted_list (x # xs) = [CHR 0x27] @ x @ [CHR 0x27] @ '', '' @ quoted_list xs"

definition STATUS_ERROR :: string where
  "STATUS_ERROR = ''status must be one of ['' @ quoted_list DETECTION_STATUSES @ '']''"

definition set_status_body ::
  "'s station_store \<Rightarrow> string \<Rightarrow> json option \<Rightarrow> 's \<Rightarrow> (py_exn + json \<times> nat) \<times> 's" where
  "set_status_body T i payload s =
     (case payload of
        Some (JObj kvs) \<Rightarrow>
          (case map_of kvs ''status'' of
             Some (JStr status) \<Rightarrow>
               if status \<notin> set DETECTION_STATUSES then (Inr (JObj [(''error'', JStr STATUS_ERROR)], 400), s)
               else
                 (case ss_set_status T s i status of
                    (Inl e, s1) \<Rightarrow> (Inl e, s1)
                  | (Inr None, s1) \<Rightarrow> (Inr (JObj [(''error'', JStr ''unknown detection id'')], 404), s1)
                  | (Inr (Some d), s1) \<Rightarrow>
                      (Inr (JObj [(''id'', JStr (gd_id d)), (''status'', JStr (gd_status d))], 200), s1))
           | _ \<Rightarrow> (Inr (JObj [(''error'', JStr STATUS_ERROR)], 400), s))
      | _ \<Rightarrow> (Inr (JObj [(''error'', JStr ''expected a JSON object'')], 400), s))"

definition station_index :: "(string option \<Rightarrow> string) \<Rightarrow> service_auth \<Rightarrow> 's handler" where
  "station_index render a = (\<lambda>rq s.
     case page_token_gate a rq of Some denied \<Rightarrow> (Inr denied, s) | None \<Rightarrow> (Inr (html_page (render (sa_token a))), s))"

definition station_detections :: "'s station_store \<Rightarrow> 's handler" where
  "station_detections T = (\<lambda>rq s. (Inr (api_json (ss_geojson T (ss_all T s)) 200), s))"

definition station_csv :: "'s station_store \<Rightarrow> 's handler" where
  "station_csv T = (\<lambda>rq s. (Inr (text_body (ss_csv T (ss_all T s)) ''text/csv''), s))"

definition station_block :: "json option \<Rightarrow> 's handler" where
  "station_block block = (\<lambda>rq s.
     (Inr (case block of None \<Rightarrow> api_json (JObj [(''error'', JStr ''no block loaded'')]) 404 | Some j \<Rightarrow> api_json j 200), s))"

definition station_set_status :: "'s station_store \<Rightarrow> 's handler" where
  "station_set_status T = (\<lambda>rq s.
     case set_status_body T (rq_det_id rq) (rq_json rq) s of
       (Inl e, s1) \<Rightarrow> (Inl e, s1)
     | (Inr (body, status), s1) \<Rightarrow> (Inr (api_json body status), s1))"

definition station_routes ::
  "(string option \<Rightarrow> string) \<Rightarrow> service_auth \<Rightarrow> 's station_store \<Rightarrow> json option \<Rightarrow> 's route_table" where
  "station_routes render a T block =
     [(''GET'', ''/'', station_index render a),
      (''GET'', ''/healthz'', healthz),
      (''GET'', ''/detections'', guarded a (station_detections T)),
      (''GET'', ''/export.geojson'', guarded a (station_detections T)),
      (''GET'', ''/export.csv'', guarded a (station_csv T)),
      (''GET'', ''/block'', guarded a (station_block block)),
      (''POST'', ''/detections/{det_id}/status'', guarded a (station_set_status T))]"

definition build_station ::
  "(string option \<Rightarrow> string) \<Rightarrow> 's station_store \<Rightarrow> string option \<Rightarrow> string option \<Rightarrow> json option \<Rightarrow>
     py_exn + 's route_table" where
  "build_station render T host token block =
     then_ok (case host of None \<Rightarrow> Inr () | Some h \<Rightarrow> validate_bind h token)
       (\<lambda>_. Inr (station_routes render \<lparr>sa_service = ''meshsa-scout'', sa_token = token\<rparr> T block))"

text \<open>The station over the in-memory store.\<close>

definition mem_station ::
  "(geo_detection list \<Rightarrow> json) \<Rightarrow> (geo_detection list \<Rightarrow> string) \<Rightarrow> mem_store station_store" where
  "mem_station geojson csv =
     \<lparr>ss_all = mem_all,
      ss_set_status = (\<lambda>st i v. case set_status mem_add mem_get st i v of
         Inl e \<Rightarrow> (Inl e, st) | Inr (r, st') \<Rightarrow> (Inr r, st')),
      ss_geojson = geojson, ss_csv = csv\<rparr>"

section \<open>The assistant's server\<close>

record agent_reply =
  ar_text :: string
  ar_stop_reason :: string
  ar_tool_calls :: "string list"

definition LLM_UPSTREAM_ERROR :: string where
  "LLM_UPSTREAM_ERROR = ''assistant unavailable; check the server logs''"

definition MISSING_PROMPT :: string where
  "MISSING_PROMPT = ''missing '' @ [CHR 0x27] @ ''prompt'' @ [CHR 0x27]"

definition chat_reply ::
  "(string \<Rightarrow> ('s, agent_reply) reading) \<Rightarrow> int \<Rightarrow> json option \<Rightarrow> 's \<Rightarrow> (json \<times> nat) \<times> 's" where
  "chat_reply ask max_prompt_chars payload s =
     (case payload of
        Some (JObj kvs) \<Rightarrow>
          (case map_of kvs ''prompt'' of
             Some (JStr prompt) \<Rightarrow>
               if py_strip prompt = [] then ((JObj [(''error'', JStr MISSING_PROMPT)], 400), s)
               else if max_prompt_chars < int (length prompt) then ((JObj [(''error'', JStr (''prompt too long (max '' @ str_int max_prompt_chars @ '' chars)''))], 400), s)
               else
                 (case ask (py_strip prompt) s of
                    (Inl e, s1) \<Rightarrow> ((JObj [(''error'', JStr LLM_UPSTREAM_ERROR)], 502), s1)
                  | (Inr r, s1) \<Rightarrow>
                      ((JObj [(''reply'', JStr (ar_text r)), (''tools'', JArr (map JStr (ar_tool_calls r))),
                              (''stop_reason'', JStr (ar_stop_reason r))], 200), s1))
           | _ \<Rightarrow> ((JObj [(''error'', JStr MISSING_PROMPT)], 400), s))
      | _ \<Rightarrow> ((JObj [(''error'', JStr ''expected a JSON object'')], 400), s))"

definition llm_chat :: "(string \<Rightarrow> ('s, agent_reply) reading) \<Rightarrow> int \<Rightarrow> 's handler" where
  "llm_chat ask max_prompt_chars = (\<lambda>rq s.
     case chat_reply ask max_prompt_chars (rq_json rq) s of ((body, status), s1) \<Rightarrow> (Inr (api_json body status), s1))"

definition llm_routes :: "string \<Rightarrow> service_auth \<Rightarrow> (string \<Rightarrow> ('s, agent_reply) reading) \<Rightarrow> int \<Rightarrow> 's route_table" where
  "llm_routes widget a ask max_prompt_chars =
     [(''GET'', ''/'', \<lambda>rq s. (Inr (plain_response (Text_Body ''text/html'' widget)), s)),
      (''POST'', ''/chat'', guarded a (llm_chat ask max_prompt_chars)),
      (''GET'', ''/healthz'', healthz)]"

section \<open>The health listener\<close>

definition node_healthz :: "('s \<Rightarrow> node_view) \<Rightarrow> 's handler" where
  "node_healthz view = (\<lambda>rq s. (Inr (plain_response (Json_Body (JObj (health_snapshot (view s))))), s))"

definition metrics_handler :: "('s \<Rightarrow> node_view) \<Rightarrow> metrics_format \<Rightarrow> 's handler" where
  "metrics_handler view fmt = (\<lambda>rq s.
     (Inr (case render_metrics (view s) fmt of
             Metrics_Text t \<Rightarrow> text_body t ''text/plain''
           | Metrics_Json items \<Rightarrow> api_json (JObj items) 200), s))"

definition metrics_route_path :: "string \<Rightarrow> string" where
  "metrics_route_path path = (if prefix ''/'' path then path else CHR ''/'' # path)"

definition healthz_routes ::
  "('s \<Rightarrow> node_view) \<Rightarrow> string option \<Rightarrow> bool \<Rightarrow> string \<Rightarrow> metrics_format \<Rightarrow> 's route_table" where
  "healthz_routes view token metrics_enabled metrics_path fmt =
     (''GET'', ''/healthz'', node_healthz view) #
     (if metrics_enabled
      then [(''GET'', metrics_route_path metrics_path,
             guarded \<lparr>sa_service = ''meshsa-metrics'', sa_token = token\<rparr> (metrics_handler view fmt))]
      else [])"

text \<open>\<^verbatim>\<open>serve_healthz\<close> up to its socket: an argument that is given wins over the configuration.\<close>

record health_config =
  hc_token :: "string option"
  hc_metrics_enabled :: bool
  hc_metrics_path :: string
  hc_metrics_format :: metrics_format

definition serve_healthz ::
  "('s \<Rightarrow> node_view) \<Rightarrow> health_config \<Rightarrow> string \<Rightarrow> string option \<Rightarrow> bool option \<Rightarrow> string option \<Rightarrow> metrics_format option \<Rightarrow>
     py_exn + 's route_table" where
  "serve_healthz view H host token enabled path fmt =
     (let t = (case token of None \<Rightarrow> hc_token H | Some t \<Rightarrow> Some t)
      in then_ok (validate_bind host t) (\<lambda>_.
           Inr (healthz_routes view t
             (case enabled of None \<Rightarrow> hc_metrics_enabled H | Some b \<Rightarrow> b)
             (case path of None \<Rightarrow> hc_metrics_path H | Some p \<Rightarrow> p)
             (case fmt of None \<Rightarrow> hc_metrics_format H | Some f \<Rightarrow> f))))"

end
