(* ===== verification/Py_Format.thy ===== *)
theory Py_Format
  imports Py_Strings
begin

text \<open>
  Text made of values: \<^verbatim>\<open>f"{x:.kf}"\<close> with the lemma that \<^verbatim>\<open>float()\<close> reads it back within half a unit of
  its last digit, \<^verbatim>\<open>sep.join\<close>, and the reading of what was joined.
\<close>

section \<open>Fixed-point text\<close>

definition pad_zeros :: "nat \<Rightarrow> string \<Rightarrow> string" where
  "pad_zeros k s = replicate (k - length s) (CHR ''0'') @ s"

text \<open>The sign stays when the digits round to zero.\<close>

definition fixed_text :: "nat \<Rightarrow> pyfloat \<Rightarrow> string" where
  "fixed_text k x =
     (case x of
        Fin r \<Rightarrow>
          let n = nat (py_round (\<bar>r\<bar> * 10 ^ k));
              digits = str_nat (n div 10 ^ k) @ (if k = 0 then [] else CHR ''.'' # pad_zeros k (str_nat (n mod 10 ^ k)))
          in (if r < 0 then CHR ''-'' # digits else digits)
      | PInf \<Rightarrow> ''inf'' | NInf \<Rightarrow> ''-inf'' | NaN \<Rightarrow> ''nan'')"

lemma zero_digit: "is_digit CHR ''0''"
  by (simp add: is_digit_def code_def)

lemma pad_zeros_digits: "list_all is_digit s \<Longrightarrow> list_all is_digit (pad_zeros k s)"
  by (auto simp: pad_zeros_def list_all_iff zero_digit)

lemma str_nat_all_digits: "list_all is_digit (str_nat n)"
  using str_nat_digits by (auto simp: list_all_iff)

lemma zeros_value: "xs \<noteq> [] \<Longrightarrow> digits_value b 0 (replicate j (CHR ''0'') @ xs) = digits_value (b \<or> 0 < j) 0 xs"
proof (induction j arbitrary: b)
  case (Suc j)
  then show ?case using zero_digit by (simp add: code_def)
qed simp

lemma digits_flag: "xs \<noteq> [] \<Longrightarrow> is_digit (hd xs) \<Longrightarrow> digits_value b acc xs = digits_value b' acc xs"
  by (cases xs) simp_all

lemma unsigned_int_pad: "unsigned_int (pad_zeros k (str_nat n)) = Some n"
proof -
  have "is_digit (hd (str_nat n))" using str_nat_digits [of _ n] by simp
  then have "unsigned_int (pad_zeros k (str_nat n)) = unsigned_int (str_nat n)"
    unfolding unsigned_int_def pad_zeros_def
    by (subst zeros_value) (simp, rule digits_flag, simp_all)
  then show ?thesis by (simp add: unsigned_int_str_nat)
qed

lemma length_str_nat: "0 < k \<Longrightarrow> n < 10 ^ k \<Longrightarrow> length (str_nat n) \<le> k"
proof (induction k arbitrary: n)
  case (Suc k)
  show ?case
  proof (cases "n < 10")
    case True
    then show ?thesis by (simp add: str_nat.simps [of n])
  next
    case False
    then have "0 < k" using Suc.prems by (cases k) auto
    moreover have "n div 10 < 10 ^ k" using Suc.prems(2) by (simp add: less_mult_imp_div_less)
    ultimately have "length (str_nat (n div 10)) \<le> k" by (rule Suc.IH)
    with False show ?thesis by (simp add: str_nat.simps [of n])
  qed
qed simp

lemma digit_count_all: "list_all is_digit s \<Longrightarrow> digit_count s = length s"
  by (simp add: digit_count_def list_all_iff)

lemma digit_facts:
  assumes "is_digit c"
  shows "lower_char c = c" "c \<noteq> CHR ''e''" "c \<noteq> CHR ''.''" "c \<noteq> CHR ''-''" "c \<noteq> CHR ''+''" "c \<noteq> CHR ''i''" "c \<noteq> CHR ''n''"
    "\<not> is_space c"
  using assms by (auto simp: is_digit_def lower_char_def code_def is_space_def Let_def)

text \<open>A number written as digits, a point and digits.\<close>

lemma decimal_value_fixed:
  assumes "0 < k" "f < 10 ^ k"
  shows "decimal_value (str_nat i @ CHR ''.'' # pad_zeros k (str_nat f)) = Some (real i + real f / 10 ^ k)"
proof -
  let ?a = "str_nat i" and ?b = "pad_zeros k (str_nat f)"
  have d: "list_all is_digit ?a" "list_all is_digit ?b" using str_nat_all_digits pad_zeros_digits by blast+
  then have no: "CHR ''e'' \<notin> set (?a @ CHR ''.'' # ?b)" "CHR ''.'' \<notin> set ?a"
    using digit_facts(2,3) by (auto simp: list_all_iff)
  have len: "digit_count ?b = k"
    using digit_count_all [OF d(2)] length_str_nat [OF assms] by (simp add: pad_zeros_def)
  have ne: "?a \<noteq> []" "?b \<noteq> []" by (simp_all add: pad_zeros_def)
  show ?thesis
    using partition_none [OF no(1)] partition_append [OF no(2), of ?b] ne len
    by (simp add: decimal_value_def mantissa_value_def unsigned_int_str_nat unsigned_int_pad)
qed

text \<open>What the reader sees of the text: no blanks, its sign, and a body that is a number.\<close>

lemma read_digits:
  assumes "s = str_nat i @ CHR ''.'' # pad_zeros k (str_nat f)"
  shows "py_strip s = s" "py_lower s = s" "py_strip (CHR ''-'' # s) = CHR ''-'' # s" "split_sign s = (False, s)"
    "s \<noteq> ''inf''" "s \<noteq> ''infinity''" "s \<noteq> ''nan''"
proof -
  have d: "list_all is_digit (str_nat i)" "list_all is_digit (pad_zeros k (str_nat f))"
    using str_nat_all_digits pad_zeros_digits by blast+
  have hd: "is_digit (hd s)" using d(1) by (auto simp: assms hd_append list_all_iff)
  have "pad_zeros k (str_nat f) \<noteq> []" by (simp add: pad_zeros_def)
  then have last: "is_digit (last s)" using d(2) by (auto simp: assms list_all_iff)
  have ne: "s \<noteq> []" by (simp add: assms)
  show "py_strip s = s" using ne hd last digit_facts(8) by (intro strip_fixed) auto
  show "py_strip (CHR ''-'' # s) = CHR ''-'' # s"
    using ne last digit_facts(8) by (intro strip_fixed) (auto simp: is_space_def code_def)
  have "\<forall>c \<in> set s. lower_char c = c"
    using d digit_facts(1) by (auto simp: assms list_all_iff lower_char_def code_def)
  then show "py_lower s = s" by (simp add: py_lower_def map_idI)
  obtain c cs where c: "s = c # cs" "is_digit c" using ne hd by (cases s) auto
  then show "split_sign s = (False, s)" using digit_facts(4,5) [OF c(2)] by (simp add: split_sign_def)
  show "s \<noteq> ''inf''" "s \<noteq> ''infinity''" "s \<noteq> ''nan''" using c digit_facts(6,7) [OF c(2)] by auto
qed

lemma fixed_text_reads:
  assumes "0 < k" "\<bar>r\<bar> < 2 ^ 1023"
  shows "\<exists>x. py_float_str (fixed_text k (Fin r)) = Some (Fin x) \<and> \<bar>x - r\<bar> \<le> 1 / (2 * 10 ^ k)"
proof -
  define n where "n = nat (py_round (\<bar>r\<bar> * 10 ^ k))"
  define s where "s = str_nat (n div 10 ^ k) @ CHR ''.'' # pad_zeros k (str_nat (n mod 10 ^ k))"
  define v where "v = real n / 10 ^ k"
  have f: "n mod 10 ^ k < 10 ^ k" by simp
  have "real n = real (n div 10 ^ k) * 10 ^ k + real (n mod 10 ^ k)"
    using div_mult_mod_eq [of n "10 ^ k"] by (metis of_nat_add of_nat_mult of_nat_numeral of_nat_power)
  then have "v = real (n div 10 ^ k) + real (n mod 10 ^ k) / 10 ^ k" by (simp add: v_def field_simps)
  then have dec: "decimal_value s = Some v" using decimal_value_fixed [OF assms(1) f] by (simp add: s_def)
  have "0 \<le> py_round (\<bar>r\<bar> * 10 ^ k)" using py_round_mono [of 0 "\<bar>r\<bar> * 10 ^ k"] py_round_of_int [of 0] by simp
  then have "\<bar>real n - \<bar>r\<bar> * 10 ^ k\<bar> \<le> 1 / 2" using py_round_error [of "\<bar>r\<bar> * 10 ^ k"] by (simp add: n_def)
  then have "\<bar>real n - \<bar>r\<bar> * 10 ^ k\<bar> / 10 ^ k \<le> 1 / 2 / 10 ^ k" by (rule divide_right_mono) simp
  moreover have "\<bar>v - \<bar>r\<bar>\<bar> = \<bar>real n - \<bar>r\<bar> * 10 ^ k\<bar> / 10 ^ k"
  proof -
    have "v - \<bar>r\<bar> = (real n - \<bar>r\<bar> * 10 ^ k) / 10 ^ k" by (simp add: v_def diff_divide_distrib)
    then show ?thesis by (simp only: abs_divide) simp
  qed
  ultimately have err: "\<bar>v - \<bar>r\<bar>\<bar> \<le> 1 / (2 * 10 ^ k)" by simp
  have "(1 :: real) \<le> 10 ^ k" by simp
  then have "(1 :: real) \<le> 2 * 10 ^ k" by linarith
  then have "1 / (2 * 10 ^ k) \<le> (1 :: real)" by simp
  with err assms(2) have "v < 2 ^ 1023 + 1" by linarith
  moreover have "(2 :: real) ^ 1024 = 2 * 2 ^ 1023" "(1 :: real) \<le> 2 ^ 1023" by simp_all
  moreover have "0 \<le> v" by (simp add: v_def)
  ultimately have fin: "float_of_real v = Fin v" "float_of_real (- v) = Fin (- v)"
    unfolding float_of_real_def by (smt (verit))+
  note rd = read_digits [OF s_def]
  have shown: "fixed_text k (Fin r) = (if r < 0 then CHR ''-'' # s else s)"
    using assms(1) by (simp add: fixed_text_def n_def s_def Let_def)
  show ?thesis
  proof (cases "r < 0")
    case True
    have "py_lower (CHR ''-'' # s) = CHR ''-'' # s" using rd(2) by (simp add: py_lower_def lower_char_def code_def)
    then have "py_float_str (CHR ''-'' # s) = Some (Fin (- v))"
      using rd dec fin by (simp add: py_float_str_def split_sign_def)
    with True shown err show ?thesis by (intro exI [of _ "- v"]) simp
  next
    case False
    have "py_float_str s = Some (Fin v)" using rd dec fin by (simp add: py_float_str_def)
    with False shown err show ?thesis by (intro exI [of _ v]) simp
  qed
qed

section \<open>Joined text\<close>

fun join_with :: "string \<Rightarrow> string list \<Rightarrow> string" where
  "join_with sep [] = []"
| "join_with sep [x] = x"
| "join_with sep (x # xs) = x @ sep @ join_with sep xs"

lemma join_with_Cons: "xs \<noteq> [] \<Longrightarrow> join_with sep (x # xs) = x @ sep @ join_with sep xs"
  by (cases xs) simp_all

text \<open>Splitting undoes joining where the separator is in no part.\<close>

lemma py_split_join_with:
  "xs \<noteq> [] \<Longrightarrow> \<forall>x \<in> set xs. c \<notin> set x \<Longrightarrow> py_split c (join_with [c] xs) = xs"
proof (induction "[c]" xs rule: join_with.induct)
  case (2 x)
  then show ?case by (simp add: py_split_whole)
next
  case (3 x v va)
  then show ?case using py_split_join [of c x] by simp
qed simp

end
