(* ===== verification/Assistant.thy ===== *)
theory Assistant
  imports Web_Kit Py_Format
begin

text \<open>
  The assistant: the readings it is given (\<^verbatim>\<open>meshsa/llm/sources.py\<close>), its tools (\<^verbatim>\<open>meshsa/llm/tools.py\<close>) and
  its loop (\<^verbatim>\<open>meshsa/llm/agent.py\<close>).  The messages API and the two sources are parameters that read, and
  may change, a state.
\<close>

section \<open>Readings\<close>

record drone_state =
  ds_uid :: string
  ds_lat :: "pyfloat option"
  ds_lon :: "pyfloat option"
  ds_alt_m :: "pyfloat option"
  ds_relative_alt_m :: "pyfloat option"
  ds_ground_speed_ms :: "pyfloat option"
  ds_heading_deg :: "pyfloat option"
  ds_battery_pct :: "pyfloat option"
  ds_armed :: "bool option"
  ds_mode :: "string option"
  ds_link_ok :: bool

record track =
  tr_uid :: string
  tr_callsign :: "string option"
  tr_cot_type :: "string option"
  tr_lat :: "pyfloat option"
  tr_lon :: "pyfloat option"
  tr_stale_s :: "pyfloat option"

text \<open>\<^verbatim>\<open>_as_float\<close>: what is no number is none; an integer beyond the floats raises.\<close>

definition as_float_opt :: "json \<Rightarrow> py_exn + pyfloat option" where
  "as_float_opt v =
     (case v of
        JBool _ \<Rightarrow> Inr None
      | JNull \<Rightarrow> Inr None
      | _ \<Rightarrow>
          (case py_float v of
             Inr f \<Rightarrow> Inr (Some f)
           | Inl ValueError \<Rightarrow> Inr None
           | Inl TypeError \<Rightarrow> Inr None
           | Inl e \<Rightarrow> Inl e))"

definition get_field :: "(string \<times> json) list \<Rightarrow> string \<Rightarrow> json" where
  "get_field row key = (case map_of row key of None \<Rightarrow> JNull | Some v \<Rightarrow> v)"

fun first_present :: "(string \<times> json) list \<Rightarrow> string list \<Rightarrow> json" where
  "first_present row [] = JNull"
| "first_present row (k # ks) = (if get_field row k \<noteq> JNull then get_field row k else first_present row ks)"

fun first_str :: "(json \<Rightarrow> string) \<Rightarrow> (string \<times> json) list \<Rightarrow> string list \<Rightarrow> string option" where
  "first_str repr row [] = None"
| "first_str repr row (k # ks) =
     (case get_field row k of
        JNull \<Rightarrow> first_str repr row ks
      | JBool _ \<Rightarrow> first_str repr row ks
      | v \<Rightarrow> if py_strip (py_str repr v) = [] then first_str repr row ks else Some (py_strip (py_str repr v)))"

fun pf_hypot :: "pyfloat \<Rightarrow> pyfloat \<Rightarrow> pyfloat" where
  "pf_hypot (Fin a) (Fin b) = Fin (sqrt (a\<^sup>2 + b\<^sup>2))"
| "pf_hypot NaN (Fin _) = NaN"
| "pf_hypot (Fin _) NaN = NaN"
| "pf_hypot NaN NaN = NaN"
| "pf_hypot _ _ = PInf"

definition HDG_UNKNOWN :: pyfloat where "HDG_UNKNOWN = Fin 65535"

definition parse_global_position_int :: "json \<Rightarrow> string \<Rightarrow> py_exn + drone_state" where
  "parse_global_position_int payload uid =
     then_ok (get_or payload ''message'' payload) (\<lambda>msg.
     then_ok (then_ok (get_or msg ''lat'' JNull) as_float_opt) (\<lambda>lat.
     then_ok (then_ok (get_or msg ''lon'' JNull) as_float_opt) (\<lambda>lon.
     then_ok (then_ok (get_or msg ''alt'' JNull) as_float_opt) (\<lambda>alt.
     then_ok (then_ok (get_or msg ''relative_alt'' JNull) as_float_opt) (\<lambda>rel.
     then_ok (then_ok (get_or msg ''vx'' JNull) as_float_opt) (\<lambda>vx.
     then_ok (then_ok (get_or msg ''vy'' JNull) as_float_opt) (\<lambda>vy.
     then_ok (then_ok (get_or msg ''hdg'' JNull) as_float_opt) (\<lambda>hdg.
       Inr \<lparr>ds_uid = uid,
            ds_lat = map_option (\<lambda>x. pf_scale x (1 / 10000000)) lat,
            ds_lon = map_option (\<lambda>x. pf_scale x (1 / 10000000)) lon,
            ds_alt_m = map_option (\<lambda>x. pf_scale x (1 / 1000)) alt,
            ds_relative_alt_m = map_option (\<lambda>x. pf_scale x (1 / 1000)) rel,
            ds_ground_speed_ms =
              (case (vx, vy) of (Some a, Some b) \<Rightarrow> Some (pf_scale (pf_hypot a b) (1 / 100)) | _ \<Rightarrow> None),
            ds_heading_deg =
              (case hdg of None \<Rightarrow> None | Some h \<Rightarrow> if h = HDG_UNKNOWN then None else Some (pf_scale h (1 / 100))),
            ds_battery_pct = None, ds_armed = None, ds_mode = None, ds_link_ok = True\<rparr>))))))))"

fun first_list :: "(string \<times> json) list \<Rightarrow> string list \<Rightarrow> json list" where
  "first_list d [] = []"
| "first_list d (k # ks) = (case map_of d k of Some (JArr xs) \<Rightarrow> xs | _ \<Rightarrow> first_list d ks)"

definition fts_rows :: "json \<Rightarrow> json list" where
  "fts_rows data =
     (case data of
        JObj d \<Rightarrow> first_list d [''results'', ''data'', ''rows'', ''geoObjects'']
      | JArr xs \<Rightarrow> xs
      | _ \<Rightarrow> [])"

definition fts_track :: "(json \<Rightarrow> string) \<Rightarrow> (string \<times> json) list \<Rightarrow> py_exn + track option" where
  "fts_track repr row =
     (let uid = first_present row [''uid'', ''id'', ''name'']; uid_str = py_strip (py_str repr uid)
      in if uid = JNull then Inr None
         else if uid_str = [] then Inr None
         else
           then_ok (as_float_opt (first_present row [''lat'', ''latitude''])) (\<lambda>lat.
           then_ok (as_float_opt (first_present row [''lon'', ''longitude''])) (\<lambda>lon.
           then_ok (as_float_opt (first_present row [''stale_s'', ''stale''])) (\<lambda>stale.
             Inr (Some \<lparr>tr_uid = uid_str,
                        tr_callsign = first_str repr row [''callsign'', ''name'', ''detail_callsign''],
                        tr_cot_type = first_str repr row [''cot_type'', ''type'', ''how''],
                        tr_lat = lat, tr_lon = lon, tr_stale_s = stale\<rparr>)))))"

fun fts_tracks :: "(json \<Rightarrow> string) \<Rightarrow> json list \<Rightarrow> py_exn + track list" where
  "fts_tracks repr [] = Inr []"
| "fts_tracks repr (row # rows) =
     (case row of
        JObj kvs \<Rightarrow>
          then_ok (fts_track repr kvs) (\<lambda>t. then_ok (fts_tracks repr rows) (\<lambda>ts.
            Inr (case t of None \<Rightarrow> ts | Some t \<Rightarrow> t # ts)))
      | _ \<Rightarrow> fts_tracks repr rows)"

definition parse_fts_tracks :: "(json \<Rightarrow> string) \<Rightarrow> json \<Rightarrow> py_exn + track list" where
  "parse_fts_tracks repr data = fts_tracks repr (fts_rows data)"

section \<open>Tools\<close>

definition opt_part :: "'a option \<Rightarrow> ('a \<Rightarrow> string) \<Rightarrow> string list" where
  "opt_part v f = (case v of None \<Rightarrow> [] | Some x \<Rightarrow> [f x])"

definition format_drone_state :: "drone_state \<Rightarrow> string" where
  "format_drone_state d =
     (if \<not> ds_link_ok d then ''drone '' @ ds_uid d @ '': telemetry link DOWN (no data available)''
      else
        let parts =
          (case (ds_lat d, ds_lon d) of
             (Some lat, Some lon) \<Rightarrow> [''position '' @ fixed_text 6 lat @ '', '' @ fixed_text 6 lon] | _ \<Rightarrow> [])
          @ (case ds_relative_alt_m d of
               Some a \<Rightarrow> [''relative alt '' @ fixed_text 1 a @ '' m'']
             | None \<Rightarrow> opt_part (ds_alt_m d) (\<lambda>a. ''alt '' @ fixed_text 1 a @ '' m AMSL''))
          @ opt_part (ds_ground_speed_ms d) (\<lambda>v. ''ground speed '' @ fixed_text 1 v @ '' m/s'')
          @ opt_part (ds_heading_deg d) (\<lambda>h. ''heading '' @ fixed_text 0 h @ '' deg'')
          @ opt_part (ds_battery_pct d) (\<lambda>b. ''battery '' @ fixed_text 0 b @ ''%'')
          @ opt_part (ds_armed d) (\<lambda>a. if a then ''ARMED'' else ''disarmed'')
          @ opt_part (ds_mode d) (\<lambda>m. ''mode '' @ m)
        in join_with '' | '' ((''drone '' @ ds_uid d @ '':'') #
             (if parts = [] then [''no telemetry fields populated yet''] else parts)))"

definition format_track :: "track \<Rightarrow> string" where
  "format_track t =
     ''  - '' @ join_with '', ''
       ([case tr_callsign t of Some c \<Rightarrow> if c = [] then tr_uid t else c | None \<Rightarrow> tr_uid t]
        @ (case tr_cot_type t of Some c \<Rightarrow> if c = [] then [] else [''type '' @ c] | None \<Rightarrow> [])
        @ (case (tr_lat t, tr_lon t) of
             (Some lat, Some lon) \<Rightarrow> [''at '' @ fixed_text 5 lat @ '', '' @ fixed_text 5 lon] | _ \<Rightarrow> [])
        @ opt_part (tr_stale_s t) (\<lambda>s. ''stale '' @ fixed_text 0 s @ ''s''))"

definition format_tracks :: "track list \<Rightarrow> string" where
  "format_tracks ts =
     (if ts = [] then ''no active tracks on the TAK network''
      else join_lines ((str_nat (length ts) @ '' active track(s):'') # map format_track ts))"

definition GET_DRONE_STATE :: string where "GET_DRONE_STATE = ''get_drone_state''"
definition LIST_TRACKS :: string where "LIST_TRACKS = ''list_tracks''"

definition tool_names :: "string list" where "tool_names = [GET_DRONE_STATE, LIST_TRACKS]"

record tool_answer =
  ta_content :: string
  ta_is_error :: bool

record 's data_sources =
  so_telemetry :: "('s, drone_state) reading"
  so_tracks :: "('s, track list) reading"

definition dispatch_tool :: "'s data_sources \<Rightarrow> string \<Rightarrow> ('s, tool_answer) reading" where
  "dispatch_tool D name s =
     (if name = GET_DRONE_STATE then
        (case so_telemetry D s of
           (Inl e, s1) \<Rightarrow> (Inl e, s1)
         | (Inr d, s1) \<Rightarrow> (Inr \<lparr>ta_content = format_drone_state d, ta_is_error = False\<rparr>, s1))
      else if name = LIST_TRACKS then
        (case so_tracks D s of
           (Inl e, s1) \<Rightarrow> (Inl e, s1)
         | (Inr ts, s1) \<Rightarrow> (Inr \<lparr>ta_content = format_tracks ts, ta_is_error = False\<rparr>, s1))
      else (Inr \<lparr>ta_content = ''unknown tool: '' @ name, ta_is_error = True\<rparr>, s))"

section \<open>The loop\<close>

datatype content_block = Text_Block string | Tool_Use string string json | Other_Block string

record model_response =
  lm_stop_reason :: "string option"
  lm_content :: "content_block list"

record tool_result =
  tl_tool_use_id :: string
  tl_answer :: tool_answer

datatype turn = Prior_Turn json | User_Prompt string | Assistant_Turn "content_block list" | Tool_Results "tool_result list"

record 's sa_agent =
  ag_create :: "turn list \<Rightarrow> ('s, model_response) reading"
  ag_sources :: "'s data_sources"
  ag_max_iterations :: int

definition extract_text :: "content_block list \<Rightarrow> string" where
  "extract_text blocks = py_strip (concat (map (\<lambda>b. case b of Text_Block t \<Rightarrow> t | _ \<Rightarrow> []) blocks))"

fun tool_uses :: "content_block list \<Rightarrow> (string \<times> string) list" where
  \<comment> \<open>the ids and names of the tool calls of a response\<close>
  "tool_uses [] = []"
| "tool_uses (Tool_Use i name args # bs) = (i, name) # tool_uses bs"
| "tool_uses (b # bs) = tool_uses bs"

text \<open>The calls of one response, in order; a source that raises ends the question.\<close>

fun run_tools :: "'s data_sources \<Rightarrow> (string \<times> string) list \<Rightarrow> ('s, tool_result list) reading" where
  "run_tools D [] s = (Inr [], s)"
| "run_tools D ((i, name) # us) s =
     (case dispatch_tool D name s of
        (Inl e, s1) \<Rightarrow> (Inl e, s1)
      | (Inr a, s1) \<Rightarrow>
          (case run_tools D us s1 of
             (Inl e, s2) \<Rightarrow> (Inl e, s2)
           | (Inr rs, s2) \<Rightarrow> (Inr (\<lparr>tl_tool_use_id = i, tl_answer = a\<rparr> # rs), s2)))"

definition LIMIT_TEXT :: string where
  "LIMIT_TEXT = ''Reached the tool-call limit before finishing; please narrow the question.''"

text \<open>The first argument counts the iterations left; the conversation is returned with the reply.\<close>

fun ask_loop ::
  "nat \<Rightarrow> 's sa_agent \<Rightarrow> turn list \<Rightarrow> string list \<Rightarrow> ('s, agent_reply \<times> turn list) reading" where
  "ask_loop 0 A messages calls s =
     (Inr (\<lparr>ar_text = LIMIT_TEXT, ar_stop_reason = ''max_iterations'', ar_tool_calls = calls\<rparr>, messages), s)"
| "ask_loop (Suc n) A messages calls s =
     (case ag_create A messages s of
        (Inl e, s1) \<Rightarrow> (Inl e, s1)
      | (Inr r, s1) \<Rightarrow>
          let blocks = lm_content r; messages1 = messages @ [Assistant_Turn blocks]
          in if lm_stop_reason r \<noteq> Some ''tool_use'' then
               (Inr (\<lparr>ar_text = extract_text blocks,
                      ar_stop_reason = (case lm_stop_reason r of
                          None \<Rightarrow> ''end_turn'' | Some x \<Rightarrow> if x = [] then ''end_turn'' else x),
                      ar_tool_calls = calls\<rparr>, messages1), s1)
             else
               (case run_tools (ag_sources A) (tool_uses blocks) s1 of
                  (Inl e, s2) \<Rightarrow> (Inl e, s2)
                | (Inr results, s2) \<Rightarrow>
                    ask_loop n A (messages1 @ [Tool_Results results]) (calls @ map snd (tool_uses blocks)) s2))"

definition agent_ask :: "'s sa_agent \<Rightarrow> string \<Rightarrow> json list \<Rightarrow> ('s, agent_reply \<times> turn list) reading" where
  "agent_ask A prompt history s =
     ask_loop (nat (ag_max_iterations A)) A (map Prior_Turn history @ [User_Prompt prompt]) [] s"

section \<open>What the loop keeps\<close>

lemma dispatch_keeps:
  assumes "\<And>s. Q s \<Longrightarrow> Q (snd (so_telemetry D s))" "\<And>s. Q s \<Longrightarrow> Q (snd (so_tracks D s))" "Q s"
  shows "Q (snd (dispatch_tool D name s))"
  using assms(1) [OF assms(3)] assms(2) [OF assms(3)] assms(3)
  by (auto simp: dispatch_tool_def split: prod.split sum.split)

lemma run_tools_keeps:
  assumes "\<And>s. Q s \<Longrightarrow> Q (snd (so_telemetry D s))" "\<And>s. Q s \<Longrightarrow> Q (snd (so_tracks D s))"
  shows "Q s \<Longrightarrow> Q (snd (run_tools D us s))"
proof (induction us arbitrary: s)
  case (Cons u us)
  obtain i name where u: "u = (i, name)" by fastforce
  have d: "Q (snd (dispatch_tool D name s))" by (rule dispatch_keeps) (use assms Cons.prems in auto)
  then show ?case using Cons.IH [OF d] by (auto simp: u split: prod.splits sum.splits)
qed simp

lemma ask_loop_keeps:
  assumes "\<And>ms s. Q s \<Longrightarrow> Q (snd (ag_create A ms s))" "\<And>s. Q s \<Longrightarrow> Q (snd (so_telemetry (ag_sources A) s))"
    "\<And>s. Q s \<Longrightarrow> Q (snd (so_tracks (ag_sources A) s))"
  shows "Q s \<Longrightarrow> Q (snd (ask_loop n A messages calls s))"
proof (induction n arbitrary: messages calls s)
  case (Suc n)
  have c: "Q (snd (ag_create A messages s))" using assms(1) Suc.prems .
  have t: "Q z'" if "run_tools (ag_sources A) us z = (x, z')" "Q z" for us x z z'
    using run_tools_keeps [of Q "ag_sources A" z us] assms(2,3) that by simp
  show ?case using c Suc.IH by (auto simp: Let_def dest: t split: prod.split sum.split)
qed simp

text \<open>
  The rounds of a question, said without the loop: the model answers the conversation so far with tool calls,
  each call is answered in turn, and both are added to the conversation.
\<close>

fun answered :: "'s data_sources \<Rightarrow> (string \<times> string) list \<Rightarrow> tool_result list \<Rightarrow> 's \<Rightarrow> 's \<Rightarrow> bool" where
  "answered D [] [] s s' = (s' = s)"
| "answered D ((i, name) # us) (t # ts) s s' =
     (tl_tool_use_id t = i \<and> (\<exists>s1. dispatch_tool D name s = (Inr (tl_answer t), s1) \<and> answered D us ts s1 s'))"
| "answered D _ _ s s' = False"

fun conversed ::
  "'s sa_agent \<Rightarrow> turn list \<Rightarrow> 's \<Rightarrow> (model_response \<times> tool_result list) list \<Rightarrow> turn list \<Rightarrow> 's \<Rightarrow> bool" where
  "conversed A messages s [] messages' s' = (messages' = messages \<and> s' = s)"
| "conversed A messages s ((r, rs) # rounds) messages' s' =
     (\<exists>s1 s2. ag_create A messages s = (Inr r, s1) \<and> lm_stop_reason r = Some ''tool_use'' \<and>
        answered (ag_sources A) (tool_uses (lm_content r)) rs s1 s2 \<and>
        conversed A (messages @ [Assistant_Turn (lm_content r), Tool_Results rs]) s2 rounds messages' s')"

lemma run_tools_answered: "run_tools D us s = (Inr rs, s') \<Longrightarrow> answered D us rs s s'"
  by (induction D us s arbitrary: rs s' rule: run_tools.induct) (auto split: prod.splits sum.splits)

lemma unknown_tool_errs: "dispatch_tool D name s = (Inr a, s1) \<Longrightarrow> name \<notin> set tool_names \<Longrightarrow> ta_is_error a"
  by (auto simp: dispatch_tool_def tool_names_def split: if_splits)

lemma answered_results:
  "answered D us rs s s' \<Longrightarrow> map tl_tool_use_id rs = map fst us \<and>
     list_all2 (\<lambda>u r. snd u \<notin> set tool_names \<longrightarrow> ta_is_error (tl_answer r)) us rs"
  by (induction D us rs s s' rule: answered.induct) (auto intro: unknown_tool_errs)

definition last_reply :: "model_response \<Rightarrow> string list \<Rightarrow> agent_reply" where
  "last_reply r calls =
     \<lparr>ar_text = extract_text (lm_content r),
      ar_stop_reason = (case lm_stop_reason r of None \<Rightarrow> ''end_turn'' | Some x \<Rightarrow> if x = [] then ''end_turn'' else x),
      ar_tool_calls = calls\<rparr>"

lemma ask_loop_conversed:
  "ask_loop n A messages calls s = (Inr (reply, final), s') \<Longrightarrow>
   \<exists>rounds mid s1. conversed A messages s rounds mid s1 \<and>
     (let names = calls @ concat (map (\<lambda>(r, _). map snd (tool_uses (lm_content r))) rounds)
      in length rounds < n \<and> (\<exists>r. ag_create A mid s1 = (Inr r, s') \<and> lm_stop_reason r \<noteq> Some ''tool_use'' \<and>
             final = mid @ [Assistant_Turn (lm_content r)] \<and> reply = last_reply r names) \<or>
         length rounds = n \<and> s' = s1 \<and> final = mid \<and>
           reply = \<lparr>ar_text = LIMIT_TEXT, ar_stop_reason = ''max_iterations'', ar_tool_calls = names\<rparr>)"
proof (induction n arbitrary: messages calls s)
  case 0
  then show ?case by (intro exI [of _ "[]"] exI [of _ messages] exI [of _ s]) auto
next
  case (Suc n)
  obtain r s1 where c: "ag_create A messages s = (Inr r, s1)"
    using Suc.prems by (auto split: prod.splits sum.splits)
  let ?m = "messages @ [Assistant_Turn (lm_content r)]"
  show ?case
  proof (cases "lm_stop_reason r = Some ''tool_use''")
    case False
    with Suc.prems c show ?thesis
      by (intro exI [of _ "[]"] exI [of _ messages] exI [of _ s]) (auto simp: Let_def last_reply_def)
  next
    case True
    obtain rs s2 where t: "run_tools (ag_sources A) (tool_uses (lm_content r)) s1 = (Inr rs, s2)"
      using Suc.prems c True by (auto simp: Let_def split: prod.splits sum.splits)
    with Suc.prems c True have "ask_loop n A (?m @ [Tool_Results rs]) (calls @ map snd (tool_uses (lm_content r))) s2 =
      (Inr (reply, final), s')" by (simp add: Let_def)
    from Suc.IH [OF this] obtain rounds mid s3 where w: "conversed A (?m @ [Tool_Results rs]) s2 rounds mid s3"
      "let names = (calls @ map snd (tool_uses (lm_content r))) @ concat (map (\<lambda>(r, _). map snd (tool_uses (lm_content r))) rounds)
       in length rounds < n \<and> (\<exists>r. ag_create A mid s3 = (Inr r, s') \<and> lm_stop_reason r \<noteq> Some ''tool_use'' \<and>
             final = mid @ [Assistant_Turn (lm_content r)] \<and> reply = last_reply r names) \<or>
         length rounds = n \<and> s' = s3 \<and> final = mid \<and>
           reply = \<lparr>ar_text = LIMIT_TEXT, ar_stop_reason = ''max_iterations'', ar_tool_calls = names\<rparr>"
      by blast
    have "conversed A messages s ((r, rs) # rounds) mid s3"
      using c True run_tools_answered [OF t] w(1) by auto
    moreover have "let names = calls @ concat (map (\<lambda>(r, _). map snd (tool_uses (lm_content r))) ((r, rs) # rounds))
       in length ((r, rs) # rounds) < Suc n \<and> (\<exists>r. ag_create A mid s3 = (Inr r, s') \<and> lm_stop_reason r \<noteq> Some ''tool_use'' \<and>
             final = mid @ [Assistant_Turn (lm_content r)] \<and> reply = last_reply r names) \<or>
         length ((r, rs) # rounds) = Suc n \<and> s' = s3 \<and> final = mid \<and>
           reply = \<lparr>ar_text = LIMIT_TEXT, ar_stop_reason = ''max_iterations'', ar_tool_calls = names\<rparr>"
      using w(2) by (simp add: Let_def)
    ultimately show ?thesis by (intro exI conjI)
  qed
qed

lemma conversed_turns:
  "conversed A messages s rounds mid s' \<Longrightarrow>
   mid = messages @ concat (map (\<lambda>(r, rs). [Assistant_Turn (lm_content r), Tool_Results rs]) rounds) \<and>
   list_all (\<lambda>(r, rs). lm_stop_reason r = Some ''tool_use'' \<and> map tl_tool_use_id rs = map fst (tool_uses (lm_content r)) \<and>
     list_all2 (\<lambda>u r. snd u \<notin> set tool_names \<longrightarrow> ta_is_error (tl_answer r)) (tool_uses (lm_content r)) rs) rounds"
  by (induction A messages s rounds mid s' rule: conversed.induct) (auto dest: answered_results)

section \<open>What the parsers keep\<close>

lemma fts_track_uid:
  "fts_track repr row = Inr (Some t) \<Longrightarrow> tr_uid t \<noteq> [] \<and> py_strip (tr_uid t) = tr_uid t"
  using strip_idem
  by (auto simp: fts_track_def Let_def then_ok_Inr_iff simp del: first_str.simps first_present.simps split: if_splits)

lemma fts_tracks_rows:
  "fts_tracks repr rows = Inr ts \<Longrightarrow> length ts \<le> length rows \<and> (\<forall>t \<in> set ts. tr_uid t \<noteq> [] \<and> py_strip (tr_uid t) = tr_uid t)"
proof (induction rows arbitrary: ts)
  case (Cons row rows)
  show ?case
  proof (cases row)
    case (JObj kvs)
    with Cons.prems obtain t us where r: "fts_track repr kvs = Inr t" "fts_tracks repr rows = Inr us"
        "ts = (case t of None \<Rightarrow> us | Some t \<Rightarrow> t # us)"
      by (auto simp: then_ok_Inr_iff)
    have "\<forall>x. t = Some x \<longrightarrow> tr_uid x \<noteq> [] \<and> py_strip (tr_uid x) = tr_uid x"
      using r(1) fts_track_uid by blast
    with Cons.IH [OF r(2)] r(3) show ?thesis by (auto split: option.splits)
  qed (use Cons in auto)
qed simp

lemma as_float_opt_raises: "as_float_opt v = Inl e \<Longrightarrow> e = OverflowError"
  by (cases v) (auto simp: as_float_opt_def py_float_def split: if_splits option.splits)

lemma fts_track_raises: "fts_track repr row = Inl e \<Longrightarrow> e = OverflowError"
  by (auto simp: fts_track_def Let_def then_ok_Inl_iff dest: as_float_opt_raises
      simp del: first_str.simps first_present.simps split: if_splits)

lemma fts_tracks_raises: "fts_tracks repr rows = Inl e \<Longrightarrow> e = OverflowError"
  by (induction rows) (auto simp: then_ok_Inl_iff dest: fts_track_raises split: json.splits)

end
