(* ===== verification/Web_Facts.thy ===== *)
theory Web_Facts
  imports Assistant Scout_Facts
begin

text \<open>The properties of the HTTP services, of the assistant and of the metrics text, each with a concrete instance.\<close>

section \<open>Closed services\<close>

text \<open>A row outside the open paths refuses a request without credentials and changes nothing, and every
  response it gives is one that no cache may keep.\<close>

definition protected_row :: "'s handler \<Rightarrow> bool" where
  "protected_row h \<longleftrightarrow>
     (\<forall>rq s. (rq_auth rq = None \<and> rq_token rq = None \<longrightarrow> (\<exists>a. h rq s = (Inr (unauthorized a), s))) \<and>
        (\<forall>r s'. h rq s = (Inr r, s') \<longrightarrow> rs_no_store r))"

definition protected_table :: "'s route_table \<Rightarrow> string set \<Rightarrow> bool" where
  "protected_table table open_paths \<longleftrightarrow>
     (\<forall>(m, path, h) \<in> set table. path \<notin> open_paths \<longrightarrow> protected_row h)"

lemma api_no_store [simp]: "rs_no_store (api_json v n)" "rs_no_store (text_body t c)" "rs_no_store (html_page p)"
  "rs_no_store (unauthorized a)" "rs_no_store (upstream_error e)"
  by (simp_all add: api_json_def text_body_def html_page_def unauthorized_def upstream_error_def)

lemma no_credentials:
  assumes "\<not> falsy (sa_token a)"
  shows "\<not> allows a None" "\<not> allows_query_token a None"
  using assms by (simp_all add: allows_def allows_query_token_def authorize_def falsy_def py_partition_def)

lemma protected_guarded:
  assumes "\<not> falsy (sa_token a)" "\<And>rq s r s'. h rq s = (Inr r, s') \<Longrightarrow> rs_no_store r"
  shows "protected_row (guarded a h)"
  using assms(2) no_credentials [OF assms(1)]
  by (auto simp: protected_row_def guarded_def bearer_guard_def split: option.splits if_splits)

lemma protected_json_route: "\<not> falsy (sa_token a) \<Longrightarrow> protected_row (json_route a r)"
  unfolding json_route_def by (rule protected_guarded) (auto split: prod.splits sum.splits)

lemma protected_chat_route: "\<not> falsy (sa_token a) \<Longrightarrow> protected_row (chat_route a r)"
  unfolding chat_route_def by (rule protected_guarded) (auto split: prod.splits sum.splits)

lemma protected_page:
  assumes "\<not> falsy (sa_token a)"
  shows "protected_row (ui_index render a S)" "protected_row (station_index render' a)"
  using no_credentials [OF assms]
  by (auto simp: protected_row_def ui_index_def station_index_def page_token_gate_def split: option.splits if_splits)

lemma protected_station:
  assumes "\<not> falsy (sa_token a)"
  shows "protected_row (guarded a (station_detections T))" "protected_row (guarded a (station_csv T))"
    "protected_row (guarded a (station_block b))" "protected_row (guarded a (station_set_status T))"
  by (rule protected_guarded [OF assms],
      auto simp: station_detections_def station_csv_def station_block_def station_set_status_def
        split: prod.splits sum.splits option.splits)+

lemma protected_others:
  assumes "\<not> falsy (sa_token a)"
  shows "protected_row (guarded a (llm_chat ask n))" "protected_row (guarded a (metrics_handler view fmt))"
  by (rule protected_guarded [OF assms],
      auto simp: llm_chat_def metrics_handler_def split: prod.splits sum.splits metrics_body.splits)+

lemma bound_token: "validate_bind host token = Inr () \<Longrightarrow> \<not> is_loopback host \<Longrightarrow> \<not> falsy token"
  by (auto simp: validate_bind_def split: if_splits)

text \<open>C10: A service that was built for a host off the loopback is closed: but for the liveness route (and
  the assistant's static page) every route of the console, the station, the assistant and the health
  listener refuses a request without credentials, runs nothing for it, and gives only responses that
  no cache may keep.\<close>

theorem services_fail_closed:
  assumes "\<not> is_loopback host"
  shows "(build_ui_app render S configured (Some host) override = Inr ui \<longrightarrow> protected_table ui {''/healthz''}) \<and>
    (build_station page T (Some host) token block = Inr station \<longrightarrow> protected_table station {''/healthz''}) \<and>
    (validate_bind host token = Inr () \<longrightarrow>
       protected_table (llm_routes widget \<lparr>sa_service = service, sa_token = token\<rparr> ask n) {''/'', ''/healthz''}) \<and>
    (serve_healthz view H host token enabled path fmt = Inr health \<longrightarrow> protected_table health {''/healthz''})"
proof (intro conjI impI)
  assume b: "build_ui_app render S configured (Some host) override = Inr ui"
  then obtain t where t: "validate_bind host t = Inr ()" "ui = ui_routes render \<lparr>sa_service = ''meshsa-ui'', sa_token = t\<rparr> S"
    by (auto simp: build_ui_app_def Let_def then_ok_Inr_iff)
  with bound_token [OF t(1) assms] show "protected_table ui {''/healthz''}"
    by (auto simp: protected_table_def ui_routes_def protected_json_route protected_chat_route protected_page split: option.split)
next
  assume b: "build_station page T (Some host) token block = Inr station"
  then have "validate_bind host token = Inr ()" by (auto simp: build_station_def then_ok_Inr_iff)
  from bound_token [OF this assms] b show "protected_table station {''/healthz''}"
    by (auto simp: protected_table_def build_station_def then_ok_Inr_iff station_routes_def protected_station protected_page)
next
  assume "validate_bind host token = Inr ()"
  from bound_token [OF this assms]
  show "protected_table (llm_routes widget \<lparr>sa_service = service, sa_token = token\<rparr> ask n) {''/'', ''/healthz''}"
    by (auto simp: protected_table_def llm_routes_def protected_others)
next
  assume b: "serve_healthz view H host token enabled path fmt = Inr health"
  then obtain t en pa f where t: "validate_bind host t = Inr ()" "health = healthz_routes view t en pa f"
    by (auto simp: serve_healthz_def Let_def then_ok_Inr_iff)
  with bound_token [OF t(1) assms] show "protected_table health {''/healthz''}"
    by (auto simp: protected_table_def healthz_routes_def protected_others)
qed

definition demo_station :: "mem_store station_store" where
  "demo_station = mem_station (\<lambda>ds. JArr (map (\<lambda>d. JStr (gd_id d)) ds)) (\<lambda>ds. concat (map gd_id ds))"

theorem services_fail_closed_witness:
  "\<exists>station. build_station (\<lambda>_. []) demo_station (Some ''0.0.0.0'') (Some ''s3cret'') None = Inr station \<and>
     length station = 7 \<and> protected_table station {''/healthz''}"
proof -
  let ?b = "build_station (\<lambda>_. []) demo_station (Some ''0.0.0.0'') (Some ''s3cret'') None"
  let ?t = "station_routes (\<lambda>_. []) \<lparr>sa_service = ''meshsa-scout'', sa_token = Some ''s3cret''\<rparr> demo_station None"
  have h: "\<not> is_loopback ''0.0.0.0''" by code_simp
  then have b: "?b = Inr ?t" by (simp add: build_station_def validate_bind_def falsy_def)
  have "?b = Inr ?t \<longrightarrow> protected_table ?t {''/healthz''}" using services_fail_closed [OF h] by blast
  with b have "protected_table ?t {''/healthz''}" by blast
  moreover have "length ?t = 7" by (simp add: station_routes_def)
  ultimately show ?thesis using b by blast
qed

section \<open>The assistant's endpoint\<close>

text \<open>The model is asked once for a prompt that is text, not blank and within the limit, without its
  blanks around; any other body is the client's error and asks nothing.  Whatever the model raises, the
  answer is the same 502, which tells nothing of it.\<close>

theorem chat_asks_only_valid_prompts:
  assumes "chat_reply ask limit payload s = ((body, status), s')"
  shows "status \<in> {200, 400, 502} \<and> (status = 400 \<longrightarrow> s' = s) \<and>
    (status \<noteq> 400 \<longrightarrow> (\<exists>kvs p. payload = Some (JObj kvs) \<and> map_of kvs ''prompt'' = Some (JStr p) \<and> py_strip p \<noteq> [] \<and>
       int (length p) \<le> limit \<and> s' = snd (ask (py_strip p) s) \<and> (status = 200 \<longleftrightarrow> \<not> isl (fst (ask (py_strip p) s))))) \<and>
    (status = 502 \<longrightarrow> body = JObj [(''error'', JStr LLM_UPSTREAM_ERROR)])"
  using assms by (auto simp: chat_reply_def split: option.splits json.splits if_splits prod.splits sum.splits)

theorem chat_asks_only_valid_prompts_witness:
  "fst (fst (chat_reply (\<lambda>p n. (Inl OSError, Suc n)) 10 (Some (JObj [(''prompt'', JStr '' hi '')])) (0 :: nat))) =
     JObj [(''error'', JStr LLM_UPSTREAM_ERROR)]"
proof -
  obtain body status s' where c:
    "chat_reply (\<lambda>p n. (Inl OSError, Suc n)) 10 (Some (JObj [(''prompt'', JStr '' hi '')])) (0 :: nat) = ((body, status), s')"
    by (metis prod.collapse)
  have "snd (fst (chat_reply (\<lambda>p n. (Inl OSError, Suc n)) 10 (Some (JObj [(''prompt'', JStr '' hi '')])) (0 :: nat))) = 502"
    by code_simp
  with chat_asks_only_valid_prompts [OF c] c show ?thesis by simp
qed

section \<open>The assistant\<close>

text \<open>C21: The assistant's conversation is the model's: each answer that stops for tools is followed by one result for
  each of its calls, with the call's id, in its order and as the tool gave it, where a name that is no tool gives an
  error result; then the model is asked again with all of that.  The first answer that does not stop for tools is
  the last turn and its text the reply; when there was none in the allowed number of answers, the
  reply says that the limit was reached.  Either reply names the calls that were made.\<close>

theorem assistant_conversation:
  assumes "agent_ask A prompt history s = (Inr (reply, final), s')"
  shows "\<exists>rounds mid s1. conversed A (map Prior_Turn history @ [User_Prompt prompt]) s rounds mid s1 \<and>
    mid = map Prior_Turn history @ [User_Prompt prompt] @
      concat (map (\<lambda>(r, rs). [Assistant_Turn (lm_content r), Tool_Results rs]) rounds) \<and>
    list_all (\<lambda>(r, rs). lm_stop_reason r = Some ''tool_use'' \<and> map tl_tool_use_id rs = map fst (tool_uses (lm_content r)) \<and>
      list_all2 (\<lambda>u r. snd u \<notin> set tool_names \<longrightarrow> ta_is_error (tl_answer r)) (tool_uses (lm_content r)) rs) rounds \<and>
    (let names = concat (map (\<lambda>(r, _). map snd (tool_uses (lm_content r))) rounds)
     in length rounds < nat (ag_max_iterations A) \<and>
          (\<exists>r. ag_create A mid s1 = (Inr r, s') \<and> lm_stop_reason r \<noteq> Some ''tool_use'' \<and>
             final = mid @ [Assistant_Turn (lm_content r)] \<and> reply = last_reply r names) \<or>
        length rounds = nat (ag_max_iterations A) \<and> s' = s1 \<and> final = mid \<and>
          reply = \<lparr>ar_text = LIMIT_TEXT, ar_stop_reason = ''max_iterations'', ar_tool_calls = names\<rparr>)"
proof -
  from ask_loop_conversed [OF assms [unfolded agent_ask_def], simplified append_Nil] obtain rounds mid s1 where
    w: "conversed A (map Prior_Turn history @ [User_Prompt prompt]) s rounds mid s1"
    and e: "let names = concat (map (\<lambda>(r, _). map snd (tool_uses (lm_content r))) rounds)
     in length rounds < nat (ag_max_iterations A) \<and>
          (\<exists>r. ag_create A mid s1 = (Inr r, s') \<and> lm_stop_reason r \<noteq> Some ''tool_use'' \<and>
             final = mid @ [Assistant_Turn (lm_content r)] \<and> reply = last_reply r names) \<or>
        length rounds = nat (ag_max_iterations A) \<and> s' = s1 \<and> final = mid \<and>
          reply = \<lparr>ar_text = LIMIT_TEXT, ar_stop_reason = ''max_iterations'', ar_tool_calls = names\<rparr>"
    by blast
  note turns = conversed_turns [OF w, unfolded append_assoc]
  show ?thesis
    by (rule exI [of _ rounds], rule exI [of _ mid], rule exI [of _ s1], intro conjI)
      (fact w conjunct1 [OF turns] conjunct2 [OF turns] e)+
qed

definition demo_agent :: "nat sa_agent" where
  "demo_agent =
     \<lparr>ag_create = (\<lambda>ms n. (Inr (if n = 0 then \<lparr>lm_stop_reason = Some ''tool_use'',
          lm_content = [Tool_Use ''u1'' ''list_tracks'' JNull, Tool_Use ''u2'' ''arm'' JNull]\<rparr>
        else \<lparr>lm_stop_reason = None, lm_content = [Text_Block ''none'']\<rparr>), Suc n)),
      ag_sources = \<lparr>so_telemetry = (\<lambda>n. (Inl OSError, n)), so_tracks = (\<lambda>n. (Inr [], n))\<rparr>,
      ag_max_iterations = 6\<rparr>"

theorem assistant_conversation_witness:
  "\<exists>reply final. agent_ask demo_agent ''hi'' [] 0 = (Inr (reply, final), 2) \<and>
     ar_tool_calls reply = [''list_tracks'', ''arm''] \<and> ar_text reply = ''none'' \<and> final \<noteq> []"
proof -
  have c: "snd (agent_ask demo_agent ''hi'' [] 0) = 2"
    "\<not> isl (fst (agent_ask demo_agent ''hi'' [] 0))"
    "ar_tool_calls (fst (projr (fst (agent_ask demo_agent ''hi'' [] 0)))) = [''list_tracks'', ''arm'']"
    "ar_text (fst (projr (fst (agent_ask demo_agent ''hi'' [] 0)))) = ''none''"
    by code_simp+
  then obtain reply final where r: "agent_ask demo_agent ''hi'' [] 0 = (Inr (reply, final), 2)"
    by (cases "agent_ask demo_agent ''hi'' [] 0"; cases "fst (agent_ask demo_agent ''hi'' [] 0)") auto
  from assistant_conversation [OF r] have "final \<noteq> []" by auto
  with r c show ?thesis by simp
qed

text \<open>The assistant is read-only: what neither the model's interface nor the two readings change, no
  question changes, whatever the model answers and whatever tools it names.\<close>

theorem assistant_read_only:
  assumes "\<And>ms s. Q s \<Longrightarrow> Q (snd (ag_create A ms s))"
    and "\<And>s. Q s \<Longrightarrow> Q (snd (so_telemetry (ag_sources A) s))" "\<And>s. Q s \<Longrightarrow> Q (snd (so_tracks (ag_sources A) s))"
    and "Q s"
  shows "Q (snd (agent_ask A prompt history s))"
  unfolding agent_ask_def by (rule ask_loop_keeps) (use assms in auto)

theorem assistant_read_only_witness: "0 < snd (agent_ask demo_agent ''hi'' [] 1)"
  by (rule assistant_read_only) (auto simp: demo_agent_def)

section \<open>What the assistant reads\<close>

text \<open>A payload of the track server gives no more tracks than it has rows, each with an identifier that is
  not blank; rows of other shapes are left out.  The only exception is an integer beyond the floats.\<close>

theorem tracks_read_leniently:
  "case parse_fts_tracks repr data of
     Inr ts \<Rightarrow> length ts \<le> length (fts_rows data) \<and> (\<forall>t \<in> set ts. tr_uid t \<noteq> [] \<and> py_strip (tr_uid t) = tr_uid t)
   | Inl e \<Rightarrow> e = OverflowError"
proof (cases "parse_fts_tracks repr data")
  case (Inl e)
  then show ?thesis by (simp add: parse_fts_tracks_def fts_tracks_raises)
next
  case (Inr ts)
  then show ?thesis using fts_tracks_rows by (auto simp: parse_fts_tracks_def)
qed

theorem tracks_read_leniently_witness:
  "\<exists>ts. parse_fts_tracks (\<lambda>_. []) (JObj [(''data'', JArr [JInt 3, JObj [(''uid'', JInt 0), (''lat'', JFloat (Fin 1))]])]) = Inr ts \<and>
     length ts = 1"
proof -
  let ?d = "JObj [(''data'', JArr [JInt 3, JObj [(''uid'', JInt 0), (''lat'', JFloat (Fin 1))]])]"
  have c: "map_option length (case parse_fts_tracks (\<lambda>_. []) ?d of Inl e \<Rightarrow> None | Inr ts \<Rightarrow> Some ts) = Some 1" by code_simp
  then obtain ts where r: "parse_fts_tracks (\<lambda>_. []) ?d = Inr ts" by (auto split: sum.splits)
  with c tracks_read_leniently [where repr = "\<lambda>_. []" and data = ?d] show ?thesis by auto
qed

section \<open>Triage at the station\<close>

lemma unknown_keeps_store: "ss_set_status (mem_station geojson csv) st i v = (Inr None, st') \<Longrightarrow> st' = st"
  by (auto simp: mem_station_def set_status_def then_ok_def split: option.splits sum.splits)

text \<open>A triage request with a body that is accepted replaces the status of the named pin and nothing
  else of it, leaves every other pin alone, and says what it stored; every other answer leaves the
  store as it was.\<close>

theorem triage_changes_one_status:
  assumes "set_status_body (mem_station geojson csv) i payload st = (Inr (body, answer), st')" "mem_ok st"
  shows "mem_ok st' \<and> (answer \<noteq> 200 \<longrightarrow> st' = st) \<and>
    (answer = 200 \<longrightarrow> (\<exists>d v. mem_get st i = Some d \<and> v \<in> set DETECTION_STATUSES \<and>
       (\<forall>j. mem_get st' j = (if j = i then Some (d\<lparr>gd_status := v\<rparr>) else mem_get st j)) \<and>
       body = JObj [(''id'', JStr i), (''status'', JStr v)]))"
proof (cases "answer = 200")
  case False
  with assms(1) have "st' = st"
    by (auto simp: set_status_body_def dest: unknown_keeps_store
        split: option.splits json.splits if_splits prod.splits sum.splits)
  with False assms(2) show ?thesis by simp
next
  case True
  with assms(1) obtain v d where p: "v \<in> set DETECTION_STATUSES"
      "ss_set_status (mem_station geojson csv) st i v = (Inr (Some d), st')"
      "body = JObj [(''id'', JStr (gd_id d)), (''status'', JStr (gd_status d))]"
    by (auto simp: set_status_body_def split: option.splits json.splits if_splits prod.splits sum.splits)
  then obtain c where c: "mem_get st i = Some c" "with_status c v = Inr d" "st' = mem_add st d"
    by (auto simp: mem_station_def set_status_def then_ok_Inr_iff split: option.splits sum.splits)
  have d: "d = c\<lparr>gd_status := v\<rparr>" using with_status_facts [OF c(2)] by simp
  have "gd_id c = i" using mem_store.get_id [OF assms(2) c(1)] .
  then show ?thesis using True p c d mem_store.get_add [OF assms(2), of d] mem_store.add_ok [OF assms(2), of d] by auto
qed

theorem triage_changes_one_status_witness:
  "let st = [(''d1'', demo_pin)];
       r = set_status_body demo_station ''d1'' (Some (JObj [(''status'', JStr ''rejected'')])) st
   in map_option gd_status (mem_get (snd r) ''d1'') = Some ''rejected'' \<and> mem_get (snd r) ''p2'' = None"
proof -
  let ?st = "[(''d1'', demo_pin)]"
  let ?r = "set_status_body demo_station ''d1'' (Some (JObj [(''status'', JStr ''rejected'')])) ?st"
  have ok: "mem_ok ?st" by (simp add: mem_ok_def demo_pin_def)
  have c: "map_option snd (case fst ?r of Inl e \<Rightarrow> None | Inr v \<Rightarrow> Some v) = Some 200"
    "map_option gd_status (mem_get (snd ?r) ''d1'') = Some ''rejected''"
    by code_simp+
  then obtain body n st' where r: "?r = (Inr (body, n), st')" "n = 200"
    by (cases ?r) (auto split: sum.splits)
  from triage_changes_one_status [OF r(1) [unfolded demo_station_def] ok] r(2) have "mem_get st' ''p2'' = mem_get ?st ''p2''" by auto
  with r c show ?thesis by (simp add: mem_get_def Let_def)
qed

section \<open>The metrics text\<close>

text \<open>C26: The metrics text has one line for each series, whatever the transports are called, and it tells
  the counters apart: two nodes with the same text have the same router counters, the same transports
  with the same values, and the same inference counters.\<close>

theorem metrics_text_faithful:
  "py_split newline (render_prometheus m ts i) = metric_lines m ts i @ [[]] \<and>
   (render_prometheus m ts i = render_prometheus m' ts' i' \<longrightarrow>
      m = m' \<and> map transport_values ts = map transport_values ts' \<and>
      map_option inference_values i = map_option inference_values i')"
proof (intro conjI impI)
  assume "render_prometheus m ts i = render_prometheus m' ts' i'"
  then have "metric_lines m ts i = metric_lines m' ts' i'" using render_lines append1_eq_conv by metis
  from metric_lines_inj [OF this]
  show "m = m'" "map transport_values ts = map transport_values ts'"
    "map_option inference_values i = map_option inference_values i'" by simp_all
qed (rule render_lines)

definition quiet_metrics :: router_metrics where
  "quiet_metrics = \<lparr>rx = 3, tx = 0, forwarded = 2, dropped_undecodable = 0, schema_mismatch = 0\<rparr>"

theorem metrics_text_faithful_witness:
  "render_prometheus quiet_metrics [([quote, newline], [(''rx_frames'', 7)])] None \<noteq>
     render_prometheus quiet_metrics [([quote], [(''rx_frames'', 7)])] None"
proof
  assume "render_prometheus quiet_metrics [([quote, newline], [(''rx_frames'', 7)])] None =
     render_prometheus quiet_metrics [([quote], [(''rx_frames'', 7)])] None"
  with metrics_text_faithful [of quiet_metrics "[([quote, newline], [(''rx_frames'', 7)])]" None quiet_metrics
      "[([quote], [(''rx_frames'', 7)])]" None]
  show False by (simp add: transport_values_def)
qed

section \<open>A value in a page\<close>

text \<open>Nothing that is embedded can close the script around it.\<close>

lemma js_literal_no_markup: "set (js_literal dumps v) \<inter> {CHR ''<'', CHR ''>'', CHR ''&''} = {}"
proof -
  have "c \<notin> set (replace_char c r s)" if "c \<notin> set r" for c r s using that by (induction s) auto
  moreover have "c \<notin> set (replace_char d r s)" if "c \<notin> set r" "c \<notin> set s" for c d r s
    using that by (induction s) auto
  ultimately show ?thesis by (simp add: js_literal_def)
qed

end
