(* ===== verification/Flight_Monitor.thy ===== *)
theory Flight_Monitor
  imports Crsf_Link Link_Health Flight_Log
begin

text \<open>
  The telemetry monitor (\<^verbatim>\<open>meshsa/fpv/tools/monitor.py\<close>), which composes the CRSF link, the telemetry parser,
  the store, the health monitor and the flight logger; the replay of a recorded session
  (\<^verbatim>\<open>meshsa/fpv/tools/replay.py\<close>, with \<^verbatim>\<open>message_from_record\<close> of \<^verbatim>\<open>meshsa/fpv/crsf/telemetry.py\<close>); and its
  conversion to tables (\<^verbatim>\<open>meshsa/fpv/tools/convert.py\<close>).  Serial answers, clocks, JSON texts and the Parquet
  library are parameters.
\<close>

section \<open>Messages as records\<close>

fun class_name :: "message_type \<Rightarrow> string" where
  "class_name TLinkStatistics = ''LinkStatistics''"
| "class_name TBatterySensor = ''BatterySensor''"
| "class_name TAttitude = ''Attitude''"
| "class_name TFlightMode = ''FlightMode''"
| "class_name TGpsSensor = ''GpsSensor''"

definition message_classes :: "(string \<times> message_type) list" where
  "message_classes = map (\<lambda>ty. (class_name ty, ty))
     [TLinkStatistics, TBatterySensor, TAttitude, TFlightMode, TGpsSensor]"

text \<open>A code point of a flight mode is ASCII or the replacement character, which JSON text has as UTF-8.\<close>

definition point_text :: "nat \<Rightarrow> string" where
  "point_text c = (if c < 128 then [char_of c] else map char_of [239, 191, 189 :: nat])"

text \<open>\<^verbatim>\<open>asdict\<close>: the fields in the order of their declaration.\<close>

fun message_data :: "telemetry_message \<Rightarrow> (string \<times> json) list" where
  "message_data (LinkStatistics s) =
     [(''uplink_rssi_ant1_dbm'', JInt (uplink_rssi_ant1_dbm s)), (''uplink_rssi_ant2_dbm'', JInt (uplink_rssi_ant2_dbm s)),
      (''uplink_lq'', JInt (uplink_lq s)), (''uplink_snr_db'', JInt (uplink_snr_db s)),
      (''active_antenna'', JInt (active_antenna s)), (''rf_mode'', JInt (rf_mode s)),
      (''uplink_tx_power_mw'', (case uplink_tx_power_mw s of None \<Rightarrow> JNull | Some mw \<Rightarrow> JInt mw)),
      (''downlink_rssi_dbm'', JInt (downlink_rssi_dbm s)), (''downlink_lq'', JInt (downlink_lq s)),
      (''downlink_snr_db'', JInt (downlink_snr_db s))]"
| "message_data (BatterySensor b) =
     [(''voltage'', JFloat (Fin (bat_voltage b))), (''current'', JFloat (Fin (bat_current b))),
      (''fuel_drawn_mah'', JInt (fuel_drawn_mah b)), (''remaining_pct'', JInt (remaining_pct b))]"
| "message_data (Attitude a) =
     [(''pitch_rad'', JFloat (Fin (pitch_rad a))), (''roll_rad'', JFloat (Fin (roll_rad a))),
      (''yaw_rad'', JFloat (Fin (yaw_rad a)))]"
| "message_data (FlightMode f) =
     [(''mode'', JStr (concat (map point_text (fm_mode f)))), (''is_failsafe'', JBool (is_failsafe f))]"
| "message_data (GpsSensor g) =
     [(''lat_deg'', JFloat (Fin (lat_deg g))), (''lon_deg'', JFloat (Fin (lon_deg g))),
      (''ground_speed_kmh'', JFloat (Fin (ground_speed_kmh g))), (''heading_deg'', JFloat (Fin (heading_deg g))),
      (''altitude_m'', JInt (altitude_m g)), (''satellites'', JInt (satellites g))]"

fun message_fields :: "message_type \<Rightarrow> string list" where
  "message_fields TLinkStatistics =
     [''uplink_rssi_ant1_dbm'', ''uplink_rssi_ant2_dbm'', ''uplink_lq'', ''uplink_snr_db'', ''active_antenna'', ''rf_mode'',
      ''uplink_tx_power_mw'', ''downlink_rssi_dbm'', ''downlink_lq'', ''downlink_snr_db'']"
| "message_fields TBatterySensor = [''voltage'', ''current'', ''fuel_drawn_mah'', ''remaining_pct'']"
| "message_fields TAttitude = [''pitch_rad'', ''roll_rad'', ''yaw_rad'']"
| "message_fields TFlightMode = [''mode'', ''is_failsafe'']"
| "message_fields TGpsSensor =
     [''lat_deg'', ''lon_deg'', ''ground_speed_kmh'', ''heading_deg'', ''altitude_m'', ''satellites'']"

lemma message_data_fields: "map fst (message_data msg) = message_fields (type_of msg)"
  by (cases msg) simp_all

text \<open>
  An instance that \<^verbatim>\<open>cls(**data)\<close> makes: the constructor of a dataclass takes exactly its fields, and any
  values for them.  A class name that cannot be hashed raises.
\<close>

record logged_message =
  lg_type :: message_type
  lg_data :: "(string \<times> json) list"

datatype replay_exn =
    Replay_Parse_Error
  | Replay_Raised py_exn
  | Replay_Dataset dataset_exn
  | Replay_Untyped

definition message_from_record :: "json \<Rightarrow> json \<Rightarrow> replay_exn + logged_message" where
  "message_from_record type_name data =
     (case type_name of
        JStr name \<Rightarrow>
          (case map_of message_classes name of
             None \<Rightarrow> Inl Replay_Parse_Error
           | Some ty \<Rightarrow>
               (case data of
                  JObj kvs \<Rightarrow>
                    if set (map fst kvs) = set (message_fields ty) then Inr \<lparr>lg_type = ty, lg_data = kvs\<rparr>
                    else Inl Replay_Parse_Error
                | _ \<Rightarrow> Inl Replay_Parse_Error))
      | JArr _ \<Rightarrow> Inl (Replay_Raised TypeError)
      | JObj _ \<Rightarrow> Inl (Replay_Raised TypeError)
      | _ \<Rightarrow> Inl Replay_Parse_Error)"

definition logged_of :: "telemetry_message \<Rightarrow> logged_message" where
  "logged_of msg = \<lparr>lg_type = type_of msg, lg_data = message_data msg\<rparr>"

lemma message_from_record_back:
  "message_from_record (JStr (class_name (type_of msg))) (JObj (message_data msg)) = Inr (logged_of msg)"
proof -
  have "map_of message_classes (class_name (type_of msg)) = Some (type_of msg)"
    by (cases msg) (simp_all add: message_classes_def)
  moreover have "set (map fst (message_data msg)) = set (message_fields (type_of msg))"
    by (simp only: message_data_fields)
  ultimately show ?thesis by (simp add: message_from_record_def logged_of_def)
qed

section \<open>The pump\<close>

datatype monitor_exn = Monitor_Raised py_exn | Monitor_Division_By_Zero

record fpv_pump =
  pm_link :: crsf_link
  pm_counts :: unknown_counts
  pm_store :: telemetry_store
  pm_monitor :: monitor
  pm_readings :: nat
  pm_logger :: "flight_logger option"

text \<open>\<^verbatim>\<open>logger.record_telemetry(msg, t)\<close>, from its check to the queue; the pump is the only caller.\<close>

definition log_message :: "telemetry_message \<Rightarrow> real \<Rightarrow> flight_logger \<Rightarrow> (py_exn + unit) \<times> flight_logger" where
  "log_message msg t L =
     (case record_telemetry t (class_name (type_of msg)) (JObj (message_data msg)) L of
        (Inl e, L1) \<Rightarrow> (Inl e, L1)
      | (Inr _, L1) \<Rightarrow> (Inr (), record_end (length (fl_callers L1) - 1) L1))"

fun pump_frames ::
  "parser_settings \<Rightarrow> (nat \<Rightarrow> real) \<Rightarrow> crsf_frame list \<Rightarrow> fpv_pump \<Rightarrow> (monitor_exn + unit) \<times> fpv_pump" where
  "pump_frames S clock [] M = (Inr (), M)"
| "pump_frames S clock (f # fs) M =
     (case parse_telemetry S f (pm_counts M) of
        (Inl TelemetryParseError, c) \<Rightarrow> pump_frames S clock fs (M\<lparr>pm_counts := c\<rparr>)
      | (Inl ZeroDivisionError, c) \<Rightarrow> (Inl Monitor_Division_By_Zero, M\<lparr>pm_counts := c\<rparr>)
      | (Inr None, c) \<Rightarrow> pump_frames S clock fs (M\<lparr>pm_counts := c\<rparr>)
      | (Inr (Some msg), c) \<Rightarrow>
          let t = clock (pm_readings M);
              M1 = M\<lparr>pm_counts := c, pm_readings := Suc (pm_readings M), pm_store := store_update msg t (pm_store M)\<rparr>
          in case pm_logger M1 of
               None \<Rightarrow> pump_frames S clock fs M1
             | Some L \<Rightarrow>
                 (case log_message msg t L of
                    (Inl e, L1) \<Rightarrow> (Inl (Monitor_Raised e), M1\<lparr>pm_logger := Some L1\<rparr>)
                  | (Inr _, L1) \<Rightarrow> pump_frames S clock fs (M1\<lparr>pm_logger := Some L1\<rparr>)))"

definition pump_once ::
  "crsf_link_settings \<Rightarrow> parser_settings \<Rightarrow> health_settings \<Rightarrow> (nat \<Rightarrow> real) \<Rightarrow> py_exn + bytes \<Rightarrow> fpv_pump \<Rightarrow>
     (monitor_exn + health_report) \<times> fpv_pump" where
  "pump_once LS S HS clock answer M =
     (if \<not> cl_open (pm_link M) then (Inl (Monitor_Raised RuntimeError), M)
      else case answer of
        Inl e \<Rightarrow> (Inl (Monitor_Raised e), M)
      | Inr chunk \<Rightarrow>
          (case poll_inbound LS chunk (pm_link M) of
             (Inl e, L) \<Rightarrow> (Inl (Monitor_Raised e), M\<lparr>pm_link := L\<rparr>)
           | (Inr frames, L) \<Rightarrow>
               (case pump_frames S clock frames (M\<lparr>pm_link := L\<rparr>) of
                  (Inl e, M1) \<Rightarrow> (Inl e, M1)
                | (Inr _, M1) \<Rightarrow>
                    (case evaluate HS (pm_store M1) (clock (pm_readings M1)) (pm_monitor M1) of
                       (report, m, _) \<Rightarrow> (Inr report, M1\<lparr>pm_monitor := m, pm_readings := Suc (pm_readings M1)\<rparr>)))))"

text \<open>
  The loop of \<^verbatim>\<open>run\<close>: each element is what the serial port answers, after the turns that the logger's
  writer took since the last poll.  It ends with the first exception.
\<close>

definition writer_turns :: "(bool \<times> bool) list \<Rightarrow> fpv_pump \<Rightarrow> fpv_pump" where
  "writer_turns turns M =
     M\<lparr>pm_logger := map_option (\<lambda>L. foldl (\<lambda>L (ok, flush_fails). writer_step ok flush_fails L) L turns) (pm_logger M)\<rparr>"

fun pump_run ::
  "crsf_link_settings \<Rightarrow> parser_settings \<Rightarrow> health_settings \<Rightarrow> (nat \<Rightarrow> real) \<Rightarrow>
     ((bool \<times> bool) list \<times> (py_exn + bytes)) list \<Rightarrow> fpv_pump \<Rightarrow> health_report list \<times> monitor_exn option \<times> fpv_pump" where
  "pump_run LS S HS clock [] M = ([], None, M)"
| "pump_run LS S HS clock ((oks, answer) # inputs) M =
     (case pump_once LS S HS clock answer (writer_turns oks M) of
        (Inl e, M1) \<Rightarrow> ([], Some e, M1)
      | (Inr r, M1) \<Rightarrow> (case pump_run LS S HS clock inputs M1 of (rs, x, M2) \<Rightarrow> (r # rs, x, M2)))"

text \<open>The link opened, the logger started when there is one.\<close>

definition monitor_start :: "crsf_link_settings \<Rightarrow> flight_logger option \<Rightarrow> fpv_pump" where
  "monitor_start LS logger =
     \<lparr>pm_link = link_open (new_link LS False), pm_counts = Map.empty, pm_store = Map.empty, pm_monitor = new_monitor,
      pm_readings = 0, pm_logger = map_option (\<lambda>L. snd (logger_start True L)) logger\<rparr>"

section \<open>Replay\<close>

text \<open>
  The replayed store keeps whatever values a record holds.  The monitor reads the latest link statistics
  and the times; values there of a type that the logger never writes end the model's replay with
  \<open>Replay_Untyped\<close>, behind which it says nothing of the code.
\<close>

type_synonym replay_store = "message_type \<rightharpoonup> logged_message \<times> real"

fun logged_time :: "json \<Rightarrow> real option" where
  "logged_time (JFloat (Fin t)) = Some t"
| "logged_time (JInt t) = Some (real_of_int t)"
| "logged_time _ = None"

fun logged_int :: "json option \<Rightarrow> int option" where
  "logged_int (Some (JInt i)) = Some i"
| "logged_int _ = None"

fun logged_power :: "json option \<Rightarrow> int option option" where
  "logged_power (Some JNull) = Some None"
| "logged_power (Some (JInt i)) = Some (Some i)"
| "logged_power _ = None"

definition logged_statistics :: "logged_message \<Rightarrow> link_statistics option" where
  "logged_statistics m =
     (let i = (\<lambda>k. logged_int (map_of (lg_data m) k))
      in case (i ''uplink_rssi_ant1_dbm'', i ''uplink_rssi_ant2_dbm'', i ''uplink_lq'', i ''uplink_snr_db'',
               i ''active_antenna'', i ''rf_mode'', logged_power (map_of (lg_data m) ''uplink_tx_power_mw''),
               i ''downlink_rssi_dbm'', i ''downlink_lq'', i ''downlink_snr_db'') of
           (Some r1, Some r2, Some lq, Some snr, Some ant, Some mode, Some p, Some dr, Some dlq, Some dsnr) \<Rightarrow>
             Some \<lparr>uplink_rssi_ant1_dbm = r1, uplink_rssi_ant2_dbm = r2, uplink_lq = lq, uplink_snr_db = snr,
                   active_antenna = ant, rf_mode = mode, uplink_tx_power_mw = p, downlink_rssi_dbm = dr,
                   downlink_lq = dlq, downlink_snr_db = dsnr\<rparr>
         | _ \<Rightarrow> None)"

text \<open>What the health monitor sees of a replayed store: the link statistics.\<close>

definition seen_store :: "replay_store \<Rightarrow> replay_exn + telemetry_store" where
  "seen_store st =
     (case st TLinkStatistics of
        None \<Rightarrow> Inr Map.empty
      | Some (m, t) \<Rightarrow>
          (case logged_statistics m of
             None \<Rightarrow> Inl Replay_Untyped
           | Some s \<Rightarrow> Inr [TLinkStatistics \<mapsto> (LinkStatistics s, t)]))"

definition replay_step ::
  "health_settings \<Rightarrow> json \<Rightarrow> replay_store \<times> monitor \<Rightarrow> replay_exn + health_report \<times> replay_store \<times> monitor" where
  "replay_step HS rec R =
     (case R of (st, m) \<Rightarrow>
        case rec of
          JObj kvs \<Rightarrow>
            (case (map_of kvs ''type'', map_of kvs ''data'', map_of kvs ''t'') of
               (Some ty, Some data, Some tv) \<Rightarrow>
                 then_ok (message_from_record ty data) (\<lambda>msg.
                   case logged_time tv of
                     None \<Rightarrow> Inl Replay_Untyped
                   | Some t \<Rightarrow>
                       let st1 = st(lg_type msg \<mapsto> (msg, t))
                       in then_ok (seen_store st1) (\<lambda>seen.
                            case evaluate HS seen t m of (report, m1, _) \<Rightarrow> Inr (report, st1, m1)))
             | _ \<Rightarrow> Inl Replay_Parse_Error)
        | _ \<Rightarrow> Inl (Replay_Raised TypeError))"

fun replay_from ::
  "health_settings \<Rightarrow> json list \<Rightarrow> replay_store \<times> monitor \<Rightarrow> health_report list \<Rightarrow>
     replay_exn + health_report list \<times> replay_store \<times> monitor" where
  "replay_from HS [] R reports = Inr (reports, R)"
| "replay_from HS (rec # recs) R reports =
     then_ok (replay_step HS rec R) (\<lambda>(report, R1). replay_from HS recs R1 (reports @ [report]))"

definition replay_records :: "health_settings \<Rightarrow> int \<Rightarrow> json list \<Rightarrow> replay_exn + health_report list" where
  "replay_records HS store_history_len recs =
     (if store_history_len < 1 then Inl (Replay_Raised ValueError)
      else then_ok (replay_from HS recs (Map.empty, new_monitor) []) (\<lambda>(reports, _). Inr reports))"

text \<open>\<^verbatim>\<open>replay_file\<close> with the default history length; \<open>content\<close> is the text of the file.\<close>

definition replay_file :: "(string \<Rightarrow> json option) \<Rightarrow> health_settings \<Rightarrow> string \<Rightarrow> replay_exn + health_report list" where
  "replay_file loads HS content =
     (case read_jsonl loads content of
        Inl e \<Rightarrow> Inl (Replay_Dataset e)
      | Inr (_, recs) \<Rightarrow> replay_records HS 512 recs)"

section \<open>Conversion to tables\<close>

text \<open>Nested values become their JSON text, so that every column holds scalars.\<close>

definition flatten_record :: "(json \<Rightarrow> string) \<Rightarrow> (string \<times> json) list \<Rightarrow> (string \<times> json) list" where
  "flatten_record dumps rec =
     map (\<lambda>(k, v). (k, case v of JArr _ \<Rightarrow> JStr (dumps v) | JObj _ \<Rightarrow> JStr (dumps v) | _ \<Rightarrow> v)) rec"

datatype convert_exn = Convert_Dataset dataset_exn | Convert_Raised py_exn

text \<open>
  A record that is no object has no \<^verbatim>\<open>items\<close>.  \<open>arrow\<close> is the import of \<^verbatim>\<open>pyarrow\<close>, with its writing of a
  table when it is installed.
\<close>

fun flatten_all :: "(json \<Rightarrow> string) \<Rightarrow> json list \<Rightarrow> py_exn + (string \<times> json) list list" where
  "flatten_all dumps [] = Inr []"
| "flatten_all dumps (r # rs) =
     (case r of
        JObj kvs \<Rightarrow> then_ok (flatten_all dumps rs) (\<lambda>rows. Inr (flatten_record dumps kvs # rows))
      | _ \<Rightarrow> Inl AttributeError)"

type_synonym table = "(string \<times> json) list list"

definition to_parquet :: "(json \<Rightarrow> string) \<Rightarrow> (table \<Rightarrow> py_exn + unit) option \<Rightarrow> json list \<Rightarrow> py_exn + nat" where
  "to_parquet dumps arrow recs =
     (case arrow of
        None \<Rightarrow> Inl RuntimeError
      | Some write \<Rightarrow>
          then_ok (flatten_all dumps recs) (\<lambda>rows. then_ok (write rows) (\<lambda>_. Inr (length rows))))"

definition convert_file ::
  "(string \<Rightarrow> json option) \<Rightarrow> (json \<Rightarrow> string) \<Rightarrow> (table \<Rightarrow> py_exn + unit) option \<Rightarrow> string \<Rightarrow> convert_exn + nat" where
  "convert_file loads dumps arrow content =
     (case read_jsonl loads content of
        Inl e \<Rightarrow> Inl (Convert_Dataset e)
      | Inr (_, recs) \<Rightarrow> (case to_parquet dumps arrow recs of Inl e \<Rightarrow> Inl (Convert_Raised e) | Inr n \<Rightarrow> Inr n))"

definition CONVERT_STREAMS :: "log_stream list" where
  "CONVERT_STREAMS = [Rc_Log, Telemetry_Log, Event_Log, Frame_Log]"

fun convert_streams ::
  "(log_stream \<Rightarrow> string option) \<Rightarrow> (log_stream \<Rightarrow> string \<Rightarrow> convert_exn + nat) \<Rightarrow> log_stream list \<Rightarrow>
     convert_exn + (string \<times> nat) list" where
  "convert_streams present convert [] = Inr []"
| "convert_streams present convert (st # sts) =
     (case present st of
        None \<Rightarrow> convert_streams present convert sts
      | Some content \<Rightarrow>
          then_ok (convert st content) (\<lambda>n.
            then_ok (convert_streams present convert sts) (\<lambda>counts. Inr ((log_stream_name st, n) # counts))))"

text \<open>The streams of a session directory that are there, each to its own file.\<close>

definition convert_session ::
  "(string \<Rightarrow> json option) \<Rightarrow> (json \<Rightarrow> string) \<Rightarrow> (log_stream \<Rightarrow> (table \<Rightarrow> py_exn + unit) option) \<Rightarrow>
     (log_stream \<Rightarrow> string option) \<Rightarrow> convert_exn + (string \<times> nat) list" where
  "convert_session loads dumps arrow present =
     convert_streams present (\<lambda>st. convert_file loads dumps (arrow st)) CONVERT_STREAMS"

lemma flatten_scalar: "(k, v) \<in> set (flatten_record dumps rec) \<Longrightarrow> v \<noteq> JArr xs \<and> v \<noteq> JObj ys"
  by (auto simp: flatten_record_def split: json.splits)

lemma flatten_keys: "map fst (flatten_record dumps rec) = map fst rec"
  by (simp add: flatten_record_def comp_def case_prod_unfold)

lemma flatten_all_rows: "flatten_all dumps rs = Inr rows \<Longrightarrow> length rows = length rs"
  by (induction rs arbitrary: rows) (auto simp: then_ok_Inr_iff split: json.splits)

section \<open>What the logger wrote is replayed as it was\<close>

definition message_record :: "telemetry_message \<times> real \<Rightarrow> json" where
  "message_record = (\<lambda>(msg, t). telemetry_record (Fin t) (class_name (type_of msg)) (JObj (message_data msg)))"

definition logged_view :: "telemetry_store \<Rightarrow> replay_store" where
  "logged_view st = map_option (\<lambda>(msg, t). (logged_of msg, t)) \<circ> st"

lemma logged_statistics_back: "logged_statistics (logged_of (LinkStatistics s)) = Some s"
  by (cases s) (simp add: logged_statistics_def logged_of_def split: option.split)

lemma logged_view_update: "logged_view (store_update msg t st) = (logged_view st)(type_of msg \<mapsto> (logged_of msg, t))"
  by (auto simp: logged_view_def store_update_def)

text \<open>The monitor looks at nothing but the link statistics of a store.\<close>

lemma evaluate_seen: "st TLinkStatistics = st' TLinkStatistics \<Longrightarrow> evaluate HS st t m = evaluate HS st' t m"
  by (simp add: evaluate_def raw_state_def store_latest_def)

lemma seen_view:
  assumes "store_typed st"
  shows "\<exists>seen. seen_store (logged_view st) = Inr seen \<and> seen TLinkStatistics = st TLinkStatistics"
proof (cases "st TLinkStatistics")
  case None
  then show ?thesis by (simp add: seen_store_def logged_view_def)
next
  case (Some e)
  then obtain msg t where e: "st TLinkStatistics = Some (msg, t)" by (cases e) auto
  with assms have "type_of msg = TLinkStatistics" by (simp add: store_typed_def)
  then obtain s where "msg = LinkStatistics s" by (cases msg) auto
  with e show ?thesis by (simp add: seen_store_def logged_view_def logged_statistics_back)
qed

lemma replay_step_record:
  assumes "store_typed st"
  shows "replay_step HS (message_record (msg, t)) (logged_view st, m) =
    (case evaluate HS (store_update msg t st) t m of
       (report, m1, _) \<Rightarrow> Inr (report, logged_view (store_update msg t st), m1))"
proof -
  have typed: "store_typed (store_update msg t st)"
    using store_machine.inv_step [OF assms, of "(msg, t)"] by simp
  obtain seen where seen: "seen_store (logged_view (store_update msg t st)) = Inr seen"
      "seen TLinkStatistics = store_update msg t st TLinkStatistics"
    using seen_view [OF typed] by blast
  have "replay_step HS (message_record (msg, t)) (logged_view st, m) =
      (case evaluate HS seen t m of (report, m1, _) \<Rightarrow> Inr (report, logged_view (store_update msg t st), m1))"
    using seen(1) by (simp add: replay_step_def message_record_def telemetry_record_def message_from_record_back
        logged_view_update logged_of_def)
  then show ?thesis using evaluate_seen [where st = seen and st' = "store_update msg t st", OF seen(2)] by simp
qed

text \<open>The monitor evaluated once for each message, at the message's time.\<close>

fun watch :: "health_settings \<Rightarrow> (telemetry_message \<times> real) list \<Rightarrow> telemetry_store \<times> monitor \<Rightarrow>
    health_report list \<times> telemetry_store \<times> monitor" where
  "watch HS [] W = ([], W)"
| "watch HS ((msg, t) # ms) (st, m) =
     (case evaluate HS (store_update msg t st) t m of
        (report, m1, _) \<Rightarrow>
          (case watch HS ms (store_update msg t st, m1) of (rs, W) \<Rightarrow> (report # rs, W)))"

lemma replay_from_watch:
  "store_typed st \<Longrightarrow>
   replay_from HS (map message_record ms) (logged_view st, m) reports =
     (case watch HS ms (st, m) of (rs, st1, m1) \<Rightarrow> Inr (reports @ rs, logged_view st1, m1))"
proof (induction ms arbitrary: st m reports)
  case (Cons e ms)
  obtain msg t where e: "e = (msg, t)" by (cases e)
  have "store_typed (store_update msg t st)" using store_machine.inv_step [OF Cons.prems, of "(msg, t)"] by simp
  from Cons.IH [OF this] show ?case
    by (simp add: e replay_step_record [OF Cons.prems] split: prod.split)
qed simp

end
