(* ===== verification/Monitor_Facts.thy ===== *)
theory Monitor_Facts
  imports Flight_Monitor Flight_Facts
begin

text \<open>The properties of the telemetry monitor and of the replay of its sessions, each with a concrete instance.\<close>

section \<open>Replay of a session\<close>

lemma watch_Cons:
  "fst (watch HS ((msg, t) # ms) (st, m)) =
     fst (evaluate HS (store_update msg t st) t m) #
     fst (watch HS ms (store_update msg t st, fst (snd (evaluate HS (store_update msg t st) t m))))"
  by (simp add: case_prod_unfold)

lemma watch_take: "fst (watch HS (take k ms) W) = take k (fst (watch HS ms W))"
proof (induction ms arbitrary: k W)
  case (Cons e ms)
  obtain msg t where e: "e = (msg, t)" by (cases e)
  obtain st m where W: "W = (st, m)" by (cases W)
  show ?case by (cases k) (simp_all add: e W watch_Cons Cons.IH del: watch.simps(2))
qed simp

lemma replay_watch:
  "1 \<le> n \<Longrightarrow> replay_records HS n (map message_record ms) = Inr (fst (watch HS ms (Map.empty, new_monitor)))"
proof -
  assume n: "1 \<le> n"
  have view: "logged_view Map.empty = Map.empty" by (simp add: logged_view_def fun_eq_iff)
  have "store_typed Map.empty" by (simp add: store_typed_def)
  from replay_from_watch [OF this, of HS ms new_monitor "[]"] n show ?thesis
    by (simp add: replay_records_def view split: prod.split)
qed

text \<open>C23: A recorded session replays to the reports that the health monitor gives when it is asked after each
  message, at the time the message was stored; a session file that was torn anywhere behind its header
  replays to a first part of them, and a whole one to all.\<close>

theorem replay_reproduces_reports:
  assumes "json_line loads dumps (log_header Telemetry_Log)" "list_all (json_line loads dumps) (map message_record ms)"
    and "length (dumps (log_header Telemetry_Log)) \<le> n"
    and "n \<le> length (file_text dumps (log_header Telemetry_Log # map message_record ms))"
  shows "\<exists>k \<le> length ms.
    replay_file loads HS (take n (file_text dumps (log_header Telemetry_Log # map message_record ms))) =
      Inr (take k (fst (watch HS ms (Map.empty, new_monitor)))) \<and>
    (n = length (file_text dumps (log_header Telemetry_Log # map message_record ms)) \<longrightarrow> k = length ms)"
proof -
  let ?recs = "map message_record ms"
  from torn_session [OF assms] obtain k where k: "k \<le> length ms"
    "read_jsonl loads (take n (file_text dumps (log_header Telemetry_Log # ?recs))) =
      Inr (log_header Telemetry_Log, map message_record (take k ms))"
    "k = length ms \<or> n + 1 < length (file_text dumps (log_header Telemetry_Log # take (Suc k) ?recs))"
    by (auto simp: take_map)
  have "file_text dumps vs = file_text dumps (take j vs) @ file_text dumps (drop j vs)" for j vs
    unfolding file_text_def by (metis append_take_drop_id concat_append map_append)
  then have "length (file_text dumps (take j vs)) \<le> length (file_text dumps vs)" for j vs
    by (metis le_add1 length_append)
  from this [of "Suc k" ?recs] k(3)
  have "n = length (file_text dumps (log_header Telemetry_Log # ?recs)) \<longrightarrow> k = length ms" by auto
  with k show ?thesis by (intro exI [of _ k]) (simp add: replay_file_def replay_watch watch_take)
qed


definition demo_stats :: link_statistics where
  "demo_stats =
     \<lparr>uplink_rssi_ant1_dbm = -60, uplink_rssi_ant2_dbm = -60, uplink_lq = 99, uplink_snr_db = 8, active_antenna = 0,
      rf_mode = 2, uplink_tx_power_mw = Some 100, downlink_rssi_dbm = -60, downlink_lq = 99, downlink_snr_db = 8\<rparr>"

definition demo_log :: "(telemetry_message \<times> real) list" where
  "demo_log = [(LinkStatistics demo_stats, 1), (LinkStatistics demo_stats, 4)]"

definition session_dumps :: "json \<Rightarrow> string" where
  "session_dumps v = (if v = log_header Telemetry_Log then ''[H]'' else if v = message_record (hd demo_log) then ''[1]'' else ''[4]'')"

definition session_loads :: "string \<Rightarrow> json option" where
  "session_loads s =
     (if s = ''[H]'' then Some (log_header Telemetry_Log) else if s = ''[1]'' then Some (message_record (hd demo_log))
      else if s = ''[4]'' then Some (message_record (demo_log ! 1)) else None)"

lemma session_lines:
  "json_line session_loads session_dumps (log_header Telemetry_Log)"
  "list_all (json_line session_loads session_dumps) (map message_record demo_log)"
  unfolding json_line_def by code_simp+

theorem replay_reproduces_reports_witness:
  "\<exists>rs. replay_file session_loads default_health_settings
      (file_text session_dumps (log_header Telemetry_Log # map message_record demo_log)) = Inr rs \<and>
    map hr_state rs = [NO_DATA, HS_OK]"
proof -
  let ?T = "file_text session_dumps (log_header Telemetry_Log # map message_record demo_log)"
  have "length (session_dumps (log_header Telemetry_Log)) \<le> length ?T" by (simp add: file_text_def)
  from replay_reproduces_reports [OF session_lines this order_refl, of default_health_settings]
  have "replay_file session_loads default_health_settings ?T =
      Inr (fst (watch default_health_settings demo_log (Map.empty, new_monitor)))"
    by (auto simp: watch_take [symmetric])
  moreover have "map hr_state (fst (watch default_health_settings demo_log (Map.empty, new_monitor))) = [NO_DATA, HS_OK]"
    by (simp add: demo_log_def demo_stats_def store_update_def evaluate_def raw_state_def store_latest_def lq_signal_def
        downlink_signal_def rssi_signal_def sensitivity_floor_def default_health_settings_def str_int_def str_nat.simps
        apply_hysteresis_def new_monitor_def escalate_def Let_def)
  ultimately show ?thesis by (intro exI conjI)
qed

section \<open>From the bytes on the wire to the permission to arm\<close>

text \<open>
  What the monitor hears, said without it: the messages in the frames of what arrived, each with the reading
  of the clock at which it is stored.  The clock is read once for each message and once for each report.
\<close>

definition message_of :: "parser_settings \<Rightarrow> crsf_frame \<Rightarrow> telemetry_message option" where
  "message_of S f = (case fst (parse_telemetry S f Map.empty) of Inr (Some msg) \<Rightarrow> Some msg | _ \<Rightarrow> None)"

fun stamped_from :: "(nat \<Rightarrow> real) \<Rightarrow> nat \<Rightarrow> telemetry_message list \<Rightarrow> (telemetry_message \<times> real) list" where
  "stamped_from clock n [] = []"
| "stamped_from clock n (msg # msgs) = (msg, clock n) # stamped_from clock (Suc n) msgs"

fun heard ::
  "crsf_link_settings \<Rightarrow> parser_settings \<Rightarrow> (nat \<Rightarrow> real) \<Rightarrow> bytes list \<Rightarrow> bytes \<Rightarrow> nat \<Rightarrow> (telemetry_message \<times> real) list"
where
  "heard LS S clock [] buf n = []"
| "heard LS S clock (chunk # chunks) buf n =
     (case extract_frames (crsf_max_frame_len LS) SYNC_ADDRESSES (buf @ chunk) of
        (fs, rest, _) \<Rightarrow>
          let msgs = List.map_filter (message_of S) fs
          in stamped_from clock n msgs @ heard LS S clock chunks rest (Suc (n + length msgs)))"

definition received :: "((bool \<times> bool) list \<times> (py_exn + bytes)) list \<Rightarrow> bytes list" where
  "received inputs = map (\<lambda>(_, a). case a of Inl _ \<Rightarrow> [] | Inr chunk \<Rightarrow> chunk) inputs"

lemma length_stamped_from [simp]: "length (stamped_from clock n msgs) = length msgs"
  by (induction msgs arbitrary: n) simp_all

lemma stamped_from_in: "(msg, t) \<in> set (stamped_from clock n msgs) \<Longrightarrow> msg \<in> set msgs"
  by (induction msgs arbitrary: n) auto

text \<open>The store that messages build.\<close>

definition stored :: "(telemetry_message \<times> real) list \<Rightarrow> telemetry_store" where
  "stored ms = foldl (\<lambda>st (msg, t). store_update msg t st) Map.empty ms"

lemma stored_snoc: "stored (ms @ [(msg, t)]) = store_update msg t (stored ms)"
  by (simp add: stored_def)

lemma stored_Nil [simp]: "stored [] = Map.empty"
  by (simp add: stored_def)

text \<open>It holds the latest of each type.\<close>

lemma stored_latest:
  "stored ms ty = Some (msg, t) \<Longrightarrow>
   \<exists>pre post. ms = pre @ (msg, t) # post \<and> type_of msg = ty \<and> (\<forall>e \<in> set post. type_of (fst e) \<noteq> ty)"
proof (induction ms rule: rev_induct)
  case (snoc e ms)
  obtain msg' t' where e: "e = (msg', t')" by (cases e)
  show ?case
  proof (cases "type_of msg' = ty")
    case True
    then have "msg' = msg" "t' = t" using snoc.prems by (simp_all add: e stored_snoc store_update_def)
    with True e show ?thesis by (intro exI [of _ ms] exI [of _ "[]"]) simp
  next
    case False
    then have "stored ms ty = Some (msg, t)" using snoc.prems by (auto simp: e stored_snoc store_update_def)
    from snoc.IH [OF this] obtain pre post where
      "ms = pre @ (msg, t) # post" "type_of msg = ty" "\<forall>e \<in> set post. type_of (fst e) \<noteq> ty" by blast
    with False e show ?thesis by (intro exI [of _ pre] exI [of _ "post @ [e]"]) simp
  qed
qed simp

lemma parse_result: "fst (parse_telemetry S f c) = fst (parse_telemetry S f Map.empty)"
  by (simp add: parse_telemetry_def Let_def)

lemma parse_heard: "parse_telemetry S f c = (r, c') \<Longrightarrow> message_of S f = (case r of Inr (Some msg) \<Rightarrow> Some msg | _ \<Rightarrow> None)"
  using parse_result [of S f c] by (simp add: message_of_def)

text \<open>The monitor's account: its store is built from the messages so far, its buffer and its readings are the ones of \<open>heard\<close>.\<close>

definition account :: "(telemetry_message \<times> real) list \<Rightarrow> bytes \<Rightarrow> nat \<Rightarrow> fpv_pump \<Rightarrow> bool" where
  "account ms buf n M \<longleftrightarrow>
     pm_store M = stored ms \<and> pm_readings M = n \<and> cl_buffer (pm_link M) = buf \<and> cl_recent_tx (pm_link M) = []"

lemma pump_frames_account:
  "pump_frames S clock fs M = (Inr u, M') \<Longrightarrow> account ms buf n M \<Longrightarrow>
   account (ms @ stamped_from clock n (List.map_filter (message_of S) fs)) buf
     (n + length (List.map_filter (message_of S) fs)) M'"
proof (induction fs arbitrary: ms n M)
  case Nil
  then show ?case by (simp add: map_filter_simps)
next
  case (Cons f fs)
  obtain r c where p: "parse_telemetry S f (pm_counts M) = (r, c)" by (metis prod.collapse)
  note m = parse_heard [OF p]
  show ?case
  proof (cases "\<exists>msg. r = Inr (Some msg)")
    case True
    then obtain msg where r: "r = Inr (Some msg)" by blast
    let ?t = "clock (pm_readings M)"
    let ?M = "M\<lparr>pm_counts := c, pm_readings := Suc (pm_readings M), pm_store := store_update msg ?t (pm_store M)\<rparr>"
    obtain lg where run: "pump_frames S clock fs (?M\<lparr>pm_logger := lg\<rparr>) = (Inr u, M')"
    proof (cases "pm_logger M")
      case None
      then have "?M\<lparr>pm_logger := None\<rparr> = ?M" by simp
      moreover have "pump_frames S clock fs ?M = (Inr u, M')" using Cons.prems(1) None by (simp add: p r Let_def)
      ultimately show ?thesis using that [of None] by simp
    next
      case (Some L)
      obtain a L1 where l: "log_message msg ?t L = (a, L1)" by (metis prod.collapse)
      then have "pump_frames S clock fs (?M\<lparr>pm_logger := Some L1\<rparr>) = (Inr u, M')"
        using Cons.prems(1) Some by (cases a) (simp_all add: p r Let_def)
      then show ?thesis by (rule that)
    qed
    have "account (ms @ [(msg, clock n)]) buf (Suc n) (?M\<lparr>pm_logger := lg\<rparr>)"
      using Cons.prems(2) by (simp add: account_def stored_snoc)
    from Cons.IH [OF run this] m r show ?thesis by (simp add: map_filter_simps)
  next
    case False
    then have "pump_frames S clock fs (M\<lparr>pm_counts := c\<rparr>) = (Inr u, M')"
      using Cons.prems(1) p by (auto split: sum.splits option.splits parse_exn.splits)
    moreover have "account ms buf n (M\<lparr>pm_counts := c\<rparr>)" using Cons.prems(2) by (simp add: account_def)
    ultimately have "account (ms @ stamped_from clock n (List.map_filter (message_of S) fs)) buf
       (n + length (List.map_filter (message_of S) fs)) M'" by (rule Cons.IH)
    moreover have "message_of S f = None" using m False by (auto split: sum.split option.split)
    ultimately show ?thesis by (simp add: map_filter_simps)
  qed
qed

text \<open>The frames that the echo filter drops are no messages.\<close>

lemma message_of_rc: "cf_type f = RC_CHANNELS_PACKED \<Longrightarrow> message_of S f = None"
  by (simp add: message_of_def parse_telemetry_def crsf_types IGNORED_TYPES_def)

lemma unfiltered_messages:
  "cl_recent_tx L = [] \<Longrightarrow>
   List.map_filter (message_of S) (filter (\<lambda>f. \<not> echo LS L f) fs) = List.map_filter (message_of S) fs"
  by (induction fs) (auto simp: map_filter_simps echo_def message_of_rc split: option.split)

lemma pump_once_account:
  assumes "pump_once LS S HS clock (Inr chunk) M = (Inr report, M')" "account ms buf n M"
    and "extract_frames (crsf_max_frame_len LS) SYNC_ADDRESSES (buf @ chunk) = (fs, rest, errs)"
  shows "let msgs = List.map_filter (message_of S) fs; hs = ms @ stamped_from clock n msgs in
    account hs rest (Suc (n + length msgs)) M' \<and>
    (\<exists>m. report = fst (evaluate HS (stored hs) (clock (n + length msgs)) m))"
proof -
  let ?msgs = "List.map_filter (message_of S) fs"
  have op: "cl_open (pm_link M)" using assms(1) by (auto simp: pump_once_def split: if_splits)
  have a: "pm_store M = stored ms" "pm_readings M = n" "cl_buffer (pm_link M) = buf" "cl_recent_tx (pm_link M) = []"
    using assms(2) by (simp_all add: account_def)
  define fs' where "fs' = filter (\<lambda>f. \<not> echo LS (pm_link M) f) fs"
  define L where "L = snd (poll_inbound LS chunk (pm_link M))"
  have p: "poll_inbound LS chunk (pm_link M) = (Inr fs', L)" "cl_buffer L = rest" "cl_recent_tx L = []"
    using poll_inbound_open [OF op, of LS chunk] assms(3) a by (simp_all add: L_def fs'_def)
  obtain r M1 where r: "pump_frames S clock fs' (M\<lparr>pm_link := L\<rparr>) = (r, M1)" by (metis prod.collapse)
  with assms(1) p op obtain u where u: "r = Inr u" by (cases r) (auto simp: pump_once_def)
  have "account ms rest n (M\<lparr>pm_link := L\<rparr>)" using a p by (simp add: account_def)
  from pump_frames_account [OF r [unfolded u] this] have acc:
    "account (ms @ stamped_from clock n ?msgs) rest (n + length ?msgs) M1"
    using unfiltered_messages [OF a(4)] by (simp add: fs'_def)
  obtain report' m al where e: "evaluate HS (pm_store M1) (clock (pm_readings M1)) (pm_monitor M1) = (report', m, al)"
    by (metis prod_cases3)
  with assms(1) p op r u have "report = report'" "M' = M1\<lparr>pm_monitor := m, pm_readings := Suc (pm_readings M1)\<rparr>"
    by (simp_all add: pump_once_def)
  with acc e show ?thesis unfolding Let_def account_def by (auto intro!: exI [of _ "pm_monitor M1"])
qed

lemma turns_account [simp]: "account ms buf n (writer_turns turns M) = account ms buf n M"
  by (simp add: account_def writer_turns_def)

lemma pump_run_account:
  assumes "account ms buf n M" "pump_run LS S HS clock inputs M = (rs, x, M')" "i < length rs"
  shows "let hs = heard LS S clock (received (take (Suc i) inputs)) buf n in
    \<exists>m. rs ! i = fst (evaluate HS (stored (ms @ hs)) (clock (n + length hs + i)) m)"
  using assms
proof (induction inputs arbitrary: ms buf n M rs x M' i)
  case (Cons inp inputs)
  obtain turns answer where inp: "inp = (turns, answer)" by (cases inp)
  have acc: "account ms buf n (writer_turns turns M)" using Cons.prems(1) by simp
  obtain r M1 where r: "pump_once LS S HS clock answer (writer_turns turns M) = (r, M1)" by (metis prod.collapse)
  with Cons.prems(2,3) inp obtain report where "r = Inr report" by (cases r) auto
  with r obtain chunk where c: "answer = Inr chunk" "pump_once LS S HS clock (Inr chunk) (writer_turns turns M) = (Inr report, M1)"
    by (cases answer) (auto simp: pump_once_def split: if_splits)
  obtain fs rest errs where e: "extract_frames (crsf_max_frame_len LS) SYNC_ADDRESSES (buf @ chunk) = (fs, rest, errs)"
    by (metis prod_cases3)
  let ?msgs = "List.map_filter (message_of S) fs"
  note step = pump_once_account [OF c(2) acc e, unfolded Let_def]
  obtain rs' x' M2 where t: "pump_run LS S HS clock inputs M1 = (rs', x', M2)" by (metis prod_cases3)
  with Cons.prems(2) inp c have rs: "rs = report # rs'" by simp
  show ?case
  proof (cases i)
    case 0
    with step rs inp c e show ?thesis by (simp add: received_def Let_def)
  next
    case (Suc j)
    with Cons.prems(3) rs have "j < length rs'" by simp
    from Cons.IH [OF conjunct1 [OF step] t this] Suc rs inp c e show ?thesis
      by (simp add: received_def Let_def ac_simps)
  qed
qed simp

lemma start_account: "account [] [] 0 (monitor_start LS logger)"
  by (simp add: account_def monitor_start_def new_link_def link_open_def)

text \<open>Every message that was heard is in a whole frame with a valid checksum.\<close>

lemma extract_rest_suffix:
  "extract_frames m sync buf = (fs, rest, errs) \<Longrightarrow> suffix rest buf"
proof (induction buf arbitrary: fs rest errs rule: extract_induct [of m sync])
  case (step buf)
  have dropped: "suffix rest buf" if "suffix rest (drop k buf)" for k rest
    using that suffix_drop suffix_order.order_trans by blast
  show ?case
  proof (cases "head_action m sync buf")
    case (Emit g n)
    then obtain fs' where "extract_frames m sync (drop n buf) = (fs', rest, errs)"
      using step.prems by (auto simp: extract_by_head [of m sync buf] split: prod.splits)
    from dropped [OF step.IH(2) [OF Emit this]] show ?thesis .
  qed (use step dropped [of _ 1] in \<open>auto simp: extract_by_head [of m sync buf] split: prod.splits\<close>)
qed

lemma heard_frame:
  "(msg, t) \<in> set (heard LS S clock chunks buf n) \<Longrightarrow>
   \<exists>f. frame_wf f \<and> sublist (wire f) (buf @ concat chunks) \<and> message_of S f = Some msg"
proof (induction chunks arbitrary: buf n)
  case (Cons chunk chunks)
  obtain fs rest errs where e: "extract_frames (crsf_max_frame_len LS) SYNC_ADDRESSES (buf @ chunk) = (fs, rest, errs)"
    by (metis prod_cases3)
  let ?msgs = "List.map_filter (message_of S) fs"
  consider (here) "(msg, t) \<in> set (stamped_from clock n ?msgs)"
    | (later) "(msg, t) \<in> set (heard LS S clock chunks rest (Suc (n + length ?msgs)))"
    using Cons.prems e by (auto simp: Let_def)
  then show ?case
  proof cases
    case here
    then obtain f where f: "f \<in> set fs" "message_of S f = Some msg"
      using stamped_from_in by (fastforce simp: map_filter_def)
    with extract_sound [OF e] have "frame_wf f" "sublist (wire f) (buf @ chunk)" by blast+
    moreover have "sublist (buf @ chunk) (buf @ concat (chunk # chunks))" by (simp add: sublist_def) (metis append_Nil)
    ultimately show ?thesis using f(2) sublist_order.order_trans by blast
  next
    case later
    from Cons.IH [OF this] obtain f where f: "frame_wf f" "sublist (wire f) (rest @ concat chunks)" "message_of S f = Some msg"
      by blast
    have "suffix (rest @ concat chunks) (buf @ concat (chunk # chunks))"
      using extract_rest_suffix [OF e] by (auto simp: suffix_def)
    with f show ?thesis by (meson suffix_imp_sublist sublist_order.order_trans)
  qed
qed simp

lemma stats_frame:
  assumes "message_of S f = Some (LinkStatistics s)"
  shows "cf_type f = LINK_STATISTICS \<and> parse_link_statistics (cf_payload f) = Inr s"
  using assms by (auto simp: message_of_def parse_telemetry_def Let_def map_result_def then_ok_Inr_iff
      split: sum.splits option.splits if_splits)

text \<open>C7: Whatever arrives on the serial port, in whatever pieces, a report permits arming only if the latest link
  statistics heard before it were stored at most the staleness limit earlier, have both link qualities at or
  above their warning levels, and came in a whole frame with a valid checksum.\<close>

theorem monitor_permits_only_heard:
  assumes "pump_run LS S HS clock inputs (monitor_start LS logger) = (rs, x, M)" "i < length rs" "arm_permitted (rs ! i)"
  shows "\<exists>pre s t post. heard LS S clock (received (take (Suc i) inputs)) [] 0 = pre @ (LinkStatistics s, t) # post \<and>
    (\<forall>e \<in> set post. type_of (fst e) \<noteq> TLinkStatistics) \<and>
    t_mono (rs ! i) = clock (length (pre @ (LinkStatistics s, t) # post) + i) \<and>
    t_mono (rs ! i) - t \<le> health_linkstats_stale_s HS \<and>
    health_lq_warn HS \<le> uplink_lq s \<and> health_downlink_lq_warn HS \<le> downlink_lq s \<and>
    (\<exists>f. frame_wf f \<and> sublist (wire f) (concat (received (take (Suc i) inputs))) \<and> cf_type f = LINK_STATISTICS \<and>
       parse_link_statistics (cf_payload f) = Inr s)"
proof -
  define hs where "hs = heard LS S clock (received (take (Suc i) inputs)) [] 0"
  from pump_run_account [OF start_account assms(1,2)] obtain m where
    e: "rs ! i = fst (evaluate HS (stored hs) (clock (length hs + i)) m)" by (auto simp: hs_def Let_def)
  then have "fst (raw_state HS (stored hs) (clock (length hs + i))) = HS_OK" using evaluate_permits assms(3) by metis
  from raw_state_OK [OF this] obtain s t where s: "stored hs TLinkStatistics = Some (LinkStatistics s, t)"
    "clock (length hs + i) - t \<le> health_linkstats_stale_s HS" "health_lq_warn HS \<le> uplink_lq s"
    "health_downlink_lq_warn HS \<le> downlink_lq s"
    unfolding store_latest_def by metis
  from stored_latest [OF s(1)] obtain pre post where h: "hs = pre @ (LinkStatistics s, t) # post"
    "\<forall>e \<in> set post. type_of (fst e) \<noteq> TLinkStatistics" by blast
  then have "(LinkStatistics s, t) \<in> set hs" by simp
  then obtain f where f: "frame_wf f" "sublist (wire f) (concat (received (take (Suc i) inputs)))"
    "message_of S f = Some (LinkStatistics s)" using heard_frame unfolding hs_def by fastforce
  have "t_mono (rs ! i) = clock (length hs + i)" by (simp add: e)
  with h s(2-4) f stats_frame [OF f(3)] show ?thesis unfolding hs_def [symmetric]
    by (intro exI [of _ pre] exI [of _ s] exI [of _ t] exI [of _ post]) auto
qed

definition demo_stats_frame :: crsf_frame where
  "demo_stats_frame =
     \<lparr>cf_addr = 0xEA, cf_type = LINK_STATISTICS, cf_payload = [60, 60, 99, 8, 0, 2, 3, 60, 99, 8]\<rparr>"

definition demo_health :: health_settings where
  "demo_health = default_health_settings\<lparr>health_hysteresis_s := 0, sensitivity_floors := Map.empty\<rparr>"

definition demo_inputs :: "((bool \<times> bool) list \<times> (py_exn + bytes)) list" where
  "demo_inputs = [([], Inr (wire demo_stats_frame)), ([], Inr [])]"

lemma demo_parsed: "parse_link_statistics (cf_payload demo_stats_frame) = Inr demo_stats"
  by code_simp

lemma demo_polls:
  "poll_inbound default_crsf_link_settings (wire demo_stats_frame) (link_open (new_link default_crsf_link_settings False)) =
     (Inr [demo_stats_frame], (link_open (new_link default_crsf_link_settings False))\<lparr>frames_received := 1\<rparr>)"
  "poll_inbound default_crsf_link_settings [] ((link_open (new_link default_crsf_link_settings False))\<lparr>frames_received := 1\<rparr>) =
     (Inr [], (link_open (new_link default_crsf_link_settings False))\<lparr>frames_received := 1\<rparr>)"
proof -
  have s: "sendable (crsf_max_frame_len default_crsf_link_settings) SYNC_ADDRESSES demo_stats_frame"
    unfolding sendable_def frame_wf_def by code_simp
  have e: "extract_frames (crsf_max_frame_len default_crsf_link_settings) SYNC_ADDRESSES (wire demo_stats_frame) = ([demo_stats_frame], [], 0)"
    using extract_frames_stream [of "crsf_max_frame_len default_crsf_link_settings" SYNC_ADDRESSES "[demo_stats_frame]" "[]"] s
    by (simp add: extract_short OVERHEAD_def)
  have n: "\<not> echo default_crsf_link_settings (link_open (new_link default_crsf_link_settings False)) demo_stats_frame"
    by (simp add: echo_def demo_stats_frame_def crsf_types link_open_def new_link_def)
  show "poll_inbound default_crsf_link_settings (wire demo_stats_frame) (link_open (new_link default_crsf_link_settings False)) =
     (Inr [demo_stats_frame], (link_open (new_link default_crsf_link_settings False))\<lparr>frames_received := 1\<rparr>)"
    using poll_inbound_open [of "link_open (new_link default_crsf_link_settings False)" default_crsf_link_settings "wire demo_stats_frame"] e n
    by (simp add: link_open_def new_link_def)
qed (simp add: poll_inbound_def link_open_def new_link_def extract_short OVERHEAD_def)

lemma opened [simp]: "cl_open (link_open L)"
  by (simp add: link_open_def)

lemma demo_parse_frame:
  "parse_telemetry default_parser_settings demo_stats_frame Map.empty = (Inr (Some (LinkStatistics demo_stats)), Map.empty)"
  using demo_parsed by (simp add: parse_telemetry_def map_result_def demo_stats_frame_def)

theorem monitor_permits_only_heard_witness:
  "\<exists>rs M. pump_run default_crsf_link_settings default_parser_settings demo_health (\<lambda>n. real n / 4) demo_inputs
       (monitor_start default_crsf_link_settings None) = (rs, None, M) \<and>
     map arm_permitted rs = [False, True] \<and> (\<exists>f. sublist (wire f) (wire demo_stats_frame) \<and> cf_type f = LINK_STATISTICS)"
proof -
  let ?run = "pump_run default_crsf_link_settings default_parser_settings demo_health (\<lambda>n. real n / 4) demo_inputs
       (monitor_start default_crsf_link_settings None)"
  have "map arm_permitted (fst ?run) = [False, True] \<and> fst (snd ?run) = None"
    by (simp add: demo_inputs_def monitor_start_def pump_once_def writer_turns_def demo_polls demo_parse_frame
        Let_def store_update_def evaluate_def raw_state_def store_latest_def lq_signal_def
        downlink_signal_def rssi_signal_def sensitivity_floor_def demo_health_def default_health_settings_def demo_stats_def
        apply_hysteresis_def new_monitor_def escalate_def del: One_nat_def)
  then obtain rs M where r: "?run = (rs, None, M)" "map arm_permitted rs = [False, True]"
    by (metis prod.collapse)
  then have "1 < length rs" "arm_permitted (rs ! 1)"
    by (auto simp: map_eq_Cons_conv)
  from monitor_permits_only_heard [OF r(1) this] obtain f where
    "sublist (wire f) (concat (received (take (Suc 1) demo_inputs)))" "cf_type f = LINK_STATISTICS" by blast
  then have "sublist (wire f) (wire demo_stats_frame) \<and> cf_type f = LINK_STATISTICS"
    by (simp add: received_def demo_inputs_def)
  with r show ?thesis by (intro exI conjI) auto
qed

section \<open>The monitor survives what arrives, and its log is what it saw\<close>

fun stream_records :: "log_stream \<Rightarrow> log_item list \<Rightarrow> json list" where
  "stream_records st [] = []"
| "stream_records st (Sentinel # q) = stream_records st q"
| "stream_records st (Log_Record st' rec # q) = (if st' = st then [rec] else []) @ stream_records st q"

lemma stream_records_append: "stream_records st (p @ q) = stream_records st p @ stream_records st q"
  by (induction st p rule: stream_records.induct) simp_all

text \<open>The telemetry lines of a logger, in the file or waiting for the writer.\<close>

definition telemetry_lines :: "flight_logger \<Rightarrow> json list" where
  "telemetry_lines L = tl (fl_files L Telemetry_Log) @ stream_records Telemetry_Log (fl_queue L)"

definition recording :: "flight_logger \<Rightarrow> (telemetry_message \<times> real) list \<Rightarrow> bool" where
  "recording L ms \<longleftrightarrow> fl_started L \<and> \<not> fl_closed L \<and> fl_callers L = [] \<and> fl_files L Telemetry_Log \<noteq> [] \<and>
     (fl_dropped L Telemetry_Log = 0 \<longrightarrow> telemetry_lines L = map message_record ms)"

lemma record_end_first:
  assumes "fl_callers L = [(False, Telemetry_Log, rec)]"
  shows "record_end 0 L = (if queue_room (L\<lparr>fl_callers := []\<rparr>)
     then L\<lparr>fl_callers := [], fl_queue := fl_queue L @ [Log_Record Telemetry_Log rec]\<rparr>
     else count_drop Telemetry_Log (L\<lparr>fl_callers := []\<rparr>))"
  using assms by (simp add: record_end_def remove_nth_def Let_def)

lemma log_message_recording:
  assumes "recording L ms"
  shows "\<exists>L'. log_message msg t L = (Inr (), L') \<and> recording L' (ms @ [(msg, t)])"
proof -
  let ?rec = "telemetry_record (Fin t) (class_name (type_of msg)) (JObj (message_data msg))"
  let ?L = "(count_telemetry t (class_name (type_of msg)) L)
    \<lparr>fl_callers := [(False, Telemetry_Log, ?rec)], fl_admitted := (fl_admitted L)(Telemetry_Log := Suc (fl_admitted L Telemetry_Log))\<rparr>"
  have b: "record_telemetry t (class_name (type_of msg)) (JObj (message_data msg)) L = (Inr (), ?L)"
    using assms by (simp add: recording_def record_telemetry_def record_begin_def check_writable_def count_telemetry_def)
  have "recording (record_end 0 ?L) (ms @ [(msg, t)])"
    using assms by (auto simp: recording_def record_end_first telemetry_lines_def count_telemetry_def count_drop_def
        stream_records_append message_record_def)
  then show ?thesis by (simp add: log_message_def b)
qed

lemma writer_recording: "recording L ms \<Longrightarrow> recording (writer_step ok ff L) ms"
proof (cases "fl_writer L \<and> fl_queue L \<noteq> []")
  case True
  assume r: "recording L ms"
  obtain it q where "fl_queue L = it # q" using True by (cases "fl_queue L") auto
  with r True show ?thesis
    by (cases it) (auto simp: recording_def writer_step_def telemetry_lines_def count_drop_def Let_def)
qed (auto simp: writer_step_def recording_def telemetry_lines_def split: list.split)

lemma writer_turns_recording: "recording L ms \<Longrightarrow> recording (foldl (\<lambda>L (ok, ff). writer_step ok ff L) L turns) ms"
  by (induction turns arbitrary: L) (auto intro: writer_recording)

definition logging :: "(telemetry_message \<times> real) list \<Rightarrow> fpv_pump \<Rightarrow> bool" where
  "logging ms M \<longleftrightarrow> pm_store M = stored ms \<and> cl_open (pm_link M) \<and> (\<exists>L. pm_logger M = Some L \<and> recording L ms)"

definition scales_ok :: "parser_settings \<Rightarrow> bool" where
  "scales_ok S \<longleftrightarrow> gps_coord_scale S \<noteq> 0 \<and> gps_groundspeed_scale S \<noteq> 0 \<and> gps_heading_scale S \<noteq> 0"

lemma parse_no_division:
  assumes "scales_ok S"
  shows "parse_telemetry S f c \<noteq> (Inl ZeroDivisionError, c')"
  using assms by (auto simp: scales_ok_def parse_telemetry_def Let_def map_result_def then_ok_Inl_iff parse_link_statistics_def
      parse_battery_def parse_attitude_def parse_flight_mode_def parse_gps_def require_def split: if_splits)

lemma pump_frames_logging:
  "scales_ok S \<Longrightarrow> logging ms M \<Longrightarrow> \<exists>M'. pump_frames S clock fs M = (Inr (), M') \<and>
     logging (ms @ stamped_from clock (pm_readings M) (List.map_filter (message_of S) fs)) M'"
proof (induction fs arbitrary: ms M)
  case Nil
  then show ?case by (simp add: map_filter_simps)
next
  case (Cons f fs)
  obtain r c where p: "parse_telemetry S f (pm_counts M) = (r, c)" by (metis prod.collapse)
  note m = parse_heard [OF p]
  have skip: "logging ms (M\<lparr>pm_counts := c\<rparr>)" using Cons.prems(2) by (simp add: logging_def)
  show ?case
  proof (cases "\<exists>msg. r = Inr (Some msg)")
    case True
    then obtain msg where r: "r = Inr (Some msg)" by blast
    obtain L where L: "pm_logger M = Some L" "recording L ms" using Cons.prems(2) by (auto simp: logging_def)
    let ?t = "clock (pm_readings M)"
    obtain L' where L': "log_message msg ?t L = (Inr (), L')" "recording L' (ms @ [(msg, ?t)])"
      using log_message_recording [OF L(2)] by blast
    let ?M = "M\<lparr>pm_counts := c, pm_readings := Suc (pm_readings M), pm_store := store_update msg ?t (pm_store M), pm_logger := Some L'\<rparr>"
    have "logging (ms @ [(msg, ?t)]) ?M" using Cons.prems(2) L' by (simp add: logging_def stored_snoc)
    from Cons.IH [OF Cons.prems(1) this] m r show ?thesis by (simp add: p L L'(1) Let_def map_filter_simps)
  next
    case False
    have "r \<noteq> Inl ZeroDivisionError" using parse_no_division [OF Cons.prems(1)] p by metis
    with False p have "pump_frames S clock (f # fs) M = pump_frames S clock fs (M\<lparr>pm_counts := c\<rparr>)"
      by (auto split: sum.split option.split parse_exn.split)
    moreover have "message_of S f = None" using m False by (auto split: sum.split option.split)
    ultimately show ?thesis using Cons.IH [OF Cons.prems(1) skip] by (simp add: map_filter_simps)
  qed
qed

lemma pump_once_logging:
  assumes "scales_ok S" "logging ms M" "account ms buf n M"
    and "extract_frames (crsf_max_frame_len LS) SYNC_ADDRESSES (buf @ chunk) = (fs, rest, errs)"
  shows "\<exists>report M'. pump_once LS S HS clock (Inr chunk) M = (Inr report, M') \<and>
    logging (ms @ stamped_from clock n (List.map_filter (message_of S) fs)) M'"
proof -
  have op: "cl_open (pm_link M)" using assms(2) by (simp add: logging_def)
  have a: "pm_readings M = n" "cl_buffer (pm_link M) = buf" "cl_recent_tx (pm_link M) = []"
    using assms(3) by (simp_all add: account_def)
  define fs' where "fs' = filter (\<lambda>f. \<not> echo LS (pm_link M) f) fs"
  obtain L where p: "poll_inbound LS chunk (pm_link M) = (Inr fs', L)" "cl_open L"
    using poll_inbound_open [OF op, of LS chunk] assms(4) a op by (simp add: fs'_def)
  with assms(2) have "logging ms (M\<lparr>pm_link := L\<rparr>)" by (simp add: logging_def)
  from pump_frames_logging [OF assms(1) this, of clock fs'] obtain M' where
    f: "pump_frames S clock fs' (M\<lparr>pm_link := L\<rparr>) = (Inr (), M')"
      "logging (ms @ stamped_from clock n (List.map_filter (message_of S) fs)) M'"
    using unfiltered_messages [OF a(3)] a(1) by (auto simp: fs'_def)
  obtain report m al where v: "evaluate HS (pm_store M') (clock (pm_readings M')) (pm_monitor M') = (report, m, al)"
    by (metis prod_cases3)
  have "logging (ms @ stamped_from clock n (List.map_filter (message_of S) fs))
      (M'\<lparr>pm_monitor := m, pm_readings := Suc (pm_readings M')\<rparr>)" using f(2) by (simp add: logging_def)
  with op p f(1) v show ?thesis by (simp add: pump_once_def)
qed

lemma pump_run_logging:
  "scales_ok S \<Longrightarrow> logging ms M \<Longrightarrow> account ms buf n M \<Longrightarrow> list_all (\<lambda>(_, a). \<not> isl a) inputs \<Longrightarrow>
   \<exists>rs M'. pump_run LS S HS clock inputs M = (rs, None, M') \<and> length rs = length inputs \<and>
     logging (ms @ heard LS S clock (received inputs) buf n) M'"
proof (induction inputs arbitrary: ms buf n M)
  case Nil
  then show ?case by (simp add: received_def)
next
  case (Cons inp inputs)
  obtain turns chunk where inp: "inp = (turns, Inr chunk)" using Cons.prems(4) by (cases inp; cases "snd inp") auto
  have log: "logging ms (writer_turns turns M)"
    using Cons.prems(2) writer_turns_recording by (auto simp: logging_def writer_turns_def)
  have acc: "account ms buf n (writer_turns turns M)" using Cons.prems(3) by simp
  obtain fs rest errs where e: "extract_frames (crsf_max_frame_len LS) SYNC_ADDRESSES (buf @ chunk) = (fs, rest, errs)"
    by (metis prod_cases3)
  let ?msgs = "List.map_filter (message_of S) fs"
  from pump_once_logging [OF Cons.prems(1) log acc e] obtain report M1 where
    p: "pump_once LS S HS clock (Inr chunk) (writer_turns turns M) = (Inr report, M1)"
      "logging (ms @ stamped_from clock n ?msgs) M1" by blast
  from pump_once_account [OF p(1) acc e] have a1: "account (ms @ stamped_from clock n ?msgs) rest (Suc (n + length ?msgs)) M1"
    by (simp add: Let_def)
  have "list_all (\<lambda>(_, a). \<not> isl a) inputs" using Cons.prems(4) by simp
  from Cons.IH [OF Cons.prems(1) p(2) a1 this] obtain rs M2 where
    "pump_run LS S HS clock inputs M1 = (rs, None, M2)" "length rs = length inputs"
    "logging ((ms @ stamped_from clock n ?msgs) @ heard LS S clock (received inputs) rest (Suc (n + length ?msgs))) M2" by blast
  with p(1) inp e show ?case by (simp add: received_def Let_def)
qed

text \<open>C24: As long as the serial port answers and the scales of the GPS fields are not zero, no bytes end the
  monitor: each poll gives a report.  Its store is then built from exactly the messages that were heard, and the
  lines in the telemetry log, with those that wait for the writer, are these messages with the times they were
  stored at, in their order, unless a drop was counted.\<close>

theorem monitor_logs_what_it_saw:
  assumes "scales_ok S" "list_all (\<lambda>(_, a). \<not> isl a) inputs"
    and "pump_run LS S HS clock inputs (monitor_start LS (Some (new_logger n))) = (rs, x, M)"
  shows "let hs = heard LS S clock (received inputs) [] 0 in
    x = None \<and> length rs = length inputs \<and> pm_store M = stored hs \<and>
    (\<exists>L. pm_logger M = Some L \<and> (fl_dropped L Telemetry_Log = 0 \<longrightarrow> telemetry_lines L = map message_record hs))"
proof -
  have "logging [] (monitor_start LS (Some (new_logger n)))"
    by (simp add: logging_def monitor_start_def recording_def logger_start_def new_logger_def write_manifest_def
        telemetry_lines_def link_open_def)
  from pump_run_logging [OF assms(1) this start_account assms(2), of LS HS clock] assms(3)
  show ?thesis by (auto simp: logging_def recording_def Let_def)
qed

theorem monitor_logs_what_it_saw_witness:
  "\<exists>rs L M. pump_run default_crsf_link_settings default_parser_settings demo_health (\<lambda>n. real n / 4) demo_inputs
       (monitor_start default_crsf_link_settings (Some (new_logger 0))) = (rs, None, M) \<and> pm_logger M = Some L \<and>
     length rs = 2 \<and> telemetry_lines L = [message_record (LinkStatistics demo_stats, 0)]"
proof -
  let ?run = "pump_run default_crsf_link_settings default_parser_settings demo_health (\<lambda>n. real n / 4) demo_inputs
       (monitor_start default_crsf_link_settings (Some (new_logger 0)))"
  obtain rs x M where r: "?run = (rs, x, M)" by (metis prod_cases3)
  have "scales_ok default_parser_settings" "list_all (\<lambda>(_, a). \<not> isl a) demo_inputs"
    by (simp_all add: scales_ok_def default_parser_settings_def demo_inputs_def)
  from monitor_logs_what_it_saw [OF this r] have m: "x = None" "length rs = 2" by (simp_all add: demo_inputs_def Let_def)
  have "map_option telemetry_lines (pm_logger (snd (snd ?run))) = Some [message_record (LinkStatistics demo_stats, 0)]"
    by (simp add: demo_inputs_def monitor_start_def pump_once_def writer_turns_def demo_polls demo_parse_frame
        Let_def store_update_def evaluate_def raw_state_def store_latest_def lq_signal_def
        downlink_signal_def rssi_signal_def sensitivity_floor_def demo_health_def default_health_settings_def demo_stats_def
        apply_hysteresis_def new_monitor_def escalate_def log_message_def record_telemetry_def record_begin_def
        check_writable_def count_telemetry_def record_end_def remove_nth_def queue_room_def new_logger_def logger_start_def
        write_manifest_def telemetry_lines_def message_record_def del: One_nat_def)
  with r m show ?thesis by auto
qed

end
