(* ===== verification/Scout_Export.thy ===== *)
theory Scout_Export
  imports Scout_Core Py_Format
begin

text \<open>
  What the scouting pipeline writes out: the planned survey as a mission for a ground station
  (\<^verbatim>\<open>scout/export_mission.py\<close>), and its pins as GeoJSON and as CSV (\<^verbatim>\<open>scout/store.py\<close>).  The text of a float in a
  CSV file is a parameter.
\<close>

section \<open>Missions\<close>

definition MAV_CMD_NAV_WAYPOINT :: int where "MAV_CMD_NAV_WAYPOINT = 16"
definition MAV_FRAME_GLOBAL_RELATIVE_ALT :: int where "MAV_FRAME_GLOBAL_RELATIVE_ALT = 3"
definition MAV_FRAME_GLOBAL :: int where "MAV_FRAME_GLOBAL = 0"
definition WPL_HEADER :: string where "WPL_HEADER = ''QGC WPL 110''"

definition mission_home :: "waypoint list \<Rightarrow> (real \<times> real \<times> real) option \<Rightarrow> real \<times> real \<times> real" where
  "mission_home waypoints home =
     (case home of
        Some h \<Rightarrow> h
      | None \<Rightarrow>
          (case waypoints of [] \<Rightarrow> (0, 0, 0) | w # _ \<Rightarrow> (wp_lat w, wp_lon w, wp_alt_agl_m w)))"

definition plan_item :: "waypoint \<Rightarrow> json" where
  "plan_item w = JObj
     [(''type'', JStr ''SimpleItem''), (''command'', JInt MAV_CMD_NAV_WAYPOINT), (''frame'', JInt MAV_FRAME_GLOBAL_RELATIVE_ALT),
      (''params'', JArr [JInt 0, JInt 0, JInt 0, JNull, JFloat (Fin (wp_lat w)), JFloat (Fin (wp_lon w)),
                         JFloat (Fin (wp_alt_agl_m w))]),
      (''autoContinue'', JBool True), (''doJumpId'', JInt (int (wp_seq w) + 1)),
      (''Altitude'', JFloat (Fin (wp_alt_agl_m w))), (''AltitudeMode'', JInt 1)]"

definition to_qgc_plan :: "waypoint list \<Rightarrow> (real \<times> real \<times> real) option \<Rightarrow> real \<Rightarrow> real \<Rightarrow> json" where
  "to_qgc_plan waypoints home cruise_speed_ms hover_speed_ms =
     (case mission_home waypoints home of (lat, lon, alt) \<Rightarrow>
        JObj
          [(''fileType'', JStr ''Plan''), (''version'', JInt 1), (''groundStation'', JStr ''meshsa-scout''),
           (''geoFence'', JObj [(''circles'', JArr []), (''polygons'', JArr []), (''version'', JInt 2)]),
           (''rallyPoints'', JObj [(''points'', JArr []), (''version'', JInt 2)]),
           (''mission'', JObj
              [(''version'', JInt 2), (''firmwareType'', JInt 12), (''vehicleType'', JInt 2),
               (''cruiseSpeed'', JFloat (Fin cruise_speed_ms)), (''hoverSpeed'', JFloat (Fin hover_speed_ms)),
               (''globalPlanAltitudeMode'', JInt 1),
               (''plannedHomePosition'', JArr [JFloat (Fin lat), JFloat (Fin lon), JFloat (Fin alt)]),
               (''items'', JArr (map plan_item waypoints))])])"

text \<open>The waypoint file: a row for the home position, then one for each waypoint, numbered from zero.\<close>

type_synonym wpl_row = "int \<times> int \<times> real \<times> real \<times> real"

definition wpl_rows :: "waypoint list \<Rightarrow> (real \<times> real \<times> real) option \<Rightarrow> wpl_row list" where
  "wpl_rows waypoints home =
     (case mission_home waypoints home of (lat, lon, alt) \<Rightarrow> (MAV_FRAME_GLOBAL, 1, lat, lon, alt)) #
     map (\<lambda>w. (MAV_FRAME_GLOBAL_RELATIVE_ALT, 0, wp_lat w, wp_lon w, wp_alt_agl_m w)) waypoints"

definition wpl_fields :: "nat \<Rightarrow> wpl_row \<Rightarrow> string list" where
  "wpl_fields seq row =
     (case row of (frame, current, lat, lon, alt) \<Rightarrow>
        [str_nat seq, str_int current, str_int frame, str_int MAV_CMD_NAV_WAYPOINT, ''0'', ''0'', ''0'', ''0'',
         fixed_text 8 (Fin lat), fixed_text 8 (Fin lon), fixed_text 2 (Fin alt), ''1''])"

definition tab :: char where "tab = CHR 0x09"
definition line_feed :: char where "line_feed = CHR 0x0A"

fun wpl_lines :: "nat \<Rightarrow> wpl_row list \<Rightarrow> string list" where
  "wpl_lines seq [] = []"
| "wpl_lines seq (row # rows) = join_with [tab] (wpl_fields seq row) # wpl_lines (Suc seq) rows"

definition to_ardupilot_waypoints :: "waypoint list \<Rightarrow> (real \<times> real \<times> real) option \<Rightarrow> string" where
  "to_ardupilot_waypoints waypoints home =
     join_with [line_feed] (WPL_HEADER # wpl_lines 0 (wpl_rows waypoints home)) @ [line_feed]"

section \<open>Pins\<close>

definition geo_feature :: "geo_detection \<Rightarrow> json" where
  "geo_feature d = JObj
     [(''type'', JStr ''Feature''),
      (''geometry'', JObj [(''type'', JStr ''Point''), (''coordinates'', JArr [JFloat (Fin (gd_lon d)), JFloat (Fin (gd_lat d))])]),
      (''properties'', JObj
         [(''id'', JStr (gd_id d)), (''cls'', JStr (gd_cls d)), (''conf'', JFloat (Fin (gd_conf d))),
          (''error_m'', JFloat (Fin (gd_error_m d))), (''src_frame'', JStr (gd_src_frame d)), (''ts'', JFloat (Fin (gd_ts d))),
          (''status'', JStr (gd_status d)), (''block_id'', (case gd_block_id d of None \<Rightarrow> JNull | Some b \<Rightarrow> JStr b))])]"

definition to_geojson :: "geo_detection list \<Rightarrow> json" where
  "to_geojson ds = JObj [(''type'', JStr ''FeatureCollection''), (''features'', JArr (map geo_feature ds))]"

definition SCOUT_FIELDS :: "string list" where
  "SCOUT_FIELDS = [''id'', ''lat'', ''lon'', ''cls'', ''conf'', ''error_m'', ''src_frame'', ''ts'', ''status'', ''block_id'']"

text \<open>
  \<^verbatim>\<open>csv.writer\<close> with its defaults: a field is quoted when it has a comma, a quote or a character of the
  line end in it, with its quotes doubled; a missing value is empty.  A carriage return, too, counts.
\<close>

definition quote_mark :: char where "quote_mark = CHR 0x22"
definition carriage_return :: char where "carriage_return = CHR 0x0D"

definition needs_quotes :: "string \<Rightarrow> bool" where
  "needs_quotes s \<longleftrightarrow> (\<exists>c \<in> set s. c \<in> {CHR '','', quote_mark, line_feed, carriage_return})"

fun double_quotes :: "string \<Rightarrow> string" where
  "double_quotes [] = []"
| "double_quotes (c # cs) = (if c = quote_mark then [quote_mark, quote_mark] else [c]) @ double_quotes cs"

definition csv_field :: "string \<Rightarrow> string" where
  "csv_field s = (if needs_quotes s then quote_mark # double_quotes s @ [quote_mark] else s)"

definition csv_line :: "string list \<Rightarrow> string" where
  "csv_line cells = join_with '','' (map csv_field cells) @ [carriage_return, line_feed]"

definition detection_cells :: "(real \<Rightarrow> string) \<Rightarrow> geo_detection \<Rightarrow> string list" where
  "detection_cells repr d =
     [gd_id d, repr (gd_lat d), repr (gd_lon d), gd_cls d, repr (gd_conf d), repr (gd_error_m d), gd_src_frame d, repr (gd_ts d),
      gd_status d, (case gd_block_id d of None \<Rightarrow> [] | Some b \<Rightarrow> b)]"

definition to_csv :: "(real \<Rightarrow> string) \<Rightarrow> geo_detection list \<Rightarrow> string" where
  "to_csv repr ds = csv_line SCOUT_FIELDS @ concat (map (\<lambda>d. csv_line (detection_cells repr d)) ds)"

section \<open>Reading a waypoint file\<close>

lemma wpl_lines_nth: "i < length rows \<Longrightarrow> wpl_lines seq rows ! i = join_with [tab] (wpl_fields (seq + i) (rows ! i))"
  by (induction seq rows arbitrary: i rule: wpl_lines.induct) (auto simp: nth_Cons split: nat.split)

lemma wpl_lines_length [simp]: "length (wpl_lines seq rows) = length rows"
  by (induction seq rows rule: wpl_lines.induct) simp_all

lemma number_chars:
  "set (str_int i) \<inter> {tab, line_feed} = {}" "set (fixed_text k (Fin r)) \<inter> {tab, line_feed} = {}"
proof -
  have d: "\<not> is_digit tab" "\<not> is_digit line_feed" by (simp_all add: is_digit_def code_def tab_def line_feed_def)
  have n: "set (str_nat n) \<inter> {tab, line_feed} = {}" for n using str_nat_digits [of _ n] d by auto
  have p: "set (pad_zeros k (str_nat n)) \<inter> {tab, line_feed} = {}" for k n
    using pad_zeros_digits [OF str_nat_all_digits, of k n] d by (auto simp: list_all_iff)
  show "set (str_int i) \<inter> {tab, line_feed} = {}" using n by (auto simp: str_int_def tab_def line_feed_def)
  show "set (fixed_text k (Fin r)) \<inter> {tab, line_feed} = {}"
    using n p by (auto simp: fixed_text_def Let_def tab_def line_feed_def)
qed

lemma wpl_field_chars: "x \<in> set (wpl_fields seq row) \<Longrightarrow> tab \<notin> set x \<and> line_feed \<notin> set x"
proof -
  assume x: "x \<in> set (wpl_fields seq row)"
  obtain frame current lat lon alt where row: "row = (frame, current, lat, lon, alt)" by (cases row)
  have "set (str_nat seq) \<inter> {tab, line_feed} = {}" using number_chars(1) [of "int seq"] by (simp add: str_int_def)
  with x show ?thesis
    using number_chars(1) [of current] number_chars(1) [of frame] number_chars(1) [of MAV_CMD_NAV_WAYPOINT]
      number_chars(2) [of 8 lat] number_chars(2) [of 8 lon] number_chars(2) [of 2 alt]
    by (auto simp: wpl_fields_def row tab_def line_feed_def)
qed

lemma join_chars: "c \<in> set (join_with sep xs) \<Longrightarrow> c \<in> set sep \<or> (\<exists>x \<in> set xs. c \<in> set x)"
  by (induction sep xs rule: join_with.induct) auto

lemma wpl_line_fields: "py_split tab (join_with [tab] (wpl_fields seq row)) = wpl_fields seq row"
  using wpl_field_chars by (intro py_split_join_with) (auto simp: wpl_fields_def split: prod.split)

lemma wpl_line_feed: "l \<in> set (wpl_lines seq rows) \<Longrightarrow> line_feed \<notin> set l"
proof (induction seq rows rule: wpl_lines.induct)
  case (2 seq row rows)
  have "line_feed \<noteq> tab" by (simp add: tab_def line_feed_def)
  then show ?case using 2 wpl_field_chars [of _ seq row] join_chars [of line_feed "[tab]" "wpl_fields seq row"] by auto
qed simp

lemma waypoint_file_lines:
  "py_split line_feed (to_ardupilot_waypoints waypoints home) =
     WPL_HEADER # wpl_lines 0 (wpl_rows waypoints home) @ [[]]"
proof -
  let ?ls = "WPL_HEADER # wpl_lines 0 (wpl_rows waypoints home)"
  have "line_feed \<notin> set WPL_HEADER" by (simp add: line_feed_def WPL_HEADER_def)
  then have no: "\<forall>x \<in> set (?ls @ [[]]). line_feed \<notin> set x" using wpl_line_feed by auto
  have "join_with [line_feed] (xs @ [[]]) = join_with [line_feed] xs @ [line_feed]" if "xs \<noteq> []" for xs
    using that by (induction "[line_feed]" xs rule: join_with.induct) simp_all
  then have "to_ardupilot_waypoints waypoints home = join_with [line_feed] (?ls @ [[]])"
    unfolding to_ardupilot_waypoints_def by (metis list.distinct(1))
  then show ?thesis using py_split_join_with [OF _ no] by simp
qed

section \<open>Reading a CSV file\<close>

text \<open>The reader of RFC 4180, as a reference: a cell in quotes ends at its closing quote, another at a comma or a line end.\<close>

fun unquote :: "string \<Rightarrow> string \<times> string" where
  "unquote [] = ([], [])"
| "unquote (c # cs) =
     (if c = quote_mark then
        (case cs of
           d # ds \<Rightarrow> if d = quote_mark then apfst (Cons quote_mark) (unquote ds) else ([], cs)
         | [] \<Rightarrow> ([], []))
      else apfst (Cons c) (unquote cs))"

definition plain_char :: "char \<Rightarrow> bool" where
  "plain_char c \<longleftrightarrow> c \<notin> {CHR '','', carriage_return, line_feed}"

definition read_cell :: "string \<Rightarrow> string \<times> string" where
  "read_cell s =
     (case s of
        [] \<Rightarrow> ([], [])
      | c # cs \<Rightarrow> if c = quote_mark then unquote cs else (takeWhile plain_char s, dropWhile plain_char s))"

lemma unquote_length: "length (snd (unquote s)) \<le> length s"
proof (induction s rule: unquote.induct)
  case (2 c cs)
  then show ?case by (cases cs) auto
qed simp

lemma read_cell_length: "length (snd (read_cell s)) \<le> length s"
  using unquote_length [of "tl s"] length_dropWhile_le [of plain_char s]
  by (auto simp: read_cell_def split: list.split)

function read_cells :: "string \<Rightarrow> string list \<times> string" where
  "read_cells s =
     (case read_cell s of
        (cell, c # d # r) \<Rightarrow>
          if c = CHR '','' then apfst (Cons cell) (read_cells (d # r))
          else if c = carriage_return \<and> d = line_feed then ([cell], r) else ([cell], [])
      | (cell, [c]) \<Rightarrow> if c = CHR '','' then ([cell, []], []) else ([cell], [])
      | (cell, []) \<Rightarrow> ([cell], []))"
  by pat_completeness auto
termination
proof (relation "measure length")
  fix s cell rest c ds d r
  assume "(cell, rest) = read_cell s" "rest = c # ds" "ds = d # r"
  then show "(d # r, s) \<in> measure length" using read_cell_length [of s] by (cases "read_cell s") simp
qed simp

declare read_cells.simps [simp del]

lemma read_cells_length: "s \<noteq> [] \<Longrightarrow> length (snd (read_cells s)) < length s"
proof (induction s rule: read_cells.induct)
  case (1 s)
  obtain cell rest where r: "read_cell s = (cell, rest)" by (cases "read_cell s")
  then have len: "length rest \<le> length s" using read_cell_length [of s] by simp
  show ?case
  proof (cases rest)
    case Nil
    with "1.prems" r show ?thesis by (subst read_cells.simps) simp
  next
    case (Cons c ds)
    show ?thesis
    proof (cases ds)
      case Nil
      with Cons "1.prems" r show ?thesis by (subst read_cells.simps) simp
    next
      case (Cons d t)
      with \<open>rest = c # ds\<close> r len "1.prems" "1.IH" [of cell rest c ds d t] show ?thesis
        by (subst read_cells.simps) auto
    qed
  qed
qed

function read_csv :: "string \<Rightarrow> string list list" where
  "read_csv s = (if s = [] then [] else case read_cells s of (cells, r) \<Rightarrow> cells # read_csv r)"
  by pat_completeness auto
termination
proof (relation "measure length")
  fix s cells r
  assume "s \<noteq> []" "(cells, r) = read_cells s"
  then show "(r, s) \<in> measure length" using read_cells_length [of s] by (cases "read_cells s") simp
qed simp

declare read_csv.simps [simp del]

lemma unquote_doubled: "t = [] \<or> hd t \<noteq> quote_mark \<Longrightarrow> unquote (double_quotes s @ quote_mark # t) = (s, t)"
  by (induction s) (cases t; auto)+

definition cell_end :: "string \<Rightarrow> bool" where
  "cell_end t \<longleftrightarrow> t \<noteq> [] \<and> \<not> plain_char (hd t)"

lemma read_written_cell:
  assumes "cell_end t"
  shows "read_cell (csv_field s @ t) = (s, t)"
proof -
  obtain e r where t: "t = e # r" "\<not> plain_char e" using assms by (cases t) (auto simp: cell_end_def)
  then have e: "e \<noteq> quote_mark" by (auto simp: plain_char_def quote_mark_def carriage_return_def line_feed_def)
  show ?thesis
  proof (cases "needs_quotes s")
    case True
    then show ?thesis using unquote_doubled [of t s] t e by (simp add: csv_field_def read_cell_def)
  next
    case False
    then have plain: "\<forall>c \<in> set s. plain_char c" and hd: "s = [] \<or> hd s \<noteq> quote_mark"
      by (cases s; auto simp: needs_quotes_def plain_char_def)+
    from plain t have "takeWhile plain_char (s @ t) = s" "dropWhile plain_char (s @ t) = t"
      by (simp_all add: takeWhile_append2)
    with False hd e t(1) show ?thesis by (cases s) (simp_all add: csv_field_def read_cell_def)
  qed
qed

lemma read_written_cells:
  "cells \<noteq> [] \<Longrightarrow>
   read_cells (join_with '','' (map csv_field cells) @ carriage_return # line_feed # rest) = (cells, rest)"
proof (induction cells)
  case (Cons x xs)
  have ends: "cell_end (carriage_return # line_feed # rest)" "cell_end (CHR '','' # y)" for y
    by (simp_all add: cell_end_def plain_char_def)
  show ?case
  proof (cases xs)
    case Nil
    have "carriage_return \<noteq> CHR '',''" by (simp add: carriage_return_def)
    with Nil read_written_cell [OF ends(1), of x] show ?thesis by (subst read_cells.simps) simp
  next
    case (Cons y ys)
    let ?t = "join_with '','' (map csv_field xs) @ carriage_return # line_feed # rest"
    obtain d r where t: "?t = d # r" by (cases ?t) auto
    have "join_with '','' (map csv_field (x # xs)) @ carriage_return # line_feed # rest = csv_field x @ CHR '','' # ?t"
      using Cons by simp
    moreover have "read_cell (csv_field x @ CHR '','' # ?t) = (x, CHR '','' # d # r)"
      using read_written_cell [OF ends(2), of x ?t] t by simp
    moreover have "read_cells (d # r) = (xs, rest)" using Cons.IH Cons t by simp
    ultimately show ?thesis by (subst read_cells.simps) simp
  qed
qed simp

lemma read_written_lines:
  "\<forall>cells \<in> set rows. cells \<noteq> [] \<Longrightarrow> read_csv (concat (map csv_line rows)) = rows"
proof (induction rows)
  case (Cons cells rows)
  let ?t = "concat (map csv_line rows)"
  have "read_cells (csv_line cells @ ?t) = (cells, ?t)"
    using read_written_cells [of cells ?t] Cons.prems by (simp add: csv_line_def)
  moreover have "csv_line cells @ ?t \<noteq> []" by (simp add: csv_line_def)
  ultimately show ?case using Cons by (subst read_csv.simps) simp
qed (simp add: read_csv.simps)

end
