(* ===== verification/Scout_Replay.thy ===== *)
theory Scout_Replay
  imports Scout_Core Py_Strings
begin

text \<open>
  The synthetic survey (\<^verbatim>\<open>scout/replay.py\<close>): a flight over a block with poses that carry noise and detections
  placed where the camera sees known anomalies, and the health check that runs it through the pipeline
  (\<^verbatim>\<open>scout/cli.py\<close>).  The seeded generator of random numbers is a parameter: its draws, by their number.
\<close>

section \<open>Inverse projection\<close>

definition atan2 :: "real \<Rightarrow> real \<Rightarrow> real" where
  "atan2 y x =
     (if 0 < x then arctan (y / x)
      else if x < 0 then (if 0 \<le> y then arctan (y / x) + pi else arctan (y / x) - pi)
      else if 0 < y then pi / 2 else if y < 0 then - (pi / 2) else 0)"

definition initial_bearing :: "real \<Rightarrow> real \<Rightarrow> real \<Rightarrow> real \<Rightarrow> real" where
  "initial_bearing lat1 lon1 lat2 lon2 =
     (let p1 = radians lat1; p2 = radians lat2; dl = radians (lon2 - lon1);
          y = sin dl * cos p2;
          x = cos p1 * sin p2 - sin p1 * cos p2 * cos dl
      in mod_360 (degrees (atan2 y x)))"

definition truth_to_pixel :: "pose \<Rightarrow> camera \<Rightarrow> real \<Rightarrow> real \<Rightarrow> (real \<times> real) option" where
  "truth_to_pixel p cam tlat tlon =
     (let rng = ground_distance_m (po_lat p) (po_lon p) tlat tlon;
          depression = (if rng \<le> 0 then NADIR_DEPRESSION_DEG else degrees (atan2 (po_alt_agl_m p) rng));
          pitch_off = depression - po_pitch_deg p;
          brg = (if rng \<le> 0 then po_heading_deg p else initial_bearing (po_lat p) (po_lon p) tlat tlon);
          yaw_off = mod_360 (brg - po_heading_deg p + 180) - 180
      in if \<not> (- 90 < yaw_off \<and> yaw_off < 90 \<and> - 90 < pitch_off \<and> pitch_off < 90) then None
         else
           let half_h = tan (radians (h_fov_deg cam / 2)); half_v = tan (radians (v_fov_deg cam / 2));
               fx = tan (radians yaw_off) / half_h; fy = tan (radians pitch_off) / half_v
           in if \<not> (- 1 \<le> fx \<and> fx \<le> 1 \<and> - 1 \<le> fy \<and> fy \<le> 1) then None
              else Some ((fx + 1) / 2 * real_of_int (img_w cam), (fy + 1) / 2 * real_of_int (img_h cam)))"

section \<open>The flight\<close>

definition DEFAULT_CAMERA :: camera where
  "DEFAULT_CAMERA = \<lparr>img_w = 1920, img_h = 1080, h_fov_deg = 70, v_fov_deg = 42\<rparr>"

definition RTK_POS_SIGMA_M :: real where "RTK_POS_SIGMA_M = 5 / 100"
definition RTK_ATT_SIGMA_DEG :: real where "RTK_ATT_SIGMA_DEG = 2 / 10"
definition M8N_POS_SIGMA_M :: real where "M8N_POS_SIGMA_M = 25 / 10"
definition M8N_ATT_SIGMA_DEG :: real where "M8N_ATT_SIGMA_DEG = 1"
definition VERTICAL_NOISE_FACTOR :: real where "VERTICAL_NOISE_FACTOR = 15 / 10"

record ground_truth =
  gt_lat :: real
  gt_lon :: real
  gt_cls :: string

record random_draws =
  rd_uniform :: "nat \<Rightarrow> real \<Rightarrow> real \<Rightarrow> real"
  rd_gauss :: "nat \<Rightarrow> real \<Rightarrow> real \<Rightarrow> real"

record flight_plan =
  rf_polygon :: "(real \<times> real) list"
  rf_camera :: camera
  rf_alt_agl_m :: real
  rf_forward_overlap :: real
  rf_side_overlap :: real
  rf_rtk_enabled :: bool
  rf_dt_s :: real
  rf_conf :: real
  rf_truths :: "ground_truth list option"
  rf_pos_noise_m :: "real option"
  rf_att_noise_deg :: "real option"

record flight =
  fl_poses :: "fused_pose list"
  fl_detections :: "pixel_detection list"
  fl_draws :: nat

definition block_bbox :: "(real \<times> real) list \<Rightarrow> real \<times> real \<times> real \<times> real" where
  "block_bbox polygon =
     (Min (set (map fst polygon)), Max (set (map fst polygon)), Min (set (map snd polygon)), Max (set (map snd polygon)))"

text \<open>Three anomalies, on distinct rows where there are as many.\<close>

definition default_truths :: "real list \<Rightarrow> real \<Rightarrow> real \<Rightarrow> ground_truth list" where
  "default_truths row_lats min_lon max_lon =
     (let n = length row_lats;
          idxs = sort (remdups [n div 4, n div 2, min (n - 1) (3 * n div 4)]);
          fracs = [35 / 100, 1 / 2, 65 / 100]
      in map (\<lambda>(i, f). \<lparr>gt_lat = row_lats ! i, gt_lon = min_lon + f * (max_lon - min_lon), gt_cls = ''missing_vine''\<rparr>)
           (zip idxs fracs))"

text \<open>The step to the next row is at least a metre, so the latitude grows by a fixed amount.\<close>

definition next_row :: "real \<Rightarrow> real \<Rightarrow> real \<Rightarrow> real" where
  "next_row lat min_lon row_step_m = fst (destination lat min_lon 0 row_step_m)"

lemma next_row_eq: "next_row lat min_lon row_step_m = lat + degrees (row_step_m / EARTH_R_M)"
  by (simp add: next_row_def destination_def radians_def Let_def)

function row_latitudes :: "real \<Rightarrow> real \<Rightarrow> real \<Rightarrow> real \<Rightarrow> real list" where
  "row_latitudes lat max_lat min_lon row_step_m =
     (if lat \<le> max_lat \<and> 1 \<le> row_step_m
      then lat # row_latitudes (next_row lat min_lon row_step_m) max_lat min_lon row_step_m else [])"
  by pat_completeness auto
termination
proof (relation "measure (\<lambda>(lat, max_lat, min_lon, step). nat \<lceil>(max_lat - lat) / degrees (step / EARTH_R_M) + 1\<rceil>)")
  fix lat max_lat min_lon step :: real
  assume a: "lat \<le> max_lat \<and> 1 \<le> step"
  let ?d = "degrees (step / EARTH_R_M)"
  have d: "0 < ?d" using a by (simp add: degrees_def EARTH_R_M_def)
  then have "(max_lat - (lat + ?d)) / ?d + 1 = (max_lat - lat) / ?d + 1 - 1" by (simp add: field_simps)
  then have "\<lceil>(max_lat - (lat + ?d)) / ?d + 1\<rceil> = \<lceil>(max_lat - lat) / ?d + 1\<rceil> - 1" by (simp only: ceiling_diff_one)
  moreover have "0 \<le> (max_lat - lat) / ?d" using a d by simp
  ultimately show "((next_row lat min_lon step, max_lat, min_lon, step), lat, max_lat, min_lon, step)
    \<in> measure (\<lambda>(lat, max_lat, min_lon, step). nat \<lceil>(max_lat - lat) / degrees (step / EARTH_R_M) + 1\<rceil>)"
    unfolding next_row_eq by simp
qed simp

declare row_latitudes.simps [simp del]

text \<open>The detections of one frame: each anomaly that the true pose sees, as a box of twenty pixels.\<close>

definition mk_pixel :: "string \<Rightarrow> real \<Rightarrow> real \<Rightarrow> real \<Rightarrow> string \<Rightarrow> real \<Rightarrow> py_exn + pixel_detection" where
  "mk_pixel frame_id ts cx cy cls conf =
     then_ok (mk_bbox (cx - 10) (cy - 10) (cx + 10) (cy + 10)) (\<lambda>b.
       if 0 \<le> conf \<and> conf \<le> 1
       then Inr \<lparr>px_frame_id = frame_id, px_ts = ts, px_bbox = b, px_cls = cls, px_conf = conf\<rparr> else Inl ValueError)"

fun seen_truths ::
  "pose \<Rightarrow> camera \<Rightarrow> string \<Rightarrow> real \<Rightarrow> real \<Rightarrow> ground_truth list \<Rightarrow> py_exn + pixel_detection list" where
  "seen_truths p cam frame_id ts conf [] = Inr []"
| "seen_truths p cam frame_id ts conf (gt # gts) =
     (case truth_to_pixel p cam (gt_lat gt) (gt_lon gt) of
        None \<Rightarrow> seen_truths p cam frame_id ts conf gts
      | Some (cx, cy) \<Rightarrow>
          then_ok (mk_pixel frame_id ts cx cy (gt_cls gt) conf) (\<lambda>d.
            then_ok (seen_truths p cam frame_id ts conf gts) (\<lambda>ds. Inr (d # ds))))"

text \<open>The reported pose; the draws are numbered in the order they are made.\<close>

definition reported_pose :: "random_draws \<Rightarrow> real \<Rightarrow> real \<Rightarrow> pose \<Rightarrow> nat \<Rightarrow> pose \<times> nat" where
  "reported_pose R pos_sigma att_sigma p n =
     (let (nlat, nlon, n1) =
            (if 0 < pos_sigma then
               (case destination (po_lat p) (po_lon p) (rd_uniform R n 0 360) \<bar>rd_gauss R (n + 1) 0 pos_sigma\<bar> of
                  (a, b) \<Rightarrow> (a, b, n + 2))
             else (po_lat p, po_lon p, n));
          alt_noise = rd_gauss R n1 0 (pos_sigma * VERTICAL_NOISE_FACTOR)
      in (\<lparr>po_lat = nlat, po_lon = nlon, po_alt_agl_m = max 1 (po_alt_agl_m p + alt_noise),
           po_heading_deg = mod_360 (po_heading_deg p + rd_gauss R (n1 + 1) 0 att_sigma),
           po_pitch_deg = po_pitch_deg p + rd_gauss R (n1 + 2) 0 att_sigma\<rparr>, n1 + 3))"

definition emit_frame ::
  "random_draws \<Rightarrow> flight_plan \<Rightarrow> real \<Rightarrow> real \<Rightarrow> ground_truth list \<Rightarrow> pose \<Rightarrow> real \<Rightarrow> nat \<Rightarrow> flight \<Rightarrow> (py_exn + unit) \<times> flight" where
  "emit_frame R F pos_sigma att_sigma gts p ts frame_no X =
     (case reported_pose R pos_sigma att_sigma p (fl_draws X) of (reported, n) \<Rightarrow>
        let X1 = X\<lparr>fl_poses := fl_poses X @ [\<lparr>fp_pose = reported, fp_roll_deg = 0, fp_ts = ts\<rparr>], fl_draws := n\<rparr>
        in case seen_truths p (rf_camera F) (CHR ''f'' # str_nat frame_no) ts (rf_conf F) gts of
             Inl e \<Rightarrow> (Inl e, X1)
           | Inr ds \<Rightarrow> (Inr (), X1\<lparr>fl_detections := fl_detections X1 @ ds\<rparr>))"

text \<open>The true poses in the order they are flown: row by row, there and back.\<close>

definition row_poses :: "flight_plan \<Rightarrow> real \<Rightarrow> real \<Rightarrow> nat \<Rightarrow> nat \<times> real \<Rightarrow> pose list" where
  "row_poses F min_lon step_m n_steps row =
     (case row of (row_i, lat) \<Rightarrow>
        let heading = (if even row_i then 90 else 270)
        in map (\<lambda>i.
             let east_m = (if heading = 90 then real i * step_m else real (n_steps - i) * step_m)
             in \<lparr>po_lat = lat, po_lon = snd (destination lat min_lon 90 east_m), po_alt_agl_m = rf_alt_agl_m F,
                 po_heading_deg = heading, po_pitch_deg = NADIR_DEPRESSION_DEG\<rparr>) [0..<Suc n_steps])"

definition flight_steps :: "flight_plan \<Rightarrow> real \<times> nat \<times> real list" where
  "flight_steps F =
     (case block_bbox (rf_polygon F) of (min_lat, max_lat, min_lon, max_lon) \<Rightarrow>
        case footprints_m (h_fov_deg (rf_camera F)) (v_fov_deg (rf_camera F)) (rf_alt_agl_m F) of (cross_m, along_m) \<Rightarrow>
          let row_step_m = max 1 (cross_m * (1 - rf_side_overlap F));
              step_m = max 1 (along_m * (1 - rf_forward_overlap F));
              span_m = ground_distance_m min_lat min_lon min_lat max_lon;
              n_steps = max 1 (nat \<lfloor>span_m / step_m\<rfloor>)
          in (step_m, n_steps, row_latitudes min_lat max_lat min_lon row_step_m))"

definition true_poses :: "flight_plan \<Rightarrow> pose list" where
  "true_poses F =
     (case flight_steps F of (step_m, n_steps, row_lats) \<Rightarrow>
        case block_bbox (rf_polygon F) of (_, _, min_lon, _) \<Rightarrow>
          concat (map (row_poses F min_lon step_m n_steps) (enumerate 0 row_lats)))"

definition flight_truths :: "flight_plan \<Rightarrow> ground_truth list" where
  "flight_truths F =
     (case rf_truths F of
        Some gts \<Rightarrow> gts
      | None \<Rightarrow>
          (case flight_steps F of (_, _, row_lats) \<Rightarrow>
             case block_bbox (rf_polygon F) of (_, _, min_lon, max_lon) \<Rightarrow> default_truths row_lats min_lon max_lon))"

definition noise_sigmas :: "flight_plan \<Rightarrow> real \<times> real" where
  "noise_sigmas F =
     (case rf_pos_noise_m F of Some s \<Rightarrow> s | None \<Rightarrow> if rf_rtk_enabled F then RTK_POS_SIGMA_M else M8N_POS_SIGMA_M,
      case rf_att_noise_deg F of Some s \<Rightarrow> s | None \<Rightarrow> if rf_rtk_enabled F then RTK_ATT_SIGMA_DEG else M8N_ATT_SIGMA_DEG)"

fun fly :: "random_draws \<Rightarrow> flight_plan \<Rightarrow> real \<Rightarrow> nat \<Rightarrow> pose list \<Rightarrow> flight \<Rightarrow> py_exn + flight" where
  "fly R F ts frame_no [] X = Inr X"
| "fly R F ts frame_no (p # ps) X =
     (case noise_sigmas F of (pos_sigma, att_sigma) \<Rightarrow>
        case emit_frame R F pos_sigma att_sigma (flight_truths F) p ts frame_no X of
          (Inl e, _) \<Rightarrow> Inl e
        | (Inr _, X1) \<Rightarrow> fly R F (ts + rf_dt_s F) (Suc frame_no) ps X1)"

definition replay_flight :: "random_draws \<Rightarrow> flight_plan \<Rightarrow> py_exn + flight" where
  "replay_flight R F = fly R F 0 0 (true_poses F) \<lparr>fl_poses = [], fl_detections = [], fl_draws = 0\<rparr>"

section \<open>The health check\<close>

definition HEALTH_BUDGET_M :: real where "HEALTH_BUDGET_M = 3"

text \<open>Each anomaly has a pin within the budget; the exit code.\<close>

fun truths_found :: "geo_detection list \<Rightarrow> ground_truth list \<Rightarrow> bool" where
  "truths_found pins [] = True"
| "truths_found pins (gt # gts) =
     (if HEALTH_BUDGET_M < Min (set (map (\<lambda>p. ground_distance_m (gt_lat gt) (gt_lon gt) (gd_lat p) (gd_lon p)) pins))
      then False else truths_found pins gts)"

definition health_check :: "geo_detection list \<Rightarrow> ground_truth list \<Rightarrow> nat" where
  "health_check pins truths =
     (if length pins \<noteq> length truths then 1 else if truths_found pins truths then 0 else 1)"

end
