(* ===== verification/Survey_Facts.thy ===== *)
theory Survey_Facts
  imports Scout_Export Scout_Replay Scout_Facts
begin

text \<open>The properties of the scouting pipeline's exports and of its synthetic flights, each with a concrete instance.\<close>

section \<open>A planned mission as a file\<close>

lemma wpl_rows_nth:
  assumes "ws \<noteq> []" "i < length (wpl_rows ws None)"
  shows "wpl_rows ws None ! i =
    (if i = 0 then (MAV_FRAME_GLOBAL, 1, wp_lat (hd ws), wp_lon (hd ws), wp_alt_agl_m (hd ws))
     else (MAV_FRAME_GLOBAL_RELATIVE_ALT, 0, wp_lat (ws ! (i - 1)), wp_lon (ws ! (i - 1)), wp_alt_agl_m (ws ! (i - 1))))"
proof (cases i)
  case 0
  with assms(1) show ?thesis by (cases ws) (simp_all add: wpl_rows_def mission_home_def)
next
  case (Suc j)
  with assms(2) show ?thesis by (simp add: wpl_rows_def)
qed

text \<open>What a ground station reads from a row: its number, whether it is current, its frame, and the position.\<close>

definition reads_position :: "string list \<Rightarrow> nat \<Rightarrow> waypoint \<Rightarrow> bool" where
  "reads_position cells seq w \<longleftrightarrow> length cells = 12 \<and> unsigned_int (cells ! 0) = Some seq \<and>
     (\<exists>lat lon alt. py_float_str (cells ! 8) = Some (Fin lat) \<and> py_float_str (cells ! 9) = Some (Fin lon) \<and>
        py_float_str (cells ! 10) = Some (Fin alt) \<and> \<bar>lat - wp_lat w\<bar> \<le> 1 / (2 * 10 ^ 8) \<and>
        \<bar>lon - wp_lon w\<bar> \<le> 1 / (2 * 10 ^ 8) \<and> \<bar>alt - wp_alt_agl_m w\<bar> \<le> 1 / (2 * 10\<^sup>2))"

lemma wpl_fields_read:
  assumes "\<bar>wp_lat w\<bar> < 2 ^ 1023" "\<bar>wp_lon w\<bar> < 2 ^ 1023" "\<bar>wp_alt_agl_m w\<bar> < 2 ^ 1023"
  shows "reads_position (wpl_fields seq (frame, current, wp_lat w, wp_lon w, wp_alt_agl_m w)) seq w"
proof -
  have eight: "(0 :: nat) < 8" and two: "(0 :: nat) < 2" by simp_all
  show ?thesis
    using fixed_text_reads [OF eight assms(1)] fixed_text_reads [OF eight assms(2)] fixed_text_reads [OF two assms(3)]
    unfolding reads_position_def by (simp add: wpl_fields_def unsigned_int_str_nat) blast
qed

lemma small_below: "\<bar>x\<bar> \<le> 180 \<Longrightarrow> \<bar>x :: real\<bar> < 2 ^ 1023"
proof -
  assume "\<bar>x\<bar> \<le> 180"
  then have "\<bar>x\<bar> < 2 ^ 8" by simp
  also have "(2 :: real) ^ 8 \<le> 2 ^ 1023" by (rule power_increasing) simp_all
  finally show ?thesis .
qed

text \<open>C34: The waypoint file of a planned survey has a header, a row numbered zero for the home position at the
  first waypoint, marked as current in the absolute frame, and a row for each waypoint with its
  number plus one, in the relative frame and not current; a ground station that reads its decimal
  fields gets each position within half of the last digit written.\<close>

theorem mission_file_faithful:
  assumes "plan_boustrophedon b h_fov v_fov alt overlap = Inr ws" "ws \<noteq> []" "alt < 2 ^ 1023"
  shows "\<exists>rows. py_split line_feed (to_ardupilot_waypoints ws None) = WPL_HEADER # rows @ [[]] \<and>
    length rows = Suc (length ws) \<and>
    (\<forall>i < length rows. let cells = py_split tab (rows ! i); w = (if i = 0 then ws ! 0 else ws ! (i - 1)) in
       reads_position cells i w \<and> (0 < i \<longrightarrow> wp_seq w = i - 1) \<and>
       cells ! 1 = str_int (if i = 0 then 1 else 0) \<and>
       cells ! 2 = str_int (if i = 0 then MAV_FRAME_GLOBAL else MAV_FRAME_GLOBAL_RELATIVE_ALT))"
proof -
  obtain lines where m: "mk_waypoints (fst (block_uv b)) alt 0 lines = Inr ws"
    using assms(1) by (auto simp: plan_boustrophedon_def Let_def split: if_splits)
  note facts = mk_waypoints_facts [OF m]
  then have seq: "wp_seq (ws ! i) = i" if "i < length ws" for i
    using that by (metis (no_types) add_0 length_map length_upt minus_nat.diff_0 nth_map nth_upt)
  have fits: "\<bar>wp_lat w\<bar> < 2 ^ 1023" "\<bar>wp_lon w\<bar> < 2 ^ 1023" "\<bar>wp_alt_agl_m w\<bar> < 2 ^ 1023" if "w \<in> set ws" for w
  proof -
    have "\<bar>wp_lat w\<bar> \<le> 90" "\<bar>wp_lon w\<bar> \<le> 180" "wp_alt_agl_m w = alt" "0 < alt" using facts that by blast+
    then show "\<bar>wp_lat w\<bar> < 2 ^ 1023" "\<bar>wp_lon w\<bar> < 2 ^ 1023" "\<bar>wp_alt_agl_m w\<bar> < 2 ^ 1023"
      using assms(3) small_below [of "wp_lat w"] small_below [of "wp_lon w"] by (simp_all del: power_numeral)
  qed
  let ?rows = "wpl_lines 0 (wpl_rows ws None)"
  have len: "length ?rows = Suc (length ws)" by (simp add: wpl_rows_def)
  have "reads_position (py_split tab (?rows ! i)) i w \<and> (0 < i \<longrightarrow> wp_seq w = i - 1) \<and>
      py_split tab (?rows ! i) ! 1 = str_int (if i = 0 then 1 else 0) \<and>
      py_split tab (?rows ! i) ! 2 = str_int (if i = 0 then MAV_FRAME_GLOBAL else MAV_FRAME_GLOBAL_RELATIVE_ALT)"
    if i: "i < Suc (length ws)" and w: "w = (if i = 0 then ws ! 0 else ws ! (i - 1))" for i w
  proof -
    have i': "i < length (wpl_rows ws None)" using i by (simp add: wpl_rows_def)
    have "py_split tab (?rows ! i) = wpl_fields i (wpl_rows ws None ! i)"
      using wpl_lines_nth [OF i', of 0] by (simp add: wpl_line_fields)
    also have "\<dots> = wpl_fields i (if i = 0 then MAV_FRAME_GLOBAL else MAV_FRAME_GLOBAL_RELATIVE_ALT,
        if i = 0 then 1 else 0, wp_lat w, wp_lon w, wp_alt_agl_m w)"
      using wpl_rows_nth [OF assms(2) i'] assms(2) w by (simp add: hd_conv_nth)
    finally have cells: "py_split tab (?rows ! i) = \<dots>" .
    have "w \<in> set ws" using i w assms(2) by (cases i) simp_all
    from wpl_fields_read [OF fits [OF this]] seq [of "i - 1"] i w show ?thesis
      unfolding cells by (auto simp: wpl_fields_def)
  qed
  with waypoint_file_lines len show ?thesis unfolding Let_def by (intro exI [of _ ?rows]) simp
qed

theorem mission_file_faithful_witness:
  "\<exists>ws rows. plan_boustrophedon demo_block 90 60 2 (1/2) = Inr ws \<and>
     py_split line_feed (to_ardupilot_waypoints ws None) = WPL_HEADER # rows @ [[]] \<and> length rows = 5"
proof -
  obtain ws where p: "plan_boustrophedon demo_block 90 60 2 (1/2) = Inr ws" using demo_planned ..
  then obtain lines where "mk_waypoints (fst (block_uv demo_block)) 2 0 lines = Inr ws" "length lines = 4"
    unfolding plan_boustrophedon_def Let_def demo_cross demo_lines
    by (auto simp del: mk_waypoints.simps split: if_splits)
  then have len: "length ws = 4" using mk_waypoints_facts by (metis length_map)
  then have "ws \<noteq> []" by auto
  from mission_file_faithful [OF p this] obtain rows where
    "py_split line_feed (to_ardupilot_waypoints ws None) = WPL_HEADER # rows @ [[]]" "length rows = Suc (length ws)"
    by auto
  with p len show ?thesis by auto
qed

section \<open>The export of the pins\<close>

text \<open>The CSV export reads back: a reader of the standard format gets the header and then the cells of each
  pin, whatever commas, quotes and line ends its texts have.\<close>

theorem csv_export_reads_back:
  "read_csv (to_csv repr ds) = SCOUT_FIELDS # map (detection_cells repr) ds"
proof -
  have "to_csv repr ds = concat (map csv_line (SCOUT_FIELDS # map (detection_cells repr) ds))"
    by (simp add: to_csv_def comp_def)
  then show ?thesis using read_written_lines [of "SCOUT_FIELDS # map (detection_cells repr) ds"]
    by (simp add: SCOUT_FIELDS_def detection_cells_def)
qed

section \<open>The synthetic flight\<close>

lemma mod_360_shift: "mod_360 (x + 360 * real_of_int k) = mod_360 x"
proof -
  have "(x + 360 * real_of_int k) / 360 = x / 360 + real_of_int k" by (simp add: add_divide_distrib)
  then have fl: "\<lfloor>(x + 360 * real_of_int k) / 360\<rfloor> = \<lfloor>x / 360\<rfloor> + k" by (simp only: floor_add_int [symmetric])
  show ?thesis unfolding mod_360_def fl by (simp add: algebra_simps)
qed

lemma mod_360_small: "0 \<le> x \<Longrightarrow> x < 360 \<Longrightarrow> mod_360 x = x"
proof -
  assume "0 \<le> x" "x < 360"
  then have "\<lfloor>x / 360\<rfloor> = 0" by (intro floor_unique) simp_all
  then show ?thesis by (simp add: mod_360_def)
qed

lemma mod_360_idem: "mod_360 (mod_360 x) = mod_360 x"
  using mod_360_range [of x] by (intro mod_360_small)

lemma turned_back: "mod_360 (h + (mod_360 (b - h + 180) - 180)) = mod_360 b"
proof -
  have "h + (mod_360 (b - h + 180) - 180) = b + 360 * real_of_int (- \<lfloor>(b - h + 180) / 360\<rfloor>)"
    by (simp add: mod_360_def)
  then show ?thesis by (simp only: mod_360_shift)
qed

lemma degrees_radians [simp]: "degrees (radians x) = x"
  by (simp add: radians_def degrees_def)

lemma angle_back:
  assumes "0 < fov" "fov < 180" "- 90 < a" "a < 90" "w \<noteq> 0"
  shows "angle_off_axis (2 * ((tan (radians a) / tan (radians (fov / 2)) + 1) / 2 * w) / w - 1) fov = a"
proof -
  have "0 < fov / 2 * pi / 180" "fov / 2 * pi / 180 < pi / 2"
    using assms(1,2) mult_strict_right_mono [OF assms(2) pi_gt_zero] by simp_all
  then have half: "0 < tan (radians (fov / 2))" unfolding radians_def by (rule tan_gt_zero)
  have "- (pi / 2) < radians a" "radians a < pi / 2"
    using mult_strict_right_mono [OF assms(3) pi_gt_zero] mult_strict_right_mono [OF assms(4) pi_gt_zero]
    by (simp_all add: radians_def)
  then have "arctan (tan (radians a)) = radians a" by (rule arctan_tan)
  moreover have "radians fov / 2 = radians (fov / 2)" by (simp add: radians_def)
  ultimately show ?thesis using half assms(5) by (simp add: angle_off_axis_def)
qed

lemma refine_flat:
  "0 < po_alt_agl_m p \<Longrightarrow> refine_range (\<lambda>_ _. c) p az td n (po_alt_agl_m p / td) = Some (po_alt_agl_m p / td)"
  by (induction n) (simp_all split: prod.split)

text \<open>The pixel where an anomaly is seen projects to its distance and its bearing.\<close>

lemma pixel_projects_back:
  assumes "truth_to_pixel p cam tlat tlon = Some (cx, cy)"
    and rng: "ground_distance_m (po_lat p) (po_lon p) tlat tlon = rng" "0 < rng"
    and alt: "0 < po_alt_agl_m p" "MIN_DEPRESSION_DEG \<le> degrees (arctan (po_alt_agl_m p / rng))"
    and cam: "img_w cam \<noteq> 0" "img_h cam \<noteq> 0" "0 < h_fov_deg cam" "h_fov_deg cam < 180" "0 < v_fov_deg cam" "v_fov_deg cam < 180"
  shows "\<exists>f. project_to_ground p cam cx cy 0 (Some (\<lambda>_ _. c)) cep sig n = Some f \<and> gf_range_m f = rng \<and>
    (gf_lat f, gf_lon f) = destination (po_lat p) (po_lon p) (initial_bearing (po_lat p) (po_lon p) tlat tlon) rng"
proof -
  define brg where "brg = initial_bearing (po_lat p) (po_lon p) tlat tlon"
  define dep where "dep = degrees (arctan (po_alt_agl_m p / rng))"
  define yaw where "yaw = mod_360 (brg - po_heading_deg p + 180) - 180"
  have "atan2 (po_alt_agl_m p) rng = arctan (po_alt_agl_m p / rng)" using rng(2) by (simp add: atan2_def)
  then have px: "- 90 < yaw" "yaw < 90" "- 90 < dep - po_pitch_deg p" "dep - po_pitch_deg p < 90"
    "cx = (tan (radians yaw) / tan (radians (h_fov_deg cam / 2)) + 1) / 2 * real_of_int (img_w cam)"
    "cy = (tan (radians (dep - po_pitch_deg p)) / tan (radians (v_fov_deg cam / 2)) + 1) / 2 * real_of_int (img_h cam)"
    using assms(1) rng by (auto simp: truth_to_pixel_def Let_def brg_def dep_def yaw_def split: if_splits)
  have off: "angle_off_axis (2 * cx / real_of_int (img_w cam) - 1) (h_fov_deg cam) = yaw"
    "angle_off_axis (2 * cy / real_of_int (img_h cam) - 1) (v_fov_deg cam) = dep - po_pitch_deg p"
    unfolding px(5,6) using cam px(1-4) by (intro angle_back; simp)+
  have at: "0 < arctan (po_alt_agl_m p / rng)" "arctan (po_alt_agl_m p / rng) < pi / 2"
    using alt rng(2) arctan_ubound by simp_all
  then have "dep * pi < 90 * pi" by (simp add: dep_def degrees_def)
  then have dep: "dep < 90" by simp
  have tan: "tan (radians dep) = po_alt_agl_m p / rng" by (simp add: dep_def tan_arctan)
  have "mod_360 brg = brg" unfolding brg_def initial_bearing_def Let_def by (rule mod_360_idem)
  then have "mod_360 (po_heading_deg p + yaw) = brg" using turned_back [of "po_heading_deg p" brg] by (simp add: yaw_def)
  then have dir: "ray_direction p cam cx cy 0 = (dep, brg)" using off dep by (simp add: ray_direction_def)
  have range: "po_alt_agl_m p / tan (radians dep) = rng" using alt rng(2) by (simp add: tan)
  obtain lat lon where d: "destination (po_lat p) (po_lon p) brg rng = (lat, lon)" by (metis prod.collapse)
  show ?thesis
    using alt dir range d refine_flat [OF alt(1), of c brg "tan (radians dep)" "nat n"]
    by (simp add: project_to_ground_def Let_def brg_def [symmetric] dep_def [symmetric])
qed

lemma seen_truths_sound:
  "seen_truths p cam fid ts conf gts = Inr ds \<Longrightarrow> d \<in> set ds \<Longrightarrow>
   \<exists>gt \<in> set gts. truth_to_pixel p cam (gt_lat gt) (gt_lon gt) = Some (bbox_cx (px_bbox d), bbox_cy (px_bbox d)) \<and>
     px_ts d = ts \<and> px_cls d = gt_cls gt"
proof (induction gts arbitrary: ds)
  case (Cons gt gts)
  show ?case
  proof (cases "truth_to_pixel p cam (gt_lat gt) (gt_lon gt)")
    case None
    with Cons show ?thesis by auto
  next
    case (Some c)
    obtain cx cy where c: "c = (cx, cy)" by (cases c)
    from Cons.prems Some c obtain d0 ds0 where d0: "mk_pixel fid ts cx cy (gt_cls gt) conf = Inr d0"
      "seen_truths p cam fid ts conf gts = Inr ds0" "ds = d0 # ds0"
      by (auto simp: then_ok_Inr_iff)
    then have "bbox_cx (px_bbox d0) = cx" "bbox_cy (px_bbox d0) = cy" "px_ts d0 = ts" "px_cls d0 = gt_cls gt"
      by (auto simp: mk_pixel_def then_ok_Inr_iff mk_bbox_def bbox_cx_def bbox_cy_def split: if_splits)
    with Cons d0 Some c show ?thesis by auto
  qed
qed simp

lemma reported_exact:
  assumes "\<forall>n. rd_gauss R n 0 0 = 0" "1 \<le> po_alt_agl_m p" "0 \<le> po_heading_deg p" "po_heading_deg p < 360"
  shows "fst (reported_pose R 0 0 p n) = p"
  using assms mod_360_small [OF assms(3,4)] by (simp add: reported_pose_def Let_def max_def)

text \<open>What holds of the frames flown so far: each detection was made at a pose that is reported as it was.\<close>

definition flown :: "flight_plan \<Rightarrow> flight \<Rightarrow> bool" where
  "flown F X \<longleftrightarrow> (\<forall>d \<in> set (fl_detections X). \<exists>q \<in> set (fl_poses X). \<exists>gt \<in> set (flight_truths F).
     fp_ts q = px_ts d \<and> fp_roll_deg q = 0 \<and> px_cls d = gt_cls gt \<and> 1 \<le> po_alt_agl_m (fp_pose q) \<and>
     truth_to_pixel (fp_pose q) (rf_camera F) (gt_lat gt) (gt_lon gt) = Some (bbox_cx (px_bbox d), bbox_cy (px_bbox d)))"

lemma fly_flown:
  assumes "noise_sigmas F = (0, 0)" "\<forall>n. rd_gauss R n 0 0 = 0"
  shows "fly R F ts k ps X = Inr X' \<Longrightarrow>
    \<forall>p \<in> set ps. 1 \<le> po_alt_agl_m p \<and> 0 \<le> po_heading_deg p \<and> po_heading_deg p < 360 \<Longrightarrow> flown F X \<Longrightarrow>
    flown F X' \<and> length (fl_poses X') = length (fl_poses X) + length ps"
proof (induction ps arbitrary: ts k X)
  case (Cons p ps)
  have exact: "fst (reported_pose R 0 0 p (fl_draws X)) = p" using Cons.prems(2) assms(2) by (intro reported_exact) simp_all
  obtain n where n: "reported_pose R 0 0 p (fl_draws X) = (p, n)" using exact by (metis prod.collapse)
  obtain ds where ds: "seen_truths p (rf_camera F) (CHR ''f'' # str_nat k) ts (rf_conf F) (flight_truths F) = Inr ds"
    using Cons.prems(1) assms(1) n by (auto simp: emit_frame_def Let_def split: sum.splits)
  let ?X = "X\<lparr>fl_poses := fl_poses X @ [\<lparr>fp_pose = p, fp_roll_deg = 0, fp_ts = ts\<rparr>], fl_draws := n,
    fl_detections := fl_detections X @ ds\<rparr>"
  have f: "fly R F (ts + rf_dt_s F) (Suc k) ps ?X = Inr X'"
    using Cons.prems(1) assms(1) n ds by (simp add: emit_frame_def Let_def)
  have "flown F ?X"
    unfolding flown_def
  proof
    fix d
    assume "d \<in> set (fl_detections ?X)"
    then consider "d \<in> set (fl_detections X)" | "d \<in> set ds" by auto
    then show "\<exists>q \<in> set (fl_poses ?X). \<exists>gt \<in> set (flight_truths F).
     fp_ts q = px_ts d \<and> fp_roll_deg q = 0 \<and> px_cls d = gt_cls gt \<and> 1 \<le> po_alt_agl_m (fp_pose q) \<and>
     truth_to_pixel (fp_pose q) (rf_camera F) (gt_lat gt) (gt_lon gt) = Some (bbox_cx (px_bbox d), bbox_cy (px_bbox d))"
    proof cases
      case 1
      with Cons.prems(3) show ?thesis unfolding flown_def by fastforce
    next
      case 2
      from seen_truths_sound [OF ds 2] Cons.prems(2) show ?thesis by fastforce
    qed
  qed
  from Cons.IH [OF f _ this] Cons.prems(2) show ?case by simp
qed simp

lemma true_poses_ok:
  "p \<in> set (true_poses F) \<Longrightarrow> po_alt_agl_m p = rf_alt_agl_m F \<and> 0 \<le> po_heading_deg p \<and> po_heading_deg p < 360"
  by (auto simp: true_poses_def row_poses_def Let_def split: prod.splits)

text \<open>A flight without noise is its own ground truth.  Each detection was made at a reported pose of its
  time, and carries the class of an anomaly of the flight; projecting the centre of its box from that
  pose onto flat ground gives the anomaly's distance and the place at its bearing, however often the
  range is refined and whatever the error model, wherever the ray is not too flat.\<close>

theorem replay_projects_to_truth:
  assumes "replay_flight R F = Inr X" "noise_sigmas F = (0, 0)" "\<forall>n. rd_gauss R n 0 0 = 0" "1 \<le> rf_alt_agl_m F"
    and "img_w (rf_camera F) \<noteq> 0" "img_h (rf_camera F) \<noteq> 0" "0 < h_fov_deg (rf_camera F)" "h_fov_deg (rf_camera F) < 180"
      "0 < v_fov_deg (rf_camera F)" "v_fov_deg (rf_camera F) < 180"
  shows "length (fl_poses X) = length (true_poses F) \<and>
    (\<forall>d \<in> set (fl_detections X). \<exists>q \<in> set (fl_poses X). \<exists>gt \<in> set (flight_truths F).
       let p = fp_pose q; rng = ground_distance_m (po_lat p) (po_lon p) (gt_lat gt) (gt_lon gt) in
       fp_ts q = px_ts d \<and> px_cls d = gt_cls gt \<and>
       (0 < rng \<and> MIN_DEPRESSION_DEG \<le> degrees (arctan (po_alt_agl_m p / rng)) \<longrightarrow>
          (\<exists>f. project_to_ground p (rf_camera F) (bbox_cx (px_bbox d)) (bbox_cy (px_bbox d)) (fp_roll_deg q)
                 (Some (\<lambda>_ _. c)) cep sig n = Some f \<and> gf_range_m f = rng \<and>
               (gf_lat f, gf_lon f) =
                 destination (po_lat p) (po_lon p) (initial_bearing (po_lat p) (po_lon p) (gt_lat gt) (gt_lon gt)) rng)))"
proof -
  have "flown F \<lparr>fl_poses = [], fl_detections = [], fl_draws = 0\<rparr>" by (simp add: flown_def)
  from fly_flown [OF assms(2,3) assms(1) [unfolded replay_flight_def] _ this] true_poses_ok assms(4)
  have X: "flown F X" "length (fl_poses X) = length (true_poses F)" by auto
  have "\<exists>q \<in> set (fl_poses X). \<exists>gt \<in> set (flight_truths F).
       let p = fp_pose q; rng = ground_distance_m (po_lat p) (po_lon p) (gt_lat gt) (gt_lon gt) in
       fp_ts q = px_ts d \<and> px_cls d = gt_cls gt \<and>
       (0 < rng \<and> MIN_DEPRESSION_DEG \<le> degrees (arctan (po_alt_agl_m p / rng)) \<longrightarrow>
          (\<exists>f. project_to_ground p (rf_camera F) (bbox_cx (px_bbox d)) (bbox_cy (px_bbox d)) (fp_roll_deg q)
                 (Some (\<lambda>_ _. c)) cep sig n = Some f \<and> gf_range_m f = rng \<and>
               (gf_lat f, gf_lon f) =
                 destination (po_lat p) (po_lon p) (initial_bearing (po_lat p) (po_lon p) (gt_lat gt) (gt_lon gt)) rng))"
    if d: "d \<in> set (fl_detections X)" for d
  proof -
    obtain q gt where q: "q \<in> set (fl_poses X)" "gt \<in> set (flight_truths F)" "fp_ts q = px_ts d" "fp_roll_deg q = 0"
      "px_cls d = gt_cls gt" "1 \<le> po_alt_agl_m (fp_pose q)"
      "truth_to_pixel (fp_pose q) (rf_camera F) (gt_lat gt) (gt_lon gt) = Some (bbox_cx (px_bbox d), bbox_cy (px_bbox d))"
      using X(1) d unfolding flown_def by blast
    have "0 < po_alt_agl_m (fp_pose q)" using q(6) by simp
    from pixel_projects_back [OF q(7) refl _ this _ assms(5-10), of c cep sig n] q show ?thesis
      unfolding Let_def by (intro bexI [OF _ q(1)] bexI [OF _ q(2)]) simp
  qed
  with X(2) show ?thesis by blast
qed

definition demo_draws :: random_draws where
  "demo_draws = \<lparr>rd_uniform = (\<lambda>_ a b. (a + b) / 2), rd_gauss = (\<lambda>_ mu sigma. mu + sigma)\<rparr>"

definition demo_plan :: flight_plan where
  "demo_plan =
     \<lparr>rf_polygon = [(0, 0)], rf_camera = \<lparr>img_w = 100, img_h = 100, h_fov_deg = 90, v_fov_deg = 120\<rparr>, rf_alt_agl_m = 100,
      rf_forward_overlap = 1, rf_side_overlap = 1, rf_rtk_enabled = False, rf_dt_s = 1, rf_conf = 1,
      rf_truths = Some [\<lparr>gt_lat = 0, gt_lon = degrees (100 / EARTH_R_M), gt_cls = ''gap''\<rparr>],
      rf_pos_noise_m = Some 0, rf_att_noise_deg = Some 0\<rparr>"

lemma seen_truths_total: "0 \<le> conf \<Longrightarrow> conf \<le> 1 \<Longrightarrow> \<exists>ds. seen_truths p cam fid ts conf gts = Inr ds"
  by (induction gts) (auto simp: mk_pixel_def mk_bbox_def split: option.split)

lemma fly_total:
  "0 \<le> rf_conf F \<Longrightarrow> rf_conf F \<le> 1 \<Longrightarrow>
   \<exists>X'. fly R F ts k ps X = Inr X' \<and> set (fl_detections X) \<subseteq> set (fl_detections X')"
proof (induction ps arbitrary: ts k X)
  case (Cons p ps)
  obtain reported n where r: "reported_pose R (fst (noise_sigmas F)) (snd (noise_sigmas F)) p (fl_draws X) = (reported, n)"
    by (metis prod.collapse)
  obtain ds where "seen_truths p (rf_camera F) (CHR ''f'' # str_nat k) ts (rf_conf F) (flight_truths F) = Inr ds"
    using seen_truths_total [OF Cons.prems] by blast
  with r show ?case
    using Cons.IH [OF Cons.prems, of "ts + rf_dt_s F" "Suc k" "X\<lparr>fl_poses := fl_poses X @ [\<lparr>fp_pose = reported, fp_roll_deg = 0, fp_ts = ts\<rparr>],
      fl_draws := n, fl_detections := fl_detections X @ ds\<rparr>"]
    by (auto simp: emit_frame_def Let_def split: prod.split)
qed simp

lemma demo_sees:
  "\<exists>c. truth_to_pixel \<lparr>po_lat = 0, po_lon = 0, po_alt_agl_m = 100, po_heading_deg = 90, po_pitch_deg = 90\<rparr> (rf_camera demo_plan) 0
     (degrees (100 / EARTH_R_M)) = Some c"
proof -
  define t where "t = 100 / EARTH_R_M"
  have t: "0 < t" "t < 1" "EARTH_R_M * t = 100" by (simp_all add: t_def EARTH_R_M_def)
  have pi: "2 \<le> pi" by (rule pi_ge_two)
  have zero: "radians 0 = 0" by (simp add: radians_def)
  have half: "0 < t / 2" "t / 2 < pi / 2" "t < pi" using t(1,2) pi by simp_all
  have s: "0 < sin (t / 2)" using half by (intro sin_gt_zero) simp_all
  have asin: "arcsin (sin (t / 2)) = t / 2" using half by (intro arcsin_sin) simp_all
  have d: "ground_distance_m 0 0 0 (degrees t) = 100"
    using s t(3) by (simp add: ground_distance_m_def Let_def zero min_absorb2 asin)
  have "0 < sin t" using t(1) half(3) by (rule sin_gt_zero)
  then have b: "initial_bearing 0 0 0 (degrees t) = 90"
    using mod_360_small [of 90] by (simp add: initial_bearing_def atan2_def Let_def) (simp add: radians_def degrees_def)
  have "tan (radians (- 45)) = - 1" "1 \<le> tan (radians 60)"
    by (simp_all add: radians_def tan_45 tan_60)
  moreover have "- 1 \<le> 1 / tan (radians 60)" using \<open>1 \<le> tan (radians 60)\<close> by (simp add: field_simps)
  moreover have "mod_360 180 = 180" by (rule mod_360_small) simp_all
  ultimately show ?thesis
    unfolding t_def [symmetric]
    using d b zero by (simp add: truth_to_pixel_def Let_def demo_plan_def atan2_def arctan_one degrees_def NADIR_DEPRESSION_DEG_def)
      (intro exI [of _ "(100 - 100 / tan (radians 60)) / 2"], simp)
qed

lemma demo_flight: "true_poses demo_plan =
    [\<lparr>po_lat = 0, po_lon = 0, po_alt_agl_m = 100, po_heading_deg = 90, po_pitch_deg = 90\<rparr>,
     \<lparr>po_lat = 0, po_lon = snd (destination 0 0 90 1), po_alt_agl_m = 100, po_heading_deg = 90, po_pitch_deg = 90\<rparr>]"
proof -
  have "0 < degrees (1 / EARTH_R_M)" by (simp add: degrees_def EARTH_R_M_def)
  then have "row_latitudes 0 0 0 1 = [0]" by (simp add: row_latitudes.simps next_row_eq)
  moreover have "destination 0 0 90 0 = (0, 0)" by (simp add: destination_def degrees_def Let_def)
  ultimately show ?thesis
    by (simp add: true_poses_def flight_steps_def demo_plan_def block_bbox_def footprints_m_def row_poses_def Let_def
        NADIR_DEPRESSION_DEG_def)
qed

theorem replay_projects_to_truth_witness:
  "\<exists>X. replay_flight demo_draws demo_plan = Inr X \<and> length (fl_poses X) = 2 \<and>
     (\<exists>d \<in> set (fl_detections X). \<exists>q \<in> set (fl_poses X). fp_ts q = px_ts d \<and> px_cls d = ''gap'')"
proof -
  let ?p = "\<lparr>po_lat = 0, po_lon = 0, po_alt_agl_m = 100, po_heading_deg = 90, po_pitch_deg = 90\<rparr>"
  have conf: "0 \<le> rf_conf demo_plan" "rf_conf demo_plan \<le> 1" by (simp_all add: demo_plan_def)
  obtain cx cy where "truth_to_pixel ?p (rf_camera demo_plan) 0 (degrees (100 / EARTH_R_M)) = Some (cx, cy)"
    using demo_sees by auto
  then obtain d where d: "seen_truths ?p (rf_camera demo_plan) (CHR ''f'' # str_nat 0) 0 (rf_conf demo_plan) (flight_truths demo_plan) = Inr [d]"
    by (auto simp: flight_truths_def demo_plan_def mk_pixel_def mk_bbox_def)
  obtain reported n where r: "reported_pose demo_draws 0 0 ?p 0 = (reported, n)" by (metis prod.collapse)
  let ?X = "\<lparr>fl_poses = [\<lparr>fp_pose = reported, fp_roll_deg = 0, fp_ts = 0\<rparr>], fl_detections = [d], fl_draws = n\<rparr>"
  have sig: "noise_sigmas demo_plan = (0, 0)" by (simp add: noise_sigmas_def demo_plan_def)
  have dt: "rf_dt_s demo_plan = 1" by (simp add: demo_plan_def)
  obtain X where X: "fly demo_draws demo_plan 1 (Suc 0) (tl (true_poses demo_plan)) ?X = Inr X" "d \<in> set (fl_detections X)"
    using fly_total [OF conf, of demo_draws 1 "Suc 0" "tl (true_poses demo_plan)" ?X] by auto
  have R: "replay_flight demo_draws demo_plan = Inr X"
  proof -
    have "emit_frame demo_draws demo_plan 0 0 (flight_truths demo_plan) ?p 0 0 \<lparr>fl_poses = [], fl_detections = [], fl_draws = 0\<rparr> =
        (Inr (), ?X)"
      using d r by (simp add: emit_frame_def Let_def)
    then have "fly demo_draws demo_plan 0 0 (?p # tl (true_poses demo_plan)) \<lparr>fl_poses = [], fl_detections = [], fl_draws = 0\<rparr> =
        fly demo_draws demo_plan 1 (Suc 0) (tl (true_poses demo_plan)) ?X"
      by (simp add: sig dt)
    moreover have "true_poses demo_plan = ?p # tl (true_poses demo_plan)" by (simp add: demo_flight)
    ultimately show ?thesis using X(1) by (simp add: replay_flight_def)
  qed
  have zero: "\<forall>n. rd_gauss demo_draws n 0 0 = 0" by (simp add: demo_draws_def)
  have "1 \<le> rf_alt_agl_m demo_plan" "img_w (rf_camera demo_plan) \<noteq> 0" "img_h (rf_camera demo_plan) \<noteq> 0"
    "0 < h_fov_deg (rf_camera demo_plan)" "h_fov_deg (rf_camera demo_plan) < 180" "0 < v_fov_deg (rf_camera demo_plan)"
    "v_fov_deg (rf_camera demo_plan) < 180" by (simp_all add: demo_plan_def)
  note t = replay_projects_to_truth [OF R sig zero this, of 0 None None 0]
  from conjunct2 [OF t] X(2) obtain q gt where q: "q \<in> set (fl_poses X)" "gt \<in> set (flight_truths demo_plan)"
    "fp_ts q = px_ts d" "px_cls d = gt_cls gt" unfolding Let_def by blast
  then have "px_cls d = ''gap''" by (simp add: flight_truths_def demo_plan_def)
  with R conjunct1 [OF t] X(2) q show ?thesis by (auto simp: demo_flight)
qed

end
