(* ===== verification/Env_Config.thy ===== *)
theory Env_Config
  imports Net_Auth "HOL-Library.AList"
begin

text \<open>
  The environment loader (\<^verbatim>\<open>meshsa/_envconfig.py\<close>) and the loaders built from it: of a node
  (\<^verbatim>\<open>meshsa/config.py\<close>), of the assistant's server (\<^verbatim>\<open>llm/server.py\<close>) and of the commander
  (\<^verbatim>\<open>command/config.py\<close>).  A configuration model is the list of its fields with their annotations; a loader
  returns the data that pydantic then validates.  The environment is a map; \<^verbatim>\<open>json.loads\<close> is a parameter.
\<close>

section \<open>Casters\<close>

datatype annotation =
    Ann_Bool | Ann_Int | Ann_Float | Ann_Str | Ann_Literal | Ann_Enum | Ann_Str_Tuple | Ann_Str_Set
  | Ann_Optional annotation
  | Ann_Other

type_synonym config_fields = "(string \<times> annotation) list"
type_synonym config_data = "(string \<times> json) list"
type_synonym caster = "string \<Rightarrow> py_exn + json"

text \<open>\<open>Not_An_Object\<close> is a blob, or a section of one, that is JSON of another shape; the code builds a
  dictionary from some of those, and the model does not follow it there.\<close>

datatype config_exn = Config_Raised py_exn | Config_Bad_Json | Not_An_Object

fun unwrap_optional :: "annotation \<Rightarrow> annotation" where
  "unwrap_optional (Ann_Optional a) = a"
| "unwrap_optional a = a"

definition cast_bool :: caster where "cast_bool raw = then_ok (parse_bool raw) (\<lambda>b. Inr (JBool b))"
definition cast_int :: "int option \<Rightarrow> int option \<Rightarrow> caster" where
  "cast_int lo hi raw = then_ok (parse_int raw lo hi) (\<lambda>i. Inr (JInt i))"
definition cast_float :: caster where "cast_float raw = then_ok (parse_float raw None None) (\<lambda>x. Inr (JFloat (Fin x)))"
definition cast_str :: caster where "cast_str raw = Inr (JStr raw)"
definition cast_token :: caster where
  "cast_token raw = Inr (case parse_token raw of None \<Rightarrow> JNull | Some t \<Rightarrow> JStr t)"
definition cast_csv :: caster where "cast_csv raw = Inr (JArr (map JStr (csv_items raw)))"

definition caster_for :: "annotation \<Rightarrow> py_exn + caster" where
  "caster_for ann =
     (case unwrap_optional ann of
        Ann_Bool \<Rightarrow> Inr cast_bool
      | Ann_Int \<Rightarrow> Inr (cast_int None None)
      | Ann_Float \<Rightarrow> Inr cast_float
      | Ann_Literal \<Rightarrow> Inr cast_str
      | Ann_Str \<Rightarrow> Inr cast_str
      | Ann_Enum \<Rightarrow> Inr cast_str
      | Ann_Str_Tuple \<Rightarrow> Inr cast_csv
      | Ann_Str_Set \<Rightarrow> Inr cast_csv
      | _ \<Rightarrow> Inl TypeError)"

section \<open>The loader\<close>

definition field_key :: "string \<Rightarrow> string option \<Rightarrow> (string \<times> string) list \<Rightarrow> string \<Rightarrow> string" where
  "field_key pfx section aliases name =
     (case map_of aliases name of
        Some a \<Rightarrow> if a = [] then env_key pfx section name else a
      | None \<Rightarrow> env_key pfx section name)"

fun apply_overrides ::
  "config_fields \<Rightarrow> (string \<rightharpoonup> string) \<Rightarrow> string \<Rightarrow> string option \<Rightarrow> (string \<times> caster) list \<Rightarrow> (string \<times> string) list \<Rightarrow>
     string list \<Rightarrow> config_data \<Rightarrow> config_exn + config_data" where
  "apply_overrides model env pfx section casters aliases [] data = Inr data"
| "apply_overrides model env pfx section casters aliases (name # names) data =
     (case env (field_key pfx section aliases name) of
        None \<Rightarrow> apply_overrides model env pfx section casters aliases names data
      | Some raw \<Rightarrow>
          (case (case map_of casters name of
                   Some c \<Rightarrow> Inr c
                 | None \<Rightarrow> (case map_of model name of None \<Rightarrow> Inl KeyError | Some ann \<Rightarrow> caster_for ann)) of
             Inl e \<Rightarrow> Inl (Config_Raised e)
           | Inr c \<Rightarrow>
               (case c raw of
                  Inl e \<Rightarrow> Inl (Config_Raised e)
                | Inr v \<Rightarrow> apply_overrides model env pfx section casters aliases names (AList.update name v data))))"

definition dict_of :: "json option \<Rightarrow> config_exn + config_data" where
  "dict_of v =
     (case v of None \<Rightarrow> Inr [] | Some (JObj kvs) \<Rightarrow> Inr kvs | Some _ \<Rightarrow> Inl Not_An_Object)"

fun load_sections ::
  "(string \<rightharpoonup> string) \<Rightarrow> string \<Rightarrow> (string \<times> config_fields) list \<Rightarrow> config_data \<Rightarrow> config_exn + config_data" where
  "load_sections env pfx [] data = Inr data"
| "load_sections env pfx ((section, model) # rest) data =
     (case dict_of (map_of data section) of
        Inl e \<Rightarrow> Inl e
      | Inr d \<Rightarrow>
          (case apply_overrides model env pfx (Some section) [] [] (map fst model) d of
             Inl e \<Rightarrow> Inl e
           | Inr values \<Rightarrow>
               load_sections env pfx rest (if values = [] then data else AList.update section (JObj values) data)))"

definition CONFIG_JSON :: "string \<Rightarrow> string" where
  "CONFIG_JSON pfx = pfx @ ''CONFIG_JSON''"

definition merge_config_json ::
  "(string \<Rightarrow> json option) \<Rightarrow> (string \<rightharpoonup> string) \<Rightarrow> string \<Rightarrow> config_data \<Rightarrow> config_exn + config_data" where
  "merge_config_json loads env pfx data =
     (case env (CONFIG_JSON pfx) of
        None \<Rightarrow> Inr data
      | Some blob \<Rightarrow>
          if blob = [] then Inr data
          else
            (case loads blob of
               None \<Rightarrow> Inl Config_Bad_Json
             | Some (JObj kvs) \<Rightarrow> Inr (foldl (\<lambda>d (k, v). AList.update k v d) data kvs)
             | Some _ \<Rightarrow> Inl Not_An_Object))"

definition env_inventory :: "string \<Rightarrow> string list \<Rightarrow> (string \<times> config_fields) list \<Rightarrow> (string \<times> string) list \<Rightarrow> string list" where
  "env_inventory pfx top_level sections aliases =
     CONFIG_JSON pfx # map (field_key pfx None aliases) top_level @
     concat (map (\<lambda>(section, model). map (\<lambda>(name, _). env_key pfx (Some section) name) model) sections)"

definition env_scalar :: "(string \<rightharpoonup> string) \<Rightarrow> string \<Rightarrow> 'a \<Rightarrow> (string \<Rightarrow> py_exn + 'a) \<Rightarrow> py_exn + 'a" where
  "env_scalar env key absent cast = (case env key of None \<Rightarrow> Inr absent | Some raw \<Rightarrow> cast raw)"

section \<open>The models\<close>

definition mesh_fields :: config_fields where
  "mesh_fields = [(''channel'', Ann_Str), (''psk'', Ann_Optional Ann_Str), (''region'', Ann_Str), (''freq_khz'', Ann_Optional Ann_Int)]"

definition router_fields :: config_fields where
  "router_fields = [(''dedupe_cache_size'', Ann_Int), (''queue_maxsize'', Ann_Int)]"

definition health_fields :: config_fields where
  "health_fields =
     [(''enabled'', Ann_Bool), (''host'', Ann_Str), (''port'', Ann_Int), (''token'', Ann_Optional Ann_Str),
      (''metrics_enabled'', Ann_Bool), (''metrics_path'', Ann_Str), (''metrics_format'', Ann_Literal)]"

definition inference_fields :: config_fields where
  "inference_fields =
     [(''enabled'', Ann_Bool), (''api_key'', Ann_Str), (''base_url'', Ann_Str), (''model'', Ann_Str), (''system_prompt'', Ann_Str),
      (''temperature'', Ann_Float), (''max_tokens'', Ann_Int), (''timeout_s'', Ann_Float), (''max_retries'', Ann_Int),
      (''backoff_base'', Ann_Float), (''backoff_max_s'', Ann_Float), (''insight_prefix'', Ann_Str), (''min_interval_s'', Ann_Float),
      (''max_concurrent_requests'', Ann_Int), (''response_format'', Ann_Literal), (''guided_json_schema'', Ann_Str),
      (''guided_json_summary_field'', Ann_Str), (''models'', Ann_Str_Tuple), (''offline_queue_max'', Ann_Int),
      (''max_pending_tasks'', Ann_Int)]"

definition scout_fields :: config_fields where
  "scout_fields =
     [(''enabled'', Ann_Bool), (''rtk_enabled'', Ann_Bool), (''vine_spacing_m'', Ann_Float), (''row_spacing_m'', Ann_Float),
      (''dedup_radius_m'', Ann_Float), (''sync_max_skew_s'', Ann_Float), (''attitude_sigma_deg'', Ann_Float),
      (''pos_cep_m'', Ann_Float), (''marker_stale_s'', Ann_Float), (''forward_overlap'', Ann_Float), (''side_overlap'', Ann_Float),
      (''survey_alt_agl_m'', Ann_Float), (''survey_cruise_speed_ms'', Ann_Float), (''survey_hover_speed_ms'', Ann_Float),
      (''camera_img_w'', Ann_Int), (''camera_img_h'', Ann_Int), (''camera_h_fov_deg'', Ann_Float), (''camera_v_fov_deg'', Ann_Float),
      (''dem_path'', Ann_Optional Ann_Str), (''store_path'', Ann_Str), (''station_host'', Ann_Str), (''station_port'', Ann_Int),
      (''station_token'', Ann_Str)]"

definition ui_fields :: config_fields where
  "ui_fields =
     [(''enabled'', Ann_Bool), (''host'', Ann_Str), (''port'', Ann_Int), (''token'', Ann_Optional Ann_Str), (''map_style_url'', Ann_Str),
      (''poll_interval_s'', Ann_Float), (''track_stale_s'', Ann_Float), (''detection_stale_s'', Ann_Float), (''max_tracks'', Ann_Int),
      (''max_detections'', Ann_Int), (''chat_enabled'', Ann_Bool), (''log_ring_enabled'', Ann_Bool), (''log_ring_size'', Ann_Int),
      (''log_ring_level'', Ann_Str), (''metrics_format'', Ann_Literal), (''title'', Ann_Str)]"

definition node_fields :: config_fields where
  "node_fields =
     [(''uid'', Ann_Str), (''callsign'', Ann_Str), (''tier'', Ann_Enum), (''pli_interval_s'', Ann_Float), (''default_stale_s'', Ann_Float),
      (''mesh'', Ann_Other), (''router'', Ann_Other), (''health'', Ann_Other), (''transports'', Ann_Other), (''inference'', Ann_Other),
      (''scout'', Ann_Other), (''ui'', Ann_Other)]"

definition NODE_ENV_SCALARS :: "string list" where
  "NODE_ENV_SCALARS = [''uid'', ''callsign'', ''tier'', ''pli_interval_s'', ''default_stale_s'']"

definition NODE_ENV_SECTIONS :: "(string \<times> config_fields) list" where
  "NODE_ENV_SECTIONS =
     [(''mesh'', mesh_fields), (''router'', router_fields), (''health'', health_fields), (''inference'', inference_fields),
      (''scout'', scout_fields), (''ui'', ui_fields)]"

definition node_env_inventory :: "string \<Rightarrow> string list" where
  "node_env_inventory pfx = env_inventory pfx NODE_ENV_SCALARS NODE_ENV_SECTIONS []"

text \<open>\<^verbatim>\<open>NodeConfig.from_env\<close> and \<^verbatim>\<open>ScoutConfig.from_env\<close>, up to the validation.\<close>

definition node_from_env ::
  "(string \<Rightarrow> json option) \<Rightarrow> string \<Rightarrow> (string \<rightharpoonup> string) \<Rightarrow> config_exn + config_data" where
  "node_from_env loads pfx env =
     (case merge_config_json loads env pfx [] of
        Inl e \<Rightarrow> Inl e
      | Inr d0 \<Rightarrow>
          (case apply_overrides node_fields env pfx None [] [] NODE_ENV_SCALARS d0 of
             Inl e \<Rightarrow> Inl e
           | Inr d1 \<Rightarrow> load_sections env pfx NODE_ENV_SECTIONS d1))"

definition scout_from_env ::
  "(string \<Rightarrow> json option) \<Rightarrow> string \<Rightarrow> (string \<rightharpoonup> string) \<Rightarrow> config_exn + config_data" where
  "scout_from_env loads pfx env =
     (case merge_config_json loads env pfx [] of
        Inl e \<Rightarrow> Inl e
      | Inr data \<Rightarrow>
          (case dict_of (map_of data ''scout'') of
             Inl e \<Rightarrow> Inl e
           | Inr d \<Rightarrow> apply_overrides scout_fields env pfx (Some ''scout'') [] [] (map fst scout_fields) d))"

text \<open>The assistant's server.\<close>

definition server_fields :: config_fields where
  "server_fields =
     [(''host'', Ann_Str), (''port'', Ann_Int), (''token'', Ann_Optional Ann_Str), (''mavlink2rest_url'', Ann_Str),
      (''drone_uid'', Ann_Str), (''fts_tracks_url'', Ann_Str), (''max_prompt_chars'', Ann_Int)]"

definition SERVER_CASTERS :: "(string \<times> caster) list" where
  "SERVER_CASTERS = [(''port'', cast_int (Some 1) (Some 65535)), (''max_prompt_chars'', cast_int (Some 1) None), (''token'', cast_token)]"

definition SERVER_ALIASES :: "(string \<times> string) list" where
  "SERVER_ALIASES =
     [(''mavlink2rest_url'', ''MESHSA_MAVLINK2REST_URL''), (''drone_uid'', ''MESHSA_DRONE_UID''),
      (''fts_tracks_url'', ''MESHSA_FTS_TRACKS_URL'')]"

definition resolve_server :: "(string \<rightharpoonup> string) \<Rightarrow> config_exn + config_data" where
  "resolve_server env =
     apply_overrides server_fields env ''MESHSA_LLM_'' None SERVER_CASTERS SERVER_ALIASES (map fst server_fields) []"

text \<open>The commander.  A set of names is a JSON list of strings in brackets, or else comma-separated.\<close>

definition hashable :: "json \<Rightarrow> bool" where
  "hashable v = (case v of JArr _ \<Rightarrow> False | JObj _ \<Rightarrow> False | _ \<Rightarrow> True)"

definition cast_allowed :: "(string \<Rightarrow> json option) \<Rightarrow> caster" where
  "cast_allowed loads raw =
     (let csv = JArr (map JStr (remdups (csv_items raw)))
      in if raw \<noteq> [] \<and> hd raw = CHR ''['' \<and> last raw = CHR '']'' then
           (case loads raw of
              Some (JArr vs) \<Rightarrow> Inr (if list_all hashable vs then JArr (remdups vs) else csv)
            | _ \<Rightarrow> Inr csv)
         else Inr csv)"

definition commander_fields :: "(string \<Rightarrow> json option) \<Rightarrow> (string \<times> caster) list" where
  "commander_fields loads =
     [(''host'', cast_str), (''port'', cast_int None None), (''mavlink_endpoint'', cast_str), (''audit_path'', cast_str),
      (''target_system'', cast_int None None), (''target_component'', cast_int None None), (''allowed'', cast_allowed loads),
      (''allow_force_disarm'', cast_bool), (''ack_timeout_s'', cast_float), (''max_attempts'', cast_int None None),
      (''arm_report_max_age_s'', cast_float)]"

definition commander_from_env ::
  "(string \<Rightarrow> json option) \<Rightarrow> string \<Rightarrow> (string \<rightharpoonup> string) \<Rightarrow> config_exn + config_data" where
  "commander_from_env loads pfx env =
     (case merge_config_json loads env pfx [] of
        Inl e \<Rightarrow> Inl e
      | Inr d \<Rightarrow> apply_overrides [] env pfx None (commander_fields loads) [] (map fst (commander_fields loads)) d)"

text \<open>The assistant's model and budgets (\<^verbatim>\<open>llm/agent.py\<close>), and the flight-control settings (\<^verbatim>\<open>fpv/config.py\<close>),
  where an empty directory of sessions means that it is unset.\<close>

definition agent_knob_fields :: config_fields where
  "agent_knob_fields = [(''model'', Ann_Str), (''max_tokens'', Ann_Int), (''max_iterations'', Ann_Int)]"

definition resolve_agent_knobs :: "(string \<rightharpoonup> string) \<Rightarrow> config_exn + config_data" where
  "resolve_agent_knobs env =
     apply_overrides agent_knob_fields env ''MESHSA_LLM_'' None
       [(''max_tokens'', cast_int (Some 1) None), (''max_iterations'', cast_int (Some 1) None)] [] (map fst agent_knob_fields) []"

definition fpv_from_env ::
  "(string \<Rightarrow> json option) \<Rightarrow> string \<Rightarrow> (string \<rightharpoonup> string) \<Rightarrow> config_exn + config_data" where
  "fpv_from_env loads pfx env =
     (case merge_config_json loads env pfx [] of
        Inl e \<Rightarrow> Inl e
      | Inr data \<Rightarrow>
          (case env (pfx @ ''SESSIONS_ROOT'') of
             None \<Rightarrow> Inr data
           | Some d \<Rightarrow>
               if d = [] then Inr data
               else
                 (case dict_of (map_of data ''logger'') of
                    Inl e \<Rightarrow> Inl e
                  | Inr logger \<Rightarrow>
                      Inr (AList.update ''logger'' (JObj (AList.update ''sessions_root'' (JStr d) logger)) data))))"

text \<open>A session directory that is set and not empty ends up in the settings; every other section, and every other
  setting of the logger, is that of the blob.\<close>

lemma fpv_sessions_root:
  assumes "fpv_from_env loads pfx env = Inr data" "merge_config_json loads env pfx [] = Inr blob"
    "env (pfx @ ''SESSIONS_ROOT'') = Some d" "d \<noteq> []"
  shows "\<exists>logger old. dict_of (map_of blob ''logger'') = Inr old \<and> map_of data ''logger'' = Some (JObj logger) \<and>
    map_of logger ''sessions_root'' = Some (JStr d) \<and>
    (\<forall>k. k \<noteq> ''sessions_root'' \<longrightarrow> map_of logger k = map_of old k) \<and>
    (\<forall>k. k \<noteq> ''logger'' \<longrightarrow> map_of data k = map_of blob k)"
  using assms by (auto simp: fpv_from_env_def update_conv split: sum.splits)

end
