(* ===== verification/Config_Facts.thy ===== *)
theory Config_Facts
  imports Env_Config
begin

text \<open>
  What the environment loader promises: a variable outside the inventory has no effect, a variable of
  the inventory sets its own field and no other, and what no variable sets keeps the blob's value.
\<close>

section \<open>Overrides\<close>

lemma apply_overrides_cong:
  assumes "\<And>n. n \<in> set names \<Longrightarrow> env (field_key pfx section aliases n) = env' (field_key pfx section aliases n)"
  shows "apply_overrides model env pfx section casters aliases names data =
         apply_overrides model env' pfx section casters aliases names data"
  using assms
proof (induction names arbitrary: data)
  case (Cons n names)
  have "env (field_key pfx section aliases n) = env' (field_key pfx section aliases n)"
    using Cons.prems by simp
  moreover have "\<And>d. apply_overrides model env pfx section casters aliases names d =
                     apply_overrides model env' pfx section casters aliases names d"
    using Cons by simp
  ultimately show ?case by (simp cong: option.case_cong sum.case_cong)
qed simp

text \<open>The value of one field: what its caster makes of the variable, or what was there.\<close>

definition field_cast :: "config_fields \<Rightarrow> (string \<times> caster) list \<Rightarrow> string \<Rightarrow> string \<Rightarrow> json option" where
  "field_cast model casters name raw =
     (case (case map_of casters name of
              Some c \<Rightarrow> Inr c
            | None \<Rightarrow> (case map_of model name of None \<Rightarrow> Inl KeyError | Some ann \<Rightarrow> caster_for ann)) of
        Inl _ \<Rightarrow> None
      | Inr c \<Rightarrow> (case c raw of Inl _ \<Rightarrow> None | Inr v \<Rightarrow> Some v))"

lemma apply_overrides_cases:
  assumes "apply_overrides model env pfx section casters aliases (n # names) data = Inr data'"
  shows "(case env (field_key pfx section aliases n) of
            None \<Rightarrow> apply_overrides model env pfx section casters aliases names data = Inr data'
          | Some raw \<Rightarrow> \<exists>v. field_cast model casters n raw = Some v \<and>
              apply_overrides model env pfx section casters aliases names (AList.update n v data) = Inr data')"
  using assms by (auto simp: field_cast_def split: option.splits sum.splits)

lemma apply_overrides_others:
  assumes "apply_overrides model env pfx section casters aliases names data = Inr data'" "m \<notin> set names"
  shows "map_of data' m = map_of data m"
  using assms
proof (induction names arbitrary: data)
  case (Cons n names)
  from apply_overrides_cases [OF Cons.prems(1)] Cons.IH Cons.prems(2) show ?case
    by (cases "env (field_key pfx section aliases n)") (auto simp: update_conv')
qed simp

lemma apply_overrides_lookup:
  assumes "apply_overrides model env pfx section casters aliases names data = Inr data'"
    "distinct names" "m \<in> set names"
  shows "map_of data' m =
    (case env (field_key pfx section aliases m) of None \<Rightarrow> map_of data m | Some raw \<Rightarrow> field_cast model casters m raw)"
  using assms
proof (induction names arbitrary: data)
  case (Cons n names)
  note step = apply_overrides_cases [OF Cons.prems(1)]
  show ?case
  proof (cases "m = n")
    case True
    with Cons.prems(2) have "m \<notin> set names" by simp
    with step True show ?thesis
      by (auto simp: update_conv' dest!: apply_overrides_others split: option.splits)
  next
    case False
    with Cons.prems have "distinct names" "m \<in> set names" by auto
    with step False Cons.IH show ?thesis
      by (cases "env (field_key pfx section aliases n)") (auto simp: update_conv' split: option.split)
  qed
qed simp

lemma apply_overrides_nonempty:
  "apply_overrides model env pfx section casters aliases names data = Inr [] \<Longrightarrow> data = []"
proof (induction names arbitrary: data)
  case (Cons n names)
  have "AList.update n v data \<noteq> []" for v by (cases data) auto
  with apply_overrides_cases [OF Cons.prems] Cons.IH show ?case by (force split: option.splits)
qed simp

section \<open>Sections\<close>

definition section_field :: "config_data \<Rightarrow> string \<Rightarrow> string \<Rightarrow> json option" where
  "section_field data section name = (case map_of data section of Some (JObj kvs) \<Rightarrow> map_of kvs name | _ \<Rightarrow> None)"

lemma dict_of_field: "dict_of (map_of data section) = Inr d \<Longrightarrow> map_of d name = section_field data section name"
  by (auto simp: dict_of_def section_field_def split: option.splits json.splits)

lemma load_sections_cases:
  assumes "load_sections env pfx ((section, model) # rest) data = Inr data'"
  obtains d vals where "dict_of (map_of data section) = Inr d"
    "apply_overrides model env pfx (Some section) [] [] (map fst model) d = Inr vals"
    "load_sections env pfx rest (if vals = [] then data else AList.update section (JObj vals) data) = Inr data'"
proof (cases "dict_of (map_of data section)")
  case (Inr d)
  with assms that show thesis
    by (cases "apply_overrides model env pfx (Some section) [] [] (map fst model) d") simp_all
qed (use assms in simp)

lemma load_sections_others:
  assumes "load_sections env pfx sections data = Inr data'" "s \<notin> fst ` set sections"
  shows "map_of data' s = map_of data s"
  using assms
proof (induction sections arbitrary: data)
  case (Cons sec sections)
  obtain sn md where sec: "sec = (sn, md)" by fastforce
  from Cons.prems(1) [unfolded sec] obtain vals where
    "load_sections env pfx sections (if vals = [] then data else AList.update sn (JObj vals) data) = Inr data'"
    by (rule load_sections_cases)
  then have "map_of data' s = map_of (if vals = [] then data else AList.update sn (JObj vals) data) s"
    using Cons.prems(2) by (intro Cons.IH) simp_all
  with Cons.prems(2) sec show ?case by (simp add: update_conv' split: if_splits)
qed simp

lemma load_sections_lookup:
  assumes "load_sections env pfx sections data = Inr data'" "distinct (map fst sections)"
    "(s, model) \<in> set sections" "distinct (map fst model)" "name \<in> fst ` set model"
  shows "section_field data' s name =
    (case env (env_key pfx (Some s) name) of
       None \<Rightarrow> section_field data s name | Some raw \<Rightarrow> field_cast model [] name raw)"
  using assms
proof (induction sections arbitrary: data)
  case (Cons sec sections)
  obtain sn md where sec: "sec = (sn, md)" by fastforce
  from Cons.prems(1) [unfolded sec] obtain d vals where
    d: "dict_of (map_of data sn) = Inr d" and
    vals: "apply_overrides md env pfx (Some sn) [] [] (map fst md) d = Inr vals" and
    rest: "load_sections env pfx sections (if vals = [] then data else AList.update sn (JObj vals) data) = Inr data'"
    by (rule load_sections_cases)
  show ?case
  proof (cases "s = sn")
    case True
    have new: "s \<notin> fst ` set sections" using Cons.prems(2) sec True by force
    then have "md = model" using Cons.prems(3) sec True by force
    moreover have "section_field data' s name = map_of vals name"
    proof (cases "vals = []")
      case True
      with vals have "d = []" by (blast dest: apply_overrides_nonempty)
      with True \<open>s = sn\<close> show ?thesis
        using load_sections_others [OF rest new] dict_of_field [OF d, of name]
        by (simp add: section_field_def)
    qed (use load_sections_others [OF rest new] True in \<open>simp add: section_field_def update_conv'\<close>)
    ultimately show ?thesis
      using apply_overrides_lookup [OF vals, of name] Cons.prems(4,5) True dict_of_field [OF d, of name]
      by (auto simp: field_key_def split: option.split)
  next
    case False
    then have "section_field (if vals = [] then data else AList.update sn (JObj vals) data) s name = section_field data s name"
      by (simp add: section_field_def update_conv')
    with False Cons.IH [OF rest] Cons.prems(2-5) sec show ?thesis by (simp cong: option.case_cong)
  qed
qed simp

text \<open>The sections bind disjoint fields, and none of them is a top-level scalar.\<close>

lemma node_models_distinct:
  "distinct (map fst NODE_ENV_SECTIONS)" "(s, model) \<in> set NODE_ENV_SECTIONS \<Longrightarrow> distinct (map fst model)"
  "(s, model) \<in> set NODE_ENV_SECTIONS \<Longrightarrow> s \<notin> set NODE_ENV_SCALARS"
  "distinct NODE_ENV_SCALARS" "n \<in> set NODE_ENV_SCALARS \<Longrightarrow> n \<notin> fst ` set NODE_ENV_SECTIONS"
proof -
  have "list_all (\<lambda>(s, model). distinct (map fst model) \<and> \<not> List.member NODE_ENV_SCALARS s) NODE_ENV_SECTIONS"
    by code_simp
  then show "(s, model) \<in> set NODE_ENV_SECTIONS \<Longrightarrow> distinct (map fst model)"
    "(s, model) \<in> set NODE_ENV_SECTIONS \<Longrightarrow> s \<notin> set NODE_ENV_SCALARS"
    by (auto simp: list_all_iff)
  have "list_all (\<lambda>n. \<not> List.member (map fst NODE_ENV_SECTIONS) n) NODE_ENV_SCALARS" by code_simp
  then show "n \<in> set NODE_ENV_SCALARS \<Longrightarrow> n \<notin> fst ` set NODE_ENV_SECTIONS" by (auto simp: list_all_iff)
  show "distinct (map fst NODE_ENV_SECTIONS)" "distinct NODE_ENV_SCALARS" by code_simp+
qed

lemma node_from_env_steps:
  assumes "node_from_env loads pfx env = Inr data"
  obtains d0 d1 where "merge_config_json loads env pfx [] = Inr d0"
    "apply_overrides node_fields env pfx None [] [] NODE_ENV_SCALARS d0 = Inr d1"
    "load_sections env pfx NODE_ENV_SECTIONS d1 = Inr data"
  using assms that by (auto simp: node_from_env_def split: sum.splits)

lemma load_sections_cong:
  assumes "\<And>s model n a. (s, model) \<in> set sections \<Longrightarrow> (n, a) \<in> set model \<Longrightarrow>
             env (env_key pfx (Some s) n) = env' (env_key pfx (Some s) n)"
  shows "load_sections env pfx sections data = load_sections env' pfx sections data"
  using assms
proof (induction sections arbitrary: data)
  case (Cons sec sections)
  obtain sn md where sec: "sec = (sn, md)" by fastforce
  have here: "apply_overrides md env pfx (Some sn) [] [] (map fst md) d =
              apply_overrides md env' pfx (Some sn) [] [] (map fst md) d" for d
    by (rule apply_overrides_cong) (use Cons.prems sec in \<open>force simp: field_key_def\<close>)
  have there: "load_sections env pfx sections d = load_sections env' pfx sections d" for d
    by (rule Cons.IH) (rule Cons.prems, auto)
  show ?case by (simp add: sec here there cong: sum.case_cong)
qed simp

section \<open>The node\<close>

text \<open>The node's configuration depends on the variables of the inventory alone: whatever else the
  environment holds makes no difference, to the result or to the error.\<close>

theorem only_inventory_matters:
  assumes "\<And>key. key \<in> set (node_env_inventory pfx) \<Longrightarrow> env key = env' key"
  shows "node_from_env loads pfx env = node_from_env loads pfx env'"
proof -
  have "merge_config_json loads env pfx d = merge_config_json loads env' pfx d" for d
    using assms [of "CONFIG_JSON pfx"] by (simp add: merge_config_json_def node_env_inventory_def env_inventory_def)
  moreover have "apply_overrides node_fields env pfx None [] [] NODE_ENV_SCALARS d =
                 apply_overrides node_fields env' pfx None [] [] NODE_ENV_SCALARS d" for d
    by (rule apply_overrides_cong) (simp add: assms node_env_inventory_def env_inventory_def)
  moreover have "load_sections env pfx NODE_ENV_SECTIONS d = load_sections env' pfx NODE_ENV_SECTIONS d" for d
    by (rule load_sections_cong) (force intro!: assms simp: node_env_inventory_def env_inventory_def)
  ultimately show ?thesis by (simp add: node_from_env_def cong: sum.case_cong)
qed

text \<open>C35: The precedence of the sources of a setting: a variable that is present sets its own field to what the
  caster of the field's annotation makes of it, over the CONFIG_JSON blob; a field without a variable keeps
  the blob's value, so no variable sets the field of another section or drops what the blob said.\<close>

theorem variable_sets_its_field:
  assumes "node_from_env loads pfx env = Inr data" "merge_config_json loads env pfx [] = Inr blob"
    "(s, model) \<in> set NODE_ENV_SECTIONS" "(name, ann) \<in> set model" "n \<in> set NODE_ENV_SCALARS"
  shows "section_field data s name =
      (case env (env_key pfx (Some s) name) of
         None \<Rightarrow> section_field blob s name | Some raw \<Rightarrow> field_cast model [] name raw) \<and>
    map_of data n =
      (case env (env_key pfx None n) of None \<Rightarrow> map_of blob n | Some raw \<Rightarrow> field_cast node_fields [] n raw)"
proof
  from assms(1) obtain d0 d1 where steps: "merge_config_json loads env pfx [] = Inr d0"
    "apply_overrides node_fields env pfx None [] [] NODE_ENV_SCALARS d0 = Inr d1"
    "load_sections env pfx NODE_ENV_SECTIONS d1 = Inr data" by (rule node_from_env_steps)
  then have d0: "d0 = blob" using assms(2) by simp
  note steps = steps [unfolded d0]
  have "section_field d1 s name = section_field blob s name"
    using apply_overrides_others [OF steps(2)] node_models_distinct(3) [OF assms(3)] by (simp add: section_field_def)
  moreover have "name \<in> fst ` set model" using assms(4) by force
  ultimately show "section_field data s name =
      (case env (env_key pfx (Some s) name) of
         None \<Rightarrow> section_field blob s name | Some raw \<Rightarrow> field_cast model [] name raw)"
    using load_sections_lookup [OF steps(3) node_models_distinct(1) assms(3) node_models_distinct(2) [OF assms(3)], of name]
    by (simp cong: option.case_cong)
  show "map_of data n =
      (case env (env_key pfx None n) of None \<Rightarrow> map_of blob n | Some raw \<Rightarrow> field_cast node_fields [] n raw)"
    using apply_overrides_lookup [OF steps(2) node_models_distinct(4) assms(5)]
      load_sections_others [OF steps(3) node_models_distinct(5) [OF assms(5)]]
    by (simp add: field_key_def)
qed

text \<open>How the kernel computes a variable's name.\<close>

lemma upper_char_bits [code]:
  "upper_char (Char b0 b1 b2 b3 b4 b5 b6 b7) =
     (if \<not> b7 \<and> b6 \<and> b5 \<and> (b0 \<or> b1 \<or> b2 \<or> b3 \<or> b4) \<and> \<not> (b4 \<and> b3 \<and> (b2 \<or> b1 \<and> b0))
      then Char b0 b1 b2 b3 b4 False b6 b7 else Char b0 b1 b2 b3 b4 b5 b6 b7)"
  by (cases b0; cases b1; cases b2; cases b3; cases b4; cases b5; cases b6; cases b7;
      simp add: upper_char_def code_def char_of_def bit_Suc_0_iff)

text \<open>A title from the blob, a port from a variable, and a variable of another program.\<close>

definition sample_env :: "string \<rightharpoonup> string" where
  "sample_env = map_of [(''MESHSA_CONFIG_JSON'', ''{..}''), (''MESHSA_UI_PORT'', ''8098''), (''MESHSA_UID'', ''base-1'')]"

definition sample_loads :: "string \<Rightarrow> json option" where
  "sample_loads blob = Some (JObj [(''ui'', JObj [(''title'', JStr ''Ops''), (''port'', JInt 1)])])"

definition sample_data :: config_data where
  "sample_data =
     [(''ui'', JObj [(''title'', JStr ''Ops''), (''port'', JInt 8098)]), (''uid'', JStr ''base-1'')]"

lemma sample_node: "node_from_env sample_loads ''MESHSA_'' sample_env = Inr sample_data"
  by code_simp

theorem only_inventory_matters_witness:
  "node_from_env sample_loads ''MESHSA_'' (sample_env(''HOME'' \<mapsto> ''/root'')) = Inr sample_data"
proof -
  have "\<not> List.member (node_env_inventory ''MESHSA_'') ''HOME''" by code_simp
  then have "key \<in> set (node_env_inventory ''MESHSA_'') \<Longrightarrow> (sample_env(''HOME'' \<mapsto> ''/root'')) key = sample_env key" for key
    by auto
  then have "node_from_env sample_loads ''MESHSA_'' (sample_env(''HOME'' \<mapsto> ''/root'')) =
             node_from_env sample_loads ''MESHSA_'' sample_env"
    by (rule only_inventory_matters)
  then show ?thesis by (simp add: sample_node)
qed

theorem variable_sets_its_field_witness:
  "section_field sample_data ''ui'' ''port'' = Some (JInt 8098) \<and>
   section_field sample_data ''ui'' ''title'' = Some (JStr ''Ops'') \<and> map_of sample_data ''uid'' = Some (JStr ''base-1'')"
proof -
  have blob: "merge_config_json sample_loads sample_env ''MESHSA_'' [] =
      Inr [(''ui'', JObj [(''title'', JStr ''Ops''), (''port'', JInt 1)])]" by code_simp
  have ui: "(''ui'', ui_fields) \<in> set NODE_ENV_SECTIONS" by (simp add: NODE_ENV_SECTIONS_def)
  have f: "(''port'', Ann_Int) \<in> set ui_fields" "(''title'', Ann_Str) \<in> set ui_fields" by (simp_all add: ui_fields_def)
  have n: "''uid'' \<in> set NODE_ENV_SCALARS" by (simp add: NODE_ENV_SCALARS_def)
  note facts = variable_sets_its_field [OF sample_node blob ui f(1) n] variable_sets_its_field [OF sample_node blob ui f(2) n]
  have "sample_env (env_key ''MESHSA_'' (Some ''ui'') ''port'') = Some ''8098''"
    "sample_env (env_key ''MESHSA_'' (Some ''ui'') ''title'') = None"
    "sample_env (env_key ''MESHSA_'' None ''uid'') = Some ''base-1''"
    "field_cast ui_fields [] ''port'' ''8098'' = Some (JInt 8098)"
    "field_cast node_fields [] ''uid'' ''base-1'' = Some (JStr ''base-1'')"
    by code_simp+
  with facts show ?thesis by (simp add: section_field_def [of "[(''ui'', JObj [(''title'', JStr ''Ops''), (''port'', JInt 1)])]"])
qed

end
