(* ===== verification/Node_Assembly.thy ===== *)
theory Node_Assembly
  imports Frame_Codecs Mesh_Router Env_Config "HOL-Library.List_Lexorder" "HOL-Library.Char_ord"
begin

text \<open>
  The assembly of a node: the registries (\<^verbatim>\<open>registry.py\<close>) with the plug-ins that fill them
  (\<^verbatim>\<open>plugins.py\<close>), \<^verbatim>\<open>build_node\<close> and the \<^verbatim>\<open>Node\<close> (\<^verbatim>\<open>node.py\<close>), the router's start and stop with its pumps as
  tasks (\<^verbatim>\<open>router.py\<close>), the default codec (\<^verbatim>\<open>codec.py\<close>), and the bridge that the command line builds from
  them (\<^verbatim>\<open>cli.py\<close>).  A transport is a value of the type \<open>'t\<close>; what it does to the world is a parameter.
\<close>

section \<open>Registries\<close>

datatype node_exn =
    DuplicateRegistrationError | UnknownComponentError | Factory_Raised py_exn

type_synonym 'a factory = "config_data \<Rightarrow> node_exn + 'a"
type_synonym 'a registry = "(string \<times> 'a factory) list"

definition register :: "string \<Rightarrow> 'a factory \<Rightarrow> 'a registry \<Rightarrow> node_exn + 'a registry" where
  "register name factory reg =
     (if name \<in> fst ` set reg then Inl DuplicateRegistrationError else Inr (reg @ [(name, factory)]))"

definition registry_has :: "string \<Rightarrow> 'a registry \<Rightarrow> bool" where
  "registry_has name reg \<longleftrightarrow> name \<in> fst ` set reg"

text \<open>The keyword arguments share the call with \<^verbatim>\<open>create\<close>'s own two parameters.\<close>

definition create :: "string \<Rightarrow> config_data \<Rightarrow> 'a registry \<Rightarrow> node_exn + 'a" where
  "create key kwargs reg =
     (if map_of kwargs ''key'' \<noteq> None \<or> map_of kwargs ''self'' \<noteq> None then Inl (Factory_Raised TypeError)
      else case map_of reg key of
        None \<Rightarrow> Inl UnknownComponentError
      | Some factory \<Rightarrow> factory kwargs)"

definition available :: "'a registry \<Rightarrow> string list" where
  "available reg = sort (map fst reg)"

text \<open>An entry point loads by importing a module, which may register components: an action on the world.\<close>

record 'w entry_point =
  ep_name :: string
  ep_load :: "'w \<Rightarrow> (py_exn + unit) \<times> 'w"

fun load_group :: "'w entry_point list \<Rightarrow> string list \<Rightarrow> 'w \<Rightarrow> string list \<times> 'w" where
  "load_group [] loaded w = (loaded, w)"
| "load_group (ep # eps) loaded w =
     (case ep_load ep w of
        (Inl _, w') \<Rightarrow> load_group eps loaded w'
      | (Inr _, w') \<Rightarrow> load_group eps (loaded @ [ep_name ep]) w')"

fun load_groups :: "string list \<Rightarrow> (string \<Rightarrow> 'w entry_point list) \<Rightarrow> string list \<Rightarrow> 'w \<Rightarrow> string list \<times> 'w" where
  "load_groups [] resolve loaded w = (loaded, w)"
| "load_groups (g # gs) resolve loaded w =
     (case load_group (resolve g) loaded w of (loaded', w') \<Rightarrow> load_groups gs resolve loaded' w')"

definition TRANSPORT_GROUP :: string where "TRANSPORT_GROUP = ''meshsa.transports''"
definition CODEC_GROUP :: string where "CODEC_GROUP = ''meshsa.codecs''"

definition load_plugins :: "(string \<Rightarrow> 'w entry_point list) \<Rightarrow> 'w \<Rightarrow> string list \<times> 'w" where
  "load_plugins resolve w = load_groups [TRANSPORT_GROUP, CODEC_GROUP] resolve [] w"

section \<open>The default codec\<close>

definition json_codec ::
  "(envelope \<Rightarrow> codec_exn + bytes) \<Rightarrow> (bytes \<Rightarrow> envelope option) \<Rightarrow> int list \<Rightarrow> wire_codec_fns" where
  "json_codec dump validate supported =
     \<lparr>wc_encode = dump,
      wc_decode = (\<lambda>data.
        case validate data of
          None \<Rightarrow> Inl MeshSAError
        | Some env \<Rightarrow>
            if env_schema_version env \<in> set supported then Inr env else Inl IncompatibleSchemaError)\<rparr>"

section \<open>Building a node\<close>

record transport_config =
  tc_name :: string
  tc_type :: string
  tc_enabled :: bool
  tc_options :: config_data
  tc_codec :: "string option"
  tc_codec_options :: config_data

record node_config =
  nc_uid :: string
  nc_callsign :: string
  nc_tier :: node_tier
  nc_mesh :: config_data
  nc_dedupe_cache_size :: int
  nc_queue_maxsize :: int
  nc_health_enabled :: bool
  nc_health_host :: string
  nc_health_token :: "string option"
  nc_transports :: "transport_config list"

definition kw_setdefault :: "string \<Rightarrow> json \<Rightarrow> config_data \<Rightarrow> config_data" where
  "kw_setdefault k v d = (case map_of d k of None \<Rightarrow> d @ [(k, v)] | Some _ \<Rightarrow> d)"

definition kw_update :: "config_data \<Rightarrow> config_data \<Rightarrow> config_data" where
  "kw_update d new = foldl (\<lambda>d (k, v). AList.update k v d) d new"

definition transport_options ::
  "node_config \<Rightarrow> (string \<rightharpoonup> config_data) \<Rightarrow> transport_config \<Rightarrow> config_data" where
  "transport_options N overrides tc =
     (let kwargs = kw_setdefault ''mesh'' (JObj (nc_mesh N))
                     (kw_setdefault ''queue_maxsize'' (JInt (nc_queue_maxsize N))
                       (AList.update ''name'' (JStr (tc_name tc)) (tc_options tc)))
      in case overrides (tc_name tc) of None \<Rightarrow> kwargs | Some new \<Rightarrow> kw_update kwargs new)"

text \<open>The loop over the configured transports, with the transports and the codecs made so far.\<close>

fun build_transports ::
  "node_config \<Rightarrow> 't registry \<Rightarrow> wire_codec_fns registry \<Rightarrow> (string \<rightharpoonup> config_data) \<Rightarrow> (string \<rightharpoonup> wire_codec_fns) \<Rightarrow>
     transport_config list \<Rightarrow> 't list \<Rightarrow> (string \<times> wire_codec_fns) list \<Rightarrow>
     node_exn + 't list \<times> (string \<times> wire_codec_fns) list" where
  "build_transports N treg creg overrides instances [] ts cs = Inr (ts, cs)"
| "build_transports N treg creg overrides instances (tc # tcs) ts cs =
     (if \<not> tc_enabled tc then build_transports N treg creg overrides instances tcs ts cs
      else if \<not> registry_has (tc_type tc) treg then build_transports N treg creg overrides instances tcs ts cs
      else case create (tc_type tc) (transport_options N overrides tc) treg of
        Inl e \<Rightarrow> Inl e
      | Inr t \<Rightarrow>
          (case instances (tc_name tc) of
             Some c \<Rightarrow>
               build_transports N treg creg overrides instances tcs (ts @ [t]) (AList.update (tc_name tc) c cs)
           | None \<Rightarrow>
               (case tc_codec tc of
                  None \<Rightarrow> build_transports N treg creg overrides instances tcs (ts @ [t]) cs
                | Some name \<Rightarrow>
                    (case create name (tc_codec_options tc) creg of
                       Inl e \<Rightarrow> Inl e
                     | Inr c \<Rightarrow>
                         build_transports N treg creg overrides instances tcs (ts @ [t])
                           (AList.update (tc_name tc) c cs)))))"

record 't node =
  no_transports :: "'t list"
  no_router :: router_config
  no_uid :: string
  no_callsign :: string
  no_tier :: node_tier

text \<open>\<open>name_of\<close> is the attribute \<^verbatim>\<open>name\<close> of a transport, by which the router finds its codec.\<close>

definition build_node ::
  "('t \<Rightarrow> string) \<Rightarrow> 't registry \<Rightarrow> wire_codec_fns registry \<Rightarrow> wire_codec_fns \<Rightarrow> (string \<rightharpoonup> config_data) \<Rightarrow>
     (string \<rightharpoonup> wire_codec_fns) \<Rightarrow> node_config \<Rightarrow> node_exn + 't node" where
  "build_node name_of treg creg codec overrides instances N =
     (case build_transports N treg creg overrides instances (nc_transports N) [] [] of
        Inl e \<Rightarrow> Inl e
      | Inr (ts, cs) \<Rightarrow>
          Inr \<lparr>no_transports = ts,
               no_router = \<lparr>rc_transports = map name_of ts, rc_default_codec = codec, rc_codecs = cs,
                            rc_dedupe_cache_size = nc_dedupe_cache_size N\<rparr>,
               no_uid = nc_uid N, no_callsign = nc_callsign N, no_tier = nc_tier N\<rparr>)"

section \<open>Start and stop\<close>

text \<open>A pump is a task: it runs, it has ended (cancelled, or its stream is over), or an exception ended it.\<close>

datatype pump_status = Pumping | Pump_Over | Pump_Died codec_exn

record router_run =
  rr_router :: router
  rr_pumps :: "(nat \<times> pump_status) list"

definition new_run :: router_run where
  "new_run = \<lparr>rr_router = new_router, rr_pumps = []\<rparr>"

record 'w transport_ops =
  op_start :: "nat \<Rightarrow> 'w \<Rightarrow> (py_exn + unit) \<times> 'w"
  op_stop :: "nat \<Rightarrow> 'w \<Rightarrow> (py_exn + unit) \<times> 'w"
  op_send :: "'w sender"

fun each_transport :: "(nat \<Rightarrow> 'w \<Rightarrow> (py_exn + unit) \<times> 'w) \<Rightarrow> nat list \<Rightarrow> 'w \<Rightarrow> (py_exn + unit) \<times> 'w" where
  "each_transport act [] w = (Inr (), w)"
| "each_transport act (i # is) w =
     (case act i w of (Inl e, w') \<Rightarrow> (Inl e, w') | (Inr _, w') \<Rightarrow> each_transport act is w')"

definition router_start ::
  "'w transport_ops \<Rightarrow> router_config \<Rightarrow> router_run \<Rightarrow> 'w \<Rightarrow> (py_exn + unit) \<times> router_run \<times> 'w" where
  "router_start ops C R w =
     (let n = length (rc_transports C)
      in case each_transport (op_start ops) [0..<n] w of
           (Inl e, w') \<Rightarrow> (Inl e, R, w')
         | (Inr _, w') \<Rightarrow> (Inr (), R\<lparr>rr_pumps := rr_pumps R @ map (\<lambda>i. (i, Pumping)) [0..<n]\<rparr>, w'))"

text \<open>A frame reaches pump \<open>k\<close>.\<close>

definition pump_event ::
  "router_config \<Rightarrow> 'w sender \<Rightarrow> nat \<times> bytes \<Rightarrow> router_run \<times> 'w \<Rightarrow> router_run \<times> 'w" where
  "pump_event C send ev = (\<lambda>(R, w).
     case ev of (k, data) \<Rightarrow>
       if k < length (rr_pumps R) \<and> snd (rr_pumps R ! k) = Pumping then
         (let src = fst (rr_pumps R ! k)
          in case pump_frame C send src data (rr_router R) w of
               (Inr _, r, w') \<Rightarrow> (R\<lparr>rr_router := r\<rparr>, w')
             | (Inl e, r, w') \<Rightarrow> (R\<lparr>rr_router := r, rr_pumps := (rr_pumps R)[k := (src, Pump_Died e)]\<rparr>, w'))
       else (R, w))"

definition pump_events ::
  "router_config \<Rightarrow> 'w sender \<Rightarrow> (nat \<times> bytes) list \<Rightarrow> router_run \<times> 'w \<Rightarrow> router_run \<times> 'w" where
  "pump_events C send evs s = foldl (\<lambda>s ev. pump_event C send ev s) s evs"

text \<open>Awaiting a cancelled task is silent, awaiting a dead one raises what killed it.\<close>

definition cancel_pump :: "nat \<times> pump_status \<Rightarrow> nat \<times> pump_status" where
  "cancel_pump p = (fst p, case snd p of Pump_Died e \<Rightarrow> Pump_Died e | _ \<Rightarrow> Pump_Over)"

fun await_pumps :: "(nat \<times> pump_status) list \<Rightarrow> codec_exn + unit" where
  "await_pumps [] = Inr ()"
| "await_pumps (p # ps) = (case snd p of Pump_Died e \<Rightarrow> Inl e | _ \<Rightarrow> await_pumps ps)"

definition router_stop ::
  "'w transport_ops \<Rightarrow> router_config \<Rightarrow> router_run \<Rightarrow> 'w \<Rightarrow> (codec_exn + unit) \<times> router_run \<times> 'w" where
  "router_stop ops C R w =
     (let pumps = map cancel_pump (rr_pumps R)
      in case await_pumps pumps of
           Inl e \<Rightarrow> (Inl e, R\<lparr>rr_pumps := pumps\<rparr>, w)
         | Inr _ \<Rightarrow>
             (case each_transport (op_stop ops) [0..<length (rc_transports C)] w of
                (Inl e, w') \<Rightarrow> (Inl (CodecRaised e), R\<lparr>rr_pumps := []\<rparr>, w')
              | (Inr _, w') \<Rightarrow> (Inr (), R\<lparr>rr_pumps := []\<rparr>, w')))"

text \<open>The node starts and stops its inference service around the router, when it has one.\<close>

record 'w inference_ops =
  inf_start :: "'w \<Rightarrow> (py_exn + unit) \<times> 'w"
  inf_stop :: "'w \<Rightarrow> (py_exn + unit) \<times> 'w"

definition node_start ::
  "'w inference_ops option \<Rightarrow> 'w transport_ops \<Rightarrow> router_config \<Rightarrow> router_run \<Rightarrow> 'w \<Rightarrow> (py_exn + unit) \<times> router_run \<times> 'w" where
  "node_start service ops C R w =
     (case router_start ops C R w of
        (Inl e, R', w') \<Rightarrow> (Inl e, R', w')
      | (Inr _, R', w') \<Rightarrow>
          (case service of
             None \<Rightarrow> (Inr (), R', w')
           | Some s \<Rightarrow> (case inf_start s w' of (res, w'') \<Rightarrow> (res, R', w''))))"

definition node_stop ::
  "'w inference_ops option \<Rightarrow> 'w transport_ops \<Rightarrow> router_config \<Rightarrow> router_run \<Rightarrow> 'w \<Rightarrow> (codec_exn + unit) \<times> router_run \<times> 'w" where
  "node_stop service ops C R w =
     (case service of
        None \<Rightarrow> router_stop ops C R w
      | Some s \<Rightarrow>
          (case inf_stop s w of
             (Inl e, w') \<Rightarrow> (Inl (CodecRaised e), R, w')
           | (Inr _, w') \<Rightarrow> router_stop ops C R w'))"

section \<open>Publishing\<close>

definition node_envelope ::
  "'t node \<Rightarrow> string \<Rightarrow> pyfloat \<Rightarrow> message_kind \<Rightarrow> (string \<times> json) list \<Rightarrow> envelope" where
  "node_envelope N new_id now kind payload =
     \<lparr>env_schema_version = SCHEMA_VERSION, env_msg_id = new_id, env_ts = now, env_source_uid = no_uid N,
      env_kind = kind, env_payload = payload\<rparr>"

definition tier_value :: "node_tier \<Rightarrow> string" where
  "tier_value t = (case t of TierUser \<Rightarrow> ''user'' | TierBackbone \<Rightarrow> ''backbone'' | TierBase \<Rightarrow> ''base'')"

definition dump_node_info :: "'t node \<Rightarrow> json" where
  "dump_node_info N =
     JObj [(''uid'', JStr (no_uid N)), (''callsign'', JStr (no_callsign N)), (''tier'', JStr (tier_value (no_tier N)))]"

definition publish_position ::
  "'t node \<Rightarrow> 'w sender \<Rightarrow> string \<Rightarrow> pyfloat \<Rightarrow> position \<Rightarrow> router \<Rightarrow> 'w \<Rightarrow> (codec_exn + envelope) \<times> router \<times> 'w" where
  "publish_position N send new_id now p r w =
     (let env = node_envelope N new_id now Pli
                  [(''node'', dump_node_info N), (''position'', JObj (dump_position p))]
      in case publish (no_router N) send env r w of
           (Inl e, r', w') \<Rightarrow> (Inl e, r', w') | (Inr _, r', w') \<Rightarrow> (Inr env, r', w'))"

definition publish_chat ::
  "'t node \<Rightarrow> 'w sender \<Rightarrow> string \<Rightarrow> pyfloat \<Rightarrow> string \<Rightarrow> string option \<Rightarrow> router \<Rightarrow> 'w \<Rightarrow> (codec_exn + envelope) \<times> router \<times> 'w" where
  "publish_chat N send new_id now body to r w =
     (let env = node_envelope N new_id now Chat
                  [(''text'', JStr body), (''to'', case to of None \<Rightarrow> JNull | Some s \<Rightarrow> JStr s)]
      in case publish (no_router N) send env r w of
           (Inl e, r', w') \<Rightarrow> (Inl e, r', w') | (Inr _, r', w') \<Rightarrow> (Inr env, r', w'))"

section \<open>The bridge of the command line\<close>

record bridge_args =
  ba_port :: string
  ba_portnum :: int
  ba_region :: string
  ba_fts_host :: string
  ba_fts_port :: int
  ba_uid :: string
  ba_callsign :: string
  ba_stale :: pyfloat
  ba_delimiter :: string
  ba_health :: bool
  ba_healthz_host :: string

text \<open>\<^verbatim>\<open>build_config\<close>, with the defaults of the configuration model filled in: no token, the router's sizes.\<close>

definition build_config :: "bridge_args \<Rightarrow> node_config" where
  "build_config a =
     \<lparr>nc_uid = ba_uid a, nc_callsign = ba_callsign a, nc_tier = TierBase,
      nc_mesh = [(''channel'', JStr ''default''), (''psk'', JNull), (''region'', JStr (ba_region a)), (''freq_khz'', JNull)],
      nc_dedupe_cache_size = 2048, nc_queue_maxsize = 1000,
      nc_health_enabled = ba_health a, nc_health_host = ba_healthz_host a, nc_health_token = None,
      nc_transports =
        [\<lparr>tc_name = ''mesh'', tc_type = ''meshtastic'', tc_enabled = True,
          tc_options = [(''connection'', JStr ''serial''), (''port'', JStr (ba_port a)), (''portnum'', JInt (ba_portnum a))],
          tc_codec = Some ''compact'', tc_codec_options = []\<rparr>,
         \<lparr>tc_name = ''tak'', tc_type = ''tak_tcp'', tc_enabled = True,
          tc_options = [(''host'', JStr (ba_fts_host a)), (''port'', JInt (ba_fts_port a)),
            (''delimiter'', JStr (ba_delimiter a)), (''reconnect'', JBool True)],
          tc_codec = Some ''cot'', tc_codec_options = [(''stale_s'', JFloat (ba_stale a))]\<rparr>]\<rparr>"

text \<open>\<^verbatim>\<open>run\<close>, up to the publishing loop: the node is built, then the health listener's bind is checked, then
  the node starts.\<close>

datatype bridge_exn = Bridge_Config node_exn | SystemExit | Bridge_Start py_exn

definition bridge_run ::
  "(node_config \<Rightarrow> node_exn + 't node) \<Rightarrow> 'w transport_ops \<Rightarrow> bridge_args \<Rightarrow> 'w \<Rightarrow> (bridge_exn + 't node \<times> router_run) \<times> 'w" where
  "bridge_run build ops a w =
     (let N = build_config a
      in case build N of
           Inl e \<Rightarrow> (Inl (Bridge_Config e), w)
         | Inr node \<Rightarrow>
             if nc_health_enabled N \<and> validate_bind (nc_health_host N) (nc_health_token N) \<noteq> Inr () then (Inl SystemExit, w)
             else (case node_start None ops (no_router node) new_run w of
                     (Inl e, _, w') \<Rightarrow> (Inl (Bridge_Start e), w')
                   | (Inr _, R, w') \<Rightarrow> (Inr (node, R), w')))"

end
