(* ===== verification/Node_Facts.thy ===== *)
theory Node_Facts
  imports Node_Assembly
begin

text \<open>
  What the assembly promises: the wiring of a built node, what a stop does after a pump has died, and the
  fate of a node's own messages when the mesh echoes them.
\<close>

section \<open>The wiring\<close>

definition wanted :: "'t registry \<Rightarrow> transport_config list \<Rightarrow> transport_config list" where
  "wanted treg tcs = filter (\<lambda>tc. tc_enabled tc \<and> registry_has (tc_type tc) treg) tcs"

text \<open>The codec that a configured transport gets: an injected instance, else the configured one, else none.\<close>

definition wired ::
  "wire_codec_fns registry \<Rightarrow> (string \<rightharpoonup> wire_codec_fns) \<Rightarrow> transport_config \<Rightarrow> wire_codec_fns option \<Rightarrow> bool" where
  "wired creg instances tc oc =
     (case instances (tc_name tc) of
        Some c \<Rightarrow> oc = Some c
      | None \<Rightarrow>
          (case tc_codec tc of
             None \<Rightarrow> oc = None
           | Some name \<Rightarrow> (case create name (tc_codec_options tc) creg of Inl _ \<Rightarrow> False | Inr c \<Rightarrow> oc = Some c)))"

lemma wanted_simps [simp]:
  "wanted treg [] = []"
  "wanted treg (tc # tcs) =
     (if tc_enabled tc \<and> registry_has (tc_type tc) treg then tc # wanted treg tcs else wanted treg tcs)"
  by (simp_all add: wanted_def)

lemma build_transports_skip:
  "\<not> (tc_enabled tc \<and> registry_has (tc_type tc) treg) \<Longrightarrow>
   build_transports N treg creg overrides instances (tc # tcs) ts cs =
   build_transports N treg creg overrides instances tcs ts cs"
  by simp

lemma build_transports_made:
  assumes "build_transports N treg creg overrides instances (tc # tcs) ts cs = Inr made"
    "tc_enabled tc" "registry_has (tc_type tc) treg"
  obtains t oc where "create (tc_type tc) (transport_options N overrides tc) treg = Inr t"
    "wired creg instances tc oc"
    "build_transports N treg creg overrides instances tcs (ts @ [t])
       (case oc of None \<Rightarrow> cs | Some c \<Rightarrow> AList.update (tc_name tc) c cs) = Inr made"
proof (cases "create (tc_type tc) (transport_options N overrides tc) treg")
  case (Inr t)
  show thesis
  proof (cases "instances (tc_name tc)")
    case None
    show thesis
    proof (cases "tc_codec tc")
      case None
      with assms Inr \<open>instances (tc_name tc) = None\<close> show thesis
        by (intro that [of t None]) (simp_all add: wired_def)
    next
      case (Some name)
      with assms Inr \<open>instances (tc_name tc) = None\<close> obtain c where "create name (tc_codec_options tc) creg = Inr c"
        by (auto split: sum.splits)
      with assms Inr Some \<open>instances (tc_name tc) = None\<close> show thesis
        by (intro that [of t "Some c"]) (simp_all add: wired_def)
    qed
  next
    case (Some c)
    with assms Inr show thesis by (intro that [of t "Some c"]) (simp_all add: wired_def)
  qed
qed (use assms in simp)

lemma build_transports_list:
  assumes "build_transports N treg creg overrides instances tcs ts cs = Inr (ts', cs')"
  shows "\<exists>new. ts' = ts @ new \<and>
    list_all2 (\<lambda>tc t. create (tc_type tc) (transport_options N overrides tc) treg = Inr t) (wanted treg tcs) new"
  using assms
proof (induction tcs arbitrary: ts cs)
  case (Cons tc tcs)
  show ?case
  proof (cases "tc_enabled tc \<and> registry_has (tc_type tc) treg")
    case True
    then obtain t cs1 where t: "create (tc_type tc) (transport_options N overrides tc) treg = Inr t"
      and rest: "build_transports N treg creg overrides instances tcs (ts @ [t]) cs1 = Inr (ts', cs')"
      using build_transports_made [OF Cons.prems] by metis
    from Cons.IH [OF rest] obtain new where "ts' = ts @ t # new"
      "list_all2 (\<lambda>tc t. create (tc_type tc) (transport_options N overrides tc) treg = Inr t) (wanted treg tcs) new" by auto
    with t True show ?thesis by (intro exI [of _ "t # new"]) simp
  next
    case False
    with Cons.prems have "build_transports N treg creg overrides instances tcs ts cs = Inr (ts', cs')"
      by (simp add: build_transports_skip del: build_transports.simps)
    from Cons.IH [OF this] False show ?thesis by auto
  qed
qed simp

lemma build_transports_codecs:
  assumes "build_transports N treg creg overrides instances tcs ts cs = Inr (ts', cs')"
    "distinct (map tc_name (wanted treg tcs))"
  shows "n \<notin> tc_name ` set (wanted treg tcs) \<Longrightarrow> map_of cs' n = map_of cs n"
    "tc \<in> set (wanted treg tcs) \<Longrightarrow> map_of cs (tc_name tc) = None \<Longrightarrow> wired creg instances tc (map_of cs' (tc_name tc))"
proof -
  have "(n \<notin> tc_name ` set (wanted treg tcs) \<longrightarrow> map_of cs' n = map_of cs n) \<and>
    (tc \<in> set (wanted treg tcs) \<longrightarrow> map_of cs (tc_name tc) = None \<longrightarrow> wired creg instances tc (map_of cs' (tc_name tc)))"
    for n tc
    using assms
  proof (induction tcs arbitrary: ts cs n tc)
    case (Cons c tcs)
    show ?case
    proof (cases "tc_enabled c \<and> registry_has (tc_type c) treg")
      case True
      then obtain t oc where oc: "wired creg instances c oc" and
        rest: "build_transports N treg creg overrides instances tcs (ts @ [t])
          (case oc of None \<Rightarrow> cs | Some d \<Rightarrow> AList.update (tc_name c) d cs) = Inr (ts', cs')"
        using build_transports_made [OF Cons.prems(1)] by metis
      have d: "distinct (map tc_name (wanted treg tcs))" "tc_name c \<notin> tc_name ` set (wanted treg tcs)"
        using Cons.prems(2) True by auto
      note IH = Cons.IH [OF rest d(1)]
      define cs1 where "cs1 = (case oc of None \<Rightarrow> cs | Some d \<Rightarrow> AList.update (tc_name c) d cs)"
      have here: "x \<noteq> tc_name c \<Longrightarrow> map_of cs1 x = map_of cs x"
        "map_of cs (tc_name c) = None \<Longrightarrow> map_of cs1 (tc_name c) = oc" for x
        by (cases oc; simp add: cs1_def update_conv')+
      note IH = IH [folded cs1_def]
      have made: "wired creg instances c (map_of cs' (tc_name c))" if "map_of cs (tc_name c) = None"
        using IH [of "tc_name c" c] d(2) here(2) [OF that] oc by simp
      show ?thesis
      proof (intro conjI impI)
        assume "n \<notin> tc_name ` set (wanted treg (c # tcs))"
        with True IH [of n tc] here(1) [of n] show "map_of cs' n = map_of cs n" by simp
      next
        assume tc: "tc \<in> set (wanted treg (c # tcs))" "map_of cs (tc_name tc) = None"
        show "wired creg instances tc (map_of cs' (tc_name tc))"
        proof (cases "tc \<in> set (wanted treg tcs)")
          case True
          with d(2) have "tc_name tc \<noteq> tc_name c" by (metis image_eqI)
          with True tc(2) here(1) IH [of n tc] show ?thesis by simp
        qed (use tc made True in auto)
      qed
    next
      case False
      with Cons.prems have "build_transports N treg creg overrides instances tcs ts cs = Inr (ts', cs')"
        by (simp add: build_transports_skip del: build_transports.simps)
      moreover have "wanted treg (c # tcs) = wanted treg tcs" by (simp only: wanted_simps False if_False)
      ultimately show ?thesis using Cons.IH Cons.prems(2) by presburger
    qed
  qed simp
  then show "n \<notin> tc_name ` set (wanted treg tcs) \<Longrightarrow> map_of cs' n = map_of cs n"
    "tc \<in> set (wanted treg tcs) \<Longrightarrow> map_of cs (tc_name tc) = None \<Longrightarrow> wired creg instances tc (map_of cs' (tc_name tc))"
    by blast+
qed

text \<open>What the factory of a transport is called with.\<close>

lemma transport_options_lookup:
  assumes "overrides (tc_name tc) = None"
  shows "map_of (transport_options N overrides tc) k =
    (if k = ''name'' then Some (JStr (tc_name tc))
     else case map_of (tc_options tc) k of
       Some v \<Rightarrow> Some v
     | None \<Rightarrow> if k = ''queue_maxsize'' then Some (JInt (nc_queue_maxsize N))
               else if k = ''mesh'' then Some (JObj (nc_mesh N)) else None)"
  using assms
  by (auto simp: transport_options_def kw_setdefault_def update_conv' map_add_def split: option.splits)

text \<open>C20: A built node has one transport for every enabled entry of a known type, in the order of the
  configuration: disabled entries and unknown types are left out and do not fail the build.  When nothing is
  overridden by the caller, each factory got exactly the entry's options with its name, and the node's queue size and
  mesh settings where the entry had none; and when the names differ and the transports carry them, the router uses for each the injected
  codec, else the configured one, else the node's default.\<close>

theorem node_wires_transports:
  assumes "build_node name_of treg creg codec (\<lambda>_. None) instances N = Inr node"
    "\<And>tc t. tc \<in> set (wanted treg (nc_transports N)) \<Longrightarrow>
       create (tc_type tc) (transport_options N (\<lambda>_. None) tc) treg = Inr t \<Longrightarrow> name_of t = tc_name tc"
    "distinct (map tc_name (wanted treg (nc_transports N)))"
  shows "length (no_transports node) = length (wanted treg (nc_transports N)) \<and>
    (\<forall>i < length (no_transports node). let tc = wanted treg (nc_transports N) ! i in \<exists>kwargs.
       create (tc_type tc) kwargs treg = Inr (no_transports node ! i) \<and>
       (\<forall>k. map_of kwargs k =
          (if k = ''name'' then Some (JStr (tc_name tc))
           else case map_of (tc_options tc) k of
             Some v \<Rightarrow> Some v
           | None \<Rightarrow> if k = ''queue_maxsize'' then Some (JInt (nc_queue_maxsize N))
                     else if k = ''mesh'' then Some (JObj (nc_mesh N)) else None)) \<and>
       (\<exists>oc. wired creg instances tc oc \<and>
          codec_for (no_router node) i = (case oc of None \<Rightarrow> codec | Some c \<Rightarrow> c)))"
proof -
  obtain ts cs where b: "build_transports N treg creg (\<lambda>_. None) instances (nc_transports N) [] [] = Inr (ts, cs)"
    and node: "no_transports node = ts" "rc_transports (no_router node) = map name_of ts"
      "rc_default_codec (no_router node) = codec" "rc_codecs (no_router node) = cs"
    using assms(1) by (auto simp: build_node_def split: sum.splits)
  let ?W = "wanted treg (nc_transports N)"
  have all: "list_all2 (\<lambda>tc t. create (tc_type tc) (transport_options N (\<lambda>_. None) tc) treg = Inr t) ?W ts"
    using build_transports_list [OF b] by simp
  note codecs = build_transports_codecs(2) [OF b assms(3)]
  show ?thesis
  proof (intro conjI allI impI)
    show "length (no_transports node) = length ?W" using all node(1) by (simp add: list_all2_lengthD)
  next
    fix i assume "i < length (no_transports node)"
    then have i: "i < length ?W" "i < length ts" using all node(1) by (simp_all add: list_all2_lengthD)
    then have made: "create (tc_type (?W ! i)) (transport_options N (\<lambda>_. None) (?W ! i)) treg = Inr (ts ! i)"
      using list_all2_nthD [OF all i(1)] by simp
    then have name: "name_of (ts ! i) = tc_name (?W ! i)" using assms(2) i(1) by (meson nth_mem)
    have "wired creg instances (?W ! i) (map_of cs (tc_name (?W ! i)))" using codecs i(1) by simp
    with made name i(2) node show "let tc = ?W ! i in \<exists>kwargs.
       create (tc_type tc) kwargs treg = Inr (no_transports node ! i) \<and>
       (\<forall>k. map_of kwargs k =
          (if k = ''name'' then Some (JStr (tc_name tc))
           else case map_of (tc_options tc) k of
             Some v \<Rightarrow> Some v
           | None \<Rightarrow> if k = ''queue_maxsize'' then Some (JInt (nc_queue_maxsize N))
                     else if k = ''mesh'' then Some (JObj (nc_mesh N)) else None)) \<and>
       (\<exists>oc. wired creg instances tc oc \<and>
          codec_for (no_router node) i = (case oc of None \<Rightarrow> codec | Some c \<Rightarrow> c))"
      unfolding Let_def
      by (intro exI [of _ "transport_options N (\<lambda>_. None) (?W ! i)"] conjI exI [of _ "map_of cs (tc_name (?W ! i))"])
        (simp_all add: transport_options_lookup codec_for_def cong: option.case_cong)
  qed
qed

section \<open>Stopping\<close>

lemma pump_events_simps [simp]:
  "pump_events C send [] s = s"
  "pump_events C send (ev # evs) s = pump_events C send evs (pump_event C send ev s)"
  by (simp_all add: pump_events_def)

lemma pump_event_keeps:
  assumes "pump_event C send ev (R, w) = (R', w')"
  shows "length (rr_pumps R') = length (rr_pumps R) \<and>
    (\<forall>k e. k < length (rr_pumps R) \<and> snd (rr_pumps R ! k) = Pump_Died e \<longrightarrow> rr_pumps R' ! k = rr_pumps R ! k)"
  using assms
  by (auto simp: pump_event_def Let_def nth_list_update split: prod.splits if_splits sum.splits)

lemma pump_events_keep:
  assumes "pump_events C send evs (R, w) = (R', w')"
  shows "length (rr_pumps R') = length (rr_pumps R) \<and>
    (\<forall>k e. k < length (rr_pumps R) \<and> snd (rr_pumps R ! k) = Pump_Died e \<longrightarrow> rr_pumps R' ! k = rr_pumps R ! k)"
  using assms
proof (induction evs arbitrary: R w)
  case (Cons ev evs)
  obtain R1 w1 where s: "pump_event C send ev (R, w) = (R1, w1)" by fastforce
  with Cons.prems have "pump_events C send evs (R1, w1) = (R', w')" by simp
  from Cons.IH [OF this] pump_event_keeps [OF s] show ?case by metis
qed simp

lemma await_died:
  assumes "k < length ps" "snd (ps ! k) = Pump_Died e"
  shows "\<exists>e'. await_pumps (map cancel_pump ps) = Inl e'"
  using assms
proof (induction ps arbitrary: k)
  case (Cons p ps)
  then show ?case by (cases k; cases "snd p") (auto simp: cancel_pump_def)
qed simp

lemma await_alive:
  "list_all (\<lambda>p. snd p = Pumping) ps \<Longrightarrow> await_pumps (map cancel_pump ps) = Inr ()"
  by (induction ps) (auto simp: cancel_pump_def)

lemma cancel_idem [simp]: "cancel_pump (cancel_pump p) = cancel_pump p"
  by (simp add: cancel_pump_def split: pump_status.split)

text \<open>A frame of a pump that runs fails: the forwarding raises, and the pump dies.\<close>

lemma failing_frame_kills:
  assumes "k < length (rr_pumps R)" "rr_pumps R ! k = (src, Pumping)"
    "pump_frame C send src data (rr_router R) w = (Inl e, r, w')"
  shows "pump_event C send (k, data) (R, w) =
    (R\<lparr>rr_router := r, rr_pumps := (rr_pumps R)[k := (src, Pump_Died e)]\<rparr>, w')"
  using assms by (simp add: pump_event_def)

text \<open>C19: One failed forward is enough to break the shutdown: if during a run a single frame raises in the pump
  that took it (a transport that cannot send, a codec that cannot encode), then every later stop of the
  router raises, before it has stopped one transport, and so does every repetition of it.\<close>

theorem failed_forward_blocks_stop:
  assumes "router_start ops C new_run w0 = (Inr (), R0, w1)"
    "pump_events C (op_send ops) before (R0, w1) = (R1, w2)"
    "k < length (rr_pumps R1)" "rr_pumps R1 ! k = (src, Pumping)"
    "pump_frame C (op_send ops) src data (rr_router R1) w2 = (Inl e, r, w3)"
    "pump_events C (op_send ops) ((k, data) # later) (R1, w2) = (R2, w4)"
    "router_stop ops C R2 w4 = (res, R3, w5)" "router_stop ops C R3 w6 = (res', R4, w7)"
  shows "\<exists>e'. res = Inl e' \<and> w5 = w4 \<and> res' = Inl e' \<and> w7 = w6 \<and> rr_pumps R3 \<noteq> []"
proof -
  have "pump_events C (op_send ops) later (R1\<lparr>rr_router := r, rr_pumps := (rr_pumps R1)[k := (src, Pump_Died e)]\<rparr>, w3) = (R2, w4)"
    using assms(6) failing_frame_kills [OF assms(3-5)] by simp
  from pump_events_keep [OF this] assms(3) have dead: "k < length (rr_pumps R2)" "snd (rr_pumps R2 ! k) = Pump_Died e"
    by auto
  then obtain e' where "await_pumps (map cancel_pump (rr_pumps R2)) = Inl e'" using await_died by blast
  then have stop: "router_stop ops C R2 w = (Inl e', R2\<lparr>rr_pumps := map cancel_pump (rr_pumps R2)\<rparr>, w)"
    "router_stop ops C (R2\<lparr>rr_pumps := map cancel_pump (rr_pumps R2)\<rparr>) w =
       (Inl e', R2\<lparr>rr_pumps := map cancel_pump (rr_pumps R2)\<rparr>, w)" for w
    by (simp_all add: router_stop_def Let_def o_def)
  with assms(7,8) dead(1) show ?thesis by auto
qed

text \<open>Without a dead pump the stop reaches every transport and forgets the pumps.\<close>

lemma clean_stop:
  assumes "list_all (\<lambda>p. snd p = Pumping) (rr_pumps R)"
    "each_transport (op_stop ops) [0..<length (rc_transports C)] w = (Inr (), w')"
  shows "router_stop ops C R w = (Inr (), R\<lparr>rr_pumps := []\<rparr>, w')"
  using assms by (simp add: router_stop_def await_alive)

section \<open>A node's own messages\<close>

text \<open>\<open>recent m j seen\<close>: at most \<open>j\<close> ids were remembered after \<open>m\<close>.\<close>

definition recent :: "string \<Rightarrow> nat \<Rightarrow> string list \<Rightarrow> bool" where
  "recent m j seen \<longleftrightarrow> (\<exists>a b. seen = a @ m # b \<and> length b \<le> j)"

lemma recent_mono: "recent m j seen \<Longrightarrow> j \<le> j' \<Longrightarrow> recent m j' seen"
  unfolding recent_def by (blast intro: order_trans)

lemma recent_mem: "recent m j seen \<Longrightarrow> m \<in> set seen"
  by (auto simp: recent_def)

lemma recent_drop:
  assumes "recent m j seen" "int j < cap"
  shows "recent m j (drop (length seen - nat cap) seen)"
proof -
  from assms(1) obtain a b where ab: "seen = a @ m # b" "length b \<le> j" by (auto simp: recent_def)
  then have "length seen - nat cap \<le> length a" using assms(2) by (simp add: nat_less_iff)
  with ab show ?thesis unfolding recent_def
    by (intro exI [of _ "drop (length seen - nat cap) a"] exI [of _ b]) simp
qed

lemma mark_seen_recent:
  assumes "recent m j seen" "int (Suc j) < cap" "mark_seen cap m' seen = Inr (b, seen')"
  shows "recent m (Suc j) seen'"
proof (cases "m' \<in> set seen")
  case True
  with assms show ?thesis by (auto simp: mark_seen_ok intro: recent_mono)
next
  case False
  from assms(1) obtain a b where "seen = a @ m # b" "length b \<le> j" by (auto simp: recent_def)
  then have "recent m (Suc j) (seen @ [m'])"
    unfolding recent_def by (intro exI [of _ a] exI [of _ "b @ [m']"]) simp
  from recent_drop [OF this assms(2)] False assms(2,3) show ?thesis by (simp add: mark_seen_ok del: drop_append)
qed

lemma pump_event_recent:
  assumes "recent m j (ro_seen (rr_router R))" "int (Suc j) < rc_dedupe_cache_size C"
    "pump_event C send ev (R, w) = (R', w')"
  shows "recent m (Suc j) (ro_seen (rr_router R'))"
proof -
  obtain k data where ev: "ev = (k, data)" by fastforce
  have mono: "recent m (Suc j) (ro_seen (rr_router R))" using assms(1) by (rule recent_mono) simp
  show ?thesis
  proof (cases "k < length (rr_pumps R) \<and> snd (rr_pumps R ! k) = Pumping")
    case True
    obtain res r' w2 where f: "pump_frame C send (fst (rr_pumps R ! k)) data (rr_router R) w = (res, r', w2)"
      by (cases "pump_frame C send (fst (rr_pumps R ! k)) data (rr_router R) w") auto
    have "rr_router R' = r'" using assms(3) ev True f by (cases res) (auto simp: pump_event_def)
    with pump_frame_seen [OF f] mono mark_seen_recent [OF assms(1,2)] show ?thesis by auto
  next
    case False
    with assms(3) ev mono show ?thesis by (simp add: pump_event_def)
  qed
qed

lemma pump_events_recent:
  assumes "recent m j (ro_seen (rr_router R))" "int (j + length evs) < rc_dedupe_cache_size C"
    "pump_events C send evs (R, w) = (R', w')"
  shows "m \<in> set (ro_seen (rr_router R'))"
  using assms
proof (induction evs arbitrary: R w j)
  case Nil
  then show ?case by (auto dest: recent_mem)
next
  case (Cons ev evs)
  obtain R1 w1 where s: "pump_event C send ev (R, w) = (R1, w1)" by fastforce
  have "recent m (Suc j) (ro_seen (rr_router R1))"
    by (rule pump_event_recent [OF Cons.prems(1) _ s]) (use Cons.prems(2) in simp)
  with Cons.IH [of "Suc j" R1 w1] Cons.prems s show ?case by simp
qed

lemma publish_recent:
  assumes "publish C send env r w = (res, r', w')" "env_msg_id env \<notin> set (ro_seen r)" "0 < rc_dedupe_cache_size C"
  shows "recent (env_msg_id env) 0 (ro_seen r')"
proof -
  have "recent (env_msg_id env) 0 (drop (Suc (length (ro_seen r)) - nat (rc_dedupe_cache_size C)) (ro_seen r @ [env_msg_id env]))"
    using recent_drop [of "env_msg_id env" 0 "ro_seen r @ [env_msg_id env]" "rc_dedupe_cache_size C"] assms(3)
    by (force simp: recent_def)
  moreover have "mark_seen (rc_dedupe_cache_size C) (env_msg_id env) (ro_seen r) =
      Inr (True, drop (Suc (length (ro_seen r)) - nat (rc_dedupe_cache_size C)) (ro_seen r @ [env_msg_id env]))"
    using assms(2,3) by (simp add: mark_seen_ok del: drop_append)
  ultimately show ?thesis using assms(1) by (auto simp: publish_def simp del: drop_append split: prod.splits)
qed

text \<open>C18: A node does not hear itself: once it has published a position under a new id, then while fewer frames
  came in than its cache of ids holds, a frame from any transport whose decoded message carries that id
  is counted and goes no further: no subscriber sees it, nothing is sent, and the pump lives on.\<close>

theorem own_position_stays_out:
  assumes "publish_position N send new_id now p (rr_router R) w = (res, r1, w1)"
    "new_id \<notin> set (ro_seen (rr_router R))"
    "pump_events (no_router N) send evs (R\<lparr>rr_router := r1\<rparr>, w1) = (R2, w2)"
    "int (length evs) < rc_dedupe_cache_size (no_router N)"
    "wc_decode (codec_for (no_router N) src) data = Inr env" "env_msg_id env = new_id"
  shows "pump_frame (no_router N) send src data (rr_router R2) w2 =
    (Inr (), (rr_router R2)\<lparr>ro_metrics := (ro_metrics (rr_router R2))\<lparr>rx := Suc (rx (ro_metrics (rr_router R2)))\<rparr>\<rparr>, w2)"
proof -
  obtain env0 res0 where "publish (no_router N) send env0 (rr_router R) w = (res0, r1, w1)" "env_msg_id env0 = new_id"
    using assms(1) by (auto simp: publish_position_def node_envelope_def Let_def split: prod.splits sum.splits)
  with assms(2,4) have "recent new_id 0 (ro_seen r1)" using publish_recent by (metis of_nat_0_le_iff le_less_trans)
  then have "new_id \<in> set (ro_seen (rr_router R2))"
    using assms(3,4) by (intro pump_events_recent [of new_id 0 "R\<lparr>rr_router := r1\<rparr>" evs _ send w1]) simp_all
  then show ?thesis using assms(5,6) by (metis pump_frame_duplicate)
qed

section \<open>The bridge's health listener\<close>

text \<open>The bridge has no way to configure a token, so with a health listener it starts on the loopback only;
  for any other host it exits before anything was started, whatever the environment holds.\<close>

lemma bridge_health_needs_loopback:
  assumes "bridge_run build ops a w = (res, w')" "ba_health a" "\<not> is_loopback (ba_healthz_host a)"
  shows "w' = w \<and> (res = Inl SystemExit \<or> (\<exists>e. res = Inl (Bridge_Config e)))"
  using assms
  by (auto simp: bridge_run_def build_config_def Let_def validate_bind_def falsy_def split: sum.splits)

section \<open>Concrete nodes\<close>

definition probe :: envelope where
  "probe = \<lparr>env_schema_version = 1, env_msg_id = ''p1'', env_ts = Fin 0, env_source_uid = ''n1'', env_kind = Chat, env_payload = []\<rparr>"

definition probe_codec :: "byte \<Rightarrow> wire_codec_fns" where
  "probe_codec b = \<lparr>wc_encode = (\<lambda>_. Inr [b]), wc_decode = (\<lambda>_. Inr probe)\<rparr>"

text \<open>Transports that are their names, a registry without the radio's driver, and three codecs.\<close>

definition name_factory :: "string factory" where
  "name_factory kwargs = (case map_of kwargs ''name'' of Some (JStr n) \<Rightarrow> Inr n | _ \<Rightarrow> Inl (Factory_Raised KeyError))"

definition probe_transports :: "string registry" where
  "probe_transports = [(''loopback'', name_factory), (''tak_tcp'', name_factory)]"

definition probe_codecs :: "wire_codec_fns registry" where
  "probe_codecs = [(''compact'', \<lambda>_. Inr (probe_codec 1)), (''cot'', \<lambda>_. Inr (probe_codec 2))]"

definition probe_args :: bridge_args where
  "probe_args =
     \<lparr>ba_port = ''/dev/ttyUSB0'', ba_portnum = 256, ba_region = ''US'', ba_fts_host = ''127.0.0.1'', ba_fts_port = 8087,
      ba_uid = ''base-1'', ba_callsign = ''BASE1'', ba_stale = Fin 120, ba_delimiter = [], ba_health = True,
      ba_healthz_host = ''127.0.0.1''\<rparr>"

lemma probe_builds:
  "build_node (\<lambda>t. t) probe_transports probe_codecs (probe_codec 0) (\<lambda>_. None) Map.empty (build_config probe_args) =
    Inr \<lparr>no_transports = [''tak''],
         no_router = \<lparr>rc_transports = [''tak''], rc_default_codec = probe_codec 0, rc_codecs = [(''tak'', probe_codec 2)],
                      rc_dedupe_cache_size = 2048\<rparr>,
         no_uid = ''base-1'', no_callsign = ''BASE1'', no_tier = TierBase\<rparr>"
  by (simp add: build_node_def build_config_def probe_args_def probe_transports_def probe_codecs_def registry_has_def
      create_def transport_options_def kw_setdefault_def name_factory_def)

theorem node_wires_transports_witness:
  "\<exists>node. build_node (\<lambda>t. t) probe_transports probe_codecs (probe_codec 0) (\<lambda>_. None) Map.empty (build_config probe_args) = Inr node \<and>
     length (no_transports node) = 1 \<and> codec_for (no_router node) 0 = probe_codec 2"
proof -
  have w: "wanted probe_transports (nc_transports (build_config probe_args)) = [nc_transports (build_config probe_args) ! 1]"
    by (simp add: probe_transports_def build_config_def probe_args_def registry_has_def)
  have names: "t = tc_name tc" if "tc \<in> set (wanted probe_transports (nc_transports (build_config probe_args)))"
    "create (tc_type tc) (transport_options (build_config probe_args) (\<lambda>_. None) tc) probe_transports = Inr t" for tc t
    using that unfolding w
    by (simp add: build_config_def probe_args_def probe_transports_def create_def transport_options_def kw_setdefault_def
        name_factory_def)
  have codec: "wired probe_codecs Map.empty (nc_transports (build_config probe_args) ! 1) oc \<Longrightarrow> oc = Some (probe_codec 2)" for oc
    by (simp add: wired_def build_config_def probe_codecs_def create_def)
  obtain node where
    node: "build_node (\<lambda>t. t) probe_transports probe_codecs (probe_codec 0) (\<lambda>_. None) Map.empty (build_config probe_args) = Inr node"
    using probe_builds by blast
  have "distinct (map tc_name (wanted probe_transports (nc_transports (build_config probe_args))))" by (simp add: w)
  note facts = node_wires_transports [OF node names this]
  have one: "length (no_transports node) = 1" using facts by (simp add: w)
  with facts have "\<exists>oc. wired probe_codecs Map.empty (nc_transports (build_config probe_args) ! 1) oc \<and>
      codec_for (no_router node) 0 = (case oc of None \<Rightarrow> probe_codec 0 | Some c \<Rightarrow> c)"
    by (auto simp: w Let_def)
  with codec node one show ?thesis by force
qed

text \<open>Two transports whose sends fail and whose stops are counted.\<close>

definition broken_ops :: "nat list transport_ops" where
  "broken_ops = \<lparr>op_start = (\<lambda>i w. (Inr (), w)), op_stop = (\<lambda>i w. (Inr (), w @ [i])), op_send = (\<lambda>i d w. (Inl OSError, w))\<rparr>"

definition pair_config :: router_config where
  "pair_config = \<lparr>rc_transports = [''a'', ''b''], rc_default_codec = probe_codec 0, rc_codecs = [], rc_dedupe_cache_size = 8\<rparr>"

theorem failed_forward_blocks_stop_witness:
  "\<exists>R R3 e. pump_events pair_config (op_send broken_ops) [(0, [])] (new_run\<lparr>rr_pumps := [(0, Pumping), (1, Pumping)]\<rparr>, []) = (R, []) \<and>
     router_stop broken_ops pair_config R [] = (Inl e, R3, []) \<and> router_stop broken_ops pair_config R3 [] = (Inl e, R3, [])"
proof -
  let ?R0 = "new_run\<lparr>rr_pumps := [(0, Pumping), (1, Pumping)]\<rparr>"
  have start: "router_start broken_ops pair_config new_run [] = (Inr (), ?R0, [])"
    by (simp add: router_start_def pair_config_def broken_ops_def new_run_def upt_rec)
  have "\<exists>r. pump_frame pair_config (op_send broken_ops) 0 [] (rr_router ?R0) [] = (Inl (CodecRaised OSError), r, [])"
    by (simp add: pump_frame_def codec_for_def pair_config_def probe_codec_def mark_seen_def broken_ops_def new_run_def
        new_router_def upt_rec)
  then obtain r where f: "pump_frame pair_config (op_send broken_ops) 0 [] (rr_router ?R0) [] = (Inl (CodecRaised OSError), r, [])" ..
  obtain R w where run: "pump_events pair_config (op_send broken_ops) [(0, [])] (?R0, []) = (R, w)" by fastforce
  obtain res R3 w5 where stop: "router_stop broken_ops pair_config R w = (res, R3, w5)" by (metis prod_cases3)
  obtain res' R4 w7 where again: "router_stop broken_ops pair_config R3 [] = (res', R4, w7)" by (metis prod_cases3)
  have k: "0 < length (rr_pumps ?R0)" "rr_pumps ?R0 ! 0 = (0, Pumping)" by (simp_all add: new_run_def)
  have w: "w = []" using run f by (simp add: pump_event_def new_run_def)
  from failed_forward_blocks_stop [OF start pump_events_simps(1) k f run stop again]
  obtain e where e: "res = Inl e" "w5 = w" "res' = Inl e" "w7 = []" by blast
  then have "R4 = R3"
    using stop again w by (auto simp: router_stop_def Let_def o_def split: sum.splits prod.splits)
  with e w run stop again show ?thesis by blast
qed

text \<open>A node whose radio echoes what it sends.\<close>

definition probe_node :: "string node" where
  "probe_node = \<lparr>no_transports = [''a'', ''b''], no_router = pair_config, no_uid = ''n1'', no_callsign = ''alpha'', no_tier = TierUser\<rparr>"

definition probe_position :: position where
  "probe_position = \<lparr>pos_lat = Fin 45, pos_lon = Fin 7, pos_hae = Fin 0, pos_ce = Fin 5, pos_le = Fin 5,
     pos_course_deg = None, pos_speed_ms = None\<rparr>"

theorem own_position_stays_out_witness:
  "\<exists>env r1 w1. publish_position probe_node log_send ''p1'' (Fin 0) probe_position new_router [] = (Inr env, r1, w1) \<and>
     map fst w1 = [0, 1] \<and> (\<exists>r2. pump_frame pair_config log_send 1 [] r1 w1 = (Inr (), r2, w1))"
proof -
  have N: "no_router probe_node = pair_config" by (simp add: probe_node_def)
  have "\<exists>env r1 w1. publish_position probe_node log_send ''p1'' (Fin 0) probe_position new_router [] = (Inr env, r1, w1) \<and> map fst w1 = [0, 1]"
    by (simp add: publish_position_def node_envelope_def publish_def probe_node_def pair_config_def mark_seen_def new_router_def
        codec_for_def probe_codec_def log_send_def upt_rec)
  then obtain env r1 w1 where p: "publish_position probe_node log_send ''p1'' (Fin 0) probe_position (rr_router new_run) [] = (Inr env, r1, w1)"
    "map fst w1 = [0, 1]" by (auto simp: new_run_def)
  have fresh: "''p1'' \<notin> set (ro_seen (rr_router new_run))" by (simp add: new_run_def new_router_def)
  have "\<exists>r2. pump_frame pair_config log_send 1 [] r1 w1 = (Inr (), r2, w1)"
    using own_position_stays_out [OF p(1) fresh pump_events_simps(1), of 1 "[]" probe]
    by (simp add: N codec_for_def pair_config_def probe_codec_def probe_def)
  with p show ?thesis by (auto simp: new_run_def)
qed

end
