(* ===== verification/Py_Paths.thy ===== *)
theory Py_Paths
  imports Py_Strings
begin

text \<open>
  What the source uses of \<^verbatim>\<open>pathlib\<close> that does not touch the file system: components, joining, relative
  paths and suffixes.
\<close>

text \<open>A path is the list of its components.\<close>

definition slash :: char where "slash = CHR ''/''"
definition backslash_char :: char where "backslash_char = CHR 0x5C"

definition path_parts :: "string \<Rightarrow> string list" where
  "path_parts s = filter (\<lambda>p. p \<noteq> [] \<and> p \<noteq> ''.'') (py_split slash s)"

definition as_posix :: "string list \<Rightarrow> string" where
  "as_posix parts = (if parts = [] then ''.'' else concat (map (\<lambda>p. p @ [slash]) (butlast parts)) @ last parts)"

fun relative_to :: "string list \<Rightarrow> string list \<Rightarrow> string list option" where
  "relative_to path [] = Some path"
| "relative_to [] (r # anchor) = None"
| "relative_to (p # path) (r # anchor) = (if p = r then relative_to path anchor else None)"

definition ends_with :: "string \<Rightarrow> string \<Rightarrow> bool" where
  "ends_with s ending \<longleftrightarrow> length ending \<le> length s \<and> drop (length s - length ending) s = ending"

text \<open>\<^verbatim>\<open>Path.suffix\<close>: from the last dot of the name on, when that dot neither starts nor ends the name.\<close>

definition path_suffix :: "string \<Rightarrow> string" where
  "path_suffix s =
     (let name = (if path_parts s = [] then [] else last (path_parts s));
          ext = rev (takeWhile (\<lambda>c. c \<noteq> CHR ''.'') (rev name))
      in if length ext < length name \<and> ext \<noteq> [] \<and> Suc (length ext) < length name then CHR ''.'' # ext else [])"

end
