(* ===== verification/Repo_Guards.thy ===== *)
theory Repo_Guards
  imports Command_Spec Py_Format Py_Paths "HOL-Library.List_Lexorder" "HOL-Library.Char_ord"
begin

text \<open>
  The guards that keep the repository's rules (\<^verbatim>\<open>tools/claude_hooks/\<close>): the policy with its path and glob
  matching (\<^verbatim>\<open>governance.py\<close>), the scope freeze (\<^verbatim>\<open>scope_freeze.py\<close>), the linter of network listeners
  (\<^verbatim>\<open>bind_guard.py\<close>) and the linter of literals (\<^verbatim>\<open>literal_guard.py\<close>).  Python's syntax tree is a datatype
  with the nodes the linters look at; parsing, and the file system's resolution of links, are parameters.
\<close>

section \<open>Policy\<close>

record literal_exception =
  le_path :: string
  le_rule :: string

record bind_guard_config =
  bg_required_symbol :: string
  bg_canonical_module :: string
  bg_exceptions :: "string list"

record literal_guard_config =
  lg_defaults_module :: string
  lg_exceptions :: "literal_exception list"

record governance_config =
  gc_c_gate_met :: bool
  gc_override_env_var :: string
  gc_command_emission_globs :: "string list"
  gc_scope_widening_globs :: "string list"
  gc_bind_guard :: bind_guard_config
  gc_literal_guard :: "literal_guard_config option"

section \<open>Paths\<close>

text \<open>\<open>resolve\<close> is \<^verbatim>\<open>Path.resolve\<close> on an absolute path.\<close>

definition to_repo_relative :: "(string list \<Rightarrow> string list) \<Rightarrow> string list \<Rightarrow> string \<Rightarrow> string option" where
  "to_repo_relative resolve repo_root path =
     (let normalized = map (\<lambda>c. if c = backslash_char then slash else c) path;
          anchor = resolve repo_root;
          candidate =
            (if normalized \<noteq> [] \<and> hd normalized = slash then path_parts normalized else anchor @ path_parts normalized)
      in map_option as_posix (relative_to (resolve candidate) anchor))"

section \<open>Globs\<close>

text \<open>\<^verbatim>\<open>fnmatch.fnmatchcase\<close>: stars (across separators), question marks, and sets in brackets.\<close>

fun find_close :: "string \<Rightarrow> string \<Rightarrow> (string \<times> string) option" where
  "find_close acc [] = None"
| "find_close acc (c # cs) = (if c = CHR '']'' then Some (rev acc, cs) else find_close (c # acc) cs)"

text \<open>After the opening bracket: the set, and the rest of the pattern.  A bracket closes it only from the
  second place on.\<close>

definition read_set :: "string \<Rightarrow> (bool \<times> string \<times> string) option" where
  "read_set cs =
     (let (neg, body) = (case cs of c # r \<Rightarrow> if c = CHR ''!'' then (True, r) else (False, cs) | [] \<Rightarrow> (False, []))
      in case body of
           [] \<Rightarrow> None
         | c # r \<Rightarrow> map_option (\<lambda>(s, rest). (neg, c # s, rest)) (find_close [] r))"

fun in_set :: "char \<Rightarrow> string \<Rightarrow> bool" where
  "in_set x (a # b # c # cs) =
     (if b = CHR ''-'' then code a \<le> code x \<and> code x \<le> code c \<or> in_set x cs else x = a \<or> in_set x (b # c # cs))"
| "in_set x (a # cs) = (x = a \<or> in_set x cs)"
| "in_set x [] = False"

lemma find_close_shorter: "find_close acc cs = Some (s, rest) \<Longrightarrow> length rest < length cs"
  by (induction acc cs rule: find_close.induct) (auto split: if_splits)

lemma read_set_shorter: "read_set cs = Some (neg, s, rest) \<Longrightarrow> length rest < length cs"
  by (auto simp: read_set_def split: list.splits if_splits dest!: find_close_shorter)

function fnmatchcase :: "string \<Rightarrow> string \<Rightarrow> bool" where
  "fnmatchcase s [] = (s = [])"
| "fnmatchcase s (p # ps) =
     (if p = CHR ''*'' then fnmatchcase s ps \<or> (case s of [] \<Rightarrow> False | _ # s' \<Rightarrow> fnmatchcase s' (p # ps))
      else case s of
        [] \<Rightarrow> False
      | c # s' \<Rightarrow>
          if p = CHR ''?'' then fnmatchcase s' ps
          else if p = CHR ''['' then
            (case read_set ps of
               None \<Rightarrow> c = p \<and> fnmatchcase s' ps
             | Some (neg, chars, rest) \<Rightarrow> in_set c chars \<noteq> neg \<and> fnmatchcase s' rest)
          else c = p \<and> fnmatchcase s' ps)"
  by pat_completeness auto
termination
  by (relation "measure (\<lambda>(s, p). length s + length p)") (auto dest: read_set_shorter)

fun match_globs :: "string \<Rightarrow> string list \<Rightarrow> string option" where
  "match_globs rel [] = None"
| "match_globs rel (p # ps) =
     (if fnmatchcase rel p then Some p
      else if ends_with p ''/**'' \<and> fnmatchcase rel (take (length p - 3) p) then Some p
      else match_globs rel ps)"

section \<open>The scope freeze\<close>

datatype freeze_category = Command_Emission | Scope_Widening

text \<open>The verdict with the path and the pattern that its reason names.\<close>

definition freeze_evaluate ::
  "(string list \<Rightarrow> string list) \<Rightarrow> governance_config \<Rightarrow> string \<Rightarrow> string list \<Rightarrow> (freeze_category \<times> string \<times> string) option" where
  "freeze_evaluate resolve G file_path repo_root =
     (case to_repo_relative resolve repo_root file_path of
        None \<Rightarrow> None
      | Some rel \<Rightarrow>
          (case (if gc_c_gate_met G then None else match_globs rel (gc_command_emission_globs G)) of
             Some p \<Rightarrow> Some (Command_Emission, rel, p)
           | None \<Rightarrow> map_option (\<lambda>p. (Scope_Widening, rel, p)) (match_globs rel (gc_scope_widening_globs G))))"

datatype freeze_outcome = Allow | Deny freeze_category string string

definition payload_path :: "json option \<Rightarrow> string option" where
  "payload_path payload =
     (case payload of
        Some (JObj kvs) \<Rightarrow>
          (case map_of kvs ''tool_input'' of
             Some (JObj inputs) \<Rightarrow>
               (case map_of inputs ''file_path'' of Some (JStr f) \<Rightarrow> if f = [] then None else Some f | _ \<Rightarrow> None)
           | _ \<Rightarrow> None)
      | _ \<Rightarrow> None)"

text \<open>The hook: \<open>payload\<close> is the standard input as JSON, if it is JSON, and \<open>policy\<close> the repository's root and
  the loaded configuration, if both could be found.\<close>

definition scope_freeze ::
  "(string list \<Rightarrow> string list) \<Rightarrow> json option \<Rightarrow> (string list \<times> governance_config) option \<Rightarrow> (string \<rightharpoonup> string) \<Rightarrow> freeze_outcome" where
  "scope_freeze resolve payload policy env =
     (case payload_path payload of
        None \<Rightarrow> Allow
      | Some f \<Rightarrow>
          (case policy of
             None \<Rightarrow> Allow
           | Some (repo_root, G) \<Rightarrow>
               (case freeze_evaluate resolve G f repo_root of
                  None \<Rightarrow> Allow
                | Some (category, rel, p) \<Rightarrow>
                    (case env (gc_override_env_var G) of
                       None \<Rightarrow> Deny category rel p
                     | Some v \<Rightarrow> if v = [] then Deny category rel p else Allow))))"

section \<open>Syntax trees\<close>

datatype pconst = PInt int | PBool bool | PFloat pyfloat | PStr string | PConst_Other

datatype pynode =
    Constant pconst nat
  | Name string
  | Attribute pynode string
  | Call pynode "pynode list" "pynode list" nat \<comment> \<open>function, arguments, keywords, line\<close>
  | Keyword "string option" pynode
  | FunctionDef string pynode "pynode list" "pynode list" nat \<comment> \<open>name, arguments, body, the rest, line\<close>
  | Arguments "pynode list" "pynode list" "pynode option" "pynode list" "pynode option list" "pynode option" "pynode list"
  | Arg string "pynode option"
  | ImportFrom nat "string option" "(string \<times> string option) list"
  | Assign "pynode list" pynode
  | AnnAssign pynode pynode "pynode option"
  | Other_Node "pynode list"

fun kids :: "pynode \<Rightarrow> pynode list" where
  "kids (Constant v l) = []"
| "kids (Name n) = []"
| "kids (Attribute v n) = [v]"
| "kids (Call f args kws l) = f # args @ kws"
| "kids (Keyword n v) = [v]"
| "kids (FunctionDef n args body rest l) = args # body @ rest"
| "kids (Arguments posonly args vararg kwonly kwdef kwarg def) =
     posonly @ args @ (case vararg of None \<Rightarrow> [] | Some x \<Rightarrow> [x]) @ kwonly @ List.map_filter (\<lambda>x. x) kwdef @
     (case kwarg of None \<Rightarrow> [] | Some x \<Rightarrow> [x]) @ def"
| "kids (Arg n ann) = (case ann of None \<Rightarrow> [] | Some x \<Rightarrow> [x])"
| "kids (ImportFrom level m names) = []"
| "kids (Assign targets v) = targets @ [v]"
| "kids (AnnAssign t ann v) = t # ann # (case v of None \<Rightarrow> [] | Some x \<Rightarrow> [x])"
| "kids (Other_Node ns) = ns"

definition ast_weight :: "pynode list \<Rightarrow> nat" where
  "ast_weight ns = sum_list (map (\<lambda>n. 2 * size n + 1) ns)"

lemma weight_simps [simp]:
  "ast_weight [] = 0" "ast_weight (n # ns) = 2 * size n + 1 + ast_weight ns"
  "ast_weight (ns @ ms) = ast_weight ns + ast_weight ms"
  by (simp_all add: ast_weight_def)

lemma weight_members: "ast_weight xs \<le> 2 * size_list size xs"
  by (induction xs) auto

lemma weight_filtered: "ast_weight (List.map_filter (\<lambda>x. x) xs) \<le> 2 * size_list (size_option size) xs"
  by (induction xs) (auto simp: map_filter_simps split: option.split)

lemma weight_kids: "ast_weight (kids n) \<le> 2 * size n"
proof (cases n)
  case (Call f args kws l)
  then show ?thesis using weight_members [of args] weight_members [of kws] by simp
next
  case (FunctionDef name args body rest l)
  then show ?thesis using weight_members [of body] weight_members [of rest] by simp
next
  case (Arguments posonly args vararg kwonly kwdef kwarg def)
  then show ?thesis
    using weight_members [of posonly] weight_members [of args] weight_members [of kwonly] weight_members [of def]
      weight_filtered [of kwdef]
    by (auto split: option.split)
next
  case (Assign targets v)
  then show ?thesis using weight_members [of targets] by simp
next
  case (Other_Node ns)
  then show ?thesis using weight_members [of ns] by simp
qed (auto split: option.split)

text \<open>\<^verbatim>\<open>ast.walk\<close>: breadth first, from a queue.\<close>

function walk :: "pynode list \<Rightarrow> pynode list" where
  "walk [] = []"
| "walk (n # queue) = n # walk (queue @ kids n)"
  by pat_completeness auto
termination by (relation "measure ast_weight") (auto simp: less_Suc_eq_le weight_kids)

definition ast_walk :: "pynode \<Rightarrow> pynode list" where "ast_walk tree = walk [tree]"

text \<open>A finding: where, and which rule or call; the wording of the message is left out.\<close>

record finding =
  fd_path :: string
  fd_line :: nat
  fd_rule :: string

text \<open>The files that globs select below a root, in the order of paths.\<close>

definition scan_files :: "(string \<Rightarrow> string list) \<Rightarrow> string list \<Rightarrow> string list \<Rightarrow> string list" where
  "scan_files glob patterns excluded =
     sort_key path_parts (filter (\<lambda>f. \<not> List.member excluded f) (remdups (concat (map glob patterns))))"

section \<open>The linter of listeners\<close>

definition LISTENER_TRIGGERS :: "string list" where
  "LISTENER_TRIGGERS =
     [''create_datagram_endpoint'', ''create_server'', ''bind'', ''TCPSite'', ''run_app'', ''start_server'']"

definition call_name :: "pynode \<Rightarrow> string option" where
  "call_name node =
     (case node of
        Call (Name n) _ _ _ \<Rightarrow> Some n
      | Call (Attribute _ n) _ _ _ \<Rightarrow> Some n
      | _ \<Rightarrow> None)"

definition dot :: char where "dot = CHR ''.''"

definition dotted_module :: "string \<Rightarrow> string" where
  "dotted_module rel =
     (let parts = path_parts rel;
          below = (if List.member parts ''src'' then tl (dropWhile (\<lambda>p. p \<noteq> ''src'') parts) else parts);
          bare = (if below \<noteq> [] \<and> ends_with (last below) ''.py''
                  then butlast below @ [take (length (last below) - 3) (last below)] else below);
          package = (if bare \<noteq> [] \<and> last bare = ''__init__'' then butlast bare else bare)
      in join_with [dot] package)"

definition last_segment :: "string \<Rightarrow> string" where
  "last_segment m = last (py_split dot m)"

definition bound_name :: "string \<times> string option \<Rightarrow> string" where
  "bound_name alias = (case snd alias of None \<Rightarrow> fst alias | Some a \<Rightarrow> if a = [] then fst alias else a)"

definition canonical_aliases :: "pynode \<Rightarrow> string \<Rightarrow> string \<Rightarrow> string list" where
  "canonical_aliases tree symbol canonical =
     concat (map (\<lambda>node. case node of
         ImportFrom level m names \<Rightarrow>
           (let module = (case m of None \<Rightarrow> [] | Some x \<Rightarrow> x)
            in if (level = 0 \<and> module = canonical) \<or> (0 < level \<and> last_segment module = last_segment canonical)
               then map bound_name (filter (\<lambda>a. fst a = symbol) names) else [])
       | _ \<Rightarrow> []) (ast_walk tree))"

definition guard_import_aliases :: "pynode \<Rightarrow> string \<Rightarrow> string list" where
  "guard_import_aliases tree symbol =
     concat (map (\<lambda>node. case node of
         ImportFrom level m names \<Rightarrow> map bound_name (filter (\<lambda>a. fst a = symbol) names)
       | _ \<Rightarrow> []) (ast_walk tree))"

definition calls_any :: "pynode \<Rightarrow> string list \<Rightarrow> bool" where
  "calls_any tree names \<longleftrightarrow>
     list_ex (\<lambda>node. case call_name node of None \<Rightarrow> False | Some n \<Rightarrow> List.member names n) (ast_walk tree)"

definition redefinitions :: "bind_guard_config \<Rightarrow> string \<Rightarrow> pynode \<Rightarrow> finding list" where
  "redefinitions B rel tree =
     concat (map (\<lambda>node. case node of
         FunctionDef name args body rest line \<Rightarrow>
           if name = bg_required_symbol B \<and>
              \<not> calls_any (Other_Node body)
                  (removeAll name (canonical_aliases tree (bg_required_symbol B) (bg_canonical_module B)))
           then [\<lparr>fd_path = rel, fd_line = line, fd_rule = ''def '' @ name\<rparr>] else []
       | _ \<Rightarrow> []) (ast_walk tree))"

definition listener_triggers :: "pynode \<Rightarrow> (nat \<times> string) list" where
  "listener_triggers tree =
     concat (map (\<lambda>node. case node of
         Call f args kws line \<Rightarrow>
           (case call_name node of
              None \<Rightarrow> []
            | Some n \<Rightarrow> if List.member LISTENER_TRIGGERS n then [(line, n)] else [])
       | _ \<Rightarrow> []) (ast_walk tree))"

text \<open>The source of a file either parses to a tree or has a syntax error in some line.\<close>

definition bind_scan_file :: "bind_guard_config \<Rightarrow> string \<Rightarrow> nat + pynode \<Rightarrow> finding list" where
  "bind_scan_file B rel source =
     (case source of
        Inl line \<Rightarrow> [\<lparr>fd_path = rel, fd_line = line, fd_rule = ''syntax-error''\<rparr>]
      | Inr tree \<Rightarrow>
          (let module = dotted_module rel;
               defs = (if module \<noteq> bg_canonical_module B then redefinitions B rel tree else []);
               guarded = calls_any tree (guard_import_aliases tree (bg_required_symbol B))
           in defs @
              (if \<not> guarded \<and> \<not> List.member (bg_exceptions B) rel \<and> module \<noteq> bg_canonical_module B
               then map (\<lambda>(line, n). \<lparr>fd_path = rel, fd_line = line, fd_rule = n\<rparr>) (listener_triggers tree)
               else [])))"

definition BIND_SCAN_GLOBS :: "string list" where
  "BIND_SCAN_GLOBS = [''packages/**/src/**/*.py'', ''flightctl/**/*.py'', ''tools/**/*.py'']"

definition bind_scan_repo :: "(string \<Rightarrow> string list) \<Rightarrow> (string \<Rightarrow> nat + pynode) \<Rightarrow> bind_guard_config \<Rightarrow> finding list" where
  "bind_scan_repo glob parse B =
     concat (map (\<lambda>f. bind_scan_file B f (parse f))
       (scan_files glob BIND_SCAN_GLOBS (''tools/claude_hooks/bind_guard.py'' # glob ''tools/**/tests/**/*.py'')))"

section \<open>The linter of literals\<close>

definition HOST_LITERALS :: "string list" where "HOST_LITERALS = [''127.0.0.1'', ''0.0.0.0'']"

definition MAGIC_NAMES :: "string list" where
  "MAGIC_NAMES = [''queue_maxsize'', ''backoff_initial_s'', ''backoff_max_s'', ''backoff_factor'']"

text \<open>\<^verbatim>\<open>ENDPOINT_RE\<close>: a kind of connection, a colon, and at least one character that is no space.\<close>

definition endpoint_literal :: "string \<Rightarrow> bool" where
  "endpoint_literal s \<longleftrightarrow>
     list_ex (\<lambda>kind. take (length kind) s = kind \<and> (case drop (length kind) s of [] \<Rightarrow> False | c # _ \<Rightarrow> \<not> is_space c))
       [''udpin:'', ''udpout:'', ''tcpin:'', ''tcpout:'']"

datatype literal_exn = Governance_Error | Literal_Raised py_exn

definition load_port_table :: "pynode \<Rightarrow> literal_exn + int list" where
  "load_port_table tree =
     (let ports = concat (map (\<lambda>node. case node of
            Assign targets (Constant (PInt i) _) \<Rightarrow>
              if list_ex (\<lambda>t. case t of Name n \<Rightarrow> take 5 n = ''PORT_'' | _ \<Rightarrow> False) targets then [i] else []
          | _ \<Rightarrow> []) (ast_walk tree))
      in if ports = [] then Inl Governance_Error else Inr ports)"

definition int_value :: "pynode \<Rightarrow> int option" where
  "int_value node = (case node of Constant (PInt i) _ \<Rightarrow> Some i | _ \<Rightarrow> None)"

text \<open>\<^verbatim>\<open>float(value)\<close> of an integer beyond the floats raises.\<close>

definition num_value :: "pynode \<Rightarrow> py_exn + pyfloat option" where
  "num_value node =
     (case node of
        Constant (PInt i) _ \<Rightarrow> then_ok (py_float (JInt i)) (\<lambda>x. Inr (Some x))
      | Constant (PFloat x) _ \<Rightarrow> Inr (Some x)
      | _ \<Rightarrow> Inr None)"

definition unwrap_field_default :: "pynode \<Rightarrow> pynode" where
  "unwrap_field_default v =
     (case v of
        Call f args kws _ \<Rightarrow>
          if List.member [''Field'', ''field''] (case f of Attribute _ n \<Rightarrow> n | Name n \<Rightarrow> n | _ \<Rightarrow> [])
          then (case List.map_filter (\<lambda>k. case k of Keyword (Some n) d \<Rightarrow> if n = ''default'' then Some d else None | _ \<Rightarrow> None) kws of
                  d # _ \<Rightarrow> d
                | [] \<Rightarrow> (case args of a # _ \<Rightarrow> a | [] \<Rightarrow> v))
          else v
      | _ \<Rightarrow> v)"

text \<open>The line of a node; only constants and calls are ever asked for theirs.\<close>

definition line_of :: "pynode \<Rightarrow> nat" where
  "line_of node = (case node of Constant _ l \<Rightarrow> l | Call _ _ _ l \<Rightarrow> l | FunctionDef _ _ _ _ l \<Rightarrow> l | _ \<Rightarrow> 0)"

definition arg_name :: "pynode \<Rightarrow> string" where
  "arg_name a = (case a of Arg n _ \<Rightarrow> n | _ \<Rightarrow> [])"

definition magic_bindings_of :: "pynode \<Rightarrow> (string \<times> pynode \<times> nat) list" where
  "magic_bindings_of node =
     (case node of
        FunctionDef _ (Arguments posonly args _ kwonly kwdef _ def) _ _ _ \<Rightarrow>
          (let positional = posonly @ args;
               defaulted = drop (length positional - length def) positional
           in map (\<lambda>(a, d). (arg_name a, d, line_of d))
                (filter (\<lambda>(a, d). List.member MAGIC_NAMES (arg_name a)) (zip defaulted def)) @
              List.map_filter (\<lambda>(a, d). case d of
                  Some d \<Rightarrow> if List.member MAGIC_NAMES (arg_name a) then Some (arg_name a, d, line_of d) else None
                | None \<Rightarrow> None) (zip kwonly kwdef))
      | Call _ _ kws _ \<Rightarrow>
          List.map_filter (\<lambda>k. case k of
              Keyword (Some n) v \<Rightarrow> if List.member MAGIC_NAMES n then Some (n, v, line_of v) else None
            | _ \<Rightarrow> None) kws
      | AnnAssign (Name n) _ (Some v) \<Rightarrow>
          if List.member MAGIC_NAMES n then [(n, unwrap_field_default v, line_of v)] else []
      | Assign targets v \<Rightarrow>
          List.map_filter (\<lambda>t. case t of
              Name n \<Rightarrow> if List.member MAGIC_NAMES n then Some (n, unwrap_field_default v, line_of v) else None
            | _ \<Rightarrow> None) targets
      | _ \<Rightarrow> [])"

definition iter_magic_bindings :: "pynode \<Rightarrow> (string \<times> pynode \<times> nat) list" where
  "iter_magic_bindings tree = concat (map magic_bindings_of (ast_walk tree))"

definition constant_findings :: "int list \<Rightarrow> string \<Rightarrow> pynode \<Rightarrow> finding list" where
  "constant_findings ports rel node =
     (case node of
        Constant v line \<Rightarrow>
          (case int_value node of
             Some i \<Rightarrow> if List.member ports i then [\<lparr>fd_path = rel, fd_line = line, fd_rule = ''ports''\<rparr>] else []
           | None \<Rightarrow> []) @
          (case v of
             PStr s \<Rightarrow>
               if List.member HOST_LITERALS s then [\<lparr>fd_path = rel, fd_line = line, fd_rule = ''hosts''\<rparr>]
               else if endpoint_literal s then [\<lparr>fd_path = rel, fd_line = line, fd_rule = ''endpoints''\<rparr>]
               else []
           | _ \<Rightarrow> [])
      | _ \<Rightarrow> [])"

fun magic_findings :: "string \<Rightarrow> (string \<times> pynode \<times> nat) list \<Rightarrow> py_exn + finding list" where
  "magic_findings rel [] = Inr []"
| "magic_findings rel ((n, v, line) # rest) =
     then_ok (num_value v) (\<lambda>x.
     then_ok (magic_findings rel rest) (\<lambda>fs.
       Inr (if x = None then fs else \<lparr>fd_path = rel, fd_line = line, fd_rule = ''magics''\<rparr> # fs)))"

definition literal_scan_file :: "int list \<Rightarrow> string \<Rightarrow> nat + pynode \<Rightarrow> py_exn + finding list" where
  "literal_scan_file ports rel source =
     (case source of
        Inl line \<Rightarrow> Inr [\<lparr>fd_path = rel, fd_line = line, fd_rule = ''syntax-error''\<rparr>]
      | Inr tree \<Rightarrow>
          then_ok (magic_findings rel (iter_magic_bindings tree)) (\<lambda>ms.
            Inr (concat (map (constant_findings ports rel) (ast_walk tree)) @ ms)))"

definition LITERAL_SCAN_GLOBS :: "string list" where
  "LITERAL_SCAN_GLOBS = [''packages/**/src/**/*.py'', ''flightctl/**/*.py'']"

definition waived :: "literal_guard_config \<Rightarrow> finding \<Rightarrow> bool" where
  "waived L f \<longleftrightarrow>
     list_ex (\<lambda>e. le_path e = fd_path f \<and> (le_rule e = ''*'' \<or> le_rule e = fd_rule f)) (lg_exceptions L)"

definition split_findings :: "literal_guard_config \<Rightarrow> finding list \<Rightarrow> finding list \<times> finding list" where
  "split_findings L fs = (filter (\<lambda>f. \<not> waived L f) fs, filter (waived L) fs)"

fun literal_scan_files :: "int list \<Rightarrow> (string \<Rightarrow> nat + pynode) \<Rightarrow> string list \<Rightarrow> py_exn + finding list" where
  "literal_scan_files ports parse [] = Inr []"
| "literal_scan_files ports parse (f # fs) =
     then_ok (literal_scan_file ports f (parse f)) (\<lambda>here.
     then_ok (literal_scan_files ports parse fs) (\<lambda>more. Inr (here @ more)))"

text \<open>\<open>defaults\<close> is the tree of the defaults module, if there is such a file.\<close>

definition literal_scan_repo ::
  "(string \<Rightarrow> string list) \<Rightarrow> (string \<Rightarrow> nat + pynode) \<Rightarrow> pynode option \<Rightarrow> literal_guard_config \<Rightarrow>
     literal_exn + finding list \<times> finding list \<times> nat" where
  "literal_scan_repo glob parse defaults L =
     (case defaults of
        None \<Rightarrow> Inl Governance_Error
      | Some tree \<Rightarrow>
          (case load_port_table tree of
             Inl e \<Rightarrow> Inl e
           | Inr ports \<Rightarrow>
               (let files = scan_files glob LITERAL_SCAN_GLOBS [lg_defaults_module L]
                in case literal_scan_files ports parse files of
                     Inl e \<Rightarrow> Inl (Literal_Raised e)
                   | Inr fs \<Rightarrow> (case split_findings L fs of (violations, excepted) \<Rightarrow> Inr (violations, excepted, length files)))))"

text \<open>The command: its exit code, 1 on a violation or a policy that cannot be used; \<open>None\<close> is a traceback.\<close>

definition literal_guard_main ::
  "(string \<Rightarrow> string list) \<Rightarrow> (string \<Rightarrow> nat + pynode) \<Rightarrow> pynode option \<Rightarrow> governance_config option \<Rightarrow> nat option" where
  "literal_guard_main glob parse defaults policy =
     (case policy of
        None \<Rightarrow> Some 1
      | Some G \<Rightarrow>
          (case gc_literal_guard G of
             None \<Rightarrow> Some 1
           | Some L \<Rightarrow>
               (case literal_scan_repo glob parse defaults L of
                  Inl Governance_Error \<Rightarrow> Some 1
                | Inl (Literal_Raised e) \<Rightarrow> None
                | Inr (violations, _, _) \<Rightarrow> Some (if violations = [] then 0 else 1))))"

definition bind_guard_main ::
  "(string \<Rightarrow> string list) \<Rightarrow> (string \<Rightarrow> nat + pynode) \<Rightarrow> governance_config option \<Rightarrow> nat" where
  "bind_guard_main glob parse policy =
     (case policy of
        None \<Rightarrow> 1
      | Some G \<Rightarrow> if bind_scan_repo glob parse (gc_bind_guard G) = [] then 0 else 1)"

end
