(* ===== verification/Guard_Facts.thy ===== *)
theory Guard_Facts
  imports Repo_Guards
begin

text \<open>
  What the guards of the repository guarantee about the code they pass: the walk of a syntax tree misses no
  node, a file without findings guards its listeners, a port has one home, and a frozen directory is frozen
  with everything below it.
\<close>

section \<open>The walk\<close>

inductive below :: "pynode \<Rightarrow> pynode \<Rightarrow> bool" where
  here: "below t t"
| kid: "k \<in> set (kids t) \<Longrightarrow> below n k \<Longrightarrow> below n t"

inductive_cases belowE: "below n t"

lemma set_walk: "set (walk q) = {n. \<exists>t \<in> set q. below n t}"
proof (induction q rule: walk.induct)
  case (2 n queue)
  have "below m n \<longleftrightarrow> m = n \<or> (\<exists>k \<in> set (kids n). below m k)" for m
    by (auto elim: belowE intro: below.intros)
  with 2 show ?case by auto
qed simp

lemma set_ast_walk [simp]: "set (ast_walk t) = {n. below n t}"
  unfolding ast_walk_def set_walk by simp

lemma walked_below: "n \<in> set (walk [t]) \<Longrightarrow> below n t"
  by (simp add: set_walk del: walk.simps)

lemma in_walk_concat: "below n t \<Longrightarrow> x \<in> set (f n) \<Longrightarrow> x \<in> set (concat (map f (ast_walk t)))"
  by auto

lemma walk_concat_iff: "x \<in> set (concat (map f (ast_walk t))) \<longleftrightarrow> (\<exists>n. below n t \<and> x \<in> set (f n))"
  by auto

section \<open>The linter of listeners\<close>

lemma calls_any_below:
  "calls_any t names \<longleftrightarrow> (\<exists>c n. below c t \<and> call_name c = Some n \<and> n \<in> set names)"
  by (auto simp: calls_any_def list_ex_iff split: option.splits)

lemma bound_alias:
  "n \<in> set (case node of ImportFrom level m names \<Rightarrow> map bound_name (filter (\<lambda>a. fst a = symbol) names) | _ \<Rightarrow> []) \<longleftrightarrow>
   (\<exists>level m names a. node = ImportFrom level m names \<and> a \<in> set names \<and> fst a = symbol \<and> n = bound_name a)"
  by (cases node) auto

lemma guard_alias_imported:
  "n \<in> set (guard_import_aliases t symbol) \<longleftrightarrow>
   (\<exists>level m names a. below (ImportFrom level m names) t \<and> a \<in> set names \<and> fst a = symbol \<and> n = bound_name a)"
  unfolding guard_import_aliases_def walk_concat_iff bound_alias by blast

lemma canonical_alias:
  "n \<in> set (case node of
      ImportFrom level m names \<Rightarrow>
        (let module = (case m of None \<Rightarrow> [] | Some x \<Rightarrow> x)
         in if A level module then map bound_name (filter (\<lambda>a. fst a = symbol) names) else [])
    | _ \<Rightarrow> []) \<Longrightarrow>
   \<exists>level m names a. node = ImportFrom level m names \<and> a \<in> set names \<and> fst a = symbol \<and> n = bound_name a \<and>
     A level (case m of None \<Rightarrow> [] | Some x \<Rightarrow> x)"
  by (cases node) (auto simp: Let_def split: if_splits)

lemma canonical_alias_imported:
  "n \<in> set (canonical_aliases t symbol canonical) \<Longrightarrow>
   \<exists>level m names a. below (ImportFrom level m names) t \<and> a \<in> set names \<and> fst a = symbol \<and> n = bound_name a \<and>
     ((level = 0 \<and> (case m of None \<Rightarrow> [] | Some x \<Rightarrow> x) = canonical) \<or>
      (0 < level \<and> last_segment (case m of None \<Rightarrow> [] | Some x \<Rightarrow> x) = last_segment canonical))"
  unfolding canonical_aliases_def walk_concat_iff
  by (elim exE conjE, drule canonical_alias [where A = "\<lambda>level module. (level = 0 \<and> module = canonical) \<or>
      (0 < level \<and> last_segment module = last_segment canonical)"]) blast

lemma trigger_listed:
  "below (Call f args kws line) t \<Longrightarrow> call_name (Call f args kws line) = Some n \<Longrightarrow> n \<in> set LISTENER_TRIGGERS \<Longrightarrow>
   (line, n) \<in> set (listener_triggers t)"
  unfolding listener_triggers_def by (rule in_walk_concat [of "Call f args kws line"]) simp_all

lemma redefinition_listed:
  "below (FunctionDef (bg_required_symbol B) args body rest line) t \<Longrightarrow>
   \<not> calls_any (Other_Node body)
        (removeAll (bg_required_symbol B) (canonical_aliases t (bg_required_symbol B) (bg_canonical_module B))) \<Longrightarrow>
   redefinitions B rel t \<noteq> []"
proof -
  assume "below (FunctionDef (bg_required_symbol B) args body rest line) t"
    "\<not> calls_any (Other_Node body)
        (removeAll (bg_required_symbol B) (canonical_aliases t (bg_required_symbol B) (bg_canonical_module B)))"
  then have "\<lparr>fd_path = rel, fd_line = line, fd_rule = ''def '' @ bg_required_symbol B\<rparr> \<in> set (redefinitions B rel t)"
    unfolding redefinitions_def
    by (intro in_walk_concat [of "FunctionDef (bg_required_symbol B) args body rest line"]) simp_all
  then show ?thesis by auto
qed

text \<open>C36: A file that the linter passes, that is not the canonical module and that the policy does not except, opens no
  listener without the guard: if it calls one of the functions that create a listener, it imports the guard by its
  name, from whatever module, as re-exports are allowed, and calls it under the name it imported; and a function of the guard's own name in it is an adapter, whose body calls a guard imported
  from the canonical module under another name.  A relative import counts as one from the canonical module when
  its last segment is that of the canonical module, as the linter does not resolve packages.\<close>

theorem passed_file_is_guarded:
  assumes "bind_scan_file B rel (Inr tree) = []" "rel \<notin> set (bg_exceptions B)" "dotted_module rel \<noteq> bg_canonical_module B"
  shows "(below (Call f args kws line) tree \<and> call_name (Call f args kws line) = Some n \<and> n \<in> set LISTENER_TRIGGERS \<longrightarrow>
      (\<exists>level m names a c. below (ImportFrom level m names) tree \<and> a \<in> set names \<and> fst a = bg_required_symbol B \<and>
         below c tree \<and> call_name c = Some (bound_name a))) \<and>
    (below (FunctionDef (bg_required_symbol B) params body rest line') tree \<longrightarrow>
      (\<exists>level m names a c. below (ImportFrom level m names) tree \<and>
         (if level = 0 then (case m of None \<Rightarrow> [] | Some x \<Rightarrow> x) = bg_canonical_module B
          else last_segment (case m of None \<Rightarrow> [] | Some x \<Rightarrow> x) = last_segment (bg_canonical_module B)) \<and>
         a \<in> set names \<and> fst a = bg_required_symbol B \<and>
         below c (Other_Node body) \<and> call_name c = Some (bound_name a) \<and> bound_name a \<noteq> bg_required_symbol B))"
proof (intro conjI impI)
  assume call: "below (Call f args kws line) tree \<and> call_name (Call f args kws line) = Some n \<and> n \<in> set LISTENER_TRIGGERS"
  then have "(line, n) \<in> set (listener_triggers tree)" by (intro trigger_listed) auto
  then have "calls_any tree (guard_import_aliases tree (bg_required_symbol B))"
    using assms by (auto simp: bind_scan_file_def Let_def split: if_splits)
  then show "\<exists>level m names a c. below (ImportFrom level m names) tree \<and> a \<in> set names \<and> fst a = bg_required_symbol B \<and>
         below c tree \<and> call_name c = Some (bound_name a)"
    unfolding calls_any_below guard_alias_imported by blast
next
  assume d: "below (FunctionDef (bg_required_symbol B) params body rest line') tree"
  have "redefinitions B rel tree = []" using assms by (simp add: bind_scan_file_def Let_def)
  with redefinition_listed [OF d] have "calls_any (Other_Node body)
      (removeAll (bg_required_symbol B) (canonical_aliases tree (bg_required_symbol B) (bg_canonical_module B)))" by blast
  then obtain c n where c: "below c (Other_Node body)" "call_name c = Some n" "n \<noteq> bg_required_symbol B"
    "n \<in> set (canonical_aliases tree (bg_required_symbol B) (bg_canonical_module B))"
    by (auto simp: calls_any_below)
  from canonical_alias_imported [OF this(4)] obtain level m names a where
    a: "below (ImportFrom level m names) tree" "a \<in> set names" "fst a = bg_required_symbol B" "n = bound_name a"
      "(level = 0 \<and> (case m of None \<Rightarrow> [] | Some x \<Rightarrow> x) = bg_canonical_module B) \<or>
       (0 < level \<and> last_segment (case m of None \<Rightarrow> [] | Some x \<Rightarrow> x) = last_segment (bg_canonical_module B))"
    by blast
  from a(5) have "if level = 0 then (case m of None \<Rightarrow> [] | Some x \<Rightarrow> x) = bg_canonical_module B
      else last_segment (case m of None \<Rightarrow> [] | Some x \<Rightarrow> x) = last_segment (bg_canonical_module B)"
    by auto
  with a c(1-3) show "\<exists>level m names a c. below (ImportFrom level m names) tree \<and>
      (if level = 0 then (case m of None \<Rightarrow> [] | Some x \<Rightarrow> x) = bg_canonical_module B
       else last_segment (case m of None \<Rightarrow> [] | Some x \<Rightarrow> x) = last_segment (bg_canonical_module B)) \<and>
      a \<in> set names \<and> fst a = bg_required_symbol B \<and> below c (Other_Node body) \<and> call_name c = Some (bound_name a) \<and>
      bound_name a \<noteq> bg_required_symbol B"
    by blast
qed

section \<open>The linter of literals\<close>

lemma port_assignment:
  "p \<in> set (case node of Assign targets (Constant (PInt i) _) \<Rightarrow> if A targets then [i] else [] | _ \<Rightarrow> []) \<longleftrightarrow>
   (\<exists>targets l. node = Assign targets (Constant (PInt p) l) \<and> A targets)"
proof (cases node)
  case (Assign targets v)
  then show ?thesis
  proof (cases v)
    case (Constant c l)
    with Assign show ?thesis by (cases c) auto
  qed simp_all
qed simp_all

lemma load_port_table_iff:
  assumes "load_port_table D = Inr ports"
  shows "p \<in> set ports \<longleftrightarrow>
    (\<exists>targets l name. below (Assign targets (Constant (PInt p) l)) D \<and> Name name \<in> set targets \<and> take 5 name = ''PORT_'')"
proof -
  have "(case t of Name n \<Rightarrow> take 5 n = ''PORT_'' | _ \<Rightarrow> False) \<longleftrightarrow> (\<exists>n. t = Name n \<and> take 5 n = ''PORT_'')" for t
    by (cases t) auto
  then have *: "list_ex (\<lambda>t. case t of Name n \<Rightarrow> take 5 n = ''PORT_'' | _ \<Rightarrow> False) targets \<longleftrightarrow>
      (\<exists>name. Name name \<in> set targets \<and> take 5 name = ''PORT_'')" for targets
    by (auto simp: list_ex_iff)
  have eq: "ports = concat (map (\<lambda>node. case node of
            Assign targets (Constant (PInt i) _) \<Rightarrow>
              if list_ex (\<lambda>t. case t of Name n \<Rightarrow> take 5 n = ''PORT_'' | _ \<Rightarrow> False) targets then [i] else []
          | _ \<Rightarrow> []) (ast_walk D))"
    using assms unfolding load_port_table_def Let_def by (metis sum.distinct(1) sum.inject(2))
  show ?thesis unfolding eq walk_concat_iff port_assignment * by blast
qed

lemma magic_findings_rule: "magic_findings rel bs = Inr fs \<Longrightarrow> f \<in> set fs \<Longrightarrow> fd_path f = rel \<and> fd_rule f = ''magics''"
  by (induction rel bs arbitrary: fs rule: magic_findings.induct) (auto simp: then_ok_Inr_iff split: if_splits)

lemma constant_findings_path: "f \<in> set (constant_findings ports rel n) \<Longrightarrow> fd_path f = rel"
proof (cases n)
  case (Constant v l)
  then show "f \<in> set (constant_findings ports rel n) \<Longrightarrow> fd_path f = rel"
    by (cases v) (auto simp: constant_findings_def int_value_def split: if_splits)
qed (simp_all add: constant_findings_def)

lemma ports_finding:
  "\<lparr>fd_path = rel, fd_line = l, fd_rule = ''ports''\<rparr> \<in> set (constant_findings ports rel n) \<longleftrightarrow>
   (\<exists>i. n = Constant (PInt i) l \<and> i \<in> set ports)"
proof (cases n)
  case (Constant v l')
  then show ?thesis by (cases v) (auto simp: constant_findings_def int_value_def)
qed (simp_all add: constant_findings_def)

lemma scan_file_path: "literal_scan_file ports rel src = Inr fs \<Longrightarrow> f \<in> set fs \<Longrightarrow> fd_path f = rel"
  by (auto simp: literal_scan_file_def then_ok_Inr_iff dest: magic_findings_rule constant_findings_path split: sum.splits)

lemma scan_file_ports:
  assumes "literal_scan_file ports rel (Inr tree) = Inr fs"
  shows "\<lparr>fd_path = rel, fd_line = l, fd_rule = ''ports''\<rparr> \<in> set fs \<longleftrightarrow>
    (\<exists>i. below (Constant (PInt i) l) tree \<and> i \<in> set ports)"
proof -
  obtain ms where ms: "magic_findings rel (iter_magic_bindings tree) = Inr ms"
    and fs: "fs = concat (map (constant_findings ports rel) (ast_walk tree)) @ ms"
    using assms by (auto simp: literal_scan_file_def then_ok_Inr_iff)
  have "\<lparr>fd_path = rel, fd_line = l, fd_rule = ''ports''\<rparr> \<notin> set ms" using magic_findings_rule [OF ms] by fastforce
  then show ?thesis unfolding fs set_append Un_iff walk_concat_iff ports_finding by blast
qed

lemma scan_files_member:
  assumes "literal_scan_files ports parse files = Inr fs" "rel \<in> set files" "fd_path f = rel"
  shows "\<exists>here. literal_scan_file ports rel (parse rel) = Inr here \<and> (f \<in> set fs \<longleftrightarrow> f \<in> set here)"
  using assms
proof (induction files arbitrary: fs)
  case (Cons g files)
  from Cons.prems(1) obtain here more where h: "literal_scan_file ports g (parse g) = Inr here"
    "literal_scan_files ports parse files = Inr more" "fs = here @ more" by (auto simp: then_ok_Inr_iff)
  have others: "f \<in> set more \<Longrightarrow> rel \<in> set files"
  proof -
    have "literal_scan_files ports parse gs = Inr ms \<Longrightarrow> f \<in> set ms \<Longrightarrow> fd_path f \<in> set gs" for gs ms
      by (induction gs arbitrary: ms) (auto simp: then_ok_Inr_iff dest: scan_file_path)
    from this [OF h(2)] Cons.prems(3) show "f \<in> set more \<Longrightarrow> rel \<in> set files" by simp
  qed
  show ?case
  proof (cases "rel \<in> set files")
    case True
    from Cons.IH [OF h(2) True Cons.prems(3)] obtain here' where
      "literal_scan_file ports rel (parse rel) = Inr here'" "f \<in> set more \<longleftrightarrow> f \<in> set here'" by blast
    moreover have "f \<in> set here \<Longrightarrow> g = rel" using scan_file_path [OF h(1)] Cons.prems(3) by blast
    ultimately show ?thesis using h by auto
  next
    case False
    with Cons.prems(2) h others show ?thesis by auto
  qed
qed simp

text \<open>C37: The rule of one home: in a file that was scanned, an integer is reported as a retyped port exactly when
  it is the value of an assignment to some name PORT_... in the defaults module, wherever in the tree of the
  file it stands; the report counts as a violation exactly when the policy does not waive the rule for that
  file, and nothing else decides it.\<close>

theorem ports_have_one_home:
  assumes "literal_scan_repo glob parse (Some D) L = Inr (violations, excepted, n)"
    "rel \<in> set (scan_files glob LITERAL_SCAN_GLOBS [lg_defaults_module L])" "parse rel = Inr tree"
    "report = \<lparr>fd_path = rel, fd_line = line, fd_rule = ''ports''\<rparr>"
  shows "(report \<in> set violations \<union> set excepted \<longleftrightarrow>
      (\<exists>p. below (Constant (PInt p) line) tree \<and>
        (\<exists>targets l name. below (Assign targets (Constant (PInt p) l)) D \<and> Name name \<in> set targets \<and> take 5 name = ''PORT_''))) \<and>
    (report \<in> set violations \<longrightarrow> \<not> waived L report) \<and> (report \<in> set excepted \<longrightarrow> waived L report)"
proof -
  from assms(1) obtain ports fs where p: "load_port_table D = Inr ports"
    and f: "literal_scan_files ports parse (scan_files glob LITERAL_SCAN_GLOBS [lg_defaults_module L]) = Inr fs"
    and split: "violations = filter (\<lambda>f. \<not> waived L f) fs" "excepted = filter (waived L) fs"
    by (auto simp: literal_scan_repo_def split_findings_def Let_def split: sum.splits)
  obtain here where h: "literal_scan_file ports rel (Inr tree) = Inr here" "report \<in> set fs \<longleftrightarrow> report \<in> set here"
    using scan_files_member [OF f assms(2), of report] assms(3,4) by auto
  have "report \<in> set violations \<union> set excepted \<longleftrightarrow> report \<in> set fs" by (auto simp: split)
  with h scan_file_ports [OF h(1), of line] load_port_table_iff [OF p] show ?thesis
    by (auto simp: split assms(4))
qed

section \<open>The scope freeze\<close>

definition literal_glob :: "string \<Rightarrow> bool" where
  "literal_glob d \<longleftrightarrow> CHR ''*'' \<notin> set d \<and> CHR ''?'' \<notin> set d \<and> CHR ''['' \<notin> set d"

lemma glob_literal:
  "literal_glob d \<Longrightarrow> fnmatchcase s (d @ p) \<longleftrightarrow> (\<exists>s'. s = d @ s' \<and> fnmatchcase s' p)"
proof (induction d arbitrary: s)
  case (Cons c d)
  then have "literal_glob d" "c \<noteq> CHR ''*''" "c \<noteq> CHR ''?''" "c \<noteq> CHR ''[''" by (auto simp: literal_glob_def)
  with Cons.IH show ?case by (cases s) auto
qed simp

lemma glob_star: "fnmatchcase s ''*''"
  by (induction s) simp_all

lemma glob_tree:
  assumes "literal_glob d"
  shows "match_globs rel [d @ ''/**''] = (if rel = d \<or> (\<exists>x. rel = d @ slash # x) then Some (d @ ''/**'') else None)"
proof -
  have star: "fnmatchcase s ''**''" for s
    using glob_star [of s] by (cases s) auto
  have "fnmatchcase s ''/**'' \<longleftrightarrow> (\<exists>x. s = slash # x)" for s
    using star by (cases s) (auto simp: slash_def)
  then have 1: "fnmatchcase rel (d @ ''/**'') \<longleftrightarrow> (\<exists>x. rel = d @ slash # x)"
    by (auto simp: glob_literal [OF assms])
  have 2: "fnmatchcase s d \<longleftrightarrow> s = d" for s using glob_literal [OF assms, of s "[]"] by simp
  have 3: "ends_with (d @ ''/**'') ''/**''" by (simp add: ends_with_def)
  show ?thesis by (auto simp: 1 2 3)
qed

text \<open>A policy that freezes one directory: while its gate is closed and no override is set, the hook denies
  a change exactly when the file it names, however it is spelled, resolves to the directory itself or to a
  place below it at any depth; a change anywhere else is allowed.\<close>

theorem freeze_covers_tree:
  assumes "literal_glob d" "gc_command_emission_globs G = [d @ ''/**'']" "gc_scope_widening_globs G = []"
    "\<not> gc_c_gate_met G" "env (gc_override_env_var G) \<in> {None, Some []}" "payload_path payload = Some f"
  shows "scope_freeze resolve payload (Some (repo, G)) env =
    (case to_repo_relative resolve repo f of
       None \<Rightarrow> Allow
     | Some rel \<Rightarrow>
         if rel = d \<or> (\<exists>x. rel = d @ slash # x) then Deny Command_Emission rel (d @ ''/**'') else Allow)"
  using assms(2-6) by (auto simp: scope_freeze_def freeze_evaluate_def glob_tree [OF assms(1)]
      simp del: match_globs.simps(2) split: option.splits)

text \<open>Two spellings of one place get one answer.\<close>

theorem freeze_ignores_spelling:
  assumes "payload_path p1 = Some f1" "payload_path p2 = Some f2"
    "to_repo_relative resolve repo f1 = to_repo_relative resolve repo f2"
  shows "scope_freeze resolve p1 (Some (repo, G)) env = scope_freeze resolve p2 (Some (repo, G)) env"
  using assms by (simp add: scope_freeze_def freeze_evaluate_def)

section \<open>Examples\<close>

text \<open>Resolution without links: a component of two dots removes the one before it.\<close>

definition no_links :: "string list \<Rightarrow> string list" where
  "no_links parts = foldl (\<lambda>acc p. if p = ''..'' then butlast acc else acc @ [p]) [] parts"

definition sample_policy :: governance_config where
  "sample_policy =
     \<lparr>gc_c_gate_met = False, gc_override_env_var = ''OVERRIDE'', gc_command_emission_globs = [''src/cmd/**''],
      gc_scope_widening_globs = [],
      gc_bind_guard = \<lparr>bg_required_symbol = ''validate_bind'', bg_canonical_module = ''meshsa.netauth'', bg_exceptions = []\<rparr>,
      gc_literal_guard = None\<rparr>"

definition edit_of :: "string \<Rightarrow> json option" where
  "edit_of f = Some (JObj [(''tool_name'', JStr ''Edit''), (''tool_input'', JObj [(''file_path'', JStr f)])])"

theorem freeze_covers_tree_witness:
  "scope_freeze no_links (edit_of ''/repo/docs/../src/cmd/a/b.py'') (Some ([''repo''], sample_policy)) Map.empty =
     Deny Command_Emission ''src/cmd/a/b.py'' ''src/cmd/**'' \<and>
   scope_freeze no_links (edit_of ''src/cmdline.py'') (Some ([''repo''], sample_policy)) Map.empty = Allow"
proof -
  have h: "literal_glob ''src/cmd''" "gc_command_emission_globs sample_policy = [''src/cmd'' @ ''/**'']"
    "gc_scope_widening_globs sample_policy = []" "\<not> gc_c_gate_met sample_policy"
    "Map.empty (gc_override_env_var sample_policy) \<in> {None, Some []}" "payload_path (edit_of (c # f)) = Some (c # f)" for c f
    by (simp_all add: literal_glob_def sample_policy_def payload_path_def edit_of_def)
  have r: "to_repo_relative no_links [''repo''] ''/repo/docs/../src/cmd/a/b.py'' = Some ''src/cmd/a/b.py''"
    "to_repo_relative no_links [''repo''] ''src/cmdline.py'' = Some ''src/cmdline.py''"
    by code_simp+
  show ?thesis
    using freeze_covers_tree [OF h(1-6), where resolve = no_links and repo = "[''repo'']"] r by (simp add: slash_def)
qed

text \<open>A service that binds behind the guard, and the same service with a port typed in.\<close>

definition sample_service :: pynode where
  "sample_service = Other_Node
     [ImportFrom 1 (Some ''netauth'') [(''validate_bind'', Some ''_validate_bind'')],
      FunctionDef ''validate_bind'' (Arguments [] [Arg ''host'' None] None [] [] None [])
        [Call (Name ''_validate_bind'') [Name ''host''] [] 4] [] 3,
      Call (Attribute (Name ''web'') ''run_app'') [Name ''app''] [Keyword (Some ''port'') (Constant (PInt 8099) 7)] 7,
      ImportFrom 0 (Some ''meshsa'') [(''validate_bind'', None)], Call (Name ''validate_bind'') [] [] 6]"

theorem passed_file_is_guarded_witness:
  "bind_scan_file (gc_bind_guard sample_policy) ''packages/x/src/x/app.py'' (Inr sample_service) = [] \<and>
   (\<exists>level m names a c. below (ImportFrom level m names) sample_service \<and> a \<in> set names \<and> fst a = ''validate_bind'' \<and>
      below c sample_service \<and> call_name c = Some (bound_name a))"
proof -
  let ?call = "Call (Attribute (Name ''web'') ''run_app'') [Name ''app''] [Keyword (Some ''port'') (Constant (PInt 8099) 7)] 7"
  have clean: "bind_scan_file (gc_bind_guard sample_policy) ''packages/x/src/x/app.py'' (Inr sample_service) = []"
    by code_simp
  have "dotted_module ''packages/x/src/x/app.py'' = ''x.app''" by code_simp
  then have "''packages/x/src/x/app.py'' \<notin> set (bg_exceptions (gc_bind_guard sample_policy))"
    "dotted_module ''packages/x/src/x/app.py'' \<noteq> bg_canonical_module (gc_bind_guard sample_policy)"
    by (simp_all add: sample_policy_def)
  note facts = passed_file_is_guarded [OF clean this]
  have "below ?call sample_service" by (auto simp: sample_service_def intro: below.intros)
  moreover have "call_name ?call = Some ''run_app''" "''run_app'' \<in> set LISTENER_TRIGGERS"
    "bg_required_symbol (gc_bind_guard sample_policy) = ''validate_bind''"
    by (simp_all add: call_name_def LISTENER_TRIGGERS_def sample_policy_def)
  ultimately show ?thesis
    using facts [of "Attribute (Name ''web'') ''run_app''" "[Name ''app'']" "[Keyword (Some ''port'') (Constant (PInt 8099) 7)]" 7 "''run_app''"]
      clean by auto
qed

definition sample_defaults :: pynode where
  "sample_defaults = Other_Node [Assign [Name ''PORT_UI''] (Constant (PInt 8099) 1), Assign [Name ''DEFAULT''] (Constant (PInt 7) 2)]"

definition sample_literals :: literal_guard_config where
  "sample_literals = \<lparr>lg_defaults_module = ''defaults.py'', lg_exceptions = []\<rparr>"

definition sample_glob :: "string \<Rightarrow> string list" where
  "sample_glob p = (if p = ''flightctl/**/*.py'' then [''flightctl/app.py''] else [])"

theorem ports_have_one_home_witness:
  "\<exists>violations excepted. literal_scan_repo sample_glob (\<lambda>_. Inr sample_service) (Some sample_defaults) sample_literals =
      Inr (violations, excepted, 1) \<and>
    \<lparr>fd_path = ''flightctl/app.py'', fd_line = 7, fd_rule = ''ports''\<rparr> \<in> set violations"
proof -
  let ?report = "\<lparr>fd_path = ''flightctl/app.py'', fd_line = 7, fd_rule = ''ports''\<rparr>"
  have files: "scan_files sample_glob LITERAL_SCAN_GLOBS [lg_defaults_module sample_literals] = [''flightctl/app.py'']"
    by (simp add: scan_files_def LITERAL_SCAN_GLOBS_def sample_glob_def sample_literals_def)
  have "load_port_table sample_defaults = Inr [8099]"
    by (simp add: load_port_table_def sample_defaults_def ast_walk_def)
  moreover have "magic_findings rel (iter_magic_bindings sample_service) = Inr []" for rel
  proof -
    have "iter_magic_bindings sample_service = []" by code_simp
    then show ?thesis by simp
  qed
  ultimately obtain violations excepted where
    r: "literal_scan_repo sample_glob (\<lambda>_. Inr sample_service) (Some sample_defaults) sample_literals = Inr (violations, excepted, 1)"
    by (simp add: literal_scan_repo_def files literal_scan_file_def split_findings_def)
  have b: "below (Constant (PInt 8099) 7) sample_service" "below (Assign [Name ''PORT_UI''] (Constant (PInt 8099) 1)) sample_defaults"
    by (rule walked_below, simp add: sample_service_def sample_defaults_def)+
  have "\<exists>p. below (Constant (PInt p) 7) sample_service \<and> (\<exists>targets l name.
      below (Assign targets (Constant (PInt p) l)) sample_defaults \<and> Name name \<in> set targets \<and> take 5 name = ''PORT_'')"
    by (rule exI [of _ 8099], intro conjI, rule b(1), rule exI, rule exI, rule exI [of _ "''PORT_UI''"], intro conjI, rule b(2)) simp_all
  moreover have "\<not> waived sample_literals ?report" by (simp add: waived_def sample_literals_def)
  moreover have "''flightctl/app.py'' \<in> set (scan_files sample_glob LITERAL_SCAN_GLOBS [lg_defaults_module sample_literals])"
    by (simp add: files)
  ultimately have "?report \<in> set violations"
    using ports_have_one_home [OF r _ refl refl, of "''flightctl/app.py''" 7] by blast
  with r show ?thesis by blast
qed

end
