(* ===== verification/Vision_Shell.thy ===== *)
theory Vision_Shell
  imports Landing_Target Py_Paths Py_Format
begin

text \<open>
  Around the frame loop (\<^verbatim>\<open>jetson_yolo_gcs\<close>): the settings with their ranges (\<^verbatim>\<open>core/config.py\<close>), the capture and
  egress pipelines and the gate of the egress (\<^verbatim>\<open>streaming/\<close>), the choice of a detector and the reading of what
  a model returns (\<^verbatim>\<open>detection/\<close>), the tracker backend (\<^verbatim>\<open>tracking/norfair_backend.py\<close>), and the telemetry of the
  device (\<^verbatim>\<open>utils/jetson.py\<close>).  OpenCV, the models and the tracking library are parameters.
\<close>

section \<open>Settings\<close>

datatype camera_type = USB | CSI | RTSP
datatype stream_encoder = X264 | NVV4L2

record yolo_settings =
  ys_model_path :: string
  ys_confidence :: real
  ys_iou :: real
  ys_device :: string
  ys_imgsz :: int

definition yolo_settings_ok :: "yolo_settings \<Rightarrow> bool" where
  "yolo_settings_ok S \<longleftrightarrow> 0 \<le> ys_confidence S \<and> ys_confidence S \<le> 1 \<and> 0 \<le> ys_iou S \<and> ys_iou S \<le> 1 \<and> 0 < ys_imgsz S"

record camera_settings =
  cs_type :: camera_type
  cs_source :: string
  cs_width :: int
  cs_height :: int
  cs_fps :: int
  cs_rtsp_latency_ms :: int

definition camera_settings_ok :: "camera_settings \<Rightarrow> bool" where
  "camera_settings_ok S \<longleftrightarrow> 0 < cs_width S \<and> 0 < cs_height S \<and> 0 < cs_fps S \<and> 0 \<le> cs_rtsp_latency_ms S"

record stream_settings =
  ss_enabled :: bool
  ss_host :: string
  ss_port :: int
  ss_encoder :: stream_encoder
  ss_bitrate_kbps :: int

definition stream_settings_ok :: "stream_settings \<Rightarrow> bool" where
  "stream_settings_ok S \<longleftrightarrow> 0 < ss_port S \<and> ss_port S \<le> 65535 \<and> 0 < ss_bitrate_kbps S"

definition default_stream_settings :: stream_settings where
  "default_stream_settings =
     \<lparr>ss_enabled = False, ss_host = ''127.0.0.1'', ss_port = 5600, ss_encoder = X264, ss_bitrate_kbps = 4000\<rparr>"

record tracker_settings =
  ts_enabled :: bool
  ts_backend :: string
  ts_distance_function :: string
  ts_distance_threshold :: real
  ts_hit_counter_max :: int
  ts_initialization_delay :: int

definition tracker_settings_ok :: "tracker_settings \<Rightarrow> bool" where
  "tracker_settings_ok S \<longleftrightarrow> 0 < ts_distance_threshold S \<and> 0 < ts_hit_counter_max S \<and> 0 \<le> ts_initialization_delay S"

section \<open>Pipelines\<close>

definition build_capture_pipeline :: "camera_settings \<Rightarrow> string" where
  "build_capture_pipeline S =
     (let caps = ''width='' @ str_int (cs_width S) @ '',height='' @ str_int (cs_height S) @ '',framerate='' @ str_int (cs_fps S) @ ''/1''
      in case cs_type S of
           USB \<Rightarrow>
             ''v4l2src device='' @ cs_source S @ '' ! '' @ ''video/x-raw,'' @ caps @ '' ! videoconvert ! '' @
             ''video/x-raw,format=BGR ! appsink drop=true max-buffers=1''
         | CSI \<Rightarrow>
             ''nvarguscamerasrc sensor-id='' @ cs_source S @ '' ! '' @ ''video/x-raw(memory:NVMM),'' @ caps @ '' ! '' @
             ''nvvidconv ! video/x-raw,format=BGRx ! videoconvert ! '' @
             ''video/x-raw,format=BGR ! appsink drop=true max-buffers=1''
         | RTSP \<Rightarrow>
             ''rtspsrc location='' @ cs_source S @ '' latency='' @ str_int (cs_rtsp_latency_ms S) @ '' ! '' @
             ''rtph264depay ! h264parse ! avdec_h264 ! videoconvert ! '' @
             ''video/x-raw,format=BGR ! appsink drop=true max-buffers=1'')"

definition encoder_fragment :: "stream_settings \<Rightarrow> string" where
  "encoder_fragment S =
     (case ss_encoder S of
        X264 \<Rightarrow>
          ''x264enc tune=zerolatency bitrate='' @ str_int (ss_bitrate_kbps S) @ '' speed-preset=ultrafast ! '' @
          ''video/x-h264,profile=baseline ! h264parse''
      | NVV4L2 \<Rightarrow>
          ''nvvidconv ! video/x-raw(memory:NVMM),format=NV12 ! '' @
          ''nvv4l2h264enc bitrate='' @ str_int (ss_bitrate_kbps S * 1000) @ '' insert-sps-pps=true ! h264parse'')"

definition build_stream_pipeline :: "stream_settings \<Rightarrow> string" where
  "build_stream_pipeline S =
     ''appsrc ! videoconvert ! '' @ encoder_fragment S @ '' ! '' @
     ''rtph264pay config-interval=1 pt=96 ! '' @ ''udpsink host='' @ ss_host S @ '' port='' @ str_int (ss_port S)"

datatype vision_exn =
    Detection_Error | Unknown_Backend_Error | Assertion_Error | Vision_Raised py_exn

text \<open>The gate of the egress: the warnings it logs, and the writer the factory builds, if any.\<close>

definition create_stream_writer ::
  "stream_settings \<Rightarrow> (stream_settings \<Rightarrow> 'w \<Rightarrow> (vision_exn + 's) \<times> 'w) \<Rightarrow> 'w \<Rightarrow>
     (vision_exn + 's option) \<times> (string \<times> int) list \<times> 'w" where
  "create_stream_writer S build w =
     (if \<not> ss_enabled S then (Inr None, [], w)
      else case build S w of
        (Inl e, w') \<Rightarrow> (Inl e, [(ss_host S, ss_port S)], w')
      | (Inr s, w') \<Rightarrow> (Inr (Some s), [(ss_host S, ss_port S)], w'))"

lemma stream_off_by_default: "create_stream_writer default_stream_settings build w = (Inr None, [], w)"
  by (simp add: create_stream_writer_def default_stream_settings_def)

section \<open>Detectors\<close>

definition EXTENSION_BACKENDS :: "(string \<times> string) list" where
  "EXTENSION_BACKENDS =
     [(''.pt'', ''ultralytics''), (''.engine'', ''ultralytics''), (''.onnx'', ''ultralytics''), (''.hef'', ''hailo'')]"

definition backend_for_path :: "string \<Rightarrow> vision_exn + string" where
  "backend_for_path model_path =
     (case map_of EXTENSION_BACKENDS (py_lower (path_suffix model_path)) of
        None \<Rightarrow> Inl Unknown_Backend_Error
      | Some b \<Rightarrow> Inr b)"

text \<open>What a model returns for one frame: parallel arrays of boxes, classes and confidences, the class names,
  and the shape of the image, height first.\<close>

record model_result =
  mr_names :: "int \<rightharpoonup> string"
  mr_count :: nat
  mr_xyxy :: "real list list"
  mr_cls :: "real list"
  mr_conf :: "real list"
  mr_orig_shape :: "int list"

definition read_box :: "model_result \<Rightarrow> nat \<Rightarrow> vision_exn + seen_object" where
  "read_box R i =
     (if length (mr_xyxy R) \<le> i then Inl Detection_Error
      else case mr_xyxy R ! i of
        [x1, y1, x2, y2] \<Rightarrow>
          (if length (mr_cls R) \<le> i then Inl Detection_Error
           else if length (mr_conf R) \<le> i then Inl Detection_Error
           else
             (let class_id = py_trunc (mr_cls R ! i)
              in Inr \<lparr>so_class_id = class_id,
                      so_class_name = (case mr_names R class_id of Some n \<Rightarrow> n | None \<Rightarrow> str_int class_id),
                      so_confidence = mr_conf R ! i, so_bbox = (x1, y1, x2, y2)\<rparr>))
      | _ \<Rightarrow> Inl (Vision_Raised ValueError))"

fun read_boxes :: "model_result \<Rightarrow> nat list \<Rightarrow> vision_exn + seen_object list" where
  "read_boxes R [] = Inr []"
| "read_boxes R (i # is) =
     (case read_box R i of
        Inl e \<Rightarrow> Inl e
      | Inr d \<Rightarrow> (case read_boxes R is of Inl e \<Rightarrow> Inl e | Inr ds \<Rightarrow> Inr (d # ds)))"

definition ultralytics_detect :: "model_result list \<Rightarrow> vision_exn + detection_result" where
  "ultralytics_detect results =
     (case results of
        [] \<Rightarrow> Inl Detection_Error
      | R # _ \<Rightarrow>
          (case read_boxes R [0..<mr_count R] of
             Inl e \<Rightarrow> Inl e
           | Inr ds \<Rightarrow>
               (case mr_orig_shape R of
                  [height, width] \<Rightarrow> Inr \<lparr>dr_detections = ds, dr_width = width, dr_height = height\<rparr>
                | _ \<Rightarrow> Inl (Vision_Raised ValueError))))"

lemma read_boxes_nth:
  "read_boxes R is = Inr ds \<Longrightarrow> length ds = length is \<and> (\<forall>k < length is. read_box R (is ! k) = Inr (ds ! k))"
proof (induction "is" arbitrary: ds)
  case (Cons i "is")
  then obtain d ds' where "read_box R i = Inr d" "read_boxes R is = Inr ds'" "ds = d # ds'"
    by (auto split: sum.splits)
  with Cons.IH show ?case by (auto simp: nth_Cons split: nat.split)
qed simp

lemma read_box_ok:
  "read_box R i = Inr d \<Longrightarrow> so_confidence d = mr_conf R ! i \<and> so_class_id d = py_trunc (mr_cls R ! i) \<and>
     (case so_bbox d of (x1, y1, x2, y2) \<Rightarrow> mr_xyxy R ! i = [x1, y1, x2, y2])"
  by (auto simp: read_box_def Let_def split: if_splits list.splits)

text \<open>A result has one detection per box, in the order of the boxes, with that box's corners and confidence.\<close>

lemma ultralytics_faithful:
  assumes "ultralytics_detect (R # others) = Inr D"
  shows "length (dr_detections D) = mr_count R \<and>
    (\<forall>i < mr_count R. so_confidence (dr_detections D ! i) = mr_conf R ! i \<and>
       so_class_id (dr_detections D ! i) = py_trunc (mr_cls R ! i) \<and>
       (case so_bbox (dr_detections D ! i) of (x1, y1, x2, y2) \<Rightarrow> mr_xyxy R ! i = [x1, y1, x2, y2]))"
proof -
  from assms have "read_boxes R [0..<mr_count R] = Inr (dr_detections D)"
    by (auto simp: ultralytics_detect_def split: sum.splits list.splits)
  from read_boxes_nth [OF this] have "length (dr_detections D) = mr_count R"
    and each: "\<And>i. i < mr_count R \<Longrightarrow> read_box R i = Inr (dr_detections D ! i)" by simp_all
  then show ?thesis by (intro conjI allI impI read_box_ok [OF each, THEN conjunct1]
      read_box_ok [OF each, THEN conjunct2, THEN conjunct1] read_box_ok [OF each, THEN conjunct2, THEN conjunct2])
qed

section \<open>The tracker backend\<close>

text \<open>A detection of a frame with its identity as an object, and what the tracking library keeps of a track.\<close>

type_synonym frame_object = "nat \<times> seen_object"

record tracked_object =
  to_id :: "int option"
  to_last_detection :: "frame_object option"

record tracked_detection =
  td_detection :: seen_object
  td_track_id :: int

text \<open>One update: the library gets the frame's objects and answers with its active tracks.  A closed tracker
  fails its assertion.\<close>

fun confirmed :: "nat set \<Rightarrow> tracked_object list \<Rightarrow> tracked_detection list" where
  "confirmed current [] = []"
| "confirmed current (t # ts) =
     (case to_id t of
        None \<Rightarrow> confirmed current ts
      | Some tid \<Rightarrow>
          (case to_last_detection t of
             None \<Rightarrow> confirmed current ts
           | Some (ident, source) \<Rightarrow>
               if ident \<notin> current then confirmed current ts
               else \<lparr>td_detection = source, td_track_id = tid\<rparr> # confirmed current ts))"

definition norfair_update ::
  "'n option \<Rightarrow> ('n \<Rightarrow> frame_object list \<Rightarrow> tracked_object list \<times> 'n) \<Rightarrow> frame_object list \<Rightarrow>
     vision_exn + tracked_detection list \<times> 'n option" where
  "norfair_update tracker update objects =
     (case tracker of
        None \<Rightarrow> Inl Assertion_Error
      | Some n \<Rightarrow>
          (case update n objects of (tracks, n') \<Rightarrow> Inr (confirmed (fst ` set objects) tracks, Some n')))"

definition norfair_close :: "'n option \<Rightarrow> 'n option" where
  "norfair_close tracker = None"

text \<open>Every detection that is emitted is one of this frame's, under the id of a track the library reported with
  that very object; when the library matches no object twice and never reports one id twice, no detection and
  no id is emitted twice.\<close>

lemma confirmed_current:
  "d \<in> set (confirmed current ts) \<Longrightarrow> \<exists>t \<in> set ts. \<exists>ident \<in> current.
     to_id t = Some (td_track_id d) \<and> to_last_detection t = Some (ident, td_detection d)"
  by (induction ts) (auto split: option.splits prod.splits if_splits)

lemma confirmed_ids:
  "distinct (List.map_filter to_id ts) \<Longrightarrow> distinct (map td_track_id (confirmed current ts))"
proof (induction ts)
  case (Cons t ts)
  have "tid \<notin> set (map td_track_id (confirmed current ts))" if "to_id t = Some tid" for tid
  proof
    assume "tid \<in> set (map td_track_id (confirmed current ts))"
    then obtain t' where "t' \<in> set ts" "to_id t' = Some tid" by (auto dest!: confirmed_current)
    then have "tid \<in> set (List.map_filter to_id ts)" by (auto simp: List.map_filter_def intro!: image_eqI [of _ _ t'])
    with Cons.prems that show False by (simp add: map_filter_simps)
  qed
  with Cons show ?case by (auto simp: map_filter_simps split: option.splits prod.splits)
qed simp

theorem tracker_emits_current_frame:
  assumes "norfair_update (Some n) update objects = Inr (out, tracker)" "update n objects = (tracks, n')"
    "\<And>t ident d. t \<in> set tracks \<Longrightarrow> to_last_detection t = Some (ident, d) \<Longrightarrow> ident \<in> fst ` set objects \<Longrightarrow> (ident, d) \<in> set objects"
    "distinct (List.map_filter to_id tracks)"
  shows "td_detection ` set out \<subseteq> snd ` set objects \<and> distinct (map td_track_id out) \<and>
    (\<forall>d \<in> set out. \<exists>t \<in> set tracks. to_id t = Some (td_track_id d))"
proof -
  have out: "out = confirmed (fst ` set objects) tracks" using assms(1,2) by (simp add: norfair_update_def)
  have "td_detection ` set out \<subseteq> snd ` set objects"
    unfolding out using assms(3) by (force dest!: confirmed_current)
  moreover have "distinct (map td_track_id out)" unfolding out by (rule confirmed_ids [OF assms(4)])
  moreover have "\<forall>d \<in> set out. \<exists>t \<in> set tracks. to_id t = Some (td_track_id d)"
    unfolding out by (auto dest!: confirmed_current)
  ultimately show ?thesis by blast
qed

section \<open>The device\<close>

definition should_log_throttled :: "int \<Rightarrow> int \<Rightarrow> bool" where
  "should_log_throttled count every \<longleftrightarrow> count = 1 \<or> count mod every = 0"

text \<open>The first occurrence is logged, and of \<open>n\<close> rounds of \<open>every\<close> occurrences the last of each.\<close>

lemma throttled_logs:
  assumes "0 < every"
  shows "should_log_throttled 1 every" "should_log_throttled (every * n) every"
    "0 < k \<Longrightarrow> k < every \<Longrightarrow> 0 \<le> n \<Longrightarrow> should_log_throttled (every * n + k) every \<longleftrightarrow> every * n + k = 1"
  using assms by (auto simp: should_log_throttled_def)

text \<open>The three expressions of \<^verbatim>\<open>parse_tegrastats\<close>; a word character is a letter, a digit or an underscore.\<close>

definition word_char :: "char \<Rightarrow> bool" where
  "word_char c \<longleftrightarrow> is_digit c \<or> c = CHR ''_'' \<or> (65 \<le> code c \<and> code c \<le> 90) \<or> (97 \<le> code c \<and> code c \<le> 122)"

definition starts :: "string \<Rightarrow> string \<Rightarrow> bool" where
  "starts head s \<longleftrightarrow> take (length head) s = head"

definition ram_at :: "string \<Rightarrow> (string \<times> string) option" where
  "ram_at s =
     (let used = takeWhile is_digit (drop 4 s); r = drop (4 + length used) s;
          whole = takeWhile is_digit (tl r)
      in if starts ''RAM '' s \<and> used \<noteq> [] \<and> starts ''/'' r \<and> whole \<noteq> [] \<and> starts ''MB'' (drop (length whole) (tl r))
         then Some (used, whole) else None)"

definition gpu_at :: "string \<Rightarrow> string option" where
  "gpu_at s =
     (let pct = takeWhile is_digit (drop 10 s)
      in if starts ''GR3D_FREQ '' s \<and> pct \<noteq> [] \<and> starts ''%'' (drop (10 + length pct) s) then Some pct else None)"

fun search_in :: "(string \<Rightarrow> 'a option) \<Rightarrow> string \<Rightarrow> 'a option" where
  "search_in here [] = here []"
| "search_in here (c # cs) = (case here (c # cs) of Some x \<Rightarrow> Some x | None \<Rightarrow> search_in here cs)"

function temperatures :: "string \<Rightarrow> (string \<times> string) list" where
  "temperatures [] = []"
| "temperatures (c # cs) =
     (if \<not> word_char c then temperatures cs
      else
        (let zone = takeWhile word_char (c # cs); r = dropWhile word_char cs
         in case r of
              [] \<Rightarrow> []
            | a # r1 \<Rightarrow>
                (let temp = takeWhile (\<lambda>c. is_digit c \<or> c = CHR ''.'') r1; r2 = drop (length temp) r1
                 in if a = CHR ''@'' \<and> temp \<noteq> [] \<and> starts ''C'' r2 then (zone, temp) # temperatures (tl r2)
                    else temperatures r)))"
  by pat_completeness auto
termination
proof (relation "measure length")
  fix c cs zone r a r1 temp r2
  assume r: "r = dropWhile word_char cs" "r = a # r1" and r2: "r2 = drop (length temp) r1"
  have "length (a # r1) \<le> length cs"
    using length_dropWhile_le [of word_char cs] by (simp only: r(1) [symmetric] r(2))
  then show "(tl r2, c # cs) \<in> measure length" by (simp add: r2)
next
  fix c cs zone r a r1 temp r2
  assume "r = dropWhile word_char cs"
  then show "(r, c # cs) \<in> measure length" using length_dropWhile_le [of word_char cs] by simp
qed (simp_all add: le_imp_less_Suc length_dropWhile_le)

fun temperature_metrics :: "(string \<times> string) list \<Rightarrow> (string \<times> pyfloat) list \<Rightarrow> py_exn + (string \<times> pyfloat) list" where
  "temperature_metrics [] m = Inr m"
| "temperature_metrics ((zone, temp) # ts) m =
     (case py_float_str temp of
        None \<Rightarrow> Inl ValueError
      | Some x \<Rightarrow> temperature_metrics ts (AList.update (''temp_'' @ py_lower zone) x m))"

definition float_digits :: "string \<Rightarrow> pyfloat" where
  "float_digits ds = (case py_float_str ds of Some x \<Rightarrow> x | None \<Rightarrow> NaN)"

definition parse_tegrastats :: "string \<Rightarrow> py_exn + (string \<times> pyfloat) list" where
  "parse_tegrastats line =
     (let ram = (case search_in ram_at line of
                   None \<Rightarrow> []
                 | Some (used, whole) \<Rightarrow> [(''ram_used_mb'', float_digits used), (''ram_total_mb'', float_digits whole)]);
          gpu = (case search_in gpu_at line of None \<Rightarrow> [] | Some pct \<Rightarrow> [(''gpu_pct'', float_digits pct)])
      in temperature_metrics (temperatures line) (ram @ gpu))"

text \<open>The reading of a line is documented never to raise; a temperature that is only a dot does.\<close>

lemma tegrastats_can_raise: "parse_tegrastats ''CPU@.C'' = Inl ValueError"
  by code_simp

end
