(* ===== verification/Doc_Text.thy ===== *)
theory Doc_Text
  imports Py_Format Py_Paths
begin

text \<open>
  What the document linters of the repository (\<^verbatim>\<open>src/tools/\<close>) use of Python's text functions: lines, words,
  stripping, splitting by a predicate, and the code points of a text.  Case folding, blanks and digits are those
  of the ASCII characters, as everywhere in this development.
\<close>

definition newline_char :: char where "newline_char = CHR 0x0A"
definition back_quote :: char where "back_quote = CHR 0x60"
definition single_quote :: char where "single_quote = CHR 0x27"
definition double_quote :: char where "double_quote = CHR 0x22"

definition line_break :: "char \<Rightarrow> bool" where
  "line_break c = (let n = code c in (10 \<le> n \<and> n \<le> 13) \<or> (28 \<le> n \<and> n \<le> 30))"

text \<open>\<^verbatim>\<open>text.splitlines()\<close>; a carriage return and a line feed together are one break.\<close>

function split_lines :: "string \<Rightarrow> string list" where
  "split_lines [] = []"
| "split_lines (c # cs) =
     (if line_break c
      then [] # split_lines (if code c = 13 \<and> cs \<noteq> [] \<and> hd cs = newline_char then tl cs else cs)
      else (case split_lines cs of [] \<Rightarrow> [[c]] | l # ls \<Rightarrow> (c # l) # ls))"
  by pat_completeness auto
termination
  by (relation "measure length") auto

text \<open>Pieces between the characters of a class, empty ones included; \<^verbatim>\<open>s.split()\<close> keeps the others.\<close>

fun split_on :: "(char \<Rightarrow> bool) \<Rightarrow> string \<Rightarrow> string list" where
  "split_on P [] = [[]]"
| "split_on P (c # cs) =
     (if P c then [] # split_on P cs
      else (case split_on P cs of [] \<Rightarrow> [[c]] | w # ws \<Rightarrow> (c # w) # ws))"

definition words_by :: "(char \<Rightarrow> bool) \<Rightarrow> string \<Rightarrow> string list" where
  "words_by P s = filter (\<lambda>w. w \<noteq> []) (split_on P s)"

definition split_words :: "string \<Rightarrow> string list" where "split_words s = words_by is_space s"

definition lstrip :: "string \<Rightarrow> string" where "lstrip s = dropWhile is_space s"

definition strip_chars :: "char list \<Rightarrow> string \<Rightarrow> string" where
  "strip_chars cs s = rev (dropWhile (\<lambda>c. c \<in> set cs) (rev (dropWhile (\<lambda>c. c \<in> set cs) s)))"

definition rstrip_chars :: "char list \<Rightarrow> string \<Rightarrow> string" where
  "rstrip_chars cs s = rev (dropWhile (\<lambda>c. c \<in> set cs) (rev s))"

definition strip_quotes :: "string \<Rightarrow> string" where
  "strip_quotes s = strip_chars [double_quote, single_quote] s"

definition unquoted_item :: "string \<Rightarrow> string" where "unquoted_item s = strip_quotes (py_strip s)"

definition begins_with_any :: "string \<Rightarrow> string list \<Rightarrow> bool" where
  "begins_with_any s heads = list_ex (\<lambda>h. prefix h s) heads"

text \<open>The items of a list without the later copies, which is what a set of seen items leaves of a loop.\<close>

fun first_of_each :: "'a list \<Rightarrow> 'a list \<Rightarrow> 'a list" where
  "first_of_each seen [] = []"
| "first_of_each seen (x # xs) =
     (if List.member seen x then first_of_each seen xs else x # first_of_each (x # seen) xs)"

lemma set_first_of_each: "set (first_of_each seen xs) = set xs - set seen"
  by (induction xs arbitrary: seen) auto

lemma distinct_first_of_each: "distinct (first_of_each seen xs)"
  by (induction xs arbitrary: seen) (auto simp: set_first_of_each)

text \<open>A piece of a split contains no separator, and the pieces and the separators make up the text.\<close>

lemma split_on_pieces: "\<forall>w \<in> set (split_on P s). \<forall>c \<in> set w. c \<in> set s \<and> \<not> P c"
  by (induction s) (auto split: list.split)

lemma split_on_nonempty [simp]: "split_on P s \<noteq> []"
  by (induction s) (auto split: list.splits)

lemma split_on_free: "\<forall>c \<in> set s. \<not> P c \<Longrightarrow> split_on P s = [s]"
  by (induction s) auto

lemma split_on_append: "P c \<Longrightarrow> split_on P (a @ c # b) = split_on P a @ split_on P b"
proof (induction a)
  case (Cons x a)
  then show ?case by (cases "split_on P a") auto
qed simp

section \<open>Code points\<close>

text \<open>The code points of a text, from the bytes that stand for it.\<close>

definition lead_byte :: "char \<Rightarrow> nat \<times> nat" where
  "lead_byte a =
     (if code a < 0x80 then (0, code a)
      else if code a < 0xE0 then (1, code a mod 0x20)
      else if code a < 0xF0 then (2, code a mod 0x10)
      else (3, code a mod 8))"

function code_points :: "string \<Rightarrow> nat list" where
  "code_points [] = []"
| "code_points (a # r) =
     foldl (\<lambda>n c. n * 0x40 + code c mod 0x40) (snd (lead_byte a)) (take (fst (lead_byte a)) r) #
     code_points (drop (fst (lead_byte a)) r)"
  by pat_completeness auto
termination
  by (relation "measure length") auto

definition ascii :: "string \<Rightarrow> bool" where "ascii s = list_all (\<lambda>c. code c < 0x80) s"

lemma code_points_ascii: "ascii s \<Longrightarrow> code_points s = map code s"
  by (induction s) (simp_all add: ascii_def lead_byte_def)

text \<open>The other way, for the examples and for the law that every code point is found again.\<close>

definition utf8_point :: "nat \<Rightarrow> string" where
  "utf8_point n =
     (if n < 0x80 then [char_of n]
      else if n < 0x800 then [char_of (0xC0 + n div 0x40), char_of (0x80 + n mod 0x40)]
      else if n < 0x10000 then [char_of (0xE0 + n div 0x1000), char_of (0x80 + n div 0x40 mod 0x40), char_of (0x80 + n mod 0x40)]
      else [char_of (0xF0 + n div 0x40000), char_of (0x80 + n div 0x1000 mod 0x40), char_of (0x80 + n div 0x40 mod 0x40),
            char_of (0x80 + n mod 0x40)])"

lemma code_char [simp]: "n < 256 \<Longrightarrow> code (char_of n) = n"
  by (simp add: code_def)

lemma byte_payload:
  "((192 :: nat) + x) mod 32 = x mod 32" "((224 :: nat) + x) mod 16 = x mod 16" "((240 :: nat) + x) mod 8 = x mod 8"
  "((128 :: nat) + x) mod 64 = x mod 64"
  using mod_mult_self1 [of x 6 32] mod_mult_self1 [of x 14 16] mod_mult_self1 [of x 30 8] mod_mult_self1 [of x 2 64]
  by (simp_all add: add.commute)

lemma two_digits: "64 * (n div 64) + n mod 64 = (n :: nat)"
  by simp

lemma three_digits: "4096 * (n div 4096) + n div 64 mod 64 * 64 + n mod 64 = (n :: nat)"
proof -
  have "n div 4096 = n div 64 div 64" by (simp flip: div_mult2_eq)
  then show ?thesis using two_digits [of "n div 64"] two_digits [of n] by linarith
qed

lemma four_digits: "262144 * (n div 262144) + 4096 * (n div 4096 mod 64) + n div 64 mod 64 * 64 + n mod 64 = (n :: nat)"
proof -
  have "n div 262144 = n div 4096 div 64" by (simp flip: div_mult2_eq)
  then show ?thesis using two_digits [of "n div 4096"] three_digits [of n] by linarith
qed

text \<open>Every code point is read back from its bytes.\<close>

lemma code_points_utf8: "n < 0x110000 \<Longrightarrow> code_points (utf8_point n @ s) = n # code_points s"
  by (auto simp: utf8_point_def lead_byte_def byte_payload three_digits four_digits)

end
