(* ===== verification/Skill_Docs.thy ===== *)
theory Skill_Docs
  imports Doc_Text
begin

text \<open>
  The linters of the skill files and of the agent roster (\<^verbatim>\<open>src/tools/validate_skills.py\<close>,
  \<^verbatim>\<open>validate_workforce.py\<close>): frontmatter, cited paths, and the checks of a file and of a directory.  Whether a
  path exists is a parameter; a finding is a value that carries what the message of the source names.
\<close>

section \<open>Tokens\<close>

definition CHECKABLE_PATH_PREFIXES :: "string list" where
  "CHECKABLE_PATH_PREFIXES =
     [''packages/'', ''docs/'', ''openspec/'', ''flightctl/'', ''tools/'', ''ops/'', ''.claude/'', ''.agents/'', ''.github/'',
      ''hardware/'', ''deliverables/'', ''archive/'', ''lib/'', ''artifacts/'', ''scripts/'']"

definition CHECKABLE_ROOT_FILES :: "string list" where
  "CHECKABLE_ROOT_FILES =
     [''AGENTS.md'', ''CLAUDE.md'', ''README.md'', ''CHANGELOG.md'', ''CONTRIBUTING.md'', ''NEXTSTEPS.md'', ''SECURITY.md'',
      ''Makefile'']"

definition TOKEN_STRIP :: "char list" where
  "TOKEN_STRIP = [back_quote, double_quote, single_quote] @ ''(),;:''"

definition PLACEHOLDER_CHARS :: "char list" where "PLACEHOLDER_CHARS = ''*<>{}''"

definition NON_PATH_PREFIXES :: "string list" where "NON_PATH_PREFIXES = [''http://'', ''https://'', ''@'']"

text \<open>\<^verbatim>\<open>(?:::|#).*$\<close>: the text up to a symbol or an anchor.\<close>

fun cut_symbol :: "string \<Rightarrow> string" where
  "cut_symbol [] = []"
| "cut_symbol (c # cs) =
     (if c = CHR ''#'' \<or> (c = CHR '':'' \<and> prefix '':'' cs) then [] else c # cut_symbol cs)"

text \<open>\<^verbatim>\<open>:\d+(?:-\d+)?(?:,\d+(?:-\d+)?)*$\<close>: a list of lines and ranges of lines, up to the end.\<close>

definition line_item :: "string \<Rightarrow> bool" where
  "line_item s =
     (let rest = dropWhile is_digit s
      in takeWhile is_digit s \<noteq> [] \<and>
         (rest = [] \<or> (hd rest = CHR ''-'' \<and> tl rest \<noteq> [] \<and> list_all is_digit (tl rest))))"

definition line_citation :: "string \<Rightarrow> bool" where
  "line_citation s = list_all line_item (split_on (\<lambda>c. c = CHR '','') s)"

fun cut_lines :: "string \<Rightarrow> string" where
  "cut_lines [] = []"
| "cut_lines (c # cs) = (if c = CHR '':'' \<and> line_citation cs then [] else c # cut_lines cs)"

text \<open>\<^verbatim>\<open>\[[^\]]*\]$\<close>: the extras of a requirement.\<close>

fun cut_extras :: "string \<Rightarrow> string" where
  "cut_extras [] = []"
| "cut_extras (c # cs) =
     (if c = CHR ''['' \<and> cs \<noteq> [] \<and> last cs = CHR '']'' \<and> CHR '']'' \<notin> set (butlast cs) then [] else c # cut_extras cs)"

definition normalize_path_token :: "string \<Rightarrow> string" where
  "normalize_path_token raw =
     cut_extras (cut_lines (cut_symbol (rstrip_chars ''.'' (strip_chars TOKEN_STRIP (py_strip raw)))))"

definition alphanumeric :: "char \<Rightarrow> bool" where
  "alphanumeric c = (is_digit c \<or> (65 \<le> code c \<and> code c \<le> 90) \<or> (97 \<le> code c \<and> code c \<le> 122))"

definition bare_extension :: "string \<Rightarrow> bool" where
  "bare_extension s =
     (prefix ''.'' s \<and> list_all alphanumeric (tl s) \<and> 1 \<le> length (tl s) \<and> length (tl s) \<le> 6)"

definition is_path_shaped :: "string \<Rightarrow> bool" where
  "is_path_shaped token =
     (if token = [] \<or> list_ex (\<lambda>c. c \<in> set PLACEHOLDER_CHARS) token then False
      else if begins_with_any token NON_PATH_PREFIXES \<or> prefix [slash] token then False
      else \<not> bare_extension token)"

definition is_checkable_path_token :: "string \<Rightarrow> bool" where
  "is_checkable_path_token token =
     (if \<not> is_path_shaped token then False
      else if slash \<in> set token then begins_with_any token CHECKABLE_PATH_PREFIXES
      else List.member CHECKABLE_ROOT_FILES token)"

datatype citation_origin = From_Backtick | From_Link

text \<open>\<^verbatim>\<open>`([^`]+)`\<close> and \<^verbatim>\<open>\]\(([^)\s]+)\)\<close>, found from left to right.\<close>

function backtick_spans :: "string \<Rightarrow> string list" where
  "backtick_spans [] = []"
| "backtick_spans (c # cs) =
     (if c \<noteq> back_quote \<or> takeWhile (\<lambda>c. c \<noteq> back_quote) cs = [] then backtick_spans cs
      else (case dropWhile (\<lambda>c. c \<noteq> back_quote) cs of
              [] \<Rightarrow> []
            | _ # r \<Rightarrow> takeWhile (\<lambda>c. c \<noteq> back_quote) cs # backtick_spans r))"
  by pat_completeness auto
termination
proof (relation "measure length")
  fix c cs x r assume "dropWhile (\<lambda>c. c \<noteq> back_quote) cs = x # r"
  then show "(r, c # cs) \<in> measure length"
    using length_dropWhile_le [of "\<lambda>c. c \<noteq> back_quote" cs] by simp
qed auto

definition link_char :: "char \<Rightarrow> bool" where "link_char c \<longleftrightarrow> c \<noteq> CHR '')'' \<and> \<not> is_space c"

function link_targets :: "string \<Rightarrow> string list" where
  "link_targets [] = []"
| "link_targets (c # cs) =
     (let body = drop 1 cs; target = takeWhile link_char body; rest = dropWhile link_char body
      in if c = CHR '']'' \<and> prefix ''('' cs \<and> target \<noteq> [] \<and> prefix '')'' rest
         then target # link_targets (tl rest)
         else link_targets cs)"
  by pat_completeness auto
termination
proof (relation "measure length")
  fix c cs body target rest assume "body = drop 1 cs" "rest = dropWhile link_char body"
  moreover have "length (dropWhile link_char (drop 1 cs)) \<le> length (drop 1 cs)" by (rule length_dropWhile_le)
  ultimately show "(tl rest, c # cs) \<in> measure length" by simp
qed auto

definition iter_raw_path_tokens :: "string \<Rightarrow> bool \<Rightarrow> (string \<times> citation_origin) list" where
  "iter_raw_path_tokens txt include_link_targets =
     concat (map (\<lambda>span. map (\<lambda>raw. (normalize_path_token raw, From_Backtick)) (split_words span)) (backtick_spans txt)) @
     (if include_link_targets then map (\<lambda>raw. (normalize_path_token raw, From_Link)) (link_targets txt) else [])"

definition iter_cited_path_tokens :: "string \<Rightarrow> bool \<Rightarrow> string list" where
  "iter_cited_path_tokens txt include_link_targets =
     filter is_checkable_path_token (map fst (iter_raw_path_tokens txt include_link_targets))"

section \<open>Frontmatter\<close>

definition fence :: string where "fence = ''---''"

fun front_lines :: "string list \<Rightarrow> (string \<times> string) list \<Rightarrow> (string \<times> string) list option" where
  "front_lines [] data = None"
| "front_lines (line # ls) data =
     (if py_strip line = fence then Some data
      else if py_strip line = [] \<or> prefix ''#'' (lstrip line) then front_lines ls data
      else (case py_partition CHR '':'' line of (key, sep, val) \<Rightarrow>
              if \<not> sep \<or> py_strip key = [] \<or> CHR '' '' \<in> set (py_strip key) then None
              else front_lines ls (AList.update (py_strip key) (unquoted_item val) data)))"

definition parse_frontmatter :: "string list \<Rightarrow> (string \<times> string) list option" where
  "parse_frontmatter ls = (if ls = [] \<or> py_strip (hd ls) \<noteq> fence then None else front_lines (tl ls) [])"

text \<open>The lines behind the second fence.\<close>

definition behind_fence :: "string list \<Rightarrow> string list" where
  "behind_fence ls = drop 1 (dropWhile (\<lambda>l. py_strip l \<noteq> fence) ls)"

definition body_lines :: "string list \<Rightarrow> string list" where
  "body_lines ls = behind_fence (behind_fence ls)"

text \<open>A key that is missing, or has an empty value, does not count.\<close>

definition front_value :: "(string \<times> string) list \<Rightarrow> string \<Rightarrow> string option" where
  "front_value data key =
     (case map_of data key of None \<Rightarrow> None | Some v \<Rightarrow> if v = [] then None else Some v)"

section \<open>Skills\<close>

datatype doc_finding =
    Bad_Frontmatter
  | Missing_Keys "string list"
  | Wrong_Name string string
  | Bad_Description
  | Few_Headings
  | Dead_Path string
  | Duplicate_Name string string
  | Too_Many_Lines nat
  | No_Relationship
  | No_Directory
  | No_Files

definition SKILL_KEYS :: "string list" where "SKILL_KEYS = [''name'', ''description'', ''argument-hint'']"
definition DESCRIPTION_PREFIX :: string where "DESCRIPTION_PREFIX = ''Use when:''"
definition MIN_BODY_HEADINGS :: nat where "MIN_BODY_HEADINGS = 1"

definition cited_path_findings :: "(string \<Rightarrow> bool) \<Rightarrow> string list \<Rightarrow> string list" where
  "cited_path_findings exists body =
     filter (\<lambda>t. \<not> exists t) (first_of_each [] (concat (map (\<lambda>l. iter_cited_path_tokens l False) body)))"

definition missing_keys :: "string list \<Rightarrow> (string \<times> string) list \<Rightarrow> doc_finding list" where
  "missing_keys required data =
     (let missing = filter (\<lambda>k. front_value data k = None) required
      in if missing = [] then [] else [Missing_Keys missing])"

definition wrong_name :: "(string \<times> string) list \<Rightarrow> string \<Rightarrow> doc_finding list" where
  "wrong_name data expected =
     (case front_value data ''name'' of
        None \<Rightarrow> []
      | Some name \<Rightarrow> if name \<noteq> expected then [Wrong_Name name expected] else [])"

definition validate_skill_file :: "(string \<Rightarrow> bool) \<Rightarrow> string \<Rightarrow> string \<Rightarrow> doc_finding list \<times> string option" where
  "validate_skill_file exists dir_name txt =
     (let ls = split_lines txt; front = parse_frontmatter ls; body = body_lines ls
      in ((case front of
             None \<Rightarrow> [Bad_Frontmatter]
           | Some data \<Rightarrow>
               missing_keys SKILL_KEYS data @ wrong_name data dir_name @
               (case front_value data ''description'' of
                  None \<Rightarrow> []
                | Some d \<Rightarrow> if prefix DESCRIPTION_PREFIX d then [] else [Bad_Description])) @
          (if length (filter (prefix ''## '') body) < MIN_BODY_HEADINGS then [Few_Headings] else []) @
          map Dead_Path (cited_path_findings exists body),
          case front of None \<Rightarrow> None | Some data \<Rightarrow> map_of data ''name''))"

text \<open>The files of a directory in their order, with the names that were declared before.\<close>

fun check_files ::
  "('f \<Rightarrow> doc_finding list \<times> string option) \<Rightarrow> (string \<times> 'f) list \<Rightarrow> (string \<times> string) list \<Rightarrow> (string \<times> doc_finding) list" where
  "check_files validate [] seen = []"
| "check_files validate ((rel, f) # files) seen =
     (case validate f of (found, name) \<Rightarrow>
        map (Pair rel) found @
        (case name of
           None \<Rightarrow> check_files validate files seen
         | Some n \<Rightarrow>
             (case map_of seen n of
                Some other \<Rightarrow> (rel, Duplicate_Name n other) # check_files validate files seen
              | None \<Rightarrow> check_files validate files ((n, rel) # seen))))"

definition check_directory ::
  "('f \<Rightarrow> doc_finding list \<times> string option) \<Rightarrow> (string \<times> 'f) list option \<Rightarrow> (string \<times> doc_finding) list" where
  "check_directory validate files =
     (case files of
        None \<Rightarrow> [([], No_Directory)]
      | Some [] \<Rightarrow> [([], No_Files)]
      | Some fs \<Rightarrow> check_files validate fs [])"

text \<open>A skill is the name of its directory and its text.\<close>

definition validate_skills :: "(string \<Rightarrow> bool) \<Rightarrow> (string \<times> string \<times> string) list option \<Rightarrow> (string \<times> doc_finding) list" where
  "validate_skills exists files = check_directory (\<lambda>(dir_name, txt). validate_skill_file exists dir_name txt) files"

definition skills_main :: "(string \<Rightarrow> bool) \<Rightarrow> (string \<times> string \<times> string) list option \<Rightarrow> int" where
  "skills_main exists files = (if validate_skills exists files = [] then 0 else 1)"

section \<open>The roster\<close>

text \<open>\<^verbatim>\<open>parse_frontmatter\<close> and \<^verbatim>\<open>body_lines\<close> of the roster's linter are the same functions, written again.\<close>

definition MAX_LINES :: nat where "MAX_LINES = 60"
definition ROSTER_KEYS :: "string list" where "ROSTER_KEYS = [''name'', ''description'', ''tools'']"
definition RELATIONSHIP_MARKER :: string where "RELATIONSHIP_MARKER = ''Relationship:''"
definition ROSTER_STRIP :: "char list" where "ROSTER_STRIP = [back_quote, double_quote, single_quote] @ ''(),;''"

definition roster_frontmatter :: "string list \<Rightarrow> (string \<times> string) list option" where
  "roster_frontmatter ls = parse_frontmatter ls"

definition roster_body :: "string list \<Rightarrow> string list" where "roster_body ls = body_lines ls"

definition relationship_path_findings :: "(string \<Rightarrow> bool) \<Rightarrow> string \<Rightarrow> string list" where
  "relationship_path_findings exists val =
     filter (\<lambda>t. slash \<in> set t \<and> \<not> exists t)
       (map (\<lambda>raw. rstrip_chars ''.'' (strip_chars ROSTER_STRIP raw)) (split_words val))"

definition path_stem :: "string \<Rightarrow> string" where
  "path_stem name = take (length name - length (path_suffix name)) name"

definition validate_roster_file :: "(string \<Rightarrow> bool) \<Rightarrow> string \<Rightarrow> string \<Rightarrow> doc_finding list \<times> string option" where
  "validate_roster_file exists file_name txt =
     (let ls = split_lines txt; front = roster_frontmatter ls;
          relationship = filter (prefix RELATIONSHIP_MARKER) (roster_body ls)
      in ((if MAX_LINES < length ls then [Too_Many_Lines (length ls)] else []) @
          (case front of
             None \<Rightarrow> [Bad_Frontmatter]
           | Some data \<Rightarrow> missing_keys ROSTER_KEYS data @ wrong_name data (path_stem file_name)) @
          (if relationship = [] then [No_Relationship] else []) @
          concat (map (\<lambda>line. map Dead_Path
            (relationship_path_findings exists (py_strip (drop (length RELATIONSHIP_MARKER) line)))) relationship),
          case front of None \<Rightarrow> None | Some data \<Rightarrow> map_of data ''name''))"

definition validate_roster :: "(string \<Rightarrow> bool) \<Rightarrow> (string \<times> string) list option \<Rightarrow> (string \<times> doc_finding) list" where
  "validate_roster exists files =
     check_directory (\<lambda>(file_name, txt). validate_roster_file exists file_name txt)
       (map_option (map (\<lambda>(file_name, txt). (file_name, file_name, txt))) files)"

definition roster_main :: "(string \<Rightarrow> bool) \<Rightarrow> (string \<times> string) list option \<Rightarrow> int" where
  "roster_main exists files = (if validate_roster exists files = [] then 0 else 1)"

end
