(* ===== verification/Agents_Docs.thy ===== *)
theory Agents_Docs
  imports Skill_Docs Repo_Guards "HOL-Library.List_Lexorder" "HOL-Library.Char_ord"
begin

text \<open>
  The linter of the instruction files (\<^verbatim>\<open>src/tools/validate_agents_docs.py\<close>): the manifest of guides, the globs of
  path-scoped rules, the structure of a Markdown file, and the checks of a file and of the repository.  The
  index of git and the file system are parameters: the list of tracked paths, the text of a file, the directories
  and what exists below a base.
\<close>

section \<open>Policy\<close>

definition GUIDE_FILENAME :: string where "GUIDE_FILENAME = ''AGENTS.md''"

definition GUIDE_MANIFEST :: "string list" where
  "GUIDE_MANIFEST =
     [''AGENTS.md'', ''packages/meshsa/AGENTS.md'', ''packages/jetson_yolo_gcs/AGENTS.md'', ''ops/AGENTS.md'', ''hardware/AGENTS.md'']"

definition CONTEXT_SCAN_GLOBS :: "string list" where
  "CONTEXT_SCAN_GLOBS =
     [''CLAUDE.md'', ''**/CLAUDE.md'', ''.github/copilot-instructions.md'', ''.agents/skills/*/SKILL.md'', ''.claude/agents/*.md'',
      ''.github/agents/*.md'']"

definition REQUIRED_GUIDE_SECTIONS :: "string list" where "REQUIRED_GUIDE_SECTIONS = [''Traps'']"

definition NORMATIVE_SECTION_KEYWORDS :: "string list" where
  "NORMATIVE_SECTION_KEYWORDS = [''rules'', ''conventions'', ''invariants'', ''policy'', ''policies'']"

definition RATIONALE_MARKER :: string where "RATIONALE_MARKER = ''why:''"
definition CONTROL_MARKER :: string where "CONTROL_MARKER = ''control:''"
definition ADVISORY_MARKER :: string where "ADVISORY_MARKER = ''advisory''"

definition SECURITY_KEYWORDS :: "string list" where
  "SECURITY_KEYWORDS =
     [''bind'', ''listener'', ''socket'', ''token'', ''credential'', ''secret'', ''auth'', ''tls'', ''frozen'', ''c_gate_met'',
      ''scope_freeze'', ''unauthenticated'', ''loopback'']"

definition FORBIDDEN_RANGES :: "(nat \<times> nat) list" where
  "FORBIDDEN_RANGES =
     [(0x00AD, 0x00AD), (0x180E, 0x180E), (0x200B, 0x200F), (0x202A, 0x202E), (0x2060, 0x2064), (0x2066, 0x2069),
      (0xFE00, 0xFE0F), (0xFEFF, 0xFEFF), (0xE0000, 0xE007F), (0xE0100, 0xE01EF)]"

definition forbidden_point :: "nat \<Rightarrow> bool" where
  "forbidden_point n = list_ex (\<lambda>(low, high). low \<le> n \<and> n \<le> high) FORBIDDEN_RANGES"

definition RULES_KEY :: string where "RULES_KEY = ''paths''"
definition RULES_KEY_NEAR_MISSES :: "string list" where
  "RULES_KEY_NEAR_MISSES = [''path'', ''globs'', ''glob'', ''appliesto'', ''applies_to'']"

definition RELATIVE_PREFIXES :: "string list" where "RELATIVE_PREFIXES = [''../'', ''./'']"

definition DOCS_ADVISORY_GLOBS :: "string list" where
  "DOCS_ADVISORY_GLOBS = [''README.md'', ''docs/*.md'', ''docs/specs/*.md'', ''docs/architecture/*.md'', ''docs/adr/*.md'']"

text \<open>The tables of exceptions: ambient rules with their reasons, and for each file the globs and the citations
  that are excused, with theirs.\<close>

record doc_exceptions =
  de_ambient :: "(string \<times> string) list"
  de_globs :: "(string \<times> (string \<times> string) list) list"
  de_citations :: "(string \<times> (string \<times> string) list) list"

definition no_exceptions :: doc_exceptions where
  "no_exceptions = \<lparr>de_ambient = [], de_globs = [], de_citations = []\<rparr>"

section \<open>Globs\<close>

definition open_brace :: char where "open_brace = CHR 0x7B"
definition close_brace :: char where "close_brace = CHR 0x7D"

text \<open>Behind an opening brace: the body up to the brace that closes it, and the rest.\<close>

fun brace_body :: "nat \<Rightarrow> string \<Rightarrow> (string \<times> string) option" where
  "brace_body depth [] = None"
| "brace_body depth (c # cs) =
     (if c = close_brace \<and> depth = 0 then Some ([], cs)
      else (case brace_body (if c = open_brace then Suc depth else if c = close_brace then depth - 1 else depth) cs of
              None \<Rightarrow> None
            | Some (body, tail) \<Rightarrow> Some (c # body, tail)))"

fun split_options :: "int \<Rightarrow> string \<Rightarrow> string list" where
  "split_options depth [] = [[]]"
| "split_options depth (c # cs) =
     (let d = (if c = open_brace then depth + 1 else if c = close_brace then depth - 1 else depth)
      in if c = CHR '','' \<and> d = 0 then [] # split_options d cs
         else (case split_options d cs of [] \<Rightarrow> [[c]] | w # ws \<Rightarrow> (c # w) # ws))"

definition split_top_level :: "string \<Rightarrow> string list" where "split_top_level body = split_options 0 body"

lemma braces_distinct [simp]:
  "open_brace \<noteq> close_brace" "close_brace \<noteq> open_brace" "CHR '','' \<noteq> open_brace" "CHR '','' \<noteq> close_brace"
  "open_brace \<noteq> CHR '',''" "close_brace \<noteq> CHR '',''"
  by (simp_all add: open_brace_def close_brace_def)

lemma split_options_braces: "\<forall>w \<in> set (split_options d s). count_list w open_brace \<le> count_list s open_brace"
proof (induction s arbitrary: d)
  case (Cons c s)
  let ?d = "if c = open_brace then d + 1 else if c = close_brace then d - 1 else d"
  show ?case
    using Cons.IH [of ?d] by (cases "split_options ?d s") (auto simp: Let_def)
qed simp

lemma brace_body_braces:
  "brace_body d s = Some (body, tail) \<Longrightarrow> count_list body open_brace + count_list tail open_brace \<le> count_list s open_brace"
  by (induction s arbitrary: d body) (auto split: if_splits option.splits)

function expand_braces :: "string \<Rightarrow> string list" where
  "expand_braces pattern =
     (case dropWhile (\<lambda>c. c \<noteq> open_brace) pattern of
        [] \<Rightarrow> [pattern]
      | _ # r \<Rightarrow>
          (case brace_body 0 r of
             None \<Rightarrow> [pattern]
           | Some (body, tail) \<Rightarrow>
               concat (map (\<lambda>option. expand_braces (takeWhile (\<lambda>c. c \<noteq> open_brace) pattern @ option @ tail))
                 (split_top_level body))))"
  by pat_completeness auto
termination
proof (relation "measure (\<lambda>p. count_list p open_brace)")
  fix pattern b r p body tail opt
  assume r: "dropWhile (\<lambda>c. c \<noteq> open_brace) pattern = b # r" and p: "brace_body 0 r = Some p" "(body, tail) = p"
    and w: "opt \<in> set (split_top_level body)"
  have b: "b = open_brace" using hd_dropWhile [of "\<lambda>c. c \<noteq> open_brace" pattern] r by simp
  moreover have "count_list (takeWhile (\<lambda>c. c \<noteq> open_brace) pattern) open_brace = 0"
    by (auto simp: count_list_0_iff dest: set_takeWhileD)
  moreover have "count_list pattern open_brace =
      count_list (takeWhile (\<lambda>c. c \<noteq> open_brace) pattern) open_brace + count_list (b # r) open_brace"
    using arg_cong [OF takeWhile_dropWhile_id [of "\<lambda>c. c \<noteq> open_brace" pattern], of "\<lambda>s. count_list s open_brace"]
    by (simp only: r count_list_append)
  moreover have "count_list body open_brace + count_list tail open_brace \<le> count_list r open_brace"
    using p by (intro brace_body_braces [of 0]) simp
  moreover have "count_list opt open_brace \<le> count_list body open_brace"
    using split_options_braces [of 0 body] w by (simp add: split_top_level_def)
  moreover note b
  ultimately show "(takeWhile (\<lambda>c. c \<noteq> open_brace) pattern @ opt @ tail, pattern) \<in> measure (\<lambda>p. count_list p open_brace)"
    by simp
qed simp

declare expand_braces.simps [simp del]

text \<open>The expression that a glob is compiled to, matched against a whole path: two stars and a slash are any
  directories or none, two stars any text, one star and a question mark stay within a name.\<close>

function glob_match :: "string \<Rightarrow> string \<Rightarrow> bool" where
  "glob_match p s =
     (if p = [] then s = [] \<or> s = [newline_char]
      else if prefix ''**/'' p then
        glob_match (drop 3 p) s \<or>
        list_ex (\<lambda>i. s ! i = slash \<and> newline_char \<notin> set (take i s) \<and> glob_match (drop 3 p) (drop (Suc i) s)) [0..<length s]
      else if prefix ''**'' p then
        list_ex (\<lambda>i. newline_char \<notin> set (take i s) \<and> glob_match (drop 2 p) (drop i s)) [0..<Suc (length s)]
      else if hd p = CHR ''*'' then
        list_ex (\<lambda>i. slash \<notin> set (take i s) \<and> glob_match (tl p) (drop i s)) [0..<Suc (length s)]
      else if hd p = CHR ''?'' then s \<noteq> [] \<and> hd s \<noteq> slash \<and> glob_match (tl p) (tl s)
      else s \<noteq> [] \<and> hd s = hd p \<and> glob_match (tl p) (tl s))"
  by pat_completeness auto
termination
  by (relation "measure (\<lambda>(p, s). length p)") auto

declare glob_match.simps [simp del]

definition glob_matches :: "string \<Rightarrow> string list \<Rightarrow> bool" where
  "glob_matches pattern paths =
     list_ex (\<lambda>e. list_ex (glob_match e) paths \<or>
         (ends_with e ''/**'' \<and> list_ex (glob_match (take (length e - 3) e)) paths))
       (expand_braces pattern)"

text \<open>The patterns of a rule: a list, or one line with commas.\<close>

definition indented :: "string \<Rightarrow> bool" where
  "indented line = (line \<noteq> [] \<and> (hd line = CHR '' '' \<or> code (hd line) = 9 \<or> hd line = CHR ''-''))"

fun rule_lines :: "bool \<Rightarrow> string list \<Rightarrow> string list" where
  "rule_lines in_paths [] = []"
| "rule_lines in_paths (line # ls) =
     (if \<not> indented line \<and> CHR '':'' \<in> set line then
        (case py_partition CHR '':'' line of (key, _, val) \<Rightarrow>
           (if py_lower (py_strip key) = RULES_KEY then
              (if py_strip val \<noteq> [] then
                 map unquoted_item (filter (\<lambda>part. py_strip part \<noteq> []) (py_split CHR '','' val)) @ rule_lines False ls
               else rule_lines True ls)
            else rule_lines False ls))
      else if in_paths \<and> prefix ''- '' (py_strip line) then unquoted_item (drop 2 (py_strip line)) # rule_lines in_paths ls
      else rule_lines in_paths ls)"

text \<open>The lines between the fences; the second fence stands alone in its line.\<close>

definition rule_header :: "string list \<Rightarrow> string list option" where
  "rule_header ls =
     (if fence \<in> set (tl ls) then Some (takeWhile (\<lambda>l. l \<noteq> fence) (tl ls)) else None)"

definition rule_globs :: "string list \<Rightarrow> string list" where
  "rule_globs ls =
     (if ls = [] \<or> py_strip (hd ls) \<noteq> fence then []
      else case rule_header ls of
        None \<Rightarrow> []
      | Some header \<Rightarrow> filter (\<lambda>g. g \<noteq> []) (rule_lines False header))"

section \<open>The repository\<close>

definition base_name :: "string \<Rightarrow> string" where
  "base_name path = (if path_parts path = [] then [] else last (path_parts path))"

definition tracked_guides :: "string list \<Rightarrow> string list" where
  "tracked_guides tracked = sort (filter (\<lambda>p. base_name p = GUIDE_FILENAME) tracked)"

definition discovered_context_files :: "string list \<Rightarrow> string list" where
  "discovered_context_files tracked =
     sort (first_of_each [] (concat (map (\<lambda>pattern. filter (glob_match pattern) tracked) CONTEXT_SCAN_GLOBS)))"

text \<open>\<open>rf_text\<close> is the text of a file that exists, \<open>rf_rules\<close> the files of the directory of rules, \<open>rf_sources\<close> the
  sorted directories below a directory's \<^verbatim>\<open>src\<close>, \<open>rf_exists\<close> whether a token names something below a base.\<close>

record repo_files =
  rf_text :: "string \<Rightarrow> string option"
  rf_rules :: "string list"
  rf_sources :: "string \<Rightarrow> string list"
  rf_exists :: "string \<Rightarrow> string \<Rightarrow> bool"

definition parent_dir :: "string \<Rightarrow> string" where
  "parent_dir rel = rev (drop 1 (dropWhile (\<lambda>c. c \<noteq> slash) (rev rel)))"

definition resolution_bases :: "repo_files \<Rightarrow> string \<Rightarrow> string list" where
  "resolution_bases R rel = parent_dir rel # rf_sources R (parent_dir rel) @ [[]]"

definition token_resolves :: "repo_files \<Rightarrow> string \<Rightarrow> string list \<Rightarrow> bool" where
  "token_resolves R token bases = list_ex (\<lambda>b. rf_exists R b token) bases"

section \<open>The structure of a file\<close>

definition code_fence :: "string \<Rightarrow> bool" where
  "code_fence line = prefix [back_quote, back_quote, back_quote] (lstrip line)"

definition HEADING_PREFIX :: string where "HEADING_PREFIX = ''## ''"

definition section_heading :: "string \<Rightarrow> string" where
  "section_heading line = py_strip (drop (length HEADING_PREFIX) line)"

text \<open>The lines of a file, one after the other: in a fence or not, the section that is open with its lines so far.\<close>

fun sections_from :: "bool \<Rightarrow> (string \<times> string list) option \<Rightarrow> string list \<Rightarrow> (string \<times> string list) list" where
  "sections_from in_fence cur [] = (case cur of None \<Rightarrow> [] | Some hb \<Rightarrow> [hb])"
| "sections_from in_fence cur (line # ls) =
     (if \<not> code_fence line \<and> \<not> in_fence \<and> prefix HEADING_PREFIX line then
        (case cur of None \<Rightarrow> [] | Some hb \<Rightarrow> [hb]) @ sections_from in_fence (Some (section_heading line, [])) ls
      else
        sections_from (if code_fence line then \<not> in_fence else in_fence)
          (map_option (\<lambda>(h, body). (h, body @ [line])) cur) ls)"

definition iter_sections :: "string list \<Rightarrow> (string \<times> string list) list" where
  "iter_sections ls = sections_from False None ls"

definition bullet_line :: "string \<Rightarrow> bool" where
  "bullet_line line =
     (let digits = takeWhile is_digit line; rest = dropWhile is_digit line
      in (digits = [] \<and> rest \<noteq> [] \<and> (hd rest = CHR ''-'' \<or> hd rest = CHR ''*'') \<and> tl rest \<noteq> [] \<and> is_space (hd (tl rest))) \<or>
         (digits \<noteq> [] \<and> prefix ''.'' rest \<and> tl rest \<noteq> [] \<and> is_space (hd (tl rest))))"

fun bullets_from :: "string list \<Rightarrow> string list \<Rightarrow> string list" where
  "bullets_from cur [] = (if cur = [] then [] else [join_with '' '' cur])"
| "bullets_from cur (line # ls) =
     (if bullet_line line then (if cur = [] then [] else [join_with '' '' cur]) @ bullets_from [py_strip line] ls
      else if cur = [] then bullets_from cur ls
      else if py_strip line \<noteq> [] then bullets_from (cur @ [py_strip line]) ls
      else join_with '' '' cur # bullets_from [] ls)"

definition iter_bullets :: "string list \<Rightarrow> string list" where "iter_bullets body = bullets_from [] body"

definition heading_char :: "char \<Rightarrow> bool" where
  "heading_char c = (is_digit c \<or> (97 \<le> code c \<and> code c \<le> 122))"

definition is_normative_heading :: "string \<Rightarrow> bool" where
  "is_normative_heading heading =
     list_ex (List.member NORMATIVE_SECTION_KEYWORDS) (words_by (\<lambda>c. \<not> heading_char c) (py_lower heading))"

definition iter_normative_bullets :: "string list \<Rightarrow> string list" where
  "iter_normative_bullets ls =
     concat (map (\<lambda>(h, body). iter_bullets body) (filter (\<lambda>(h, body). is_normative_heading h) (iter_sections ls)))"

definition is_checkable_guide_token :: "string \<Rightarrow> citation_origin \<Rightarrow> bool" where
  "is_checkable_guide_token token origin =
     (is_path_shaped token \<and>
      (is_checkable_path_token token \<or> begins_with_any token RELATIVE_PREFIXES \<or> origin = From_Link))"

section \<open>Checks\<close>

datatype agents_finding =
    Guide_Not_Declared string
  | Guide_Not_Tracked string
  | No_Such_File string
  | Section_Missing string string
  | Link_Only_From_Root string string
  | Citation_Without_Reason string string
  | Citation_Dead string string
  | Control_Character string nat nat
  | No_Normative_Section string
  | Ambient_Without_Reason string
  | Rule_Unscoped string
  | Header_Not_Closed string
  | Scope_Empty string
  | Scope_Misspelled string "string list"
  | Scope_Missing string
  | Glob_Without_Reason string string
  | Glob_Dead string string
  | Rule_Without_Rationale string string
  | Rule_Without_Control string string

definition check_manifest :: "string list \<Rightarrow> agents_finding list" where
  "check_manifest tracked =
     (let guides = tracked_guides tracked
      in map Guide_Not_Declared (first_of_each [] (filter (\<lambda>g. g \<notin> set GUIDE_MANIFEST) guides)) @
         map Guide_Not_Tracked (sort (filter (\<lambda>g. g \<notin> set guides) GUIDE_MANIFEST)))"

definition check_required_sections :: "string \<Rightarrow> string list \<Rightarrow> agents_finding list" where
  "check_required_sections rel ls =
     map (Section_Missing rel) (filter (\<lambda>n. n \<notin> fst ` set (iter_sections ls)) REQUIRED_GUIDE_SECTIONS)"

definition citation_findings ::
  "repo_files \<Rightarrow> (string \<times> string) list \<Rightarrow> string \<Rightarrow> string \<times> citation_origin \<Rightarrow> agents_finding list" where
  "citation_findings R excused rel cited =
     (case cited of (token, origin) \<Rightarrow>
        (let bases = resolution_bases R rel
         in if token_resolves R token bases then
              (if origin = From_Link \<and> \<not> begins_with_any token RELATIVE_PREFIXES \<and>
                  \<not> token_resolves R token [hd bases] \<and> map_of excused token = None
               then [Link_Only_From_Root rel token] else [])
            else
              (case map_of excused token of
                 None \<Rightarrow> [Citation_Dead rel token]
               | Some reason \<Rightarrow> if py_strip reason = [] then [Citation_Without_Reason rel token] else [])))"

text \<open>A token is judged at its first citation that is worth it.\<close>

fun first_citations :: "string list \<Rightarrow> (string \<times> citation_origin) list \<Rightarrow> (string \<times> citation_origin) list" where
  "first_citations seen [] = []"
| "first_citations seen ((token, origin) # cs) =
     (if List.member seen token \<or> \<not> is_checkable_guide_token token origin then first_citations seen cs
      else (token, origin) # first_citations (token # seen) cs)"

definition file_exceptions :: "(string \<times> (string \<times> string) list) list \<Rightarrow> string \<Rightarrow> (string \<times> string) list" where
  "file_exceptions table rel = (case map_of table rel of None \<Rightarrow> [] | Some ex \<Rightarrow> ex)"

definition check_cited_paths :: "repo_files \<Rightarrow> doc_exceptions \<Rightarrow> string \<Rightarrow> string \<Rightarrow> agents_finding list" where
  "check_cited_paths R X rel txt =
     concat (map (citation_findings R (file_exceptions (de_citations X) rel) rel)
       (first_citations [] (iter_raw_path_tokens txt True)))"

definition check_control_characters :: "string \<Rightarrow> string \<Rightarrow> agents_finding list" where
  "check_control_characters rel txt =
     map (\<lambda>(offset, n). Control_Character rel n offset) (filter (\<lambda>(offset, n). forbidden_point n) (enumerate 0 (code_points txt)))"

definition check_normative_section_present :: "string \<Rightarrow> string list \<Rightarrow> agents_finding list" where
  "check_normative_section_present rel ls =
     (if list_ex (\<lambda>(h, body). is_normative_heading h) (iter_sections ls) then [] else [No_Normative_Section rel])"

definition header_keys :: "string list \<Rightarrow> string list" where
  "header_keys header =
     map (\<lambda>l. py_lower (py_strip (fst (py_partition CHR '':'' l))))
       (filter (\<lambda>l. CHR '':'' \<in> set l \<and> \<not> indented l) header)"

definition check_rule_frontmatter :: "doc_exceptions \<Rightarrow> string \<Rightarrow> string list \<Rightarrow> agents_finding list" where
  "check_rule_frontmatter X rel ls =
     (if ls = [] \<or> py_strip (hd ls) \<noteq> fence then
        (case map_of (de_ambient X) rel of
           Some reason \<Rightarrow> if py_strip reason = [] then [Ambient_Without_Reason rel] else []
         | None \<Rightarrow> [Rule_Unscoped rel])
      else
        (case rule_header ls of
           None \<Rightarrow> [Header_Not_Closed rel]
         | Some header \<Rightarrow>
             (if List.member (header_keys header) RULES_KEY then (if rule_globs ls = [] then [Scope_Empty rel] else [])
              else
                (let near = sort (first_of_each [] (filter (List.member RULES_KEY_NEAR_MISSES) (header_keys header)))
                 in if near \<noteq> [] then [Scope_Misspelled rel near] else [Scope_Missing rel]))))"

definition check_rule_scope_matches :: "doc_exceptions \<Rightarrow> string list \<Rightarrow> string \<Rightarrow> string list \<Rightarrow> agents_finding list" where
  "check_rule_scope_matches X tracked rel ls =
     concat (map (\<lambda>pattern.
         if glob_matches pattern tracked then []
         else (case map_of (file_exceptions (de_globs X) rel) pattern of
                 None \<Rightarrow> [Glob_Dead rel pattern]
               | Some reason \<Rightarrow> if py_strip reason = [] then [Glob_Without_Reason rel pattern] else []))
       (rule_globs ls))"

definition check_rule_rationale :: "string \<Rightarrow> string list \<Rightarrow> agents_finding list" where
  "check_rule_rationale rel ls =
     map (Rule_Without_Rationale rel)
       (filter (\<lambda>b. \<not> sublist RATIONALE_MARKER (py_lower b)) (iter_normative_bullets ls))"

definition security_relevant :: "string \<Rightarrow> bool" where
  "security_relevant bullet = list_ex (\<lambda>k. sublist k (py_lower bullet)) SECURITY_KEYWORDS"

definition check_security_control_tag :: "string \<Rightarrow> string list \<Rightarrow> agents_finding list" where
  "check_security_control_tag rel ls =
     map (Rule_Without_Control rel)
       (filter (\<lambda>b. security_relevant b \<and> \<not> sublist CONTROL_MARKER (py_lower b) \<and> \<not> sublist ADVISORY_MARKER (py_lower b))
         (iter_normative_bullets ls))"

section \<open>The run\<close>

definition validate_doc_file ::
  "repo_files \<Rightarrow> doc_exceptions \<Rightarrow> string list \<Rightarrow> bool \<Rightarrow> bool \<Rightarrow> string \<Rightarrow> agents_finding list" where
  "validate_doc_file R X tracked require_sections is_rule rel =
     (case rf_text R rel of
        None \<Rightarrow> [No_Such_File rel]
      | Some txt \<Rightarrow>
          (let ls = split_lines txt
           in (if require_sections then check_required_sections rel ls else []) @
              (if is_rule then check_rule_frontmatter X rel ls @ check_rule_scope_matches X tracked rel ls else []) @
              check_cited_paths R X rel txt @ check_control_characters rel txt @ check_normative_section_present rel ls @
              check_rule_rationale rel ls @ check_security_control_tag rel ls))"

definition validate_instruction_files :: "repo_files \<Rightarrow> doc_exceptions \<Rightarrow> string list \<Rightarrow> agents_finding list" where
  "validate_instruction_files R X tracked =
     check_manifest tracked @
     concat (map (validate_doc_file R X tracked True False)
       (sort (filter (\<lambda>g. g \<in> set (tracked_guides tracked)) GUIDE_MANIFEST))) @
     concat (map (\<lambda>rel. case rf_text R rel of None \<Rightarrow> [] | Some txt \<Rightarrow> check_control_characters rel txt)
       (discovered_context_files tracked)) @
     concat (map (validate_doc_file R X tracked False True) (sort (rf_rules R)))"

definition single_level_glob :: "string \<Rightarrow> string \<Rightarrow> bool" where
  "single_level_glob rel pattern = (count_list rel slash = count_list pattern slash \<and> fnmatchcase rel pattern)"

definition advisory_docs_citations :: "repo_files \<Rightarrow> doc_exceptions \<Rightarrow> string list \<Rightarrow> agents_finding list" where
  "advisory_docs_citations R X tracked =
     concat (map (\<lambda>rel. case rf_text R rel of None \<Rightarrow> [] | Some txt \<Rightarrow> check_cited_paths R X rel txt)
       (sort (filter (\<lambda>p. list_ex (single_level_glob p) DOCS_ADVISORY_GLOBS) tracked)))"

text \<open>The exit status, and the advisory warnings that are printed before it; outside a work tree there is no index.\<close>

definition agents_docs_main :: "repo_files \<Rightarrow> string list option \<Rightarrow> int \<times> agents_finding list \<times> agents_finding list" where
  "agents_docs_main R index =
     (case index of
        None \<Rightarrow> (2, [], [])
      | Some tracked \<Rightarrow>
          (let found = validate_instruction_files R no_exceptions tracked
           in (if found = [] then 0 else 1, advisory_docs_citations R no_exceptions tracked, found)))"

end
