(* ===== verification/Sync_Tools.thy ===== *)
theory Sync_Tools
  imports Skill_Docs "HOL-Library.List_Lexorder" "HOL-Library.Char_ord"
begin

text \<open>
  The two consistency checks (\<^verbatim>\<open>src/tools/check_task_sync.py\<close>, \<^verbatim>\<open>check_tool_pins.py\<close>): the commits that name a
  task against the boxes of the task lists, and the pinned versions of the tools against each other.  The answers
  of git, the files and the YAML reader are parameters.
\<close>

section \<open>Tasks\<close>

definition lower_letter :: "char \<Rightarrow> bool" where
  "lower_letter c = (97 \<le> code c \<and> code c \<le> 122)"

text \<open>\<^verbatim>\<open>T-\d+\.\d+[a-z]?\<close> at the front of a text, and what follows.\<close>

definition task_id_at :: "string \<Rightarrow> (string \<times> string) option" where
  "task_id_at s =
     (let major = takeWhile is_digit (drop 2 s); r = drop (2 + length major) s;
          minor = takeWhile is_digit (tl r); r' = drop (length minor) (tl r);
          letter = (if r' \<noteq> [] \<and> lower_letter (hd r') then [hd r'] else [])
      in if prefix ''T-'' s \<and> major \<noteq> [] \<and> prefix ''.'' r \<and> minor \<noteq> []
         then Some (''T-'' @ major @ ''.'' @ minor @ letter, drop (length letter) r')
         else None)"

lemma task_id_shorter: "task_id_at s = Some (i, r) \<Longrightarrow> length r < length s"
proof -
  assume a: "task_id_at s = Some (i, r)"
  then have "s \<noteq> []" by (auto simp: task_id_at_def Let_def split: if_splits)
  with a show ?thesis by (auto simp: task_id_at_def Let_def split: if_splits)
qed

function task_ids_at :: "string \<Rightarrow> (string list \<times> string) option" where
  "task_ids_at s =
     (case task_id_at s of
        None \<Rightarrow> None
      | Some (i, r) \<Rightarrow>
          (if r \<noteq> [] \<and> (hd r = CHR ''/'' \<or> hd r = CHR '','') then
             (case task_ids_at (tl r) of None \<Rightarrow> Some ([i], r) | Some (is, r') \<Rightarrow> Some (i # is, r'))
           else Some ([i], r)))"
  by pat_completeness auto
termination
proof (relation "measure length")
  fix s :: string and p i r assume "task_id_at s = Some p" "(i, r) = p"
  then have "length r < length s" by (intro task_id_shorter [of s i r]) simp
  then show "(tl r, s) \<in> measure length" by simp
qed simp

declare task_ids_at.simps [simp del]

definition subject_task_ids :: "string \<Rightarrow> string list" where
  "subject_task_ids subject =
     (case task_ids_at subject of
        None \<Rightarrow> []
      | Some (is, r) \<Rightarrow> if r \<noteq> [] \<and> (hd r = CHR '':'' \<or> hd r = CHR '' '') then is else [])"

definition commit_subjects :: "string \<Rightarrow> string list" where
  "commit_subjects history = filter (\<lambda>l. py_strip l \<noteq> []) (split_lines history)"

text \<open>A box of a task: its id, and whether it is checked.\<close>

definition checkbox_line :: "string \<Rightarrow> (string \<times> bool) option" where
  "checkbox_line line =
     (let s = py_strip line; mark = s ! 3; rest = drop 6 s
      in if 6 \<le> length s \<and> (hd s = CHR ''-'' \<or> hd s = CHR ''*'') \<and> s ! 1 = CHR '' '' \<and> s ! 2 = CHR ''['' \<and>
            mark \<in> set '' xX'' \<and> s ! 4 = CHR '']'' \<and> s ! 5 = CHR '' '' then
           (case task_id_at rest of
              None \<Rightarrow> None
            | Some (i, r) \<Rightarrow>
                if r \<noteq> [] \<and> (alphanumeric (hd r) \<or> hd r = CHR ''_'') then None else Some (i, mark \<noteq> CHR '' ''))
         else None)"

type_synonym box_states = "(string \<times> (string \<times> bool) list) list"

definition bundles_of :: "box_states \<Rightarrow> string \<Rightarrow> (string \<times> bool) list" where
  "bundles_of states i = (case map_of states i of None \<Rightarrow> [] | Some b \<Rightarrow> b)"

definition note_box :: "box_states \<Rightarrow> string \<times> string \<times> bool \<Rightarrow> box_states" where
  "note_box states box =
     (case box of (file, i, checked) \<Rightarrow>
        (let seen = bundles_of states i
         in AList.update i
              (case map_of seen file of
                 Some old \<Rightarrow> if old \<noteq> checked then AList.update file False seen else seen
               | None \<Rightarrow> AList.update file checked seen) states))"

definition BUNDLE_GLOBS :: "string list" where
  "BUNDLE_GLOBS = [''openspec/changes/*/tasks.md'', ''openspec/changes/archive/*/tasks.md'']"

definition boxes_of :: "(string \<times> string) list \<Rightarrow> (string \<times> string \<times> bool) list" where
  "boxes_of files =
     concat (map (\<lambda>(file, txt). concat (map (\<lambda>line. case checkbox_line line of None \<Rightarrow> [] | Some b \<Rightarrow> [(file, b)]) (split_lines txt))) files)"

definition bundle_checkbox_states :: "(string \<times> string) list \<Rightarrow> box_states" where
  "bundle_checkbox_states files = foldl note_box [] (boxes_of files)"

definition bundle_files :: "(string \<Rightarrow> (string \<times> string) list) \<Rightarrow> (string \<times> string) list" where
  "bundle_files glob = concat (map glob BUNDLE_GLOBS)"

datatype sync_warning = Task_Not_Found string string | Task_In_Many string "string list" | Task_Unchecked string string string

definition bundle_name :: "string \<Rightarrow> string" where
  "bundle_name file = (let parts = butlast (path_parts file) in if parts = [] then [] else last parts)"

definition reconcile_id :: "box_states \<Rightarrow> string \<Rightarrow> string \<Rightarrow> sync_warning list" where
  "reconcile_id states subject i =
     (case map_of states i of
        None \<Rightarrow> [Task_Not_Found i subject]
      | Some bundles \<Rightarrow>
          (if 1 < length bundles then [Task_In_Many i (sort (map (bundle_name \<circ> fst) bundles))]
           else concat (map (\<lambda>(file, checked). if checked then [] else [Task_Unchecked i subject (bundle_name file)]) bundles)))"

definition reconcile :: "string list \<Rightarrow> box_states \<Rightarrow> sync_warning list \<times> nat" where
  "reconcile subjects states =
     (concat (map (\<lambda>subject. concat (map (reconcile_id states subject) (subject_task_ids subject))) subjects), length subjects)"

text \<open>The run: outside a work tree it fails, without the baseline there is nothing to do, and warnings do not
  change the status.  \<open>work\<close> is the history and the bundles, unless reading them fails.\<close>

definition task_sync_main ::
  "bool \<Rightarrow> bool \<Rightarrow> (string \<times> (string \<Rightarrow> (string \<times> string) list)) option \<Rightarrow> int \<times> sync_warning list" where
  "task_sync_main is_repo baseline_reachable work =
     (if \<not> is_repo then (1, [])
      else if \<not> baseline_reachable then (0, [])
      else case work of
        None \<Rightarrow> (1, [])
      | Some (history, glob) \<Rightarrow> (0, fst (reconcile (commit_subjects history) (bundle_checkbox_states (bundle_files glob)))))"

section \<open>Pins\<close>

definition PYPROJECTS :: "string list" where
  "PYPROJECTS = [''packages/meshsa/pyproject.toml'', ''packages/jetson_yolo_gcs/pyproject.toml'']"

definition PRECOMMIT_CONFIG :: string where "PRECOMMIT_CONFIG = ''.pre-commit-config.yaml''"
definition CI_WORKFLOW :: string where "CI_WORKFLOW = ''.github/workflows/ci.yml''"

definition PRECOMMIT_REPOS :: "(string \<times> string) list" where
  "PRECOMMIT_REPOS = [(''ruff-pre-commit'', ''ruff''), (''mirrors-mypy'', ''mypy''), (''gitleaks/gitleaks'', ''gitleaks'')]"

definition PYPROJECT_TOOLS :: "string list" where "PYPROJECT_TOOLS = [''ruff'', ''mypy'']"
definition CI_TOOLS :: "string list" where "CI_TOOLS = [''gitleaks'']"
definition PIN_TOOLS :: "string list" where "PIN_TOOLS = PYPROJECT_TOOLS @ CI_TOOLS"

type_synonym tool_pins = "(string \<times> string) list"

definition conflict_mark :: string where "conflict_mark = ''CONFLICT(''"

definition add_pin :: "string \<Rightarrow> tool_pins \<Rightarrow> string \<times> string \<Rightarrow> tool_pins" where
  "add_pin rel pins pin =
     (case pin of (tool, version) \<Rightarrow>
        (case map_of pins tool of
           Some old \<Rightarrow>
             if old \<noteq> version
             then AList.update tool (conflict_mark @ old @ '' vs '' @ version @ '' in '' @ rel @ '')'') pins
             else AList.update tool version pins
         | None \<Rightarrow> AList.update tool version pins))"

text \<open>\<^verbatim>\<open>"(ruff|mypy)==([^"]+)"\<close>: one pin at a quote, with the text behind its closing quote.\<close>

definition pin_at :: "string \<Rightarrow> ((string \<times> string) \<times> string) option" where
  "pin_at s =
     (let tool = take 4 s; version = takeWhile (\<lambda>c. c \<noteq> double_quote) (drop 6 s); rest = drop (6 + length version) s
      in if List.member PYPROJECT_TOOLS tool \<and> prefix ''=='' (drop 4 s) \<and> version \<noteq> [] \<and> rest \<noteq> []
         then Some ((tool, version), tl rest) else None)"

lemma pin_at_shorter: "pin_at s = Some (p, r) \<Longrightarrow> length r \<le> length s"
  by (auto simp: pin_at_def Let_def split: if_splits)

function pin_matches :: "string \<Rightarrow> (string \<times> string) list" where
  "pin_matches [] = []"
| "pin_matches (c # cs) =
     (if c = double_quote then
        (case pin_at cs of None \<Rightarrow> pin_matches cs | Some (p, r) \<Rightarrow> p # pin_matches r)
      else pin_matches cs)"
  by pat_completeness auto
termination
proof (relation "measure length")
  fix c and cs :: string and q p r assume "pin_at cs = Some q" "(p, r) = q"
  then have "length r \<le> length cs" by (intro pin_at_shorter [of cs p r]) simp
  then show "(r, c # cs) \<in> measure length" by simp
qed auto

definition pyproject_pins :: "string \<Rightarrow> string \<Rightarrow> tool_pins" where
  "pyproject_pins txt rel = foldl (add_pin rel) [] (pin_matches txt)"

text \<open>The repositories of the pre-commit file: \<open>yaml\<close> is the parsed file, \<open>py_str\<close> is \<^verbatim>\<open>str\<close> of a value.\<close>

definition yaml_repos :: "json \<Rightarrow> py_exn + json list" where
  "yaml_repos yaml =
     (case yaml of
        JObj kvs \<Rightarrow>
          (case map_of kvs ''repos'' of
             None \<Rightarrow> Inr []
           | Some v \<Rightarrow>
               if \<not> truthy v then Inr []
               else (case v of
                       JArr vs \<Rightarrow> Inr vs
                     | JStr s \<Rightarrow> Inr (map (\<lambda>c. JStr [c]) s)
                     | JObj ps \<Rightarrow> Inr (map (\<lambda>(k, _). JStr k) ps)
                     | _ \<Rightarrow> Inl TypeError))
      | _ \<Rightarrow> Inr [])"

definition repo_pins :: "(json \<Rightarrow> string) \<Rightarrow> json \<Rightarrow> (string \<times> string) list" where
  "repo_pins py_str repo =
     (case repo of
        JObj kvs \<Rightarrow>
          (let url = rstrip_chars [slash] (case map_of kvs ''repo'' of None \<Rightarrow> [] | Some v \<Rightarrow> py_str v);
               rev = dropWhile (\<lambda>c. c = CHR ''v'')
                 (case map_of kvs ''rev'' of None \<Rightarrow> [] | Some v \<Rightarrow> if truthy v then py_str v else [])
           in map (\<lambda>(_, tool). (tool, rev)) (filter (\<lambda>(ending, _). suffix ending url) PRECOMMIT_REPOS))
      | _ \<Rightarrow> [])"

definition precommit_revs :: "(json \<Rightarrow> string) \<Rightarrow> json \<Rightarrow> py_exn + tool_pins" where
  "precommit_revs py_str yaml =
     (case yaml_repos yaml of
        Inl e \<Rightarrow> Inl e
      | Inr repos \<Rightarrow> Inr (foldl (add_pin PRECOMMIT_CONFIG) [] (concat (map (repo_pins py_str) repos))))"

text \<open>\<^verbatim>\<open>GITLEAKS_VERSION:\<close> at the start of a line, but for blanks, with its value; \<open>fresh\<close> says that only blanks
  came since the line began.\<close>

definition CI_VERSION_KEY :: string where "CI_VERSION_KEY = ''GITLEAKS_VERSION:''"

definition CI_DOWNLOAD :: string where
  "CI_DOWNLOAD = ''v$'' @ [CHR 0x7B] @ ''GITLEAKS_VERSION'' @ [CHR 0x7D] @ ''/gitleaks_$'' @ [CHR 0x7B] @ ''GITLEAKS_VERSION'' @ [CHR 0x7D] @ ''_''"

definition version_char :: "char \<Rightarrow> bool" where
  "version_char c \<longleftrightarrow> c \<noteq> double_quote \<and> c \<noteq> single_quote \<and> \<not> is_space c \<and> c \<noteq> CHR ''#''"

definition ci_value :: "string \<Rightarrow> string \<times> string" where
  "ci_value s =
     (let r = lstrip s; r' = (if r \<noteq> [] \<and> (hd r = double_quote \<or> hd r = single_quote) then tl r else r)
      in (takeWhile version_char r', dropWhile version_char r'))"

lemma ci_value_shorter: "length (snd (ci_value s)) \<le> length s"
proof -
  have "length (lstrip s) \<le> length s" by (simp add: lstrip_def length_dropWhile_le)
  moreover have "length (dropWhile version_char (lstrip s)) \<le> length (lstrip s)"
    "length (dropWhile version_char (tl (lstrip s))) \<le> length (tl (lstrip s))" by (rule length_dropWhile_le)+
  ultimately show ?thesis by (simp add: ci_value_def Let_def) linarith
qed

function ci_versions :: "bool \<Rightarrow> string \<Rightarrow> string list" where
  "ci_versions fresh [] = []"
| "ci_versions fresh (c # cs) =
     (if fresh \<and> prefix CI_VERSION_KEY (c # cs) \<and> fst (ci_value (drop (length CI_VERSION_KEY) (c # cs))) \<noteq> []
      then fst (ci_value (drop (length CI_VERSION_KEY) (c # cs))) #
           ci_versions False (snd (ci_value (drop (length CI_VERSION_KEY) (c # cs))))
      else ci_versions (c = newline_char \<or> (fresh \<and> is_space c)) cs)"
  by pat_completeness auto
termination
proof (relation "measure (\<lambda>(fresh, s). length s)")
  fix fresh c and cs :: string
  have "length (snd (ci_value (drop (length CI_VERSION_KEY) (c # cs)))) \<le> length (drop (length CI_VERSION_KEY) (c # cs))"
    by (rule ci_value_shorter)
  also have "\<dots> < length (c # cs)" by (simp add: CI_VERSION_KEY_def)
  finally show "((False, snd (ci_value (drop (length CI_VERSION_KEY) (c # cs)))), fresh, c # cs) \<in> measure (\<lambda>(fresh, s). length s)"
    by simp
qed auto

definition ci_workflow_pins :: "string \<Rightarrow> tool_pins" where
  "ci_workflow_pins txt =
     (let pins = foldl (add_pin CI_WORKFLOW) []
            (map (\<lambda>v. (''gitleaks'', dropWhile (\<lambda>c. c = CHR ''v'') v)) (ci_versions True txt))
      in case map_of pins ''gitleaks'' of
           None \<Rightarrow> pins
         | Some v \<Rightarrow>
             if sublist CI_DOWNLOAD txt then pins
             else AList.update ''gitleaks''
               (''UNUSED('' @ v @ '': GITLEAKS_VERSION is set but the download URL in '' @ CI_WORKFLOW @ '' does not reference it)'') pins)"

definition sources_for :: "string \<Rightarrow> string list" where
  "sources_for tool =
     (if List.member CI_TOOLS tool then [PRECOMMIT_CONFIG, CI_WORKFLOW] else PYPROJECTS @ [PRECOMMIT_CONFIG])"

datatype pin_problem = Pin_File_Missing string | Pin_Missing string string | Pins_Disagree string "(string \<times> string option) list"

text \<open>The pins of each file that is there.\<close>

definition pin_sources ::
  "(json \<Rightarrow> string) \<Rightarrow> (string \<Rightarrow> json) \<Rightarrow> (string \<rightharpoonup> string) \<Rightarrow> py_exn + (string \<times> tool_pins) list" where
  "pin_sources py_str load files =
     (case (case files PRECOMMIT_CONFIG of
              None \<Rightarrow> Inr []
            | Some txt \<Rightarrow> then_ok (precommit_revs py_str (load txt)) (\<lambda>pins. Inr [(PRECOMMIT_CONFIG, pins)])) of
        Inl e \<Rightarrow> Inl e
      | Inr pre \<Rightarrow>
          Inr (concat (map (\<lambda>rel. case files rel of None \<Rightarrow> [] | Some txt \<Rightarrow> [(rel, pyproject_pins txt rel)]) PYPROJECTS) @
               pre @
               (case files CI_WORKFLOW of None \<Rightarrow> [] | Some txt \<Rightarrow> [(CI_WORKFLOW, ci_workflow_pins txt)])))"

definition tool_versions :: "(string \<times> tool_pins) list \<Rightarrow> string \<Rightarrow> (string \<times> string option) list" where
  "tool_versions sources tool =
     map (\<lambda>(name, pins). (name, map_of pins tool)) (filter (\<lambda>(name, _). List.member (sources_for tool) name) sources)"

definition pinned :: "string option \<Rightarrow> bool" where
  "pinned v = (case v of None \<Rightarrow> False | Some s \<Rightarrow> s \<noteq> [])"

definition check_tool :: "(string \<times> tool_pins) list \<Rightarrow> string \<Rightarrow> pin_problem list" where
  "check_tool sources tool =
     (let versions = tool_versions sources tool;
          present = first_of_each [] (map snd (filter (\<lambda>(_, v). pinned v) versions))
      in map (\<lambda>(name, _). Pin_Missing name tool) (filter (\<lambda>(_, v). \<not> pinned v) versions) @
         (if 1 < length present then [Pins_Disagree tool (sort_key fst versions)] else []))"

definition check_pins ::
  "(json \<Rightarrow> string) \<Rightarrow> (string \<Rightarrow> json) \<Rightarrow> (string \<rightharpoonup> string) \<Rightarrow> py_exn + pin_problem list" where
  "check_pins py_str load files =
     (case pin_sources py_str load files of
        Inl e \<Rightarrow> Inl e
      | Inr sources \<Rightarrow>
          Inr (map Pin_File_Missing (filter (\<lambda>rel. files rel = None) (PYPROJECTS @ [PRECOMMIT_CONFIG, CI_WORKFLOW])) @
               concat (map (check_tool sources) PIN_TOOLS)))"

definition pins_main :: "(json \<Rightarrow> string) \<Rightarrow> (string \<Rightarrow> json) \<Rightarrow> (string \<rightharpoonup> string) \<Rightarrow> py_exn + int" where
  "pins_main py_str load files =
     (case check_pins py_str load files of Inl e \<Rightarrow> Inl e | Inr problems \<Rightarrow> Inr (if problems = [] then 0 else 1))"

end
