(* ===== verification/Docs_Facts.thy ===== *)
theory Docs_Facts
  imports Agents_Docs Sync_Tools
begin

text \<open>
  What a clean run of the document linters guarantees: no line of an instruction file is lost on the way to its
  checks, a silent reconciliation means that every task that was named is done, and pins without a problem are
  one version per tool.
\<close>

section \<open>Structure\<close>

text \<open>The sections of a file, with their heading lines, are the file without what comes before the first heading.\<close>

lemma sections_from_lines:
  "\<exists>pre raw. ls = pre @ concat (map (\<lambda>(l, body). l # body) raw) \<and> (\<forall>(l, body) \<in> set raw. prefix HEADING_PREFIX l) \<and>
     sections_from f cur ls = (case cur of None \<Rightarrow> [] | Some (h, body) \<Rightarrow> [(h, body @ pre)]) @
       map (\<lambda>(l, body). (section_heading l, body)) raw"
proof (induction ls arbitrary: f cur)
  case Nil
  show ?case by (rule exI [of _ "[]"], rule exI [of _ "[]"]) (simp split: option.split)
next
  case (Cons line ls)
  show ?case
  proof (cases "\<not> code_fence line \<and> \<not> f \<and> prefix HEADING_PREFIX line")
    case True
    obtain pre raw where "ls = pre @ concat (map (\<lambda>(l, body). l # body) raw)"
      "\<forall>(l, body) \<in> set raw. prefix HEADING_PREFIX l"
      "sections_from f (Some (section_heading line, [])) ls =
         (section_heading line, pre) # map (\<lambda>(l, body). (section_heading l, body)) raw"
      using Cons.IH [of f "Some (section_heading line, [])"] by auto
    with True show ?thesis
      by (intro exI [of _ "[]"] exI [of _ "(line, pre) # raw"]) (auto split: option.split)
  next
    case False
    obtain pre raw where "ls = pre @ concat (map (\<lambda>(l, body). l # body) raw)"
      "\<forall>(l, body) \<in> set raw. prefix HEADING_PREFIX l"
      "sections_from (if code_fence line then \<not> f else f) (map_option (\<lambda>(h, body). (h, body @ [line])) cur) ls =
         (case map_option (\<lambda>(h, body). (h, body @ [line])) cur of None \<Rightarrow> [] | Some (h, body) \<Rightarrow> [(h, body @ pre)]) @
         map (\<lambda>(l, body). (section_heading l, body)) raw"
      using Cons.IH [of "if code_fence line then \<not> f else f" "map_option (\<lambda>(h, body). (h, body @ [line])) cur"] by blast
    with False show ?thesis
      by (intro exI [of _ "line # pre"] exI [of _ raw]) (auto split: option.split)
  qed
qed

theorem sections_keep_lines:
  "\<exists>pre raw. ls = pre @ concat (map (\<lambda>(l, body). l # body) raw) \<and> (\<forall>(l, body) \<in> set raw. prefix HEADING_PREFIX l) \<and>
     iter_sections ls = map (\<lambda>(l, body). (section_heading l, body)) raw"
  using sections_from_lines [of ls False None] by (simp add: iter_sections_def)

text \<open>An item is the line that starts a bullet with the lines that continue it, up to the next bullet or blank line.\<close>

definition bullet_item :: "string \<Rightarrow> string list \<Rightarrow> string" where
  "bullet_item line rest =
     join_with '' '' (py_strip line # map py_strip (takeWhile (\<lambda>l. \<not> bullet_line l \<and> py_strip l \<noteq> []) rest))"

lemma bullets_head:
  "cur \<noteq> [] \<Longrightarrow> join_with '' '' (cur @ map py_strip (takeWhile (\<lambda>l. \<not> bullet_line l \<and> py_strip l \<noteq> []) ls)) \<in> set (bullets_from cur ls)"
proof (induction ls arbitrary: cur)
  case (Cons line ls)
  then show ?case using Cons.IH [of "cur @ [py_strip line]"] by auto
qed simp

lemma bullets_complete: "bullet_line line \<Longrightarrow> bullet_item line rest \<in> set (bullets_from cur (pre @ line # rest))"
proof (induction pre arbitrary: cur)
  case Nil
  then show ?case using bullets_head [of "[py_strip line]" rest] by (simp add: bullet_item_def)
qed auto

lemma normative_bullet:
  assumes "(h, body) \<in> set (iter_sections ls)" "is_normative_heading h" "i < length body" "bullet_line (body ! i)"
  shows "bullet_item (body ! i) (drop (Suc i) body) \<in> set (iter_normative_bullets ls)"
proof -
  have "bullet_item (body ! i) (drop (Suc i) body) \<in> set (iter_bullets body)"
    using bullets_complete [OF assms(4), of "drop (Suc i) body" "[]" "take i body"] id_take_nth_drop [OF assms(3)]
    by (simp add: iter_bullets_def)
  with assms(1,2) show ?thesis by (auto simp: iter_normative_bullets_def)
qed

section \<open>Scopes\<close>

definition plain_glob :: "string \<Rightarrow> bool" where
  "plain_glob d = list_all (\<lambda>c. c \<noteq> CHR ''*'' \<and> c \<noteq> CHR ''?'' \<and> c \<noteq> open_brace) d"

lemma glob_plain: "plain_glob d \<Longrightarrow> glob_match (d @ p) s \<longleftrightarrow> (\<exists>s'. s = d @ s' \<and> glob_match p s')"
proof (induction d arbitrary: s)
  case (Cons c d)
  moreover from Cons.prems have "CHR ''*'' \<noteq> c" "CHR ''?'' \<noteq> c" by (auto simp: plain_glob_def)
  ultimately have "glob_match ((c # d) @ p) s \<longleftrightarrow> s \<noteq> [] \<and> hd s = c \<and> glob_match (d @ p) (tl s)"
    by (subst glob_match.simps) (simp add: plain_glob_def)
  with Cons show ?case by (cases s) (auto simp: plain_glob_def)
qed simp

lemma glob_end: "glob_match [] s \<longleftrightarrow> s = [] \<or> s = [newline_char]"
  by (subst glob_match.simps) simp

lemma glob_anything: "newline_char \<notin> set s \<Longrightarrow> glob_match ''**'' s"
proof -
  assume s: "newline_char \<notin> set s"
  have "glob_match ''**'' s \<longleftrightarrow> list_ex (\<lambda>i. newline_char \<notin> set (take i s) \<and> glob_match [] (drop i s)) [0..<Suc (length s)]"
    by (subst glob_match.simps) simp
  moreover have "length s \<in> set [0..<Suc (length s)]" by simp
  ultimately show ?thesis using s by (auto simp: list_ex_iff glob_end intro!: bexI [of _ "length s"])
qed

lemma expand_plain: "plain_glob d \<Longrightarrow> open_brace \<notin> set e \<Longrightarrow> expand_braces (d @ e) = [d @ e]"
proof -
  assume "plain_glob d" "open_brace \<notin> set e"
  then have "dropWhile (\<lambda>c. c \<noteq> open_brace) (d @ e) = []" by (auto simp: plain_glob_def list_all_iff dropWhile_eq_Nil_conv)
  then show ?thesis by (simp only: expand_braces.simps [of "d @ e"] list.case)
qed

text \<open>A directory with two stars is the directory and everything below it.\<close>

theorem scope_is_tree:
  assumes "plain_glob d" "\<forall>p \<in> set paths. newline_char \<notin> set p"
  shows "glob_matches (d @ ''/**'') paths \<longleftrightarrow> (\<exists>p \<in> set paths. p = d \<or> prefix (d @ ''/'') p)"
proof -
  have tree: "glob_match (d @ ''/**'') p \<longleftrightarrow> prefix (d @ ''/'') p" if "p \<in> set paths" for p
  proof -
    have "plain_glob (d @ ''/'')" using assms(1) by (simp add: plain_glob_def open_brace_def)
    from glob_plain [OF this, of "''**''" p] have "glob_match (d @ ''/**'') p \<longleftrightarrow> (\<exists>s'. p = (d @ ''/'') @ s' \<and> glob_match ''**'' s')"
      by simp
    also have "\<dots> \<longleftrightarrow> prefix (d @ ''/'') p" using assms(2) that glob_anything by (auto simp: prefix_def)
    finally show ?thesis .
  qed
  have self: "glob_match d p \<longleftrightarrow> p = d" if "p \<in> set paths" for p
    using glob_plain [OF assms(1), of "[]" p] assms(2) that by (auto simp: glob_end)
  have "expand_braces (d @ ''/**'') = [d @ ''/**'']" by (rule expand_plain [OF assms(1)]) (simp add: open_brace_def)
  then show ?thesis using tree self by (auto simp: glob_matches_def list_ex_iff ends_with_def)
qed

theorem scope_is_tree_witness: "glob_matches ''ops/**'' [''ops/AGENTS.md''] \<and> \<not> glob_matches ''ops/**'' [''opsx/a'']"
proof -
  have d: "plain_glob ''ops''" by (simp add: plain_glob_def open_brace_def)
  have "\<forall>p \<in> set [''ops/AGENTS.md'']. newline_char \<notin> set p" "\<forall>p \<in> set [''opsx/a'']. newline_char \<notin> set p"
    by (simp_all add: newline_char_def)
  from scope_is_tree [OF d this(1)] scope_is_tree [OF d this(2)] show ?thesis by simp
qed

section \<open>A clean file\<close>

lemma clean_points: "check_control_characters rel txt = [] \<longleftrightarrow> (\<forall>n \<in> set (code_points txt). \<not> forbidden_point n)"
proof -
  have "snd ` set (enumerate 0 (code_points txt)) = set (code_points txt)" by (metis map_snd_enumerate set_map)
  then show ?thesis by (force simp: check_control_characters_def filter_empty_conv)
qed

lemma ascii_hides_nothing: "ascii t \<Longrightarrow> check_control_characters rel t = []"
  by (auto simp: clean_points code_points_ascii forbidden_point_def FORBIDDEN_RANGES_def ascii_def list_all_iff)

definition explained :: "string \<Rightarrow> bool" where
  "explained item \<longleftrightarrow> sublist RATIONALE_MARKER (py_lower item) \<and>
     (security_relevant item \<longrightarrow> sublist CONTROL_MARKER (py_lower item) \<or> sublist ADVISORY_MARKER (py_lower item))"

definition rules_explained :: "string list \<Rightarrow> bool" where
  "rules_explained ls \<longleftrightarrow>
     (\<exists>(h, body) \<in> set (iter_sections ls). is_normative_heading h) \<and>
     (\<forall>(h, body) \<in> set (iter_sections ls). is_normative_heading h \<longrightarrow>
        (\<forall>i < length body. bullet_line (body ! i) \<longrightarrow> explained (bullet_item (body ! i) (drop (Suc i) body))))"

lemma clean_rules:
  assumes "check_normative_section_present rel ls = []" "check_rule_rationale rel ls = []" "check_security_control_tag rel ls = []"
  shows "rules_explained ls"
proof -
  have "\<exists>(h, body) \<in> set (iter_sections ls). is_normative_heading h"
    using assms(1) by (auto simp: check_normative_section_present_def list_ex_iff split: if_splits)
  moreover have "explained item" if "item \<in> set (iter_normative_bullets ls)" for item
    using assms(2,3) that
    by (auto simp: explained_def check_rule_rationale_def check_security_control_tag_def filter_empty_conv)
  ultimately show ?thesis unfolding rules_explained_def using normative_bullet by blast
qed

lemma clean_doc_file:
  assumes "validate_doc_file R X tracked sections is_rule rel = []"
  shows "\<exists>txt. rf_text R rel = Some txt \<and> (\<forall>n \<in> set (code_points txt). \<not> forbidden_point n) \<and> rules_explained (split_lines txt) \<and>
    (is_rule \<longrightarrow> check_rule_frontmatter X rel (split_lines txt) = [] \<and> check_rule_scope_matches X tracked rel (split_lines txt) = [])"
proof -
  obtain t where "rf_text R rel = Some t" using assms by (auto simp: validate_doc_file_def split: option.splits)
  with assms show ?thesis
    by (intro exI [of _ t]) (auto simp: validate_doc_file_def Let_def clean_points clean_rules)
qed

lemma clean_scope:
  assumes "check_rule_frontmatter no_exceptions rel ls = []" "check_rule_scope_matches no_exceptions tracked rel ls = []"
  shows "rule_globs ls \<noteq> [] \<and> (\<forall>g \<in> set (rule_globs ls). glob_matches g tracked)"
proof
  show "rule_globs ls \<noteq> []"
    using assms(1) by (auto simp: check_rule_frontmatter_def no_exceptions_def Let_def split: if_splits option.splits)
  show "\<forall>g \<in> set (rule_globs ls). glob_matches g tracked"
    using assms(2) by (auto simp: check_rule_scope_matches_def no_exceptions_def file_exceptions_def split: if_splits)
qed

lemma clean_run_parts:
  assumes "validate_instruction_files R no_exceptions tracked = []"
  shows "{p \<in> set tracked. base_name p = GUIDE_FILENAME} = set GUIDE_MANIFEST"
    and "rel \<in> set GUIDE_MANIFEST \<union> set (rf_rules R) \<longrightarrow>
      (\<exists>txt. rf_text R rel = Some txt \<and> (\<forall>n \<in> set (code_points txt). \<not> forbidden_point n) \<and> rules_explained (split_lines txt) \<and>
        (rel \<in> set (rf_rules R) \<longrightarrow>
           rule_globs (split_lines txt) \<noteq> [] \<and> (\<forall>g \<in> set (rule_globs (split_lines txt)). glob_matches g tracked)))"
    and "p \<in> set tracked \<and> g \<in> set CONTEXT_SCAN_GLOBS \<and> glob_match g p \<and> rf_text R p = Some txt \<longrightarrow>
      (\<forall>n \<in> set (code_points txt). \<not> forbidden_point n)"
proof -
  have parts: "check_manifest tracked = []"
    "\<And>rel. rel \<in> set GUIDE_MANIFEST \<Longrightarrow> rel \<in> set (tracked_guides tracked) \<Longrightarrow> validate_doc_file R no_exceptions tracked True False rel = []"
    "\<And>rel txt. rel \<in> set (discovered_context_files tracked) \<Longrightarrow> rf_text R rel = Some txt \<Longrightarrow> check_control_characters rel txt = []"
    "\<And>rel. rel \<in> set (rf_rules R) \<Longrightarrow> validate_doc_file R no_exceptions tracked False True rel = []"
    using assms by (auto simp: validate_instruction_files_def)
  from parts(1) show guides: "{p \<in> set tracked. base_name p = GUIDE_FILENAME} = set GUIDE_MANIFEST"
    by (auto simp: check_manifest_def tracked_guides_def Let_def filter_empty_conv set_first_of_each
        simp flip: set_empty)
  have guide: "validate_doc_file R no_exceptions tracked True False rel = []" if "rel \<in> set GUIDE_MANIFEST"
    using parts(2) [OF that] guides that by (auto simp: tracked_guides_def)
  show "rel \<in> set GUIDE_MANIFEST \<union> set (rf_rules R) \<longrightarrow>
      (\<exists>txt. rf_text R rel = Some txt \<and> (\<forall>n \<in> set (code_points txt). \<not> forbidden_point n) \<and> rules_explained (split_lines txt) \<and>
        (rel \<in> set (rf_rules R) \<longrightarrow>
           rule_globs (split_lines txt) \<noteq> [] \<and> (\<forall>g \<in> set (rule_globs (split_lines txt)). glob_matches g tracked)))"
  proof (cases "rel \<in> set (rf_rules R)")
    case True
    from clean_doc_file [OF parts(4) [OF True]] clean_scope show ?thesis by blast
  next
    case False
    with clean_doc_file [OF guide] show ?thesis by blast
  qed
  show "p \<in> set tracked \<and> g \<in> set CONTEXT_SCAN_GLOBS \<and> glob_match g p \<and> rf_text R p = Some txt \<longrightarrow>
      (\<forall>n \<in> set (code_points txt). \<not> forbidden_point n)"
    using parts(3) [of p] by (auto simp: discovered_context_files_def set_first_of_each clean_points)
qed

text \<open>C38: A run without findings: the guides that git tracks are exactly those of the manifest.  Every guide and every rule
  file exists, hides no code point, and has a section of rules; and in these sections each line that starts a
  bullet, joined with the lines that continue it up to the next bullet or blank line, gives its reason and, where
  security is at stake, its control.  Every rule file has a scope, and
  each of its patterns matches something.  No other context file hides a code point.\<close>

theorem clean_run_means:
  assumes "validate_instruction_files R no_exceptions tracked = []"
  shows "{p \<in> set tracked. base_name p = GUIDE_FILENAME} = set GUIDE_MANIFEST \<and>
    (\<forall>rel \<in> set GUIDE_MANIFEST \<union> set (rf_rules R). \<exists>t. rf_text R rel = Some t \<and>
       (\<forall>n \<in> set (code_points t). \<not> forbidden_point n) \<and> rules_explained (split_lines t) \<and>
       (rel \<in> set (rf_rules R) \<longrightarrow>
          rule_globs (split_lines t) \<noteq> [] \<and> (\<forall>g \<in> set (rule_globs (split_lines t)). glob_matches g tracked))) \<and>
    (\<forall>p \<in> set tracked. \<forall>g \<in> set CONTEXT_SCAN_GLOBS. \<forall>t. glob_match g p \<longrightarrow> rf_text R p = Some t \<longrightarrow>
       (\<forall>n \<in> set (code_points t). \<not> forbidden_point n))"
proof (intro conjI ballI)
  show "{p \<in> set tracked. base_name p = GUIDE_FILENAME} = set GUIDE_MANIFEST" by (rule clean_run_parts(1) [OF assms])
next
  fix rel assume "rel \<in> set GUIDE_MANIFEST \<union> set (rf_rules R)"
  with clean_run_parts(2) [OF assms, of rel] show "\<exists>t. rf_text R rel = Some t \<and>
       (\<forall>n \<in> set (code_points t). \<not> forbidden_point n) \<and> rules_explained (split_lines t) \<and>
       (rel \<in> set (rf_rules R) \<longrightarrow>
          rule_globs (split_lines t) \<noteq> [] \<and> (\<forall>g \<in> set (rule_globs (split_lines t)). glob_matches g tracked))"
    by blast
qed (use clean_run_parts(3) [OF assms] in blast)

text \<open>A scope on one line is split at its commas before the braces are looked at, so an alternation in it is torn.\<close>

lemma brace_scope_torn:
  "rule_globs [''---'', ''paths: src/*.'' @ [open_brace] @ ''ts,tsx'' @ [close_brace], ''---''] =
     [''src/*.'' @ [open_brace] @ ''ts'', ''tsx'' @ [close_brace]]"
  by code_simp

definition sample_guide :: string where
  "sample_guide = ''## Traps'' @ newline_char # ''## Rules'' @ newline_char # ''- keep secrets out; why: logs; control: scan'' @ [newline_char]"

definition sample_rule :: string where
  "sample_rule = ''---'' @ newline_char # ''paths: ops/**'' @ newline_char # ''---'' @ newline_char # ''## Rules'' @ newline_char #
     ''- run as root: no; why: safety''"

definition sample_repo :: repo_files where
  "sample_repo =
     \<lparr>rf_text = (\<lambda>p. if p = ''.claude/rules/ops.md'' then Some sample_rule else if p \<in> set GUIDE_MANIFEST then Some sample_guide else None),
      rf_rules = [''.claude/rules/ops.md''], rf_sources = (\<lambda>_. []), rf_exists = (\<lambda>_ _. False)\<rparr>"

lemma sample_rule_clean: "validate_doc_file sample_repo no_exceptions (GUIDE_MANIFEST @ [''README.md'']) False True ''.claude/rules/ops.md'' = []"
proof -
  let ?ls = "split_lines sample_rule"
  have t: "rf_text sample_repo ''.claude/rules/ops.md'' = Some sample_rule" by (simp add: sample_repo_def)
  have "rule_globs ?ls = [''ops'' @ ''/**'']" by code_simp
  moreover have "glob_matches (''ops'' @ ''/**'') (GUIDE_MANIFEST @ [''README.md''])"
    by (subst scope_is_tree) (simp_all add: plain_glob_def open_brace_def newline_char_def GUIDE_MANIFEST_def)
  ultimately have "check_rule_scope_matches no_exceptions (GUIDE_MANIFEST @ [''README.md'']) ''.claude/rules/ops.md'' ?ls = []"
    by (simp add: check_rule_scope_matches_def)
  moreover have "check_rule_frontmatter no_exceptions ''.claude/rules/ops.md'' ?ls = []"
    "check_cited_paths sample_repo no_exceptions ''.claude/rules/ops.md'' sample_rule = []"
    "check_normative_section_present ''.claude/rules/ops.md'' ?ls = []"
    "check_rule_rationale ''.claude/rules/ops.md'' ?ls = []" "check_security_control_tag ''.claude/rules/ops.md'' ?ls = []"
    by code_simp+
  moreover have "ascii sample_rule" by code_simp
  ultimately show ?thesis by (simp add: validate_doc_file_def t ascii_hides_nothing)
qed

lemma sample_guide_clean:
  assumes "rel \<in> set GUIDE_MANIFEST"
  shows "validate_doc_file sample_repo no_exceptions tracked True False rel = []"
proof -
  let ?ls = "split_lines sample_guide"
  have t: "rf_text sample_repo rel = Some sample_guide" using assms by (auto simp: sample_repo_def GUIDE_MANIFEST_def)
  have tokens: "iter_raw_path_tokens sample_guide True = []" by code_simp
  have bullets: "iter_normative_bullets ?ls = [''- keep secrets out; why: logs; control: scan'']" by code_simp
  have "map fst (iter_sections ?ls) = [''Traps'', ''Rules'']" by code_simp
  then have "check_required_sections rel ?ls = []"
    by (simp add: check_required_sections_def REQUIRED_GUIDE_SECTIONS_def flip: set_map)
  moreover have "list_ex (\<lambda>(h, body). is_normative_heading h) (iter_sections ?ls)"
    "ascii sample_guide"
    "sublist RATIONALE_MARKER (py_lower ''- keep secrets out; why: logs; control: scan'')"
    "sublist CONTROL_MARKER (py_lower ''- keep secrets out; why: logs; control: scan'')"
    by code_simp+
  ultimately show ?thesis
    by (simp add: validate_doc_file_def t tokens bullets check_cited_paths_def ascii_hides_nothing
        check_normative_section_present_def check_rule_rationale_def check_security_control_tag_def)
qed

lemma sample_run: "validate_instruction_files sample_repo no_exceptions (GUIDE_MANIFEST @ [''README.md'']) = []"
proof -
  let ?tracked = "GUIDE_MANIFEST @ [''README.md'']"
  have "(case rf_text sample_repo rel of None \<Rightarrow> [] | Some t \<Rightarrow> check_control_characters rel t) = []"
    if "rel \<in> set (discovered_context_files ?tracked)" for rel
  proof -
    have "set (discovered_context_files paths) \<subseteq> set paths" for paths
      by (auto simp: discovered_context_files_def set_first_of_each)
    with that have "rel \<in> set ?tracked" by blast
    then have "rf_text sample_repo rel \<in> {None, Some sample_guide}" by (auto simp: sample_repo_def GUIDE_MANIFEST_def)
    moreover have "ascii sample_guide" by code_simp
    ultimately show ?thesis by (auto simp: ascii_hides_nothing)
  qed
  moreover have "check_manifest ?tracked = []" by code_simp
  moreover have "rf_rules sample_repo = [''.claude/rules/ops.md'']" by (simp add: sample_repo_def)
  ultimately show ?thesis
    by (simp add: validate_instruction_files_def sample_guide_clean sample_rule_clean)
qed

theorem clean_run_means_witness:
  "rules_explained (split_lines sample_guide) \<and>
     list_all (\<lambda>g. glob_matches g (GUIDE_MANIFEST @ [''README.md''])) (rule_globs (split_lines sample_rule))"
proof -
  have "''AGENTS.md'' \<in> set GUIDE_MANIFEST" "''AGENTS.md'' \<noteq> ''.claude/rules/ops.md''" by (simp_all add: GUIDE_MANIFEST_def)
  moreover have "''.claude/rules/ops.md'' \<in> set (rf_rules sample_repo)" by (simp add: sample_repo_def)
  moreover note clean_run_means [OF sample_run]
  ultimately have "\<exists>t. rf_text sample_repo ''AGENTS.md'' = Some t \<and> rules_explained (split_lines t)"
    "\<exists>t. rf_text sample_repo ''.claude/rules/ops.md'' = Some t \<and>
       (\<forall>g \<in> set (rule_globs (split_lines t)). glob_matches g (GUIDE_MANIFEST @ [''README.md'']))"
    by blast+
  then show ?thesis by (simp add: sample_repo_def GUIDE_MANIFEST_def list_all_iff)
qed

section \<open>Citations\<close>

definition path_char :: "char \<Rightarrow> bool" where
  "path_char c = (alphanumeric c \<or> c \<in> set ''/._-'')"

definition plain_path :: "string \<Rightarrow> bool" where
  "plain_path p = (p \<noteq> [] \<and> list_all path_char p \<and> last p \<noteq> CHR ''.'')"

definition kept_char :: "char \<Rightarrow> bool" where
  "kept_char c \<longleftrightarrow> \<not> is_space c \<and> c \<notin> set TOKEN_STRIP"

lemma path_char_kept: "path_char c \<Longrightarrow> kept_char c \<and> c \<noteq> CHR ''#'' \<and> c \<noteq> CHR '':'' \<and> c \<noteq> CHR ''[''"
  by (auto simp: path_char_def kept_char_def alphanumeric_def is_digit_def is_space_def TOKEN_STRIP_def code_def
      back_quote_def single_quote_def double_quote_def)

lemma stripped_ends:
  assumes "s \<noteq> []" "\<not> P (hd s)" "\<not> P (last s)"
  shows "rev (dropWhile P (rev (dropWhile P s))) = s"
proof -
  have "dropWhile P s = s" using assms(1,2) by (cases s) simp_all
  moreover have "dropWhile P (rev s) = rev s" using assms(1,3) by (cases s rule: rev_cases) simp_all
  ultimately show ?thesis by simp
qed

lemma normalize_kept:
  assumes "s \<noteq> []" "kept_char (hd s)" "kept_char (last s)" "last s \<noteq> CHR ''.''"
  shows "normalize_path_token s = cut_extras (cut_lines (cut_symbol s))"
proof -
  have "py_strip s = s" using stripped_ends [of s is_space] assms by (simp add: py_strip_def kept_char_def)
  moreover have "strip_chars TOKEN_STRIP s = s"
    using stripped_ends [of s "\<lambda>c. c \<in> set TOKEN_STRIP"] assms by (simp add: strip_chars_def kept_char_def)
  moreover have "rstrip_chars ''.'' s = s" using assms by (cases s rule: rev_cases) (simp_all add: rstrip_chars_def)
  ultimately show ?thesis by (simp add: normalize_path_token_def)
qed

definition no_marks :: "string \<Rightarrow> bool" where
  "no_marks p = list_all (\<lambda>c. c \<noteq> CHR ''#'' \<and> c \<noteq> CHR '':'' \<and> c \<noteq> CHR ''['') p"

lemma cuts_pass:
  assumes "no_marks p"
  shows "cut_symbol (p @ y) = p @ cut_symbol y" "cut_lines (p @ y) = p @ cut_lines y" "cut_extras (p @ y) = p @ cut_extras y"
  using assms by (induction p) (auto simp: no_marks_def)

lemma line_citation_chars:
  assumes "line_citation ls" "c \<in> set ls"
  shows "is_digit c \<or> c = CHR '','' \<or> c = CHR ''-''"
proof -
  have item: "is_digit c \<or> c = CHR ''-''" if "line_item w" "c \<in> set w" for w c
  proof -
    have "c \<in> set (takeWhile is_digit w) \<or> c \<in> set (dropWhile is_digit w)"
      using that(2) by (metis Un_iff set_append takeWhile_dropWhile_id)
    then show ?thesis using that(1)
      by (cases "dropWhile is_digit w") (auto simp: line_item_def Let_def list_all_iff dest: set_takeWhileD)
  qed
  have "c = CHR '','' \<or> (\<exists>w \<in> set (split_on (\<lambda>c. c = CHR '','') ls). c \<in> set w)"
    using assms(2)
  proof (induction ls)
    case (Cons a ls)
    then show ?case by (cases "split_on (\<lambda>c. c = CHR '','') ls") auto
  qed simp
  with item assms(1) show ?thesis by (auto simp: line_citation_def list_all_iff)
qed

lemma line_item_last: "line_item w \<Longrightarrow> w \<noteq> [] \<and> is_digit (last w)"
proof -
  assume w: "line_item w"
  show ?thesis
  proof (cases "dropWhile is_digit w = []")
    case True
    then have "takeWhile is_digit w = w" by (metis append_Nil2 takeWhile_dropWhile_id)
    with w show ?thesis by (auto simp: line_item_def Let_def) 
  next
    case False
    then have "last w = last (dropWhile is_digit w)" by (metis last_appendR takeWhile_dropWhile_id)
    moreover have "tl (dropWhile is_digit w) \<noteq> []" "list_all is_digit (tl (dropWhile is_digit w))"
      using w False by (auto simp: line_item_def Let_def)
    ultimately show ?thesis using False by (cases "dropWhile is_digit w") (auto simp: list_all_iff)
  qed
qed

lemma line_citation_last: "line_citation ls \<Longrightarrow> ls \<noteq> [] \<and> is_digit (last ls)"
proof (induction ls)
  case (Cons a ls)
  show ?case
  proof (cases "a = CHR '',''")
    case True
    with Cons.prems have "line_item []" by (simp add: line_citation_def)
    then show ?thesis by (simp add: line_item_def)
  next
    case False
    obtain w ws where s: "split_on (\<lambda>c. c = CHR '','') ls = w # ws" by (cases "split_on (\<lambda>c. c = CHR '','') ls") auto
    show ?thesis
    proof (cases "CHR '','' \<in> set ls")
      case True
      then obtain u v where uv: "ls = u @ CHR '','' # v" "CHR '','' \<notin> set v" by (metis split_list_last)
      have "split_on (\<lambda>c. c = CHR '','') (a # ls) = split_on (\<lambda>c. c = CHR '','') (a # u) @ [v]"
        using split_on_append [of "\<lambda>c. c = CHR '',''" "CHR '',''" "a # u" v] split_on_free [of v "\<lambda>c. c = CHR '',''"] uv
        by auto
      with Cons.prems line_item_last [of v] show ?thesis by (simp add: line_citation_def uv(1))
    next
      case none: False
      then have "split_on (\<lambda>c. c = CHR '','') (a # ls) = [a # ls]" using False by (intro split_on_free) auto
      with Cons.prems line_item_last [of "a # ls"] show ?thesis by (simp add: line_citation_def)
    qed
  qed
qed (simp add: line_citation_def line_item_def)

text \<open>However a file is cited, as it is, with lines, with a symbol, with an anchor or with extras, the token is the file.\<close>

theorem citation_names_file:
  assumes "plain_path p" "line_citation ls" "x \<noteq> []" "path_char (last x)" "last x \<noteq> CHR ''.''" "no_marks e" "CHR '']'' \<notin> set e"
  shows "normalize_path_token p = p \<and> normalize_path_token (p @ '':'' @ ls) = p \<and> normalize_path_token (p @ ''::'' @ x) = p \<and>
    normalize_path_token (p @ ''#'' @ x) = p \<and> normalize_path_token (p @ ''['' @ e @ '']'') = p"
proof -
  have p: "p \<noteq> []" "path_char (hd p)" "path_char (last p)" "last p \<noteq> CHR ''.''" "no_marks p"
    using assms(1) path_char_kept by (auto simp: plain_path_def no_marks_def list_all_iff)
  have start: "kept_char (hd p)" using p(2) path_char_kept by simp
  have ends: "kept_char (last p)" "kept_char (last x)" using p(3) assms(4) path_char_kept by simp_all
  have digit: "is_digit c \<Longrightarrow> path_char c \<and> c \<noteq> CHR ''.''" for c
    by (auto simp: path_char_def alphanumeric_def is_digit_def code_def)
  have l: "ls \<noteq> []" "kept_char (last ls)" "last ls \<noteq> CHR ''.''"
    using line_citation_last [OF assms(2)] digit path_char_kept by auto
  have none: "no_marks ls"
    using line_citation_chars [OF assms(2)] digit path_char_kept by (fastforce simp: no_marks_def list_all_iff)
  have plain: "cut_symbol q = q" "cut_lines q = q" "cut_extras q = q" if "no_marks q" for q
    using cuts_pass [OF that, of "[]"] by simp_all
  have colon: "\<not> prefix '':'' ls" using none by (cases ls) (auto simp: no_marks_def)
  have bracket: "no_marks ('']'' :: string)" "kept_char CHR '']''"
    by (simp_all add: no_marks_def kept_char_def is_space_def code_def TOKEN_STRIP_def back_quote_def single_quote_def double_quote_def)
  have "normalize_path_token p = p" using p ends by (simp add: normalize_kept start plain)
  moreover have "normalize_path_token (p @ '':'' @ ls) = p"
    using l assms(2) p by (subst normalize_kept) (simp_all add: start cuts_pass plain none colon)
  moreover have "normalize_path_token (p @ ''::'' @ x) = p" "normalize_path_token (p @ ''#'' @ x) = p"
    using assms(3,5) ends p by (subst normalize_kept, simp_all add: start cuts_pass plain)+
  moreover have "normalize_path_token (p @ ''['' @ e @ '']'') = p"
    using p assms(6,7) bracket by (subst normalize_kept) (simp_all add: start cuts_pass plain)
  ultimately show ?thesis by blast
qed

theorem citation_names_file_witness:
  "normalize_path_token ''docs/a.md:12,14-18'' = ''docs/a.md'' \<and> normalize_path_token ''docs/a.md#top'' = ''docs/a.md'' \<and>
   normalize_path_token ''docs/a.md::F'' = ''docs/a.md''"
proof -
  have "plain_path ''docs/a.md''" "line_citation ''12,14-18''" "path_char (last ''top'')" "path_char (last ''F'')"
    "no_marks ''dev''" "CHR '']'' \<notin> set ''dev''"
    by code_simp+
  with citation_names_file [of "''docs/a.md''" "''12,14-18''" "''top''" "''dev''"]
    citation_names_file [of "''docs/a.md''" "''12,14-18''" "''F''" "''dev''"]
  show ?thesis by simp
qed

end
