(* ===== verification/Sync_Facts.thy ===== *)
theory Sync_Facts
  imports Sync_Tools
begin

text \<open>
  What the consistency checks guarantee: a box counts as checked when all boxes of its task in that file are, a
  silent reconciliation names one finished task list for each task, and pins without a problem are one version
  per tool.
\<close>

section \<open>Boxes\<close>

definition marks :: "(string \<times> string \<times> bool) list \<Rightarrow> string \<Rightarrow> string \<Rightarrow> bool list" where
  "marks boxes i file = map (\<lambda>(_, _, c). c) (filter (\<lambda>(f, j, _). f = file \<and> j = i) boxes)"

lemma bundles_of_update: "bundles_of (AList.update i b states) j = (if j = i then b else bundles_of states j)"
  by (simp add: bundles_of_def update_conv)

lemma note_box_lookup:
  "map_of (bundles_of (note_box states (f, j, c)) i) file =
     (if f = file \<and> j = i
      then Some (case map_of (bundles_of states i) file of None \<Rightarrow> c | Some old \<Rightarrow> old \<and> c)
      else map_of (bundles_of states i) file)"
  by (auto simp: note_box_def bundles_of_update update_conv Let_def split: option.split)

lemma box_states_lookup:
  "map_of (bundles_of (foldl note_box [] boxes) i) file =
     (if marks boxes i file = [] then None else Some (\<forall>c \<in> set (marks boxes i file). c))"
proof (induction boxes rule: rev_induct)
  case Nil
  show ?case by (simp add: marks_def bundles_of_def)
next
  case (snoc b boxes)
  obtain f j c where b: "b = (f, j, c)" by (cases b)
  have m: "marks (boxes @ [b]) i file = marks boxes i file @ (if f = file \<and> j = i then [c] else [])"
    by (simp add: marks_def b)
  show ?case by (auto simp: b note_box_lookup snoc.IH m [unfolded b])
qed

definition box_states_ok :: "box_states \<Rightarrow> bool" where
  "box_states_ok states \<longleftrightarrow> (\<forall>i. distinct (map fst (bundles_of states i)) \<and> map_of states i \<noteq> Some [])"

lemma update_nonempty: "AList.update k v d \<noteq> []"
  by (cases d) (auto split: prod.split)

lemma note_box_ok: "box_states_ok states \<Longrightarrow> box_states_ok (note_box states b)"
proof -
  assume ok: "box_states_ok states"
  obtain f j c where b: "b = (f, j, c)" by (cases b)
  have "map_of (bundles_of states j) f \<noteq> None \<Longrightarrow> bundles_of states j \<noteq> []" by auto
  with ok show ?thesis
    by (auto simp: box_states_ok_def note_box_def b bundles_of_update update_conv update_nonempty Let_def distinct_update
        split: option.split)
qed

lemma box_states_foldl_ok: "box_states_ok (foldl note_box [] boxes)"
  by (induction boxes rule: rev_induct) (auto simp: note_box_ok, simp add: box_states_ok_def bundles_of_def)

lemma single_bundle:
  assumes "distinct (map fst d)" "d \<noteq> []"
  shows "length d \<le> 1 \<and> (\<forall>(f, c) \<in> set d. c) \<longleftrightarrow> (\<exists>f. map_of d = [f \<mapsto> True])"
proof
  assume "length d \<le> 1 \<and> (\<forall>(f, c) \<in> set d. c)"
  with assms(2) obtain f c where "d = [(f, c)]" "c" by (cases d) auto
  then show "\<exists>f. map_of d = [f \<mapsto> True]" by auto
next
  assume "\<exists>f. map_of d = [f \<mapsto> True]"
  then obtain f where f: "map_of d = [f \<mapsto> True]" by blast
  then have "fst ` set d = {f}" by (metis dom_empty dom_fun_upd dom_map_of_conv_image_fst option.distinct(1))
  then have "set (map fst d) = {f}" by simp
  then have "length d = 1" using assms(1) distinct_card [of "map fst d"] by simp
  moreover have "c" if "(g, c) \<in> set d" for g c
    using that assms(1) f by (metis map_of_eq_Some_iff fun_upd_apply option.distinct(1) option.inject)
  ultimately show "length d \<le> 1 \<and> (\<forall>(f, c) \<in> set d. c)" by auto
qed

lemma reconcile_id_silent:
  "box_states_ok states \<Longrightarrow> reconcile_id states subject i = [] \<longleftrightarrow> (\<exists>f. map_of (bundles_of states i) = [f \<mapsto> True])"
proof -
  assume ok: "box_states_ok states"
  show ?thesis
  proof (cases "map_of states i")
    case None
    then show ?thesis by (simp add: reconcile_id_def bundles_of_def) (metis map_upd_nonempty)
  next
    case (Some d)
    then have d: "bundles_of states i = d" "distinct (map fst d)" "d \<noteq> []"
      using ok by (auto simp: bundles_of_def box_states_ok_def split: option.splits)
    have "reconcile_id states subject i = [] \<longleftrightarrow> length d \<le> 1 \<and> (\<forall>(f, c) \<in> set d. c)"
      using Some by (auto simp: reconcile_id_def split: if_splits)
    with single_bundle [OF d(2,3)] show ?thesis by (simp add: d(1))
  qed
qed

text \<open>The reconciliation is silent exactly when every task that a commit names at the front of its subject has its
  boxes in one task list, at least one, and all of them are checked.\<close>

theorem silent_means_done:
  "fst (reconcile subjects (bundle_checkbox_states files)) = [] \<longleftrightarrow>
     (\<forall>subject \<in> set subjects. \<forall>i \<in> set (subject_task_ids subject).
        \<exists>file. (file, i, True) \<in> set (boxes_of files) \<and>
          (\<forall>f c. (f, i, c) \<in> set (boxes_of files) \<longrightarrow> f = file \<and> c))"
proof -
  let ?boxes = "boxes_of files"
  have m: "marks ?boxes i f = [] \<longleftrightarrow> (\<forall>c. (f, i, c) \<notin> set ?boxes)" for i f
    by (auto simp: marks_def filter_empty_conv)
  have all: "(\<forall>c \<in> set (marks ?boxes i f). c) \<longleftrightarrow> (f, i, False) \<notin> set ?boxes" for i f
  proof -
    have "(\<forall>c \<in> set (marks ?boxes i f). c) \<longleftrightarrow> False \<notin> set (marks ?boxes i f)" by (metis (full_types))
    also have "\<dots> \<longleftrightarrow> (f, i, False) \<notin> set ?boxes" by (auto simp: marks_def image_iff) (metis prod.collapse)
    finally show ?thesis .
  qed
  have "reconcile_id (bundle_checkbox_states files) subject i = [] \<longleftrightarrow>
      (\<exists>file. (file, i, True) \<in> set ?boxes \<and> (\<forall>f c. (f, i, c) \<in> set ?boxes \<longrightarrow> f = file \<and> c))" for subject i
  proof -
    have "reconcile_id (bundle_checkbox_states files) subject i = [] \<longleftrightarrow>
        (\<exists>file. \<forall>f. map_of (bundles_of (foldl note_box [] ?boxes) i) f = (if f = file then Some True else None))"
      by (simp add: bundle_checkbox_states_def reconcile_id_silent [OF box_states_foldl_ok] fun_eq_iff)
    also have "\<dots> \<longleftrightarrow> (\<exists>file. \<forall>f. if f = file then (\<exists>c. (f, i, c) \<in> set ?boxes) \<and> (f, i, False) \<notin> set ?boxes
        else (\<forall>c. (f, i, c) \<notin> set ?boxes))"
      by (simp add: box_states_lookup m all if_split_eq1) (intro arg_cong [of _ _ Ex] ext arg_cong [of _ _ All], auto)
    also have "\<dots> \<longleftrightarrow> (\<exists>file. (file, i, True) \<in> set ?boxes \<and> (\<forall>f c. (f, i, c) \<in> set ?boxes \<longrightarrow> f = file \<and> c))"
      by (intro arg_cong [of _ _ Ex] ext) (auto split: if_splits, (metis (full_types))+)
    finally show ?thesis .
  qed
  then show ?thesis by (auto simp: reconcile_def)
qed

definition sample_tasks :: "(string \<times> string) list" where
  "sample_tasks =
     [(''openspec/changes/a/tasks.md'', ''- [x] T-1.2 one'' @ newline_char # ''  * [X] T-1.2 again'' @ newline_char # ''- [ ] T-1.2a half'')]"

theorem silent_means_done_witness:
  "fst (reconcile [''T-1.2: fix'', ''tidy T-9.9''] (bundle_checkbox_states sample_tasks)) = [] \<and>
   fst (reconcile [''T-1.2/T-1.2a fix''] (bundle_checkbox_states sample_tasks)) \<noteq> []"
proof -
  have b: "boxes_of sample_tasks = [(''openspec/changes/a/tasks.md'', ''T-1.2'', True),
      (''openspec/changes/a/tasks.md'', ''T-1.2'', True), (''openspec/changes/a/tasks.md'', ''T-1.2a'', False)]"
    by code_simp
  have s: "subject_task_ids ''T-1.2: fix'' = [''T-1.2'']" "subject_task_ids ''tidy T-9.9'' = []"
    "subject_task_ids ''T-1.2/T-1.2a fix'' = [''T-1.2'', ''T-1.2a'']"
    by (simp_all add: subject_task_ids_def task_ids_at.simps task_id_at_def is_digit_def lower_letter_def code_def Let_def)
  show ?thesis
    using silent_means_done [of "[''T-1.2: fix'', ''tidy T-9.9'']" sample_tasks]
      silent_means_done [of "[''T-1.2/T-1.2a fix'']" sample_tasks]
    by (simp add: b s)
qed

section \<open>Pins\<close>

lemma add_pin_lookup:
  "map_of (add_pin rel pins (t, w)) tool =
     (if t = tool
      then Some (case map_of pins tool of
          Some old \<Rightarrow> if old \<noteq> w then conflict_mark @ old @ '' vs '' @ w @ '' in '' @ rel @ '')'' else w
        | None \<Rightarrow> w)
      else map_of pins tool)"
  by (auto simp: add_pin_def update_conv split: option.split)

lemma add_pin_keys: "fst ` set (add_pin rel pins (t, w)) = insert t (fst ` set pins)"
  by (simp add: add_pin_def keys_update split: option.split)

lemma add_pins_keys: "fst ` set (foldl (add_pin rel) [] ms) = fst ` set ms"
proof (induction ms rule: rev_induct)
  case (snoc m ms)
  then show ?case by (cases m) (simp add: add_pin_keys)
qed simp

text \<open>A pin that is no sentinel is that of every match of its tool.\<close>

lemma add_pins_agree:
  assumes "map_of (foldl (add_pin rel) [] ms) tool = Some v" "\<not> prefix conflict_mark v"
  shows "(tool, v) \<in> set ms \<and> (\<forall>w. (tool, w) \<in> set ms \<longrightarrow> w = v)"
  using assms
proof (induction ms rule: rev_induct)
  case (snoc m ms)
  obtain t w where m: "m = (t, w)" by (cases m)
  show ?case
  proof (cases "t = tool")
    case True
    have same: "map_of (foldl (add_pin rel) [] ms) tool = Some w" "v = w"
      if "map_of (foldl (add_pin rel) [] ms) tool \<noteq> None"
      using that snoc.prems by (auto simp: m True add_pin_lookup split: if_splits)
    show ?thesis
    proof (cases "map_of (foldl (add_pin rel) [] ms) tool")
      case None
      have absent: "(tool, w') \<notin> set ms" for w'
      proof
        assume "(tool, w') \<in> set ms"
        then show False using None by (metis add_pins_keys map_of_eq_None_iff fst_conv image_eqI)
      qed
      with None snoc.prems show ?thesis by (auto simp: m True add_pin_lookup)
    next
      case (Some old)
      with same snoc.IH snoc.prems(2) show ?thesis by (auto simp: m True)
    qed
  next
    case False
    then have "map_of (foldl (add_pin rel) [] ms) tool = Some v"
      using snoc.prems(1) by (simp add: m add_pin_lookup)
    with snoc.IH snoc.prems(2) False show ?thesis by (auto simp: m)
  qed
qed simp

definition pin_files :: "string list" where "pin_files = PYPROJECTS @ [PRECOMMIT_CONFIG, CI_WORKFLOW]"

definition file_pins :: "(json \<Rightarrow> string) \<Rightarrow> (string \<Rightarrow> json) \<Rightarrow> string \<Rightarrow> string \<Rightarrow> tool_pins" where
  "file_pins py_str load name t =
     (if name \<in> set PYPROJECTS then pyproject_pins t name
      else if name = PRECOMMIT_CONFIG then (case precommit_revs py_str (load t) of Inr pins \<Rightarrow> pins | Inl _ \<Rightarrow> [])
      else ci_workflow_pins t)"

lemma pin_file_names:
  "PRECOMMIT_CONFIG \<notin> set PYPROJECTS" "CI_WORKFLOW \<notin> set PYPROJECTS" "CI_WORKFLOW \<noteq> PRECOMMIT_CONFIG"
  by (simp_all add: PRECOMMIT_CONFIG_def PYPROJECTS_def CI_WORKFLOW_def)

lemma pin_sources_members:
  assumes "pin_sources py_str load files = Inr sources"
  shows "(name, pins) \<in> set sources \<longleftrightarrow>
    name \<in> set pin_files \<and> (\<exists>t. files name = Some t \<and> pins = file_pins py_str load name t)"
proof -
  let ?projects = "concat (map (\<lambda>rel. case files rel of None \<Rightarrow> [] | Some t \<Rightarrow> [(rel, pyproject_pins t rel)]) PYPROJECTS)"
  let ?ci = "case files CI_WORKFLOW of None \<Rightarrow> [] | Some t \<Rightarrow> [(CI_WORKFLOW, ci_workflow_pins t)]"
  let ?in = "\<lambda>names. name \<in> names \<and> (\<exists>t. files name = Some t \<and> pins = file_pins py_str load name t)"
  obtain pre where pre: "(case files PRECOMMIT_CONFIG of None \<Rightarrow> Inr []
        | Some t \<Rightarrow> then_ok (precommit_revs py_str (load t)) (\<lambda>pins. Inr [(PRECOMMIT_CONFIG, pins)])) = Inr pre"
    and S: "sources = ?projects @ pre @ ?ci"
    using assms by (auto simp: pin_sources_def split: sum.splits)
  have "(name, pins) \<in> set (case files rel of None \<Rightarrow> [] | Some t \<Rightarrow> [(rel, pyproject_pins t rel)]) \<longleftrightarrow>
      rel = name \<and> (\<exists>t. files name = Some t \<and> pins = pyproject_pins t name)" for rel
    by (cases "files rel") auto
  then have "(name, pins) \<in> set ?projects \<longleftrightarrow> ?in (set PYPROJECTS)"
    by (auto simp: file_pins_def)
  moreover have "(name, pins) \<in> set pre \<longleftrightarrow> ?in {PRECOMMIT_CONFIG}"
  proof (cases "files PRECOMMIT_CONFIG")
    case (Some t)
    with pre obtain p where "precommit_revs py_str (load t) = Inr p" "pre = [(PRECOMMIT_CONFIG, p)]"
      by (auto simp: then_ok_def split: sum.splits)
    with Some show ?thesis by (auto simp: file_pins_def pin_file_names)
  qed (use pre in auto)
  moreover have "(name, pins) \<in> set ?ci \<longleftrightarrow> ?in {CI_WORKFLOW}"
    by (cases "files CI_WORKFLOW") (auto simp: file_pins_def pin_file_names)
  ultimately show ?thesis unfolding S pin_files_def by auto
qed

lemma first_of_each_single: "length (first_of_each [] xs) \<le> 1 \<longleftrightarrow> (\<forall>x \<in> set xs. \<forall>y \<in> set xs. x = y)"
proof -
  have "length (first_of_each [] xs) = card (set xs)"
    using distinct_card [OF distinct_first_of_each [of "[]" xs]] by (simp add: set_first_of_each)
  then show ?thesis using card_le_Suc0_iff_eq [of "set xs"] by simp
qed

lemma tool_versions_ball:
  "(\<forall>(n, v) \<in> set (tool_versions sources tool). Q v) \<longleftrightarrow>
     (\<forall>(name, pins) \<in> set sources. name \<in> set (sources_for tool) \<longrightarrow> Q (map_of pins tool))"
  by (auto simp: tool_versions_def)

lemma check_tool_clean:
  "check_tool sources tool = [] \<longleftrightarrow>
     (\<forall>(name, pins) \<in> set sources. name \<in> set (sources_for tool) \<longrightarrow> pinned (map_of pins tool)) \<and>
     (\<forall>(name, pins) \<in> set sources. name \<in> set (sources_for tool) \<longrightarrow>
        (\<forall>(name', pins') \<in> set sources. name' \<in> set (sources_for tool) \<longrightarrow> map_of pins tool = map_of pins' tool))"
  (is "_ \<longleftrightarrow> ?pinned \<and> ?same")
proof -
  let ?vs = "tool_versions sources tool"
  have "check_tool sources tool = [] \<longleftrightarrow> (\<forall>(n, v) \<in> set ?vs. pinned v) \<and>
      length (first_of_each [] (map snd (filter (\<lambda>(_, v). pinned v) ?vs))) \<le> 1"
    by (auto simp: check_tool_def Let_def filter_empty_conv)
  also have "\<dots> \<longleftrightarrow> (\<forall>(n, v) \<in> set ?vs. pinned v) \<and> (\<forall>(n, v) \<in> set ?vs. \<forall>(n', v') \<in> set ?vs. v = v')"
  proof (rule conj_cong [OF refl])
    assume "\<forall>(n, v) \<in> set ?vs. pinned v"
    then have "filter (\<lambda>(_, v). pinned v) ?vs = ?vs" by (simp add: filter_id_conv split_beta)
    then show "length (first_of_each [] (map snd (filter (\<lambda>(_, v). pinned v) ?vs))) \<le> 1 \<longleftrightarrow>
        (\<forall>(n, v) \<in> set ?vs. \<forall>(n', v') \<in> set ?vs. v = v')"
      unfolding first_of_each_single by (simp add: split_beta)
  qed
  finally show ?thesis unfolding tool_versions_ball .
qed

text \<open>No problem is found exactly when the four files are there and each tool has one version, which is not empty, in
  all files that pin it; a version that is no sentinel is the one of every requirement in the text of a project.\<close>

theorem pins_in_sync:
  assumes "check_pins py_str load files = Inr problems"
  shows "(problems = [] \<longleftrightarrow>
      (\<forall>name \<in> set pin_files. files name \<noteq> None) \<and>
      (\<forall>tool \<in> set PIN_TOOLS. \<exists>v. v \<noteq> [] \<and> (\<forall>name \<in> set (sources_for tool). \<exists>t. files name = Some t \<and>
         map_of (file_pins py_str load name t) tool = Some v))) \<and>
    (\<forall>name \<in> set PYPROJECTS. \<forall>t v tool. map_of (file_pins py_str load name t) tool = Some v \<longrightarrow> \<not> prefix conflict_mark v \<longrightarrow>
       (tool, v) \<in> set (pin_matches t) \<and> (\<forall>w. (tool, w) \<in> set (pin_matches t) \<longrightarrow> w = v))"
proof
  obtain sources where S: "pin_sources py_str load files = Inr sources"
    and P: "problems = map Pin_File_Missing (filter (\<lambda>rel. files rel = None) (PYPROJECTS @ [PRECOMMIT_CONFIG, CI_WORKFLOW])) @
               concat (map (check_tool sources) PIN_TOOLS)"
    using assms by (auto simp: check_pins_def split: sum.splits)
  have for_tool: "check_tool sources tool = [] \<longleftrightarrow> (\<exists>v. v \<noteq> [] \<and> (\<forall>name \<in> set (sources_for tool). \<exists>t. files name = Some t \<and>
         map_of (file_pins py_str load name t) tool = Some v))"
    if there: "\<forall>name \<in> set pin_files. files name \<noteq> None" for tool
  proof -
    have sub: "set (sources_for tool) \<subseteq> set pin_files" by (auto simp: sources_for_def pin_files_def)
    define pin where "pin name = map_of (file_pins py_str load name (the (files name))) tool" for name
    have "check_tool sources tool = [] \<longleftrightarrow>
        (\<forall>name \<in> set (sources_for tool). pinned (pin name)) \<and>
        (\<forall>name \<in> set (sources_for tool). \<forall>name' \<in> set (sources_for tool). pin name = pin name')"
    proof -
      have each: "(\<forall>(name, pins) \<in> set sources. name \<in> set (sources_for tool) \<longrightarrow> Q (map_of pins tool)) \<longleftrightarrow>
          (\<forall>name \<in> set (sources_for tool). Q (pin name))" for Q
      proof
        assume "\<forall>(name, pins) \<in> set sources. name \<in> set (sources_for tool) \<longrightarrow> Q (map_of pins tool)"
        moreover have "(name, file_pins py_str load name (the (files name))) \<in> set sources" if "name \<in> set (sources_for tool)" for name
          using that there sub by (auto simp: pin_sources_members [OF S]) (metis option.sel subsetD)
        ultimately show "\<forall>name \<in> set (sources_for tool). Q (pin name)" by (auto simp: pin_def)
      next
        assume "\<forall>name \<in> set (sources_for tool). Q (pin name)"
        then show "\<forall>(name, pins) \<in> set sources. name \<in> set (sources_for tool) \<longrightarrow> Q (map_of pins tool)"
          by (auto simp: pin_sources_members [OF S] pin_def) (metis option.sel)
      qed
      show ?thesis
        unfolding check_tool_clean each using each [of "\<lambda>v. \<forall>name' \<in> set (sources_for tool). v = pin name'"] by simp
    qed
    also have "\<dots> \<longleftrightarrow> (\<exists>v. v \<noteq> [] \<and> (\<forall>name \<in> set (sources_for tool). pin name = Some v))"
    proof
      assume a: "(\<forall>name \<in> set (sources_for tool). pinned (pin name)) \<and>
        (\<forall>name \<in> set (sources_for tool). \<forall>name' \<in> set (sources_for tool). pin name = pin name')"
      have here: "PRECOMMIT_CONFIG \<in> set (sources_for tool)" by (simp add: sources_for_def)
      with a have "pinned (pin PRECOMMIT_CONFIG)" by blast
      then obtain v where v: "pin PRECOMMIT_CONFIG = Some v" "v \<noteq> []" by (cases "pin PRECOMMIT_CONFIG") (auto simp: pinned_def)
      have "pin name = pin PRECOMMIT_CONFIG" if "name \<in> set (sources_for tool)" for name using a that here by blast
      with v show "\<exists>v. v \<noteq> [] \<and> (\<forall>name \<in> set (sources_for tool). pin name = Some v)" by auto
    qed (auto simp: pinned_def)
    also have "\<dots> \<longleftrightarrow> (\<exists>v. v \<noteq> [] \<and> (\<forall>name \<in> set (sources_for tool). \<exists>t. files name = Some t \<and>
         map_of (file_pins py_str load name t) tool = Some v))"
      using there sub by (intro arg_cong [of _ _ Ex] ext) (fastforce simp: pin_def)
    finally show ?thesis .
  qed
  have "problems = [] \<longleftrightarrow> (\<forall>name \<in> set pin_files. files name \<noteq> None) \<and> (\<forall>tool \<in> set PIN_TOOLS. check_tool sources tool = [])"
    unfolding P by (auto simp: pin_files_def filter_empty_conv)
  with for_tool show "problems = [] \<longleftrightarrow>
      (\<forall>name \<in> set pin_files. files name \<noteq> None) \<and>
      (\<forall>tool \<in> set PIN_TOOLS. \<exists>v. v \<noteq> [] \<and> (\<forall>name \<in> set (sources_for tool). \<exists>t. files name = Some t \<and>
         map_of (file_pins py_str load name t) tool = Some v))"
    by blast
  show "\<forall>name \<in> set PYPROJECTS. \<forall>t v tool. map_of (file_pins py_str load name t) tool = Some v \<longrightarrow> \<not> prefix conflict_mark v \<longrightarrow>
       (tool, v) \<in> set (pin_matches t) \<and> (\<forall>w. (tool, w) \<in> set (pin_matches t) \<longrightarrow> w = v)"
    using add_pins_agree by (auto simp: file_pins_def pyproject_pins_def)
qed

definition sample_project :: string where
  "sample_project = ''dev = ['' @ [double_quote] @ ''ruff==0.6.9'' @ [double_quote] @ '', '' @ [double_quote] @ ''mypy==1.11'' @ [double_quote] @ '']''"

definition sample_pins :: "string \<rightharpoonup> string" where
  "sample_pins name =
     (if name \<in> set PYPROJECTS then Some sample_project
      else if name = PRECOMMIT_CONFIG then Some ''repos''
      else if name = CI_WORKFLOW then Some (''  GITLEAKS_VERSION: 8.21'' @ newline_char # CI_DOWNLOAD)
      else None)"

definition sample_yaml :: "string \<Rightarrow> json" where
  "sample_yaml t = JObj [(''repos'', JArr
     [JObj [(''repo'', JStr ''https://x/ruff-pre-commit''), (''rev'', JStr ''v0.6.9'')],
      JObj [(''repo'', JStr ''https://x/mirrors-mypy''), (''rev'', JStr ''v1.11'')],
      JObj [(''repo'', JStr ''https://x/gitleaks/gitleaks''), (''rev'', JStr ''v8.21'')]])]"

definition str_of_json :: "json \<Rightarrow> string" where
  "str_of_json v = (case v of JStr s \<Rightarrow> s | _ \<Rightarrow> [])"

theorem pins_in_sync_witness:
  "check_pins str_of_json sample_yaml sample_pins = Inr [] \<and>
   (\<forall>tool \<in> set PIN_TOOLS. \<exists>v. v \<noteq> [] \<and> (\<forall>name \<in> set (sources_for tool). \<exists>t. sample_pins name = Some t \<and>
      map_of (file_pins str_of_json sample_yaml name t) tool = Some v))"
proof -
  have "check_pins str_of_json sample_yaml sample_pins = Inr []" by code_simp
  with pins_in_sync [OF this] show ?thesis by blast
qed

end
