(* ===== verification/Console_Sources.thy ===== *)
theory Console_Sources
  imports Web_Kit Link_Health Inference_Client
begin

text \<open>
  What feeds the console and the assistant (\<^verbatim>\<open>meshsa/ui/logring.py\<close>, \<^verbatim>\<open>ui/sources.py\<close>) and the transport under
  the inference client (\<^verbatim>\<open>inference/transport.py\<close>): the bounded tail of the log, the adapters over health,
  link and assistant, and the reuse of one HTTP session.
\<close>

section \<open>The log ring\<close>

text \<open>A bound value is a JSON value or some other object.\<close>

datatype log_value = Json_Value json | Some_Object

definition log_levels :: "(string \<times> int) list" where
  "log_levels =
     [(''debug'', 10), (''info'', 20), (''warn'', 30), (''warning'', 30), (''error'', 40), (''exception'', 40),
      (''critical'', 50), (''fatal'', 50)]"

definition UNKNOWN_LEVEL :: int where "UNKNOWN_LEVEL = 20"

definition RESERVED_KEYS :: "string list" where "RESERVED_KEYS = [''event'', ''logger'', ''level'', ''timestamp'']"

text \<open>A JSON value without parts; \<open>None\<close> for what the ring leaves out.\<close>

definition json_scalar :: "json \<Rightarrow> bool" where
  "json_scalar v = (case v of JFloat x \<Rightarrow> pf_isfinite x | JArr _ \<Rightarrow> False | JObj _ \<Rightarrow> False | _ \<Rightarrow> True)"

definition scalar_of :: "log_value \<Rightarrow> json option" where
  "scalar_of v = (case v of Json_Value j \<Rightarrow> if json_scalar j then Some j else None | Some_Object \<Rightarrow> None)"

record log_ring =
  lr_floor :: int
  lr_size :: nat
  lr_entries :: "(string \<times> json) list list"

definition new_log_ring :: "int \<Rightarrow> string \<Rightarrow> py_exn + log_ring" where
  "new_log_ring ring_size level =
     (if ring_size \<le> 0 then Inl ValueError
      else case map_of log_levels (py_lower (py_strip level)) of
        None \<Rightarrow> Inl ValueError
      | Some least \<Rightarrow> Inr \<lparr>lr_floor = least, lr_size = nat ring_size, lr_entries = []\<rparr>)"

definition severity_of :: "string \<Rightarrow> int" where
  "severity_of method_name = (case map_of log_levels method_name of Some n \<Rightarrow> n | None \<Rightarrow> UNKNOWN_LEVEL)"

definition bound_value :: "(string \<times> log_value) list \<Rightarrow> string \<Rightarrow> json" where
  "bound_value d k = (case map_of d k of None \<Rightarrow> JNull | Some v \<Rightarrow> (case scalar_of v of None \<Rightarrow> JNull | Some j \<Rightarrow> j))"

definition entry_time :: "(string \<times> log_value) list \<Rightarrow> json \<Rightarrow> json" where
  "entry_time d now =
     (case map_of d ''timestamp'' of
        Some (Json_Value (JInt i)) \<Rightarrow> JInt i
      | Some (Json_Value (JFloat x)) \<Rightarrow> JFloat x
      | Some (Json_Value (JBool b)) \<Rightarrow> JBool b
      | _ \<Rightarrow> now)"

definition bind_value :: "(string \<times> json) list \<Rightarrow> string \<times> log_value \<Rightarrow> (string \<times> json) list" where
  "bind_value entry kv =
     (case kv of (k, v) \<Rightarrow>
        (case scalar_of v of
           None \<Rightarrow> entry
         | Some j \<Rightarrow> if List.member RESERVED_KEYS k then entry else AList.update k j entry))"

definition ring_entry :: "string \<Rightarrow> (string \<times> log_value) list \<Rightarrow> json \<Rightarrow> (string \<times> json) list" where
  "ring_entry method_name d now =
     foldl bind_value
       [(''ts'', entry_time d now), (''level'', JStr method_name), (''logger'', bound_value d ''logger''),
        (''event'', bound_value d ''event'')] d"

definition ring_process :: "log_ring \<Rightarrow> string \<times> (string \<times> log_value) list \<times> json \<Rightarrow> log_ring" where
  "ring_process R ev =
     (case ev of (method_name, d, now) \<Rightarrow>
        if lr_floor R \<le> severity_of method_name
        then R\<lparr>lr_entries := deque_append (lr_size R) (lr_entries R) (ring_entry method_name d now)\<rparr>
        else R)"

text \<open>The list of processors gets the ring in front, once.\<close>

definition ring_install :: "'p \<Rightarrow> 'p list \<Rightarrow> 'p list" where
  "ring_install processor current = (if List.member current processor then current else processor # current)"

lemma ring_install_once: "ring_install p (ring_install p ps) = ring_install p ps"
  by (simp add: ring_install_def)

lemma ring_process_keeps [simp]:
  "lr_size (ring_process R ev) = lr_size R" "lr_floor (ring_process R ev) = lr_floor R"
  by (simp_all add: ring_process_def split: prod.split)

definition last_ones :: "nat \<Rightarrow> 'a list \<Rightarrow> 'a list" where
  "last_ones n xs = drop (length xs - n) xs"

lemma deque_append_last_ones: "deque_append n (last_ones n xs) x = last_ones n (xs @ [x])"
  by (cases "length xs \<le> n") (auto simp: deque_append_def last_ones_def Suc_diff_le)

definition captured :: "int \<Rightarrow> (string \<times> (string \<times> log_value) list \<times> json) list \<Rightarrow> (string \<times> json) list list" where
  "captured least evs =
     map (\<lambda>(m, d, now). ring_entry m d now) (filter (\<lambda>(m, _, _). least \<le> severity_of m) evs)"

lemma ring_run:
  "lr_entries R = last_ones (lr_size R) xs \<Longrightarrow>
     lr_entries (foldl ring_process R evs) = last_ones (lr_size R) (xs @ captured (lr_floor R) evs)"
proof (induction evs arbitrary: R xs)
  case (Cons ev evs)
  obtain m d now where ev: "ev = (m, d, now)" by (cases ev)
  let ?ys = "if lr_floor R \<le> severity_of m then xs @ [ring_entry m d now] else xs"
  have "lr_entries (ring_process R ev) = last_ones (lr_size (ring_process R ev)) ?ys"
    using Cons.prems by (simp add: ev ring_process_def deque_append_last_ones)
  from Cons.IH [OF this] show ?case by (simp add: ev captured_def)
qed (simp add: captured_def)

text \<open>Only scalars that JSON can carry are in an entry, but for the time that the event itself brings.\<close>

lemma scalar_of_json: "scalar_of v = Some j \<Longrightarrow> json_scalar j"
  by (auto simp: scalar_of_def split: log_value.splits if_splits)

lemma bound_value_scalar: "json_scalar (bound_value d k)"
  using scalar_of_json by (auto simp: bound_value_def split: option.split) (simp_all add: json_scalar_def)

definition json_safe :: "(string \<times> json) list \<Rightarrow> bool" where
  "json_safe entry \<longleftrightarrow> (\<forall>k j. (k, j) \<in> set entry \<longrightarrow> k \<noteq> ''ts'' \<longrightarrow> json_scalar j)"

lemma json_safe_update: "json_safe entry \<Longrightarrow> json_scalar j \<Longrightarrow> json_safe (AList.update k j entry)"
  by (induction entry) (auto simp: json_safe_def)

lemma json_safe_bind: "json_safe entry \<Longrightarrow> json_safe (bind_value entry kv)"
  by (auto simp: bind_value_def json_safe_update scalar_of_json split: prod.split option.split)

lemma ring_entry_safe: "json_safe (ring_entry m d now)"
proof -
  have "json_safe (foldl bind_value entry d)" if "json_safe entry" for entry
    using that by (induction d arbitrary: entry) (simp_all add: json_safe_bind)
  moreover have "json_safe [(''ts'', entry_time d now), (''level'', JStr m), (''logger'', bound_value d ''logger''),
        (''event'', bound_value d ''event'')]"
    using bound_value_scalar by (auto simp: json_safe_def) (simp add: json_scalar_def)
  ultimately show ?thesis unfolding ring_entry_def by blast
qed

section \<open>The panels\<close>

fun health_state_value :: "health_state \<Rightarrow> string" where
  "health_state_value NO_DATA = ''no_data''"
| "health_state_value HS_OK = ''ok''"
| "health_state_value HS_WARN = ''warn''"
| "health_state_value HS_CRITICAL = ''critical''"

definition node_health_source :: "('s \<Rightarrow> node_view) \<Rightarrow> metrics_format \<Rightarrow> ('s, (string \<times> json) list) reading" where
  "node_health_source view fmt = (\<lambda>s.
     (Inr [(''health'', JObj (health_snapshot (view s))),
           (''metrics'', case render_metrics (view s) fmt of Metrics_Text t \<Rightarrow> JStr t | Metrics_Json kvs \<Rightarrow> JObj kvs)], s))"

definition fpv_link_source :: "('s \<Rightarrow> health_report \<times> 's) \<Rightarrow> ('s, json) reading" where
  "fpv_link_source evaluate_link = (\<lambda>s.
     case evaluate_link s of (r, s1) \<Rightarrow>
       (Inr (JObj [(''state'', JStr (health_state_value (hr_state r))), (''arm_permitted'', JBool (arm_permitted r)),
                   (''reasons'', JArr (map JStr (reasons r))), (''t_mono'', JFloat (Fin (t_mono r)))]), s1))"

definition DEFAULT_MAX_PROMPT_CHARS :: int where "DEFAULT_MAX_PROMPT_CHARS = 8000"

definition agent_chat_backend ::
  "(string \<Rightarrow> ('s, agent_reply) reading) \<Rightarrow> int \<Rightarrow> json option \<Rightarrow> ('s, json \<times> nat) reading" where
  "agent_chat_backend ask max_prompt_chars payload = (\<lambda>s.
     case chat_reply ask (if max_prompt_chars \<le> 0 then DEFAULT_MAX_PROMPT_CHARS else max_prompt_chars) payload s of
       (answer, s1) \<Rightarrow> (Inr answer, s1))"

section \<open>The HTTP session of the inference client\<close>

text \<open>The sessions that were ever built, each with its flag \<^verbatim>\<open>closed\<close>, and the one that is kept.  The lock
  makes a look-up and a close atomic; the library may close a session by itself at any time.\<close>

record http_sessions =
  hs_closed :: "bool list"
  hs_current :: "nat option"

definition no_sessions :: http_sessions where "no_sessions = \<lparr>hs_closed = [], hs_current = None\<rparr>"

definition new_session :: "http_sessions \<Rightarrow> nat \<times> http_sessions" where
  "new_session H =
     (length (hs_closed H), H\<lparr>hs_closed := hs_closed H @ [False], hs_current := Some (length (hs_closed H))\<rparr>)"

definition session_for_request :: "http_sessions \<Rightarrow> nat \<times> http_sessions" where
  "session_for_request H =
     (case hs_current H of
        None \<Rightarrow> new_session H
      | Some i \<Rightarrow> if hs_closed H ! i then new_session H else (i, H))"

definition transport_aclose :: "http_sessions \<Rightarrow> http_sessions" where
  "transport_aclose H =
     (case hs_current H of
        None \<Rightarrow> H
      | Some i \<Rightarrow> if hs_closed H ! i then H else H\<lparr>hs_closed := (hs_closed H)[i := True], hs_current := None\<rparr>)"

text \<open>What the session answers to a request; the body of a response is \<open>None\<close> when it is not JSON.\<close>

datatype http_answer = Http_Timed_Out | Http_Client_Error | Http_Raised py_exn | Http_Answered int "json option"

definition read_answer :: "http_answer \<Rightarrow> infer_exn + int \<times> (string \<times> json) list" where
  "read_answer a =
     (case a of
        Http_Timed_Out \<Rightarrow> Inl InferTransport
      | Http_Client_Error \<Rightarrow> Inl InferTransport
      | Http_Raised e \<Rightarrow> Inl (InferRaised e)
      | Http_Answered status body \<Rightarrow> Inr (status, case body of Some (JObj kvs) \<Rightarrow> kvs | _ \<Rightarrow> []))"

definition post_json ::
  "bool \<Rightarrow> (nat \<Rightarrow> http_answer) \<Rightarrow> http_sessions \<Rightarrow> (infer_exn + int \<times> (string \<times> json) list) \<times> http_sessions" where
  "post_json has_aiohttp answer H =
     (if \<not> has_aiohttp then (Inl (InferRaised RuntimeError), H)
      else case session_for_request H of (i, H1) \<Rightarrow> (read_answer (answer i), H1))"

datatype http_event = Http_Post bool "nat \<Rightarrow> http_answer" | Http_Dropped nat | Http_Close

definition http_step :: "http_sessions \<Rightarrow> http_event \<Rightarrow> http_sessions" where
  "http_step H ev =
     (case ev of
        Http_Post has_aiohttp answer \<Rightarrow> snd (post_json has_aiohttp answer H)
      | Http_Dropped i \<Rightarrow> H\<lparr>hs_closed := (hs_closed H)[i := True]\<rparr>
      | Http_Close \<Rightarrow> transport_aclose H)"

definition open_sessions :: "http_sessions \<Rightarrow> nat set" where
  "open_sessions H = {i. i < length (hs_closed H) \<and> \<not> hs_closed H ! i}"

definition http_ok :: "http_sessions \<Rightarrow> bool" where
  "http_ok H \<longleftrightarrow>
     open_sessions H \<subseteq> set_option (hs_current H) \<and> (\<forall>i \<in> set_option (hs_current H). i < length (hs_closed H))"

lemma http_ok_post:
  assumes "http_ok H" "session_for_request H = (i, H')"
  shows "http_ok H' \<and> hs_current H' = Some i \<and> open_sessions H' = {i} \<and> (open_sessions H \<noteq> {} \<longrightarrow> H' = H)"
  using assms
  by (fastforce simp: http_ok_def session_for_request_def new_session_def open_sessions_def nth_append
      split: option.splits if_splits)

lemma http_ok_close: "http_ok H \<Longrightarrow> http_ok (transport_aclose H) \<and> open_sessions (transport_aclose H) = {}"
  by (auto simp: http_ok_def transport_aclose_def open_sessions_def nth_list_update split: option.splits if_splits)

interpretation http_machine: invariant_machine http_step http_ok
proof
  fix H ev assume ok: "http_ok H"
  show "http_ok (http_step H ev)"
  proof (cases ev)
    case (Http_Post has_aiohttp answer)
    then show ?thesis using ok http_ok_post [OF ok]
      by (cases "session_for_request H") (simp add: http_step_def post_json_def)
  next
    case (Http_Dropped i)
    have "open_sessions (http_step H ev) \<subseteq> open_sessions H"
      by (auto simp: Http_Dropped http_step_def open_sessions_def) (metis nth_list_update_neq nth_list_update_eq)
    then show ?thesis using ok by (auto simp: Http_Dropped http_ok_def http_step_def)
  next
    case Http_Close
    then show ?thesis using http_ok_close [OF ok] by (simp add: http_step_def)
  qed
qed

lemma no_sessions_ok: "http_ok no_sessions"
  by (simp add: http_ok_def no_sessions_def open_sessions_def)

section \<open>Properties\<close>

text \<open>Whatever the requests, the closes and the drops were: at most one session is open, it is the one that is
  kept, and a close leaves none.  A request is sent over an open session, and over the same one as before
  while that is still open.\<close>

theorem one_session_open:
  "let H = foldl http_step no_sessions evs; H' = snd (post_json True answer H) in
     open_sessions H \<subseteq> set_option (hs_current H) \<and> open_sessions (http_step H Http_Close) = {} \<and>
     open_sessions H' = set_option (hs_current H') \<and> hs_current H' \<noteq> None \<and> (open_sessions H \<noteq> {} \<longrightarrow> H' = H)"
proof -
  let ?H = "foldl http_step no_sessions evs"
  have ok: "http_ok ?H" by (rule http_machine.inv_run [OF no_sessions_ok])
  obtain i H' where s: "session_for_request ?H = (i, H')" by fastforce
  have "http_step ?H Http_Close = transport_aclose ?H" by (simp add: http_step_def)
  then show ?thesis using ok http_ok_post [OF ok s] http_ok_close [OF ok] by (simp add: Let_def post_json_def s http_ok_def)
qed

theorem one_session_open_witness:
  "open_sessions (foldl http_step no_sessions [Http_Post True (\<lambda>_. Http_Timed_Out), Http_Dropped 0, Http_Post True (\<lambda>_. Http_Timed_Out), Http_Close]) = {}"
  using one_session_open [of "[Http_Post True (\<lambda>_. Http_Timed_Out), Http_Dropped 0, Http_Post True (\<lambda>_. Http_Timed_Out)]"]
  by (simp add: Let_def)

text \<open>The console's log tail is the last entries of the events at or above the level, in their order, and no more
  than the size that was asked for; nothing in an entry is beyond JSON but the time that the event itself
  brings.\<close>

theorem log_ring_is_tail:
  assumes "new_log_ring ring_size level = Inr R"
  shows "lr_entries (foldl ring_process R evs) = last_ones (nat ring_size) (captured (lr_floor R) evs) \<and>
    length (lr_entries (foldl ring_process R evs)) \<le> nat ring_size \<and>
    map_of log_levels (py_lower (py_strip level)) = Some (lr_floor R) \<and>
    (\<forall>entry \<in> set (lr_entries (foldl ring_process R evs)). json_safe entry)"
proof -
  have R: "lr_entries R = []" "lr_size R = nat ring_size" "map_of log_levels (py_lower (py_strip level)) = Some (lr_floor R)"
    using assms by (auto simp: new_log_ring_def split: if_splits option.splits)
  have e: "lr_entries (foldl ring_process R evs) = last_ones (nat ring_size) (captured (lr_floor R) evs)"
    using ring_run [of R "[]" evs] by (simp add: R last_ones_def)
  have "json_safe entry" if "entry \<in> set (last_ones (nat ring_size) (captured (lr_floor R) evs))" for entry
    using set_drop_subset [of _ "captured (lr_floor R) evs"] that ring_entry_safe
    by (fastforce simp: captured_def last_ones_def)
  then show ?thesis by (simp add: e R(3)) (simp add: last_ones_def)
qed

definition sample_events :: "(string \<times> (string \<times> log_value) list \<times> json) list" where
  "sample_events =
     [(''debug'', [(''event'', Json_Value (JStr ''poll''))], JInt 1),
      (''error'', [(''event'', Json_Value (JStr ''lost'')), (''n'', Json_Value (JInt 3)), (''exc'', Some_Object)], JInt 2),
      (''info'', [(''event'', Json_Value (JStr ''up'')), (''x'', Json_Value (JFloat NaN))], JInt 3)]"

theorem log_ring_is_tail_witness:
  "\<exists>R. new_log_ring 1 '' Info '' = Inr R \<and> length (lr_entries (foldl ring_process R sample_events)) = 1 \<and>
     (\<forall>entry \<in> set (lr_entries (foldl ring_process R sample_events)). json_safe entry)"
proof -
  define R where "R = \<lparr>lr_floor = 20, lr_size = 1, lr_entries = []\<rparr>"
  have "new_log_ring 1 '' Info '' = Inr R" unfolding R_def by code_simp
  note facts = this log_ring_is_tail [OF this, of sample_events]
  have "length (captured (lr_floor R) sample_events) = 2"
    unfolding R_def by (simp add: captured_def sample_events_def severity_of_def log_levels_def UNKNOWN_LEVEL_def)
  with facts show ?thesis by (auto simp: last_ones_def)
qed

text \<open>The two exceptions are real: a time that is not a number is kept as it is, and a bound value named \<open>ts\<close>
  takes the place of the time.\<close>

lemma ring_time_unchecked:
  "ring_entry ''info'' [(''timestamp'', Json_Value (JFloat NaN))] (JInt 1) =
     [(''ts'', JFloat NaN), (''level'', JStr ''info''), (''logger'', JNull), (''event'', JNull)]"
  "ring_entry ''info'' [(''ts'', Json_Value (JStr ''x''))] (JInt 1) =
     [(''ts'', JStr ''x''), (''level'', JStr ''info''), (''logger'', JNull), (''event'', JNull)]"
  by code_simp+

end
