(* ===== verification/Process_Shell.thy ===== *)
theory Process_Shell
  imports Console_Sources Vision_Shell Scout_Replay Scout_Export
begin

text \<open>
  The wiring at the edge of the processes: the sources of the console and its watchdog
  (\<^verbatim>\<open>meshsa/ui/cli.py\<close>, \<^verbatim>\<open>deliverables/meshsa-ui-validation\<close>), the commands of the scout (\<^verbatim>\<open>meshsa/scout/cli.py\<close>),
  and the devices, the registry and the report of the perception pipeline (\<^verbatim>\<open>jetson_yolo_gcs\<close>).  The argument
  parser, the servers and the video library are parameters or left out.
\<close>

section \<open>The console\<close>

text \<open>What the node's store reads: tracks, detections and counters.\<close>

record 's snapshot_source =
  sn_tracks :: "('s, json) reading"
  sn_detections :: "('s, json) reading"
  sn_counters :: "('s, (string \<times> json) list) reading"

record console_flags =
  cf_metrics_format :: metrics_format
  cf_chat_enabled :: bool
  cf_log_ring_enabled :: bool

definition build_sources ::
  "('s \<Rightarrow> node_view) \<Rightarrow> 's snapshot_source \<Rightarrow> console_flags \<Rightarrow> ('s \<Rightarrow> health_report \<times> 's) option \<Rightarrow>
     (string \<Rightarrow> ('s, agent_reply) reading) option \<Rightarrow> ('s, json list) reading option \<Rightarrow> 's ui_sources" where
  "build_sources node snapshot C fpv_monitor chat_agent log_ring =
     \<lparr>us_tracks = sn_tracks snapshot, us_detections = sn_detections snapshot, us_counters = sn_counters snapshot,
      us_health = Some (node_health_source node (cf_metrics_format C)),
      us_fpv = map_option fpv_link_source fpv_monitor,
      us_chat = (if cf_chat_enabled C then map_option (\<lambda>ask. agent_chat_backend ask 0) chat_agent else None),
      us_logs = (if cf_log_ring_enabled C then log_ring else None)\<rparr>"

text \<open>The agent of the chat panel is absent whatever goes wrong while it is built.\<close>

definition build_chat_agent :: "py_exn + 'a \<Rightarrow> 'a option" where
  "build_chat_agent built = (case built of Inl _ \<Rightarrow> None | Inr agent \<Rightarrow> Some agent)"

text \<open>A panel appears exactly when it is enabled and what it shows is there.\<close>

lemma panels_follow_flags:
  "panel_manifest (build_sources node snapshot C fpv_monitor chat_agent log_ring) =
     [''tracks'', ''detections'', ''health''] @ (if fpv_monitor = None then [] else [''fpv'']) @
     (if cf_chat_enabled C \<and> chat_agent \<noteq> None then [''chat''] else []) @
     (if cf_log_ring_enabled C \<and> log_ring \<noteq> None then [''logs''] else [])"
  by (simp add: panel_manifest_def build_sources_def)

section \<open>The watchdog\<close>

text \<open>A notification arrives, or nothing happens: without the package, or when the call fails.\<close>

datatype notifier = Notifier_Works | No_Package | Notifier_Fails

definition send_notify :: "notifier \<Rightarrow> string \<Rightarrow> string list \<Rightarrow> string list" where
  "send_notify n message sent =
     (case n of Notifier_Works \<Rightarrow> sent @ [message] | No_Package \<Rightarrow> sent | Notifier_Fails \<Rightarrow> sent)"

text \<open>Each round: the notifier for the heartbeat, and whether its sleep is cancelled, with the notifier for the end.\<close>

fun watchdog_loop :: "(notifier \<times> notifier option) list \<Rightarrow> string list \<Rightarrow> string list \<times> bool" where
  "watchdog_loop [] sent = (sent, False)"
| "watchdog_loop ((n, cancelled) # rounds) sent =
     (case cancelled of
        None \<Rightarrow> watchdog_loop rounds (send_notify n ''WATCHDOG=1'' sent)
      | Some n' \<Rightarrow> (send_notify n' ''STOPPING=1'' (send_notify n ''WATCHDOG=1'' sent), True))"

lemma watchdog_beats:
  "watchdog_loop (replicate k (Notifier_Works, None) @ (Notifier_Works, Some Notifier_Works) # rounds) sent =
     (sent @ replicate (Suc k) ''WATCHDOG=1'' @ [''STOPPING=1''], True)"
proof (induction k arbitrary: sent)
  case (Suc k)
  then show ?case by (simp add: send_notify_def)
qed (simp add: send_notify_def)

section \<open>The scout\<close>

text \<open>The fields of the configuration that the commands read; a block with its name and its mean elevation.\<close>

record scout_config =
  sc_camera :: camera
  sc_params :: scout_params
  sc_alt_agl_m :: real
  sc_forward_overlap :: real
  sc_side_overlap :: real
  sc_cruise_speed_ms :: real
  sc_hover_speed_ms :: real
  sc_dem_path :: "string option"
  sc_store_path :: string

record survey_block = block +
  sb_block_id :: string
  sb_mean_elev_m :: real

definition sample_block :: survey_block where
  "sample_block =
     \<lparr>bl_polygon = [(38.5, - 122.5), (38.5, - 122.498), (38.5015, - 122.498), (38.5015, - 122.5)], bl_row_azimuth_deg = 0,
      sb_block_id = ''sample'', sb_mean_elev_m = 60\<rparr>"

text \<open>A raster is used when a path is set and the raster package is there; without the package the plane is, and any
  other failure of the loader is raised.\<close>

datatype dem_load = Dem_Loaded terrain | No_Raster_Package | Dem_Failed py_exn

definition build_terrain :: "(string \<Rightarrow> dem_load) \<Rightarrow> string option \<Rightarrow> real \<Rightarrow> py_exn + terrain" where
  "build_terrain load_dem dem_path mean_elev_m =
     (case dem_path of
        None \<Rightarrow> Inr (\<lambda>_ _. mean_elev_m)
      | Some path \<Rightarrow>
          if path = [] then Inr (\<lambda>_ _. mean_elev_m)
          else (case load_dem path of
                  Dem_Loaded t \<Rightarrow> Inr t
                | No_Raster_Package \<Rightarrow> Inr (\<lambda>_ _. mean_elev_m)
                | Dem_Failed e \<Rightarrow> Inl e))"

text \<open>The plane is the fallback: only a path with a raster package behind it can fail.\<close>

lemma terrain_fails_only_in_loader:
  assumes "build_terrain load_dem dem_path h = Inl e"
  shows "\<exists>path. dem_path = Some path \<and> path \<noteq> [] \<and> load_dem path = Dem_Failed e"
  using assms by (auto simp: build_terrain_def split: option.splits dem_load.splits if_splits)

datatype store_kind = In_Memory_Store | Sqlite_Store string

definition build_store :: "string \<Rightarrow> store_kind" where
  "build_store path = (if path \<noteq> [] \<and> path \<noteq> '':memory:'' then Sqlite_Store path else In_Memory_Store)"

definition replay_plan :: "survey_block \<Rightarrow> scout_config \<Rightarrow> bool \<Rightarrow> flight_plan" where
  "replay_plan b C rtk =
     \<lparr>rf_polygon = bl_polygon b, rf_camera = sc_camera C, rf_alt_agl_m = sc_alt_agl_m C,
      rf_forward_overlap = sc_forward_overlap C, rf_side_overlap = sc_side_overlap C, rf_rtk_enabled = rtk,
      rf_dt_s = 1 / 10, rf_conf = 9 / 10, rf_truths = None, rf_pos_noise_m = None, rf_att_noise_deg = None\<rparr>"

definition replay_env :: "terrain \<Rightarrow> (nat \<Rightarrow> string) \<Rightarrow> survey_block \<Rightarrow> scout_config \<Rightarrow> scout_env" where
  "replay_env terrain ids b C =
     \<lparr>se_camera = sc_camera C, se_terrain = terrain,
      se_params = sc_params C, se_block_id = Some (sb_block_id b), se_emit = False, se_ids = ids\<rparr>"

text \<open>A flight is simulated and its poses and detections are ingested into the store that the configuration names,
  with what that store already holds.\<close>

definition run_replay ::
  "coercions \<Rightarrow> (json \<Rightarrow> string) \<Rightarrow> ('st \<Rightarrow> geo_detection \<Rightarrow> 'st) \<Rightarrow> ('st \<Rightarrow> string \<Rightarrow> geo_detection option) \<Rightarrow>
     random_draws \<Rightarrow> (string \<Rightarrow> dem_load) \<Rightarrow> (nat \<Rightarrow> string) \<Rightarrow> 'st \<Rightarrow> survey_block \<Rightarrow> scout_config \<Rightarrow> bool \<Rightarrow>
     codec_exn + 'st pipeline \<times> flight" where
  "run_replay P repr add get R load_dem ids st b C rtk =
     (case replay_flight R (replay_plan b C rtk) of
        Inl e \<Rightarrow> Inl (CodecRaised e)
      | Inr F \<Rightarrow>
          (case build_terrain load_dem (sc_dem_path C) (sb_mean_elev_m b) of
             Inl e \<Rightarrow> Inl (CodecRaised e)
           | Inr terrain \<Rightarrow>
               (let E = replay_env terrain ids b C
                in case ingest P repr add get E (new_pipeline E st) (fl_poses F) (fl_detections F) of
                     (Inl e, _) \<Rightarrow> Inl e
                   | (Inr _, L) \<Rightarrow> Inr (L, F))))"

definition cmd_replay :: "('st \<Rightarrow> geo_detection list) \<Rightarrow> codec_exn + 'st pipeline \<times> flight \<Rightarrow> codec_exn + json" where
  "cmd_replay rows run = (case run of Inl e \<Rightarrow> Inl e | Inr (L, _) \<Rightarrow> Inr (to_geojson (rows (pl_store L))))"

definition cmd_health_check :: "('st \<Rightarrow> geo_detection list) \<Rightarrow> scout_config \<Rightarrow> codec_exn + 'st pipeline \<times> flight \<Rightarrow> codec_exn + nat" where
  "cmd_health_check rows C run =
     (case run of
        Inl e \<Rightarrow> Inl e
      | Inr (L, _) \<Rightarrow> Inr (health_check (rows (pl_store L)) (flight_truths (replay_plan sample_block C True))))"

text \<open>The files a mission command writes, if it is asked to, and the number of waypoints.\<close>

definition cmd_gen_mission :: "survey_block \<Rightarrow> scout_config \<Rightarrow> bool \<Rightarrow> bool \<Rightarrow> py_exn + json option \<times> string option \<times> nat" where
  "cmd_gen_mission b C out_plan out_waypoints =
     (case plan_boustrophedon (block.truncate b) (h_fov_deg (sc_camera C)) (v_fov_deg (sc_camera C)) (sc_alt_agl_m C)
             (sc_side_overlap C) of
        Inl e \<Rightarrow> Inl e
      | Inr ws \<Rightarrow>
          Inr (if out_plan then Some (to_qgc_plan ws None (sc_cruise_speed_ms C) (sc_hover_speed_ms C)) else None,
               if out_waypoints then Some (to_ardupilot_waypoints ws None) else None, length ws))"

text \<open>Which of them an invocation runs: the flag wins over the subcommand, and neither prints the help and fails.\<close>

datatype scout_command = Cmd_Replay | Cmd_Gen_Mission | Cmd_Run_Station
datatype scout_action = Run_Health_Check | Run_Command scout_command | Print_Help

definition scout_run :: "bool \<Rightarrow> scout_command option \<Rightarrow> (scout_action \<Rightarrow> 'e + nat) \<Rightarrow> 'e + nat" where
  "scout_run health_flag command perform =
     (if health_flag then perform Run_Health_Check
      else case command of
             Some c \<Rightarrow> perform (Run_Command c)
           | None \<Rightarrow> (case perform Print_Help of Inl e \<Rightarrow> Inl e | Inr _ \<Rightarrow> Inr 1))"

text \<open>A check that passes has a pin within the budget of every truth, and no other pins than truths.\<close>

lemma truths_found_near:
  assumes "truths_found pins gts" "gt \<in> set gts" "pins \<noteq> []"
  shows "\<exists>p\<in>set pins. ground_distance_m (gt_lat gt) (gt_lon gt) (gd_lat p) (gd_lon p) \<le> HEALTH_BUDGET_M"
  using assms
proof (induction gts)
  case (Cons g gts)
  let ?d = "\<lambda>p. ground_distance_m (gt_lat gt) (gt_lon gt) (gd_lat p) (gd_lon p)"
  show ?case
  proof (cases "gt = g")
    case True
    have "\<not> HEALTH_BUDGET_M < Min (set (map ?d pins))"
      using Cons.prems(1) by (simp only: truths_found.simps True split: if_splits) simp
    then have near: "Min (set (map ?d pins)) \<le> HEALTH_BUDGET_M" by (rule leI)
    have "Min (set (map ?d pins)) \<in> set (map ?d pins)" using Cons.prems(3) by (intro Min_in) auto
    then obtain p where "p \<in> set pins" "?d p = Min (set (map ?d pins))" by (auto simp only: set_map)
    then show ?thesis using near by (intro bexI [of _ p]) simp_all
  next
    case False
    then show ?thesis using Cons by (auto split: if_splits)
  qed
qed simp

lemma healthy_check_means:
  assumes "cmd_health_check rows C (Inr (L, F)) = Inr 0"
    and "gt \<in> set (flight_truths (replay_plan sample_block C True))"
  shows "\<exists>p\<in>set (rows (pl_store L)).
    ground_distance_m (gt_lat gt) (gt_lon gt) (gd_lat p) (gd_lon p) \<le> HEALTH_BUDGET_M"
proof (rule truths_found_near)
  show "truths_found (rows (pl_store L)) (flight_truths (replay_plan sample_block C True))"
    using assms(1) by (simp add: cmd_health_check_def health_check_def split: if_splits)
  have "length (rows (pl_store L)) = length (flight_truths (replay_plan sample_block C True))"
    using assms(1) by (simp add: cmd_health_check_def health_check_def split: if_splits)
  then show "rows (pl_store L) \<noteq> []" using assms(2) by auto
qed (rule assms(2))

text \<open>The health check fails on a store that holds pins of other flights, however exact this one was.\<close>

lemma health_check_counts_all:
  "length (rows (pl_store L)) \<noteq> length (flight_truths (replay_plan sample_block C True)) \<Longrightarrow>
     cmd_health_check rows C (Inr (L, F)) = Inr 1"
  by (simp add: cmd_health_check_def health_check_def)

section \<open>The perception process\<close>

text \<open>Cameras and writers of the video library fail at once when their pipeline does not open.\<close>

datatype device_exn = CameraError | StreamError

definition open_camera :: "(string \<Rightarrow> bool) \<Rightarrow> camera_settings \<Rightarrow> device_exn + nat" where
  "open_camera opens S = (if opens (build_capture_pipeline S) then Inr 0 else Inl CameraError)"

text \<open>A read of the capture: nothing, or a frame at a time; the frames are numbered.\<close>

definition read_frame :: "real option \<Rightarrow> nat \<Rightarrow> camera_frame option \<times> nat" where
  "read_frame answer idx =
     (case answer of None \<Rightarrow> (None, idx) | Some t \<Rightarrow> (Some \<lparr>cf_idx = int idx, cf_t = t\<rparr>, Suc idx))"

fun read_frames :: "real option list \<Rightarrow> nat \<Rightarrow> camera_frame list" where
  "read_frames [] idx = []"
| "read_frames (a # as) idx =
     (case read_frame a idx of
        (None, idx') \<Rightarrow> read_frames as idx'
      | (Some f, idx') \<Rightarrow> f # read_frames as idx')"

lemma frames_numbered: "map cf_idx (read_frames as idx) = map int [idx..<idx + length (read_frames as idx)]"
proof (induction as arbitrary: idx)
  case (Cons a as)
  then show ?case
    by (cases a) (simp_all add: read_frame_def upt_conv_Cons del: upt_Suc)
qed simp

definition open_writer :: "(string \<Rightarrow> bool) \<Rightarrow> stream_settings \<Rightarrow> device_exn + string" where
  "open_writer opens S =
     (let p = build_stream_pipeline S in if opens p then Inr p else Inl StreamError)"

text \<open>The registry of this package.\<close>

datatype 'e registry_exn = Already_Registered | Unknown_Component | Factory_Failed 'e

definition vision_register :: "string \<Rightarrow> 'f \<Rightarrow> (string \<times> 'f) list \<Rightarrow> 'e registry_exn + (string \<times> 'f) list" where
  "vision_register name factory reg =
     (if name \<in> fst ` set reg then Inl Already_Registered else Inr (reg @ [(name, factory)]))"

definition vision_create :: "string \<Rightarrow> 'k \<Rightarrow> (string \<times> ('k \<Rightarrow> 'e + 'a)) list \<Rightarrow> 'e registry_exn + 'a" where
  "vision_create key kwargs reg =
     (case map_of reg key of
        None \<Rightarrow> Inl Unknown_Component
      | Some factory \<Rightarrow> (case factory kwargs of Inl e \<Rightarrow> Inl (Factory_Failed e) | Inr x \<Rightarrow> Inr x))"

lemma registered_is_created:
  assumes "vision_register name factory reg = Inr reg'"
  shows "vision_create name kwargs reg' = (case factory kwargs of Inl e \<Rightarrow> Inl (Factory_Failed e) | Inr x \<Rightarrow> Inr x) \<and>
    (\<forall>other. other \<noteq> name \<longrightarrow> vision_create other kwargs reg' = vision_create other kwargs reg)"
proof -
  have "map_of reg name = None" "reg' = reg @ [(name, factory)]"
    using assms by (auto simp: vision_register_def map_of_eq_None_iff split: if_splits)
  then show ?thesis by (auto simp: vision_create_def map_add_def split: option.split)
qed

text \<open>The hardware-free report of the health check.\<close>

record loop_settings =
  ls_idle_poll_s :: real
  ls_max_consecutive_empty :: "int option"
  ls_liveness_timeout_s :: real
  ls_drop_log_every :: int
  ls_publish_failure_tolerance :: int

fun camera_type_value :: "camera_type \<Rightarrow> string" where
  "camera_type_value USB = ''usb''"
| "camera_type_value CSI = ''csi''"
| "camera_type_value RTSP = ''rtsp''"

fun encoder_value :: "stream_encoder \<Rightarrow> string" where
  "encoder_value X264 = ''x264''"
| "encoder_value NVV4L2 = ''nvv4l2''"

definition vision_health_report ::
  "yolo_settings \<Rightarrow> camera_settings \<Rightarrow> stream_settings \<Rightarrow> string \<Rightarrow> mavlink_settings \<Rightarrow> loop_settings \<Rightarrow> vision_exn + json" where
  "vision_health_report Y K S endpoint V L =
     (case backend_for_path (ys_model_path Y) of
        Inl e \<Rightarrow> Inl e
      | Inr backend \<Rightarrow>
          Inr (JObj
            [(''detection'', JObj [(''model_path'', JStr (ys_model_path Y)), (''backend'', JStr backend),
                (''device'', JStr (ys_device Y))]),
             (''camera'', JObj [(''type'', JStr (camera_type_value (cs_type K))), (''pipeline'', JStr (build_capture_pipeline K))]),
             (''stream'', JObj [(''enabled'', JBool (ss_enabled S)), (''encoder'', JStr (encoder_value (ss_encoder S))),
                (''pipeline'', JStr (build_stream_pipeline S))]),
             (''mavlink'', JObj [(''endpoint'', JStr endpoint), (''landing_target_enabled'', JBool (ms_enable_landing_target V)),
                (''require_heartbeat'', JBool (ms_require_heartbeat V)),
                (''heartbeat_timeout_s'', JFloat (Fin (ms_heartbeat_timeout_s V))),
                (''min_publish_rate_hz'', JFloat (Fin (ms_min_publish_rate_hz V))),
                (''target_system'', JInt (ms_target_system V)), (''target_component'', JInt (ms_target_component V))]),
             (''pipeline'', JObj [(''idle_poll_s'', JFloat (Fin (ls_idle_poll_s L))),
                (''max_consecutive_empty'', case ls_max_consecutive_empty L of None \<Rightarrow> JNull | Some n \<Rightarrow> JInt n),
                (''liveness_timeout_s'', JFloat (Fin (ls_liveness_timeout_s L))),
                (''drop_log_every'', JInt (ls_drop_log_every L)),
                (''publish_failure_tolerance'', JInt (ls_publish_failure_tolerance L))])]))"

end
