(* ===== verification/Spec2Isabelle.thy ===== *)
theory Spec2Isabelle
  imports Commander_Facts Link_Facts Mesh_Facts Scout_Facts Vision_Facts Tak_Facts Cot_Facts
    Inference_Facts Flight_Facts Source_Facts Web_Facts Monitor_Facts Survey_Facts Config_Facts Node_Facts
    Guard_Facts Vision_Shell Docs_Facts Sync_Facts Console_Sources Process_Shell
begin

text \<open>
  A verification development for the GCP drone communications unit: the mesh gateway, the flight
  commander, the radio-control link and the scouting pipeline of the Python package meshsa, under
  src/packages/meshsa/src/meshsa/ (paths below are relative to it), the commander service
  src/flightctl/run_commander.py, and the perception pipeline of the package jetson_yolo_gcs, under
  src/packages/jetson_yolo_gcs/src/jetson_yolo_gcs/ (JG below).

  THE PROGRAM.  A commander service accepts HTTP requests that stage a flight command, and confirm
  or cancel it.  A confirmed command passes an interlock and is transmitted over a signed MAVLink
  link until an acknowledgement arrives or the attempts are used up; every step goes to an audit
  file.  A radio-control link packs stick positions into CRSF frames, parses the telemetry that
  comes back, grades the link's health, and guards the arm channel by it.  A mesh node routes
  envelopes between transports, each with its own wire codec.  A scouting pipeline projects camera
  detections to the ground, merges them into pins and plans surveys.  An on-board perception pipeline
  turns detections into landing-target messages for the autopilot.  Cursor-on-Target events travel
  over TAK connections that are supervised and rebuilt.  An inference service sends what the mesh
  reports to a language model and publishes its insights.  A flight logger writes sessions that are
  read back after a crash.

  Pollers read positions from the aircraft and hand them to the node, a Meshtastic radio is kept
  connected, and web services show the picture, serve metrics and answer questions with a read-only
  assistant.

  THE THEORIES, in the order they build on each other.

  Prelude, Py_Strings, Struct_Codec: what the source uses of Python and its standard library: floats
  with NaN and infinities (pyfloat), JSON values, exceptions as values, list indexing with negative
  indices, round half to even, strings with their parsers, UTF-8, and the struct module's integers.

  Command_Spec (command/commands.py, command/errors.py): the table of builders, the allow-list and
  the arguments' binding.  Command_Safety (command/safety.py): the gate of staged commands and the
  arm interlock.  Command_Lifecycle (command/lifecycle.py): the attempts and the wait for an
  acknowledgement; the world is a type variable and its effects the fields of command_env.
  Command_Protocol: the acknowledgement protocol as a relation on event lists and the lemma that an
  execution refines it, in the locales observed_env, timed_env and kept_env, which state what an environment must promise.
  Command_Pump (command/mavlink_link.py, command/mavlink_pump.py, command/health.py,
  command/audit.py): the concrete world (clock, radio, reader queue, a vehicle that may talk for ever,
  audit file with failing disks) and the interpretations of these locales on it.  Command_Service (command/service.py) and
  Commander_App (src/flightctl/run_commander.py, command/config.py): the requests, the start, and
  the reachable states app_reach, where requests and arriving messages interleave.  Net_Auth
  (netauth.py, _parsing.py): bearer tokens and the bind check.

  Crsf_Frame, Crsf_RC, Crsf_Telemetry, Crsf_Link (fpv/crsf/): frames on 8-bit words with their
  checksum, the extraction of frames from a byte stream, the packing of channels, the telemetry
  parsers and the link state.  Link_Health (fpv/link_health.py, fpv/telemetry_store.py): the latest
  frame of each type, the grading and its hysteresis.  Arm_Guard (fpv/arm_guard.py): the latch over
  any inner link (locale rc_link, interpreted on the CRSF link).

  Mesh_Models (models.py, version.py), Mesh_Router (router.py, metrics.py), Compact_Codec
  (compact.py), Frame_Codecs (telemetry.py, detection_codec.py), Transport_Core (transports/base,
  loopback, backoff, pacing), Ui_Snapshot (ui/snapshot.py): the mesh node; wire codecs are records
  of functions and the locale wire_codec states their round trip.

  Scout_Geo (cv/geo.py, scout/terrain.py, scout/pose.py, scout/survey.py), Scout_Core (scout/schemas,
  sync, dedup, store, pipeline): the scouting pipeline; the locale detection_store states what the
  pipeline needs of a store and is interpreted on the in-memory and the SQLite one.

  Landing_Target (JG/mavlink/bridge.py, heartbeat.py, pose.py, timesync.py, JG/geometry/ned.py): the
  gates a target passes before it is sent.  A device record holds what the outside will answer (the
  autopilot's messages, the clocks, the connection) and the trace of what was heard and called.
  Vision_Pipeline (JG/pipeline.py, JG/core/config.py, JG/utils/fps.py, JG/streaming/camera.py): the
  frame loop as a partial function over those devices, with the counters of publications and tracks.

  Tak_Transport (transports/tak.py, transports/tak_multicast.py): the framer of events, the choice of
  endpoint and TLS, and the supervisor over the answers of a list of dials.  Py_Time: the datetime
  functions the codecs use, on microseconds.  Cot_Codec (cot.py): the codec on XML trees; the naming
  of the deployment is a record, and the float printer and the zone of naive times are parameters.

  Inference_Client, Inference_Service (inference/): the requests with their retries, and the service
  as steps of interleaved tasks over its offline queue, rate gate and replay lock.

  Flight_Log (fpv/flight_logger.py, fpv/dataset.py, fpv/version.py): the logger as interleaved steps of
  its callers, its writer with its flushes and its closer, and the reader of session files; json.loads and json.dumps
  are parameters with the hypothesis json_line.

  Flight_Sources (transports/polling_source.py, mavlink_source.py, msp_source.py, crsf_source.py): the
  reader threads of a source, of which a start after a stop that timed out makes a second one, their
  hand-over to the event loop, start and stop as interleaved steps over one state, and the polls; a run is
  joined when every reader ended before the next start.  Radio_Transport
  (transports/meshtastic_radio.py, detection_ingest.py): the supervisor of the radio as steps of the
  radio's signals, the supervisor task and the callers.  Metrics_Text (metrics.py, health.py): the
  text of the metrics with its labels.  Web_Kit (_web.py, _webpage.py, ui/app.py, ui/sources.py,
  scout/station/app.py, llm/server.py): a service is a table of routes to handlers, a handler a
  function of the request.  Assistant (llm/agent.py, llm/tools.py, llm/sources.py): the tool loop with
  its bound, over a model that is a function of the conversation.

  Flight_Monitor (fpv/tools/monitor.py, replay.py, convert.py): the health monitor over the modelled
  link, whose properties speak of heard, the messages of the whole valid frames of the bytes received,
  each with the clock reading at which it was stored, the replay of a logged session through the same monitor, and the conversion to tables.
  Py_Format: fixed-point text.  Scout_Export (scout/export_mission.py, the exports of scout/store.py):
  QGroundControl plans, waypoint files, GeoJSON and CSV.  Scout_Replay (scout/replay.py, the health check
  of scout/cli.py): the simulated flight, its noise a parameter (random_draws).  Env_Config
  (_envconfig.py, config.py, llm/server.py, command/config.py): the environment loader and the loaders
  built from it, over configuration models that are lists of annotated fields.

  Node_Assembly (node.py, registry.py, plugins.py, codec.py, cli.py, and start and stop of router.py):
  registries of factories, the wiring of a node, its pumps as tasks that may die, and the bridge.

  Vision_Shell (JG/core/config.py, JG/streaming/, JG/detection/, JG/tracking/, JG/utils/jetson.py): what
  surrounds the frame loop: settings, pipeline texts, the reading of what models and the tracking
  library return, and the telemetry line of the device.

  Repo_Guards (src/tools/claude_hooks/): the gates of the repository itself.  Syntax trees are a datatype
  with the nodes the linters look at, and the walk visits them in the order of ast.walk; the parser and
  the file system are parameters.  Guard_Facts shows that the walk misses no node and what a file that
  passes guarantees.  Py_Paths: pure POSIX paths.

  Doc_Text, Skill_Docs, Agents_Docs (src/tools/validate_skills.py, validate_workforce.py,
  validate_agents_docs.py): the linters of documents, from the expressions that find a citation to the
  checks of a run.  Sync_Tools (check_task_sync.py, check_tool_pins.py): task boxes against commits, and
  pins against each other.  Docs_Facts and Sync_Facts show what a clean run guarantees.
  Console_Sources (ui/logring.py, ui/sources.py, inference/transport.py): the tail of the log, the
  adapters of the console, and the one HTTP session of the inference client.
  Process_Shell (ui/cli.py, scout/cli.py, JG/cli.py, the devices and the registry of JG): how the
  processes are wired, from the panels of the console and its watchdog to the commands of the scout.

  The theories with names that end in _Facts and this theory hold the properties, each
  after a text block with its number, and their witnesses.  This theory joins the telemetry, the health
  monitor and the arm guard: link_ops_run is any sequence of heard messages, reports and frames.

  CONVENTIONS.  A class is a record and its methods take and return it.  An exception is an Inl
  value; py_exn are the exceptions of Python itself, the error datatypes those of the source.  The
  float arithmetic is over the reals where rounding does not matter to the code, with NaN and the
  infinities of pyfloat where the code lets them in.  The wait for an acknowledgement is a
  partial_function, so that not returning is None, and app_always_answers shows that it returns, by the
  deadline, also when acknowledgements of other commands come without end: all it needs is that each wait
  costs a time with a positive lower bound; the
  attempt loop uses the configured number of attempts as its fuel, which is the bound of the source's
  own for loop.  The frame loop is a partial_function as well, and vision_run_ends shows when it
  returns; the retries of the inference client are bounded by the configuration.  What is not under src/ is a parameter: pymavlink (the radio), pyserial, pydantic's
  coercions (the record coercions, with the hypothesis keeps_typed that values of the declared type
  are kept), the JSON text codec of the standard library where only its round trip matters.

  NOT MODELLED.  Threads are reduced to the interleavings of their steps; the dispatch of the HTTP servers, HTML, logging
  and command-line parsing are left out; the components of the manifest with the status not_modelled
  are outside this development.
\<close>

section \<open>From the telemetry to the arm channel\<close>

text \<open>
  Store, health monitor and guard as one system: a message is stored, the monitor evaluates the store and
  its report goes to the guard, and the operator's frames go through the guard.
\<close>

datatype link_op = Op_Hear telemetry_message real | Op_Report real | Op_Send real "int list"

type_synonym link_system = "telemetry_store \<times> monitor \<times> arm_guard"

fun link_op_step :: "health_settings \<Rightarrow> arm_guard_settings \<Rightarrow> link_system \<Rightarrow> link_op \<Rightarrow> link_system" where
  "link_op_step HS S (st, m, g) (Op_Hear msg t) = (store_update msg t st, m, g)"
| "link_op_step HS S (st, m, g) (Op_Report now) =
     (case evaluate HS st now m of (report, m', _) \<Rightarrow> (st, m', update_health report g))"
| "link_op_step HS S (st, m, g) (Op_Send t channels) =
     (st, m, fst (snd (guard_send_rc S (\<lambda>c w. (Inr (), w)) None t channels g ())))"

definition link_ops_run :: "health_settings \<Rightarrow> arm_guard_settings \<Rightarrow> link_op list \<Rightarrow> link_system" where
  "link_ops_run HS S ops = foldl (link_op_step HS S) (Map.empty, new_monitor, new_guard) ops"

lemma link_ops_snoc: "link_ops_run HS S (ops @ [x]) = link_op_step HS S (link_ops_run HS S ops) x"
  by (simp add: link_ops_run_def)

fun heard_in :: "link_op list \<Rightarrow> (telemetry_message \<times> real) list" where
  "heard_in [] = []"
| "heard_in (Op_Hear msg t # ops) = (msg, t) # heard_in ops"
| "heard_in (_ # ops) = heard_in ops"

lemma heard_in_append [simp]: "heard_in (xs @ ys) = heard_in xs @ heard_in ys"
  by (induction xs rule: heard_in.induct) simp_all

fun is_report :: "link_op \<Rightarrow> bool" where
  "is_report (Op_Report _) = True"
| "is_report _ = False"

lemma link_store: "fst (link_ops_run HS S ops) = stored (heard_in ops)"
proof (induction ops rule: rev_induct)
  case Nil
  then show ?case by (simp add: link_ops_run_def)
next
  case (snoc x ops)
  obtain st m g where r: "link_ops_run HS S ops = (st, m, g)" by (metis prod_cases3)
  with snoc show ?case by (cases x) (simp_all add: link_ops_snoc stored_snoc split: prod.split)
qed

text \<open>The report the guard holds is the latest one, of the store as it was then.\<close>

definition reported :: "health_settings \<Rightarrow> link_op list \<Rightarrow> health_report \<Rightarrow> bool" where
  "reported HS ops r \<longleftrightarrow> (\<exists>xs now ys m. ops = xs @ Op_Report now # ys \<and> (\<forall>y \<in> set ys. \<not> is_report y) \<and>
     r = fst (evaluate HS (stored (heard_in xs)) now m))"

lemma reported_snoc: "reported HS ops r \<Longrightarrow> \<not> is_report x \<Longrightarrow> reported HS (ops @ [x]) r"
  unfolding reported_def by (elim exE conjE, rule_tac x = xs in exI, rule_tac x = now in exI, rule_tac x = "ys @ [x]" in exI) auto

lemma guard_holds_latest: "last_report (snd (snd (link_ops_run HS S ops))) = Some r \<Longrightarrow> reported HS ops r"
proof (induction ops arbitrary: r rule: rev_induct)
  case Nil
  then show ?case by (simp add: link_ops_run_def new_guard_def)
next
  case (snoc x ops)
  obtain st m g where run: "link_ops_run HS S ops = (st, m, g)" by (metis prod_cases3)
  show ?case
  proof (cases x)
    case (Op_Report now)
    obtain report m' al where e: "evaluate HS st now m = (report, m', al)" by (metis prod_cases3)
    with snoc.prems have "r = fst (evaluate HS st now m)" by (simp add: link_ops_snoc run Op_Report update_health_def)
    moreover have "st = stored (heard_in ops)" using link_store [of HS S ops] run by simp
    ultimately show ?thesis unfolding reported_def Op_Report
      by (intro exI [of _ ops] exI [of _ now] exI [of _ "[]"]) auto
  next
    case (Op_Send t c)
    with snoc.prems have "last_report g = Some r" by (simp add: link_ops_snoc run guard_after_send split: option.splits)
    with snoc.IH run have "reported HS ops r" by simp
    then show ?thesis by (rule reported_snoc) (simp add: Op_Send)
  next
    case (Op_Hear msg t)
    with snoc have "reported HS ops r" by (simp add: link_ops_snoc run)
    then show ?thesis by (rule reported_snoc) (simp add: Op_Hear)
  qed
qed

lemma heard_in_split:
  assumes "\<exists>pre post. heard_in xs = pre @ (msg, t) # post \<and> (\<forall>e \<in> set post. Q (fst e))"
  shows "\<exists>ys zs. xs = ys @ Op_Hear msg t # zs \<and> (\<forall>e \<in> set (heard_in zs). Q (fst e))"
  using assms
proof (induction xs)
  case (Cons x xs)
  show ?case
  proof (cases "\<exists>pre post. heard_in xs = pre @ (msg, t) # post \<and> (\<forall>e \<in> set post. Q (fst e))")
    case True
    from Cons.IH [OF this] obtain ys zs where "xs = ys @ Op_Hear msg t # zs" "\<forall>e \<in> set (heard_in zs). Q (fst e)" by blast
    then show ?thesis by (intro exI [of _ "x # ys"] exI [of _ zs]) simp
  next
    case False
    then have "x = Op_Hear msg t \<and> (\<forall>e \<in> set (heard_in xs). Q (fst e))"
      using Cons.prems by (cases x) (auto simp: Cons_eq_append_conv)
    then show ?thesis by (intro exI [of _ "[]"] exI [of _ xs]) simp
  qed
qed simp

text \<open>At some send the guard held a report that permitted it, and the operator has kept the channel high since.\<close>

definition armed_at :: "health_settings \<Rightarrow> arm_guard_settings \<Rightarrow> link_op list \<Rightarrow> bool" where
  "armed_at HS S ops \<longleftrightarrow> (\<exists>pre t c post r. ops = pre @ Op_Send t c # post \<and> arm_high S c \<and> reported HS pre r \<and>
     arm_permitted r \<and> t - t_mono r \<le> arm_guard_report_max_age_s S \<and>
     (\<forall>t' c'. Op_Send t' c' \<in> set post \<longrightarrow> arm_pos S c' \<noteq> None \<longrightarrow> arm_high S c'))"

lemma armed_at_extend:
  assumes "armed_at HS S ops" "\<And>t c. x = Op_Send t c \<Longrightarrow> arm_pos S c \<noteq> None \<Longrightarrow> arm_high S c"
  shows "armed_at HS S (ops @ [x])"
proof -
  obtain pre t c post r where "ops = pre @ Op_Send t c # post" and rest: "arm_high S c" "reported HS pre r"
    "arm_permitted r" "t - t_mono r \<le> arm_guard_report_max_age_s S"
    "\<forall>t' c'. Op_Send t' c' \<in> set post \<longrightarrow> arm_pos S c' \<noteq> None \<longrightarrow> arm_high S c'"
    using assms(1) unfolding armed_at_def by blast
  then have "ops @ [x] = pre @ Op_Send t c # (post @ [x])" by simp
  with rest assms(2) show ?thesis unfolding armed_at_def
    by (intro exI [of _ pre] exI [of _ t] exI [of _ c] exI [of _ "post @ [x]"] exI [of _ r]) auto
qed

lemma latched_armed: "latched (snd (snd (link_ops_run HS S ops))) \<Longrightarrow> armed_at HS S ops"
proof (induction ops rule: rev_induct)
  case Nil
  then show ?case by (simp add: link_ops_run_def new_guard_def)
next
  case (snoc x ops)
  obtain st m g where run: "link_ops_run HS S ops = (st, m, g)" by (metis prod_cases3)
  show ?case
  proof (cases "latched g \<and> (\<forall>t c. x = Op_Send t c \<longrightarrow> arm_pos S c \<noteq> None \<longrightarrow> arm_high S c)")
    case True
    with snoc.IH run have "armed_at HS S ops" by simp
    with True show ?thesis by (intro armed_at_extend) auto
  next
    case False
    from snoc.prems have l: "latched (snd (snd (link_op_step HS S (st, m, g) x)))" by (simp add: link_ops_snoc run)
    then obtain t c where x: "x = Op_Send t c" and high: "arm_high S c" and now: "guard_arm_allowed S t g"
      using False by (cases x) (auto simp: update_health_def guard_after_send split: option.splits prod.splits)
    then obtain r where "last_report g = Some r" "arm_permitted r" "t - t_mono r \<le> arm_guard_report_max_age_s S"
      by (auto simp: guard_arm_allowed_def split: option.splits)
    with guard_holds_latest [of HS S ops r] run high x show ?thesis unfolding armed_at_def
      by (intro exI [of _ ops] exI [of _ t] exI [of _ c] exI [of _ "[]"] exI [of _ r]) auto
  qed
qed

text \<open>C2: In any order of telemetry, reports and frames, the guard is latched, so that the arm channel passes, only
  if at some frame with the channel high, since which no frame has lowered it, the latest report was recent, and the
  latest link statistics heard before that report were fresh then, with both link qualities at or above their
  warning levels.\<close>

theorem armed_only_on_healthy_link:
  assumes "latched (snd (snd (link_ops_run HS S ops)))"
  shows "\<exists>before msg t0 quiet now calm t c post.
    ops = before @ Op_Hear (LinkStatistics msg) t0 # quiet @ Op_Report now # calm @ Op_Send t c # post \<and>
    (\<forall>e \<in> set (heard_in quiet). type_of (fst e) \<noteq> TLinkStatistics) \<and> (\<forall>y \<in> set calm. \<not> is_report y) \<and>
    now - t0 \<le> health_linkstats_stale_s HS \<and> health_lq_warn HS \<le> uplink_lq msg \<and>
    health_downlink_lq_warn HS \<le> downlink_lq msg \<and> t - now \<le> arm_guard_report_max_age_s S \<and> arm_high S c \<and>
    (\<forall>t' c'. Op_Send t' c' \<in> set post \<longrightarrow> arm_pos S c' \<noteq> None \<longrightarrow> arm_high S c')"
proof -
  obtain pre t c post r where ops: "ops = pre @ Op_Send t c # post" "arm_high S c" "reported HS pre r" "arm_permitted r"
    "t - t_mono r \<le> arm_guard_report_max_age_s S"
    "\<forall>t' c'. Op_Send t' c' \<in> set post \<longrightarrow> arm_pos S c' \<noteq> None \<longrightarrow> arm_high S c'"
    using latched_armed [OF assms] unfolding armed_at_def by blast
  obtain xs now calm m where pre: "pre = xs @ Op_Report now # calm" "\<forall>y \<in> set calm. \<not> is_report y"
    and r: "r = fst (evaluate HS (stored (heard_in xs)) now m)" using ops(3) unfolding reported_def by blast
  have "fst (raw_state HS (stored (heard_in xs)) now) = HS_OK" using ops(4) unfolding r by (rule evaluate_permits)
  from raw_state_OK [OF this] obtain msg t0 where s: "stored (heard_in xs) TLinkStatistics = Some (LinkStatistics msg, t0)"
    "now - t0 \<le> health_linkstats_stale_s HS" "health_lq_warn HS \<le> uplink_lq msg" "health_downlink_lq_warn HS \<le> downlink_lq msg"
    unfolding store_latest_def by metis
  from stored_latest [OF s(1)] have "\<exists>pre post. heard_in xs = pre @ (LinkStatistics msg, t0) # post \<and> (\<forall>e \<in> set post. type_of (fst e) \<noteq> TLinkStatistics)"
    by blast
  from heard_in_split [OF this] obtain before quiet where
    "xs = before @ Op_Hear (LinkStatistics msg) t0 # quiet" "\<forall>e \<in> set (heard_in quiet). type_of (fst e) \<noteq> TLinkStatistics"
    by blast
  note xs = this
  have split: "ops = before @ Op_Hear (LinkStatistics msg) t0 # quiet @ Op_Report now # calm @ Op_Send t c # post"
    by (simp add: ops(1) pre(1) xs(1))
  have recent: "t - now \<le> arm_guard_report_max_age_s S" using ops(5) by (simp add: r)
  show ?thesis
    by (rule exI [of _ before], rule exI [of _ msg], rule exI [of _ t0], rule exI [of _ quiet], rule exI [of _ now],
        rule exI [of _ calm], rule exI [of _ t], rule exI [of _ c], rule exI [of _ post], intro conjI)
      (fact split xs(2) pre(2) s(2-4) recent ops(2,6))+
qed

definition demo_ops :: "link_op list" where
  "demo_ops = [Op_Hear (LinkStatistics demo_stats) 4, Op_Report 4, Op_Report 5, Op_Send 5 demo_channels]"

theorem armed_only_on_healthy_link_witness:
  "\<exists>before t0 quiet now rest. demo_ops = before @ Op_Hear (LinkStatistics demo_stats) t0 # quiet @ Op_Report now # rest \<and> now - t0 \<le> 1"
proof -
  have "latched (snd (snd (link_ops_run demo_health default_arm_guard_settings demo_ops)))"
    by (simp add: demo_ops_def link_ops_run_def store_update_def evaluate_def raw_state_def store_latest_def lq_signal_def
        downlink_signal_def rssi_signal_def sensitivity_floor_def demo_health_def default_health_settings_def demo_stats_def
        apply_hysteresis_def new_monitor_def escalate_def Let_def guard_after_send update_health_def new_guard_def
        arm_pos_def arm_high_def py_pos_def guard_arm_allowed_def default_arm_guard_settings_def demo_channels_def)
  from armed_only_on_healthy_link [OF this] obtain before msg t0 quiet now calm t c post where
    o: "demo_ops = before @ Op_Hear (LinkStatistics msg) t0 # quiet @ Op_Report now # calm @ Op_Send t c # post"
    and d: "now - t0 \<le> health_linkstats_stale_s demo_health" by blast
  have "Op_Hear (LinkStatistics msg) t0 \<in> set demo_ops" unfolding o by simp
  then have "msg = demo_stats" by (simp add: demo_ops_def)
  moreover have "now - t0 \<le> 1" using d by (simp add: demo_health_def default_health_settings_def)
  ultimately show ?thesis using o by blast
qed

end
